(* ===== verification/Prelude.thy ===== *)
theory Prelude
  imports Main
begin

text \<open>
  Shared vocabulary of the development: results with an error side (a Python
  call that may raise), the reading of Python dictionaries built from a list
  of pairs, first-occurrence duplicates removal (\<open>dict.fromkeys\<close>), and the
  generic list facts that several components use.
\<close>

named_theorems result_simps \<open>inversion of computations that may raise\<close>
named_theorems store_simps \<open>what an operation of the relational store does to each table\<close>

type_synonym uuid = nat
type_synonym datetime = int

section \<open>Calls that may raise\<close>

fun rbind :: "'e + 'a \<Rightarrow> ('a \<Rightarrow> 'e + 'b) \<Rightarrow> 'e + 'b" where
  "rbind (Inl e) f = Inl e"
| "rbind (Inr x) f = f x"

definition check_that :: "bool \<Rightarrow> 'e \<Rightarrow> 'e + unit" where
  "check_that b e = (if b then Inr () else Inl e)"

lemma rbind_Inr [result_simps]:
  "rbind m f = Inr y \<longleftrightarrow> (\<exists>x. m = Inr x \<and> f x = Inr y)"
  by (cases m) auto

lemma rbind_Inl [result_simps]:
  "rbind m f = Inl e \<longleftrightarrow> m = Inl e \<or> (\<exists>x. m = Inr x \<and> f x = Inl e)"
  by (cases m) auto

lemma check_that_Inr [simp, result_simps]: "check_that b e = Inr u \<longleftrightarrow> b"
  by (auto simp: check_that_def)

lemma check_that_Inl [simp, result_simps]: "check_that b e = Inl e' \<longleftrightarrow> \<not> b \<and> e' = e"
  by (auto simp: check_that_def)

lemma check_that_simps [simp]: "check_that True e = Inr ()" "check_that False e = Inl e"
  by (simp_all add: check_that_def)

text \<open>A comprehension whose element may raise stops at the first element that does.\<close>

fun map_result :: "('a \<Rightarrow> 'e + 'b) \<Rightarrow> 'a list \<Rightarrow> 'e + 'b list" where
  "map_result f [] = Inr []"
| "map_result f (x # xs) = rbind (f x) (\<lambda>y. rbind (map_result f xs) (\<lambda>ys. Inr (y # ys)))"

lemma map_result_all2: "map_result f xs = Inr ys \<Longrightarrow> list_all2 (\<lambda>x y. f x = Inr y) xs ys"
  by (induction xs arbitrary: ys) (auto simp: result_simps)

lemma map_result_Inr_iff: "map_result f xs = Inr ys \<longleftrightarrow> list_all2 (\<lambda>x y. f x = Inr y) xs ys"
  by (induction xs arbitrary: ys) (auto simp: result_simps list_all2_Cons1)

lemma map_result_append:
  "map_result f (xs @ ys) = rbind (map_result f xs) (\<lambda>us. rbind (map_result f ys) (\<lambda>vs. Inr (us @ vs)))"
proof (induction xs)
  case Nil
  show ?case by (cases "map_result f ys") auto
next
  case (Cons x xs)
  then show ?case by (cases "f x"; cases "map_result f xs"; cases "map_result f ys") auto
qed

lemma map_result_Inl: "map_result f xs = Inl e \<Longrightarrow> \<exists>x\<in>set xs. f x = Inl e"
  by (induction xs) (auto simp: result_simps)

lemma map_result_Inr_set:
  "map_result f xs = Inr ys \<Longrightarrow> y \<in> set ys \<Longrightarrow> \<exists>x\<in>set xs. f x = Inr y"
  by (induction xs arbitrary: ys) (auto simp: result_simps)

lemma map_result_succeeds: "(\<And>x. x \<in> set xs \<Longrightarrow> \<exists>y. f x = Inr y) \<Longrightarrow> \<exists>ys. map_result f xs = Inr ys"
  by (induction xs) (auto simp: result_simps)

lemma not_isl_iff: "\<not> isl r \<longleftrightarrow> (\<exists>x. r = Inr x)"
  by (cases r) auto

section \<open>Dictionaries and first occurrences\<close>

text \<open>
  A dictionary comprehension \<open>{k: v for ...}\<close> keeps the last value of a key;
  looking it up is \<open>map_of\<close> over the reversed pairs.
\<close>

definition py_dict :: "('k \<times> 'v) list \<Rightarrow> 'k \<Rightarrow> 'v option" where
  "py_dict kvs = map_of (rev kvs)"

definition from_keys :: "'a list \<Rightarrow> 'a list" where
  "from_keys xs = rev (remdups (rev xs))"

lemma py_dict_Nil [simp]: "py_dict [] k = None"
  by (simp add: py_dict_def)

lemma py_dict_SomeD: "py_dict kvs k = Some v \<Longrightarrow> (k, v) \<in> set kvs"
  by (auto simp: py_dict_def dest: map_of_SomeD)

lemma py_dict_None_iff: "py_dict kvs k = None \<longleftrightarrow> k \<notin> fst ` set kvs"
  by (simp add: py_dict_def map_of_eq_None_iff)

lemma py_dict_distinct:
  "distinct (map fst kvs) \<Longrightarrow> py_dict kvs k = Some v \<longleftrightarrow> (k, v) \<in> set kvs"
  by (simp add: py_dict_def rev_map [symmetric])

lemma py_dict_map:
  "py_dict (map (\<lambda>x. (k x, f x)) xs) t = map_option f (py_dict (map (\<lambda>x. (k x, x)) xs) t)"
proof -
  have "map_of (map (\<lambda>x. (k x, f x)) ys) t = map_option f (map_of (map (\<lambda>x. (k x, x)) ys) t)" for ys
    by (induction ys) auto
  then show ?thesis by (simp add: py_dict_def rev_map)
qed

lemma py_dict_append:
  "py_dict (xs @ ys) k = (case py_dict ys k of None \<Rightarrow> py_dict xs k | Some v \<Rightarrow> Some v)"
  by (simp add: py_dict_def map_add_def split: option.split)

lemma set_from_keys [simp]: "set (from_keys xs) = set xs"
  by (simp add: from_keys_def)

lemma distinct_from_keys [simp]: "distinct (from_keys xs)"
  by (simp add: from_keys_def)

section \<open>Lists\<close>

lemma find_SomeD: "find P xs = Some x \<Longrightarrow> P x \<and> x \<in> set xs"
  by (induction xs) (auto split: if_splits)

lemma find_append: "find P (xs @ ys) = (case find P xs of None \<Rightarrow> find P ys | Some x \<Rightarrow> Some x)"
  by (induction xs) auto

lemma find_None_iff_all: "find P xs = None \<longleftrightarrow> (\<forall>x\<in>set xs. \<not> P x)"
  by (induction xs) auto

lemma find_map_cong:
  "(\<And>x. x \<in> set xs \<Longrightarrow> P (f x) = P x) \<Longrightarrow> find P (map f xs) = map_option f (find P xs)"
  by (induction xs) auto

lemma list_ex_set: "list_ex P xs \<longleftrightarrow> (\<exists>x\<in>set xs. P x)"
  by (induction xs) auto

lemma list_all_set: "list_all P xs \<longleftrightarrow> (\<forall>x\<in>set xs. P x)"
  by (induction xs) auto

lemma takeWhile_append_stop:
  "(\<forall>x\<in>set xs. P x) \<Longrightarrow> \<not> P y \<Longrightarrow> takeWhile P (xs @ y # ys) = xs"
  by (induction xs) auto

lemma split_at_separator:
  assumes "\<forall>c\<in>set xs. c \<noteq> s" "\<forall>c\<in>set xs'. c \<noteq> s"
    and "xs @ s # ys = xs' @ s # ys'"
  shows "xs = xs' \<and> ys = ys'"
proof -
  have "takeWhile (\<lambda>c. c \<noteq> s) (xs @ s # ys) = xs"
    using assms(1) by (intro takeWhile_append_stop) auto
  moreover have "takeWhile (\<lambda>c. c \<noteq> s) (xs' @ s # ys') = xs'"
    using assms(2) by (intro takeWhile_append_stop) auto
  ultimately show ?thesis using assms(3) by simp
qed

section \<open>Numbers and identifiers as text\<close>

text \<open>\<open>sep.join(parts)\<close>\<close>

fun join_with :: "string \<Rightarrow> string list \<Rightarrow> string" where
  "join_with sep [] = []"
| "join_with sep [x] = x"
| "join_with sep (x # y # ys) = x @ sep @ join_with sep (y # ys)"


text \<open>
  Python renders an integer in decimal and a \<open>UUID\<close> as 32 lower-case
  hexadecimal digits with hyphens after the 8th, 12th, 16th and 20th.
\<close>

definition digit_char :: "nat \<Rightarrow> char" where
  "digit_char d = (if d < 10 then char_of (48 + d) else char_of (87 + d))"

fun dec_digits :: "nat \<Rightarrow> string" where
  "dec_digits n = (if n < 10 then [digit_char n] else dec_digits (n div 10) @ [digit_char (n mod 10)])"

declare dec_digits.simps [simp del]

definition str_int :: "int \<Rightarrow> string" where
  "str_int i = (if i < 0 then CHR ''-'' # dec_digits (nat (- i)) else dec_digits (nat i))"

fun hex_digits :: "nat \<Rightarrow> nat \<Rightarrow> string" where
  "hex_digits 0 n = []"
| "hex_digits (Suc w) n = hex_digits w (n div 16) @ [digit_char (n mod 16)]"

definition str_uuid :: "uuid \<Rightarrow> string" where
  "str_uuid u =
     (let h = hex_digits 32 u in
      take 8 h @ ''-'' @ take 4 (drop 8 h) @ ''-'' @ take 4 (drop 12 h) @ ''-'' @
      take 4 (drop 16 h) @ ''-'' @ drop 20 h)"

abbreviation (input) uuid_bound :: nat where "uuid_bound \<equiv> 2 ^ 128"

lemma digit_char_less: "n < 16 \<Longrightarrow> (if n < 10 then 48 + n else 87 + n) < (256 :: nat)"
  by simp

lemma of_char_digit_char:
  assumes "n < 16"
  shows "of_char (digit_char n) = (if n < 10 then 48 + n else 87 + n :: nat)"
proof (cases "n < 10")
  case True
  then have "of_char (char_of (48 + n)) = (48 + n :: nat)"
    by (subst of_char_of) auto
  with True show ?thesis by (simp add: digit_char_def)
next
  case False
  with assms have "of_char (char_of (87 + n)) = (87 + n :: nat)"
    by (subst of_char_of) auto
  with False show ?thesis by (simp add: digit_char_def)
qed

lemma digit_char_inj:
  assumes "m < 16" "n < 16" "digit_char m = digit_char n"
  shows "m = n"
proof -
  have "(of_char (digit_char m) :: nat) = of_char (digit_char n)" using assms(3) by simp
  with assms(1,2) show ?thesis by (auto simp: of_char_digit_char split: if_splits)
qed

lemma digit_char_not_sep: "n < 10 \<Longrightarrow> digit_char n \<noteq> CHR '':'' \<and> digit_char n \<noteq> CHR ''-''"
proof -
  assume "n < 10"
  then have "(of_char (digit_char n) :: nat) \<le> 57 \<and> (48::nat) \<le> of_char (digit_char n)"
    by (simp add: of_char_digit_char)
  moreover have "(of_char CHR '':'' :: nat) = 58" "(of_char CHR ''-'' :: nat) = 45"
    by (simp_all)
  ultimately show ?thesis by auto
qed

lemma set_dec_digits: "c \<in> set (dec_digits n) \<Longrightarrow> \<exists>d<10. c = digit_char d"
  by (induction n rule: dec_digits.induct, subst (asm) (2) dec_digits.simps)
    (auto split: if_splits intro: exI [of _ "_ mod 10"])

lemma dec_digits_nonempty [simp]: "dec_digits n \<noteq> []" "[] \<noteq> dec_digits n"
  by (subst dec_digits.simps, simp)+

lemma dec_digits_inj: "dec_digits m = dec_digits n \<Longrightarrow> m = n"
proof (induction m arbitrary: n rule: dec_digits.induct)
  case (1 m)
  show ?case
  proof (cases "m < 10")
    case True
    with "1.prems" show ?thesis
      by (auto simp: dec_digits.simps [of m] dec_digits.simps [of n]
          split: if_splits dest: digit_char_inj [rotated 2])
  next
    case False
    with "1.prems" have n: "\<not> n < 10"
      by (auto simp: dec_digits.simps [of m] dec_digits.simps [of n] split: if_splits)
    with False "1.prems"
    have "dec_digits (m div 10) = dec_digits (n div 10)"
      and "digit_char (m mod 10) = digit_char (n mod 10)"
      by (auto simp: dec_digits.simps [of m] dec_digits.simps [of n])
    then have "m div 10 = n div 10" "m mod 10 = n mod 10"
      using "1.IH" [OF False] by (auto dest: digit_char_inj [rotated 2])
    then show ?thesis by (metis div_mult_mod_eq)
  qed
qed

lemma set_str_int: "c \<in> set (str_int i) \<Longrightarrow> c \<noteq> CHR '':''"
  using set_dec_digits digit_char_not_sep by (fastforce simp: str_int_def split: if_splits)

lemma str_int_inj: "str_int i = str_int j \<Longrightarrow> i = j"
proof -
  have hyphen: "dec_digits m \<noteq> CHR ''-'' # xs" for m xs
    using set_dec_digits [of "CHR ''-''" m] digit_char_not_sep by fastforce
  assume "str_int i = str_int j"
  then show ?thesis
    using hyphen hyphen [THEN not_sym]
    by (auto simp: str_int_def split: if_splits dest: dec_digits_inj)
qed

lemma length_hex_digits [simp]: "length (hex_digits w n) = w"
  by (induction w arbitrary: n) auto

lemma hex_digits_inj:
  "hex_digits w m = hex_digits w n \<Longrightarrow> m < 16 ^ w \<Longrightarrow> n < 16 ^ w \<Longrightarrow> m = n"
proof (induction w arbitrary: m n)
  case 0
  then show ?case by simp
next
  case (Suc w)
  have "m div 16 < 16 ^ w" "n div 16 < 16 ^ w"
    using Suc.prems(2,3) by (auto simp: less_mult_imp_div_less mult.commute)
  moreover have "hex_digits w (m div 16) = hex_digits w (n div 16)"
    and "digit_char (m mod 16) = digit_char (n mod 16)"
    using Suc.prems(1) by auto
  ultimately have "m div 16 = n div 16" "m mod 16 = n mod 16"
    using Suc.IH by (auto dest: digit_char_inj [rotated 2])
  then show ?case by (metis div_mult_mod_eq)
qed

lemma length_str_uuid [simp]: "length (str_uuid u) = 36"
  by (simp add: str_uuid_def Let_def)

lemma str_uuid_inj:
  assumes "str_uuid u = str_uuid v" "u < uuid_bound" "v < uuid_bound"
  shows "u = v"
proof -
  let ?h = "hex_digits 32 u" and ?k = "hex_digits 32 v"
  have parts: "take 8 ?h = take 8 ?k" "take 4 (drop 8 ?h) = take 4 (drop 8 ?k)"
    "take 4 (drop 12 ?h) = take 4 (drop 12 ?k)" "take 4 (drop 16 ?h) = take 4 (drop 16 ?k)"
    "drop 20 ?h = drop 20 ?k"
    using assms(1) by (auto simp: str_uuid_def Let_def append_eq_append_conv)
  have join: "xs = take 8 xs @ take 4 (drop 8 xs) @ take 4 (drop 12 xs) @ take 4 (drop 16 xs) @ drop 20 xs"
    for xs :: string
    using take_add [of 8 4 xs] take_add [of 12 4 xs] take_add [of 16 4 xs]
      append_take_drop_id [of 20 xs] by simp
  have "?h = ?k" by (subst join [of ?h], subst join [of ?k]) (simp add: parts)
  moreover have "(16 :: nat) ^ 32 = uuid_bound" by simp
  ultimately show ?thesis using assms(2,3) hex_digits_inj by metis
qed

lemma str_uuid_eq: "u < uuid_bound \<Longrightarrow> v < uuid_bound \<Longrightarrow> str_uuid u = str_uuid v \<longleftrightarrow> u = v"
  using str_uuid_inj by auto

lemma digit_char_0: "digit_char 0 = CHR ''0''"
  by code_simp

lemma dec_digits_small: "n < 10 \<Longrightarrow> dec_digits n = [digit_char n]"
  by (simp add: dec_digits.simps)

end
