(* ===== verification/Vocabulary.thy ===== *)
theory Vocabulary
  imports Prelude
begin

text \<open>
  The closed vocabularies of the domain (\<open>domain/enums.py\<close>,
  \<open>domain/orchestration.py\<close>), the document-stage transitions
  (\<open>domain/transitions.py\<close>) and the queue envelope of a task
  (\<open>domain/tasks.py\<close>).  An enumeration is a datatype with the members of the
  source; its \<open>_value\<close> function is the member's string.
\<close>

section \<open>Document stages\<close>

datatype document_stage =
    REGISTERED | SECURITY_VALIDATED | PARSED | CLASSIFIED | EXTRACTED | INDEXED
  | READY_FOR_OFFICER_REVIEW

fun allowed_document_transition :: "document_stage \<Rightarrow> document_stage option" where
  "allowed_document_transition REGISTERED = Some SECURITY_VALIDATED"
| "allowed_document_transition SECURITY_VALIDATED = Some PARSED"
| "allowed_document_transition PARSED = Some CLASSIFIED"
| "allowed_document_transition CLASSIFIED = Some EXTRACTED"
| "allowed_document_transition EXTRACTED = Some INDEXED"
| "allowed_document_transition INDEXED = Some READY_FOR_OFFICER_REVIEW"
| "allowed_document_transition READY_FOR_OFFICER_REVIEW = None"

datatype transition_error = InvalidTransition document_stage document_stage

definition advance_document ::
  "document_stage \<Rightarrow> document_stage \<Rightarrow> transition_error + document_stage" where
  "advance_document current target =
     (if allowed_document_transition current \<noteq> Some target
      then Inl (InvalidTransition current target) else Inr target)"

text \<open>The position of a stage in the pipeline, and a run through a list of targets.\<close>

fun stage_index :: "document_stage \<Rightarrow> nat" where
  "stage_index REGISTERED = 0"
| "stage_index SECURITY_VALIDATED = 1"
| "stage_index PARSED = 2"
| "stage_index CLASSIFIED = 3"
| "stage_index EXTRACTED = 4"
| "stage_index INDEXED = 5"
| "stage_index READY_FOR_OFFICER_REVIEW = 6"

fun advance_all :: "document_stage \<Rightarrow> document_stage list \<Rightarrow> transition_error + document_stage" where
  "advance_all s [] = Inr s"
| "advance_all s (t # ts) = rbind (advance_document s t) (\<lambda>s'. advance_all s' ts)"

lemma advance_document_iff:
  "advance_document s t = Inr u \<longleftrightarrow> u = t \<and> stage_index t = Suc (stage_index s)"
  by (cases s; cases t) (auto simp: advance_document_def)

lemma stage_index_inj: "stage_index s = stage_index t \<Longrightarrow> s = t"
  by (cases s; cases t) auto

lemma advance_all_index:
  "advance_all s ts = Inr u \<Longrightarrow> stage_index u = stage_index s + length ts"
  by (induction ts arbitrary: s) (auto simp: result_simps advance_document_iff)

section \<open>Task status\<close>

datatype task_status =
    PENDING | RUNNING | RETRY_WAIT | SUCCEEDED | FAILED_MANUAL_REVIEW | SUPERSEDED

definition terminal_status :: "task_status \<Rightarrow> bool" where
  "terminal_status s \<longleftrightarrow> s \<in> {SUCCEEDED, SUPERSEDED, FAILED_MANUAL_REVIEW}"

lemma terminal_status_simps [simp]:
  "\<not> terminal_status PENDING" "\<not> terminal_status RUNNING" "\<not> terminal_status RETRY_WAIT"
  "terminal_status SUCCEEDED" "terminal_status SUPERSEDED" "terminal_status FAILED_MANUAL_REVIEW"
  by (simp_all add: terminal_status_def)

section \<open>Orchestration vocabulary\<close>

datatype task_type =
    DOCUMENT_INGESTION | ORCHESTRATOR_PLAN | CREDIT_UNDERWRITING
  | LEGAL_COMPLIANCE_COLLATERAL | INDEPENDENT_RISK_REVIEW | CREDIT_OPERATIONS

fun task_type_value :: "task_type \<Rightarrow> string" where
  "task_type_value DOCUMENT_INGESTION = ''DOCUMENT_INGESTION''"
| "task_type_value ORCHESTRATOR_PLAN = ''ORCHESTRATOR_PLAN''"
| "task_type_value CREDIT_UNDERWRITING = ''CREDIT_UNDERWRITING''"
| "task_type_value LEGAL_COMPLIANCE_COLLATERAL = ''LEGAL_COMPLIANCE_COLLATERAL''"
| "task_type_value INDEPENDENT_RISK_REVIEW = ''INDEPENDENT_RISK_REVIEW''"
| "task_type_value CREDIT_OPERATIONS = ''CREDIT_OPERATIONS''"

datatype gate_type =
    G1_INTAKE_COMPLETE | G2_GAP_REQUEST_APPROVAL | G3_RISK_DISPOSITION | G4_OPS_AUTHORIZATION
  | HG_FINANCING_NEED_CONFIRMED | HG_UNDERWRITING_ASSESSMENT_REVIEWED
  | HG_LEGAL_ASSESSMENT_REVIEWED | HG_MAKER_SUBMISSION_CONFIRMED
  | HG_CREDIT_NOTIFICATION_APPROVED | HG_SECURITY_PERFECTION_CONFIRMED
  | HG_DISBURSEMENT_CONDITIONS_CONFIRMED | HG_CONTRACT_PACKAGE_APPROVED
  | HG_SIGNATURE_AUTHORITY_CONFIRMED | HG_CONTRACTS_SIGNED | HG_DISBURSEMENT_VALIDATED
  | HG_DISBURSEMENT_AUTHORIZED | HG_SETTLEMENT_CONFIRMED | HG_RECOVERY_STRATEGY_APPROVED

datatype gate_status = OPEN | SATISFIED

datatype task_readiness =
    R_BLOCKED | R_READY | R_IN_PROGRESS | R_COMPLETE | R_SUPERSEDED | R_FAILED

fun gate_type_value :: "gate_type \<Rightarrow> string" where
  "gate_type_value G1_INTAKE_COMPLETE = ''G1_INTAKE_COMPLETE''"
| "gate_type_value G2_GAP_REQUEST_APPROVAL = ''G2_GAP_REQUEST_APPROVAL''"
| "gate_type_value G3_RISK_DISPOSITION = ''G3_RISK_DISPOSITION''"
| "gate_type_value G4_OPS_AUTHORIZATION = ''G4_OPS_AUTHORIZATION''"
| "gate_type_value HG_FINANCING_NEED_CONFIRMED = ''HG_FINANCING_NEED_CONFIRMED''"
| "gate_type_value HG_UNDERWRITING_ASSESSMENT_REVIEWED = ''HG_UNDERWRITING_ASSESSMENT_REVIEWED''"
| "gate_type_value HG_LEGAL_ASSESSMENT_REVIEWED = ''HG_LEGAL_ASSESSMENT_REVIEWED''"
| "gate_type_value HG_MAKER_SUBMISSION_CONFIRMED = ''HG_MAKER_SUBMISSION_CONFIRMED''"
| "gate_type_value HG_CREDIT_NOTIFICATION_APPROVED = ''HG_CREDIT_NOTIFICATION_APPROVED''"
| "gate_type_value HG_SECURITY_PERFECTION_CONFIRMED = ''HG_SECURITY_PERFECTION_CONFIRMED''"
| "gate_type_value HG_DISBURSEMENT_CONDITIONS_CONFIRMED = ''HG_DISBURSEMENT_CONDITIONS_CONFIRMED''"
| "gate_type_value HG_CONTRACT_PACKAGE_APPROVED = ''HG_CONTRACT_PACKAGE_APPROVED''"
| "gate_type_value HG_SIGNATURE_AUTHORITY_CONFIRMED = ''HG_SIGNATURE_AUTHORITY_CONFIRMED''"
| "gate_type_value HG_CONTRACTS_SIGNED = ''HG_CONTRACTS_SIGNED''"
| "gate_type_value HG_DISBURSEMENT_VALIDATED = ''HG_DISBURSEMENT_VALIDATED''"
| "gate_type_value HG_DISBURSEMENT_AUTHORIZED = ''HG_DISBURSEMENT_AUTHORIZED''"
| "gate_type_value HG_SETTLEMENT_CONFIRMED = ''HG_SETTLEMENT_CONFIRMED''"
| "gate_type_value HG_RECOVERY_STRATEGY_APPROVED = ''HG_RECOVERY_STRATEGY_APPROVED''"

fun readiness_value :: "task_readiness \<Rightarrow> string" where
  "readiness_value R_BLOCKED = ''BLOCKED''"
| "readiness_value R_READY = ''READY''"
| "readiness_value R_IN_PROGRESS = ''IN_PROGRESS''"
| "readiness_value R_COMPLETE = ''COMPLETE''"
| "readiness_value R_SUPERSEDED = ''SUPERSEDED''"
| "readiness_value R_FAILED = ''FAILED''"

lemma task_type_value_inj: "task_type_value s = task_type_value t \<Longrightarrow> s = t"
  by (cases s; cases t) auto

instantiation task_type :: enum
begin

definition enum_task_type :: "task_type list" where
  "enum_task_type =
     [DOCUMENT_INGESTION, ORCHESTRATOR_PLAN, CREDIT_UNDERWRITING, LEGAL_COMPLIANCE_COLLATERAL,
      INDEPENDENT_RISK_REVIEW, CREDIT_OPERATIONS]"

definition enum_all_task_type :: "(task_type \<Rightarrow> bool) \<Rightarrow> bool" where
  "enum_all_task_type P = list_all P enum_class.enum"

definition enum_ex_task_type :: "(task_type \<Rightarrow> bool) \<Rightarrow> bool" where
  "enum_ex_task_type P = list_ex P enum_class.enum"

lemma UNIV_task_type: "(UNIV :: task_type set) = set enum_class.enum"
proof -
  have "t \<in> set enum_class.enum" for t :: task_type
    by (cases t) (simp_all add: enum_task_type_def)
  then show ?thesis by auto
qed

instance
proof
  show "(UNIV :: task_type set) = set enum_class.enum" by (rule UNIV_task_type)
  show "distinct (enum_class.enum :: task_type list)" by (simp add: enum_task_type_def)
  show "enum_class.enum_all P = Ball UNIV P" for P :: "task_type \<Rightarrow> bool"
    by (simp add: enum_all_task_type_def UNIV_task_type list_all_set)
  show "enum_class.enum_ex P = Bex UNIV P" for P :: "task_type \<Rightarrow> bool"
    by (simp add: enum_ex_task_type_def UNIV_task_type list_ex_set)
qed

end

lemma card_task_type: "card (UNIV :: task_type set) = 6"
  by (simp add: UNIV_task_type enum_task_type_def)

section \<open>Structured values\<close>

text \<open>
  The values the code hands to \<open>json.dumps\<close> or to a \<open>jsonb\<close> column: dictionaries are
  association lists in insertion order, a number with a fraction or an exponent is
  the text Python prints for it.
\<close>

datatype json =
    JNull | JBool bool | JInt int | JFloat string | JStr string
  | JList "json list" | JObj "(string \<times> json) list"

section \<open>The queue envelope\<close>

record task_envelope =
  te_task_id :: uuid
  te_case_id :: uuid
  te_case_version :: int
  te_task_type :: task_type
  te_document_version_id :: "uuid option"

text \<open>
  \<open>TaskEnvelopeV1\<close>: the field bound on the case version and the document-scope
  validator decide whether the envelope validates.
\<close>

definition envelope_valid :: "task_envelope \<Rightarrow> bool" where
  "envelope_valid e \<longleftrightarrow>
     1 \<le> te_case_version e \<and>
     (te_task_type e = DOCUMENT_INGESTION) = (te_document_version_id e \<noteq> None)"

section \<open>The property of the document pipeline\<close>

text \<open>
  A document passes the stages one by one: a chain of targets is accepted exactly
  when it lists the stages that follow the current one, without a gap, a repetition
  or a step back; the first target out of order is reported with the stage reached.
\<close>

theorem document_stages_in_order:
  "(advance_all s ts = Inr u \<longleftrightarrow>
      map stage_index (s # ts) = [stage_index s..<stage_index s + Suc (length ts)] \<and> last (s # ts) = u) \<and>
   (advance_document s t = Inl (InvalidTransition s t) \<longleftrightarrow> stage_index t \<noteq> Suc (stage_index s))"
proof
  show "advance_all s ts = Inr u \<longleftrightarrow>
      map stage_index (s # ts) = [stage_index s..<stage_index s + Suc (length ts)] \<and> last (s # ts) = u"
  proof (induction ts arbitrary: s)
    case Nil
    then show ?case by auto
  next
    case (Cons t ts)
    have "advance_all s (t # ts) = Inr u \<longleftrightarrow> stage_index t = Suc (stage_index s) \<and> advance_all t ts = Inr u"
      by (auto simp: result_simps advance_document_iff)
    moreover have "[stage_index s..<stage_index s + Suc (length (t # ts))] =
        stage_index s # [Suc (stage_index s)..<Suc (stage_index s) + Suc (length ts)]"
      by (simp add: upt_conv_Cons del: upt_Suc)
    moreover have "map stage_index (t # ts) = [Suc (stage_index s)..<Suc (stage_index s) + Suc (length ts)] \<longleftrightarrow>
        stage_index t = Suc (stage_index s) \<and>
        map stage_index (t # ts) = [stage_index t..<stage_index t + Suc (length ts)]"
      by (auto simp: upt_conv_Cons simp del: upt_Suc)
    ultimately show ?case using Cons.IH [of t] by auto
  qed
qed (cases s; cases t; simp add: advance_document_def)

end
