(* ===== verification/Human_Gates.thy ===== *)
theory Human_Gates
  imports Vocabulary
begin

text \<open>
  The value objects of the orchestration port
  (\<open>application/ports/orchestration.py\<close>) and the pure gate derivations of
  \<open>application/orchestration/gates.py\<close>.
\<close>

section \<open>Snapshot of a case\<close>

record task_row =
  tr_task_id :: uuid
  tr_task_type :: task_type
  tr_case_version :: int
  tr_status :: task_status

record gate_record =
  gr_gate_type :: gate_type
  gr_case_version :: int
  gr_status :: gate_status
  gr_satisfied_by :: "uuid option"
  gr_disposition_ref :: "string option"
  gr_satisfied_at :: "datetime option"

record blocking_gap =
  bg_gap_id :: uuid
  bg_affected_task_id :: uuid
  bg_blocking_level :: string

record snapshot =
  sn_case_id :: uuid
  sn_case_version :: int
  sn_has_intake_handoff :: bool
  sn_tasks :: "task_row list"
  sn_gates :: "gate_record list"
  sn_blocking_gaps :: "blocking_gap list"

section \<open>Effective gates\<close>

definition intake_disposition_ref :: string where
  "intake_disposition_ref = ''intake-handoff''"

definition all_gates :: "gate_type list" where
  "all_gates =
     [G1_INTAKE_COMPLETE, G2_GAP_REQUEST_APPROVAL, G3_RISK_DISPOSITION, G4_OPS_AUTHORIZATION,
      HG_FINANCING_NEED_CONFIRMED,
      HG_UNDERWRITING_ASSESSMENT_REVIEWED, HG_LEGAL_ASSESSMENT_REVIEWED,
      HG_MAKER_SUBMISSION_CONFIRMED,
      HG_CREDIT_NOTIFICATION_APPROVED,
      HG_SECURITY_PERFECTION_CONFIRMED,
      HG_DISBURSEMENT_CONDITIONS_CONFIRMED,
      HG_CONTRACT_PACKAGE_APPROVED, HG_SIGNATURE_AUTHORITY_CONFIRMED, HG_CONTRACTS_SIGNED,
      HG_DISBURSEMENT_VALIDATED, HG_DISBURSEMENT_AUTHORIZED,
      HG_SETTLEMENT_CONFIRMED, HG_RECOVERY_STRATEGY_APPROVED]"

definition open_gate :: "gate_type \<Rightarrow> int \<Rightarrow> gate_record" where
  "open_gate g v =
     \<lparr>gr_gate_type = g, gr_case_version = v, gr_status = OPEN, gr_satisfied_by = None,
      gr_disposition_ref = None, gr_satisfied_at = None\<rparr>"

definition stored_gate :: "snapshot \<Rightarrow> gate_type \<Rightarrow> gate_record option" where
  "stored_gate sn g =
     py_dict (map (\<lambda>r. (gr_gate_type r, r))
       (filter (\<lambda>r. gr_case_version r = sn_case_version sn) (sn_gates sn))) g"

definition effective_gate :: "snapshot \<Rightarrow> gate_type \<Rightarrow> gate_record" where
  "effective_gate sn g =
     (if g = G1_INTAKE_COMPLETE
      then (case stored_gate sn g of
              Some r \<Rightarrow> if gr_status r = SATISFIED then r
                else if sn_has_intake_handoff sn
                then (open_gate g (sn_case_version sn))
                       \<lparr>gr_status := SATISFIED, gr_disposition_ref := Some intake_disposition_ref\<rparr>
                else open_gate g (sn_case_version sn)
            | None \<Rightarrow>
                if sn_has_intake_handoff sn
                then (open_gate g (sn_case_version sn))
                       \<lparr>gr_status := SATISFIED, gr_disposition_ref := Some intake_disposition_ref\<rparr>
                else open_gate g (sn_case_version sn))
      else (case stored_gate sn g of
              Some r \<Rightarrow> r
            | None \<Rightarrow> open_gate g (sn_case_version sn)))"

definition derive_effective_gates :: "snapshot \<Rightarrow> gate_record list" where
  "derive_effective_gates sn = map (effective_gate sn) all_gates"

lemma set_all_gates [simp]: "set all_gates = UNIV"
proof -
  have "g \<in> set all_gates" for g by (cases g) (simp_all add: all_gates_def)
  then show ?thesis by auto
qed

lemma distinct_all_gates [simp]: "distinct all_gates"
  by (simp add: all_gates_def)

lemma stored_gate_SomeD:
  "stored_gate sn g = Some r \<Longrightarrow>
   r \<in> set (sn_gates sn) \<and> gr_gate_type r = g \<and> gr_case_version r = sn_case_version sn"
  by (auto simp: stored_gate_def dest!: py_dict_SomeD)

lemma stored_gate_cong:
  "sn_gates sn = sn_gates sn' \<Longrightarrow> sn_case_version sn = sn_case_version sn' \<Longrightarrow>
   stored_gate sn g = stored_gate sn' g"
  by (simp add: stored_gate_def)

lemma effective_gate_type [simp]: "gr_gate_type (effective_gate sn g) = g"
  by (auto simp: effective_gate_def open_gate_def split: option.splits dest: stored_gate_SomeD)

lemma effective_gate_version [simp]: "gr_case_version (effective_gate sn g) = sn_case_version sn"
  by (auto simp: effective_gate_def open_gate_def split: option.splits dest: stored_gate_SomeD)

lemma effective_gate_human:
  "g \<noteq> G1_INTAKE_COMPLETE \<Longrightarrow>
   gr_status (effective_gate sn g) = SATISFIED \<longleftrightarrow>
   (\<exists>r. stored_gate sn g = Some r \<and> gr_status r = SATISFIED)"
  by (auto simp: effective_gate_def open_gate_def split: option.splits)

lemma effective_gate_intake:
  "gr_status (effective_gate sn G1_INTAKE_COMPLETE) = SATISFIED \<longleftrightarrow>
   sn_has_intake_handoff sn \<or>
   (\<exists>r. stored_gate sn G1_INTAKE_COMPLETE = Some r \<and> gr_status r = SATISFIED)"
  by (auto simp: effective_gate_def open_gate_def split: option.splits)

lemma effective_gate_keeps_satisfied:
  "stored_gate sn g = Some r \<Longrightarrow> gr_status r = SATISFIED \<Longrightarrow> effective_gate sn g = r"
  by (auto simp: effective_gate_def)

lemma map_gate_type_effective [simp]: "map gr_gate_type (derive_effective_gates sn) = all_gates"
  by (simp add: derive_effective_gates_def o_def)

lemma stored_gate_derived:
  "stored_gate (sn\<lparr>sn_gates := derive_effective_gates sn\<rparr>) g = Some (effective_gate sn g)"
proof -
  have "filter (\<lambda>r. gr_case_version r = sn_case_version sn) (derive_effective_gates sn) =
      derive_effective_gates sn"
    by (auto simp: derive_effective_gates_def filter_id_conv)
  then have "stored_gate (sn\<lparr>sn_gates := derive_effective_gates sn\<rparr>) g =
      py_dict (map (\<lambda>r. (gr_gate_type r, r)) (derive_effective_gates sn)) g"
    by (simp add: stored_gate_def)
  also have "\<dots> = Some (effective_gate sn g)"
    by (subst py_dict_distinct) (auto simp: derive_effective_gates_def o_def intro!: image_eqI [of _ _ g])
  finally show ?thesis .
qed

text \<open>
  Deriving the gates of a snapshot that already carries the derived gates changes nothing.
\<close>

lemma derive_effective_gates_idem:
  "derive_effective_gates (sn\<lparr>sn_gates := derive_effective_gates sn\<rparr>) = derive_effective_gates sn"
proof -
  have "effective_gate (sn\<lparr>sn_gates := derive_effective_gates sn\<rparr>) g = effective_gate sn g" for g
    using effective_gate_intake [of sn]
    by (auto simp: effective_gate_def [of "sn\<lparr>sn_gates := derive_effective_gates sn\<rparr>"] stored_gate_derived)
      (auto simp: effective_gate_def open_gate_def split: option.splits)
  then show ?thesis by (simp add: derive_effective_gates_def)
qed

section \<open>G3: disposition of the checker's challenges\<close>

datatype challenge_severity = LOW | MEDIUM | HIGH | CRITICAL

fun severity_order :: "challenge_severity \<Rightarrow> nat" where
  "severity_order LOW = 0"
| "severity_order MEDIUM = 1"
| "severity_order HIGH = 2"
| "severity_order CRITICAL = 3"

instantiation challenge_severity :: linorder
begin

definition less_eq_challenge_severity :: "challenge_severity \<Rightarrow> challenge_severity \<Rightarrow> bool" where
  "a \<le> b \<longleftrightarrow> severity_order a \<le> severity_order b"

definition less_challenge_severity :: "challenge_severity \<Rightarrow> challenge_severity \<Rightarrow> bool" where
  "a < b \<longleftrightarrow> severity_order a < severity_order b"

lemma severity_order_inj: "severity_order a = severity_order b \<Longrightarrow> a = b"
  by (cases a; cases b) auto

instance
  by standard
    (auto simp: less_eq_challenge_severity_def less_challenge_severity_def intro: severity_order_inj)

end

definition g3_severity_threshold :: challenge_severity where
  "g3_severity_threshold = HIGH"

definition g3_continue_types :: "string list" where
  "g3_continue_types = [''NOTED'', ''ACCEPTED_RISK'']"

text \<open>
  The mappings are association lists with distinct keys; the keys of the first
  are the challenges, in the order of the mapping.
\<close>

definition derive_g3_status ::
  "bool \<Rightarrow> (uuid \<times> challenge_severity) list \<Rightarrow> (uuid \<times> string) list \<Rightarrow> string option \<Rightarrow>
   challenge_severity \<Rightarrow> gate_status" where
  "derive_g3_status assessment_exists severities dispositions assessment_level threshold =
     (if \<not> assessment_exists then OPEN
      else (let severe = map fst (filter (\<lambda>(c, sev). threshold \<le> sev) severities) in
        if severe \<noteq> []
        then (if list_all (\<lambda>c. case py_dict dispositions c of
                  None \<Rightarrow> False | Some d \<Rightarrow> d \<in> set g3_continue_types) severe
              then SATISFIED else OPEN)
        else (case assessment_level of
                None \<Rightarrow> OPEN
              | Some d \<Rightarrow> if d \<in> set g3_continue_types then SATISFIED else OPEN)))"

lemma derive_g3_satisfied_iff:
  "derive_g3_status ae sevs disps lvl thr = SATISFIED \<longleftrightarrow>
     ae \<and>
     (\<forall>(c, sev) \<in> set sevs. thr \<le> sev \<longrightarrow>
        (\<exists>d. py_dict disps c = Some d \<and> d \<in> set g3_continue_types)) \<and>
     ((\<exists>(c, sev) \<in> set sevs. thr \<le> sev) \<or>
      (\<exists>d. lvl = Some d \<and> d \<in> set g3_continue_types))"
proof (cases "\<exists>(c, sev) \<in> set sevs. thr \<le> sev")
  case True
  then have "filter (\<lambda>(c, sev). thr \<le> sev) sevs \<noteq> []" by (auto simp: filter_empty_conv)
  then have "derive_g3_status ae sevs disps lvl thr = SATISFIED \<longleftrightarrow>
      ae \<and> (\<forall>(c, sev) \<in> set sevs. thr \<le> sev \<longrightarrow>
        (case py_dict disps c of None \<Rightarrow> False | Some d \<Rightarrow> d \<in> set g3_continue_types))"
    by (auto simp: derive_g3_status_def Let_def list_all_set)
  with True show ?thesis by (auto split: option.splits; blast)
next
  case False
  then have "filter (\<lambda>(c, sev). thr \<le> sev) sevs = []" by (auto simp: filter_empty_conv)
  with False show ?thesis by (auto simp: derive_g3_status_def Let_def split: option.splits)
qed

section \<open>G4: authorisation of the proposed actions\<close>

definition derive_g4_status :: "bool \<Rightarrow> uuid list \<Rightarrow> uuid list \<Rightarrow> gate_status" where
  "derive_g4_status package_exists action_ids authorized_action_ids =
     (if \<not> package_exists then OPEN
      else if set action_ids \<subseteq> set authorized_action_ids then SATISFIED else OPEN)"

section \<open>The properties of the gates\<close>

text \<open>
  The effective gates hold one record per gate type, of the current version, in
  the fixed order; deriving them again changes nothing; and only a human decision
  satisfies a gate: a gate other than G1 is satisfied exactly when its stored record
  of this version is, and then it is that record.  G1 is also satisfied by a ready
  intake hand-off.
\<close>

theorem effective_gates_human:
  "map gr_gate_type (derive_effective_gates sn) = all_gates \<and>
   derive_effective_gates (sn\<lparr>sn_gates := derive_effective_gates sn\<rparr>) = derive_effective_gates sn \<and>
   (\<forall>g. gr_case_version (effective_gate sn g) = sn_case_version sn \<and>
     (gr_status (effective_gate sn g) = SATISFIED \<longleftrightarrow>
       (g = G1_INTAKE_COMPLETE \<and> sn_has_intake_handoff sn) \<or>
       (\<exists>r. stored_gate sn g = Some r \<and> gr_status r = SATISFIED \<and> effective_gate sn g = r)))"
proof (intro conjI allI)
  fix g
  show "gr_status (effective_gate sn g) = SATISFIED \<longleftrightarrow>
       (g = G1_INTAKE_COMPLETE \<and> sn_has_intake_handoff sn) \<or>
       (\<exists>r. stored_gate sn g = Some r \<and> gr_status r = SATISFIED \<and> effective_gate sn g = r)"
    by (cases "g = G1_INTAKE_COMPLETE")
      (use effective_gate_human effective_gate_intake effective_gate_keeps_satisfied in fastforce)+
qed (simp_all add: derive_effective_gates_idem)

text \<open>
  G3 opens only on human dispositions: it is satisfied exactly when an assessment
  exists, every challenge at or above the threshold has a disposition that lets the
  case continue, and, when there is no such challenge, the assessment itself has one.
\<close>

theorem g3_needs_dispositions:
  "derive_g3_status ae sevs disps lvl thr = SATISFIED \<longleftrightarrow>
     ae \<and>
     list_all (\<lambda>c. \<exists>d. py_dict disps c = Some d \<and> d \<in> set g3_continue_types)
       (map fst (filter (\<lambda>(c, sev). thr \<le> sev) sevs)) \<and>
     (filter (\<lambda>(c, sev). thr \<le> sev) sevs = [] \<longrightarrow>
       (\<exists>d. lvl = Some d \<and> d \<in> set g3_continue_types))"
  unfolding derive_g3_satisfied_iff by (auto simp: list_all_set filter_empty_conv)

theorem g3_needs_dispositions_witness:
  "derive_g3_status True [(4, HIGH), (5, LOW)] [(4, ''NOTED'')] None g3_severity_threshold = SATISFIED \<and>
   derive_g3_status True [(4, HIGH), (5, LOW)] [(5, ''NOTED'')] None g3_severity_threshold = OPEN"
proof -
  have "derive_g3_status True [(4, HIGH), (5, LOW)] [(5, ''NOTED'')] None g3_severity_threshold \<noteq> SATISFIED"
    unfolding g3_needs_dispositions
    by (simp add: g3_severity_threshold_def less_eq_challenge_severity_def py_dict_def)
  moreover have "derive_g3_status True [(4, HIGH), (5, LOW)] [(4, ''NOTED'')] None g3_severity_threshold = SATISFIED"
    unfolding g3_needs_dispositions
    by (simp add: g3_severity_threshold_def less_eq_challenge_severity_def py_dict_def g3_continue_types_def)
  ultimately show ?thesis using gate_status.exhaust by blast
qed

end
