(* ===== verification/Effects.thy ===== *)
theory Effects
  imports Prelude
begin

text \<open>
  Use cases that call a repository: an action maps a state to its result, an
  exception or a value, and the state it leaves.  A call that raises keeps what
  the calls before it have committed.
\<close>

type_synonym ('s, 'e, 'a) act = "'s \<Rightarrow> ('e + 'a) \<times> 's"

named_theorems preserving \<open>assertions that an action keeps on every outcome\<close>

definition ret :: "'a \<Rightarrow> ('s, 'e, 'a) act" where
  "ret x s = (Inr x, s)"

definition raise :: "'e \<Rightarrow> ('s, 'e, 'a) act" where
  "raise e s = (Inl e, s)"

definition and_then :: "('s, 'e, 'a) act \<Rightarrow> ('a \<Rightarrow> ('s, 'e, 'b) act) \<Rightarrow> ('s, 'e, 'b) act" where
  "and_then m f s = (case m s of (Inl e, s') \<Rightarrow> (Inl e, s') | (Inr x, s') \<Rightarrow> f x s')"

text \<open>A transaction: an aborted one leaves the state as it was.\<close>

definition atomically :: "('s \<Rightarrow> 'e + 'a \<times> 's) \<Rightarrow> ('s, 'e, 'a) act" where
  "atomically op s = (case op s of Inl e \<Rightarrow> (Inl e, s) | Inr (x, s') \<Rightarrow> (Inr x, s'))"

definition transact :: "('s \<Rightarrow> 'e + 's) \<Rightarrow> ('s, 'e, unit) act" where
  "transact op s = (case op s of Inl e \<Rightarrow> (Inl e, s) | Inr s' \<Rightarrow> (Inr (), s'))"

definition reading :: "('s \<Rightarrow> 'a) \<Rightarrow> ('s, 'e, 'a) act" where
  "reading f s = (Inr (f s), s)"

definition on_error :: "('e \<Rightarrow> 'f) \<Rightarrow> ('s, 'e, 'a) act \<Rightarrow> ('s, 'f, 'a) act" where
  "on_error h m s = (case m s of (Inl e, s') \<Rightarrow> (Inl (h e), s') | (Inr x, s') \<Rightarrow> (Inr x, s'))"

fun act_map :: "('a \<Rightarrow> ('s, 'e, 'b) act) \<Rightarrow> 'a list \<Rightarrow> ('s, 'e, 'b list) act" where
  "act_map f [] = ret []"
| "act_map f (x # xs) = and_then (f x) (\<lambda>y. and_then (act_map f xs) (\<lambda>ys. ret (y # ys)))"

section \<open>Running an action\<close>

lemma run_ret [simp]: "ret x s = (Inr x, s)"
  by (simp add: ret_def)

lemma run_raise [simp]: "raise e s = (Inl e, s)"
  by (simp add: raise_def)

lemma run_reading [simp]: "reading f s = (Inr (f s), s)"
  by (simp add: reading_def)

lemma and_then_Inr: "and_then m f s = (Inr y, s'') \<longleftrightarrow> (\<exists>x s'. m s = (Inr x, s') \<and> f x s' = (Inr y, s''))"
  by (auto simp: and_then_def split: prod.splits sum.splits)

lemma and_then_run [simp]: "m s = (Inr x, s') \<Longrightarrow> and_then m f s = f x s'"
  by (simp add: and_then_def)

lemma and_then_fail [simp]: "m s = (Inl e, s') \<Longrightarrow> and_then m f s = (Inl e, s')"
  by (simp add: and_then_def)

lemma atomically_Inr [simp]: "atomically op s = (Inr x, s') \<longleftrightarrow> op s = Inr (x, s')"
  by (auto simp: atomically_def split: sum.splits)

lemma atomically_Inl [simp]: "atomically op s = (Inl e, s') \<longleftrightarrow> op s = Inl e \<and> s' = s"
  by (auto simp: atomically_def split: sum.splits)

lemma transact_Inr [simp]: "transact op s = (Inr u, s') \<longleftrightarrow> op s = Inr s'"
  by (auto simp: transact_def split: sum.splits)

lemma transact_Inl [simp]: "transact op s = (Inl e, s') \<longleftrightarrow> op s = Inl e \<and> s' = s"
  by (auto simp: transact_def split: sum.splits)

lemma on_error_Inr [simp]: "on_error h m s = (Inr x, s') \<longleftrightarrow> m s = (Inr x, s')"
  by (auto simp: on_error_def split: prod.splits sum.splits)

lemma on_error_Inl [simp]: "on_error h m s = (Inl f, s') \<longleftrightarrow> (\<exists>e. m s = (Inl e, s') \<and> f = h e)"
  by (auto simp: on_error_def split: prod.splits sum.splits)

lemma snd_on_error [simp]: "snd (on_error h m s) = snd (m s)"
  by (simp add: on_error_def split: prod.split sum.split)

section \<open>Assertions kept on every outcome\<close>

text \<open>
  \<open>keeps P m\<close>: from a state with \<open>P\<close> the action leaves a state with \<open>P\<close>, whether
  it returns or raises; \<open>yields P m Q\<close> adds what a returned value satisfies.
\<close>

definition keeps :: "('s \<Rightarrow> bool) \<Rightarrow> ('s, 'e, 'a) act \<Rightarrow> bool" where
  "keeps P m \<longleftrightarrow> (\<forall>s. P s \<longrightarrow> P (snd (m s)))"

definition yields :: "('s \<Rightarrow> bool) \<Rightarrow> ('s, 'e, 'a) act \<Rightarrow> ('a \<Rightarrow> 's \<Rightarrow> bool) \<Rightarrow> bool" where
  "yields P m Q \<longleftrightarrow> (\<forall>s x s'. P s \<longrightarrow> m s = (Inr x, s') \<longrightarrow> Q x s')"

lemma keepsD: "keeps P m \<Longrightarrow> P s \<Longrightarrow> P (snd (m s))"
  by (simp add: keeps_def)

lemma keeps_ret [simp, preserving]: "keeps P (ret x)"
  by (simp add: keeps_def)

lemma keeps_raise [simp, preserving]: "keeps P (raise e)"
  by (simp add: keeps_def)

lemma keeps_reading [simp, preserving]: "keeps P (reading f)"
  by (simp add: keeps_def)

lemma keeps_and_then_strong:
  assumes "keeps P m" "\<And>s x s'. P s \<Longrightarrow> m s = (Inr x, s') \<Longrightarrow> P (snd (f x s'))"
  shows "keeps P (and_then m f)"
  unfolding keeps_def
proof (intro allI impI)
  fix s assume "P s"
  obtain r s' where m: "m s = (r, s')" by (cases "m s")
  with \<open>P s\<close> assms(1) have "P s'" unfolding keeps_def by (metis snd_conv)
  with m \<open>P s\<close> assms(2) show "P (snd (and_then m f s))"
    by (cases r) (auto simp: and_then_def)
qed

lemma keeps_and_then [preserving]:
  "keeps P m \<Longrightarrow> (\<And>x. keeps P (f x)) \<Longrightarrow> keeps P (and_then m f)"
  by (rule keeps_and_then_strong) (auto dest: keepsD split: sum.splits, metis keepsD snd_conv)

lemma keeps_act_map [preserving]:
  "(\<And>x. x \<in> set xs \<Longrightarrow> keeps P (f x)) \<Longrightarrow> keeps P (act_map f xs)"
  by (induction xs) (auto intro!: keeps_and_then)

lemma keeps_if [preserving]:
  "(b \<Longrightarrow> keeps P m) \<Longrightarrow> (\<not> b \<Longrightarrow> keeps P n) \<Longrightarrow> keeps P (if b then m else n)"
  by simp

lemma keeps_on_error [simp, preserving]: "keeps P (on_error h m) = keeps P m"
  by (simp add: keeps_def)

lemma keepsI:
  "(\<And>s e s'. P s \<Longrightarrow> m s = (Inl e, s') \<Longrightarrow> P s') \<Longrightarrow> (\<And>s x s'. P s \<Longrightarrow> m s = (Inr x, s') \<Longrightarrow> P s') \<Longrightarrow>
   keeps P m"
  unfolding keeps_def by (metis prod.collapse sum.exhaust_sel)

lemma keeps_atomically:
  "(\<And>s x s'. P s \<Longrightarrow> op s = Inr (x, s') \<Longrightarrow> P s') \<Longrightarrow> keeps P (atomically op)"
  by (auto simp: keeps_def atomically_def split: sum.splits)

lemma keeps_transact:
  "(\<And>s s'. P s \<Longrightarrow> op s = Inr s' \<Longrightarrow> P s') \<Longrightarrow> keeps P (transact op)"
  by (auto simp: keeps_def transact_def split: sum.splits)

lemma act_map_Inr_length: "act_map f xs s = (Inr ys, s') \<Longrightarrow> length ys = length xs"
  by (induction xs arbitrary: s ys) (auto simp: and_then_Inr)

section \<open>Actions that return\<close>

definition returns :: "'s \<Rightarrow> ('s, 'e, 'a) act \<Rightarrow> ('a \<Rightarrow> 's \<Rightarrow> bool) \<Rightarrow> bool" where
  "returns s m Q \<longleftrightarrow> (\<exists>x s'. m s = (Inr x, s') \<and> Q x s')"

lemma returnsI: "m s = (Inr x, s') \<Longrightarrow> Q x s' \<Longrightarrow> returns s m Q"
  by (auto simp: returns_def)

lemma returns_ret [simp]: "returns s (ret x) Q = Q x s"
  by (simp add: returns_def)

lemma returns_on_error [simp]: "returns s (on_error h m) Q = returns s m Q"
  by (simp add: returns_def)

lemma returns_and_then:
  "returns s m Q \<Longrightarrow> (\<And>x s1. m s = (Inr x, s1) \<Longrightarrow> Q x s1 \<Longrightarrow> returns s1 (f x) R) \<Longrightarrow>
   returns s (and_then m f) R"
  by (auto simp: returns_def)

lemma returns_mono: "returns s m Q \<Longrightarrow> (\<And>x s'. Q x s' \<Longrightarrow> R x s') \<Longrightarrow> returns s m R"
  by (auto simp: returns_def)

section \<open>Assertions about each outcome\<close>

text \<open>
  \<open>hoare P m Q E\<close>: from a state with \<open>P\<close> the action returns a value and a state with
  \<open>Q\<close>, or raises in a state with \<open>E\<close>.  \<open>attempt\<close> is a try statement.
\<close>

definition attempt :: "('s, 'e, 'a) act \<Rightarrow> ('e \<Rightarrow> ('s, 'f, 'a) act) \<Rightarrow> ('s, 'f, 'a) act" where
  "attempt m h s = (case m s of (Inl e, s') \<Rightarrow> h e s' | (Inr x, s') \<Rightarrow> (Inr x, s'))"

definition hoare ::
  "('s \<Rightarrow> bool) \<Rightarrow> ('s, 'e, 'a) act \<Rightarrow> ('a \<Rightarrow> 's \<Rightarrow> bool) \<Rightarrow> ('e \<Rightarrow> 's \<Rightarrow> bool) \<Rightarrow> bool" where
  "hoare P m Q E \<longleftrightarrow>
     (\<forall>s. P s \<longrightarrow> (case m s of (Inl e, s') \<Rightarrow> E e s' | (Inr x, s') \<Rightarrow> Q x s'))"

named_theorems outcomes \<open>triples of the operations\<close>

lemma hoareI:
  "(\<And>s e s'. P s \<Longrightarrow> m s = (Inl e, s') \<Longrightarrow> E e s') \<Longrightarrow> (\<And>s x s'. P s \<Longrightarrow> m s = (Inr x, s') \<Longrightarrow> Q x s') \<Longrightarrow>
   hoare P m Q E"
  unfolding hoare_def by (auto split: prod.split sum.split)

lemma hoareD_Inr: "hoare P m Q E \<Longrightarrow> P s \<Longrightarrow> m s = (Inr x, s') \<Longrightarrow> Q x s'"
  unfolding hoare_def by force

lemma hoareD_Inl: "hoare P m Q E \<Longrightarrow> P s \<Longrightarrow> m s = (Inl e, s') \<Longrightarrow> E e s'"
  unfolding hoare_def by force

lemma hoare_ret: "(\<And>s. P s \<Longrightarrow> Q x s) \<Longrightarrow> hoare P (ret x) Q E"
  by (simp add: hoare_def)

lemma hoare_raise: "(\<And>s. P s \<Longrightarrow> E e s) \<Longrightarrow> hoare P (raise e) Q E"
  by (simp add: hoare_def)

lemma hoare_reading: "(\<And>s. P s \<Longrightarrow> Q (f s) s) \<Longrightarrow> hoare P (reading f) Q E"
  by (simp add: hoare_def)

lemma hoare_and_then:
  "hoare P m R E \<Longrightarrow> (\<And>x. hoare (R x) (f x) Q E) \<Longrightarrow> hoare P (and_then m f) Q E"
  unfolding hoare_def and_then_def by (fastforce split: prod.splits sum.splits)

lemma hoare_attempt:
  "hoare P m Q F \<Longrightarrow> (\<And>e. hoare (F e) (h e) Q E) \<Longrightarrow> hoare P (attempt m h) Q E"
  unfolding hoare_def attempt_def by (fastforce split: prod.splits sum.splits)

lemma hoare_weaken:
  "hoare P m Q E \<Longrightarrow> (\<And>s. P' s \<Longrightarrow> P s) \<Longrightarrow> (\<And>x s. Q x s \<Longrightarrow> Q' x s) \<Longrightarrow> (\<And>e s. E e s \<Longrightarrow> E' e s) \<Longrightarrow>
   hoare P' m Q' E'"
  unfolding hoare_def by (fastforce split: prod.splits sum.splits)

lemma hoare_if:
  "(b \<Longrightarrow> hoare P m Q E) \<Longrightarrow> (\<not> b \<Longrightarrow> hoare P n Q E) \<Longrightarrow> hoare P (if b then m else n) Q E"
  by simp

lemma keeps_hoare: "keeps P m = hoare P m (\<lambda>_. P) (\<lambda>_. P)"
  unfolding keeps_def hoare_def by (auto split: prod.splits sum.splits) (metis snd_conv sum.exhaust prod.collapse)+

lemma hoare_after_keeps:
  "keeps P m \<Longrightarrow> (\<And>x. hoare P (f x) Q (\<lambda>_. P)) \<Longrightarrow> hoare P (and_then m f) Q (\<lambda>_. P)"
  unfolding keeps_hoare by (rule hoare_and_then)

end
