(* ===== verification/Orchestration_Port.thy ===== *)
theory Orchestration_Port
  imports Human_Gates Effects
begin

text \<open>
  \<open>OrchestrationRepository\<close> of \<open>application/ports/orchestration.py\<close>: the protocol as
  a record of operations that the use cases receive, and its contract as
  locales over an arbitrary state.
\<close>

section \<open>Values of the port\<close>

datatype store_error =
    StaleCaseVersion
  | IntegrityError string
  | ValidationFailed
  | RowDisappeared string

record orchestration_audit_event =
  ae_case_id :: uuid
  ae_case_version :: int
  ae_event_type :: string
  ae_execution_id :: uuid
  ae_artifact_type :: string
  ae_artifact_id :: uuid
  ae_event_data :: "(string \<times> json) list"

record created_task =
  ct_row :: task_row
  ct_created :: bool

record planner_proposal =
  pr_id :: uuid
  pr_case_id :: uuid
  pr_case_version :: int
  pr_execution_id :: uuid
  pr_proposal :: json
  pr_status :: string
  pr_validation_errors :: "string list"
  pr_prompt_version :: string
  pr_schema_version :: string
  pr_model_version :: "string option"

text \<open>
  Merging two objects: \<open>jsonb || jsonb\<close> and \<open>{**a, **b}\<close> keep the keys of the left
  side that the right side does not override.
\<close>

definition json_merge :: "(string \<times> json) list \<Rightarrow> (string \<times> json) list \<Rightarrow> (string \<times> json) list" where
  "json_merge a b = filter (\<lambda>(k, v). k \<notin> fst ` set b) a @ b"

record 's orch_repo =
  rp_load_snapshot :: "uuid \<Rightarrow> 's \<Rightarrow> snapshot option"
  rp_bump_case_version ::
    "uuid \<Rightarrow> int \<Rightarrow> string \<Rightarrow> string \<Rightarrow> uuid option \<Rightarrow> ('s, store_error, int) act"
  rp_ensure_gate ::
    "uuid \<Rightarrow> int \<Rightarrow> gate_type \<Rightarrow> gate_status \<Rightarrow> uuid option \<Rightarrow> string option \<Rightarrow>
     ('s, store_error, gate_record) act"
  rp_create_task ::
    "uuid \<Rightarrow> uuid \<Rightarrow> int \<Rightarrow> task_type \<Rightarrow> string \<Rightarrow> json \<Rightarrow> uuid list \<Rightarrow>
     ('s, store_error, created_task) act"
  rp_record_proposal :: "planner_proposal \<Rightarrow> ('s, store_error, unit) act"
  rp_append_audit :: "orchestration_audit_event \<Rightarrow> ('s, store_error, unit) act"

section \<open>What \<open>ensure_gate\<close> promises of one gate\<close>

definition satisfied_record :: "gate_record \<Rightarrow> uuid option \<Rightarrow> string option \<Rightarrow> datetime \<Rightarrow> gate_record" where
  "satisfied_record r actor ref now =
     r\<lparr>gr_status := SATISFIED, gr_satisfied_by := actor, gr_disposition_ref := ref,
       gr_satisfied_at := Some now\<rparr>"

text \<open>
  From the stored record (or none) and the requested status to the record that
  is read back: a satisfied gate never changes, an open one is satisfied on
  request, an absent one is created open first.
\<close>

definition gate_ensured ::
  "gate_record option \<Rightarrow> gate_type \<Rightarrow> int \<Rightarrow> gate_status \<Rightarrow> uuid option \<Rightarrow> string option \<Rightarrow>
   gate_record \<Rightarrow> bool" where
  "gate_ensured old g v status actor ref r \<longleftrightarrow>
     (let r0 = (case old of None \<Rightarrow> open_gate g v | Some r0 \<Rightarrow> r0) in
      if gr_status r0 = SATISFIED \<or> status = OPEN then r = r0
      else \<exists>now. r = satisfied_record r0 actor ref now)"

lemma gate_ensured_status:
  "gate_ensured old g v status actor ref r \<Longrightarrow>
   gr_status r = SATISFIED \<longleftrightarrow> status = SATISFIED \<or> (\<exists>r0. old = Some r0 \<and> gr_status r0 = SATISFIED)"
  by (auto simp: gate_ensured_def Let_def satisfied_record_def open_gate_def
      split: option.splits if_splits) (metis gate_status.exhaust)+

lemma gate_ensured_satisfied:
  "gate_ensured (Some r0) g v status actor ref r \<Longrightarrow> gr_status r0 = SATISFIED \<Longrightarrow> r = r0"
  by (simp add: gate_ensured_def)

section \<open>The contract\<close>

text \<open>
  \<open>inv\<close> is the provider's invariant, \<open>keys c s\<close> the idempotency keys taken in a
  case, \<open>task_ids\<close> and \<open>proposal_ids\<close> the primary keys in use.
\<close>

locale case_repository =
  fixes repo :: "'s orch_repo"
    and inv :: "'s \<Rightarrow> bool"
    and keys :: "uuid \<Rightarrow> 's \<Rightarrow> string set"
    and task_ids :: "'s \<Rightarrow> uuid set"
    and proposal_ids :: "'s \<Rightarrow> uuid set"
  assumes load_case_id: "rp_load_snapshot repo c s = Some sn \<Longrightarrow> sn_case_id sn = c"
    and load_version: "inv s \<Longrightarrow> rp_load_snapshot repo c s = Some sn \<Longrightarrow> 1 \<le> sn_case_version sn"
    and load_task_ids:
      "rp_load_snapshot repo c s = Some sn \<Longrightarrow> tr_task_id ` set (sn_tasks sn) \<subseteq> task_ids s"
    and audit_fails: "rp_append_audit repo e s = (Inl err, s') \<Longrightarrow> s' = s"
    and audit_returns:
      "inv s \<Longrightarrow> rp_append_audit repo e s = (Inr u, s') \<Longrightarrow>
       inv s' \<and> rp_load_snapshot repo c s' = rp_load_snapshot repo c s \<and> keys c s' = keys c s \<and>
       task_ids s' = task_ids s \<and> proposal_ids s' = proposal_ids s"
    and audit_succeeds:
      "inv s \<Longrightarrow> rp_load_snapshot repo (ae_case_id e) s \<noteq> None \<Longrightarrow>
       \<exists>s'. rp_append_audit repo e s = (Inr (), s')"
    and proposal_fails: "rp_record_proposal repo p s = (Inl err, s') \<Longrightarrow> s' = s"
    and proposal_returns:
      "inv s \<Longrightarrow> rp_record_proposal repo p s = (Inr u, s') \<Longrightarrow>
       inv s' \<and> rp_load_snapshot repo c s' = rp_load_snapshot repo c s \<and> keys c s' = keys c s \<and>
       task_ids s' = task_ids s \<and> proposal_ids s' = insert (pr_id p) (proposal_ids s)"
    and proposal_succeeds:
      "inv s \<Longrightarrow> rp_load_snapshot repo (pr_case_id p) s \<noteq> None \<Longrightarrow> pr_id p \<notin> proposal_ids s \<Longrightarrow>
       \<exists>s'. rp_record_proposal repo p s = (Inr (), s')"

locale orchestration_repository = case_repository +
  assumes gate_fails: "rp_ensure_gate repo c v g st a ref s = (Inl err, s') \<Longrightarrow> s' = s"
    and gate_returns:
      "inv s \<Longrightarrow> rp_load_snapshot repo c s = Some sn \<Longrightarrow> v = sn_case_version sn \<Longrightarrow>
       rp_ensure_gate repo c v g st a ref s = (Inr r, s') \<Longrightarrow>
       inv s' \<and> (\<forall>c'. keys c' s' = keys c' s) \<and> task_ids s' = task_ids s \<and>
       proposal_ids s' = proposal_ids s \<and>
       (\<forall>c'. c' \<noteq> c \<longrightarrow> rp_load_snapshot repo c' s' = rp_load_snapshot repo c' s) \<and>
       gate_ensured (stored_gate sn g) g v st a ref r \<and>
       (\<exists>gs. rp_load_snapshot repo c s' = Some (sn\<lparr>sn_gates := gs\<rparr>) \<and>
          (\<forall>g'. stored_gate (sn\<lparr>sn_gates := gs\<rparr>) g' = (if g' = g then Some r else stored_gate sn g')))"
    and gate_same:
      "inv s \<Longrightarrow> rp_load_snapshot repo c s = Some sn \<Longrightarrow> v = sn_case_version sn \<Longrightarrow>
       rp_ensure_gate repo c v g st a ref s = (Inr r, s') \<Longrightarrow>
       stored_gate sn g = Some r0 \<Longrightarrow> gr_status r0 = SATISFIED \<or> st = OPEN \<Longrightarrow> s' = s"
    and gate_succeeds:
      "inv s \<Longrightarrow> rp_load_snapshot repo c s \<noteq> None \<Longrightarrow>
       \<exists>r s'. rp_ensure_gate repo c v g st a ref s = (Inr r, s')"
    and task_fails: "rp_create_task repo i c v t key p deps s = (Inl err, s') \<Longrightarrow> s' = s"
    and task_known:
      "inv s \<Longrightarrow> key \<in> keys c s \<Longrightarrow> rp_create_task repo i c v t key p deps s = (Inr ct, s') \<Longrightarrow>
       s' = s \<and> \<not> ct_created ct"
    and task_returns:
      "inv s \<Longrightarrow> rp_load_snapshot repo c s = Some sn \<Longrightarrow> v = sn_case_version sn \<Longrightarrow> key \<notin> keys c s \<Longrightarrow>
       rp_create_task repo i c v t key p deps s = (Inr ct, s') \<Longrightarrow>
       inv s' \<and> ct_created ct \<and>
       ct_row ct = \<lparr>tr_task_id = i, tr_task_type = t, tr_case_version = v, tr_status = PENDING\<rparr> \<and>
       i \<notin> task_ids s \<and> task_ids s' = insert i (task_ids s) \<and> proposal_ids s' = proposal_ids s \<and>
       keys c s' = insert key (keys c s) \<and> t \<noteq> DOCUMENT_INGESTION \<and>
       (\<forall>c'. c' \<noteq> c \<longrightarrow> keys c' s' = keys c' s \<and> rp_load_snapshot repo c' s' = rp_load_snapshot repo c' s) \<and>
       rp_load_snapshot repo c s' = Some (sn\<lparr>sn_tasks := sn_tasks sn @ [ct_row ct]\<rparr>)"
    and task_succeeds:
      "inv s \<Longrightarrow> rp_load_snapshot repo c s = Some sn \<Longrightarrow> v = sn_case_version sn \<Longrightarrow>
       t \<noteq> DOCUMENT_INGESTION \<Longrightarrow> i \<notin> task_ids s \<Longrightarrow>
       (\<And>d. d \<in> set deps \<Longrightarrow>
          \<exists>r\<in>set (sn_tasks sn). tr_task_id r = d \<and> tr_case_version r = v) \<Longrightarrow>
       \<exists>ct s'. rp_create_task repo i c v t key p deps s = (Inr ct, s')"

locale revision_repository = orchestration_repository +
  assumes bump_stale:
      "inv s \<Longrightarrow> rp_load_snapshot repo c s = Some sn \<Longrightarrow> sn_case_version sn \<noteq> expected \<Longrightarrow>
       rp_bump_case_version repo c expected reason ref actor s = (Inl StaleCaseVersion, s)"
    and bump_current:
      "inv s \<Longrightarrow> rp_load_snapshot repo c s = Some sn \<Longrightarrow> sn_case_version sn = expected \<Longrightarrow>
       \<exists>s'. rp_bump_case_version repo c expected reason ref actor s = (Inr (expected + 1), s') \<and>
         inv s' \<and> (\<forall>c'. keys c' s' = keys c' s) \<and> task_ids s' = task_ids s \<and>
         proposal_ids s' = proposal_ids s \<and>
         (\<forall>c'. c' \<noteq> c \<longrightarrow> rp_load_snapshot repo c' s' = rp_load_snapshot repo c' s) \<and>
         rp_load_snapshot repo c s' =
           Some (sn\<lparr>sn_case_version := expected + 1, sn_gates := [], sn_blocking_gaps := []\<rparr>)"

end
