(* ===== verification/Case_Store.thy ===== *)
theory Case_Store
  imports Orchestration_Port "HOL-Library.Product_Lexorder"
begin

text \<open>
  The tables behind \<open>PostgresOrchestrationRepository\<close>
  (\<open>infrastructure/postgres/orchestration.py\<close>) as one record of lists, and its
  operations as functions on it.  A table lists its rows in the order of
  \<open>created_at\<close>; the unique keys and foreign keys that a statement relies on are
  checks that abort the operation, which leaves the store as it was.
\<close>

text \<open>\<open>btrim\<close> of the database, as the check constraints of the tables use it.\<close>

definition btrim :: "string \<Rightarrow> string" where
  "btrim s = rev (dropWhile (\<lambda>c. c = CHR '' '') (rev (dropWhile (\<lambda>c. c = CHR '' '') s)))"

definition not_blank :: "string \<Rightarrow> bool" where
  "not_blank s \<longleftrightarrow> btrim s \<noteq> []"

lemmas row_text_simps = not_blank_def btrim_def

section \<open>Tables\<close>

record processing_task =
  pt_id :: uuid
  pt_case_id :: uuid
  pt_case_version :: int
  pt_document_version_id :: "uuid option"
  pt_task_type :: task_type
  pt_status :: task_status
  pt_attempt_count :: nat
  pt_max_attempts :: nat
  pt_available_at :: datetime
  pt_lease_token :: "uuid option"
  pt_lease_until :: "datetime option"
  pt_input_payload :: json
  pt_idempotency_key :: string
  pt_failure_reason :: "string option"
  pt_completed_at :: "datetime option"

record handoff_row =
  hr_id :: uuid
  hr_case_id :: uuid
  hr_case_version :: int
  hr_source_task_id :: uuid
  hr_state :: string
  hr_data :: "(string \<times> json) list"
  hr_stale_at :: "datetime option"

record gap_row =
  gp_id :: uuid
  gp_case_id :: uuid
  gp_case_version :: int
  gp_affected_task_id :: uuid
  gp_status :: string
  gp_blocking_level :: string

record task_dependency =
  td_case_id :: uuid
  td_case_version :: int
  td_task_id :: uuid
  td_depends_on :: uuid

record outbox_event =
  ob_event_id :: uuid
  ob_case_id :: uuid
  ob_case_version :: int
  ob_event_type :: string
  ob_aggregate_id :: uuid
  ob_payload :: json
  ob_created_at :: datetime
  ob_dispatch_attempts :: nat
  ob_dispatched_at :: "datetime option"

record audit_row =
  au_id :: uuid
  au_case_id :: uuid
  au_case_version :: int
  au_event_type :: string
  au_actor_type :: string
  au_actor_id :: "uuid option"
  au_artifact_type :: string
  au_artifact_id :: uuid
  au_event_data :: "(string \<times> json) list"
  au_created_at :: datetime

record document_row =
  dv_id :: uuid
  dv_case_id :: uuid
  dv_case_version :: int
  dv_stale_at :: "datetime option"

record task_checkpoint =
  tc_task_id :: uuid
  tc_case_id :: uuid
  tc_case_version :: int
  tc_document_version_id :: "uuid option"
  tc_sequence_no :: int
  tc_checkpoint_type :: string
  tc_schema_version :: string
  tc_data :: json
  tc_created_at :: datetime

record worker_slot =
  ws_owner :: uuid
  ws_token :: uuid
  ws_until :: datetime

text \<open>
  \<open>st_uuids\<close> is the sequence of the values \<open>gen_random_uuid()\<close> and the adapter's
  \<open>uuid4()\<close> return, \<open>st_drawn\<close> how many have been drawn, \<open>st_clock\<close> the clock of
  the database.
\<close>

record store =
  st_cases :: "(uuid \<times> int) list"
  st_handoffs :: "handoff_row list"
  st_tasks :: "processing_task list"
  st_gates :: "(uuid \<times> gate_record) list"
  st_gaps :: "gap_row list"
  st_dependencies :: "task_dependency list"
  st_outbox :: "outbox_event list"
  st_proposals :: "planner_proposal list"
  st_audit :: "audit_row list"
  st_documents :: "document_row list"
  st_checkpoints :: "task_checkpoint list"
  st_slot :: "worker_slot option"
  st_clock :: datetime
  st_uuids :: "nat \<Rightarrow> uuid"
  st_drawn :: nat

section \<open>Reading a case\<close>

definition agent_task_types :: "task_type list" where
  "agent_task_types = filter (\<lambda>t. t \<noteq> DOCUMENT_INGESTION) enum_class.enum"

definition case_version_of :: "store \<Rightarrow> uuid \<Rightarrow> int option" where
  "case_version_of st c = map_of (st_cases st) c"

definition task_view :: "processing_task \<Rightarrow> task_row" where
  "task_view t =
     \<lparr>tr_task_id = pt_id t, tr_task_type = pt_task_type t, tr_case_version = pt_case_version t,
      tr_status = pt_status t\<rparr>"

definition case_tasks :: "store \<Rightarrow> uuid \<Rightarrow> processing_task list" where
  "case_tasks st c =
     filter (\<lambda>t. pt_case_id t = c \<and> pt_task_type t \<in> set agent_task_types) (st_tasks st)"

definition has_ready_handoff :: "store \<Rightarrow> uuid \<Rightarrow> int \<Rightarrow> bool" where
  "has_ready_handoff st c v \<longleftrightarrow>
     list_ex (\<lambda>h. hr_case_id h = c \<and> hr_case_version h = v \<and>
       hr_state h = ''READY_FOR_SPECIALIST_REVIEW'' \<and> hr_stale_at h = None) (st_handoffs st)"

definition case_gates :: "store \<Rightarrow> uuid \<Rightarrow> int \<Rightarrow> gate_record list" where
  "case_gates st c v =
     map snd (filter (\<lambda>(c', g). c' = c \<and> gr_case_version g = v) (st_gates st))"

definition unresolved_gaps :: "store \<Rightarrow> uuid \<Rightarrow> int \<Rightarrow> blocking_gap list" where
  "unresolved_gaps st c v =
     map (\<lambda>g. \<lparr>bg_gap_id = gp_id g, bg_affected_task_id = gp_affected_task_id g,
               bg_blocking_level = gp_blocking_level g\<rparr>)
       (filter (\<lambda>g. gp_case_id g = c \<and> gp_case_version g = v \<and>
          gp_status g \<in> {''PROVISIONAL'', ''FORMAL''}) (st_gaps st))"

definition load_snapshot :: "store \<Rightarrow> uuid \<Rightarrow> snapshot option" where
  "load_snapshot st c =
     (case case_version_of st c of
        None \<Rightarrow> None
      | Some v \<Rightarrow> Some
          \<lparr>sn_case_id = c, sn_case_version = v, sn_has_intake_handoff = has_ready_handoff st c v,
           sn_tasks = map task_view (case_tasks st c), sn_gates = case_gates st c v,
           sn_blocking_gaps = unresolved_gaps st c v\<rparr>)"

section \<open>Writing\<close>

definition draw_uuid :: "store \<Rightarrow> uuid \<times> store" where
  "draw_uuid st = (st_uuids st (st_drawn st), st\<lparr>st_drawn := Suc (st_drawn st)\<rparr>)"

definition insert_audit ::
  "uuid \<Rightarrow> int \<Rightarrow> string \<Rightarrow> string \<Rightarrow> uuid option \<Rightarrow> string \<Rightarrow> uuid \<Rightarrow> (string \<times> json) list \<Rightarrow> store \<Rightarrow>
   store_error + store" where
  "insert_audit c v event actor_type actor artifact_type artifact data st =
     (let (i, st') = draw_uuid st in
      rbind (check_that (case_version_of st c \<noteq> None) (IntegrityError ''audit_events.case_id'')) (\<lambda>_.
      Inr (st'\<lparr>st_audit := st_audit st' @
             [\<lparr>au_id = i, au_case_id = c, au_case_version = v, au_event_type = event,
               au_actor_type = actor_type, au_actor_id = actor, au_artifact_type = artifact_type,
               au_artifact_id = artifact, au_event_data = data, au_created_at = st_clock st\<rparr>]\<rparr>)))"

text \<open>
  \<open>bump_case_version\<close>: the guarded update, the audit row at the new version and
  the clone of the latest live handoff of the expected version, in one
  transaction.  The time stamp in the event data stands for its ISO text.
\<close>

definition clone_handoff :: "uuid \<Rightarrow> int \<Rightarrow> int \<Rightarrow> string \<Rightarrow> string \<Rightarrow> store \<Rightarrow> store" where
  "clone_handoff c expected new_version reason ref st =
     (let (i, st') = draw_uuid st in
      case find (\<lambda>h. hr_case_id h = c \<and> hr_case_version h = expected \<and>
             hr_state h = ''READY_FOR_SPECIALIST_REVIEW'' \<and> hr_stale_at h = None)
             (rev (st_handoffs st)) of
        None \<Rightarrow> st'
      | Some h \<Rightarrow> st'\<lparr>st_handoffs := st_handoffs st' @
          [h\<lparr>hr_id := i, hr_case_version := new_version,
             hr_data := json_merge (hr_data h)
               [(''revisionProvenance'',
                 JObj [(''reissuedFromVersion'', JInt expected), (''reason'', JStr reason),
                       (''dispositionRef'', JStr ref)])]\<rparr>]\<rparr>)"

definition bump_case_version ::
  "uuid \<Rightarrow> int \<Rightarrow> string \<Rightarrow> string \<Rightarrow> uuid option \<Rightarrow> store \<Rightarrow> store_error + int \<times> store" where
  "bump_case_version c expected reason ref actor st =
     (if case_version_of st c \<noteq> Some expected then Inl StaleCaseVersion
      else
        let v = expected + 1;
            st1 = st\<lparr>st_cases := map (\<lambda>(k, w). (k, if k = c then v else w)) (st_cases st)\<rparr>
        in rbind (insert_audit c v ''CASE_VERSION_BUMPED'' ''HUMAN:RISK_REVIEWER'' actor
                    ''CREDIT_CASE'' c
                    [(''reason'', JStr reason), (''dispositionRef'', JStr ref),
                     (''previousVersion'', JInt expected), (''newVersion'', JInt v),
                     (''recordedAt'', JInt (st_clock st))] st1)
             (\<lambda>st2. Inr (v, clone_handoff c expected v reason ref st2)))"

text \<open>
  \<open>ensure_gate\<close>: insert the gate when it is absent, satisfy it when the caller
  asks for it and it is open, read it back.
\<close>

definition is_gate_row :: "uuid \<Rightarrow> int \<Rightarrow> gate_type \<Rightarrow> uuid \<times> gate_record \<Rightarrow> bool" where
  "is_gate_row c v g row \<longleftrightarrow>
     fst row = c \<and> gr_case_version (snd row) = v \<and> gr_gate_type (snd row) = g"

definition insert_open_gate :: "uuid \<Rightarrow> int \<Rightarrow> gate_type \<Rightarrow> store \<Rightarrow> store" where
  "insert_open_gate c v g st =
     (if list_ex (is_gate_row c v g) (st_gates st) then st
      else st\<lparr>st_gates := st_gates st @ [(c, open_gate g v)]\<rparr>)"

definition satisfy_row ::
  "uuid \<Rightarrow> int \<Rightarrow> gate_type \<Rightarrow> uuid option \<Rightarrow> string option \<Rightarrow> datetime \<Rightarrow> uuid \<times> gate_record \<Rightarrow>
   uuid \<times> gate_record" where
  "satisfy_row c v g actor ref now row =
     (if is_gate_row c v g row \<and> gr_status (snd row) = OPEN
      then (fst row, satisfied_record (snd row) actor ref now) else row)"

definition satisfy_open_gate ::
  "uuid \<Rightarrow> int \<Rightarrow> gate_type \<Rightarrow> uuid option \<Rightarrow> string option \<Rightarrow> store \<Rightarrow> store" where
  "satisfy_open_gate c v g actor ref st =
     st\<lparr>st_gates := map (satisfy_row c v g actor ref (st_clock st)) (st_gates st)\<rparr>"

definition ensure_gate ::
  "uuid \<Rightarrow> int \<Rightarrow> gate_type \<Rightarrow> gate_status \<Rightarrow> uuid option \<Rightarrow> string option \<Rightarrow> store \<Rightarrow>
   store_error + gate_record \<times> store" where
  "ensure_gate c v g status actor ref st =
     rbind (check_that (case_version_of st c \<noteq> None) (IntegrityError ''human_gates.case_id'')) (\<lambda>_.
       let st1 = insert_open_gate c v g st;
           st2 = (if status = SATISFIED then satisfy_open_gate c v g actor ref st1 else st1)
       in case find (is_gate_row c v g) (st_gates st2) of
            None \<Rightarrow> Inl (RowDisappeared ''human gate row disappeared after upsert'')
          | Some row \<Rightarrow> Inr (snd row, st2))"

text \<open>\<open>create_task\<close>: the task row, its dependencies and its outbox event.\<close>

definition envelope_dump :: "task_envelope \<Rightarrow> json" where
  "envelope_dump e =
     JObj [(''schema_version'', JStr ''1''), (''task_id'', JStr (str_uuid (te_task_id e))),
           (''case_id'', JStr (str_uuid (te_case_id e))),
           (''case_version'', JInt (te_case_version e)),
           (''task_type'', JStr (task_type_value (te_task_type e))),
           (''document_version_id'',
             case te_document_version_id e of None \<Rightarrow> JNull | Some d \<Rightarrow> JStr (str_uuid d))]"

definition has_key :: "uuid \<Rightarrow> string \<Rightarrow> processing_task \<Rightarrow> bool" where
  "has_key c key t \<longleftrightarrow> pt_case_id t = c \<and> pt_idempotency_key t = key"

fun insert_dependencies ::
  "uuid \<Rightarrow> int \<Rightarrow> uuid \<Rightarrow> uuid list \<Rightarrow> store \<Rightarrow> store_error + store" where
  "insert_dependencies c v t [] st = Inr st"
| "insert_dependencies c v t (d # ds) st =
     (if list_ex (\<lambda>r. td_task_id r = t \<and> td_depends_on r = d) (st_dependencies st)
      then insert_dependencies c v t ds st
      else rbind (check_that (d \<noteq> t) (IntegrityError ''task_dependencies_no_self_dependency'')) (\<lambda>_.
           rbind (check_that
                (list_ex (\<lambda>r. pt_id r = d \<and> pt_case_id r = c \<and> pt_case_version r = v) (st_tasks st))
                (IntegrityError ''task_dependencies_depends_case_fk'')) (\<lambda>_.
           insert_dependencies c v t ds
             (st\<lparr>st_dependencies := st_dependencies st @
                  [\<lparr>td_case_id = c, td_case_version = v, td_task_id = t, td_depends_on = d\<rparr>]\<rparr>))))"

definition insert_task_ready_event :: "task_envelope \<Rightarrow> store \<Rightarrow> store" where
  "insert_task_ready_event e st =
     (let (i, st') = draw_uuid st in
      st'\<lparr>st_outbox := st_outbox st' @
        [\<lparr>ob_event_id = i, ob_case_id = te_case_id e, ob_case_version = te_case_version e,
          ob_event_type = ''TASK_READY'', ob_aggregate_id = te_task_id e,
          ob_payload = envelope_dump e, ob_created_at = st_clock st',
          ob_dispatch_attempts = 0, ob_dispatched_at = None\<rparr>]\<rparr>)"

definition new_task ::
  "uuid \<Rightarrow> uuid \<Rightarrow> int \<Rightarrow> task_type \<Rightarrow> string \<Rightarrow> json \<Rightarrow> datetime \<Rightarrow> processing_task" where
  "new_task i c v t key payload now =
     \<lparr>pt_id = i, pt_case_id = c, pt_case_version = v, pt_document_version_id = None,
      pt_task_type = t, pt_status = PENDING, pt_attempt_count = 0, pt_max_attempts = 3,
      pt_available_at = now, pt_lease_token = None, pt_lease_until = None,
      pt_input_payload = payload, pt_idempotency_key = key, pt_failure_reason = None,
      pt_completed_at = None\<rparr>"

definition create_task ::
  "uuid \<Rightarrow> uuid \<Rightarrow> int \<Rightarrow> task_type \<Rightarrow> string \<Rightarrow> json \<Rightarrow> uuid list \<Rightarrow> store \<Rightarrow>
   store_error + created_task \<times> store" where
  "create_task i c v t key payload depends_on st =
     (case find (has_key c key) (st_tasks st) of
        Some existing \<Rightarrow> Inr (\<lparr>ct_row = task_view existing, ct_created = False\<rparr>, st)
      | None \<Rightarrow>
          rbind (check_that (list_all (\<lambda>r. pt_id r \<noteq> i) (st_tasks st))
                   (IntegrityError ''processing_tasks_pkey'')) (\<lambda>_.
          rbind (check_that (case_version_of st c \<noteq> None)
                   (IntegrityError ''processing_tasks.case_id'')) (\<lambda>_.
          let e = \<lparr>te_task_id = i, te_case_id = c, te_case_version = v, te_task_type = t,
                   te_document_version_id = None\<rparr>;
              task = new_task i c v t key payload (st_clock st)
          in rbind (insert_dependencies c v i depends_on (st\<lparr>st_tasks := st_tasks st @ [task]\<rparr>)) (\<lambda>st1.
             rbind (check_that (envelope_valid e) ValidationFailed) (\<lambda>_.
             Inr (\<lparr>ct_row = task_view task, ct_created = True\<rparr>, insert_task_ready_event e st1))))))"

definition record_proposal :: "planner_proposal \<Rightarrow> store \<Rightarrow> store_error + store" where
  "record_proposal p st =
     rbind (check_that (list_all (\<lambda>r. pr_id r \<noteq> pr_id p) (st_proposals st))
              (IntegrityError ''planner_proposals_pkey'')) (\<lambda>_.
     rbind (check_that (case_version_of st (pr_case_id p) \<noteq> None)
              (IntegrityError ''planner_proposals.case_id'')) (\<lambda>_.
     Inr (st\<lparr>st_proposals := st_proposals st @ [p]\<rparr>)))"

definition append_audit :: "orchestration_audit_event \<Rightarrow> store \<Rightarrow> store_error + store" where
  "append_audit e st =
     insert_audit (ae_case_id e) (ae_case_version e) (ae_event_type e) ''AGENT:CASE_ORCHESTRATOR'' None
       (ae_artifact_type e) (ae_artifact_id e)
       (json_merge (ae_event_data e) [(''executionId'', JStr (str_uuid (ae_execution_id e)))]) st"

text \<open>The outbox: undispatched events in the order \<open>(created_at, id)\<close>.\<close>

definition load_undispatched_outbox :: "nat \<Rightarrow> store \<Rightarrow> outbox_event list" where
  "load_undispatched_outbox limit st =
     take limit (sort_key (\<lambda>e. (ob_created_at e, ob_event_id e))
       (filter (\<lambda>e. ob_dispatched_at e = None) (st_outbox st)))"

definition mark_outbox_dispatched :: "uuid \<Rightarrow> store \<Rightarrow> store" where
  "mark_outbox_dispatched i st =
     st\<lparr>st_outbox := map (\<lambda>e. if ob_event_id e = i \<and> ob_dispatched_at e = None
          then e\<lparr>ob_dispatched_at := Some (st_clock st)\<rparr> else e) (st_outbox st)\<rparr>"

definition record_outbox_dispatch_failure :: "uuid \<Rightarrow> store \<Rightarrow> store" where
  "record_outbox_dispatch_failure i st =
     st\<lparr>st_outbox := map (\<lambda>e. if ob_event_id e = i \<and> ob_dispatched_at e = None
          then e\<lparr>ob_dispatch_attempts := Suc (ob_dispatch_attempts e)\<rparr> else e) (st_outbox st)\<rparr>"

end
