(* ===== verification/Task_Graph.thy ===== *)
theory Task_Graph
  imports Vocabulary
begin

text \<open>
  \<open>application/orchestration/graph.py\<close>: the canonical dependency template, the
  depth-first cycle check that guards it, and the deadlock report.
\<close>

section \<open>The canonical template\<close>

record task_node =
  tn_task_type :: task_type
  tn_predecessors :: "task_type list"
  tn_required_gate :: "gate_type option"

type_synonym dependency_template = "task_node list"

definition template_nodes :: "task_node list" where
  "template_nodes =
     [\<lparr>tn_task_type = CREDIT_UNDERWRITING, tn_predecessors = [],
       tn_required_gate = Some G1_INTAKE_COMPLETE\<rparr>,
      \<lparr>tn_task_type = LEGAL_COMPLIANCE_COLLATERAL, tn_predecessors = [],
       tn_required_gate = Some G1_INTAKE_COMPLETE\<rparr>,
      \<lparr>tn_task_type = INDEPENDENT_RISK_REVIEW,
       tn_predecessors = [CREDIT_UNDERWRITING, LEGAL_COMPLIANCE_COLLATERAL],
       tn_required_gate = Some G2_GAP_REQUEST_APPROVAL\<rparr>,
      \<lparr>tn_task_type = CREDIT_OPERATIONS, tn_predecessors = [INDEPENDENT_RISK_REVIEW],
       tn_required_gate = Some G3_RISK_DISPOSITION\<rparr>]"

definition by_type :: "dependency_template \<Rightarrow> task_type \<Rightarrow> task_node option" where
  "by_type tpl t = py_dict (map (\<lambda>n. (tn_task_type n, n)) tpl) t"

definition template_edges :: "dependency_template \<Rightarrow> (task_type \<times> task_type list) list" where
  "template_edges tpl = map (\<lambda>n. (tn_task_type n, tn_predecessors n)) tpl"

definition ordered_types :: "dependency_template \<Rightarrow> task_type list" where
  "ordered_types tpl = map tn_task_type tpl"

fun priority_from :: "nat \<Rightarrow> dependency_template \<Rightarrow> task_type \<Rightarrow> nat" where
  "priority_from i [] t = i"
| "priority_from i (n # ns) t = (if tn_task_type n = t then i else priority_from (Suc i) ns t)"

text \<open>The index of the first node of the type, or the number of nodes when there is none.\<close>

definition priority_of :: "dependency_template \<Rightarrow> task_type \<Rightarrow> nat" where
  "priority_of tpl t = priority_from 0 tpl t"

lemma priority_from_nth:
  "priority_from i ns t - i < length ns \<Longrightarrow> tn_task_type (ns ! (priority_from i ns t - i)) = t"
proof (induction ns arbitrary: i)
  case Nil
  then show ?case by simp
next
  case (Cons n ns)
  have ge: "Suc i \<le> priority_from (Suc i) ns t" if "tn_task_type n \<noteq> t"
  proof -
    have "j \<le> priority_from j ms t" for j ms
      by (induction ms arbitrary: j) (auto intro: Suc_leD)
    then show ?thesis .
  qed
  show ?case
  proof (cases "tn_task_type n = t")
    case True
    then show ?thesis by simp
  next
    case False
    with ge Cons.prems have "priority_from (Suc i) ns t - Suc i < length ns" by auto
    from Cons.IH [OF this] False ge show ?thesis
      by (auto simp: nth_Cons split: nat.split) (metis diff_Suc_Suc Suc_diff_le diff_Suc_1 Suc_diff_Suc Suc_le_lessD)
  qed
qed

section \<open>Cycle detection\<close>

datatype node_color = WHITE | GREY | BLACK

type_synonym edge_map = "(task_type \<times> task_type list) list"

record dfs_state =
  dfs_color :: "task_type \<Rightarrow> node_color"
  dfs_stack :: "task_type list"

text \<open>
  \<open>edges.get(node, ())\<close>; the stack is appended at its end, and
  \<open>stack[stack.index(p):] + (p,)\<close> is the reported cycle.  Each nested \<open>visit\<close>
  turns one more node grey, so six nested calls exhaust the task types and
  fuel seven is enough (lemma \<open>detect_cycle_total\<close>).
\<close>

definition preds_of :: "edge_map \<Rightarrow> task_type \<Rightarrow> task_type list" where
  "preds_of edges n = (case py_dict edges n of None \<Rightarrow> [] | Some ps \<Rightarrow> ps)"

fun visit :: "nat \<Rightarrow> edge_map \<Rightarrow> task_type \<Rightarrow> dfs_state \<Rightarrow> (task_type list option \<times> dfs_state) option"
and visit_preds ::
  "nat \<Rightarrow> edge_map \<Rightarrow> task_type list \<Rightarrow> dfs_state \<Rightarrow> (task_type list option \<times> dfs_state) option"
where
  "visit 0 edges n s = None"
| "visit (Suc fuel) edges n s =
     (case visit_preds fuel edges (preds_of edges n)
             (s\<lparr>dfs_color := (dfs_color s)(n := GREY), dfs_stack := dfs_stack s @ [n]\<rparr>) of
        None \<Rightarrow> None
      | Some (Some c, s') \<Rightarrow> Some (Some c, s')
      | Some (None, s') \<Rightarrow>
          Some (None, s'\<lparr>dfs_color := (dfs_color s')(n := BLACK),
                         dfs_stack := butlast (dfs_stack s')\<rparr>))"
| "visit_preds fuel edges [] s = Some (None, s)"
| "visit_preds fuel edges (p # ps) s =
     (case dfs_color s p of
        GREY \<Rightarrow> Some (Some (dropWhile (\<lambda>m. m \<noteq> p) (dfs_stack s) @ [p]), s)
      | WHITE \<Rightarrow>
          (case visit fuel edges p s of
             None \<Rightarrow> None
           | Some (Some c, s') \<Rightarrow> Some (Some c, s')
           | Some (None, s') \<Rightarrow> visit_preds fuel edges ps s')
      | BLACK \<Rightarrow> visit_preds fuel edges ps s)"

fun visit_roots :: "edge_map \<Rightarrow> task_type list \<Rightarrow> dfs_state \<Rightarrow> task_type list option option" where
  "visit_roots edges [] s = Some None"
| "visit_roots edges (n # ns) s =
     (if dfs_color s n = WHITE
      then (case visit 7 edges n s of
              None \<Rightarrow> None
            | Some (Some c, s') \<Rightarrow> Some (Some c)
            | Some (None, s') \<Rightarrow> visit_roots edges ns s')
      else visit_roots edges ns s)"

text \<open>\<open>Some None\<close>: the graph has no cycle; \<open>Some (Some c)\<close>: \<open>c\<close> is a cycle.\<close>

definition detect_cycle :: "edge_map \<Rightarrow> task_type list option option" where
  "detect_cycle edges =
     visit_roots edges (from_keys (map fst edges)) \<lparr>dfs_color = (\<lambda>_. WHITE), dfs_stack = []\<rparr>"

definition canonical :: "string + dependency_template" where
  "canonical =
     (case detect_cycle (template_edges template_nodes) of
        Some None \<Rightarrow> Inr template_nodes
      | _ \<Rightarrow> Inl ''canonical dependency template contains a cycle'')"


section \<open>The cycle check is correct\<close>

definition edge_rel :: "edge_map \<Rightarrow> (task_type \<times> task_type) set" where
  "edge_rel edges = {(n, p). p \<in> set (preds_of edges n)}"

definition is_cycle :: "edge_map \<Rightarrow> task_type list \<Rightarrow> bool" where
  "is_cycle edges c \<longleftrightarrow>
     2 \<le> length c \<and> hd c = last c \<and> successively (\<lambda>a b. b \<in> set (preds_of edges a)) c"

text \<open>
  The invariant of the search: the stack is the path of grey nodes, black nodes
  only have black predecessors, and the edges leaving black nodes are acyclic.
\<close>

definition black_edges :: "edge_map \<Rightarrow> dfs_state \<Rightarrow> (task_type \<times> task_type) set" where
  "black_edges edges s = {(n, p). dfs_color s n = BLACK \<and> p \<in> set (preds_of edges n)}"

definition dfs_inv :: "edge_map \<Rightarrow> dfs_state \<Rightarrow> bool" where
  "dfs_inv edges s \<longleftrightarrow>
     set (dfs_stack s) = {n. dfs_color s n = GREY} \<and>
     successively (\<lambda>a b. b \<in> set (preds_of edges a)) (dfs_stack s) \<and>
     (\<forall>n. dfs_color s n = BLACK \<longrightarrow> (\<forall>p\<in>set (preds_of edges n). dfs_color s p = BLACK)) \<and>
     acyclic (black_edges edges s)"

definition grows :: "dfs_state \<Rightarrow> dfs_state \<Rightarrow> bool" where
  "grows s t \<longleftrightarrow>
     (\<forall>m. (dfs_color t m = GREY) = (dfs_color s m = GREY)) \<and>
     (\<forall>m. dfs_color s m = BLACK \<longrightarrow> dfs_color t m = BLACK)"

definition whites :: "dfs_state \<Rightarrow> task_type set" where
  "whites s = {n. dfs_color s n = WHITE}"

lemma grows_refl [simp]: "grows s s"
  by (simp add: grows_def)

lemma grows_trans: "grows s t \<Longrightarrow> grows t u \<Longrightarrow> grows s u"
  by (simp add: grows_def)

lemma grows_whites: "grows s t \<Longrightarrow> whites t \<subseteq> whites s"
  unfolding grows_def whites_def by (auto, metis node_color.exhaust)

lemma grows_card: "grows s t \<Longrightarrow> card (whites t) \<le> card (whites s)"
  by (simp add: card_mono grows_whites)

lemma acyclic_add_source:
  assumes "acyclic R" "R \<subseteq> B \<times> B" "P \<subseteq> B" "n \<notin> B"
  shows "acyclic (R \<union> {n} \<times> P)"
proof -
  have "y \<in> B \<and> (x \<in> B \<longrightarrow> (x, y) \<in> R\<^sup>+)" if "(x, y) \<in> (R \<union> {n} \<times> P)\<^sup>+" for x y
    using that
  proof (induction rule: trancl.induct)
    case (r_into_trancl x y)
    with assms show ?case by auto
  next
    case (trancl_into_trancl x y z)
    with assms(2,3,4) show ?case by (auto intro: trancl.trancl_into_trancl)
  qed
  with assms(1) show ?thesis by (fastforce simp: acyclic_def)
qed

lemma stack_cycle:
  assumes path: "successively (\<lambda>a b. b \<in> set (preds_of edges a)) xs"
    and p: "p \<in> set xs" "p \<in> set (preds_of edges (last xs))"
  shows "is_cycle edges (dropWhile (\<lambda>m. m \<noteq> p) xs @ [p])"
proof -
  define ys zs where "ys = takeWhile (\<lambda>m. m \<noteq> p) xs" and "zs = dropWhile (\<lambda>m. m \<noteq> p) xs"
  then have xs: "xs = ys @ zs" by simp
  have ne: "zs \<noteq> []" using p(1) by (auto simp: zs_def dropWhile_eq_Nil_conv)
  then have hd: "hd zs = p" using hd_dropWhile [of "\<lambda>m. m \<noteq> p" xs] by (simp add: zs_def)
  have "successively (\<lambda>a b. b \<in> set (preds_of edges a)) (zs @ [p])"
    using path p(2) ne by (simp add: xs successively_append_iff)
  moreover have "2 \<le> length (zs @ [p])" using ne by (cases zs) auto
  ultimately have "is_cycle edges (zs @ [p])"
    using ne hd unfolding is_cycle_def by (auto simp: hd_append)
  then show ?thesis by (simp add: zs_def)
qed

lemma dfs_inv_enter:
  assumes "dfs_inv edges s" "dfs_color s n = WHITE"
    and "dfs_stack s = [] \<or> n \<in> set (preds_of edges (last (dfs_stack s)))"
  shows "dfs_inv edges (s\<lparr>dfs_color := (dfs_color s)(n := GREY), dfs_stack := dfs_stack s @ [n]\<rparr>)"
    (is "dfs_inv edges ?t")
proof -
  have "black_edges edges ?t = black_edges edges s"
    using assms(2) by (auto simp: black_edges_def split: if_splits)
  then show ?thesis using assms by (auto simp: dfs_inv_def successively_append_iff)
qed

lemma dfs_inv_leave:
  assumes inv: "dfs_inv edges t" and stack: "dfs_stack t = xs @ [n]" "n \<notin> set xs"
    and preds: "\<forall>p\<in>set (preds_of edges n). dfs_color t p = BLACK"
  shows "dfs_inv edges (t\<lparr>dfs_color := (dfs_color t)(n := BLACK), dfs_stack := butlast (dfs_stack t)\<rparr>)"
    (is "dfs_inv edges ?u")
proof -
  have grey: "dfs_color t n = GREY"
    using inv stack(1) by (auto simp: dfs_inv_def set_eq_iff)
  let ?B = "{m. dfs_color t m = BLACK}"
  have "black_edges edges t \<subseteq> ?B \<times> ?B"
    using inv by (auto simp: black_edges_def dfs_inv_def)
  then have "acyclic (black_edges edges t \<union> {n} \<times> set (preds_of edges n))"
    using inv preds grey by (intro acyclic_add_source [where B = ?B]) (auto simp: dfs_inv_def)
  moreover have "black_edges edges ?u \<subseteq> black_edges edges t \<union> {n} \<times> set (preds_of edges n)"
    by (auto simp: black_edges_def split: if_splits)
  ultimately have "acyclic (black_edges edges ?u)" by (rule acyclic_subset)
  moreover have "set (dfs_stack ?u) = {m. dfs_color ?u m = GREY}"
    using inv stack by (auto simp: dfs_inv_def set_eq_iff)
  ultimately show ?thesis
    using inv stack(1) preds by (auto simp: dfs_inv_def successively_append_iff)
qed

lemma visit_spec:
  "dfs_inv edges s \<Longrightarrow> dfs_color s n = WHITE \<Longrightarrow>
   dfs_stack s = [] \<or> n \<in> set (preds_of edges (last (dfs_stack s))) \<Longrightarrow>
   card (whites s) \<le> fuel \<Longrightarrow>
   \<exists>r t. visit fuel edges n s = Some (r, t) \<and>
     (case r of Some c \<Rightarrow> is_cycle edges c
      | None \<Rightarrow> dfs_inv edges t \<and> dfs_stack t = dfs_stack s \<and> dfs_color t n = BLACK \<and> grows s t)"
  and visit_preds_spec:
  "dfs_inv edges s \<Longrightarrow> dfs_stack s \<noteq> [] \<Longrightarrow>
   set ps \<subseteq> set (preds_of edges (last (dfs_stack s))) \<Longrightarrow> card (whites s) \<le> fuel \<Longrightarrow>
   \<exists>r t. visit_preds fuel edges ps s = Some (r, t) \<and>
     (case r of Some c \<Rightarrow> is_cycle edges c
      | None \<Rightarrow> dfs_inv edges t \<and> dfs_stack t = dfs_stack s \<and>
          (\<forall>p\<in>set ps. dfs_color t p = BLACK) \<and> grows s t)"
proof (induction fuel edges n s and fuel edges ps s rule: visit_visit_preds.induct)
  case (1 edges n s)
  then have "whites s = {}" by (simp add: card_eq_0_iff)
  with 1 show ?case by (simp add: whites_def)
next
  case (2 fuel edges n s)
  let ?s = "s\<lparr>dfs_color := (dfs_color s)(n := GREY), dfs_stack := dfs_stack s @ [n]\<rparr>"
  have white: "n \<in> whites s" using "2.prems"(2) by (simp add: whites_def)
  have "whites ?s = whites s - {n}" by (auto simp: whites_def)
  with white "2.prems"(4) have card: "card (whites ?s) \<le> fuel" by (simp add: card_Diff_singleton)
  have fresh: "n \<notin> set (dfs_stack s)" using "2.prems"(1,2) by (auto simp: dfs_inv_def)
  have "dfs_inv edges ?s" using "2.prems"(1-3) by (rule dfs_inv_enter)
  from "2.IH" [OF this _ _ card]
  obtain r t where t: "visit_preds fuel edges (preds_of edges n) ?s = Some (r, t)"
    and post: "case r of Some c \<Rightarrow> is_cycle edges c
      | None \<Rightarrow> dfs_inv edges t \<and> dfs_stack t = dfs_stack ?s \<and>
          (\<forall>p\<in>set (preds_of edges n). dfs_color t p = BLACK) \<and> grows ?s t"
    by (metis (no_types, lifting) dfs_state.select_convs(2) dfs_state.surjective
        dfs_state.update_convs(2) last_snoc order_refl snoc_eq_iff_butlast)
  show ?case
  proof (cases r)
    case (Some c)
    with t post show ?thesis by simp
  next
    case None
    let ?u = "t\<lparr>dfs_color := (dfs_color t)(n := BLACK), dfs_stack := butlast (dfs_stack t)\<rparr>"
    from None post have "dfs_inv edges ?u" using fresh by (intro dfs_inv_leave) auto
    moreover have "grows s ?u"
      using None post "2.prems"(2) by (auto simp: grows_def split: if_splits)
    ultimately show ?thesis using None post t by auto
  qed
next
  case (3 fuel edges s)
  then show ?case by simp
next
  case (4 fuel edges p ps s)
  show ?case
  proof (cases "dfs_color s p")
    case GREY
    then have "p \<in> set (dfs_stack s)" using "4.prems"(1) by (simp add: dfs_inv_def)
    with "4.prems" have "is_cycle edges (dropWhile (\<lambda>m. m \<noteq> p) (dfs_stack s) @ [p])"
      by (intro stack_cycle) (auto simp: dfs_inv_def)
    with GREY show ?thesis by simp
  next
    case BLACK
    with "4.IH"(3) [OF BLACK "4.prems"(1,2) _ "4.prems"(4)] "4.prems"(3)
    obtain r t where t: "visit_preds fuel edges ps s = Some (r, t)" and
      post: "case r of Some c \<Rightarrow> is_cycle edges c
        | None \<Rightarrow> dfs_inv edges t \<and> dfs_stack t = dfs_stack s \<and>
            (\<forall>p\<in>set ps. dfs_color t p = BLACK) \<and> grows s t" by auto
    show ?thesis using BLACK t post by (cases r) (auto simp: grows_def)
  next
    case WHITE
    from "4.IH"(1) [OF WHITE "4.prems"(1) WHITE _ "4.prems"(4)] "4.prems"(3)
    obtain r t where t: "visit fuel edges p s = Some (r, t)" and
      post: "case r of Some c \<Rightarrow> is_cycle edges c
        | None \<Rightarrow> dfs_inv edges t \<and> dfs_stack t = dfs_stack s \<and> dfs_color t p = BLACK \<and> grows s t"
      by auto
    show ?thesis
    proof (cases r)
      case (Some c)
      with WHITE t post show ?thesis by simp
    next
      case None
      with post have inv: "dfs_inv edges t" and st: "dfs_stack t = dfs_stack s"
        and black: "dfs_color t p = BLACK" and grow: "grows s t" by auto
      have "card (whites t) \<le> fuel" using grows_card [OF grow] "4.prems"(4) by simp
      from "4.IH"(2) [OF WHITE t [unfolded None] refl refl inv _ _ this] st "4.prems"(2,3)
      obtain r' u where u: "visit_preds fuel edges ps t = Some (r', u)" and
        post': "case r' of Some c \<Rightarrow> is_cycle edges c
          | None \<Rightarrow> dfs_inv edges u \<and> dfs_stack u = dfs_stack t \<and>
              (\<forall>p\<in>set ps. dfs_color u p = BLACK) \<and> grows t u" by auto
      show ?thesis using WHITE t None u post' st black grow grows_trans
        by (cases r') (auto simp: grows_def)
    qed
  qed
qed

lemma visit_roots_spec:
  assumes "dfs_inv edges s" "dfs_stack s = []"
  shows "(\<exists>c. visit_roots edges ns s = Some (Some c) \<and> is_cycle edges c) \<or>
    (visit_roots edges ns s = Some None \<and>
     (\<exists>t. dfs_inv edges t \<and> dfs_stack t = [] \<and> (\<forall>n\<in>set ns. dfs_color t n = BLACK) \<and> grows s t))"
  using assms
proof (induction ns arbitrary: s)
  case Nil
  then show ?case by auto
next
  case (Cons n ns)
  show ?case
  proof (cases "dfs_color s n = WHITE")
    case True
    have "card (whites s) \<le> card (UNIV :: task_type set)" by (rule card_mono) auto
    then have "card (whites s) \<le> 7" by (simp add: card_task_type)
    from visit_spec [OF Cons.prems(1) True _ this] Cons.prems(2)
    obtain r t where t: "visit 7 edges n s = Some (r, t)" and
      post: "case r of Some c \<Rightarrow> is_cycle edges c
        | None \<Rightarrow> dfs_inv edges t \<and> dfs_stack t = dfs_stack s \<and> dfs_color t n = BLACK \<and> grows s t"
      by blast
    show ?thesis
    proof (cases r)
      case (Some c)
      with True t post show ?thesis by simp
    next
      case None
      with post Cons.prems(2) have "dfs_inv edges t" "dfs_stack t = []" by auto
      from Cons.IH [OF this] show ?thesis
        using None True t post by (auto simp: grows_def)
    qed
  next
    case False
    with Cons.prems have "dfs_color s n = BLACK"
      by (cases "dfs_color s n") (auto simp: dfs_inv_def)
    with False Cons.IH [OF Cons.prems] show ?thesis by (auto simp: grows_def)
  qed
qed

lemma dfs_inv_initial: "dfs_inv edges \<lparr>dfs_color = (\<lambda>_. WHITE), dfs_stack = []\<rparr>"
  by (simp add: dfs_inv_def black_edges_def acyclic_def)

lemma is_cycle_not_acyclic:
  assumes "is_cycle edges c"
  shows "\<not> acyclic (edge_rel edges)"
proof -
  have reach: "(hd xs, last xs) \<in> (edge_rel edges)\<^sup>*"
    if "successively (\<lambda>a b. b \<in> set (preds_of edges a)) xs" "xs \<noteq> []" for xs
    using that
  proof (induction xs)
    case Nil
    then show ?case by simp
  next
    case (Cons x xs)
    then show ?case
      by (cases xs) (auto simp: edge_rel_def intro: converse_rtrancl_into_rtrancl)
  qed
  from assms obtain x y ys where xy: "c = x # y # ys"
    by (cases c rule: remdups_adj.cases) (auto simp: is_cycle_def)
  define xs where "xs = y # ys"
  with xy assms have c: "c = x # xs" "xs \<noteq> []" "x = last xs" by (auto simp: is_cycle_def)
  with assms have "(x, hd xs) \<in> edge_rel edges"
    by (cases xs) (auto simp: is_cycle_def edge_rel_def)
  moreover have "(hd xs, last xs) \<in> (edge_rel edges)\<^sup>*"
    using assms c by (intro reach) (auto simp: is_cycle_def successively_Cons)
  ultimately have "(x, x) \<in> (edge_rel edges)\<^sup>+" using c(3) by auto
  then show ?thesis by (auto simp: acyclic_def)
qed

lemma detect_cycle_cases:
  "(\<exists>c. detect_cycle edges = Some (Some c) \<and> is_cycle edges c) \<or>
   (detect_cycle edges = Some None \<and> acyclic (edge_rel edges))"
proof -
  let ?s = "\<lparr>dfs_color = (\<lambda>_. WHITE), dfs_stack = []\<rparr>"
  consider (cycle) c where "detect_cycle edges = Some (Some c)" "is_cycle edges c"
    | (none) t where "detect_cycle edges = Some None" "dfs_inv edges t"
        "\<forall>n\<in>fst ` set edges. dfs_color t n = BLACK"
    using visit_roots_spec [OF dfs_inv_initial, of edges "from_keys (map fst edges)"]
    unfolding detect_cycle_def by auto
  then show ?thesis
  proof cases
    case none
    have "edge_rel edges \<subseteq> black_edges edges t"
    proof
      fix e assume "e \<in> edge_rel edges"
      then obtain n p where e: "e = (n, p)" "p \<in> set (preds_of edges n)"
        by (auto simp: edge_rel_def)
      then obtain ps where "py_dict edges n = Some ps"
        by (cases "py_dict edges n") (auto simp: preds_of_def)
      then have "n \<in> fst ` set edges" by (force dest: py_dict_SomeD)
      with none(3) e show "e \<in> black_edges edges t" by (auto simp: black_edges_def)
    qed
    with none show ?thesis by (auto simp: dfs_inv_def intro: acyclic_subset)
  qed blast
qed

lemma detect_cycle_total: "detect_cycle edges \<noteq> None"
  using detect_cycle_cases [of edges] by auto

lemma canonical_ok: "canonical = Inr template_nodes"
  by code_simp

section \<open>The deadlock report\<close>

record deadlock =
  dl_blocked :: "(task_type \<times> string) list"
  dl_reasons :: "string list"

text \<open>
  The two mappings are given as association lists in the order of the report;
  \<open>reasons.get(task_type, "blocked")\<close> is the dictionary lookup.
\<close>

definition detect_deadlock ::
  "(task_type \<times> task_readiness) list \<Rightarrow> (task_type \<times> string) list \<Rightarrow> deadlock option" where
  "detect_deadlock assessments reasons =
     (let incomplete = filter (\<lambda>(t, st). st \<notin> {R_COMPLETE, R_SUPERSEDED}) assessments;
          has_progress = list_ex (\<lambda>(t, st). st \<in> {R_READY, R_IN_PROGRESS}) assessments;
          remaining_work = list_ex (\<lambda>(t, st). st \<notin> {R_COMPLETE, R_SUPERSEDED}) assessments
      in if has_progress \<or> \<not> remaining_work then None
         else (let blocked = map (\<lambda>(t, st).
                     (t, case py_dict reasons t of None \<Rightarrow> ''blocked'' | Some r \<Rightarrow> r)) incomplete
               in Some \<lparr>dl_blocked = blocked, dl_reasons = from_keys (map snd blocked)\<rparr>))"

lemma detect_deadlock_None_iff:
  "detect_deadlock as rs = None \<longleftrightarrow>
     (\<exists>(t, st)\<in>set as. st = R_READY \<or> st = R_IN_PROGRESS) \<or>
     (\<forall>(t, st)\<in>set as. st = R_COMPLETE \<or> st = R_SUPERSEDED)"
  by (auto simp: detect_deadlock_def Let_def list_ex_set)

section \<open>The property of the cycle check\<close>

text \<open>
  The depth-first search decides acyclicity for every edge mapping: it returns,
  reports no cycle exactly when the predecessor relation is acyclic, and otherwise
  reports a genuine cycle of the mapping.
\<close>

theorem detect_cycle_correct:
  "if acyclic (edge_rel edges) then detect_cycle edges = Some None
   else \<exists>c. detect_cycle edges = Some (Some c) \<and> is_cycle edges c"
  using detect_cycle_cases [of edges] is_cycle_not_acyclic by auto

section \<open>Termination of the search\<close>

text \<open>Without the invariant: the fuel only has to bound the white nodes.\<close>

lemma visit_returns:
  "dfs_color s n = WHITE \<Longrightarrow> card (whites s) \<le> fuel \<Longrightarrow>
     \<exists>r s'. visit fuel edges n s = Some (r, s') \<and> whites s' \<subseteq> whites s"
  "card (whites s) \<le> fuel \<Longrightarrow>
     \<exists>r s'. visit_preds fuel edges ps s = Some (r, s') \<and> whites s' \<subseteq> whites s"
proof (induction fuel edges n s and fuel edges ps s rule: visit_visit_preds.induct)
  case (1 edges n s)
  then have "whites s = {}" by (simp add: finite_subset [OF subset_UNIV])
  with 1 show ?case by (auto simp: whites_def)
next
  case (2 fuel edges n s)
  let ?s = "s\<lparr>dfs_color := (dfs_color s)(n := GREY), dfs_stack := dfs_stack s @ [n]\<rparr>"
  have "whites ?s = whites s - {n}" by (auto simp: whites_def)
  moreover have "n \<in> whites s" using 2 by (simp add: whites_def)
  ultimately have "card (whites ?s) \<le> fuel" "whites ?s \<subseteq> whites s" using 2 by auto
  with 2 obtain r s' where r: "visit_preds fuel edges (preds_of edges n) ?s = Some (r, s')" "whites s' \<subseteq> whites s"
    by blast
  show ?case
  proof (cases r)
    case None
    have "whites (s'\<lparr>dfs_color := (dfs_color s')(n := BLACK), dfs_stack := butlast (dfs_stack s')\<rparr>) \<subseteq> whites s"
      using r(2) by (auto simp: whites_def)
    with None r(1) show ?thesis by simp
  qed (use r in auto)
next
  case (4 fuel edges p ps s)
  show ?case
  proof (cases "dfs_color s p")
    case WHITE
    from 4(1) [OF WHITE WHITE 4(4)] obtain r s' where
      r: "visit fuel edges p s = Some (r, s')" "whites s' \<subseteq> whites s" by blast
    show ?thesis
    proof (cases r)
      case None
      have "card (whites s') \<le> fuel" using 4(4) r(2) by (meson card_mono finite le_trans)
      from 4(2) [OF WHITE r(1) refl None this] r(2) show ?thesis
        using WHITE r(1) None by auto
    next
      case (Some c)
      with WHITE r show ?thesis by simp
    qed
  next
    case GREY
    then show ?thesis by simp
  next
    case BLACK
    with 4(3) [OF BLACK 4(4)] show ?thesis by simp
  qed
qed auto

lemma visit_fuel_mono:
  "visit fuel edges n s = Some r \<Longrightarrow> fuel \<le> m \<Longrightarrow> visit m edges n s = Some r"
  "visit_preds fuel edges ps s = Some r \<Longrightarrow> fuel \<le> m \<Longrightarrow> visit_preds m edges ps s = Some r"
proof (induction fuel edges n s and fuel edges ps s arbitrary: m r and m r rule: visit_visit_preds.induct)
  case (2 fuel edges n s)
  let ?s = "s\<lparr>dfs_color := (dfs_color s)(n := GREY), dfs_stack := dfs_stack s @ [n]\<rparr>"
  from 2(3) obtain k where k: "m = Suc k" "fuel \<le> k" by (cases m) auto
  from 2(2) obtain x where x: "visit_preds fuel edges (preds_of edges n) ?s = Some x"
    by (cases "visit_preds fuel edges (preds_of edges n) ?s") auto
  from 2(1) [OF x k(2)] x 2(2) k(1) show ?case by simp
next
  case (4 fuel edges p ps s)
  show ?case
  proof (cases "dfs_color s p")
    case WHITE
    with 4(4) obtain x where x: "visit fuel edges p s = Some x" by (cases "visit fuel edges p s") auto
    note more = 4(1) [OF WHITE x 4(5)]
    obtain c s' where c: "x = (c, s')" by fastforce
    show ?thesis
    proof (cases c)
      case None
      with 4(4) WHITE x c have "visit_preds fuel edges ps s' = Some r" by simp
      from 4(2) [OF WHITE x c [symmetric] None this 4(5)] show ?thesis using WHITE more c None by simp
    next
      case (Some y)
      with 4(4) WHITE x c more show ?thesis by auto
    qed
  next
    case GREY
    with 4(4) show ?thesis by simp
  next
    case BLACK
    with 4(4) 4(3) [OF BLACK _ 4(5)] show ?thesis by simp
  qed
qed auto

text \<open>
  C12: The depth-first search terminates: from any state, on any edge mapping, a nested
  call on a white node returns with fuel for the white nodes that are left, and more fuel
  does not change what it returns; the check itself returns on every mapping, cyclic ones
  included.
\<close>

theorem cycle_search_terminates:
  assumes "dfs_color s n = WHITE" "card (whites s) \<le> fuel"
  shows "(\<exists>r. \<forall>extra. visit (fuel + extra) edges n s = Some r) \<and> detect_cycle edges \<noteq> None"
proof -
  obtain r where r: "visit fuel edges n s = Some r" using visit_returns(1) [OF assms] by blast
  then have "visit (fuel + extra) edges n s = Some r" for extra by (rule visit_fuel_mono(1)) simp
  with detect_cycle_total [of edges] show ?thesis by blast
qed

theorem cycle_search_terminates_witness:
  "visit 9 [(CREDIT_UNDERWRITING, [CREDIT_UNDERWRITING])] CREDIT_UNDERWRITING \<lparr>dfs_color = (\<lambda>_. WHITE), dfs_stack = []\<rparr>
     \<noteq> None"
proof -
  let ?s = "\<lparr>dfs_color = (\<lambda>_. WHITE), dfs_stack = []\<rparr>"
  have "card (whites ?s) \<le> 7" using card_mono [of UNIV "whites ?s"] by (simp add: card_task_type)
  from cycle_search_terminates [of ?s CREDIT_UNDERWRITING 7 "[(CREDIT_UNDERWRITING, [CREDIT_UNDERWRITING])]", OF _ this]
  obtain r where "visit (7 + extra) [(CREDIT_UNDERWRITING, [CREDIT_UNDERWRITING])] CREDIT_UNDERWRITING ?s = Some r" for extra
    by auto
  from this [of 2] show ?thesis by simp
qed

end
