(* ===== verification/Readiness.thy ===== *)
theory Readiness
  imports Task_Graph Human_Gates
begin

text \<open>
  \<open>application/orchestration/readiness.py\<close>: the readiness of every node of the
  template, computed from the durable snapshot alone, and what it means for a
  node to be ready.
\<close>

section \<open>The report\<close>

record node_assessment =
  na_task_type :: task_type
  na_readiness :: task_readiness
  na_reason :: string

record readiness_report =
  rr_assessments :: "node_assessment list"
  rr_superseded_task_ids :: "uuid list"

definition report_by_type :: "readiness_report \<Rightarrow> task_type \<Rightarrow> node_assessment option" where
  "report_by_type rep t = find (\<lambda>a. na_task_type a = t) (rr_assessments rep)"

definition ready_types :: "readiness_report \<Rightarrow> task_type list" where
  "ready_types rep = map na_task_type (filter (\<lambda>a. na_readiness a = R_READY) (rr_assessments rep))"

definition state_map :: "readiness_report \<Rightarrow> (task_type \<times> task_readiness) list" where
  "state_map rep = map (\<lambda>a. (na_task_type a, na_readiness a)) (rr_assessments rep)"

definition reason_map :: "readiness_report \<Rightarrow> (task_type \<times> string) list" where
  "reason_map rep = map (\<lambda>a. (na_task_type a, na_reason a)) (rr_assessments rep)"

section \<open>Assessing one node\<close>

definition in_flight :: "task_status \<Rightarrow> bool" where
  "in_flight s \<longleftrightarrow> s \<in> {PENDING, RUNNING, RETRY_WAIT}"

text \<open>
  \<open>_assess_node\<close>; its last argument \<open>resolved\<close> is the dictionary of the nodes
  assessed before this one.
\<close>

definition assess_fresh_node ::
  "task_type \<Rightarrow> task_type list \<Rightarrow> gate_type option \<Rightarrow> bool \<Rightarrow> (gate_type \<Rightarrow> gate_status option) \<Rightarrow>
   (task_type \<Rightarrow> bool) \<Rightarrow> (task_type \<Rightarrow> task_readiness option) \<Rightarrow> node_assessment" where
  "assess_fresh_node t preds gate stale gate_status blocked_by_gap resolved =
     (let unmet = filter (\<lambda>p. resolved p \<noteq> Some R_COMPLETE) preds in
      if blocked_by_gap t
      then \<lparr>na_task_type = t, na_readiness = R_BLOCKED,
             na_reason = ''blocking evidence gap on required inputs''\<rparr>
      else case gate of
        Some g \<Rightarrow>
          if gate_status g \<noteq> Some SATISFIED
          then \<lparr>na_task_type = t, na_readiness = R_BLOCKED,
                 na_reason = ''human gate '' @ gate_type_value g @ '' is not satisfied''\<rparr>
          else if unmet \<noteq> []
          then \<lparr>na_task_type = t, na_readiness = R_BLOCKED,
                 na_reason = ''waiting for predecessor: '' @ join_with '', '' (map task_type_value unmet)\<rparr>
          else \<lparr>na_task_type = t, na_readiness = R_READY,
                 na_reason = (if stale then ''stale task fenced; fresh work is ready''
                              else ''dependencies met'')\<rparr>
      | None \<Rightarrow>
          if unmet \<noteq> []
          then \<lparr>na_task_type = t, na_readiness = R_BLOCKED,
                 na_reason = ''waiting for predecessor: '' @ join_with '', '' (map task_type_value unmet)\<rparr>
          else \<lparr>na_task_type = t, na_readiness = R_READY,
                 na_reason = (if stale then ''stale task fenced; fresh work is ready''
                              else ''dependencies met'')\<rparr>)"

definition assess_node ::
  "task_type \<Rightarrow> task_type list \<Rightarrow> gate_type option \<Rightarrow> task_status option \<Rightarrow> bool \<Rightarrow>
   (gate_type \<Rightarrow> gate_status option) \<Rightarrow> (task_type \<Rightarrow> bool) \<Rightarrow>
   (task_type \<Rightarrow> task_readiness option) \<Rightarrow> node_assessment" where
  "assess_node t preds gate current stale gate_status blocked_by_gap resolved =
     (case current of
        Some s \<Rightarrow>
          if s = SUCCEEDED
          then \<lparr>na_task_type = t, na_readiness = R_COMPLETE, na_reason = ''task succeeded''\<rparr>
          else if in_flight s
          then \<lparr>na_task_type = t, na_readiness = R_IN_PROGRESS, na_reason = ''task in progress''\<rparr>
          else if s = FAILED_MANUAL_REVIEW
          then \<lparr>na_task_type = t, na_readiness = R_FAILED, na_reason = ''task in manual review''\<rparr>
          else assess_fresh_node t preds gate stale gate_status blocked_by_gap resolved
      | None \<Rightarrow> assess_fresh_node t preds gate stale gate_status blocked_by_gap resolved)"

section \<open>The evaluation of a snapshot\<close>

definition snapshot_gate_status :: "snapshot \<Rightarrow> gate_type \<Rightarrow> gate_status option" where
  "snapshot_gate_status sn =
     py_dict (map (\<lambda>r. (gr_gate_type r, gr_status r))
       (filter (\<lambda>r. gr_case_version r = sn_case_version sn) (sn_gates sn)))"

definition blocked_by_gap :: "snapshot \<Rightarrow> task_type \<Rightarrow> bool" where
  "blocked_by_gap sn t \<longleftrightarrow>
     list_ex (\<lambda>g. bg_blocking_level g = ''BLOCKING'' \<and>
       py_dict (map (\<lambda>r. (tr_task_id r, tr_task_type r)) (sn_tasks sn)) (bg_affected_task_id g) = Some t)
       (sn_blocking_gaps sn)"

definition current_task :: "snapshot \<Rightarrow> task_type \<Rightarrow> task_row option" where
  "current_task sn =
     py_dict (map (\<lambda>r. (tr_task_type r, r))
       (filter (\<lambda>r. tr_case_version r = sn_case_version sn \<and> tr_status r \<noteq> SUPERSEDED) (sn_tasks sn)))"

definition has_stale_task :: "snapshot \<Rightarrow> task_type \<Rightarrow> bool" where
  "has_stale_task sn t \<longleftrightarrow>
     list_ex (\<lambda>r. tr_task_type r = t \<and> tr_case_version r < sn_case_version sn) (sn_tasks sn)"

fun assess_nodes ::
  "snapshot \<Rightarrow> (task_type \<Rightarrow> task_readiness option) \<Rightarrow> task_node list \<Rightarrow> node_assessment list" where
  "assess_nodes sn resolved [] = []"
| "assess_nodes sn resolved (n # ns) =
     (let a = assess_node (tn_task_type n) (tn_predecessors n) (tn_required_gate n)
                (map_option tr_status (current_task sn (tn_task_type n)))
                (has_stale_task sn (tn_task_type n))
                (snapshot_gate_status sn) (blocked_by_gap sn) resolved
      in a # assess_nodes sn (resolved(tn_task_type n \<mapsto> na_readiness a)) ns)"

definition superseded_ids :: "snapshot \<Rightarrow> uuid list" where
  "superseded_ids sn =
     map tr_task_id (filter (\<lambda>r. tr_case_version r < sn_case_version sn) (sn_tasks sn))"

definition evaluate_readiness :: "snapshot \<Rightarrow> dependency_template \<Rightarrow> readiness_report" where
  "evaluate_readiness sn tpl =
     \<lparr>rr_assessments = assess_nodes sn (\<lambda>_. None) tpl,
      rr_superseded_task_ids = superseded_ids sn\<rparr>"

section \<open>What readiness means\<close>

definition live_status :: "snapshot \<Rightarrow> task_type \<Rightarrow> task_status option" where
  "live_status sn t = map_option tr_status (current_task sn t)"

definition gate_open_for :: "snapshot \<Rightarrow> task_node \<Rightarrow> bool" where
  "gate_open_for sn n \<longleftrightarrow>
     (case tn_required_gate n of None \<Rightarrow> True | Some g \<Rightarrow> snapshot_gate_status sn g = Some SATISFIED)"

text \<open>A template lists its nodes once each, predecessors first.\<close>

fun topological_from :: "task_type list \<Rightarrow> dependency_template \<Rightarrow> bool" where
  "topological_from before [] \<longleftrightarrow> True"
| "topological_from before (n # ns) \<longleftrightarrow>
     tn_task_type n \<notin> set before \<and> set (tn_predecessors n) \<subseteq> set before \<and>
     topological_from (tn_task_type n # before) ns"

definition node_readiness :: "snapshot \<Rightarrow> task_node \<Rightarrow> task_readiness" where
  "node_readiness sn n =
     (case live_status sn (tn_task_type n) of
        Some SUCCEEDED \<Rightarrow> R_COMPLETE
      | Some FAILED_MANUAL_REVIEW \<Rightarrow> R_FAILED
      | Some _ \<Rightarrow> R_IN_PROGRESS
      | None \<Rightarrow>
          if \<not> blocked_by_gap sn (tn_task_type n) \<and> gate_open_for sn n \<and>
             (\<forall>p\<in>set (tn_predecessors n). live_status sn p = Some SUCCEEDED)
          then R_READY else R_BLOCKED)"

lemma live_status_not_superseded: "live_status sn t \<noteq> Some SUPERSEDED"
  by (auto simp: live_status_def current_task_def dest!: py_dict_SomeD)

lemma assess_node_type [simp]:
  "na_task_type (assess_node t ps g c st gs bg r) = t"
  by (auto simp: assess_node_def assess_fresh_node_def Let_def split: option.splits)

lemma assess_nodes_types [simp]: "map na_task_type (assess_nodes sn r ns) = map tn_task_type ns"
  by (induction ns arbitrary: r) (auto simp: Let_def)

lemma assess_node_complete:
  "na_readiness (assess_node t ps g c st gs bg r) = R_COMPLETE \<longleftrightarrow> c = Some SUCCEEDED"
  by (auto simp: assess_node_def assess_fresh_node_def Let_def in_flight_def split: option.splits)

lemma assess_node_readiness:
  assumes "\<And>p. p \<in> set (tn_predecessors n) \<Longrightarrow>
      resolved p = Some R_COMPLETE \<longleftrightarrow> live_status sn p = Some SUCCEEDED"
  shows "na_readiness (assess_node (tn_task_type n) (tn_predecessors n) (tn_required_gate n)
      (live_status sn (tn_task_type n)) stale (snapshot_gate_status sn) (blocked_by_gap sn) resolved) =
    node_readiness sn n"
proof (cases "live_status sn (tn_task_type n)")
  case None
  then show ?thesis
    using assms
    by (auto simp: assess_node_def assess_fresh_node_def node_readiness_def gate_open_for_def
        filter_empty_conv Let_def split: option.splits)
next
  case (Some s)
  then show ?thesis
    using live_status_not_superseded [of sn "tn_task_type n"]
    by (cases s) (auto simp: assess_node_def node_readiness_def in_flight_def)
qed

lemma assess_nodes_readiness:
  "topological_from before ns \<Longrightarrow>
   (\<And>p. p \<in> set before \<Longrightarrow> resolved p = Some R_COMPLETE \<longleftrightarrow> live_status sn p = Some SUCCEEDED) \<Longrightarrow>
   map na_readiness (assess_nodes sn resolved ns) = map (node_readiness sn) ns"
proof (induction ns arbitrary: before resolved)
  case Nil
  then show ?case by simp
next
  case (Cons n ns)
  let ?a = "assess_node (tn_task_type n) (tn_predecessors n) (tn_required_gate n)
      (live_status sn (tn_task_type n)) (has_stale_task sn (tn_task_type n))
      (snapshot_gate_status sn) (blocked_by_gap sn) resolved"
  have head: "na_readiness ?a = node_readiness sn n"
    using Cons.prems by (intro assess_node_readiness) auto
  have "map na_readiness (assess_nodes sn (resolved(tn_task_type n \<mapsto> na_readiness ?a)) ns) =
      map (node_readiness sn) ns"
    using Cons.prems
    by (intro Cons.IH [of "tn_task_type n # before"]) (auto simp: assess_node_complete)
  with head show ?case by (simp add: Let_def live_status_def)
qed

lemma evaluate_readiness_spec:
  assumes "topological_from [] tpl"
  shows "state_map (evaluate_readiness sn tpl) = map (\<lambda>n. (tn_task_type n, node_readiness sn n)) tpl"
proof -
  have split: "map (\<lambda>a. (na_task_type a, na_readiness a)) as =
      zip (map na_task_type as) (map na_readiness as)" for as
    by (induction as) auto
  have "state_map (evaluate_readiness sn tpl) =
      zip (map tn_task_type tpl) (map (node_readiness sn) tpl)"
    using assess_nodes_readiness [OF assms] by (simp add: state_map_def evaluate_readiness_def split)
  then show ?thesis by (simp add: zip_map_map zip_same_conv_map)
qed

lemma ready_types_state_map: "ready_types rep = map fst (filter (\<lambda>(t, s). s = R_READY) (state_map rep))"
  by (simp add: ready_types_def state_map_def filter_map o_def case_prod_unfold)

lemma ready_types_spec:
  assumes "topological_from [] tpl"
  shows "ready_types (evaluate_readiness sn tpl) =
    map tn_task_type (filter (\<lambda>n. node_readiness sn n = R_READY) tpl)"
  by (simp add: ready_types_state_map evaluate_readiness_spec [OF assms] filter_map o_def)

lemma topological_distinct:
  "topological_from before tpl \<Longrightarrow>
   distinct (map tn_task_type tpl) \<and> set before \<inter> tn_task_type ` set tpl = {}"
proof (induction tpl arbitrary: before)
  case (Cons n ns)
  from Cons.IH [of "tn_task_type n # before"] Cons.prems show ?case by auto
qed simp

lemma ready_types_distinct:
  "topological_from [] tpl \<Longrightarrow> distinct (ready_types (evaluate_readiness sn tpl))"
  using topological_distinct [of "[]" tpl] by (simp add: ready_types_spec distinct_map_filter)

lemma ready_types_subset: "set (ready_types (evaluate_readiness sn tpl)) \<subseteq> tn_task_type ` set tpl"
proof -
  have "na_task_type ` set (assess_nodes sn (\<lambda>_. None) tpl) = tn_task_type ` set tpl"
    by (metis assess_nodes_types list.set_map)
  then show ?thesis by (auto simp: ready_types_def evaluate_readiness_def)
qed

lemma node_readiness_ready:
  "node_readiness sn n = R_READY \<longleftrightarrow>
     live_status sn (tn_task_type n) = None \<and> \<not> blocked_by_gap sn (tn_task_type n) \<and>
     gate_open_for sn n \<and> (\<forall>p\<in>set (tn_predecessors n). live_status sn p = Some SUCCEEDED)"
  using live_status_not_superseded [of sn "tn_task_type n"]
  by (auto simp: node_readiness_def split: option.splits task_status.splits)

lemma topological_template: "topological_from [] template_nodes"
  by (simp add: template_nodes_def)

lemma live_status_none_iff:
  "live_status sn t = None \<longleftrightarrow>
     (\<forall>r\<in>set (sn_tasks sn). tr_case_version r = sn_case_version sn \<and> tr_status r \<noteq> SUPERSEDED \<longrightarrow>
        tr_task_type r \<noteq> t)"
  by (auto simp: live_status_def current_task_def py_dict_None_iff image_iff)

lemma superseded_ids_iff:
  "set (superseded_ids sn) = {tr_task_id r |r. r \<in> set (sn_tasks sn) \<and> tr_case_version r < sn_case_version sn}"
  by (auto simp: superseded_ids_def)

section \<open>The properties of readiness\<close>

text \<open>
  C4: On a template whose nodes list their predecessors first, the report is the
  declarative reading of the graph, and a task type is offered as READY exactly when
  it has no live task of this version, no blocking gap, its gate is satisfied and
  every predecessor has succeeded in this version; each type is offered once, in the
  order of the template.
\<close>

theorem readiness_characterised:
  assumes "topological_from [] tpl"
  shows "state_map (evaluate_readiness sn tpl) = map (\<lambda>n. (tn_task_type n, node_readiness sn n)) tpl \<and>
    ready_types (evaluate_readiness sn tpl) = map tn_task_type (filter (\<lambda>n.
       live_status sn (tn_task_type n) = None \<and> \<not> blocked_by_gap sn (tn_task_type n) \<and>
       gate_open_for sn n \<and> list_all (\<lambda>p. live_status sn p = Some SUCCEEDED) (tn_predecessors n)) tpl) \<and>
    distinct (ready_types (evaluate_readiness sn tpl))"
  using evaluate_readiness_spec [OF assms] ready_types_spec [OF assms] ready_types_distinct [OF assms]
  by (simp add: node_readiness_ready list_all_set)

theorem readiness_characterised_witness:
  "ready_types (evaluate_readiness
       \<lparr>sn_case_id = 7, sn_case_version = 1, sn_has_intake_handoff = True, sn_tasks = [],
        sn_gates = [\<lparr>gr_gate_type = G1_INTAKE_COMPLETE, gr_case_version = 1, gr_status = SATISFIED,
          gr_satisfied_by = None, gr_disposition_ref = None, gr_satisfied_at = None\<rparr>],
        sn_blocking_gaps = []\<rparr> template_nodes) = [CREDIT_UNDERWRITING, LEGAL_COMPLIANCE_COLLATERAL]"
  using readiness_characterised [OF topological_template, of
      "\<lparr>sn_case_id = 7, sn_case_version = 1, sn_has_intake_handoff = True, sn_tasks = [],
        sn_gates = [\<lparr>gr_gate_type = G1_INTAKE_COMPLETE, gr_case_version = 1, gr_status = SATISFIED,
          gr_satisfied_by = None, gr_disposition_ref = None, gr_satisfied_at = None\<rparr>],
        sn_blocking_gaps = []\<rparr>"]
  by (simp add: template_nodes_def live_status_def current_task_def py_dict_def gate_open_for_def
      snapshot_gate_status_def blocked_by_gap_def)

text \<open>
  The deadlock report is complete: it is absent exactly when some node is READY or
  in flight or every node is complete, and otherwise it names every node that is
  not complete.
\<close>

theorem deadlock_report_complete:
  assumes "topological_from [] tpl"
  shows "(detect_deadlock (state_map (evaluate_readiness sn tpl)) reasons = None \<longleftrightarrow>
      list_ex (\<lambda>n. node_readiness sn n \<in> {R_READY, R_IN_PROGRESS}) tpl \<or>
      list_all (\<lambda>n. live_status sn (tn_task_type n) = Some SUCCEEDED) tpl) \<and>
    (\<forall>d. detect_deadlock (state_map (evaluate_readiness sn tpl)) reasons = Some d \<longrightarrow>
      map fst (dl_blocked d) =
        map tn_task_type (filter (\<lambda>n. live_status sn (tn_task_type n) \<noteq> Some SUCCEEDED) tpl))"
proof -
  have complete: "node_readiness sn n \<in> {R_COMPLETE, R_SUPERSEDED} \<longleftrightarrow>
      live_status sn (tn_task_type n) = Some SUCCEEDED" for n
    using live_status_not_superseded [of sn "tn_task_type n"]
    by (auto simp: node_readiness_def split: option.splits task_status.splits)
  then have incomplete: "node_readiness sn n \<noteq> R_COMPLETE \<and> node_readiness sn n \<noteq> R_SUPERSEDED \<longleftrightarrow>
      live_status sn (tn_task_type n) \<noteq> Some SUCCEEDED" for n
    by blast
  show ?thesis
    unfolding evaluate_readiness_spec [OF assms] detect_deadlock_None_iff
    by (auto simp: detect_deadlock_def Let_def filter_map o_def incomplete complete [simplified] list_ex_set list_all_set
        split: if_splits)
qed

theorem deadlock_report_complete_witness:
  "detect_deadlock (state_map (evaluate_readiness
       \<lparr>sn_case_id = 7, sn_case_version = 1, sn_has_intake_handoff = False, sn_tasks = [],
        sn_gates = [], sn_blocking_gaps = []\<rparr> template_nodes)) [] \<noteq> None"
  using deadlock_report_complete [OF topological_template, of
      "\<lparr>sn_case_id = 7, sn_case_version = 1, sn_has_intake_handoff = False, sn_tasks = [],
        sn_gates = [], sn_blocking_gaps = []\<rparr>" "[]"]
  by (simp add: template_nodes_def node_readiness_def live_status_def current_task_def py_dict_def
      gate_open_for_def snapshot_gate_status_def blocked_by_gap_def)

end
