(* ===== verification/Planner.thy ===== *)
theory Planner
  imports Readiness "HOL-Library.Multiset" "HOL-Library.Product_Lexorder"
begin

text \<open>
  \<open>application/orchestration/planner.py\<close>: the default plan, the validation of a
  proposal of the language model, the plan made of an accepted proposal, and
  the planner that chooses among them.  The inference gateway and the decoding
  of its answer are parameters.
\<close>

section \<open>Plans and proposals\<close>

record proposed_step =
  pp_task_type :: task_type
  pp_priority :: int

record plan_step =
  ps_task_type :: task_type
  ps_priority :: int
  ps_rationale :: string

datatype plan_source = DEFAULT_PLAN | LLM_PROPOSED

record plan =
  pl_steps :: "plan_step list"
  pl_source :: plan_source

datatype proposal_status = ACCEPTED | REJECTED | SKIPPED

record proposal_outcome =
  po_status :: proposal_status
  po_plan :: plan
  po_validation_errors :: "string list"
  po_prompt_version :: string
  po_schema_version :: string
  po_model_version :: "string option"
  po_raw_proposal :: "json option"

definition proposal_schema_version :: string where
  "proposal_schema_version = ''orchestrator-proposal-v1''"

definition prompt_version :: string where
  "prompt_version = ''orchestrator-prompt-v1''"

definition plan_task_types :: "plan \<Rightarrow> task_type list" where
  "plan_task_types p = map ps_task_type (pl_steps p)"

text \<open>
  The field bounds of \<open>ProposedStep\<close> and \<open>PlannerProposalPayload\<close>: a payload
  outside them fails validation.
\<close>

definition proposal_payload_bounds :: "proposed_step list \<Rightarrow> bool" where
  "proposal_payload_bounds steps \<longleftrightarrow>
     length steps \<le> 16 \<and> list_all (\<lambda>s. 0 \<le> pp_priority s \<and> pp_priority s \<le> 999) steps"

definition build_default_plan :: "readiness_report \<Rightarrow> dependency_template \<Rightarrow> plan" where
  "build_default_plan rep tpl =
     \<lparr>pl_steps = map (\<lambda>t. \<lparr>ps_task_type = t, ps_priority = int (priority_of tpl t),
                            ps_rationale = ''canonical default order''\<rparr>)
                   (sort_key (priority_of tpl) (ready_types rep)),
      pl_source = DEFAULT_PLAN\<rparr>"

fun validate_steps ::
  "(task_type \<Rightarrow> task_readiness option) \<Rightarrow> task_type list \<Rightarrow> task_type list \<Rightarrow> proposed_step list \<Rightarrow>
   string list" where
  "validate_steps state known seen [] = []"
| "validate_steps state known seen (s # ss) =
     (if pp_task_type s \<notin> set known
      then (''unknown task type proposed: '' @ task_type_value (pp_task_type s)) #
           validate_steps state known seen ss
      else if pp_task_type s \<in> set seen
      then (''duplicate task type proposed: '' @ task_type_value (pp_task_type s)) #
           validate_steps state known seen ss
      else (if state (pp_task_type s) \<noteq> Some R_READY
            then [''proposed task '' @ task_type_value (pp_task_type s) @ '' is not READY ('' @
                  readiness_value (case state (pp_task_type s) of None \<Rightarrow> R_BLOCKED | Some r \<Rightarrow> r) @ '')'']
            else []) @
           validate_steps state known (pp_task_type s # seen) ss)"

definition validate_proposal ::
  "proposed_step list \<Rightarrow> readiness_report \<Rightarrow> dependency_template \<Rightarrow> string list" where
  "validate_proposal payload rep tpl =
     validate_steps (py_dict (state_map rep)) (ordered_types tpl) [] payload"

definition proposed_priority :: "proposed_step list \<Rightarrow> task_type \<Rightarrow> int option" where
  "proposed_priority payload = py_dict (map (\<lambda>s. (pp_task_type s, pp_priority s)) payload)"

definition plan_from_proposal ::
  "proposed_step list \<Rightarrow> readiness_report \<Rightarrow> dependency_template \<Rightarrow> plan" where
  "plan_from_proposal payload rep tpl =
     (let proposed = proposed_priority payload;
          key = (\<lambda>t. (case proposed t of None \<Rightarrow> 1000 | Some p \<Rightarrow> p, int (priority_of tpl t)));
          ordered = sort_key key (ready_types rep)
      in \<lparr>pl_steps = map (\<lambda>t. \<lparr>ps_task_type = t,
               ps_priority = (case proposed t of None \<Rightarrow> int (priority_of tpl t) | Some p \<Rightarrow> p),
               ps_rationale = (if proposed t \<noteq> None then ''llm-proposed priority''
                               else ''appended ready task'')\<rparr>) ordered,
          pl_source = LLM_PROPOSED\<rparr>)"

section \<open>The planner\<close>

record reason_request =
  rq_correlation_id :: string
  rq_case_id :: uuid
  rq_content :: json

text \<open>
  The gateway answers a request with an error text or with a raw payload and
  the identifier of the model; \<open>gw_decode\<close> is the type check of the payload
  (an error text when it has not the shape of a proposal) and
  \<open>gw_bounds_error\<close> the text of the error for a payload outside the field
  bounds.
\<close>

record 'raw gateway =
  gw_reason :: "reason_request \<Rightarrow> string + 'raw \<times> string"
  gw_decode :: "'raw \<Rightarrow> string + proposed_step list"
  gw_bounds_error :: "proposed_step list \<Rightarrow> string"

definition model_validate :: "'raw gateway \<Rightarrow> 'raw \<Rightarrow> string + proposed_step list" where
  "model_validate gw raw =
     rbind (gw_decode gw raw) (\<lambda>steps.
       rbind (check_that (proposal_payload_bounds steps) (gw_bounds_error gw steps)) (\<lambda>_. Inr steps))"

definition build_request :: "uuid \<Rightarrow> string \<Rightarrow> task_type list \<Rightarrow> reason_request" where
  "build_request case_id correlation_id ready =
     \<lparr>rq_correlation_id = correlation_id, rq_case_id = case_id,
      rq_content = JObj [(''caseId'', JStr (str_uuid case_id)),
                         (''readyTaskTypes'', JList (map (\<lambda>t. JStr (task_type_value t)) ready))]\<rparr>"

definition payload_dump :: "proposed_step list \<Rightarrow> json" where
  "payload_dump steps =
     JObj [(''steps'', JList (map (\<lambda>s. JObj [(''task_type'', JStr (task_type_value (pp_task_type s))),
                                           (''priority'', JInt (pp_priority s))]) steps))]"

definition planner_plan ::
  "dependency_template \<Rightarrow> 'raw gateway option \<Rightarrow> uuid \<Rightarrow> string \<Rightarrow> readiness_report \<Rightarrow>
   proposal_outcome" where
  "planner_plan tpl gateway case_id correlation_id rep =
     (let deflt = build_default_plan rep tpl;
          ready = ready_types rep;
          outcome = \<lparr>po_status = SKIPPED, po_plan = deflt, po_validation_errors = [],
                     po_prompt_version = prompt_version,
                     po_schema_version = proposal_schema_version,
                     po_model_version = None, po_raw_proposal = None\<rparr>
      in case gateway of
        None \<Rightarrow> outcome
      | Some gw \<Rightarrow>
          if ready = [] then outcome
          else (case rbind (gw_reason gw (build_request case_id correlation_id ready))
                       (\<lambda>(raw, model). rbind (model_validate gw raw) (\<lambda>payload. Inr (payload, model))) of
              Inl msg \<Rightarrow> outcome\<lparr>po_status := REJECTED,
                po_validation_errors := [''planner proposal unavailable or invalid: '' @ msg]\<rparr>
            | Inr (payload, model) \<Rightarrow>
                (let errors = validate_proposal payload rep tpl in
                 if errors \<noteq> []
                 then outcome\<lparr>po_status := REJECTED, po_validation_errors := errors,
                              po_model_version := Some model,
                              po_raw_proposal := Some (payload_dump payload)\<rparr>
                 else outcome\<lparr>po_status := ACCEPTED,
                              po_plan := plan_from_proposal payload rep tpl,
                              po_model_version := Some model,
                              po_raw_proposal := Some (payload_dump payload)\<rparr>)))"

section \<open>What the planner cannot do\<close>

lemma mset_default_plan [simp]:
  "mset (plan_task_types (build_default_plan rep tpl)) = mset (ready_types rep)"
  by (simp add: plan_task_types_def build_default_plan_def o_def)

lemma mset_plan_from_proposal [simp]:
  "mset (plan_task_types (plan_from_proposal payload rep tpl)) = mset (ready_types rep)"
  by (simp add: plan_task_types_def plan_from_proposal_def Let_def o_def)

lemma mset_planner_plan:
  "mset (plan_task_types (po_plan (planner_plan tpl gateway c corr rep))) = mset (ready_types rep)"
  by (simp add: planner_plan_def Let_def split: option.split sum.split)

lemma set_planner_plan:
  "set (plan_task_types (po_plan (planner_plan tpl gateway c corr rep))) = set (ready_types rep)"
  using mset_planner_plan by (metis set_mset_mset)

lemma distinct_planner_plan:
  "distinct (ready_types rep) \<Longrightarrow>
   distinct (plan_task_types (po_plan (planner_plan tpl gateway c corr rep)))"
  using mset_planner_plan by (metis mset_eq_imp_distinct_iff)

lemma validate_steps_Nil_iff:
  "validate_steps state known seen ss = [] \<longleftrightarrow>
     distinct (map pp_task_type ss) \<and> set seen \<inter> pp_task_type ` set ss = {} \<and>
     (\<forall>s\<in>set ss. pp_task_type s \<in> set known \<and> state (pp_task_type s) = Some R_READY)"
  by (induction ss arbitrary: seen) auto

lemma priority_from_ge: "i \<le> priority_from i ns t"
  by (induction ns arbitrary: i) (auto intro: Suc_leD)

lemma sorted_priority_from:
  "distinct (map tn_task_type ns) \<Longrightarrow> sorted (map (priority_from i ns) (map tn_task_type ns))"
proof (induction ns arbitrary: i)
  case Nil
  then show ?case by simp
next
  case (Cons n ns)
  have eq: "map (priority_from i (n # ns)) (map tn_task_type ns) =
      map (priority_from (Suc i) ns) (map tn_task_type ns)"
    by (rule map_cong) (use Cons.prems in auto)
  have "i \<le> priority_from (Suc i) ns t" for t
    using priority_from_ge [of "Suc i" ns t] by simp
  then have "sorted (i # map (priority_from i (n # ns)) (map tn_task_type ns))"
    unfolding eq using Cons.IH [of "Suc i"] Cons.prems by auto
  moreover have "priority_from i (n # ns) (tn_task_type n) = i" by simp
  ultimately show ?case by (simp only: list.map(2))
qed

lemma sorted_map_filter: "sorted (map f xs) \<Longrightarrow> sorted (map f (filter P xs))"
  by (induction xs) auto

lemma default_plan_canonical:
  assumes "topological_from [] tpl"
  shows "plan_task_types (build_default_plan (evaluate_readiness sn tpl) tpl) =
    ready_types (evaluate_readiness sn tpl)"
proof -
  have "distinct (map tn_task_type tpl)" using topological_distinct [OF assms] by simp
  then have "sorted (map (priority_of tpl) (map tn_task_type tpl))"
    by (simp add: priority_of_def [abs_def] sorted_priority_from del: map_map)
  then have "sorted (map (priority_of tpl) (ready_types (evaluate_readiness sn tpl)))"
    using sorted_map_filter [of "\<lambda>n. priority_of tpl (tn_task_type n)" tpl]
    by (simp add: ready_types_spec [OF assms] o_def)
  then show ?thesis
    by (simp add: plan_task_types_def build_default_plan_def o_def sorted_sort_id
        sort_key_id_if_sorted)
qed

lemma plan_from_proposal_sorted:
  "sorted (map (\<lambda>t. (case proposed_priority payload t of None \<Rightarrow> 1000 | Some p \<Rightarrow> p,
                     int (priority_of tpl t)))
     (plan_task_types (plan_from_proposal payload rep tpl)))"
  by (simp add: plan_task_types_def plan_from_proposal_def Let_def o_def
      del: map_map) (simp add: o_def sorted_sort_key)

section \<open>The properties of the planner\<close>

text \<open>
  The language model can only order the work: whatever the gateway answers, the
  plan schedules exactly the READY task types, each as often as the report offers it;
  an accepted payload orders them by the proposed priority, types it leaves out last
  and ties in canonical order.
\<close>

theorem planner_schedules_ready:
  "mset (plan_task_types (po_plan (planner_plan tpl gateway c corr rep))) = mset (ready_types rep) \<and>
   sorted (map (\<lambda>t. (case proposed_priority payload t of None \<Rightarrow> 1000 | Some p \<Rightarrow> p,
                     int (priority_of tpl t)))
     (plan_task_types (plan_from_proposal payload rep tpl)))"
  using mset_planner_plan plan_from_proposal_sorted by blast

text \<open>
  C11: A proposal is accepted exactly when a gateway is configured, there is ready work,
  the gateway answers with a payload in bounds, and the payload names READY types of
  the template only, each at most once; in every other case the plan is the default
  plan, and a rejection always states an error.
\<close>

theorem proposal_accepted_iff:
  "(po_status (planner_plan tpl gateway c corr rep) = ACCEPTED \<longleftrightarrow>
     (\<exists>gw raw model steps. gateway = Some gw \<and> ready_types rep \<noteq> [] \<and>
        gw_reason gw (build_request c corr (ready_types rep)) = Inr (raw, model) \<and>
        model_validate gw raw = Inr steps \<and> distinct (map pp_task_type steps) \<and>
        list_all (\<lambda>s. pp_task_type s \<in> set (ordered_types tpl) \<and>
          py_dict (state_map rep) (pp_task_type s) = Some R_READY) steps \<and>
        po_plan (planner_plan tpl gateway c corr rep) = plan_from_proposal steps rep tpl)) \<and>
   (po_status (planner_plan tpl gateway c corr rep) \<noteq> ACCEPTED \<longrightarrow>
     po_plan (planner_plan tpl gateway c corr rep) = build_default_plan rep tpl) \<and>
   (po_status (planner_plan tpl gateway c corr rep) = REJECTED \<longleftrightarrow>
     po_validation_errors (planner_plan tpl gateway c corr rep) \<noteq> [])"
proof (cases gateway)
  case None
  then show ?thesis by (simp add: planner_plan_def)
next
  case gw: (Some gw)
  show ?thesis
  proof (cases "ready_types rep = []")
    case True
    with gw show ?thesis by (simp add: planner_plan_def)
  next
    case ready: False
    show ?thesis
    proof (cases "rbind (gw_reason gw (build_request c corr (ready_types rep)))
          (\<lambda>(raw, model). rbind (model_validate gw raw) (\<lambda>payload. Inr (payload, model)))")
      case (Inl e)
      with gw ready show ?thesis by (auto simp: planner_plan_def Let_def)
    next
      case (Inr pm)
      then obtain raw model steps where
        "gw_reason gw (build_request c corr (ready_types rep)) = Inr (raw, model)"
        "model_validate gw raw = Inr steps" "pm = (steps, model)"
        by (auto simp: result_simps)
      with gw ready show ?thesis
        by (auto simp: planner_plan_def Let_def validate_proposal_def validate_steps_Nil_iff list_all_set)
    qed
  qed
qed

theorem proposal_accepted_iff_witness:
  "po_plan (planner_plan template_nodes (None :: unit gateway option) 7 ''x'' \<lparr>rr_assessments = [], rr_superseded_task_ids = []\<rparr>) =
     build_default_plan \<lparr>rr_assessments = [], rr_superseded_task_ids = []\<rparr> template_nodes"
proof -
  let ?rep = "\<lparr>rr_assessments = [], rr_superseded_task_ids = []\<rparr>"
  have "po_status (planner_plan template_nodes (None :: unit gateway option) 7 ''x'' ?rep) \<noteq> ACCEPTED"
    by (simp add: planner_plan_def)
  then show ?thesis
    using proposal_accepted_iff [of template_nodes "None :: unit gateway option" 7 "''x''" ?rep] by simp
qed

end
