(* ===== verification/Advance.thy ===== *)
theory Advance
  imports Planner Orchestration_Port
begin

text \<open>
  \<open>AdvanceCase\<close> (\<open>application/orchestration/advance.py\<close>): one tick of the
  orchestrator over any repository that keeps the contract of the port, and
  \<open>build_status\<close> (\<open>application/orchestration/status.py\<close>), its read-only twin.
\<close>

section \<open>The use case\<close>

datatype use_error = CaseNotFound | MissingNode task_type | RepositoryError store_error

text \<open>
  The dependencies injected into one execution: the template, the gateway (or
  none), the time and the execution identifier, and the values \<open>id_factory\<close>
  returns, in the order of its calls.
\<close>

record 'raw advance_env =
  av_template :: dependency_template
  av_gateway :: "'raw gateway option"
  av_now :: datetime
  av_execution_id :: uuid
  av_ids :: "nat \<Rightarrow> uuid"

record advance_result =
  ar_execution_id :: uuid
  ar_case_id :: uuid
  ar_case_version :: int
  ar_recorded_at :: datetime
  ar_plan :: plan
  ar_proposal_status :: proposal_status
  ar_validation_errors :: "string list"
  ar_readiness :: readiness_report
  ar_gates :: "gate_record list"
  ar_created_task_ids :: "uuid list"
  ar_outboxed_task_ids :: "uuid list"
  ar_superseded_task_ids :: "uuid list"
  ar_deadlock :: "deadlock option"

definition idempotency_key :: "uuid \<Rightarrow> int \<Rightarrow> task_type \<Rightarrow> string" where
  "idempotency_key c v t = ''ORCH:'' @ str_uuid c @ '':'' @ str_int v @ '':'' @ task_type_value t"

fun plan_source_value :: "plan_source \<Rightarrow> string" where
  "plan_source_value DEFAULT_PLAN = ''DEFAULT''"
| "plan_source_value LLM_PROPOSED = ''LLM_PROPOSED''"

fun proposal_status_value :: "proposal_status \<Rightarrow> string" where
  "proposal_status_value ACCEPTED = ''ACCEPTED''"
| "proposal_status_value REJECTED = ''REJECTED''"
| "proposal_status_value SKIPPED = ''SKIPPED''"

definition json_option :: "('a \<Rightarrow> json) \<Rightarrow> 'a option \<Rightarrow> json" where
  "json_option f x = (case x of None \<Rightarrow> JNull | Some y \<Rightarrow> f y)"

definition audit_step_event ::
  "'s orch_repo \<Rightarrow> 'raw advance_env \<Rightarrow> snapshot \<Rightarrow> string \<Rightarrow> uuid \<Rightarrow> (string \<times> json) list \<Rightarrow>
   ('s, use_error, unit) act" where
  "audit_step_event repo env sn event artifact data =
     on_error RepositoryError (rp_append_audit repo
       \<lparr>ae_case_id = sn_case_id sn, ae_case_version = sn_case_version sn, ae_event_type = event,
        ae_execution_id = av_execution_id env, ae_artifact_type = ''CREDIT_CASE'',
        ae_artifact_id = artifact,
        ae_event_data = json_merge [(''role'', JStr ''CASE_ORCHESTRATOR''),
          (''recordedAt'', JInt (av_now env))] data\<rparr>)"

text \<open>The effective gates are those of \<open>derive_effective_gates\<close>, persisted in its order.\<close>

definition refresh_gates :: "'s orch_repo \<Rightarrow> snapshot \<Rightarrow> ('s, use_error, gate_record list) act" where
  "refresh_gates repo sn =
     act_map (\<lambda>g. on_error RepositoryError
         (rp_ensure_gate repo (sn_case_id sn) (sn_case_version sn) (gr_gate_type g) (gr_status g)
            (gr_satisfied_by g) (gr_disposition_ref g)))
       (derive_effective_gates sn)"

definition current_task_id :: "snapshot \<Rightarrow> task_type \<Rightarrow> uuid option" where
  "current_task_id sn =
     py_dict (map (\<lambda>r. (tr_task_type r, tr_task_id r))
       (filter (\<lambda>r. tr_case_version r = sn_case_version sn) (sn_tasks sn)))"

definition depends_on_ids :: "snapshot \<Rightarrow> task_node \<Rightarrow> uuid list" where
  "depends_on_ids sn node = List.map_filter (current_task_id sn) (tn_predecessors node)"

fun schedule_steps ::
  "'s orch_repo \<Rightarrow> dependency_template \<Rightarrow> snapshot \<Rightarrow> plan_source \<Rightarrow> (nat \<Rightarrow> uuid) \<Rightarrow> nat \<Rightarrow>
   plan_step list \<Rightarrow> ('s, use_error, uuid list) act" where
  "schedule_steps repo tpl sn src ids n [] = ret []"
| "schedule_steps repo tpl sn src ids n (step # steps) =
     (case by_type tpl (ps_task_type step) of
        None \<Rightarrow> raise (MissingNode (ps_task_type step))
      | Some node \<Rightarrow>
          and_then (on_error RepositoryError
            (rp_create_task repo (ids n) (sn_case_id sn) (sn_case_version sn) (ps_task_type step)
               (idempotency_key (sn_case_id sn) (sn_case_version sn) (ps_task_type step))
               (JObj [(''priority'', JInt (ps_priority step)), (''rationale'', JStr (ps_rationale step)),
                      (''planSource'', JStr (plan_source_value src))])
               (depends_on_ids sn node)))
          (\<lambda>ct. and_then (schedule_steps repo tpl sn src ids (Suc n) steps)
          (\<lambda>created. ret (if ct_created ct then tr_task_id (ct_row ct) # created else created))))"

definition record_outcome ::
  "'s orch_repo \<Rightarrow> 'raw advance_env \<Rightarrow> snapshot \<Rightarrow> proposal_outcome \<Rightarrow> ('s, use_error, unit) act" where
  "record_outcome repo env sn outcome =
     (let plan = po_plan outcome;
          body = [(''source'', JStr (plan_source_value (pl_source plan))),
                  (''steps'', JList (map (\<lambda>s. JObj [(''taskType'', JStr (task_type_value (ps_task_type s))),
                                                 (''priority'', JInt (ps_priority s))]) (pl_steps plan)))]
                 @ (case po_raw_proposal outcome of None \<Rightarrow> [] | Some raw \<Rightarrow> [(''raw'', raw)])
      in and_then (on_error RepositoryError (rp_record_proposal repo
           \<lparr>pr_id = av_ids env 0, pr_case_id = sn_case_id sn, pr_case_version = sn_case_version sn,
            pr_execution_id = av_execution_id env, pr_proposal = JObj body,
            pr_status = proposal_status_value (po_status outcome),
            pr_validation_errors = po_validation_errors outcome,
            pr_prompt_version = po_prompt_version outcome,
            pr_schema_version = po_schema_version outcome,
            pr_model_version = po_model_version outcome\<rparr>))
         (\<lambda>_. audit_step_event repo env sn ''ORCHESTRATION_PLANNER_PROPOSAL'' (av_ids env 0)
           [(''status'', JStr (proposal_status_value (po_status outcome))),
            (''planSource'', JStr (plan_source_value (pl_source plan))),
            (''validationErrors'', JList (map JStr (po_validation_errors outcome))),
            (''promptVersion'', JStr (po_prompt_version outcome)),
            (''schemaVersion'', JStr (po_schema_version outcome)),
            (''modelVersion'', json_option JStr (po_model_version outcome))]))"

definition audit_deadlock ::
  "'s orch_repo \<Rightarrow> 'raw advance_env \<Rightarrow> snapshot \<Rightarrow> deadlock option \<Rightarrow> ('s, use_error, unit) act" where
  "audit_deadlock repo env sn dl =
     (case dl of
        None \<Rightarrow> ret ()
      | Some d \<Rightarrow> audit_step_event repo env sn ''ORCHESTRATION_DEADLOCK'' (sn_case_id sn)
          [(''reasons'', JList (map JStr (dl_reasons d))),
           (''blocked'', JList (map (\<lambda>(t, r). JObj [(''taskType'', JStr (task_type_value t)),
                                                  (''reason'', JStr r)]) (dl_blocked d)))])"

text \<open>\<open>execute\<close>, in two halves: loading and gates, then plan, tasks and audit.\<close>

definition advance_after ::
  "'s orch_repo \<Rightarrow> 'raw advance_env \<Rightarrow> uuid \<Rightarrow> snapshot \<Rightarrow> gate_record list \<Rightarrow>
   ('s, use_error, advance_result) act" where
  "advance_after repo env c sn gates =
     (let graphed = sn\<lparr>sn_gates := gates\<rparr>;
          rep = evaluate_readiness graphed (av_template env);
          outcome = planner_plan (av_template env) (av_gateway env) c
                      (str_uuid (av_execution_id env)) rep;
          dl = detect_deadlock (state_map rep) (reason_map rep)
      in and_then (record_outcome repo env sn outcome) (\<lambda>_.
         and_then (schedule_steps repo (av_template env) graphed (pl_source (po_plan outcome))
                     (av_ids env) 1 (pl_steps (po_plan outcome))) (\<lambda>created.
         and_then (audit_deadlock repo env sn dl) (\<lambda>_.
         and_then (audit_step_event repo env sn ''ORCHESTRATION_ADVANCED'' c
           [(''planSource'', JStr (plan_source_value (pl_source (po_plan outcome)))),
            (''proposalStatus'', JStr (proposal_status_value (po_status outcome))),
            (''createdTaskIds'', JList (map (\<lambda>i. JStr (str_uuid i)) created)),
            (''outboxedTaskIds'', JList (map (\<lambda>i. JStr (str_uuid i)) created)),
            (''readiness'', JObj (map (\<lambda>a. (task_type_value (na_task_type a),
                                          JStr (readiness_value (na_readiness a)))) (rr_assessments rep))),
            (''supersededTaskIds'', JList (map (\<lambda>i. JStr (str_uuid i)) (rr_superseded_task_ids rep))),
            (''deadlock'', JBool (dl \<noteq> None))]) (\<lambda>_.
         ret \<lparr>ar_execution_id = av_execution_id env, ar_case_id = c,
              ar_case_version = sn_case_version sn, ar_recorded_at = av_now env,
              ar_plan = po_plan outcome, ar_proposal_status = po_status outcome,
              ar_validation_errors = po_validation_errors outcome, ar_readiness = rep,
              ar_gates = gates, ar_created_task_ids = created, ar_outboxed_task_ids = created,
              ar_superseded_task_ids = rr_superseded_task_ids rep, ar_deadlock = dl\<rparr>)))))"

definition advance_case ::
  "'s orch_repo \<Rightarrow> 'raw advance_env \<Rightarrow> uuid \<Rightarrow> ('s, use_error, advance_result) act" where
  "advance_case repo env c =
     and_then (reading (rp_load_snapshot repo c)) (\<lambda>loaded. case loaded of
       None \<Rightarrow> raise CaseNotFound
     | Some sn \<Rightarrow>
         and_then (refresh_gates repo sn) (\<lambda>gates. advance_after repo env c sn gates))"

section \<open>The status view\<close>

record orchestration_status =
  os_case_version :: int
  os_has_intake_handoff :: bool
  os_plan :: plan
  os_readiness :: readiness_report
  os_gates :: "gate_record list"
  os_tasks :: "task_row list"
  os_deadlock :: "deadlock option"

definition build_status :: "snapshot \<Rightarrow> dependency_template \<Rightarrow> orchestration_status" where
  "build_status sn tpl =
     (let gates = derive_effective_gates sn;
          rep = evaluate_readiness (sn\<lparr>sn_gates := gates\<rparr>) tpl
      in \<lparr>os_case_version = sn_case_version sn, os_has_intake_handoff = sn_has_intake_handoff sn,
          os_plan = build_default_plan rep tpl, os_readiness = rep, os_gates = gates,
          os_tasks = sn_tasks sn,
          os_deadlock = detect_deadlock (state_map rep) (reason_map rep)\<rparr>)"

end
