(* ===== verification/Advance_Safety.thy ===== *)
theory Advance_Safety
  imports Advance
begin

text \<open>
  What one tick of the orchestrator can do to a case, over any repository that
  keeps the contract: it extends the snapshot, on every outcome, and what it
  schedules is what the status view reports as ready.
\<close>

section \<open>Readiness depends on the gates through their status\<close>

definition gate_summary :: "gate_record \<Rightarrow> gate_type \<times> int \<times> gate_status" where
  "gate_summary r = (gr_gate_type r, gr_case_version r, gr_status r)"

lemma snapshot_gate_status_summary:
  "snapshot_gate_status sn =
     py_dict (map (\<lambda>(t, v, s). (t, s))
       (filter (\<lambda>(t, v, s). v = sn_case_version sn) (map gate_summary (sn_gates sn))))"
  by (simp add: snapshot_gate_status_def filter_map o_def gate_summary_def)

lemma evaluate_readiness_cong:
  assumes "map gate_summary gs = map gate_summary gs'"
  shows "evaluate_readiness (sn\<lparr>sn_gates := gs\<rparr>) tpl = evaluate_readiness (sn\<lparr>sn_gates := gs'\<rparr>) tpl"
proof -
  have status: "snapshot_gate_status (sn\<lparr>sn_gates := gs\<rparr>) = snapshot_gate_status (sn\<lparr>sn_gates := gs'\<rparr>)"
    by (simp add: snapshot_gate_status_summary assms)
  have same: "current_task (sn\<lparr>sn_gates := xs\<rparr>) = current_task sn"
    "has_stale_task (sn\<lparr>sn_gates := xs\<rparr>) = has_stale_task sn"
    "blocked_by_gap (sn\<lparr>sn_gates := xs\<rparr>) = blocked_by_gap sn"
    "superseded_ids (sn\<lparr>sn_gates := xs\<rparr>) = superseded_ids sn" for xs
    by (simp_all add: fun_eq_iff current_task_def has_stale_task_def blocked_by_gap_def superseded_ids_def)
  have "assess_nodes (sn\<lparr>sn_gates := gs\<rparr>) r tpl = assess_nodes (sn\<lparr>sn_gates := gs'\<rparr>) r tpl" for r
    by (induction tpl arbitrary: r) (simp_all add: Let_def status same)
  then show ?thesis by (simp add: evaluate_readiness_def same)
qed

definition derived_report :: "snapshot \<Rightarrow> dependency_template \<Rightarrow> readiness_report" where
  "derived_report sn tpl = evaluate_readiness (sn\<lparr>sn_gates := derive_effective_gates sn\<rparr>) tpl"

lemma build_status_readiness: "os_readiness (build_status sn tpl) = derived_report sn tpl"
  by (simp add: build_status_def derived_report_def Let_def)

section \<open>Extension of a snapshot\<close>

definition holds_satisfied :: "snapshot \<Rightarrow> gate_type \<Rightarrow> bool" where
  "holds_satisfied sn g \<longleftrightarrow> (\<exists>r. stored_gate sn g = Some r \<and> gr_status r = SATISFIED)"

definition new_pending :: "snapshot \<Rightarrow> task_type set \<Rightarrow> task_row \<Rightarrow> bool" where
  "new_pending sn types r \<longleftrightarrow>
     tr_task_type r \<in> types \<and> tr_case_version r = sn_case_version sn \<and> tr_status r = PENDING"

definition orch_extends :: "task_type set \<Rightarrow> snapshot \<Rightarrow> snapshot \<Rightarrow> bool" where
  "orch_extends types sn sn' \<longleftrightarrow>
     sn_case_id sn' = sn_case_id sn \<and> sn_case_version sn' = sn_case_version sn \<and>
     sn_has_intake_handoff sn' = sn_has_intake_handoff sn \<and>
     sn_blocking_gaps sn' = sn_blocking_gaps sn \<and>
     (\<exists>new. sn_tasks sn' = sn_tasks sn @ new \<and> list_all (new_pending sn types) new) \<and>
     (\<forall>g r. stored_gate sn g = Some r \<longrightarrow> gr_status r = SATISFIED \<longrightarrow> stored_gate sn' g = Some r) \<and>
     (\<forall>g. holds_satisfied sn' g \<longrightarrow>
        holds_satisfied sn g \<or> g = G1_INTAKE_COMPLETE \<and> sn_has_intake_handoff sn)"

lemma orch_extends_refl [simp]: "orch_extends types sn sn"
  by (simp add: orch_extends_def)

lemma orch_extends_gate:
  assumes "orch_extends types sn sn'"
    and "\<And>h. stored_gate (sn'\<lparr>sn_gates := gs\<rparr>) h = (if h = g then Some r else stored_gate sn' h)"
    and "gate_ensured (stored_gate sn' g) g v st a ref r"
    and "st = SATISFIED \<Longrightarrow> holds_satisfied sn g \<or> g = G1_INTAKE_COMPLETE \<and> sn_has_intake_handoff sn"
  shows "orch_extends types sn (sn'\<lparr>sn_gates := gs\<rparr>)"
proof -
  have "stored_gate (sn'\<lparr>sn_gates := gs\<rparr>) h = Some r0"
    if "stored_gate sn h = Some r0" "gr_status r0 = SATISFIED" for h r0
    using that assms(1,2,3) gate_ensured_satisfied [of r0 g v st a ref r]
    by (auto simp: orch_extends_def)
  moreover have "holds_satisfied sn h \<or> h = G1_INTAKE_COMPLETE \<and> sn_has_intake_handoff sn"
    if "holds_satisfied (sn'\<lparr>sn_gates := gs\<rparr>) h" for h
    using that assms(1,2,4) gate_ensured_status [OF assms(3)]
    by (cases "h = g") (auto simp: orch_extends_def holds_satisfied_def)
  ultimately show ?thesis using assms(1) by (auto simp: orch_extends_def)
qed

lemma orch_extends_task:
  "orch_extends types sn sn' \<Longrightarrow> new_pending sn types r \<Longrightarrow>
   orch_extends types sn (sn'\<lparr>sn_tasks := sn_tasks sn' @ [r]\<rparr>)"
  by (auto simp: orch_extends_def holds_satisfied_def stored_gate_cong [of "_\<lparr>sn_tasks := _\<rparr>"])

lemma effective_satisfied_iff:
  "gr_status (effective_gate sn g) = SATISFIED \<longleftrightarrow>
   holds_satisfied sn g \<or> g = G1_INTAKE_COMPLETE \<and> sn_has_intake_handoff sn"
  by (cases "g = G1_INTAKE_COMPLETE")
    (auto simp: holds_satisfied_def effective_gate_intake effective_gate_human)

lemma effective_satisfied:
  "g \<in> set (derive_effective_gates sn) \<Longrightarrow> gr_status g = SATISFIED \<Longrightarrow>
   holds_satisfied sn (gr_gate_type g) \<or>
   gr_gate_type g = G1_INTAKE_COMPLETE \<and> sn_has_intake_handoff sn"
  by (auto simp: derive_effective_gates_def effective_satisfied_iff)

section \<open>Every call of the use case extends the snapshot\<close>

context orchestration_repository
begin

definition extended_from :: "'a \<Rightarrow> uuid \<Rightarrow> snapshot \<Rightarrow> task_type set \<Rightarrow> 'a \<Rightarrow> bool" where
  "extended_from s0 c sn types s \<longleftrightarrow>
     inv s \<and> (\<exists>sn'. rp_load_snapshot repo c s = Some sn' \<and> orch_extends types sn sn') \<and>
     (\<forall>c'. c' \<noteq> c \<longrightarrow> rp_load_snapshot repo c' s = rp_load_snapshot repo c' s0) \<and>
     (\<forall>c'. keys c' s0 \<subseteq> keys c' s)"

lemma audit_extends [preserving]: "keeps (extended_from s0 c sn types) (rp_append_audit repo e)"
proof (rule keepsI)
  fix s err s' assume "extended_from s0 c sn types s" "rp_append_audit repo e s = (Inl err, s')"
  then show "extended_from s0 c sn types s'" by (metis audit_fails)
next
  fix s u s' assume pre: "extended_from s0 c sn types s" and run: "rp_append_audit repo e s = (Inr u, s')"
  from pre have "inv s" by (simp add: extended_from_def)
  note post = audit_returns [OF this run]
  from pre show "extended_from s0 c sn types s'" by (simp add: extended_from_def post)
qed

lemma proposal_extends [preserving]: "keeps (extended_from s0 c sn types) (rp_record_proposal repo p)"
proof (rule keepsI)
  fix s err s' assume "extended_from s0 c sn types s" "rp_record_proposal repo p s = (Inl err, s')"
  then show "extended_from s0 c sn types s'" by (metis proposal_fails)
next
  fix s u s' assume pre: "extended_from s0 c sn types s" and run: "rp_record_proposal repo p s = (Inr u, s')"
  from pre have "inv s" by (simp add: extended_from_def)
  note post = proposal_returns [OF this run]
  from pre show "extended_from s0 c sn types s'" by (simp add: extended_from_def post)
qed

lemma gate_extends:
  assumes "status = SATISFIED \<Longrightarrow> holds_satisfied sn g \<or> g = G1_INTAKE_COMPLETE \<and> sn_has_intake_handoff sn"
    and v: "v = sn_case_version sn"
  shows "keeps (extended_from s0 c sn types) (rp_ensure_gate repo c v g status a ref)"
proof (rule keepsI)
  fix s e s' assume "extended_from s0 c sn types s" "rp_ensure_gate repo c v g status a ref s = (Inl e, s')"
  then show "extended_from s0 c sn types s'" by (metis gate_fails)
next
  fix s r s'
  assume pre: "extended_from s0 c sn types s" and run: "rp_ensure_gate repo c v g status a ref s = (Inr r, s')"
  then obtain sn' where load: "rp_load_snapshot repo c s = Some sn'" and ext: "orch_extends types sn sn'"
    and inv: "inv s" by (auto simp: extended_from_def)
  from ext v have "v = sn_case_version sn'" by (simp add: orch_extends_def)
  note post = gate_returns [OF inv load this run]
  from post obtain gs where gs: "rp_load_snapshot repo c s' = Some (sn'\<lparr>sn_gates := gs\<rparr>)"
    "\<And>h. stored_gate (sn'\<lparr>sn_gates := gs\<rparr>) h = (if h = g then Some r else stored_gate sn' h)" by blast
  have "orch_extends types sn (sn'\<lparr>sn_gates := gs\<rparr>)"
    using ext gs(2) post assms(1) by (intro orch_extends_gate) auto
  with pre post gs(1) show "extended_from s0 c sn types s'" by (auto simp: extended_from_def)
qed

lemma task_extends:
  assumes "t \<in> types" "v = sn_case_version sn"
  shows "keeps (extended_from s0 c sn types) (rp_create_task repo i c v t key p deps)"
proof (rule keepsI)
  fix s e s' assume "extended_from s0 c sn types s" "rp_create_task repo i c v t key p deps s = (Inl e, s')"
  then show "extended_from s0 c sn types s'" by (metis task_fails)
next
  fix s ct s'
  assume pre: "extended_from s0 c sn types s" and run: "rp_create_task repo i c v t key p deps s = (Inr ct, s')"
  then obtain sn' where load: "rp_load_snapshot repo c s = Some sn'" and ext: "orch_extends types sn sn'"
    and inv: "inv s" by (auto simp: extended_from_def)
  from ext assms(2) have v: "v = sn_case_version sn'" by (simp add: orch_extends_def)
  show "extended_from s0 c sn types s'"
  proof (cases "key \<in> keys c s")
    case True
    with task_known [OF inv True run] pre show ?thesis by simp
  next
    case False
    note post = task_returns [OF inv load v False run]
    then have "new_pending sn types (ct_row ct)"
      using assms by (simp add: new_pending_def)
    with ext post have "orch_extends types sn (sn'\<lparr>sn_tasks := sn_tasks sn' @ [ct_row ct]\<rparr>)"
      by (intro orch_extends_task) auto
    with pre post show ?thesis unfolding extended_from_def by (metis subset_insertI2)
  qed
qed


lemma audit_event_extends [preserving]:
  "keeps (extended_from s0 c sn types) (audit_step_event repo env sn' ev art data)"
  by (simp add: audit_step_event_def audit_extends)

lemma audit_deadlock_extends [preserving]:
  "keeps (extended_from s0 c sn types) (audit_deadlock repo env sn' dl)"
  by (simp add: audit_deadlock_def audit_event_extends split: option.split)

lemma record_outcome_extends [preserving]:
  "keeps (extended_from s0 c sn types) (record_outcome repo env sn' outcome)"
  by (auto simp: record_outcome_def Let_def intro!: keeps_and_then proposal_extends audit_event_extends)

lemma refresh_extends:
  "sn_case_id sn = c \<Longrightarrow> keeps (extended_from s0 c sn types) (refresh_gates repo sn)"
  unfolding refresh_gates_def
  by (intro keeps_act_map) (auto intro!: gate_extends dest: effective_satisfied)

lemma schedule_extends:
  assumes "sn_case_id sn' = c" "sn_case_version sn' = sn_case_version sn"
  shows "set (map ps_task_type steps) \<subseteq> types \<Longrightarrow>
    keeps (extended_from s0 c sn types) (schedule_steps repo tpl sn' src ids n steps)"
proof (induction steps arbitrary: n)
  case (Cons step steps)
  then show ?case using assms
    by (auto split: option.split intro!: keeps_and_then task_extends)
qed simp

text \<open>The gates that are read back have the status that was derived.\<close>

lemma refresh_summary:
  assumes "act_map (\<lambda>g. on_error RepositoryError
         (rp_ensure_gate repo c (sn_case_version sn) (gr_gate_type g) (gr_status g)
            (gr_satisfied_by g) (gr_disposition_ref g))) gs s = (Inr rs, s')"
    and "extended_from s0 c sn types s" "set gs \<subseteq> set (derive_effective_gates sn)"
  shows "map gate_summary rs = map gate_summary gs"
  using assms
proof (induction gs arbitrary: s rs)
  case Nil
  then show ?case by simp
next
  case (Cons g gs)
  from Cons.prems(1) obtain r s1 rest where
    run: "rp_ensure_gate repo c (sn_case_version sn) (gr_gate_type g) (gr_status g)
            (gr_satisfied_by g) (gr_disposition_ref g) s = (Inr r, s1)"
    and rest: "act_map (\<lambda>g. on_error RepositoryError
         (rp_ensure_gate repo c (sn_case_version sn) (gr_gate_type g) (gr_status g)
            (gr_satisfied_by g) (gr_disposition_ref g))) gs s1 = (Inr rest, s')"
    and rs: "rs = r # rest"
    by (auto simp: and_then_Inr)
  from Cons.prems(2) obtain sn1 where load: "rp_load_snapshot repo c s = Some sn1"
    and ext: "orch_extends types sn sn1" and inv: "inv s" by (auto simp: extended_from_def)
  from ext have v: "sn_case_version sn = sn_case_version sn1" by (simp add: orch_extends_def)
  note post = gate_returns [OF inv load v run]
  from Cons.prems(3) have g: "g = effective_gate sn (gr_gate_type g)"
    by (auto simp: derive_effective_gates_def)
  have "keeps (extended_from s0 c sn types) (rp_ensure_gate repo c (sn_case_version sn) (gr_gate_type g)
      (gr_status g) (gr_satisfied_by g) (gr_disposition_ref g))"
    using Cons.prems(3) by (intro gate_extends) (auto dest: effective_satisfied)
  from keepsD [OF this Cons.prems(2)] run have "extended_from s0 c sn types s1" by simp
  from Cons.IH [OF rest this] Cons.prems(3) have tail: "map gate_summary rest = map gate_summary gs" by simp
  have sat: "gr_status r = SATISFIED \<longleftrightarrow> gr_status g = SATISFIED"
  proof -
    have "holds_satisfied sn1 (gr_gate_type g) \<Longrightarrow> gr_status g = SATISFIED"
      using ext by (subst g) (auto simp: effective_satisfied_iff orch_extends_def)
    with gate_ensured_status [of "stored_gate sn1 (gr_gate_type g)"] post show ?thesis
      by (auto simp: holds_satisfied_def)
  qed
  have "gr_gate_type r = gr_gate_type g \<and> gr_case_version r = sn_case_version sn"
  proof -
    from post obtain gs' where
      "\<forall>h. stored_gate (sn1\<lparr>sn_gates := gs'\<rparr>) h = (if h = gr_gate_type g then Some r else stored_gate sn1 h)"
      by blast
    then have "stored_gate (sn1\<lparr>sn_gates := gs'\<rparr>) (gr_gate_type g) = Some r" by simp
    from stored_gate_SomeD [OF this] show ?thesis by (simp add: v)
  qed
  moreover have "gr_case_version g = sn_case_version sn" by (subst g) simp
  moreover have "gr_status r = gr_status g" using sat by (metis gate_status.exhaust)
  ultimately have "gate_summary r = gate_summary g" by (simp add: gate_summary_def)
  with tail show ?case by (simp add: rs)
qed

lemma extended_from_start:
  "inv s \<Longrightarrow> rp_load_snapshot repo c s = Some sn \<Longrightarrow> extended_from s c sn types s"
  by (simp add: extended_from_def)

text \<open>
  Whatever the outcome, a tick only extends the snapshot, by pending tasks of
  the types the status view reports as ready.
\<close>

lemma advance_extends:
  assumes inv: "inv s" and load: "rp_load_snapshot repo c s = Some sn"
  shows "extended_from s c sn (set (ready_types (derived_report sn (av_template env))))
    (snd (advance_case repo env c s))"
proof -
  let ?types = "set (ready_types (derived_report sn (av_template env)))"
  let ?P = "extended_from s c sn ?types"
  have c: "sn_case_id sn = c" using load by (rule load_case_id)
  obtain res s1 where gates: "refresh_gates repo sn s = (res, s1)" by (cases "refresh_gates repo sn s")
  have s1: "?P s1"
    using keepsD [OF refresh_extends [OF c] extended_from_start [OF inv load, of ?types]] gates by simp
  show ?thesis
  proof (cases res)
    case (Inl e)
    with gates s1 load show ?thesis by (simp add: advance_case_def)
  next
    case (Inr gs)
    let ?rep = "evaluate_readiness (sn\<lparr>sn_gates := gs\<rparr>) (av_template env)"
    let ?plan = "po_plan (planner_plan (av_template env) (av_gateway env) c (str_uuid (av_execution_id env)) ?rep)"
    have "map gate_summary gs = map gate_summary (derive_effective_gates sn)"
      using gates Inr c by (intro refresh_summary [OF _ extended_from_start [OF inv load]])
        (auto simp: refresh_gates_def)
    then have rep: "?rep = derived_report sn (av_template env)"
      unfolding derived_report_def by (rule evaluate_readiness_cong)
    then have "set (map ps_task_type (pl_steps ?plan)) \<subseteq> ?types"
      using set_planner_plan [of "av_template env" "av_gateway env" c "str_uuid (av_execution_id env)" ?rep]
      by (simp add: plan_task_types_def)
    then have sched: "keeps ?P (schedule_steps repo (av_template env) (sn\<lparr>sn_gates := gs\<rparr>) src ids n
        (pl_steps ?plan))" for src ids n
      using c by (intro schedule_extends) simp_all
    from gates Inr load have "advance_case repo env c s = advance_after repo env c sn gs s1"
      by (simp add: advance_case_def advance_after_def)
    moreover have "keeps ?P (advance_after repo env c sn gs)"
      unfolding advance_after_def Let_def
      by (intro keeps_and_then record_outcome_extends sched audit_deadlock_extends
          audit_event_extends keeps_ret)
    ultimately show ?thesis using keepsD s1 by metis
  qed
qed

end

end
