(* ===== verification/Advance_Idempotent.thy ===== *)
theory Advance_Idempotent
  imports Advance_Safety
begin

text \<open>
  The exact effect of the two write loops of a tick, the conditions under which
  a tick returns, and the absence of any further effect of a second tick.
\<close>

section \<open>Readiness of an extended snapshot\<close>

lemma snapshot_gate_status_stored: "snapshot_gate_status sn g = map_option gr_status (stored_gate sn g)"
  unfolding snapshot_gate_status_def stored_gate_def by (rule py_dict_map)

lemma derived_gate_status:
  "snapshot_gate_status (sn\<lparr>sn_gates := derive_effective_gates sn\<rparr>) g =
     Some (gr_status (effective_gate sn g))"
  by (simp add: snapshot_gate_status_stored stored_gate_derived)

definition node_ready :: "snapshot \<Rightarrow> task_node \<Rightarrow> bool" where
  "node_ready sn n \<longleftrightarrow>
     live_status sn (tn_task_type n) = None \<and> \<not> blocked_by_gap sn (tn_task_type n) \<and>
     (\<forall>g. tn_required_gate n = Some g \<longrightarrow> gr_status (effective_gate sn g) = SATISFIED) \<and>
     (\<forall>p\<in>set (tn_predecessors n). live_status sn p = Some SUCCEEDED)"

lemma derived_ready_types:
  assumes "topological_from [] tpl"
  shows "ready_types (derived_report sn tpl) = map tn_task_type (filter (node_ready sn) tpl)"
proof -
  let ?sn = "sn\<lparr>sn_gates := derive_effective_gates sn\<rparr>"
  have "node_readiness ?sn n = R_READY \<longleftrightarrow> node_ready sn n" for n
    by (auto simp: node_readiness_ready node_ready_def gate_open_for_def derived_gate_status
        live_status_def current_task_def blocked_by_gap_def split: option.split)
  then show ?thesis
    unfolding derived_report_def ready_types_spec [OF assms] by simp
qed

lemma live_status_rows:
  "live_status sn t =
     py_dict (map (\<lambda>r. (tr_task_type r, tr_status r))
       (filter (\<lambda>r. tr_case_version r = sn_case_version sn \<and> tr_status r \<noteq> SUPERSEDED) (sn_tasks sn))) t"
  unfolding live_status_def current_task_def by (rule py_dict_map [symmetric])

lemma live_status_extends:
  assumes "sn_tasks sn' = sn_tasks sn @ new" "sn_case_version sn' = sn_case_version sn"
    and "list_all (new_pending sn types) new"
  shows "live_status sn' t = (if t \<in> tr_task_type ` set new then Some PENDING else live_status sn t)"
proof -
  let ?rows = "map (\<lambda>r. (tr_task_type r, tr_status r)) new"
  have "filter (\<lambda>r. tr_case_version r = sn_case_version sn \<and> tr_status r \<noteq> SUPERSEDED) new = new"
    using assms(3) by (auto simp: filter_id_conv list_all_set new_pending_def)
  then have "live_status sn' t =
      (case py_dict ?rows t of None \<Rightarrow> live_status sn t | Some v \<Rightarrow> Some v)"
    by (simp add: live_status_rows assms(1,2) py_dict_append split: option.split)
  moreover have "py_dict ?rows t = (if t \<in> tr_task_type ` set new then Some PENDING else None)"
  proof (cases "py_dict ?rows t")
    case None
    then show ?thesis by (auto simp: py_dict_None_iff image_iff)
  next
    case (Some a)
    from py_dict_SomeD [OF this] assms(3) have "a = PENDING" "t \<in> tr_task_type ` set new"
      by (auto simp: list_all_set new_pending_def)
    with Some show ?thesis by simp
  qed
  ultimately show ?thesis by simp
qed

lemma blocked_extends:
  assumes "sn_tasks sn' = sn_tasks sn @ new" "sn_blocking_gaps sn' = sn_blocking_gaps sn"
    and "tr_task_id ` set new \<inter> tr_task_id ` set (sn_tasks sn) = {}"
    and "blocked_by_gap sn t"
  shows "blocked_by_gap sn' t"
proof -
  from assms(4) obtain g where g: "g \<in> set (sn_blocking_gaps sn)" "bg_blocking_level g = ''BLOCKING''"
    and dict: "py_dict (map (\<lambda>r. (tr_task_id r, tr_task_type r)) (sn_tasks sn)) (bg_affected_task_id g) = Some t"
    by (auto simp: blocked_by_gap_def list_ex_set)
  from py_dict_SomeD [OF dict] have "bg_affected_task_id g \<in> tr_task_id ` set (sn_tasks sn)" by auto
  with assms(3) have "py_dict (map (\<lambda>r. (tr_task_id r, tr_task_type r)) new) (bg_affected_task_id g) = None"
    by (auto simp: py_dict_None_iff image_iff)
  with dict g show ?thesis
    by (auto simp: blocked_by_gap_def list_ex_set assms(1,2) py_dict_append intro!: bexI [of _ g])
qed

lemma ready_extends:
  assumes ext: "orch_extends types sn sn'" and tasks: "sn_tasks sn' = sn_tasks sn @ new"
    and fresh: "tr_task_id ` set new \<inter> tr_task_id ` set (sn_tasks sn) = {}"
    and tpl: "topological_from [] tpl"
  shows "set (ready_types (derived_report sn' tpl)) \<subseteq> set (ready_types (derived_report sn tpl))"
proof -
  have new: "list_all (new_pending sn types) new" and v: "sn_case_version sn' = sn_case_version sn"
    and gaps: "sn_blocking_gaps sn' = sn_blocking_gaps sn"
    and handoff: "sn_has_intake_handoff sn' = sn_has_intake_handoff sn"
    using ext tasks by (auto simp: orch_extends_def)
  have "gr_status (effective_gate sn' g) = SATISFIED \<Longrightarrow> gr_status (effective_gate sn g) = SATISFIED" for g
    using ext handoff by (auto simp: effective_satisfied_iff orch_extends_def)
  moreover have "live_status sn' p = Some SUCCEEDED \<Longrightarrow> live_status sn p = Some SUCCEEDED"
    "live_status sn' p = None \<Longrightarrow> live_status sn p = None" for p
    using live_status_extends [OF tasks v new, of p] by (auto split: if_splits)
  ultimately have "node_ready sn' n \<Longrightarrow> node_ready sn n" for n
    using blocked_extends [OF tasks gaps fresh] unfolding node_ready_def by blast
  then show ?thesis by (auto simp: derived_ready_types [OF tpl])
qed

lemma idempotency_key_inj: "idempotency_key c v t = idempotency_key c v u \<Longrightarrow> t = u"
  by (auto simp: idempotency_key_def dest: task_type_value_inj)


lemma advance_after_parts:
  assumes "advance_after repo env c sn gs s = (Inr r, s')"
  defines "rep \<equiv> evaluate_readiness (sn\<lparr>sn_gates := gs\<rparr>) (av_template env)"
  defines "outcome \<equiv> planner_plan (av_template env) (av_gateway env) c (str_uuid (av_execution_id env)) rep"
  shows "\<exists>s2 s3 s4 ev art data.
    record_outcome repo env sn outcome s = (Inr (), s2) \<and>
    schedule_steps repo (av_template env) (sn\<lparr>sn_gates := gs\<rparr>) (pl_source (po_plan outcome))
      (av_ids env) 1 (pl_steps (po_plan outcome)) s2 = (Inr (ar_created_task_ids r), s3) \<and>
    audit_deadlock repo env sn (ar_deadlock r) s3 = (Inr (), s4) \<and>
    audit_step_event repo env sn ev art data s4 = (Inr (), s') \<and>
    ar_readiness r = rep"
  using assms(1) [unfolded advance_after_def Let_def, folded rep_def, folded outcome_def]
  unfolding and_then_Inr run_ret prod.inject sum.inject
  apply (elim exE conjE)
  apply hypsubst
  unfolding advance_result.simps
  apply (rule exI)+
  apply (rule conjI)
  apply simp
  apply (rule conjI)
  apply assumption
  apply (rule conjI)
  apply simp
  apply (rule conjI)
  apply simp
  apply simp
  done

section \<open>The exact effect of the write loops\<close>

definition settled :: "snapshot \<Rightarrow> bool" where
  "settled sn \<longleftrightarrow>
     (\<forall>g. \<exists>r. stored_gate sn g = Some r \<and>
        (gr_status (effective_gate sn g) = SATISFIED \<longrightarrow> gr_status r = SATISFIED))"

context orchestration_repository
begin

abbreviation ensure_derived :: "uuid \<Rightarrow> int \<Rightarrow> gate_record \<Rightarrow> ('a, use_error, gate_record) act" where
  "ensure_derived c v \<equiv> (\<lambda>g. on_error RepositoryError
         (rp_ensure_gate repo c v (gr_gate_type g) (gr_status g)
            (gr_satisfied_by g) (gr_disposition_ref g)))"

definition only_gates_differ :: "uuid \<Rightarrow> 'a \<Rightarrow> snapshot \<Rightarrow> 'a \<Rightarrow> snapshot \<Rightarrow> bool" where
  "only_gates_differ c s sn s' sn' \<longleftrightarrow>
     inv s' \<and> (\<forall>c'. keys c' s' = keys c' s) \<and> task_ids s' = task_ids s \<and>
     proposal_ids s' = proposal_ids s \<and> rp_load_snapshot repo c s' = Some sn' \<and>
     (\<exists>gs. sn' = sn\<lparr>sn_gates := gs\<rparr>)"

lemma ensure_gates_returns:
  assumes "act_map (ensure_derived c v) gs s = (Inr rs, s')"
    and "inv s" "rp_load_snapshot repo c s = Some sn" "v = sn_case_version sn"
    and "distinct (map gr_gate_type gs)"
  shows "\<exists>sn'. only_gates_differ c s sn s' sn' \<and>
    (\<forall>g\<in>set gs. \<exists>r. stored_gate sn' (gr_gate_type g) = Some r \<and>
       (gr_status g = SATISFIED \<longrightarrow> gr_status r = SATISFIED)) \<and>
    (\<forall>h. h \<notin> gr_gate_type ` set gs \<longrightarrow> stored_gate sn' h = stored_gate sn h)"
  using assms
proof (induction gs arbitrary: s sn rs)
  case Nil
  then show ?case
    by (auto simp: only_gates_differ_def intro!: exI [of _ sn] exI [of _ "sn_gates sn"])
next
  case (Cons g gs)
  from Cons.prems(1) obtain r s1 rest where
    run: "rp_ensure_gate repo c v (gr_gate_type g) (gr_status g)
            (gr_satisfied_by g) (gr_disposition_ref g) s = (Inr r, s1)"
    and rest: "act_map (ensure_derived c v) gs s1 = (Inr rest, s')"
    by (auto simp: and_then_Inr)
  note post = gate_returns [OF Cons.prems(2,3,4) run]
  from post obtain gs1 where load1: "rp_load_snapshot repo c s1 = Some (sn\<lparr>sn_gates := gs1\<rparr>)"
    and stored1: "\<And>h. stored_gate (sn\<lparr>sn_gates := gs1\<rparr>) h = (if h = gr_gate_type g then Some r else stored_gate sn h)"
    by blast
  let ?sn1 = "sn\<lparr>sn_gates := gs1\<rparr>"
  from Cons.IH [OF rest _ load1] post Cons.prems(4,5) obtain sn' where
    diff: "only_gates_differ c s1 ?sn1 s' sn'" and
    in_gs: "\<forall>g\<in>set gs. \<exists>r. stored_gate sn' (gr_gate_type g) = Some r \<and>
       (gr_status g = SATISFIED \<longrightarrow> gr_status r = SATISFIED)" and
    out_gs: "\<forall>h. h \<notin> gr_gate_type ` set gs \<longrightarrow> stored_gate sn' h = stored_gate ?sn1 h"
    by auto
  have "only_gates_differ c s sn s' sn'"
    using diff post by (auto simp: only_gates_differ_def)
  moreover have "stored_gate sn' (gr_gate_type g) = Some r"
    using out_gs stored1 Cons.prems(5) by auto
  moreover have "gr_status g = SATISFIED \<longrightarrow> gr_status r = SATISFIED"
    using gate_ensured_status [of "stored_gate sn (gr_gate_type g)"] post by blast
  ultimately show ?case using in_gs out_gs stored1 by auto
qed

lemma refresh_returns:
  assumes run: "refresh_gates repo sn s = (Inr rs, s')"
    and inv: "inv s" and load: "rp_load_snapshot repo c s = Some sn"
  shows "\<exists>sn'. only_gates_differ c s sn s' sn' \<and> settled sn'"
proof -
  have c: "sn_case_id sn = c" using load by (rule load_case_id)
  have "distinct (map gr_gate_type (derive_effective_gates sn))" by simp
  from ensure_gates_returns [OF run [unfolded refresh_gates_def c] inv load refl this]
  obtain sn' where diff: "only_gates_differ c s sn s' sn'" and
    stored: "\<forall>g\<in>set (derive_effective_gates sn). \<exists>r. stored_gate sn' (gr_gate_type g) = Some r \<and>
       (gr_status g = SATISFIED \<longrightarrow> gr_status r = SATISFIED)" by blast
  have stored': "\<exists>r. stored_gate sn' g = Some r \<and>
      (gr_status (effective_gate sn g) = SATISFIED \<longrightarrow> gr_status r = SATISFIED)" for g
    using stored by (force simp: derive_effective_gates_def)
  have "sn_has_intake_handoff sn' = sn_has_intake_handoff sn"
    using diff by (auto simp: only_gates_differ_def)
  then have "settled sn'"
    using stored' by (auto simp: settled_def effective_satisfied_iff holds_satisfied_def; metis option.sel)
  with diff show ?thesis by blast
qed

lemma refresh_settled:
  assumes "refresh_gates repo sn s = (res, s')" "inv s" "rp_load_snapshot repo c s = Some sn" "settled sn"
  shows "s' = s"
proof -
  have c: "sn_case_id sn = c" using assms(3) by (rule load_case_id)
  have "act_map (ensure_derived c (sn_case_version sn)) gs s = (res, s') \<Longrightarrow>
      set gs \<subseteq> set (derive_effective_gates sn) \<Longrightarrow> s' = s" for gs res s'
  proof (induction gs arbitrary: res s')
    case (Cons g gs)
    from Cons.prems(2) have g: "g = effective_gate sn (gr_gate_type g)"
      by (auto simp: derive_effective_gates_def)
    obtain r0 where r0: "stored_gate sn (gr_gate_type g) = Some r0"
      "gr_status g = SATISFIED \<longrightarrow> gr_status r0 = SATISFIED"
      using assms(4) g unfolding settled_def by metis
    then have r0': "gr_status r0 = SATISFIED \<or> gr_status g = OPEN" by (cases "gr_status g") auto
    obtain res1 s1 where run: "rp_ensure_gate repo c (sn_case_version sn) (gr_gate_type g) (gr_status g)
            (gr_satisfied_by g) (gr_disposition_ref g) s = (res1, s1)" by fastforce
    have s1: "s1 = s"
    proof (cases res1)
      case (Inl e)
      with run gate_fails show ?thesis by blast
    next
      case (Inr r)
      from gate_same [OF assms(2,3) refl run [unfolded Inr] r0(1) r0'] show ?thesis .
    qed
    obtain res2 s2 where rest: "act_map (ensure_derived c (sn_case_version sn)) gs s = (res2, s2)"
      by fastforce
    from Cons.IH [OF rest] Cons.prems(2) have "s2 = s" by simp
    show ?case
    proof (cases res1)
      case (Inl e)
      with run s1 have "ensure_derived c (sn_case_version sn) g s = (Inl (RepositoryError e), s)" by simp
      with Cons.prems(1) show ?thesis by simp
    next
      case (Inr r)
      with run s1 have "ensure_derived c (sn_case_version sn) g s = (Inr r, s)" by simp
      with Cons.prems(1) rest \<open>s2 = s\<close> show ?thesis by (cases res2) auto
    qed
  qed simp
  from this [of "derive_effective_gates sn"] assms(1) show ?thesis by (simp add: refresh_gates_def c)
qed

lemma schedule_returns:
  assumes "schedule_steps repo tpl gr src ids n steps s = (Inr created, s')"
    and "sn_case_id gr = c" "sn_case_version gr = v"
    and "inv s" "rp_load_snapshot repo c s = Some sn" "v = sn_case_version sn"
    and "distinct (map ps_task_type steps)"
  shows "inv s' \<and> keys c s' = keys c s \<union> idempotency_key c v ` set (map ps_task_type steps) \<and>
    proposal_ids s' = proposal_ids s \<and> set created \<inter> task_ids s = {} \<and>
    (\<exists>new. rp_load_snapshot repo c s' = Some (sn\<lparr>sn_tasks := sn_tasks sn @ new\<rparr>) \<and>
       map tr_task_id new = created \<and>
       map tr_task_type new =
         filter (\<lambda>t. idempotency_key c v t \<notin> keys c s) (map ps_task_type steps) \<and>
       list_all (\<lambda>r. tr_case_version r = v \<and> tr_status r = PENDING) new)"
  using assms
proof (induction steps arbitrary: s n sn created)
  case Nil
  then show ?case by (auto intro!: exI [of _ "[]"])
next
  case (Cons step steps)
  let ?t = "ps_task_type step"
  from Cons.prems(1-3) obtain node ct s1 rest where
    run: "rp_create_task repo (ids n) c v ?t (idempotency_key c v ?t)
               (JObj [(''priority'', JInt (ps_priority step)), (''rationale'', JStr (ps_rationale step)),
                      (''planSource'', JStr (plan_source_value src))])
               (depends_on_ids gr node) s = (Inr ct, s1)"
    and rest: "schedule_steps repo tpl gr src ids (Suc n) steps s1 = (Inr rest, s')"
    and created: "created = (if ct_created ct then tr_task_id (ct_row ct) # rest else rest)"
    by (auto simp: and_then_Inr split: option.splits)
  have dist: "distinct (map ps_task_type steps)" "?t \<notin> set (map ps_task_type steps)"
    using Cons.prems(7) by simp_all
  show ?case
  proof (cases "idempotency_key c v ?t \<in> keys c s")
    case True
    with task_known [OF Cons.prems(4) True run] have "s1 = s" "\<not> ct_created ct" by simp_all
    with Cons.IH [OF rest Cons.prems(2,3), of sn] Cons.prems dist True created
    show ?thesis by auto
  next
    case False
    note post = task_returns [OF Cons.prems(4,5,6) False run]
    let ?sn1 = "sn\<lparr>sn_tasks := sn_tasks sn @ [ct_row ct]\<rparr>"
    from Cons.IH [OF rest Cons.prems(2,3), of ?sn1] post Cons.prems(6) dist
    obtain new where new: "rp_load_snapshot repo c s' = Some (?sn1\<lparr>sn_tasks := sn_tasks ?sn1 @ new\<rparr>)"
      "map tr_task_id new = rest"
      "map tr_task_type new = filter (\<lambda>t. idempotency_key c v t \<notin> keys c s1) (map ps_task_type steps)"
      "list_all (\<lambda>r. tr_case_version r = v \<and> tr_status r = PENDING) new"
      and fields: "inv s'" "keys c s' = keys c s1 \<union> idempotency_key c v ` set (map ps_task_type steps)"
        "proposal_ids s' = proposal_ids s1" "set rest \<inter> task_ids s1 = {}" by auto
    have "filter (\<lambda>t. idempotency_key c v t \<notin> keys c s1) (map ps_task_type steps) =
        filter (\<lambda>t. idempotency_key c v t \<notin> keys c s) (map ps_task_type steps)"
    proof (rule filter_cong)
      fix t assume "t \<in> set (map ps_task_type steps)"
      with dist(2) have "idempotency_key c v t \<noteq> idempotency_key c v ?t"
        using idempotency_key_inj by metis
      with post show "(idempotency_key c v t \<notin> keys c s1) = (idempotency_key c v t \<notin> keys c s)" by simp
    qed simp
    then have "map tr_task_type (ct_row ct # new) =
        filter (\<lambda>t. idempotency_key c v t \<notin> keys c s) (map ps_task_type (step # steps))"
      using new(3) False post by simp
    moreover have "rp_load_snapshot repo c s' = Some (sn\<lparr>sn_tasks := sn_tasks sn @ (ct_row ct # new)\<rparr>)"
      using new(1) by simp
    moreover have "map tr_task_id (ct_row ct # new) = created" using new(2) created post by simp
    moreover have "list_all (\<lambda>r. tr_case_version r = v \<and> tr_status r = PENDING) (ct_row ct # new)"
      using new(4) post by simp
    moreover have "set created \<inter> task_ids s = {}" using fields(4) post created by auto
    ultimately show ?thesis using fields post by auto
  qed
qed

lemma schedule_known:
  assumes "schedule_steps repo tpl gr src ids n steps s = (res, s')"
    and "sn_case_id gr = c" "sn_case_version gr = v" "inv s"
    and "idempotency_key c v ` set (map ps_task_type steps) \<subseteq> keys c s"
  shows "s' = s \<and> (\<forall>created. res = Inr created \<longrightarrow> created = [])"
  using assms
proof (induction steps arbitrary: n res s')
  case Nil
  then show ?case by auto
next
  case (Cons step steps)
  let ?t = "ps_task_type step"
  show ?case
  proof (cases "by_type tpl ?t")
    case None
    with Cons.prems(1) show ?thesis by auto
  next
    case (Some node)
    let ?create = "rp_create_task repo (ids n) c v ?t (idempotency_key c v ?t)
               (JObj [(''priority'', JInt (ps_priority step)), (''rationale'', JStr (ps_rationale step)),
                      (''planSource'', JStr (plan_source_value src))])
               (depends_on_ids gr node)"
    obtain res1 s1 where run: "?create s = (res1, s1)" by fastforce
    show ?thesis
    proof (cases res1)
      case (Inl e)
      with run task_fails have "s1 = s" by blast
      with run Inl Cons.prems(1-3) Some
      have "on_error RepositoryError ?create s = (Inl (RepositoryError e), s)" by simp
      with Cons.prems(1-3) Some show ?thesis by auto
    next
      case (Inr ct)
      have "idempotency_key c v ?t \<in> keys c s" using Cons.prems(5) by simp
      from task_known [OF Cons.prems(4) this run [unfolded Inr]]
      have ct: "s1 = s" "\<not> ct_created ct" by simp_all
      then have *: "on_error RepositoryError ?create s = (Inr ct, s)" using run Inr by simp
      obtain res2 s2 where rest: "schedule_steps repo tpl gr src ids (Suc n) steps s = (res2, s2)"
        by fastforce
      from Cons.IH [OF rest Cons.prems(2,3,4)] Cons.prems(5)
      have "s2 = s" "\<And>created. res2 = Inr created \<Longrightarrow> created = []" by auto
      with * rest ct(2) Cons.prems(1-3) Some show ?thesis by (cases res2) auto
    qed
  qed
qed

lemma schedule_total:
  assumes "sn_case_id gr = c" "sn_case_version gr = v"
    and "inv s" "rp_load_snapshot repo c s = Some sn" "v = sn_case_version sn"
    and "set (sn_tasks gr) \<subseteq> set (sn_tasks sn)"
    and "\<And>t. t \<in> set (map ps_task_type steps) \<Longrightarrow> t \<noteq> DOCUMENT_INGESTION \<and> by_type tpl t \<noteq> None"
    and "inj_on ids {n..<n + length steps}" "ids ` {n..<n + length steps} \<inter> task_ids s = {}"
  shows "\<exists>created s'. schedule_steps repo tpl gr src ids n steps s = (Inr created, s')"
  using assms
proof (induction steps arbitrary: s n sn)
  case Nil
  then show ?case by simp
next
  case (Cons step steps)
  let ?t = "ps_task_type step"
  from Cons.prems(7) [of ?t] obtain node where node: "by_type tpl ?t = Some node" "?t \<noteq> DOCUMENT_INGESTION" by auto
  have "ids n \<in> ids ` {n..<n + length (step # steps)}" by (rule imageI) simp
  with Cons.prems(9) have fresh: "ids n \<notin> task_ids s" by blast
  have deps: "\<exists>r\<in>set (sn_tasks sn). tr_task_id r = d \<and> tr_case_version r = v"
    if "d \<in> set (depends_on_ids gr node)" for d
  proof -
    from that obtain p where "current_task_id gr p = Some d"
      by (auto simp: depends_on_ids_def map_filter_def)
    then show ?thesis using Cons.prems(2,6)
      by (fastforce simp: current_task_id_def dest!: py_dict_SomeD)
  qed
  obtain ct s1 where run: "rp_create_task repo (ids n) c v ?t (idempotency_key c v ?t)
               (JObj [(''priority'', JInt (ps_priority step)), (''rationale'', JStr (ps_rationale step)),
                      (''planSource'', JStr (plan_source_value src))])
               (depends_on_ids gr node) s = (Inr ct, s1)"
    using task_succeeds [OF Cons.prems(3,4,5) node(2) fresh deps] by blast
  have "\<exists>sn1. inv s1 \<and> rp_load_snapshot repo c s1 = Some sn1 \<and> v = sn_case_version sn1 \<and>
      set (sn_tasks gr) \<subseteq> set (sn_tasks sn1) \<and> task_ids s1 \<subseteq> insert (ids n) (task_ids s)"
  proof (cases "idempotency_key c v ?t \<in> keys c s")
    case True
    from task_known [OF Cons.prems(3) True run] Cons.prems show ?thesis by auto
  next
    case False
    from task_returns [OF Cons.prems(3,4,5) False run] Cons.prems(5,6) show ?thesis by auto
  qed
  then obtain sn1 where s1: "inv s1" "rp_load_snapshot repo c s1 = Some sn1" "v = sn_case_version sn1"
      "set (sn_tasks gr) \<subseteq> set (sn_tasks sn1)" "task_ids s1 \<subseteq> insert (ids n) (task_ids s)" by blast
  have "inj_on ids {Suc n..<Suc n + length steps}"
    using Cons.prems(8) by (rule inj_on_subset) auto
  moreover have "ids ` {Suc n..<Suc n + length steps} \<inter> task_ids s1 = {}"
  proof -
    have "ids k \<noteq> ids n" if "k \<in> {Suc n..<Suc n + length steps}" for k
      using that inj_onD [OF Cons.prems(8), of k n] by auto
    moreover have "ids k \<notin> task_ids s" if "k \<in> {Suc n..<Suc n + length steps}" for k
    proof -
      from that have "ids k \<in> ids ` {n..<n + length (step # steps)}" by (intro imageI) simp
      with Cons.prems(9) show ?thesis by blast
    qed
    ultimately show ?thesis using s1(5) by blast
  qed
  ultimately have "\<exists>created s'. schedule_steps repo tpl gr src ids (Suc n) steps s1 = (Inr created, s')"
    using Cons.IH [OF Cons.prems(1,2) s1(1-4)] Cons.prems(7) by simp
  then obtain created s' where "schedule_steps repo tpl gr src ids (Suc n) steps s1 = (Inr created, s')" by blast
  with run node(1) Cons.prems(1,2) show ?case by (auto simp: and_then_def on_error_def)
qed

text \<open>The audit and proposal writes do not touch what the orchestrator reads.\<close>

definition same_view :: "uuid \<Rightarrow> 'a \<Rightarrow> 'a \<Rightarrow> bool" where
  "same_view c s s' \<longleftrightarrow>
     inv s' \<and> rp_load_snapshot repo c s' = rp_load_snapshot repo c s \<and> keys c s' = keys c s \<and>
     task_ids s' = task_ids s"

lemma same_view_refl: "inv s \<Longrightarrow> same_view c s s"
  by (simp add: same_view_def)

lemma same_view_trans: "same_view c s t \<Longrightarrow> same_view c t u \<Longrightarrow> same_view c s u"
  by (simp add: same_view_def)

lemma audit_same_view:
  assumes "inv s"
  shows "same_view c s (snd (audit_step_event repo env sn ev art data s))"
proof -
  have "same_view c s s'" if "rp_append_audit repo e s = (res, s')" for e res s'
    using that assms audit_fails [of e s _ s'] audit_returns [OF assms, of e _ s' c]
    by (cases res) (auto simp: same_view_def)
  then show ?thesis by (simp add: audit_step_event_def) (metis prod.collapse)
qed

lemma audit_deadlock_same_view: "inv s \<Longrightarrow> same_view c s (snd (audit_deadlock repo env sn dl s))"
  by (auto simp: audit_deadlock_def same_view_refl audit_same_view split: option.split)

lemma and_then_same_view:
  assumes "same_view c s (snd (m s))"
    and "\<And>x t. m s = (Inr x, t) \<Longrightarrow> same_view c s t \<Longrightarrow> same_view c s (snd (f x t))"
  shows "same_view c s (snd (and_then m f s))"
  using assms by (cases "m s") (auto simp: and_then_def split: sum.split)

lemma record_outcome_same_view: "inv s \<Longrightarrow> same_view c s (snd (record_outcome repo env sn outcome s))"
proof -
  assume inv: "inv s"
  have "same_view c s s'" if "rp_record_proposal repo p s = (res, s')" for p res s'
    using that inv proposal_fails [of p s _ s'] proposal_returns [OF inv, of p _ s' c]
    by (cases res) (auto simp: same_view_def)
  then have "same_view c s (snd (on_error RepositoryError (rp_record_proposal repo p) s))" for p
    by (simp, metis prod.collapse)
  moreover have "same_view c s t \<Longrightarrow> same_view c s (snd (audit_step_event repo env sn ev art data t))"
    for t ev art data
    using audit_same_view [of t c env sn ev art data] same_view_trans [of c s t] by (auto simp: same_view_def)
  ultimately show ?thesis unfolding record_outcome_def Let_def by (intro and_then_same_view)
qed

lemma keeps_view: "(\<And>t. inv t \<Longrightarrow> same_view c t (snd (m t))) \<Longrightarrow> keeps (same_view c s) m"
  unfolding keeps_def using same_view_trans same_view_def by metis

lemma run_same_view:
  "same_view c s (snd x) \<Longrightarrow> x = (r, t) \<Longrightarrow> same_view c s t"
  by simp

lemma schedule_plan_types:
  "set (map ps_task_type (pl_steps (po_plan (planner_plan tpl gw c corr rep)))) = set (ready_types rep)"
  "mset (map ps_task_type (pl_steps (po_plan (planner_plan tpl gw c corr rep)))) = mset (ready_types rep)"
  using set_planner_plan mset_planner_plan unfolding plan_task_types_def by blast+

text \<open>A returned tick: what it has written, and that every ready type has its key.\<close>

lemma advance_returns:
  assumes run: "advance_case repo env c s = (Inr r, s')" and inv: "inv s"
    and load: "rp_load_snapshot repo c s = Some sn" and tpl: "topological_from [] (av_template env)"
  shows "\<exists>sn' new. rp_load_snapshot repo c s' = Some sn' \<and> settled sn' \<and> inv s' \<and>
    sn_tasks sn' = sn_tasks sn @ new \<and> map tr_task_id new = ar_created_task_ids r \<and>
    set (ar_created_task_ids r) \<inter> task_ids s = {} \<and>
    ar_readiness r = derived_report sn (av_template env) \<and>
    mset (map tr_task_type new) = mset (filter
      (\<lambda>t. idempotency_key c (sn_case_version sn) t \<notin> keys c s)
      (ready_types (derived_report sn (av_template env)))) \<and>
    idempotency_key c (sn_case_version sn) ` set (ready_types (derived_report sn (av_template env)))
      \<subseteq> keys c s'"
proof -
  let ?v = "sn_case_version sn" and ?rep = "derived_report sn (av_template env)"
  have c: "sn_case_id sn = c" using load by (rule load_case_id)
  from run load obtain gs s1 where gates: "refresh_gates repo sn s = (Inr gs, s1)"
    and after: "advance_after repo env c sn gs s1 = (Inr r, s')"
    by (auto simp: advance_case_def and_then_Inr)
  from refresh_returns [OF gates inv load] obtain sn1 where
    diff: "only_gates_differ c s sn s1 sn1" and settled: "settled sn1" by blast
  then have s1: "inv s1" "rp_load_snapshot repo c s1 = Some sn1" "sn_case_version sn1 = ?v"
    "sn_tasks sn1 = sn_tasks sn" "keys c s1 = keys c s" "task_ids s1 = task_ids s"
    by (auto simp: only_gates_differ_def)
  have "map gate_summary gs = map gate_summary (derive_effective_gates sn)"
    using gates c by (intro refresh_summary [OF _ extended_from_start [OF inv load]])
      (auto simp: refresh_gates_def)
  then have rep: "evaluate_readiness (sn\<lparr>sn_gates := gs\<rparr>) (av_template env) = ?rep"
    unfolding derived_report_def by (rule evaluate_readiness_cong)
  let ?outcome = "planner_plan (av_template env) (av_gateway env) c (str_uuid (av_execution_id env)) ?rep"
  let ?types = "map ps_task_type (pl_steps (po_plan ?outcome))"
  from advance_after_parts [OF after, unfolded rep] obtain s2 s3 s4 ev art data where
    recd: "record_outcome repo env sn ?outcome s1 = (Inr (), s2)"
    and sched: "schedule_steps repo (av_template env) (sn\<lparr>sn_gates := gs\<rparr>) (pl_source (po_plan ?outcome))
          (av_ids env) 1 (pl_steps (po_plan ?outcome)) s2 = (Inr (ar_created_task_ids r), s3)"
    and dead: "audit_deadlock repo env sn (ar_deadlock r) s3 = (Inr (), s4)"
    and audit: "audit_step_event repo env sn ev art data s4 = (Inr (), s')"
    and r: "ar_readiness r = ?rep" by blast
  from run_same_view [OF record_outcome_same_view [OF s1(1)] recd] s1
  have s2: "inv s2" "rp_load_snapshot repo c s2 = Some sn1" "keys c s2 = keys c s" "task_ids s2 = task_ids s"
    by (simp_all add: same_view_def)
  have "distinct ?types"
    using distinct_planner_plan [OF ready_types_distinct [OF tpl]]
    by (simp add: derived_report_def plan_task_types_def)
  from schedule_returns [OF sched _ _ s2(1,2) _ this] s2 s1 c obtain new where
    s3: "inv s3" "keys c s3 = keys c s \<union> idempotency_key c ?v ` set ?types"
      "set (ar_created_task_ids r) \<inter> task_ids s = {}"
      "rp_load_snapshot repo c s3 = Some (sn1\<lparr>sn_tasks := sn_tasks sn1 @ new\<rparr>)"
      "map tr_task_id new = ar_created_task_ids r"
      "map tr_task_type new = filter (\<lambda>t. idempotency_key c ?v t \<notin> keys c s) ?types" by auto
  from run_same_view [OF audit_deadlock_same_view [OF s3(1)] dead]
  have s4: "same_view c s3 s4" "inv s4" by (simp_all add: same_view_def)
  from same_view_trans [OF s4(1) run_same_view [OF audit_same_view [OF s4(2)] audit]]
  have view: "same_view c s3 s'" .
  have types: "mset (map tr_task_type new) =
      mset (filter (\<lambda>t. idempotency_key c ?v t \<notin> keys c s) (ready_types ?rep))"
    unfolding s3(6) mset_filter schedule_plan_types(2) by (rule refl)
  have settled': "settled (sn1\<lparr>sn_tasks := sn_tasks sn1 @ new\<rparr>)"
    using settled by (simp add: settled_def effective_satisfied_iff holds_satisfied_def
        stored_gate_cong [of "sn1\<lparr>sn_tasks := sn_tasks sn1 @ new\<rparr>" sn1])
  have load': "rp_load_snapshot repo c s' = Some (sn1\<lparr>sn_tasks := sn_tasks sn1 @ new\<rparr>)" and inv': "inv s'"
    using view s3(4) by (simp_all add: same_view_def)
  have taken: "idempotency_key c ?v ` set (ready_types ?rep) \<subseteq> keys c s'"
    using view s3(2) unfolding same_view_def schedule_plan_types(1) by simp
  show ?thesis
    by (rule exI [of _ "sn1\<lparr>sn_tasks := sn_tasks sn1 @ new\<rparr>"], rule exI [of _ new],
        intro conjI load' settled' inv' s3(3) s3(5) r types taken) (simp add: s1(4))
qed

text \<open>A tick that finds every gate settled and every ready type's key taken.\<close>

lemma advance_again:
  assumes run: "advance_case repo env c s = (res, s')" and inv: "inv s"
    and load: "rp_load_snapshot repo c s = Some sn" and settled: "settled sn"
    and taken: "idempotency_key c (sn_case_version sn) `
      set (ready_types (derived_report sn (av_template env))) \<subseteq> keys c s"
  shows "same_view c s s' \<and> (\<forall>r. res = Inr r \<longrightarrow> ar_created_task_ids r = [])"
proof -
  have c: "sn_case_id sn = c" using load by (rule load_case_id)
  obtain res1 s1 where gates: "refresh_gates repo sn s = (res1, s1)" by fastforce
  from refresh_settled [OF gates inv load settled] have s1: "s1 = s" .
  show ?thesis
  proof (cases res1)
    case (Inl e)
    with gates s1 run load inv show ?thesis by (auto simp: advance_case_def same_view_refl)
  next
    case (Inr gs)
    have "map gate_summary gs = map gate_summary (derive_effective_gates sn)"
      using gates Inr c by (intro refresh_summary [OF _ extended_from_start [OF inv load]])
        (auto simp: refresh_gates_def)
    then have rep: "evaluate_readiness (sn\<lparr>sn_gates := gs\<rparr>) (av_template env) = derived_report sn (av_template env)"
      unfolding derived_report_def by (rule evaluate_readiness_cong)
    let ?outcome = "planner_plan (av_template env) (av_gateway env) c (str_uuid (av_execution_id env))
      (derived_report sn (av_template env))"
    have sched: "same_view c s (snd (schedule_steps repo (av_template env) (sn\<lparr>sn_gates := gs\<rparr>)
        (pl_source (po_plan ?outcome)) (av_ids env) 1 (pl_steps (po_plan ?outcome)) t)) \<and>
      (\<forall>created t'. schedule_steps repo (av_template env) (sn\<lparr>sn_gates := gs\<rparr>)
        (pl_source (po_plan ?outcome)) (av_ids env) 1 (pl_steps (po_plan ?outcome)) t = (Inr created, t') \<longrightarrow>
        created = [])" if "same_view c s t" for t
    proof -
      obtain res2 t2 where r2: "schedule_steps repo (av_template env) (sn\<lparr>sn_gates := gs\<rparr>)
        (pl_source (po_plan ?outcome)) (av_ids env) 1 (pl_steps (po_plan ?outcome)) t = (res2, t2)" by fastforce
      have "idempotency_key c (sn_case_version sn) ` set (map ps_task_type (pl_steps (po_plan ?outcome))) \<subseteq> keys c t"
        using taken that unfolding schedule_plan_types(1) same_view_def by simp
      from schedule_known [OF r2 _ _ _ this] that c show ?thesis
        unfolding r2 by (simp add: same_view_def)
    qed
    have after: "advance_case repo env c s = advance_after repo env c sn gs s"
      using gates s1 Inr load by (simp add: advance_case_def)
    have ks: "keeps (same_view c s) (schedule_steps repo (av_template env) (sn\<lparr>sn_gates := gs\<rparr>)
        (pl_source (po_plan ?outcome)) (av_ids env) 1 (pl_steps (po_plan ?outcome)))"
      unfolding keeps_def by (intro allI impI, erule conjunct1 [OF sched])
    have "keeps (same_view c s) (advance_after repo env c sn gs)"
      unfolding advance_after_def Let_def rep
      by (intro keeps_and_then keeps_ret ks keeps_view [OF record_outcome_same_view]
          keeps_view [OF audit_deadlock_same_view] keeps_view [OF audit_same_view])
    from keepsD [OF this same_view_refl [OF inv]]
    have view: "same_view c s (snd (advance_after repo env c sn gs s))" .
    have "ar_created_task_ids r = []" if r: "advance_after repo env c sn gs s = (Inr r, s')" for r
    proof -
      from advance_after_parts [OF r, unfolded rep] obtain s2 s3
        where recd: "record_outcome repo env sn ?outcome s = (Inr (), s2)"
        and run2: "schedule_steps repo (av_template env) (sn\<lparr>sn_gates := gs\<rparr>) (pl_source (po_plan ?outcome))
          (av_ids env) 1 (pl_steps (po_plan ?outcome)) s2 = (Inr (ar_created_task_ids r), s3)" by blast
      from sched [OF run_same_view [OF record_outcome_same_view [OF inv] recd]] run2 show ?thesis by blast
    qed
    with view run after show ?thesis by simp
  qed
qed

lemma advance_twice:
  assumes first: "advance_case repo env c s = (Inr r, s')" and inv: "inv s"
    and load: "rp_load_snapshot repo c s = Some sn" and tpl: "topological_from [] (av_template env)"
    and second: "advance_case repo env' c s' = (res, s'')" and same: "av_template env' = av_template env"
  shows "same_view c s' s'' \<and> (\<forall>r'. res = Inr r' \<longrightarrow> ar_created_task_ids r' = [])"
proof -
  from advance_returns [OF first inv load tpl] obtain sn' new where
    load': "rp_load_snapshot repo c s' = Some sn'" and settled: "settled sn'" and inv': "inv s'"
    and tasks: "sn_tasks sn' = sn_tasks sn @ new" and ids: "map tr_task_id new = ar_created_task_ids r"
    and fresh: "set (ar_created_task_ids r) \<inter> task_ids s = {}"
    and taken: "idempotency_key c (sn_case_version sn) `
      set (ready_types (derived_report sn (av_template env))) \<subseteq> keys c s'" by blast
  from advance_extends [OF inv load, of env] first load'
  have ext: "orch_extends (set (ready_types (derived_report sn (av_template env)))) sn sn'"
    by (simp add: extended_from_def)
  then have v: "sn_case_version sn' = sn_case_version sn" by (simp add: orch_extends_def)
  have "tr_task_id ` set new \<inter> tr_task_id ` set (sn_tasks sn) = {}"
    using fresh ids load_task_ids [OF load] by (metis disjoint_iff list.set_map subset_iff)
  from ready_extends [OF ext tasks this tpl]
  have "idempotency_key c (sn_case_version sn') `
      set (ready_types (derived_report sn' (av_template env'))) \<subseteq> keys c s'"
    using taken by (auto simp: v same)
  from advance_again [OF second inv' load' settled this] show ?thesis .
qed

text \<open>A tick on a visible case returns when the identifiers it draws are fresh.\<close>

lemma audit_total:
  assumes "inv s" "rp_load_snapshot repo c s \<noteq> None" "sn_case_id sn = c"
  shows "returns s (audit_step_event repo env sn ev art data)
    (\<lambda>_ s'. inv s' \<and> rp_load_snapshot repo c s' \<noteq> None)"
proof -
  have "returns s (rp_append_audit repo e) (\<lambda>_ s'. inv s' \<and> rp_load_snapshot repo c s' \<noteq> None)"
    if "ae_case_id e = c" for e
    using audit_succeeds [OF assms(1), of e] audit_returns [OF assms(1), of e _ _ c] assms(2) that
    by (auto simp: returns_def)
  then show ?thesis using assms(3) by (simp add: audit_step_event_def)
qed

lemma audit_deadlock_total:
  assumes "inv s" "rp_load_snapshot repo c s \<noteq> None" "sn_case_id sn = c"
  shows "returns s (audit_deadlock repo env sn dl) (\<lambda>_ s'. inv s' \<and> rp_load_snapshot repo c s' \<noteq> None)"
proof (cases dl)
  case None
  with assms show ?thesis by (simp add: audit_deadlock_def)
next
  case (Some d)
  show ?thesis unfolding audit_deadlock_def Some option.case by (rule audit_total [OF assms])
qed

lemma record_outcome_total:
  assumes "inv s" "rp_load_snapshot repo c s \<noteq> None" "sn_case_id sn = c" "av_ids env 0 \<notin> proposal_ids s"
  shows "returns s (record_outcome repo env sn outcome) (\<lambda>_ s'. True)"
proof -
  have proposal: "returns s (rp_record_proposal repo p) (\<lambda>_ s1. inv s1 \<and> rp_load_snapshot repo c s1 \<noteq> None)"
    if "pr_id p = av_ids env 0" "pr_case_id p = c" for p
    using proposal_succeeds [OF assms(1), of p] proposal_returns [OF assms(1), of p _ _ c] assms(2,4) that
    by (auto simp: returns_def)
  show ?thesis
    unfolding record_outcome_def Let_def
    by (rule returns_and_then, simp only: returns_on_error, rule proposal)
      (auto simp: assms(3) intro: returns_mono [OF audit_total])
qed

lemma refresh_total:
  assumes "inv s" "rp_load_snapshot repo c s = Some sn0"
  shows "\<exists>rs s'. act_map (ensure_derived c (sn_case_version sn0)) gs s = (Inr rs, s')"
  using assms
proof (induction gs arbitrary: s sn0)
  case (Cons g gs)
  obtain r s1 where run: "rp_ensure_gate repo c (sn_case_version sn0) (gr_gate_type g) (gr_status g)
      (gr_satisfied_by g) (gr_disposition_ref g) s = (Inr r, s1)"
    using gate_succeeds [OF Cons.prems(1), of c] Cons.prems(2) by fastforce
  from gate_returns [OF Cons.prems refl run] obtain gs1 where
    s1: "inv s1" "rp_load_snapshot repo c s1 = Some (sn0\<lparr>sn_gates := gs1\<rparr>)" by blast
  from Cons.IH [OF s1] obtain rs s' where
    "act_map (ensure_derived c (sn_case_version sn0)) gs s1 = (Inr rs, s')" by auto
  moreover have "ensure_derived c (sn_case_version sn0) g s = (Inr r, s1)" using run by simp
  ultimately show ?case by simp
qed simp

definition fresh_ids :: "'raw advance_env \<Rightarrow> 'a \<Rightarrow> bool" where
  "fresh_ids env s \<longleftrightarrow>
     inj_on (av_ids env) {..length (av_template env)} \<and>
     av_ids env ` {..length (av_template env)} \<inter> task_ids s = {} \<and> av_ids env 0 \<notin> proposal_ids s"

lemma advance_total:
  assumes inv: "inv s" and load: "rp_load_snapshot repo c s = Some sn"
    and tpl: "topological_from [] (av_template env)"
    and agents: "DOCUMENT_INGESTION \<notin> tn_task_type ` set (av_template env)"
    and fresh: "fresh_ids env s"
  shows "\<exists>r s'. advance_case repo env c s = (Inr r, s')"
proof -
  let ?tpl = "av_template env"
  have c: "sn_case_id sn = c" using load by (rule load_case_id)
  from refresh_total [OF inv load, of "derive_effective_gates sn"] obtain gs s1
    where gates: "refresh_gates repo sn s = (Inr gs, s1)" unfolding refresh_gates_def c by blast
  from refresh_returns [OF gates inv load] obtain sn1 where
    s1: "inv s1" "rp_load_snapshot repo c s1 = Some sn1" "sn_case_version sn1 = sn_case_version sn"
    "sn_tasks sn1 = sn_tasks sn" "task_ids s1 = task_ids s" "proposal_ids s1 = proposal_ids s"
    by (auto simp: only_gates_differ_def)
  let ?rep = "evaluate_readiness (sn\<lparr>sn_gates := gs\<rparr>) ?tpl"
  let ?outcome = "planner_plan ?tpl (av_gateway env) c (str_uuid (av_execution_id env)) ?rep"
  let ?steps = "pl_steps (po_plan ?outcome)"
  have "rp_load_snapshot repo c s1 \<noteq> None" "av_ids env 0 \<notin> proposal_ids s1"
    using s1(2,6) fresh by (simp_all add: fresh_ids_def)
  from record_outcome_total [where env = env and outcome = ?outcome, OF s1(1) this(1) c this(2)]
  obtain s2 where s2: "record_outcome repo env sn ?outcome s1 = (Inr (), s2)" by (auto simp: returns_def)
  from run_same_view [OF record_outcome_same_view [OF s1(1)] s2]
  have view2: "inv s2" "rp_load_snapshot repo c s2 = Some sn1" "task_ids s2 = task_ids s"
    by (simp_all add: same_view_def s1)
  have "mset (map ps_task_type ?steps) = mset (ready_types ?rep)" by (rule schedule_plan_types)
  then have len: "length ?steps = length (ready_types ?rep)" by (metis length_map mset_eq_length)
  have "length (ready_types ?rep) \<le> length ?tpl" by (simp add: ready_types_spec [OF tpl])
  with len have bound: "{1..<1 + length ?steps} \<subseteq> {..length ?tpl}" by auto
  have types: "t \<noteq> DOCUMENT_INGESTION \<and> by_type ?tpl t \<noteq> None" if "t \<in> set (map ps_task_type ?steps)" for t
  proof -
    from that have "t \<in> tn_task_type ` set ?tpl"
      using ready_types_subset [of "sn\<lparr>sn_gates := gs\<rparr>" ?tpl] unfolding schedule_plan_types(1) by blast
    with agents show ?thesis by (auto simp: by_type_def py_dict_None_iff image_iff)
  qed
  obtain created s3 where s3: "schedule_steps repo ?tpl (sn\<lparr>sn_gates := gs\<rparr>) (pl_source (po_plan ?outcome))
      (av_ids env) 1 ?steps s2 = (Inr created, s3)"
  proof -
    have "inj_on (av_ids env) {1..<1 + length ?steps}"
      "av_ids env ` {1..<1 + length ?steps} \<inter> task_ids s2 = {}"
      using fresh bound unfolding fresh_ids_def view2(3) by (blast intro: inj_on_subset)+
    then have "\<exists>created s3. schedule_steps repo ?tpl (sn\<lparr>sn_gates := gs\<rparr>) (pl_source (po_plan ?outcome))
      (av_ids env) 1 ?steps s2 = (Inr created, s3)"
      using s1(3,4) c by (intro schedule_total [OF _ _ view2(1,2) _ _ types]) simp_all
    with that show thesis by blast
  qed
  have "distinct (map ps_task_type ?steps)"
    using distinct_planner_plan [OF ready_types_distinct [OF tpl]] by (simp add: plan_task_types_def)
  from schedule_returns [OF s3 _ _ view2(1,2) _ this] c s1(3)
  have view3: "inv s3" "rp_load_snapshot repo c s3 \<noteq> None" by auto
  have r2: "returns s1 (record_outcome repo env sn ?outcome) (\<lambda>_ t. t = s2)"
    by (simp add: returns_def s2)
  have r3: "returns s2 (schedule_steps repo ?tpl (sn\<lparr>sn_gates := gs\<rparr>) (pl_source (po_plan ?outcome))
      (av_ids env) 1 ?steps) (\<lambda>_ s'. inv s' \<and> rp_load_snapshot repo c s' \<noteq> None)"
    unfolding returns_def using s3 view3 by blast
  have "returns s1 (advance_after repo env c sn gs) (\<lambda>_ _. True)"
    unfolding advance_after_def Let_def
    by (rule returns_and_then [OF r2], hypsubst, rule returns_and_then [OF r3], elim conjE,
        rule returns_and_then [OF audit_deadlock_total [OF _ _ c]], assumption+, elim conjE,
        rule returns_and_then [OF audit_total [OF _ _ c]], assumption+, simp)
  with gates load show ?thesis by (auto simp: advance_case_def returns_def)
qed

end

end
