(* ===== verification/Kickoff.thy ===== *)
theory Kickoff
  imports Advance_Idempotent
begin

text \<open>
  \<open>KickoffOrchestration\<close> (\<open>application/orchestration/kickoff.py\<close>) and
  \<open>RequestMakerRevision\<close> (\<open>application/use_cases/request_maker_revision.py\<close>): the
  planning task of a case version, and the revision loop that bumps the version
  and re-ticks the case.
\<close>

section \<open>Kick-off\<close>

datatype kickoff_error = KickoffCaseNotFound | KickoffRepositoryError store_error

record kickoff_result =
  ko_task_id :: uuid
  ko_case_version :: int
  ko_status :: task_status
  ko_created :: bool

text \<open>The values the injected clock and factories return in one execution.\<close>

record kickoff_env =
  ke_task_id :: uuid
  ke_execution_id :: uuid
  ke_now :: datetime

definition plan_idempotency_key :: "uuid \<Rightarrow> int \<Rightarrow> string option \<Rightarrow> string" where
  "plan_idempotency_key c v trigger =
     (case trigger of
        None \<Rightarrow> ''ORCH-PLAN:'' @ str_uuid c @ '':'' @ str_int v
      | Some t \<Rightarrow> ''ORCH-PLAN:'' @ str_uuid c @ '':'' @ str_int v @ '':'' @ t)"

definition audit_kickoff ::
  "'s orch_repo \<Rightarrow> kickoff_env \<Rightarrow> uuid \<Rightarrow> int \<Rightarrow> uuid \<Rightarrow> (string \<times> json) list \<Rightarrow>
   ('s, kickoff_error, unit) act" where
  "audit_kickoff repo env c v artifact data =
     on_error KickoffRepositoryError (rp_append_audit repo
       \<lparr>ae_case_id = c, ae_case_version = v, ae_event_type = ''ORCHESTRATION_KICKOFF'',
        ae_execution_id = ke_execution_id env, ae_artifact_type = ''PROCESSING_TASK'',
        ae_artifact_id = artifact,
        ae_event_data = json_merge [(''role'', JStr ''CASE_ORCHESTRATOR''),
          (''recordedAt'', JInt (ke_now env))] data\<rparr>)"

text \<open>\<open>trigger_ref or "orchestration.kickoff"\<close>: the empty reference is falsy.\<close>

definition kickoff_trigger :: "string option \<Rightarrow> string" where
  "kickoff_trigger trigger =
     (case trigger of None \<Rightarrow> ''orchestration.kickoff''
      | Some t \<Rightarrow> if t = [] then ''orchestration.kickoff'' else t)"

definition kickoff_at ::
  "'s orch_repo \<Rightarrow> kickoff_env \<Rightarrow> uuid \<Rightarrow> int \<Rightarrow> string option \<Rightarrow>
   ('s, kickoff_error, kickoff_result) act" where
  "kickoff_at repo env c v trigger =
     and_then (on_error KickoffRepositoryError
       (rp_create_task repo (ke_task_id env) c v ORCHESTRATOR_PLAN (plan_idempotency_key c v trigger)
          (JObj [(''trigger'', JStr (kickoff_trigger trigger))]) [])) (\<lambda>ct.
     and_then (if ct_created ct
               then audit_kickoff repo env c v (tr_task_id (ct_row ct))
                 [(''taskId'', JStr (str_uuid (tr_task_id (ct_row ct))))]
               else ret ()) (\<lambda>_.
     ret \<lparr>ko_task_id = tr_task_id (ct_row ct), ko_case_version = v,
          ko_status = tr_status (ct_row ct), ko_created = ct_created ct\<rparr>))"

definition kickoff ::
  "'s orch_repo \<Rightarrow> kickoff_env \<Rightarrow> uuid \<Rightarrow> string option \<Rightarrow> ('s, kickoff_error, kickoff_result) act" where
  "kickoff repo env c trigger =
     and_then (reading (rp_load_snapshot repo c)) (\<lambda>loaded. case loaded of
       None \<Rightarrow> raise KickoffCaseNotFound
     | Some sn \<Rightarrow> kickoff_at repo env c (sn_case_version sn) trigger)"

section \<open>Maker revision\<close>

record revision_result =
  rv_case_id :: uuid
  rv_previous_version :: int
  rv_new_version :: int
  rv_plan_task_id :: uuid
  rv_plan_created :: bool

definition request_maker_revision ::
  "'s orch_repo \<Rightarrow> kickoff_env \<Rightarrow> uuid \<Rightarrow> int \<Rightarrow> uuid \<Rightarrow> uuid \<Rightarrow> string \<Rightarrow>
   ('s, kickoff_error, revision_result) act" where
  "request_maker_revision repo env c expected disposition actor reason =
     and_then (on_error KickoffRepositoryError
       (rp_bump_case_version repo c expected reason
          (''risk-review-disposition:'' @ str_uuid disposition) (Some actor))) (\<lambda>v.
     and_then (kickoff repo env c (Some (''REVISE:'' @ str_uuid disposition))) (\<lambda>k.
     ret \<lparr>rv_case_id = c, rv_previous_version = expected, rv_new_version = v,
          rv_plan_task_id = ko_task_id k, rv_plan_created = ko_created k\<rparr>))"

section \<open>Keys do not collide\<close>

lemma str_uuid_append:
  assumes "str_uuid c @ xs = str_uuid c' @ ys" "c < uuid_bound" "c' < uuid_bound"
  shows "c = c' \<and> xs = ys"
  using assms str_uuid_inj [of c c'] append_eq_append_conv [of "str_uuid c" "str_uuid c'" xs ys] by simp

lemma idempotency_key_injective:
  assumes "idempotency_key c v t = idempotency_key c' v' t'" "c < uuid_bound" "c' < uuid_bound"
  shows "c = c' \<and> v = v' \<and> t = t'"
proof -
  from assms(1) have "str_uuid c @ '':'' @ str_int v @ '':'' @ task_type_value t =
      str_uuid c' @ '':'' @ str_int v' @ '':'' @ task_type_value t'"
    by (simp add: idempotency_key_def)
  from str_uuid_append [OF this assms(2,3)]
  have c: "c = c'" and rest: "str_int v @ CHR '':'' # task_type_value t = str_int v' @ CHR '':'' # task_type_value t'"
    by simp_all
  from split_at_separator [OF _ _ rest] have "str_int v = str_int v'" "task_type_value t = task_type_value t'"
    using set_str_int by blast+
  with c show ?thesis by (auto dest: str_int_inj task_type_value_inj)
qed

lemma plan_key_injective:
  assumes "plan_idempotency_key c v t = plan_idempotency_key c' v' t'" "c < uuid_bound" "c' < uuid_bound"
  shows "c = c' \<and> v = v' \<and> t = t'"
proof -
  let ?tail = "\<lambda>v t. case t of None \<Rightarrow> str_int v | Some u \<Rightarrow> str_int v @ CHR '':'' # u"
  from assms(1) have "str_uuid c @ '':'' @ ?tail v t = str_uuid c' @ '':'' @ ?tail v' t'"
    by (auto simp: plan_idempotency_key_def split: option.splits)
  from str_uuid_append [OF this assms(2,3)] have c: "c = c'" and rest: "?tail v t = ?tail v' t'"
    by simp_all
  have mixed: "str_int i \<noteq> str_int j @ CHR '':'' # u" for i j u
  proof
    assume "str_int i = str_int j @ CHR '':'' # u"
    then have "CHR '':'' \<in> set (str_int i)" by simp
    then show False using set_str_int by blast
  qed
  show ?thesis
  proof (cases t)
    case None
    with rest mixed have "t' = None" "str_int v = str_int v'" by (auto split: option.splits)
    with c None show ?thesis by (auto dest: str_int_inj)
  next
    case (Some u)
    with rest mixed obtain u' where t': "t' = Some u'" by (cases t') (auto dest: sym)
    with rest Some have "str_int v @ CHR '':'' # u = str_int v' @ CHR '':'' # u'" by simp
    from split_at_separator [OF _ _ this] have "str_int v = str_int v'" "u = u'"
      using set_str_int by blast+
    with c Some t' show ?thesis by (auto dest: str_int_inj)
  qed
qed

lemma keys_disjoint: "idempotency_key c v t \<noteq> plan_idempotency_key c' v' t'"
  by (simp add: idempotency_key_def plan_idempotency_key_def split: option.split)

section \<open>A case after a revision\<close>

definition next_version :: "snapshot \<Rightarrow> snapshot" where
  "next_version sn =
     sn\<lparr>sn_case_version := sn_case_version sn + 1, sn_gates := [], sn_blocking_gaps := []\<rparr>"

lemma next_version_gates:
  assumes "orch_extends types (next_version sn) sn'"
  shows "gr_status (effective_gate sn' g) = SATISFIED \<longleftrightarrow> g = G1_INTAKE_COMPLETE \<and> sn_has_intake_handoff sn"
proof -
  have handoff: "sn_has_intake_handoff sn' = sn_has_intake_handoff sn"
    using assms by (simp add: orch_extends_def next_version_def)
  have "\<not> holds_satisfied (next_version sn) h" for h
    by (simp add: holds_satisfied_def next_version_def stored_gate_def py_dict_None_iff)
  then have "holds_satisfied sn' h \<Longrightarrow> h = G1_INTAKE_COMPLETE \<and> sn_has_intake_handoff sn" for h
    using assms unfolding orch_extends_def by (auto simp: next_version_def)
  then show ?thesis
    using effective_gate_human [of g sn'] effective_gate_intake [of sn'] handoff
    by (cases "g = G1_INTAKE_COMPLETE") (auto simp: holds_satisfied_def)
qed

lemma next_version_ready:
  assumes ext: "orch_extends {ORCHESTRATOR_PLAN} (next_version sn) sn'"
    and old: "list_all (\<lambda>r. tr_case_version r \<le> sn_case_version sn) (sn_tasks sn)"
  shows "ready_types (derived_report sn' template_nodes) =
    (if sn_has_intake_handoff sn then [CREDIT_UNDERWRITING, LEGAL_COMPLIANCE_COLLATERAL] else [])"
proof -
  let ?sn = "sn'\<lparr>sn_gates := derive_effective_gates sn'\<rparr>"
  from ext obtain new where tasks: "sn_tasks sn' = sn_tasks sn @ new"
    and new: "list_all (new_pending (next_version sn) {ORCHESTRATOR_PLAN}) new"
    and v: "sn_case_version sn' = sn_case_version sn + 1" "sn_blocking_gaps sn' = []"
    by (auto simp: orch_extends_def next_version_def)
  have live: "t \<noteq> ORCHESTRATOR_PLAN \<Longrightarrow> live_status ?sn t = None" for t
    using old new unfolding live_status_none_iff by (auto simp: tasks v list_all_set new_pending_def)
  have gap: "\<not> blocked_by_gap ?sn t" for t by (simp add: blocked_by_gap_def v)
  have gate: "snapshot_gate_status ?sn g = Some SATISFIED \<longleftrightarrow> g = G1_INTAKE_COMPLETE \<and> sn_has_intake_handoff sn" for g
    by (simp add: derived_gate_status next_version_gates [OF ext])
  show ?thesis
    unfolding derived_report_def ready_types_spec [OF topological_template] node_readiness_ready
    by (simp add: template_nodes_def live gap gate gate_open_for_def)
qed

lemma next_version_superseded:
  assumes ext: "orch_extends {ORCHESTRATOR_PLAN} (next_version sn) sn'"
    and old: "list_all (\<lambda>r. tr_case_version r \<le> sn_case_version sn) (sn_tasks sn)"
  shows "superseded_ids sn' = map tr_task_id (sn_tasks sn)"
proof -
  from ext obtain new where tasks: "sn_tasks sn' = sn_tasks sn @ new"
    and new: "list_all (new_pending (next_version sn) {ORCHESTRATOR_PLAN}) new"
    and v: "sn_case_version sn' = sn_case_version sn + 1"
    by (auto simp: orch_extends_def next_version_def)
  have "filter (\<lambda>r. tr_case_version r < sn_case_version sn') (sn_tasks sn) = sn_tasks sn"
    using old by (fastforce simp: v filter_id_conv list_all_set)
  moreover have "filter (\<lambda>r. tr_case_version r < sn_case_version sn') new = []"
    using new by (auto simp: v filter_empty_conv list_all_set new_pending_def next_version_def)
  ultimately show ?thesis by (simp add: superseded_ids_def tasks)
qed

section \<open>What a kick-off and a revision do\<close>

context orchestration_repository
begin

lemma kickoff_duplicate:
  assumes "inv s" "rp_load_snapshot repo c s = Some sn"
    and "plan_idempotency_key c (sn_case_version sn) trigger \<in> keys c s"
    and "kickoff repo env c trigger s = (res, s')"
  shows "s' = s \<and> (\<forall>k. res = Inr k \<longrightarrow> \<not> ko_created k)"
proof -
  let ?create = "rp_create_task repo (ke_task_id env) c (sn_case_version sn) ORCHESTRATOR_PLAN
              (plan_idempotency_key c (sn_case_version sn) trigger)
              (JObj [(''trigger'', JStr (kickoff_trigger trigger))]) []"
  obtain r s1 where run: "?create s = (r, s1)" by fastforce
  show ?thesis
  proof (cases r)
    case (Inl e)
    with run task_fails have "on_error KickoffRepositoryError ?create s = (Inl (KickoffRepositoryError e), s)"
      by auto
    with assms(2,4) show ?thesis by (auto simp: kickoff_def kickoff_at_def)
  next
    case (Inr ct)
    from task_known [OF assms(1,3) run [unfolded Inr]] run Inr
    have "on_error KickoffRepositoryError ?create s = (Inr ct, s)" "\<not> ct_created ct" by simp_all
    with assms(2,4) show ?thesis by (auto simp: kickoff_def kickoff_at_def)
  qed
qed

lemma kickoff_returns:
  assumes inv: "inv s" and load: "rp_load_snapshot repo c s = Some sn"
    and run: "kickoff repo env c trigger s = (Inr k, s')"
  shows "inv s' \<and> plan_idempotency_key c (sn_case_version sn) trigger \<in> keys c s' \<and>
    (\<exists>new. rp_load_snapshot repo c s' = Some (sn\<lparr>sn_tasks := sn_tasks sn @ new\<rparr>) \<and>
       list_all (\<lambda>r. tr_task_type r = ORCHESTRATOR_PLAN \<and> tr_case_version r = sn_case_version sn \<and>
         tr_status r = PENDING) new \<and>
       length new = (if plan_idempotency_key c (sn_case_version sn) trigger \<in> keys c s then 0 else 1) \<and>
       (ko_created k \<longleftrightarrow> new \<noteq> []))"
proof (cases "plan_idempotency_key c (sn_case_version sn) trigger \<in> keys c s")
  case True
  from kickoff_duplicate [OF inv load True run] inv load True show ?thesis
    by (auto intro!: exI [of _ "[]"])
next
  case False
  from run load obtain ct s1 u where
    create: "rp_create_task repo (ke_task_id env) c (sn_case_version sn) ORCHESTRATOR_PLAN
              (plan_idempotency_key c (sn_case_version sn) trigger)
              (JObj [(''trigger'', JStr (kickoff_trigger trigger))]) [] s = (Inr ct, s1)"
    and audit: "(if ct_created ct
       then audit_kickoff repo env c (sn_case_version sn) (tr_task_id (ct_row ct))
         [(''taskId'', JStr (str_uuid (tr_task_id (ct_row ct))))]
       else ret ()) s1 = (Inr u, s')" and k: "ko_created k = ct_created ct"
    by (auto simp: kickoff_def kickoff_at_def and_then_Inr)
  note post = task_returns [OF inv load refl False create]
  from audit post have "\<exists>e. rp_append_audit repo e s1 = (Inr u, s')" by (auto simp: audit_kickoff_def)
  then obtain e where "rp_append_audit repo e s1 = (Inr u, s')" by blast
  from audit_returns [OF _ this] post have "inv s'" "keys c s' = keys c s1"
    "rp_load_snapshot repo c s' = rp_load_snapshot repo c s1" by simp_all
  with post False k show ?thesis by (auto intro!: exI [of _ "[ct_row ct]"])
qed

lemma kickoff_succeeds:
  assumes inv: "inv s" and load: "rp_load_snapshot repo c s = Some sn" and fresh: "ke_task_id env \<notin> task_ids s"
  shows "\<exists>k s'. kickoff repo env c trigger s = (Inr k, s')"
proof -
  let ?key = "plan_idempotency_key c (sn_case_version sn) trigger"
  obtain ct s1 where create: "rp_create_task repo (ke_task_id env) c (sn_case_version sn) ORCHESTRATOR_PLAN
      ?key (JObj [(''trigger'', JStr (kickoff_trigger trigger))]) [] s = (Inr ct, s1)"
    using task_succeeds [OF inv load refl _ fresh, of ORCHESTRATOR_PLAN "[]"] by fastforce
  show ?thesis
  proof (cases "ct_created ct")
    case False
    with create load show ?thesis by (auto simp: kickoff_def kickoff_at_def and_then_Inr)
  next
    case True
    then have new: "?key \<notin> keys c s" using task_known [OF inv _ create] by blast
    note post = task_returns [OF inv load refl new create]
    then have "\<exists>s'. rp_append_audit repo e s1 = (Inr (), s')" if "ae_case_id e = c" for e
      using audit_succeeds [of s1 e] that by auto
    then have "\<exists>s'. audit_kickoff repo env c (sn_case_version sn) a d s1 = (Inr (), s')" for a d
      by (simp add: audit_kickoff_def)
    then obtain s' where "audit_kickoff repo env c (sn_case_version sn) (tr_task_id (ct_row ct))
        [(''taskId'', JStr (str_uuid (tr_task_id (ct_row ct))))] s1 = (Inr (), s')" by blast
    with create load True show ?thesis by (auto simp: kickoff_def kickoff_at_def and_then_Inr)
  qed
qed

lemma kickoff_extends:
  assumes inv: "inv s" and load: "rp_load_snapshot repo c s = Some sn"
  shows "extended_from s c sn {ORCHESTRATOR_PLAN} (snd (kickoff repo env c trigger s))"
proof -
  let ?P = "extended_from s c sn {ORCHESTRATOR_PLAN}"
  have start: "?P s" using inv load by (rule extended_from_start)
  have keeps: "keeps ?P (kickoff_at repo env c (sn_case_version sn) trigger)"
    unfolding kickoff_at_def audit_kickoff_def
    by (intro keeps_and_then keeps_if keeps_ret; simp only: keeps_on_error)
      (simp_all add: task_extends audit_extends)
  have "kickoff repo env c trigger s = kickoff_at repo env c (sn_case_version sn) trigger s"
    using load by (simp add: kickoff_def)
  with keepsD [where P = ?P, OF keeps start] show ?thesis by simp
qed

end

context revision_repository
begin

lemma revision_stale:
  assumes "inv s" "rp_load_snapshot repo c s = Some sn" "sn_case_version sn \<noteq> expected"
  shows "request_maker_revision repo env c expected disposition actor reason s =
    (Inl (KickoffRepositoryError StaleCaseVersion), s)"
  using bump_stale [OF assms] by (simp add: request_maker_revision_def on_error_def and_then_def)

lemma revision_extends:
  assumes inv: "inv s" and load: "rp_load_snapshot repo c s = Some sn"
  shows "extended_from s c (next_version sn)
    {ORCHESTRATOR_PLAN}
    (snd (request_maker_revision repo env c (sn_case_version sn) disposition actor reason s))"
proof -
  let ?sn = "next_version sn"
  let ?bump = "rp_bump_case_version repo c (sn_case_version sn) reason
    (''risk-review-disposition:'' @ str_uuid disposition) (Some actor)"
  from bump_current [OF inv load refl, folded next_version_def] obtain s1 where
    bump: "?bump s = (Inr (sn_case_version sn + 1), s1)"
    and s1: "inv s1" "rp_load_snapshot repo c s1 = Some ?sn"
      "\<forall>c'. c' \<noteq> c \<longrightarrow> rp_load_snapshot repo c' s1 = rp_load_snapshot repo c' s"
      "\<forall>c'. keys c' s1 = keys c' s" by blast
  have "on_error KickoffRepositoryError ?bump s = (Inr (sn_case_version sn + 1), s1)"
    by (simp only: on_error_Inr bump)
  then have run: "snd (request_maker_revision repo env c (sn_case_version sn) disposition actor reason s) =
      snd (kickoff repo env c (Some (''REVISE:'' @ str_uuid disposition)) s1)"
    unfolding request_maker_revision_def and_then_run
    by (simp only: and_then_run) (simp add: and_then_def split: prod.split sum.split)
  have "extended_from s1 c ?sn {ORCHESTRATOR_PLAN}
      (snd (kickoff repo env c (Some (''REVISE:'' @ str_uuid disposition)) s1))"
    by (rule kickoff_extends [OF s1(1,2)])
  then show ?thesis unfolding run extended_from_def using s1(3,4) by simp
qed

end

end
