(* ===== verification/Postgres_Orchestration.thy ===== *)
theory Postgres_Orchestration
  imports Case_Store Kickoff
begin

text \<open>
  \<open>PostgresOrchestrationRepository\<close> as a provider of the orchestration port: the
  invariant of the tables, and the proof that the adapter's operations keep the
  contract of the port.
\<close>

section \<open>The adapter\<close>

definition postgres_orchestration :: "store orch_repo" where
  "postgres_orchestration =
     \<lparr>rp_load_snapshot = (\<lambda>c st. load_snapshot st c),
      rp_bump_case_version = (\<lambda>c expected reason ref actor.
        atomically (bump_case_version c expected reason ref actor)),
      rp_ensure_gate = (\<lambda>c v g status actor ref. atomically (ensure_gate c v g status actor ref)),
      rp_create_task = (\<lambda>i c v t key payload deps. atomically (create_task i c v t key payload deps)),
      rp_record_proposal = (\<lambda>p. transact (record_proposal p)),
      rp_append_audit = (\<lambda>e. transact (append_audit e))\<rparr>"

section \<open>The invariant of the tables\<close>

definition gate_key :: "uuid \<times> gate_record \<Rightarrow> uuid \<times> int \<times> gate_type" where
  "gate_key row = (fst row, gr_case_version (snd row), gr_gate_type (snd row))"

definition versions_bounded :: "(uuid \<times> int) list \<Rightarrow> (uuid \<times> int) list \<Rightarrow> bool" where
  "versions_bounded cases rows \<longleftrightarrow> (\<forall>(c, v)\<in>set rows. \<exists>w. map_of cases c = Some w \<and> v \<le> w)"

definition tasks_ok :: "(uuid \<times> int) list \<Rightarrow> processing_task list \<Rightarrow> bool" where
  "tasks_ok cases ts \<longleftrightarrow>
     distinct (map pt_id ts) \<and> distinct (map (\<lambda>t. (pt_case_id t, pt_idempotency_key t)) ts) \<and>
     versions_bounded cases (map (\<lambda>t. (pt_case_id t, pt_case_version t)) ts)"

definition gates_ok :: "(uuid \<times> int) list \<Rightarrow> (uuid \<times> int \<times> gate_type) list \<Rightarrow> bool" where
  "gates_ok cases ks \<longleftrightarrow> distinct ks \<and> versions_bounded cases (map (\<lambda>(c, v, g). (c, v)) ks)"

text \<open>
  Unique keys of the tables, and no row of a case is ahead of the case's version.
\<close>

definition store_inv :: "store \<Rightarrow> bool" where
  "store_inv st \<longleftrightarrow>
     distinct (map fst (st_cases st)) \<and> (\<forall>(c, v)\<in>set (st_cases st). 1 \<le> v) \<and>
     tasks_ok (st_cases st) (st_tasks st) \<and>
     gates_ok (st_cases st) (map gate_key (st_gates st)) \<and>
     versions_bounded (st_cases st) (map (\<lambda>h. (hr_case_id h, hr_case_version h)) (st_handoffs st)) \<and>
     versions_bounded (st_cases st) (map (\<lambda>g. (gp_case_id g, gp_case_version g)) (st_gaps st))"

definition idempotency_keys :: "uuid \<Rightarrow> store \<Rightarrow> string set" where
  "idempotency_keys c st =
     set (map pt_idempotency_key (filter (\<lambda>t. pt_case_id t = c) (st_tasks st)))"

definition used_task_ids :: "store \<Rightarrow> uuid set" where
  "used_task_ids st = pt_id ` set (st_tasks st)"

definition used_proposal_ids :: "store \<Rightarrow> uuid set" where
  "used_proposal_ids st = pr_id ` set (st_proposals st)"

lemma draw_uuid_simps [simp]:
  "st_cases (snd (draw_uuid st)) = st_cases st" "st_tasks (snd (draw_uuid st)) = st_tasks st"
  "st_gates (snd (draw_uuid st)) = st_gates st" "st_handoffs (snd (draw_uuid st)) = st_handoffs st"
  by (simp_all add: draw_uuid_def)

lemma load_snapshot_cong:
  "st_cases st' = st_cases st \<Longrightarrow> st_handoffs st' = st_handoffs st \<Longrightarrow> st_tasks st' = st_tasks st \<Longrightarrow>
   st_gates st' = st_gates st \<Longrightarrow> st_gaps st' = st_gaps st \<Longrightarrow> load_snapshot st' c = load_snapshot st c"
  by (simp add: load_snapshot_def case_version_of_def has_ready_handoff_def case_tasks_def
      case_gates_def unresolved_gaps_def split: option.split)

lemma store_inv_cong:
  "st_cases st' = st_cases st \<Longrightarrow> st_handoffs st' = st_handoffs st \<Longrightarrow> st_tasks st' = st_tasks st \<Longrightarrow>
   st_gates st' = st_gates st \<Longrightarrow> st_gaps st' = st_gaps st \<Longrightarrow> store_inv st' = store_inv st"
  by (simp add: store_inv_def)

lemma load_snapshot_SomeD:
  "load_snapshot st c = Some sn \<Longrightarrow>
   case_version_of st c = Some (sn_case_version sn) \<and> sn_case_id sn = c \<and>
   sn_has_intake_handoff sn = has_ready_handoff st c (sn_case_version sn) \<and>
   sn_tasks sn = map task_view (case_tasks st c) \<and>
   sn_gates sn = case_gates st c (sn_case_version sn) \<and>
   sn_blocking_gaps sn = unresolved_gaps st c (sn_case_version sn)"
  by (auto simp: load_snapshot_def split: option.splits)

lemma load_snapshot_None: "load_snapshot st c = None \<longleftrightarrow> case_version_of st c = None"
  by (simp add: load_snapshot_def split: option.split)

subsection \<open>Gates\<close>

lemma find_gate_row:
  assumes "distinct (map gate_key gs)"
  shows "find (is_gate_row c v g) gs = Some row \<longleftrightarrow> row \<in> set gs \<and> gate_key row = (c, v, g)"
  using assms
proof (induction gs)
  case Nil
  then show ?case by simp
next
  case (Cons x xs)
  have key: "is_gate_row c v g y \<longleftrightarrow> gate_key y = (c, v, g)" for y
    by (auto simp: is_gate_row_def gate_key_def)
  from Cons show ?case by (auto simp: key image_iff; metis)
qed

lemma stored_gate_row:
  assumes "distinct (map gate_key (st_gates st))" "sn_gates sn = case_gates st c (sn_case_version sn)"
  shows "stored_gate sn g = Some r \<longleftrightarrow>
    (c, r) \<in> set (st_gates st) \<and> gr_case_version r = sn_case_version sn \<and> gr_gate_type r = g"
proof -
  let ?v = "sn_case_version sn"
  let ?rows = "filter (\<lambda>(c', g). c' = c \<and> gr_case_version g = ?v) (st_gates st)"
  have "filter (\<lambda>r. gr_case_version r = ?v) (case_gates st c ?v) = case_gates st c ?v"
    by (auto simp: case_gates_def filter_id_conv)
  then have stored: "stored_gate sn g = py_dict (map (\<lambda>row. (gr_gate_type (snd row), snd row)) ?rows) g"
    by (simp add: stored_gate_def assms(2) case_gates_def o_def)
  have "distinct (map gate_key ?rows)" using assms(1) by (rule distinct_map_filter)
  moreover have "inj_on gate_key (set ?rows) \<Longrightarrow> inj_on (\<lambda>row. gr_gate_type (snd row)) (set ?rows)"
    by (auto simp: inj_on_def gate_key_def)
  ultimately have "distinct (map (\<lambda>row. gr_gate_type (snd row)) ?rows)"
    by (simp add: distinct_map)
  then have "distinct (map fst (map (\<lambda>row. (gr_gate_type (snd row), snd row)) ?rows))"
    by (simp add: o_def)
  from py_dict_distinct [OF this] show ?thesis by (auto simp: stored image_iff)
qed


lemma versions_bounded_Cons [simp]:
  "versions_bounded cases ((c, v) # rows) \<longleftrightarrow>
     (\<exists>w. map_of cases c = Some w \<and> v \<le> w) \<and> versions_bounded cases rows"
  by (simp add: versions_bounded_def)

lemma versions_bounded_append [simp]:
  "versions_bounded cases (xs @ ys) \<longleftrightarrow> versions_bounded cases xs \<and> versions_bounded cases ys"
  by (simp add: versions_bounded_def ball_Un)

lemma versions_bounded_Nil [simp]: "versions_bounded cases []"
  by (simp add: versions_bounded_def)

lemma gate_key_open_gate [simp]: "gate_key (c, open_gate g v) = (c, v, g)"
  by (simp add: gate_key_def open_gate_def)

lemma is_gate_row_key: "is_gate_row c v g row \<longleftrightarrow> gate_key row = (c, v, g)"
  by (auto simp: is_gate_row_def gate_key_def)

lemma insert_open_gate_inv:
  assumes "store_inv st" "case_version_of st c = Some v"
  shows "store_inv (insert_open_gate c v g st)"
  using assms
  by (auto simp: insert_open_gate_def list_ex_set is_gate_row_key store_inv_def gates_ok_def
      case_version_of_def)

lemma gate_key_satisfy_row [simp]: "gate_key (satisfy_row c v g actor ref now row) = gate_key row"
  by (simp add: satisfy_row_def gate_key_def satisfied_record_def)

lemma satisfy_open_gate_keys [simp]:
  "map gate_key (st_gates (satisfy_open_gate c v g actor ref st)) = map gate_key (st_gates st)"
  by (simp add: satisfy_open_gate_def o_def)

lemma satisfy_open_gate_inv:
  "store_inv st \<Longrightarrow> store_inv (satisfy_open_gate c v g actor ref st)"
  using satisfy_open_gate_keys [of c v g actor ref st]
  by (simp add: store_inv_def del: satisfy_open_gate_keys) (simp add: satisfy_open_gate_def)


text \<open>
  The gate table before and after, row by row: \<open>gate_of\<close> is the record under a key.
\<close>

definition gate_of :: "(uuid \<times> gate_record) list \<Rightarrow> uuid \<times> int \<times> gate_type \<Rightarrow> gate_record option" where
  "gate_of gs k = map_option snd (find (\<lambda>row. gate_key row = k) gs)"

lemma find_is_gate_row: "find (is_gate_row c v g) gs = find (\<lambda>row. gate_key row = (c, v, g)) gs"
  by (simp add: is_gate_row_key [abs_def])

lemma gate_of_stored:
  assumes "distinct (map gate_key (st_gates st))" "sn_gates sn = case_gates st c (sn_case_version sn)"
  shows "stored_gate sn g = gate_of (st_gates st) (c, sn_case_version sn, g)"
proof (rule option.expand)
  have mem: "gate_of (st_gates st) (c, sn_case_version sn, g) = Some r \<longleftrightarrow>
      (c, r) \<in> set (st_gates st) \<and> gr_case_version r = sn_case_version sn \<and> gr_gate_type r = g" for r
    using find_gate_row [OF assms(1), of c "sn_case_version sn" g]
    by (auto simp: gate_of_def find_is_gate_row gate_key_def)
  note row = stored_gate_row [OF assms, of g]
  show "(stored_gate sn g = None) = (gate_of (st_gates st) (c, sn_case_version sn, g) = None)"
    using mem row by (metis not_None_eq)
  show "the (stored_gate sn g) = the (gate_of (st_gates st) (c, sn_case_version sn, g))"
    if "stored_gate sn g \<noteq> None"
    using that mem row by (metis not_None_eq option.sel)
qed

lemma gate_of_insert:
  "gate_of (st_gates (insert_open_gate c v g st)) k =
     (if k = (c, v, g) then Some (case gate_of (st_gates st) k of None \<Rightarrow> open_gate g v | Some r \<Rightarrow> r)
      else gate_of (st_gates st) k)"
proof (cases "list_ex (is_gate_row c v g) (st_gates st)")
  case True
  then have "find (\<lambda>row. gate_key row = (c, v, g)) (st_gates st) \<noteq> None"
    by (auto simp: list_ex_set find_None_iff_all is_gate_row_key)
  with True show ?thesis by (auto simp: insert_open_gate_def gate_of_def)
next
  case False
  then have "find (\<lambda>row. gate_key row = (c, v, g)) (st_gates st) = None"
    by (auto simp: list_ex_set find_None_iff_all is_gate_row_key)
  with False show ?thesis
    by (auto simp: insert_open_gate_def gate_of_def find_append split: option.split)
qed

lemma gate_of_satisfy:
  "gate_of (st_gates (satisfy_open_gate c v g actor ref st)) k =
     (case gate_of (st_gates st) k of
        None \<Rightarrow> None
      | Some r \<Rightarrow> Some (if k = (c, v, g) \<and> gr_status r = OPEN
                       then satisfied_record r actor ref (st_clock st) else r))"
proof -
  have "find (\<lambda>row. gate_key row = k) (map (satisfy_row c v g actor ref (st_clock st)) (st_gates st)) =
      map_option (satisfy_row c v g actor ref (st_clock st)) (find (\<lambda>row. gate_key row = k) (st_gates st))"
    by (rule find_map_cong) simp
  then show ?thesis
    by (auto simp: satisfy_open_gate_def satisfy_row_def gate_of_def is_gate_row_key
        dest: find_SomeD split: option.splits)
qed

lemma ensure_gate_Inr:
  assumes inv: "store_inv st" and v: "case_version_of st c = Some v"
    and run: "ensure_gate c v g status actor ref st = Inr (r, st')"
  shows "store_inv st'" "\<exists>gs. st' = st\<lparr>st_gates := gs\<rparr>"
    and "gate_ensured (gate_of (st_gates st) (c, v, g)) g v status actor ref r"
    and "gate_of (st_gates st') k = (if k = (c, v, g) then Some r else gate_of (st_gates st) k)"
proof -
  let ?st1 = "insert_open_gate c v g st"
  have st': "st' = (if status = SATISFIED then satisfy_open_gate c v g actor ref ?st1 else ?st1)"
    and r: "gate_of (st_gates st') (c, v, g) = Some r"
    using run by (auto simp: ensure_gate_def result_simps Let_def gate_of_def find_is_gate_row
        split: option.splits)
  show "store_inv st'" using inv v by (simp add: st' insert_open_gate_inv satisfy_open_gate_inv)
  show "\<exists>gs. st' = st\<lparr>st_gates := gs\<rparr>"
    by (auto simp: st' insert_open_gate_def satisfy_open_gate_def intro: exI [of _ "st_gates st"])
  show "gate_ensured (gate_of (st_gates st) (c, v, g)) g v status actor ref r"
    using r by (cases status; cases "gate_of (st_gates st) (c, v, g)")
      (auto simp: st' gate_of_satisfy gate_of_insert gate_ensured_def Let_def split: if_splits,
       (metis gate_status.exhaust)+)
  show "gate_of (st_gates st') k = (if k = (c, v, g) then Some r else gate_of (st_gates st) k)"
    using r by (auto simp: st' gate_of_satisfy gate_of_insert split: option.splits if_splits)
qed


lemma filter_map_fixed:
  "(\<And>x. x \<in> set xs \<Longrightarrow> P x \<Longrightarrow> f x = x) \<Longrightarrow> (\<And>x. x \<in> set xs \<Longrightarrow> P (f x) = P x) \<Longrightarrow>
   filter P (map f xs) = filter P xs"
  by (induction xs) auto

lemma load_snapshot_insert_other:
  "c' \<noteq> c \<Longrightarrow> load_snapshot (insert_open_gate c v g st) c' = load_snapshot st c'"
  by (simp add: insert_open_gate_def load_snapshot_def case_version_of_def has_ready_handoff_def
      case_tasks_def unresolved_gaps_def case_gates_def split: option.split)

lemma load_snapshot_satisfy_other:
  assumes "c' \<noteq> c"
  shows "load_snapshot (satisfy_open_gate c v g actor ref st) c' = load_snapshot st c'"
proof -
  have "case_gates (satisfy_open_gate c v g actor ref st) c' w = case_gates st c' w" for w
    using assms by (simp add: case_gates_def satisfy_open_gate_def, subst filter_map_fixed)
      (auto simp: satisfy_row_def is_gate_row_def split: prod.splits)
  then show ?thesis
    by (simp add: load_snapshot_def case_version_of_def has_ready_handoff_def case_tasks_def
        unresolved_gaps_def split: option.split) (simp add: satisfy_open_gate_def)
qed

lemma ensure_gate_state:
  "ensure_gate c v g status actor ref st = Inr (r, st') \<Longrightarrow>
   st' = (if status = SATISFIED then satisfy_open_gate c v g actor ref (insert_open_gate c v g st)
          else insert_open_gate c v g st)"
  by (auto simp: ensure_gate_def result_simps Let_def split: option.splits)

lemma ensure_gate_other:
  "ensure_gate c v g status actor ref st = Inr (r, st') \<Longrightarrow> c' \<noteq> c \<Longrightarrow>
   load_snapshot st' c' = load_snapshot st c'"
  by (auto dest!: ensure_gate_state simp: load_snapshot_insert_other load_snapshot_satisfy_other)

lemma ensure_gate_same:
  assumes "store_inv st" "ensure_gate c v g status actor ref st = Inr (r, st')"
    and "gate_of (st_gates st) (c, v, g) = Some r0" "gr_status r0 = SATISFIED \<or> status = OPEN"
  shows "st' = st"
proof -
  have "list_ex (is_gate_row c v g) (st_gates st)"
    using assms(3) by (auto simp: gate_of_def list_ex_set is_gate_row_key dest!: find_SomeD)
  then have ins: "insert_open_gate c v g st = st" by (simp add: insert_open_gate_def)
  have "satisfy_open_gate c v g actor ref st = st" if "gr_status r0 = SATISFIED"
  proof -
    have "gr_status (snd row) = SATISFIED"
      if "row \<in> set (st_gates st)" "is_gate_row c v g row" for row
    proof -
      have "find (is_gate_row c v g) (st_gates st) = Some row"
        using that assms(1) by (subst find_gate_row) (auto simp: store_inv_def gates_ok_def is_gate_row_key)
      then show ?thesis using assms(3) \<open>gr_status r0 = SATISFIED\<close>
        by (auto simp: gate_of_def find_is_gate_row)
    qed
    then have "map (satisfy_row c v g actor ref (st_clock st)) (st_gates st) = st_gates st"
      by (intro map_idI) (auto simp: satisfy_row_def)
    then show ?thesis by (simp add: satisfy_open_gate_def)
  qed
  with assms(2,4) ins show ?thesis by (auto dest!: ensure_gate_state)
qed

lemma ensure_gate_total:
  assumes "case_version_of st c \<noteq> None"
  shows "\<exists>r st'. ensure_gate c v g status actor ref st = Inr (r, st')"
proof -
  let ?st = "if status = SATISFIED then satisfy_open_gate c v g actor ref (insert_open_gate c v g st)
    else insert_open_gate c v g st"
  have "gate_of (st_gates ?st) (c, v, g) \<noteq> None"
    by (simp add: gate_of_satisfy gate_of_insert)
  then obtain row where "find (is_gate_row c v g) (st_gates ?st) = Some row"
    by (auto simp: gate_of_def find_is_gate_row)
  with assms show ?thesis unfolding ensure_gate_def Let_def by (auto simp: check_that_def)
qed

subsection \<open>Tasks\<close>

lemma insert_dependencies_Inr:
  "insert_dependencies c v t ds st = Inr st' \<Longrightarrow> \<exists>rows. st' = st\<lparr>st_dependencies := rows\<rparr>"
proof (induction ds arbitrary: st)
  case Nil
  then show ?case by (auto intro: exI [of _ "st_dependencies st"])
next
  case (Cons d ds)
  then show ?case by (auto simp: result_simps split: if_splits dest!: Cons.IH)
qed

lemma insert_dependencies_total:
  "(\<And>d. d \<in> set ds \<Longrightarrow>
      d \<noteq> t \<and> (\<exists>r\<in>set (st_tasks st). pt_id r = d \<and> pt_case_id r = c \<and> pt_case_version r = v)) \<Longrightarrow>
   \<exists>st'. insert_dependencies c v t ds st = Inr st'"
proof (induction ds arbitrary: st)
  case (Cons d ds)
  then show ?case by (auto simp: list_ex_set)
qed simp

lemma create_task_known:
  "find (has_key c key) (st_tasks st) = Some t \<Longrightarrow>
   create_task i c v ty key payload deps st = Inr (\<lparr>ct_row = task_view t, ct_created = False\<rparr>, st)"
  by (simp add: create_task_def)

lemma insert_task_ready_event_fields:
  "\<exists>ob dr. insert_task_ready_event e st = st\<lparr>st_outbox := ob, st_drawn := dr\<rparr>"
proof -
  have "insert_task_ready_event e st = st\<lparr>st_outbox := st_outbox (insert_task_ready_event e st),
      st_drawn := st_drawn (insert_task_ready_event e st)\<rparr>"
    by (simp add: insert_task_ready_event_def draw_uuid_def Let_def)
  then show ?thesis by blast
qed

lemma create_task_new:
  assumes "find (has_key c key) (st_tasks st) = None"
    and "create_task i c v ty key payload deps st = Inr (ct, st')"
  shows "i \<notin> used_task_ids st \<and> case_version_of st c \<noteq> None \<and> ty \<noteq> DOCUMENT_INGESTION \<and> ct_created ct \<and>
    ct_row ct = \<lparr>tr_task_id = i, tr_task_type = ty, tr_case_version = v, tr_status = PENDING\<rparr> \<and>
    (\<exists>deps' outbox drawn. st' = st\<lparr>st_tasks := st_tasks st @ [new_task i c v ty key payload (st_clock st)],
       st_dependencies := deps', st_outbox := outbox, st_drawn := drawn\<rparr>)"
proof -
  let ?task = "new_task i c v ty key payload (st_clock st)"
  from assms obtain st1 where st1: "insert_dependencies c v i deps (st\<lparr>st_tasks := st_tasks st @ [?task]\<rparr>) = Inr st1"
    and facts: "\<forall>x\<in>set (st_tasks st). pt_id x \<noteq> i" "case_version_of st c \<noteq> None" "ty \<noteq> DOCUMENT_INGESTION"
      "ct = \<lparr>ct_row = task_view ?task, ct_created = True\<rparr>"
      "st' = insert_task_ready_event \<lparr>te_task_id = i, te_case_id = c, te_case_version = v,
         te_task_type = ty, te_document_version_id = None\<rparr> st1"
    by (auto simp: create_task_def result_simps Let_def envelope_valid_def list_all_set)
  from insert_dependencies_Inr [OF st1] obtain rows
    where "st1 = st\<lparr>st_tasks := st_tasks st @ [?task], st_dependencies := rows\<rparr>" by auto
  then have "\<exists>deps' outbox drawn. st' = st\<lparr>st_tasks := st_tasks st @ [?task],
       st_dependencies := deps', st_outbox := outbox, st_drawn := drawn\<rparr>"
    using insert_task_ready_event_fields [of _ st1] facts(5) by metis
  with facts show ?thesis by (auto simp: used_task_ids_def task_view_def new_task_def)
qed

lemma create_task_total:
  assumes "case_version_of st c \<noteq> None" "1 \<le> v" "ty \<noteq> DOCUMENT_INGESTION" "i \<notin> used_task_ids st"
    and "\<And>d. d \<in> set deps \<Longrightarrow>
      \<exists>r\<in>set (st_tasks st). pt_id r = d \<and> pt_case_id r = c \<and> pt_case_version r = v"
  shows "\<exists>ct st'. create_task i c v ty key payload deps st = Inr (ct, st')"
proof (cases "find (has_key c key) (st_tasks st)")
  case None
  have "\<exists>st'. insert_dependencies c v i deps
      (st\<lparr>st_tasks := st_tasks st @ [new_task i c v ty key payload (st_clock st)]\<rparr>) = Inr st'"
    using assms(4,5) by (intro insert_dependencies_total) (fastforce simp: used_task_ids_def)
  moreover have "list_all (\<lambda>r. pt_id r \<noteq> i) (st_tasks st)"
    using assms(4) by (auto simp: list_all_set used_task_ids_def)
  ultimately show ?thesis using None assms(1-3)
    by (auto simp: create_task_def Let_def envelope_valid_def check_that_def)
qed (simp add: create_task_known)

lemma create_task_inv:
  assumes inv: "store_inv st" and v: "case_version_of st c = Some v"
    and "find (has_key c key) (st_tasks st) = None"
    and "create_task i c v ty key payload deps st = Inr (ct, st')"
  shows "store_inv st'"
proof -
  from create_task_new [OF assms(3,4)] obtain ds ob dr where
    i: "i \<notin> used_task_ids st" and st':
    "st' = st\<lparr>st_tasks := st_tasks st @ [new_task i c v ty key payload (st_clock st)],
       st_dependencies := ds, st_outbox := ob, st_drawn := dr\<rparr>" by blast
  have "(c, key) \<notin> (\<lambda>t. (pt_case_id t, pt_idempotency_key t)) ` set (st_tasks st)"
    using assms(3) by (auto simp: find_None_iff_all has_key_def)
  with inv v i show ?thesis
    by (auto simp: st' store_inv_def tasks_ok_def new_task_def used_task_ids_def case_version_of_def)
qed


subsection \<open>The case version\<close>

lemma insert_audit_Inr:
  "insert_audit c v ev ty actor at art data st = Inr st' \<Longrightarrow>
   \<exists>log. st' = st\<lparr>st_drawn := Suc (st_drawn st), st_audit := log\<rparr>"
  by (auto simp: insert_audit_def draw_uuid_def Let_def result_simps)

lemma insert_audit_total:
  "case_version_of st c \<noteq> None \<Longrightarrow> \<exists>st'. insert_audit c v ev ty actor at art data st = Inr st'"
  by (auto simp: insert_audit_def draw_uuid_def Let_def check_that_def)

definition set_version :: "uuid \<Rightarrow> int \<Rightarrow> (uuid \<times> int) list \<Rightarrow> (uuid \<times> int) list" where
  "set_version c v cases = map (\<lambda>(k, w). (k, if k = c then v else w)) cases"

lemma map_of_set_version:
  "map_of (set_version c v cases) k =
     (if k = c then map_option (\<lambda>_. v) (map_of cases k) else map_of cases k)"
  by (induction cases) (auto simp: set_version_def)

lemma map_fst_set_version [simp]: "map fst (set_version c v cases) = map fst cases"
  by (simp add: set_version_def case_prod_unfold o_def)

lemma versions_bounded_set_version:
  "versions_bounded cases rows \<Longrightarrow> (\<And>w. map_of cases c = Some w \<Longrightarrow> w \<le> v) \<Longrightarrow>
   versions_bounded (set_version c v cases) rows"
  unfolding versions_bounded_def map_of_set_version by (fastforce split: prod.splits)

lemma clone_handoff_fields:
  "\<exists>hs. clone_handoff c ex nw reason ref st = st\<lparr>st_drawn := Suc (st_drawn st), st_handoffs := hs\<rparr>"
proof -
  have "clone_handoff c ex nw reason ref st = st\<lparr>st_drawn := Suc (st_drawn st),
      st_handoffs := st_handoffs (clone_handoff c ex nw reason ref st)\<rparr>"
    by (simp add: clone_handoff_def draw_uuid_def Let_def split: option.split)
  then show ?thesis by blast
qed

lemma clone_handoff_rows:
  "\<exists>hs. st_handoffs (clone_handoff c ex nw reason ref st) = st_handoffs st @ hs \<and>
     (\<forall>h\<in>set hs. hr_case_id h = c \<and> hr_case_version h = nw) \<and>
     (hs \<noteq> [] \<longleftrightarrow> has_ready_handoff st c ex) \<and>
     (\<forall>h\<in>set hs. hr_state h = ''READY_FOR_SPECIALIST_REVIEW'' \<and> hr_stale_at h = None)"
proof (cases "find (\<lambda>h. hr_case_id h = c \<and> hr_case_version h = ex \<and>
      hr_state h = ''READY_FOR_SPECIALIST_REVIEW'' \<and> hr_stale_at h = None) (rev (st_handoffs st))")
  case None
  then have "\<not> has_ready_handoff st c ex"
    by (auto simp: find_None_iff_all has_ready_handoff_def list_ex_set)
  with None show ?thesis by (simp add: clone_handoff_def draw_uuid_def)
next
  case (Some h)
  from find_SomeD [OF this] have "has_ready_handoff st c ex"
    by (auto simp: has_ready_handoff_def list_ex_set)
  with Some find_SomeD [OF Some] show ?thesis by (simp add: clone_handoff_def draw_uuid_def)
qed

lemma load_snapshot_older:
  assumes "store_inv st" "load_snapshot st c = Some sn" "sn_case_version sn < w"
  shows "case_gates st c w = []" "unresolved_gaps st c w = []" "\<not> has_ready_handoff st c w"
proof -
  from assms have v: "map_of (st_cases st) c = Some (sn_case_version sn)"
    by (auto dest!: load_snapshot_SomeD simp: case_version_of_def)
  have "gr_case_version g \<noteq> w" if "(c, g) \<in> set (st_gates st)" for g
    using assms(1,3) that v
    by (force simp: store_inv_def gates_ok_def versions_bounded_def gate_key_def)
  then show "case_gates st c w = []" by (auto simp: case_gates_def filter_empty_conv)
  have "gp_case_version g \<noteq> w" if "g \<in> set (st_gaps st)" "gp_case_id g = c" for g
    using assms(1,3) that v by (force simp: store_inv_def versions_bounded_def)
  then show "unresolved_gaps st c w = []" by (auto simp: unresolved_gaps_def filter_empty_conv)
  have "hr_case_version h \<noteq> w" if "h \<in> set (st_handoffs st)" "hr_case_id h = c" for h
    using assms(1,3) that v by (force simp: store_inv_def versions_bounded_def)
  then show "\<not> has_ready_handoff st c w" by (auto simp: has_ready_handoff_def list_ex_set)
qed

lemma bump_case_version_stale:
  "case_version_of st c \<noteq> Some ex \<Longrightarrow> bump_case_version c ex reason ref actor st = Inl StaleCaseVersion"
  by (simp add: bump_case_version_def)

lemma bump_case_version_fields:
  assumes "case_version_of st c = Some ex"
  obtains st' hs log where "bump_case_version c ex reason ref actor st = Inr (ex + 1, st')"
    and "st' = st\<lparr>st_cases := set_version c (ex + 1) (st_cases st), st_handoffs := st_handoffs st @ hs,
                 st_drawn := Suc (Suc (st_drawn st)), st_audit := log\<rparr>"
    and "\<forall>h\<in>set hs. hr_case_id h = c \<and> hr_case_version h = ex + 1"
    and "hs \<noteq> [] \<longleftrightarrow> has_ready_handoff st c ex"
    and "\<forall>h\<in>set hs. hr_state h = ''READY_FOR_SPECIALIST_REVIEW'' \<and> hr_stale_at h = None"
proof -
  let ?st1 = "st\<lparr>st_cases := set_version c (ex + 1) (st_cases st)\<rparr>"
  have "case_version_of ?st1 c \<noteq> None"
    using assms by (simp add: case_version_of_def map_of_set_version)
  from insert_audit_total [OF this]
  obtain st2 where st2: "insert_audit c (ex + 1) ''CASE_VERSION_BUMPED'' ''HUMAN:RISK_REVIEWER'' actor
      ''CREDIT_CASE'' c [(''reason'', JStr reason), (''dispositionRef'', JStr ref),
        (''previousVersion'', JInt ex), (''newVersion'', JInt (ex + 1)),
        (''recordedAt'', JInt (st_clock st))] ?st1 = Inr st2" by blast
  from insert_audit_Inr [OF this] obtain log
    where f2: "st2 = ?st1\<lparr>st_drawn := Suc (st_drawn st), st_audit := log\<rparr>" by auto
  have ready: "has_ready_handoff st2 c ex = has_ready_handoff st c ex"
    by (simp add: f2 has_ready_handoff_def)
  let ?st3 = "clone_handoff c ex (ex + 1) reason ref st2"
  from clone_handoff_rows [of c ex "ex + 1" reason ref st2] ready
  obtain hs where hs: "st_handoffs ?st3 = st_handoffs st @ hs"
    "\<forall>h\<in>set hs. hr_case_id h = c \<and> hr_case_version h = ex + 1"
    "hs \<noteq> [] \<longleftrightarrow> has_ready_handoff st c ex"
    "\<forall>h\<in>set hs. hr_state h = ''READY_FOR_SPECIALIST_REVIEW'' \<and> hr_stale_at h = None"
    by (auto simp: f2)
  from clone_handoff_fields obtain hs'
    where "?st3 = st2\<lparr>st_drawn := Suc (st_drawn st2), st_handoffs := hs'\<rparr>" by blast
  with hs(1) f2 have f3: "?st3 = st\<lparr>st_cases := set_version c (ex + 1) (st_cases st),
      st_handoffs := st_handoffs st @ hs, st_drawn := Suc (Suc (st_drawn st)), st_audit := log\<rparr>"
    by simp
  have "bump_case_version c ex reason ref actor st = Inr (ex + 1, ?st3)"
    using assms st2 by (simp add: bump_case_version_def Let_def set_version_def)
  from that [OF this f3 hs(2-4)] show thesis .
qed


lemma bump_case_version_InrE:
  assumes v: "case_version_of st c = Some ex"
    and run: "bump_case_version c ex reason ref actor st = Inr (w, st')"
  obtains hs log where
    "st' = st\<lparr>st_cases := set_version c (ex + 1) (st_cases st), st_handoffs := st_handoffs st @ hs,
                 st_drawn := Suc (Suc (st_drawn st)), st_audit := log\<rparr>"
    and "\<forall>h\<in>set hs. hr_case_id h = c \<and> hr_case_version h = ex + 1"
    and "hs \<noteq> [] \<longleftrightarrow> has_ready_handoff st c ex"
    and "\<forall>h\<in>set hs. hr_state h = ''READY_FOR_SPECIALIST_REVIEW'' \<and> hr_stale_at h = None"
  by (rule bump_case_version_fields [OF v, of reason ref actor], rule that) (use run in auto)

lemma bump_case_version_inv:
  assumes inv: "store_inv st" and v: "case_version_of st c = Some ex"
    and run: "bump_case_version c ex reason ref actor st = Inr (w, st')"
  shows "store_inv st'"
proof -
  obtain hs log where st':
    "st' = st\<lparr>st_cases := set_version c (ex + 1) (st_cases st), st_handoffs := st_handoffs st @ hs,
                 st_drawn := Suc (Suc (st_drawn st)), st_audit := log\<rparr>"
    and hs: "\<forall>h\<in>set hs. hr_case_id h = c \<and> hr_case_version h = ex + 1"
    by (rule bump_case_version_InrE [OF v run]) (rule that)
  let ?cs = "set_version c (ex + 1) (st_cases st)"
  from v have c: "map_of (st_cases st) c = Some ex" by (simp add: case_version_of_def)
  have mono: "versions_bounded (st_cases st) rows \<Longrightarrow> versions_bounded ?cs rows" for rows
    by (rule versions_bounded_set_version) (simp_all add: c)
  have "versions_bounded ?cs (map (\<lambda>h. (hr_case_id h, hr_case_version h)) hs)"
    using hs c by (auto simp: versions_bounded_def map_of_set_version)
  moreover have "\<forall>(k, w)\<in>set ?cs. 1 \<le> w"
    using inv map_of_SomeD [OF c] by (fastforce simp: store_inv_def set_version_def)
  ultimately show ?thesis using inv mono
    by (simp add: st' store_inv_def tasks_ok_def gates_ok_def)
qed

lemma bump_case_version_snapshot:
  assumes inv: "store_inv st" and load: "load_snapshot st c = Some sn" and ex: "sn_case_version sn = ex"
    and run: "bump_case_version c ex reason ref actor st = Inr (w, st')"
  shows "load_snapshot st' c = Some (sn\<lparr>sn_case_version := ex + 1, sn_gates := [], sn_blocking_gaps := []\<rparr>)"
    and "c' \<noteq> c \<Longrightarrow> load_snapshot st' c' = load_snapshot st c'"
    and "st_tasks st' = st_tasks st" "st_proposals st' = st_proposals st"
proof -
  note sn = load_snapshot_SomeD [OF load]
  then have v: "case_version_of st c = Some ex" by (simp add: ex)
  obtain hs log where st':
    "st' = st\<lparr>st_cases := set_version c (ex + 1) (st_cases st), st_handoffs := st_handoffs st @ hs,
                 st_drawn := Suc (Suc (st_drawn st)), st_audit := log\<rparr>"
    and hs: "\<forall>h\<in>set hs. hr_case_id h = c \<and> hr_case_version h = ex + 1"
      "hs \<noteq> [] \<longleftrightarrow> has_ready_handoff st c ex"
      "\<forall>h\<in>set hs. hr_state h = ''READY_FOR_SPECIALIST_REVIEW'' \<and> hr_stale_at h = None"
    by (rule bump_case_version_InrE [OF v run]) (rule that)
  show "st_tasks st' = st_tasks st" "st_proposals st' = st_proposals st" by (simp_all add: st')
  have older: "case_gates st c (ex + 1) = []" "unresolved_gaps st c (ex + 1) = []"
      "\<not> has_ready_handoff st c (ex + 1)"
    using load_snapshot_older [OF inv load, of "ex + 1"] by (simp_all add: ex)
  have "has_ready_handoff st' c (ex + 1) \<longleftrightarrow> hs \<noteq> []"
    using older(3) hs(1,3) by (cases hs) (auto simp: st' has_ready_handoff_def)
  then have "has_ready_handoff st' c (ex + 1) = sn_has_intake_handoff sn" using hs(2) sn ex by simp
  with older sn show "load_snapshot st' c =
      Some (sn\<lparr>sn_case_version := ex + 1, sn_gates := [], sn_blocking_gaps := []\<rparr>)"
    using v by (simp add: load_snapshot_def case_version_of_def st' map_of_set_version case_tasks_def
        case_gates_def unresolved_gaps_def)
  assume "c' \<noteq> c"
  moreover have "has_ready_handoff st' c' u = has_ready_handoff st c' u" for u
    using hs(1) \<open>c' \<noteq> c\<close> by (auto simp: st' has_ready_handoff_def list_ex_set)
  ultimately show "load_snapshot st' c' = load_snapshot st c'"
    by (simp add: load_snapshot_def case_version_of_def case_tasks_def case_gates_def unresolved_gaps_def
        split: option.split) (simp add: st' map_of_set_version)
qed


section \<open>The contract of the port holds\<close>

lemma load_postgres [simp]: "rp_load_snapshot postgres_orchestration c st = load_snapshot st c"
  by (simp add: postgres_orchestration_def)

lemma audit_postgres [simp]: "rp_append_audit postgres_orchestration e = transact (append_audit e)"
  by (simp add: postgres_orchestration_def)

lemma proposal_postgres [simp]: "rp_record_proposal postgres_orchestration p = transact (record_proposal p)"
  by (simp add: postgres_orchestration_def)

lemma gate_postgres [simp]:
  "rp_ensure_gate postgres_orchestration c v g status actor ref = atomically (ensure_gate c v g status actor ref)"
  by (simp add: postgres_orchestration_def)

lemma task_postgres [simp]:
  "rp_create_task postgres_orchestration i c v t key p deps = atomically (create_task i c v t key p deps)"
  by (simp add: postgres_orchestration_def)

lemma bump_postgres [simp]:
  "rp_bump_case_version postgres_orchestration c ex reason ref actor =
     atomically (bump_case_version c ex reason ref actor)"
  by (simp add: postgres_orchestration_def)

lemma append_audit_Inr:
  "append_audit e st = Inr st' \<Longrightarrow> \<exists>log. st' = st\<lparr>st_drawn := Suc (st_drawn st), st_audit := log\<rparr>"
  unfolding append_audit_def by (rule insert_audit_Inr)

lemma audit_step:
  assumes "store_inv st" "append_audit e st = Inr st'"
  shows "store_inv st' \<and> load_snapshot st' c = load_snapshot st c \<and>
    idempotency_keys c st' = idempotency_keys c st \<and> used_task_ids st' = used_task_ids st \<and>
    used_proposal_ids st' = used_proposal_ids st"
  using append_audit_Inr [OF assms(2)] assms(1)
  by (auto simp: idempotency_keys_def used_task_ids_def used_proposal_ids_def
      intro!: load_snapshot_cong) (simp add: store_inv_def)

lemma proposal_step:
  assumes "store_inv st" "record_proposal p st = Inr st'"
  shows "store_inv st' \<and> load_snapshot st' c = load_snapshot st c \<and>
    idempotency_keys c st' = idempotency_keys c st \<and> used_task_ids st' = used_task_ids st \<and>
    used_proposal_ids st' = insert (pr_id p) (used_proposal_ids st)"
proof -
  have "st' = st\<lparr>st_proposals := st_proposals st @ [p]\<rparr>"
    using assms(2) by (auto simp: record_proposal_def result_simps)
  with assms(1) show ?thesis
    by (auto simp: idempotency_keys_def used_task_ids_def used_proposal_ids_def intro: load_snapshot_cong)
      (simp_all add: store_inv_def)
qed

lemma gate_step:
  assumes inv: "store_inv st" and load: "load_snapshot st c = Some sn" and v: "v = sn_case_version sn"
    and run: "ensure_gate c v g status a ref st = Inr (r, st')"
  shows "store_inv st' \<and> (\<forall>c'. idempotency_keys c' st' = idempotency_keys c' st) \<and>
    used_task_ids st' = used_task_ids st \<and> used_proposal_ids st' = used_proposal_ids st \<and>
    (\<forall>c'. c' \<noteq> c \<longrightarrow> load_snapshot st' c' = load_snapshot st c') \<and>
    gate_ensured (stored_gate sn g) g v status a ref r \<and>
    (\<exists>gs. load_snapshot st' c = Some (sn\<lparr>sn_gates := gs\<rparr>) \<and>
       (\<forall>g'. stored_gate (sn\<lparr>sn_gates := gs\<rparr>) g' = (if g' = g then Some r else stored_gate sn g')))"
proof -
  note sn = load_snapshot_SomeD [OF load]
  then have cv: "case_version_of st c = Some v" by (simp add: v)
  note post = ensure_gate_Inr [OF inv cv run]
  obtain gs where st': "st' = st\<lparr>st_gates := gs\<rparr>" using post(2) by blast
  have stored: "stored_gate sn h = gate_of (st_gates st) (c, v, h)" for h
    using inv sn v by (subst gate_of_stored) (auto simp: store_inv_def gates_ok_def)
  let ?sn = "sn\<lparr>sn_gates := case_gates st' c v\<rparr>"
  have "load_snapshot st' c = Some ?sn"
    using sn cv by (simp add: load_snapshot_def st' case_version_of_def has_ready_handoff_def
        case_tasks_def unresolved_gaps_def v)
  moreover have "stored_gate ?sn h = (if h = g then Some r else stored_gate sn h)" for h
  proof -
    have "stored_gate ?sn h = gate_of (st_gates st') (c, v, h)"
      using post(1) v by (subst gate_of_stored) (auto simp: store_inv_def gates_ok_def)
    then show ?thesis by (simp add: post(4) stored)
  qed
  moreover have "\<forall>c'. c' \<noteq> c \<longrightarrow> load_snapshot st' c' = load_snapshot st c'"
    using ensure_gate_other [OF run] by blast
  moreover have "gate_ensured (stored_gate sn g) g v status a ref r" by (simp add: stored post(3))
  moreover have "(\<forall>c'. idempotency_keys c' st' = idempotency_keys c' st) \<and>
      used_task_ids st' = used_task_ids st \<and> used_proposal_ids st' = used_proposal_ids st"
    by (simp add: st' idempotency_keys_def used_task_ids_def used_proposal_ids_def)
  ultimately show ?thesis using post(1) by blast
qed

lemma find_key_iff: "find (has_key c key) (st_tasks st) = None \<longleftrightarrow> key \<notin> idempotency_keys c st"
  by (auto simp: find_None_iff_all idempotency_keys_def has_key_def)

lemma task_step:
  assumes inv: "store_inv st" and load: "load_snapshot st c = Some sn" and v: "v = sn_case_version sn"
    and key: "key \<notin> idempotency_keys c st" and run: "create_task i c v t key p deps st = Inr (ct, st')"
  shows "store_inv st' \<and> ct_created ct \<and>
    ct_row ct = \<lparr>tr_task_id = i, tr_task_type = t, tr_case_version = v, tr_status = PENDING\<rparr> \<and>
    i \<notin> used_task_ids st \<and> used_task_ids st' = insert i (used_task_ids st) \<and>
    used_proposal_ids st' = used_proposal_ids st \<and>
    idempotency_keys c st' = insert key (idempotency_keys c st) \<and> t \<noteq> DOCUMENT_INGESTION \<and>
    (\<forall>c'. c' \<noteq> c \<longrightarrow> idempotency_keys c' st' = idempotency_keys c' st \<and>
       load_snapshot st' c' = load_snapshot st c') \<and>
    load_snapshot st' c = Some (sn\<lparr>sn_tasks := sn_tasks sn @ [ct_row ct]\<rparr>)"
proof -
  note sn = load_snapshot_SomeD [OF load]
  then have cv: "case_version_of st c = Some v" by (simp add: v)
  from key have new: "find (has_key c key) (st_tasks st) = None" by (simp add: find_key_iff)
  note post = create_task_new [OF new run]
  let ?t = "new_task i c v t key p (st_clock st)"
  from post obtain ds ob dr where
    st': "st' = st\<lparr>st_tasks := st_tasks st @ [?t], st_dependencies := ds, st_outbox := ob, st_drawn := dr\<rparr>"
    by blast
  have agent: "t \<in> set agent_task_types"
    using post by (cases t) (auto simp: agent_task_types_def enum_task_type_def)
  have "load_snapshot st' c = Some (sn\<lparr>sn_tasks := sn_tasks sn @ [ct_row ct]\<rparr>)"
    using sn cv post agent
    by (simp add: load_snapshot_def st' case_version_of_def has_ready_handoff_def case_tasks_def
        unresolved_gaps_def case_gates_def v new_task_def task_view_def)
  moreover have "load_snapshot st' c' = load_snapshot st c'" if "c' \<noteq> c" for c'
    using that by (simp add: load_snapshot_def st' case_version_of_def has_ready_handoff_def case_tasks_def
        unresolved_gaps_def case_gates_def new_task_def split: option.split)
  moreover have "idempotency_keys c' st' =
      (if c' = c then insert key (idempotency_keys c' st) else idempotency_keys c' st)" for c'
    by (simp add: idempotency_keys_def st' new_task_def)
  moreover have "used_task_ids st' = insert i (used_task_ids st)"
    "used_proposal_ids st' = used_proposal_ids st"
    by (simp_all add: st' used_task_ids_def used_proposal_ids_def new_task_def)
  ultimately show ?thesis using post create_task_inv [OF inv cv new run] by auto
qed


interpretation pg: case_repository postgres_orchestration store_inv idempotency_keys used_task_ids
  used_proposal_ids
proof
  fix c st sn assume load: "rp_load_snapshot postgres_orchestration c st = Some sn"
  then show "sn_case_id sn = c" by (auto dest: load_snapshot_SomeD)
  show "tr_task_id ` set (sn_tasks sn) \<subseteq> used_task_ids st"
    using load by (auto dest!: load_snapshot_SomeD simp: used_task_ids_def case_tasks_def task_view_def)
  assume inv: "store_inv st"
  from load have "(c, sn_case_version sn) \<in> set (st_cases st)"
    by (auto dest!: load_snapshot_SomeD map_of_SomeD simp: case_version_of_def)
  with inv show "1 \<le> sn_case_version sn" by (auto simp: store_inv_def)
next
  fix e :: orchestration_audit_event and st err st'
  show "rp_append_audit postgres_orchestration e st = (Inl err, st') \<Longrightarrow> st' = st" by simp
next
  fix e :: orchestration_audit_event and st u st' c
  assume "store_inv st" "rp_append_audit postgres_orchestration e st = (Inr u, st')"
  then show "store_inv st' \<and>
      rp_load_snapshot postgres_orchestration c st' = rp_load_snapshot postgres_orchestration c st \<and>
      idempotency_keys c st' = idempotency_keys c st \<and> used_task_ids st' = used_task_ids st \<and>
      used_proposal_ids st' = used_proposal_ids st"
    using audit_step by simp
next
  fix e :: orchestration_audit_event and st
  assume "rp_load_snapshot postgres_orchestration (ae_case_id e) st \<noteq> None"
  then show "\<exists>st'. rp_append_audit postgres_orchestration e st = (Inr (), st')"
    using insert_audit_total by (simp add: load_snapshot_None append_audit_def)
next
  fix p :: planner_proposal and st err st'
  show "rp_record_proposal postgres_orchestration p st = (Inl err, st') \<Longrightarrow> st' = st" by simp
next
  fix p :: planner_proposal and st u st' c
  assume "store_inv st" "rp_record_proposal postgres_orchestration p st = (Inr u, st')"
  then show "store_inv st' \<and>
      rp_load_snapshot postgres_orchestration c st' = rp_load_snapshot postgres_orchestration c st \<and>
      idempotency_keys c st' = idempotency_keys c st \<and> used_task_ids st' = used_task_ids st \<and>
      used_proposal_ids st' = insert (pr_id p) (used_proposal_ids st)"
    using proposal_step by simp
next
  fix p :: planner_proposal and st
  assume "rp_load_snapshot postgres_orchestration (pr_case_id p) st \<noteq> None" "pr_id p \<notin> used_proposal_ids st"
  moreover from this(2) have "list_all (\<lambda>r. pr_id r \<noteq> pr_id p) (st_proposals st)"
    unfolding used_proposal_ids_def list_all_set image_iff by (metis (full_types))
  ultimately show "\<exists>st'. rp_record_proposal postgres_orchestration p st = (Inr (), st')"
    by (simp add: load_snapshot_None record_proposal_def check_that_def)
qed

interpretation pg: orchestration_repository postgres_orchestration store_inv idempotency_keys
  used_task_ids used_proposal_ids
proof
  fix c v g status a ref st r r0 st' sn
  assume load: "rp_load_snapshot postgres_orchestration c st = Some sn"
    and inv: "store_inv st" and v: "v = sn_case_version sn"
    and run: "rp_ensure_gate postgres_orchestration c v g status a ref st = (Inr r, st')"
    and old: "stored_gate sn g = Some r0" "gr_status r0 = SATISFIED \<or> status = OPEN"
  from load have "gate_of (st_gates st) (c, v, g) = Some r0"
    using inv old(1) v by (subst (asm) gate_of_stored)
      (auto simp: store_inv_def gates_ok_def dest: load_snapshot_SomeD)
  with inv run old(2) show "st' = st" by (auto dest: ensure_gate_same)
next
  fix key c i v t p deps st ct st'
  assume "store_inv st" "key \<in> idempotency_keys c st"
    and "rp_create_task postgres_orchestration i c v t key p deps st = (Inr ct, st')"
  then show "st' = st \<and> \<not> ct_created ct"
    using find_key_iff [of c key st] by (auto simp: create_task_known)
next
  fix c v t i key p deps st sn
  assume *: "store_inv st" "rp_load_snapshot postgres_orchestration c st = Some sn"
    "v = sn_case_version sn" "t \<noteq> DOCUMENT_INGESTION" "i \<notin> used_task_ids st"
    "\<And>d. d \<in> set deps \<Longrightarrow> \<exists>r\<in>set (sn_tasks sn). tr_task_id r = d \<and> tr_case_version r = v"
  have "\<exists>r\<in>set (st_tasks st). pt_id r = d \<and> pt_case_id r = c \<and> pt_case_version r = v"
    if "d \<in> set deps" for d
    using *(6) [OF that] *(2) by (auto dest!: load_snapshot_SomeD simp: case_tasks_def task_view_def; blast)
  then have "\<exists>ct st'. create_task i c v t key p deps st = Inr (ct, st')"
    using * pg.load_version [OF *(1,2)]
    by (intro create_task_total) (auto dest: load_snapshot_SomeD)
  then show "\<exists>ct st'. rp_create_task postgres_orchestration i c v t key p deps st = (Inr ct, st')"
    by auto
next
  fix c v g status a ref st err st'
  show "rp_ensure_gate postgres_orchestration c v g status a ref st = (Inl err, st') \<Longrightarrow> st' = st" by simp
next
  fix c v g status a ref st r st' sn
  assume "store_inv st" "rp_load_snapshot postgres_orchestration c st = Some sn" "v = sn_case_version sn"
    "rp_ensure_gate postgres_orchestration c v g status a ref st = (Inr r, st')"
  then show "store_inv st' \<and> (\<forall>c'. idempotency_keys c' st' = idempotency_keys c' st) \<and>
      used_task_ids st' = used_task_ids st \<and> used_proposal_ids st' = used_proposal_ids st \<and>
      (\<forall>c'. c' \<noteq> c \<longrightarrow>
         rp_load_snapshot postgres_orchestration c' st' = rp_load_snapshot postgres_orchestration c' st) \<and>
      gate_ensured (stored_gate sn g) g v status a ref r \<and>
      (\<exists>gs. rp_load_snapshot postgres_orchestration c st' = Some (sn\<lparr>sn_gates := gs\<rparr>) \<and>
         (\<forall>g'. stored_gate (sn\<lparr>sn_gates := gs\<rparr>) g' = (if g' = g then Some r else stored_gate sn g')))"
    unfolding load_postgres gate_postgres atomically_Inr by (rule gate_step)
next
  fix c v g status a ref st
  assume "rp_load_snapshot postgres_orchestration c st \<noteq> None"
  then show "\<exists>r st'. rp_ensure_gate postgres_orchestration c v g status a ref st = (Inr r, st')"
    using ensure_gate_total by (simp add: load_snapshot_None)
next
  fix i c v t key p deps st err st'
  show "rp_create_task postgres_orchestration i c v t key p deps st = (Inl err, st') \<Longrightarrow> st' = st" by simp
next
  fix c st sn v key i t p deps ct st'
  assume "store_inv st" "rp_load_snapshot postgres_orchestration c st = Some sn" "v = sn_case_version sn"
    "key \<notin> idempotency_keys c st"
    "rp_create_task postgres_orchestration i c v t key p deps st = (Inr ct, st')"
  then show "store_inv st' \<and> ct_created ct \<and>
      ct_row ct = \<lparr>tr_task_id = i, tr_task_type = t, tr_case_version = v, tr_status = PENDING\<rparr> \<and>
      i \<notin> used_task_ids st \<and> used_task_ids st' = insert i (used_task_ids st) \<and>
      used_proposal_ids st' = used_proposal_ids st \<and>
      idempotency_keys c st' = insert key (idempotency_keys c st) \<and> t \<noteq> DOCUMENT_INGESTION \<and>
      (\<forall>c'. c' \<noteq> c \<longrightarrow> idempotency_keys c' st' = idempotency_keys c' st \<and>
         rp_load_snapshot postgres_orchestration c' st' = rp_load_snapshot postgres_orchestration c' st) \<and>
      rp_load_snapshot postgres_orchestration c st' = Some (sn\<lparr>sn_tasks := sn_tasks sn @ [ct_row ct]\<rparr>)"
    unfolding load_postgres task_postgres atomically_Inr by (rule task_step)
qed

interpretation pg: revision_repository postgres_orchestration store_inv idempotency_keys
  used_task_ids used_proposal_ids
proof
  fix c st sn ex reason ref actor
  assume load: "rp_load_snapshot postgres_orchestration c st = Some sn" and inv: "store_inv st"
  then have cv: "case_version_of st c = Some (sn_case_version sn)" by (auto dest: load_snapshot_SomeD)
  show "rp_bump_case_version postgres_orchestration c ex reason ref actor st = (Inl StaleCaseVersion, st)"
    if "sn_case_version sn \<noteq> ex"
    using that cv by (simp add: bump_case_version_stale)
  assume ex: "sn_case_version sn = ex"
  with cv obtain st' where run: "bump_case_version c ex reason ref actor st = Inr (ex + 1, st')"
    using bump_case_version_fields by metis
  note snap = bump_case_version_snapshot [OF inv _ ex run]
  from inv cv ex run have "store_inv st'" by (auto intro: bump_case_version_inv)
  then show "\<exists>st'. rp_bump_case_version postgres_orchestration c ex reason ref actor st = (Inr (ex + 1), st') \<and>
      store_inv st' \<and> (\<forall>c'. idempotency_keys c' st' = idempotency_keys c' st) \<and>
      used_task_ids st' = used_task_ids st \<and> used_proposal_ids st' = used_proposal_ids st \<and>
      (\<forall>c'. c' \<noteq> c \<longrightarrow> rp_load_snapshot postgres_orchestration c' st' = rp_load_snapshot postgres_orchestration c' st) \<and>
      rp_load_snapshot postgres_orchestration c st' =
        Some (sn\<lparr>sn_case_version := ex + 1, sn_gates := [], sn_blocking_gaps := []\<rparr>)"
    using run snap load
    by (auto simp: idempotency_keys_def used_task_ids_def used_proposal_ids_def)
qed

end
