(* ===== verification/Task_Leases.thy ===== *)
theory Task_Leases
  imports Case_Store
begin

text \<open>
  \<open>PostgresTaskRepository\<close> (\<open>infrastructure/postgres/tasks.py\<close>): the single worker
  slot, the leases on tasks, checkpoints, and the retry policy; and the state
  machine of a task that the operations refine.  \<open>st_clock\<close> is the statement's
  time stamp.
\<close>

section \<open>The operations\<close>

datatype task_error =
    StaleTask string
  | TaskLeaseLost string
  | TaskDatabaseError string

text \<open>\<open>update ... where P returning ...\<close> on the table of tasks.\<close>

definition update_task ::
  "(processing_task \<Rightarrow> bool) \<Rightarrow> (processing_task \<Rightarrow> processing_task) \<Rightarrow> store \<Rightarrow>
   processing_task option \<times> store" where
  "update_task P f st =
     (map_option f (find P (st_tasks st)),
      st\<lparr>st_tasks := map (\<lambda>t. if P t then f t else t) (st_tasks st)\<rparr>)"

definition acquire_worker_slot ::
  "uuid \<Rightarrow> uuid \<Rightarrow> datetime \<Rightarrow> store \<Rightarrow> task_error + bool \<times> store" where
  "acquire_worker_slot owner token until st =
     (if until \<le> st_clock st
      then Inl (TaskDatabaseError ''worker lease requires owner, token, and a future expiry'')
      else if (case st_slot st of None \<Rightarrow> True
               | Some w \<Rightarrow> ws_until w \<le> st_clock st \<or> ws_owner w = owner \<and> ws_token w = token)
      then Inr (True, st\<lparr>st_slot := Some \<lparr>ws_owner = owner, ws_token = token, ws_until = until\<rparr>\<rparr>)
      else Inr (False, st))"

definition release_worker_slot :: "uuid \<Rightarrow> uuid \<Rightarrow> store \<Rightarrow> store" where
  "release_worker_slot owner token st =
     (case st_slot st of
        None \<Rightarrow> st
      | Some w \<Rightarrow> if ws_owner w = owner \<and> ws_token w = token then st\<lparr>st_slot := None\<rparr> else st)"

definition extend_worker_slot :: "uuid \<Rightarrow> uuid \<Rightarrow> datetime \<Rightarrow> store \<Rightarrow> bool \<times> store" where
  "extend_worker_slot owner token until st =
     (case st_slot st of
        None \<Rightarrow> (False, st)
      | Some w \<Rightarrow> if ws_owner w = owner \<and> ws_token w = token \<and> st_clock st < ws_until w
                 then (True, st\<lparr>st_slot := Some (w\<lparr>ws_until := until\<rparr>)\<rparr>) else (False, st))"

text \<open>
  The scope of a task: its identifiers as the worker read them from the message
  (\<open>is not distinct from\<close> compares a missing document version too).
\<close>

record task_scope =
  sc_task_id :: uuid
  sc_case_id :: uuid
  sc_case_version :: int
  sc_document_version_id :: "uuid option"

definition in_scope :: "task_scope \<Rightarrow> processing_task \<Rightarrow> bool" where
  "in_scope sc t \<longleftrightarrow>
     pt_id t = sc_task_id sc \<and> pt_case_id t = sc_case_id sc \<and> pt_case_version t = sc_case_version sc \<and>
     pt_document_version_id t = sc_document_version_id sc"

definition holds_lease :: "store \<Rightarrow> task_scope \<Rightarrow> uuid \<Rightarrow> processing_task \<Rightarrow> bool" where
  "holds_lease st sc token t \<longleftrightarrow>
     in_scope sc t \<and> pt_status t = RUNNING \<and> pt_lease_token t = Some token \<and>
     (case pt_lease_until t of None \<Rightarrow> False | Some u \<Rightarrow> st_clock st < u)"

definition extend_task_lease ::
  "task_scope \<Rightarrow> uuid \<Rightarrow> datetime \<Rightarrow> store \<Rightarrow> task_error + bool \<times> store" where
  "extend_task_lease sc token until st =
     (case update_task (holds_lease st sc token) (\<lambda>t. t\<lparr>pt_lease_until := Some until\<rparr>) st of
        (None, _) \<Rightarrow> Inl (TaskLeaseLost ''task lease is no longer owned'')
      | (Some _, st') \<Rightarrow> Inr (True, st'))"

definition document_current :: "store \<Rightarrow> processing_task \<Rightarrow> bool" where
  "document_current st t \<longleftrightarrow>
     (case pt_document_version_id t of
        None \<Rightarrow> True
      | Some d \<Rightarrow> list_ex (\<lambda>r. dv_id r = d \<and> dv_case_id r = pt_case_id t \<and>
                     dv_case_version r = pt_case_version t \<and> dv_stale_at r = None) (st_documents st))"

definition claimable :: "store \<Rightarrow> task_scope \<Rightarrow> processing_task \<Rightarrow> bool" where
  "claimable st sc t \<longleftrightarrow>
     in_scope sc t \<and> pt_status t \<in> {PENDING, RETRY_WAIT} \<and> pt_available_at t \<le> st_clock st \<and>
     (case pt_lease_until t of None \<Rightarrow> True | Some u \<Rightarrow> u \<le> st_clock st) \<and>
     case_version_of st (pt_case_id t) = Some (pt_case_version t) \<and> document_current st t"

definition claimed_row :: "uuid \<Rightarrow> datetime \<Rightarrow> processing_task \<Rightarrow> processing_task" where
  "claimed_row token until t =
     t\<lparr>pt_status := RUNNING, pt_attempt_count := pt_attempt_count t + 1,
       pt_lease_token := Some token, pt_lease_until := Some until\<rparr>"

definition claim_task ::
  "task_scope \<Rightarrow> uuid \<Rightarrow> datetime \<Rightarrow> store \<Rightarrow> processing_task option \<times> store" where
  "claim_task sc token until st = update_task (claimable st sc) (claimed_row token until) st"

definition get_task ::
  "(uuid \<Rightarrow> uuid \<Rightarrow> bool) \<Rightarrow> uuid \<Rightarrow> uuid option \<Rightarrow> uuid option \<Rightarrow> store \<Rightarrow> processing_task option" where
  "get_task assigned i c actor st =
     find (\<lambda>t. pt_id t = i \<and> (case c of None \<Rightarrow> True | Some c' \<Rightarrow> pt_case_id t = c') \<and>
            (case actor of None \<Rightarrow> True | Some a \<Rightarrow> assigned (pt_case_id t) a)) (st_tasks st)"

definition latest_checkpoint :: "task_scope \<Rightarrow> store \<Rightarrow> task_checkpoint option" where
  "latest_checkpoint sc st =
     (case rev (sort_key tc_sequence_no (filter (\<lambda>k. tc_task_id k = sc_task_id sc \<and>
             tc_case_id k = sc_case_id sc \<and> tc_case_version k = sc_case_version sc \<and>
             tc_document_version_id k = sc_document_version_id sc) (st_checkpoints st))) of
        [] \<Rightarrow> None | k # _ \<Rightarrow> Some k)"

definition save_checkpoint ::
  "task_scope \<Rightarrow> uuid \<Rightarrow> int \<Rightarrow> string \<Rightarrow> string \<Rightarrow> json \<Rightarrow> store \<Rightarrow>
   task_error + task_checkpoint \<times> store" where
  "save_checkpoint sc token seq kind schema data st =
     (case find (\<lambda>t. holds_lease st sc token t \<and>
               case_version_of st (pt_case_id t) = Some (pt_case_version t) \<and> document_current st t)
             (st_tasks st) of
        None \<Rightarrow> Inl (StaleTask ''task or document version is no longer current'')
      | Some t \<Rightarrow>
          let k = \<lparr>tc_task_id = pt_id t, tc_case_id = pt_case_id t, tc_case_version = pt_case_version t,
                   tc_document_version_id = pt_document_version_id t, tc_sequence_no = seq,
                   tc_checkpoint_type = kind, tc_schema_version = schema, tc_data = data,
                   tc_created_at = st_clock st\<rparr>
          in rbind (check_that (0 < seq) (TaskDatabaseError ''task_checkpoints_sequence_no_check'')) (\<lambda>_.
             rbind (check_that
               (list_all (\<lambda>r. \<not> (tc_task_id r = pt_id t \<and> tc_sequence_no r = seq)) (st_checkpoints st))
               (TaskDatabaseError ''task_checkpoints_task_sequence_key'')) (\<lambda>_.
             Inr (k, st\<lparr>st_checkpoints := st_checkpoints st @ [k]\<rparr>))))"

definition terminal_update :: "task_status \<Rightarrow> task_scope \<Rightarrow> uuid \<Rightarrow> store \<Rightarrow> task_error + unit \<times> store" where
  "terminal_update status sc token st =
     (case update_task (holds_lease st sc token)
             (\<lambda>t. t\<lparr>pt_status := status, pt_lease_token := None, pt_lease_until := None,
                    pt_completed_at := Some (st_clock st)\<rparr>) st of
        (None, _) \<Rightarrow> Inl (TaskLeaseLost ''task lease is no longer owned'')
      | (Some _, st') \<Rightarrow> Inr ((), st'))"

definition succeed_task :: "task_scope \<Rightarrow> uuid \<Rightarrow> store \<Rightarrow> task_error + unit \<times> store" where
  "succeed_task = terminal_update SUCCEEDED"

definition mark_superseded :: "task_scope \<Rightarrow> uuid \<Rightarrow> store \<Rightarrow> task_error + unit \<times> store" where
  "mark_superseded = terminal_update SUPERSEDED"

record retry_decision =
  rd_status :: task_status
  rd_attempt_count :: nat
  rd_available_at :: datetime
  rd_reason :: string

text \<open>
  The two arms of the \<open>case when attempt_count >= max_attempts\<close>; a \<open>datetime\<close>
  counts seconds, so the interval is added as it is.
\<close>

definition retry_row :: "string \<Rightarrow> datetime \<Rightarrow> int \<Rightarrow> datetime \<Rightarrow> processing_task \<Rightarrow> processing_task" where
  "retry_row reason now base clock t =
     (if pt_max_attempts t \<le> pt_attempt_count t
      then t\<lparr>pt_status := FAILED_MANUAL_REVIEW, pt_failure_reason := Some reason,
             pt_lease_token := None, pt_lease_until := None, pt_completed_at := Some clock\<rparr>
      else t\<lparr>pt_status := RETRY_WAIT, pt_failure_reason := Some reason,
             pt_available_at := now + base * 2 ^ (pt_attempt_count t - 1),
             pt_lease_token := None, pt_lease_until := None, pt_completed_at := None\<rparr>)"

definition retry_or_fail ::
  "task_scope \<Rightarrow> uuid \<Rightarrow> string \<Rightarrow> datetime \<Rightarrow> int \<Rightarrow> store \<Rightarrow> task_error + retry_decision \<times> store" where
  "retry_or_fail sc token reason now base st =
     (case update_task (holds_lease st sc token) (retry_row reason now base (st_clock st)) st of
        (None, _) \<Rightarrow> Inl (TaskLeaseLost ''task lease is no longer owned'')
      | (Some t, st') \<Rightarrow>
          Inr (\<lparr>rd_status = pt_status t, rd_attempt_count = pt_attempt_count t,
                rd_available_at = pt_available_at t, rd_reason = reason\<rparr>, st'))"

definition reclaim_base_delay :: int where
  "reclaim_base_delay = 30"

definition stranded :: "datetime \<Rightarrow> processing_task \<Rightarrow> bool" where
  "stranded now t \<longleftrightarrow>
     pt_status t = RUNNING \<and> (case pt_lease_until t of None \<Rightarrow> False | Some u \<Rightarrow> u \<le> now)"

definition reclaim_stranded :: "datetime \<Rightarrow> store \<Rightarrow> uuid list \<times> store" where
  "reclaim_stranded now st =
     (map pt_id (filter (stranded now) (st_tasks st)),
      st\<lparr>st_tasks := map (\<lambda>t. if stranded now t
           then retry_row ''lease expired; worker presumed crashed'' now reclaim_base_delay (st_clock st) t
           else t) (st_tasks st)\<rparr>)"

section \<open>The state machine of a task\<close>

definition same_identity :: "processing_task \<Rightarrow> processing_task \<Rightarrow> bool" where
  "same_identity t t' \<longleftrightarrow>
     pt_id t' = pt_id t \<and> pt_case_id t' = pt_case_id t \<and> pt_case_version t' = pt_case_version t \<and>
     pt_document_version_id t' = pt_document_version_id t \<and> pt_task_type t' = pt_task_type t \<and>
     pt_max_attempts t' = pt_max_attempts t \<and> pt_idempotency_key t' = pt_idempotency_key t \<and>
     pt_input_payload t' = pt_input_payload t"

text \<open>
  The moves the design allows: claim, heartbeat, completion, retry below the
  attempt limit, manual review at it.
\<close>

inductive task_move :: "processing_task \<Rightarrow> processing_task \<Rightarrow> bool" where
  move_claim: "same_identity t t' \<Longrightarrow> pt_status t \<in> {PENDING, RETRY_WAIT} \<Longrightarrow> pt_status t' = RUNNING \<Longrightarrow>
    pt_attempt_count t' = Suc (pt_attempt_count t) \<Longrightarrow> pt_lease_token t' \<noteq> None \<Longrightarrow>
    pt_lease_until t' \<noteq> None \<Longrightarrow> task_move t t'"
| move_heartbeat: "same_identity t t' \<Longrightarrow> pt_status t = RUNNING \<Longrightarrow> pt_status t' = RUNNING \<Longrightarrow>
    pt_attempt_count t' = pt_attempt_count t \<Longrightarrow> pt_lease_token t' = pt_lease_token t \<Longrightarrow>
    pt_lease_until t' \<noteq> None \<Longrightarrow> task_move t t'"
| move_complete: "same_identity t t' \<Longrightarrow> pt_status t = RUNNING \<Longrightarrow> pt_status t' \<in> {SUCCEEDED, SUPERSEDED} \<Longrightarrow>
    pt_attempt_count t' = pt_attempt_count t \<Longrightarrow> pt_lease_token t' = None \<Longrightarrow>
    pt_lease_until t' = None \<Longrightarrow> task_move t t'"
| move_retry: "same_identity t t' \<Longrightarrow> pt_status t = RUNNING \<Longrightarrow> pt_attempt_count t < pt_max_attempts t \<Longrightarrow>
    pt_status t' = RETRY_WAIT \<Longrightarrow> pt_attempt_count t' = pt_attempt_count t \<Longrightarrow> pt_lease_token t' = None \<Longrightarrow>
    pt_lease_until t' = None \<Longrightarrow> task_move t t'"
| move_give_up: "same_identity t t' \<Longrightarrow> pt_status t = RUNNING \<Longrightarrow> pt_max_attempts t \<le> pt_attempt_count t \<Longrightarrow>
    pt_status t' = FAILED_MANUAL_REVIEW \<Longrightarrow> pt_attempt_count t' = pt_attempt_count t \<Longrightarrow>
    pt_lease_token t' = None \<Longrightarrow> pt_lease_until t' = None \<Longrightarrow> task_move t t'"

inductive_cases task_moveE: "task_move t t'"

text \<open>The invariant of a task row.\<close>

definition task_wf :: "processing_task \<Rightarrow> bool" where
  "task_wf t \<longleftrightarrow>
     0 < pt_max_attempts t \<and>
     (pt_status t \<in> {PENDING, RETRY_WAIT} \<longrightarrow> pt_attempt_count t < pt_max_attempts t) \<and>
     (pt_status t = RUNNING \<longrightarrow> 0 < pt_attempt_count t) \<and>
     pt_attempt_count t \<le> pt_max_attempts t \<and>
     (pt_lease_token t \<noteq> None \<longleftrightarrow> pt_status t = RUNNING) \<and>
     (pt_lease_until t \<noteq> None \<longleftrightarrow> pt_status t = RUNNING)"

lemma task_move_wf: "task_move t t' \<Longrightarrow> task_wf t \<Longrightarrow> task_wf t'"
  by (erule task_moveE) (auto simp: task_wf_def same_identity_def)

lemma task_move_not_terminal: "task_move t t' \<Longrightarrow> \<not> terminal_status (pt_status t)"
  by (erule task_moveE) auto

lemma new_task_wf: "task_wf (new_task i c v ty key p now)"
  by (simp add: task_wf_def new_task_def)

text \<open>Every claim uses up an attempt, so a task is claimed at most \<open>max_attempts\<close> times.\<close>

definition remaining :: "processing_task \<Rightarrow> nat" where
  "remaining t =
     2 * (pt_max_attempts t - pt_attempt_count t) + (if pt_status t = RUNNING then 1 else 0)"

lemma task_move_remaining:
  "task_move t t' \<Longrightarrow> task_wf t \<Longrightarrow>
   remaining t' \<le> remaining t \<and> (pt_status t' \<noteq> pt_status t \<longrightarrow> remaining t' < remaining t)"
  by (erule task_moveE) (auto simp: remaining_def same_identity_def task_wf_def)

section \<open>The operations refine the state machine\<close>

definition moved :: "processing_task \<Rightarrow> processing_task \<Rightarrow> bool" where
  "moved t t' \<longleftrightarrow> t' = t \<or> task_move t t'"

definition pristine :: "processing_task \<Rightarrow> bool" where
  "pristine t \<longleftrightarrow> pt_status t = PENDING \<and> pt_attempt_count t = 0 \<and> 0 < pt_max_attempts t \<and>
     pt_lease_token t = None \<and> pt_lease_until t = None"

definition tasks_moved :: "store \<Rightarrow> store \<Rightarrow> bool" where
  "tasks_moved st st' \<longleftrightarrow>
     (\<exists>f new. st_tasks st' = map f (st_tasks st) @ new \<and>
        (\<forall>t\<in>set (st_tasks st). moved t (f t)) \<and> list_all pristine new)"

lemma tasks_moved_map:
  "st_tasks st' = map f (st_tasks st) \<Longrightarrow> (\<And>t. t \<in> set (st_tasks st) \<Longrightarrow> moved t (f t)) \<Longrightarrow>
   tasks_moved st st'"
  unfolding tasks_moved_def by (intro exI [of _ f] exI [of _ "[]"]) simp

lemma tasks_moved_append: "st_tasks st' = st_tasks st @ new \<Longrightarrow> list_all pristine new \<Longrightarrow> tasks_moved st st'"
  unfolding tasks_moved_def by (intro exI [of _ id] exI [of _ new]) (simp add: moved_def)

lemma tasks_moved_refl: "st_tasks st' = st_tasks st \<Longrightarrow> tasks_moved st st'"
  by (rule tasks_moved_append [where new = "[]"]) simp_all

lemma update_task_moved:
  assumes "\<And>t. P t \<Longrightarrow> task_move t (f t)" "update_task P f st = (r, st')"
  shows "tasks_moved st st'"
proof (rule tasks_moved_map)
  show "st_tasks st' = map (\<lambda>t. if P t then f t else t) (st_tasks st)"
    using assms(2) by (auto simp: update_task_def)
  show "moved t (if P t then f t else t)" for t
    using assms(1) by (simp add: moved_def)
qed

lemma retry_row_move: "pt_status t = RUNNING \<Longrightarrow> task_move t (retry_row reason now base clock t)"
  by (cases "pt_max_attempts t \<le> pt_attempt_count t")
    (auto simp: retry_row_def same_identity_def intro: move_give_up move_retry)

lemma claim_moved: "claim_task sc token until st = (r, st') \<Longrightarrow> tasks_moved st st'"
  unfolding claim_task_def
  by (erule update_task_moved [rotated]) (auto simp: claimable_def claimed_row_def same_identity_def intro!: move_claim)

lemma extend_moved: "extend_task_lease sc token until st = Inr (b, st') \<Longrightarrow> tasks_moved st st'"
  by (auto simp: extend_task_lease_def holds_lease_def same_identity_def
      split: prod.splits option.splits intro!: move_heartbeat elim!: update_task_moved [rotated])

lemma terminal_moved:
  "status \<in> {SUCCEEDED, SUPERSEDED} \<Longrightarrow> terminal_update status sc token st = Inr (u, st') \<Longrightarrow> tasks_moved st st'"
  by (auto simp: terminal_update_def holds_lease_def same_identity_def
      split: prod.splits option.splits intro!: move_complete elim!: update_task_moved [rotated])

lemma retry_moved: "retry_or_fail sc token reason now base st = Inr (d, st') \<Longrightarrow> tasks_moved st st'"
  by (auto simp: retry_or_fail_def holds_lease_def
      split: prod.splits option.splits intro!: retry_row_move elim!: update_task_moved [rotated])

lemma reclaim_moved: "reclaim_stranded now st = (ids, st') \<Longrightarrow> tasks_moved st st'"
  by (rule tasks_moved_map [where f = "\<lambda>t. if stranded now t
           then retry_row ''lease expired; worker presumed crashed'' now reclaim_base_delay (st_clock st) t
           else t"])
    (auto simp: reclaim_stranded_def moved_def stranded_def intro: retry_row_move)

text \<open>
  A step of the system, as far as tasks are concerned: an operation of the task
  repository, or anything else, which only appends new tasks (\<open>create_task\<close>) or
  leaves the table alone.
\<close>

inductive store_step :: "store \<Rightarrow> store \<Rightarrow> bool" where
  step_claim: "claim_task sc token until st = (r, st') \<Longrightarrow> store_step st st'"
| step_extend: "extend_task_lease sc token until st = Inr (b, st') \<Longrightarrow> store_step st st'"
| step_succeed: "succeed_task sc token st = Inr (u, st') \<Longrightarrow> store_step st st'"
| step_supersede: "mark_superseded sc token st = Inr (u, st') \<Longrightarrow> store_step st st'"
| step_retry: "retry_or_fail sc token reason now base st = Inr (d, st') \<Longrightarrow> store_step st st'"
| step_reclaim: "reclaim_stranded now st = (ids, st') \<Longrightarrow> store_step st st'"
| step_create: "create_task i c v ty key payload deps st = Inr (ct, st') \<Longrightarrow> store_step st st'"
| step_other: "st_tasks st' = st_tasks st \<Longrightarrow> store_step st st'"

inductive_cases store_stepE: "store_step st st'"

lemma create_task_tasks:
  assumes "create_task i c v ty key payload deps st = Inr (ct, st')"
  shows "\<exists>new. st_tasks st' = st_tasks st @ new \<and> list_all pristine new"
proof -
  have deps: "insert_dependencies c v t ds s = Inr s' \<Longrightarrow> st_tasks s' = st_tasks s" for t ds s s'
    by (induction ds arbitrary: s) (fastforce simp: result_simps split: if_splits)+
  show ?thesis
  proof (cases "find (has_key c key) (st_tasks st)")
    case None
    with assms show ?thesis
      by (auto simp: create_task_def result_simps Let_def insert_task_ready_event_def draw_uuid_def
          pristine_def new_task_def dest!: deps)
  qed (use assms in \<open>auto simp: create_task_def\<close>)
qed

lemma store_step_moved: "store_step st st' \<Longrightarrow> tasks_moved st st'"
proof (induction rule: store_step.induct)
  case (step_create i c v ty key payload deps st ct st')
  from create_task_tasks [OF this] show ?case by (blast intro: tasks_moved_append)
qed (auto simp: succeed_task_def mark_superseded_def
    intro: claim_moved extend_moved terminal_moved retry_moved reclaim_moved tasks_moved_refl)

lemma moved_wf: "moved t t' \<Longrightarrow> task_wf t \<Longrightarrow> task_wf t'"
  by (auto simp: moved_def intro: task_move_wf)

lemma moved_id: "moved t t' \<Longrightarrow> pt_id t' = pt_id t \<and> pt_max_attempts t' = pt_max_attempts t"
  by (auto simp: moved_def same_identity_def elim!: task_moveE)

lemma pristine_wf: "pristine t \<Longrightarrow> task_wf t"
  by (simp add: pristine_def task_wf_def)

lemma tasks_moved_wf:
  assumes "tasks_moved st st'" "list_all task_wf (st_tasks st)"
  shows "list_all task_wf (st_tasks st')"
proof -
  from assms(1) obtain f new where rows: "st_tasks st' = map f (st_tasks st) @ new"
    and old: "\<forall>t\<in>set (st_tasks st). moved t (f t)" and new: "list_all pristine new"
    unfolding tasks_moved_def by blast
  from assms(2) old have "list_all task_wf (map f (st_tasks st))"
    by (metis (no_types, lifting) list.pred_map comp_apply list_all_set moved_wf)
  moreover from new have "list_all task_wf new" by (rule list.pred_mono_strong) (rule pristine_wf)
  ultimately show ?thesis unfolding rows by simp
qed

lemma tasks_moved_row:
  "tasks_moved st st' \<Longrightarrow> t \<in> set (st_tasks st) \<Longrightarrow> \<exists>t'\<in>set (st_tasks st'). moved t t'"
  by (auto simp: tasks_moved_def)

lemma tasks_moved_terminal:
  "tasks_moved st st' \<Longrightarrow> t \<in> set (st_tasks st) \<Longrightarrow> terminal_status (pt_status t) \<Longrightarrow> t \<in> set (st_tasks st')"
  using tasks_moved_row [of st st' t] task_move_not_terminal by (auto simp: moved_def)

end
