(* ===== verification/Task_Safety.thy ===== *)
theory Task_Safety
  imports Task_Leases
begin

text \<open>
  What the leases guarantee over whole executions: the invariant of the task
  table, the bound on the attempts, the fence a lease puts around a task, and the
  rows that no operation can ever move again.
\<close>

section \<open>Executions\<close>

text \<open>The primary key of \<open>public.processing_tasks\<close>.\<close>

definition task_key :: "store \<Rightarrow> bool" where
  "task_key st \<longleftrightarrow> distinct (map pt_id (st_tasks st))"

lemma task_key_unique:
  "task_key st \<Longrightarrow> t \<in> set (st_tasks st) \<Longrightarrow> u \<in> set (st_tasks st) \<Longrightarrow> pt_id t = pt_id u \<Longrightarrow> t = u"
  unfolding task_key_def by (metis inj_on_def distinct_map)

lemma reachable_wf:
  "store_step\<^sup>*\<^sup>* st st' \<Longrightarrow> list_all task_wf (st_tasks st) \<Longrightarrow> list_all task_wf (st_tasks st')"
  by (induction rule: rtranclp_induct) (blast intro: tasks_moved_wf store_step_moved)+

lemma reachable_terminal:
  "store_step\<^sup>*\<^sup>* st st' \<Longrightarrow> t \<in> set (st_tasks st) \<Longrightarrow> terminal_status (pt_status t) \<Longrightarrow> t \<in> set (st_tasks st')"
  by (induction rule: rtranclp_induct) (blast intro: tasks_moved_terminal store_step_moved)+

text \<open>An execution that counts the successful claims of one task.\<close>

inductive claim_trace :: "uuid \<Rightarrow> nat \<Rightarrow> store \<Rightarrow> store \<Rightarrow> bool" where
  trace_start: "task_key st \<Longrightarrow> claim_trace i 0 st st"
| trace_step: "claim_trace i n st st' \<Longrightarrow> store_step st' st'' \<Longrightarrow> task_key st'' \<Longrightarrow> claim_trace i n st st''"
| trace_claim: "claim_trace i n st st' \<Longrightarrow> claim_task sc token until st' = (Some t, st'') \<Longrightarrow>
    pt_id t = i \<Longrightarrow> task_key st'' \<Longrightarrow> claim_trace i (Suc n) st st''"

lemma claim_trace_steps: "claim_trace i n st st' \<Longrightarrow> store_step\<^sup>*\<^sup>* st st'"
  by (induction rule: claim_trace.induct) (blast intro: rtranclp.rtrancl_into_rtrancl step_claim)+

lemma moved_attempts: "moved t t' \<Longrightarrow> pt_attempt_count t \<le> pt_attempt_count t'"
  by (auto simp: moved_def elim!: task_moveE)

lemma claim_result:
  assumes "claim_task sc token until st = (Some t', st')"
  shows "\<exists>t\<in>set (st_tasks st). claimable st sc t \<and> t' = claimed_row token until t \<and> t' \<in> set (st_tasks st')"
proof -
  from assms obtain t where find: "find (claimable st sc) (st_tasks st) = Some t"
    and t': "t' = claimed_row token until t"
    and st': "st' = st\<lparr>st_tasks :=
      map (\<lambda>t. if claimable st sc t then claimed_row token until t else t) (st_tasks st)\<rparr>"
    unfolding claim_task_def update_task_def by blast
  from find have in_t: "t \<in> set (st_tasks st)" and P: "claimable st sc t"
    by (auto simp: find_Some_iff)
  have "t' \<in> set (st_tasks st')"
    unfolding st' t' using in_t P by (auto intro!: image_eqI [of _ _ t])
  with in_t P t' show ?thesis by blast
qed

lemma claimed_row_fields [simp]:
  "pt_id (claimed_row token until t) = pt_id t" "pt_max_attempts (claimed_row token until t) = pt_max_attempts t"
  "pt_attempt_count (claimed_row token until t) = Suc (pt_attempt_count t)"
  "pt_status (claimed_row token until t) = RUNNING" "pt_lease_token (claimed_row token until t) = Some token"
  "in_scope sc (claimed_row token until t) = in_scope sc t"
  by (simp_all add: claimed_row_def in_scope_def)

lemma claim_trace_key: "claim_trace i n st st' \<Longrightarrow> task_key st'"
  by (erule claim_trace.cases) simp_all

lemma claim_trace_attempts:
  assumes "claim_trace i n st st'" "t \<in> set (st_tasks st)" "pt_id t = i"
  shows "\<exists>t'\<in>set (st_tasks st'). pt_id t' = i \<and> pt_max_attempts t' = pt_max_attempts t \<and>
    pt_attempt_count t + n \<le> pt_attempt_count t'"
  using assms
proof (induction rule: claim_trace.induct)
  case (trace_start st i) then show ?case by auto
next
  case (trace_step i n st st' st'')
  then obtain t' where t': "t' \<in> set (st_tasks st')" "pt_id t' = i" "pt_max_attempts t' = pt_max_attempts t"
    "pt_attempt_count t + n \<le> pt_attempt_count t'" by blast
  obtain t'' where "t'' \<in> set (st_tasks st'')" "moved t' t''"
    using tasks_moved_row [OF store_step_moved [OF trace_step.hyps(2)] t'(1)] by blast
  with t' moved_id [of t' t''] moved_attempts [of t' t''] show ?case by (intro bexI [of _ t'']) auto
next
  case (trace_claim i n st st' sc token until u st'')
  then obtain t' where t': "t' \<in> set (st_tasks st')" "pt_id t' = i" "pt_max_attempts t' = pt_max_attempts t"
    "pt_attempt_count t + n \<le> pt_attempt_count t'" by blast
  from claim_result [OF trace_claim.hyps(2)] obtain r where r: "r \<in> set (st_tasks st')"
    "u = claimed_row token until r" "u \<in> set (st_tasks st'')" by blast
  have "pt_id r = pt_id t'" using r(2) trace_claim.hyps(3) t'(2) by simp
  with task_key_unique [OF claim_trace_key [OF trace_claim.hyps(1)]] r(1) t'(1) have "r = t'" by blast
  with r t' trace_claim.hyps(3) show ?case by (intro bexI [of _ u]) auto
qed

section \<open>The fence\<close>

lemma update_task_none: "(\<And>t. t \<in> set (st_tasks st) \<Longrightarrow> \<not> P t) \<Longrightarrow> update_task P f st = (None, st)"
proof -
  assume none: "\<And>t. t \<in> set (st_tasks st) \<Longrightarrow> \<not> P t"
  then have "find P (st_tasks st) = None" by (simp add: find_None_iff)
  moreover from none have "map (\<lambda>t. if P t then f t else t) (st_tasks st) = st_tasks st"
    by (simp add: map_idI)
  ultimately show ?thesis by (simp add: update_task_def)
qed

text \<open>The row of the scope is not claimable, or its lease is somebody else's.\<close>

lemma no_claim:
  "(\<And>t. t \<in> set (st_tasks st) \<Longrightarrow> \<not> claimable st sc t) \<Longrightarrow> claim_task sc token until st = (None, st)"
  unfolding claim_task_def by (rule update_task_none)

lemma no_lease:
  assumes "\<And>t. t \<in> set (st_tasks st) \<Longrightarrow> \<not> holds_lease st sc token t"
  shows "extend_task_lease sc token until st = Inl (TaskLeaseLost ''task lease is no longer owned'')"
    and "terminal_update status sc token st = Inl (TaskLeaseLost ''task lease is no longer owned'')"
    and "retry_or_fail sc token reason now base st = Inl (TaskLeaseLost ''task lease is no longer owned'')"
    and "save_checkpoint sc token seq kind schema data st =
      Inl (StaleTask ''task or document version is no longer current'')"
proof -
  have none: "update_task (holds_lease st sc token) f st = (None, st)" for f
    using assms by (rule update_task_none)
  show "extend_task_lease sc token until st = Inl (TaskLeaseLost ''task lease is no longer owned'')"
    unfolding extend_task_lease_def none by simp
  show "terminal_update status sc token st = Inl (TaskLeaseLost ''task lease is no longer owned'')"
    unfolding terminal_update_def none by simp
  show "retry_or_fail sc token reason now base st = Inl (TaskLeaseLost ''task lease is no longer owned'')"
    unfolding retry_or_fail_def none by simp
  have "find (\<lambda>t. holds_lease st sc token t \<and> case_version_of st (pt_case_id t) = Some (pt_case_version t) \<and>
      document_current st t) (st_tasks st) = None"
    using assms by (auto simp: find_None_iff)
  then show "save_checkpoint sc token seq kind schema data st =
      Inl (StaleTask ''task or document version is no longer current'')"
    unfolding save_checkpoint_def by simp
qed

lemma claimed_row_fence:
  assumes claim: "claim_task sc token until st = (Some t, st1)"
    and key: "task_key st" and same: "st_tasks st2 = st_tasks st1"
    and row: "r \<in> set (st_tasks st2)"
  shows "\<not> claimable st2 sc r" and "token' \<noteq> token \<Longrightarrow> \<not> holds_lease st2 sc token' r"
proof -
  from claim_result [OF claim] obtain q where q: "q \<in> set (st_tasks st)" "claimable st sc q" by blast
  have rows: "st_tasks st2 = map (\<lambda>t. if claimable st sc t then claimed_row token until t else t) (st_tasks st)"
    using claim unfolding same claim_task_def update_task_def by auto
  from row obtain p where p: "p \<in> set (st_tasks st)"
    and r: "r = (if claimable st sc p then claimed_row token until p else p)"
    unfolding rows by (auto simp del: if_split)
  have scope: "in_scope sc r = in_scope sc p" unfolding r by simp
  have "in_scope sc p \<Longrightarrow> p = q"
    using q(2) unfolding in_scope_def claimable_def by (intro task_key_unique [OF key p q(1)]) simp
  then have held: "in_scope sc r \<Longrightarrow> pt_status r = RUNNING \<and> pt_lease_token r = Some token"
    using q(2) unfolding scope unfolding r by simp
  show "\<not> claimable st2 sc r" using held unfolding claimable_def by force
  show "token' \<noteq> token \<Longrightarrow> \<not> holds_lease st2 sc token' r" using held unfolding holds_lease_def by force
qed

section \<open>Rows of superseded case versions\<close>

text \<open>The version of a case only grows (\<open>bump_case_version\<close>).\<close>

definition versions_grow :: "store \<Rightarrow> store \<Rightarrow> bool" where
  "versions_grow st st' \<longleftrightarrow>
     (\<forall>c v. case_version_of st c = Some v \<longrightarrow> (\<exists>v'. case_version_of st' c = Some v' \<and> v \<le> v'))"

definition outdated :: "store \<Rightarrow> processing_task \<Rightarrow> bool" where
  "outdated st t \<longleftrightarrow> t \<in> set (st_tasks st) \<and> pt_status t \<in> {PENDING, RETRY_WAIT} \<and>
     (\<exists>v. case_version_of st (pt_case_id t) = Some v \<and> pt_case_version t < v)"

lemma outdated_unclaimable: "outdated st t \<Longrightarrow> \<not> claimable st sc t"
  by (auto simp: outdated_def claimable_def)

lemma update_task_keeps:
  "t \<in> set (st_tasks st) \<Longrightarrow> \<not> P t \<Longrightarrow> t \<in> set (st_tasks (snd (update_task P f st)))"
  by (auto simp: update_task_def intro: image_eqI [of _ _ t])

lemma waiting_unleased: "pt_status t \<in> {PENDING, RETRY_WAIT} \<Longrightarrow> \<not> holds_lease st sc token t \<and> \<not> stranded now t"
  by (auto simp: holds_lease_def stranded_def)

lemma outdated_row:
  assumes step: "store_step st st'" and out: "outdated st t"
  shows "t \<in> set (st_tasks st')"
proof -
  have row: "t \<in> set (st_tasks st)" and wait: "pt_status t \<in> {PENDING, RETRY_WAIT}"
    using out by (simp_all add: outdated_def)
  note lease = waiting_unleased [OF wait]
  have keep: "t \<in> set (st_tasks s)" if "update_task P f st = (r, s)" "\<not> P t" for P f r s
    using update_task_keeps [where P = P and f = f, OF row that(2)] that(1) by simp
  have terminal: "t \<in> set (st_tasks s)" if "terminal_update status sc token st = Inr (u, s)" for status sc token u s
    using that keep lease unfolding terminal_update_def by (auto split: prod.splits option.splits)
  from step show ?thesis
  proof cases
    case (step_claim sc token until r)
    show ?thesis using keep [OF step_claim [unfolded claim_task_def] outdated_unclaimable [OF out]] .
  next
    case (step_extend sc token until b)
    with keep lease show ?thesis unfolding extend_task_lease_def by (auto split: prod.splits option.splits)
  next
    case (step_succeed sc token u)
    then show ?thesis unfolding succeed_task_def by (rule terminal)
  next
    case (step_supersede sc token u)
    then show ?thesis unfolding mark_superseded_def by (rule terminal)
  next
    case (step_retry sc token reason now base d)
    with keep lease show ?thesis unfolding retry_or_fail_def by (auto split: prod.splits option.splits)
  next
    case (step_reclaim now ids)
    with row lease show ?thesis by (auto simp: reclaim_stranded_def intro!: image_eqI [of _ _ t])
  next
    case (step_create i c v ty key payload deps ct)
    from create_task_tasks [OF this] row show ?thesis by auto
  next
    case step_other
    with row show ?thesis by simp
  qed
qed

lemma outdated_step:
  assumes "store_step st st'" "versions_grow st st'" "outdated st t"
  shows "outdated st' t"
proof -
  obtain v v' where "case_version_of st (pt_case_id t) = Some v" "pt_case_version t < v"
    "case_version_of st' (pt_case_id t) = Some v'" "v \<le> v'"
    using assms(2,3) unfolding outdated_def versions_grow_def by blast
  then show ?thesis
    using outdated_row [OF assms(1,3)] assms(3) unfolding outdated_def by (intro conjI exI [of _ v']) auto
qed

definition growing_step :: "store \<Rightarrow> store \<Rightarrow> bool" where
  "growing_step st st' \<longleftrightarrow> store_step st st' \<and> versions_grow st st'"

lemma outdated_forever: "growing_step\<^sup>*\<^sup>* st st' \<Longrightarrow> outdated st t \<Longrightarrow> outdated st' t"
  by (induction rule: rtranclp_induct) (auto simp: growing_step_def intro: outdated_step)

section \<open>Reclaiming\<close>

lemma stranded_retry: "\<not> stranded now (retry_row reason now' base clock t)"
  by (simp add: stranded_def retry_row_def)

lemma reclaim_rows:
  "reclaim_stranded now st = (ids, st') \<Longrightarrow> st_tasks st' = map (\<lambda>t. if stranded now t
     then retry_row ''lease expired; worker presumed crashed'' now reclaim_base_delay (st_clock st) t else t)
     (st_tasks st)"
  by (auto simp: reclaim_stranded_def)

section \<open>The properties of the leases\<close>

text \<open>A case with one task that has run into its second attempt.\<close>

definition lease_store :: store where
  "lease_store =
     \<lparr>st_cases = [(7, 2)], st_handoffs = [],
      st_tasks = [new_task 1 7 2 CREDIT_UNDERWRITING ''k1'' (JObj []) 50,
        (new_task 2 7 2 LEGAL_COMPLIANCE_COLLATERAL ''k2'' (JObj []) 50)\<lparr>pt_status := RUNNING, pt_attempt_count := 2,
           pt_lease_token := Some 31, pt_lease_until := Some 90\<rparr>,
        new_task 3 7 1 CREDIT_UNDERWRITING ''k3'' (JObj []) 50,
        (new_task 4 7 1 LEGAL_COMPLIANCE_COLLATERAL ''k4'' (JObj []) 50)\<lparr>pt_status := SUCCEEDED, pt_attempt_count := 1\<rparr>],
      st_gates = [], st_gaps = [], st_dependencies = [], st_outbox = [],
      st_proposals = [], st_audit = [], st_documents = [], st_checkpoints = [], st_slot = None,
      st_clock = 100, st_uuids = (\<lambda>n. 1000 + n), st_drawn = 0\<rparr>"

abbreviation first_scope :: task_scope where
  "first_scope \<equiv>
     \<lparr>sc_task_id = 1, sc_case_id = 7, sc_case_version = 2, sc_document_version_id = None\<rparr>"

lemma lease_store_ok: "list_all task_wf (st_tasks lease_store)" "task_key lease_store"
  by (simp_all add: lease_store_def task_wf_def new_task_def task_key_def)

lemma lease_store_claim:
  "\<exists>t st'. claim_task first_scope 77 400 lease_store = (Some t, st') \<and> pt_id t = 1 \<and> task_key st'"
  by (simp add: claim_task_def update_task_def lease_store_def claimable_def in_scope_def new_task_def
      document_current_def case_version_of_def task_key_def)

text \<open>
  C9: Over every execution of the task repository (claims, heartbeats, completions,
  retries, sweeps and creations in any order, successful or not), the table keeps
  its invariant: a task is leased exactly while it is RUNNING, a waiting task has
  attempts left and no task exceeds its limit; and a row in a terminal status is
  never touched again.
\<close>

theorem task_table_invariant:
  assumes "store_step\<^sup>*\<^sup>* st st'" and "list_all task_wf (st_tasks st)"
  shows "list_all task_wf (st_tasks st') \<and>
    (\<forall>t. t \<in> set (st_tasks st) \<and> terminal_status (pt_status t) \<longrightarrow> t \<in> set (st_tasks st'))"
  using reachable_wf [OF assms] reachable_terminal [OF assms(1)] by blast

theorem task_table_invariant_witness:
  "\<exists>t st'. claim_task first_scope 77 400 lease_store = (Some t, st') \<and> list_all task_wf (st_tasks st')"
proof -
  obtain t st' where claim: "claim_task first_scope 77 400 lease_store = (Some t, st')"
    using lease_store_claim by blast
  then have "store_step\<^sup>*\<^sup>* lease_store st'" by (blast intro: r_into_rtranclp step_claim)
  from task_table_invariant [OF this lease_store_ok(1)] claim show ?thesis by blast
qed

text \<open>
  No execution claims a task more often than its limit of attempts allows: after n
  successful claims of a task, n added to the attempts it had is at most its limit.
\<close>

theorem claims_bounded:
  assumes "claim_trace i n st st'" and "list_all task_wf (st_tasks st)"
    and "t \<in> set (st_tasks st)" and "pt_id t = i"
  shows "pt_attempt_count t + n \<le> pt_max_attempts t"
proof -
  obtain t' where t': "t' \<in> set (st_tasks st')" "pt_max_attempts t' = pt_max_attempts t"
    "pt_attempt_count t + n \<le> pt_attempt_count t'"
    using claim_trace_attempts [OF assms(1,3,4)] by blast
  have "task_wf t'"
    using reachable_wf [OF claim_trace_steps [OF assms(1)] assms(2)] t'(1) by (simp add: list_all_set)
  with t' show ?thesis by (simp add: task_wf_def)
qed

theorem claims_bounded_witness:
  "\<exists>st'. claim_trace 1 (Suc 0) lease_store st' \<and>
     pt_attempt_count (hd (st_tasks lease_store)) + Suc 0 \<le> pt_max_attempts (hd (st_tasks lease_store))"
proof -
  obtain t st' where claim: "claim_task first_scope 77 400 lease_store = (Some t, st')"
    and "pt_id t = 1" "task_key st'" using lease_store_claim by blast
  then have trace: "claim_trace 1 (Suc 0) lease_store st'"
    by (intro trace_claim [OF trace_start [OF lease_store_ok(2)]])
  have "hd (st_tasks lease_store) \<in> set (st_tasks lease_store)" "pt_id (hd (st_tasks lease_store)) = 1"
    by (simp_all add: lease_store_def new_task_def)
  from claims_bounded [OF trace lease_store_ok(1) this] trace show ?thesis by blast
qed

text \<open>
  C5: A lease is exclusive.  Once a claim has succeeded, and as long as nothing is written
  to the task table, whatever else happens and however the clock moves: no second claim of the
  task succeeds, with any token; and every heartbeat, completion, retry and
  checkpoint under a token other than the claimer's is refused and changes nothing.
\<close>

theorem lease_fence:
  assumes "claim_task sc token until st = (Some t, st1)" and "task_key st"
    and "st_tasks st2 = st_tasks st1" and "other \<noteq> token"
  shows "claim_task sc tok2 until2 st2 = (None, st2) \<and>
    extend_task_lease sc other until2 st2 = Inl (TaskLeaseLost ''task lease is no longer owned'') \<and>
    succeed_task sc other st2 = Inl (TaskLeaseLost ''task lease is no longer owned'') \<and>
    mark_superseded sc other st2 = Inl (TaskLeaseLost ''task lease is no longer owned'') \<and>
    retry_or_fail sc other reason now base st2 = Inl (TaskLeaseLost ''task lease is no longer owned'') \<and>
    save_checkpoint sc other seq kind schema data st2 =
      Inl (StaleTask ''task or document version is no longer current'')"
proof (intro conjI)
  note fence = claimed_row_fence [OF assms(1,2,3)]
  show "claim_task sc tok2 until2 st2 = (None, st2)" using fence(1) by (rule no_claim)
  have "t \<in> set (st_tasks st2) \<Longrightarrow> \<not> holds_lease st2 sc other t" for t
    using fence(2) assms(4) by blast
  note refused = no_lease [where st = st2 and sc = sc and token = other, OF this]
  show "extend_task_lease sc other until2 st2 = Inl (TaskLeaseLost ''task lease is no longer owned'')"
    "succeed_task sc other st2 = Inl (TaskLeaseLost ''task lease is no longer owned'')"
    "mark_superseded sc other st2 = Inl (TaskLeaseLost ''task lease is no longer owned'')"
    "retry_or_fail sc other reason now base st2 = Inl (TaskLeaseLost ''task lease is no longer owned'')"
    "save_checkpoint sc other seq kind schema data st2 =
      Inl (StaleTask ''task or document version is no longer current'')"
    unfolding succeed_task_def mark_superseded_def by (rule refused; assumption)+
qed

theorem lease_fence_witness:
  "\<exists>t st1. claim_task first_scope 77 400 lease_store = (Some t, st1) \<and>
     claim_task first_scope 78 900 (st1\<lparr>st_clock := 399\<rparr>) = (None, st1\<lparr>st_clock := 399\<rparr>)"
proof -
  obtain t st1 where claim: "claim_task first_scope 77 400 lease_store = (Some t, st1)"
    using lease_store_claim by blast
  have "st_tasks (st1\<lparr>st_clock := 399\<rparr>) = st_tasks st1" by simp
  from lease_fence [OF claim lease_store_ok(2) this, of 78 78 900] claim show ?thesis by auto
qed

text \<open>
  The recovery sweep leaves no task stranded: it returns exactly the RUNNING
  tasks whose lease has run out, touches no other row, and moves each of them to
  manual review when its attempts are used up, and otherwise to RETRY_WAIT with the
  backoff of 30 seconds doubled for every attempt after the first.
\<close>

theorem reclaim_complete:
  assumes "reclaim_stranded now st = (ids, st')"
  shows "list_all (\<lambda>t. \<not> stranded now t) (st_tasks st') \<and>
    ids = map pt_id (filter (stranded now) (st_tasks st)) \<and>
    list_all2 (\<lambda>t t'. if stranded now t
        then pt_lease_token t' = None \<and> pt_attempt_count t' = pt_attempt_count t \<and>
          (if pt_max_attempts t \<le> pt_attempt_count t then pt_status t' = FAILED_MANUAL_REVIEW
           else pt_status t' = RETRY_WAIT \<and> pt_available_at t' = now + 30 * 2 ^ (pt_attempt_count t - 1))
        else t' = t) (st_tasks st) (st_tasks st')"
proof (intro conjI)
  show "list_all (\<lambda>t. \<not> stranded now t) (st_tasks st')"
    unfolding reclaim_rows [OF assms] by (auto simp: list_all_set stranded_retry)
  show "ids = map pt_id (filter (stranded now) (st_tasks st))"
    using assms by (simp add: reclaim_stranded_def)
qed (simp add: reclaim_rows [OF assms] list.rel_map list.rel_refl retry_row_def reclaim_base_delay_def)

theorem reclaim_complete_witness:
  "fst (reclaim_stranded 95 lease_store) = [2] \<and>
     list_all (\<lambda>t. \<not> stranded 95 t) (st_tasks (snd (reclaim_stranded 95 lease_store)))"
  using reclaim_complete [of 95 lease_store "fst (reclaim_stranded 95 lease_store)"
      "snd (reclaim_stranded 95 lease_store)"]
  by (simp add: lease_store_def stranded_def new_task_def)

text \<open>
  A waiting task of a case version that is no longer current is never moved
  again: as long as case versions do not decrease, every execution leaves its row
  as it is, and no claim takes it.  (It is never claimed, so it never becomes
  terminal either.)
\<close>

theorem outdated_task_stuck:
  assumes "growing_step\<^sup>*\<^sup>* st st'" and "outdated st t"
  shows "t \<in> set (st_tasks st') \<and> \<not> terminal_status (pt_status t) \<and> \<not> claimable st' sc t"
  using outdated_forever [OF assms] outdated_unclaimable by (auto simp: outdated_def)

theorem outdated_task_stuck_witness:
  "\<exists>t. t \<in> set (st_tasks (snd (reclaim_stranded 95 lease_store))) \<and> pt_id t = 3 \<and>
     \<not> claimable (snd (reclaim_stranded 95 lease_store))
        \<lparr>sc_task_id = 3, sc_case_id = 7, sc_case_version = 1, sc_document_version_id = None\<rparr> t"
proof -
  define t where "t = new_task 3 7 1 CREDIT_UNDERWRITING ''k3'' (JObj []) 50"
  have "growing_step lease_store (snd (reclaim_stranded 95 lease_store))"
    unfolding growing_step_def versions_grow_def
    by (auto simp: case_version_of_def reclaim_stranded_def lease_store_def
        intro!: step_reclaim [where now = 95])
  then have "growing_step\<^sup>*\<^sup>* lease_store (snd (reclaim_stranded 95 lease_store))" by blast
  moreover have "outdated lease_store t" "pt_id t = 3"
    by (simp_all add: outdated_def t_def lease_store_def case_version_of_def new_task_def)
  ultimately show ?thesis using outdated_task_stuck by blast
qed

end
