(* ===== verification/Dispatch.thy ===== *)
theory Dispatch
  imports Case_Store
begin

text \<open>
  \<open>DispatchOutbox\<close> (\<open>application/use_cases/dispatch_outbox.py\<close>) on the outbox table
  of the store.  The validation of a payload, the queue and the worker
  dispatcher are parameters.
\<close>

section \<open>The use case\<close>

datatype queue_error = QueueError string

record dispatch_result =
  dr_dispatched :: nat
  dr_failed :: nat
  dr_worker_requested :: bool

datatype ('s, 'q) dispatch_run =
  DispatchRun (run_dispatched: nat) (run_failed: nat) (run_store: 's) (run_queue: 'q)

definition task_ready_event :: string where
  "task_ready_event = ''TASK_READY''"

text \<open>
  One event: an unknown type, a payload that does not validate and a failed send
  are counted and recorded, the event stays undispatched; after a send the event
  is marked.  \<open>send\<close> is \<open>queue.send\<close> with its default delay.
\<close>

definition dispatch_one ::
  "(json \<Rightarrow> task_envelope option) \<Rightarrow> (task_envelope \<Rightarrow> ('q, queue_error, nat) act) \<Rightarrow>
   outbox_event \<Rightarrow> store \<Rightarrow> 'q \<Rightarrow> bool \<times> store \<times> 'q" where
  "dispatch_one decode send e st q =
     (if ob_event_type e \<noteq> task_ready_event
      then (False, record_outbox_dispatch_failure (ob_event_id e) st, q)
      else case decode (ob_payload e) of
        None \<Rightarrow> (False, record_outbox_dispatch_failure (ob_event_id e) st, q)
      | Some env \<Rightarrow>
          (case send env q of
             (Inl err, q') \<Rightarrow> (False, record_outbox_dispatch_failure (ob_event_id e) st, q')
           | (Inr i, q') \<Rightarrow> (True, mark_outbox_dispatched (ob_event_id e) st, q')))"

fun dispatch_events ::
  "(json \<Rightarrow> task_envelope option) \<Rightarrow> (task_envelope \<Rightarrow> ('q, queue_error, nat) act) \<Rightarrow>
   outbox_event list \<Rightarrow> nat \<Rightarrow> nat \<Rightarrow> store \<Rightarrow> 'q \<Rightarrow> (store, 'q) dispatch_run" where
  "dispatch_events decode send [] dispatched failed st q = DispatchRun dispatched failed st q"
| "dispatch_events decode send (e # es) dispatched failed st q =
     (case dispatch_one decode send e st q of (ok, st', q') \<Rightarrow>
        if ok then dispatch_events decode send es (Suc dispatched) failed st' q'
        else dispatch_events decode send es dispatched (Suc failed) st' q')"

text \<open>
  \<open>worker\<close> is the outcome of \<open>request_execution\<close>: no dispatcher, a
  \<open>WorkerDispatchError\<close>, or whether the execution was accepted.
\<close>

definition dispatch_outbox ::
  "(json \<Rightarrow> task_envelope option) \<Rightarrow> (task_envelope \<Rightarrow> ('q, queue_error, nat) act) \<Rightarrow> nat \<Rightarrow>
   (unit + bool) option \<Rightarrow> store \<Rightarrow> 'q \<Rightarrow> dispatch_result \<times> store \<times> 'q" where
  "dispatch_outbox decode send batch_limit worker st q =
     (let r = dispatch_events decode send (load_undispatched_outbox batch_limit st) 0 0 st q in
      (\<lparr>dr_dispatched = run_dispatched r, dr_failed = run_failed r,
        dr_worker_requested =
          (run_dispatched r > 0 \<and> (case worker of Some (Inr accepted) \<Rightarrow> accepted | _ \<Rightarrow> False))\<rparr>,
       run_store r, run_queue r))"

section \<open>What a run does to the outbox\<close>

definition undispatched :: "store \<Rightarrow> uuid set" where
  "undispatched st = set (map ob_event_id (filter (\<lambda>e. ob_dispatched_at e = None) (st_outbox st)))"

definition outbox_core :: "outbox_event \<Rightarrow> uuid \<times> uuid \<times> int \<times> string \<times> uuid \<times> json \<times> datetime" where
  "outbox_core e =
     (ob_event_id e, ob_case_id e, ob_case_version e, ob_event_type e, ob_aggregate_id e, ob_payload e,
      ob_created_at e)"

lemma outbox_core_mark [simp]:
  "map outbox_core (st_outbox (mark_outbox_dispatched i st)) = map outbox_core (st_outbox st)"
  by (simp add: mark_outbox_dispatched_def outbox_core_def o_def if_distrib cong: if_cong)

lemma outbox_core_failure [simp]:
  "map outbox_core (st_outbox (record_outbox_dispatch_failure i st)) = map outbox_core (st_outbox st)"
  by (simp add: record_outbox_dispatch_failure_def outbox_core_def o_def if_distrib cong: if_cong)

lemma undispatched_mark [simp]: "undispatched (mark_outbox_dispatched i st) = undispatched st - {i}"
proof -
  have "set (map ob_event_id (filter (\<lambda>e. ob_dispatched_at e = None)
      (map (\<lambda>e. if ob_event_id e = i \<and> ob_dispatched_at e = None
                then e\<lparr>ob_dispatched_at := Some t\<rparr> else e) es))) =
    set (map ob_event_id (filter (\<lambda>e. ob_dispatched_at e = None) es)) - {i}" for t es
    by (induction es) auto
  then show ?thesis by (simp add: undispatched_def mark_outbox_dispatched_def)
qed

lemma undispatched_failure [simp]:
  "undispatched (record_outbox_dispatch_failure i st) = undispatched st"
proof -
  have "set (map ob_event_id (filter (\<lambda>e. ob_dispatched_at e = None)
      (map (\<lambda>e. if ob_event_id e = i \<and> ob_dispatched_at e = None
                then e\<lparr>ob_dispatch_attempts := Suc (ob_dispatch_attempts e)\<rparr> else e) es))) =
    set (map ob_event_id (filter (\<lambda>e. ob_dispatched_at e = None) es))" for es
    by (induction es) auto
  then show ?thesis by (simp add: undispatched_def record_outbox_dispatch_failure_def)
qed

lemma only_outbox:
  "\<exists>ob. mark_outbox_dispatched i st = st\<lparr>st_outbox := ob\<rparr>"
  "\<exists>ob. record_outbox_dispatch_failure i st = st\<lparr>st_outbox := ob\<rparr>"
  by (auto simp: mark_outbox_dispatched_def record_outbox_dispatch_failure_def)

definition sendable :: "(json \<Rightarrow> task_envelope option) \<Rightarrow> outbox_event \<Rightarrow> bool" where
  "sendable decode e \<longleftrightarrow> ob_event_type e = task_ready_event \<and> decode (ob_payload e) \<noteq> None"

text \<open>
  \<open>delivered\<close> lists the envelopes a queue has accepted; a send appends to it when
  it returns and leaves it alone when it raises.
\<close>

definition delivers :: "(task_envelope \<Rightarrow> ('q, queue_error, nat) act) \<Rightarrow> ('q \<Rightarrow> task_envelope list) \<Rightarrow> bool" where
  "delivers send delivered \<longleftrightarrow>
     (\<forall>e q. case send e q of (Inr i, q') \<Rightarrow> delivered q' = delivered q @ [e]
                           | (Inl err, q') \<Rightarrow> delivered q' = delivered q)"

lemma dispatch_one_cases:
  assumes "delivers send delivered" "dispatch_one decode send e st q = (ok, st', q')"
  shows "if ok then sendable decode e \<and> st' = mark_outbox_dispatched (ob_event_id e) st \<and>
           delivered q' = delivered q @ [the (decode (ob_payload e))]
         else st' = record_outbox_dispatch_failure (ob_event_id e) st \<and> delivered q' = delivered q"
proof -
  have law: "send env q = (Inr i, q2) \<Longrightarrow> delivered q2 = delivered q @ [env]"
    "send env q = (Inl err, q2) \<Longrightarrow> delivered q2 = delivered q" for env i err q2
    using assms(1) unfolding delivers_def by (metis (mono_tags, lifting) old.prod.case old.sum.simps(5,6))+
  show ?thesis using assms(2)
    by (auto simp: dispatch_one_def sendable_def dest: law
        split: if_splits option.splits prod.splits sum.splits)
qed

lemma dispatch_events_spec:
  assumes "delivers send delivered"
  shows "dispatch_events decode send es d f st q = DispatchRun d' f' st' q' \<Longrightarrow>
    distinct (map ob_event_id es) \<Longrightarrow> ob_event_id ` set es \<subseteq> undispatched st \<Longrightarrow>
    map outbox_core (st_outbox st') = map outbox_core (st_outbox st) \<and>
    (\<exists>ob. st' = st\<lparr>st_outbox := ob\<rparr>) \<and> d' + f' = d + f + length es \<and>
    (\<exists>sent. set sent \<subseteq> set es \<and> distinct (map ob_event_id sent) \<and> list_all (sendable decode) sent \<and>
       d' = d + length sent \<and>
       delivered q' = delivered q @ map (\<lambda>e. the (decode (ob_payload e))) sent \<and>
       undispatched st' = undispatched st - ob_event_id ` set sent)"
proof (induction es arbitrary: d f st q)
  case Nil
  then show ?case by (auto intro!: exI [of _ "[]"] exI [of _ "st_outbox st'"])
next
  case (Cons e es)
  obtain ok st1 q1 where one: "dispatch_one decode send e st q = (ok, st1, q1)" by (metis prod_cases3)
  note step = dispatch_one_cases [OF assms one]
  have dist: "distinct (map ob_event_id es)" using Cons.prems(2) by simp
  show ?case
  proof (cases ok)
    case True
    with step have st1: "st1 = mark_outbox_dispatched (ob_event_id e) st" and
      q1: "delivered q1 = delivered q @ [the (decode (ob_payload e))]" and ok: "sendable decode e" by simp_all
    have sub: "ob_event_id ` set es \<subseteq> undispatched st1" using Cons.prems(2,3) by (simp add: st1 subset_Diff_insert)
    have "dispatch_events decode send es (Suc d) f st1 q1 = DispatchRun d' f' st' q'"
      using Cons.prems(1) one True by simp
    note IH = Cons.IH [OF this dist sub]
    from IH obtain sent where sent: "set sent \<subseteq> set es" "distinct (map ob_event_id sent)"
      "list_all (sendable decode) sent" "d' = Suc d + length sent"
      "delivered q' = delivered q1 @ map (\<lambda>e. the (decode (ob_payload e))) sent"
      "undispatched st' = undispatched st1 - ob_event_id ` set sent" by blast
    have "ob_event_id e \<notin> ob_event_id ` set sent" using sent(1) Cons.prems(2) by auto
    then have "distinct (map ob_event_id (e # sent))" using sent(2) by simp
    moreover have "undispatched st' = undispatched st - ob_event_id ` set (e # sent)"
      using sent(6) by (auto simp: st1)
    moreover have "\<exists>ob. st' = st\<lparr>st_outbox := ob\<rparr>"
      using IH only_outbox(1) [of "ob_event_id e" st] by (auto simp: st1)
    moreover have "set (e # sent) \<subseteq> set (e # es)" "list_all (sendable decode) (e # sent)"
      "d' = d + length (e # sent)"
      "delivered q' = delivered q @ map (\<lambda>e. the (decode (ob_payload e))) (e # sent)"
      using sent ok q1 by auto
    moreover have "map outbox_core (st_outbox st') = map outbox_core (st_outbox st)"
      "d' + f' = d + f + length (e # es)" using IH by (simp_all add: st1)
    ultimately show ?thesis by blast
  next
    case False
    with step have st1: "st1 = record_outbox_dispatch_failure (ob_event_id e) st" and
      q1: "delivered q1 = delivered q" by simp_all
    have sub: "ob_event_id ` set es \<subseteq> undispatched st1" using Cons.prems(3) by (simp add: st1)
    have "dispatch_events decode send es d (Suc f) st1 q1 = DispatchRun d' f' st' q'"
      using Cons.prems(1) one False by simp
    note IH = Cons.IH [OF this dist sub]
    from IH obtain sent where "set sent \<subseteq> set (e # es)" "distinct (map ob_event_id sent)"
      "list_all (sendable decode) sent" "d' = d + length sent"
      "delivered q' = delivered q @ map (\<lambda>e. the (decode (ob_payload e))) sent"
      "undispatched st' = undispatched st - ob_event_id ` set sent"
      by (auto simp: st1 q1)
    moreover have "map outbox_core (st_outbox st') = map outbox_core (st_outbox st)"
      "d' + f' = d + f + length (e # es)" using IH by (simp_all add: st1)
    moreover have "\<exists>ob. st' = st\<lparr>st_outbox := ob\<rparr>"
      using IH only_outbox(2) [of "ob_event_id e" st] by (auto simp: st1)
    ultimately show ?thesis by blast
  qed
qed

lemma load_undispatched_props:
  assumes "distinct (map ob_event_id (st_outbox st))"
  shows "distinct (map ob_event_id (load_undispatched_outbox limit st))"
    "ob_event_id ` set (load_undispatched_outbox limit st) \<subseteq> undispatched st"
    "set (load_undispatched_outbox limit st) \<subseteq> {e \<in> set (st_outbox st). ob_dispatched_at e = None}"
    "length (load_undispatched_outbox limit st) = min limit (card (undispatched st))"
proof -
  let ?pending = "filter (\<lambda>e. ob_dispatched_at e = None) (st_outbox st)"
  let ?sorted = "sort_key (\<lambda>e. (ob_created_at e, ob_event_id e)) ?pending"
  have d: "distinct (map ob_event_id ?pending)" using assms by (rule distinct_map_filter)
  then have "distinct (map ob_event_id ?sorted)"
    by (simp add: distinct_map)
  then show "distinct (map ob_event_id (load_undispatched_outbox limit st))"
    unfolding load_undispatched_outbox_def by (metis distinct_take take_map)
  show sub: "set (load_undispatched_outbox limit st) \<subseteq> {e \<in> set (st_outbox st). ob_dispatched_at e = None}"
    by (auto simp: load_undispatched_outbox_def dest: in_set_takeD)
  then show "ob_event_id ` set (load_undispatched_outbox limit st) \<subseteq> undispatched st"
    by (auto simp: undispatched_def)
  have "card (undispatched st) = length ?pending"
    using distinct_card [OF d] by (simp add: undispatched_def)
  then show "length (load_undispatched_outbox limit st) = min limit (card (undispatched st))"
    by (simp add: load_undispatched_outbox_def min.commute)
qed

lemma dispatch_events_all_sent:
  assumes "\<And>env q. \<exists>i q'. send env q = (Inr i, q')"
  shows "list_all (sendable decode) es \<Longrightarrow> run_failed (dispatch_events decode send es d f st q) = f"
proof (induction es arbitrary: d st q)
  case (Cons e es)
  then obtain env where env: "decode (ob_payload e) = Some env" "ob_event_type e = task_ready_event"
    by (auto simp: sendable_def)
  obtain i q' where "send env q = (Inr i, q')" using assms by blast
  with env have "dispatch_one decode send e st q = (True, mark_outbox_dispatched (ob_event_id e) st, q')"
    by (simp add: dispatch_one_def)
  with Cons show ?case by simp
qed simp

section \<open>Properties\<close>

text \<open>
  One run of the dispatcher publishes at least once and loses nothing: it
  handles the \<open>batch_limit\<close> oldest undispatched events, each counted as dispatched
  or failed; an event stops being undispatched only when its decoded envelope
  has been accepted by the queue, in order; no event is deleted or altered in
  any column but the bookkeeping.
\<close>

theorem dispatch_outbox_publishes:
  assumes "delivers send delivered" and "distinct (map ob_event_id (st_outbox st))"
    and "dispatch_outbox decode send limit worker st q = (r, st', q')"
  shows "map outbox_core (st_outbox st') = map outbox_core (st_outbox st) \<and>
    (\<exists>ob. st' = st\<lparr>st_outbox := ob\<rparr>) \<and>
    dr_dispatched r + dr_failed r = min limit (card (undispatched st)) \<and>
    (\<exists>sent. set sent \<subseteq> set (st_outbox st) \<and> list_all (sendable decode) sent \<and>
       distinct (map ob_event_id sent) \<and> dr_dispatched r = length sent \<and>
       delivered q' = delivered q @ map (\<lambda>e. the (decode (ob_payload e))) sent \<and>
       undispatched st' = undispatched st - ob_event_id ` set sent)"
proof -
  let ?es = "load_undispatched_outbox limit st"
  note loaded = load_undispatched_props [OF assms(2), of limit]
  obtain d f st1 q1 where run: "dispatch_events decode send ?es 0 0 st q = DispatchRun d f st1 q1"
    using dispatch_run.exhaust by blast
  with assms(3) have r: "dr_dispatched r = d" "dr_failed r = f" "st' = st1" "q' = q1"
    by (auto simp: dispatch_outbox_def)
  from dispatch_events_spec [OF assms(1) run loaded(1,2)] loaded(3,4) show ?thesis
    unfolding r by auto
qed

text \<open>
  When every undispatched event is well formed and the queue accepts every
  send, a run dispatches the whole batch: \<open>limit\<close> events fewer are left, and none
  once the batch covers them.
\<close>

theorem dispatch_outbox_progress:
  assumes "delivers send delivered" and "\<forall>env q. \<exists>i q'. send env q = (Inr i, q')"
    and "distinct (map ob_event_id (st_outbox st))"
    and "\<forall>e\<in>set (st_outbox st). ob_dispatched_at e = None \<longrightarrow> sendable decode e"
    and "dispatch_outbox decode send limit worker st q = (r, st', q')"
  shows "dr_failed r = 0 \<and> card (undispatched st') = card (undispatched st) - limit"
proof -
  let ?es = "load_undispatched_outbox limit st"
  note loaded = load_undispatched_props [OF assms(3), of limit]
  obtain d f st1 q1 where run: "dispatch_events decode send ?es 0 0 st q = DispatchRun d f st1 q1"
    using dispatch_run.exhaust by blast
  with assms(5) have r: "dr_failed r = f" "st' = st1"
    by (auto simp: dispatch_outbox_def)
  have "list_all (sendable decode) ?es" using loaded(3) assms(4) by (auto simp: list_all_set)
  then have "run_failed (dispatch_events decode send ?es 0 0 st q) = 0"
    using assms(2) by (intro dispatch_events_all_sent) blast
  with run have f: "f = 0" by simp
  from dispatch_events_spec [OF assms(1) run loaded(1,2)] obtain sent where
    "d + f = length ?es" "d = length sent" "set sent \<subseteq> set ?es" "distinct (map ob_event_id sent)"
    and left: "undispatched st1 = undispatched st - ob_event_id ` set sent" by auto
  moreover from this f have "card (ob_event_id ` set sent) = length ?es"
    by (metis add.right_neutral distinct_card length_map list.set_map)
  moreover have "ob_event_id ` set sent \<subseteq> undispatched st" using calculation(3) loaded(2) by blast
  ultimately have "card (undispatched st1) = card (undispatched st) - length ?es"
    by (simp add: card_Diff_subset)
  then show ?thesis using r f loaded(4) by simp
qed

definition sample_outbox :: store where
  "sample_outbox =
     \<lparr>st_cases = [(7, 1)], st_handoffs = [], st_tasks = [], st_gates = [], st_gaps = [],
      st_dependencies = [],
      st_outbox = [\<lparr>ob_event_id = 31, ob_case_id = 7, ob_case_version = 1, ob_event_type = ''TASK_READY'',
        ob_aggregate_id = 9, ob_payload = envelope_dump \<lparr>te_task_id = 9, te_case_id = 7,
          te_case_version = 1, te_task_type = CREDIT_UNDERWRITING, te_document_version_id = None\<rparr>,
        ob_created_at = 100, ob_dispatch_attempts = 0, ob_dispatched_at = None\<rparr>],
      st_proposals = [], st_audit = [], st_documents = [], st_checkpoints = [], st_slot = None,
      st_clock = 100, st_uuids = (\<lambda>n. 1000 + n), st_drawn = 0\<rparr>"

definition sample_decode :: "json \<Rightarrow> task_envelope option" where
  "sample_decode j =
     (let e = \<lparr>te_task_id = 9, te_case_id = 7, te_case_version = 1, te_task_type = CREDIT_UNDERWRITING,
               te_document_version_id = None\<rparr>
      in if j = envelope_dump e then Some e else None)"

definition sample_send :: "task_envelope \<Rightarrow> (task_envelope list, queue_error, nat) act" where
  "sample_send e q = (Inr (Suc (length q)), q @ [e])"

theorem dispatch_outbox_publishes_witness:
  "case dispatch_outbox sample_decode sample_send 32 None sample_outbox [] of (r, st', q') \<Rightarrow>
     dr_dispatched r + dr_failed r = 1"
proof -
  obtain r st' q' where run: "dispatch_outbox sample_decode sample_send 32 None sample_outbox [] = (r, st', q')"
    by (metis prod_cases3)
  have "delivers sample_send (\<lambda>q. q)" by (simp add: delivers_def sample_send_def)
  moreover have "distinct (map ob_event_id (st_outbox sample_outbox))" by (simp add: sample_outbox_def)
  moreover have "undispatched sample_outbox = {31}" by (simp add: undispatched_def sample_outbox_def)
  ultimately show ?thesis using dispatch_outbox_publishes [OF _ _ run] run by fastforce
qed

theorem dispatch_outbox_progress_witness:
  "case dispatch_outbox sample_decode sample_send 32 None sample_outbox [] of (r, st', q') \<Rightarrow>
     dr_failed r = 0 \<and> card (undispatched st') = 0"
proof -
  obtain r st' q' where run: "dispatch_outbox sample_decode sample_send 32 None sample_outbox [] = (r, st', q')"
    by (metis prod_cases3)
  have "delivers sample_send (\<lambda>q. q)" by (simp add: delivers_def sample_send_def)
  moreover have "\<forall>env q. \<exists>i q'. sample_send env q = (Inr i, q')" by (simp add: sample_send_def)
  moreover have "distinct (map ob_event_id (st_outbox sample_outbox))" by (simp add: sample_outbox_def)
  moreover have "\<forall>e\<in>set (st_outbox sample_outbox). ob_dispatched_at e = None \<longrightarrow> sendable sample_decode e"
    by (simp add: sample_outbox_def sendable_def sample_decode_def task_ready_event_def Let_def)
  moreover have "undispatched sample_outbox = {31}" by (simp add: undispatched_def sample_outbox_def)
  ultimately show ?thesis using dispatch_outbox_progress [OF _ _ _ _ run] run by fastforce
qed

end
