(* ===== verification/Worker.thy ===== *)
theory Worker
  imports Task_Safety Dispatch
begin

text \<open>
  \<open>RunWorkerOnce\<close> (\<open>application/use_cases/run_worker_once.py\<close>) on the task table and a
  queue, and the queue adapter \<open>SupabaseQueue\<close>
  (\<open>infrastructure/supabase/queue.py\<close>) over the functions of the PGMQ extension,
  which are parameters.

  Between any two transactions of the worker the rest of the system may act on the
  store: \<open>we_others\<close> gives what happens before the n-th transaction.  A processor is
  the sequence of the calls it makes, interleaved with the heartbeats that fire
  while it runs; it can depend on the task and on the checkpoint it is given, and
  a sequence that ends without a result is a worker that died.
\<close>

section \<open>The queue\<close>


record queue_message =
  qm_message_id :: int
  qm_read_count :: int
  qm_enqueued_at :: datetime
  qm_visible_at :: datetime
  qm_envelope :: task_envelope

record 'q queue_port =
  qp_send :: "task_envelope \<Rightarrow> int \<Rightarrow> ('q, queue_error, int) act"
  qp_read_one :: "int \<Rightarrow> ('q, queue_error, queue_message option) act"
  qp_extend_visibility :: "int \<Rightarrow> int \<Rightarrow> ('q, queue_error, unit) act"
  qp_archive :: "int \<Rightarrow> ('q, queue_error, unit) act"

text \<open>
  The functions of PGMQ on a queue, and the validation of a message as an
  envelope (an error text otherwise).  A row of \<open>pgmq.read\<close> is the message id, the
  read count, the two time stamps and the message; a message that is not an object
  is given as \<open>None\<close>.
\<close>

record 'q pgmq =
  pg_send :: "task_envelope \<Rightarrow> int \<Rightarrow> 'q \<Rightarrow> int option \<times> 'q"
  pg_read :: "int \<Rightarrow> 'q \<Rightarrow> (int \<times> int \<times> datetime \<times> datetime \<times> json option) option \<times> 'q"
  pg_set_vt :: "int \<Rightarrow> int \<Rightarrow> 'q \<Rightarrow> bool option \<times> 'q"
  pg_archive :: "int \<Rightarrow> 'q \<Rightarrow> bool option \<times> 'q"
  pg_decode :: "json \<Rightarrow> task_envelope option"

definition max_delay :: int where
  "max_delay = 86400"

definition queue_send :: "'q pgmq \<Rightarrow> task_envelope \<Rightarrow> int \<Rightarrow> ('q, queue_error, int) act" where
  "queue_send pg env delay q =
     (if delay < 0 \<or> max_delay < delay
      then (Inl (QueueError ''queue delay is outside the bounded contract''), q)
      else case pg_send pg env delay q of
        (None, q') \<Rightarrow> (Inl (QueueError ''PGMQ did not return a message identifier''), q')
      | (Some i, q') \<Rightarrow> (Inr i, q'))"

definition queue_read_one :: "'q pgmq \<Rightarrow> int \<Rightarrow> ('q, queue_error, queue_message option) act" where
  "queue_read_one pg timeout q =
     (if timeout \<le> 0 \<or> max_delay < timeout
      then (Inl (QueueError ''queue visibility timeout is outside the bounded contract''), q)
      else case pg_read pg timeout q of
        (None, q') \<Rightarrow> (Inr None, q')
      | (Some (i, count, enqueued, visible, message), q') \<Rightarrow>
          (case message of
             None \<Rightarrow> (Inl (QueueError ''PGMQ message is not a JSON object''), q')
           | Some j \<Rightarrow>
               (case pg_decode pg j of
                  None \<Rightarrow> (Inl (QueueError ''PGMQ message does not match TaskEnvelopeV1''), q')
                | Some env \<Rightarrow>
                    (Inr (Some \<lparr>qm_message_id = i, qm_read_count = count, qm_enqueued_at = enqueued,
                                qm_visible_at = visible, qm_envelope = env\<rparr>), q'))))"

definition queue_extend_visibility :: "'q pgmq \<Rightarrow> int \<Rightarrow> int \<Rightarrow> ('q, queue_error, unit) act" where
  "queue_extend_visibility pg message_id timeout q =
     (if message_id \<le> 0 \<or> timeout \<le> 0 \<or> max_delay < timeout
      then (Inl (QueueError ''queue visibility extension is outside the bounded contract''), q)
      else case pg_set_vt pg message_id timeout q of
        (Some False, q') \<Rightarrow> (Inl (QueueError ''PGMQ visibility extension was rejected''), q')
      | (_, q') \<Rightarrow> (Inr (), q'))"

definition queue_archive :: "'q pgmq \<Rightarrow> int \<Rightarrow> ('q, queue_error, unit) act" where
  "queue_archive pg message_id q =
     (if message_id \<le> 0 then (Inl (QueueError ''queue message identifier is invalid''), q)
      else case pg_archive pg message_id q of
        (Some False, q') \<Rightarrow> (Inl (QueueError ''PGMQ archive was rejected''), q')
      | (_, q') \<Rightarrow> (Inr (), q'))"

definition supabase_queue :: "'q pgmq \<Rightarrow> 'q queue_port" where
  "supabase_queue pg =
     \<lparr>qp_send = queue_send pg, qp_read_one = queue_read_one pg,
      qp_extend_visibility = queue_extend_visibility pg, qp_archive = queue_archive pg\<rparr>"

section \<open>Enqueueing a task\<close>

datatype enqueue_error = TaskEnqueueError string | EnqueueQueueError queue_error

definition no_actor :: "uuid \<Rightarrow> uuid \<Rightarrow> bool" where
  "no_actor c a \<longleftrightarrow> False"

definition enqueue_task ::
  "'q queue_port \<Rightarrow> task_envelope \<Rightarrow> int \<Rightarrow> store \<Rightarrow> ('q, enqueue_error, uuid \<times> int) act" where
  "enqueue_task qp env delay st =
     (if delay < 0 \<or> max_delay < delay
      then raise (TaskEnqueueError ''queue delay is outside the bounded contract'')
      else case get_task no_actor (te_task_id env) (Some (te_case_id env)) None st of
        None \<Rightarrow> raise (TaskEnqueueError ''task is not durable or is outside the case scope'')
      | Some t \<Rightarrow>
          if pt_case_version t \<noteq> te_case_version env \<or>
             pt_document_version_id t \<noteq> te_document_version_id env
          then raise (TaskEnqueueError ''queue envelope does not match the durable task version'')
          else and_then (on_error EnqueueQueueError (qp_send qp env delay)) (\<lambda>i.
               ret (te_task_id env, i)))"

section \<open>The worker\<close>

datatype worker_outcome =
    NoSlot | NoMessage | Succeeded | Superseded | RetryWait | FailedManualReview | Stale

record stage_result =
  sr_status :: worker_outcome
  sr_reason :: string

record worker_run_result =
  wr_outcome :: worker_outcome
  wr_task_id :: "uuid option"
  wr_message_id :: "int option"
  wr_reason :: "string option"
  wr_case_id :: "uuid option"
  wr_task_type :: "task_type option"

text \<open>
  An exception of the run: the two fencing exceptions, any other with its type and
  text, and the death of the worker, which no handler sees.
\<close>

datatype worker_exn = StaleTaskExn | LeaseLostExn | OtherExn string | WorkerDied

datatype run_failure = WorkerRunError string | Escaped worker_exn | RunDied

datatype processor_event =
    SaveCheckpoint string json
  | Heartbeat bool
  | StageReturns stage_result
  | StageRaises worker_exn

record 'q worker_world =
  ww_store :: store
  ww_queue :: 'q
  ww_ticks :: nat
  ww_message :: "queue_message option"
  ww_latest :: "task_checkpoint option"

record 'q worker_env =
  we_worker_id :: uuid
  we_lease_token :: uuid
  we_clock :: "store \<Rightarrow> datetime"
  we_slot_lease :: int
  we_visibility :: int
  we_retry_base :: int
  we_queue_port :: "'q queue_port"
  we_others :: "nat \<Rightarrow> store \<Rightarrow> store"
  we_process :: "processing_task \<Rightarrow> task_checkpoint option \<Rightarrow> processor_event list"

type_synonym ('q, 'a) worker_act = "('q worker_world, worker_exn, 'a) act"

fun task_exn :: "task_error \<Rightarrow> worker_exn" where
  "task_exn (StaleTask m) = StaleTaskExn"
| "task_exn (TaskLeaseLost m) = LeaseLostExn"
| "task_exn (TaskDatabaseError m) = OtherExn m"

fun queue_exn :: "queue_error \<Rightarrow> worker_exn" where
  "queue_exn (QueueError m) = OtherExn (''QueueError: '' @ m)"

text \<open>A transaction on the store, after what the others did before it.\<close>

definition in_store :: "'q worker_env \<Rightarrow> (store \<Rightarrow> task_error + 'a \<times> store) \<Rightarrow> ('q, 'a) worker_act" where
  "in_store env op w =
     (let st = we_others env (ww_ticks w) (ww_store w);
          w' = w\<lparr>ww_store := st, ww_ticks := Suc (ww_ticks w)\<rparr>
      in case op st of
        Inl e \<Rightarrow> (Inl (task_exn e), w')
      | Inr (x, st') \<Rightarrow> (Inr x, w'\<lparr>ww_store := st'\<rparr>))"

definition on_queue :: "('q, queue_error, 'a) act \<Rightarrow> ('q, 'a) worker_act" where
  "on_queue op w =
     (case op (ww_queue w) of
        (Inl e, q) \<Rightarrow> (Inl (queue_exn e), w\<lparr>ww_queue := q\<rparr>)
      | (Inr x, q) \<Rightarrow> (Inr x, w\<lparr>ww_queue := q\<rparr>))"

definition set_message :: "queue_message option \<Rightarrow> ('q, unit) worker_act" where
  "set_message m w = (Inr (), w\<lparr>ww_message := m\<rparr>)"

definition set_latest :: "task_checkpoint option \<Rightarrow> ('q, unit) worker_act" where
  "set_latest k w = (Inr (), w\<lparr>ww_latest := k\<rparr>)"

definition worker_now :: "'q worker_env \<Rightarrow> ('q, datetime) worker_act" where
  "worker_now env = reading (\<lambda>w. we_clock env (ww_store w))"

definition scope_of :: "processing_task \<Rightarrow> task_scope" where
  "scope_of t =
     \<lparr>sc_task_id = pt_id t, sc_case_id = pt_case_id t, sc_case_version = pt_case_version t,
      sc_document_version_id = pt_document_version_id t\<rparr>"

definition envelope_scope :: "task_envelope \<Rightarrow> task_scope" where
  "envelope_scope e =
     \<lparr>sc_task_id = te_task_id e, sc_case_id = te_case_id e, sc_case_version = te_case_version e,
      sc_document_version_id = te_document_version_id e\<rparr>"

text \<open>One heartbeat: the lease of the task, the slot, the visibility of the message.\<close>

definition renew :: "'q worker_env \<Rightarrow> queue_message \<Rightarrow> processing_task \<Rightarrow> ('q, unit) worker_act" where
  "renew env m t =
     and_then (worker_now env) (\<lambda>now.
     and_then (in_store env (extend_task_lease (scope_of t) (we_lease_token env) (now + we_slot_lease env)))
       (\<lambda>extended. if \<not> extended then raise LeaseLostExn else
     and_then (in_store env (\<lambda>st. Inr (extend_worker_slot (we_worker_id env) (we_lease_token env)
         (now + we_slot_lease env) st)))
       (\<lambda>held. if \<not> held then raise LeaseLostExn else
     on_queue (qp_extend_visibility (we_queue_port env) (qm_message_id m) (we_visibility env)))))"

definition save_stage ::
  "'q worker_env \<Rightarrow> queue_message \<Rightarrow> processing_task \<Rightarrow> string \<Rightarrow> json \<Rightarrow> ('q, unit) worker_act" where
  "save_stage env m t kind data =
     and_then (reading (\<lambda>w. case ww_latest w of None \<Rightarrow> 1 | Some k \<Rightarrow> tc_sequence_no k + 1)) (\<lambda>seq.
     and_then (in_store env (save_checkpoint (scope_of t) (we_lease_token env) seq kind ''1'' data)) (\<lambda>k.
     and_then (set_latest (Some k)) (\<lambda>_. renew env m t)))"

text \<open>
  The wait for the processor and the heartbeat.  An exception of \<open>save_checkpoint\<close> is
  raised inside the processor, which decides what follows.  A heartbeat that fails
  ends the wait, unless the processor finished in the same cycle
  (\<open>Heartbeat True\<close>): then the result of the processor counts.
\<close>

fun run_stage ::
  "'q worker_env \<Rightarrow> queue_message \<Rightarrow> processing_task \<Rightarrow> processor_event list \<Rightarrow> ('q, stage_result) worker_act" where
  "run_stage env m t [] = raise WorkerDied"
| "run_stage env m t (SaveCheckpoint kind data # es) =
     and_then (attempt (save_stage env m t kind data) (\<lambda>e. ret ())) (\<lambda>_. run_stage env m t es)"
| "run_stage env m t (Heartbeat overtaken # es) =
     and_then (if overtaken then attempt (renew env m t) (\<lambda>e. ret ()) else renew env m t)
       (\<lambda>_. run_stage env m t es)"
| "run_stage env m t (StageReturns r # es) = ret r"
| "run_stage env m t (StageRaises e # es) = raise e"

definition worker_result ::
  "worker_outcome \<Rightarrow> queue_message \<Rightarrow> uuid \<Rightarrow> string option \<Rightarrow> worker_run_result" where
  "worker_result outcome m i reason =
     \<lparr>wr_outcome = outcome, wr_task_id = Some i, wr_message_id = Some (qm_message_id m),
      wr_reason = reason, wr_case_id = None, wr_task_type = None\<rparr>"

definition archive_message :: "'q worker_env \<Rightarrow> queue_message \<Rightarrow> ('q, unit) worker_act" where
  "archive_message env m = on_queue (qp_archive (we_queue_port env) (qm_message_id m))"

definition retry_delivery ::
  "'q worker_env \<Rightarrow> queue_message \<Rightarrow> processing_task \<Rightarrow> string \<Rightarrow> ('q, worker_run_result) worker_act" where
  "retry_delivery env m t reason =
     and_then (worker_now env) (\<lambda>now.
     and_then (in_store env (retry_or_fail (scope_of t) (we_lease_token env) reason now (we_retry_base env)))
       (\<lambda>d.
     and_then (if rd_status d = FAILED_MANUAL_REVIEW then archive_message env m else ret ()) (\<lambda>_.
     ret (worker_result (if rd_status d = RETRY_WAIT then RetryWait else FailedManualReview) m
            (pt_id t) (Some reason)))))"

definition settle_stage ::
  "'q worker_env \<Rightarrow> queue_message \<Rightarrow> processing_task \<Rightarrow> stage_result \<Rightarrow> ('q, worker_run_result) worker_act" where
  "settle_stage env m t r =
     (if sr_status r = Superseded
      then and_then (in_store env (mark_superseded (scope_of t) (we_lease_token env))) (\<lambda>_.
           and_then (archive_message env m) (\<lambda>_.
           ret (worker_result Superseded m (pt_id t) (Some (sr_reason r)))))
      else if sr_status r \<noteq> Succeeded
      then retry_delivery env m t
             (if sr_reason r = [] then ''processor requested retry'' else sr_reason r)
      else and_then (in_store env (succeed_task (scope_of t) (we_lease_token env))) (\<lambda>_.
           and_then (archive_message env m) (\<lambda>_.
           ret ((worker_result Succeeded m (pt_id t) None)
                  \<lparr>wr_case_id := Some (pt_case_id t), wr_task_type := Some (pt_task_type t)\<rparr>))))"

definition run_claimed ::
  "'q worker_env \<Rightarrow> queue_message \<Rightarrow> processing_task \<Rightarrow> ('q, worker_run_result) worker_act" where
  "run_claimed env m t =
     and_then (renew env m t) (\<lambda>_.
     and_then (in_store env (\<lambda>st. Inr (latest_checkpoint (scope_of t) st, st))) (\<lambda>latest.
     and_then (set_latest latest) (\<lambda>_.
     and_then (run_stage env m t (we_process env t latest)) (\<lambda>r.
     settle_stage env m t r))))"

definition handle_message :: "'q worker_env \<Rightarrow> queue_message \<Rightarrow> ('q, worker_run_result) worker_act" where
  "handle_message env m =
     (let e = qm_envelope m in
      and_then (worker_now env) (\<lambda>now.
      and_then (in_store env (\<lambda>st. Inr (claim_task (envelope_scope e) (we_lease_token env)
                 (now + we_slot_lease env) st))) (\<lambda>claimed. case claimed of
        None \<Rightarrow>
          and_then (in_store env (\<lambda>st.
              Inr (get_task no_actor (te_task_id e) (Some (te_case_id e)) None st, st))) (\<lambda>existing.
          and_then (if (case existing of None \<Rightarrow> False | Some t \<Rightarrow>
                        pt_status t \<in> {SUCCEEDED, SUPERSEDED, FAILED_MANUAL_REVIEW})
                    then archive_message env m else ret ()) (\<lambda>_.
          ret (worker_result Stale m (te_task_id e) (Some ''task is no longer claimable''))))
      | Some t \<Rightarrow> run_claimed env m t)))"

definition no_message_result :: worker_run_result where
  "no_message_result =
     \<lparr>wr_outcome = NoMessage, wr_task_id = None, wr_message_id = None, wr_reason = None,
      wr_case_id = None, wr_task_type = None\<rparr>"

definition worker_body :: "'q worker_env \<Rightarrow> ('q, worker_run_result) worker_act" where
  "worker_body env =
     and_then (worker_now env) (\<lambda>now.
     and_then (in_store env (\<lambda>st. Inr (reclaim_stranded now st))) (\<lambda>_.
     and_then (on_queue (qp_read_one (we_queue_port env) (we_visibility env))) (\<lambda>message.
     and_then (set_message message) (\<lambda>_. case message of
        None \<Rightarrow> ret no_message_result
      | Some m \<Rightarrow> handle_message env m))))"

text \<open>
  The handler of any other exception: the bounded retry, when the worker still
  holds the task; a lost fence there is passed over.
\<close>

definition recover_worker ::
  "'q worker_env \<Rightarrow> string \<Rightarrow> ('q worker_world, run_failure, worker_run_result) act" where
  "recover_worker env text =
     and_then (reading ww_message) (\<lambda>message. case message of
       None \<Rightarrow> raise (WorkerRunError ''worker failed before receiving a message'')
     | Some m \<Rightarrow>
         attempt
           (and_then (in_store env (\<lambda>st. Inr (get_task no_actor (te_task_id (qm_envelope m))
                        (Some (te_case_id (qm_envelope m))) None st, st))) (\<lambda>task. case task of
              Some t \<Rightarrow>
                if pt_lease_token t = Some (we_lease_token env)
                then retry_delivery env m t (take 500 (''worker exception: '' @ text))
                else raise LeaseLostExn
            | None \<Rightarrow> raise LeaseLostExn))
           (\<lambda>e. case e of
              StaleTaskExn \<Rightarrow> raise (WorkerRunError ''worker processing failed'')
            | LeaseLostExn \<Rightarrow> raise (WorkerRunError ''worker processing failed'')
            | OtherExn msg \<Rightarrow> raise (Escaped (OtherExn msg))
            | WorkerDied \<Rightarrow> raise RunDied))"

definition stale_result :: "queue_message option \<Rightarrow> worker_run_result" where
  "stale_result message =
     \<lparr>wr_outcome = Stale, wr_task_id = map_option (\<lambda>m. te_task_id (qm_envelope m)) message,
      wr_message_id = map_option qm_message_id message,
      wr_reason = Some ''task version or lease is stale'', wr_case_id = None, wr_task_type = None\<rparr>"

definition guarded_body :: "'q worker_env \<Rightarrow> ('q worker_world, run_failure, worker_run_result) act" where
  "guarded_body env =
     attempt (and_then (set_message None) (\<lambda>_. worker_body env)) (\<lambda>e. case e of
       StaleTaskExn \<Rightarrow> reading (\<lambda>w. stale_result (ww_message w))
     | LeaseLostExn \<Rightarrow> reading (\<lambda>w. stale_result (ww_message w))
     | OtherExn text \<Rightarrow> recover_worker env text
     | WorkerDied \<Rightarrow> raise RunDied)"

text \<open>The slot is released whatever happened, unless the worker died.\<close>

definition release_slot :: "'q worker_env \<Rightarrow> 'q worker_world \<Rightarrow> 'q worker_world" where
  "release_slot env w =
     (let st = we_others env (ww_ticks w) (ww_store w)
      in w\<lparr>ww_store := release_worker_slot (we_worker_id env) (we_lease_token env) st,
           ww_ticks := Suc (ww_ticks w)\<rparr>)"

definition run_once :: "'q worker_env \<Rightarrow> ('q worker_world, run_failure, worker_run_result) act" where
  "run_once env =
     and_then (on_error Escaped (and_then (worker_now env) (\<lambda>now.
       in_store env (acquire_worker_slot (we_worker_id env) (we_lease_token env)
         (now + we_slot_lease env))))) (\<lambda>acquired.
     if \<not> acquired
     then ret \<lparr>wr_outcome = NoSlot, wr_task_id = None, wr_message_id = None, wr_reason = None,
               wr_case_id = None, wr_task_type = None\<rparr>
     else (\<lambda>w. case guarded_body env w of
             (Inl RunDied, w') \<Rightarrow> (Inl RunDied, w')
           | (res, w') \<Rightarrow> (res, release_slot env w')))"

end
