(* ===== verification/Worker_Safety.thy ===== *)
theory Worker_Safety
  imports Worker
begin

text \<open>
  A message is archived only for a task that is durably settled, and the outcome
  the worker reports is what the table says: triples over the operations of the
  worker, under any interference that respects the task table.
\<close>

section \<open>Assumptions on the surroundings\<close>

text \<open>
  The rest of the system acts on the task table through steps of the task
  repository only; reading and hiding messages archives none, and archiving one
  touches no other (documented behaviour of PGMQ).  The inserts of tasks by the
  ingestion of documents are not among these steps.
\<close>

definition others_ok :: "'q worker_env \<Rightarrow> bool" where
  "others_ok env \<longleftrightarrow> (\<forall>n st. store_step\<^sup>*\<^sup>* st (we_others env n st))"

definition queue_ok :: "'q queue_port \<Rightarrow> ('q \<Rightarrow> int set) \<Rightarrow> bool" where
  "queue_ok qp archived \<longleftrightarrow>
     (\<forall>q timeout. archived (snd (qp_read_one qp timeout q)) = archived q) \<and>
     (\<forall>q i timeout. archived (snd (qp_extend_visibility qp i timeout q)) = archived q) \<and>
     (\<forall>q i r q'. qp_archive qp i q = (r, q') \<longrightarrow> archived q' \<subseteq> insert i (archived q) \<and>
        archived q \<subseteq> archived q' \<and> (\<forall>u. r = Inr u \<longrightarrow> i \<in> archived q'))"

definition settled_as :: "task_status set \<Rightarrow> store \<Rightarrow> task_envelope \<Rightarrow> bool" where
  "settled_as S st e \<longleftrightarrow>
     (\<exists>t\<in>set (st_tasks st). pt_id t = te_task_id e \<and> pt_case_id t = te_case_id e \<and>
        terminal_status (pt_status t) \<and> pt_status t \<in> S \<and>
        (pt_status t = FAILED_MANUAL_REVIEW \<and> S = {FAILED_MANUAL_REVIEW} \<longrightarrow>
           pt_max_attempts t \<le> pt_attempt_count t))"

lemma settled_as_steps: "store_step\<^sup>*\<^sup>* st st' \<Longrightarrow> settled_as S st e \<Longrightarrow> settled_as S st' e"
  unfolding settled_as_def using reachable_terminal by blast

lemma settled_as_UNIV: "settled_as S st e \<Longrightarrow> settled_as UNIV st e"
  unfolding settled_as_def by auto

text \<open>
  What holds at every point of a run that has read the message \<open>m\<close>: only that
  message can have been archived, and only with its task settled.
\<close>

definition archive_safe ::
  "('q \<Rightarrow> int set) \<Rightarrow> int set \<Rightarrow> queue_message option \<Rightarrow> 'q worker_world \<Rightarrow> bool" where
  "archive_safe archived A m w \<longleftrightarrow>
     ww_message w = m \<and> A \<subseteq> archived (ww_queue w) \<and>
     (\<forall>i\<in>archived (ww_queue w) - A.
        \<exists>k. m = Some k \<and> qm_message_id k = i \<and> settled_as UNIV (ww_store w) (qm_envelope k))"

definition safe_settled ::
  "('q \<Rightarrow> int set) \<Rightarrow> int set \<Rightarrow> task_status set \<Rightarrow> queue_message \<Rightarrow> 'q worker_world \<Rightarrow> bool" where
  "safe_settled archived A S m w \<longleftrightarrow>
     archive_safe archived A (Some m) w \<and> settled_as S (ww_store w) (qm_envelope m)"

definition belongs_to :: "processing_task \<Rightarrow> queue_message \<Rightarrow> bool" where
  "belongs_to t m \<longleftrightarrow> pt_id t = te_task_id (qm_envelope m) \<and> pt_case_id t = te_case_id (qm_envelope m)"

section \<open>Steps on the store\<close>

lemma archive_safe_steps:
  "archive_safe archived A m w \<Longrightarrow> store_step\<^sup>*\<^sup>* (ww_store w) st \<Longrightarrow>
   archive_safe archived A m (w\<lparr>ww_store := st, ww_ticks := n\<rparr>)"
  unfolding archive_safe_def using settled_as_steps by fastforce

lemma in_store_outcome:
  assumes others: "others_ok env"
    and op: "\<And>st x st'. op st = Inr (x, st') \<Longrightarrow> store_step\<^sup>*\<^sup>* st st' \<and> R x st'"
  shows "hoare (archive_safe archived A m) (in_store env op)
    (\<lambda>x w. archive_safe archived A m w \<and> R x (ww_store w)) (\<lambda>e. archive_safe archived A m)"
proof (rule hoareI)
  fix w e w' assume safe: "archive_safe archived A m w" and "in_store env op w = (Inl e, w')"
  then have w': "w' = w\<lparr>ww_store := we_others env (ww_ticks w) (ww_store w), ww_ticks := Suc (ww_ticks w)\<rparr>"
    by (auto simp: in_store_def Let_def split: sum.splits prod.splits)
  show "archive_safe archived A m w'"
    unfolding w' using others by (intro archive_safe_steps [OF safe]) (simp add: others_ok_def)
next
  fix w x w' assume safe: "archive_safe archived A m w" and "in_store env op w = (Inr x, w')"
  then obtain st' where run: "op (we_others env (ww_ticks w) (ww_store w)) = Inr (x, st')"
    and w': "w' = w\<lparr>ww_store := st', ww_ticks := Suc (ww_ticks w)\<rparr>"
    by (auto simp: in_store_def Let_def split: sum.splits prod.splits)
  from others have "store_step\<^sup>*\<^sup>* (ww_store w) (we_others env (ww_ticks w) (ww_store w))"
    by (simp add: others_ok_def)
  with op [OF run] have "store_step\<^sup>*\<^sup>* (ww_store w) st'" by (meson rtranclp_trans)
  from archive_safe_steps [OF safe this] op [OF run]
  show "archive_safe archived A m w' \<and> R x (ww_store w')" unfolding w' by simp
qed

lemma in_store_keeps:
  assumes "others_ok env" "\<And>st x st'. op st = Inr (x, st') \<Longrightarrow> store_step\<^sup>*\<^sup>* st st'"
  shows "hoare (archive_safe archived A m) (in_store env op)
    (\<lambda>x. archive_safe archived A m) (\<lambda>e. archive_safe archived A m)"
  by (rule hoare_weaken [OF in_store_outcome [OF assms(1), where R = "\<lambda>x st. True"]]) (use assms(2) in auto)

section \<open>Steps of the worker on the task table\<close>

lemma same_tasks_steps: "st_tasks st' = st_tasks st \<Longrightarrow> store_step\<^sup>*\<^sup>* st st'"
  by (blast intro: step_other)

lemma slot_tasks:
  "acquire_worker_slot ow tok u st = Inr (b, st') \<Longrightarrow> st_tasks st' = st_tasks st"
  "extend_worker_slot ow tok u st = (b, st') \<Longrightarrow> st_tasks st' = st_tasks st"
  "st_tasks (release_worker_slot ow tok st) = st_tasks st"
  by (auto simp: acquire_worker_slot_def extend_worker_slot_def release_worker_slot_def
      split: option.splits if_splits)

lemma checkpoint_tasks:
  "save_checkpoint sc tok n k s d st = Inr (c, st') \<Longrightarrow> st_tasks st' = st_tasks st"
  by (auto simp: save_checkpoint_def Let_def result_simps split: option.splits)

lemma update_task_row:
  assumes "update_task P f st = (Some r, st')"
  shows "\<exists>t. P t \<and> r = f t \<and> f t \<in> set (st_tasks st')"
proof -
  from assms obtain t where find: "find P (st_tasks st) = Some t" and r: "r = f t"
    and st': "st' = st\<lparr>st_tasks := map (\<lambda>t. if P t then f t else t) (st_tasks st)\<rparr>"
    unfolding update_task_def by auto
  from find have "t \<in> set (st_tasks st)" "P t" by (auto simp: find_Some_iff)
  then show ?thesis unfolding st' r by (auto intro!: image_eqI [of _ _ t])
qed

lemma terminal_settles:
  assumes "terminal_update s (scope_of t) tok st = Inr (u, st')" "s \<in> {SUCCEEDED, SUPERSEDED}" "belongs_to t m"
  shows "store_step\<^sup>*\<^sup>* st st' \<and> settled_as {s} st' (qm_envelope m)"
proof
  from assms(1,2) have "store_step st st'"
    by (auto simp: succeed_task_def mark_superseded_def intro: step_succeed step_supersede)
  then show "store_step\<^sup>*\<^sup>* st st'" by blast
  from assms(1) obtain r where "update_task (holds_lease st (scope_of t) tok)
      (\<lambda>t. t\<lparr>pt_status := s, pt_lease_token := None, pt_lease_until := None,
             pt_completed_at := Some (st_clock st)\<rparr>) st = (Some r, st')"
    by (auto simp: terminal_update_def split: prod.splits option.splits)
  from update_task_row [OF this] obtain k where k: "holds_lease st (scope_of t) tok k"
    "r = k\<lparr>pt_status := s, pt_lease_token := None, pt_lease_until := None,
          pt_completed_at := Some (st_clock st)\<rparr>" "r \<in> set (st_tasks st')" by blast
  then have "pt_id r = pt_id t" "pt_case_id r = pt_case_id t" "pt_status r = s"
    by (simp_all add: holds_lease_def in_scope_def scope_of_def)
  with k(3) assms(2,3) show "settled_as {s} st' (qm_envelope m)"
    unfolding settled_as_def belongs_to_def by (intro bexI [of _ r]) auto
qed

lemma retry_settles:
  assumes "retry_or_fail (scope_of t) tok reason now base st = Inr (d, st')" "belongs_to t m"
  shows "store_step\<^sup>*\<^sup>* st st' \<and>
    (rd_status d = FAILED_MANUAL_REVIEW \<longrightarrow> settled_as {FAILED_MANUAL_REVIEW} st' (qm_envelope m)) \<and>
    rd_status d \<in> {FAILED_MANUAL_REVIEW, RETRY_WAIT}"
proof -
  from assms(1) obtain r where run: "update_task (holds_lease st (scope_of t) tok)
      (retry_row reason now base (st_clock st)) st = (Some r, st')" and d: "rd_status d = pt_status r"
    by (auto simp: retry_or_fail_def split: prod.splits option.splits)
  from update_task_row [OF run] obtain k where k: "holds_lease st (scope_of t) tok k"
    "r = retry_row reason now base (st_clock st) k" "r \<in> set (st_tasks st')" by blast
  have "pt_id r = pt_id t" "pt_case_id r = pt_case_id t"
    using k by (simp_all add: retry_row_def holds_lease_def in_scope_def scope_of_def)
  moreover have "pt_status r = FAILED_MANUAL_REVIEW \<Longrightarrow> pt_max_attempts r \<le> pt_attempt_count r"
    using k(2) by (auto simp: retry_row_def split: if_splits)
  moreover have "pt_status r \<in> {FAILED_MANUAL_REVIEW, RETRY_WAIT}"
    using k(2) by (simp add: retry_row_def)
  ultimately show ?thesis
    using k(3) assms(2) step_retry [OF assms(1)] unfolding d settled_as_def belongs_to_def by auto
qed

lemma claim_belongs:
  "claim_task (envelope_scope (qm_envelope m)) tok u st = (Some t, st') \<Longrightarrow> belongs_to t m"
  using claim_result [of "envelope_scope (qm_envelope m)" tok u st t st']
  by (auto simp: belongs_to_def claimable_def in_scope_def envelope_scope_def claimed_row_def)

lemma get_belongs:
  assumes "get_task no_actor (te_task_id (qm_envelope m)) (Some (te_case_id (qm_envelope m))) None st = Some t"
  shows "belongs_to t m" "t \<in> set (st_tasks st)"
  using assms by (auto simp: get_task_def belongs_to_def find_Some_iff)

section \<open>Triples of the parts of a run\<close>

abbreviation kept ::
  "('q \<Rightarrow> int set) \<Rightarrow> int set \<Rightarrow> queue_message option \<Rightarrow> ('q worker_world, 'e, 'a) act \<Rightarrow> bool" where
  "kept archived A m act \<equiv> hoare (archive_safe archived A m) act
     (\<lambda>x. archive_safe archived A m) (\<lambda>e. archive_safe archived A m)"

lemma kept_and_then: "kept archived A m f \<Longrightarrow> (\<And>x. kept archived A m (g x)) \<Longrightarrow> kept archived A m (and_then f g)"
  by (rule hoare_and_then)

lemma kept_ret: "kept archived A m (ret x)" "kept archived A m (raise e)" "kept archived A m (reading f)"
  by (simp_all add: hoare_def)

lemma kept_set_latest: "kept archived A m (set_latest k)"
  by (simp add: hoare_def set_latest_def archive_safe_def)

lemma kept_now: "kept archived A m (worker_now env)"
  by (simp add: hoare_def worker_now_def)

lemma kept_attempt: "kept archived A m f \<Longrightarrow> (\<And>e. kept archived A m (g e)) \<Longrightarrow> kept archived A m (attempt f g)"
  by (rule hoare_attempt)

lemma hoare_on_queue:
  assumes "\<And>w e q. P w \<Longrightarrow> op (ww_queue w) = (Inl e, q) \<Longrightarrow> E (queue_exn e) (w\<lparr>ww_queue := q\<rparr>)"
    and "\<And>w x q. P w \<Longrightarrow> op (ww_queue w) = (Inr x, q) \<Longrightarrow> Q x (w\<lparr>ww_queue := q\<rparr>)"
  shows "hoare P (on_queue op) Q E"
  using assms unfolding hoare_def on_queue_def by (auto split: prod.split sum.split)

lemma archive_safe_queue:
  "archive_safe archived A m w \<Longrightarrow> archived q = archived (ww_queue w) \<Longrightarrow> archive_safe archived A m (w\<lparr>ww_queue := q\<rparr>)"
  by (simp add: archive_safe_def)

lemma kept_visibility:
  assumes "queue_ok (we_queue_port env) archived"
  shows "kept archived A m (on_queue (qp_extend_visibility (we_queue_port env) i u))"
proof -
  have same: "archived q' = archived q" if "qp_extend_visibility (we_queue_port env) i u q = (r, q')" for q r q'
    using assms that unfolding queue_ok_def by (metis snd_conv)
  show ?thesis by (rule hoare_on_queue) (erule archive_safe_queue, erule same)+
qed

lemma kept_extend: "others_ok env \<Longrightarrow> kept archived A m (in_store env (extend_task_lease sc tok u))"
  by (rule in_store_keeps) (use step_extend in blast)+

lemma kept_extend_slot:
  "others_ok env \<Longrightarrow> kept archived A m (in_store env (\<lambda>st. Inr (extend_worker_slot ow tok u st)))"
  by (rule in_store_keeps) (auto dest!: slot_tasks(2) intro: same_tasks_steps)

lemma kept_checkpoint: "others_ok env \<Longrightarrow> kept archived A m (in_store env (save_checkpoint sc tok n k s d))"
  by (rule in_store_keeps) (auto dest!: checkpoint_tasks intro: same_tasks_steps)

lemma kept_read: "others_ok env \<Longrightarrow> kept archived A m (in_store env (\<lambda>st. Inr (f st, st)))"
  by (rule in_store_keeps) auto

lemma kept_reclaim: "others_ok env \<Longrightarrow> kept archived A m (in_store env (\<lambda>st. Inr (reclaim_stranded now st)))"
  by (rule in_store_keeps) (auto intro: step_reclaim)

lemma kept_acquire: "others_ok env \<Longrightarrow> kept archived A m (in_store env (acquire_worker_slot ow tok u))"
  by (rule in_store_keeps) (auto dest!: slot_tasks(1) intro: same_tasks_steps)

lemma kept_renew:
  assumes "others_ok env" "queue_ok (we_queue_port env) archived"
  shows "kept archived A m (renew env k t)"
  unfolding renew_def
  by (intro kept_and_then kept_now kept_extend kept_extend_slot kept_visibility hoare_if kept_ret assms)

lemma kept_save_stage:
  assumes "others_ok env" "queue_ok (we_queue_port env) archived"
  shows "kept archived A m (save_stage env k t kind data)"
  unfolding save_stage_def
  by (intro kept_and_then kept_ret kept_checkpoint kept_set_latest kept_renew assms)

lemma kept_run_stage:
  assumes "others_ok env" "queue_ok (we_queue_port env) archived"
  shows "kept archived A m (run_stage env k t es)"
proof (induction es)
  case (Cons e es)
  note parts = kept_and_then kept_attempt hoare_if kept_ret kept_save_stage [OF assms] kept_renew [OF assms]
  show ?case by (cases e) (simp_all only: run_stage.simps; intro parts Cons.IH)+
qed (simp only: run_stage.simps kept_ret)

lemma archived_settled:
  assumes "safe_settled archived A S m w"
    and "archived q \<subseteq> insert (qm_message_id m) (archived (ww_queue w))" "archived (ww_queue w) \<subseteq> archived q"
  shows "safe_settled archived A S m (w\<lparr>ww_queue := q\<rparr>)"
  using assms settled_as_UNIV [of S "ww_store w" "qm_envelope m"]
  unfolding safe_settled_def archive_safe_def by auto

lemma archive_outcome:
  assumes "queue_ok (we_queue_port env) archived"
  shows "hoare (safe_settled archived A S m) (archive_message env m)
    (\<lambda>u w. safe_settled archived A S m w \<and> qm_message_id m \<in> archived (ww_queue w))
    (\<lambda>e. archive_safe archived A (Some m))"
  unfolding archive_message_def
proof (rule hoare_on_queue)
  have arch: "archived q' \<subseteq> insert i (archived q) \<and> archived q \<subseteq> archived q' \<and> (\<forall>u. r = Inr u \<longrightarrow> i \<in> archived q')"
    if "qp_archive (we_queue_port env) i q = (r, q')" for i q r q'
    using assms that unfolding queue_ok_def by blast
  fix w q assume safe: "safe_settled archived A S m w"
  show "safe_settled archived A S m (w\<lparr>ww_queue := q\<rparr>) \<and> qm_message_id m \<in> archived (ww_queue (w\<lparr>ww_queue := q\<rparr>))"
    if "qp_archive (we_queue_port env) (qm_message_id m) (ww_queue w) = (Inr u, q)" for u
    using arch [OF that] archived_settled [OF safe] by simp
  show "archive_safe archived A (Some m) (w\<lparr>ww_queue := q\<rparr>)"
    if "qp_archive (we_queue_port env) (qm_message_id m) (ww_queue w) = (Inl e, q)" for e
    using arch [OF that] archived_settled [OF safe, of q] by (simp add: safe_settled_def)
qed

section \<open>What the outcome of a run means\<close>

definition outcome_true :: "('q \<Rightarrow> int set) \<Rightarrow> queue_message \<Rightarrow> worker_run_result \<Rightarrow> 'q worker_world \<Rightarrow> bool" where
  "outcome_true archived m r w \<longleftrightarrow>
     wr_message_id r = Some (qm_message_id m) \<and>
     (wr_outcome r = Succeeded \<longrightarrow>
        settled_as {SUCCEEDED} (ww_store w) (qm_envelope m) \<and> qm_message_id m \<in> archived (ww_queue w)) \<and>
     (wr_outcome r = Superseded \<longrightarrow>
        settled_as {SUPERSEDED} (ww_store w) (qm_envelope m) \<and> qm_message_id m \<in> archived (ww_queue w)) \<and>
     (wr_outcome r = FailedManualReview \<longrightarrow>
        settled_as {FAILED_MANUAL_REVIEW} (ww_store w) (qm_envelope m) \<and>
        qm_message_id m \<in> archived (ww_queue w)) \<and>
     wr_outcome r \<notin> {NoSlot, NoMessage}"

abbreviation delivers_safely ::
  "('q \<Rightarrow> int set) \<Rightarrow> int set \<Rightarrow> queue_message \<Rightarrow> ('q worker_world, 'e, worker_run_result) act \<Rightarrow> bool" where
  "delivers_safely archived A m act \<equiv> hoare (archive_safe archived A (Some m)) act
     (\<lambda>r w. archive_safe archived A (Some m) w \<and> outcome_true archived m r w)
     (\<lambda>e. archive_safe archived A (Some m))"

lemma finish_outcome:
  assumes others: "others_ok env" and queue: "queue_ok (we_queue_port env) archived" and t: "belongs_to t m"
    and op: "\<And>st u st'. op st = Inr (u, st') \<Longrightarrow> store_step\<^sup>*\<^sup>* st st' \<and> settled_as S st' (qm_envelope m)"
    and r: "\<And>w. safe_settled archived A S m w \<Longrightarrow> qm_message_id m \<in> archived (ww_queue w) \<Longrightarrow>
      outcome_true archived m r w"
  shows "delivers_safely archived A m
    (and_then (in_store env op) (\<lambda>u :: unit. and_then (archive_message env m) (\<lambda>u. ret r)))"
  by (rule hoare_and_then, rule in_store_outcome [where R = "\<lambda>u st. settled_as S st (qm_envelope m)", OF others op],
      assumption, unfold safe_settled_def [symmetric], rule hoare_and_then, rule archive_outcome [OF queue],
      rule hoare_ret)
    (use r in \<open>auto simp: safe_settled_def\<close>)

lemma retry_outcome:
  assumes others: "others_ok env" and queue: "queue_ok (we_queue_port env) archived" and t: "belongs_to t m"
  shows "delivers_safely archived A m (retry_delivery env m t reason)"
proof -
  let ?R = "\<lambda>d st. (rd_status d = FAILED_MANUAL_REVIEW \<longrightarrow> settled_as {FAILED_MANUAL_REVIEW} st (qm_envelope m)) \<and>
    rd_status d \<in> {FAILED_MANUAL_REVIEW, RETRY_WAIT}"
  have op: "retry_or_fail (scope_of t) tok reason now base st = Inr (d, st') \<Longrightarrow>
      store_step\<^sup>*\<^sup>* st st' \<and> ?R d st'" for tok now base st d st'
    using retry_settles [OF _ t] by blast
  have tail: "hoare (\<lambda>w. archive_safe archived A (Some m) w \<and> ?R d (ww_store w))
      (and_then (if rd_status d = FAILED_MANUAL_REVIEW then archive_message env m else ret ()) (\<lambda>_.
       ret (worker_result (if rd_status d = RETRY_WAIT then RetryWait else FailedManualReview) m
            (pt_id t) (Some reason))))
      (\<lambda>r w. archive_safe archived A (Some m) w \<and> outcome_true archived m r w)
      (\<lambda>e. archive_safe archived A (Some m))" for d
  proof (cases "rd_status d = FAILED_MANUAL_REVIEW")
    case True
    show ?thesis
      by (rule hoare_and_then [where R = "\<lambda>u w. safe_settled archived A {FAILED_MANUAL_REVIEW} m w \<and>
            qm_message_id m \<in> archived (ww_queue w)"])
        (use True in \<open>auto intro!: hoare_ret hoare_weaken [OF archive_outcome [OF queue]]
          simp: safe_settled_def outcome_true_def worker_result_def\<close>)
  next
    case False
    then show ?thesis by (auto simp: hoare_def outcome_true_def worker_result_def and_then_def)
  qed
  show ?thesis
    unfolding retry_delivery_def
    by (rule hoare_and_then [OF kept_now], rule hoare_and_then, rule in_store_outcome [where R = ?R, OF others op],
        assumption, rule tail)
qed

lemma settle_outcome:
  assumes "others_ok env" "queue_ok (we_queue_port env) archived" "belongs_to t m"
  shows "delivers_safely archived A m (settle_stage env m t r)"
  unfolding settle_stage_def
proof (intro hoare_if)
  show "delivers_safely archived A m
      (and_then (in_store env (mark_superseded (scope_of t) (we_lease_token env))) (\<lambda>_.
       and_then (archive_message env m) (\<lambda>_. ret (worker_result Superseded m (pt_id t) (Some (sr_reason r))))))"
    unfolding mark_superseded_def
    by (rule finish_outcome [OF assms, where S = "{SUPERSEDED}"])
      (use terminal_settles [OF _ _ assms(3)] in \<open>auto simp: outcome_true_def worker_result_def safe_settled_def\<close>)
  show "delivers_safely archived A m
      (and_then (in_store env (succeed_task (scope_of t) (we_lease_token env))) (\<lambda>_.
       and_then (archive_message env m) (\<lambda>_. ret ((worker_result Succeeded m (pt_id t) None)
                  \<lparr>wr_case_id := Some (pt_case_id t), wr_task_type := Some (pt_task_type t)\<rparr>))))"
    unfolding succeed_task_def
    by (rule finish_outcome [OF assms, where S = "{SUCCEEDED}"])
      (use terminal_settles [OF _ _ assms(3)] in \<open>auto simp: outcome_true_def worker_result_def safe_settled_def\<close>)
qed (rule retry_outcome [OF assms])

lemma claimed_outcome:
  assumes "others_ok env" "queue_ok (we_queue_port env) archived" "belongs_to t m"
  shows "delivers_safely archived A m (run_claimed env m t)"
  unfolding run_claimed_def
  by (intro hoare_and_then [OF kept_renew] hoare_and_then [OF kept_read] hoare_and_then [OF kept_set_latest]
      hoare_and_then [OF kept_run_stage] settle_outcome assms)

lemma stale_outcome:
  "hoare (archive_safe archived A (Some m)) (ret (worker_result Stale m i reason))
    (\<lambda>r w. archive_safe archived A (Some m) w \<and> outcome_true archived m r w) E"
  by (rule hoare_ret) (simp add: outcome_true_def worker_result_def)

lemma handle_outcome:
  assumes others: "others_ok env" and queue: "queue_ok (we_queue_port env) archived"
  shows "delivers_safely archived A m (handle_message env m)"
proof -
  let ?claimed = "\<lambda>c st. \<forall>t. c = Some t \<longrightarrow> belongs_to t m"
  let ?existing = "\<lambda>c st. \<forall>t. c = Some t \<longrightarrow> belongs_to t m \<and> t \<in> set (st_tasks st)"
  let ?get = "\<lambda>st. Inr (get_task no_actor (te_task_id (qm_envelope m)) (Some (te_case_id (qm_envelope m))) None st, st)"
  have claim: "store_step\<^sup>*\<^sup>* st st' \<and> ?claimed c st'"
    if "Inr (claim_task (envelope_scope (qm_envelope m)) tok u st) = Inr (c, st')" for tok u st c st'
    using that claim_belongs [of m tok u st] step_claim [of "envelope_scope (qm_envelope m)" tok u st c st'] by auto
  have get: "store_step\<^sup>*\<^sup>* st st' \<and> ?existing c st'" if "?get st = Inr (c, st')" for st c st'
    using that get_belongs [of m st] by auto
  have archive: "hoare (\<lambda>w. archive_safe archived A (Some m) w \<and> ?existing c (ww_store w))
      (if (case c of None \<Rightarrow> False | Some t \<Rightarrow> pt_status t \<in> {SUCCEEDED, SUPERSEDED, FAILED_MANUAL_REVIEW})
       then archive_message env m else ret ())
      (\<lambda>u. archive_safe archived A (Some m)) (\<lambda>e. archive_safe archived A (Some m))" for c
  proof (rule hoare_if)
    assume settled: "case c of None \<Rightarrow> False | Some t \<Rightarrow> pt_status t \<in> {SUCCEEDED, SUPERSEDED, FAILED_MANUAL_REVIEW}"
    then obtain t where c: "c = Some t" and t: "terminal_status (pt_status t)"
      by (auto simp: terminal_status_def split: option.splits)
    have "safe_settled archived A UNIV m w"
      if "archive_safe archived A (Some m) w \<and> ?existing c (ww_store w)" for w
      using that t unfolding c safe_settled_def settled_as_def belongs_to_def by blast
    then show "hoare (\<lambda>w. archive_safe archived A (Some m) w \<and> ?existing c (ww_store w)) (archive_message env m)
      (\<lambda>u. archive_safe archived A (Some m)) (\<lambda>e. archive_safe archived A (Some m))"
      by (rule hoare_weaken [OF archive_outcome [OF queue]]) (auto simp: safe_settled_def)
  qed (rule hoare_ret, simp)
  have unclaimed: "delivers_safely archived A m
      (and_then (in_store env ?get) (\<lambda>c.
       and_then (if (case c of None \<Rightarrow> False | Some t \<Rightarrow> pt_status t \<in> {SUCCEEDED, SUPERSEDED, FAILED_MANUAL_REVIEW})
         then archive_message env m else ret ()) (\<lambda>_. ret (worker_result Stale m i reason))))" for i reason
    by (rule hoare_and_then, rule in_store_outcome [where R = ?existing, OF others get], assumption,
        rule hoare_and_then [OF archive stale_outcome])
  show ?thesis
    unfolding handle_message_def Let_def
  proof (rule hoare_and_then [OF kept_now], rule hoare_and_then,
      rule in_store_outcome [where R = ?claimed, OF others claim], assumption)
    fix c
    show "hoare (\<lambda>w. archive_safe archived A (Some m) w \<and> ?claimed c (ww_store w))
      (case c of None \<Rightarrow>
          and_then (in_store env ?get) (\<lambda>c.
          and_then (if (case c of None \<Rightarrow> False | Some t \<Rightarrow> pt_status t \<in> {SUCCEEDED, SUPERSEDED, FAILED_MANUAL_REVIEW})
            then archive_message env m else ret ())
            (\<lambda>_. ret (worker_result Stale m (te_task_id (qm_envelope m)) (Some ''task is no longer claimable''))))
       | Some t \<Rightarrow> run_claimed env m t)
      (\<lambda>r w. archive_safe archived A (Some m) w \<and> outcome_true archived m r w)
      (\<lambda>e. archive_safe archived A (Some m))"
    proof (cases c)
      case None
      show ?thesis unfolding None option.case by (rule hoare_weaken [OF unclaimed]) auto
    next
      case (Some t)
      show ?thesis
      proof (cases "belongs_to t m")
        case True
        show ?thesis
          unfolding Some option.case by (rule hoare_weaken [OF claimed_outcome [OF others queue True]]) auto
      qed (simp add: Some hoare_def)
    qed
  qed
qed

section \<open>A whole run\<close>

definition result_true :: "('q \<Rightarrow> int set) \<Rightarrow> worker_run_result \<Rightarrow> 'q worker_world \<Rightarrow> bool" where
  "result_true archived r w \<longleftrightarrow>
     (case ww_message w of
        None \<Rightarrow> wr_outcome r \<in> {NoSlot, NoMessage, Stale} \<and> wr_message_id r = None
      | Some m \<Rightarrow> outcome_true archived m r w)"

definition any_safe :: "('q \<Rightarrow> int set) \<Rightarrow> int set \<Rightarrow> 'q worker_world \<Rightarrow> bool" where
  "any_safe archived A w \<longleftrightarrow> archive_safe archived A (ww_message w) w"

abbreviation runs_safely ::
  "('q \<Rightarrow> int set) \<Rightarrow> int set \<Rightarrow> ('q worker_world \<Rightarrow> bool) \<Rightarrow>
   ('q worker_world, 'e, worker_run_result) act \<Rightarrow> bool" where
  "runs_safely archived A P act \<equiv> hoare P act
     (\<lambda>r w. any_safe archived A w \<and> result_true archived r w) (\<lambda>e. any_safe archived A)"

lemma archive_safe_any: "archive_safe archived A m w \<Longrightarrow> any_safe archived A w \<and> ww_message w = m"
  by (auto simp: any_safe_def archive_safe_def)

lemma delivers_runs:
  "delivers_safely archived A m act \<Longrightarrow> runs_safely archived A (archive_safe archived A (Some m)) act"
  by (rule hoare_weaken, assumption) (auto dest: archive_safe_any simp: result_true_def)

lemma body_outcome:
  assumes others: "others_ok env" and queue: "queue_ok (we_queue_port env) archived"
  shows "runs_safely archived A (archive_safe archived A None) (worker_body env)"
proof -
  have read: "kept archived A None (on_queue (qp_read_one (we_queue_port env) u))" for u
  proof (rule hoare_on_queue)
    have same: "archived q' = archived q" if "qp_read_one (we_queue_port env) u q = (r, q')" for q r q'
      using queue that unfolding queue_ok_def by (metis snd_conv)
    show "archive_safe archived A None w \<Longrightarrow> qp_read_one (we_queue_port env) u (ww_queue w) = (Inl e, q) \<Longrightarrow>
        archive_safe archived A None (w\<lparr>ww_queue := q\<rparr>)" for w e q
      by (erule archive_safe_queue, erule same)
    show "archive_safe archived A None w \<Longrightarrow> qp_read_one (we_queue_port env) u (ww_queue w) = (Inr x, q) \<Longrightarrow>
        archive_safe archived A None (w\<lparr>ww_queue := q\<rparr>)" for w x q
      by (erule archive_safe_queue, erule same)
  qed
  have message: "hoare (archive_safe archived A None) (set_message m)
      (\<lambda>u. archive_safe archived A m) (\<lambda>e. any_safe archived A)" for m
    by (auto simp: hoare_def set_message_def archive_safe_def)
  have rest: "runs_safely archived A (archive_safe archived A m)
      (case m of None \<Rightarrow> ret no_message_result | Some k \<Rightarrow> handle_message env k)" for m
  proof (cases m)
    case None
    show ?thesis
      unfolding None option.case
      by (rule hoare_ret) (auto simp: result_true_def no_message_result_def dest: archive_safe_any)
  next
    case (Some k)
    show ?thesis unfolding Some option.case by (rule delivers_runs [OF handle_outcome [OF others queue]])
  qed
  have error: "hoare P act Q (\<lambda>e. archive_safe archived A None) \<Longrightarrow> hoare P act Q (\<lambda>e. any_safe archived A)"
    for P :: "'a worker_world \<Rightarrow> bool" and act :: "('a, 'b) worker_act" and Q
    by (rule hoare_weaken, assumption) (auto dest: archive_safe_any)
  show ?thesis
    unfolding worker_body_def
    by (rule hoare_and_then [OF error [OF kept_now]],
        rule hoare_and_then, rule hoare_weaken [OF kept_reclaim [OF others]], assumption, assumption,
        blast dest: archive_safe_any,
        rule hoare_and_then, rule hoare_weaken [OF read], assumption, assumption,
        blast dest: archive_safe_any, rule hoare_and_then [OF message rest])
qed

lemma recover_outcome:
  assumes others: "others_ok env" and queue: "queue_ok (we_queue_port env) archived"
  shows "runs_safely archived A (any_safe archived A) (recover_worker env text)"
proof -
  let ?existing = "\<lambda>m c st. \<forall>t. c = Some t \<longrightarrow> belongs_to t m"
  let ?get = "\<lambda>m st. Inr (get_task no_actor (te_task_id (qm_envelope m)) (Some (te_case_id (qm_envelope m))) None st, st)"
  have get: "store_step\<^sup>*\<^sup>* st st' \<and> ?existing m c st'" if "?get m st = Inr (c, st')" for m st c st'
    using that get_belongs [of m st] by auto
  have handler: "hoare (archive_safe archived A (Some m)) (case e of
       StaleTaskExn \<Rightarrow> raise (WorkerRunError ''worker processing failed'')
     | LeaseLostExn \<Rightarrow> raise (WorkerRunError ''worker processing failed'')
     | OtherExn msg \<Rightarrow> raise (Escaped (OtherExn msg)) | WorkerDied \<Rightarrow> raise RunDied) Q (\<lambda>e. any_safe archived A)"
    for m Q and e :: worker_exn
    by (cases e) (auto simp: hoare_def dest: archive_safe_any)
  have "runs_safely archived A (archive_safe archived A m) (case m of
       None \<Rightarrow> raise (WorkerRunError ''worker failed before receiving a message'')
     | Some m \<Rightarrow>
         attempt
           (and_then (in_store env (?get m)) (\<lambda>task. case task of
              Some t \<Rightarrow>
                if pt_lease_token t = Some (we_lease_token env)
                then retry_delivery env m t (take 500 (''worker exception: '' @ text))
                else raise LeaseLostExn
            | None \<Rightarrow> raise LeaseLostExn))
           (\<lambda>e. case e of
              StaleTaskExn \<Rightarrow> raise (WorkerRunError ''worker processing failed'')
            | LeaseLostExn \<Rightarrow> raise (WorkerRunError ''worker processing failed'')
            | OtherExn msg \<Rightarrow> raise (Escaped (OtherExn msg)) | WorkerDied \<Rightarrow> raise RunDied))" for m
  proof (cases m)
    case None
    show ?thesis unfolding None option.case by (rule hoare_raise) (blast dest: archive_safe_any)
  next
    case (Some k)
    have inner: "hoare (\<lambda>w. archive_safe archived A (Some k) w \<and> ?existing k c (ww_store w))
        (case c of
              Some t \<Rightarrow>
                if pt_lease_token t = Some (we_lease_token env)
                then retry_delivery env k t (take 500 (''worker exception: '' @ text))
                else raise LeaseLostExn
            | None \<Rightarrow> raise LeaseLostExn)
        (\<lambda>r w. any_safe archived A w \<and> result_true archived r w) (\<lambda>e. archive_safe archived A (Some k))" for c
    proof (cases c)
      case c: (Some t)
      show ?thesis
      proof (cases "belongs_to t k \<and> pt_lease_token t = Some (we_lease_token env)")
        case True
        then have "delivers_safely archived A k
            (retry_delivery env k t (take 500 (''worker exception: '' @ text)))"
          by (intro retry_outcome [OF others queue]) simp
        with c True show ?thesis
          by (auto elim!: hoare_weaken dest: archive_safe_any simp: result_true_def)
      qed (auto simp: c hoare_def)
    qed (simp add: hoare_def)
    show ?thesis
      unfolding Some option.case
      by (rule hoare_attempt [OF _ handler], rule hoare_and_then,
          rule in_store_outcome [where R = "?existing k", OF others get], assumption, rule inner)
  qed
  then show ?thesis
    unfolding recover_worker_def
    by (intro hoare_and_then [where R = "\<lambda>m. archive_safe archived A m"] hoare_reading) (simp add: any_safe_def)
qed

lemma guarded_outcome:
  assumes others: "others_ok env" and queue: "queue_ok (we_queue_port env) archived"
  shows "runs_safely archived A (archive_safe archived A None) (guarded_body env)"
proof -
  have start: "hoare (archive_safe archived A None) (set_message None) (\<lambda>u. archive_safe archived A None) E" for E
    by (auto simp: hoare_def set_message_def archive_safe_def)
  have stale: "runs_safely archived A (any_safe archived A) (reading (\<lambda>w. stale_result (ww_message w)))"
    by (rule hoare_reading)
      (simp add: result_true_def stale_result_def outcome_true_def split: option.split)
  have handler: "runs_safely archived A (any_safe archived A) (case e of
       StaleTaskExn \<Rightarrow> reading (\<lambda>w. stale_result (ww_message w))
     | LeaseLostExn \<Rightarrow> reading (\<lambda>w. stale_result (ww_message w))
     | OtherExn text \<Rightarrow> recover_worker env text
     | WorkerDied \<Rightarrow> raise RunDied)" for e
    by (cases e) (simp_all add: stale recover_outcome [OF others queue] hoare_raise)
  show ?thesis
    unfolding guarded_body_def
    by (rule hoare_attempt [OF hoare_and_then [OF start body_outcome [OF others queue]] handler])
qed

lemma release_safe:
  assumes "others_ok env"
  shows "any_safe archived A w \<Longrightarrow> any_safe archived A (release_slot env w)"
    and "result_true archived r w \<Longrightarrow> result_true archived r (release_slot env w)"
proof -
  let ?st = "we_others env (ww_ticks w) (ww_store w)"
  let ?st' = "release_worker_slot (we_worker_id env) (we_lease_token env) ?st"
  have "store_step\<^sup>*\<^sup>* (ww_store w) ?st" using assms by (simp add: others_ok_def)
  moreover have "store_step\<^sup>*\<^sup>* ?st ?st'" by (rule same_tasks_steps) (rule slot_tasks(3))
  ultimately have steps: "store_step\<^sup>*\<^sup>* (ww_store w) ?st'" by simp
  have w': "release_slot env w = w\<lparr>ww_store := ?st', ww_ticks := Suc (ww_ticks w)\<rparr>"
    by (simp add: release_slot_def Let_def)
  show "any_safe archived A w \<Longrightarrow> any_safe archived A (release_slot env w)"
    unfolding w' any_safe_def using archive_safe_steps [OF _ steps] by fastforce
  show "result_true archived r w \<Longrightarrow> result_true archived r (release_slot env w)"
    unfolding w' result_true_def outcome_true_def using settled_as_steps [OF steps]
    by (auto split: option.splits)
qed

lemma run_outcome:
  assumes others: "others_ok env" and queue: "queue_ok (we_queue_port env) archived"
  shows "runs_safely archived A (archive_safe archived A None) (run_once env)"
proof -
  have acquire: "hoare (archive_safe archived A None) (on_error Escaped (and_then (worker_now env) (\<lambda>now.
       in_store env (acquire_worker_slot (we_worker_id env) (we_lease_token env) (now + we_slot_lease env)))))
       (\<lambda>b. archive_safe archived A None) (\<lambda>e. any_safe archived A)"
    using hoare_and_then [OF kept_now kept_acquire [OF others]]
    unfolding hoare_def on_error_def by (fastforce dest: archive_safe_any split: prod.splits sum.splits)
  have none: "runs_safely archived A (archive_safe archived A None)
      (ret \<lparr>wr_outcome = NoSlot, wr_task_id = None, wr_message_id = None, wr_reason = None,
               wr_case_id = None, wr_task_type = None\<rparr>)"
    by (rule hoare_ret) (auto simp: result_true_def dest: archive_safe_any)
  have body: "runs_safely archived A (archive_safe archived A None)
      (\<lambda>w. case guarded_body env w of
             (Inl RunDied, w') \<Rightarrow> (Inl RunDied, w')
           | (res, w') \<Rightarrow> (res, release_slot env w'))"
  proof (rule hoareI)
    fix w e w' assume safe: "archive_safe archived A None w"
      and run: "(case guarded_body env w of (Inl RunDied, w') \<Rightarrow> (Inl RunDied, w')
           | (res, w') \<Rightarrow> (res, release_slot env w')) = (Inl e, w')"
    then obtain v where "guarded_body env w = (Inl e, v)" "w' = v \<or> w' = release_slot env v"
      by (auto split: prod.splits sum.splits run_failure.splits)
    with hoareD_Inl [OF guarded_outcome [OF others queue] safe] release_safe(1) [OF others]
    show "any_safe archived A w'" by blast
  next
    fix w r w' assume safe: "archive_safe archived A None w"
      and run: "(case guarded_body env w of (Inl RunDied, w') \<Rightarrow> (Inl RunDied, w')
           | (res, w') \<Rightarrow> (res, release_slot env w')) = (Inr r, w')"
    then obtain v where "guarded_body env w = (Inr r, v)" "w' = release_slot env v"
      by (auto split: prod.splits sum.splits run_failure.splits)
    with hoareD_Inr [OF guarded_outcome [OF others queue] safe] release_safe [OF others]
    show "any_safe archived A w' \<and> result_true archived r w'" by blast
  qed
  show ?thesis unfolding run_once_def by (intro hoare_and_then [OF acquire] hoare_if none body)
qed

section \<open>Properties\<close>

text \<open>
  C6: A run of the worker, whether it returns, raises or dies, archives at most the
  message it has read, and that only when the task of the envelope is durably in a
  terminal status; whatever the processor does, however its calls interleave with
  the heartbeats and with other users of the task table.
\<close>

theorem worker_archives_settled:
  assumes "others_ok env" and "queue_ok (we_queue_port env) archived"
    and "ww_message w = None" and "run_once env w = (res, w')"
  shows "\<forall>i\<in>archived (ww_queue w') - archived (ww_queue w). \<exists>m. ww_message w' = Some m \<and>
    qm_message_id m = i \<and>
    (\<exists>t\<in>set (st_tasks (ww_store w')). pt_id t = te_task_id (qm_envelope m) \<and>
       pt_case_id t = te_case_id (qm_envelope m) \<and> terminal_status (pt_status t))"
proof -
  have "archive_safe archived (archived (ww_queue w)) None w" using assms(3) by (simp add: archive_safe_def)
  with run_outcome [OF assms(1,2), of "archived (ww_queue w)"] assms(4)
  have "any_safe archived (archived (ww_queue w)) w'"
    by (cases res) (auto dest: hoareD_Inl hoareD_Inr)
  then show ?thesis unfolding any_safe_def archive_safe_def settled_as_def by blast
qed

text \<open>
  The outcome a run reports is durable: SUCCEEDED, SUPERSEDED and
  FAILED_MANUAL_REVIEW mean that the row of the envelope's task has that status and
  its message is archived, and the last one that its attempts are used up; NO_SLOT
  and NO_MESSAGE only come without a message.
\<close>

theorem worker_outcome_durable:
  assumes "others_ok env" and "queue_ok (we_queue_port env) archived"
    and "ww_message w = None" and "run_once env w = (Inr r, w')"
  shows "(case ww_message w' of
        None \<Rightarrow> wr_outcome r \<in> {NoSlot, NoMessage, Stale}
      | Some m \<Rightarrow> wr_message_id r = Some (qm_message_id m) \<and> wr_outcome r \<notin> {NoSlot, NoMessage} \<and>
          list_all (\<lambda>(outcome, status). wr_outcome r = outcome \<longrightarrow>
             settled_as {status} (ww_store w') (qm_envelope m) \<and> qm_message_id m \<in> archived (ww_queue w'))
            [(Succeeded, SUCCEEDED), (Superseded, SUPERSEDED), (FailedManualReview, FAILED_MANUAL_REVIEW)])"
proof -
  have "archive_safe archived (archived (ww_queue w)) None w" using assms(3) by (simp add: archive_safe_def)
  from hoareD_Inr [OF run_outcome [OF assms(1,2)] this assms(4)]
  have "result_true archived r w'" by blast
  then show ?thesis by (auto simp: result_true_def outcome_true_def split: option.splits)
qed

text \<open>
  Unless the worker dies, a run that has acquired the worker slot gives it back,
  on every path out of it.
\<close>

theorem worker_slot_released:
  assumes "in_store env (acquire_worker_slot (we_worker_id env) (we_lease_token env)
      (we_clock env (ww_store w) + we_slot_lease env)) w = (Inr True, w1)"
    and "run_once env w = (res, w')" and "res \<noteq> Inl RunDied"
  shows "case st_slot (ww_store w') of None \<Rightarrow> True
    | Some s \<Rightarrow> \<not> (ws_owner s = we_worker_id env \<and> ws_token s = we_lease_token env)"
proof -
  have "on_error Escaped (and_then (worker_now env) (\<lambda>now.
       in_store env (acquire_worker_slot (we_worker_id env) (we_lease_token env) (now + we_slot_lease env)))) w =
      (Inr True, w1)"
    using assms(1) by (simp add: worker_now_def and_then_def)
  with assms(2,3) obtain v where "w' = release_slot env v"
    unfolding run_once_def by (auto split: prod.splits sum.splits run_failure.splits)
  then show ?thesis by (auto simp: release_slot_def Let_def release_worker_slot_def split: option.splits)
qed

text \<open>
  A processor that asks for manual review gets a retry: as long as the task has
  attempts left, its row goes to RETRY_WAIT, the run reports RETRY_WAIT and the message
  stays in the queue.
\<close>

theorem manual_review_is_retried:
  assumes "we_others env = (\<lambda>n st. st)"
    and "find (holds_lease (ww_store w) (scope_of t) (we_lease_token env)) (st_tasks (ww_store w)) = Some k"
    and "pt_attempt_count k < pt_max_attempts k"
  shows "\<exists>w'. settle_stage env m t \<lparr>sr_status = FailedManualReview, sr_reason = ''unknown type''\<rparr> w =
      (Inr (worker_result RetryWait m (pt_id t) (Some ''unknown type'')), w') \<and> ww_queue w' = ww_queue w \<and>
    (\<exists>k'\<in>set (st_tasks (ww_store w')). pt_id k' = pt_id t \<and> pt_status k' = RETRY_WAIT)"
proof -
  let ?st = "ww_store w" and ?now = "we_clock env (ww_store w)"
  let ?row = "retry_row ''unknown type'' ?now (we_retry_base env) (st_clock ?st)"
  let ?P = "holds_lease ?st (scope_of t) (we_lease_token env)"
  let ?st' = "?st\<lparr>st_tasks := map (\<lambda>t. if ?P t then ?row t else t) (st_tasks ?st)\<rparr>"
  have row: "pt_status (?row k) = RETRY_WAIT" using assms(3) by (simp add: retry_row_def)
  have run: "retry_or_fail (scope_of t) (we_lease_token env) ''unknown type'' ?now (we_retry_base env) ?st =
      Inr (\<lparr>rd_status = RETRY_WAIT, rd_attempt_count = pt_attempt_count (?row k),
            rd_available_at = pt_available_at (?row k), rd_reason = ''unknown type''\<rparr>, ?st')"
    using assms(2) row by (simp add: retry_or_fail_def update_task_def)
  define w' where "w' = w\<lparr>ww_store := ?st', ww_ticks := Suc (ww_ticks w)\<rparr>"
  have "settle_stage env m t \<lparr>sr_status = FailedManualReview, sr_reason = ''unknown type''\<rparr> w =
      (Inr (worker_result RetryWait m (pt_id t) (Some ''unknown type'')), w')"
    by (simp add: settle_stage_def retry_delivery_def worker_now_def and_then_def in_store_def Let_def
        assms(1) run w'_def)
  moreover have "?row k \<in> set (st_tasks (ww_store w'))"
    using assms(2) by (auto simp: w'_def find_Some_iff intro!: image_eqI [of _ _ k])
  moreover have "pt_id (?row k) = pt_id t"
    using assms(2) by (auto simp: find_Some_iff holds_lease_def in_scope_def scope_of_def retry_row_def)
  moreover have "ww_queue w' = ww_queue w" by (simp add: w'_def)
  ultimately show ?thesis using row by blast
qed

section \<open>A concrete run\<close>

type_synonym sample_queue = "(int \<times> task_envelope) list \<times> int list"

definition sample_pgmq :: "sample_queue pgmq" where
  "sample_pgmq =
     \<lparr>pg_send = (\<lambda>env delay q. (Some 1, ((1, env) # fst q, snd q))),
      pg_read = (\<lambda>timeout q. (case fst q of [] \<Rightarrow> None | (i, e) # _ \<Rightarrow> Some (i, 1, 0, 0, Some JNull), q)),
      pg_set_vt = (\<lambda>i timeout q. (Some True, q)),
      pg_archive = (\<lambda>i q. (Some True, (filter (\<lambda>m. fst m \<noteq> i) (fst q), i # snd q))),
      pg_decode = (\<lambda>j. Some \<lparr>te_task_id = 1, te_case_id = 7, te_case_version = 2,
        te_task_type = CREDIT_UNDERWRITING, te_document_version_id = None\<rparr>)\<rparr>"

definition sample_worker :: "sample_queue worker_env" where
  "sample_worker =
     \<lparr>we_worker_id = 61, we_lease_token = 62, we_clock = st_clock, we_slot_lease = 300,
      we_visibility = 300, we_retry_base = 30, we_queue_port = supabase_queue sample_pgmq,
      we_others = (\<lambda>n st. st),
      we_process = (\<lambda>t k. [Heartbeat False, SaveCheckpoint ''STAGE'' JNull,
        StageReturns \<lparr>sr_status = Succeeded, sr_reason = []\<rparr>])\<rparr>"

definition sample_world :: "sample_queue worker_world" where
  "sample_world =
     \<lparr>ww_store = lease_store, ww_queue = ([(9, \<lparr>te_task_id = 1, te_case_id = 7, te_case_version = 2,
        te_task_type = CREDIT_UNDERWRITING, te_document_version_id = None\<rparr>)], []),
      ww_ticks = 0, ww_message = None, ww_latest = None\<rparr>"

lemma sample_queue_ok: "queue_ok (we_queue_port sample_worker) (set \<circ> snd)"
  by (auto simp: queue_ok_def sample_worker_def supabase_queue_def sample_pgmq_def queue_read_one_def
      queue_extend_visibility_def queue_archive_def max_delay_def split: list.splits if_splits)

lemma sample_others_ok: "others_ok sample_worker"
  by (simp add: others_ok_def sample_worker_def)

lemma sample_run:
  "map_sum (\<lambda>e. ()) wr_outcome (fst (run_once sample_worker sample_world)) = Inr Succeeded"
  by code_simp

lemma sample_run_result:
  "\<exists>r w'. run_once sample_worker sample_world = (Inr r, w') \<and> wr_outcome r = Succeeded"
  using sample_run by (cases "run_once sample_worker sample_world"; cases "fst (run_once sample_worker sample_world)") auto

lemma sample_acquire:
  "case in_store sample_worker (acquire_worker_slot (we_worker_id sample_worker) (we_lease_token sample_worker)
      (we_clock sample_worker (ww_store sample_world) + we_slot_lease sample_worker)) sample_world of
     (res, w) \<Rightarrow> res = Inr True"
  by (simp add: sample_worker_def sample_world_def in_store_def acquire_worker_slot_def lease_store_def Let_def)

lemma sample_archived: "snd (ww_queue (snd (run_once sample_worker sample_world))) = [9]"
  by code_simp

theorem worker_archives_settled_witness:
  "\<exists>m t. ww_message (snd (run_once sample_worker sample_world)) = Some m \<and> qm_message_id m = 9 \<and>
     t \<in> set (st_tasks (ww_store (snd (run_once sample_worker sample_world)))) \<and>
     pt_id t = te_task_id (qm_envelope m) \<and> terminal_status (pt_status t)"
  using worker_archives_settled [OF sample_others_ok sample_queue_ok, of sample_world
      "fst (run_once sample_worker sample_world)" "snd (run_once sample_worker sample_world)"]
    sample_archived
  by (auto simp: sample_world_def)

theorem worker_outcome_durable_witness:
  "\<exists>r w' m. run_once sample_worker sample_world = (Inr r, w') \<and> ww_message w' = Some m \<and>
     settled_as {SUCCEEDED} (ww_store w') (qm_envelope m)"
proof -
  obtain r w' where run: "run_once sample_worker sample_world = (Inr r, w')" and r: "wr_outcome r = Succeeded"
    using sample_run_result by blast
  have "ww_message sample_world = None" by (simp add: sample_world_def)
  from worker_outcome_durable [OF sample_others_ok sample_queue_ok this run] r run show ?thesis
    by (auto split: option.splits)
qed

theorem worker_slot_released_witness:
  "case st_slot (ww_store (snd (run_once sample_worker sample_world))) of None \<Rightarrow> True
   | Some s \<Rightarrow> \<not> (ws_owner s = we_worker_id sample_worker \<and> ws_token s = we_lease_token sample_worker)"
proof -
  obtain w1 where acquired: "in_store sample_worker (acquire_worker_slot (we_worker_id sample_worker)
      (we_lease_token sample_worker) (we_clock sample_worker (ww_store sample_world) + we_slot_lease sample_worker))
      sample_world = (Inr True, w1)"
    using sample_acquire by (auto split: prod.splits)
  obtain r w' where run: "run_once sample_worker sample_world = (Inr r, w')" using sample_run_result by blast
  have "Inr r \<noteq> Inl RunDied" by simp
  from worker_slot_released [OF acquired run this] show ?thesis using run by simp
qed

theorem manual_review_is_retried_witness:
  "\<exists>w'. settle_stage (sample_worker\<lparr>we_lease_token := 31\<rparr>)
      \<lparr>qm_message_id = 9, qm_read_count = 1, qm_enqueued_at = 0, qm_visible_at = 0,
       qm_envelope = \<lparr>te_task_id = 2, te_case_id = 7, te_case_version = 2,
         te_task_type = LEGAL_COMPLIANCE_COLLATERAL, te_document_version_id = None\<rparr>\<rparr>
      (new_task 2 7 2 LEGAL_COMPLIANCE_COLLATERAL ''k2'' (JObj []) 50)
      \<lparr>sr_status = FailedManualReview, sr_reason = ''unknown type''\<rparr>
      (sample_world\<lparr>ww_store := lease_store\<lparr>st_clock := 60\<rparr>\<rparr>) =
    (Inr \<lparr>wr_outcome = RetryWait, wr_task_id = Some 2, wr_message_id = Some 9,
          wr_reason = Some ''unknown type'', wr_case_id = None, wr_task_type = None\<rparr>, w')"
proof -
  let ?env = "sample_worker\<lparr>we_lease_token := 31\<rparr>" and ?w = "sample_world\<lparr>ww_store := lease_store\<lparr>st_clock := 60\<rparr>\<rparr>"
  let ?m = "\<lparr>qm_message_id = 9, qm_read_count = 1, qm_enqueued_at = 0, qm_visible_at = 0,
       qm_envelope = \<lparr>te_task_id = 2, te_case_id = 7, te_case_version = 2,
         te_task_type = LEGAL_COMPLIANCE_COLLATERAL, te_document_version_id = None\<rparr>\<rparr>"
  let ?t = "new_task 2 7 2 LEGAL_COMPLIANCE_COLLATERAL ''k2'' (JObj []) 50"
  let ?k = "?t\<lparr>pt_status := RUNNING, pt_attempt_count := 2, pt_lease_token := Some 31, pt_lease_until := Some 90\<rparr>"
  have "we_others ?env = (\<lambda>n st. st)" by (simp add: sample_worker_def)
  moreover have "find (holds_lease (ww_store ?w) (scope_of ?t) (we_lease_token ?env)) (st_tasks (ww_store ?w)) = Some ?k"
    by (simp add: sample_world_def sample_worker_def lease_store_def holds_lease_def in_scope_def scope_of_def new_task_def)
  moreover have "pt_attempt_count ?k < pt_max_attempts ?k" by (simp add: new_task_def)
  ultimately obtain w' where "settle_stage ?env ?m ?t \<lparr>sr_status = FailedManualReview, sr_reason = ''unknown type''\<rparr> ?w =
      (Inr (worker_result RetryWait ?m (pt_id ?t) (Some ''unknown type'')), w')"
    using manual_review_is_retried [of ?env ?w ?t ?k ?m] by blast
  then show ?thesis by (simp only: worker_result_def) (simp add: new_task_def)
qed

end
