(* ===== verification/Decimal_Context.thy ===== *)
theory Decimal_Context
  imports Prelude Complex_Main
begin

text \<open>
  Python's \<open>decimal\<close> module as the calculators use it: finite values are rationals,
  and the operators round their exact result to the 28 significant digits of the
  default context, half to even; \<open>quantize\<close> rounds half up (away from zero) and
  raises when the result needs more digits than the context has.  The exponent
  limits of the context and the sign of a zero are left out.
\<close>

section \<open>Rounding\<close>

type_synonym decimal = rat

definition half_even :: "rat \<Rightarrow> int" where
  "half_even x =
     (let n = \<lfloor>x\<rfloor>; r = x - of_int n
      in if r < 1 / 2 then n else if 1 / 2 < r then n + 1 else if even n then n else n + 1)"

definition half_up :: "rat \<Rightarrow> int" where
  "half_up x = (if 0 \<le> x then \<lfloor>x + 1 / 2\<rfloor> else - \<lfloor>- x + 1 / 2\<rfloor>)"

definition pow10 :: "int \<Rightarrow> rat" where
  "pow10 e = (if 0 \<le> e then 10 ^ nat e else 1 / 10 ^ nat (- e))"

fun digit_count :: "nat \<Rightarrow> nat" where
  "digit_count n = (if n < 10 then 1 else Suc (digit_count (n div 10)))"

declare digit_count.simps [simp del]

definition context_digits :: nat where
  "context_digits = 28"

text \<open>The exponent at which \<open>x\<close> has 28 digits.\<close>

definition context_exponent :: "rat \<Rightarrow> int" where
  "context_exponent x =
     (let (p, q) = quotient_of x;
          e = int (digit_count (nat \<bar>p\<bar>)) - int (digit_count (nat q)) - int context_digits
      in if 10 ^ context_digits * pow10 e \<le> \<bar>x\<bar> then e + 1 else e)"

definition in_context :: "rat \<Rightarrow> decimal" where
  "in_context x =
     (if x = 0 then 0
      else let u = pow10 (context_exponent x) in of_int (half_even (x / u)) * u)"

definition dec_add :: "decimal \<Rightarrow> decimal \<Rightarrow> decimal" where
  "dec_add x y = in_context (x + y)"

definition dec_sub :: "decimal \<Rightarrow> decimal \<Rightarrow> decimal" where
  "dec_sub x y = in_context (x - y)"

definition dec_mul :: "decimal \<Rightarrow> decimal \<Rightarrow> decimal" where
  "dec_mul x y = in_context (x * y)"

definition dec_div :: "decimal \<Rightarrow> decimal \<Rightarrow> decimal" where
  "dec_div x y = in_context (x / y)"

definition dec_abs :: "decimal \<Rightarrow> decimal" where
  "dec_abs x = in_context \<bar>x\<bar>"

datatype decimal_error = InvalidOperation

text \<open>\<open>value.quantize(Decimal(1).scaleb(-k), rounding=ROUND_HALF_UP)\<close>.\<close>

definition quantize_half_up :: "nat \<Rightarrow> decimal \<Rightarrow> decimal_error + decimal" where
  "quantize_half_up k x =
     (let c = half_up (x * 10 ^ k)
      in if 10 ^ context_digits \<le> \<bar>c\<bar> then Inl InvalidOperation else Inr (of_int c / 10 ^ k))"

section \<open>Laws of the rounding modes\<close>

lemma half_even_of_int [simp]: "half_even (of_int n) = n"
  by (simp add: half_even_def)

lemma half_up_of_int [simp]: "half_up (of_int n) = n"
proof -
  have "\<lfloor>rat_of_int m + 1 / 2\<rfloor> = m" for m by linarith
  from this [of n] this [of "- n"] show ?thesis by (simp add: half_up_def)
qed

lemma half_even_error: "\<bar>of_int (half_even x) - x\<bar> \<le> 1 / 2"
proof -
  have "of_int \<lfloor>x\<rfloor> \<le> x" "x < of_int \<lfloor>x\<rfloor> + 1" by linarith+
  then show ?thesis by (auto simp: half_even_def Let_def abs_le_iff split: if_splits)
qed

lemma half_up_error: "\<bar>of_int (half_up x) - x\<bar> \<le> 1 / 2"
proof (cases "0 \<le> x")
  case True
  have "of_int \<lfloor>x + 1 / 2\<rfloor> \<le> x + 1 / 2" "x + 1 / 2 < of_int \<lfloor>x + 1 / 2\<rfloor> + 1" by linarith+
  then have "\<bar>of_int \<lfloor>x + 1 / 2\<rfloor> - x\<bar> \<le> 1 / 2" by linarith
  then show ?thesis using True unfolding half_up_def by simp
next
  case False
  have "of_int \<lfloor>- x + 1 / 2\<rfloor> \<le> - x + 1 / 2" "- x + 1 / 2 < of_int \<lfloor>- x + 1 / 2\<rfloor> + 1" by linarith+
  then have "\<bar>of_int (- \<lfloor>- x + 1 / 2\<rfloor>) - x\<bar> \<le> 1 / 2" unfolding of_int_minus by linarith
  then show ?thesis using False unfolding half_up_def by presburger
qed

lemma half_up_mono: "x \<le> y \<Longrightarrow> half_up x \<le> half_up y"
proof (cases "0 \<le> x \<or> y < 0")
  case False
  then have neg: "\<not> 0 \<le> x" and pos: "0 \<le> y" by auto
  then have "\<lfloor>- x + 1 / 2\<rfloor> \<ge> 0" "\<lfloor>y + 1 / 2\<rfloor> \<ge> 0" by linarith+
  then have "- \<lfloor>- x + 1 / 2\<rfloor> \<le> \<lfloor>y + 1 / 2\<rfloor>" by linarith
  then show ?thesis using neg pos unfolding half_up_def by simp
qed (auto simp: half_up_def intro!: floor_mono)

lemma half_up_nonneg: "0 \<le> x \<Longrightarrow> 0 \<le> half_up x"
  using half_up_mono [of 0 x] half_up_of_int [of 0] by simp

lemma quantize_Inr:
  "quantize_half_up k x = Inr y \<longleftrightarrow>
     \<bar>half_up (x * 10 ^ k)\<bar> < 10 ^ context_digits \<and> y = of_int (half_up (x * 10 ^ k)) / 10 ^ k"
  by (auto simp: quantize_half_up_def Let_def not_le)

lemma quantize_error: "quantize_half_up k x = Inr y \<Longrightarrow> \<bar>y - x\<bar> \<le> 1 / (2 * 10 ^ k)"
proof -
  assume "quantize_half_up k x = Inr y"
  then have "y = of_int (half_up (x * 10 ^ k)) / 10 ^ k" by (simp add: quantize_Inr)
  then have "(y - x) * 10 ^ k = of_int (half_up (x * 10 ^ k)) - x * 10 ^ k" by (simp add: field_simps)
  moreover have "\<bar>(y - x) * 10 ^ k\<bar> = \<bar>y - x\<bar> * 10 ^ k" by (simp add: abs_mult)
  ultimately have "\<bar>y - x\<bar> * 10 ^ k \<le> 1 / 2" using half_up_error [of "x * 10 ^ k"] by linarith
  then show ?thesis by (simp add: field_simps)
qed

section \<open>Exact results\<close>

lemma pow10_pos [simp]: "0 < pow10 e"
  by (simp add: pow10_def)

lemma pow10_abs [simp]: "\<bar>pow10 e\<bar> = pow10 e"
  using pow10_pos [of e] by (rule abs_of_pos)

lemma pow10_nonzero [simp]: "pow10 e \<noteq> 0"
  using pow10_pos [of e] by (rule less_imp_neq [symmetric])

lemma pow10_powi: "pow10 e = 10 powi e"
  by (simp add: pow10_def power_int_def power_one_over)

lemma pow10_add: "pow10 (a + b) = pow10 a * pow10 b"
  by (simp add: pow10_powi power_int_add)

lemma pow10_nat: "pow10 (int n) = 10 ^ n"
  by (simp add: pow10_def)

lemma pow10_less: "pow10 a < pow10 b \<longleftrightarrow> a < b"
proof -
  have "a < b \<Longrightarrow> pow10 a < pow10 b" for a b
  proof -
    assume "a < b"
    then have "pow10 b = pow10 a * 10 ^ nat (b - a)" "0 < nat (b - a)"
      by (simp_all flip: pow10_nat pow10_add)
    then show ?thesis by (simp add: one_less_power)
  qed
  then show ?thesis by (metis linorder_neqE_linordered_idom not_less_iff_gr_or_eq)
qed

lemma digit_count_bounds: "n < 10 ^ digit_count n \<and> (0 < n \<longrightarrow> 10 ^ (digit_count n - 1) \<le> n) \<and> 0 < digit_count n"
proof (induction n rule: digit_count.induct)
  case (1 n)
  show ?case
  proof (cases "n < 10")
    case False
    then have count: "digit_count n = Suc (digit_count (n div 10))" by (simp add: digit_count.simps [of n])
    obtain k where k: "digit_count (n div 10) = Suc k" using 1 [OF False] by (cases "digit_count (n div 10)") auto
    have "0 < n div 10" using False by simp
    with 1 [OF False] k have "n div 10 < 10 ^ Suc k" "10 ^ k \<le> n div 10" by auto
    then show ?thesis unfolding count k by auto
  qed (simp add: digit_count.simps [of n])
qed

lemma context_exponent_lower:
  assumes "x \<noteq> 0"
  shows "10 ^ 27 * pow10 (context_exponent x) \<le> \<bar>x\<bar>"
proof -
  obtain p q where pq: "quotient_of x = (p, q)" by fastforce
  then have q: "0 < q" and x: "x = of_int p / of_int q"
    by (auto intro: quotient_of_denom_pos quotient_of_div)
  let ?dp = "digit_count (nat \<bar>p\<bar>)" and ?dq = "digit_count (nat q)"
  let ?e = "int ?dp - int ?dq - int context_digits"
  have "p \<noteq> 0" using x assms by auto
  then have "10 ^ (?dp - 1) \<le> nat \<bar>p\<bar>" "nat q < 10 ^ ?dq" "0 < ?dp"
    using digit_count_bounds [of "nat \<bar>p\<bar>"] digit_count_bounds [of "nat q"] by auto
  then have p': "(10::int) ^ (?dp - 1) \<le> \<bar>p\<bar>" and q': "q < 10 ^ ?dq" and dp: "0 < ?dp"
    by (simp_all add: nat_less_iff le_nat_iff)
  have p'': "(10::rat) ^ (?dp - 1) \<le> of_int \<bar>p\<bar>" using of_int_le_iff [where 'a = rat, THEN iffD2, OF p'] by simp
  have q'': "rat_of_int q < 10 ^ ?dq" using of_int_less_iff [where 'a = rat, THEN iffD2, OF q'] by simp
  have "10 ^ 27 * pow10 ?e = pow10 (int (?dp - 1)) / pow10 (int ?dq)"
  proof -
    have "27 + ?e + int ?dq = int (?dp - 1)" using dp by (simp add: context_digits_def)
    then have "pow10 (int (?dp - 1)) = pow10 27 * pow10 ?e * pow10 (int ?dq)" by (metis pow10_add)
    then show ?thesis by (simp add: pow10_def)
  qed
  also have "\<dots> \<le> of_int \<bar>p\<bar> / of_int q"
    unfolding pow10_nat using p'' q'' q by (intro frac_le) simp_all
  also have "\<dots> = \<bar>x\<bar>" using q by (simp add: x)
  finally have base: "10 ^ 27 * pow10 ?e \<le> \<bar>x\<bar>" .
  show ?thesis
  proof (cases "10 ^ context_digits * pow10 ?e \<le> \<bar>x\<bar>")
    case True
    have "10 ^ 27 * pow10 (?e + 1) = 10 ^ context_digits * pow10 ?e"
      by (simp only: pow10_add) (simp add: pow10_def context_digits_def)
    with True show ?thesis by (simp add: context_exponent_def pq)
  qed (use base in \<open>simp add: context_exponent_def pq\<close>)
qed

text \<open>A value of at most 28 digits, at whatever exponent, is kept as it is.\<close>

lemma in_context_exact:
  assumes "\<bar>c\<bar> < 10 ^ context_digits"
  shows "in_context (of_int c * pow10 e) = of_int c * pow10 e"
proof (cases "c = 0")
  case False
  let ?x = "rat_of_int c * pow10 e" let ?E = "context_exponent ?x"
  have nz: "?x \<noteq> 0" using False by simp
  have "10 ^ 27 * pow10 ?E \<le> \<bar>?x\<bar>" using context_exponent_lower [OF nz] .
  also have "\<dots> < 10 ^ context_digits * pow10 e"
    using of_int_less_iff [where 'a = rat, THEN iffD2, OF assms] by (simp add: abs_mult)
  finally have "pow10 ?E < pow10 (e + 1)"
    by (simp only: pow10_add) (simp add: pow10_def [of 1] context_digits_def)
  then have "?E \<le> e" by (simp add: pow10_less)
  then have "pow10 e = pow10 ?E * of_int (10 ^ nat (e - ?E))"
    using pow10_add [of ?E "e - ?E"] by (simp add: pow10_def [of "e - ?E"])
  then have whole: "?x = of_int (c * 10 ^ nat (e - ?E)) * pow10 ?E" by (metis mult.assoc mult.commute of_int_mult)
  then have "?x / pow10 ?E = of_int (c * 10 ^ nat (e - ?E))" by (metis nonzero_mult_div_cancel_right pow10_nonzero)
  then have "of_int (half_even (?x / pow10 ?E)) * pow10 ?E = ?x" by (metis half_even_of_int whole)
  with nz show ?thesis by (simp add: in_context_def Let_def)
qed (simp add: in_context_def)

lemma in_context_0 [simp]: "in_context 0 = 0"
  by (simp add: in_context_def)

lemma in_context_1 [simp]: "in_context 1 = 1"
  using in_context_exact [of 1 0] by (simp add: pow10_def context_digits_def)

lemma in_context_error: "\<bar>in_context x - x\<bar> \<le> \<bar>x\<bar> / (2 * 10 ^ 27)"
proof (cases "x = 0")
  case False
  let ?u = "pow10 (context_exponent x)"
  have "in_context x - x = (of_int (half_even (x / ?u)) - x / ?u) * ?u"
    using False by (simp add: in_context_def Let_def left_diff_distrib)
  then have "\<bar>in_context x - x\<bar> = \<bar>of_int (half_even (x / ?u)) - x / ?u\<bar> * ?u" by (simp add: abs_mult)
  also have "\<dots> \<le> 1 / 2 * ?u" using half_even_error by (intro mult_right_mono) (simp_all add: less_imp_le)
  also have "\<dots> \<le> \<bar>x\<bar> / (2 * 10 ^ 27)" using context_exponent_lower [OF False] by (simp add: field_simps)
  finally show ?thesis .
qed simp

lemma in_context_nonneg: "0 \<le> x \<Longrightarrow> 0 \<le> in_context x"
proof -
  assume x: "0 \<le> x"
  have "\<bar>x\<bar> / (2 * 10 ^ 27) \<le> \<bar>x\<bar> / 1" by (rule divide_left_mono) simp_all
  then have "\<bar>in_context x - x\<bar> \<le> x" using in_context_error [of x] x by simp
  then show ?thesis by linarith
qed

end
