(* ===== verification/Calculators.thy ===== *)
theory Calculators
  imports Decimal_Context "HOL-Library.List_Lexorder" "HOL-Library.Char_ord" "HOL-Library.Product_Lexorder"
    "HOL-Library.Multiset"
begin

text \<open>
  The deterministic calculators of the underwriting agent
  (\<open>application/underwriting/calculators.py\<close>, the ratios, the trend, the composed
  working-capital figures and the scenario projection).  Every calculator returns
  a result or raises \<open>InvalidOperation\<close> (a \<open>quantize\<close> that overflows the context);
  \<open>sha\<close> is the hexadecimal SHA-256 digest of the standard library.
\<close>

section \<open>Inputs and results\<close>

datatype ref_kind = CONFIRMED_FACT | DOCUMENT_REGION

fun ref_kind_value :: "ref_kind \<Rightarrow> string" where
  "ref_kind_value CONFIRMED_FACT = ''CONFIRMED_FACT''"
| "ref_kind_value DOCUMENT_REGION = ''DOCUMENT_REGION''"

record fact_ref =
  fr_kind :: ref_kind
  fr_ref_id :: string

record calculator_input =
  ci_name :: string
  ci_value :: "decimal option"
  ci_fact_refs :: "fact_ref list"

datatype outcome = Computed decimal | NotComputable string

record calculator_result =
  cr_result_id :: string
  cr_calculator :: string
  cr_inputs :: "calculator_input list"
  cr_outcome :: outcome

text \<open>The union of the references, each once, in the order of their first use.\<close>

fun union_refs :: "(string \<times> string) list \<Rightarrow> fact_ref list \<Rightarrow> fact_ref list" where
  "union_refs seen [] = []"
| "union_refs seen (r # rs) =
     (if (ref_kind_value (fr_kind r), fr_ref_id r) \<in> set seen then union_refs seen rs
      else r # union_refs ((ref_kind_value (fr_kind r), fr_ref_id r) # seen) rs)"

definition union_fact_refs :: "calculator_input list \<Rightarrow> fact_ref list" where
  "union_fact_refs inputs = union_refs [] (concat (map ci_fact_refs inputs))"

section \<open>The identifier of a result\<close>

text \<open>The number of decimals of a fraction in lowest terms, from its denominator.\<close>

function dec_places :: "nat \<Rightarrow> nat" where
  "dec_places q = (if gcd q 10 = 1 \<or> q = 0 then 0 else Suc (dec_places (q div gcd q 10)))"
  by auto

termination
proof (relation "measure id")
  fix q :: nat assume "\<not> (gcd q 10 = 1 \<or> q = 0)"
  moreover then have "gcd q 10 \<noteq> 0" by simp
  ultimately have "0 < q" "1 < gcd q 10" by linarith+
  then show "(q div gcd q 10, q) \<in> measure id" by simp
qed simp

text \<open>\<open>format(value.normalize(), "f")\<close>: normalising rounds to the context.\<close>

definition canonical_decimal :: "decimal \<Rightarrow> string" where
  "canonical_decimal x =
     (let (p, q) = quotient_of (in_context x);
          k = dec_places (nat q);
          digits = dec_digits (nat \<bar>p\<bar> * 10 ^ k div nat q);
          padded = replicate (Suc k - length digits) (CHR ''0'') @ digits;
          body = (if k = 0 then padded
                  else take (length padded - k) padded @ ''.'' @ drop (length padded - k) padded)
      in if p < 0 then CHR ''-'' # body else body)"

definition canonical_value :: "decimal option \<Rightarrow> string" where
  "canonical_value v = (case v of None \<Rightarrow> ''null'' | Some x \<Rightarrow> canonical_decimal x)"

definition input_part :: "calculator_input \<Rightarrow> string" where
  "input_part i =
     ci_name i @ ''='' @ canonical_value (ci_value i) @ ''['' @
     join_with '','' (map (\<lambda>r. ref_kind_value (fr_kind r) @ '':'' @ fr_ref_id r)
       (sort_key (\<lambda>r. (ref_kind_value (fr_kind r), fr_ref_id r)) (ci_fact_refs i))) @ '']''"

definition make_result_id :: "(string \<Rightarrow> string) \<Rightarrow> string \<Rightarrow> calculator_input list \<Rightarrow> string" where
  "make_result_id sha calculator inputs =
     ''calc_'' @ take 32 (sha (join_with ''|'' (calculator # map input_part (sort_key ci_name inputs))))"

definition build_result ::
  "(string \<Rightarrow> string) \<Rightarrow> string \<Rightarrow> calculator_input list \<Rightarrow> outcome \<Rightarrow> calculator_result" where
  "build_result sha calculator inputs out =
     \<lparr>cr_result_id = make_result_id sha calculator inputs, cr_calculator = calculator,
      cr_inputs = inputs, cr_outcome = out\<rparr>"

definition missing_reason :: "calculator_input list \<Rightarrow> string option" where
  "missing_reason inputs =
     (let names = map ci_name (filter (\<lambda>i. ci_value i = None) inputs)
      in if names = [] then None
         else Some (''not computable: missing input '' @ join_with '', '' (sort names)))"

definition quantize6 :: "decimal \<Rightarrow> decimal_error + decimal" where
  "quantize6 = quantize_half_up 6"

definition days_per_year :: decimal where
  "days_per_year = 365"

section \<open>Ratios\<close>

definition ratio ::
  "(string \<Rightarrow> string) \<Rightarrow> string \<Rightarrow> calculator_input \<Rightarrow> calculator_input \<Rightarrow> decimal \<Rightarrow> calculator_input list \<Rightarrow>
   decimal_error + calculator_result" where
  "ratio sha calculator num den scale extra =
     (let inputs = num # den # extra in
      case missing_reason inputs of
        Some reason \<Rightarrow> Inr (build_result sha calculator inputs (NotComputable reason))
      | None \<Rightarrow>
          let n = the (ci_value num); d = the (ci_value den) in
          if d = 0
          then Inr (build_result sha calculator inputs (NotComputable
                 (''not computable: division by zero ('' @ ci_name den @ '' is zero)'')))
          else rbind (quantize6 (dec_div (dec_mul n scale) d)) (\<lambda>v.
               Inr (build_result sha calculator inputs (Computed v))))"

definition difference_input :: "string \<Rightarrow> calculator_input \<Rightarrow> calculator_input \<Rightarrow> calculator_input" where
  "difference_input name left right =
     \<lparr>ci_name = name,
      ci_value = (case (ci_value left, ci_value right) of
        (Some x, Some y) \<Rightarrow> Some (dec_sub x y) | _ \<Rightarrow> None),
      ci_fact_refs = ci_fact_refs left @ ci_fact_refs right\<rparr>"

definition current_ratio where
  "current_ratio sha assets liabilities = ratio sha ''current_ratio'' assets liabilities 1 []"

definition quick_ratio where
  "quick_ratio sha assets inventory liabilities =
     (let num = difference_input ''current_assets_less_inventory'' assets inventory in
      if ci_value assets = None \<or> ci_value inventory = None
      then Inr (build_result sha ''quick_ratio'' [assets, inventory, liabilities]
             (NotComputable (the (missing_reason [assets, inventory, liabilities]))))
      else ratio sha ''quick_ratio'' num liabilities 1 [])"

definition debt_to_equity where
  "debt_to_equity sha debt equity = ratio sha ''debt_to_equity'' debt equity 1 []"

definition debt_to_assets where
  "debt_to_assets sha debt assets = ratio sha ''debt_to_assets'' debt assets 1 []"

definition gross_margin where
  "gross_margin sha profit revenue = ratio sha ''gross_margin'' profit revenue 1 []"

definition operating_margin where
  "operating_margin sha profit revenue = ratio sha ''operating_margin'' profit revenue 1 []"

definition net_margin where
  "net_margin sha profit revenue = ratio sha ''net_margin'' profit revenue 1 []"

definition return_on_assets where
  "return_on_assets sha profit assets = ratio sha ''return_on_assets'' profit assets 1 []"

definition return_on_equity where
  "return_on_equity sha profit equity = ratio sha ''return_on_equity'' profit equity 1 []"

definition receivable_days where
  "receivable_days sha receivable revenue = ratio sha ''receivable_days'' receivable revenue days_per_year []"

definition inventory_days where
  "inventory_days sha inventory cogs = ratio sha ''inventory_days'' inventory cogs days_per_year []"

definition payable_days where
  "payable_days sha payable cogs = ratio sha ''payable_days'' payable cogs days_per_year []"

definition asset_turnover where
  "asset_turnover sha revenue assets = ratio sha ''asset_turnover'' revenue assets 1 []"

section \<open>Trends\<close>

record trend_point =
  tp_period :: string
  tp_value :: "decimal option"
  tp_fact_refs :: "fact_ref list"

record trend_step =
  ts_from_period :: string
  ts_to_period :: string
  ts_delta :: outcome
  ts_growth_rate :: outcome

record trend_result =
  tn_result_id :: string
  tn_metric :: string
  tn_points :: "trend_point list"
  tn_steps :: "trend_step list"

definition trend_step_of :: "trend_point \<Rightarrow> trend_point \<Rightarrow> decimal_error + trend_step" where
  "trend_step_of previous current =
     (case (tp_value previous, tp_value current) of
        (Some p, Some c) \<Rightarrow>
          rbind (quantize6 (dec_sub c p)) (\<lambda>delta.
          rbind (if p = 0
                 then Inr (NotComputable (''not computable: division by zero (base period '' @
                        tp_period previous @ '' is zero)''))
                 else rbind (quantize6 (dec_div (dec_sub c p) (dec_abs p))) (\<lambda>g. Inr (Computed g))) (\<lambda>growth.
          Inr \<lparr>ts_from_period = tp_period previous, ts_to_period = tp_period current,
               ts_delta = Computed delta, ts_growth_rate = growth\<rparr>))
      | _ \<Rightarrow>
          let out = NotComputable (''not computable: missing value for period '' @
                join_with '', '' (map tp_period (filter (\<lambda>p. tp_value p = None) [previous, current])))
          in Inr \<lparr>ts_from_period = tp_period previous, ts_to_period = tp_period current,
                  ts_delta = out, ts_growth_rate = out\<rparr>)"

fun trend_steps :: "trend_point list \<Rightarrow> decimal_error + trend_step list" where
  "trend_steps (p # c # rest) =
     rbind (trend_step_of p c) (\<lambda>s. rbind (trend_steps (c # rest)) (\<lambda>ss. Inr (s # ss)))"
| "trend_steps _ = Inr []"

definition trend_analysis ::
  "(string \<Rightarrow> string) \<Rightarrow> string \<Rightarrow> trend_point list \<Rightarrow> decimal_error + trend_result" where
  "trend_analysis sha metric points =
     (let inputs = map (\<lambda>p. \<lparr>ci_name = metric @ '':'' @ tp_period p, ci_value = tp_value p,
                             ci_fact_refs = tp_fact_refs p\<rparr>) points
      in rbind (trend_steps points) (\<lambda>steps.
         Inr \<lparr>tn_result_id = make_result_id sha (''trend_analysis:'' @ metric) inputs, tn_metric = metric,
              tn_points = points, tn_steps = steps\<rparr>))"

section \<open>Composed results\<close>

definition not_computable :: "calculator_result \<Rightarrow> bool" where
  "not_computable r = (case cr_outcome r of NotComputable _ \<Rightarrow> True | Computed _ \<Rightarrow> False)"

definition computed_value :: "outcome \<Rightarrow> decimal" where
  "computed_value out = (case out of Computed v \<Rightarrow> v | NotComputable _ \<Rightarrow> 0)"

definition cash_conversion_cycle ::
  "(string \<Rightarrow> string) \<Rightarrow> calculator_result \<Rightarrow> calculator_result \<Rightarrow> calculator_result \<Rightarrow>
   decimal_error + calculator_result" where
  "cash_conversion_cycle sha receivable inventory payable =
     (let components = [receivable, inventory, payable];
          inputs = concat (map cr_inputs components);
          bad = map cr_calculator (filter not_computable components)
      in if bad \<noteq> []
         then Inr (build_result sha ''cash_conversion_cycle'' inputs (NotComputable
                (''not computable: component not computable ('' @ join_with '', '' bad @ '')'')))
         else let total = foldl (\<lambda>acc (r, sign). dec_add acc (dec_mul (computed_value (cr_outcome r)) sign)) 0
                    (zip components [1, 1, -1])
              in rbind (quantize6 total) (\<lambda>v.
                 Inr (build_result sha ''cash_conversion_cycle'' inputs (Computed v))))"

definition working_capital_need ::
  "(string \<Rightarrow> string) \<Rightarrow> calculator_input \<Rightarrow> calculator_result \<Rightarrow> decimal_error + calculator_result" where
  "working_capital_need sha outlay ccc =
     (let inputs = outlay # cr_inputs ccc in
      case cr_outcome ccc of
        NotComputable _ \<Rightarrow>
          Inr (build_result sha ''working_capital_need'' inputs
            (NotComputable ''not computable: cash conversion cycle not computable''))
      | Computed days \<Rightarrow>
          (case ci_value outlay of
             None \<Rightarrow> Inr (build_result sha ''working_capital_need'' inputs
               (NotComputable (''not computable: missing input '' @ ci_name outlay)))
           | Some x \<Rightarrow> rbind (quantize6 (dec_div (dec_mul x days) days_per_year)) (\<lambda>v.
               Inr (build_result sha ''working_capital_need'' inputs (Computed v)))))"

definition working_capital_gap ::
  "(string \<Rightarrow> string) \<Rightarrow> calculator_result \<Rightarrow> calculator_input \<Rightarrow> calculator_input \<Rightarrow>
   decimal_error + calculator_result" where
  "working_capital_gap sha need own other =
     (let inputs = cr_inputs need @ [own, other] in
      case cr_outcome need of
        NotComputable _ \<Rightarrow>
          Inr (build_result sha ''working_capital_gap'' inputs
            (NotComputable ''not computable: working capital need not computable''))
      | Computed n \<Rightarrow>
          (case missing_reason [own, other] of
             Some reason \<Rightarrow> Inr (build_result sha ''working_capital_gap'' inputs (NotComputable reason))
           | None \<Rightarrow> rbind (quantize6 (dec_sub (dec_sub n (the (ci_value own))) (the (ci_value other)))) (\<lambda>v.
               Inr (build_result sha ''working_capital_gap'' inputs (Computed v)))))"

section \<open>The scenario tool\<close>

record scenario_adjustment =
  sa_metric :: string
  sa_relative_change :: decimal
  sa_absolute_change :: decimal

record scenario_metric_outcome =
  sm_metric :: string
  sm_base :: outcome
  sm_adjusted :: outcome

record scenario_result =
  sr_result_id :: string
  sr_scenario_name :: string
  sr_adjustments :: "scenario_adjustment list"
  sr_metrics :: "scenario_metric_outcome list"
  sr_inputs :: "calculator_input list"

definition adjusted_metric ::
  "(string \<Rightarrow> scenario_adjustment option) \<Rightarrow> calculator_input \<Rightarrow> decimal_error + scenario_metric_outcome" where
  "adjusted_metric adjustment base =
     (case ci_value base of
        None \<Rightarrow>
          let out = NotComputable (''not computable: missing input '' @ ci_name base)
          in Inr \<lparr>sm_metric = ci_name base, sm_base = out, sm_adjusted = out\<rparr>
      | Some x \<Rightarrow>
          rbind (quantize6 x) (\<lambda>b. case adjustment (ci_name base) of
             None \<Rightarrow> Inr \<lparr>sm_metric = ci_name base, sm_base = Computed b, sm_adjusted = Computed b\<rparr>
           | Some a \<Rightarrow>
               rbind (quantize6 (dec_add (dec_mul x (dec_add 1 (sa_relative_change a))) (sa_absolute_change a)))
                 (\<lambda>v. Inr \<lparr>sm_metric = ci_name base, sm_base = Computed b, sm_adjusted = Computed v\<rparr>)))"

text \<open>A dictionary keeps the position of the first insertion of a key.\<close>

definition scenario_projection ::
  "(string \<Rightarrow> string) \<Rightarrow> string \<Rightarrow> calculator_input list \<Rightarrow> scenario_adjustment list \<Rightarrow>
   decimal_error + scenario_result" where
  "scenario_projection sha name base_metrics adjustments =
     (let adjustment = py_dict (map (\<lambda>a. (sa_metric a, a)) adjustments);
          unknown = filter (\<lambda>m. m \<notin> set (map ci_name base_metrics)) (from_keys (map sa_metric adjustments));
          missing = map (\<lambda>m. let out = NotComputable (''not computable: missing input '' @ m)
                             in \<lparr>sm_metric = m, sm_base = out, sm_adjusted = out\<rparr>) unknown;
          id_inputs = base_metrics @ map (\<lambda>a. \<lparr>ci_name = ''adjustment:'' @ sa_metric a,
            ci_value = Some (dec_add (sa_relative_change a) (sa_absolute_change a)), ci_fact_refs = []\<rparr>) adjustments
      in rbind (map_result (adjusted_metric adjustment) base_metrics) (\<lambda>outs.
         Inr \<lparr>sr_result_id = make_result_id sha (''scenario_projection:'' @ name) id_inputs,
              sr_scenario_name = name, sr_adjustments = adjustments, sr_metrics = outs @ missing,
              sr_inputs = base_metrics\<rparr>))"

declare dec_places.simps [simp del]

section \<open>Accuracy of the ratios\<close>

lemma missing_reason_None: "missing_reason inputs = None \<longleftrightarrow> list_all (\<lambda>i. ci_value i \<noteq> None) inputs"
  by (auto simp: missing_reason_def Let_def filter_empty_conv list_all_set)

lemma build_result_outcome [simp]: "cr_outcome (build_result sha c inputs out) = out"
  by (simp add: build_result_def)

lemma ratio_outcome:
  assumes "ratio sha c num den scale [] = Inr r"
  shows "case cr_outcome r of
      Computed v \<Rightarrow> \<exists>n d. ci_value num = Some n \<and> ci_value den = Some d \<and> d \<noteq> 0 \<and>
        quantize6 (dec_div (dec_mul n scale) d) = Inr v
    | NotComputable reason \<Rightarrow> ci_value num = None \<or> ci_value den = None \<or> ci_value den = Some 0"
proof (cases "missing_reason [num, den]")
  case None
  then obtain n d where "ci_value num = Some n" "ci_value den = Some d" by (auto simp: missing_reason_None)
  with None assms show ?thesis by (auto simp: ratio_def Let_def result_simps split: if_splits)
next
  case (Some reason)
  then have "ci_value num = None \<or> ci_value den = None"
    using missing_reason_None [of "[num, den]"] by auto
  with Some assms show ?thesis by (auto simp: ratio_def Let_def)
qed

lemma triangle_bound: "\<bar>a - b\<bar> \<le> u \<Longrightarrow> \<bar>b - c\<bar> \<le> v \<Longrightarrow> \<bar>a - c\<bar> \<le> u + v" for a :: rat
  by linarith

lemma quotient_error:
  assumes "d \<noteq> 0"
  shows "\<bar>dec_div (dec_mul n s) d - n * s / d\<bar> \<le> \<bar>n * s / d\<bar> * (2 / 10 ^ 27)"
proof -
  let ?p = "dec_mul n s" and ?x = "n * s"
  have mul: "\<bar>?p - ?x\<bar> \<le> \<bar>?x\<bar> / (2 * 10 ^ 27)" unfolding dec_mul_def by (rule in_context_error)
  have "\<bar>?p / d - ?x / d\<bar> = \<bar>?p - ?x\<bar> / \<bar>d\<bar>" by (simp flip: diff_divide_distrib)
  also have "\<dots> \<le> \<bar>?x\<bar> / (2 * 10 ^ 27) / \<bar>d\<bar>" using mul by (rule divide_right_mono) simp
  also have "\<dots> = \<bar>?x / d\<bar> / (2 * 10 ^ 27)" by simp
  finally have first: "\<bar>?p / d - ?x / d\<bar> \<le> \<bar>?x / d\<bar> / (2 * 10 ^ 27)" .
  then have "\<bar>?p / d\<bar> \<le> 2 * \<bar>?x / d\<bar>" by (simp add: field_simps)
  then have "\<bar>?p / d\<bar> / (2 * 10 ^ 27) \<le> 2 * \<bar>?x / d\<bar> / (2 * 10 ^ 27)" by (rule divide_right_mono) simp
  moreover have "\<bar>dec_div ?p d - ?p / d\<bar> \<le> \<bar>?p / d\<bar> / (2 * 10 ^ 27)"
    unfolding dec_div_def by (rule in_context_error)
  ultimately have "\<bar>dec_div ?p d - ?p / d\<bar> \<le> 2 * \<bar>?x / d\<bar> / (2 * 10 ^ 27)" by (rule order_trans [rotated])
  from triangle_bound [OF this first]
  have "\<bar>dec_div ?p d - ?x / d\<bar> \<le> 2 * \<bar>?x / d\<bar> / (2 * 10 ^ 27) + \<bar>?x / d\<bar> / (2 * 10 ^ 27)" .
  then show ?thesis by (simp add: field_simps)
qed

section \<open>The identifier does not depend on the order of the inputs\<close>

lemma sorted_inputs_unique:
  "mset xs = mset ys \<Longrightarrow> distinct (map ci_name xs) \<Longrightarrow> sort_key ci_name xs = sort_key ci_name ys"
  by (rule sort_key_eq_sort_key) (simp_all add: distinct_map)

section \<open>Properties\<close>

text \<open>
  A ratio is never invented: it is a number only when both inputs are present and
  the denominator is not zero, and then it is the true quotient up to half a unit of
  the sixth decimal and the relative error of two roundings to 28 digits.
\<close>

theorem ratio_accurate:
  assumes "ratio sha c num den scale [] = Inr r"
  shows "case cr_outcome r of
      Computed v \<Rightarrow> \<exists>n d. ci_value num = Some n \<and> ci_value den = Some d \<and> d \<noteq> 0 \<and>
        \<bar>v - n * scale / d\<bar> \<le> 1 / (2 * 10 ^ 6) + \<bar>n * scale / d\<bar> * (2 / 10 ^ 27)
    | NotComputable reason \<Rightarrow> ci_value num = None \<or> ci_value den = None \<or> ci_value den = Some 0"
proof (cases "cr_outcome r")
  case (NotComputable reason)
  with ratio_outcome [OF assms] show ?thesis by simp
next
  case (Computed v)
  with ratio_outcome [OF assms] obtain n d where *: "ci_value num = Some n" "ci_value den = Some d" "d \<noteq> 0"
    "quantize6 (dec_div (dec_mul n scale) d) = Inr v" by auto
  have "\<bar>v - dec_div (dec_mul n scale) d\<bar> \<le> 1 / (2 * 10 ^ 6)"
    using quantize_error [OF *(4) [unfolded quantize6_def]] .
  from triangle_bound [OF this quotient_error [OF *(3), of n scale]]
  have "\<bar>v - n * scale / d\<bar> \<le> 1 / (2 * 10 ^ 6) + \<bar>n * scale / d\<bar> * (2 / 10 ^ 27)" .
  with * Computed show ?thesis by auto
qed

theorem ratio_accurate_witness:
  "\<exists>r. ratio (\<lambda>x. x) ''current_ratio'' \<lparr>ci_name = ''assets'', ci_value = Some 10, ci_fact_refs = []\<rparr>
      \<lparr>ci_name = ''liabilities'', ci_value = None, ci_fact_refs = []\<rparr> 1 [] = Inr r \<and>
    (\<nexists>v. cr_outcome r = Computed v)"
proof -
  let ?num = "\<lparr>ci_name = ''assets'', ci_value = Some 10, ci_fact_refs = []\<rparr> :: calculator_input"
  let ?den = "\<lparr>ci_name = ''liabilities'', ci_value = None, ci_fact_refs = []\<rparr> :: calculator_input"
  obtain r where r: "ratio (\<lambda>x. x) ''current_ratio'' ?num ?den 1 [] = Inr r"
    by (simp add: ratio_def Let_def missing_reason_def)
  from ratio_accurate [OF r] r show ?thesis by (auto split: outcome.splits)
qed

text \<open>
  The identifier of a result depends on the set of its inputs only: inputs with
  distinct names give the same identifier in any order.
\<close>

theorem result_id_order_independent:
  assumes "mset inputs' = mset inputs" and "distinct (map ci_name inputs)"
  shows "make_result_id sha calculator inputs' = make_result_id sha calculator inputs"
  using sorted_inputs_unique [OF assms(1) [symmetric] assms(2)] by (simp add: make_result_id_def)

theorem result_id_order_independent_witness:
  "make_result_id (\<lambda>x. x) ''c'' [\<lparr>ci_name = ''b'', ci_value = Some (1 / 4), ci_fact_refs = []\<rparr>,
       \<lparr>ci_name = ''a'', ci_value = None, ci_fact_refs = []\<rparr>] =
     make_result_id (\<lambda>x. x) ''c'' [\<lparr>ci_name = ''a'', ci_value = None, ci_fact_refs = []\<rparr>,
       \<lparr>ci_name = ''b'', ci_value = Some (1 / 4), ci_fact_refs = []\<rparr>]"
  by (rule result_id_order_independent) simp_all

text \<open>
  The identifier of a scenario projection sees each adjustment only as the sum of
  its two changes: projections whose adjustments agree in these sums get the same
  identifier, although their figures may differ (the witness: doubling 10 gives 20,
  raising it by 1 gives 11, under one identifier).
\<close>

theorem scenario_id_sees_sums:
  assumes "scenario_projection sha name base adjustments = Inr r"
    and "scenario_projection sha name base adjustments' = Inr r'"
    and "map (\<lambda>a. (sa_metric a, dec_add (sa_relative_change a) (sa_absolute_change a))) adjustments =
      map (\<lambda>a. (sa_metric a, dec_add (sa_relative_change a) (sa_absolute_change a))) adjustments'"
  shows "sr_result_id r = sr_result_id r'"
proof -
  let ?id_input = "\<lambda>(m, v). \<lparr>ci_name = ''adjustment:'' @ m, ci_value = Some v, ci_fact_refs = []\<rparr> :: calculator_input"
  have "map (\<lambda>a. ?id_input (sa_metric a, dec_add (sa_relative_change a) (sa_absolute_change a))) adjustments =
      map (\<lambda>a. ?id_input (sa_metric a, dec_add (sa_relative_change a) (sa_absolute_change a))) adjustments'"
    using arg_cong [OF assms(3), of "map ?id_input"] by (simp add: o_def)
  with assms(1,2) show ?thesis by (auto simp: scenario_projection_def Let_def result_simps)
qed

definition sample_metric :: calculator_input where
  "sample_metric = \<lparr>ci_name = ''revenue'', ci_value = Some 10, ci_fact_refs = []\<rparr>"

definition doubled :: scenario_adjustment where
  "doubled = \<lparr>sa_metric = ''revenue'', sa_relative_change = 1, sa_absolute_change = 0\<rparr>"

definition raised :: scenario_adjustment where
  "raised = \<lparr>sa_metric = ''revenue'', sa_relative_change = 0, sa_absolute_change = 1\<rparr>"

lemma sample_projections:
  "\<exists>r. scenario_projection (\<lambda>x. x) ''s'' [sample_metric] [doubled] = Inr r \<and> map sm_adjusted (sr_metrics r) = [Computed 20]"
  "\<exists>r. scenario_projection (\<lambda>x. x) ''s'' [sample_metric] [raised] = Inr r \<and> map sm_adjusted (sr_metrics r) = [Computed 11]"
proof -
  have ctx: "in_context (of_int c) = of_int c" if "\<bar>c\<bar> < 100" for c
    using in_context_exact [of c 0] that by (simp add: pow10_def context_digits_def)
  have nums: "in_context 1 = 1" "in_context 2 = 2" "in_context 10 = 10" "in_context 11 = 11" "in_context 20 = 20"
    using ctx [of 1] ctx [of 2] ctx [of 10] ctx [of 11] ctx [of 20] by simp_all
  have sixth: "quantize6 (of_int c) = Inr (of_int c)" if "\<bar>c\<bar> < 100" for c
  proof -
    have "rat_of_int c * 10 ^ 6 = of_int (c * 10 ^ 6)" by simp
    then have "half_up (rat_of_int c * 10 ^ 6) = c * 10 ^ 6" by (simp only: half_up_of_int)
    then show ?thesis using that by (simp add: quantize6_def quantize_Inr context_digits_def)
  qed
  have sixths: "quantize6 10 = Inr 10" "quantize6 11 = Inr 11" "quantize6 20 = Inr 20"
    using sixth [of 10] sixth [of 11] sixth [of 20] by simp_all
  show "\<exists>r. scenario_projection (\<lambda>x. x) ''s'' [sample_metric] [doubled] = Inr r \<and> map sm_adjusted (sr_metrics r) = [Computed 20]"
    by (simp add: scenario_projection_def sample_metric_def doubled_def adjusted_metric_def Let_def
        py_dict_def dec_add_def dec_mul_def nums sixths)
  show "\<exists>r. scenario_projection (\<lambda>x. x) ''s'' [sample_metric] [raised] = Inr r \<and> map sm_adjusted (sr_metrics r) = [Computed 11]"
    by (simp add: scenario_projection_def sample_metric_def raised_def adjusted_metric_def Let_def
        py_dict_def dec_add_def dec_mul_def nums sixths)
qed

theorem scenario_id_sees_sums_witness:
  "\<exists>r r'. scenario_projection (\<lambda>x. x) ''s'' [sample_metric] [doubled] = Inr r \<and>
     scenario_projection (\<lambda>x. x) ''s'' [sample_metric] [raised] = Inr r' \<and>
     map sm_adjusted (sr_metrics r) = [Computed 20] \<and> map sm_adjusted (sr_metrics r') = [Computed 11] \<and>
     sr_result_id r = sr_result_id r'"
proof -
  obtain r r' where runs: "scenario_projection (\<lambda>x. x) ''s'' [sample_metric] [doubled] = Inr r"
      "scenario_projection (\<lambda>x. x) ''s'' [sample_metric] [raised] = Inr r'"
    and figures: "map sm_adjusted (sr_metrics r) = [Computed 20]" "map sm_adjusted (sr_metrics r') = [Computed 11]"
    using sample_projections by (elim exE conjE) (rule that)
  have "map (\<lambda>a. (sa_metric a, dec_add (sa_relative_change a) (sa_absolute_change a))) [doubled] =
      map (\<lambda>a. (sa_metric a, dec_add (sa_relative_change a) (sa_absolute_change a))) [raised]"
    by (simp add: doubled_def raised_def dec_add_def)
  from scenario_id_sees_sums [OF runs this] runs figures show ?thesis by (intro exI conjI)
qed

end
