(* ===== verification/Debt_Service.thy ===== *)
theory Debt_Service
  imports Calculators
begin

text \<open>
  The amortisation and repayment-capacity calculators of
  \<open>application/underwriting/calculators.py\<close> (group 5): an exact-decimal schedule in
  money quanta and the coverage of the debt service by the cash flow.
\<close>

section \<open>Validation\<close>

text \<open>A \<open>CalculatorValidationError\<close> with the name and the value of its message.\<close>

datatype calc_error =
    NegativeAmount string decimal
  | FractionalTerm string decimal
  | NonPositiveTerm string decimal
  | SeriesLengthMismatch nat nat
  | DecimalError decimal_error

fun as_calc :: "decimal_error + 'a \<Rightarrow> calc_error + 'a" where
  "as_calc (Inl e) = Inl (DecimalError e)"
| "as_calc (Inr x) = Inr x"

lemma as_calc_Inr [simp, result_simps]: "as_calc r = Inr x \<longleftrightarrow> r = Inr x"
  by (cases r) auto

definition quantize_money :: "decimal \<Rightarrow> decimal_error + decimal" where
  "quantize_money = quantize_half_up 2"

definition reject_negative :: "calculator_input \<Rightarrow> calc_error + unit" where
  "reject_negative i =
     (case ci_value i of
        None \<Rightarrow> Inr ()
      | Some v \<Rightarrow> if v < 0 then Inl (NegativeAmount (ci_name i) v) else Inr ())"

definition validate_term :: "calculator_input \<Rightarrow> calc_error + unit" where
  "validate_term i =
     (case ci_value i of
        None \<Rightarrow> Inr ()
      | Some v \<Rightarrow>
          if v \<noteq> of_int \<lfloor>v\<rfloor> then Inl (FractionalTerm (ci_name i) v)
          else if v \<le> 0 then Inl (NonPositiveTerm (ci_name i) v) else Inr ())"

section \<open>The schedule\<close>

datatype repayment_style = EQUAL_PRINCIPAL | BALLOON

fun repayment_style_value :: "repayment_style \<Rightarrow> string" where
  "repayment_style_value EQUAL_PRINCIPAL = ''EQUAL_PRINCIPAL''"
| "repayment_style_value BALLOON = ''BALLOON''"

record debt_service_row =
  ds_period :: nat
  ds_principal :: decimal
  ds_interest :: decimal
  ds_balance :: decimal

record debt_service_result =
  dss_result_id :: string
  dss_style :: repayment_style
  dss_inputs :: "calculator_input list"
  dss_outcome :: outcome
  dss_rows :: "debt_service_row list"

definition principal_paid ::
  "repayment_style \<Rightarrow> nat \<Rightarrow> nat \<Rightarrow> decimal \<Rightarrow> decimal \<Rightarrow> decimal_error + decimal" where
  "principal_paid style term period opening instalment =
     (if period = term then Inr opening
      else if style = BALLOON then quantize_money 0 else Inr instalment)"

fun schedule_rows ::
  "repayment_style \<Rightarrow> nat \<Rightarrow> decimal \<Rightarrow> decimal \<Rightarrow> nat list \<Rightarrow> decimal \<Rightarrow>
   decimal_error + debt_service_row list" where
  "schedule_rows style term rate instalment [] opening = Inr []"
| "schedule_rows style term rate instalment (p # ps) opening =
     rbind (quantize_money (dec_mul opening rate)) (\<lambda>interest.
     rbind (principal_paid style term p opening instalment) (\<lambda>paid.
     rbind (quantize_money (dec_sub opening paid)) (\<lambda>balance.
     rbind (schedule_rows style term rate instalment ps balance) (\<lambda>rows.
     Inr (\<lparr>ds_period = p, ds_principal = paid, ds_interest = interest, ds_balance = balance\<rparr> # rows)))))"

definition total_service :: "debt_service_row list \<Rightarrow> decimal" where
  "total_service rows = foldl (\<lambda>acc r. dec_add acc (dec_add (ds_principal r) (ds_interest r))) 0 rows"

definition total_principal :: "debt_service_row list \<Rightarrow> decimal option" where
  "total_principal rows =
     (if rows = [] then None else Some (foldl dec_add 0 (map ds_principal rows)))"

definition total_interest :: "debt_service_row list \<Rightarrow> decimal option" where
  "total_interest rows =
     (if rows = [] then None else Some (foldl dec_add 0 (map ds_interest rows)))"

definition debt_service_schedule ::
  "(string \<Rightarrow> string) \<Rightarrow> calculator_input \<Rightarrow> calculator_input \<Rightarrow> calculator_input \<Rightarrow> repayment_style \<Rightarrow>
   calc_error + debt_service_result" where
  "debt_service_schedule sha amount rate_percent term_months style =
     rbind (reject_negative amount) (\<lambda>_.
     rbind (reject_negative rate_percent) (\<lambda>_.
     rbind (validate_term term_months) (\<lambda>_.
     let inputs = [amount, rate_percent, term_months];
         result = \<lparr>dss_result_id = make_result_id sha
                     (''debt_service_schedule:'' @ repayment_style_value style) inputs,
                   dss_style = style, dss_inputs = inputs, dss_outcome = NotComputable [], dss_rows = []\<rparr>
     in case missing_reason inputs of
          Some reason \<Rightarrow> Inr (result\<lparr>dss_outcome := NotComputable reason\<rparr>)
        | None \<Rightarrow>
            let term = nat \<lfloor>the (ci_value term_months)\<rfloor>;
                rate = dec_div (dec_div (the (ci_value rate_percent)) 100) 12
            in rbind (as_calc (quantize_money (the (ci_value amount)))) (\<lambda>balance.
               rbind (as_calc (quantize_money (dec_div balance (of_nat term)))) (\<lambda>instalment.
               rbind (as_calc (schedule_rows style term rate instalment [1..<Suc term] balance)) (\<lambda>rows.
               Inr (result\<lparr>dss_outcome := Computed (total_service rows), dss_rows := rows\<rparr>)))))))"

section \<open>Money is exact\<close>

definition cents :: "int \<Rightarrow> decimal" where
  "cents k = of_int k / 100"

lemma cents_pow10: "cents k = of_int k * pow10 (- 2)"
  by (simp add: cents_def pow10_def)

lemma cents_eq [simp]: "cents a = cents b \<longleftrightarrow> a = b"
  by (simp add: cents_def)

lemma cents_nonneg [simp]: "0 \<le> cents k \<longleftrightarrow> 0 \<le> k"
  by (simp add: cents_def)

lemma cents_le [simp]: "cents a \<le> cents b \<longleftrightarrow> a \<le> b"
  by (simp add: cents_def divide_le_cancel)

lemma cents_0 [simp]: "cents 0 = 0"
  by (simp add: cents_def)

lemma dec_sub_cents: "\<bar>a - b\<bar> < 10 ^ context_digits \<Longrightarrow> dec_sub (cents a) (cents b) = cents (a - b)"
  using in_context_exact [of "a - b" "- 2"]
  by (simp add: dec_sub_def cents_pow10 left_diff_distrib)

lemma quantize_money_Inr:
  "quantize_money x = Inr y \<longleftrightarrow> \<bar>half_up (x * 100)\<bar> < 10 ^ context_digits \<and> y = cents (half_up (x * 100))"
  by (auto simp: quantize_money_def quantize_Inr cents_def)

lemma quantize_cents: "\<bar>k\<bar> < 10 ^ context_digits \<Longrightarrow> quantize_money (cents k) = Inr (cents k)"
  by (simp add: quantize_money_Inr) (simp add: cents_def)

section \<open>The rows of a schedule\<close>

text \<open>
  The balances in cents: an instalment of \<open>j\<close> cents is paid in every period but the
  last, which pays what is left.
\<close>

fun row_cents :: "nat \<Rightarrow> int \<Rightarrow> nat list \<Rightarrow> int \<Rightarrow> (int \<times> int) list" where
  "row_cents term j [] k = []"
| "row_cents term j (p # ps) k =
     (let paid = (if p = term then k else j) in (paid, k - paid) # row_cents term j ps (k - paid))"

definition style_instalment :: "repayment_style \<Rightarrow> int \<Rightarrow> int" where
  "style_instalment style j = (if style = BALLOON then 0 else j)"

lemma principal_paid_cents:
  "principal_paid style term p (cents k) (cents j) = Inr (cents (if p = term then k else style_instalment style j))"
  using quantize_cents [of 0] by (simp add: principal_paid_def style_instalment_def context_digits_def)

lemma schedule_rows_cents:
  assumes "schedule_rows style term rate (cents j) ps (cents k) = Inr rows"
    and "\<bar>k\<bar> + int (length ps) * \<bar>style_instalment style j\<bar> < 10 ^ context_digits"
  shows "map (\<lambda>r. (ds_principal r, ds_balance r)) rows =
      map (\<lambda>(a, b). (cents a, cents b)) (row_cents term (style_instalment style j) ps k) \<and>
    map ds_period rows = ps"
  using assms
proof (induction ps arbitrary: k rows)
  case (Cons p ps)
  let ?j = "style_instalment style j"
  let ?paid = "if p = term then k else ?j"
  have small: "\<bar>k - ?paid\<bar> < 10 ^ context_digits"
    and next_small: "\<bar>k - ?paid\<bar> + int (length ps) * \<bar>?j\<bar> < 10 ^ context_digits"
  proof -
    have nonneg: "0 \<le> int (length ps) * \<bar>?j\<bar>" by simp
    have total: "\<bar>k\<bar> + \<bar>?j\<bar> + int (length ps) * \<bar>?j\<bar> < 10 ^ context_digits"
      using Cons.prems(2) by (simp add: algebra_simps)
    have step: "\<bar>k - ?paid\<bar> \<le> \<bar>k\<bar> + \<bar>?j\<bar>" by (simp add: abs_triangle_ineq4)
    show "\<bar>k - ?paid\<bar> < 10 ^ context_digits" using step nonneg total by linarith
    show "\<bar>k - ?paid\<bar> + int (length ps) * \<bar>?j\<bar> < 10 ^ context_digits" using step total by linarith
  qed
  have "quantize_money (dec_sub (cents k) (cents ?paid)) = Inr (cents (k - ?paid))"
    using small by (simp add: dec_sub_cents quantize_cents del: if_split)
  with Cons.prems(1) obtain interest rest where
    rest: "schedule_rows style term rate (cents j) ps (cents (k - ?paid)) = Inr rest"
    and rows: "rows = \<lparr>ds_period = p, ds_principal = cents ?paid, ds_interest = interest,
                       ds_balance = cents (k - ?paid)\<rparr> # rest"
    by (auto simp: principal_paid_cents result_simps simp del: if_split)
  from Cons.IH [OF rest next_small] show ?case unfolding rows by (simp add: Let_def del: if_split)
qed simp

lemma row_cents_length [simp]: "length (row_cents term j ps k) = length ps"
  by (induction ps arbitrary: k) (auto simp: Let_def)

lemma row_cents_sum: "sum_list (map fst (row_cents term j ps k)) + (if ps = [] then k else snd (last (row_cents term j ps k))) = k"
proof (induction ps arbitrary: k)
  case (Cons p ps)
  let ?k = "k - (if p = term then k else j)"
  have "last (row_cents term j (p # ps) k) =
      (if ps = [] then ((if p = term then k else j), ?k) else last (row_cents term j ps ?k))"
    by (cases ps) (simp_all add: Let_def)
  with Cons.IH [of ?k] show ?case by (auto simp: Let_def)
qed simp

lemma row_cents_final:
  assumes "1 \<le> i" "i \<le> term"
  shows "row_cents term j [i..<Suc term] k =
    map (\<lambda>n. (j, k - int (n - i + 1) * j)) [i..<term] @ [(k - int (term - i) * j, 0)]"
  using assms
proof (induction "term - i" arbitrary: i k)
  case 0
  then show ?case by (simp add: Let_def)
next
  case (Suc d)
  then have lt: "i < term" by simp
  have "row_cents term j [i..<Suc term] k = (j, k - j) # row_cents term j [Suc i..<Suc term] (k - j)"
    using lt by (subst upt_conv_Cons) (auto simp: Let_def)
  also have "\<dots> = (j, k - j) # map (\<lambda>n. (j, k - j - int (n - Suc i + 1) * j)) [Suc i..<term] @
      [(k - j - int (term - Suc i) * j, 0)]"
    using Suc.hyps(1) [of "Suc i" "k - j"] Suc.hyps(2) Suc.prems lt by simp
  also have "map (\<lambda>n. (j, k - j - int (n - Suc i + 1) * j)) [Suc i..<term] =
      map (\<lambda>n. (j, k - int (n - i + 1) * j)) [Suc i..<term]"
    by (rule map_cong) (auto simp: algebra_simps of_nat_diff)
  also have "k - j - int (term - Suc i) * j = k - int (term - i) * j"
    using lt by (simp add: algebra_simps of_nat_diff)
  finally show ?case using lt by (simp add: upt_conv_Cons)
qed

section \<open>The shape of a schedule\<close>

lemma dec_div_bound:
  assumes "0 \<le> x" "1 \<le> y"
  shows "\<bar>dec_div x y\<bar> \<le> 2 * (x / y)"
proof -
  have "\<bar>dec_div x y - x / y\<bar> \<le> \<bar>x / y\<bar> / (2 * 10 ^ 27)" unfolding dec_div_def by (rule in_context_error)
  also have "\<dots> \<le> \<bar>x / y\<bar> / 1" by (rule divide_left_mono) simp_all
  finally show ?thesis using assms by simp
qed

lemma instalment_bound:
  assumes "quantize_money (dec_div (cents k) (of_nat m)) = Inr (cents j)" "0 \<le> k" "1 \<le> m"
  shows "int m * \<bar>j\<bar> \<le> 2 * k + int m"
proof -
  let ?x = "dec_div (cents k) (of_nat m)"
  have j: "j = half_up (?x * 100)" using assms(1) by (simp add: quantize_money_Inr)
  have bound: "\<bar>?x\<bar> \<le> 2 * (cents k / of_nat m)"
    using assms(2,3) by (intro dec_div_bound) simp_all
  have "\<bar>of_int j - ?x * 100\<bar> \<le> 1 / 2" unfolding j by (rule half_up_error)
  then have "\<bar>of_int j\<bar> \<le> \<bar>?x\<bar> * 100 + 1 / 2" by linarith
  also have "\<dots> \<le> 2 * (cents k / of_nat m) * 100 + 1 / 2" using bound by simp
  finally have "\<bar>rat_of_int j\<bar> \<le> 2 * of_int k / of_nat m + 1" by (simp add: cents_def)
  then have "of_nat m * \<bar>rat_of_int j\<bar> \<le> of_nat m * (2 * of_int k / of_nat m + 1)"
    by (rule mult_left_mono) simp
  also have "\<dots> = 2 * of_int k + of_nat m" using assms(3) by (simp add: distrib_left)
  finally have "rat_of_int (int m * \<bar>j\<bar>) \<le> of_int (2 * k + int m)" by simp
  then show ?thesis by (simp only: of_int_le_iff)
qed

lemma schedule_parts:
  assumes run: "debt_service_schedule sha amount rate_percent term_months style = Inr s"
    and amount: "ci_value amount = Some p" and rate: "ci_value rate_percent \<noteq> None"
    and months: "ci_value term_months = Some t"
  shows "0 \<le> p \<and> 1 \<le> nat \<lfloor>t\<rfloor> \<and> t = of_int \<lfloor>t\<rfloor> \<and>
    (\<exists>k j r. quantize_money p = Inr (cents k) \<and> 0 \<le> k \<and>
       quantize_money (dec_div (cents k) (of_nat (nat \<lfloor>t\<rfloor>))) = Inr (cents j) \<and> 0 \<le> j \<and>
       schedule_rows style (nat \<lfloor>t\<rfloor>) r (cents j) [1..<Suc (nat \<lfloor>t\<rfloor>)] (cents k) = Inr (dss_rows s) \<and>
       dss_outcome s = Computed (total_service (dss_rows s)))"
proof -
  have present: "missing_reason [amount, rate_percent, term_months] = None"
    using amount rate months by (simp add: missing_reason_None)
  from run amount months have p: "0 \<le> p" and t: "t = of_int \<lfloor>t\<rfloor>" "0 < t"
    by (auto simp: debt_service_schedule_def result_simps reject_negative_def validate_term_def split: if_splits)
  then have m: "1 \<le> nat \<lfloor>t\<rfloor>" by linarith
  from run obtain b i rows r where *: "quantize_money p = Inr b"
    "quantize_money (dec_div b (of_nat (nat \<lfloor>t\<rfloor>))) = Inr i"
    "schedule_rows style (nat \<lfloor>t\<rfloor>) r i [1..<Suc (nat \<lfloor>t\<rfloor>)] b = Inr rows"
    "dss_rows s = rows" "dss_outcome s = Computed (total_service rows)"
    by (auto simp: debt_service_schedule_def Let_def present amount months result_simps simp del: upt_Suc)
  moreover from *(1) p have "\<exists>k. b = cents k \<and> 0 \<le> k"
    by (auto simp: quantize_money_Inr intro!: half_up_nonneg)
  moreover have "\<exists>j. i = cents j \<and> 0 \<le> j"
  proof -
    have "0 \<le> b" using \<open>\<exists>k. b = cents k \<and> 0 \<le> k\<close> by auto
    then have "0 \<le> dec_div b (of_nat (nat \<lfloor>t\<rfloor>))" unfolding dec_div_def by (intro in_context_nonneg) simp
    with *(2) show ?thesis by (auto simp: quantize_money_Inr intro!: half_up_nonneg)
  qed
  ultimately show ?thesis using p t(1) m by blast
qed

lemma schedule_shape:
  assumes run: "debt_service_schedule sha amount rate_percent term_months style = Inr s"
    and amount: "ci_value amount = Some p" and rate: "ci_value rate_percent \<noteq> None"
    and months: "ci_value term_months = Some t" and small: "p \<le> 10 ^ 24" "t \<le> 10 ^ 24"
  shows "\<exists>k j m. quantize_money p = Inr (cents k) \<and> 0 \<le> k \<and> t = of_nat m \<and> 1 \<le> m \<and>
    (style = BALLOON \<longrightarrow> j = 0) \<and> 0 \<le> j \<and>
    map (\<lambda>r. (ds_principal r, ds_balance r)) (dss_rows s) =
      map (\<lambda>n. (cents j, cents (k - int n * j))) [1..<m] @ [(cents (k - int (m - 1) * j), 0)] \<and>
    map ds_period (dss_rows s) = [1..<Suc m]"
proof -
  let ?m = "nat \<lfloor>t\<rfloor>"
  from schedule_parts [OF run amount rate months] obtain k j r where
    m: "1 \<le> ?m" "t = of_int \<lfloor>t\<rfloor>" and k: "quantize_money p = Inr (cents k)" "0 \<le> k"
    and j: "quantize_money (dec_div (cents k) (of_nat ?m)) = Inr (cents j)" "0 \<le> j"
    and rows: "schedule_rows style ?m r (cents j) [1..<Suc ?m] (cents k) = Inr (dss_rows s)" by blast
  let ?j = "style_instalment style j"
  have t: "t = of_nat ?m" using m by (metis of_int_of_nat_eq nat_0_le nat_le_0 not_one_le_zero linear)
  have "rat_of_nat ?m \<le> of_nat (10 ^ 24)" using small(2) t by simp
  then have m_small: "int ?m \<le> 10 ^ 24" unfolding of_nat_le_iff by (simp add: nat_le_iff)
  have "k = half_up (p * 100)" using k(1) by (simp add: quantize_money_Inr)
  also have "\<dots> \<le> half_up (of_int (10 ^ 26))" using small(1) by (intro half_up_mono) simp
  finally have k_small: "k \<le> 10 ^ 26" by (simp only: half_up_of_int)
  have "\<bar>?j\<bar> \<le> \<bar>j\<bar>" by (simp add: style_instalment_def)
  then have "int ?m * \<bar>?j\<bar> \<le> int ?m * \<bar>j\<bar>" by (rule mult_left_mono) simp
  also have "\<dots> \<le> 2 * k + int ?m" using instalment_bound [OF j(1) k(2) m(1)] .
  finally have "\<bar>k\<bar> + int (length [1..<Suc ?m]) * \<bar>?j\<bar> < 10 ^ context_digits"
    using k(2) k_small m_small by (simp add: context_digits_def del: upt_Suc)
  from schedule_rows_cents [OF rows this] row_cents_final [of 1 ?m ?j k] m(1)
  have "map (\<lambda>r. (ds_principal r, ds_balance r)) (dss_rows s) =
      map (\<lambda>(a, b). (cents a, cents b)) (map (\<lambda>n. (?j, k - int (n - 1 + 1) * ?j)) [1..<?m] @
        [(k - int (?m - 1) * ?j, 0)])" and periods: "map ds_period (dss_rows s) = [1..<Suc ?m]"
    by (simp_all del: upt_Suc)
  then have "map (\<lambda>r. (ds_principal r, ds_balance r)) (dss_rows s) =
      map (\<lambda>n. (cents ?j, cents (k - int n * ?j))) [1..<?m] @ [(cents (k - int (?m - 1) * ?j), 0)]"
    by (auto simp: o_def)
  then show ?thesis
    using k t m(1) periods j(2)
    by (intro exI [of _ k] exI [of _ ?j] exI [of _ ?m]) (simp add: style_instalment_def)
qed

lemma sum_list_cents: "sum_list (map cents xs) = cents (sum_list xs)"
  by (induction xs) (simp_all add: cents_def add_divide_distrib)

lemma sum_list_replicate_int: "sum_list (replicate n j) = int n * (j :: int)"
  by (induction n) (simp_all add: algebra_simps)

lemma shape_principals:
  assumes "map (\<lambda>r. (ds_principal r, ds_balance r)) rows =
      map (\<lambda>n. (cents j, cents (k - int n * j))) [1..<m] @ [(cents (k - int (m - 1) * j), 0)]"
  shows "map ds_principal rows = replicate (m - 1) (cents j) @ [cents (k - int (m - 1) * j)]"
    and "map ds_balance rows = map (\<lambda>n. cents (k - int n * j)) [1..<m] @ [0]"
proof -
  have "map fst (map (\<lambda>r. (ds_principal r, ds_balance r)) rows) = map ds_principal rows"
    "map snd (map (\<lambda>r. (ds_principal r, ds_balance r)) rows) = map ds_balance rows" by (simp_all add: o_def)
  then show "map ds_principal rows = replicate (m - 1) (cents j) @ [cents (k - int (m - 1) * j)]"
    "map ds_balance rows = map (\<lambda>n. cents (k - int n * j)) [1..<m] @ [0]"
    unfolding assms by (simp_all add: o_def map_replicate_const)
qed

section \<open>Repayment capacity\<close>

record capacity_period =
  rp_period :: string
  rp_operating_cashflow :: outcome
  rp_debt_service :: outcome
  rp_coverage_ratio :: outcome
  rp_shortfall :: "bool option"

record repayment_capacity_result =
  rc_result_id :: string
  rc_inputs :: "calculator_input list"
  rc_periods :: "capacity_period list"
  rc_shortfall_count :: nat
  rc_not_computable_count :: nat

definition present_outcome :: "calculator_input \<Rightarrow> outcome" where
  "present_outcome i =
     (case ci_value i of
        Some v \<Rightarrow> Computed v
      | None \<Rightarrow> NotComputable (''not computable: missing input '' @ ci_name i))"

definition capacity_period_of :: "calculator_input \<Rightarrow> calculator_input \<Rightarrow> decimal_error + capacity_period" where
  "capacity_period_of cashflow service =
     (let period = \<lparr>rp_period = ci_name cashflow, rp_operating_cashflow = present_outcome cashflow,
                    rp_debt_service = present_outcome service, rp_coverage_ratio = NotComputable [],
                    rp_shortfall = None\<rparr>
      in case (ci_value cashflow, ci_value service) of
        (Some c, Some d) \<Rightarrow>
          if d = 0
          then Inr (period\<lparr>rp_coverage_ratio := NotComputable
                 (''not computable: division by zero ('' @ ci_name service @ '' debt service is zero)'')\<rparr>)
          else rbind (quantize6 (dec_div c d)) (\<lambda>v.
               Inr (period\<lparr>rp_coverage_ratio := Computed v, rp_shortfall := Some (c < d)\<rparr>))
      | _ \<Rightarrow> Inr (period\<lparr>rp_coverage_ratio := NotComputable (the (missing_reason [cashflow, service]))\<rparr>))"

fun capacity_periods ::
  "(calculator_input \<times> calculator_input) list \<Rightarrow> decimal_error + capacity_period list" where
  "capacity_periods [] = Inr []"
| "capacity_periods ((c, d) # rest) =
     rbind (capacity_period_of c d) (\<lambda>p. rbind (capacity_periods rest) (\<lambda>ps. Inr (p # ps)))"

definition repayment_capacity ::
  "(string \<Rightarrow> string) \<Rightarrow> calculator_input list \<Rightarrow> calculator_input list \<Rightarrow>
   calc_error + repayment_capacity_result" where
  "repayment_capacity sha cashflows services =
     (if length cashflows \<noteq> length services
      then Inl (SeriesLengthMismatch (length cashflows) (length services))
      else rbind (map_result reject_negative services) (\<lambda>_.
           rbind (as_calc (capacity_periods (zip cashflows services))) (\<lambda>periods.
           Inr \<lparr>rc_result_id = make_result_id sha ''repayment_capacity'' (cashflows @ services),
                rc_inputs = cashflows @ services, rc_periods = periods,
                rc_shortfall_count = length (filter (\<lambda>p. rp_shortfall p = Some True) periods),
                rc_not_computable_count = length (filter (\<lambda>p. rp_shortfall p = None) periods)\<rparr>)))"

lemma capacity_periods_all2:
  "capacity_periods pairs = Inr ps \<Longrightarrow> list_all2 (\<lambda>(c, d) p. capacity_period_of c d = Inr p) pairs ps"
  by (induction pairs arbitrary: ps rule: capacity_periods.induct) (auto simp: result_simps)

text \<open>
  The verdict a period should get: a shortfall when the cash flow is below the debt
  service, none when either is missing or the debt service is zero.
\<close>

definition capacity_verdict :: "calculator_input \<Rightarrow> calculator_input \<Rightarrow> bool option" where
  "capacity_verdict c d = (case (ci_value c, ci_value d) of
     (Some x, Some y) \<Rightarrow> if y = 0 then None else Some (x < y) | _ \<Rightarrow> None)"

lemma capacity_period_shortfall:
  "capacity_period_of c d = Inr p \<Longrightarrow>
   rp_period p = ci_name c \<and>
   rp_shortfall p = capacity_verdict c d \<and>
   (rp_shortfall p = None \<longleftrightarrow> (\<exists>reason. rp_coverage_ratio p = NotComputable reason))"
  by (auto simp: capacity_verdict_def capacity_period_of_def Let_def result_simps split: option.splits if_splits)

lemma capacity_periods_verdicts:
  assumes "capacity_periods pairs = Inr ps"
  shows "length ps = length pairs \<and> map rp_shortfall ps = map (case_prod capacity_verdict) pairs \<and>
    list_all (\<lambda>p. (rp_shortfall p = None) = (\<exists>reason. rp_coverage_ratio p = NotComputable reason)) ps"
  using capacity_periods_all2 [OF assms]
proof (induction rule: list_all2_induct)
  case (Cons x xs y ys)
  have "capacity_period_of (fst x) (snd x) = Inr y" using Cons.hyps(1) by (simp add: case_prod_beta)
  with Cons.IH show ?case
    using capacity_period_shortfall [of "fst x" "snd x" y] by (auto simp: case_prod_beta)
qed simp

lemma reject_negatives_error:
  "map_result reject_negative xs = Inl e \<Longrightarrow> \<exists>n v. e = NegativeAmount n v"
  by (induction xs) (auto simp: result_simps reject_negative_def split: option.splits if_splits)

lemma as_calc_error: "as_calc r = Inl e \<Longrightarrow> \<exists>d. e = DecimalError d"
  by (cases r) auto

section \<open>Properties\<close>

text \<open>
  C7: A computed schedule reconciles without drift: it has one row per month in order,
  its principal payments sum exactly to the amount at the money quantum and the last
  closing balance is exactly zero; a balloon pays no principal before the last row,
  equal principal the same instalment in every row but the last.  (For amounts and
  terms up to 10^24, where 28 digits are exact.)
\<close>

theorem schedule_reconciles:
  assumes "debt_service_schedule sha amount rate_percent term_months style = Inr s"
    and "ci_value amount = Some p" and "ci_value rate_percent \<noteq> None" and "ci_value term_months = Some t"
    and "p \<le> 10 ^ 24" and "t \<le> 10 ^ 24"
  shows "\<exists>m c. t = of_nat m \<and> 1 \<le> m \<and> map ds_period (dss_rows s) = [1..<Suc m] \<and>
    quantize_money p = Inr (sum_list (map ds_principal (dss_rows s))) \<and>
    ds_balance (last (dss_rows s)) = 0 \<and>
    map ds_principal (butlast (dss_rows s)) = replicate (m - 1) c \<and> (style = BALLOON \<longrightarrow> c = 0)"
proof -
  from schedule_shape [OF assms] obtain k j m where m: "t = of_nat m" "1 \<le> m"
    and k: "quantize_money p = Inr (cents k)" and balloon: "style = BALLOON \<longrightarrow> j = 0"
    and shape: "map (\<lambda>r. (ds_principal r, ds_balance r)) (dss_rows s) =
      map (\<lambda>n. (cents j, cents (k - int n * j))) [1..<m] @ [(cents (k - int (m - 1) * j), 0)]"
    and periods: "map ds_period (dss_rows s) = [1..<Suc m]" by blast
  note rows = shape_principals [OF shape]
  have "sum_list (map ds_principal (dss_rows s)) = sum_list (map cents (replicate (m - 1) j @ [k - int (m - 1) * j]))"
    unfolding rows(1) by simp
  also have "\<dots> = cents k" unfolding sum_list_cents by (simp add: sum_list_replicate_int)
  finally have total: "sum_list (map ds_principal (dss_rows s)) = cents k" .
  have "dss_rows s \<noteq> []" using periods m(2) by (auto dest: arg_cong [where f = length] simp del: upt_Suc)
  then have "ds_balance (last (dss_rows s)) = last (map ds_balance (dss_rows s))"
    "map ds_principal (butlast (dss_rows s)) = butlast (map ds_principal (dss_rows s))"
    by (simp_all add: last_map map_butlast)
  then have "ds_balance (last (dss_rows s)) = 0" "map ds_principal (butlast (dss_rows s)) = replicate (m - 1) (cents j)"
    unfolding rows by simp_all
  with m k total periods balloon show ?thesis
    by (intro exI [of _ m] exI [of _ "cents j"]) (simp del: upt_Suc)
qed

definition sample_amount :: calculator_input where
  "sample_amount = \<lparr>ci_name = ''principal'', ci_value = Some (1 / 50), ci_fact_refs = []\<rparr>"

definition sample_rate :: calculator_input where
  "sample_rate = \<lparr>ci_name = ''rate'', ci_value = Some 0, ci_fact_refs = []\<rparr>"

definition sample_months :: calculator_input where
  "sample_months = \<lparr>ci_name = ''term'', ci_value = Some 4, ci_fact_refs = []\<rparr>"

lemma sample_schedule_runs:
  "\<exists>s. debt_service_schedule (\<lambda>x. x) sample_amount sample_rate sample_months EQUAL_PRINCIPAL = Inr s \<and>
     map (\<lambda>r. (ds_principal r, ds_balance r)) (dss_rows s) =
       [(1 / 100, 1 / 100), (1 / 100, 0), (1 / 100, - 1 / 100), (- 1 / 100, 0)]"
proof -
  have dec: "dec_div 0 100 = 0" "dec_div 0 12 = 0" "dec_mul x 0 = 0" "dec_div (1 / 50) 4 = 1 / 200" for x
    using in_context_exact [of 5 "- 3"] by (simp_all add: dec_div_def dec_mul_def pow10_def context_digits_def)
  have sub: "dec_sub (1 / 50) (1 / 100) = 1 / 100" "dec_sub (1 / 100) (1 / 100) = 0" "dec_sub 0 (1 / 100) = - 1 / 100"
    "dec_sub (- 1 / 100) (- 1 / 100) = 0"
    using dec_sub_cents [of 2 1] dec_sub_cents [of 1 1] dec_sub_cents [of 0 1] dec_sub_cents [of "-1" "-1"]
    by (simp_all add: cents_def context_digits_def)
  have money: "quantize_money (1 / 50) = Inr (1 / 50)" "quantize_money (1 / 100) = Inr (1 / 100)"
    "quantize_money 0 = Inr 0" "quantize_money (- 1 / 100) = Inr (- 1 / 100)" "quantize_money (1 / 200) = Inr (1 / 100)"
    by (simp_all add: quantize_money_Inr cents_def context_digits_def half_up_def floor_eq_iff)
  have periods: "[1..<Suc 4] = [1, 2, 3, 4]" by (simp add: upt_rec)
  show ?thesis
    by (simp add: debt_service_schedule_def sample_amount_def sample_rate_def sample_months_def reject_negative_def
        validate_term_def missing_reason_def Let_def dec sub money [simplified] periods [simplified]
        money principal_paid_def dec [simplified] sub [simplified] del: upt_Suc)
qed

theorem schedule_reconciles_witness:
  "\<exists>s. debt_service_schedule (\<lambda>x. x) sample_amount sample_rate sample_months EQUAL_PRINCIPAL = Inr s \<and>
     ds_balance (last (dss_rows s)) = 0"
proof -
  obtain s where run: "debt_service_schedule (\<lambda>x. x) sample_amount sample_rate sample_months EQUAL_PRINCIPAL = Inr s"
    using sample_schedule_runs by blast
  have "ci_value sample_amount = Some (1 / 50)" "ci_value sample_rate \<noteq> None" "ci_value sample_months = Some 4"
    "(1 / 50 :: rat) \<le> 10 ^ 24" "(4 :: rat) \<le> 10 ^ 24"
    by (simp_all add: sample_amount_def sample_rate_def sample_months_def)
  from schedule_reconciles [OF run this] run show ?thesis by blast
qed

text \<open>
  The rows of an equal-principal schedule never go negative exactly when the
  instalments of all rows but the last do not exceed the amount; rounding the
  instalment up can break this (two cents over four months: the witness), and then
  the schedule shows a negative balance and a negative last payment.
\<close>

theorem schedule_nonnegative_iff:
  assumes "debt_service_schedule sha amount rate_percent term_months style = Inr s"
    and "ci_value amount = Some p" and "ci_value rate_percent \<noteq> None" and "ci_value term_months = Some t"
    and "p \<le> 10 ^ 24" and "t \<le> 10 ^ 24"
  shows "list_all (\<lambda>r. 0 \<le> ds_principal r \<and> 0 \<le> ds_balance r) (dss_rows s) \<longleftrightarrow>
    (\<exists>total. quantize_money p = Inr total \<and> sum_list (map ds_principal (butlast (dss_rows s))) \<le> total)"
proof -
  from schedule_shape [OF assms] obtain k j m where m: "t = of_nat m" "1 \<le> m"
    and k: "quantize_money p = Inr (cents k)" "0 \<le> k" and balloon: "style = BALLOON \<longrightarrow> j = 0" and j: "0 \<le> j"
    and shape: "map (\<lambda>r. (ds_principal r, ds_balance r)) (dss_rows s) =
      map (\<lambda>n. (cents j, cents (k - int n * j))) [1..<m] @ [(cents (k - int (m - 1) * j), 0)]"
    and periods: "map ds_period (dss_rows s) = [1..<Suc m]" by blast
  note rows = shape_principals [OF shape]
  have "sum_list (map ds_principal (butlast (dss_rows s))) = sum_list (map cents (replicate (m - 1) j))"
    unfolding map_butlast rows(1) by simp
  also have "\<dots> = cents (int (m - 1) * j)" unfolding sum_list_cents by (simp add: sum_list_replicate_int)
  finally have paid: "sum_list (map ds_principal (butlast (dss_rows s))) = cents (int (m - 1) * j)" .
  have bound: "(\<exists>total. quantize_money p = Inr total \<and> sum_list (map ds_principal (butlast (dss_rows s))) \<le> total) \<longleftrightarrow>
      int (m - 1) * j \<le> k"
    unfolding paid k(1) by (simp only: sum.inject ex_simps simp_thms cents_le)
  have rest: "int n * j \<le> k" if "int (m - 1) * j \<le> k" "n < m" for n
  proof -
    have "int n * j \<le> int (m - 1) * j" using that(2) j by (intro mult_right_mono) auto
    with that(1) show ?thesis by simp
  qed
  have "list_all (\<lambda>r. 0 \<le> ds_principal r \<and> 0 \<le> ds_balance r) (dss_rows s) \<longleftrightarrow>
      list_all (\<lambda>(a, b). 0 \<le> a \<and> 0 \<le> b) (map (\<lambda>r. (ds_principal r, ds_balance r)) (dss_rows s))"
    by (simp add: list.pred_map o_def)
  also have "\<dots> \<longleftrightarrow> list_all (\<lambda>n. 0 \<le> j \<and> int n * j \<le> k) [1..<m] \<and> int (m - 1) * j \<le> k"
    unfolding shape list_all_append list.pred_map comp_def case_prod_conv cents_nonneg
    using j by auto
  also have "\<dots> \<longleftrightarrow> int (m - 1) * j \<le> k" using rest j by (auto simp: list_all_set)
  finally show ?thesis unfolding bound .
qed

theorem schedule_nonnegative_iff_witness:
  "\<exists>s. debt_service_schedule (\<lambda>x. x) sample_amount sample_rate sample_months EQUAL_PRINCIPAL = Inr s \<and>
     map ds_principal (dss_rows s) = [1 / 100, 1 / 100, 1 / 100, - 1 / 100] \<and>
     \<not> (\<exists>total. quantize_money (1 / 50) = Inr total \<and> sum_list (map ds_principal (butlast (dss_rows s))) \<le> total)"
proof -
  obtain s where run: "debt_service_schedule (\<lambda>x. x) sample_amount sample_rate sample_months EQUAL_PRINCIPAL = Inr s"
    and rows: "map (\<lambda>r. (ds_principal r, ds_balance r)) (dss_rows s) =
       [(1 / 100, 1 / 100), (1 / 100, 0), (1 / 100, - 1 / 100), (- 1 / 100, 0)]"
    using sample_schedule_runs by (elim exE conjE) (rule that)
  have principals: "map ds_principal (dss_rows s) = [1 / 100, 1 / 100, 1 / 100, - 1 / 100]"
  proof -
    have "map ds_principal (dss_rows s) = map fst (map (\<lambda>r. (ds_principal r, ds_balance r)) (dss_rows s))"
      by (simp only: map_map o_def fst_conv)
    also have "\<dots> = [1 / 100, 1 / 100, 1 / 100, - 1 / 100]" unfolding rows by (simp only: list.map fst_conv)
    finally show ?thesis .
  qed
  have "- 1 / 100 \<in> ds_principal ` set (dss_rows s)" unfolding set_map [symmetric] principals by simp
  then obtain r where r: "r \<in> set (dss_rows s)" "ds_principal r = - 1 / 100" by force
  have "\<not> 0 \<le> ds_principal r" unfolding r(2) by simp
  with r(1) have negative: "\<not> list_all (\<lambda>r. 0 \<le> ds_principal r \<and> 0 \<le> ds_balance r) (dss_rows s)"
    unfolding list_all_set by blast
  have inputs: "ci_value sample_amount = Some (1 / 50)" "ci_value sample_rate \<noteq> None" "ci_value sample_months = Some 4"
    "(1 / 50 :: rat) \<le> 10 ^ 24" "(4 :: rat) \<le> 10 ^ 24"
    by (simp_all add: sample_amount_def sample_rate_def sample_months_def)
  show ?thesis
    using run principals negative [unfolded schedule_nonnegative_iff [OF run inputs]] by (intro exI conjI)
qed

text \<open>
  The repayment capacity compares the series period by period and counts what it
  shows: the series must have equal lengths and no negative debt service; a period is
  a shortfall exactly when its cash flow is below a present, non-zero debt service,
  and the periods without a verdict are exactly those without a coverage ratio.
\<close>

theorem capacity_counts:
  "case repayment_capacity sha cashflows services of
     Inl (SeriesLengthMismatch a b) \<Rightarrow> a = length cashflows \<and> b = length services \<and> a \<noteq> b
   | Inl e \<Rightarrow> length cashflows = length services
   | Inr r \<Rightarrow> length (rc_periods r) = length cashflows \<and> length cashflows = length services \<and>
       map rp_shortfall (rc_periods r) = map2 capacity_verdict cashflows services \<and>
       rc_shortfall_count r = length (filter (\<lambda>v. v = Some True) (map rp_shortfall (rc_periods r))) \<and>
       rc_not_computable_count r = length (filter (\<lambda>p. \<exists>reason. rp_coverage_ratio p = NotComputable reason) (rc_periods r))"
proof (cases "repayment_capacity sha cashflows services")
  case (Inl e)
  show ?thesis
  proof (cases "length cashflows = length services")
    case True
    with Inl have "map_result reject_negative services = Inl e \<or> as_calc (capacity_periods (zip cashflows services)) = Inl e"
      by (auto simp: repayment_capacity_def result_simps)
    then have "\<not> (\<exists>a b. e = SeriesLengthMismatch a b)"
      using reject_negatives_error as_calc_error by blast
    then show ?thesis unfolding Inl using True by (cases e) simp_all
  next
    case False
    with Inl show ?thesis by (auto simp: repayment_capacity_def)
  qed
next
  case (Inr r)
  then obtain ps where len: "length cashflows = length services"
    and ps: "capacity_periods (zip cashflows services) = Inr ps" "rc_periods r = ps"
    and counts: "rc_shortfall_count r = length (filter (\<lambda>p. rp_shortfall p = Some True) ps)"
      "rc_not_computable_count r = length (filter (\<lambda>p. rp_shortfall p = None) ps)"
    by (auto simp: repayment_capacity_def result_simps split: if_splits)
  note verdicts = capacity_periods_verdicts [OF ps(1)]
  have "filter (\<lambda>p. rp_shortfall p = None) ps = filter (\<lambda>p. \<exists>reason. rp_coverage_ratio p = NotComputable reason) ps"
    using verdicts by (intro filter_cong refl) (simp add: list_all_set)
  moreover have "length (filter (\<lambda>v. v = Some True) (map rp_shortfall ps)) = length (filter (\<lambda>p. rp_shortfall p = Some True) ps)"
    by (simp add: filter_map o_def)
  ultimately show ?thesis
    using len counts verdicts by (simp only: Inr ps(2) sum.case) simp
qed

theorem capacity_counts_witness:
  "case repayment_capacity (\<lambda>x. x) [sample_amount] [] of Inl (SeriesLengthMismatch a b) \<Rightarrow> a = 1 \<and> b = 0
   | Inl e \<Rightarrow> False | Inr r \<Rightarrow> False"
  using capacity_counts [where sha = "\<lambda>x. x" and cashflows = "[sample_amount]" and services = "[]"] by (simp add: repayment_capacity_def)

end
