(* ===== verification/Working_Capital.thy ===== *)
theory Working_Capital
  imports Debt_Service
begin

text \<open>
  The working-capital requirement, its reconciliation against the funding and the
  declarative downside scenarios of \<open>application/underwriting/calculators.py\<close> (groups 4
  and 5).  The requirement is proved to reconcile to its components, a scenario
  without shocks to recompute the base case, and a missing driver to reach every
  figure of every scenario.
\<close>

section \<open>The requirement\<close>

record wc_need =
  wn_result_id :: string
  wn_inputs :: "calculator_input list"
  wn_outcome :: outcome
  wn_receivables :: outcome
  wn_inventory :: outcome
  wn_payables :: outcome
  wn_cash_conversion_days :: outcome

text \<open>The result in which every figure is the same \<open>NOT_COMPUTABLE\<close> outcome.\<close>

definition need_without_figures :: "string \<Rightarrow> calculator_input list \<Rightarrow> outcome \<Rightarrow> wc_need" where
  "need_without_figures rid inputs out =
     \<lparr>wn_result_id = rid, wn_inputs = inputs, wn_outcome = out, wn_receivables = out, wn_inventory = out,
      wn_payables = out, wn_cash_conversion_days = out\<rparr>"

definition daily_leg :: "decimal \<Rightarrow> decimal \<Rightarrow> decimal_error + decimal" where
  "daily_leg days flow = quantize6 (dec_div (dec_mul days flow) days_per_year)"

definition computed_need ::
  "string \<Rightarrow> calculator_input list \<Rightarrow> decimal \<Rightarrow> decimal \<Rightarrow> decimal \<Rightarrow> decimal \<Rightarrow> decimal \<Rightarrow>
   decimal_error + wc_need" where
  "computed_need rid inputs inv_days rec_days pay_days revenue cogs_share =
     (let cogs = dec_mul revenue cogs_share
      in rbind (daily_leg rec_days revenue) (\<lambda>receivables.
         rbind (daily_leg inv_days cogs) (\<lambda>inventory.
         rbind (daily_leg pay_days cogs) (\<lambda>payables.
         rbind (quantize6 (dec_sub (dec_add rec_days inv_days) pay_days)) (\<lambda>days.
         Inr \<lparr>wn_result_id = rid, wn_inputs = inputs,
              wn_outcome = Computed (dec_sub (dec_add receivables inventory) payables),
              wn_receivables = Computed receivables, wn_inventory = Computed inventory,
              wn_payables = Computed payables, wn_cash_conversion_days = Computed days\<rparr>)))))"

definition working_capital_requirement ::
  "(string \<Rightarrow> string) \<Rightarrow> calculator_input \<Rightarrow> calculator_input \<Rightarrow> calculator_input \<Rightarrow> calculator_input \<Rightarrow>
   calculator_input \<Rightarrow> calc_error + wc_need" where
  "working_capital_requirement sha inv_days rec_days pay_days revenue cogs_ratio =
     (let inputs = [inv_days, rec_days, pay_days, revenue, cogs_ratio];
          rid = make_result_id sha ''working_capital_requirement'' inputs
      in rbind (map_result reject_negative inputs) (\<lambda>_.
         case missing_reason inputs of
           Some reason \<Rightarrow> Inr (need_without_figures rid inputs (NotComputable reason))
         | None \<Rightarrow> as_calc (computed_need rid inputs (the (ci_value inv_days)) (the (ci_value rec_days))
             (the (ci_value pay_days)) (the (ci_value revenue)) (the (ci_value cogs_ratio)))))"

section \<open>The funding\<close>

record financing_inputs =
  fi_own_funds :: calculator_input
  fi_existing_facilities :: calculator_input
  fi_requested_amount :: calculator_input

record financing_gap_result =
  fg_result_id :: string
  fg_inputs :: "calculator_input list"
  fg_implied :: outcome
  fg_difference :: outcome

definition financing_gap ::
  "(string \<Rightarrow> string) \<Rightarrow> wc_need \<Rightarrow> calculator_input \<Rightarrow> calculator_input \<Rightarrow> calculator_input \<Rightarrow>
   calc_error + financing_gap_result" where
  "financing_gap sha need own facilities requested =
     rbind (map_result reject_negative [own, facilities, requested]) (\<lambda>_.
     let inputs = wn_inputs need @ [own, facilities, requested];
         result = (\<lambda>implied difference. \<lparr>fg_result_id = make_result_id sha ''financing_gap'' inputs,
           fg_inputs = inputs, fg_implied = implied, fg_difference = difference\<rparr>);
         absent = (\<lambda>reason. Inr (result (NotComputable reason) (NotComputable reason)))
     in case wn_outcome need of
          NotComputable _ \<Rightarrow> absent ''not computable: working capital need not computable''
        | Computed n \<Rightarrow>
            (case missing_reason [own, facilities, requested] of
               Some reason \<Rightarrow> absent reason
             | None \<Rightarrow> as_calc (
                 rbind (quantize6 (dec_sub (dec_sub n (the (ci_value own))) (the (ci_value facilities)))) (\<lambda>implied.
                 rbind (quantize6 (dec_sub (the (ci_value requested)) implied)) (\<lambda>difference.
                 Inr (result (Computed implied) (Computed difference)))))))"

section \<open>Downside scenarios\<close>

record wc_base_inputs =
  wb_inventory_days :: calculator_input
  wb_receivable_days :: calculator_input
  wb_payable_days :: calculator_input
  wb_projected_revenue :: calculator_input
  wb_cogs_ratio :: calculator_input

record scenario_spec =
  ss_label :: string
  ss_revenue_down_pct :: decimal
  ss_cost_up_pct :: decimal
  ss_receivable_days_up :: decimal

record scenario_outcome =
  so_label :: string
  so_spec :: scenario_spec
  so_need :: wc_need
  so_financing_gap :: "financing_gap_result option"

record downside_set =
  dn_result_id :: string
  dn_inputs :: "calculator_input list"
  dn_base_need :: wc_need
  dn_base_financing_gap :: "financing_gap_result option"
  dn_scenarios :: "scenario_outcome list"

definition shock :: "calculator_input \<Rightarrow> decimal option \<Rightarrow> decimal option \<Rightarrow> calculator_input" where
  "shock i multiplier addend =
     (let scaled = (\<lambda>x. case multiplier of None \<Rightarrow> x | Some m \<Rightarrow> dec_mul x m);
          raised = (\<lambda>x. case addend of None \<Rightarrow> x | Some a \<Rightarrow> dec_add x a)
      in \<lparr>ci_name = ci_name i, ci_value = map_option (\<lambda>x. raised (scaled x)) (ci_value i),
          ci_fact_refs = ci_fact_refs i\<rparr>)"

definition base_need ::
  "(string \<Rightarrow> string) \<Rightarrow> wc_base_inputs \<Rightarrow> calculator_input \<Rightarrow> calculator_input \<Rightarrow> calculator_input \<Rightarrow>
   calc_error + wc_need" where
  "base_need sha base rec_days revenue cogs_ratio =
     working_capital_requirement sha (wb_inventory_days base) rec_days (wb_payable_days base) revenue cogs_ratio"

definition optional_gap ::
  "(string \<Rightarrow> string) \<Rightarrow> financing_inputs option \<Rightarrow> wc_need \<Rightarrow> calc_error + financing_gap_result option" where
  "optional_gap sha funding need =
     (case funding of
        None \<Rightarrow> Inr None
      | Some f \<Rightarrow> rbind (financing_gap sha need (fi_own_funds f) (fi_existing_facilities f) (fi_requested_amount f))
          (\<lambda>g. Inr (Some g)))"

definition run_scenario ::
  "(string \<Rightarrow> string) \<Rightarrow> wc_base_inputs \<Rightarrow> financing_inputs option \<Rightarrow> scenario_spec \<Rightarrow>
   calc_error + scenario_outcome" where
  "run_scenario sha base funding spec =
     rbind (base_need sha base
       (shock (wb_receivable_days base) None (Some (ss_receivable_days_up spec)))
       (shock (wb_projected_revenue base) (Some (dec_sub 1 (ss_revenue_down_pct spec))) None)
       (shock (wb_cogs_ratio base) (Some (dec_add 1 (ss_cost_up_pct spec))) None)) (\<lambda>need.
     rbind (optional_gap sha funding need) (\<lambda>gap.
     Inr \<lparr>so_label = ss_label spec, so_spec = spec, so_need = need, so_financing_gap = gap\<rparr>))"

definition downside_scenarios ::
  "(string \<Rightarrow> string) \<Rightarrow> wc_base_inputs \<Rightarrow> scenario_spec list \<Rightarrow> financing_inputs option \<Rightarrow>
   calc_error + downside_set" where
  "downside_scenarios sha base specs funding =
     rbind (base_need sha base (wb_receivable_days base) (wb_projected_revenue base) (wb_cogs_ratio base)) (\<lambda>need.
     rbind (optional_gap sha funding need) (\<lambda>gap.
     rbind (map_result (run_scenario sha base funding) specs) (\<lambda>outs.
     let inputs = [wb_inventory_days base, wb_receivable_days base, wb_payable_days base,
                   wb_projected_revenue base, wb_cogs_ratio base] @
                  (case funding of None \<Rightarrow> []
                   | Some f \<Rightarrow> [fi_own_funds f, fi_existing_facilities f, fi_requested_amount f])
     in Inr \<lparr>dn_result_id = make_result_id sha ''downside_scenarios'' inputs, dn_inputs = inputs,
             dn_base_need = need, dn_base_financing_gap = gap, dn_scenarios = outs\<rparr>)))"

section \<open>Figures at the sixth decimal are exact\<close>

definition micros :: "int \<Rightarrow> decimal" where
  "micros k = of_int k / 10 ^ 6"

lemma micros_pow10: "micros k = of_int k * pow10 (- 6)"
  by (simp add: micros_def pow10_def)

lemma dec_add_micros: "\<bar>a + b\<bar> < 10 ^ context_digits \<Longrightarrow> dec_add (micros a) (micros b) = micros (a + b)"
  using in_context_exact [of "a + b" "- 6"] by (simp add: dec_add_def micros_pow10 distrib_right)

lemma dec_sub_micros: "\<bar>a - b\<bar> < 10 ^ context_digits \<Longrightarrow> dec_sub (micros a) (micros b) = micros (a - b)"
  using in_context_exact [of "a - b" "- 6"] by (simp add: dec_sub_def micros_pow10 left_diff_distrib)

lemma quantize6_micros: "quantize6 x = Inr y \<Longrightarrow> \<exists>k. y = micros k \<and> \<bar>k\<bar> < 10 ^ context_digits \<and> (0 \<le> x \<longrightarrow> 0 \<le> k)"
  using half_up_nonneg [of "x * 10 ^ 6"]
  by (intro exI [of _ "half_up (x * 10 ^ 6)"]) (auto simp: quantize6_def quantize_Inr micros_def)

lemma dec_div_nonneg: "0 \<le> x \<Longrightarrow> 0 \<le> y \<Longrightarrow> 0 \<le> dec_div x y"
  unfolding dec_div_def by (intro in_context_nonneg) simp

lemma dec_mul_nonneg: "0 \<le> x \<Longrightarrow> 0 \<le> y \<Longrightarrow> 0 \<le> dec_mul x y"
  unfolding dec_mul_def by (intro in_context_nonneg) simp

lemma daily_leg_micros:
  assumes "daily_leg days flow = Inr y" "0 \<le> days" "0 \<le> flow"
  shows "\<exists>k. y = micros k \<and> 0 \<le> k \<and> k < 10 ^ context_digits"
proof -
  have "0 \<le> dec_div (dec_mul days flow) days_per_year"
    using assms(2,3) by (intro dec_div_nonneg dec_mul_nonneg) (simp_all add: days_per_year_def)
  with quantize6_micros [OF assms(1) [unfolded daily_leg_def]] show ?thesis by auto
qed

lemma legs_reconcile:
  assumes "0 \<le> a" "0 \<le> b" "0 \<le> c" "c < 10 ^ context_digits" "micros a + micros b < 10 ^ 22"
  shows "dec_sub (dec_add (micros a) (micros b)) (micros c) = micros a + micros b - micros c"
proof -
  have "rat_of_int (a + b) < of_int (10 ^ 28)" using assms(5) by (simp add: micros_def divide_less_eq flip: add_divide_distrib)
  then have "a + b < 10 ^ context_digits" unfolding of_int_less_iff context_digits_def .
  then have "\<bar>a + b\<bar> < 10 ^ context_digits" "\<bar>a + b - c\<bar> < 10 ^ context_digits" using assms(1-4) by linarith+
  then show ?thesis
    by (simp add: dec_add_micros dec_sub_micros) (simp add: micros_def add_divide_distrib diff_divide_distrib)
qed

lemma rejects_none:
  "map_result reject_negative inputs = Inr us \<Longrightarrow> i \<in> set inputs \<Longrightarrow> ci_value i = Some v \<Longrightarrow> 0 \<le> v"
  by (induction inputs arbitrary: us) (auto simp: result_simps reject_negative_def split: if_splits)

lemma computed_need_figures:
  assumes "computed_need rid inputs stock rec pay revenue share = Inr w"
    and "0 \<le> stock" "0 \<le> rec" "0 \<le> pay" "0 \<le> revenue" "0 \<le> share"
  shows "\<exists>a b c. wn_receivables w = Computed (micros a) \<and> wn_inventory w = Computed (micros b) \<and>
    wn_payables w = Computed (micros c) \<and> 0 \<le> a \<and> 0 \<le> b \<and> 0 \<le> c \<and> c < 10 ^ context_digits \<and>
    wn_outcome w = Computed (dec_sub (dec_add (micros a) (micros b)) (micros c))"
proof -
  let ?cogs = "dec_mul revenue share"
  have cogs: "0 \<le> ?cogs" using assms by (intro dec_mul_nonneg)
  from assms(1) obtain x y z where legs: "daily_leg rec revenue = Inr x" "daily_leg stock ?cogs = Inr y"
    "daily_leg pay ?cogs = Inr z"
    and w: "wn_receivables w = Computed x" "wn_inventory w = Computed y" "wn_payables w = Computed z"
      "wn_outcome w = Computed (dec_sub (dec_add x y) z)"
    by (auto simp: computed_need_def Let_def result_simps)
  from daily_leg_micros [OF legs(1) assms(3,5)] daily_leg_micros [OF legs(2) assms(2) cogs]
    daily_leg_micros [OF legs(3) assms(4) cogs] w
  show ?thesis by auto
qed

section \<open>A shock of nothing\<close>

definition in_precision :: "calculator_input \<Rightarrow> bool" where
  "in_precision i = (case ci_value i of None \<Rightarrow> True | Some v \<Rightarrow> in_context v = v)"

definition no_shock :: "scenario_spec \<Rightarrow> bool" where
  "no_shock spec \<longleftrightarrow> ss_revenue_down_pct spec = 0 \<and> ss_cost_up_pct spec = 0 \<and> ss_receivable_days_up spec = 0"

lemma shock_of_nothing:
  assumes "in_precision i"
  shows "shock i None (Some 0) = i" "shock i (Some (dec_sub 1 0)) None = i" "shock i (Some (dec_add 1 0)) None = i"
  using assms
  by (auto simp: shock_def in_precision_def Let_def dec_add_def dec_sub_def dec_mul_def
      split: option.splits)

lemma run_scenario_unshocked:
  assumes "no_shock spec" "list_all in_precision [wb_receivable_days base, wb_projected_revenue base, wb_cogs_ratio base]"
  shows "run_scenario sha base funding spec =
     rbind (base_need sha base (wb_receivable_days base) (wb_projected_revenue base) (wb_cogs_ratio base)) (\<lambda>need.
     rbind (optional_gap sha funding need) (\<lambda>gap.
     Inr \<lparr>so_label = ss_label spec, so_spec = spec, so_need = need, so_financing_gap = gap\<rparr>))"
  using assms by (simp add: run_scenario_def no_shock_def shock_of_nothing)

section \<open>Properties\<close>

text \<open>
  C8: The working-capital requirement reconciles: without a driver it has no figure at
  all, and otherwise every driver is present and non-negative and the need is exactly
  receivables plus inventory minus payables (below 10^22, where 28 digits are exact).
\<close>

theorem requirement_reconciles:
  assumes "working_capital_requirement sha stock rec pay revenue share = Inr w"
  shows "case wn_outcome w of
      NotComputable reason \<Rightarrow> list_ex (\<lambda>i. ci_value i = None) [stock, rec, pay, revenue, share] \<and>
        list_all (\<lambda>out. out = NotComputable reason)
          [wn_receivables w, wn_inventory w, wn_payables w, wn_cash_conversion_days w]
    | Computed need \<Rightarrow> list_all (\<lambda>i. \<exists>v. ci_value i = Some v \<and> 0 \<le> v) [stock, rec, pay, revenue, share] \<and>
        (\<exists>a b c. wn_receivables w = Computed a \<and> wn_inventory w = Computed b \<and> wn_payables w = Computed c \<and>
          (a + b < 10 ^ 22 \<longrightarrow> need = a + b - c))"
proof (cases "missing_reason [stock, rec, pay, revenue, share]")
  case (Some reason)
  then have "list_ex (\<lambda>i. ci_value i = None) [stock, rec, pay, revenue, share]"
    using missing_reason_None [of "[stock, rec, pay, revenue, share]"] by auto
  with Some assms show ?thesis
    by (auto simp: working_capital_requirement_def Let_def result_simps need_without_figures_def)
next
  case None
  then obtain vi vr vp ve vs where vals: "ci_value stock = Some vi" "ci_value rec = Some vr" "ci_value pay = Some vp"
    "ci_value revenue = Some ve" "ci_value share = Some vs" by (auto simp: missing_reason_None)
  from None assms obtain us where checked: "map_result reject_negative [stock, rec, pay, revenue, share] = Inr us"
    and run: "computed_need (make_result_id sha ''working_capital_requirement'' [stock, rec, pay, revenue, share])
      [stock, rec, pay, revenue, share] vi vr vp ve vs = Inr w"
    by (auto simp: working_capital_requirement_def Let_def rbind_Inr vals simp del: map_result.simps)
  have nonneg: "0 \<le> vi" "0 \<le> vr" "0 \<le> vp" "0 \<le> ve" "0 \<le> vs"
    using rejects_none [OF checked] vals by auto
  from computed_need_figures [OF run nonneg] obtain a b c where fig:
    "wn_receivables w = Computed (micros a)" "wn_inventory w = Computed (micros b)" "wn_payables w = Computed (micros c)"
    "wn_outcome w = Computed (dec_sub (dec_add (micros a) (micros b)) (micros c))"
    and abc: "0 \<le> a" "0 \<le> b" "0 \<le> c" "c < 10 ^ context_digits" by blast
  show ?thesis using vals nonneg fig legs_reconcile [OF abc] by simp
qed

theorem requirement_reconciles_witness:
  "\<exists>w. working_capital_requirement (\<lambda>x. x) sample_rate sample_rate sample_rate sample_rate sample_rate = Inr w \<and>
     wn_outcome w = Computed 0 \<and> wn_receivables w = Computed 0"
proof -
  have zero: "daily_leg 0 0 = Inr 0" "dec_mul 0 0 = 0" "dec_add 0 0 = 0" "dec_sub 0 0 = 0" "quantize6 0 = Inr 0"
    by (simp_all add: daily_leg_def dec_mul_def dec_div_def dec_add_def dec_sub_def quantize6_def
        quantize_half_up_def half_up_def context_digits_def floor_eq_iff)
  obtain w where run: "working_capital_requirement (\<lambda>x. x) sample_rate sample_rate sample_rate sample_rate sample_rate = Inr w"
    and rec: "wn_receivables w = Computed 0" and inv: "wn_inventory w = Computed 0" and pay: "wn_payables w = Computed 0"
    and out: "\<exists>n. wn_outcome w = Computed n"
    by (simp add: working_capital_requirement_def sample_rate_def reject_negative_def missing_reason_def
        computed_need_def Let_def zero)
  from requirement_reconciles [OF run] rec inv pay out run show ?thesis by auto
qed

text \<open>
  A downside scenario without shocks recomputes the base case: its need and its
  financing gap are those of the base, whatever the other scenarios do, when the
  shocked drivers fit the 28 digits of the context.
\<close>

theorem zero_shock_is_base:
  assumes "downside_scenarios sha base specs funding = Inr d"
    and "list_all in_precision [wb_receivable_days base, wb_projected_revenue base, wb_cogs_ratio base]"
  shows "map so_spec (dn_scenarios d) = specs \<and>
    list_all (\<lambda>s. \<not> no_shock (so_spec s) \<or>
      so_need s = dn_base_need d \<and> so_financing_gap s = dn_base_financing_gap d) (dn_scenarios d)"
proof -
  let ?base = "base_need sha base (wb_receivable_days base) (wb_projected_revenue base) (wb_cogs_ratio base)"
  from assms(1) obtain need gap where base: "?base = Inr need" "optional_gap sha funding need = Inr gap"
    and d: "dn_base_need d = need" "dn_base_financing_gap d = gap"
    and outs: "map_result (run_scenario sha base funding) specs = Inr (dn_scenarios d)"
    by (auto simp: downside_scenarios_def Let_def result_simps)
  have step: "so_spec s = spec \<and> (\<not> no_shock spec \<or> so_need s = need \<and> so_financing_gap s = gap)"
    if "run_scenario sha base funding spec = Inr s" for spec s
  proof (cases "no_shock spec")
    case True
    from that show ?thesis unfolding run_scenario_unshocked [OF True assms(2)] by (auto simp: base result_simps)
  next
    case False
    with that show ?thesis by (auto simp: run_scenario_def result_simps)
  qed
  from map_result_all2 [OF outs] show ?thesis unfolding d
    by (induction rule: list_all2_induct) (use step in auto)
qed

definition sample_spec :: scenario_spec where
  "sample_spec = \<lparr>ss_label = ''base'', ss_revenue_down_pct = 0, ss_cost_up_pct = 0, ss_receivable_days_up = 0\<rparr>"

definition sample_base :: wc_base_inputs where
  "sample_base = \<lparr>wb_inventory_days = sample_rate, wb_receivable_days = sample_rate\<lparr>ci_value := None\<rparr>,
     wb_payable_days = sample_rate, wb_projected_revenue = sample_rate, wb_cogs_ratio = sample_rate\<rparr>"

theorem zero_shock_is_base_witness:
  "\<exists>d s. downside_scenarios (\<lambda>x. x) sample_base [sample_spec] None = Inr d \<and> dn_scenarios d = [s] \<and>
     so_need s = dn_base_need d"
proof -
  have fits: "list_all in_precision
      [wb_receivable_days sample_base, wb_projected_revenue sample_base, wb_cogs_ratio sample_base]"
    by (simp add: sample_base_def sample_rate_def in_precision_def)
  obtain d where run: "downside_scenarios (\<lambda>x. x) sample_base [sample_spec] None = Inr d"
    by (simp add: downside_scenarios_def base_need_def optional_gap_def run_scenario_def sample_base_def sample_rate_def
        sample_spec_def shock_def working_capital_requirement_def reject_negative_def missing_reason_def dec_mul_def Let_def)
  from zero_shock_is_base [OF run fits] have "map so_spec (dn_scenarios d) = [sample_spec]"
    and "list_all (\<lambda>s. \<not> no_shock (so_spec s) \<or> so_need s = dn_base_need d) (dn_scenarios d)"
    by (auto simp: list_all_set)
  then show ?thesis using run by (auto simp: no_shock_def sample_spec_def)
qed

end
