(* ===== verification/Repayment_Ledger.thy ===== *)
theory Repayment_Ledger
  imports Debt_Service
begin

text \<open>
  The repayment ledger of \<open>domain/repayments.py\<close>: the whole state of a facility is
  recomputed from its schedule and its append-only events by \<open>apply_events\<close>, which
  orders the history, sums it to the net cash and pours that cash over the
  instalments, fees before interest before principal and the oldest first.

  A date is a triple (year, month, day) in lexicographic order; the Vietnamese detail
  text of an exception is left out, it repeats the period and its due date.
\<close>

section \<open>Dates\<close>

type_synonym calendar_date = "nat \<times> nat \<times> nat"

definition leap_year :: "nat \<Rightarrow> bool" where
  "leap_year y \<longleftrightarrow> y mod 4 = 0 \<and> (y mod 100 \<noteq> 0 \<or> y mod 400 = 0)"

definition days_in_month :: "nat \<Rightarrow> nat \<Rightarrow> nat" where
  "days_in_month y m =
     (if m = 2 then (if leap_year y then 29 else 28) else if m \<in> {4, 6, 9, 11} then 30 else 31)"

definition valid_date :: "calendar_date \<Rightarrow> bool" where
  "valid_date = (\<lambda>(y, m, d). 1 \<le> y \<and> y \<le> 9999 \<and> 1 \<le> m \<and> m \<le> 12 \<and> 1 \<le> d \<and> d \<le> days_in_month y m)"

datatype ledger_error =
    ForeignEvent uuid uuid
  | UnknownPayment uuid "uuid option"
  | OverReversed uuid
  | YearOutOfRange
  | ScheduleError calc_error

definition add_months :: "calendar_date \<Rightarrow> nat \<Rightarrow> ledger_error + calendar_date" where
  "add_months anchor months =
     (case anchor of (y, m, d) \<Rightarrow>
        let total = m - 1 + months; year = y + total div 12; month = total mod 12 + 1
        in if year \<le> 9999 then Inr (year, month, min d (days_in_month year month)) else Inl YearOutOfRange)"

section \<open>Facilities, events and instalments\<close>

record facility =
  fa_id :: uuid
  fa_case_id :: uuid
  fa_case_version :: nat
  fa_decision_id :: uuid
  fa_principal :: decimal
  fa_annual_rate_percent :: decimal
  fa_term_months :: nat
  fa_repayment_style :: repayment_style
  fa_first_payment_date :: calendar_date
  fa_periodic_fee :: decimal

datatype event_kind = PAYMENT | REVERSAL

record repayment_event =
  re_id :: uuid
  re_facility_id :: uuid
  re_kind :: event_kind
  re_amount :: decimal
  re_external_reference :: string
  re_reversed_event_id :: "uuid option"
  re_effective_date :: calendar_date
  re_recorded_at :: "datetime option"

definition valid_event :: "repayment_event \<Rightarrow> bool" where
  "valid_event e \<longleftrightarrow> 0 < re_amount e \<and> re_external_reference e \<noteq> [] \<and>
     (re_kind e = REVERSAL \<longleftrightarrow> re_reversed_event_id e \<noteq> None)"

text \<open>The unary minus of \<open>decimal\<close> rounds like every other operator.\<close>

definition signed_amount :: "repayment_event \<Rightarrow> decimal" where
  "signed_amount e = (if re_kind e = PAYMENT then re_amount e else in_context (- re_amount e))"

record expected_instalment =
  ei_period :: nat
  ei_due_date :: calendar_date
  ei_fee :: decimal
  ei_interest :: decimal
  ei_principal :: decimal

definition ei_total :: "expected_instalment \<Rightarrow> decimal" where
  "ei_total i = dec_add (dec_add (ei_fee i) (ei_interest i)) (ei_principal i)"

fun as_ledger :: "calc_error + 'a \<Rightarrow> ledger_error + 'a" where
  "as_ledger (Inl e) = Inl (ScheduleError e)"
| "as_ledger (Inr x) = Inr x"

lemma as_ledger_Inr [simp, result_simps]: "as_ledger r = Inr x \<longleftrightarrow> r = Inr x"
  by (cases r) auto

abbreviation (input) as_cash :: "decimal_error + 'a \<Rightarrow> ledger_error + 'a" where
  "as_cash r \<equiv> as_ledger (as_calc r)"

definition build_expected_schedule :: "(string \<Rightarrow> string) \<Rightarrow> facility \<Rightarrow> calc_error + debt_service_result" where
  "build_expected_schedule sha f =
     debt_service_schedule sha
       \<lparr>ci_name = ''principal'', ci_value = Some (fa_principal f), ci_fact_refs = []\<rparr>
       \<lparr>ci_name = ''annual_rate_percent'', ci_value = Some (fa_annual_rate_percent f), ci_fact_refs = []\<rparr>
       \<lparr>ci_name = ''term_months'', ci_value = Some (of_nat (fa_term_months f)), ci_fact_refs = []\<rparr>
       (fa_repayment_style f)"

definition instalment_of_row :: "calendar_date \<Rightarrow> decimal \<Rightarrow> debt_service_row \<Rightarrow> ledger_error + expected_instalment" where
  "instalment_of_row first_date fee r =
     rbind (add_months first_date (ds_period r - 1)) (\<lambda>due.
     Inr \<lparr>ei_period = ds_period r, ei_due_date = due, ei_fee = fee, ei_interest = ds_interest r,
          ei_principal = ds_principal r\<rparr>)"

definition build_expected_instalments ::
  "(string \<Rightarrow> string) \<Rightarrow> facility \<Rightarrow> ledger_error + expected_instalment list" where
  "build_expected_instalments sha f =
     rbind (as_ledger (build_expected_schedule sha f)) (\<lambda>schedule.
     rbind (as_cash (quantize_money (fa_periodic_fee f))) (\<lambda>fee.
     map_result (instalment_of_row (fa_first_payment_date f) fee) (dss_rows schedule)))"

section \<open>The order of the history\<close>

text \<open>\<open>datetime.min\<close> stands for a missing time stamp.\<close>

definition order_key :: "datetime \<Rightarrow> repayment_event \<Rightarrow> calendar_date \<times> datetime \<times> uuid" where
  "order_key min_dt e =
     (re_effective_date e, (case re_recorded_at e of None \<Rightarrow> min_dt | Some t \<Rightarrow> t), re_id e)"

definition payment_amounts :: "repayment_event list \<Rightarrow> uuid \<Rightarrow> decimal option" where
  "payment_amounts events = py_dict (map (\<lambda>e. (re_id e, re_amount e)) (filter (\<lambda>e. re_kind e = PAYMENT) events))"

definition reversals :: "repayment_event list \<Rightarrow> repayment_event list" where
  "reversals = filter (\<lambda>e. re_kind e = REVERSAL)"

definition reversed_total :: "repayment_event list \<Rightarrow> uuid \<Rightarrow> decimal" where
  "reversed_total events p =
     foldl dec_add 0 (map re_amount (filter (\<lambda>e. re_reversed_event_id e = Some p) (reversals events)))"

definition check_owner :: "uuid \<Rightarrow> repayment_event \<Rightarrow> ledger_error + unit" where
  "check_owner fid e = check_that (re_facility_id e = fid) (ForeignEvent (re_id e) fid)"

definition check_reference :: "(uuid \<Rightarrow> decimal option) \<Rightarrow> repayment_event \<Rightarrow> ledger_error + unit" where
  "check_reference payments e =
     check_that (\<exists>p. re_reversed_event_id e = Some p \<and> payments p \<noteq> None)
       (UnknownPayment (re_id e) (re_reversed_event_id e))"

definition check_total :: "repayment_event list \<Rightarrow> uuid \<Rightarrow> ledger_error + unit" where
  "check_total events p =
     check_that (reversed_total events p \<le> the (payment_amounts events p)) (OverReversed p)"

definition order_events ::
  "datetime \<Rightarrow> uuid \<Rightarrow> repayment_event list \<Rightarrow> ledger_error + repayment_event list" where
  "order_events min_dt fid events =
     rbind (map_result (check_owner fid) events) (\<lambda>_.
     rbind (map_result (check_reference (payment_amounts events)) (reversals events)) (\<lambda>_.
     rbind (map_result (check_total events)
              (from_keys (map (\<lambda>e. the (re_reversed_event_id e)) (reversals events)))) (\<lambda>_.
     Inr (sort_key (order_key min_dt) events))))"

section \<open>The waterfall\<close>

datatype period_status = PAID | PARTIALLY_PAID | UNPAID

record ledger_period =
  lp_period :: nat
  lp_due_date :: calendar_date
  lp_expected_fee :: decimal
  lp_expected_interest :: decimal
  lp_expected_principal :: decimal
  lp_allocated_fee :: decimal
  lp_allocated_interest :: decimal
  lp_allocated_principal :: decimal
  lp_status :: period_status
  lp_overdue :: bool

definition lp_expected_total :: "ledger_period \<Rightarrow> decimal" where
  "lp_expected_total p = dec_add (dec_add (lp_expected_fee p) (lp_expected_interest p)) (lp_expected_principal p)"

definition lp_allocated_total :: "ledger_period \<Rightarrow> decimal" where
  "lp_allocated_total p =
     dec_add (dec_add (lp_allocated_fee p) (lp_allocated_interest p)) (lp_allocated_principal p)"

definition lp_outstanding_total :: "ledger_period \<Rightarrow> decimal" where
  "lp_outstanding_total p = dec_sub (lp_expected_total p) (lp_allocated_total p)"

definition take_cash :: "decimal \<Rightarrow> decimal \<Rightarrow> decimal_error + decimal" where
  "take_cash remaining demand =
     (if remaining \<le> 0 \<or> demand \<le> 0 then Inr 0 else quantize_money (min remaining demand))"

definition period_of :: "calendar_date \<Rightarrow> expected_instalment \<Rightarrow> decimal \<Rightarrow> decimal \<Rightarrow> decimal \<Rightarrow> ledger_period" where
  "period_of as_of i fee interest paid =
     (let allocated = dec_add (dec_add fee interest) paid
      in \<lparr>lp_period = ei_period i, lp_due_date = ei_due_date i, lp_expected_fee = ei_fee i,
          lp_expected_interest = ei_interest i, lp_expected_principal = ei_principal i,
          lp_allocated_fee = fee, lp_allocated_interest = interest, lp_allocated_principal = paid,
          lp_status = (if ei_total i \<le> allocated then PAID else if 0 < allocated then PARTIALLY_PAID else UNPAID),
          lp_overdue = (ei_due_date i \<le> as_of \<and> allocated < ei_total i)\<rparr>)"

fun waterfall ::
  "calendar_date \<Rightarrow> expected_instalment list \<Rightarrow> decimal \<Rightarrow> decimal_error + ledger_period list \<times> decimal" where
  "waterfall as_of [] remaining = Inr ([], remaining)"
| "waterfall as_of (i # is) remaining =
     rbind (take_cash remaining (ei_fee i)) (\<lambda>fee.
     let after_fee = dec_sub remaining fee in
     rbind (take_cash after_fee (ei_interest i)) (\<lambda>interest.
     let after_interest = dec_sub after_fee interest in
     rbind (take_cash after_interest (ei_principal i)) (\<lambda>paid.
     rbind (waterfall as_of is (dec_sub after_interest paid)) (\<lambda>(ps, left_over).
     Inr (period_of as_of i fee interest paid # ps, left_over)))))"

section \<open>The snapshot\<close>

datatype exception_kind = OVERDUE_INSTALLMENT | UNDERPAID_PERIOD | UNMATCHED_PAYMENT

record collections_exception =
  ce_kind :: exception_kind
  ce_period :: "nat option"
  ce_amount :: decimal

definition derive_exceptions :: "ledger_period list \<Rightarrow> decimal \<Rightarrow> collections_exception list" where
  "derive_exceptions periods overpayment =
     map (\<lambda>p. \<lparr>ce_kind = (if lp_allocated_total p = 0 then OVERDUE_INSTALLMENT else UNDERPAID_PERIOD),
               ce_period = Some (lp_period p), ce_amount = lp_outstanding_total p\<rparr>) (filter lp_overdue periods) @
     (if 0 < overpayment
      then [\<lparr>ce_kind = UNMATCHED_PAYMENT, ce_period = None, ce_amount = overpayment\<rparr>] else [])"

record ledger_snapshot =
  ls_facility_id :: uuid
  ls_as_of :: calendar_date
  ls_schedule_result_id :: string
  ls_event_count :: nat
  ls_net_paid :: decimal
  ls_total_expected_fees :: decimal
  ls_total_expected_interest :: decimal
  ls_total_expected_principal :: decimal
  ls_outstanding_fees :: decimal
  ls_outstanding_interest :: decimal
  ls_outstanding_principal :: decimal
  ls_overpayment :: decimal
  ls_periods :: "ledger_period list"
  ls_exceptions :: "collections_exception list"

definition dec_sum :: "decimal list \<Rightarrow> decimal" where
  "dec_sum xs = foldl dec_add 0 xs"

definition ls_outstanding_total :: "ledger_snapshot \<Rightarrow> decimal" where
  "ls_outstanding_total s =
     dec_add (dec_add (ls_outstanding_fees s) (ls_outstanding_interest s)) (ls_outstanding_principal s)"

definition ls_total_expected :: "ledger_snapshot \<Rightarrow> decimal" where
  "ls_total_expected s =
     dec_add (dec_add (ls_total_expected_fees s) (ls_total_expected_interest s)) (ls_total_expected_principal s)"

definition ls_allocated_total :: "ledger_snapshot \<Rightarrow> decimal" where
  "ls_allocated_total s = dec_sub (ls_total_expected s) (ls_outstanding_total s)"

definition is_settled :: "ledger_snapshot \<Rightarrow> bool" where
  "is_settled s \<longleftrightarrow> ls_outstanding_total s = 0 \<and> ls_overpayment s = 0"

definition snapshot_of ::
  "facility \<Rightarrow> calendar_date \<Rightarrow> string \<Rightarrow> nat \<Rightarrow> decimal \<Rightarrow> ledger_period list \<Rightarrow> decimal \<Rightarrow> ledger_snapshot" where
  "snapshot_of f as_of rid n_events net periods remaining =
     (let overpayment = (if 0 < remaining then remaining else 0);
          fees = dec_sum (map lp_expected_fee periods);
          interest = dec_sum (map lp_expected_interest periods);
          due = dec_sum (map lp_expected_principal periods)
      in \<lparr>ls_facility_id = fa_id f, ls_as_of = as_of, ls_schedule_result_id = rid, ls_event_count = n_events,
          ls_net_paid = net, ls_total_expected_fees = fees, ls_total_expected_interest = interest,
          ls_total_expected_principal = due,
          ls_outstanding_fees = dec_sub fees (dec_sum (map lp_allocated_fee periods)),
          ls_outstanding_interest = dec_sub interest (dec_sum (map lp_allocated_interest periods)),
          ls_outstanding_principal = dec_sub due (dec_sum (map lp_allocated_principal periods)),
          ls_overpayment = overpayment, ls_periods = periods,
          ls_exceptions = derive_exceptions periods overpayment\<rparr>)"

definition apply_events ::
  "(string \<Rightarrow> string) \<Rightarrow> datetime \<Rightarrow> facility \<Rightarrow> repayment_event list \<Rightarrow> calendar_date \<Rightarrow>
   ledger_error + ledger_snapshot" where
  "apply_events sha min_dt f events as_of =
     rbind (as_ledger (build_expected_schedule sha f)) (\<lambda>schedule.
     rbind (build_expected_instalments sha f) (\<lambda>instalments.
     rbind (order_events min_dt (fa_id f) events) (\<lambda>ordered.
     let net = dec_sum (map signed_amount ordered) in
     rbind (as_cash (waterfall as_of instalments net)) (\<lambda>(periods, remaining).
     Inr (snapshot_of f as_of (dss_result_id schedule) (length ordered) net periods remaining)))))"

section \<open>Cash in cents is exact\<close>

definition is_cents :: "decimal \<Rightarrow> bool" where
  "is_cents x \<longleftrightarrow> (\<exists>k. x = cents k)"

lemma is_cents_cents [simp]: "is_cents (cents k)"
  by (auto simp: is_cents_def)

lemma quantize_money_is_cents: "quantize_money x = Inr y \<Longrightarrow> is_cents y"
  by (auto simp: quantize_money_Inr)

lemma dec_add_cents: "\<bar>a + b\<bar> < 10 ^ context_digits \<Longrightarrow> dec_add (cents a) (cents b) = cents (a + b)"
  using in_context_exact [of "a + b" "- 2"] by (simp add: dec_add_def cents_pow10 distrib_right)

lemma foldl_dec_add_cents:
  "\<bar>a\<bar> + sum_list (map abs ks) < 10 ^ context_digits \<Longrightarrow>
   foldl dec_add (cents a) (map cents ks) = cents (a + sum_list ks)"
proof (induction ks arbitrary: a)
  case (Cons k ks)
  have nonneg: "0 \<le> sum_list (map abs ks)" by (induction ks) auto
  have "\<bar>a + k\<bar> < 10 ^ context_digits" "\<bar>a + k\<bar> + sum_list (map abs ks) < 10 ^ context_digits"
    using Cons.prems nonneg by simp_all
  then show ?case using Cons.IH [of "a + k"] by (simp add: dec_add_cents add.assoc)
qed simp

lemma dec_sum_cents:
  "sum_list (map abs ks) < 10 ^ context_digits \<Longrightarrow> dec_sum (map cents ks) = cents (sum_list ks)"
  using foldl_dec_add_cents [of 0 ks] by (simp add: dec_sum_def)

lemma signed_amount_cents:
  "re_amount e = cents k \<Longrightarrow> \<bar>k\<bar> < 10 ^ context_digits \<Longrightarrow>
   signed_amount e = cents (if re_kind e = PAYMENT then k else - k)"
  using in_context_exact [of "- k" "- 2"] by (simp add: signed_amount_def cents_pow10)

lemma take_cash_cents:
  "\<bar>r\<bar> < 10 ^ context_digits \<Longrightarrow> take_cash (cents r) (cents d) = Inr (cents (max 0 (min r d)))"
proof -
  assume r: "\<bar>r\<bar> < 10 ^ context_digits"
  have sign: "cents k \<le> 0 \<longleftrightarrow> k \<le> 0" for k using cents_le [of k 0] by simp
  show ?thesis
  proof (cases "r \<le> 0 \<or> d \<le> 0")
    case True
    then have "max 0 (min r d) = 0" by auto
    with True show ?thesis by (simp add: take_cash_def sign)
  next
    case False
    then have "min (cents r) (cents d) = cents (min r d)" "max 0 (min r d) = min r d" by (auto simp: min_def)
    moreover have "\<bar>min r d\<bar> < 10 ^ context_digits" using False r by (auto simp: min_def)
    ultimately show ?thesis using False by (simp add: take_cash_def sign quantize_cents)
  qed
qed

section \<open>The waterfall pours\<close>

text \<open>Pouring \<open>r\<close> cents over a list of demands, first come first served.\<close>

fun pour :: "int \<Rightarrow> int list \<Rightarrow> int list \<times> int" where
  "pour r [] = ([], r)"
| "pour r (d # ds) =
     (let x = max 0 (min r d); (xs, left_over) = pour (r - x) ds in (x # xs, left_over))"

lemma pour_props:
  assumes "pour r ds = (xs, left_over)"
  shows "length xs = length ds \<and> sum_list xs + left_over = r \<and> (r \<le> 0 \<longrightarrow> left_over = r) \<and> (0 \<le> r \<longrightarrow> 0 \<le> left_over) \<and>
    list_all (\<lambda>(d, x). 0 \<le> x \<and> x \<le> max 0 d) (zip ds xs) \<and> (r \<le> 0 \<longrightarrow> list_all (\<lambda>x. x = 0) xs) \<and>
    sorted_wrt (\<lambda>(d, x) (d', x'). x' = 0 \<or> x = max 0 d) (zip ds xs) \<and>
    (left_over \<le> 0 \<or> list_all (\<lambda>(d, x). x = max 0 d) (zip ds xs))"
  using assms
proof (induction r ds arbitrary: xs left_over rule: pour.induct)
  case (2 r d ds)
  define x where "x = max 0 (min r d)"
  have x: "0 \<le> x" "x \<le> max 0 d" "x = max 0 d \<or> r - x \<le> 0" "r \<le> 0 \<longrightarrow> r - x \<le> 0 \<and> x = 0" "0 \<le> r \<longrightarrow> 0 \<le> r - x"
    unfolding x_def by auto
  from 2(2) obtain ys where ys: "pour (r - x) ds = (ys, left_over)" and xs: "xs = x # ys"
    by (auto simp: Let_def x_def split: prod.splits)
  note IH = 2(1) [OF refl ys [unfolded x_def], folded x_def]
  have head: "list_all (\<lambda>(d', x'). x' = 0 \<or> x = max 0 d) (zip ds ys)"
  proof (cases "x = max 0 d")
    case True
    then show ?thesis by (simp add: list_all_set)
  next
    case False
    with x(3) IH have "list_all (\<lambda>x. x = 0) ys" by blast
    then show ?thesis by (auto simp: list_all_set dest: set_zip_rightD)
  qed
  have left_over: "left_over \<le> 0 \<or> x = max 0 d" using x(3) IH by linarith
  have sum: "x + sum_list ys + left_over = r" using IH by linarith
  show ?case using IH head left_over x sum unfolding xs
    by (simp add: list_all_set case_prod_beta) blast
qed simp

section \<open>The instalments are in cents\<close>

lemma schedule_rows_are_cents:
  "schedule_rows style term rate (cents j) ps (cents k) = Inr rows \<Longrightarrow>
   list_all (\<lambda>r. is_cents (ds_principal r) \<and> is_cents (ds_interest r)) rows"
proof (induction ps arbitrary: k rows)
  case (Cons p ps)
  from Cons.prems obtain interest paid balance rest where *: "quantize_money (dec_mul (cents k) rate) = Inr interest"
    "principal_paid style term p (cents k) (cents j) = Inr paid" "quantize_money (dec_sub (cents k) paid) = Inr balance"
    "schedule_rows style term rate (cents j) ps balance = Inr rest"
    and rows: "rows = \<lparr>ds_period = p, ds_principal = paid, ds_interest = interest, ds_balance = balance\<rparr> # rest"
    by (auto simp: result_simps)
  from *(2) have "is_cents paid"
    by (auto simp: principal_paid_def intro: quantize_money_is_cents split: if_splits)
  moreover from quantize_money_is_cents [OF *(3)] obtain k' where "balance = cents k'" by (auto simp: is_cents_def)
  with Cons.IH *(4) have "list_all (\<lambda>r. is_cents (ds_principal r) \<and> is_cents (ds_interest r)) rest" by blast
  ultimately show ?case using quantize_money_is_cents [OF *(1)] by (simp add: rows)
qed simp

lemma schedule_is_cents:
  assumes "debt_service_schedule sha amount rate_percent term_months style = Inr s"
  shows "list_all (\<lambda>r. is_cents (ds_principal r) \<and> is_cents (ds_interest r)) (dss_rows s)"
proof (cases "missing_reason [amount, rate_percent, term_months]")
  case (Some reason)
  with assms show ?thesis by (auto simp: debt_service_schedule_def Let_def result_simps)
next
  case None
  with assms obtain balance instalment months rate where "quantize_money (the (ci_value amount)) = Inr balance"
    "quantize_money (dec_div balance (of_nat months)) = Inr instalment"
    "schedule_rows style months rate instalment [1..<Suc months] balance = Inr (dss_rows s)"
    by (auto simp: debt_service_schedule_def Let_def result_simps simp del: upt_Suc)
  moreover from this(1,2) [THEN quantize_money_is_cents] obtain k j where "balance = cents k" "instalment = cents j"
    by (auto simp: is_cents_def)
  ultimately show ?thesis using schedule_rows_are_cents by blast
qed

lemma instalments_are_cents:
  assumes "build_expected_instalments sha f = Inr is"
  shows "list_all (\<lambda>i. is_cents (ei_fee i) \<and> is_cents (ei_interest i) \<and> is_cents (ei_principal i)) is"
proof -
  from assms obtain schedule fee where "build_expected_schedule sha f = Inr schedule"
    and fee: "quantize_money (fa_periodic_fee f) = Inr fee"
    and "is": "map_result (instalment_of_row (fa_first_payment_date f) fee) (dss_rows schedule) = Inr is"
    by (auto simp: build_expected_instalments_def result_simps)
  then have rows: "list_all (\<lambda>r. is_cents (ds_principal r) \<and> is_cents (ds_interest r)) (dss_rows schedule)"
    unfolding build_expected_schedule_def by (intro schedule_is_cents)
  have "list_all (\<lambda>i. is_cents (ei_fee i) \<and> is_cents (ei_interest i) \<and> is_cents (ei_principal i)) is"
    if "map_result (instalment_of_row d fee) rows = Inr is"
      "list_all (\<lambda>r. is_cents (ds_principal r) \<and> is_cents (ds_interest r)) rows" for d rows "is"
    using that quantize_money_is_cents [OF fee]
    by (induction rows arbitrary: "is") (auto simp: result_simps instalment_of_row_def)
  from this [OF "is" rows] show ?thesis .
qed

definition demand_cents :: "expected_instalment list \<Rightarrow> int list \<Rightarrow> bool" where
  "demand_cents is ds \<longleftrightarrow> map cents ds = concat (map (\<lambda>i. [ei_fee i, ei_interest i, ei_principal i]) is)"

lemma demand_cents_exists:
  "list_all (\<lambda>i. is_cents (ei_fee i) \<and> is_cents (ei_interest i) \<and> is_cents (ei_principal i)) is \<Longrightarrow>
   \<exists>ds. demand_cents is ds"
proof (induction "is")
  case (Cons i "is")
  then obtain ds a b c where "demand_cents is ds" "ei_fee i = cents a" "ei_interest i = cents b" "ei_principal i = cents c"
    by (auto simp: is_cents_def)
  then have "demand_cents (i # is) (a # b # c # ds)" by (simp add: demand_cents_def)
  then show ?case ..
qed (auto simp: demand_cents_def)

lemma pour_Cons:
  "max 0 (min r d) = x \<Longrightarrow> pour r (d # ds) = (x # fst (pour (r - x) ds), snd (pour (r - x) ds))"
  by (simp add: Let_def case_prod_beta)

text \<open>What each bucket of each period expects and gets, in the order of the waterfall.\<close>

definition slots :: "ledger_period list \<Rightarrow> (decimal \<times> decimal) list" where
  "slots ps = concat (map (\<lambda>p. [(lp_expected_fee p, lp_allocated_fee p), (lp_expected_interest p, lp_allocated_interest p),
     (lp_expected_principal p, lp_allocated_principal p)]) ps)"

lemma waterfall_pours:
  assumes "demand_cents is ds" "\<bar>r\<bar> < 10 ^ context_digits"
  shows "\<exists>ps. waterfall as_of is (cents r) = Inr (ps, cents (snd (pour r ds))) \<and>
    slots ps = zip (map cents ds) (map cents (fst (pour r ds)))"
  using assms
proof (induction "is" arbitrary: ds r)
  case (Cons i "is")
  from Cons.prems(1) obtain a b c ds' where ds: "ds = a # b # c # ds'" and i: "ei_fee i = cents a" "ei_interest i = cents b"
      "ei_principal i = cents c" and rest: "demand_cents is ds'"
    by (auto simp: demand_cents_def map_eq_Cons_conv)
  have step: "\<exists>x. max 0 (min q d) = x \<and> take_cash (cents q) (cents d) = Inr (cents x) \<and>
      dec_sub (cents q) (cents x) = cents (q - x) \<and> \<bar>q - x\<bar> < 10 ^ context_digits"
    if "\<bar>q\<bar> < 10 ^ context_digits" for q d :: int
  proof -
    have "\<bar>q - max 0 (min q d)\<bar> < 10 ^ context_digits" using that by (auto simp: max_def min_def)
    with that show ?thesis by (simp only: take_cash_cents dec_sub_cents simp_thms ex_simps)
  qed
  from step [OF Cons.prems(2), of a] obtain x where x: "max 0 (min r a) = x" "take_cash (cents r) (cents a) = Inr (cents x)"
    "dec_sub (cents r) (cents x) = cents (r - x)" "\<bar>r - x\<bar> < 10 ^ context_digits" by blast
  from step [OF x(4), of b] obtain y where y: "max 0 (min (r - x) b) = y"
    "take_cash (cents (r - x)) (cents b) = Inr (cents y)"
    "dec_sub (cents (r - x)) (cents y) = cents (r - x - y)" "\<bar>r - x - y\<bar> < 10 ^ context_digits" by blast
  from step [OF y(4), of c] obtain z where z: "max 0 (min (r - x - y) c) = z"
    "take_cash (cents (r - x - y)) (cents c) = Inr (cents z)"
    "dec_sub (cents (r - x - y)) (cents z) = cents (r - x - y - z)" "\<bar>r - x - y - z\<bar> < 10 ^ context_digits" by blast
  from Cons.IH [OF rest z(4)] obtain ps where
    tail: "waterfall as_of is (cents (r - x - y - z)) = Inr (ps, cents (snd (pour (r - x - y - z) ds')))"
    "slots ps = zip (map cents ds') (map cents (fst (pour (r - x - y - z) ds')))" by blast
  have poured: "pour r ds = (x # y # z # fst (pour (r - x - y - z) ds'), snd (pour (r - x - y - z) ds'))"
    unfolding ds by (simp only: pour_Cons [OF x(1)] pour_Cons [OF y(1)] pour_Cons [OF z(1)] fst_conv snd_conv)
  have run: "waterfall as_of (i # is) (cents r) =
      Inr (period_of as_of i (cents x) (cents y) (cents z) # ps, cents (snd (pour (r - x - y - z) ds')))"
    by (simp only: waterfall.simps i x(2,3) y(2,3) z(2,3) tail(1) Let_def rbind.simps case_prod_conv)
  have pairs: "slots (period_of as_of i (cents x) (cents y) (cents z) # ps) =
      (cents a, cents x) # (cents b, cents y) # (cents c, cents z) # slots ps"
    by (simp add: slots_def period_of_def Let_def i)
  show ?case
    by (rule exI [of _ "period_of as_of i (cents x) (cents y) (cents z) # ps"])
      (simp only: run pairs poured [unfolded ds] ds tail(2) list.map zip_Cons_Cons fst_conv snd_conv simp_thms)
qed (simp add: demand_cents_def slots_def)

section \<open>The net cash\<close>

lemma order_events_mset: "order_events min_dt fid events = Inr ordered \<Longrightarrow> mset ordered = mset events"
  by (auto simp: order_events_def result_simps)

lemma sum_list_mset_eq: "mset xs = mset ys \<Longrightarrow> sum_list (map f xs) = sum_list (map f ys)"
  for f :: "'a \<Rightarrow> 'b::comm_monoid_add"
  by (metis mset_map sum_mset_sum_list)

definition cents_of :: "decimal \<Rightarrow> int" where
  "cents_of x = \<lfloor>x * 100\<rfloor>"

lemma cents_of_cents: "is_cents x \<Longrightarrow> cents (cents_of x) = x"
  by (auto simp: is_cents_def cents_of_def cents_def)

definition signed_cents :: "repayment_event \<Rightarrow> int" where
  "signed_cents e = (if re_kind e = PAYMENT then cents_of (re_amount e) else - cents_of (re_amount e))"

definition cash_bounded :: "repayment_event list \<Rightarrow> bool" where
  "cash_bounded events \<longleftrightarrow> list_all (\<lambda>e. is_cents (re_amount e) \<and> 0 \<le> re_amount e) events \<and>
     sum_list (map re_amount events) \<le> 10 ^ 24"

lemma cash_bounded_amount:
  "cash_bounded events \<Longrightarrow> e \<in> set events \<Longrightarrow> cents (cents_of (re_amount e)) = re_amount e"
  by (auto simp: cash_bounded_def list_all_set cents_of_cents)

lemma cash_bounded_nonneg: "cash_bounded events \<Longrightarrow> e \<in> set events \<Longrightarrow> 0 \<le> cents_of (re_amount e)"
  by (auto simp: cash_bounded_def list_all_set cents_of_def)

lemma cash_bounded_sum:
  assumes "cash_bounded events"
  shows "sum_list (map (\<lambda>e. cents_of (re_amount e)) events) < 10 ^ context_digits"
proof -
  have "map cents (map (\<lambda>e. cents_of (re_amount e)) events) = map re_amount events"
    using cash_bounded_amount [OF assms] by simp
  then have "cents (sum_list (map (\<lambda>e. cents_of (re_amount e)) events)) \<le> 10 ^ 24"
    using assms unfolding cash_bounded_def by (metis sum_list_cents)
  then have "rat_of_int (sum_list (map (\<lambda>e. cents_of (re_amount e)) events)) < of_int (10 ^ 28)"
    by (simp add: cents_def divide_le_eq)
  then show ?thesis unfolding of_int_less_iff context_digits_def .
qed

lemma net_cash:
  assumes "cash_bounded events" "mset ordered = mset events"
  shows "dec_sum (map signed_amount ordered) = cents (sum_list (map signed_cents events))"
    and "\<bar>sum_list (map signed_cents events)\<bar> < 10 ^ context_digits"
proof -
  have members: "set ordered = set events" using assms(2) by (rule mset_eq_setD)
  have abs: "map abs (map signed_cents events) = map (\<lambda>e. cents_of (re_amount e)) events"
    using cash_bounded_nonneg [OF assms(1)] by (simp add: signed_cents_def)
  have each: "cents_of (re_amount e) \<le> sum_list (map (\<lambda>e. cents_of (re_amount e)) events)" if "e \<in> set events" for e
    using that cash_bounded_nonneg [OF assms(1)] by (intro member_le_sum_list) auto
  have "signed_amount e = cents (signed_cents e)" if e: "e \<in> set events" for e
  proof -
    have "\<bar>cents_of (re_amount e)\<bar> < 10 ^ context_digits"
      using cash_bounded_nonneg [OF assms(1) e] each [OF e] cash_bounded_sum [OF assms(1)] by simp
    from signed_amount_cents [OF cash_bounded_amount [OF assms(1) e, symmetric] this]
    show ?thesis by (simp only: signed_cents_def)
  qed
  then have signed: "map signed_amount ordered = map cents (map signed_cents ordered)" by (simp add: members)
  have small: "sum_list (map abs (map signed_cents ordered)) < 10 ^ context_digits"
    using cash_bounded_sum [OF assms(1)] unfolding abs [symmetric] map_map sum_list_mset_eq [OF assms(2)] .
  show "dec_sum (map signed_amount ordered) = cents (sum_list (map signed_cents events))"
    unfolding signed dec_sum_cents [OF small] sum_list_mset_eq [OF assms(2)] ..
  have "\<bar>sum_list (map signed_cents events)\<bar> \<le> sum_list (map abs (map signed_cents events))"
    using sum_list_abs [of "map signed_cents events"] by simp
  then show "\<bar>sum_list (map signed_cents events)\<bar> < 10 ^ context_digits"
    using cash_bounded_sum [OF assms(1)] unfolding abs by simp
qed

lemma apply_events_parts:
  assumes "apply_events sha min_dt f events as_of = Inr s"
  shows "\<exists>schedule instalments ordered periods left_over.
    build_expected_schedule sha f = Inr schedule \<and> build_expected_instalments sha f = Inr instalments \<and>
    order_events min_dt (fa_id f) events = Inr ordered \<and>
    waterfall as_of instalments (dec_sum (map signed_amount ordered)) = Inr (periods, left_over) \<and>
    s = snapshot_of f as_of (dss_result_id schedule) (length ordered) (dec_sum (map signed_amount ordered)) periods left_over"
  using assms by (simp add: apply_events_def Let_def rbind_Inr) (metis case_prod_conv old.prod.exhaust sum.inject(2))

lemma apply_events_pours:
  assumes "apply_events sha min_dt f events as_of = Inr s" "cash_bounded events"
  shows "\<exists>ds. ls_net_paid s = cents (sum_list (map signed_cents events)) \<and>
    slots (ls_periods s) = zip (map cents ds) (map cents (fst (pour (sum_list (map signed_cents events)) ds))) \<and>
    ls_overpayment s = cents (max 0 (snd (pour (sum_list (map signed_cents events)) ds)))"
proof -
  let ?net = "sum_list (map signed_cents events)"
  from apply_events_parts [OF assms(1)] obtain schedule instalments ordered periods left_over where
    "build_expected_schedule sha f = Inr schedule" and inst: "build_expected_instalments sha f = Inr instalments"
    and ordered: "order_events min_dt (fa_id f) events = Inr ordered"
    and run: "waterfall as_of instalments (dec_sum (map signed_amount ordered)) = Inr (periods, left_over)"
    and s: "s = snapshot_of f as_of (dss_result_id schedule) (length ordered) (dec_sum (map signed_amount ordered)) periods left_over"
    by blast
  note net = net_cash [OF assms(2) order_events_mset [OF ordered]]
  from demand_cents_exists [OF instalments_are_cents [OF inst]] obtain ds where ds: "demand_cents instalments ds" ..
  from waterfall_pours [OF ds net(2), of as_of] run have
    "left_over = cents (snd (pour ?net ds))" "slots periods = zip (map cents ds) (map cents (fst (pour ?net ds)))"
    unfolding net(1) by auto
  moreover have "(if 0 < cents k then cents k else 0) = cents (max 0 k)" for k
    by (simp add: cents_def max_def)
  ultimately show ?thesis unfolding s snapshot_of_def Let_def net(1)
    by (intro exI [of _ ds]) (simp only: ledger_snapshot.select_convs simp_thms)
qed

section \<open>The order of delivery\<close>

lemma payment_amounts_mset:
  assumes "mset xs = mset ys" "distinct (map re_id xs)"
  shows "payment_amounts xs = payment_amounts ys"
proof -
  have "distinct (map re_id ys)"
    using assms by (metis mset_map mset_eq_imp_distinct_iff)
  then have dist: "distinct (map fst (map (\<lambda>e. (re_id e, re_amount e)) (filter (\<lambda>e. re_kind e = PAYMENT) zs)))"
    if "zs = xs \<or> zs = ys" for zs
    using that assms(2) by (auto simp: o_def intro: distinct_map_filter)
  have "payment_amounts xs p = Some v \<longleftrightarrow> payment_amounts ys p = Some v" for p v
    unfolding payment_amounts_def py_dict_distinct [OF dist [OF disjI1, OF refl]] py_dict_distinct [OF dist [OF disjI2, OF refl]]
    using mset_eq_setD [OF assms(1)] by auto
  then show ?thesis by (intro ext) (metis option.exhaust)
qed

lemma sum_list_filter_le:
  "(\<And>x. x \<in> set xs \<Longrightarrow> 0 \<le> f x) \<Longrightarrow> sum_list (map f (filter P xs)) \<le> sum_list (map f xs)" for f :: "'a \<Rightarrow> int"
  by (induction xs) (auto intro: add_mono add_increasing)

lemma reversed_total_cents:
  assumes "cash_bounded events"
  shows "reversed_total events p = cents (sum_list (map (\<lambda>e. cents_of (re_amount e))
     (filter (\<lambda>e. re_reversed_event_id e = Some p) (reversals events))))"
proof -
  let ?es = "filter (\<lambda>e. re_reversed_event_id e = Some p) (reversals events)"
  have sub: "set ?es \<subseteq> set events" "?es = filter (\<lambda>e. re_kind e = REVERSAL \<and> re_reversed_event_id e = Some p) events"
    by (auto simp: reversals_def conj_commute)
  have "sum_list (map (\<lambda>e. cents_of (re_amount e)) (filter P events)) \<le> sum_list (map (\<lambda>e. cents_of (re_amount e)) events)" for P
    by (rule sum_list_filter_le) (rule cash_bounded_nonneg [OF assms])
  then have "sum_list (map (\<lambda>e. cents_of (re_amount e)) ?es) < 10 ^ context_digits"
    unfolding sub(2) using cash_bounded_sum [OF assms] by (rule le_less_trans)
  moreover have "map abs (map (\<lambda>e. cents_of (re_amount e)) ?es) = map (\<lambda>e. cents_of (re_amount e)) ?es"
    unfolding map_map o_def using sub(1) cash_bounded_nonneg [OF assms] by (intro map_cong refl abs_of_nonneg) blast
  moreover have "map re_amount ?es = map cents (map (\<lambda>e. cents_of (re_amount e)) ?es)"
    unfolding map_map o_def using sub(1) cash_bounded_amount [OF assms] by (intro map_cong refl) (simp add: subset_eq)
  ultimately show ?thesis unfolding reversed_total_def dec_sum_def [symmetric] by (simp only: dec_sum_cents)
qed

lemma cash_bounded_mset: "mset xs = mset ys \<Longrightarrow> cash_bounded xs \<Longrightarrow> cash_bounded ys"
  using mset_eq_setD [of xs ys] sum_list_mset_eq [of xs ys re_amount]
  by (simp add: cash_bounded_def list_all_set)

lemma reversed_total_mset:
  assumes "mset xs = mset ys" "cash_bounded xs"
  shows "reversed_total xs p = reversed_total ys p"
proof -
  note ys = cash_bounded_mset [OF assms]
  have "mset (filter (\<lambda>e. re_reversed_event_id e = Some p) (reversals xs)) =
      mset (filter (\<lambda>e. re_reversed_event_id e = Some p) (reversals ys))"
    using assms(1) by (simp add: reversals_def)
  then show ?thesis
    unfolding reversed_total_cents [OF assms(2)] reversed_total_cents [OF ys]
    by (intro arg_cong [where f = cents] sum_list_mset_eq)
qed

lemma map_result_total: "(\<exists>us. map_result c xs = Inr us) \<longleftrightarrow> list_all (\<lambda>x. \<exists>u. c x = Inr u) xs"
  by (induction xs) (auto simp: result_simps)

lemma order_events_Inr:
  "(\<exists>ordered. order_events min_dt fid events = Inr ordered) \<longleftrightarrow>
     list_all (\<lambda>e. re_facility_id e = fid) events \<and>
     list_all (\<lambda>e. \<exists>p. re_reversed_event_id e = Some p \<and> payment_amounts events p \<noteq> None \<and>
       reversed_total events p \<le> the (payment_amounts events p)) (reversals events)"
proof -
  let ?targets = "from_keys (map (\<lambda>e. the (re_reversed_event_id e)) (reversals events))"
  have "(\<exists>ordered. order_events min_dt fid events = Inr ordered) \<longleftrightarrow>
      (\<exists>us. map_result (check_owner fid) events = Inr us) \<and>
      (\<exists>us. map_result (check_reference (payment_amounts events)) (reversals events) = Inr us) \<and>
      (\<exists>us. map_result (check_total events) ?targets = Inr us)"
    by (simp add: order_events_def rbind_Inr)
  then show ?thesis unfolding map_result_total
    by (fastforce simp: list_all_set check_owner_def check_reference_def check_total_def)
qed

lemma order_events_perm:
  assumes "order_events min_dt fid xs = Inr ordered" "mset xs = mset ys" "distinct (map re_id xs)" "cash_bounded xs"
  shows "order_events min_dt fid ys = Inr ordered"
proof -
  have sets: "set ys = set xs" "set (reversals ys) = set (reversals xs)"
    using mset_eq_setD [OF assms(2)] by (auto simp: reversals_def)
  have "\<exists>out. order_events min_dt fid xs = Inr out" using assms(1) by blast
  then have "\<exists>out. order_events min_dt fid ys = Inr out"
    unfolding order_events_Inr list_all_set sets payment_amounts_mset [OF assms(2,3)] reversed_total_mset [OF assms(2,4)] .
  then obtain out where out: "order_events min_dt fid ys = Inr out" ..
  have "sort_key (order_key min_dt) xs = sort_key (order_key min_dt) ys"
    using assms(2,3) by (intro sort_key_eq_sort_key) (auto simp: distinct_map inj_on_def order_key_def)
  moreover have "out = sort_key (order_key min_dt) ys" "ordered = sort_key (order_key min_dt) xs"
    using out assms(1) by (auto simp: order_events_def result_simps)
  ultimately show ?thesis using out by simp
qed

lemma over_reversal_fails:
  assumes "cash_bounded (events @ later)" "distinct (map re_id (events @ later))"
    and "pay \<in> set events" "re_kind pay = PAYMENT" "re_amount pay < reversed_total events (re_id pay)"
  shows "\<nexists>ordered. order_events min_dt fid (events @ later) = Inr ordered"
proof
  let ?all = "events @ later" and ?to = "\<lambda>es. filter (\<lambda>e. re_reversed_event_id e = Some (re_id pay)) (reversals es)"
  assume "\<exists>ordered. order_events min_dt fid ?all = Inr ordered"
  then have ok: "e \<in> set (?to ?all) \<Longrightarrow> reversed_total ?all (re_id pay) \<le> the (payment_amounts ?all (re_id pay))" for e
    unfolding order_events_Inr by (fastforce simp: list_all_set)
  have events: "cash_bounded events"
  proof -
    have "0 \<le> sum_list (map re_amount later)"
      using assms(1) by (intro sum_list_nonneg) (auto simp: cash_bounded_def list_all_set)
    with assms(1) show ?thesis by (simp add: cash_bounded_def)
  qed
  have "payment_amounts ?all (re_id pay) = Some (re_amount pay)"
    unfolding payment_amounts_def using assms(2-4)
    by (subst py_dict_distinct) (auto simp: o_def distinct_map_filter)
  moreover have "sum_list (map (\<lambda>e. cents_of (re_amount e)) (?to events)) \<le>
      sum_list (map (\<lambda>e. cents_of (re_amount e)) (?to ?all))"
    using cash_bounded_nonneg [OF assms(1)] by (auto simp: reversals_def intro!: sum_list_nonneg)
  then have "reversed_total events (re_id pay) \<le> reversed_total ?all (re_id pay)"
    unfolding reversed_total_cents [OF events] reversed_total_cents [OF assms(1)] by simp
  moreover have "?to events \<noteq> []"
  proof
    assume "?to events = []"
    then have "reversed_total events (re_id pay) = 0" by (simp add: reversed_total_def)
    moreover have "0 \<le> re_amount pay" using assms(1,3) by (auto simp: cash_bounded_def list_all_set)
    ultimately show False using assms(5) by simp
  qed
  then obtain e where "e \<in> set (?to events)" using hd_in_set by blast
  then have "e \<in> set (?to ?all)" by (simp add: reversals_def)
  ultimately show False using ok [of e] assms(5) by simp
qed

section \<open>Due dates\<close>

lemma schedule_rows_periods:
  "schedule_rows style term rate instalment ps k = Inr rows \<Longrightarrow> map ds_period rows = ps"
  by (induction ps arbitrary: k rows) (auto simp: result_simps)

lemma schedule_periods:
  assumes "debt_service_schedule sha amount rate_percent term_months style = Inr s"
  shows "\<exists>n. map ds_period (dss_rows s) = [1..<Suc n]"
proof (cases "missing_reason [amount, rate_percent, term_months]")
  case (Some reason)
  with assms show ?thesis by (intro exI [of _ 0]) (auto simp: debt_service_schedule_def Let_def result_simps)
next
  case None
  with assms obtain months rate instalment balance where
    "schedule_rows style months rate instalment [1..<Suc months] balance = Inr (dss_rows s)"
    by (auto simp: debt_service_schedule_def Let_def result_simps simp del: upt_Suc)
  from schedule_rows_periods [OF this] show ?thesis ..
qed

lemma add_months_props:
  assumes "valid_date (y, m, d)" "add_months (y, m, d) n = Inr (y', m', d')"
  shows "valid_date (y', m', d') \<and> 12 * y' + m' = 12 * y + m + n \<and> d' = min d (days_in_month y' m')"
proof -
  let ?t = "m - 1 + n"
  have eq: "y' = y + ?t div 12" "m' = ?t mod 12 + 1" "d' = min d (days_in_month y' m')" "y' \<le> 9999"
    using assms(2) by (auto simp: add_months_def Let_def split: if_splits)
  have "?t = 12 * (?t div 12) + ?t mod 12" "?t mod 12 < 12" "1 \<le> m" "1 \<le> y" "1 \<le> d"
    using assms(1) by (simp_all add: valid_date_def)
  then have "12 * y' + m' = 12 * y + m + n" "1 \<le> m'" "m' \<le> 12" "1 \<le> y'" using eq(1,2) by linarith+
  moreover have "1 \<le> days_in_month y' m'" by (simp add: days_in_month_def)
  ultimately show ?thesis using eq(3,4) \<open>1 \<le> d\<close> by (simp add: valid_date_def)
qed

lemma later_month:
  fixes y m d y' m' d' :: nat
  assumes "12 * y + m = k + n" "12 * y' + m' = k + n'" "n < n'" "1 \<le> m" "m \<le> 12" "1 \<le> m'" "m' \<le> 12"
  shows "(y, m, d) < (y', m', d')"
proof -
  have "y < y' \<or> y = y' \<and> m < m'" using assms by linarith
  then show ?thesis by auto
qed

lemma instalment_dates:
  assumes "build_expected_instalments sha f = Inr is" "n < length is"
  shows "add_months (fa_first_payment_date f) n = Inr (ei_due_date (is ! n))"
proof -
  from assms(1) obtain schedule fee where schedule: "build_expected_schedule sha f = Inr schedule"
    and "is": "map_result (instalment_of_row (fa_first_payment_date f) fee) (dss_rows schedule) = Inr is"
    by (auto simp: build_expected_instalments_def result_simps)
  note all2 = map_result_all2 [OF "is"]
  from schedule_periods [OF schedule [unfolded build_expected_schedule_def]] obtain k where
    periods: "map ds_period (dss_rows schedule) = [1..<Suc k]" by blast
  have len: "n < length (dss_rows schedule)" using list_all2_lengthD [OF all2] assms(2) by simp
  then have "ds_period (dss_rows schedule ! n) = [1..<Suc k] ! n" using periods by (metis nth_map)
  also have "\<dots> = Suc n" using len periods by (metis add.commute length_map length_upt nth_upt plus_1_eq_Suc less_diff_conv)
  finally have "ds_period (dss_rows schedule ! n) = Suc n" .
  with list_all2_nthD [OF all2 len] obtain due where "add_months (fa_first_payment_date f) n = Inr due"
    and row: "is ! n = \<lparr>ei_period = Suc n, ei_due_date = due, ei_fee = fee,
      ei_interest = ds_interest (dss_rows schedule ! n), ei_principal = ds_principal (dss_rows schedule ! n)\<rparr>"
    by (auto simp: instalment_of_row_def rbind_Inr)
  then show ?thesis unfolding row by simp
qed

lemma apply_events_total:
  assumes "build_expected_schedule sha f = Inr schedule" "build_expected_instalments sha f = Inr is"
    and "order_events min_dt (fa_id f) events = Inr ordered" "cash_bounded events"
  shows "\<exists>s. apply_events sha min_dt f events as_of = Inr s"
proof -
  note net = net_cash [OF assms(4) order_events_mset [OF assms(3)]]
  from demand_cents_exists [OF instalments_are_cents [OF assms(2)]] obtain ds where ds: "demand_cents is ds" ..
  from waterfall_pours [OF ds net(2), of as_of] obtain ps rest where
    "waterfall as_of is (dec_sum (map signed_amount ordered)) = Inr (ps, rest)" unfolding net(1) by blast
  with assms show ?thesis by (simp add: apply_events_def Let_def)
qed

section \<open>Properties\<close>

text \<open>
  C13: The ledger is the waterfall of the net cash: for a history in cents (below 10^24)
  the net is exactly payments minus reversals, what the buckets get plus the
  overpayment is exactly the net (or nothing when it is negative), no bucket gets more
  than it is due, a bucket gets cash only when every earlier one is full (fees before
  interest before principal, the oldest period first), and there is an overpayment
  only when all are full.
\<close>

theorem ledger_waterfall:
  assumes "apply_events sha min_dt f events as_of = Inr s" and "cash_bounded events"
  shows "\<exists>net. net = sum_list (map (\<lambda>e. if re_kind e = PAYMENT then re_amount e else - re_amount e) events) \<and>
    ls_net_paid s = net \<and>
    sum_list (map snd (slots (ls_periods s))) + ls_overpayment s = max 0 net \<and>
    list_all (\<lambda>(due, paid). 0 \<le> paid \<and> paid \<le> max 0 due) (slots (ls_periods s)) \<and>
    sorted_wrt (\<lambda>(due, paid) (due', paid'). paid' = 0 \<or> paid = max 0 due) (slots (ls_periods s)) \<and>
    (ls_overpayment s = 0 \<or> list_all (\<lambda>(due, paid). paid = max 0 due) (slots (ls_periods s)))"
proof -
  let ?net = "sum_list (map signed_cents events)"
  from apply_events_pours [OF assms] obtain ds where s: "ls_net_paid s = cents ?net"
    "slots (ls_periods s) = zip (map cents ds) (map cents (fst (pour ?net ds)))"
    "ls_overpayment s = cents (max 0 (snd (pour ?net ds)))" by blast
  obtain xs left_over where pour: "pour ?net ds = (xs, left_over)" by fastforce
  note P = pour_props [OF pour]
  have net: "sum_list (map (\<lambda>e. if re_kind e = PAYMENT then re_amount e else - re_amount e) events) = cents ?net"
    unfolding sum_list_cents [symmetric] map_map o_def using cash_bounded_amount [OF assms(2)]
    by (intro arg_cong [where f = sum_list] map_cong refl) (auto simp: signed_cents_def cents_def)
  have zero: "max 0 (cents k) = cents (max 0 k)" "cents k = 0 \<longleftrightarrow> k = 0" for k by (auto simp: cents_def max_def)
  have zipped: "slots (ls_periods s) = map (\<lambda>(d, x). (cents d, cents x)) (zip ds xs)"
    unfolding s(2) pour fst_conv zip_map_map by simp
  have "map snd (slots (ls_periods s)) = map cents xs"
    unfolding s(2) pour fst_conv using P by simp
  then have "sum_list (map snd (slots (ls_periods s))) + ls_overpayment s = cents (sum_list xs + max 0 left_over)"
    unfolding s(3) pour snd_conv by (simp only: sum_list_cents) (simp add: cents_def add_divide_distrib)
  moreover have "sum_list xs + max 0 left_over = max 0 ?net"
  proof (cases "0 \<le> ?net")
    case False
    with P have "list_all (\<lambda>x. x = 0) xs" "left_over = ?net" by auto
    then have "sum_list xs = 0" by (induction xs) auto
    with False \<open>left_over = ?net\<close> show ?thesis by simp
  next
    case True
    with P show ?thesis by auto
  qed
  ultimately have total: "sum_list (map snd (slots (ls_periods s))) + ls_overpayment s = max 0 (cents ?net)"
    by (simp only: zero)
  have bounds: "list_all (\<lambda>(due, paid). 0 \<le> paid \<and> paid \<le> max 0 due) (slots (ls_periods s))"
    using P unfolding zipped by (auto simp: list_all_set zero)
  have order: "sorted_wrt (\<lambda>(due, paid) (due', paid'). paid' = 0 \<or> paid = max 0 due) (slots (ls_periods s))"
    unfolding zipped sorted_wrt_map using P by (auto simp: zero elim: sorted_wrt_mono_rel [rotated])
  have "ls_overpayment s = 0 \<or> list_all (\<lambda>(due, paid). paid = max 0 due) (slots (ls_periods s))"
  proof (cases "left_over \<le> 0")
    case True
    then show ?thesis unfolding s(3) pour by simp
  next
    case False
    with P have "list_all (\<lambda>(d, x). x = max 0 d) (zip ds xs)" by blast
    then show ?thesis unfolding zipped by (auto simp: list_all_set zero)
  qed
  with total bounds order show ?thesis unfolding net s(1) by (intro exI [of _ "cents ?net"] conjI refl)
qed

definition sample_facility :: facility where
  "sample_facility = \<lparr>fa_id = 1, fa_case_id = 2, fa_case_version = 1, fa_decision_id = 3, fa_principal = 1,
     fa_annual_rate_percent = 0, fa_term_months = 1, fa_repayment_style = EQUAL_PRINCIPAL,
     fa_first_payment_date = (2026, 1, 31), fa_periodic_fee = 0\<rparr>"

definition sample_payment :: repayment_event where
  "sample_payment = \<lparr>re_id = 7, re_facility_id = 1, re_kind = PAYMENT, re_amount = 3, re_external_reference = ''r1'',
     re_reversed_event_id = None, re_effective_date = (2026, 2, 1), re_recorded_at = Some 5\<rparr>"

definition sample_reversal :: repayment_event where
  "sample_reversal = \<lparr>re_id = 8, re_facility_id = 1, re_kind = REVERSAL, re_amount = 1, re_external_reference = ''r2'',
     re_reversed_event_id = Some 7, re_effective_date = (2026, 1, 1), re_recorded_at = Some 4\<rparr>"

lemma sample_cash: "cash_bounded [sample_payment, sample_reversal]"
proof -
  have "is_cents 3" "is_cents 1" using is_cents_cents [of 300] is_cents_cents [of 100] by (simp_all add: cents_def)
  then show ?thesis by (simp add: cash_bounded_def sample_payment_def sample_reversal_def)
qed

lemma sample_ledger_runs:
  assumes "events = [sample_payment, sample_reversal] \<or> events = [sample_reversal, sample_payment]"
  shows "\<exists>s. apply_events (\<lambda>x. x) 0 sample_facility events (2026, 3, 1) = Inr s"
proof -
  have money: "quantize_money 1 = Inr 1" "quantize_money 0 = Inr 0"
    using quantize_cents [of 100] quantize_cents [of 0] by (simp_all add: cents_def context_digits_def)
  have zero: "dec_div 0 x = 0" "dec_mul x 0 = 0" "dec_sub 1 1 = 0" "dec_div 1 1 = 1" for x
    by (simp_all add: dec_div_def dec_mul_def dec_sub_def)
  have schedule: "\<exists>d. build_expected_schedule (\<lambda>x. x) sample_facility = Inr d \<and> dss_rows d =
      [\<lparr>ds_period = 1, ds_principal = 1, ds_interest = 0, ds_balance = 0\<rparr>]"
    by (simp add: build_expected_schedule_def sample_facility_def debt_service_schedule_def reject_negative_def
        validate_term_def missing_reason_def Let_def money zero principal_paid_def)
  then obtain d where d: "build_expected_schedule (\<lambda>x. x) sample_facility = Inr d"
    "dss_rows d = [\<lparr>ds_period = 1, ds_principal = 1, ds_interest = 0, ds_balance = 0\<rparr>]" by blast
  have inst: "\<exists>is. build_expected_instalments (\<lambda>x. x) sample_facility = Inr is"
    by (simp add: build_expected_instalments_def d) (simp add: sample_facility_def money instalment_of_row_def add_months_def)
  have "dec_add 0 1 = 1" by (simp add: dec_add_def)
  then have "\<exists>out. order_events 0 (fa_id sample_facility) events = Inr out"
    unfolding order_events_Inr using assms
    by (auto simp: sample_facility_def sample_payment_def sample_reversal_def reversals_def reversed_total_def
        payment_amounts_def py_dict_def)
  moreover have "cash_bounded events" using assms sample_cash by (auto simp: cash_bounded_def)
  ultimately show ?thesis using apply_events_total [OF d(1)] inst by blast
qed

theorem ledger_waterfall_witness:
  "\<exists>s. apply_events (\<lambda>x. x) 0 sample_facility [sample_payment, sample_reversal] (2026, 3, 1) = Inr s \<and>
     ls_net_paid s = 2 \<and> sum_list (map snd (slots (ls_periods s))) + ls_overpayment s = 2"
proof -
  obtain s where run: "apply_events (\<lambda>x. x) 0 sample_facility [sample_payment, sample_reversal] (2026, 3, 1) = Inr s"
    using sample_ledger_runs by blast
  from ledger_waterfall [OF run sample_cash] have "ls_net_paid s = 2"
    "sum_list (map snd (slots (ls_periods s))) + ls_overpayment s = 2"
    by (auto simp: sample_payment_def sample_reversal_def)
  with run show ?thesis by blast
qed

text \<open>
  The ledger does not depend on the order in which its events were delivered: any
  permutation of a history (distinct ids, amounts in cents) gives the same snapshot.
\<close>

theorem ledger_order_independent:
  assumes "apply_events sha min_dt f events as_of = Inr s" and "mset events' = mset events"
    and "distinct (map re_id events)" and "cash_bounded events"
  shows "apply_events sha min_dt f events' as_of = Inr s"
proof -
  from apply_events_parts [OF assms(1)] obtain ordered where
    ordered: "order_events min_dt (fa_id f) events = Inr ordered" by blast
  from order_events_perm [OF this assms(2) [symmetric] assms(3,4)] assms(1) ordered
  show ?thesis by (simp add: apply_events_def)
qed

theorem ledger_order_independent_witness:
  "\<exists>s. apply_events (\<lambda>x. x) 0 sample_facility [sample_payment, sample_reversal] (2026, 3, 1) = Inr s \<and>
     apply_events (\<lambda>x. x) 0 sample_facility [sample_reversal, sample_payment] (2026, 3, 1) = Inr s"
proof -
  obtain s where run: "apply_events (\<lambda>x. x) 0 sample_facility [sample_payment, sample_reversal] (2026, 3, 1) = Inr s"
    using sample_ledger_runs by blast
  have "mset [sample_reversal, sample_payment] = mset [sample_payment, sample_reversal]"
    "distinct (map re_id [sample_payment, sample_reversal])"
    by (simp_all add: sample_payment_def sample_reversal_def)
  from ledger_order_independent [OF run this sample_cash] run show ?thesis by blast
qed

text \<open>
  The due dates of a facility are calendar dates, strictly increasing, one per month
  from the first payment date on, on its day or on the last day of a shorter month.
\<close>

theorem due_dates_monthly:
  assumes "build_expected_instalments sha f = Inr is" and "valid_date (fa_first_payment_date f)"
  shows "sorted_wrt (<) (map ei_due_date is) \<and>
    list_all (\<lambda>(n, i). valid_date (ei_due_date i) \<and>
      (case (fa_first_payment_date f, ei_due_date i) of ((y, m, d), (y', m', d')) \<Rightarrow>
         12 * y' + m' = 12 * y + m + n \<and> d' = min d (days_in_month y' m'))) (enumerate 0 is)"
proof -
  obtain y m d where first: "fa_first_payment_date f = (y, m, d)" by (cases "fa_first_payment_date f")
  have props: "valid_date (ei_due_date (is ! n)) \<and> (case ei_due_date (is ! n) of (y', m', d') \<Rightarrow>
      12 * y' + m' = 12 * y + m + n \<and> d' = min d (days_in_month y' m'))" if "n < length is" for n
    using instalment_dates [OF assms(1) that] add_months_props assms(2) unfolding first
    by (auto split: prod.splits)
  have "sorted_wrt (<) (map ei_due_date is)"
  proof (unfold sorted_wrt_iff_nth_less, intro allI impI)
    fix i j assume ij: "i < j" "j < length (map ei_due_date is)"
    obtain y1 m1 d1 y2 m2 d2 where dates: "ei_due_date (is ! i) = (y1, m1, d1)" "ei_due_date (is ! j) = (y2, m2, d2)"
      by (metis prod_cases3)
    then have "12 * y1 + m1 = 12 * y + m + i" "12 * y2 + m2 = 12 * y + m + j" "1 \<le> m1" "m1 \<le> 12" "1 \<le> m2" "m2 \<le> 12"
      using props [of i] props [of j] ij by (auto simp: valid_date_def)
    from later_month [OF this(1,2) ij(1) this(3-6), of d1 d2] ij dates
    show "map ei_due_date is ! i < map ei_due_date is ! j" by simp
  qed
  then show ?thesis using props by (auto simp: list_all_set in_set_enumerate_eq first case_prod_beta)
qed

theorem due_dates_monthly_witness:
  "\<exists>is. build_expected_instalments (\<lambda>x. x) sample_facility = Inr is \<and> sorted_wrt (<) (map ei_due_date is)"
proof -
  obtain s where "apply_events (\<lambda>x. x) 0 sample_facility [sample_payment, sample_reversal] (2026, 3, 1) = Inr s"
    using sample_ledger_runs by blast
  from apply_events_parts [OF this] obtain "is" where inst: "build_expected_instalments (\<lambda>x. x) sample_facility = Inr is"
    by blast
  have "valid_date (fa_first_payment_date sample_facility)"
    by (simp add: sample_facility_def valid_date_def days_in_month_def)
  from due_dates_monthly [OF inst this] inst show ?thesis by blast
qed

end
