(* ===== verification/Api_Access.thy ===== *)
theory Api_Access
  imports Effects
begin

text \<open>
  What every handler of \<open>api/\<close> does first: the role of the actor (HTTP 403) and the
  assignment of the case (an indistinguishable 404).  The unit of work that reads the
  assignment is a parameter: it gives the version of the assigned case, if any.  An
  \<open>ApiException\<close> is its status and code; another exception of the code leaves the
  handler as \<open>Uncaught\<close>.
\<close>

record actor =
  ac_actor_id :: uuid
  ac_roles :: "string list"

datatype 'e api_error = ApiException nat string | Uncaught 'e

definition INTAKE_OFFICER_ROLE :: string where "INTAKE_OFFICER_ROLE = ''INTAKE_OFFICER''"
definition RISK_REVIEWER_ROLE :: string where "RISK_REVIEWER_ROLE = ''RISK_REVIEWER''"
definition OPS_OFFICER_ROLE :: string where "OPS_OFFICER_ROLE = ''OPS_OFFICER''"
definition OPS_CHECKER_ROLE :: string where "OPS_CHECKER_ROLE = ''OPS_CHECKER''"

definition CASE_PARTICIPANT_ROLES :: "string list" where
  "CASE_PARTICIPANT_ROLES = [INTAKE_OFFICER_ROLE, RISK_REVIEWER_ROLE, OPS_OFFICER_ROLE]"

type_synonym assignments = "uuid \<Rightarrow> uuid \<Rightarrow> int option"

definition check_act :: "bool \<Rightarrow> 'e \<Rightarrow> ('s, 'e, unit) act" where
  "check_act b e = (if b then ret () else raise e)"

definition require_role :: "actor \<Rightarrow> string \<Rightarrow> ('s, 'e api_error, unit) act" where
  "require_role a role = check_act (role \<in> set (ac_roles a)) (ApiException 403 ''INSUFFICIENT_ROLE'')"

definition require_reader :: "string list \<Rightarrow> actor \<Rightarrow> ('s, 'e api_error, unit) act" where
  "require_reader roles a =
     check_act (list_ex (\<lambda>r. r \<in> set (ac_roles a)) roles) (ApiException 403 ''INSUFFICIENT_ROLE'')"

definition assert_case_access :: "assignments \<Rightarrow> actor \<Rightarrow> uuid \<Rightarrow> ('s, 'e api_error, int) act" where
  "assert_case_access assigned a c =
     (case assigned c (ac_actor_id a) of
        None \<Rightarrow> raise (ApiException 404 ''CASE_NOT_ACCESSIBLE'')
      | Some version \<Rightarrow> ret version)"

text \<open>A row that must exist (HTTP 404 otherwise).\<close>

definition found :: "'e \<Rightarrow> 'a option \<Rightarrow> ('s, 'e, 'a) act" where
  "found e v = (case v of None \<Rightarrow> raise e | Some x \<Rightarrow> ret x)"

lemma check_act_run: "check_act b e s = (if b then (Inr (), s) else (Inl e, s))"
  by (simp add: check_act_def)

lemma require_role_Inr: "require_role a role s = (Inr u, s') \<longleftrightarrow> role \<in> set (ac_roles a) \<and> s' = s"
  by (auto simp: require_role_def check_act_run)

lemma case_access_Inr: "assert_case_access assigned a c s = (Inr v, s') \<longleftrightarrow> assigned c (ac_actor_id a) = Some v \<and> s' = s"
  by (auto simp: assert_case_access_def split: option.splits)

lemma found_Inr: "found e v s = (Inr x, s') \<longleftrightarrow> v = Some x \<and> s' = s"
  by (auto simp: found_def split: option.splits)

lemma check_act_Inr: "check_act b e s = (Inr u, s') \<longleftrightarrow> b \<and> s' = s"
  by (auto simp: check_act_run)

lemma require_reader_Inr: "require_reader roles a s = (Inr u, s') \<longleftrightarrow> list_ex (\<lambda>r. r \<in> set (ac_roles a)) roles \<and> s' = s"
  by (auto simp: require_reader_def check_act_run)

lemmas access_simps = require_role_Inr require_reader_Inr case_access_Inr found_Inr check_act_Inr

lemma keeps_access [simp, preserving]:
  "keeps P (check_act b e)" "keeps P (require_role a role)" "keeps P (require_reader roles a)"
  "keeps P (assert_case_access assigned a c)" "keeps P (found e' v)"
  by (auto simp: keeps_def check_act_run require_role_def require_reader_def assert_case_access_def found_def
      split: option.splits)

text \<open>The decision on a case version, as far as the handlers read it.\<close>

record credit_decision =
  cd_id :: uuid
  cd_decision :: string

definition PERMITTING_DECISIONS :: "string list" where
  "PERMITTING_DECISIONS = [''APPROVED_AS_PROPOSED'', ''APPROVED_WITH_CONDITIONS'']"

definition permits :: "credit_decision option \<Rightarrow> bool" where
  "permits d = (case d of None \<Rightarrow> False | Some x \<Rightarrow> cd_decision x \<in> set PERMITTING_DECISIONS)"

text \<open>What \<open>Decimal\<close> reads in a text: nothing, a special value or a finite number.\<close>

datatype 'd decimal_text = Malformed | NonFinite | Finite 'd

end
