(* ===== verification/Repayment_Store.thy ===== *)
theory Repayment_Store
  imports Repayment_Ledger Api_Access Case_Store
begin

text \<open>
  The append-only store of the repayment ledger
  (\<open>infrastructure/postgres/repayments.py\<close> over the tables of
  \<open>202607180023_repayment_ledger.sql\<close>) and the handlers of \<open>api/repayments.py\<close>.  A
  decimal column holds its value, a transaction aborts on a violated constraint and
  leaves the store as it was.
\<close>

section \<open>The tables\<close>

record facility_row =
  fy_facility :: facility
  fy_created_at :: datetime

record collection_note =
  cn_id :: uuid
  cn_facility_id :: uuid
  cn_case_id :: uuid
  cn_case_version :: int
  cn_note_kind :: string
  cn_note_text :: string
  cn_proposed_action :: "string option"
  cn_author_id :: uuid
  cn_author_role :: string
  cn_created_at :: datetime

record ledger_store =
  lt_facilities :: "facility_row list"
  lt_events :: "repayment_event list"
  lt_notes :: "collection_note list"
  lt_audit :: "audit_row list"
  lt_uuids :: "nat \<Rightarrow> uuid"
  lt_drawn :: nat
  lt_clock :: datetime

definition fresh_uuid :: "ledger_store \<Rightarrow> uuid \<times> ledger_store" where
  "fresh_uuid st = (lt_uuids st (lt_drawn st), st\<lparr>lt_drawn := Suc (lt_drawn st)\<rparr>)"

definition insert_ledger_audit ::
  "uuid \<Rightarrow> int \<Rightarrow> string \<Rightarrow> uuid \<Rightarrow> string \<Rightarrow> string \<Rightarrow> uuid \<Rightarrow> (string \<times> json) list \<Rightarrow> ledger_store \<Rightarrow> ledger_store" where
  "insert_ledger_audit c v event actor role artifact_type artifact data st =
     (let (i, st') = fresh_uuid st
      in st'\<lparr>lt_audit := lt_audit st' @
           [\<lparr>au_id = i, au_case_id = c, au_case_version = v, au_event_type = event,
             au_actor_type = ''HUMAN:'' @ role, au_actor_id = Some actor, au_artifact_type = artifact_type,
             au_artifact_id = artifact, au_event_data = data, au_created_at = lt_clock st'\<rparr>]\<rparr>)"

section \<open>Facilities\<close>

definition facility_checks :: "facility \<Rightarrow> bool" where
  "facility_checks f \<longleftrightarrow> 0 < fa_case_version f \<and> 0 < fa_principal f \<and> 0 \<le> fa_annual_rate_percent f \<and>
     0 < fa_term_months f \<and> 0 \<le> fa_periodic_fee f"

definition insert_facility ::
  "(decimal \<Rightarrow> string) \<Rightarrow> facility \<Rightarrow> uuid \<Rightarrow> string \<Rightarrow> ledger_store \<Rightarrow> store_error + facility_row \<times> ledger_store" where
  "insert_facility text f actor role st =
     rbind (check_that (facility_checks f) (IntegrityError ''facilities'')) (\<lambda>_.
     rbind (check_that (list_all (\<lambda>r. fa_id (fy_facility r) \<noteq> fa_id f) (lt_facilities st))
              (IntegrityError ''facilities_pkey'')) (\<lambda>_.
     let row = \<lparr>fy_facility = f, fy_created_at = lt_clock st\<rparr>;
         st' = st\<lparr>lt_facilities := lt_facilities st @ [row]\<rparr>
     in Inr (row, insert_ledger_audit (fa_case_id f) (int (fa_case_version f)) ''FACILITY_CREATED'' actor role
          ''FACILITY'' (fa_id f)
          [(''facilityId'', JStr (str_uuid (fa_id f))), (''decisionId'', JStr (str_uuid (fa_decision_id f))),
           (''principal'', JStr (text (fa_principal f))), (''termMonths'', JInt (int (fa_term_months f))),
           (''repaymentStyle'', JStr (repayment_style_value (fa_repayment_style f))),
           (''actorId'', JStr (str_uuid actor)), (''actorRole'', JStr role)] st')))"

definition load_facility :: "uuid \<Rightarrow> uuid \<Rightarrow> int \<Rightarrow> ledger_store \<Rightarrow> facility_row option" where
  "load_facility fid c v st =
     find (\<lambda>r. fa_id (fy_facility r) = fid \<and> fa_case_id (fy_facility r) = c \<and>
               int (fa_case_version (fy_facility r)) = v) (lt_facilities st)"

definition list_facilities :: "uuid \<Rightarrow> int \<Rightarrow> ledger_store \<Rightarrow> facility_row list" where
  "list_facilities c v st =
     sort_key (\<lambda>r. (fy_created_at r, fa_id (fy_facility r)))
       (filter (\<lambda>r. fa_case_id (fy_facility r) = c \<and> int (fa_case_version (fy_facility r)) = v) (lt_facilities st))"

section \<open>Events\<close>

fun event_kind_value :: "event_kind \<Rightarrow> string" where
  "event_kind_value PAYMENT = ''PAYMENT''"
| "event_kind_value REVERSAL = ''REVERSAL''"

definition event_kind_of :: "string \<Rightarrow> event_kind option" where
  "event_kind_of s =
     (if s = ''PAYMENT'' then Some PAYMENT else if s = ''REVERSAL'' then Some REVERSAL else None)"

text \<open>The check constraints and the foreign keys of a row of \<open>repayment_events\<close>.\<close>

definition event_row_checks :: "repayment_event \<Rightarrow> bool" where
  "event_row_checks e \<longleftrightarrow> valid_event e \<and> not_blank (re_external_reference e)"

definition event_checks :: "ledger_store \<Rightarrow> repayment_event \<Rightarrow> bool" where
  "event_checks st e \<longleftrightarrow> valid_event e \<and>
     list_ex (\<lambda>r. fa_id (fy_facility r) = re_facility_id e) (lt_facilities st) \<and>
     (case re_reversed_event_id e of None \<Rightarrow> True | Some p \<Rightarrow> list_ex (\<lambda>x. re_id x = p) (lt_events st))"

definition load_event_by_reference :: "uuid \<Rightarrow> string \<Rightarrow> ledger_store \<Rightarrow> repayment_event option" where
  "load_event_by_reference fid ref st =
     find (\<lambda>x. re_facility_id x = fid \<and> re_external_reference x = ref) (lt_events st)"

definition optional_uuid :: "uuid option \<Rightarrow> json" where
  "optional_uuid u = (case u of None \<Rightarrow> JNull | Some x \<Rightarrow> JStr (str_uuid x))"

definition record_event ::
  "(decimal \<Rightarrow> string) \<Rightarrow> repayment_event \<Rightarrow> uuid \<Rightarrow> string \<Rightarrow> ledger_store \<Rightarrow>
   store_error + (repayment_event \<times> bool) \<times> ledger_store" where
  "record_event text e actor role st =
     rbind (check_that (event_row_checks e) (IntegrityError ''repayment_events'')) (\<lambda>_.
     case load_event_by_reference (re_facility_id e) (re_external_reference e) st of
       Some existing \<Rightarrow> Inr ((existing, False), st)
     | None \<Rightarrow>
         rbind (check_that (list_all (\<lambda>x. re_id x \<noteq> re_id e) (lt_events st))
                  (IntegrityError ''repayment_events_pkey'')) (\<lambda>_.
         rbind (check_that (event_checks st e) (IntegrityError ''repayment_events'')) (\<lambda>_.
         let row = e\<lparr>re_recorded_at := Some (lt_clock st)\<rparr>;
             st' = st\<lparr>lt_events := lt_events st @ [row]\<rparr>
         in case find (\<lambda>r. fa_id (fy_facility r) = re_facility_id e) (lt_facilities st) of
              None \<Rightarrow> Inl (RowDisappeared ''repayment event references a missing facility'')
            | Some r \<Rightarrow> Inr ((row, True),
                insert_ledger_audit (fa_case_id (fy_facility r)) (int (fa_case_version (fy_facility r)))
                  ''REPAYMENT_EVENT_RECORDED'' actor role ''REPAYMENT_EVENT'' (re_id e)
                  [(''facilityId'', JStr (str_uuid (re_facility_id e))), (''eventId'', JStr (str_uuid (re_id e))),
                   (''kind'', JStr (event_kind_value (re_kind e))), (''amount'', JStr (text (re_amount e))),
                   (''externalReference'', JStr (re_external_reference e)),
                   (''reversedEventId'', optional_uuid (re_reversed_event_id e)),
                   (''actorId'', JStr (str_uuid actor)), (''actorRole'', JStr role)] st'))))"

definition list_events :: "datetime \<Rightarrow> uuid \<Rightarrow> ledger_store \<Rightarrow> repayment_event list" where
  "list_events min_dt fid st = sort_key (order_key min_dt) (filter (\<lambda>x. re_facility_id x = fid) (lt_events st))"

section \<open>Collection notes\<close>

definition note_checks :: "collection_note \<Rightarrow> bool" where
  "note_checks n \<longleftrightarrow> cn_note_kind n \<in> {''OBSERVATION'', ''PROPOSED_ACTION''} \<and> not_blank (cn_note_text n) \<and>
     (case cn_proposed_action n of None \<Rightarrow> True | Some a \<Rightarrow> not_blank a) \<and> not_blank (cn_author_role n) \<and> (cn_note_kind n = ''PROPOSED_ACTION'' \<longleftrightarrow> cn_proposed_action n \<noteq> None)"

definition record_collection_note ::
  "uuid \<Rightarrow> uuid \<Rightarrow> int \<Rightarrow> string \<Rightarrow> string \<Rightarrow> string option \<Rightarrow> uuid \<Rightarrow> string \<Rightarrow> ledger_store \<Rightarrow>
   store_error + collection_note \<times> ledger_store" where
  "record_collection_note fid c v kind txt action actor role st =
     (let (i, st') = fresh_uuid st;
          row = \<lparr>cn_id = i, cn_facility_id = fid, cn_case_id = c, cn_case_version = v, cn_note_kind = kind,
                 cn_note_text = txt, cn_proposed_action = action, cn_author_id = actor, cn_author_role = role,
                 cn_created_at = lt_clock st'\<rparr>
      in rbind (check_that (note_checks row \<and> list_ex (\<lambda>r. fa_id (fy_facility r) = fid) (lt_facilities st))
                  (IntegrityError ''collection_notes'')) (\<lambda>_.
         Inr (row, insert_ledger_audit c v ''COLLECTION_NOTE_RECORDED'' actor role ''COLLECTION_NOTE'' i
           [(''facilityId'', JStr (str_uuid fid)), (''noteId'', JStr (str_uuid i)), (''noteKind'', JStr kind),
            (''proposedAction'', (case action of None \<Rightarrow> JNull | Some a \<Rightarrow> JStr a)),
            (''actorId'', JStr (str_uuid actor)), (''actorRole'', JStr role)]
           (st'\<lparr>lt_notes := lt_notes st' @ [row]\<rparr>))))"

definition list_collection_notes :: "uuid \<Rightarrow> ledger_store \<Rightarrow> collection_note list" where
  "list_collection_notes fid st =
     sort_key (\<lambda>n. (- cn_created_at n, cn_id n)) (filter (\<lambda>n. cn_facility_id n = fid) (lt_notes st))"

section \<open>The handlers\<close>

text \<open>
  The environment of a request: the assignments, the decision repository and the text
  of a decimal.  \<open>handler_error\<close> is what a handler lets through beside its own answers.
\<close>

record ledger_env =
  le_assigned :: assignments
  le_decisions :: "uuid \<Rightarrow> int \<Rightarrow> credit_decision option"
  le_text :: "decimal \<Rightarrow> string"
  le_sha :: "string \<Rightarrow> string"
  le_min_dt :: datetime
  le_today :: calendar_date

datatype handler_error = StoreFailure store_error | LedgerFailure ledger_error

type_synonym 'a handler = "(ledger_store, handler_error api_error, 'a) act"

definition in_ledger :: "(ledger_store \<Rightarrow> store_error + 'a \<times> ledger_store) \<Rightarrow> 'a handler" where
  "in_ledger op = on_error (\<lambda>e. Uncaught (StoreFailure e)) (atomically op)"

definition new_uuid :: "(ledger_store, 'e, uuid) act" where
  "new_uuid st = (Inr (fst (fresh_uuid st)), snd (fresh_uuid st))"

definition decimal_arg :: "string \<Rightarrow> decimal decimal_text \<Rightarrow> (ledger_store, handler_error api_error, decimal option) act" where
  "decimal_arg code v =
     (case v of Malformed \<Rightarrow> raise (ApiException 422 code) | NonFinite \<Rightarrow> ret None | Finite x \<Rightarrow> ret (Some x))"

record create_facility_request =
  cf_principal :: "decimal decimal_text"
  cf_annual_rate_percent :: "decimal decimal_text"
  cf_term_months :: nat
  cf_repayment_style :: string
  cf_first_payment_date :: calendar_date
  cf_periodic_fee :: "decimal decimal_text option"

definition style_of :: "string \<Rightarrow> repayment_style option" where
  "style_of s =
     (if s = ''EQUAL_PRINCIPAL'' then Some EQUAL_PRINCIPAL else if s = ''BALLOON'' then Some BALLOON else None)"

text \<open>The validation of the \<open>Facility\<close> model.\<close>

definition build_facility ::
  "uuid \<Rightarrow> uuid \<Rightarrow> int \<Rightarrow> uuid \<Rightarrow> decimal option \<Rightarrow> decimal option \<Rightarrow> nat \<Rightarrow> string \<Rightarrow> calendar_date \<Rightarrow>
   decimal option \<Rightarrow> facility option" where
  "build_facility i c v d principal_value rate months style first fee =
     (case (principal_value, rate, style_of style, fee) of
        (Some p, Some r, Some s, Some x) \<Rightarrow>
          if 0 < p \<and> 0 \<le> r \<and> 1 \<le> months \<and> 1 \<le> v \<and> 0 \<le> x
          then Some \<lparr>fa_id = i, fa_case_id = c, fa_case_version = nat v, fa_decision_id = d, fa_principal = p,
                 fa_annual_rate_percent = r, fa_term_months = months, fa_repayment_style = s,
                 fa_first_payment_date = first, fa_periodic_fee = x\<rparr>
          else None
      | _ \<Rightarrow> None)"

definition create_facility ::
  "ledger_env \<Rightarrow> uuid \<Rightarrow> create_facility_request \<Rightarrow> actor \<Rightarrow> facility_row handler" where
  "create_facility env c body a =
     and_then (require_role a OPS_OFFICER_ROLE) (\<lambda>_.
     and_then (assert_case_access (le_assigned env) a c) (\<lambda>version.
     let decision = le_decisions env c version in
     and_then (check_act (permits decision) (ApiException 409 ''FACILITY_REQUIRES_APPROVAL_DECISION'')) (\<lambda>_.
     and_then (decimal_arg ''INVALID_FACILITY'' (cf_principal body)) (\<lambda>p.
     and_then (decimal_arg ''INVALID_FACILITY'' (cf_annual_rate_percent body)) (\<lambda>r.
     and_then (case cf_periodic_fee body of None \<Rightarrow> ret (Some 0)
               | Some fee \<Rightarrow> decimal_arg ''INVALID_FACILITY'' fee) (\<lambda>fee.
     and_then new_uuid (\<lambda>i.
     and_then (found (ApiException 422 ''INVALID_FACILITY'')
       (build_facility i c version (cd_id (the decision)) p r (cf_term_months body) (cf_repayment_style body)
         (cf_first_payment_date body) fee)) (\<lambda>f.
     in_ledger (insert_facility (le_text env) f (ac_actor_id a) OPS_OFFICER_ROLE)))))))))"

record record_event_request =
  rq_kind :: string
  rq_amount :: "decimal decimal_text"
  rq_external_reference :: string
  rq_effective_date :: calendar_date
  rq_reversed_event_id :: "uuid option"

definition known_payment :: "ledger_env \<Rightarrow> uuid \<Rightarrow> uuid option \<Rightarrow> ledger_store \<Rightarrow> bool" where
  "known_payment env fid target st =
     (case target of None \<Rightarrow> False
      | Some p \<Rightarrow> list_ex (\<lambda>x. re_id x = p \<and> re_kind x = PAYMENT) (list_events (le_min_dt env) fid st))"

definition build_event ::
  "uuid \<Rightarrow> uuid \<Rightarrow> event_kind \<Rightarrow> decimal option \<Rightarrow> record_event_request \<Rightarrow> repayment_event option" where
  "build_event i fid kind amount body =
     (case amount of
        None \<Rightarrow> None
      | Some x \<Rightarrow>
          let e = \<lparr>re_id = i, re_facility_id = fid, re_kind = kind, re_amount = x,
                   re_external_reference = rq_external_reference body,
                   re_reversed_event_id = rq_reversed_event_id body,
                   re_effective_date = rq_effective_date body, re_recorded_at = None\<rparr>
          in if valid_event e then Some e else None)"

definition post_event ::
  "ledger_env \<Rightarrow> uuid \<Rightarrow> uuid \<Rightarrow> record_event_request \<Rightarrow> actor \<Rightarrow> (repayment_event \<times> bool) handler" where
  "post_event env c fid body a =
     and_then (require_role a OPS_OFFICER_ROLE) (\<lambda>_.
     and_then (assert_case_access (le_assigned env) a c) (\<lambda>version.
     and_then (reading (load_facility fid c version)) (\<lambda>row.
     and_then (found (ApiException 404 ''FACILITY_NOT_FOUND'') row) (\<lambda>facility.
     and_then (found (ApiException 422 ''INVALID_EVENT_KIND'') (event_kind_of (rq_kind body))) (\<lambda>kind.
     and_then (decimal_arg ''INVALID_EVENT'' (rq_amount body)) (\<lambda>amount.
     and_then (reading (known_payment env fid (rq_reversed_event_id body))) (\<lambda>known.
     and_then (check_act (kind = PAYMENT \<or> known) (ApiException 422 ''INVALID_REVERSAL_REFERENCE'')) (\<lambda>_.
     and_then new_uuid (\<lambda>i.
     and_then (found (ApiException 422 ''INVALID_EVENT'')
       (build_event i (fa_id (fy_facility facility)) kind amount body)) (\<lambda>e.
     in_ledger (record_event (le_text env) e (ac_actor_id a) OPS_OFFICER_ROLE)))))))))))"

text \<open>
  \<open>RepaymentLedgerError\<close> is answered with 500; the validation error of the schedule and
  the overflow of a year are other exceptions.
\<close>

fun ledger_failure :: "ledger_error \<Rightarrow> handler_error api_error" where
  "ledger_failure (ScheduleError e) = Uncaught (LedgerFailure (ScheduleError e))"
| "ledger_failure YearOutOfRange = Uncaught (LedgerFailure YearOutOfRange)"
| "ledger_failure _ = ApiException 500 ''LEDGER_RECOMPUTE_FAILED''"

definition get_ledger ::
  "ledger_env \<Rightarrow> uuid \<Rightarrow> uuid \<Rightarrow> actor \<Rightarrow> calendar_date option \<Rightarrow>
   (ledger_snapshot \<times> collection_note list) handler" where
  "get_ledger env c fid a as_of =
     and_then (require_reader CASE_PARTICIPANT_ROLES a) (\<lambda>_.
     and_then (assert_case_access (le_assigned env) a c) (\<lambda>version.
     and_then (reading (load_facility fid c version)) (\<lambda>row.
     and_then (found (ApiException 404 ''FACILITY_NOT_FOUND'') row) (\<lambda>facility.
     and_then (reading (list_events (le_min_dt env) fid)) (\<lambda>events.
     and_then (reading (list_collection_notes fid)) (\<lambda>notes.
     let observation = (case as_of of None \<Rightarrow> le_today env | Some d \<Rightarrow> d) in
     case apply_events (le_sha env) (le_min_dt env) (fy_facility facility) events observation of
       Inl e \<Rightarrow> raise (ledger_failure e)
     | Inr snapshot \<Rightarrow> ret (snapshot, notes)))))))"

record create_note_request =
  nq_note_kind :: string
  nq_note_text :: string
  nq_proposed_action :: "string option"

definition create_note ::
  "ledger_env \<Rightarrow> uuid \<Rightarrow> uuid \<Rightarrow> create_note_request \<Rightarrow> actor \<Rightarrow> collection_note handler" where
  "create_note env c fid body a =
     and_then (require_role a OPS_OFFICER_ROLE) (\<lambda>_.
     and_then (assert_case_access (le_assigned env) a c) (\<lambda>version.
     and_then (reading (load_facility fid c version)) (\<lambda>row.
     and_then (found (ApiException 404 ''FACILITY_NOT_FOUND'') row) (\<lambda>facility.
     and_then (check_act (nq_note_kind body \<in> {''OBSERVATION'', ''PROPOSED_ACTION''})
       (ApiException 422 ''INVALID_NOTE_KIND'')) (\<lambda>_.
     and_then (check_act ((nq_note_kind body = ''PROPOSED_ACTION'') = (nq_proposed_action body \<noteq> None))
       (ApiException 422 ''INVALID_NOTE'')) (\<lambda>_.
     in_ledger (record_collection_note (fa_id (fy_facility facility)) c version (nq_note_kind body)
       (nq_note_text body) (nq_proposed_action body) (ac_actor_id a) OPS_OFFICER_ROLE)))))))"

section \<open>What the operations do to the tables\<close>

lemma fresh_uuid_tables [simp]:
  "lt_facilities (snd (fresh_uuid st)) = lt_facilities st" "lt_events (snd (fresh_uuid st)) = lt_events st"
  "lt_notes (snd (fresh_uuid st)) = lt_notes st" "lt_audit (snd (fresh_uuid st)) = lt_audit st"
  by (simp_all add: fresh_uuid_def)

lemma insert_ledger_audit_tables [simp]:
  "lt_facilities (insert_ledger_audit c v event actor role ty art data st) = lt_facilities st"
  "lt_events (insert_ledger_audit c v event actor role ty art data st) = lt_events st"
  "lt_notes (insert_ledger_audit c v event actor role ty art data st) = lt_notes st"
  by (simp_all add: insert_ledger_audit_def fresh_uuid_def)

lemma load_by_reference_Some:
  "load_event_by_reference fid ref st = Some x \<Longrightarrow> x \<in> set (lt_events st) \<and> re_facility_id x = fid \<and> re_external_reference x = ref"
  by (auto simp: load_event_by_reference_def dest: find_SomeD)

lemma load_by_reference_None:
  "load_event_by_reference fid ref st = None \<longleftrightarrow>
     list_all (\<lambda>x. \<not> (re_facility_id x = fid \<and> re_external_reference x = ref)) (lt_events st)"
  by (auto simp: load_event_by_reference_def find_None_iff list_all_set)

lemma record_event_cases:
  assumes "record_event text e actor role st = Inr ((row, created), st')"
  shows "valid_event e \<and>
    (if created
     then load_event_by_reference (re_facility_id e) (re_external_reference e) st = None \<and>
       list_all (\<lambda>x. re_id x \<noteq> re_id e) (lt_events st) \<and> event_checks st e \<and>
       row = e\<lparr>re_recorded_at := Some (lt_clock st)\<rparr> \<and> lt_events st' = lt_events st @ [row] \<and>
       lt_facilities st' = lt_facilities st \<and> lt_notes st' = lt_notes st
     else load_event_by_reference (re_facility_id e) (re_external_reference e) st = Some row \<and> st' = st)"
  using assms by (auto simp: record_event_def event_row_checks_def Let_def rbind_Inr split: option.splits)

lemma load_facility_Some:
  "load_facility fid c v st = Some r \<Longrightarrow>
     r \<in> set (lt_facilities st) \<and> fa_id (fy_facility r) = fid \<and> fa_case_id (fy_facility r) = c"
  by (auto simp: load_facility_def dest: find_SomeD)

lemma new_uuid_run [simp]: "new_uuid st = (Inr (fst (fresh_uuid st)), snd (fresh_uuid st))"
  by (simp add: new_uuid_def)

lemma in_ledger_Inr: "in_ledger op st = (Inr x, st') \<longleftrightarrow> op st = Inr (x, st')"
  by (simp add: in_ledger_def)

lemma decimal_arg_state: "decimal_arg code v st = (Inr x, st') \<Longrightarrow> st' = st"
  by (auto simp: decimal_arg_def split: decimal_text.splits)

lemma build_event_fields:
  "build_event i fid kind amount body = Some e \<Longrightarrow>
     valid_event e \<and> re_id e = i \<and> re_facility_id e = fid \<and> re_kind e = kind \<and>
     re_external_reference e = rq_external_reference body \<and> re_reversed_event_id e = rq_reversed_event_id body"
  by (auto simp: build_event_def Let_def split: option.splits if_splits)

lemma post_event_Inr:
  assumes "post_event env c fid body a st = (Inr r, st')"
  shows "\<exists>e. record_event (le_text env) e (ac_actor_id a) OPS_OFFICER_ROLE (snd (fresh_uuid st)) = Inr (r, st') \<and>
    valid_event e \<and> re_facility_id e = fid \<and> re_external_reference e = rq_external_reference body \<and>
    (re_kind e = REVERSAL \<longrightarrow> known_payment env fid (re_reversed_event_id e) st)"
proof -
  from assms obtain version facility kind amount e where
    facility: "load_facility fid c version st = Some facility"
    and known: "kind = PAYMENT \<or> known_payment env fid (rq_reversed_event_id body) st"
    and e: "build_event (fst (fresh_uuid st)) (fa_id (fy_facility facility)) kind amount body = Some e"
    and run: "record_event (le_text env) e (ac_actor_id a) OPS_OFFICER_ROLE (snd (fresh_uuid st)) = Inr (r, st')"
    by (clarsimp simp: post_event_def and_then_Inr access_simps in_ledger_Inr dest!: decimal_arg_state)
  from build_event_fields [OF e] load_facility_Some [OF facility] known run show ?thesis by auto
qed

lemma post_event_run:
  assumes "OPS_OFFICER_ROLE \<in> set (ac_roles a)" "le_assigned env c (ac_actor_id a) = Some v"
    and "load_facility fid c v st = Some r" "event_kind_of (rq_kind body) = Some kind" "rq_amount body = Finite x"
    and "kind = PAYMENT \<or> known_payment env fid (rq_reversed_event_id body) st"
    and "build_event (fst (fresh_uuid st)) (fa_id (fy_facility r)) kind (Some x) body = Some e"
    and "record_event (le_text env) e (ac_actor_id a) OPS_OFFICER_ROLE (snd (fresh_uuid st)) = Inr (out, st')"
  shows "post_event env c fid body a st = (Inr out, st')"
  using assms
  by (auto simp: post_event_def and_then_Inr access_simps in_ledger_Inr decimal_arg_def)

section \<open>Well-typed tables\<close>

text \<open>
  The rows satisfy the checks of their tables, ids and external references are unique,
  and every reversal refers to a payment of its own facility: the last is the work of
  the handler, the foreign key alone only asks for some event.
\<close>

definition own_payment :: "repayment_event list \<Rightarrow> repayment_event \<Rightarrow> bool" where
  "own_payment events e \<longleftrightarrow> re_kind e = PAYMENT \<or>
     list_ex (\<lambda>x. re_reversed_event_id e = Some (re_id x) \<and> re_kind x = PAYMENT \<and> re_facility_id x = re_facility_id e) events"

definition ledger_wf :: "ledger_store \<Rightarrow> bool" where
  "ledger_wf st \<longleftrightarrow>
     list_all (\<lambda>r. facility_checks (fy_facility r)) (lt_facilities st) \<and>
     distinct (map (\<lambda>r. fa_id (fy_facility r)) (lt_facilities st)) \<and>
     list_all valid_event (lt_events st) \<and> distinct (map re_id (lt_events st)) \<and>
     distinct (map (\<lambda>x. (re_facility_id x, re_external_reference x)) (lt_events st)) \<and>
     list_all (\<lambda>x. list_ex (\<lambda>r. fa_id (fy_facility r) = re_facility_id x) (lt_facilities st)) (lt_events st) \<and>
     list_all (own_payment (lt_events st)) (lt_events st) \<and> list_all note_checks (lt_notes st)"

definition appended :: "ledger_store \<Rightarrow> ledger_store \<Rightarrow> bool" where
  "appended st st' \<longleftrightarrow> (\<exists>fs es ns. lt_facilities st' = lt_facilities st @ fs \<and> lt_events st' = lt_events st @ es \<and>
     lt_notes st' = lt_notes st @ ns)"

lemma appended_same:
  "lt_facilities st' = lt_facilities st \<Longrightarrow> lt_events st' = lt_events st \<Longrightarrow> lt_notes st' = lt_notes st \<Longrightarrow> appended st st'"
  by (auto simp: appended_def)

lemma ledger_wf_cong:
  "lt_facilities st' = lt_facilities st \<Longrightarrow> lt_events st' = lt_events st \<Longrightarrow> lt_notes st' = lt_notes st \<Longrightarrow>
   ledger_wf st' = ledger_wf st"
  by (simp add: ledger_wf_def)

lemma list_events_set [simp]: "set (list_events m fid st) = {x \<in> set (lt_events st). re_facility_id x = fid}"
  by (auto simp: list_events_def)

lemma known_payment_own:
  assumes "known_payment env fid (re_reversed_event_id e) st" "re_facility_id e = fid"
  shows "own_payment (lt_events st) e"
  using assms by (auto simp: known_payment_def own_payment_def list_ex_set split: option.splits)

lemma own_payment_mono: "own_payment events e \<Longrightarrow> own_payment (events @ later) e"
  by (auto simp: own_payment_def)

lemma own_payment_recorded [simp]: "own_payment events (e\<lparr>re_recorded_at := t\<rparr>) = own_payment events e"
  by (simp add: own_payment_def)

lemma valid_event_recorded [simp]: "valid_event (e\<lparr>re_recorded_at := t\<rparr>) = valid_event e"
  by (simp add: valid_event_def)

lemma post_event_keeps:
  assumes "ledger_wf st" "post_event env c fid body a st = (Inr (row, created), st')"
  shows "ledger_wf st' \<and> appended st st'"
proof -
  from post_event_Inr [OF assms(2)] obtain e where
    run: "record_event (le_text env) e (ac_actor_id a) OPS_OFFICER_ROLE (snd (fresh_uuid st)) = Inr ((row, created), st')"
    and e: "re_facility_id e = fid" "re_kind e = REVERSAL \<longrightarrow> known_payment env fid (re_reversed_event_id e) st" by blast
  have own: "own_payment (lt_events st) e"
  proof (cases "re_kind e")
    case PAYMENT
    then show ?thesis by (simp add: own_payment_def)
  next
    case REVERSAL
    with e show ?thesis by (intro known_payment_own) simp_all
  qed
  show ?thesis
  proof (cases created)
    case False
    with record_event_cases [OF run] have same: "st' = snd (fresh_uuid st)" by simp
    have "ledger_wf st'" unfolding same using assms(1) by (subst ledger_wf_cong [of _ st]) simp_all
    moreover have "appended st st'" unfolding same by (rule appended_same) simp_all
    ultimately show ?thesis by blast
  next
    case True
    with record_event_cases [OF run] have rows: "lt_events st' = lt_events st @ [e\<lparr>re_recorded_at := Some (lt_clock (snd (fresh_uuid st)))\<rparr>]"
      "lt_facilities st' = lt_facilities st" "lt_notes st' = lt_notes st"
      and new: "list_all (\<lambda>x. \<not> (re_facility_id x = re_facility_id e \<and> re_external_reference x = re_external_reference e)) (lt_events st)"
        "list_all (\<lambda>x. re_id x \<noteq> re_id e) (lt_events st)" "valid_event e"
        "list_ex (\<lambda>r. fa_id (fy_facility r) = re_facility_id e) (lt_facilities st)"
      by (auto simp: load_by_reference_None event_checks_def)
    have "ledger_wf st'"
      unfolding ledger_wf_def rows using assms(1) new own
      by (auto simp: ledger_wf_def list_all_set own_payment_mono)
    then show ?thesis using rows by (simp add: appended_def)
  qed
qed

lemma create_facility_keeps:
  assumes "ledger_wf st" "create_facility env c body a st = (Inr row, st')"
  shows "ledger_wf st' \<and> appended st st'"
proof -
  from assms(2) obtain f st1 where tables: "lt_facilities st1 = lt_facilities st" "lt_events st1 = lt_events st" "lt_notes st1 = lt_notes st"
    and run: "insert_facility (le_text env) f (ac_actor_id a) OPS_OFFICER_ROLE st1 = Inr (row, st')"
    by (auto simp: create_facility_def Let_def and_then_Inr access_simps in_ledger_Inr dest!: decimal_arg_state
        split: option.splits) (metis fresh_uuid_tables(1-3))+
  then obtain t where "lt_facilities st' = lt_facilities st @ [\<lparr>fy_facility = f, fy_created_at = t\<rparr>]"
    "lt_events st' = lt_events st" "lt_notes st' = lt_notes st" "facility_checks f"
    "list_all (\<lambda>r. fa_id (fy_facility r) \<noteq> fa_id f) (lt_facilities st)"
    by (auto simp: insert_facility_def Let_def rbind_Inr)
  with assms(1) show ?thesis by (auto simp: ledger_wf_def appended_def list_all_set)
qed

lemma create_note_keeps:
  assumes "ledger_wf st" "create_note env c fid body a st = (Inr row, st')"
  shows "ledger_wf st' \<and> appended st st'"
proof -
  from assms(2) obtain fid' version where
    "record_collection_note fid' c version (nq_note_kind body) (nq_note_text body) (nq_proposed_action body)
      (ac_actor_id a) OPS_OFFICER_ROLE st = Inr (row, st')"
    by (auto simp: create_note_def and_then_Inr access_simps in_ledger_Inr)
  then have "lt_notes st' = lt_notes st @ [row]" "note_checks row" "lt_facilities st' = lt_facilities st"
    "lt_events st' = lt_events st"
    by (auto simp: record_collection_note_def Let_def rbind_Inr fresh_uuid_def)
  with assms(1) show ?thesis by (simp add: ledger_wf_def appended_def)
qed

text \<open>A handler that raises leaves the rows as they are.\<close>

definition rows_of :: "ledger_store \<Rightarrow> facility_row list \<times> repayment_event list \<times> collection_note list" where
  "rows_of st = (lt_facilities st, lt_events st, lt_notes st)"

lemma keeps_new_uuid [simp, preserving]: "keeps (\<lambda>s. rows_of s = R) new_uuid"
  by (simp add: keeps_def rows_of_def)

lemma keeps_decimal_arg [simp, preserving]: "keeps P (decimal_arg code v)"
  by (simp add: keeps_def decimal_arg_def split: decimal_text.split)

lemma in_ledger_fails: "hoare P (in_ledger op) (\<lambda>_ _. True) (\<lambda>_. P)"
  by (auto simp: hoare_def in_ledger_def on_error_def atomically_def split: sum.splits)

lemma handlers_fail_clean:
  "hoare (\<lambda>s. rows_of s = R) (create_facility env c f_body a) (\<lambda>_ _. True) (\<lambda>_ s. rows_of s = R)"
  "hoare (\<lambda>s. rows_of s = R) (post_event env c fid e_body a) (\<lambda>_ _. True) (\<lambda>_ s. rows_of s = R)"
  "hoare (\<lambda>s. rows_of s = R) (create_note env c fid n_body a) (\<lambda>_ _. True) (\<lambda>_ s. rows_of s = R)"
  unfolding create_facility_def post_event_def create_note_def Let_def
  by (intro hoare_after_keeps in_ledger_fails; simp split: option.split)+

lemma get_ledger_keeps: "keeps P (get_ledger env c fid a as_of)"
  unfolding get_ledger_def Let_def by (intro keeps_and_then; simp split: sum.split)

lemma get_ledger_Inr:
  assumes "get_ledger env c fid a as_of st = (Inr x, s)"
  shows "\<exists>f observation snapshot.
    apply_events (le_sha env) (le_min_dt env) f (list_events (le_min_dt env) fid st) observation = Inr snapshot"
proof -
  from assms obtain f observation where
    run: "(case apply_events (le_sha env) (le_min_dt env) f (list_events (le_min_dt env) fid st) observation of
       Inl e \<Rightarrow> raise (ledger_failure e) | Inr snapshot \<Rightarrow> ret (snapshot, list_collection_notes fid st)) st = (Inr x, s)"
    unfolding get_ledger_def Let_def and_then_Inr access_simps run_reading prod.inject sum.inject by blast
  show ?thesis
  proof (cases "apply_events (le_sha env) (le_min_dt env) f (list_events (le_min_dt env) fid st) observation")
    case (Inl e)
    with run show ?thesis by simp
  qed blast
qed

lemma appended_rows: "rows_of st' = rows_of st \<Longrightarrow> appended st st' \<and> ledger_wf st' = ledger_wf st"
  using ledger_wf_cong [of st' st] appended_same [of st' st] by (simp add: rows_of_def)

lemma handler_outcome:
  assumes "hoare (\<lambda>s. rows_of s = rows_of st) m (\<lambda>_ _. True) (\<lambda>_ s. rows_of s = rows_of st)"
    and "\<And>x st'. m st = (Inr x, st') \<Longrightarrow> ledger_wf st' \<and> appended st st'" and "ledger_wf st"
  shows "ledger_wf (snd (m st)) \<and> appended st (snd (m st))"
proof (cases "m st")
  case (Pair r st')
  show ?thesis
  proof (cases r)
    case (Inl e)
    from hoareD_Inl [OF assms(1) refl Pair [unfolded Inl]] have "appended st st' \<and> ledger_wf st' = ledger_wf st"
      by (rule appended_rows)
    with assms(3) Pair show ?thesis by simp
  next
    case (Inr x)
    from assms(2) [OF Pair [unfolded Inr]] Pair show ?thesis by simp
  qed
qed

section \<open>Properties\<close>

text \<open>
  C14: The tables stay well-typed and append-only under every handler: each row
  satisfies its checks, ids and external references stay unique, each event belongs to
  a stored facility, each reversal refers to a payment of its own facility, and no row
  is ever changed or removed; a handler that fails changes no row.
\<close>

theorem ledger_tables_typed:
  assumes "ledger_wf st"
  shows "list_all (\<lambda>st'. ledger_wf st' \<and> appended st st')
    [snd (create_facility env c f_body a st), snd (post_event env c fid e_body a st),
     snd (create_note env c fid n_body a st), snd (get_ledger env c fid a as_of st)]"
proof -
  have read: "snd (get_ledger env c fid a as_of st) = st"
    using keepsD [OF get_ledger_keeps [of "\<lambda>s. s = st"]] by simp
  have "ledger_wf (snd (post_event env c fid e_body a st)) \<and> appended st (snd (post_event env c fid e_body a st))"
    by (rule handler_outcome [OF handlers_fail_clean(2) _ assms]) (metis post_event_keeps [OF assms] surj_pair)
  with handler_outcome [OF handlers_fail_clean(1) create_facility_keeps [OF assms] assms]
    handler_outcome [OF handlers_fail_clean(3) create_note_keeps [OF assms] assms]
  show ?thesis unfolding read using assms appended_same [of st st] by (simp only: list.pred_inject simp_thms)
qed

definition sample_ledger :: ledger_store where
  "sample_ledger = \<lparr>lt_facilities = [\<lparr>fy_facility = sample_facility, fy_created_at = 1\<rparr>], lt_events = [sample_payment],
     lt_notes = [], lt_audit = [], lt_uuids = (\<lambda>n. 100 + n), lt_drawn = 0, lt_clock = 6\<rparr>"

definition sample_officer :: actor where
  "sample_officer = \<lparr>ac_actor_id = 50, ac_roles = [OPS_OFFICER_ROLE]\<rparr>"

definition sample_ledger_env :: ledger_env where
  "sample_ledger_env = \<lparr>le_assigned = (\<lambda>c a. if c = 2 then Some 1 else None), le_decisions = (\<lambda>c v. None),
     le_text = (\<lambda>x. []), le_sha = (\<lambda>x. x), le_min_dt = 0, le_today = (2026, 3, 1)\<rparr>"

text \<open>A reversal of 5 of the payment of 3.\<close>

definition excessive_reversal :: record_event_request where
  "excessive_reversal = \<lparr>rq_kind = ''REVERSAL'', rq_amount = Finite 5, rq_external_reference = ''r9'',
     rq_effective_date = (2026, 2, 2), rq_reversed_event_id = Some 7\<rparr>"

definition excessive_row :: repayment_event where
  "excessive_row = \<lparr>re_id = 100, re_facility_id = 1, re_kind = REVERSAL, re_amount = 5, re_external_reference = ''r9'',
     re_reversed_event_id = Some 7, re_effective_date = (2026, 2, 2), re_recorded_at = Some 6\<rparr>"

lemma sample_ledger_wf: "ledger_wf sample_ledger"
  by (simp add: ledger_wf_def sample_ledger_def facility_checks_def sample_facility_def valid_event_def
      sample_payment_def own_payment_def)

lemma excessive_accepted:
  "\<exists>st'. post_event sample_ledger_env 2 1 excessive_reversal sample_officer sample_ledger = (Inr (excessive_row, True), st')"
  by (simp add: post_event_def and_then_def require_role_def check_act_def sample_officer_def OPS_OFFICER_ROLE_def
      assert_case_access_def sample_ledger_env_def load_facility_def sample_ledger_def sample_facility_def found_def
      event_kind_of_def excessive_reversal_def decimal_arg_def known_payment_def list_events_def sample_payment_def
      build_event_def valid_event_def Let_def in_ledger_def on_error_def atomically_def record_event_def
      load_event_by_reference_def fresh_uuid_def event_checks_def event_row_checks_def row_text_simps
      excessive_row_def new_uuid_def)

theorem ledger_tables_typed_witness:
  "\<exists>st'. post_event sample_ledger_env 2 1 excessive_reversal sample_officer sample_ledger = (Inr (excessive_row, True), st') \<and>
     ledger_wf st' \<and> appended sample_ledger st'"
proof -
  obtain st' where run: "post_event sample_ledger_env 2 1 excessive_reversal sample_officer sample_ledger =
      (Inr (excessive_row, True), st')" using excessive_accepted by blast
  have "ledger_wf (snd (post_event sample_ledger_env 2 1 excessive_reversal sample_officer sample_ledger)) \<and>
      appended sample_ledger (snd (post_event sample_ledger_env 2 1 excessive_reversal sample_officer sample_ledger))"
    using ledger_tables_typed [OF sample_ledger_wf] by (simp only: list.pred_inject simp_thms)
  with run show ?thesis by simp
qed

text \<open>
  C15: A duplicate delivery is one economic event: once an event was recorded under an
  external reference, every later request with that reference for the facility that
  does not fail returns the recorded row, reports that nothing was created and
  changes no row and no audit event.
\<close>

theorem event_recorded_once:
  assumes "post_event env c fid body a st = (Inr (row, True), st1)" and "appended st1 st2"
    and "post_event env' c' fid body' a' st2 = (Inr (row', created), st3)"
    and "rq_external_reference body' = rq_external_reference body"
  shows "row' = row \<and> \<not> created \<and> rows_of st3 = rows_of st2 \<and> lt_audit st3 = lt_audit st2"
proof -
  from post_event_Inr [OF assms(1)] obtain e where
    first: "record_event (le_text env) e (ac_actor_id a) OPS_OFFICER_ROLE (snd (fresh_uuid st)) = Inr ((row, True), st1)"
    and e: "re_facility_id e = fid" "re_external_reference e = rq_external_reference body" by blast
  from post_event_Inr [OF assms(3)] obtain e' where
    again: "record_event (le_text env') e' (ac_actor_id a') OPS_OFFICER_ROLE (snd (fresh_uuid st2)) = Inr ((row', created), st3)"
    and e': "re_facility_id e' = fid" "re_external_reference e' = rq_external_reference body'" by blast
  let ?t = "Some (lt_clock (snd (fresh_uuid st)))"
  from record_event_cases [OF first] have row: "row = e\<lparr>re_recorded_at := ?t\<rparr>" "lt_events st1 = lt_events st @ [row]"
    and new: "load_event_by_reference fid (rq_external_reference body) st = None"
    by (auto simp: e load_event_by_reference_def)
  obtain es where "lt_events st2 = lt_events st1 @ es" using assms(2) by (auto simp: appended_def)
  then have "load_event_by_reference fid (rq_external_reference body) st2 = Some row"
    using new by (simp add: row load_event_by_reference_def find_append e)
  then have known: "load_event_by_reference (re_facility_id e') (re_external_reference e') (snd (fresh_uuid st2)) = Some row"
    by (simp add: e' assms(4) load_event_by_reference_def)
  from record_event_cases [OF again] known have "\<not> created" by (auto split: if_splits)
  with record_event_cases [OF again] known show ?thesis by (simp add: rows_of_def)
qed

theorem event_recorded_once_witness:
  "\<exists>st1 st2. post_event sample_ledger_env 2 1 excessive_reversal sample_officer sample_ledger = (Inr (excessive_row, True), st1) \<and>
     post_event sample_ledger_env 2 1 excessive_reversal sample_officer st1 = (Inr (excessive_row, False), st2) \<and>
     lt_audit st2 = lt_audit st1"
proof -
  obtain st1 where run: "post_event sample_ledger_env 2 1 excessive_reversal sample_officer sample_ledger =
      (Inr (excessive_row, True), st1)" using excessive_accepted by blast
  from post_event_Inr [OF run] obtain e where
    "record_event (le_text sample_ledger_env) e (ac_actor_id sample_officer) OPS_OFFICER_ROLE (snd (fresh_uuid sample_ledger)) =
      Inr ((excessive_row, True), st1)" by blast
  from record_event_cases [OF this] have tables: "lt_events st1 = [sample_payment, excessive_row]"
    "lt_facilities st1 = [\<lparr>fy_facility = sample_facility, fy_created_at = 1\<rparr>]" by (simp_all add: sample_ledger_def)
  let ?e = "excessive_row\<lparr>re_id := fst (fresh_uuid st1), re_recorded_at := None\<rparr>"
  have "record_event (le_text sample_ledger_env) ?e (ac_actor_id sample_officer) OPS_OFFICER_ROLE (snd (fresh_uuid st1)) =
      Inr ((excessive_row, False), snd (fresh_uuid st1))"
    by (simp add: record_event_def load_event_by_reference_def tables)
      (simp add: excessive_row_def sample_payment_def valid_event_def event_row_checks_def row_text_simps)
  moreover have "known_payment sample_ledger_env 1 (Some 7) st1"
    unfolding known_payment_def option.case list_ex_set list_events_set tables
    by (intro bexI [of _ sample_payment]) (simp_all add: sample_payment_def)
  ultimately have "post_event sample_ledger_env 2 1 excessive_reversal sample_officer st1 =
      (Inr (excessive_row, False), snd (fresh_uuid st1))"
    by (intro post_event_run [where r = "\<lparr>fy_facility = sample_facility, fy_created_at = 1\<rparr>" and kind = REVERSAL and x = 5])
      (simp_all add: sample_officer_def sample_ledger_env_def load_facility_def tables event_kind_of_def
        excessive_reversal_def sample_facility_def build_event_def excessive_row_def valid_event_def)
  then obtain row created st2 where again:
    "post_event sample_ledger_env 2 1 excessive_reversal sample_officer st1 = (Inr (row, created), st2)" by auto
  from event_recorded_once [OF run appended_same [OF refl refl refl] again refl] run again show ?thesis by auto
qed

text \<open>
  C16: An accepted reversal can break the ledger for good: once the reversals of a payment
  exceed it - and the handler accepts such a reversal (the witness) - no read of the
  ledger of the facility ever succeeds again, whatever is recorded later.
\<close>

theorem over_reversal_breaks_ledger:
  assumes "pay \<in> set (lt_events st)" and "re_kind pay = PAYMENT" and "re_facility_id pay = fid"
    and "re_amount pay < reversed_total (list_events (le_min_dt env) fid st) (re_id pay)"
    and "appended st st'" and "ledger_wf st'" and "cash_bounded (list_events (le_min_dt env) fid st')"
  shows "\<nexists>x. fst (get_ledger env c fid a as_of st') = Inr x"
proof
  let ?m = "le_min_dt env" and ?mine = "filter (\<lambda>x. re_facility_id x = fid)"
  assume "\<exists>x. fst (get_ledger env c fid a as_of st') = Inr x"
  then obtain x s where "get_ledger env c fid a as_of st' = (Inr x, s)" by (metis prod.collapse)
  from get_ledger_Inr [OF this] obtain f observation snapshot where
    "apply_events (le_sha env) ?m f (list_events ?m fid st') observation = Inr snapshot" by blast
  from apply_events_parts [OF this] obtain ordered where
    ordered: "order_events ?m (fa_id f) (list_events ?m fid st') = Inr ordered" by blast
  obtain es where es: "lt_events st' = lt_events st @ es" using assms(5) by (auto simp: appended_def)
  have mset: "mset (list_events ?m fid st') = mset (?mine (lt_events st) @ ?mine es)"
    "mset (list_events ?m fid st) = mset (?mine (lt_events st))" by (simp_all add: list_events_def es)
  have "distinct (map re_id (lt_events st'))" using assms(6) by (simp add: ledger_wf_def)
  then have dist: "distinct (map re_id (?mine (lt_events st) @ ?mine es))"
    unfolding es by (auto simp: distinct_map_filter)
  then have "distinct (map re_id (list_events ?m fid st'))"
    using mset(1) by (metis mset_eq_imp_distinct_iff mset_map)
  from order_events_perm [OF ordered mset(1) this assms(7)]
  have perm: "order_events ?m (fa_id f) (?mine (lt_events st) @ ?mine es) = Inr ordered" .
  note bounded = cash_bounded_mset [OF mset(1) assms(7)]
  then have "0 \<le> sum_list (map re_amount (?mine es))" by (intro sum_list_nonneg) (auto simp: cash_bounded_def list_all_set)
  with bounded have "cash_bounded (?mine (lt_events st))" by (simp add: cash_bounded_def)
  then have "reversed_total (list_events ?m fid st) (re_id pay) = reversed_total (?mine (lt_events st)) (re_id pay)"
    by (intro reversed_total_mset [symmetric]) (simp_all add: mset(2))
  with assms(1-4) over_reversal_fails [OF bounded dist, of pay] perm show False by auto
qed

theorem over_reversal_breaks_ledger_witness:
  "\<exists>st'. post_event sample_ledger_env 2 1 excessive_reversal sample_officer sample_ledger = (Inr (excessive_row, True), st') \<and>
     (\<nexists>x. fst (get_ledger sample_ledger_env 2 1 sample_officer None st') = Inr x)"
proof -
  obtain st' where run: "post_event sample_ledger_env 2 1 excessive_reversal sample_officer sample_ledger =
      (Inr (excessive_row, True), st')" using excessive_accepted by blast
  have wf: "ledger_wf st'" "appended sample_ledger st'" using post_event_keeps [OF sample_ledger_wf run] by blast+
  from post_event_Inr [OF run] obtain e where
    "record_event (le_text sample_ledger_env) e (ac_actor_id sample_officer) OPS_OFFICER_ROLE (snd (fresh_uuid sample_ledger)) =
      Inr ((excessive_row, True), st')" by blast
  from record_event_cases [OF this] have events: "lt_events st' = [sample_payment, excessive_row]"
    by (simp add: sample_ledger_def)
  have listed: "list_events 0 1 st' = [sample_payment, excessive_row]"
    by (simp add: list_events_def events sample_payment_def excessive_row_def order_key_def)
  have cents: "is_cents 3" "is_cents 5" using is_cents_cents [of 300] is_cents_cents [of 500] by (simp_all add: cents_def)
  then have bounded: "cash_bounded [sample_payment, excessive_row]"
    by (simp add: cash_bounded_def sample_payment_def excessive_row_def)
  have five: "cents_of 5 = 500" by (simp add: cents_of_def)
  have min: "le_min_dt sample_ledger_env = 0" and pay: "re_id sample_payment = 7" "re_amount sample_payment = 3"
    by (simp_all add: sample_ledger_env_def sample_payment_def)
  have total: "reversed_total [sample_payment, excessive_row] 7 = 5"
    unfolding reversed_total_cents [OF bounded]
    by (simp add: reversals_def sample_payment_def excessive_row_def five) (simp add: cents_def)
  have over: "re_amount sample_payment < reversed_total (list_events (le_min_dt sample_ledger_env) 1 st') (re_id sample_payment)"
    unfolding min listed pay total by simp
  have "\<nexists>x. fst (get_ledger sample_ledger_env 2 1 sample_officer None st') = Inr x"
  proof (rule over_reversal_breaks_ledger [OF _ _ _ over appended_same [OF refl refl refl] wf(1)])
    show "sample_payment \<in> set (lt_events st')" by (simp add: events)
    show "cash_bounded (list_events (le_min_dt sample_ledger_env) 1 st')"
      using bounded unfolding min listed .
  qed (simp_all add: sample_payment_def)
  with run show ?thesis by blast
qed

end
