(* ===== verification/Disbursements.thy ===== *)
theory Disbursements
  imports Api_Access Case_Store Decimal_Context
begin

text \<open>
  The disbursement of \<open>domain/disbursements.py\<close>, its store
  (\<open>infrastructure/postgres/disbursements.py\<close> over the tables and the transition
  trigger of \<open>202607180021_proposed_disbursements.sql\<close>) and the labelled mock adapter.
  \<open>execute_action\<close> is two transactions around the call of the adapter; here they are
  also the steps of a transition system in which attempts, lost responses and human
  reconciliations interleave.
\<close>

section \<open>The execution lifecycle\<close>

datatype execution_status =
  PROPOSED | EXECUTION_REQUESTED | EXECUTION_UNKNOWN | CONFIRMED_EXECUTED | CONFIRMED_NOT_EXECUTED

fun execution_status_value :: "execution_status \<Rightarrow> string" where
  "execution_status_value PROPOSED = ''PROPOSED''"
| "execution_status_value EXECUTION_REQUESTED = ''EXECUTION_REQUESTED''"
| "execution_status_value EXECUTION_UNKNOWN = ''EXECUTION_UNKNOWN''"
| "execution_status_value CONFIRMED_EXECUTED = ''CONFIRMED_EXECUTED''"
| "execution_status_value CONFIRMED_NOT_EXECUTED = ''CONFIRMED_NOT_EXECUTED''"

definition all_execution_statuses :: "execution_status list" where
  "all_execution_statuses = [PROPOSED, EXECUTION_REQUESTED, EXECUTION_UNKNOWN, CONFIRMED_EXECUTED, CONFIRMED_NOT_EXECUTED]"

definition execution_status_of :: "string \<Rightarrow> execution_status option" where
  "execution_status_of s = find (\<lambda>x. execution_status_value x = s) all_execution_statuses"

fun ALLOWED_EXECUTION_TRANSITIONS :: "execution_status \<Rightarrow> execution_status list" where
  "ALLOWED_EXECUTION_TRANSITIONS PROPOSED = [EXECUTION_REQUESTED]"
| "ALLOWED_EXECUTION_TRANSITIONS EXECUTION_REQUESTED = [CONFIRMED_EXECUTED, EXECUTION_UNKNOWN, CONFIRMED_NOT_EXECUTED]"
| "ALLOWED_EXECUTION_TRANSITIONS EXECUTION_UNKNOWN = [CONFIRMED_EXECUTED, CONFIRMED_NOT_EXECUTED]"
| "ALLOWED_EXECUTION_TRANSITIONS CONFIRMED_EXECUTED = []"
| "ALLOWED_EXECUTION_TRANSITIONS CONFIRMED_NOT_EXECUTED = [EXECUTION_REQUESTED]"

definition is_execution_transition_allowed :: "execution_status \<Rightarrow> execution_status \<Rightarrow> bool" where
  "is_execution_transition_allowed x y \<longleftrightarrow> y \<in> set (ALLOWED_EXECUTION_TRANSITIONS x)"

definition ADAPTER_RESULT_STATUSES :: "execution_status list" where
  "ADAPTER_RESULT_STATUSES = [CONFIRMED_EXECUTED, EXECUTION_UNKNOWN]"

definition RECONCILIATION_OUTCOMES :: "execution_status list" where
  "RECONCILIATION_OUTCOMES = [CONFIRMED_EXECUTED, CONFIRMED_NOT_EXECUTED]"

definition REATTEMPTABLE_STATUSES :: "execution_status list" where
  "REATTEMPTABLE_STATUSES = [PROPOSED, CONFIRMED_NOT_EXECUTED]"

definition RECONCILABLE_STATUSES :: "execution_status list" where
  "RECONCILABLE_STATUSES = [EXECUTION_REQUESTED, EXECUTION_UNKNOWN]"

section \<open>Amounts against the approved terms\<close>

datatype amount_error = InvalidAmount | CurrencyMismatch | AmountExceedsApproved

definition parse_exact_amount :: "decimal decimal_text \<Rightarrow> amount_error + decimal" where
  "parse_exact_amount t =
     (case t of Malformed \<Rightarrow> Inl InvalidAmount | NonFinite \<Rightarrow> Inl InvalidAmount
      | Finite x \<Rightarrow> if x \<le> 0 then Inl InvalidAmount else Inr x)"

definition validate_amount_against_terms ::
  "decimal \<Rightarrow> string \<Rightarrow> decimal option \<Rightarrow> string option \<Rightarrow> amount_error + unit" where
  "validate_amount_against_terms amount currency approved_amount approved_currency =
     rbind (check_that (case approved_currency of None \<Rightarrow> True | Some c \<Rightarrow> currency = c) CurrencyMismatch) (\<lambda>_.
     check_that (case approved_amount of None \<Rightarrow> True | Some a \<Rightarrow> amount \<le> a) AmountExceedsApproved)"

section \<open>Actions and receipts\<close>

record disbursement_action =
  da_id :: uuid
  da_case_id :: uuid
  da_case_version :: int
  da_decision_id :: uuid
  da_amount :: decimal
  da_currency :: string
  da_beneficiary_ref :: string
  da_account_ref :: string
  da_status :: execution_status
  da_created_by :: uuid
  da_created_at :: datetime

definition valid_action :: "disbursement_action \<Rightarrow> bool" where
  "valid_action d \<longleftrightarrow> 1 \<le> da_case_version d \<and> 0 < da_amount d \<and>
     1 \<le> length (da_currency d) \<and> length (da_currency d) \<le> 8 \<and>
     1 \<le> length (da_beneficiary_ref d) \<and> length (da_beneficiary_ref d) \<le> 400 \<and>
     1 \<le> length (da_account_ref d) \<and> length (da_account_ref d) \<le> 400"

text \<open>The check constraints of \<open>proposed_disbursement_actions\<close>.\<close>

definition action_row_checks :: "disbursement_action \<Rightarrow> bool" where
  "action_row_checks d \<longleftrightarrow> 0 < da_case_version d \<and> 0 < da_amount d \<and>
     1 \<le> length (btrim (da_currency d)) \<and> length (btrim (da_currency d)) \<le> 8 \<and>
     not_blank (da_beneficiary_ref d) \<and> not_blank (da_account_ref d)"

record execution_receipt =
  er_id :: uuid
  er_action_id :: uuid
  er_idempotency_key :: string
  er_adapter_label :: string
  er_result_status :: execution_status
  er_receipt_ref :: "string option"

definition MOCK_DISBURSEMENT_ADAPTER_LABEL :: string where
  "MOCK_DISBURSEMENT_ADAPTER_LABEL = ''MOCK_DISBURSEMENT_EXECUTION_ADAPTER''"

definition valid_receipt :: "execution_receipt \<Rightarrow> bool" where
  "valid_receipt r \<longleftrightarrow> er_idempotency_key r \<noteq> [] \<and> er_adapter_label r = MOCK_DISBURSEMENT_ADAPTER_LABEL \<and>
     er_result_status r \<in> set ADAPTER_RESULT_STATUSES \<and> er_receipt_ref r \<noteq> Some [] \<and>
     (er_result_status r = CONFIRMED_EXECUTED \<longleftrightarrow> er_receipt_ref r \<noteq> None)"

text \<open>\<open>uuid5\<close> of the standard library is the parameter \<open>u5\<close>, \<open>i\<close> the fresh id of the receipt.\<close>

definition mock_execute :: "(string \<Rightarrow> uuid) \<Rightarrow> bool \<Rightarrow> uuid \<Rightarrow> uuid \<Rightarrow> string \<Rightarrow> execution_receipt" where
  "mock_execute u5 simulate_unknown i action key =
     (if simulate_unknown
      then \<lparr>er_id = i, er_action_id = action, er_idempotency_key = key,
            er_adapter_label = MOCK_DISBURSEMENT_ADAPTER_LABEL, er_result_status = EXECUTION_UNKNOWN,
            er_receipt_ref = None\<rparr>
      else \<lparr>er_id = i, er_action_id = action, er_idempotency_key = key,
            er_adapter_label = MOCK_DISBURSEMENT_ADAPTER_LABEL, er_result_status = CONFIRMED_EXECUTED,
            er_receipt_ref = Some (str_uuid (u5 (MOCK_DISBURSEMENT_ADAPTER_LABEL @ '':'' @ str_uuid action @ '':'' @ key)))\<rparr>)"

section \<open>The store\<close>

record receipt_row =
  rr_receipt :: execution_receipt
  rr_recorded_by :: uuid
  rr_created_at :: datetime

record disb_store =
  db_actions :: "disbursement_action list"
  db_receipts :: "receipt_row list"
  db_audit :: "audit_row list"
  db_uuids :: "nat \<Rightarrow> uuid"
  db_drawn :: nat
  db_clock :: datetime

datatype disb_error =
    DisbursementActionNotFound uuid
  | ReconciliationRequired execution_status
  | AlreadyExecuted uuid
  | NotReconcilable execution_status
  | NotAnOutcome execution_status
  | DisbIntegrity string

definition insert_disb_audit ::
  "uuid \<Rightarrow> int \<Rightarrow> string \<Rightarrow> uuid \<Rightarrow> string \<Rightarrow> uuid \<Rightarrow> (string \<times> json) list \<Rightarrow> disb_store \<Rightarrow> disb_store" where
  "insert_disb_audit c v event actor role artifact data st =
     st\<lparr>db_drawn := Suc (db_drawn st),
        db_audit := db_audit st @
          [\<lparr>au_id = db_uuids st (db_drawn st), au_case_id = c, au_case_version = v, au_event_type = event,
            au_actor_type = ''HUMAN:'' @ role, au_actor_id = Some actor,
            au_artifact_type = ''PROPOSED_DISBURSEMENT_ACTION'', au_artifact_id = artifact,
            au_event_data = data, au_created_at = db_clock st\<rparr>]\<rparr>"

definition for_version :: "uuid \<Rightarrow> int \<Rightarrow> disb_store \<Rightarrow> disbursement_action option" where
  "for_version c v st = find (\<lambda>d. da_case_id d = c \<and> da_case_version d = v) (db_actions st)"

definition load_action :: "uuid \<Rightarrow> uuid \<Rightarrow> int \<Rightarrow> disb_store \<Rightarrow> disbursement_action option" where
  "load_action i c v st = find (\<lambda>d. da_id d = i \<and> da_case_id d = c \<and> da_case_version d = v) (db_actions st)"

definition list_actions :: "uuid \<Rightarrow> disb_store \<Rightarrow> disbursement_action list" where
  "list_actions c st =
     sort_key (\<lambda>d. - da_case_version d) (rev (sort_key da_created_at (rev (filter (\<lambda>d. da_case_id d = c) (db_actions st)))))"

definition list_receipts :: "uuid \<Rightarrow> disb_store \<Rightarrow> receipt_row list" where
  "list_receipts i st =
     sort_key rr_created_at (sort_key (\<lambda>r. er_id (rr_receipt r)) (filter (\<lambda>r. er_action_id (rr_receipt r) = i) (db_receipts st)))"

text \<open>The insertion of an action, or the one that the version has; the flag is \<open>created\<close>.\<close>

definition create_action ::
  "(decimal \<Rightarrow> string) \<Rightarrow> disbursement_action \<Rightarrow> disb_store \<Rightarrow>
   disb_error + (disbursement_action \<times> bool) \<times> disb_store" where
  "create_action text d st =
     rbind (check_that (valid_action d \<and> action_row_checks d) (DisbIntegrity ''proposed_disbursement_actions'')) (\<lambda>_.
     case for_version (da_case_id d) (da_case_version d) st of
       Some existing \<Rightarrow> Inr ((existing, False), st)
     | None \<Rightarrow>
         rbind (check_that (list_all (\<lambda>x. da_id x \<noteq> da_id d) (db_actions st))
                  (DisbIntegrity ''proposed_disbursement_actions_pkey'')) (\<lambda>_.
         let row = d\<lparr>da_created_at := db_clock st\<rparr>
         in Inr ((row, True),
              insert_disb_audit (da_case_id d) (da_case_version d) ''PROPOSED_DISBURSEMENT_CREATED'' (da_created_by d)
                ''OPS_OFFICER'' (da_id d)
                [(''decisionId'', JStr (str_uuid (da_decision_id d))), (''amount'', JStr (text (da_amount d))),
                 (''currency'', JStr (da_currency d)), (''status'', JStr (execution_status_value (da_status d)))]
                (st\<lparr>db_actions := db_actions st @ [row]\<rparr>))))"

definition select_for_update :: "uuid \<Rightarrow> uuid \<Rightarrow> int \<Rightarrow> disb_store \<Rightarrow> disb_error + disbursement_action" where
  "select_for_update i c v st =
     (case load_action i c v st of None \<Rightarrow> Inl (DisbursementActionNotFound i) | Some d \<Rightarrow> Inr d)"

text \<open>The update with its trigger: a transition outside the map aborts the transaction.\<close>

definition update_status ::
  "uuid \<Rightarrow> uuid \<Rightarrow> int \<Rightarrow> execution_status \<Rightarrow> disb_store \<Rightarrow> disb_error + disb_store" where
  "update_status i c v to st =
     (let hit = (\<lambda>d. da_id d = i \<and> da_case_id d = c \<and> da_case_version d = v)
      in rbind (check_that (list_all (\<lambda>d. hit d \<longrightarrow> is_execution_transition_allowed (da_status d) to) (db_actions st))
                  (DisbIntegrity ''forbidden disbursement execution transition'')) (\<lambda>_.
         Inr (st\<lparr>db_actions := map (\<lambda>d. if hit d then d\<lparr>da_status := to\<rparr> else d) (db_actions st)\<rparr>)))"

section \<open>Executing\<close>

text \<open>The first transaction: the attempt is on record before the adapter is called.\<close>

definition begin_attempt ::
  "uuid \<Rightarrow> uuid \<Rightarrow> int \<Rightarrow> string \<Rightarrow> uuid \<Rightarrow> string \<Rightarrow> disb_store \<Rightarrow> disb_error + disb_store" where
  "begin_attempt i c v key actor role st =
     rbind (select_for_update i c v st) (\<lambda>current.
     if da_status current \<in> set RECONCILABLE_STATUSES then Inl (ReconciliationRequired (da_status current))
     else if da_status current = CONFIRMED_EXECUTED then Inl (AlreadyExecuted i)
     else if da_status current \<notin> set REATTEMPTABLE_STATUSES then Inl (ReconciliationRequired (da_status current))
     else rbind (update_status i c v EXECUTION_REQUESTED st) (\<lambda>st'.
       Inr (insert_disb_audit c v ''DISBURSEMENT_EXECUTION_REQUESTED'' actor role i
         [(''idempotencyKey'', JStr key), (''fromStatus'', JStr (execution_status_value (da_status current)))] st')))"

definition receipt_checks :: "disb_store \<Rightarrow> execution_receipt \<Rightarrow> bool" where
  "receipt_checks st r \<longleftrightarrow> valid_receipt r \<and> not_blank (er_idempotency_key r) \<and>
     (case er_receipt_ref r of None \<Rightarrow> True | Some x \<Rightarrow> not_blank x) \<and> list_ex (\<lambda>d. da_id d = er_action_id r) (db_actions st) \<and>
     list_all (\<lambda>x. er_id (rr_receipt x) \<noteq> er_id r \<and> er_idempotency_key (rr_receipt x) \<noteq> er_idempotency_key r)
       (db_receipts st)"

definition json_text :: "string option \<Rightarrow> json" where
  "json_text s = (case s of None \<Rightarrow> JNull | Some x \<Rightarrow> JStr x)"

text \<open>The second transaction: the receipt, the result of the adapter and the audit event.\<close>

definition finish_attempt ::
  "uuid \<Rightarrow> uuid \<Rightarrow> int \<Rightarrow> execution_receipt \<Rightarrow> uuid \<Rightarrow> string \<Rightarrow> disb_store \<Rightarrow>
   disb_error + (disbursement_action \<times> receipt_row) \<times> disb_store" where
  "finish_attempt i c v receipt actor role st =
     rbind (check_that (receipt_checks st receipt) (DisbIntegrity ''disbursement_execution_receipts'')) (\<lambda>_.
     let row = \<lparr>rr_receipt = receipt, rr_recorded_by = actor, rr_created_at = db_clock st\<rparr> in
     rbind (update_status i c v (er_result_status receipt) (st\<lparr>db_receipts := db_receipts st @ [row]\<rparr>)) (\<lambda>st'.
     let st'' = insert_disb_audit c v ''DISBURSEMENT_EXECUTION_RECORDED'' actor role i
           [(''idempotencyKey'', JStr (er_idempotency_key receipt)), (''adapterLabel'', JStr (er_adapter_label receipt)),
            (''resultStatus'', JStr (execution_status_value (er_result_status receipt))),
            (''receiptRef'', json_text (er_receipt_ref receipt))] st'
     in case for_version c v st'' of
          None \<Rightarrow> Inl (DisbursementActionNotFound i)
        | Some d \<Rightarrow> Inr ((d, row), st'')))"

type_synonym adapter = "uuid \<Rightarrow> string \<Rightarrow> execution_receipt"

text \<open>\<open>execute_action\<close> without interference: a failure after the first transaction keeps it.\<close>

definition execute_action ::
  "adapter \<Rightarrow> uuid \<Rightarrow> uuid \<Rightarrow> int \<Rightarrow> string \<Rightarrow> uuid \<Rightarrow> string \<Rightarrow>
   (disb_store, disb_error, disbursement_action \<times> receipt_row) act" where
  "execute_action adapter i c v key actor role =
     and_then (transact (begin_attempt i c v key actor role)) (\<lambda>_.
     atomically (finish_attempt i c v (adapter i key) actor role))"

definition reconcile_action ::
  "uuid \<Rightarrow> uuid \<Rightarrow> int \<Rightarrow> execution_status \<Rightarrow> string \<Rightarrow> uuid \<Rightarrow> string \<Rightarrow> disb_store \<Rightarrow>
   disb_error + disbursement_action \<times> disb_store" where
  "reconcile_action i c v out rationale actor role st =
     rbind (check_that (out \<in> set RECONCILIATION_OUTCOMES) (NotAnOutcome out)) (\<lambda>_.
     rbind (select_for_update i c v st) (\<lambda>current.
     rbind (check_that (da_status current \<in> set RECONCILABLE_STATUSES) (NotReconcilable (da_status current))) (\<lambda>_.
     rbind (update_status i c v out st) (\<lambda>st'.
     let st'' = insert_disb_audit c v ''DISBURSEMENT_EXECUTION_RECONCILED'' actor role i
           [(''fromStatus'', JStr (execution_status_value (da_status current))),
            (''outcome'', JStr (execution_status_value out)), (''rationale'', JStr rationale)] st'
     in case for_version c v st'' of
          None \<Rightarrow> Inl (DisbursementActionNotFound i)
        | Some d \<Rightarrow> Inr (d, st'')))))"

section \<open>Interleaved attempts\<close>

text \<open>
  An attempt in flight is its action, its case version, its key and - once the adapter
  has answered - the receipt; \<open>w_calls\<close> is the log of the calls of the adapter.
\<close>

record flight =
  fl_action :: uuid
  fl_case :: uuid
  fl_version :: int
  fl_key :: string
  fl_receipt :: "execution_receipt option"

record disb_world =
  w_store :: disb_store
  w_flights :: "flight list"
  w_calls :: "uuid list"

text \<open>The action that the create handler builds; the database stamps the time.\<close>

definition new_action ::
  "uuid \<Rightarrow> uuid \<Rightarrow> int \<Rightarrow> uuid \<Rightarrow> decimal \<Rightarrow> string \<Rightarrow> string \<Rightarrow> string \<Rightarrow> uuid \<Rightarrow> disbursement_action" where
  "new_action i c v decision amount currency beneficiary account actor =
     \<lparr>da_id = i, da_case_id = c, da_case_version = v, da_decision_id = decision, da_amount = amount,
      da_currency = currency, da_beneficiary_ref = beneficiary, da_account_ref = account, da_status = PROPOSED,
      da_created_by = actor, da_created_at = 0\<rparr>"

lemma new_action_fields [simp]:
  "da_status (new_action i c v decision amount currency beneficiary account actor) = PROPOSED"
  "da_id (new_action i c v decision amount currency beneficiary account actor) = i"
  "da_case_id (new_action i c v decision amount currency beneficiary account actor) = c"
  "da_case_version (new_action i c v decision amount currency beneficiary account actor) = v"
  by (simp_all add: new_action_def)

inductive disb_step :: "adapter \<Rightarrow> disb_world \<Rightarrow> disb_world \<Rightarrow> bool" for adapter where
  create: "create_action text (new_action i c v decision amount currency beneficiary account actor) (w_store w) = Inr (out, st) \<Longrightarrow>
    disb_step adapter w (w\<lparr>w_store := st\<rparr>)"
| begins: "begin_attempt i c v key actor role (w_store w) = Inr st \<Longrightarrow>
    disb_step adapter w (w\<lparr>w_store := st, w_flights := w_flights w @
      [\<lparr>fl_action = i, fl_case = c, fl_version = v, fl_key = key, fl_receipt = None\<rparr>]\<rparr>)"
| calls: "w_flights w = fs @ f # gs \<Longrightarrow> fl_receipt f = None \<Longrightarrow>
    disb_step adapter w (w\<lparr>w_flights := fs @ f\<lparr>fl_receipt := Some (adapter (fl_action f) (fl_key f))\<rparr> # gs,
      w_calls := w_calls w @ [fl_action f]\<rparr>)"
| finishes: "w_flights w = fs @ f # gs \<Longrightarrow> fl_receipt f = Some r \<Longrightarrow>
    finish_attempt (fl_action f) (fl_case f) (fl_version f) r actor role (w_store w) = Inr (out, st) \<Longrightarrow>
    disb_step adapter w (w\<lparr>w_store := st, w_flights := fs @ gs\<rparr>)"
| loses: "w_flights w = fs @ f # gs \<Longrightarrow> disb_step adapter w (w\<lparr>w_flights := fs @ gs\<rparr>)"
| reconciles: "reconcile_action i c v out rationale actor role (w_store w) = Inr (d, st) \<Longrightarrow>
    disb_step adapter w (w\<lparr>w_store := st\<rparr>)"

section \<open>What each transaction does to the tables\<close>

lemma insert_disb_audit_tables [simp]:
  "db_actions (insert_disb_audit c v event actor role art data st) = db_actions st"
  "db_receipts (insert_disb_audit c v event actor role art data st) = db_receipts st"
  by (simp_all add: insert_disb_audit_def)

definition hits :: "uuid \<Rightarrow> uuid \<Rightarrow> int \<Rightarrow> disbursement_action \<Rightarrow> bool" where
  "hits i c v d \<longleftrightarrow> da_id d = i \<and> da_case_id d = c \<and> da_case_version d = v"

definition set_status :: "uuid \<Rightarrow> uuid \<Rightarrow> int \<Rightarrow> execution_status \<Rightarrow> disbursement_action \<Rightarrow> disbursement_action" where
  "set_status i c v to d = (if hits i c v d then d\<lparr>da_status := to\<rparr> else d)"

lemma set_status_fields [simp]:
  "da_id (set_status i c v to d) = da_id d" "da_case_id (set_status i c v to d) = da_case_id d"
  "da_case_version (set_status i c v to d) = da_case_version d"
  by (simp_all add: set_status_def)

lemma update_status_Inr:
  "update_status i c v to st = Inr st' \<longleftrightarrow>
     list_all (\<lambda>d. \<not> hits i c v d \<or> is_execution_transition_allowed (da_status d) to) (db_actions st) \<and>
     st' = st\<lparr>db_actions := map (set_status i c v to) (db_actions st)\<rparr>"
  by (auto simp: update_status_def hits_def set_status_def [abs_def] Let_def rbind_Inr list_all_set)

lemma load_action_Some: "load_action i c v st = Some d \<Longrightarrow> d \<in> set (db_actions st) \<and> hits i c v d"
  by (auto simp: load_action_def hits_def dest: find_SomeD)

text \<open>The rows of the audit trail that begin an attempt, and that deny one.\<close>

definition begins_row :: "uuid \<Rightarrow> audit_row \<Rightarrow> bool" where
  "begins_row i r \<longleftrightarrow> au_artifact_id r = i \<and> au_event_type r = ''DISBURSEMENT_EXECUTION_REQUESTED''"

definition denies_row :: "uuid \<Rightarrow> audit_row \<Rightarrow> bool" where
  "denies_row i r \<longleftrightarrow> au_artifact_id r = i \<and> au_event_type r = ''DISBURSEMENT_EXECUTION_RECONCILED'' \<and>
     (''outcome'', JStr ''CONFIRMED_NOT_EXECUTED'') \<in> set (au_event_data r)"

definition begun :: "disb_store \<Rightarrow> uuid \<Rightarrow> nat" where
  "begun st i = length (filter (begins_row i) (db_audit st))"

definition denied :: "disb_store \<Rightarrow> uuid \<Rightarrow> nat" where
  "denied st i = length (filter (denies_row i) (db_audit st))"

lemma tally_audit [simp]:
  "begun (insert_disb_audit c v event actor role art data st) i =
     begun st i + (if art = i \<and> event = ''DISBURSEMENT_EXECUTION_REQUESTED'' then 1 else 0)"
  "denied (insert_disb_audit c v event actor role art data st) i =
     denied st i + (if art = i \<and> event = ''DISBURSEMENT_EXECUTION_RECONCILED'' \<and>
       (''outcome'', JStr ''CONFIRMED_NOT_EXECUTED'') \<in> set data then 1 else 0)"
  by (auto simp: begun_def denied_def insert_disb_audit_def begins_row_def denies_row_def)

lemma tally_tables [simp]:
  "begun (st\<lparr>db_actions := ds\<rparr>) i = begun st i" "denied (st\<lparr>db_actions := ds\<rparr>) i = denied st i"
  "begun (st\<lparr>db_receipts := rs\<rparr>) i = begun st i" "denied (st\<lparr>db_receipts := rs\<rparr>) i = denied st i"
  by (simp_all add: begun_def denied_def)

lemma create_action_cases:
  assumes "create_action text d st = Inr ((row, created), st')"
  shows "if created
    then row = d\<lparr>da_created_at := db_clock st\<rparr> \<and> db_actions st' = db_actions st @ [row] \<and> db_receipts st' = db_receipts st \<and>
      list_all (\<lambda>x. da_id x \<noteq> da_id d) (db_actions st) \<and> for_version (da_case_id d) (da_case_version d) st = None \<and>
      begun st' = begun st \<and> denied st' = denied st
    else st' = st"
  using assms by (auto simp: create_action_def Let_def rbind_Inr fun_eq_iff split: option.splits)

lemma begin_attempt_cases:
  assumes "begin_attempt i c v key actor role st = Inr st'"
  shows "\<exists>d. d \<in> set (db_actions st) \<and> hits i c v d \<and> da_status d \<in> set REATTEMPTABLE_STATUSES \<and>
    list_all (\<lambda>d. \<not> hits i c v d \<or> is_execution_transition_allowed (da_status d) EXECUTION_REQUESTED) (db_actions st) \<and>
    db_actions st' = map (set_status i c v EXECUTION_REQUESTED) (db_actions st) \<and> db_receipts st' = db_receipts st \<and>
    begun st' = (begun st)(i := Suc (begun st i)) \<and> denied st' = denied st"
  using assms
  by (auto simp: begin_attempt_def select_for_update_def rbind_Inr update_status_Inr fun_eq_iff
      dest!: load_action_Some split: option.splits if_splits)

lemma finish_attempt_cases:
  assumes "finish_attempt i c v r actor role st = Inr (out, st')"
  shows "er_result_status r \<in> set ADAPTER_RESULT_STATUSES \<and>
    list_all (\<lambda>d. \<not> hits i c v d \<or> is_execution_transition_allowed (da_status d) (er_result_status r)) (db_actions st) \<and>
    db_actions st' = map (set_status i c v (er_result_status r)) (db_actions st) \<and>
    map rr_receipt (db_receipts st') = map rr_receipt (db_receipts st) @ [r] \<and>
    list_all (\<lambda>x. er_idempotency_key (rr_receipt x) \<noteq> er_idempotency_key r) (db_receipts st) \<and>
    begun st' = begun st \<and> denied st' = denied st"
  using assms
  by (auto simp: finish_attempt_def Let_def rbind_Inr update_status_Inr fun_eq_iff receipt_checks_def valid_receipt_def
      list_all_set split: option.splits)

lemma reconcile_action_cases:
  assumes "reconcile_action i c v to rationale actor role st = Inr (d', st')"
  shows "to \<in> set RECONCILIATION_OUTCOMES \<and>
    (\<exists>d\<in>set (db_actions st). hits i c v d \<and> da_status d \<in> set RECONCILABLE_STATUSES) \<and>
    list_all (\<lambda>d. \<not> hits i c v d \<or> is_execution_transition_allowed (da_status d) to) (db_actions st) \<and>
    db_actions st' = map (set_status i c v to) (db_actions st) \<and> db_receipts st' = db_receipts st \<and>
    begun st' = begun st \<and>
    denied st' = (denied st)(i := denied st i + (if to = CONFIRMED_NOT_EXECUTED then 1 else 0))"
proof -
  have "execution_status_value to = ''CONFIRMED_NOT_EXECUTED'' \<longleftrightarrow> to = CONFIRMED_NOT_EXECUTED" by (cases to) auto
  with assms show ?thesis
    by (auto simp: reconcile_action_def select_for_update_def Let_def rbind_Inr update_status_Inr fun_eq_iff
        dest!: load_action_Some split: option.splits)
qed

section \<open>The audit trail counts the attempts\<close>

definition disb_inv :: "disb_store \<Rightarrow> bool" where
  "disb_inv st \<longleftrightarrow> distinct (map da_id (db_actions st)) \<and>
     list_all (\<lambda>d. begun st (da_id d) =
       denied st (da_id d) + (if da_status d \<in> set REATTEMPTABLE_STATUSES then 0 else 1)) (db_actions st) \<and>
     (\<forall>i. i \<in> da_id ` set (db_actions st) \<or> begun st i = 0 \<and> denied st i = 0)"

definition unanswered :: "disb_world \<Rightarrow> uuid \<Rightarrow> nat" where
  "unanswered w i = length (filter (\<lambda>f. fl_action f = i \<and> fl_receipt f = None) (w_flights w))"

definition calls_of :: "disb_world \<Rightarrow> uuid \<Rightarrow> nat" where
  "calls_of w i = length (filter (\<lambda>a. a = i) (w_calls w))"

definition world_inv :: "disb_world \<Rightarrow> bool" where
  "world_inv w \<longleftrightarrow> disb_inv (w_store w) \<and> (\<forall>i. calls_of w i + unanswered w i \<le> begun (w_store w) i)"

lemma disb_inv_status:
  assumes "disb_inv st" "db_actions st' = map (set_status i c v to) (db_actions st)"
    and "\<And>d. d \<in> set (db_actions st) \<Longrightarrow> begun st' (da_id d) =
      denied st' (da_id d) + (if da_status (set_status i c v to d) \<in> set REATTEMPTABLE_STATUSES then 0 else 1)"
    and "\<And>j. j \<notin> da_id ` set (db_actions st) \<Longrightarrow> begun st' j = begun st j \<and> denied st' j = denied st j"
  shows "disb_inv st'"
proof -
  have ids: "map da_id (db_actions st') = map da_id (db_actions st)" unfolding assms(2) by simp
  then have idset: "da_id ` set (db_actions st') = da_id ` set (db_actions st)" by (metis set_map)
  have "list_all (\<lambda>d. begun st' (da_id d) =
      denied st' (da_id d) + (if da_status d \<in> set REATTEMPTABLE_STATUSES then 0 else 1)) (db_actions st')"
    unfolding assms(2) list.pred_map using assms(3) by (simp add: list_all_set)
  moreover have "j \<in> da_id ` set (db_actions st) \<or> begun st' j = 0 \<and> denied st' j = 0" for j
    using assms(1,4) unfolding disb_inv_def by metis
  ultimately show ?thesis using assms(1) unfolding disb_inv_def ids idset by blast
qed

lemma disb_inv_row:
  "disb_inv st \<Longrightarrow> d \<in> set (db_actions st) \<Longrightarrow>
   begun st (da_id d) = denied st (da_id d) + (if da_status d \<in> set REATTEMPTABLE_STATUSES then 0 else 1)"
  by (simp add: disb_inv_def list_all_set)

lemma disb_inv_unique:
  "disb_inv st \<Longrightarrow> d \<in> set (db_actions st) \<Longrightarrow> d' \<in> set (db_actions st) \<Longrightarrow> da_id d = da_id d' \<Longrightarrow> d = d'"
  by (auto simp: disb_inv_def distinct_map inj_on_def)

lemmas status_sets = REATTEMPTABLE_STATUSES_def RECONCILABLE_STATUSES_def RECONCILIATION_OUTCOMES_def
  ADAPTER_RESULT_STATUSES_def is_execution_transition_allowed_def

lemma create_action_inv:
  assumes "disb_inv st" "create_action text d st = Inr ((row, created), st')" "da_status d = PROPOSED"
  shows "disb_inv st' \<and> begun st' = begun st"
proof (cases created)
  case False
  with create_action_cases [OF assms(2)] assms(1) show ?thesis by simp
next
  case True
  with create_action_cases [OF assms(2)] have new: "db_actions st' = db_actions st @ [d\<lparr>da_created_at := db_clock st\<rparr>]"
    "da_id d \<notin> da_id ` set (db_actions st)" and tally: "begun st' = begun st" "denied st' = denied st"
    by (auto simp: list_all_set)
  have "begun st (da_id d) = 0" "denied st (da_id d) = 0" using assms(1) new(2) by (auto simp: disb_inv_def)
  then have "disb_inv st'"
    using assms(1,3) new(2) unfolding disb_inv_def tally new(1) by (auto simp: status_sets)
  then show ?thesis by (simp add: tally)
qed

lemma begin_attempt_inv:
  assumes "disb_inv st" "begin_attempt i c v key actor role st = Inr st'"
  shows "disb_inv st' \<and> begun st' = (begun st)(i := Suc (begun st i))"
proof -
  from begin_attempt_cases [OF assms(2)] obtain d where d: "d \<in> set (db_actions st)" "hits i c v d"
      "da_status d \<in> set REATTEMPTABLE_STATUSES"
    and allowed: "list_all (\<lambda>d. \<not> hits i c v d \<or> is_execution_transition_allowed (da_status d) EXECUTION_REQUESTED) (db_actions st)"
    and st': "db_actions st' = map (set_status i c v EXECUTION_REQUESTED) (db_actions st)"
      "begun st' = (begun st)(i := Suc (begun st i))" "denied st' = denied st" by blast
  have "disb_inv st'"
  proof (rule disb_inv_status [OF assms(1) st'(1)])
    fix x assume x: "x \<in> set (db_actions st)"
    show "begun st' (da_id x) = denied st' (da_id x) +
        (if da_status (set_status i c v EXECUTION_REQUESTED x) \<in> set REATTEMPTABLE_STATUSES then 0 else 1)"
    proof (cases "da_id x = i")
      case True
      with disb_inv_unique [OF assms(1) x d(1)] d(2) have "x = d" by (simp add: hits_def)
      with disb_inv_row [OF assms(1) x] d st' True show ?thesis by (simp add: set_status_def status_sets)
    next
      case False
      with disb_inv_row [OF assms(1) x] st' show ?thesis by (simp add: set_status_def hits_def)
    qed
  next
    fix j assume "j \<notin> da_id ` set (db_actions st)"
    then show "begun st' j = begun st j \<and> denied st' j = denied st j" using d(1,2) st' by (auto simp: hits_def)
  qed
  with st' show ?thesis by simp
qed

lemma status_inv:
  assumes "disb_inv st" "db_actions st' = map (set_status i c v to) (db_actions st)"
    and allowed: "list_all (\<lambda>d. \<not> hits i c v d \<or> is_execution_transition_allowed (da_status d) to) (db_actions st)"
    and "to \<noteq> EXECUTION_REQUESTED" "begun st' = begun st"
    and "\<And>d. d \<in> set (db_actions st) \<Longrightarrow> denied st' (da_id d) =
      denied st (da_id d) + (if hits i c v d \<and> to = CONFIRMED_NOT_EXECUTED then 1 else 0)"
    and "\<And>j. j \<notin> da_id ` set (db_actions st) \<Longrightarrow> denied st' j = denied st j"
  shows "disb_inv st' \<and> begun st' = begun st"
proof -
  have "disb_inv st'"
  proof (rule disb_inv_status [OF assms(1,2)])
    fix x assume x: "x \<in> set (db_actions st)"
    show "begun st' (da_id x) = denied st' (da_id x) +
        (if da_status (set_status i c v to x) \<in> set REATTEMPTABLE_STATUSES then 0 else 1)"
    proof (cases "hits i c v x")
      case True
      with allowed x have "is_execution_transition_allowed (da_status x) to" by (auto simp: list_all_set)
      then show ?thesis using True assms(4,5) assms(6) [OF x] disb_inv_row [OF assms(1) x]
        by (cases "da_status x"; cases to) (auto simp: set_status_def status_sets)
    next
      case False
      with assms(5) assms(6) [OF x] disb_inv_row [OF assms(1) x] show ?thesis by (simp add: set_status_def)
    qed
  qed (simp add: assms(5,7))
  with assms(5) show ?thesis by simp
qed

lemma finish_attempt_inv:
  assumes "disb_inv st" "finish_attempt i c v r actor role st = Inr (out, st')"
  shows "disb_inv st' \<and> begun st' = begun st"
proof -
  note parts = finish_attempt_cases [OF assms(2)]
  then have "er_result_status r \<noteq> EXECUTION_REQUESTED" "er_result_status r \<noteq> CONFIRMED_NOT_EXECUTED"
    by (auto simp: status_sets)
  with parts show ?thesis by (intro status_inv [OF assms(1), of st' i c v "er_result_status r"]) auto
qed

lemma reconcile_action_inv:
  assumes "disb_inv st" "reconcile_action i c v to rationale actor role st = Inr (d', st')"
  shows "disb_inv st' \<and> begun st' = begun st"
proof -
  note parts = reconcile_action_cases [OF assms(2)]
  then obtain d where d: "d \<in> set (db_actions st)" "hits i c v d" by blast
  have "x = d" if "x \<in> set (db_actions st)" "da_id x = i" for x
    using disb_inv_unique [OF assms(1) that(1) d(1)] d(2) that(2) by (simp add: hits_def)
  with d(2) have hit: "da_id x = i \<longleftrightarrow> hits i c v x" if "x \<in> set (db_actions st)" for x
    using that by (auto simp: hits_def)
  have "denied st' (da_id x) = denied st (da_id x) + (if hits i c v x \<and> to = CONFIRMED_NOT_EXECUTED then 1 else 0)"
    if "x \<in> set (db_actions st)" for x
    using hit [OF that] parts by (cases "da_id x = i") simp_all
  moreover have "denied st' j = denied st j" if "j \<notin> da_id ` set (db_actions st)" for j
    using that d parts by (auto simp: hits_def)
  moreover have "to \<noteq> EXECUTION_REQUESTED" using parts by (auto simp: status_sets)
  ultimately show ?thesis using parts by (intro status_inv [OF assms(1), of st' i c v to]) simp_all
qed

section \<open>Every interleaving\<close>

lemma unanswered_split:
  "w_flights w = fs @ f # gs \<Longrightarrow>
   unanswered w i = unanswered (w\<lparr>w_flights := fs @ gs\<rparr>) i + (if fl_action f = i \<and> fl_receipt f = None then 1 else 0)"
  by (simp add: unanswered_def)

lemma disb_step_inv:
  assumes "disb_step adapter w w'" "world_inv w"
  shows "world_inv w'"
proof -
  have inv: "disb_inv (w_store w)" and bound: "\<And>j. calls_of w j + unanswered w j \<le> begun (w_store w) j"
    using assms(2) by (auto simp: world_inv_def)
  show ?thesis using assms(1)
  proof (cases rule: disb_step.cases)
    case (create amounts i c v decision amount currency beneficiary account actor out st)
    obtain row created where "out = (row, created)" by (cases out)
    with create create_action_inv [OF inv, of amounts] have "disb_inv st" "begun st = begun (w_store w)"
      by (metis new_action_fields)+
    with create bound show ?thesis by (simp add: world_inv_def calls_of_def unanswered_def)
  next
    case (begins i c v key actor role st)
    note step = begin_attempt_inv [OF inv begins(2)]
    have "calls_of w' j + unanswered w' j \<le> begun st j" for j
      using bound [of j] step by (cases "j = i") (simp_all add: begins(1) calls_of_def unanswered_def)
    with step begins(1) show ?thesis by (simp add: world_inv_def)
  next
    case (calls fs f gs)
    have "calls_of w' j + unanswered w' j \<le> begun (w_store w) j" for j
      using bound [of j] calls by (auto simp: calls_of_def unanswered_def)
    with inv calls(1) show ?thesis by (simp add: world_inv_def)
  next
    case (finishes fs f gs r actor role out st)
    note step = finish_attempt_inv [OF inv finishes(4)]
    have "calls_of w' j + unanswered w' j \<le> begun st j" for j
      using bound [of j] step finishes by (auto simp: calls_of_def unanswered_def)
    with step finishes(1) show ?thesis by (simp add: world_inv_def)
  next
    case (loses fs f gs)
    have "calls_of w' j + unanswered w' j \<le> begun (w_store w) j" for j
      using bound [of j] loses by (auto simp: calls_of_def unanswered_def split: if_splits)
    with inv loses(1) show ?thesis by (simp add: world_inv_def)
  next
    case (reconciles i c v out rationale actor role d st)
    note step = reconcile_action_inv [OF inv reconciles(2)]
    with bound reconciles(1) show ?thesis by (simp add: world_inv_def calls_of_def unanswered_def)
  qed
qed

definition initial_world :: "disb_world \<Rightarrow> bool" where
  "initial_world w \<longleftrightarrow> db_actions (w_store w) = [] \<and> db_audit (w_store w) = [] \<and> w_flights w = [] \<and> w_calls w = []"

lemma reachable_inv: "(disb_step adapter)\<^sup>*\<^sup>* w w' \<Longrightarrow> initial_world w \<Longrightarrow> world_inv w'"
proof (induction rule: rtranclp_induct)
  case base
  then show ?case by (simp add: world_inv_def initial_world_def disb_inv_def begun_def denied_def calls_of_def unanswered_def)
next
  case (step y z)
  then show ?case using disb_step_inv by blast
qed

section \<open>Properties\<close>

text \<open>
  C29: No blind retry: in every interleaving the adapter is called for an action at most
  once more than humans have confirmed that an attempt of it did not execute.  (The
  bound is reached while an attempt is in flight: nothing stops the reconciliation of
  an attempt whose call is still running, the witness.)
\<close>

theorem no_blind_retry:
  assumes "initial_world w0" and "(disb_step adapter)\<^sup>*\<^sup>* w0 w"
  shows "calls_of w i \<le> denied (w_store w) i + 1"
proof -
  note inv = reachable_inv [OF assms(2,1)]
  then have "calls_of w i \<le> begun (w_store w) i" unfolding world_inv_def by (meson add_leE)
  moreover have "begun (w_store w) i \<le> denied (w_store w) i + 1"
  proof (cases "i \<in> da_id ` set (db_actions (w_store w))")
    case True
    with inv disb_inv_row [of "w_store w"] show ?thesis by (auto simp: world_inv_def)
  next
    case False
    with inv show ?thesis by (auto simp: world_inv_def disb_inv_def)
  qed
  ultimately show ?thesis by linarith
qed

definition sample_action :: disbursement_action where
  "sample_action = \<lparr>da_id = 4, da_case_id = 2, da_case_version = 1, da_decision_id = 3, da_amount = 100,
     da_currency = ''VND'', da_beneficiary_ref = ''b'', da_account_ref = ''a'', da_status = PROPOSED,
     da_created_by = 50, da_created_at = 9\<rparr>"

definition sample_disb_world :: disb_world where
  "sample_disb_world = \<lparr>w_store = \<lparr>db_actions = [], db_receipts = [], db_audit = [], db_uuids = (\<lambda>n. 100 + n),
     db_drawn = 0, db_clock = 9\<rparr>, w_flights = [], w_calls = []\<rparr>"

definition sample_adapter :: adapter where
  "sample_adapter i key = mock_execute (\<lambda>x. 0) False 5 i key"

lemma begin_single:
  assumes "db_actions st = [d]" "da_status d \<in> set REATTEMPTABLE_STATUSES"
  shows "\<exists>st'. begin_attempt (da_id d) (da_case_id d) (da_case_version d) key actor role st = Inr st' \<and>
    db_actions st' = [d\<lparr>da_status := EXECUTION_REQUESTED\<rparr>]"
  using assms by (auto simp: begin_attempt_def select_for_update_def load_action_def update_status_def Let_def status_sets)

lemma reconcile_single:
  assumes "db_actions st = [d]" "da_status d \<in> set RECONCILABLE_STATUSES"
  shows "\<exists>d' st'. reconcile_action (da_id d) (da_case_id d) (da_case_version d) CONFIRMED_NOT_EXECUTED rationale actor role st =
      Inr (d', st') \<and> db_actions st' = [d\<lparr>da_status := CONFIRMED_NOT_EXECUTED\<rparr>]"
  using assms
  by (auto simp: reconcile_action_def select_for_update_def load_action_def for_version_def update_status_def Let_def status_sets)

lemma sample_race:
  "\<exists>w1 w. disb_step sample_adapter sample_disb_world w1 \<and> (disb_step sample_adapter)\<^sup>*\<^sup>* sample_disb_world w \<and>
     db_actions (w_store w1) = [sample_action] \<and> calls_of w 4 = 2"
proof -
  let ?w0 = sample_disb_world and ?step = "disb_step sample_adapter"
  have ids: "da_id (sample_action\<lparr>da_status := s\<rparr>) = 4" "da_case_id (sample_action\<lparr>da_status := s\<rparr>) = 2"
    "da_case_version (sample_action\<lparr>da_status := s\<rparr>) = 1" for s by (simp_all add: sample_action_def)
  obtain st1 where made: "create_action (\<lambda>x. []) (new_action 4 2 1 3 100 ''VND'' ''b'' ''a'' 50) (w_store ?w0) =
      Inr ((sample_action, True), st1)" and st1: "db_actions st1 = [sample_action]"
    by (simp add: create_action_def valid_action_def action_row_checks_def row_text_simps sample_action_def sample_disb_world_def
        new_action_def for_version_def Let_def)
  from create [OF made] have s1: "?step ?w0 (?w0\<lparr>w_store := st1\<rparr>)" .
  from begin_single [OF st1, of "''k1''" 60 "''OPS_CHECKER''"] obtain st2 where
    "begin_attempt 4 2 1 ''k1'' 60 ''OPS_CHECKER'' st1 = Inr st2"
    and st2: "db_actions st2 = [sample_action\<lparr>da_status := EXECUTION_REQUESTED\<rparr>]"
    by (auto simp: sample_action_def status_sets)
  then have s2: "?step (?w0\<lparr>w_store := st1\<rparr>) (?w0\<lparr>w_store := st2, w_flights :=
      [\<lparr>fl_action = 4, fl_case = 2, fl_version = 1, fl_key = ''k1'', fl_receipt = None\<rparr>]\<rparr>)" (is "disb_step _ _ ?w2")
    using begins [of 4 2 1 "''k1''" 60 "''OPS_CHECKER''" "?w0\<lparr>w_store := st1\<rparr>" st2] by (simp add: sample_disb_world_def)
  from reconcile_single [OF st2, of "''none moved''" 60 "''OPS_CHECKER''"] obtain d st3 where
    "reconcile_action 4 2 1 CONFIRMED_NOT_EXECUTED ''none moved'' 60 ''OPS_CHECKER'' st2 = Inr (d, st3)"
    and st3: "db_actions st3 = [sample_action\<lparr>da_status := CONFIRMED_NOT_EXECUTED\<rparr>]"
    unfolding ids by (auto simp: status_sets)
  then have s3: "?step ?w2 (?w2\<lparr>w_store := st3\<rparr>)" by (intro reconciles) simp
  from begin_single [OF st3, of "''k2''" 60 "''OPS_CHECKER''"] obtain st4 where
    "begin_attempt 4 2 1 ''k2'' 60 ''OPS_CHECKER'' st3 = Inr st4"
    unfolding ids by (auto simp: status_sets)
  then have s4: "?step (?w2\<lparr>w_store := st3\<rparr>) (?w0\<lparr>w_store := st4, w_flights :=
      [\<lparr>fl_action = 4, fl_case = 2, fl_version = 1, fl_key = ''k1'', fl_receipt = None\<rparr>,
       \<lparr>fl_action = 4, fl_case = 2, fl_version = 1, fl_key = ''k2'', fl_receipt = None\<rparr>]\<rparr>)" (is "disb_step _ _ ?w4")
    using begins [of 4 2 1 "''k2''" 60 "''OPS_CHECKER''" "?w2\<lparr>w_store := st3\<rparr>" st4] by simp
  let ?f1 = "\<lparr>fl_action = 4, fl_case = 2, fl_version = 1, fl_key = ''k1'', fl_receipt = None\<rparr>"
  let ?f2 = "\<lparr>fl_action = 4, fl_case = 2, fl_version = 1, fl_key = ''k2'', fl_receipt = None\<rparr>"
  let ?g1 = "?f1\<lparr>fl_receipt := Some (sample_adapter (fl_action ?f1) (fl_key ?f1))\<rparr>"
  let ?w5 = "?w4\<lparr>w_flights := [] @ ?g1 # [?f2], w_calls := w_calls ?w4 @ [fl_action ?f1]\<rparr>"
  have s5: "?step ?w4 ?w5" by (rule calls) simp_all
  let ?w6 = "?w5\<lparr>w_flights := [?g1] @ ?f2\<lparr>fl_receipt := Some (sample_adapter (fl_action ?f2) (fl_key ?f2))\<rparr> # [],
    w_calls := w_calls ?w5 @ [fl_action ?f2]\<rparr>"
  have s6: "?step ?w5 ?w6" by (rule calls) simp_all
  from s1 s2 s3 s4 s5 s6 have "?step\<^sup>*\<^sup>* ?w0 ?w6"
    by (meson converse_rtranclp_into_rtranclp rtranclp.rtrancl_refl)
  moreover have "calls_of ?w6 4 = 2" by (simp add: calls_of_def sample_disb_world_def)
  moreover have "db_actions (w_store (?w0\<lparr>w_store := st1\<rparr>)) = [sample_action]" using st1 by simp
  ultimately show ?thesis using s1 by blast
qed

lemma sample_initial: "initial_world sample_disb_world"
  by (simp add: initial_world_def sample_disb_world_def)

theorem no_blind_retry_witness:
  "\<exists>w. (disb_step sample_adapter)\<^sup>*\<^sup>* sample_disb_world w \<and> calls_of w 4 = 2 \<and> 1 \<le> denied (w_store w) 4"
proof -
  obtain w where run: "(disb_step sample_adapter)\<^sup>*\<^sup>* sample_disb_world w" "calls_of w 4 = 2" using sample_race by blast
  from no_blind_retry [OF sample_initial run(1), of 4] run show ?thesis by auto
qed

end
