(* ===== verification/Disbursement_Api.thy ===== *)
theory Disbursement_Api
  imports Disbursements Postgres_Orchestration Dispatch
begin

text \<open>
  The handlers of \<open>api/disbursements.py\<close>: they read the decision and the gates of the
  orchestration, write the human gates, and drive the disbursement store.  Every call
  of a repository is a transaction of its own; between any two of them the rest of the
  system may act, \<open>de_others\<close> gives what happens before the n-th.  The calls of the
  execution adapter are kept in a log.
\<close>

section \<open>The world of a request\<close>

record 'o disb_api =
  ap_orch :: 'o
  ap_disb :: disb_store
  ap_ticks :: nat
  ap_calls :: "(uuid \<times> uuid) list"

record approved_terms =
  at_amount :: "decimal option"
  at_currency :: "string option"

record 'o disb_env =
  de_repo :: "'o orch_repo"
  de_assigned :: "'o \<Rightarrow> assignments"
  de_decisions :: "uuid \<Rightarrow> int \<Rightarrow> (credit_decision \<times> approved_terms option) option"
  de_text :: "decimal \<Rightarrow> string"
  de_adapter :: adapter
  de_kickoff :: "nat \<Rightarrow> kickoff_env"
  de_dispatch :: "'o \<Rightarrow> 'o"
  de_uuid :: "nat \<Rightarrow> uuid"
  de_others :: "nat \<Rightarrow> 'o \<times> disb_store \<Rightarrow> 'o \<times> disb_store"

datatype disb_api_error = GateFailure store_error | StoreRefused disb_error

type_synonym ('o, 'a) disb_handler = "('o disb_api, disb_api_error api_error, 'a) act"

definition interfere :: "'o disb_env \<Rightarrow> 'o disb_api \<Rightarrow> 'o disb_api" where
  "interfere env w =
     (case de_others env (ap_ticks w) (ap_orch w, ap_disb w) of (orch, disb) \<Rightarrow>
        w\<lparr>ap_orch := orch, ap_disb := disb, ap_ticks := Suc (ap_ticks w)\<rparr>)"

definition on_orch :: "'o disb_env \<Rightarrow> ('o, 'e, 'a) act \<Rightarrow> ('o disb_api, 'e, 'a) act" where
  "on_orch env m w =
     (let w' = interfere env w in case m (ap_orch w') of (r, orch) \<Rightarrow> (r, w'\<lparr>ap_orch := orch\<rparr>))"

definition on_disb :: "'o disb_env \<Rightarrow> (disb_store, 'e, 'a) act \<Rightarrow> ('o disb_api, 'e, 'a) act" where
  "on_disb env m w =
     (let w' = interfere env w in case m (ap_disb w') of (r, disb) \<Rightarrow> (r, w'\<lparr>ap_disb := disb\<rparr>))"

definition uuid4 :: "'o disb_env \<Rightarrow> ('o disb_api, 'e, uuid) act" where
  "uuid4 env w = (Inr (de_uuid env (ap_ticks w)), w\<lparr>ap_ticks := Suc (ap_ticks w)\<rparr>)"

section \<open>Helpers\<close>

definition case_access :: "'o disb_env \<Rightarrow> actor \<Rightarrow> uuid \<Rightarrow> ('o, int) disb_handler" where
  "case_access env a c =
     and_then (on_orch env (reading (de_assigned env))) (\<lambda>assigned. assert_case_access assigned a c)"

definition load_action_or_404 ::
  "'o disb_env \<Rightarrow> uuid \<Rightarrow> uuid \<Rightarrow> int \<Rightarrow> ('o, disbursement_action) disb_handler" where
  "load_action_or_404 env i c v =
     and_then (on_disb env (reading (load_action i c v)))
       (found (ApiException 404 ''DISBURSEMENT_ACTION_NOT_FOUND''))"

definition gate_for :: "snapshot option \<Rightarrow> gate_type \<Rightarrow> int \<Rightarrow> gate_record option" where
  "gate_for snapshot g v =
     (case snapshot of None \<Rightarrow> None
      | Some sn \<Rightarrow> find (\<lambda>r. gr_gate_type r = g \<and> gr_case_version r = v \<and> gr_status r = SATISFIED) (sn_gates sn))"

definition read_gates :: "'o disb_env \<Rightarrow> uuid \<Rightarrow> ('o, snapshot option) disb_handler" where
  "read_gates env c = on_orch env (reading (rp_load_snapshot (de_repo env) c))"

section \<open>Creating an action\<close>

record create_disbursement_request =
  dq_amount :: "decimal decimal_text option"
  dq_currency :: "string option"
  dq_beneficiary_ref :: string
  dq_account_ref :: string

definition terms_of_decision :: "(credit_decision \<times> approved_terms option) \<Rightarrow> decimal option \<times> string option" where
  "terms_of_decision decision =
     (case snd decision of None \<Rightarrow> (None, None) | Some t \<Rightarrow> (at_amount t, at_currency t))"

definition resolve_amount ::
  "decimal decimal_text option \<Rightarrow> decimal option \<Rightarrow> ('o, decimal) disb_handler" where
  "resolve_amount raw approved =
     (case raw of
        Some t \<Rightarrow> (case parse_exact_amount t of
                     Inl e \<Rightarrow> raise (ApiException 422 ''INVALID_AMOUNT'')
                   | Inr x \<Rightarrow> ret x)
      | None \<Rightarrow> found (ApiException 422 ''AMOUNT_REQUIRED'') approved)"

text \<open>\<open>body.currency or approved_currency\<close>\<close>

definition resolve_currency :: "string option \<Rightarrow> string option \<Rightarrow> string option" where
  "resolve_currency wanted approved =
     (case wanted of None \<Rightarrow> approved | Some s \<Rightarrow> if s = [] then approved else Some s)"

fun terms_refused :: "amount_error \<Rightarrow> disb_api_error api_error" where
  "terms_refused CurrencyMismatch = ApiException 422 ''CURRENCY_MISMATCH''"
| "terms_refused AmountExceedsApproved = ApiException 422 ''AMOUNT_EXCEEDS_APPROVED''"
| "terms_refused InvalidAmount = ApiException 422 ''INVALID_AMOUNT''"

definition check_terms ::
  "decimal \<Rightarrow> string \<Rightarrow> decimal option \<Rightarrow> string option \<Rightarrow> ('o, unit) disb_handler" where
  "check_terms amount currency approved_amount approved_currency =
     (case validate_amount_against_terms amount currency approved_amount approved_currency of
        Inl e \<Rightarrow> raise (terms_refused e)
      | Inr u \<Rightarrow> ret u)"

definition create_disbursement ::
  "'o disb_env \<Rightarrow> uuid \<Rightarrow> create_disbursement_request \<Rightarrow> actor \<Rightarrow>
   ('o, disbursement_action \<times> bool) disb_handler" where
  "create_disbursement env c body a =
     and_then (require_role a OPS_OFFICER_ROLE) (\<lambda>_.
     and_then (case_access env a c) (\<lambda>version.
     let decided = de_decisions env c version in
     and_then (check_act (permits (map_option fst decided))
       (ApiException 409 ''DISBURSEMENT_REQUIRES_APPROVAL_DECISION'')) (\<lambda>_.
     and_then (read_gates env c) (\<lambda>snapshot.
     and_then (check_act (gate_for snapshot HG_DISBURSEMENT_CONDITIONS_CONFIRMED version \<noteq> None)
       (ApiException 409 ''DISBURSEMENT_CONDITIONS_NOT_CONFIRMED'')) (\<lambda>_.
     let (approved_amount, approved_currency) = terms_of_decision (the decided) in
     and_then (resolve_amount (dq_amount body) approved_amount) (\<lambda>amount.
     and_then (found (ApiException 422 ''CURRENCY_REQUIRED'')
       (resolve_currency (dq_currency body) approved_currency)) (\<lambda>currency.
     and_then (check_terms amount currency approved_amount approved_currency) (\<lambda>_.
     and_then (uuid4 env) (\<lambda>i.
     let d = new_action i c version (cd_id (fst (the decided))) amount currency (dq_beneficiary_ref body)
               (dq_account_ref body) (ac_actor_id a) in
     and_then (check_act (valid_action d) (ApiException 422 ''INVALID_DISBURSEMENT'')) (\<lambda>_.
     on_error (\<lambda>e. Uncaught (StoreRefused e)) (on_disb env (atomically (create_action (de_text env) d)))))))))))))"

section \<open>The two gates\<close>

definition disb_audit_event ::
  "uuid \<Rightarrow> int \<Rightarrow> string \<Rightarrow> uuid \<Rightarrow> uuid \<Rightarrow> uuid \<Rightarrow> orchestration_audit_event" where
  "disb_audit_event c v event i execution actor =
     \<lparr>ae_case_id = c, ae_case_version = v, ae_event_type = event, ae_execution_id = execution,
      ae_artifact_type = ''PROPOSED_DISBURSEMENT_ACTION'', ae_artifact_id = i,
      ae_event_data = [(''actorId'', JStr (str_uuid actor))]\<rparr>"

text \<open>Every failure of the tick is logged and swallowed; what it has committed stays.\<close>

definition retick :: "'o disb_env \<Rightarrow> uuid \<Rightarrow> string \<Rightarrow> ('o disb_api, 'e, unit) act" where
  "retick env c trigger w =
     attempt
       (and_then (on_orch env (kickoff (de_repo env) (de_kickoff env (ap_ticks w)) c (Some trigger))) (\<lambda>_.
        on_orch env (\<lambda>orch. (Inr (), de_dispatch env orch))))
       (\<lambda>_. ret ()) w"

record gate_write =
  gw_gate :: gate_type
  gw_action_id :: uuid
  gw_disposition_ref :: string

text \<open>The second half that the two handlers share.\<close>

definition satisfy_gate ::
  "'o disb_env \<Rightarrow> uuid \<Rightarrow> int \<Rightarrow> gate_type \<Rightarrow> uuid \<Rightarrow> string \<Rightarrow> string \<Rightarrow> string \<Rightarrow> actor \<Rightarrow>
   ('o, gate_write) disb_handler" where
  "satisfy_gate env c v g i ref event trigger a =
     and_then (on_error (\<lambda>e. Uncaught (GateFailure e))
       (on_orch env (rp_ensure_gate (de_repo env) c v g SATISFIED (Some (ac_actor_id a)) (Some ref)))) (\<lambda>_.
     and_then (uuid4 env) (\<lambda>x.
     and_then (on_error (\<lambda>e. Uncaught (GateFailure e))
       (on_orch env (rp_append_audit (de_repo env) (disb_audit_event c v event i x (ac_actor_id a))))) (\<lambda>_.
     and_then (retick env c trigger) (\<lambda>_.
     ret \<lparr>gw_gate = g, gw_action_id = i, gw_disposition_ref = ref\<rparr>))))"

definition validate_disbursement :: "'o disb_env \<Rightarrow> uuid \<Rightarrow> uuid \<Rightarrow> actor \<Rightarrow> ('o, gate_write) disb_handler" where
  "validate_disbursement env c i a =
     and_then (require_role a OPS_CHECKER_ROLE) (\<lambda>_.
     and_then (case_access env a c) (\<lambda>version.
     and_then (load_action_or_404 env i c version) (\<lambda>_.
     satisfy_gate env c version HG_DISBURSEMENT_VALIDATED i
       (''proposed-disbursement-validated:'' @ str_uuid i) ''DISBURSEMENT_VALIDATED'' (''HG_DISB_V:'' @ str_uuid i) a)))"

definition authorize_disbursement :: "'o disb_env \<Rightarrow> uuid \<Rightarrow> uuid \<Rightarrow> actor \<Rightarrow> ('o, gate_write) disb_handler" where
  "authorize_disbursement env c i a =
     and_then (require_role a OPS_CHECKER_ROLE) (\<lambda>_.
     and_then (case_access env a c) (\<lambda>version.
     and_then (load_action_or_404 env i c version) (\<lambda>_.
     and_then (read_gates env c) (\<lambda>snapshot.
     and_then (found (ApiException 409 ''VALIDATION_REQUIRED'') (gate_for snapshot HG_DISBURSEMENT_VALIDATED version))
       (\<lambda>validated.
     and_then (check_act (gr_satisfied_by validated \<noteq> Some (ac_actor_id a)) (ApiException 409 ''SAME_ACTOR_FORBIDDEN''))
       (\<lambda>_.
     satisfy_gate env c version HG_DISBURSEMENT_AUTHORIZED i
       (''proposed-disbursement-authorized:'' @ str_uuid i) ''DISBURSEMENT_AUTHORIZED'' (''HG_DISB_A:'' @ str_uuid i) a))))))"

section \<open>Executing and reconciling\<close>

fun execution_refused :: "disb_error \<Rightarrow> disb_api_error api_error" where
  "execution_refused (ReconciliationRequired s) = ApiException 409 ''RECONCILIATION_REQUIRED''"
| "execution_refused (AlreadyExecuted i) = ApiException 409 ''ALREADY_EXECUTED''"
| "execution_refused (DisbursementActionNotFound i) = ApiException 404 ''DISBURSEMENT_ACTION_NOT_FOUND''"
| "execution_refused e = Uncaught (StoreRefused e)"

text \<open>\<open>execute_action\<close> of the adapter in the world: its call is logged between the transactions.\<close>

definition call_adapter :: "'o disb_env \<Rightarrow> uuid \<Rightarrow> string \<Rightarrow> uuid \<Rightarrow> ('o disb_api, 'e, execution_receipt) act" where
  "call_adapter env i key actor w =
     (Inr (de_adapter env i key), w\<lparr>ap_calls := ap_calls w @ [(i, actor)]\<rparr>)"

definition run_execution ::
  "'o disb_env \<Rightarrow> uuid \<Rightarrow> uuid \<Rightarrow> int \<Rightarrow> string \<Rightarrow> uuid \<Rightarrow>
   ('o disb_api, disb_error, disbursement_action \<times> receipt_row) act" where
  "run_execution env i c v key actor =
     and_then (on_disb env (transact (begin_attempt i c v key actor OPS_CHECKER_ROLE))) (\<lambda>_.
     and_then (call_adapter env i key actor) (\<lambda>receipt.
     on_disb env (atomically (finish_attempt i c v receipt actor OPS_CHECKER_ROLE))))"

definition execute_disbursement ::
  "'o disb_env \<Rightarrow> uuid \<Rightarrow> uuid \<Rightarrow> actor \<Rightarrow> ('o, disbursement_action \<times> receipt_row) disb_handler" where
  "execute_disbursement env c i a =
     and_then (require_role a OPS_CHECKER_ROLE) (\<lambda>_.
     and_then (case_access env a c) (\<lambda>version.
     and_then (load_action_or_404 env i c version) (\<lambda>d.
     and_then (read_gates env c) (\<lambda>snapshot.
     and_then (check_act (gate_for snapshot HG_DISBURSEMENT_VALIDATED version \<noteq> None \<and>
         gate_for snapshot HG_DISBURSEMENT_AUTHORIZED version \<noteq> None)
       (ApiException 409 ''DISBURSEMENT_NOT_AUTHORIZED'')) (\<lambda>_.
     and_then (check_act (da_created_by d \<noteq> ac_actor_id a) (ApiException 409 ''SAME_ACTOR_FORBIDDEN'')) (\<lambda>_.
     and_then (uuid4 env) (\<lambda>key.
     on_error execution_refused (run_execution env i c version (hex_digits 32 key) (ac_actor_id a)))))))))"

record reconcile_request =
  rc_outcome :: string
  rc_rationale :: string

fun reconciliation_refused :: "disb_error \<Rightarrow> disb_api_error api_error" where
  "reconciliation_refused (NotReconcilable s) = ApiException 409 ''NOT_RECONCILABLE''"
| "reconciliation_refused (DisbursementActionNotFound i) = ApiException 404 ''DISBURSEMENT_ACTION_NOT_FOUND''"
| "reconciliation_refused e = Uncaught (StoreRefused e)"

definition reconcile_disbursement ::
  "'o disb_env \<Rightarrow> uuid \<Rightarrow> uuid \<Rightarrow> reconcile_request \<Rightarrow> actor \<Rightarrow> ('o, disbursement_action) disb_handler" where
  "reconcile_disbursement env c i body a =
     and_then (require_role a OPS_CHECKER_ROLE) (\<lambda>_.
     and_then (case_access env a c) (\<lambda>version.
     and_then (load_action_or_404 env i c version) (\<lambda>_.
     and_then (found (ApiException 422 ''INVALID_OUTCOME'') (execution_status_of (rc_outcome body))) (\<lambda>out.
     and_then (check_act (out \<in> {CONFIRMED_EXECUTED, CONFIRMED_NOT_EXECUTED}) (ApiException 422 ''INVALID_OUTCOME''))
       (\<lambda>_.
     on_error reconciliation_refused (on_disb env
       (atomically (reconcile_action i c version out (rc_rationale body) (ac_actor_id a) OPS_CHECKER_ROLE))))))))"

section \<open>Listing\<close>

record action_detail =
  ad_action :: disbursement_action
  ad_receipts :: "receipt_row list"
  ad_validated :: gate_status
  ad_authorized :: gate_status

definition gate_shown :: "snapshot option \<Rightarrow> gate_type \<Rightarrow> int \<Rightarrow> gate_status" where
  "gate_shown snapshot g v = (if gate_for snapshot g v \<noteq> None then SATISFIED else OPEN)"

definition list_disbursements ::
  "'o disb_env \<Rightarrow> uuid \<Rightarrow> actor \<Rightarrow> ('o, action_detail list \<times> int) disb_handler" where
  "list_disbursements env c a =
     and_then (require_reader (CASE_PARTICIPANT_ROLES @ [OPS_CHECKER_ROLE]) a) (\<lambda>_.
     and_then (case_access env a c) (\<lambda>version.
     and_then (on_disb env (reading (list_actions c))) (\<lambda>actions.
     and_then (read_gates env c) (\<lambda>snapshot.
     and_then (act_map (\<lambda>d.
         and_then (on_disb env (reading (list_receipts (da_id d)))) (\<lambda>receipts.
         ret \<lparr>ad_action = d, ad_receipts = receipts,
              ad_validated = gate_shown snapshot HG_DISBURSEMENT_VALIDATED (da_case_version d),
              ad_authorized = gate_shown snapshot HG_DISBURSEMENT_AUTHORIZED (da_case_version d)\<rparr>)) actions)
       (\<lambda>details. ret (details, version))))))"

end
