(* ===== verification/Disbursement_Safety.thy ===== *)
theory Disbursement_Safety
  imports Disbursement_Api "HOL-Library.Sublist"
begin

text \<open>
  Segregation of duties over the whole system: whatever the rest of the system does
  between the transactions of a handler, a disbursement is authorized by somebody
  other than its validator, and executed only after both and not by its maker.
\<close>

section \<open>What holds of the gates\<close>

definition two_people :: "snapshot \<Rightarrow> bool" where
  "two_people sn \<longleftrightarrow>
     (case stored_gate sn HG_DISBURSEMENT_AUTHORIZED of
        None \<Rightarrow> True
      | Some r \<Rightarrow> gr_status r = OPEN \<or>
          (case stored_gate sn HG_DISBURSEMENT_VALIDATED of
             None \<Rightarrow> False
           | Some r' \<Rightarrow> gr_status r' = SATISFIED \<and> gr_satisfied_by r' \<noteq> gr_satisfied_by r))"

text \<open>Versions only grow, and within a version a satisfied gate is final.\<close>

definition gates_settle :: "snapshot \<Rightarrow> snapshot \<Rightarrow> bool" where
  "gates_settle sn sn' \<longleftrightarrow> sn_case_version sn \<le> sn_case_version sn' \<and>
     (sn_case_version sn = sn_case_version sn' \<longrightarrow>
        (\<forall>g r. stored_gate sn g = Some r \<longrightarrow> gr_status r = SATISFIED \<longrightarrow> stored_gate sn' g = Some r))"

definition gates_grow :: "'o orch_repo \<Rightarrow> 'o \<Rightarrow> 'o \<Rightarrow> bool" where
  "gates_grow repo s s' \<longleftrightarrow>
     (\<forall>c sn. rp_load_snapshot repo c s = Some sn \<longrightarrow>
        (\<exists>sn'. rp_load_snapshot repo c s' = Some sn' \<and> gates_settle sn sn'))"

definition orch_sound :: "'o orch_repo \<Rightarrow> ('o \<Rightarrow> bool) \<Rightarrow> 'o \<Rightarrow> bool" where
  "orch_sound repo good s \<longleftrightarrow> good s \<and> (\<forall>c sn. rp_load_snapshot repo c s = Some sn \<longrightarrow> two_people sn)"

text \<open>Nothing of an action but its status changes, and no action disappears.\<close>

definition terms_kept :: "disb_store \<Rightarrow> disb_store \<Rightarrow> bool" where
  "terms_kept d d' \<longleftrightarrow> prefix (map (\<lambda>x. x\<lparr>da_status := PROPOSED\<rparr>) (db_actions d))
     (map (\<lambda>x. x\<lparr>da_status := PROPOSED\<rparr>) (db_actions d'))"

text \<open>The rest of the system keeps to these rules.\<close>

definition others_steady :: "('o \<Rightarrow> bool) \<Rightarrow> 'o disb_env \<Rightarrow> bool" where
  "others_steady good env \<longleftrightarrow>
     (\<forall>k orch disb. orch_sound (de_repo env) good orch \<longrightarrow>
        (case de_others env k (orch, disb) of (orch', disb') \<Rightarrow>
           orch_sound (de_repo env) good orch' \<and> gates_grow (de_repo env) orch orch' \<and> terms_kept disb disb'))"

text \<open>
  A step of a handler that keeps to the same rules and does not call the adapter, and
  the facts about the world that no such step can falsify.
\<close>

definition well_behaved :: "('o \<Rightarrow> bool) \<Rightarrow> 'o disb_env \<Rightarrow> ('o disb_api, 'e, 'a) act \<Rightarrow> bool" where
  "well_behaved good env m \<longleftrightarrow>
     (\<forall>w. orch_sound (de_repo env) good (ap_orch w) \<longrightarrow>
        (case m w of (res, w') \<Rightarrow>
           orch_sound (de_repo env) good (ap_orch w') \<and> gates_grow (de_repo env) (ap_orch w) (ap_orch w') \<and>
           terms_kept (ap_disb w) (ap_disb w') \<and> ap_calls w' = ap_calls w))"

definition stable :: "'o disb_env \<Rightarrow> ('o disb_api \<Rightarrow> bool) \<Rightarrow> bool" where
  "stable env X \<longleftrightarrow>
     (\<forall>w w'. X w \<longrightarrow> gates_grow (de_repo env) (ap_orch w) (ap_orch w') \<longrightarrow> terms_kept (ap_disb w) (ap_disb w') \<longrightarrow>
        ap_calls w' = ap_calls w \<longrightarrow> X w')"

definition sound_with :: "('o \<Rightarrow> bool) \<Rightarrow> 'o disb_env \<Rightarrow> ('o disb_api \<Rightarrow> bool) \<Rightarrow> 'o disb_api \<Rightarrow> bool" where
  "sound_with good env X w \<longleftrightarrow> orch_sound (de_repo env) good (ap_orch w) \<and> X w"

text \<open>
  Facts of this kind: the version is reached, an action has its terms, and - for the writes
  of a handler whose version may be outdated by then - a gate of version \<open>v\<close> is satisfied
  for as long as the case stays at \<open>v\<close> (once it has moved on, nothing is said).
\<close>

definition reached :: "'o disb_env \<Rightarrow> uuid \<Rightarrow> int \<Rightarrow> 'o disb_api \<Rightarrow> bool" where
  "reached env c v w \<longleftrightarrow>
     (\<exists>sn. rp_load_snapshot (de_repo env) c (ap_orch w) = Some sn \<and> v \<le> sn_case_version sn)"

definition holds_gate :: "'o disb_env \<Rightarrow> uuid \<Rightarrow> int \<Rightarrow> gate_type \<Rightarrow> gate_record \<Rightarrow> 'o disb_api \<Rightarrow> bool" where
  "holds_gate env c v g r w \<longleftrightarrow> gr_status r = SATISFIED \<and>
     (\<exists>sn. rp_load_snapshot (de_repo env) c (ap_orch w) = Some sn \<and> v \<le> sn_case_version sn \<and>
        (v = sn_case_version sn \<longrightarrow> stored_gate sn g = Some r))"

definition has_terms :: "disbursement_action \<Rightarrow> 'o disb_api \<Rightarrow> bool" where
  "has_terms d w \<longleftrightarrow>
     list_ex (\<lambda>x. x\<lparr>da_status := PROPOSED\<rparr> = d\<lparr>da_status := PROPOSED\<rparr>) (db_actions (ap_disb w))"

definition since :: "'o disb_env \<Rightarrow> 'o disb_api \<Rightarrow> 'o disb_api \<Rightarrow> bool" where
  "since env w0 w \<longleftrightarrow> gates_grow (de_repo env) (ap_orch w0) (ap_orch w) \<and> terms_kept (ap_disb w0) (ap_disb w)"

lemma gates_settle_refl: "gates_settle sn sn"
  by (simp add: gates_settle_def)

lemma gates_settle_trans: "gates_settle sn sn' \<Longrightarrow> gates_settle sn' sn'' \<Longrightarrow> gates_settle sn sn''"
  by (auto simp: gates_settle_def)

lemma gates_grow_refl: "gates_grow repo s s"
  by (auto simp: gates_grow_def gates_settle_refl)

lemma gates_grow_trans: "gates_grow repo s s' \<Longrightarrow> gates_grow repo s' s'' \<Longrightarrow> gates_grow repo s s''"
  unfolding gates_grow_def using gates_settle_trans by blast

lemma terms_kept_refl: "terms_kept d d"
  by (simp add: terms_kept_def)

lemma terms_kept_trans: "terms_kept d d' \<Longrightarrow> terms_kept d' d'' \<Longrightarrow> terms_kept d d''"
  unfolding terms_kept_def by (rule prefix_order.trans)

lemma terms_kept_status:
  "db_actions d' = map (set_status i c v to) (db_actions d) \<Longrightarrow> terms_kept d d'"
proof -
  assume *: "db_actions d' = map (set_status i c v to) (db_actions d)"
  have "(set_status i c v to x)\<lparr>da_status := PROPOSED\<rparr> = x\<lparr>da_status := PROPOSED\<rparr>" for x
    by (simp add: set_status_def)
  with * show ?thesis by (simp add: terms_kept_def o_def)
qed

lemma terms_kept_create:
  "create_action amounts x d = Inr ((row, created), d') \<Longrightarrow> terms_kept d d'"
  using create_action_cases [of amounts x d row created d'] by (auto simp: terms_kept_def split: if_splits)

lemma terms_kept_begin: "begin_attempt i c v key actor role d = Inr d' \<Longrightarrow> terms_kept d d'"
  using begin_attempt_cases [of i c v key actor role d d'] by (blast intro: terms_kept_status)

lemma terms_kept_finish: "finish_attempt i c v r actor role d = Inr (out, d') \<Longrightarrow> terms_kept d d'"
  using finish_attempt_cases [of i c v r actor role d out d'] by (blast intro: terms_kept_status)

lemma terms_kept_reconcile: "reconcile_action i c v to rationale actor role d = Inr (x, d') \<Longrightarrow> terms_kept d d'"
  using reconcile_action_cases [of i c v to rationale actor role d x d'] by (blast intro: terms_kept_status)

lemmas store_keeps_terms = terms_kept_create terms_kept_begin terms_kept_finish terms_kept_reconcile


text \<open>
  Who stands behind a call of the adapter: in the world \<open>w\<close> the case is at version \<open>v\<close>, both
  gates of that version are satisfied, by two different people, and the action \<open>d\<close> of this
  version was made by somebody other than the actor.
\<close>

definition cleared :: "'o disb_env \<Rightarrow> uuid \<Rightarrow> uuid \<Rightarrow> int \<Rightarrow> disbursement_action \<Rightarrow> uuid \<Rightarrow> 'o disb_api \<Rightarrow> bool" where
  "cleared env c i v d actor w \<longleftrightarrow>
     has_terms d w \<and> hits i c v d \<and> da_created_by d \<noteq> actor \<and>
     (\<exists>sn r r'. rp_load_snapshot (de_repo env) c (ap_orch w) = Some sn \<and> sn_case_version sn = v \<and>
        stored_gate sn HG_DISBURSEMENT_VALIDATED = Some r \<and> gr_status r = SATISFIED \<and>
        stored_gate sn HG_DISBURSEMENT_AUTHORIZED = Some r' \<and> gr_status r' = SATISFIED \<and>
        gr_satisfied_by r \<noteq> gr_satisfied_by r')"

text \<open>The execution up to the moment at which it has read the gates, and what it does from there.\<close>

definition read_clearance ::
  "'o disb_env \<Rightarrow> uuid \<Rightarrow> uuid \<Rightarrow> actor \<Rightarrow> ('o, int \<times> disbursement_action \<times> snapshot option) disb_handler" where
  "read_clearance env c i a =
     and_then (require_role a OPS_CHECKER_ROLE) (\<lambda>_.
     and_then (case_access env a c) (\<lambda>version.
     and_then (load_action_or_404 env i c version) (\<lambda>d.
     and_then (read_gates env c) (\<lambda>snapshot. ret (version, d, snapshot)))))"

definition execute_cleared ::
  "'o disb_env \<Rightarrow> uuid \<Rightarrow> uuid \<Rightarrow> actor \<Rightarrow> int \<times> disbursement_action \<times> snapshot option \<Rightarrow>
   ('o, disbursement_action \<times> receipt_row) disb_handler" where
  "execute_cleared env c i a = (\<lambda>(version, d, snapshot).
     and_then (check_act (gate_for snapshot HG_DISBURSEMENT_VALIDATED version \<noteq> None \<and>
         gate_for snapshot HG_DISBURSEMENT_AUTHORIZED version \<noteq> None)
       (ApiException 409 ''DISBURSEMENT_NOT_AUTHORIZED'')) (\<lambda>_.
     and_then (check_act (da_created_by d \<noteq> ac_actor_id a) (ApiException 409 ''SAME_ACTOR_FORBIDDEN'')) (\<lambda>_.
     and_then (uuid4 env) (\<lambda>key.
     on_error execution_refused (run_execution env i c version (hex_digits 32 key) (ac_actor_id a))))))"

lemma and_then_assoc: "and_then (and_then m f) g = and_then m (\<lambda>x. and_then (f x) g)"
  by (rule ext) (simp add: and_then_def split: prod.split sum.split)

lemma and_then_ret: "and_then (ret x) f = f x"
  by (rule ext) simp

lemma execute_disbursement_parts:
  "execute_disbursement env c i a = and_then (read_clearance env c i a) (execute_cleared env c i a)"
  by (simp add: execute_disbursement_def read_clearance_def execute_cleared_def and_then_assoc and_then_ret)

section \<open>Stable facts\<close>

lemma stable_conj [intro]: "stable env X \<Longrightarrow> stable env Y \<Longrightarrow> stable env (\<lambda>w. X w \<and> Y w)"
  unfolding stable_def by blast

lemma stable_imp [intro]: "stable env X \<Longrightarrow> stable env (\<lambda>w. b \<longrightarrow> X w)"
  unfolding stable_def by blast

lemma stable_all: "(\<And>x. stable env (X x)) \<Longrightarrow> stable env (\<lambda>w. \<forall>x. X x w)"
  unfolding stable_def by blast

lemma stable_ex: "(\<And>x. stable env (X x)) \<Longrightarrow> stable env (\<lambda>w. \<exists>x. X x w)"
  unfolding stable_def by blast

lemma stable_const [intro]: "stable env (\<lambda>w. b)"
  by (simp add: stable_def)

lemma stable_calls [intro]: "stable env (\<lambda>w. ap_calls w = cs)"
  by (simp add: stable_def)

lemma stable_since [intro]: "stable env (since env w0)"
  unfolding stable_def since_def using gates_grow_trans terms_kept_trans by metis

lemma stable_reached [intro]: "stable env (reached env c v)"
  unfolding stable_def reached_def gates_grow_def gates_settle_def by (metis order.trans)

lemma stable_holds_gate [intro]: "stable env (holds_gate env c v g r)"
  unfolding stable_def
proof (intro allI impI)
  fix w w' :: "'a disb_api"
  assume grow: "gates_grow (de_repo env) (ap_orch w) (ap_orch w')" and "holds_gate env c v g r w"
  then obtain sn where sn: "gr_status r = SATISFIED" "rp_load_snapshot (de_repo env) c (ap_orch w) = Some sn"
    "v \<le> sn_case_version sn" "v = sn_case_version sn \<longrightarrow> stored_gate sn g = Some r" by (auto simp: holds_gate_def)
  with grow obtain sn' where "rp_load_snapshot (de_repo env) c (ap_orch w') = Some sn'" "gates_settle sn sn'"
    by (auto simp: gates_grow_def)
  with sn show "holds_gate env c v g r w'" by (auto simp: holds_gate_def gates_settle_def)
qed

lemma stable_has_terms [intro]: "stable env (has_terms d)"
proof -
  have "has_terms d w' " if "has_terms d w" "terms_kept (ap_disb w) (ap_disb w')" for w w' :: "'a disb_api"
  proof -
    let ?p = "\<lambda>x. x\<lparr>da_status := PROPOSED\<rparr>"
    have eq: "has_terms d u \<longleftrightarrow> ?p d \<in> set (map ?p (db_actions (ap_disb u)))" for u :: "'a disb_api"
      unfolding has_terms_def list_ex_iff set_map image_iff by (rule bex_cong [OF refl]) (rule eq_commute)
    from that show ?thesis unfolding eq terms_kept_def using set_mono_prefix by blast
  qed
  then show ?thesis unfolding stable_def by blast
qed

lemma since_calls [simp]: "since env w0 (w\<lparr>ap_calls := cs\<rparr>) = since env w0 w"
  by (simp add: since_def)

lemma since_refl: "since env w w"
  by (simp add: since_def gates_grow_refl terms_kept_refl)

lemma since_trans: "since env w w' \<Longrightarrow> since env w' w'' \<Longrightarrow> since env w w''"
  unfolding since_def using gates_grow_trans terms_kept_trans by metis

lemma keeps_stable:
  assumes "well_behaved good env m" "stable env X"
  shows "keeps (sound_with good env X) m"
  unfolding keeps_def
proof (intro allI impI)
  fix w assume w: "sound_with good env X w"
  obtain res w' where run: "m w = (res, w')" by fastforce
  from assms(1) w run have "orch_sound (de_repo env) good (ap_orch w')" "gates_grow (de_repo env) (ap_orch w) (ap_orch w')"
    "terms_kept (ap_disb w) (ap_disb w')" "ap_calls w' = ap_calls w"
    unfolding well_behaved_def sound_with_def by (metis (mono_tags, lifting) case_prod_conv)+
  with assms(2) w run show "sound_with good env X (snd (m w))"
    unfolding stable_def sound_with_def by (metis snd_conv)
qed

lemma well_behavedI:
  fixes m :: "('o disb_api, 'e, 'a) act"
  assumes "\<And>w res w'. orch_sound (de_repo env) good (ap_orch w) \<Longrightarrow> m w = (res, w') \<Longrightarrow>
    orch_sound (de_repo env) good (ap_orch w') \<and> gates_grow (de_repo env) (ap_orch w) (ap_orch w') \<and>
    terms_kept (ap_disb w) (ap_disb w') \<and> ap_calls w' = ap_calls w"
  shows "well_behaved good env m"
  unfolding well_behaved_def
proof (intro allI impI)
  fix w :: "'o disb_api" assume sound: "orch_sound (de_repo env) good (ap_orch w)"
  obtain res w' where run: "m w = (res, w')" by fastforce
  show "case m w of (res, w') \<Rightarrow> orch_sound (de_repo env) good (ap_orch w') \<and>
      gates_grow (de_repo env) (ap_orch w) (ap_orch w') \<and> terms_kept (ap_disb w) (ap_disb w') \<and> ap_calls w' = ap_calls w"
    unfolding run prod.case by (rule assms [OF sound run])
qed

lemma well_behavedD:
  "well_behaved good env m \<Longrightarrow> orch_sound (de_repo env) good (ap_orch w) \<Longrightarrow> m w = (res, w') \<Longrightarrow>
    orch_sound (de_repo env) good (ap_orch w') \<and> gates_grow (de_repo env) (ap_orch w) (ap_orch w') \<and>
    terms_kept (ap_disb w) (ap_disb w') \<and> ap_calls w' = ap_calls w"
  unfolding well_behaved_def by (drule spec [of _ w], drule (1) mp) simp

section \<open>Well-behaved steps\<close>

named_theorems behaved \<open>steps that keep to the rules\<close>

lemma interfere_step:
  assumes "others_steady good env" "orch_sound (de_repo env) good (ap_orch w)"
  shows "orch_sound (de_repo env) good (ap_orch (interfere env w)) \<and>
    gates_grow (de_repo env) (ap_orch w) (ap_orch (interfere env w)) \<and>
    terms_kept (ap_disb w) (ap_disb (interfere env w)) \<and> ap_calls (interfere env w) = ap_calls w"
proof -
  obtain orch disb where out: "de_others env (ap_ticks w) (ap_orch w, ap_disb w) = (orch, disb)" by fastforce
  from assms have "case de_others env (ap_ticks w) (ap_orch w, ap_disb w) of (orch', disb') \<Rightarrow>
      orch_sound (de_repo env) good orch' \<and> gates_grow (de_repo env) (ap_orch w) orch' \<and> terms_kept (ap_disb w) disb'"
    unfolding others_steady_def by (elim allE impE)
  then show ?thesis by (simp add: interfere_def out)
qed

lemma well_on_orch:
  fixes m :: "('o, 'e, 'a) act"
  assumes "others_steady good env"
    and "\<And>s res s'. orch_sound (de_repo env) good s \<Longrightarrow> m s = (res, s') \<Longrightarrow>
      orch_sound (de_repo env) good s' \<and> gates_grow (de_repo env) s s'"
  shows "well_behaved good env (on_orch env m)"
proof (rule well_behavedI)
  fix w res w' assume sound: "orch_sound (de_repo env) good (ap_orch w)" and run: "on_orch env m w = (res, w')"
  note step = interfere_step [OF assms(1) sound]
  obtain res' s' where m: "m (ap_orch (interfere env w)) = (res', s')" by fastforce
  with run have w': "w' = (interfere env w)\<lparr>ap_orch := s'\<rparr>" by (simp add: on_orch_def Let_def)
  from assms(2) [OF _ m] step have "orch_sound (de_repo env) good s'"
    "gates_grow (de_repo env) (ap_orch (interfere env w)) s'" by blast+
  with step show "orch_sound (de_repo env) good (ap_orch w') \<and> gates_grow (de_repo env) (ap_orch w) (ap_orch w') \<and>
    terms_kept (ap_disb w) (ap_disb w') \<and> ap_calls w' = ap_calls w"
    unfolding w' by (auto intro: gates_grow_trans)
qed

lemma well_on_disb:
  fixes m :: "(disb_store, 'e, 'a) act"
  assumes "others_steady good env" and "\<And>d res d'. m d = (res, d') \<Longrightarrow> terms_kept d d'"
  shows "well_behaved good env (on_disb env m)"
proof (rule well_behavedI)
  fix w res w' assume sound: "orch_sound (de_repo env) good (ap_orch w)" and run: "on_disb env m w = (res, w')"
  note step = interfere_step [OF assms(1) sound]
  obtain res' d' where m: "m (ap_disb (interfere env w)) = (res', d')" by fastforce
  with run have w': "w' = (interfere env w)\<lparr>ap_disb := d'\<rparr>" by (simp add: on_disb_def Let_def)
  from step assms(2) [OF m] show "orch_sound (de_repo env) good (ap_orch w') \<and>
      gates_grow (de_repo env) (ap_orch w) (ap_orch w') \<and> terms_kept (ap_disb w) (ap_disb w') \<and> ap_calls w' = ap_calls w"
    unfolding w' by (auto intro: terms_kept_trans)
qed

lemma well_same:
  fixes m :: "('o disb_api, 'e, 'a) act"
  assumes "\<And>w. ap_orch (snd (m w)) = ap_orch w \<and> ap_disb (snd (m w)) = ap_disb w \<and> ap_calls (snd (m w)) = ap_calls w"
  shows "well_behaved good env m"
proof (rule well_behavedI)
  fix w res w' assume "orch_sound (de_repo env) good (ap_orch w)" "m w = (res, w')"
  with assms [of w] show "orch_sound (de_repo env) good (ap_orch w') \<and>
      gates_grow (de_repo env) (ap_orch w) (ap_orch w') \<and> terms_kept (ap_disb w) (ap_disb w') \<and> ap_calls w' = ap_calls w"
    by (simp add: gates_grow_refl terms_kept_refl)
qed

lemma well_pure [behaved]:
  "well_behaved good env (ret x)" "well_behaved good env (raise e)" "well_behaved good env (uuid4 env)"
  "well_behaved good env (check_act b e)" "well_behaved good env (require_role a role)"
  "well_behaved good env (require_reader roles a)" "well_behaved good env (assert_case_access assigned a c)"
  "well_behaved good env (found e v)"
  by (intro well_same; simp add: uuid4_def check_act_def require_role_def require_reader_def assert_case_access_def
      found_def split: option.split)+

lemma well_and_then [behaved]:
  assumes "well_behaved good env m" "\<And>x. well_behaved good env (f x)"
  shows "well_behaved good env (and_then m f)"
proof (rule well_behavedI)
  fix w res w' assume sound: "orch_sound (de_repo env) good (ap_orch w)" and run: "and_then m f w = (res, w')"
  obtain r w1 where m: "m w = (r, w1)" by fastforce
  note step = well_behavedD [OF assms(1) sound m]
  show "orch_sound (de_repo env) good (ap_orch w') \<and> gates_grow (de_repo env) (ap_orch w) (ap_orch w') \<and>
      terms_kept (ap_disb w) (ap_disb w') \<and> ap_calls w' = ap_calls w"
  proof (cases r)
    case (Inl e)
    with m run step show ?thesis by simp
  next
    case (Inr x)
    with m run have "f x w1 = (res, w')" by simp
    from well_behavedD [OF assms(2) _ this] step show ?thesis by (auto intro: gates_grow_trans terms_kept_trans)
  qed
qed

lemma well_attempt [behaved]:
  assumes "well_behaved good env m" "\<And>e. well_behaved good env (h e)"
  shows "well_behaved good env (attempt m h)"
proof (rule well_behavedI)
  fix w res w' assume sound: "orch_sound (de_repo env) good (ap_orch w)" and run: "attempt m h w = (res, w')"
  obtain r w1 where m: "m w = (r, w1)" by fastforce
  note step = well_behavedD [OF assms(1) sound m]
  show "orch_sound (de_repo env) good (ap_orch w') \<and> gates_grow (de_repo env) (ap_orch w) (ap_orch w') \<and>
      terms_kept (ap_disb w) (ap_disb w') \<and> ap_calls w' = ap_calls w"
  proof (cases r)
    case (Inr x)
    with m run step show ?thesis by (simp add: attempt_def)
  next
    case (Inl e)
    with m run have "h e w1 = (res, w')" by (simp add: attempt_def)
    from well_behavedD [OF assms(2) _ this] step show ?thesis by (auto intro: gates_grow_trans terms_kept_trans)
  qed
qed

lemma well_on_error [behaved]: "well_behaved good env m \<Longrightarrow> well_behaved good env (on_error h m)"
proof (rule well_behavedI)
  fix w res w' assume m: "well_behaved good env m" and sound: "orch_sound (de_repo env) good (ap_orch w)"
    and "on_error h m w = (res, w')"
  then obtain r where "m w = (r, w')" by (cases "m w") (auto simp: on_error_def split: sum.splits)
  from well_behavedD [OF m sound this] show "orch_sound (de_repo env) good (ap_orch w') \<and>
      gates_grow (de_repo env) (ap_orch w) (ap_orch w') \<and> terms_kept (ap_disb w) (ap_disb w') \<and> ap_calls w' = ap_calls w" .
qed

lemma well_reading [behaved]:
  assumes "others_steady good env"
  shows "well_behaved good env (on_orch env (reading f))" "well_behaved good env (on_disb env (reading h))"
  by (rule well_on_orch [OF assms], auto simp: gates_grow_refl) (rule well_on_disb [OF assms], auto simp: terms_kept_refl)

lemma well_act_map [behaved]: "(\<And>x. well_behaved good env (f x)) \<Longrightarrow> well_behaved good env (act_map f xs)"
  by (induction xs) (auto intro!: behaved)

lemma well_transact [behaved]:
  assumes "others_steady good env" "\<And>d d'. op d = Inr d' \<Longrightarrow> terms_kept d d'"
  shows "well_behaved good env (on_disb env (transact op))"
  by (rule well_on_disb [OF assms(1)]) (auto simp: transact_def terms_kept_refl assms(2) split: sum.splits)

lemma well_atomically [behaved]:
  assumes "others_steady good env" "\<And>d x d'. op d = Inr (x, d') \<Longrightarrow> terms_kept d d'"
  shows "well_behaved good env (on_disb env (atomically op))"
  by (rule well_on_disb [OF assms(1)]) (auto simp: atomically_def terms_kept_refl assms(2) split: sum.splits)

lemma sound_interfere:
  assumes "others_steady good env" "stable env X" "sound_with good env X w"
  shows "sound_with good env X (interfere env w)"
  using interfere_step [OF assms(1), of w] assms(2,3) unfolding stable_def sound_with_def by blast

lemma keeps_on_orch:
  fixes m :: "('o, 'e, 'a) act"
  assumes "others_steady good env" "stable env X"
    and "\<And>w res s'. sound_with good env X w \<Longrightarrow> m (ap_orch w) = (res, s') \<Longrightarrow>
      orch_sound (de_repo env) good s' \<and> gates_grow (de_repo env) (ap_orch w) s'"
  shows "keeps (sound_with good env X) (on_orch env m)"
  unfolding keeps_def
proof (intro allI impI)
  fix w assume "sound_with good env X w"
  then have start: "sound_with good env X (interfere env w)" by (rule sound_interfere [OF assms(1,2)])
  obtain res s' where m: "m (ap_orch (interfere env w)) = (res, s')" by fastforce
  let ?w = "(interfere env w)\<lparr>ap_orch := s'\<rparr>"
  from assms(3) [OF start m] have s': "orch_sound (de_repo env) good s'"
    "gates_grow (de_repo env) (ap_orch (interfere env w)) (ap_orch ?w)" by simp_all
  have same: "terms_kept (ap_disb (interfere env w)) (ap_disb ?w)" "ap_calls ?w = ap_calls (interfere env w)"
    by (simp_all add: terms_kept_refl)
  from start have "X (interfere env w)" by (simp add: sound_with_def)
  with assms(2) s'(2) same have "X ?w" unfolding stable_def by blast
  with s'(1) show "sound_with good env X (snd (on_orch env m w))" by (simp add: sound_with_def on_orch_def m)
qed

lemma hoare_read_orch:
  assumes "others_steady good env" "stable env X" and "\<And>w. sound_with good env X w \<Longrightarrow> Q (f (ap_orch w)) w"
  shows "hoare (sound_with good env X) (on_orch env (reading f)) Q E"
  unfolding hoare_def
proof (intro allI impI)
  fix w assume "sound_with good env X w"
  from assms(3) [OF sound_interfere [OF assms(1,2) this]]
  show "case on_orch env (reading f) w of (Inl e, s') \<Rightarrow> E e s' | (Inr x, s') \<Rightarrow> Q x s'"
    by (simp add: on_orch_def Let_def)
qed

lemma hoare_read_disb:
  assumes "others_steady good env" "stable env X" and "\<And>w. sound_with good env X w \<Longrightarrow> Q (f (ap_disb w)) w"
  shows "hoare (sound_with good env X) (on_disb env (reading f)) Q E"
  unfolding hoare_def
proof (intro allI impI)
  fix w assume "sound_with good env X w"
  from assms(3) [OF sound_interfere [OF assms(1,2) this]]
  show "case on_disb env (reading f) w of (Inl e, s') \<Rightarrow> E e s' | (Inr x, s') \<Rightarrow> Q x s'"
    by (simp add: on_disb_def Let_def)
qed

lemma hoare_load_action:
  assumes "others_steady good env" "stable env X"
  shows "hoare (sound_with good env X) (load_action_or_404 env i c v)
    (\<lambda>d. sound_with good env (\<lambda>w. X w \<and> has_terms d w \<and> hits i c v d)) (\<lambda>_. sound_with good env X)"
  unfolding load_action_or_404_def
proof (rule hoare_and_then)
  show "hoare (sound_with good env X) (on_disb env (reading (load_action i c v)))
      (\<lambda>r w. sound_with good env X w \<and> r = load_action i c v (ap_disb w)) (\<lambda>_. sound_with good env X)"
    by (rule hoare_read_disb [OF assms]) simp
  have "has_terms d w \<and> hits i c v d" if "load_action i c v (ap_disb w) = Some d" for d w
    using load_action_Some [OF that] by (auto simp: has_terms_def list_ex_iff)
  then show "hoare (\<lambda>w. sound_with good env X w \<and> r = load_action i c v (ap_disb w))
      (found (ApiException 404 ''DISBURSEMENT_ACTION_NOT_FOUND'') r)
      (\<lambda>d. sound_with good env (\<lambda>w. X w \<and> has_terms d w \<and> hits i c v d)) (\<lambda>_. sound_with good env X)" for r
    by (auto simp: hoare_def found_def sound_with_def split: option.splits)
qed

lemma hoare_check:
  "hoare (sound_with good env X) (check_act b e) (\<lambda>_. sound_with good env (\<lambda>w. X w \<and> b)) (\<lambda>_. sound_with good env X)"
  "hoare (sound_with good env X) (require_role a role)
     (\<lambda>_. sound_with good env (\<lambda>w. X w \<and> role \<in> set (ac_roles a))) (\<lambda>_. sound_with good env X)"
  "hoare (sound_with good env X) (found e' v) (\<lambda>x. sound_with good env (\<lambda>w. X w \<and> v = Some x))
     (\<lambda>_. sound_with good env X)"
  by (auto simp: hoare_def check_act_run require_role_def found_def sound_with_def split: option.split)

text \<open>One step of a handler: the error state is only asked for \<open>Z\<close>, what holds all along.\<close>

lemma hoare_step:
  assumes "hoare (sound_with good env X) m Q (\<lambda>_. sound_with good env X)" "\<And>w. X w \<Longrightarrow> Z w"
    and "\<And>x. hoare (Q x) (f x) R (\<lambda>_. sound_with good env Z)"
  shows "hoare (sound_with good env X) (and_then m f) R (\<lambda>_. sound_with good env Z)"
proof (rule hoare_and_then)
  show "hoare (sound_with good env X) m Q (\<lambda>_. sound_with good env Z)"
    by (rule hoare_weaken [OF assms(1)]) (auto simp: sound_with_def assms(2))
qed (rule assms(3))

lemma hoare_last:
  assumes "keeps (sound_with good env X) m" "\<And>w. X w \<Longrightarrow> Z w"
  shows "hoare (sound_with good env X) m (\<lambda>_. sound_with good env Z) (\<lambda>_. sound_with good env Z)"
  by (rule hoare_weaken [OF assms(1) [unfolded keeps_hoare]]) (auto simp: sound_with_def assms(2))

section \<open>The contract of the gates\<close>

text \<open>
  What the disbursement relies on beyond the orchestration port: a snapshot shows each
  gate of the current version once, a gate of an older version is written without any
  effect on what is read, the assignment gives the current version, and dispatching
  the outbox leaves the cases alone.
\<close>

locale gate_repository = orchestration_repository +
  assumes load_gates:
      "inv s \<Longrightarrow> rp_load_snapshot repo c s = Some sn \<Longrightarrow>
       list_all (\<lambda>r. gr_case_version r = sn_case_version sn) (sn_gates sn) \<and> distinct (map gr_gate_type (sn_gates sn))"
    and gate_old:
      "inv s \<Longrightarrow> rp_load_snapshot repo c s = Some sn \<Longrightarrow> v < sn_case_version sn \<Longrightarrow>
       rp_ensure_gate repo c v g st a ref s = (Inr r, s') \<Longrightarrow>
       inv s' \<and> rp_load_snapshot repo c' s' = rp_load_snapshot repo c' s"

locale disbursement_control = gate_repository "de_repo env" inv keys task_ids proposal_ids
  for env :: "'o disb_env" and inv keys task_ids proposal_ids +
  assumes assigned_current:
      "inv s \<Longrightarrow> de_assigned env s c a = Some v \<Longrightarrow>
       \<exists>sn. rp_load_snapshot (de_repo env) c s = Some sn \<and> sn_case_version sn = v"
    and dispatch_keeps:
      "inv s \<Longrightarrow> inv (de_dispatch env s) \<and>
       rp_load_snapshot (de_repo env) c (de_dispatch env s) = rp_load_snapshot (de_repo env) c s"

lemma two_people_mono:
  assumes "two_people sn" "gates_settle sn sn'" "sn_case_version sn' = sn_case_version sn"
    and "\<And>r. stored_gate sn' HG_DISBURSEMENT_AUTHORIZED = Some r \<Longrightarrow> gr_status r = SATISFIED \<Longrightarrow>
      stored_gate sn HG_DISBURSEMENT_AUTHORIZED = Some r"
  shows "two_people sn'"
proof (cases "stored_gate sn' HG_DISBURSEMENT_AUTHORIZED")
  case (Some r)
  show ?thesis
  proof (cases "gr_status r")
    case SATISFIED
    with assms(1) assms(4) [OF Some] obtain r' where "stored_gate sn HG_DISBURSEMENT_VALIDATED = Some r'"
      "gr_status r' = SATISFIED" "gr_satisfied_by r' \<noteq> gr_satisfied_by r"
      by (auto simp: two_people_def split: option.splits)
    with assms(2,3) Some show ?thesis by (auto simp: two_people_def gates_settle_def)
  qed (simp add: two_people_def Some)
qed (simp add: two_people_def)

context gate_repository
begin

lemma gate_for_stored:
  assumes "inv s" "rp_load_snapshot repo c s = Some sn"
  shows "gate_for (Some sn) g v = Some r \<longleftrightarrow>
    v = sn_case_version sn \<and> stored_gate sn g = Some r \<and> gr_status r = SATISFIED"
proof -
  note gates = load_gates [OF assms]
  have versions: "gr_case_version r = sn_case_version sn" if "r \<in> set (sn_gates sn)" for r
    using gates that by (simp add: list_all_set)
  then have "filter (\<lambda>r. gr_case_version r = sn_case_version sn) (sn_gates sn) = sn_gates sn"
    by (simp add: filter_id_conv)
  then have "stored_gate sn g = py_dict (map (\<lambda>r. (gr_gate_type r, r)) (sn_gates sn)) g"
    by (simp add: stored_gate_def)
  moreover have "distinct (map fst (map (\<lambda>r. (gr_gate_type r, r)) (sn_gates sn)))"
    using gates by (simp add: o_def)
  from py_dict_distinct [OF this, of g]
  have "py_dict (map (\<lambda>r. (gr_gate_type r, r)) (sn_gates sn)) g = Some r \<longleftrightarrow> r \<in> set (sn_gates sn) \<and> gr_gate_type r = g" for r
    by (auto simp: image_iff)
  ultimately have stored: "stored_gate sn g = Some r \<longleftrightarrow> r \<in> set (sn_gates sn) \<and> gr_gate_type r = g" for r
    by simp
  let ?hit = "\<lambda>r. gr_gate_type r = g \<and> gr_case_version r = v \<and> gr_status r = SATISFIED"
  have "find ?hit (sn_gates sn) = Some r \<longleftrightarrow> r \<in> set (sn_gates sn) \<and> ?hit r"
  proof
    assume hit: "r \<in> set (sn_gates sn) \<and> ?hit r"
    then have "find ?hit (sn_gates sn) \<noteq> None" unfolding find_None_iff by blast
    then obtain r' where r': "find ?hit (sn_gates sn) = Some r'" by blast
    then have "r' \<in> set (sn_gates sn)" "gr_gate_type r' = g" by (auto dest: find_SomeD)
    with hit gates have "r' = r" unfolding distinct_map inj_on_def by blast
    with r' show "find ?hit (sn_gates sn) = Some r" by simp
  qed (auto dest: find_SomeD)
  then show ?thesis using stored versions by (auto simp: gate_for_def)
qed

lemma same_loads_sound:
  assumes "orch_sound repo inv s" "inv s'" "\<And>c. rp_load_snapshot repo c s' = rp_load_snapshot repo c s"
  shows "orch_sound repo inv s' \<and> gates_grow repo s s'"
  using assms by (auto simp: orch_sound_def gates_grow_def gates_settle_refl)

lemma extended_sound:
  assumes "orch_sound repo inv s" "rp_load_snapshot repo c s = Some sn" "extended_from s c sn types s'"
  shows "orch_sound repo inv s' \<and> gates_grow repo s s'"
proof -
  from assms(3) obtain sn' where s': "inv s'" "rp_load_snapshot repo c s' = Some sn'" and ext: "orch_extends types sn sn'"
    and other: "\<And>c'. c' \<noteq> c \<Longrightarrow> rp_load_snapshot repo c' s' = rp_load_snapshot repo c' s"
    by (auto simp: extended_from_def)
  from ext have version: "sn_case_version sn' = sn_case_version sn"
    and final: "\<And>g r. stored_gate sn g = Some r \<Longrightarrow> gr_status r = SATISFIED \<Longrightarrow> stored_gate sn' g = Some r"
    and new: "\<And>g. holds_satisfied sn' g \<Longrightarrow> holds_satisfied sn g \<or> g = G1_INTAKE_COMPLETE"
    by (auto simp: orch_extends_def)
  have settle: "gates_settle sn sn'" using final by (simp add: gates_settle_def version)
  have "stored_gate sn HG_DISBURSEMENT_AUTHORIZED = Some r"
    if "stored_gate sn' HG_DISBURSEMENT_AUTHORIZED = Some r" "gr_status r = SATISFIED" for r
  proof -
    from that have "holds_satisfied sn' HG_DISBURSEMENT_AUTHORIZED" by (simp add: holds_satisfied_def)
    with new have "holds_satisfied sn HG_DISBURSEMENT_AUTHORIZED" by blast
    with final that show ?thesis by (fastforce simp: holds_satisfied_def)
  qed
  with assms(1,2) settle version have people: "two_people sn'"
    by (intro two_people_mono [of sn sn']) (auto simp: orch_sound_def)
  have "two_people x" if "rp_load_snapshot repo c' s' = Some x" for c' x
    using that people s' other assms(1) by (cases "c' = c") (auto simp: orch_sound_def)
  moreover have "\<exists>y. rp_load_snapshot repo c' s' = Some y \<and> gates_settle x y"
    if "rp_load_snapshot repo c' s = Some x" for c' x
    using that settle s' other assms(2) by (cases "c' = c") (auto simp: gates_settle_refl)
  ultimately show ?thesis using s' by (simp add: orch_sound_def gates_grow_def)
qed

lemma ensure_gate_sound:
  assumes sound: "orch_sound repo inv s" and load: "rp_load_snapshot repo c s = Some sn" and v: "v \<le> sn_case_version sn"
    and who: "g = HG_DISBURSEMENT_AUTHORIZED \<Longrightarrow> v = sn_case_version sn \<Longrightarrow>
      \<exists>r. stored_gate sn HG_DISBURSEMENT_VALIDATED = Some r \<and> gr_status r = SATISFIED \<and> gr_satisfied_by r \<noteq> Some a"
    and run: "rp_ensure_gate repo c v g SATISFIED (Some a) ref s = (res, s')"
  shows "orch_sound repo inv s' \<and> gates_grow repo s s'"
proof (cases res)
  case (Inl e)
  with gate_fails run sound show ?thesis by (metis gates_grow_refl)
next
  case (Inr r)
  have inv: "inv s" and people: "two_people sn" using sound load by (auto simp: orch_sound_def)
  show ?thesis
  proof (cases "v = sn_case_version sn")
    case False
    with v have "v < sn_case_version sn" by simp
    from gate_old [OF inv load this run [unfolded Inr]] show ?thesis by (intro same_loads_sound [OF sound]) auto
  next
    case True
    note post = gate_returns [OF inv load True run [unfolded Inr]]
    then obtain gs where load': "rp_load_snapshot repo c s' = Some (sn\<lparr>sn_gates := gs\<rparr>)" and inv': "inv s'"
      and other: "\<And>c'. c' \<noteq> c \<Longrightarrow> rp_load_snapshot repo c' s' = rp_load_snapshot repo c' s"
      and stored: "\<And>g'. stored_gate (sn\<lparr>sn_gates := gs\<rparr>) g' = (if g' = g then Some r else stored_gate sn g')"
      and ensured: "gate_ensured (stored_gate sn g) g v SATISFIED (Some a) ref r" by blast
    let ?sn = "sn\<lparr>sn_gates := gs\<rparr>"
    have settle: "gates_settle sn ?sn"
      using ensured gate_ensured_satisfied by (auto simp: gates_settle_def stored)
    have people': "two_people ?sn"
    proof (cases "g = HG_DISBURSEMENT_AUTHORIZED")
      case False
      with stored show ?thesis by (intro two_people_mono [OF people settle]) auto
    next
      case auth: True
      from who [OF auth True] obtain r' where r': "stored_gate sn HG_DISBURSEMENT_VALIDATED = Some r'"
        "gr_status r' = SATISFIED" "gr_satisfied_by r' \<noteq> Some a" by blast
      have "gr_satisfied_by r' \<noteq> gr_satisfied_by r"
      proof (cases "\<exists>r0. stored_gate sn g = Some r0 \<and> gr_status r0 = SATISFIED")
        case True
        then obtain r0 where "stored_gate sn g = Some r0" "gr_status r0 = SATISFIED" by blast
        with ensured gate_ensured_satisfied people r' auth show ?thesis by (fastforce simp: two_people_def)
      next
        case False
        with ensured r'(3) show ?thesis
          by (auto simp: gate_ensured_def Let_def satisfied_record_def open_gate_def split: option.splits if_splits)
      qed
      with r' auth stored show ?thesis by (simp add: two_people_def)
    qed
    have "two_people x" if "rp_load_snapshot repo c' s' = Some x" for c' x
      using that people' load' other sound by (cases "c' = c") (auto simp: orch_sound_def)
    moreover have "\<exists>y. rp_load_snapshot repo c' s' = Some y \<and> gates_settle x y"
      if "rp_load_snapshot repo c' s = Some x" for c' x
      using that settle load' other load by (cases "c' = c") (auto simp: gates_settle_refl)
    ultimately show ?thesis using inv' by (simp add: orch_sound_def gates_grow_def)
  qed
qed

lemma audit_sound:
  assumes "orch_sound repo inv s" "rp_append_audit repo e s = (res, s')"
  shows "orch_sound repo inv s' \<and> gates_grow repo s s'"
proof (cases res)
  case (Inl err)
  with audit_fails assms show ?thesis by (metis gates_grow_refl)
next
  case (Inr u)
  with assms have "inv s" "rp_append_audit repo e s = (Inr u, s')" by (auto simp: orch_sound_def)
  from audit_returns [OF this] show ?thesis by (intro same_loads_sound [OF assms(1)]) auto
qed

lemma kickoff_sound:
  assumes "orch_sound repo inv s" "kickoff repo env c trigger s = (res, s')"
  shows "orch_sound repo inv s' \<and> gates_grow repo s s'"
proof (cases "rp_load_snapshot repo c s")
  case None
  with assms show ?thesis by (simp add: kickoff_def gates_grow_refl)
next
  case (Some sn)
  from assms have "inv s" "snd (kickoff repo env c trigger s) = s'" by (auto simp: orch_sound_def)
  with kickoff_extends [OF _ Some, of env trigger] extended_sound [OF assms(1) Some] show ?thesis by metis
qed

lemma advance_sound:
  assumes "orch_sound repo inv s" "advance_case repo env c s = (res, s')"
  shows "orch_sound repo inv s' \<and> gates_grow repo s s'"
proof (cases "rp_load_snapshot repo c s")
  case None
  with assms show ?thesis by (simp add: advance_case_def gates_grow_refl)
next
  case (Some sn)
  from assms have "inv s" "snd (advance_case repo env c s) = s'" by (auto simp: orch_sound_def)
  with advance_extends [OF _ Some, of env] extended_sound [OF assms(1) Some] show ?thesis by metis
qed

end

context disbursement_control
begin

lemma hoare_case_access:
  assumes "others_steady inv env" "stable env X"
  shows "hoare (sound_with inv env X) (case_access env a c)
    (\<lambda>v. sound_with inv env (\<lambda>w. X w \<and> reached env c v w)) (\<lambda>_. sound_with inv env X)"
  unfolding case_access_def
proof (rule hoare_and_then)
  show "hoare (sound_with inv env X) (on_orch env (reading (de_assigned env)))
      (\<lambda>r w. sound_with inv env X w \<and> r = de_assigned env (ap_orch w)) (\<lambda>_. sound_with inv env X)"
    by (rule hoare_read_orch [OF assms]) simp
  have "reached env c v w" if "sound_with inv env X w" "de_assigned env (ap_orch w) c b = Some v" for w v b
    using assigned_current [OF _ that(2)] that(1) by (auto simp: sound_with_def orch_sound_def reached_def)
  then show "hoare (\<lambda>w. sound_with inv env X w \<and> r = de_assigned env (ap_orch w)) (assert_case_access r a c)
      (\<lambda>v. sound_with inv env (\<lambda>w. X w \<and> reached env c v w)) (\<lambda>_. sound_with inv env X)" for r
    by (auto simp: hoare_def assert_case_access_def sound_with_def split: option.splits)
qed

lemma hoare_read_gates:
  assumes "others_steady inv env" "stable env X"
  shows "hoare (sound_with inv env X) (read_gates env c)
    (\<lambda>snapshot. sound_with inv env (\<lambda>w. X w \<and>
       (\<forall>v g r. gate_for snapshot g v = Some r \<longrightarrow> holds_gate env c v g r w) \<and>
       (\<forall>v r r'. gate_for snapshot HG_DISBURSEMENT_VALIDATED v = Some r \<longrightarrow>
          gate_for snapshot HG_DISBURSEMENT_AUTHORIZED v = Some r' \<longrightarrow> gr_satisfied_by r \<noteq> gr_satisfied_by r')))
    (\<lambda>_. sound_with inv env X)"
  unfolding read_gates_def
proof (rule hoare_read_orch [OF assms])
  fix w assume w: "sound_with inv env X w"
  have gates: "holds_gate env c v g r w \<and> (\<exists>sn. rp_load_snapshot (de_repo env) c (ap_orch w) = Some sn \<and>
      stored_gate sn g = Some r \<and> gr_status r = SATISFIED)"
    if "gate_for (rp_load_snapshot (de_repo env) c (ap_orch w)) g v = Some r" for v g r
  proof (cases "rp_load_snapshot (de_repo env) c (ap_orch w)")
    case None
    with that show ?thesis by (simp add: gate_for_def)
  next
    case (Some sn)
    from w have "inv (ap_orch w)" by (simp add: sound_with_def orch_sound_def)
    from gate_for_stored [OF this Some] that Some show ?thesis by (simp add: holds_gate_def)
  qed
  have "gr_satisfied_by r \<noteq> gr_satisfied_by r'"
    if r: "gate_for (rp_load_snapshot (de_repo env) c (ap_orch w)) HG_DISBURSEMENT_VALIDATED v = Some r"
      and r': "gate_for (rp_load_snapshot (de_repo env) c (ap_orch w)) HG_DISBURSEMENT_AUTHORIZED v = Some r'" for v r r'
  proof -
    from gates [OF r] gates [OF r'] obtain sn where sn: "rp_load_snapshot (de_repo env) c (ap_orch w) = Some sn"
      "stored_gate sn HG_DISBURSEMENT_VALIDATED = Some r" "stored_gate sn HG_DISBURSEMENT_AUTHORIZED = Some r'"
      "gr_status r' = SATISFIED" by auto
    with w have "two_people sn" by (auto simp: sound_with_def orch_sound_def)
    with sn show ?thesis by (simp add: two_people_def)
  qed
  with w gates show "sound_with inv env (\<lambda>w'. X w' \<and>
      (\<forall>v g r. gate_for (rp_load_snapshot (de_repo env) c (ap_orch w)) g v = Some r \<longrightarrow> holds_gate env c v g r w') \<and>
      (\<forall>v r r'. gate_for (rp_load_snapshot (de_repo env) c (ap_orch w)) HG_DISBURSEMENT_VALIDATED v = Some r \<longrightarrow>
        gate_for (rp_load_snapshot (de_repo env) c (ap_orch w)) HG_DISBURSEMENT_AUTHORIZED v = Some r' \<longrightarrow>
        gr_satisfied_by r \<noteq> gr_satisfied_by r')) w"
    by (simp add: sound_with_def)
qed

lemma well_retick [behaved]:
  assumes "others_steady inv env"
  shows "well_behaved inv env (retick env c trigger)"
proof (rule well_behavedI)
  fix w res w' assume sound: "orch_sound (de_repo env) inv (ap_orch w)" and run: "retick env c trigger w = (res, w')"
  have dispatch: "orch_sound (de_repo env) inv (de_dispatch env s) \<and> gates_grow (de_repo env) s (de_dispatch env s)"
    if "orch_sound (de_repo env) inv s" for s
    using dispatch_keeps [of s] that by (intro same_loads_sound [OF that]) (auto simp: orch_sound_def)
  have "well_behaved inv env (attempt
      (and_then (on_orch env (kickoff (de_repo env) (de_kickoff env (ap_ticks w)) c (Some trigger))) (\<lambda>_.
       on_orch env (\<lambda>orch. (Inr (), de_dispatch env orch)))) (\<lambda>_. ret ()))"
    by (intro behaved well_on_orch [OF assms]) (auto dest: kickoff_sound dispatch)
  from well_behavedD [OF this sound run [unfolded retick_def]]
  show "orch_sound (de_repo env) inv (ap_orch w') \<and> gates_grow (de_repo env) (ap_orch w) (ap_orch w') \<and>
      terms_kept (ap_disb w) (ap_disb w') \<and> ap_calls w' = ap_calls w" .
qed

lemma satisfy_gate_keeps:
  assumes steady: "others_steady inv env" and stable: "stable env X" and reach: "\<And>w. X w \<Longrightarrow> reached env c v w"
    and who: "\<And>w. X w \<Longrightarrow> g = HG_DISBURSEMENT_AUTHORIZED \<Longrightarrow>
      \<exists>r. holds_gate env c v HG_DISBURSEMENT_VALIDATED r w \<and> gr_satisfied_by r \<noteq> Some (ac_actor_id a)"
  shows "keeps (sound_with inv env X) (satisfy_gate env c v g i ref event trigger a)"
proof -
  have "keeps (sound_with inv env X)
      (on_orch env (rp_ensure_gate (de_repo env) c v g SATISFIED (Some (ac_actor_id a)) (Some ref)))"
  proof (rule keeps_on_orch [OF steady stable])
    fix w res s' assume w: "sound_with inv env X w"
      and run: "rp_ensure_gate (de_repo env) c v g SATISFIED (Some (ac_actor_id a)) (Some ref) (ap_orch w) = (res, s')"
    from w have sound: "orch_sound (de_repo env) inv (ap_orch w)" and X: "X w" by (auto simp: sound_with_def)
    from reach [OF X] obtain sn where sn: "rp_load_snapshot (de_repo env) c (ap_orch w) = Some sn"
      "v \<le> sn_case_version sn" by (auto simp: reached_def)
    from who [OF X] sn have "\<exists>r. stored_gate sn HG_DISBURSEMENT_VALIDATED = Some r \<and> gr_status r = SATISFIED \<and>
        gr_satisfied_by r \<noteq> Some (ac_actor_id a)" if "g = HG_DISBURSEMENT_AUTHORIZED" "v = sn_case_version sn"
      using that by (auto simp: holds_gate_def)
    from ensure_gate_sound [OF sound sn this run]
    show "orch_sound (de_repo env) inv s' \<and> gates_grow (de_repo env) (ap_orch w) s'" .
  qed
  moreover have "keeps (sound_with inv env X) (on_orch env (rp_append_audit (de_repo env) e))" for e
    by (intro keeps_stable [OF _ stable] well_on_orch [OF steady]) (auto dest: audit_sound)
  ultimately show ?thesis unfolding satisfy_gate_def
    by (intro keeps_and_then; simp add: keeps_stable [OF _ stable] behaved steady)
qed

lemmas stable_facts = stable_conj stable_imp stable_all stable_const stable_reached stable_holds_gate stable_has_terms
  stable_calls stable_since

lemma validate_keeps:
  assumes steady: "others_steady inv env" and stable: "stable env Z"
  shows "keeps (sound_with inv env Z) (validate_disbursement env c i a)"
  unfolding keeps_hoare validate_disbursement_def
  by (rule hoare_step [OF hoare_check(2)], assumption,
      rule hoare_step [OF hoare_case_access [OF steady]], intro stable_facts stable, blast,
      rule hoare_step [OF hoare_load_action [OF steady]], intro stable_facts stable, blast,
      rule hoare_last [OF satisfy_gate_keeps [OF steady]], intro stable_facts stable) auto

lemma authorize_keeps:
  assumes steady: "others_steady inv env" and stable: "stable env Z"
  shows "keeps (sound_with inv env Z) (authorize_disbursement env c i a)"
  unfolding keeps_hoare authorize_disbursement_def
  by (rule hoare_step [OF hoare_check(2)], assumption,
      rule hoare_step [OF hoare_case_access [OF steady]], intro stable_facts stable, blast,
      rule hoare_step [OF hoare_load_action [OF steady]], intro stable_facts stable, blast,
      rule hoare_step [OF hoare_read_gates [OF steady]], intro stable_facts stable, blast,
      rule hoare_step [OF hoare_check(3)], blast,
      rule hoare_step [OF hoare_check(1)], blast,
      rule hoare_last [OF satisfy_gate_keeps [OF steady]], intro stable_facts stable) auto

lemma well_case_access [behaved]: "others_steady inv env \<Longrightarrow> well_behaved inv env (case_access env a c)"
  unfolding case_access_def by (intro behaved)

lemma well_read_gates [behaved]: "others_steady inv env \<Longrightarrow> well_behaved inv env (read_gates env c)"
  unfolding read_gates_def by (intro behaved)

lemma well_load_action [behaved]: "others_steady inv env \<Longrightarrow> well_behaved inv env (load_action_or_404 env i c v)"
  unfolding load_action_or_404_def by (intro behaved)

lemma well_resolve_amount [behaved]: "well_behaved inv env (resolve_amount raw approved)"
  unfolding resolve_amount_def by (auto intro: behaved split: option.split sum.split)

lemma well_check_terms [behaved]: "well_behaved inv env (check_terms amount currency approved_amount approved_currency)"
  unfolding check_terms_def by (auto intro: behaved split: sum.split)

lemma create_well:
  assumes steady: "others_steady inv env"
  shows "well_behaved inv env (create_disbursement env c body a)"
  unfolding create_disbursement_def Let_def split_def
  by (intro behaved steady) (auto dest: terms_kept_create)

lemma reconcile_well:
  assumes steady: "others_steady inv env"
  shows "well_behaved inv env (reconcile_disbursement env c i body a)"
  unfolding reconcile_disbursement_def by (intro behaved steady) (auto dest: terms_kept_reconcile)

lemma list_well:
  assumes steady: "others_steady inv env"
  shows "well_behaved inv env (list_disbursements env c a)"
  unfolding list_disbursements_def by (intro behaved steady)

lemma run_execution_calls:
  assumes steady: "others_steady inv env" and X: "stable env X"
    and start: "\<And>w. X w \<Longrightarrow> since env w0 w \<and> ap_calls w = cs \<and> b"
  shows "hoare (sound_with inv env X) (run_execution env i c v key actor)
    (\<lambda>_. sound_with inv env (\<lambda>w. since env w0 w \<and> (ap_calls w = cs \<or> ap_calls w = cs @ [(i, actor)] \<and> b)))
    (\<lambda>_. sound_with inv env (\<lambda>w. since env w0 w \<and> (ap_calls w = cs \<or> ap_calls w = cs @ [(i, actor)] \<and> b)))"
    (is "hoare _ _ (\<lambda>_. ?R) (\<lambda>_. ?R)")
  unfolding run_execution_def
proof (rule hoare_step)
  show "hoare (sound_with inv env X) (on_disb env (transact (begin_attempt i c v key actor OPS_CHECKER_ROLE)))
      (\<lambda>_. sound_with inv env X) (\<lambda>_. sound_with inv env X)"
    by (rule keeps_stable [OF _ X, unfolded keeps_hoare], intro behaved steady) (auto dest: terms_kept_begin)
  let ?Y = "\<lambda>w. since env w0 w \<and> ap_calls w = cs @ [(i, actor)] \<and> b"
  show "hoare (sound_with inv env X) (and_then (call_adapter env i key actor) (\<lambda>receipt.
      on_disb env (atomically (finish_attempt i c v receipt actor OPS_CHECKER_ROLE)))) (\<lambda>_. ?R) (\<lambda>_. ?R)"
  proof (rule hoare_and_then)
    show "hoare (sound_with inv env X) (call_adapter env i key actor) (\<lambda>_. sound_with inv env ?Y) (\<lambda>_. ?R)"
      using start by (fastforce simp: hoare_def call_adapter_def sound_with_def)
    have "well_behaved inv env (on_disb env (atomically (finish_attempt i c v receipt actor OPS_CHECKER_ROLE)))" for receipt
      by (intro behaved steady) (auto dest: terms_kept_finish)
    then show "hoare (sound_with inv env ?Y) (on_disb env (atomically (finish_attempt i c v receipt actor OPS_CHECKER_ROLE)))
        (\<lambda>_. ?R) (\<lambda>_. ?R)" for receipt
      by (intro hoare_last keeps_stable stable_facts) blast+
  qed
qed (use start in blast)

lemma hoare_on_error: "hoare P m Q (\<lambda>_. E) \<Longrightarrow> hoare P (on_error h m) Q (\<lambda>_. E)"
  unfolding hoare_def on_error_def by (fastforce split: prod.splits sum.splits)

lemma hoare_read_clearance:
  assumes steady: "others_steady inv env"
  shows "hoare (sound_with inv env (\<lambda>w. True)) (read_clearance env c i a)
    (\<lambda>(v, d, snapshot) w. OPS_CHECKER_ROLE \<in> set (ac_roles a) \<and> has_terms d w \<and> hits i c v d \<and>
       snapshot = rp_load_snapshot (de_repo env) c (ap_orch w)) (\<lambda>_. sound_with inv env (\<lambda>w. True))"
  unfolding read_clearance_def
proof (rule hoare_step [OF hoare_check(2)], simp, rule hoare_step [OF hoare_case_access [OF steady]], intro stable_facts, simp,
    rule hoare_step [OF hoare_load_action [OF steady]], intro stable_facts, simp, rule hoare_and_then)
  fix v d
  let ?X = "\<lambda>w. ((True \<and> OPS_CHECKER_ROLE \<in> set (ac_roles a)) \<and> reached env c v w) \<and> has_terms d w \<and> hits i c v d"
  show "hoare (sound_with inv env ?X) (read_gates env c) (\<lambda>snapshot w. ?X w \<and>
      snapshot = rp_load_snapshot (de_repo env) c (ap_orch w)) (\<lambda>_. sound_with inv env (\<lambda>w. True))"
    unfolding read_gates_def
    by (rule hoare_read_orch [OF steady]) (intro stable_facts, simp add: sound_with_def)
qed (auto simp: hoare_def)

lemma well_read_clearance:
  assumes steady: "others_steady inv env"
  shows "well_behaved inv env (read_clearance env c i a)"
  unfolding read_clearance_def by (intro behaved steady)

lemma execute_cleared_calls:
  assumes steady: "others_steady inv env"
  shows "hoare (sound_with inv env (\<lambda>w. since env w0 w \<and> ap_calls w = cs)) (execute_cleared env c i a (v, d, snapshot))
    (\<lambda>_. sound_with inv env (\<lambda>w. since env w0 w \<and> (ap_calls w = cs \<or> ap_calls w = cs @ [(i, ac_actor_id a)] \<and>
       gate_for snapshot HG_DISBURSEMENT_VALIDATED v \<noteq> None \<and> gate_for snapshot HG_DISBURSEMENT_AUTHORIZED v \<noteq> None \<and>
       da_created_by d \<noteq> ac_actor_id a)))
    (\<lambda>_. sound_with inv env (\<lambda>w. since env w0 w \<and> (ap_calls w = cs \<or> ap_calls w = cs @ [(i, ac_actor_id a)] \<and>
       gate_for snapshot HG_DISBURSEMENT_VALIDATED v \<noteq> None \<and> gate_for snapshot HG_DISBURSEMENT_AUTHORIZED v \<noteq> None \<and>
       da_created_by d \<noteq> ac_actor_id a)))"
  unfolding execute_cleared_def split_def fst_conv snd_conv
  by (rule hoare_step [OF hoare_check(1)], blast,
      rule hoare_step [OF hoare_check(1)], blast,
      rule hoare_step [OF keeps_stable [unfolded keeps_hoare]], rule behaved, intro stable_facts, blast,
      rule hoare_on_error, rule run_execution_calls [OF steady], intro stable_facts, blast)

lemma gates_read_cleared:
  assumes sound: "orch_sound (de_repo env) inv (ap_orch w)"
    and d: "has_terms d w" "hits i c v d" "da_created_by d \<noteq> actor"
    and gates: "gate_for (rp_load_snapshot (de_repo env) c (ap_orch w)) HG_DISBURSEMENT_VALIDATED v \<noteq> None"
      "gate_for (rp_load_snapshot (de_repo env) c (ap_orch w)) HG_DISBURSEMENT_AUTHORIZED v \<noteq> None"
  shows "cleared env c i v d actor w"
proof -
  from gates(1) obtain sn where sn: "rp_load_snapshot (de_repo env) c (ap_orch w) = Some sn"
    by (auto simp: gate_for_def split: option.splits)
  with gates obtain r r' where "gate_for (Some sn) HG_DISBURSEMENT_VALIDATED v = Some r"
    "gate_for (Some sn) HG_DISBURSEMENT_AUTHORIZED v = Some r'" by auto
  moreover have "inv (ap_orch w)" "two_people sn" using sound sn by (auto simp: orch_sound_def)
  ultimately show ?thesis
    using d sn gate_for_stored [OF \<open>inv (ap_orch w)\<close> sn] by (fastforce simp: cleared_def two_people_def)
qed

lemma execute_outcome:
  assumes steady: "others_steady inv env" and sound: "orch_sound (de_repo env) inv (ap_orch w)"
    and run: "execute_disbursement env c i a w = (res, w')"
  shows "orch_sound (de_repo env) inv (ap_orch w') \<and> since env w w' \<and> (ap_calls w' = ap_calls w \<or>
    ap_calls w' = ap_calls w @ [(i, ac_actor_id a)] \<and> OPS_CHECKER_ROLE \<in> set (ac_roles a) \<and>
    (\<exists>v d snapshot w1. read_clearance env c i a w = (Inr (v, d, snapshot), w1) \<and> since env w w1 \<and> since env w1 w' \<and>
       cleared env c i v d (ac_actor_id a) w1))"
proof -
  obtain r w1 where first: "read_clearance env c i a w = (r, w1)" by fastforce
  from well_behavedD [OF well_read_clearance [OF steady] sound first]
  have sound1: "orch_sound (de_repo env) inv (ap_orch w1)" and since1: "since env w w1" and calls: "ap_calls w1 = ap_calls w"
    by (auto simp: since_def)
  show ?thesis
  proof (cases r)
    case (Inl e)
    with run first sound1 since1 calls show ?thesis by (simp add: execute_disbursement_parts)
  next
    case (Inr x)
    obtain v d snapshot where x: "x = (v, d, snapshot)" by (cases x)
    from hoareD_Inr [OF hoare_read_clearance [OF steady] _ first [unfolded Inr x]] sound
    have facts: "OPS_CHECKER_ROLE \<in> set (ac_roles a)" "has_terms d w1" "hits i c v d"
      "snapshot = rp_load_snapshot (de_repo env) c (ap_orch w1)" by (auto simp: sound_with_def)
    from run first Inr x have rest: "execute_cleared env c i a (v, d, snapshot) w1 = (res, w')"
      by (simp add: execute_disbursement_parts)
    have "sound_with inv env (\<lambda>y. since env w1 y \<and> ap_calls y = ap_calls w) w1"
      using sound1 calls by (simp add: sound_with_def since_refl)
    from hoareD_Inr [OF execute_cleared_calls [OF steady] this] hoareD_Inl [OF execute_cleared_calls [OF steady] this] rest
    have "orch_sound (de_repo env) inv (ap_orch w') \<and> since env w1 w' \<and> (ap_calls w' = ap_calls w \<or>
        ap_calls w' = ap_calls w @ [(i, ac_actor_id a)] \<and> gate_for snapshot HG_DISBURSEMENT_VALIDATED v \<noteq> None \<and>
        gate_for snapshot HG_DISBURSEMENT_AUTHORIZED v \<noteq> None \<and> da_created_by d \<noteq> ac_actor_id a)"
      unfolding sound_with_def by (cases res) blast+
    with facts gates_read_cleared [OF sound1 facts(2,3)] first Inr x since1 since_trans [OF since1]
    show ?thesis by blast
  qed
qed

end

section \<open>The relational store as the provider\<close>

text \<open>
  The environment over the Postgres adapters: \<open>get_assigned\<close> joins the case with its
  assignments (\<open>members\<close>), and a tick ends with a run of the dispatcher.
\<close>

definition postgres_disb_env ::
  "(uuid \<Rightarrow> uuid \<Rightarrow> bool) \<Rightarrow> (json \<Rightarrow> task_envelope option) \<Rightarrow> (task_envelope \<Rightarrow> ('q, queue_error, nat) act) \<Rightarrow>
   (unit + bool) option \<Rightarrow> 'q \<Rightarrow> store disb_env \<Rightarrow> store disb_env" where
  "postgres_disb_env members decode send worker q env =
     env\<lparr>de_repo := postgres_orchestration,
         de_assigned := (\<lambda>st c a. if members c a then case_version_of st c else None),
         de_dispatch := (\<lambda>st. fst (snd (dispatch_outbox decode send 32 worker st q)))\<rparr>"

lemma insert_open_gate_bounded:
  assumes "store_inv st" "case_version_of st c = Some w" "v \<le> w"
  shows "store_inv (insert_open_gate c v g st)"
  using assms
  by (auto simp: insert_open_gate_def list_ex_set is_gate_row_key store_inv_def gates_ok_def case_version_of_def)

lemma old_gate_unread:
  assumes "w \<noteq> v"
  shows "case_gates (satisfy_open_gate c v g actor ref st) c' w = case_gates st c' w"
    "case_gates (insert_open_gate c v g st) c' w = case_gates st c' w"
proof -
  show "case_gates (satisfy_open_gate c v g actor ref st) c' w = case_gates st c' w"
    using assms by (simp add: case_gates_def satisfy_open_gate_def, subst filter_map_fixed)
      (auto simp: satisfy_row_def is_gate_row_def satisfied_record_def split: prod.splits)
  show "case_gates (insert_open_gate c v g st) c' w = case_gates st c' w"
    using assms by (simp add: case_gates_def insert_open_gate_def open_gate_def)
qed

lemma ensure_old_gate:
  assumes "store_inv st" "case_version_of st c = Some w" "v < w" "ensure_gate c v g status actor ref st = Inr (r, st')"
  shows "store_inv st' \<and> load_snapshot st' c' = load_snapshot st c'"
proof -
  note st' = ensure_gate_state [OF assms(4)]
  have "store_inv st'" using assms(1-3) by (simp add: st' insert_open_gate_bounded satisfy_open_gate_inv)
  moreover have "load_snapshot st' c = load_snapshot st c"
  proof -
    from assms(3) have "w \<noteq> v" by simp
    then have gates: "case_gates st' c w = case_gates st c w" by (simp add: st' old_gate_unread)
    have "st_cases st' = st_cases st" "st_handoffs st' = st_handoffs st" "st_tasks st' = st_tasks st" "st_gaps st' = st_gaps st"
      by (simp_all add: st' insert_open_gate_def satisfy_open_gate_def)
    then show ?thesis using gates assms(2)
      by (simp add: load_snapshot_def case_version_of_def has_ready_handoff_def case_tasks_def unresolved_gaps_def)
  qed
  ultimately show ?thesis using ensure_gate_other [OF assms(4), of c'] by (cases "c' = c") auto
qed

lemma dispatch_events_outbox: "\<exists>ob. run_store (dispatch_events decode send es d f st q) = st\<lparr>st_outbox := ob\<rparr>"
proof (induction es arbitrary: d f st q)
  case Nil
  show ?case by (auto intro: exI [of _ "st_outbox st"])
next
  case (Cons e es)
  obtain ok st1 q1 where one: "dispatch_one decode send e st q = (ok, st1, q1)" by (metis prod_cases3)
  then have "st1 = mark_outbox_dispatched (ob_event_id e) st \<or> st1 = record_outbox_dispatch_failure (ob_event_id e) st"
    by (auto simp: dispatch_one_def split: if_splits option.splits prod.splits sum.splits)
  then obtain ob where "st1 = st\<lparr>st_outbox := ob\<rparr>" using only_outbox [of "ob_event_id e" st] by metis
  with Cons.IH [of _ _ st1 q1] show ?case by (auto simp: one)
qed

interpretation pgates: gate_repository postgres_orchestration store_inv idempotency_keys used_task_ids used_proposal_ids
proof
  fix st c sn
  assume inv: "store_inv st" and load: "rp_load_snapshot postgres_orchestration c st = Some sn"
  let ?rows = "filter (\<lambda>(c', r). c' = c \<and> gr_case_version r = sn_case_version sn) (st_gates st)"
  from load have gates: "sn_gates sn = map snd ?rows" by (auto simp: case_gates_def dest: load_snapshot_SomeD)
  have "distinct (map gate_key ?rows)" using inv by (intro distinct_map_filter) (simp add: store_inv_def gates_ok_def)
  moreover have "gate_key row = (c, sn_case_version sn, gr_gate_type (snd row))" if "row \<in> set ?rows" for row
    using that by (auto simp: gate_key_def)
  ultimately have "distinct (map (\<lambda>row. gr_gate_type (snd row)) ?rows)"
    by (auto simp: distinct_map inj_on_def)
  then show "list_all (\<lambda>r. gr_case_version r = sn_case_version sn) (sn_gates sn) \<and> distinct (map gr_gate_type (sn_gates sn))"
    unfolding gates by (auto simp: list_all_set o_def)
next
  fix st c sn v g status a ref r st' c'
  assume "store_inv st" "rp_load_snapshot postgres_orchestration c st = Some sn" "v < sn_case_version sn"
    "rp_ensure_gate postgres_orchestration c v g status a ref st = (Inr r, st')"
  then show "store_inv st' \<and> rp_load_snapshot postgres_orchestration c' st' = rp_load_snapshot postgres_orchestration c' st"
    unfolding load_postgres gate_postgres atomically_Inr by (metis ensure_old_gate load_snapshot_SomeD)
qed

interpretation pdisb: disbursement_control "postgres_disb_env members decode send worker q env" store_inv
  idempotency_keys used_task_ids used_proposal_ids for members decode send worker q env
proof -
  have repo: "de_repo (postgres_disb_env members decode send worker q env) = postgres_orchestration"
    by (simp add: postgres_disb_env_def)
  show "disbursement_control (postgres_disb_env members decode send worker q env) store_inv
      idempotency_keys used_task_ids used_proposal_ids"
  proof (rule disbursement_control.intro, unfold repo)
    show "gate_repository postgres_orchestration store_inv idempotency_keys used_task_ids used_proposal_ids"
      by (rule pgates.gate_repository_axioms)
    show "disbursement_control_axioms (postgres_disb_env members decode send worker q env) store_inv"
    proof (rule disbursement_control_axioms.intro)
      fix st c a v assume "de_assigned (postgres_disb_env members decode send worker q env) st c a = Some v"
      then have "case_version_of st c = Some v" by (simp add: postgres_disb_env_def split: if_splits)
      then show "\<exists>sn. rp_load_snapshot (de_repo (postgres_disb_env members decode send worker q env)) c st = Some sn \<and>
          sn_case_version sn = v"
        by (simp add: repo load_snapshot_def)
    next
      fix st c assume inv: "store_inv st"
      obtain ob where "de_dispatch (postgres_disb_env members decode send worker q env) st = st\<lparr>st_outbox := ob\<rparr>"
        using dispatch_events_outbox by (fastforce simp: postgres_disb_env_def dispatch_outbox_def Let_def)
      with inv show "store_inv (de_dispatch (postgres_disb_env members decode send worker q env) st) \<and>
          rp_load_snapshot (de_repo (postgres_disb_env members decode send worker q env)) c
            (de_dispatch (postgres_disb_env members decode send worker q env) st) =
          rp_load_snapshot (de_repo (postgres_disb_env members decode send worker q env)) c st"
        using store_inv_cong [of "st\<lparr>st_outbox := ob\<rparr>" st] load_snapshot_cong [of "st\<lparr>st_outbox := ob\<rparr>" st c]
        by (simp add: repo)
    qed
  qed
qed

section \<open>Properties\<close>

lemma sound_keeps:
  assumes "keeps (sound_with store_inv (postgres_disb_env members decode send worker q env)
      (since (postgres_disb_env members decode send worker q env) w)) m"
    and "orch_sound postgres_orchestration store_inv (ap_orch w)"
  shows "orch_sound postgres_orchestration store_inv (ap_orch (snd (m w))) \<and>
    gates_grow postgres_orchestration (ap_orch w) (ap_orch (snd (m w))) \<and> terms_kept (ap_disb w) (ap_disb (snd (m w)))"
proof -
  have repo: "de_repo (postgres_disb_env members decode send worker q env) = postgres_orchestration"
    by (simp add: postgres_disb_env_def)
  from keepsD [OF assms(1), of w] assms(2) show ?thesis
    by (simp add: sound_with_def since_def repo gates_grow_refl terms_kept_refl)
qed

text \<open>
  C30: The two-person rule survives every interleaving: whatever the rest of the system
  does between the transactions of a handler (as long as it keeps the rule and the
  tables' invariant itself), each of the six handlers leaves a store in which a satisfied
  HG_DISBURSEMENT_AUTHORIZED of a case has a satisfied HG_DISBURSEMENT_VALIDATED by a
  different person beside it; versions only grow, satisfied gates are final, and nothing
  of an action but its status changes.
\<close>

theorem two_person_rule:
  assumes "others_steady store_inv (postgres_disb_env members decode send worker q env)"
    and "orch_sound postgres_orchestration store_inv (ap_orch w)"
  shows "list_all (\<lambda>w'. orch_sound postgres_orchestration store_inv (ap_orch w') \<and>
      gates_grow postgres_orchestration (ap_orch w) (ap_orch w') \<and> terms_kept (ap_disb w) (ap_disb w'))
    [snd (create_disbursement (postgres_disb_env members decode send worker q env) c body a w),
     snd (validate_disbursement (postgres_disb_env members decode send worker q env) c i a w),
     snd (authorize_disbursement (postgres_disb_env members decode send worker q env) c i a w),
     snd (execute_disbursement (postgres_disb_env members decode send worker q env) c i a w),
     snd (reconcile_disbursement (postgres_disb_env members decode send worker q env) c i outcome a w),
     snd (list_disbursements (postgres_disb_env members decode send worker q env) c a w)]"
proof -
  let ?env = "postgres_disb_env members decode send worker q env"
  note steady = assms(1) and keep = sound_keeps [OF _ assms(2)] and stays = keeps_stable [OF _ stable_since]
  have repo: "de_repo ?env = postgres_orchestration" by (simp add: postgres_disb_env_def)
  obtain res w' where run: "execute_disbursement ?env c i a w = (res, w')" by fastforce
  from pdisb.execute_outcome [OF steady _ run] assms(2)
  have "orch_sound postgres_orchestration store_inv (ap_orch (snd (execute_disbursement ?env c i a w))) \<and>
      gates_grow postgres_orchestration (ap_orch w) (ap_orch (snd (execute_disbursement ?env c i a w))) \<and>
      terms_kept (ap_disb w) (ap_disb (snd (execute_disbursement ?env c i a w)))"
    unfolding repo since_def run snd_conv by blast
  with keep [OF stays [OF pdisb.create_well [OF steady]]] keep [OF pdisb.validate_keeps [OF steady stable_since]]
    keep [OF pdisb.authorize_keeps [OF steady stable_since]] keep [OF stays [OF pdisb.reconcile_well [OF steady]]]
    keep [OF stays [OF pdisb.list_well [OF steady]]]
  show ?thesis by simp
qed

text \<open>
  C31: No money moves without clearance: under the same interference a request to execute
  calls the adapter at most once, and only when its actor is a checker and there is a
  moment between the start of the request and its end - the world \<open>w1\<close> that the handler's first
  steps lead to, those that end with reading the gates - at which the case is at the
  version of the action, both gates of that version are satisfied by two different people,
  and the action was made by somebody other than the actor.
\<close>

theorem execution_needs_clearance:
  assumes "others_steady store_inv (postgres_disb_env members decode send worker q env)"
    and "orch_sound postgres_orchestration store_inv (ap_orch w)"
    and "execute_disbursement (postgres_disb_env members decode send worker q env) c i a w = (res, w')"
  shows "ap_calls w' = ap_calls w \<or>
    ap_calls w' = ap_calls w @ [(i, ac_actor_id a)] \<and> OPS_CHECKER_ROLE \<in> set (ac_roles a) \<and>
    (\<exists>v d snapshot w1.
       read_clearance (postgres_disb_env members decode send worker q env) c i a w = (Inr (v, d, snapshot), w1) \<and>
       since (postgres_disb_env members decode send worker q env) w w1 \<and>
       since (postgres_disb_env members decode send worker q env) w1 w' \<and>
       cleared (postgres_disb_env members decode send worker q env) c i v d (ac_actor_id a) w1)"
  using pdisb.execute_outcome [OF assms(1) _ assms(3)] assms(2) by (simp add: postgres_disb_env_def)

section \<open>Witnesses\<close>

text \<open>Case 2 with both gates satisfied, by 60 and by 61, and the action that 50 has proposed.\<close>

definition gate_by :: "gate_type \<Rightarrow> uuid \<Rightarrow> gate_record" where
  "gate_by g a = \<lparr>gr_gate_type = g, gr_case_version = 1, gr_status = SATISFIED, gr_satisfied_by = Some a,
     gr_disposition_ref = None, gr_satisfied_at = Some 5\<rparr>"

definition gated_store :: store where
  "gated_store =
     \<lparr>st_cases = [(2, 1)], st_handoffs = [], st_tasks = [],
      st_gates = [(2, gate_by HG_DISBURSEMENT_VALIDATED 60), (2, gate_by HG_DISBURSEMENT_AUTHORIZED 61)],
      st_gaps = [], st_dependencies = [], st_outbox = [], st_proposals = [], st_audit = [], st_documents = [],
      st_checkpoints = [], st_slot = None, st_clock = 100, st_uuids = (\<lambda>n. 1000 + n), st_drawn = 0\<rparr>"

definition proposed_disb :: disb_store where
  "proposed_disb = (w_store sample_disb_world)\<lparr>db_actions := [sample_action]\<rparr>"

definition gated_world :: "store disb_api" where
  "gated_world =
     \<lparr>ap_orch = gated_store, ap_disb = proposed_disb, ap_ticks = 0, ap_calls = []\<rparr>"

definition quiet_env :: "store disb_env" where
  "quiet_env = postgres_disb_env (\<lambda>c a. True) (\<lambda>j. None) (\<lambda>e q. (Inr 0, q)) None ()
     \<lparr>de_repo = postgres_orchestration, de_assigned = (\<lambda>st c a. None), de_decisions = (\<lambda>c v. None),
      de_text = (\<lambda>x. []), de_adapter = sample_adapter,
      de_kickoff = (\<lambda>n. \<lparr>ke_task_id = 3000 + n, ke_execution_id = 4000 + n, ke_now = 100\<rparr>),
      de_dispatch = (\<lambda>st. st), de_uuid = (\<lambda>n. 5000 + n), de_others = (\<lambda>k p. p)\<rparr>"

definition checker :: actor where
  "checker = \<lparr>ac_actor_id = 61, ac_roles = [OPS_CHECKER_ROLE]\<rparr>"

lemma quiet_steady: "others_steady store_inv quiet_env"
  by (simp add: others_steady_def quiet_env_def postgres_disb_env_def gates_grow_refl terms_kept_refl)

lemma gated_snapshot: "load_snapshot gated_store 2 = Some \<lparr>sn_case_id = 2, sn_case_version = 1,
    sn_has_intake_handoff = False, sn_tasks = [],
    sn_gates = [gate_by HG_DISBURSEMENT_VALIDATED 60, gate_by HG_DISBURSEMENT_AUTHORIZED 61], sn_blocking_gaps = []\<rparr>"
  by (simp add: gated_store_def load_snapshot_def case_version_of_def has_ready_handoff_def
      case_tasks_def case_gates_def unresolved_gaps_def gate_by_def)

lemma gated_sound: "orch_sound postgres_orchestration store_inv (ap_orch gated_world)"
proof -
  have "store_inv gated_store"
    by (simp add: gated_store_def store_inv_def tasks_ok_def gates_ok_def gate_key_def gate_by_def)
  moreover have "two_people sn" if "load_snapshot gated_store c = Some sn" for c sn
  proof -
    from that have "c = 2"
      by (auto simp: load_snapshot_def case_version_of_def gated_store_def split: option.splits if_splits)
    with that gated_snapshot show ?thesis
      by (auto simp: two_people_def stored_gate_def gate_by_def py_dict_def)
  qed
  ultimately show ?thesis by (simp add: orch_sound_def gated_world_def)
qed

lemma proposed_action:
  "load_action 4 2 1 proposed_disb = Some sample_action" "da_created_by sample_action = 50"
  by (simp_all add: load_action_def proposed_disb_def sample_action_def)

lemma gated_execution:
  "ap_calls (snd (execute_disbursement quiet_env 2 4 checker gated_world)) = [(4, 61)]"
proof -
  have "\<exists>d'. begin_attempt 4 2 1 key 61 OPS_CHECKER_ROLE proposed_disb = Inr d'" for key
    using begin_single [of proposed_disb sample_action key 61 OPS_CHECKER_ROLE]
    by (auto simp: proposed_disb_def sample_action_def status_sets)
  then obtain f where begins: "begin_attempt 4 2 1 key 61 OPS_CHECKER_ROLE proposed_disb = Inr (f key)" for key by metis
  have version: "case_version_of gated_store 2 = Some 1" by (simp add: gated_store_def case_version_of_def)
  have gates: "gate_for (load_snapshot gated_store 2) HG_DISBURSEMENT_VALIDATED 1 \<noteq> None"
    "gate_for (load_snapshot gated_store 2) HG_DISBURSEMENT_AUTHORIZED 1 \<noteq> None"
    by (simp_all add: gate_for_def gated_snapshot gate_by_def)
  show ?thesis
    by (simp add: execute_disbursement_def and_then_def require_role_def check_act_def checker_def case_access_def
        on_orch_def interfere_def quiet_env_def postgres_disb_env_def gated_world_def assert_case_access_def version
        load_action_or_404_def on_disb_def proposed_action found_def read_gates_def gates uuid4_def run_execution_def
        on_error_def transact_def begins call_adapter_def del: hex_digits.simps split: prod.split sum.split)
qed

theorem two_person_rule_witness:
  "orch_sound postgres_orchestration store_inv (ap_orch (snd (authorize_disbursement quiet_env 2 4 checker gated_world)))"
  using two_person_rule [OF quiet_steady [unfolded quiet_env_def] gated_sound, folded quiet_env_def] by simp

theorem execution_needs_clearance_witness:
  "\<exists>v d snapshot w1. read_clearance quiet_env 2 4 checker gated_world = (Inr (v, d, snapshot), w1) \<and>
     cleared quiet_env 2 4 v d 61 w1 \<and> ap_calls (snd (execute_disbursement quiet_env 2 4 checker gated_world)) = [(4, 61)]"
proof -
  obtain res w' where run: "execute_disbursement quiet_env 2 4 checker gated_world = (res, w')" by fastforce
  have "ap_calls gated_world = []" "ac_actor_id checker = 61" by (simp_all add: gated_world_def checker_def)
  with execution_needs_clearance [OF quiet_steady [unfolded quiet_env_def] gated_sound run [unfolded quiet_env_def],
      folded quiet_env_def] gated_execution run show ?thesis by auto
qed

end
