(* ===== verification/Disbursement_Trail.thy ===== *)
theory Disbursement_Trail
  imports Disbursements
begin

text \<open>
  The audit trail of the disbursements read back: what the rows of an action say about it,
  the law of such a history, and the proof that the trail of every interleaving obeys it
  and tells exactly the state of the tables.
\<close>

section \<open>Reading the trail\<close>

definition rows_about :: "uuid \<Rightarrow> disb_store \<Rightarrow> audit_row list" where
  "rows_about i st = filter (\<lambda>r. au_artifact_id r = i) (db_audit st)"

definition text_datum :: "string \<Rightarrow> audit_row \<Rightarrow> string option" where
  "text_datum k r = (case map_of (au_event_data r) k of Some (JStr s) \<Rightarrow> Some s | _ \<Rightarrow> None)"

definition status_datum :: "string \<Rightarrow> audit_row \<Rightarrow> execution_status option" where
  "status_datum k r = Option.bind (text_datum k r) execution_status_of"

text \<open>
  The law: an attempt starts from a proposal or from a denied attempt; a result is recorded
  for a key that was requested before, and it settles an attempt that is open or leaves it
  unknown; a human settles an open attempt.  A row that the state before it does not
  permit, or that does not name this state, leaves no reading.
\<close>

type_synonym trail_state = "execution_status \<times> string list"

definition read_requested :: "trail_state \<Rightarrow> audit_row \<Rightarrow> trail_state option" where
  "read_requested t r =
     (if status_datum ''fromStatus'' r = Some (fst t) \<and> fst t \<in> {PROPOSED, CONFIRMED_NOT_EXECUTED}
      then map_option (\<lambda>key. (EXECUTION_REQUESTED, snd t @ [key])) (text_datum ''idempotencyKey'' r)
      else None)"

definition read_recorded :: "trail_state \<Rightarrow> audit_row \<Rightarrow> trail_state option" where
  "read_recorded t r =
     (if text_datum ''idempotencyKey'' r \<in> Some ` set (snd t) \<and>
         (fst t, status_datum ''resultStatus'' r) \<in>
           {(EXECUTION_REQUESTED, Some CONFIRMED_EXECUTED), (EXECUTION_REQUESTED, Some EXECUTION_UNKNOWN),
            (EXECUTION_UNKNOWN, Some CONFIRMED_EXECUTED)}
      then map_option (\<lambda>s. (s, snd t)) (status_datum ''resultStatus'' r)
      else None)"

definition read_reconciled :: "trail_state \<Rightarrow> audit_row \<Rightarrow> trail_state option" where
  "read_reconciled t r =
     (if status_datum ''fromStatus'' r = Some (fst t) \<and> fst t \<in> {EXECUTION_REQUESTED, EXECUTION_UNKNOWN} \<and>
         status_datum ''outcome'' r \<in> {Some CONFIRMED_EXECUTED, Some CONFIRMED_NOT_EXECUTED}
      then map_option (\<lambda>s. (s, snd t)) (status_datum ''outcome'' r)
      else None)"

definition read_row :: "trail_state \<Rightarrow> audit_row \<Rightarrow> trail_state option" where
  "read_row t r =
     (if au_event_type r = ''DISBURSEMENT_EXECUTION_REQUESTED'' then read_requested t r
      else if au_event_type r = ''DISBURSEMENT_EXECUTION_RECORDED'' then read_recorded t r
      else if au_event_type r = ''DISBURSEMENT_EXECUTION_RECONCILED'' then read_reconciled t r
      else None)"

fun read_rows :: "trail_state option \<Rightarrow> audit_row list \<Rightarrow> trail_state option" where
  "read_rows t [] = t"
| "read_rows t (r # rs) = read_rows (Option.bind t (\<lambda>x. read_row x r)) rs"

text \<open>The first row of an action tells who proposed it, for which case and on which decision.\<close>

definition created_row :: "disbursement_action \<Rightarrow> audit_row \<Rightarrow> bool" where
  "created_row d r \<longleftrightarrow> au_event_type r = ''PROPOSED_DISBURSEMENT_CREATED'' \<and>
     au_case_id r = da_case_id d \<and> au_case_version r = da_case_version d \<and> au_actor_id r = Some (da_created_by d) \<and>
     text_datum ''decisionId'' r = Some (str_uuid (da_decision_id d)) \<and> text_datum ''currency'' r = Some (da_currency d) \<and>
     status_datum ''status'' r = Some PROPOSED"

definition trail_of :: "uuid \<Rightarrow> disb_store \<Rightarrow> trail_state option" where
  "trail_of i st = (case rows_about i st of [] \<Rightarrow> None | r # rs \<Rightarrow> read_rows (Some (PROPOSED, [])) rs)"

definition tells :: "disb_store \<Rightarrow> disbursement_action \<Rightarrow> bool" where
  "tells st d \<longleftrightarrow> rows_about (da_id d) st \<noteq> [] \<and> created_row d (hd (rows_about (da_id d) st)) \<and>
     map_option fst (trail_of (da_id d) st) = Some (da_status d)"

text \<open>What the row of a result says of the receipt: who recorded it and its four fields.\<close>

definition receipt_facts :: "receipt_row \<Rightarrow> uuid option \<times> (string \<times> json) list" where
  "receipt_facts x =
     (Some (rr_recorded_by x),
      [(''idempotencyKey'', JStr (er_idempotency_key (rr_receipt x))), (''adapterLabel'', JStr (er_adapter_label (rr_receipt x))),
       (''resultStatus'', JStr (execution_status_value (er_result_status (rr_receipt x)))),
       (''receiptRef'', json_text (er_receipt_ref (rr_receipt x)))])"

definition recorded_facts :: "disb_store \<Rightarrow> (uuid option \<times> (string \<times> json) list) list" where
  "recorded_facts st = map (\<lambda>r. (au_actor_id r, au_event_data r))
     (filter (\<lambda>r. au_event_type r = ''DISBURSEMENT_EXECUTION_RECORDED'') (db_audit st))"

text \<open>
  An adapter's receipt carries the key of the call.  The mock, which is the only adapter of the
  repository, does so whatever identifiers it draws (\<open>mock_execute_answers\<close>).
\<close>

definition answers :: "adapter \<Rightarrow> bool" where
  "answers adapter \<longleftrightarrow> (\<forall>i key. er_idempotency_key (adapter i key) = key)"

lemma mock_execute_answers: "answers (\<lambda>i key. mock_execute u5 simulate_unknown (fresh i key) i key)"
  by (simp add: answers_def mock_execute_def)

lemma execution_status_roundtrip [simp]: "execution_status_of (execution_status_value s) = Some s"
  by (cases s) (simp_all add: execution_status_of_def all_execution_statuses_def)

lemmas execution_status_values [simp] =
  execution_status_roundtrip [of PROPOSED, unfolded execution_status_value.simps]
  execution_status_roundtrip [of EXECUTION_REQUESTED, unfolded execution_status_value.simps]
  execution_status_roundtrip [of EXECUTION_UNKNOWN, unfolded execution_status_value.simps]
  execution_status_roundtrip [of CONFIRMED_EXECUTED, unfolded execution_status_value.simps]
  execution_status_roundtrip [of CONFIRMED_NOT_EXECUTED, unfolded execution_status_value.simps]

lemma read_rows_append: "read_rows t (rs @ [r]) = Option.bind (read_rows t rs) (\<lambda>x. read_row x r)"
  by (induction t rs rule: read_rows.induct) simp_all

section \<open>What each transaction appends\<close>

lemma rows_about_audit [simp]:
  "rows_about j (insert_disb_audit c v event actor role i data st) = rows_about j st @
     (if i = j then [\<lparr>au_id = db_uuids st (db_drawn st), au_case_id = c, au_case_version = v, au_event_type = event,
            au_actor_type = ''HUMAN:'' @ role, au_actor_id = Some actor,
            au_artifact_type = ''PROPOSED_DISBURSEMENT_ACTION'', au_artifact_id = i,
            au_event_data = data, au_created_at = db_clock st\<rparr>] else [])"
  "recorded_facts (insert_disb_audit c v event actor role i data st) = recorded_facts st @
     (if event = ''DISBURSEMENT_EXECUTION_RECORDED'' then [(Some actor, data)] else [])"
  by (auto simp: rows_about_def recorded_facts_def insert_disb_audit_def)

lemma rows_about_tables [simp]:
  "rows_about j (st\<lparr>db_actions := ds\<rparr>) = rows_about j st" "rows_about j (st\<lparr>db_receipts := rs\<rparr>) = rows_about j st"
  "recorded_facts (st\<lparr>db_actions := ds\<rparr>) = recorded_facts st" "recorded_facts (st\<lparr>db_receipts := rs\<rparr>) = recorded_facts st"
  by (simp_all add: rows_about_def recorded_facts_def)

text \<open>A transaction that moves the action \<open>d\<close> to \<open>to\<close> and writes the row \<open>r\<close> about it.\<close>

definition moves :: "disbursement_action \<Rightarrow> execution_status \<Rightarrow> audit_row \<Rightarrow> disb_store \<Rightarrow> disb_store \<Rightarrow> bool" where
  "moves d to r st st' \<longleftrightarrow> d \<in> set (db_actions st) \<and>
     db_actions st' = map (set_status (da_id d) (da_case_id d) (da_case_version d) to) (db_actions st) \<and>
     (\<forall>j. rows_about j st' = rows_about j st @ (if j = da_id d then [r] else []))"

lemma audit_moves:
  assumes "d \<in> set (db_actions st)" "hits i c v d" "st' = insert_disb_audit c v event actor role i data st0"
    and "db_actions st0 = map (set_status i c v to) (db_actions st)" "db_audit st0 = db_audit st"
  shows "\<exists>x. moves d to x st st' \<and> au_event_type x = event \<and> au_event_data x = data"
  using assms by (auto simp: moves_def hits_def) (simp_all add: rows_about_def)

lemma begin_attempt_moves:
  assumes "begin_attempt i c v key actor role st = Inr st'"
  shows "\<exists>d r. hits i c v d \<and> moves d EXECUTION_REQUESTED r st st' \<and>
    (\<forall>keys. read_row (da_status d, keys) r = Some (EXECUTION_REQUESTED, keys @ [key])) \<and>
    db_receipts st' = db_receipts st \<and> recorded_facts st' = recorded_facts st"
proof -
  from assms obtain d where d: "load_action i c v st = Some d" and status: "da_status d \<in> set REATTEMPTABLE_STATUSES"
    and st': "st' = insert_disb_audit c v ''DISBURSEMENT_EXECUTION_REQUESTED'' actor role i
      [(''idempotencyKey'', JStr key), (''fromStatus'', JStr (execution_status_value (da_status d)))]
      (st\<lparr>db_actions := map (set_status i c v EXECUTION_REQUESTED) (db_actions st)\<rparr>)"
    by (auto simp: begin_attempt_def select_for_update_def rbind_Inr update_status_Inr split: option.splits if_splits)
  from load_action_Some [OF d] have hit: "d \<in> set (db_actions st)" "hits i c v d" by auto
  obtain x where x: "moves d EXECUTION_REQUESTED x st st'" "au_event_type x = ''DISBURSEMENT_EXECUTION_REQUESTED''"
      "au_event_data x = [(''idempotencyKey'', JStr key), (''fromStatus'', JStr (execution_status_value (da_status d)))]"
    using audit_moves [OF hit st'] by auto
  with status have "read_row (da_status d, keys) x = Some (EXECUTION_REQUESTED, keys @ [key])" for keys
    by (simp add: read_row_def read_requested_def text_datum_def status_datum_def status_sets)
  moreover have "db_receipts st' = db_receipts st" "recorded_facts st' = recorded_facts st" by (simp_all add: st')
  ultimately show ?thesis using x(1) hit(2) by blast
qed

lemma finish_attempt_moves:
  assumes "finish_attempt i c v r actor role st = Inr (out, st')" "d \<in> set (db_actions st)" "hits i c v d"
  shows "\<exists>x row. moves d (er_result_status r) x st st' \<and>
    (\<forall>keys. er_idempotency_key r \<in> set keys \<longrightarrow> read_row (da_status d, keys) x = Some (er_result_status r, keys)) \<and>
    db_receipts st' = db_receipts st @ [row] \<and> recorded_facts st' = recorded_facts st @ [receipt_facts row]"
proof -
  let ?row = "\<lparr>rr_receipt = r, rr_recorded_by = actor, rr_created_at = db_clock st\<rparr>"
  from assms(1) have checks: "receipt_checks st r"
    and allowed: "list_all (\<lambda>d. \<not> hits i c v d \<or> is_execution_transition_allowed (da_status d) (er_result_status r)) (db_actions st)"
    and st': "st' = insert_disb_audit c v ''DISBURSEMENT_EXECUTION_RECORDED'' actor role i (snd (receipt_facts ?row))
      (st\<lparr>db_receipts := db_receipts st @ [?row], db_actions := map (set_status i c v (er_result_status r)) (db_actions st)\<rparr>)"
    by (auto simp: finish_attempt_def Let_def rbind_Inr update_status_Inr receipt_facts_def split: option.splits)
  from checks have valid: "er_result_status r \<in> set ADAPTER_RESULT_STATUSES" by (simp add: receipt_checks_def valid_receipt_def)
  from allowed assms(2,3) have "is_execution_transition_allowed (da_status d) (er_result_status r)"
    by (auto simp: list_all_set)
  with valid have law: "(da_status d, Some (er_result_status r)) \<in> {(EXECUTION_REQUESTED, Some CONFIRMED_EXECUTED),
      (EXECUTION_REQUESTED, Some EXECUTION_UNKNOWN), (EXECUTION_UNKNOWN, Some CONFIRMED_EXECUTED)}"
    by (cases "da_status d") (auto simp: status_sets)
  obtain x where x: "moves d (er_result_status r) x st st'" "au_event_type x = ''DISBURSEMENT_EXECUTION_RECORDED''"
      "au_event_data x = snd (receipt_facts ?row)"
    using audit_moves [OF assms(2,3) st'] by auto
  then have "text_datum ''idempotencyKey'' x = Some (er_idempotency_key r)"
    "status_datum ''resultStatus'' x = Some (er_result_status r)"
    by (simp_all add: text_datum_def status_datum_def receipt_facts_def)
  with law x(2) have "read_row (da_status d, keys) x = Some (er_result_status r, keys)"
    if "er_idempotency_key r \<in> set keys" for keys
    using that by (simp add: read_row_def read_recorded_def)
  moreover have "db_receipts st' = db_receipts st @ [?row]" "recorded_facts st' = recorded_facts st @ [receipt_facts ?row]"
    by (simp_all add: st' receipt_facts_def)
  ultimately show ?thesis using x(1) by blast
qed

lemma reconcile_action_moves:
  assumes "reconcile_action i c v to rationale actor role st = Inr (out, st')"
  shows "\<exists>d x. moves d to x st st' \<and> (\<forall>keys. read_row (da_status d, keys) x = Some (to, keys)) \<and>
    db_receipts st' = db_receipts st \<and> recorded_facts st' = recorded_facts st"
proof -
  from assms obtain d where d: "load_action i c v st = Some d" and status: "da_status d \<in> set RECONCILABLE_STATUSES"
      "to \<in> set RECONCILIATION_OUTCOMES"
    and st': "st' = insert_disb_audit c v ''DISBURSEMENT_EXECUTION_RECONCILED'' actor role i
      [(''fromStatus'', JStr (execution_status_value (da_status d))), (''outcome'', JStr (execution_status_value to)),
       (''rationale'', JStr rationale)] (st\<lparr>db_actions := map (set_status i c v to) (db_actions st)\<rparr>)"
    by (auto simp: reconcile_action_def Let_def select_for_update_def rbind_Inr update_status_Inr split: option.splits)
  from load_action_Some [OF d] have hit: "d \<in> set (db_actions st)" "hits i c v d" by auto
  obtain x where x: "moves d to x st st'" "au_event_type x = ''DISBURSEMENT_EXECUTION_RECONCILED''"
      "au_event_data x = [(''fromStatus'', JStr (execution_status_value (da_status d))),
         (''outcome'', JStr (execution_status_value to)), (''rationale'', JStr rationale)]"
    using audit_moves [OF hit st'] by auto
  with status have "read_row (da_status d, keys) x = Some (to, keys)" for keys
    by (simp add: read_row_def read_reconciled_def text_datum_def status_datum_def status_sets)
  moreover have "db_receipts st' = db_receipts st" "recorded_facts st' = recorded_facts st" by (simp_all add: st')
  ultimately show ?thesis using x(1) by blast
qed

lemma create_action_tells:
  assumes "create_action text d st = Inr (out, st')" "da_status d = PROPOSED"
  shows "st' = st \<or> (\<exists>r row. db_actions st' = db_actions st @ [row] \<and> da_id row \<notin> da_id ` set (db_actions st) \<and>
    da_status row = PROPOSED \<and> created_row row r \<and> (\<forall>j. rows_about j st' = rows_about j st @ (if j = da_id row then [r] else [])) \<and>
    db_receipts st' = db_receipts st \<and> recorded_facts st' = recorded_facts st)"
proof (cases "for_version (da_case_id d) (da_case_version d) st")
  case (Some x)
  with assms show ?thesis by (auto simp: create_action_def rbind_Inr)
next
  case None
  with assms have "list_all (\<lambda>x. da_id x \<noteq> da_id d) (db_actions st)" and st': "st' =
      insert_disb_audit (da_case_id d) (da_case_version d) ''PROPOSED_DISBURSEMENT_CREATED'' (da_created_by d)
        ''OPS_OFFICER'' (da_id d)
        [(''decisionId'', JStr (str_uuid (da_decision_id d))), (''amount'', JStr (text (da_amount d))),
         (''currency'', JStr (da_currency d)), (''status'', JStr (execution_status_value (da_status d)))]
        (st\<lparr>db_actions := db_actions st @ [d\<lparr>da_created_at := db_clock st\<rparr>]\<rparr>)"
    by (auto simp: create_action_def rbind_Inr Let_def)
  with assms(2) show ?thesis
    by (intro disjI2 exI [of _ "d\<lparr>da_created_at := db_clock st\<rparr>"] exI conjI)
      (auto simp: st' list_all_set created_row_def text_datum_def status_datum_def)
qed

section \<open>The invariant\<close>

definition trail_inv :: "disb_store \<Rightarrow> bool" where
  "trail_inv st \<longleftrightarrow> distinct (map da_id (db_actions st)) \<and> list_all (tells st) (db_actions st) \<and>
     (\<forall>i. i \<in> da_id ` set (db_actions st) \<or> rows_about i st = []) \<and>
     recorded_facts st = map receipt_facts (db_receipts st)"

text \<open>An attempt in flight has been requested, with its key, for an action of the table.\<close>

definition requested :: "disb_store \<Rightarrow> flight \<Rightarrow> bool" where
  "requested st f \<longleftrightarrow> (\<exists>d. d \<in> set (db_actions st) \<and> hits (fl_action f) (fl_case f) (fl_version f) d) \<and>
     (\<exists>s keys. trail_of (fl_action f) st = Some (s, keys) \<and> fl_key f \<in> set keys)"

lemma trail_appended:
  "rows_about i st' = rows_about i st @ [r] \<Longrightarrow> rows_about i st \<noteq> [] \<Longrightarrow>
   trail_of i st' = Option.bind (trail_of i st) (\<lambda>t. read_row t r)"
  by (auto simp: trail_of_def read_rows_append split: list.splits)

lemma trail_unchanged: "rows_about i st' = rows_about i st \<Longrightarrow> trail_of i st' = trail_of i st"
  by (simp add: trail_of_def)

lemma tells_trail: "tells st d \<Longrightarrow> \<exists>keys. trail_of (da_id d) st = Some (da_status d, keys)"
  by (auto simp: tells_def)

lemma moves_tells:
  assumes inv: "trail_inv st" and move: "moves d to r st st'"
    and reads: "\<And>keys. trail_of (da_id d) st = Some (da_status d, keys) \<Longrightarrow>
      \<exists>more. read_row (da_status d, keys) r = Some (to, keys @ more)"
    and facts: "recorded_facts st' = map receipt_facts (db_receipts st')"
  shows "trail_inv st' \<and> (\<forall>f. requested st f \<longrightarrow> requested st' f) \<and>
    (\<exists>keys. trail_of (da_id d) st = Some (da_status d, keys) \<and> trail_of (da_id d) st' = read_row (da_status d, keys) r)"
proof -
  from move have d: "d \<in> set (db_actions st)"
    and st': "db_actions st' = map (set_status (da_id d) (da_case_id d) (da_case_version d) to) (db_actions st)"
    and rows: "\<And>j. rows_about j st' = rows_about j st @ (if j = da_id d then [r] else [])" by (auto simp: moves_def)
  from inv d have told: "tells st d" by (simp add: trail_inv_def list_all_set)
  then obtain keys more where keys: "trail_of (da_id d) st = Some (da_status d, keys)"
    "read_row (da_status d, keys) r = Some (to, keys @ more)" using tells_trail reads by blast
  have appended: "trail_of (da_id d) st' = Some (to, keys @ more)"
    using trail_appended [of "da_id d" st' st r] rows told keys by (simp add: tells_def)
  have other: "trail_of j st' = trail_of j st" if "j \<noteq> da_id d" for j
    using rows that by (intro trail_unchanged) simp
  have ids: "map da_id (db_actions st') = map da_id (db_actions st)" by (simp add: st')
  then have idset: "da_id ` set (db_actions st') = da_id ` set (db_actions st)" by (metis set_map)
  have "tells st' (set_status (da_id d) (da_case_id d) (da_case_version d) to x)" if x: "x \<in> set (db_actions st)" for x
  proof (cases "da_id x = da_id d")
    case True
    with inv d x have "x = d" by (auto simp: trail_inv_def distinct_map inj_on_def)
    with told rows appended show ?thesis by (simp add: tells_def set_status_def hits_def created_row_def)
  next
    case False
    with inv x have "tells st x" by (simp add: trail_inv_def list_all_set)
    with False rows other show ?thesis by (simp add: tells_def set_status_def hits_def)
  qed
  then have "list_all (tells st') (db_actions st')" by (auto simp: st' list_all_set)
  moreover have "j \<in> da_id ` set (db_actions st') \<or> rows_about j st' = []" for j
    using inv d rows [of j] unfolding trail_inv_def idset by (cases "j = da_id d") auto
  ultimately have "trail_inv st'" using inv facts unfolding trail_inv_def ids by blast
  moreover have "requested st' f" if f: "requested st f" for f
  proof -
    from f obtain d' s ks where f': "d' \<in> set (db_actions st)" "hits (fl_action f) (fl_case f) (fl_version f) d'"
      "trail_of (fl_action f) st = Some (s, ks)" "fl_key f \<in> set ks" by (auto simp: requested_def)
    let ?d' = "set_status (da_id d) (da_case_id d) (da_case_version d) to d'"
    from f' have "?d' \<in> set (db_actions st')" "hits (fl_action f) (fl_case f) (fl_version f) ?d'"
      by (auto simp: st' hits_def)
    moreover have "\<exists>s ks. trail_of (fl_action f) st' = Some (s, ks) \<and> fl_key f \<in> set ks"
      using f' keys appended other by (cases "fl_action f = da_id d") auto
    ultimately show ?thesis unfolding requested_def by blast
  qed
  ultimately show ?thesis using keys appended by auto
qed

definition trail_world :: "adapter \<Rightarrow> disb_world \<Rightarrow> bool" where
  "trail_world adapter w \<longleftrightarrow> trail_inv (w_store w) \<and> list_all (requested (w_store w)) (w_flights w) \<and>
     list_all (\<lambda>f. fl_receipt f = None \<or> fl_receipt f = Some (adapter (fl_action f) (fl_key f))) (w_flights w)"

lemma trail_worldI:
  assumes "trail_world adapter w" "trail_inv st" "\<And>f. requested (w_store w) f \<Longrightarrow> requested st f"
    and "\<And>f. f \<in> set fs \<Longrightarrow> f \<in> set (w_flights w) \<or>
      requested st f \<and> (fl_receipt f = None \<or> fl_receipt f = Some (adapter (fl_action f) (fl_key f)))"
  shows "trail_world adapter (w\<lparr>w_store := st, w_flights := fs\<rparr>)"
  using assms unfolding trail_world_def list_all_set by fastforce

lemma created_tells:
  assumes "trail_inv st" "create_action text d st = Inr (out, st')" "da_status d = PROPOSED"
  shows "trail_inv st' \<and> (\<forall>f. requested st f \<longrightarrow> requested st' f)"
proof (cases "st' = st")
  case False
  with create_action_tells [OF assms(2,3)] obtain r row where new: "db_actions st' = db_actions st @ [row]"
      "da_id row \<notin> da_id ` set (db_actions st)" "da_status row = PROPOSED" "created_row row r"
    and rows: "\<And>j. rows_about j st' = rows_about j st @ (if j = da_id row then [r] else [])"
    and facts: "db_receipts st' = db_receipts st" "recorded_facts st' = recorded_facts st" by blast
  have other: "trail_of j st' = trail_of j st" "rows_about j st' = rows_about j st" if "j \<in> da_id ` set (db_actions st)" for j
  proof -
    from that new(2) have "j \<noteq> da_id row" by metis
    with rows [of j] show "rows_about j st' = rows_about j st" by simp
    then show "trail_of j st' = trail_of j st" by (rule trail_unchanged)
  qed
  have "rows_about (da_id row) st = []" using assms(1) new(2) by (auto simp: trail_inv_def)
  with rows new have "tells st' row" by (simp add: tells_def trail_of_def)
  moreover have "tells st' x" if "x \<in> set (db_actions st)" for x
    using assms(1) that other [of "da_id x"] by (simp add: trail_inv_def list_all_set tells_def)
  ultimately have "list_all (tells st') (db_actions st')" by (auto simp: new(1) list_all_set)
  moreover have "j \<in> da_id ` set (db_actions st') \<or> rows_about j st' = []" for j
    using assms(1) rows [of j] by (auto simp: new(1) trail_inv_def)
  moreover have "distinct (map da_id (db_actions st'))" using assms(1) new by (auto simp: trail_inv_def)
  moreover have "recorded_facts st' = map receipt_facts (db_receipts st')"
    using assms(1) facts by (simp add: trail_inv_def)
  ultimately have "trail_inv st'" unfolding trail_inv_def by blast
  moreover have "requested st' f" if f: "requested st f" for f
  proof -
    from f obtain d where "d \<in> set (db_actions st)" "da_id d = fl_action f" by (auto simp: requested_def hits_def)
    then have "fl_action f \<in> da_id ` set (db_actions st)" by (metis imageI)
    with f other show ?thesis by (auto simp: requested_def new(1))
  qed
  ultimately show ?thesis by blast
qed (use assms(1) in simp)

lemma trail_step:
  assumes adapter: "answers adapter" and step: "disb_step adapter w w'" and world: "trail_world adapter w"
  shows "trail_world adapter w'"
proof -
  have inv: "trail_inv (w_store w)" using world by (simp add: trail_world_def)
  then have facts: "recorded_facts (w_store w) = map receipt_facts (db_receipts (w_store w))" by (simp add: trail_inv_def)
  show ?thesis using step
  proof (cases rule: disb_step.cases)
    case (create amounts i c v decision amount currency beneficiary account actor out st)
    from created_tells [OF inv create(2)] have "trail_world adapter (w\<lparr>w_store := st, w_flights := w_flights w\<rparr>)"
      by (intro trail_worldI [OF world]) auto
    with create(1) show ?thesis by simp
  next
    case (begins i c v key actor role st)
    from begin_attempt_moves [OF begins(2)] obtain d r where d: "hits i c v d"
      and move: "moves d EXECUTION_REQUESTED r (w_store w) st"
      and reads: "\<And>keys. read_row (da_status d, keys) r = Some (EXECUTION_REQUESTED, keys @ [key])"
      and same: "db_receipts st = db_receipts (w_store w)" "recorded_facts st = recorded_facts (w_store w)" by blast
    have after: "trail_inv st \<and> (\<forall>f. requested (w_store w) f \<longrightarrow> requested st f) \<and>
        (\<exists>keys. trail_of (da_id d) (w_store w) = Some (da_status d, keys) \<and> trail_of (da_id d) st = read_row (da_status d, keys) r)"
      by (rule moves_tells [OF inv move]) (simp_all add: reads facts same)
    from move have "set_status (da_id d) (da_case_id d) (da_case_version d) EXECUTION_REQUESTED d \<in> set (db_actions st)"
      by (auto simp: moves_def)
    with d after reads have "requested st \<lparr>fl_action = i, fl_case = c, fl_version = v, fl_key = key, fl_receipt = None\<rparr>"
      unfolding requested_def by (fastforce simp: hits_def)
    with after show ?thesis unfolding begins(1) by (intro trail_worldI [OF world]) auto
  next
    case (calls fs f gs)
    let ?f = "f\<lparr>fl_receipt := Some (adapter (fl_action f) (fl_key f))\<rparr>"
    have f: "requested (w_store w) f" using world calls(2) by (simp add: trail_world_def)
    then have "requested (w_store w) ?f" by (simp add: requested_def)
    then have "trail_world adapter (w\<lparr>w_store := w_store w, w_flights := fs @ ?f # gs\<rparr>)"
      using calls(2) inv by (intro trail_worldI [OF world]) auto
    then show ?thesis by (simp add: calls(1) trail_world_def)
  next
    case (finishes fs f gs r actor role out st)
    have f: "requested (w_store w) f" and r: "r = adapter (fl_action f) (fl_key f)"
      using world finishes(2,3) by (auto simp: trail_world_def)
    from f obtain d s keys where d: "d \<in> set (db_actions (w_store w))" "hits (fl_action f) (fl_case f) (fl_version f) d"
      and keys: "trail_of (fl_action f) (w_store w) = Some (s, keys)" "fl_key f \<in> set keys" by (auto simp: requested_def)
    from finish_attempt_moves [OF finishes(4) d] obtain x row where move: "moves d (er_result_status r) x (w_store w) st"
      and reads: "\<And>ks. er_idempotency_key r \<in> set ks \<Longrightarrow> read_row (da_status d, ks) x = Some (er_result_status r, ks)"
      and same: "db_receipts st = db_receipts (w_store w) @ [row]"
        "recorded_facts st = recorded_facts (w_store w) @ [receipt_facts row]" by blast
    have key: "er_idempotency_key r = fl_key f" using adapter r by (simp add: answers_def)
    from d(2) have id: "da_id d = fl_action f" by (simp add: hits_def)
    have "trail_inv st \<and> (\<forall>f. requested (w_store w) f \<longrightarrow> requested st f) \<and>
        (\<exists>keys. trail_of (da_id d) (w_store w) = Some (da_status d, keys) \<and> trail_of (da_id d) st = read_row (da_status d, keys) x)"
      by (rule moves_tells [OF inv move]) (use keys in \<open>simp_all add: id reads key facts same\<close>)
    then show ?thesis unfolding finishes(1) using finishes(2) by (intro trail_worldI [OF world]) auto
  next
    case (loses fs f gs)
    then have "trail_world adapter (w\<lparr>w_store := w_store w, w_flights := fs @ gs\<rparr>)"
      using inv by (intro trail_worldI [OF world]) auto
    then show ?thesis by (simp add: loses(1))
  next
    case (reconciles i c v out rationale actor role d st)
    from reconcile_action_moves [OF reconciles(2)] obtain x r where move: "moves x out r (w_store w) st"
      and reads: "\<And>keys. read_row (da_status x, keys) r = Some (out, keys)"
      and same: "db_receipts st = db_receipts (w_store w)" "recorded_facts st = recorded_facts (w_store w)" by blast
    have "trail_inv st \<and> (\<forall>f. requested (w_store w) f \<longrightarrow> requested st f) \<and>
        (\<exists>keys. trail_of (da_id x) (w_store w) = Some (da_status x, keys) \<and> trail_of (da_id x) st = read_row (da_status x, keys) r)"
      by (rule moves_tells [OF inv move]) (simp_all add: reads facts same)
    then have "trail_world adapter (w\<lparr>w_store := st, w_flights := w_flights w\<rparr>)"
      by (intro trail_worldI [OF world]) auto
    with reconciles(1) show ?thesis by simp
  qed
qed

lemma reachable_trail:
  assumes "answers adapter" "(disb_step adapter)\<^sup>*\<^sup>* w w'" "trail_world adapter w"
  shows "trail_world adapter w'"
  using assms(2,3) by (induction rule: rtranclp_induct) (auto intro: trail_step [OF assms(1)])

section \<open>Properties\<close>

text \<open>
  C17: The audit trail is a complete and lawful account of the disbursements: in every
  interleaving of attempts, lost responses and reconciliations the rows about an action
  begin with its creation - by its maker, on its decision - and read row by row under the
  law of the lifecycle (each names the state before it, a result only answers a requested
  key) they end in exactly the status that the table holds; rows about no action do not exist; and the recorded
  results are the receipts, one for one and in their order, with who recorded them.
\<close>

theorem audit_trail_complete:
  assumes "initial_world w0" and "db_receipts (w_store w0) = []" and "answers adapter"
    and "(disb_step adapter)\<^sup>*\<^sup>* w0 w"
  shows "list_all (tells (w_store w)) (db_actions (w_store w)) \<and>
    list_all (\<lambda>r. list_ex (\<lambda>d. da_id d = au_artifact_id r) (db_actions (w_store w))) (db_audit (w_store w)) \<and>
    recorded_facts (w_store w) = map receipt_facts (db_receipts (w_store w))"
proof -
  have "trail_world adapter w0"
    using assms(1,2) by (simp add: trail_world_def trail_inv_def initial_world_def rows_about_def recorded_facts_def)
  from reachable_trail [OF assms(3,4) this] have inv: "trail_inv (w_store w)" by (simp add: trail_world_def)
  have "au_artifact_id r \<in> da_id ` set (db_actions (w_store w))" if "r \<in> set (db_audit (w_store w))" for r
  proof -
    from that have "r \<in> set (rows_about (au_artifact_id r) (w_store w))" by (simp add: rows_about_def)
    with inv show ?thesis unfolding trail_inv_def by (metis empty_iff empty_set)
  qed
  then have "list_all (\<lambda>r. list_ex (\<lambda>d. da_id d = au_artifact_id r) (db_actions (w_store w))) (db_audit (w_store w))"
    by (fastforce simp: list_all_set list_ex_iff)
  with inv show ?thesis by (simp add: trail_inv_def)
qed

section \<open>Witness\<close>

text \<open>An attempt that is begun, called and recorded.\<close>

lemma finish_single:
  assumes "db_actions st = [sample_action\<lparr>da_status := EXECUTION_REQUESTED\<rparr>]" "db_receipts st = []"
  shows "\<exists>out st'. finish_attempt 4 2 1 (sample_adapter 4 ''k1'') 60 ''OPS_CHECKER'' st = Inr (out, st') \<and>
    db_actions st' = [sample_action\<lparr>da_status := CONFIRMED_EXECUTED\<rparr>]"
proof -
  have "not_blank ''k1''" "str_uuid 0 \<noteq> []" "not_blank (str_uuid 0)" by code_simp+
  then show ?thesis using assms
    by (simp add: finish_attempt_def Let_def receipt_checks_def valid_receipt_def sample_adapter_def mock_execute_def
      update_status_def for_version_def sample_action_def status_sets)
qed

lemma sample_recorded:
  "\<exists>w. (disb_step sample_adapter)\<^sup>*\<^sup>* sample_disb_world w \<and>
     db_actions (w_store w) = [sample_action\<lparr>da_status := CONFIRMED_EXECUTED\<rparr>]"
proof -
  let ?w0 = sample_disb_world and ?step = "disb_step sample_adapter"
  let ?f = "\<lparr>fl_action = 4, fl_case = 2, fl_version = 1, fl_key = ''k1'', fl_receipt = None\<rparr>"
  obtain st1 where "create_action (\<lambda>x. []) (new_action 4 2 1 3 100 ''VND'' ''b'' ''a'' 50) (w_store ?w0) =
      Inr ((sample_action, True), st1)" and st1: "db_actions st1 = [sample_action]" "db_receipts st1 = []"
    by (simp add: create_action_def valid_action_def action_row_checks_def row_text_simps sample_action_def sample_disb_world_def
        new_action_def for_version_def Let_def)
  from create [OF this(1)] have s1: "?step ?w0 (?w0\<lparr>w_store := st1\<rparr>)" .
  from begin_single [OF st1(1), of "''k1''" 60 "''OPS_CHECKER''"] obtain st2 where
    begun: "begin_attempt 4 2 1 ''k1'' 60 ''OPS_CHECKER'' st1 = Inr st2"
    and st2: "db_actions st2 = [sample_action\<lparr>da_status := EXECUTION_REQUESTED\<rparr>]"
    by (auto simp: sample_action_def status_sets)
  from begin_attempt_cases [OF begun] st1 have empty: "db_receipts st2 = []" by simp
  have s2: "?step (?w0\<lparr>w_store := st1\<rparr>) (?w0\<lparr>w_store := st2, w_flights := [?f]\<rparr>)"
    using begins [of 4 2 1 "''k1''" 60 "''OPS_CHECKER''" "?w0\<lparr>w_store := st1\<rparr>" st2] begun by (simp add: sample_disb_world_def)
  let ?g = "?f\<lparr>fl_receipt := Some (sample_adapter (fl_action ?f) (fl_key ?f))\<rparr>"
  have s3: "?step (?w0\<lparr>w_store := st2, w_flights := [?f]\<rparr>)
      (?w0\<lparr>w_store := st2, w_flights := [?f]\<rparr>\<lparr>w_flights := [] @ ?g # [], w_calls := w_calls ?w0 @ [fl_action ?f]\<rparr>)"
    (is "disb_step _ _ ?w3") using calls [of "?w0\<lparr>w_store := st2, w_flights := [?f]\<rparr>" "[]" ?f "[]"] by simp
  from finish_single [OF st2 empty] obtain out st3 where
    "finish_attempt 4 2 1 (sample_adapter 4 ''k1'') 60 ''OPS_CHECKER'' st2 = Inr (out, st3)"
    and st3: "db_actions st3 = [sample_action\<lparr>da_status := CONFIRMED_EXECUTED\<rparr>]" by blast
  then have s4: "?step ?w3 (?w3\<lparr>w_store := st3, w_flights := [] @ []\<rparr>)"
    by (intro finishes [of ?w3 "[]" ?g "[]" "sample_adapter 4 ''k1''"]) simp_all
  from s1 s2 s3 s4 have "?step\<^sup>*\<^sup>* ?w0 (?w3\<lparr>w_store := st3, w_flights := [] @ []\<rparr>)"
    by (meson converse_rtranclp_into_rtranclp rtranclp.rtrancl_refl)
  with st3 show ?thesis by (intro exI [of _ "?w3\<lparr>w_store := st3, w_flights := [] @ []\<rparr>"] conjI) simp_all
qed

theorem audit_trail_complete_witness:
  "\<exists>w. (disb_step sample_adapter)\<^sup>*\<^sup>* sample_disb_world w \<and> map_option fst (trail_of 4 (w_store w)) = Some CONFIRMED_EXECUTED"
proof -
  obtain w where run: "(disb_step sample_adapter)\<^sup>*\<^sup>* sample_disb_world w"
    and row: "db_actions (w_store w) = [sample_action\<lparr>da_status := CONFIRMED_EXECUTED\<rparr>]" using sample_recorded by blast
  have "answers sample_adapter"
    using mock_execute_answers [of "\<lambda>x. 0" False "\<lambda>i key. 5"] by (simp add: answers_def sample_adapter_def)
  from audit_trail_complete [OF sample_initial _ this run] row run show ?thesis
    by (auto simp: sample_disb_world_def tells_def sample_action_def)
qed

end
