(* ===== verification/Json_Payload.thy ===== *)
theory Json_Payload
  imports Vocabulary
begin

text \<open>
  The JSON values a reasoning endpoint returns and the Python reading of them.
  Every agent builder (\<open>application/underwriting/maker.py\<close>,
  \<open>application/legal/reviewer.py\<close>, \<open>application/risk_review/checker.py\<close>) takes the
  decoded payload apart with \<open>dict.get\<close>, \<open>str\<close>, \<open>list\<close>, \<open>dict\<close>, \<open>UUID\<close> and
  enumeration calls, each of which may raise; this theory models those calls, the
  exceptions they raise, and the JSON Schema keywords of the closed response
  schemas the builders send with the request.

  A JSON number with a fraction or exponent is held as the text Python prints for
  it.  Characters are those below code point 256.
\<close>

section \<open>Exceptions\<close>

text \<open>
  \<open>Output_Invalid\<close> is the builder's own exception (\<open>MakerOutputInvalid\<close>,
  \<open>ReviewerOutputInvalid\<close>, \<open>CheckerOutputInvalid\<close>, \<open>PreAnalysisOutputInvalid\<close>);
  pydantic's \<open>ValidationError\<close> is a \<open>ValueError\<close>.
\<close>

datatype build_error =
    Output_Invalid | Same_Execution | Value_Error | Type_Error | Attribute_Error

text \<open>\<open>except (ValidationError, ValueError, TypeError, KeyError)\<close>: an \<open>AttributeError\<close> passes.\<close>

fun rejected :: "build_error \<Rightarrow> build_error" where
  "rejected Value_Error = Output_Invalid"
| "rejected Type_Error = Output_Invalid"
| "rejected e = e"

definition rejecting :: "build_error + 'a \<Rightarrow> build_error + 'a" where
  "rejecting r = (case r of Inl e \<Rightarrow> Inl (rejected e) | Inr x \<Rightarrow> Inr x)"

lemma rejecting_Inr [simp]: "rejecting r = Inr x \<longleftrightarrow> r = Inr x"
  by (simp add: rejecting_def split: sum.split)

lemma rejecting_Inl: "rejecting r = Inl e \<longleftrightarrow> (\<exists>e'. r = Inl e' \<and> e = rejected e')"
  by (auto simp: rejecting_def split: sum.split)

section \<open>Text of a value\<close>

text \<open>\<open>repr\<close> of a string: the quote, the escapes, and \<open>\xNN\<close> for what does not print.\<close>

definition prints :: "char \<Rightarrow> bool" where
  "prints c = (let n = of_char c :: nat in (32 \<le> n \<and> n < 127) \<or> (160 < n \<and> n \<noteq> 173))"

definition repr_char :: "char \<Rightarrow> char \<Rightarrow> string" where
  "repr_char quote c =
     (if c = quote \<or> c = CHR 0x5C then [CHR 0x5C, c]
      else if c = CHR 0x0A then [CHR 0x5C, CHR ''n'']
      else if c = CHR 0x0D then [CHR 0x5C, CHR ''r'']
      else if c = CHR 0x09 then [CHR 0x5C, CHR ''t'']
      else if prints c then [c]
      else [CHR 0x5C, CHR ''x''] @ hex_digits 2 (of_char c))"

definition repr_str :: "string \<Rightarrow> string" where
  "repr_str s =
     (let quote = (if CHR 0x27 \<in> set s \<and> CHR 0x22 \<notin> set s then CHR 0x22 else CHR 0x27)
      in [quote] @ concat (map (repr_char quote) s) @ [quote])"

primrec py_repr :: "json \<Rightarrow> string" where
  "py_repr JNull = ''None''"
| "py_repr (JBool b) = (if b then ''True'' else ''False'')"
| "py_repr (JInt i) = str_int i"
| "py_repr (JFloat s) = s"
| "py_repr (JStr s) = repr_str s"
| "py_repr (JList xs) = ''['' @ join_with '', '' (map py_repr xs) @ '']''"
| "py_repr (JObj kvs) =
     ''{'' @ join_with '', '' (map (\<lambda>(k, v). repr_str k @ '': '' @ v) (map (map_prod id py_repr) kvs)) @ ''}''"

fun py_str :: "json \<Rightarrow> string" where
  "py_str (JStr s) = s"
| "py_str j = py_repr j"

section \<open>Coercions\<close>

text \<open>\<open>list(x)\<close> and \<open>for ... in x\<close>: a string yields its characters, a dictionary its keys.\<close>

fun py_list :: "json \<Rightarrow> build_error + json list" where
  "py_list (JList xs) = Inr xs"
| "py_list (JStr s) = Inr (map (\<lambda>c. JStr [c]) s)"
| "py_list (JObj kvs) = Inr (map (JStr \<circ> fst) kvs)"
| "py_list j = Inl Type_Error"

text \<open>
  \<open>dict(x)\<close>: a mapping, or an iterable of pairs with hashable keys, the last pair of a
  key winning.  A key that is not a string is never looked up and is left out.
\<close>

fun hashable :: "json \<Rightarrow> bool" where
  "hashable (JList xs) = False"
| "hashable (JObj kvs) = False"
| "hashable j = True"

definition py_pair :: "json \<Rightarrow> build_error + json \<times> json" where
  "py_pair e =
     rbind (py_list e) (\<lambda>xs. case xs of
         [k, v] \<Rightarrow> if hashable k then Inr (k, v) else Inl Type_Error
       | _ \<Rightarrow> Inl Value_Error)"

fun string_key :: "json \<times> json \<Rightarrow> (string \<times> json) option" where
  "string_key (JStr k, v) = Some (k, v)"
| "string_key _ = None"

fun py_dict_of :: "json \<Rightarrow> build_error + (string \<times> json) list" where
  "py_dict_of (JObj kvs) = Inr kvs"
| "py_dict_of j =
     rbind (py_list j) (\<lambda>es. rbind (map_result py_pair es) (\<lambda>ps. Inr (rev (List.map_filter string_key ps))))"

definition get_or :: "(string \<times> json) list \<Rightarrow> string \<Rightarrow> json \<Rightarrow> json" where
  "get_or item key dflt = (case map_of item key of None \<Rightarrow> dflt | Some v \<Rightarrow> v)"

definition text_of :: "(string \<times> json) list \<Rightarrow> string \<Rightarrow> string" where
  "text_of item key = py_str (get_or item key (JStr []))"

text \<open>\<open>list(item.get(key, []))\<close>, and the elements of a list field that are mappings.\<close>

definition listed :: "(string \<times> json) list \<Rightarrow> string \<Rightarrow> build_error + json list" where
  "listed item key = py_list (get_or item key (JList []))"

fun as_mapping :: "json \<Rightarrow> (string \<times> json) list option" where
  "as_mapping (JObj kvs) = Some kvs"
| "as_mapping j = None"

definition mappings :: "json list \<Rightarrow> (string \<times> json) list list" where
  "mappings xs = List.map_filter as_mapping xs"

text \<open>\<open>raw = payload.get(key, []); if not isinstance(raw, list): raise\<close>\<close>

definition list_field :: "(string \<times> json) list \<Rightarrow> string \<Rightarrow> build_error + json list" where
  "list_field payload key =
     (case get_or payload key (JList []) of JList xs \<Rightarrow> Inr xs | _ \<Rightarrow> Inl Output_Invalid)"

text \<open>A method call \<open>item.get(...)\<close> on what may not be a mapping.\<close>

definition get_method :: "json \<Rightarrow> build_error + (string \<times> json) list" where
  "get_method j = (case as_mapping j of None \<Rightarrow> Inl Attribute_Error | Some kvs \<Rightarrow> Inr kvs)"

text \<open>An enumeration called on a string; a pydantic length constraint.\<close>

definition enum_of :: "(string \<times> 'a) list \<Rightarrow> string \<Rightarrow> build_error + 'a" where
  "enum_of members s = (case map_of members s of None \<Rightarrow> Inl Value_Error | Some m \<Rightarrow> Inr m)"

definition sized :: "nat \<Rightarrow> nat \<Rightarrow> 'a list \<Rightarrow> bool" where
  "sized lo hi s \<longleftrightarrow> lo \<le> length s \<and> length s \<le> hi"

lemma mappings_simps [simp]:
  "mappings [] = []"
  "mappings (j # js) = (case as_mapping j of None \<Rightarrow> mappings js | Some kvs \<Rightarrow> kvs # mappings js)"
  by (simp_all add: mappings_def List.map_filter_simps split: option.split)

lemma in_mappings: "kvs \<in> set (mappings xs) \<longleftrightarrow> JObj kvs \<in> set xs"
proof (induction xs)
  case (Cons j xs)
  then show ?case by (cases j) auto
qed simp

lemma get_method_simps [simp]:
  "get_method (JObj kvs) = Inr kvs"
  by (simp add: get_method_def)

lemma get_method_Inr: "get_method j = Inr kvs \<longleftrightarrow> j = JObj kvs"
  by (cases j) (auto simp: get_method_def)

lemma list_field_Inr:
  "list_field payload key = Inr xs \<longleftrightarrow>
     map_of payload key = Some (JList xs) \<or> (map_of payload key = None \<and> xs = [])"
  by (auto simp: list_field_def get_or_def split: option.splits json.splits)

lemma enum_of_Inr: "enum_of members s = Inr m \<longleftrightarrow> map_of members s = Some m"
  by (simp add: enum_of_def split: option.split)

section \<open>Identifiers read back from text\<close>

text \<open>
  \<open>UUID(text)\<close>: \<open>urn:\<close> and \<open>uuid:\<close> are deleted, braces stripped, hyphens deleted, and
  the 32 characters left are read by \<open>int(..., 16)\<close>, which allows surrounding
  white space, a sign, the prefix \<open>0x\<close> and single underscores.
\<close>

fun delete_all :: "string \<Rightarrow> string \<Rightarrow> string" where
  "delete_all pat [] = []"
| "delete_all pat (c # cs) =
     (if pat \<noteq> [] \<and> take (length pat) (c # cs) = pat
      then delete_all pat (drop (length pat - 1) cs) else c # delete_all pat cs)"

definition strip_of :: "(char \<Rightarrow> bool) \<Rightarrow> string \<Rightarrow> string" where
  "strip_of P s = rev (dropWhile P (rev (dropWhile P s)))"

definition py_space :: "char \<Rightarrow> bool" where
  "py_space c = (let n = of_char c :: nat in
     (9 \<le> n \<and> n \<le> 13) \<or> (28 \<le> n \<and> n \<le> 32) \<or> n = 133 \<or> n = 160)"

definition hex_value :: "char \<Rightarrow> nat option" where
  "hex_value c = (let n = of_char c :: nat in
     if 48 \<le> n \<and> n \<le> 57 then Some (n - 48)
     else if 97 \<le> n \<and> n \<le> 102 then Some (n - 87)
     else if 65 \<le> n \<and> n \<le> 70 then Some (n - 55) else None)"

text \<open>The digits: whether an underscore may follow, and whether the text may end here.\<close>

fun hex_int :: "nat \<Rightarrow> bool \<Rightarrow> bool \<Rightarrow> string \<Rightarrow> nat option" where
  "hex_int acc underscore stop [] = (if stop then Some acc else None)"
| "hex_int acc underscore stop (c # cs) =
     (if c = CHR ''_'' then (if underscore then hex_int acc False False cs else None)
      else (case hex_value c of None \<Rightarrow> None | Some d \<Rightarrow> hex_int (16 * acc + d) True True cs))"

definition int16 :: "string \<Rightarrow> nat option" where
  "int16 s =
     (let t = strip_of py_space s;
          u = (if take 1 t = ''+'' then drop 1 t else t)
      in if take 2 u \<in> {''0x'', ''0X''} then hex_int 0 True False (drop 2 u) else hex_int 0 False False u)"

definition parse_uuid :: "string \<Rightarrow> build_error + uuid" where
  "parse_uuid s =
     (let h = delete_all ''-'' (strip_of (\<lambda>c. c \<in> {CHR 0x7B, CHR 0x7D})
                (delete_all ''uuid:'' (delete_all ''urn:'' s)))
      in if length h \<noteq> 32 then Inl Value_Error
         else (case int16 h of None \<Rightarrow> Inl Value_Error | Some u \<Rightarrow> Inr u))"

definition lower_hex :: "char \<Rightarrow> bool" where
  "lower_hex c \<longleftrightarrow> c \<in> digit_char ` {..<16}"

lemma lower_hex_digit [simp]: "d < 16 \<Longrightarrow> lower_hex (digit_char d)"
  by (simp add: lower_hex_def)

lemma hex_value_digit: "d < 16 \<Longrightarrow> hex_value (digit_char d) = Some d"
  by (auto simp: hex_value_def of_char_digit_char Let_def)

lemma set_hex_digits: "c \<in> set (hex_digits w n) \<Longrightarrow> lower_hex c"
  by (induction w arbitrary: n) auto

lemma lower_hex_excludes:
  assumes "lower_hex c"
  shows "c \<noteq> CHR ''-'' \<and> c \<noteq> CHR ''u'' \<and> c \<noteq> CHR ''_'' \<and> c \<noteq> CHR ''x'' \<and> c \<noteq> CHR ''X'' \<and>
    c \<noteq> CHR ''+'' \<and> c \<noteq> CHR 0x7B \<and> c \<noteq> CHR 0x7D \<and> \<not> py_space c"
proof -
  obtain d where d: "d < 16" "c = digit_char d" using assms by (auto simp: lower_hex_def)
  then have "d = 0 \<or> d = 1 \<or> d = 2 \<or> d = 3 \<or> d = 4 \<or> d = 5 \<or> d = 6 \<or> d = 7 \<or> d = 8 \<or> d = 9 \<or>
    d = 10 \<or> d = 11 \<or> d = 12 \<or> d = 13 \<or> d = 14 \<or> d = 15" by presburger
  then show ?thesis
    unfolding d(2) by (elim disjE) (simp_all add: digit_char_def py_space_def Let_def char_of_def)
qed

lemma delete_all_absent: "pat \<noteq> [] \<Longrightarrow> hd pat \<notin> set s \<Longrightarrow> delete_all pat s = s"
proof (induction s)
  case (Cons c s)
  then have "take (length pat) (c # s) \<noteq> pat" by (cases pat) auto
  with Cons show ?case by simp
qed simp

lemma delete_hyphens: "delete_all ''-'' s = filter (\<lambda>c. c \<noteq> CHR ''-'') s"
  by (induction s) auto

lemma dropWhile_none: "(\<And>c. c \<in> set s \<Longrightarrow> \<not> P c) \<Longrightarrow> dropWhile P s = s"
  by (cases s) auto

lemma strip_of_none: "(\<And>c. c \<in> set s \<Longrightarrow> \<not> P c) \<Longrightarrow> strip_of P s = s"
  using dropWhile_none [of s P] dropWhile_none [of "rev s" P] by (simp add: strip_of_def)

lemma hex_int_append:
  "(\<And>c. c \<in> set s \<Longrightarrow> lower_hex c) \<Longrightarrow> s \<noteq> [] \<Longrightarrow>
   hex_int acc us st (s @ t) =
     hex_int (foldl (\<lambda>a c. 16 * a + the (hex_value c)) acc s) True True t"
proof (induction s arbitrary: acc us st)
  case (Cons c s)
  obtain d where d: "d < 16" "c = digit_char d"
    using Cons.prems(1) [of c] by (auto simp: lower_hex_def)
  have c: "c \<noteq> CHR ''_''" using Cons.prems(1) [of c] lower_hex_excludes [of c] by simp
  show ?case
    using Cons.IH [of "16 * acc + d" True True] Cons.prems(1) c
    by (cases "s = []") (simp_all add: d hex_value_digit)
qed simp

lemma int16_lower_hex:
  assumes "\<And>c. c \<in> set s \<Longrightarrow> lower_hex c" "2 \<le> length s"
  shows "int16 s = Some (foldl (\<lambda>a c. 16 * a + the (hex_value c)) 0 s)"
proof -
  have strip: "strip_of py_space s = s"
    using assms(1) lower_hex_excludes by (intro strip_of_none) blast
  obtain a b r where s: "s = a # b # r"
    using assms(2) by (cases s; cases "tl s") auto
  have "a \<noteq> CHR ''+''" "b \<noteq> CHR ''x''" "b \<noteq> CHR ''X''"
    using assms(1) lower_hex_excludes unfolding s by auto
  then have "int16 s = hex_int 0 False False (s @ [])"
    using strip by (simp add: int16_def s Let_def)
  also have "\<dots> = hex_int (foldl (\<lambda>a c. 16 * a + the (hex_value c)) 0 s) True True []"
    using assms(1) by (intro hex_int_append) (auto simp: s)
  finally show ?thesis by simp
qed

lemma hex_digits_fold:
  "foldl (\<lambda>a c. 16 * a + the (hex_value c)) acc (hex_digits w n) = acc * 16 ^ w + n mod 16 ^ w"
proof (induction w arbitrary: n)
  case (Suc w)
  have "n mod 16 ^ Suc w = 16 * ((n div 16) mod 16 ^ w) + n mod 16"
    by (simp add: mod_mult2_eq)
  with Suc [of "n div 16"] show ?case by (simp add: hex_value_digit algebra_simps)
qed simp

lemma str_uuid_characters: "c \<in> set (str_uuid u) \<Longrightarrow> lower_hex c \<or> c = CHR ''-''"
  by (auto simp: str_uuid_def Let_def dest!: in_set_takeD in_set_dropD dest: set_hex_digits)

lemma str_uuid_without_hyphens: "filter (\<lambda>c. c \<noteq> CHR ''-'') (str_uuid u) = hex_digits 32 u"
proof -
  let ?h = "hex_digits 32 u"
  have all: "filter (\<lambda>c. c \<noteq> CHR ''-'') s = s" if "set s \<subseteq> set ?h" for s
    using that set_hex_digits lower_hex_excludes by (intro filter_True) blast
  have pieces: "filter (\<lambda>c. c \<noteq> CHR ''-'') (take i (drop j ?h)) = take i (drop j ?h)"
    "filter (\<lambda>c. c \<noteq> CHR ''-'') (take i ?h) = take i ?h"
    "filter (\<lambda>c. c \<noteq> CHR ''-'') (drop j ?h) = drop j ?h" for i j
    using all [of "take i (drop j ?h)"] all [of "take i ?h"] all [of "drop j ?h"]
    by (meson in_set_dropD in_set_takeD subset_iff)+
  have "take 8 ?h @ take 4 (drop 8 ?h) @ take 4 (drop 12 ?h) @ take 4 (drop 16 ?h) @ drop 20 ?h = ?h"
    using take_add [of 8 4 ?h] take_add [of 12 4 ?h] take_add [of 16 4 ?h]
      append_take_drop_id [of 20 ?h] by simp
  then show ?thesis by (simp add: str_uuid_def Let_def pieces)
qed

text \<open>\<open>UUID(str(u)) == u\<close>.\<close>

lemma parse_str_uuid: "u < uuid_bound \<Longrightarrow> parse_uuid (str_uuid u) = Inr u"
proof -
  assume u: "u < uuid_bound"
  let ?h = "hex_digits 32 u"
  have no: "CHR ''u'' \<notin> set (str_uuid u)" "CHR 0x7B \<notin> set (str_uuid u)" "CHR 0x7D \<notin> set (str_uuid u)"
    using str_uuid_characters lower_hex_excludes by fastforce+
  have "delete_all ''uuid:'' (delete_all ''urn:'' (str_uuid u)) = str_uuid u"
    using no(1) by (simp add: delete_all_absent)
  moreover have "strip_of (\<lambda>c. c \<in> {CHR 0x7B, CHR 0x7D}) (str_uuid u) = str_uuid u"
    using no(2,3) by (intro strip_of_none) auto
  ultimately have h: "delete_all ''-'' (strip_of (\<lambda>c. c \<in> {CHR 0x7B, CHR 0x7D})
      (delete_all ''uuid:'' (delete_all ''urn:'' (str_uuid u)))) = ?h"
    by (simp only: delete_hyphens str_uuid_without_hyphens)
  have "int16 ?h = Some (u mod 16 ^ 32)"
    using int16_lower_hex [of ?h] set_hex_digits [of _ 32 u] hex_digits_fold [of 0 32 u] length_hex_digits [of 32 u]
    by (simp del: hex_digits.simps)
  then show ?thesis
    using u h by (simp add: parse_uuid_def Let_def)
qed

end
