(* ===== verification/Assessments.thy ===== *)
theory Assessments
  imports Json_Payload Human_Gates Calculators
begin

text \<open>
  The output contracts of the three agents: the underwriting assessment of the maker
  (\<open>domain/underwriting.py\<close>), the legal assessment (\<open>domain/legal.py\<close>) and the
  independent risk review of the checker (\<open>domain/risk_review.py\<close>).  A pydantic
  model is a record; its field constraints and its validators are the predicate
  \<open>..._ok\<close>, and \<open>validated\<close> is the construction of the model, which raises
  \<open>ValidationError\<close> (a \<open>ValueError\<close>) when the predicate fails.  Literal fields that
  have one value are left out.
\<close>

definition validated :: "('a \<Rightarrow> bool) \<Rightarrow> 'a \<Rightarrow> build_error + 'a" where
  "validated ok x = (if ok x then Inr x else Inl Value_Error)"

lemma validated_Inr [simp]: "validated ok x = Inr y \<longleftrightarrow> ok x \<and> y = x"
  by (auto simp: validated_def)

lemma validated_Inl: "validated ok x = Inl e \<longleftrightarrow> \<not> ok x \<and> e = Value_Error"
  by (auto simp: validated_def)

lemma map_result_validated [result_simps]:
  "map_result (\<lambda>x. validated ok (f x)) xs = Inr ys \<longleftrightarrow> ys = map f xs \<and> list_all ok ys"
proof (induction xs arbitrary: ys)
  case (Cons a xs)
  show ?case by (simp add: rbind_Inr Cons.IH) fastforce
qed auto

lemma map_result_validated_id [result_simps]:
  "map_result (validated ok) xs = Inr ys \<longleftrightarrow> ys = xs \<and> list_all ok ys"
  using map_result_validated [of ok "\<lambda>x. x" xs ys] by simp

section \<open>Shared vocabulary\<close>

datatype confidence_level = HIGH_CONFIDENCE | MEDIUM_CONFIDENCE | LOW_CONFIDENCE

definition confidence_levels :: "(string \<times> confidence_level) list" where
  "confidence_levels =
     [(''HIGH'', HIGH_CONFIDENCE), (''MEDIUM'', MEDIUM_CONFIDENCE), (''LOW'', LOW_CONFIDENCE)]"

fun confidence_value :: "confidence_level \<Rightarrow> string" where
  "confidence_value HIGH_CONFIDENCE = ''HIGH''"
| "confidence_value MEDIUM_CONFIDENCE = ''MEDIUM''"
| "confidence_value LOW_CONFIDENCE = ''LOW''"

datatype gap_blocking_level = BLOCKING | CONDITIONAL | CLARIFICATION

definition gap_blocking_levels :: "(string \<times> gap_blocking_level) list" where
  "gap_blocking_levels =
     [(''BLOCKING'', BLOCKING), (''CONDITIONAL'', CONDITIONAL), (''CLARIFICATION'', CLARIFICATION)]"

fun gap_blocking_value :: "gap_blocking_level \<Rightarrow> string" where
  "gap_blocking_value BLOCKING = ''BLOCKING''"
| "gap_blocking_value CONDITIONAL = ''CONDITIONAL''"
| "gap_blocking_value CLARIFICATION = ''CLARIFICATION''"

text \<open>
  The models that the maker's and the legal contract declare with the same fields, over
  the type of their citations; \<open>RiskItem\<close> and \<open>MitigantItem\<close> have the same fields too.
\<close>

record 'c finding =
  fd_statement :: string
  fd_citations :: "'c list"
  fd_confidence :: confidence_level
  fd_uncertainty :: string

definition finding_ok :: "('c \<Rightarrow> bool) \<Rightarrow> 'c finding \<Rightarrow> bool" where
  "finding_ok cite f \<longleftrightarrow>
     sized 1 4000 (fd_statement f) \<and> fd_citations f \<noteq> [] \<and> list_all cite (fd_citations f) \<and>
     sized 0 2000 (fd_uncertainty f)"

record 'c assumption_item =
  ai_statement :: string
  ai_rationale :: string
  ai_basis_citations :: "'c list"

definition assumption_ok :: "('c \<Rightarrow> bool) \<Rightarrow> 'c assumption_item \<Rightarrow> bool" where
  "assumption_ok cite a \<longleftrightarrow>
     sized 1 4000 (ai_statement a) \<and> sized 1 4000 (ai_rationale a) \<and>
     list_all cite (ai_basis_citations a)"

record evidence_gap_item =
  eg_missing_information :: string
  eg_why_needed :: string
  eg_blocking_level :: gap_blocking_level
  eg_suggested_evidence :: "string list"

definition gap_item_ok :: "evidence_gap_item \<Rightarrow> bool" where
  "gap_item_ok g \<longleftrightarrow> sized 1 2000 (eg_missing_information g) \<and> sized 1 2000 (eg_why_needed g)"

record provenance =
  pv_case_id :: uuid
  pv_case_version :: int
  pv_execution_id :: uuid
  pv_task_id :: uuid
  pv_prompt_version :: string
  pv_model_id :: string
  pv_endpoint_id :: string
  pv_view_built_at :: datetime
  pv_created_at :: datetime

definition provenance_ok :: "'z provenance_scheme \<Rightarrow> bool" where
  "provenance_ok p \<longleftrightarrow>
     1 \<le> pv_case_version p \<and> pv_prompt_version p \<noteq> [] \<and> pv_model_id p \<noteq> [] \<and> pv_endpoint_id p \<noteq> []"

section \<open>The maker's assessment\<close>

datatype uw_citation = Uw_Fact uuid | Uw_Result string | Uw_Region uuid string

fun uw_citation_ok :: "uw_citation \<Rightarrow> bool" where
  "uw_citation_ok (Uw_Fact f) = True"
| "uw_citation_ok (Uw_Result r) = (r \<noteq> [])"
| "uw_citation_ok (Uw_Region d r) = sized 1 500 r"

type_synonym uw_finding = "uw_citation finding"
type_synonym uw_assumption = "uw_citation assumption_item"

record risk_item =
  ri_risk_id :: string
  ri_description :: string
  ri_citations :: "uw_citation list"
  ri_confidence :: confidence_level
  ri_uncertainty :: string

type_synonym mitigant_item = risk_item

definition risk_item_ok :: "risk_item \<Rightarrow> bool" where
  "risk_item_ok r \<longleftrightarrow>
     sized 1 100 (ri_risk_id r) \<and> sized 1 4000 (ri_description r) \<and> ri_citations r \<noteq> [] \<and>
     list_all uw_citation_ok (ri_citations r) \<and> sized 0 2000 (ri_uncertainty r)"

record proposed_structure =
  ps_instrument :: string
  ps_amount :: "decimal option"
  ps_tenor_months :: "int option"
  ps_findings :: "uw_finding list"

text \<open>A proposed amount needs a finding of the section that cites a calculator result.\<close>

definition cites_calculator :: "uw_citation finding \<Rightarrow> bool" where
  "cites_calculator f \<longleftrightarrow>
     list_ex (\<lambda>c. case c of Uw_Result r \<Rightarrow> True | _ \<Rightarrow> False) (fd_citations f)"

definition structure_ok :: "proposed_structure \<Rightarrow> bool" where
  "structure_ok s \<longleftrightarrow>
     sized 1 500 (ps_instrument s) \<and>
     (case ps_tenor_months s of None \<Rightarrow> True | Some n \<Rightarrow> 1 \<le> n \<and> n \<le> 600) \<and>
     ps_findings s \<noteq> [] \<and> list_all (finding_ok uw_citation_ok) (ps_findings s) \<and>
     (ps_amount s \<noteq> None \<longrightarrow> list_ex cites_calculator (ps_findings s))"

record underwriting_assessment =
  ua_id :: uuid
  ua_provenance :: provenance
  ua_business :: "uw_finding list"
  ua_financial :: "uw_finding list"
  ua_cash_flow :: "uw_finding list"
  ua_repayment :: "uw_finding list"
  ua_downside :: "uw_finding list"
  ua_structure :: proposed_structure
  ua_risks :: "risk_item list"
  ua_mitigants :: "mitigant_item list"
  ua_assumptions :: "uw_assumption list"
  ua_gaps :: "evidence_gap_item list"
  ua_results :: "calculator_result list"
  ua_trends :: "trend_result list"
  ua_scenarios :: "scenario_result list"

definition section_ok :: "('c \<Rightarrow> bool) \<Rightarrow> 'c finding list \<Rightarrow> bool" where
  "section_ok cite fs \<longleftrightarrow> fs \<noteq> [] \<and> list_all (finding_ok cite) fs"

definition known_result_ids :: "underwriting_assessment \<Rightarrow> string list" where
  "known_result_ids a =
     map cr_result_id (ua_results a) @ map tn_result_id (ua_trends a) @ map sr_result_id (ua_scenarios a)"

definition uw_findings :: "underwriting_assessment \<Rightarrow> uw_citation finding list" where
  "uw_findings a =
     ua_business a @ ua_financial a @ ua_cash_flow a @ ua_repayment a @ ua_downside a @
     ps_findings (ua_structure a)"

definition uw_material_citations :: "underwriting_assessment \<Rightarrow> uw_citation list" where
  "uw_material_citations a =
     concat (map fd_citations (uw_findings a)) @ concat (map ri_citations (ua_risks a)) @
     concat (map ri_citations (ua_mitigants a))"

definition result_resolves :: "string list \<Rightarrow> uw_citation \<Rightarrow> bool" where
  "result_resolves known c = (case c of Uw_Result r \<Rightarrow> r \<in> set known | _ \<Rightarrow> True)"

text \<open>The validator \<open>_citations_resolve_and_mitigants_bind\<close>, and the whole construction.\<close>

definition citations_resolve_and_mitigants_bind :: "underwriting_assessment \<Rightarrow> bool" where
  "citations_resolve_and_mitigants_bind a \<longleftrightarrow>
     list_all (result_resolves (known_result_ids a)) (uw_material_citations a) \<and>
     distinct (map ri_risk_id (ua_risks a)) \<and>
     list_all (\<lambda>m. ri_risk_id m \<in> ri_risk_id ` set (ua_risks a)) (ua_mitigants a)"

definition underwriting_ok :: "underwriting_assessment \<Rightarrow> bool" where
  "underwriting_ok a \<longleftrightarrow>
     provenance_ok (ua_provenance a) \<and>
     section_ok uw_citation_ok (ua_business a) \<and> section_ok uw_citation_ok (ua_financial a) \<and>
     section_ok uw_citation_ok (ua_cash_flow a) \<and> section_ok uw_citation_ok (ua_repayment a) \<and>
     list_all (finding_ok uw_citation_ok) (ua_downside a) \<and> structure_ok (ua_structure a) \<and>
     list_all risk_item_ok (ua_risks a) \<and> list_all risk_item_ok (ua_mitigants a) \<and>
     list_all (assumption_ok uw_citation_ok) (ua_assumptions a) \<and> list_all gap_item_ok (ua_gaps a) \<and>
     citations_resolve_and_mitigants_bind a"

section \<open>The legal assessment\<close>

datatype controlled_check_type = KYC | AML_WATCHLIST | RELATED_PARTY
datatype controlled_check_status = CLEAR | HIT | INCONCLUSIVE
datatype collateral_document_status = PRESENT | MISSING | EXPIRED
datatype exception_category = POLICY | LEGAL | COLLATERAL
datatype subject_type = ENTITY | INDIVIDUAL

fun exception_category_value :: "exception_category \<Rightarrow> string" where
  "exception_category_value POLICY = ''POLICY''"
| "exception_category_value LEGAL = ''LEGAL''"
| "exception_category_value COLLATERAL = ''COLLATERAL''"

definition exception_categories :: "(string \<times> exception_category) list" where
  "exception_categories = [(''POLICY'', POLICY), (''LEGAL'', LEGAL), (''COLLATERAL'', COLLATERAL)]"

text \<open>\<open>PolicyCitation\<close> and \<open>PolicyHitRecord\<close>: the five fields that identify a quoted clause.\<close>

record policy_hit =
  ph_corpus_id :: string
  ph_corpus_version :: string
  ph_document_id :: string
  ph_clause_id :: string
  ph_quoted_text :: string

definition policy_hit_ok :: "policy_hit \<Rightarrow> bool" where
  "policy_hit_ok h \<longleftrightarrow>
     sized 1 200 (ph_corpus_id h) \<and> sized 1 50 (ph_corpus_version h) \<and> sized 1 200 (ph_document_id h) \<and>
     sized 1 50 (ph_clause_id h) \<and> sized 1 2000 (ph_quoted_text h)"

datatype legal_citation =
    Legal_Fact uuid | Legal_Region uuid string | Legal_Policy policy_hit | Legal_Check uuid

fun legal_citation_ok :: "legal_citation \<Rightarrow> bool" where
  "legal_citation_ok (Legal_Region d r) = sized 1 500 r"
| "legal_citation_ok (Legal_Policy h) = policy_hit_ok h"
| "legal_citation_ok _ = True"

type_synonym legal_finding = "legal_citation finding"
type_synonym legal_assumption = "legal_citation assumption_item"
type_synonym legal_gap = evidence_gap_item
type_synonym legal_provenance = provenance

record policy_finding =
  pf_possible_issue :: string
  pf_citations :: "policy_hit list"
  pf_confidence :: confidence_level
  pf_uncertainty :: string

definition policy_finding_ok :: "policy_finding \<Rightarrow> bool" where
  "policy_finding_ok f \<longleftrightarrow>
     sized 1 4000 (pf_possible_issue f) \<and> pf_citations f \<noteq> [] \<and> list_all policy_hit_ok (pf_citations f) \<and>
     sized 0 2000 (pf_uncertainty f)"

record check_interpretation =
  ki_invocation_id :: uuid
  ki_statement :: string
  ki_confidence :: confidence_level
  ki_uncertainty :: string

definition interpretation_ok :: "check_interpretation \<Rightarrow> bool" where
  "interpretation_ok i \<longleftrightarrow> sized 1 2000 (ki_statement i) \<and> sized 0 2000 (ki_uncertainty i)"

record ownership_inconsistency =
  oi_description :: string
  oi_citations :: "legal_citation list"
  oi_confidence :: confidence_level

definition inconsistency_ok :: "ownership_inconsistency \<Rightarrow> bool" where
  "inconsistency_ok i \<longleftrightarrow>
     sized 1 2000 (oi_description i) \<and> 2 \<le> length (oi_citations i) \<and>
     list_all legal_citation_ok (oi_citations i)"

record collateral_item =
  co_document_type_key :: string
  co_label :: string
  co_status :: collateral_document_status
  co_citations :: "legal_citation list"
  co_expiry_date :: "(nat \<times> nat \<times> nat) option"
  co_notes :: string

definition collateral_item_ok :: "collateral_item \<Rightarrow> bool" where
  "collateral_item_ok i \<longleftrightarrow>
     sized 1 200 (co_document_type_key i) \<and> sized 1 300 (co_label i) \<and> co_citations i \<noteq> [] \<and>
     list_all legal_citation_ok (co_citations i) \<and> sized 0 1000 (co_notes i)"

record exception_item =
  ex_category :: exception_category
  ex_possible_issue :: string
  ex_citations :: "legal_citation list"
  ex_confidence :: confidence_level
  ex_uncertainty :: string

definition exception_item_ok :: "exception_item \<Rightarrow> bool" where
  "exception_item_ok e \<longleftrightarrow>
     sized 1 4000 (ex_possible_issue e) \<and> ex_citations e \<noteq> [] \<and> list_all legal_citation_ok (ex_citations e) \<and>
     sized 1 2000 (ex_uncertainty e)"

record check_result =
  kr_invocation_id :: uuid
  kr_check_type :: controlled_check_type
  kr_provider_id :: string
  kr_tool_name :: string
  kr_tool_version :: string
  kr_subject_type :: subject_type
  kr_subject_ref :: string
  kr_status :: controlled_check_status
  kr_result_summary :: string
  kr_invoked_at :: datetime
  kr_is_mock :: bool

definition check_result_ok :: "check_result \<Rightarrow> bool" where
  "check_result_ok r \<longleftrightarrow>
     sized 1 100 (kr_provider_id r) \<and> sized 1 200 (kr_tool_name r) \<and> sized 1 50 (kr_tool_version r) \<and>
     sized 1 300 (kr_subject_ref r) \<and> sized 1 1000 (kr_result_summary r)"

record policy_corpus_ref =
  pc_corpus_id :: string
  pc_version :: string
  pc_checksum :: string
  pc_is_synthetic :: bool

definition corpus_ref_ok :: "policy_corpus_ref \<Rightarrow> bool" where
  "corpus_ref_ok c \<longleftrightarrow> sized 1 200 (pc_corpus_id c) \<and> sized 1 50 (pc_version c) \<and> sized 1 64 (pc_checksum c)"

record legal_assessment =
  la_id :: uuid
  la_provenance :: legal_provenance
  la_entity :: "legal_finding list"
  la_authority :: "legal_finding list"
  la_ownership :: "legal_finding list"
  la_inconsistencies :: "ownership_inconsistency list"
  la_policy :: "policy_finding list"
  la_interpretations :: "check_interpretation list"
  la_documents :: "collateral_item list"
  la_ownership_evidence :: "legal_finding list"
  la_exceptions :: "exception_item list"
  la_assumptions :: "legal_assumption list"
  la_gaps :: "legal_gap list"
  la_hits :: "policy_hit list"
  la_corpus_ref :: "policy_corpus_ref option"
  la_checks :: "check_result list"

definition legal_findings :: "legal_assessment \<Rightarrow> legal_citation finding list" where
  "legal_findings a = la_entity a @ la_authority a @ la_ownership a @ la_ownership_evidence a"

definition legal_citations :: "legal_assessment \<Rightarrow> legal_citation list" where
  "legal_citations a =
     concat (map fd_citations (legal_findings a)) @
     concat (map (\<lambda>p. map Legal_Policy (pf_citations p)) (la_policy a)) @
     concat (map co_citations (la_documents a)) @ concat (map oi_citations (la_inconsistencies a)) @
     concat (map ex_citations (la_exceptions a)) @ concat (map ai_basis_citations (la_assumptions a))"

text \<open>The validators \<open>_policy_citations_are_grounded\<close> and \<open>_controlled_check_references_are_grounded\<close>.\<close>

definition policy_citations_grounded :: "legal_assessment \<Rightarrow> bool" where
  "policy_citations_grounded a \<longleftrightarrow>
     list_all (\<lambda>c. case c of Legal_Policy h \<Rightarrow> h \<in> set (la_hits a) | _ \<Rightarrow> True) (legal_citations a)"

definition check_references_grounded :: "legal_assessment \<Rightarrow> bool" where
  "check_references_grounded a \<longleftrightarrow>
     (let known = map kr_invocation_id (la_checks a)
      in list_all (\<lambda>c. case c of Legal_Check i \<Rightarrow> i \<in> set known | _ \<Rightarrow> True) (legal_citations a) \<and>
         list_all (\<lambda>i. ki_invocation_id i \<in> set known) (la_interpretations a))"

text \<open>\<open>_ownership_inconsistency_citations_are_distinct\<close>: two facts or two citations suffice.\<close>

definition inconsistency_citations_distinct :: "legal_assessment \<Rightarrow> bool" where
  "inconsistency_citations_distinct a \<longleftrightarrow>
     list_all (\<lambda>i.
       let facts = remdups (List.map_filter (\<lambda>c. case c of Legal_Fact f \<Rightarrow> Some f | _ \<Rightarrow> None) (oi_citations i))
       in \<not> (length facts < 2 \<and> length (oi_citations i) < 2)) (la_inconsistencies a)"

definition legal_ok :: "legal_assessment \<Rightarrow> bool" where
  "legal_ok a \<longleftrightarrow>
     provenance_ok (la_provenance a) \<and>
     section_ok legal_citation_ok (la_entity a) \<and> section_ok legal_citation_ok (la_authority a) \<and>
     section_ok legal_citation_ok (la_ownership a) \<and> list_all inconsistency_ok (la_inconsistencies a) \<and>
     list_all policy_finding_ok (la_policy a) \<and> list_all interpretation_ok (la_interpretations a) \<and>
     list_all collateral_item_ok (la_documents a) \<and>
     section_ok legal_citation_ok (la_ownership_evidence a) \<and>
     list_all exception_item_ok (la_exceptions a) \<and>
     list_all (assumption_ok legal_citation_ok) (la_assumptions a) \<and> list_all gap_item_ok (la_gaps a) \<and>
     list_all policy_hit_ok (la_hits a) \<and>
     (case la_corpus_ref a of None \<Rightarrow> True | Some c \<Rightarrow> corpus_ref_ok c) \<and>
     list_all check_result_ok (la_checks a) \<and>
     policy_citations_grounded a \<and> check_references_grounded a \<and> inconsistency_citations_distinct a"

end
