(* ===== verification/Risk_Review.thy ===== *)
theory Risk_Review
  imports Assessments
begin

text \<open>
  The checker's output contract (\<open>domain/risk_review.py\<close>) and its evidence views
  (\<open>application/ports/risk_review.py\<close>).  Severities are those of the G3 gate.
\<close>

section \<open>Vocabulary and citations\<close>

datatype maker_source = MAKER_UNDERWRITING | MAKER_LEGAL

fun maker_source_value :: "maker_source \<Rightarrow> string" where
  "maker_source_value MAKER_UNDERWRITING = ''CREDIT_UNDERWRITING''"
| "maker_source_value MAKER_LEGAL = ''LEGAL_COMPLIANCE_COLLATERAL''"

definition maker_sources :: "(string \<times> maker_source) list" where
  "maker_sources =
     [(''CREDIT_UNDERWRITING'', MAKER_UNDERWRITING), (''LEGAL_COMPLIANCE_COLLATERAL'', MAKER_LEGAL)]"

datatype challenge_type =
    UNSUPPORTED_ASSUMPTION | OMITTED_RISK | INADEQUATE_MITIGANT | GAP_VISIBILITY
  | EXCEPTION_VISIBILITY | OTHER_CONCERN

definition challenge_types :: "(string \<times> challenge_type) list" where
  "challenge_types =
     [(''UNSUPPORTED_ASSUMPTION'', UNSUPPORTED_ASSUMPTION), (''OMITTED_RISK'', OMITTED_RISK),
      (''INADEQUATE_MITIGANT'', INADEQUATE_MITIGANT), (''GAP_VISIBILITY'', GAP_VISIBILITY),
      (''EXCEPTION_VISIBILITY'', EXCEPTION_VISIBILITY), (''OTHER_CONCERN'', OTHER_CONCERN)]"

definition challenge_severities :: "(string \<times> challenge_severity) list" where
  "challenge_severities = [(''LOW'', LOW), (''MEDIUM'', MEDIUM), (''HIGH'', HIGH), (''CRITICAL'', CRITICAL)]"

datatype recommendation_type =
    REQUEST_INFORMATION | STRUCTURAL_CHANGE_SUGGESTION | MANUAL_REVIEW | ESCALATION

definition recommendation_types :: "(string \<times> recommendation_type) list" where
  "recommendation_types =
     [(''REQUEST_INFORMATION'', REQUEST_INFORMATION),
      (''STRUCTURAL_CHANGE_SUGGESTION'', STRUCTURAL_CHANGE_SUGGESTION),
      (''MANUAL_REVIEW'', MANUAL_REVIEW), (''ESCALATION'', ESCALATION)]"

datatype raised_by = DETERMINISTIC | LLM

record finding_ref =
  mf_source :: maker_source
  mf_assessment_id :: uuid
  mf_section_path :: string

definition finding_ref_ok :: "finding_ref \<Rightarrow> bool" where
  "finding_ref_ok r \<longleftrightarrow> sized 1 200 (mf_section_path r)"

datatype citation =
    Cite_Fact uuid | Cite_Result string | Cite_Region uuid string | Cite_Policy policy_hit
  | Cite_Check uuid | Cite_Maker finding_ref

fun citation_ok :: "citation \<Rightarrow> bool" where
  "citation_ok (Cite_Result r) = (r \<noteq> [])"
| "citation_ok (Cite_Region d r) = sized 1 500 r"
| "citation_ok (Cite_Policy h) = policy_hit_ok h"
| "citation_ok (Cite_Maker r) = finding_ref_ok r"
| "citation_ok _ = True"

section \<open>The parts of a review\<close>

record challenge =
  ch_id :: uuid
  ch_target :: finding_ref
  ch_type :: challenge_type
  ch_statement :: string
  ch_citations :: "citation list"
  ch_severity :: challenge_severity
  ch_confidence :: confidence_level
  ch_raised_by :: raised_by
  ch_raised_blind :: bool

definition challenge_ok :: "challenge \<Rightarrow> bool" where
  "challenge_ok c \<longleftrightarrow>
     finding_ref_ok (ch_target c) \<and> sized 1 4000 (ch_statement c) \<and> ch_citations c \<noteq> [] \<and>
     list_all citation_ok (ch_citations c)"

record omitted_risk =
  om_description :: string
  om_citations :: "citation list"
  om_confidence :: confidence_level
  om_uncertainty :: string

definition omitted_risk_ok :: "omitted_risk \<Rightarrow> bool" where
  "omitted_risk_ok r \<longleftrightarrow>
     sized 1 4000 (om_description r) \<and> om_citations r \<noteq> [] \<and> list_all citation_ok (om_citations r) \<and>
     sized 0 2000 (om_uncertainty r)"

record adequacy_review =
  ar_risk_target :: finding_ref
  ar_mitigant_target :: finding_ref
  ar_concern :: string
  ar_citations :: "citation list"
  ar_confidence :: confidence_level
  ar_uncertainty :: string

definition adequacy_review_ok :: "adequacy_review \<Rightarrow> bool" where
  "adequacy_review_ok r \<longleftrightarrow>
     finding_ref_ok (ar_risk_target r) \<and> finding_ref_ok (ar_mitigant_target r) \<and>
     sized 1 4000 (ar_concern r) \<and> ar_citations r \<noteq> [] \<and> list_all citation_ok (ar_citations r) \<and>
     sized 0 2000 (ar_uncertainty r)"

record visibility_gap =
  vg_source :: maker_source
  vg_assessment_id :: uuid
  vg_missing_information :: string
  vg_blocking_level :: gap_blocking_level
  vg_still_visible :: bool

record visibility_exception =
  vx_assessment_id :: uuid
  vx_category :: string
  vx_possible_issue :: string
  vx_still_visible :: bool

definition visibility_gap_ok :: "visibility_gap \<Rightarrow> bool" where
  "visibility_gap_ok g \<longleftrightarrow> sized 1 2000 (vg_missing_information g)"

definition visibility_exception_ok :: "visibility_exception \<Rightarrow> bool" where
  "visibility_exception_ok x \<longleftrightarrow> sized 1 50 (vx_category x) \<and> sized 1 4000 (vx_possible_issue x)"

record visibility_checks =
  vc_blocking_gaps :: "visibility_gap list"
  vc_exceptions :: "visibility_exception list"

record recommendation =
  rc_type :: recommendation_type
  rc_rationale :: string
  rc_citations :: "citation list"

definition recommendation_ok :: "recommendation \<Rightarrow> bool" where
  "recommendation_ok r \<longleftrightarrow> sized 1 2000 (rc_rationale r) \<and> list_all citation_ok (rc_citations r)"

section \<open>The assessment\<close>

record maker_reviewed =
  mr_source :: maker_source
  mr_assessment_id :: uuid
  mr_execution_id :: uuid

record review_provenance = provenance +
  rp_reviewed :: "maker_reviewed list"

definition review_provenance_ok :: "review_provenance \<Rightarrow> bool" where
  "review_provenance_ok p \<longleftrightarrow> provenance_ok p \<and> 2 \<le> length (rp_reviewed p)"

record risk_review =
  rr_id :: uuid
  rr_provenance :: review_provenance
  rr_challenges :: "challenge list"
  rr_omitted_risks :: "omitted_risk list"
  rr_adequacy_reviews :: "adequacy_review list"
  rr_visibility :: visibility_checks
  rr_recommendations :: "recommendation list"
  rr_gaps :: "evidence_gap_item list"

definition review_citations :: "risk_review \<Rightarrow> citation list" where
  "review_citations a =
     concat (map ch_citations (rr_challenges a)) @ concat (map om_citations (rr_omitted_risks a)) @
     concat (map ar_citations (rr_adequacy_reviews a)) @ concat (map rc_citations (rr_recommendations a))"

text \<open>The three model validators.\<close>

definition reviewed_are_both_makers :: "risk_review \<Rightarrow> bool" where
  "reviewed_are_both_makers a \<longleftrightarrow>
     mr_source ` set (rp_reviewed (rr_provenance a)) = {MAKER_UNDERWRITING, MAKER_LEGAL}"

definition execution_is_independent :: "risk_review \<Rightarrow> bool" where
  "execution_is_independent a \<longleftrightarrow>
     pv_execution_id (rr_provenance a) \<notin> mr_execution_id ` set (rp_reviewed (rr_provenance a))"

definition targets_reference_reviewed :: "risk_review \<Rightarrow> bool" where
  "targets_reference_reviewed a \<longleftrightarrow>
     (let known = map mr_assessment_id (rp_reviewed (rr_provenance a));
          check = (\<lambda>r. mf_assessment_id r \<in> set known)
      in list_all (\<lambda>c. check (ch_target c)) (rr_challenges a) \<and>
         list_all (\<lambda>r. check (ar_risk_target r) \<and> check (ar_mitigant_target r)) (rr_adequacy_reviews a) \<and>
         list_all (\<lambda>c. case c of Cite_Maker r \<Rightarrow> check r | _ \<Rightarrow> True) (review_citations a))"

definition risk_review_ok :: "risk_review \<Rightarrow> bool" where
  "risk_review_ok a \<longleftrightarrow>
     review_provenance_ok (rr_provenance a) \<and>
     list_all challenge_ok (rr_challenges a) \<and> list_all omitted_risk_ok (rr_omitted_risks a) \<and>
     list_all adequacy_review_ok (rr_adequacy_reviews a) \<and>
     list_all visibility_gap_ok (vc_blocking_gaps (rr_visibility a)) \<and>
     list_all visibility_exception_ok (vc_exceptions (rr_visibility a)) \<and>
     list_all recommendation_ok (rr_recommendations a) \<and> list_all gap_item_ok (rr_gaps a) \<and>
     reviewed_are_both_makers a \<and> execution_is_independent a \<and> targets_reference_reviewed a"

section \<open>Evidence views\<close>

record evidence_fact =
  ef_id :: uuid
  ef_field_key :: string
  ef_value :: json
  ef_document_version_id :: uuid

text \<open>\<open>CheckerEvidenceView\<close>, the maker's \<open>EvidenceView\<close> and the blind \<open>PreAnalysisEvidenceView\<close>.\<close>

record evidence_view =
  ev_case_id :: uuid
  ev_case_version :: int
  ev_built_at :: datetime
  ev_facts :: "evidence_fact list"

definition fact_ids :: "'z evidence_view_scheme \<Rightarrow> string list" where
  "fact_ids view = map (str_uuid \<circ> ef_id) (ev_facts view)"

record open_gap =
  og_id :: uuid
  og_missing_information :: string
  og_blocking_level :: gap_blocking_level
  og_status :: string

record gap_record =
  gr_issue :: string
  gr_missing_information :: string
  gr_blocking_level :: gap_blocking_level
  gr_suggested_evidence :: "string list"

definition gap_record_of :: "evidence_gap_item \<Rightarrow> gap_record" where
  "gap_record_of g =
     \<lparr>gr_issue = eg_why_needed g, gr_missing_information = eg_missing_information g,
      gr_blocking_level = eg_blocking_level g, gr_suggested_evidence = eg_suggested_evidence g\<rparr>"

end
