(* ===== verification/Risk_Analysis.thy ===== *)
theory Risk_Analysis
  imports Risk_Review
begin

text \<open>
  The checker's deterministic pass: the addressable paths of the two maker assessments
  (\<open>application/risk_review/evidence.py\<close>) and the pre-analysis that runs before inference
  (\<open>application/risk_review/analysis.py\<close>).  \<open>ids\<close> is the sequence the id factory hands
  out and the natural number the position in it.
\<close>

section \<open>Paths into an assessment\<close>

definition numbered :: "string \<Rightarrow> 'a list \<Rightarrow> (string \<times> 'a) list" where
  "numbered prefix xs = map (\<lambda>(i, x). (prefix @ ''['' @ dec_digits i @ '']'', x)) (enumerate 0 xs)"

definition underwriting_target_paths :: "underwriting_assessment \<Rightarrow> string list" where
  "underwriting_target_paths a =
     map fst (numbered ''business.findings'' (ua_business a)) @
     map fst (numbered ''financial.findings'' (ua_financial a)) @
     map fst (numbered ''cash_flow.findings'' (ua_cash_flow a)) @
     map fst (numbered ''repayment_source.findings'' (ua_repayment a)) @
     map fst (numbered ''repayment_source.downside_scenarios'' (ua_downside a)) @
     map fst (numbered ''proposed_structure.findings'' (ps_findings (ua_structure a))) @
     map fst (numbered ''risks'' (ua_risks a)) @ map fst (numbered ''mitigants'' (ua_mitigants a)) @
     map fst (numbered ''assumptions'' (ua_assumptions a)) @
     map fst (numbered ''evidence_gaps'' (ua_gaps a))"

definition legal_target_paths :: "legal_assessment \<Rightarrow> string list" where
  "legal_target_paths a =
     map fst (numbered ''legal_entity_review.findings'' (la_entity a)) @
     map fst (numbered ''authority_signatory_review.findings'' (la_authority a)) @
     map fst (numbered ''ownership_consistency.findings'' (la_ownership a)) @
     map fst (numbered ''ownership_consistency.inconsistencies'' (la_inconsistencies a)) @
     map fst (numbered ''policy_review'' (la_policy a)) @
     map fst (numbered ''controlled_check_interpretations'' (la_interpretations a)) @
     map fst (numbered ''collateral_review.document_items'' (la_documents a)) @
     map fst (numbered ''collateral_review.ownership_evidence_findings'' (la_ownership_evidence a)) @
     map fst (numbered ''exceptions'' (la_exceptions a)) @
     map fst (numbered ''assumptions'' (la_assumptions a)) @
     map fst (numbered ''evidence_gaps'' (la_gaps a))"

record target_universe =
  tu_underwriting_id :: uuid
  tu_underwriting_paths :: "string list"
  tu_legal_id :: uuid
  tu_legal_paths :: "string list"

definition all_refs :: "target_universe \<Rightarrow> finding_ref list" where
  "all_refs u =
     map (\<lambda>p. \<lparr>mf_source = MAKER_UNDERWRITING, mf_assessment_id = tu_underwriting_id u, mf_section_path = p\<rparr>)
       (tu_underwriting_paths u) @
     map (\<lambda>p. \<lparr>mf_source = MAKER_LEGAL, mf_assessment_id = tu_legal_id u, mf_section_path = p\<rparr>)
       (tu_legal_paths u)"

definition universe_contains :: "target_universe \<Rightarrow> finding_ref \<Rightarrow> bool" where
  "universe_contains u r =
     (if mf_source r = MAKER_UNDERWRITING
      then mf_assessment_id r = tu_underwriting_id u \<and> mf_section_path r \<in> set (tu_underwriting_paths u)
      else mf_assessment_id r = tu_legal_id u \<and> mf_section_path r \<in> set (tu_legal_paths u))"

definition build_target_universe :: "underwriting_assessment \<Rightarrow> legal_assessment \<Rightarrow> target_universe" where
  "build_target_universe uw lg =
     \<lparr>tu_underwriting_id = ua_id uw, tu_underwriting_paths = underwriting_target_paths uw,
      tu_legal_id = la_id lg, tu_legal_paths = legal_target_paths lg\<rparr>"

section \<open>Deterministic challenges\<close>

text \<open>
  Each is constructed without \<open>raised_by\<close> and \<open>raised_blind\<close>: the defaults of the model
  are \<open>RaisedBy.LLM\<close> and \<open>False\<close>.  The target is its only citation.
\<close>

definition raise_challenge ::
  "(nat \<Rightarrow> uuid) \<Rightarrow> nat \<Rightarrow> maker_source \<Rightarrow> uuid \<Rightarrow> string \<Rightarrow> challenge_type \<Rightarrow> string \<Rightarrow>
   challenge_severity \<Rightarrow> confidence_level \<Rightarrow> build_error + challenge" where
  "raise_challenge ids i source maker_id path type statement severity confidence =
     rbind (validated finding_ref_ok
              \<lparr>mf_source = source, mf_assessment_id = maker_id, mf_section_path = path\<rparr>) (\<lambda>target.
     validated challenge_ok
       \<lparr>ch_id = ids i, ch_target = target, ch_type = type, ch_statement = statement,
        ch_citations = [Cite_Maker target], ch_severity = severity, ch_confidence = confidence,
        ch_raised_by = LLM, ch_raised_blind = False\<rparr>)"

definition raise_all ::
  "(nat \<Rightarrow> 'a \<Rightarrow> build_error + challenge) \<Rightarrow> nat \<Rightarrow> 'a list \<Rightarrow> build_error + challenge list" where
  "raise_all f n xs = map_result (\<lambda>(i, x). f i x) (enumerate n xs)"

section \<open>Grounding of the cited facts\<close>

definition iter_underwriting_citations :: "underwriting_assessment \<Rightarrow> (string \<times> uw_citation list) list" where
  "iter_underwriting_citations a =
     map (apsnd fd_citations) (numbered ''business.findings'' (ua_business a)) @
     map (apsnd fd_citations) (numbered ''financial.findings'' (ua_financial a)) @
     map (apsnd fd_citations) (numbered ''cash_flow.findings'' (ua_cash_flow a)) @
     map (apsnd fd_citations) (numbered ''repayment_source.findings'' (ua_repayment a)) @
     map (apsnd fd_citations) (numbered ''repayment_source.downside_scenarios'' (ua_downside a)) @
     map (apsnd fd_citations) (numbered ''proposed_structure.findings'' (ps_findings (ua_structure a))) @
     map (apsnd ri_citations) (numbered ''risks'' (ua_risks a)) @
     map (apsnd ri_citations) (numbered ''mitigants'' (ua_mitigants a))"

definition iter_legal_citations :: "legal_assessment \<Rightarrow> (string \<times> legal_citation list) list" where
  "iter_legal_citations a =
     map (apsnd fd_citations) (numbered ''legal_entity_review.findings'' (la_entity a)) @
     map (apsnd fd_citations) (numbered ''authority_signatory_review.findings'' (la_authority a)) @
     map (apsnd fd_citations) (numbered ''ownership_consistency.findings'' (la_ownership a)) @
     map (apsnd (map Legal_Policy \<circ> pf_citations)) (numbered ''policy_review'' (la_policy a)) @
     map (apsnd co_citations) (numbered ''collateral_review.document_items'' (la_documents a)) @
     map (apsnd fd_citations)
       (numbered ''collateral_review.ownership_evidence_findings'' (la_ownership_evidence a)) @
     map (apsnd ex_citations) (numbered ''exceptions'' (la_exceptions a))"

fun uw_fact :: "uw_citation \<Rightarrow> uuid option" where
  "uw_fact (Uw_Fact f) = Some f"
| "uw_fact _ = None"

fun legal_fact :: "legal_citation \<Rightarrow> uuid option" where
  "legal_fact (Legal_Fact f) = Some f"
| "legal_fact _ = None"

text \<open>The path of every citation, in order, whose confirmed fact is not in the current view.\<close>

definition lost_citations :: "('c \<Rightarrow> uuid option) \<Rightarrow> string list \<Rightarrow> (string \<times> 'c list) list \<Rightarrow> string list" where
  "lost_citations cited live located =
     concat (map (\<lambda>(path, cs). map (\<lambda>_. path)
       (filter (\<lambda>c. case cited c of None \<Rightarrow> False | Some f \<Rightarrow> str_uuid f \<notin> set live) cs)) located)"

definition grounding_statement :: "string \<Rightarrow> string" where
  "grounding_statement path =
     ''Trich dan den mot du kien da xac nhan khong con ton tai trong pham vi bang chung hien tai cua ho so ('' @
     path @ '').''"

definition cross_check_citation_grounding ::
  "(nat \<Rightarrow> uuid) \<Rightarrow> nat \<Rightarrow> underwriting_assessment \<Rightarrow> legal_assessment \<Rightarrow> evidence_view \<Rightarrow>
   build_error + challenge list" where
  "cross_check_citation_grounding ids n uw lg view =
     (let live = fact_ids view;
          lost = map (\<lambda>p. (MAKER_UNDERWRITING, ua_id uw, p))
                   (lost_citations uw_fact live (iter_underwriting_citations uw)) @
                 map (\<lambda>p. (MAKER_LEGAL, la_id lg, p))
                   (lost_citations legal_fact live (iter_legal_citations lg))
      in raise_all (\<lambda>i (source, maker_id, path).
           raise_challenge ids i source maker_id path OTHER_CONCERN (grounding_statement path)
             HIGH HIGH_CONFIDENCE) n lost)"

section \<open>Visibility of gaps and exceptions\<close>

definition gap_items :: "string list \<Rightarrow> maker_source \<Rightarrow> uuid \<Rightarrow> evidence_gap_item list \<Rightarrow> visibility_gap list" where
  "gap_items open_texts source maker_id gaps =
     map (\<lambda>g. \<lparr>vg_source = source, vg_assessment_id = maker_id,
               vg_missing_information = eg_missing_information g,
               vg_blocking_level = eg_blocking_level g,
               vg_still_visible = (eg_missing_information g \<in> set open_texts)\<rparr>)
       (filter (\<lambda>g. eg_blocking_level g = BLOCKING) gaps)"

definition gap_visibility_statement :: "string \<Rightarrow> string" where
  "gap_visibility_statement text_vi =
     ''Khoang trong bang chung chan (BLOCKING) da cong bo khong con hien thi trong ho so: '' @ text_vi"

definition exception_visibility_statement :: "string \<Rightarrow> string" where
  "exception_visibility_statement text_vi =
     ''Kha nang ngoai le da cong bo khong con hien thi trong ho so: '' @ text_vi"

definition visibility_challenges_from ::
  "(nat \<Rightarrow> uuid) \<Rightarrow> nat \<Rightarrow> visibility_checks \<Rightarrow> uuid \<Rightarrow> uuid \<Rightarrow> build_error + challenge list" where
  "visibility_challenges_from ids n checks uw_id lg_id =
     (let gaps = filter (\<lambda>g. \<not> vg_still_visible g) (vc_blocking_gaps checks);
          exceptions = filter (\<lambda>x. \<not> vx_still_visible x) (vc_exceptions checks)
      in rbind (raise_all (\<lambda>i g.
             raise_challenge ids i (vg_source g)
               (if vg_source g = MAKER_UNDERWRITING then uw_id else lg_id) ''evidence_gaps[*]''
               GAP_VISIBILITY (gap_visibility_statement (vg_missing_information g)) HIGH HIGH_CONFIDENCE)
           n gaps) (\<lambda>gap_challenges.
         rbind (raise_all (\<lambda>i x.
             raise_challenge ids i MAKER_LEGAL lg_id ''exceptions[*]'' EXCEPTION_VISIBILITY
               (exception_visibility_statement (vx_possible_issue x)) HIGH HIGH_CONFIDENCE)
           (n + length gaps) exceptions) (\<lambda>exception_challenges.
         Inr (gap_challenges @ exception_challenges))))"

definition recompute_visibility ::
  "(nat \<Rightarrow> uuid) \<Rightarrow> nat \<Rightarrow> underwriting_assessment \<Rightarrow> legal_assessment \<Rightarrow> open_gap list \<Rightarrow>
   build_error + visibility_checks \<times> challenge list" where
  "recompute_visibility ids n uw lg open_gaps =
     (let open_texts = map og_missing_information open_gaps
      in rbind (map_result (validated visibility_gap_ok)
                  (gap_items open_texts MAKER_UNDERWRITING (ua_id uw) (ua_gaps uw) @
                   gap_items open_texts MAKER_LEGAL (la_id lg) (la_gaps lg))) (\<lambda>gaps.
         rbind (map_result (\<lambda>e. validated visibility_exception_ok
                   \<lparr>vx_assessment_id = la_id lg, vx_category = exception_category_value (ex_category e),
                    vx_possible_issue = ex_possible_issue e, vx_still_visible = True\<rparr>)
                 (la_exceptions lg)) (\<lambda>exceptions.
         let checks = \<lparr>vc_blocking_gaps = gaps, vc_exceptions = exceptions\<rparr>
         in rbind (visibility_challenges_from ids n checks (ua_id uw) (la_id lg)) (\<lambda>cs.
              Inr (checks, cs)))))"

section \<open>Assumptions without treatment, findings of low confidence\<close>

fun uw_citation_key :: "uw_citation \<Rightarrow> string \<times> string" where
  "uw_citation_key (Uw_Fact f) = (''CONFIRMED_FACT'', str_uuid f)"
| "uw_citation_key (Uw_Result r) = (''CALCULATOR_RESULT'', r)"
| "uw_citation_key (Uw_Region d r) = (''DOCUMENT_REGION'', str_uuid d @ '':'' @ r)"

definition downstream_keys :: "underwriting_assessment \<Rightarrow> (string \<times> string) list" where
  "downstream_keys a =
     map uw_citation_key (concat (map ri_citations (ua_risks a)) @ concat (map ri_citations (ua_mitigants a)))"

definition unaddressed :: "underwriting_assessment \<Rightarrow> uw_citation assumption_item \<Rightarrow> bool" where
  "unaddressed a item \<longleftrightarrow>
     ai_basis_citations item \<noteq> [] \<and>
     list_all (\<lambda>c. uw_citation_key c \<notin> set (downstream_keys a)) (ai_basis_citations item)"

definition assumption_statement :: "string \<Rightarrow> string" where
  "assumption_statement text_vi =
     ''Gia dinh cua MAKER khong duoc bat ky rui ro hay bien phap giam thieu nao tham chieu lai: '' @ text_vi"

definition detect_unaddressed_assumptions ::
  "(nat \<Rightarrow> uuid) \<Rightarrow> nat \<Rightarrow> underwriting_assessment \<Rightarrow> build_error + challenge list" where
  "detect_unaddressed_assumptions ids n uw =
     raise_all (\<lambda>i (path, item).
         raise_challenge ids i MAKER_UNDERWRITING (ua_id uw) path UNSUPPORTED_ASSUMPTION
           (assumption_statement (ai_statement item)) MEDIUM MEDIUM_CONFIDENCE)
       n (filter (\<lambda>(path, item). unaddressed uw item) (numbered ''assumptions'' (ua_assumptions uw)))"

definition confidence_flag_threshold :: confidence_level where
  "confidence_flag_threshold = LOW_CONFIDENCE"

definition underwriting_confidence_items :: "underwriting_assessment \<Rightarrow> (string \<times> confidence_level) list" where
  "underwriting_confidence_items a =
     map (apsnd fd_confidence) (numbered ''business.findings'' (ua_business a)) @
     map (apsnd fd_confidence) (numbered ''financial.findings'' (ua_financial a)) @
     map (apsnd fd_confidence) (numbered ''cash_flow.findings'' (ua_cash_flow a)) @
     map (apsnd ri_confidence) (numbered ''risks'' (ua_risks a)) @
     map (apsnd ri_confidence) (numbered ''mitigants'' (ua_mitigants a))"

definition legal_confidence_items :: "legal_assessment \<Rightarrow> (string \<times> confidence_level) list" where
  "legal_confidence_items a =
     map (apsnd fd_confidence) (numbered ''legal_entity_review.findings'' (la_entity a)) @
     map (apsnd fd_confidence) (numbered ''authority_signatory_review.findings'' (la_authority a)) @
     map (apsnd ex_confidence) (numbered ''exceptions'' (la_exceptions a))"

definition confidence_statement :: "string \<Rightarrow> confidence_level \<Rightarrow> string" where
  "confidence_statement path level =
     ''Muc do tin cay cua MAKER cho muc '' @ [CHR 0x27] @ path @ [CHR 0x27] @ '' o nguong '' @
     confidence_value level @ '', can duoc xem xet them.''"

definition flag_low_confidence_findings ::
  "(nat \<Rightarrow> uuid) \<Rightarrow> nat \<Rightarrow> underwriting_assessment \<Rightarrow> legal_assessment \<Rightarrow> confidence_level \<Rightarrow>
   build_error + challenge list" where
  "flag_low_confidence_findings ids n uw lg threshold =
     raise_all (\<lambda>i (source, maker_id, path).
         raise_challenge ids i source maker_id path OTHER_CONCERN (confidence_statement path threshold)
           LOW MEDIUM_CONFIDENCE)
       n (map (\<lambda>(p, c). (MAKER_UNDERWRITING, ua_id uw, p))
            (filter (\<lambda>(p, c). c = threshold) (underwriting_confidence_items uw)) @
          map (\<lambda>(p, c). (MAKER_LEGAL, la_id lg, p))
            (filter (\<lambda>(p, c). c = threshold) (legal_confidence_items lg)))"

section \<open>The pre-analysis\<close>

record pre_analysis =
  pa_grounding :: "challenge list"
  pa_visibility_checks :: visibility_checks
  pa_visibility :: "challenge list"
  pa_assumptions :: "challenge list"
  pa_low_confidence :: "challenge list"

definition all_challenges :: "pre_analysis \<Rightarrow> challenge list" where
  "all_challenges p = pa_grounding p @ pa_visibility p @ pa_assumptions p @ pa_low_confidence p"

definition compute_pre_analysis ::
  "(nat \<Rightarrow> uuid) \<Rightarrow> underwriting_assessment \<Rightarrow> legal_assessment \<Rightarrow> evidence_view \<Rightarrow> open_gap list \<Rightarrow>
   build_error + pre_analysis" where
  "compute_pre_analysis ids uw lg view open_gaps =
     rbind (recompute_visibility ids 0 uw lg open_gaps) (\<lambda>(checks, visibility).
     let n1 = length visibility
     in rbind (cross_check_citation_grounding ids n1 uw lg view) (\<lambda>grounding.
     let n2 = n1 + length grounding
     in rbind (detect_unaddressed_assumptions ids n2 uw) (\<lambda>assumptions.
     let n3 = n2 + length assumptions
     in rbind (flag_low_confidence_findings ids n3 uw lg confidence_flag_threshold) (\<lambda>low.
     Inr \<lparr>pa_grounding = grounding, pa_visibility_checks = checks, pa_visibility = visibility,
          pa_assumptions = assumptions, pa_low_confidence = low\<rparr>))))"

end
