(* ===== verification/Response_Schema.thy ===== *)
theory Response_Schema
  imports Json_Payload
begin

text \<open>
  The closed response schemas of the agent requests.  The builders write them as
  Python dictionaries in the JSON Schema vocabulary (draft 2020-12); the shapes they
  use are the constructors below, and \<open>conforms\<close> is the standard's meaning of
  those keywords.  The gateway checks an answer with the \<open>jsonschema\<close> package before
  the builder sees it, so a builder's input is a value that conforms.

  Also here: the pieces the three builders share, with what each raises.
\<close>

section \<open>Schemas\<close>

text \<open>
  \<open>Obj_Schema\<close> is \<open>{"type": "object", "additionalProperties": False, "required": ...,
  "properties": ...}\<close>; \<open>Arr_Schema\<close> and \<open>Str_Schema\<close> carry \<open>minItems\<close>/\<open>maxItems\<close>/\<open>items\<close>
  and \<open>minLength\<close>/\<open>maxLength\<close>/\<open>enum\<close>; \<open>Str_Or_Null\<close> and \<open>Int_Or_Null\<close> are the
  two-element \<open>type\<close> lists of the maker's schema.
\<close>

datatype json_schema =
    Obj_Schema "string list" "(string \<times> json_schema) list"
  | Arr_Schema nat nat "json_schema option"
  | Str_Schema nat "nat option" "string list option"
  | Enum_Schema "string list"
  | Const_Schema string
  | One_Of "json_schema list"
  | Str_Or_Null "string list option"
  | Int_Or_Null int int

definition object_ok :: "string list \<Rightarrow> (string \<times> (json \<Rightarrow> bool)) list \<Rightarrow> json \<Rightarrow> bool" where
  "object_ok required props j = (case j of
       JObj kvs \<Rightarrow> list_all (\<lambda>k. map_of kvs k \<noteq> None) required \<and>
         list_all (\<lambda>(k, v). case map_of props k of None \<Rightarrow> False | Some P \<Rightarrow> P v) kvs
     | _ \<Rightarrow> False)"

definition array_ok :: "nat \<Rightarrow> nat \<Rightarrow> (json \<Rightarrow> bool) option \<Rightarrow> json \<Rightarrow> bool" where
  "array_ok lo hi items j = (case j of
       JList xs \<Rightarrow> lo \<le> length xs \<and> length xs \<le> hi \<and>
         (case items of None \<Rightarrow> True | Some P \<Rightarrow> list_all P xs)
     | _ \<Rightarrow> False)"

definition string_ok :: "nat \<Rightarrow> nat option \<Rightarrow> string list option \<Rightarrow> json \<Rightarrow> bool" where
  "string_ok lo hi members j = (case j of
       JStr s \<Rightarrow> lo \<le> length s \<and> (case hi of None \<Rightarrow> True | Some n \<Rightarrow> length s \<le> n) \<and>
         (case members of None \<Rightarrow> True | Some ms \<Rightarrow> s \<in> set ms)
     | _ \<Rightarrow> False)"

text \<open>An integer may also come as a float without fraction; a float is held as its text.\<close>

definition integer_ok :: "int \<Rightarrow> int \<Rightarrow> json \<Rightarrow> bool" where
  "integer_ok lo hi j = (case j of
       JInt i \<Rightarrow> lo \<le> i \<and> i \<le> hi
     | JFloat s \<Rightarrow> list_ex (\<lambda>i. s = str_int i @ ''.0'') [lo..hi]
     | _ \<Rightarrow> False)"

primrec conforms :: "json_schema \<Rightarrow> json \<Rightarrow> bool" where
  "conforms (Obj_Schema required props) = object_ok required (map (map_prod id conforms) props)"
| "conforms (Arr_Schema lo hi items) = array_ok lo hi (map_option conforms items)"
| "conforms (Str_Schema lo hi members) = string_ok lo hi members"
| "conforms (Enum_Schema members) = (\<lambda>j. j \<in> JStr ` set members)"
| "conforms (Const_Schema s) = (\<lambda>j. j = JStr s)"
| "conforms (One_Of branches) = (\<lambda>j. length (filter (\<lambda>P. P j) (map conforms branches)) = 1)"
| "conforms (Str_Or_Null members) = (\<lambda>j. j = JNull \<or> string_ok 0 None members j)"
| "conforms (Int_Or_Null lo hi) = (\<lambda>j. j = JNull \<or> integer_ok lo hi j)"

lemma map_of_conforms: "map_of (map (map_prod id conforms) props) k = map_option conforms (map_of props k)"
  by (induction props) auto

lemma conforms_object:
  "conforms (Obj_Schema required props) j \<longleftrightarrow>
     (\<exists>kvs. j = JObj kvs \<and> (\<forall>k\<in>set required. map_of kvs k \<noteq> None) \<and>
        (\<forall>(k, v)\<in>set kvs. \<exists>s. map_of props k = Some s \<and> conforms s v))"
  by (cases j) (auto simp: object_ok_def map_of_conforms list_all_iff split: option.splits)

lemma conforms_array:
  "conforms (Arr_Schema lo hi items) j \<longleftrightarrow>
     (\<exists>xs. j = JList xs \<and> lo \<le> length xs \<and> length xs \<le> hi \<and>
        (\<forall>s. items = Some s \<longrightarrow> (\<forall>x\<in>set xs. conforms s x)))"
  by (cases j; cases items) (auto simp: array_ok_def list_all_iff)

lemma conforms_one_of: "conforms (One_Of branches) j \<Longrightarrow> \<exists>s\<in>set branches. conforms s j"
proof -
  assume "conforms (One_Of branches) j"
  then have "length (filter (\<lambda>P. P j) (map conforms branches)) \<noteq> 0" by (simp only: conforms.simps)
  then show ?thesis by (auto simp: filter_empty_conv)
qed

lemma conforms_string:
  "conforms (Str_Schema lo hi members) j \<longleftrightarrow>
     (\<exists>s. j = JStr s \<and> lo \<le> length s \<and> (\<forall>n. hi = Some n \<longrightarrow> length s \<le> n) \<and>
        (\<forall>ms. members = Some ms \<longrightarrow> s \<in> set ms))"
  by (cases j) (auto simp: string_ok_def split: option.splits)

declare conforms.simps(1,2,3,6) [simp del]

lemma conforms_field:
  assumes "conforms (Obj_Schema required props) (JObj kvs)" "map_of props k = Some s"
  shows "k \<in> set required \<Longrightarrow> \<exists>v. map_of kvs k = Some v \<and> conforms s v"
    and "map_of kvs k = Some v \<Longrightarrow> conforms s v"
proof -
  from assms(1) have all: "\<forall>k\<in>set required. map_of kvs k \<noteq> None"
    "\<forall>(k, v)\<in>set kvs. \<exists>s. map_of props k = Some s \<and> conforms s v"
    by (auto simp: conforms_object)
  then have some: "map_of kvs k = Some v \<Longrightarrow> conforms s v" for v
    using assms(2) map_of_SomeD [of kvs k v] by fastforce
  then show "map_of kvs k = Some v \<Longrightarrow> conforms s v" .
  show "k \<in> set required \<Longrightarrow> \<exists>v. map_of kvs k = Some v \<and> conforms s v"
    using all(1) some by auto
qed

section \<open>Fields of a conforming object\<close>

text \<open>What the builders read from a field whose schema is known.\<close>

lemma text_of_string:
  assumes "conforms (Obj_Schema required props) (JObj kvs)" "k \<in> set required"
    "map_of props k = Some (Str_Schema lo (Some hi) None)"
  shows "sized lo hi (text_of kvs k)"
  using conforms_field(1) [OF assms(1,3,2)]
  by (auto simp: conforms_string text_of_def get_or_def sized_def)

lemma text_of_optional:
  assumes "conforms (Obj_Schema required props) (JObj kvs)"
    "map_of props k = Some (Str_Schema 0 (Some hi) None)"
  shows "sized 0 hi (text_of kvs k)"
  using conforms_field(2) [OF assms]
  by (auto simp: conforms_string text_of_def get_or_def sized_def split: option.splits)

lemma text_of_enum:
  assumes "conforms (Obj_Schema required props) (JObj kvs)" "k \<in> set required"
    "map_of props k = Some (Enum_Schema members)"
  shows "text_of kvs k \<in> set members"
  using conforms_field(1) [OF assms(1,3,2)] by (auto simp: text_of_def get_or_def)

lemma text_of_member:
  assumes "conforms (Obj_Schema required props) (JObj kvs)" "k \<in> set required"
    "map_of props k = Some (Str_Schema lo hi (Some members))"
  shows "text_of kvs k \<in> set members"
  using conforms_field(1) [OF assms(1,3,2)]
  by (auto simp: conforms_string text_of_def get_or_def)

lemma text_of_const:
  assumes "conforms (Obj_Schema required props) (JObj kvs)" "k \<in> set required"
    "map_of props k = Some (Const_Schema s)"
  shows "text_of kvs k = s \<and> map_of kvs k = Some (JStr s)"
  using conforms_field(1) [OF assms(1,3,2)] by (auto simp: text_of_def get_or_def)

lemma list_field_conforms:
  assumes "conforms (Obj_Schema required props) (JObj kvs)" "k \<in> set required"
    "map_of props k = Some (Arr_Schema lo hi (Some item))"
  shows "\<exists>xs. list_field kvs k = Inr xs \<and> listed kvs k = Inr xs \<and> lo \<le> length xs \<and>
    (\<forall>x\<in>set xs. conforms item x)"
  using conforms_field(1) [OF assms(1,3,2)]
  by (auto simp: conforms_array list_field_def listed_def get_or_def)

lemma listed_optional:
  assumes "conforms (Obj_Schema required props) (JObj kvs)"
    "map_of props k = Some (Arr_Schema 0 hi (Some item))"
  shows "\<exists>xs. listed kvs k = Inr xs \<and> (\<forall>x\<in>set xs. conforms item x)"
  using conforms_field(2) [OF assms]
  by (auto simp: conforms_array listed_def get_or_def split: option.splits)

lemma list_field_empty:
  assumes "conforms (Obj_Schema required props) (JObj kvs)" "k \<in> set required"
    "map_of props k = Some (Arr_Schema 0 0 items)"
  shows "list_field kvs k = Inr []"
  using conforms_field(1) [OF assms(1,3,2)]
  by (auto simp: conforms_array list_field_def get_or_def)

lemma conforms_is_object: "conforms (Obj_Schema required props) j \<Longrightarrow> \<exists>kvs. j = JObj kvs"
  by (auto simp: conforms_object)

end
