(* ===== verification/Assessment_Reading.thy ===== *)
theory Assessment_Reading
  imports Assessments Response_Schema
begin

text \<open>
  What the three agent builders share: the schemas of the parts their contracts have in
  common, the functions that read such a part from a payload, and the lemmas that a part
  which conforms to its schema is read.  The element reader of the citations is a parameter.
\<close>

section \<open>Schemas and readers of the shared parts\<close>

abbreviation text_schema :: "nat \<Rightarrow> nat \<Rightarrow> json_schema" where
  "text_schema lo hi \<equiv> Str_Schema lo (Some hi) None"

definition confidence_schema :: json_schema where
  "confidence_schema = Enum_Schema (map fst confidence_levels)"

definition evidence_gap_schema :: json_schema where
  "evidence_gap_schema = Obj_Schema [''missing_information_vi'', ''why_needed_vi'', ''blocking_level'']
     [(''missing_information_vi'', text_schema 1 2000), (''why_needed_vi'', text_schema 1 2000),
      (''blocking_level'', Enum_Schema (map fst gap_blocking_levels)),
      (''suggested_evidence_vi'', Arr_Schema 0 10 (Some (text_schema 0 500)))]"

definition gap_item_from :: "(string \<times> json) list \<Rightarrow> build_error + evidence_gap_item" where
  "gap_item_from item =
     rbind (enum_of gap_blocking_levels (text_of item ''blocking_level'')) (\<lambda>level.
     rbind (listed item ''suggested_evidence_vi'') (\<lambda>suggested.
     validated gap_item_ok
       \<lparr>eg_missing_information = text_of item ''missing_information_vi'',
        eg_why_needed = text_of item ''why_needed_vi'', eg_blocking_level = level,
        eg_suggested_evidence = map py_str suggested\<rparr>))"

text \<open>\<open>raw = payload.get(key, [])\<close> checked to be a list; its objects are read, the rest skipped.\<close>

definition items_field ::
  "((string \<times> json) list \<Rightarrow> build_error + 'a) \<Rightarrow> (string \<times> json) list \<Rightarrow> string \<Rightarrow> build_error + 'a list" where
  "items_field f payload key =
     rbind (list_field payload key) (\<lambda>raw. map_result f (mappings raw))"

text \<open>\<open>for item in payload.get(key, []) if isinstance(item, Mapping)\<close>: no list check.\<close>

definition items_iterated ::
  "((string \<times> json) list \<Rightarrow> build_error + 'a) \<Rightarrow> (string \<times> json) list \<Rightarrow> string \<Rightarrow> build_error + 'a list" where
  "items_iterated f payload key =
     rbind (listed payload key) (\<lambda>raw. map_result f (mappings raw))"

definition finding_schema :: "json_schema \<Rightarrow> json_schema" where
  "finding_schema citation = Obj_Schema [''statement_vi'', ''citations'', ''confidence'']
     [(''statement_vi'', text_schema 1 4000), (''citations'', Arr_Schema 1 20 (Some citation)),
      (''confidence'', confidence_schema), (''uncertainty_vi'', text_schema 0 2000)]"

definition section_schema :: "json_schema \<Rightarrow> json_schema" where
  "section_schema citation =
     Obj_Schema [''findings''] [(''findings'', Arr_Schema 1 20 (Some (finding_schema citation)))]"

definition assumption_schema :: "json_schema \<Rightarrow> json_schema" where
  "assumption_schema citation = Obj_Schema [''statement_vi'', ''rationale_vi'']
     [(''statement_vi'', text_schema 1 4000), (''rationale_vi'', text_schema 1 4000),
      (''basis_citations'', Arr_Schema 0 20 (Some citation))]"

definition finding_from ::
  "(json \<Rightarrow> build_error + 'c) \<Rightarrow> ('c \<Rightarrow> bool) \<Rightarrow> (string \<times> json) list \<Rightarrow> build_error + 'c finding" where
  "finding_from cite cite_ok item =
     (case get_or item ''citations'' JNull of
        JList (x # xs) \<Rightarrow>
          rbind (map_result cite (x # xs)) (\<lambda>citations.
          rbind (enum_of confidence_levels (text_of item ''confidence'')) (\<lambda>confidence.
          validated (finding_ok cite_ok)
            \<lparr>fd_statement = text_of item ''statement_vi'', fd_citations = citations,
             fd_confidence = confidence, fd_uncertainty = text_of item ''uncertainty_vi''\<rparr>))
      | _ \<Rightarrow> Inl Output_Invalid)"

definition findings_from ::
  "(json \<Rightarrow> build_error + 'c) \<Rightarrow> ('c \<Rightarrow> bool) \<Rightarrow> (string \<times> json) list \<Rightarrow> string \<Rightarrow>
   build_error + 'c finding list" where
  "findings_from cite cite_ok payload key =
     (case as_mapping (get_or payload key JNull) of
        None \<Rightarrow> Inl Output_Invalid
      | Some part \<Rightarrow>
          (case get_or part ''findings'' JNull of
             JList raw \<Rightarrow> map_result (finding_from cite cite_ok) (mappings raw)
           | _ \<Rightarrow> Inl Output_Invalid))"

definition assumption_from ::
  "(json \<Rightarrow> build_error + 'c) \<Rightarrow> ('c \<Rightarrow> bool) \<Rightarrow> (string \<times> json) list \<Rightarrow> build_error + 'c assumption_item" where
  "assumption_from cite cite_ok item =
     rbind (rbind (listed item ''basis_citations'') (map_result cite)) (\<lambda>citations.
     validated (assumption_ok cite_ok)
       \<lparr>ai_statement = text_of item ''statement_vi'', ai_rationale = text_of item ''rationale_vi'',
        ai_basis_citations = citations\<rparr>)"

text \<open>A call of the gateway: a failure of the endpoint, or a rejected output.\<close>

datatype 'g inference_error = Endpoint_Failed 'g | Rejected build_error

definition rejected_output :: "build_error + 'a \<Rightarrow> 'g inference_error + 'a" where
  "rejected_output r = (case r of Inl e \<Rightarrow> Inl (Rejected e) | Inr x \<Rightarrow> Inr x)"

text \<open>
  The gateway checks an answer against the schema it was given before it returns it, and names
  the model and the endpoint.
\<close>

definition honours_schema :: "(json_schema \<Rightarrow> 'g + json \<times> string \<times> string) \<Rightarrow> bool" where
  "honours_schema reason \<longleftrightarrow>
     (\<forall>s p m e. reason s = Inr (p, m, e) \<longrightarrow> conforms s p \<and> m \<noteq> [] \<and> e \<noteq> [])"

section \<open>Lists of identifiers as text\<close>

definition uuid_texts :: "string list \<Rightarrow> bool" where
  "uuid_texts ss \<longleftrightarrow> list_all (\<lambda>s. \<exists>u<uuid_bound. s = str_uuid u) ss"

lemma uuid_texts_parse: "uuid_texts ss \<Longrightarrow> s \<in> set ss \<Longrightarrow> parse_uuid s = Inr u \<Longrightarrow> str_uuid u \<in> set ss"
  using parse_str_uuid by (fastforce simp: uuid_texts_def list_all_iff)

lemma uuid_texts_read: "uuid_texts ss \<Longrightarrow> s \<in> set ss \<Longrightarrow> \<exists>u<uuid_bound. parse_uuid s = Inr u \<and> s = str_uuid u"
  using parse_str_uuid by (fastforce simp: uuid_texts_def list_all_iff)

lemma uuid_texts_map: "list_all (\<lambda>u. u < uuid_bound) us \<Longrightarrow> uuid_texts (map str_uuid us)"
  by (auto simp: uuid_texts_def list_all_iff)

section \<open>A conforming part is read\<close>

lemma enum_of_member: "s \<in> set (map fst members) \<Longrightarrow> \<exists>m. enum_of members s = Inr m"
  by (auto simp: enum_of_def map_of_eq_None_iff split: option.split)

lemma conforms_enum_field:
  assumes "conforms (Obj_Schema required props) (JObj kvs)" "k \<in> set required"
    "map_of props k = Some (Enum_Schema (map fst members))"
  shows "\<exists>m. enum_of members (text_of kvs k) = Inr m"
  using text_of_enum [OF assms] by (rule enum_of_member)

lemma conforms_evidence_gap:
  assumes "conforms evidence_gap_schema (JObj kvs)"
  shows "\<exists>g. gap_item_from kvs = Inr g \<and> gap_item_ok g"
proof -
  note c = assms [unfolded evidence_gap_schema_def]
  obtain l where "enum_of gap_blocking_levels (text_of kvs ''blocking_level'') = Inr l"
    using conforms_enum_field [OF c, of "''blocking_level''" gap_blocking_levels] by auto
  moreover obtain xs where "listed kvs ''suggested_evidence_vi'' = Inr xs"
    using listed_optional [OF c, of "''suggested_evidence_vi''"] by auto
  ultimately show ?thesis
    using text_of_string [OF c, of "''missing_information_vi''"] text_of_string [OF c, of "''why_needed_vi''"]
    by (simp add: gap_item_from_def validated_def gap_item_ok_def)
qed

lemma conforms_items_field:
  assumes "conforms (Obj_Schema required props) (JObj kvs)" "k \<in> set required"
    "map_of props k = Some (Arr_Schema 0 hi (Some s))"
    "\<And>item. conforms s (JObj item) \<Longrightarrow> \<exists>y. f item = Inr y"
  shows "\<exists>ys. items_field f kvs k = Inr ys"
proof -
  obtain xs where xs: "list_field kvs k = Inr xs" "\<forall>x\<in>set xs. conforms s x"
    using list_field_conforms [OF assms(1-3)] by blast
  then have "\<exists>y. f item = Inr y" if "item \<in> set (mappings xs)" for item
    using that assms(4) by (auto simp: in_mappings)
  then show ?thesis using map_result_succeeds [of "mappings xs" f] by (auto simp: items_field_def xs(1))
qed

lemma items_field_Inr:
  "items_field f payload key = Inr ys \<Longrightarrow> y \<in> set ys \<Longrightarrow> \<exists>item. f item = Inr y"
  by (auto simp: items_field_def result_simps dest: map_result_Inr_set)

lemma items_iterated_Inr:
  "items_iterated f payload key = Inr ys \<Longrightarrow> y \<in> set ys \<Longrightarrow> \<exists>item. f item = Inr y"
  by (auto simp: items_iterated_def result_simps dest: map_result_Inr_set)

lemma conforms_items_iterated:
  assumes "conforms (Obj_Schema required props) (JObj kvs)" "k \<in> set required"
    "map_of props k = Some (Arr_Schema 0 hi (Some s))"
    "\<And>item. conforms s (JObj item) \<Longrightarrow> \<exists>y. f item = Inr y \<and> Q y"
  shows "\<exists>ys. items_iterated f kvs k = Inr ys \<and> list_all Q ys"
proof -
  obtain xs where xs: "listed kvs k = Inr xs" "\<forall>x\<in>set xs. conforms s x"
    using list_field_conforms [OF assms(1-3)] by blast
  then have all: "\<exists>y. f item = Inr y \<and> Q y" if "item \<in> set (mappings xs)" for item
    using that assms(4) by (auto simp: in_mappings)
  then obtain ys where ys: "map_result f (mappings xs) = Inr ys"
    using map_result_succeeds [of "mappings xs" f] by blast
  have "Q y" if "y \<in> set ys" for y using map_result_Inr_set [OF ys that] all by fastforce
  with ys show ?thesis by (auto simp: items_iterated_def xs(1) list_all_iff)
qed

lemma conforms_all_read:
  assumes "\<And>j. conforms s j \<Longrightarrow> \<exists>c. cite j = Inr c \<and> cite_ok c" "\<forall>x\<in>set xs. conforms s x"
  shows "\<exists>cs. map_result cite xs = Inr cs \<and> length cs = length xs \<and> list_all cite_ok cs"
proof -
  obtain cs where cs: "map_result cite xs = Inr cs"
    using map_result_succeeds [of xs cite] assms by blast
  have "cite_ok c" if "c \<in> set cs" for c
    using map_result_Inr_set [OF cs that] assms by fastforce
  moreover have "length cs = length xs"
    using cs by (simp add: map_result_Inr_iff list_all2_lengthD)
  ultimately show ?thesis using cs by (auto simp: list_all_iff)
qed

text \<open>\<open>P\<close> is what the schema of the citations gives beyond the citation's own constraints.\<close>

lemma conforms_finding:
  assumes "conforms (finding_schema s) (JObj item)"
    "\<And>j. conforms s j \<Longrightarrow> \<exists>c. cite j = Inr c \<and> cite_ok c \<and> P c"
  shows "\<exists>f. finding_from cite cite_ok item = Inr f \<and> finding_ok cite_ok f \<and> list_all P (fd_citations f)"
proof -
  note c = assms(1) [unfolded finding_schema_def]
  obtain v where v: "map_of item ''citations'' = Some v" "conforms (Arr_Schema 1 20 (Some s)) v"
    using conforms_field(1) [OF c, of "''citations''"] by auto
  then obtain x xs where xs: "v = JList (x # xs)" "\<forall>y\<in>set (x # xs). conforms s y"
    by (auto simp: conforms_array Suc_le_length_iff)
  obtain cs where "map_result cite (x # xs) = Inr cs" "length cs = length (x # xs)"
      "list_all cite_ok cs" "list_all P cs"
    using conforms_all_read [of s cite "\<lambda>c. cite_ok c \<and> P c" "x # xs", OF assms(2) xs(2)]
    by (auto simp: list_all_iff)
  moreover obtain cf where "enum_of confidence_levels (text_of item ''confidence'') = Inr cf"
    using conforms_enum_field [OF c, of "''confidence''" confidence_levels] by (auto simp: confidence_schema_def)
  ultimately show ?thesis
    using text_of_string [OF c, of "''statement_vi''"] text_of_optional [OF c, of "''uncertainty_vi''"] v(1) xs(1)
    by (auto simp: finding_from_def get_or_def validated_def finding_ok_def)
qed

lemma finding_from_ok: "finding_from cite cite_ok item = Inr f \<Longrightarrow> finding_ok cite_ok f"
  by (cases "get_or item ''citations'' JNull")
    (auto simp: finding_from_def result_simps split: list.splits)

lemma conforms_findings:
  assumes "\<forall>x\<in>set xs. conforms (finding_schema s) x" "xs \<noteq> []"
    "\<And>j. conforms s j \<Longrightarrow> \<exists>c. cite j = Inr c \<and> cite_ok c \<and> P c"
  shows "\<exists>fs. map_result (finding_from cite cite_ok) (mappings xs) = Inr fs \<and> section_ok cite_ok fs \<and>
    list_all P (concat (map fd_citations fs))"
proof -
  have objects: "\<exists>kvs. x = JObj kvs" if "x \<in> set xs" for x
    using assms(1) that conforms_is_object unfolding finding_schema_def by blast
  have all: "\<exists>f. finding_from cite cite_ok item = Inr f \<and> finding_ok cite_ok f \<and> list_all P (fd_citations f)"
    if "item \<in> set (mappings xs)" for item
    using that assms(1) conforms_finding [of s item cite cite_ok P, OF _ assms(3)] by (auto simp: in_mappings)
  then obtain fs where fs: "map_result (finding_from cite cite_ok) (mappings xs) = Inr fs"
    using map_result_succeeds [of "mappings xs" "finding_from cite cite_ok"] by blast
  have "mappings xs \<noteq> []"
    using objects [of "hd xs"] assms(2) by (cases xs) auto
  with fs have "fs \<noteq> []" by (cases "mappings xs") (auto simp: result_simps)
  moreover have "finding_ok cite_ok f \<and> list_all P (fd_citations f)" if "f \<in> set fs" for f
    using map_result_Inr_set [OF fs that] all by fastforce
  ultimately show ?thesis using fs by (auto simp: section_ok_def list_all_iff)
qed

lemma conforms_section:
  assumes "conforms (Obj_Schema required props) (JObj kvs)" "k \<in> set required"
    "map_of props k = Some (Obj_Schema req ps)" "''findings'' \<in> set req"
    "map_of ps ''findings'' = Some (Arr_Schema 1 20 (Some (finding_schema s)))"
    "\<And>j. conforms s j \<Longrightarrow> \<exists>c. cite j = Inr c \<and> cite_ok c \<and> P c"
  shows "\<exists>fs. findings_from cite cite_ok kvs k = Inr fs \<and> section_ok cite_ok fs \<and>
    list_all P (concat (map fd_citations fs))"
proof -
  obtain v where v: "map_of kvs k = Some v" "conforms (Obj_Schema req ps) v"
    using conforms_field(1) [OF assms(1,3,2)] by blast
  then obtain part where part: "v = JObj part" using conforms_is_object by blast
  obtain w where w: "map_of part ''findings'' = Some w" "conforms (Arr_Schema 1 20 (Some (finding_schema s))) w"
    using conforms_field(1) [OF v(2) [unfolded part] assms(5,4)] by blast
  then obtain xs where xs: "w = JList xs" "1 \<le> length xs" "\<forall>x\<in>set xs. conforms (finding_schema s) x"
    by (auto simp: conforms_array)
  moreover have "xs \<noteq> []" using xs(2) by auto
  ultimately show ?thesis
    using v(1) part w(1) conforms_findings [of xs s cite cite_ok P, OF xs(3) _ assms(6)]
    by (auto simp: findings_from_def get_or_def)
qed

lemma conforms_assumption:
  assumes "conforms (assumption_schema s) (JObj item)" "\<And>j. conforms s j \<Longrightarrow> \<exists>c. cite j = Inr c \<and> cite_ok c"
  shows "\<exists>a. assumption_from cite cite_ok item = Inr a \<and> assumption_ok cite_ok a"
proof -
  note c = assms(1) [unfolded assumption_schema_def]
  obtain xs where xs: "listed item ''basis_citations'' = Inr xs" "\<forall>x\<in>set xs. conforms s x"
    using listed_optional [OF c, of "''basis_citations''"] by auto
  obtain cs where "map_result cite xs = Inr cs" "list_all cite_ok cs"
    using conforms_all_read [of s cite cite_ok xs, OF assms(2) xs(2)] by blast
  then show ?thesis
    using xs(1) text_of_string [OF c, of "''statement_vi''"] text_of_string [OF c, of "''rationale_vi''"]
    by (simp add: assumption_from_def validated_def assumption_ok_def)
qed

section \<open>A citation by kind and identifier\<close>

lemma conforms_kind_member:
  assumes "conforms (Obj_Schema [''kind'', key] [(''kind'', Const_Schema k), (key, Str_Schema 0 None (Some ms))]) j"
    "key \<noteq> ''kind''"
  shows "\<exists>kvs. j = JObj kvs \<and> map_of kvs ''kind'' = Some (JStr k) \<and> text_of kvs key \<in> set ms"
proof -
  obtain kvs where j: "j = JObj kvs" using assms(1) conforms_is_object by blast
  note c = assms(1) [unfolded j]
  show ?thesis
    using text_of_const [OF c, of "''kind''" k] text_of_member [OF c, of key 0 None ms] j assms(2) by simp
qed

section \<open>Where the citations of a part come from\<close>

definition read_by :: "('j \<Rightarrow> build_error + 'c) \<Rightarrow> 'c list \<Rightarrow> bool" where
  "read_by cite cs \<longleftrightarrow> list_all (\<lambda>c. \<exists>j. cite j = Inr c) cs"

lemma read_by_all: "read_by cite cs \<Longrightarrow> (\<And>j c. cite j = Inr c \<Longrightarrow> P c) \<Longrightarrow> list_all P cs"
  by (auto simp: read_by_def list_all_iff)

lemma read_by_map_result: "map_result cite xs = Inr cs \<Longrightarrow> read_by cite cs"
  using map_result_Inr_set by (fastforce simp: read_by_def list_all_iff)

lemma read_by_concat: "read_by cite (concat css) \<longleftrightarrow> list_all (read_by cite) css"
  by (induction css) (auto simp: read_by_def)

lemma read_by_append [simp]: "read_by cite (xs @ ys) \<longleftrightarrow> read_by cite xs \<and> read_by cite ys"
  by (simp add: read_by_def)

lemma finding_from_read: "finding_from cite cite_ok item = Inr f \<Longrightarrow> read_by cite (fd_citations f)"
  by (cases "get_or item ''citations'' JNull")
    (auto simp: finding_from_def rbind_Inr simp del: map_result.simps dest: read_by_map_result split: list.splits)

lemma findings_from_read:
  assumes "findings_from cite cite_ok payload key = Inr fs"
  shows "read_by cite (concat (map fd_citations fs))"
proof -
  from assms obtain raw where "map_result (finding_from cite cite_ok) (mappings raw) = Inr fs"
    by (auto simp: findings_from_def split: option.splits json.splits)
  from map_result_Inr_set [OF this] finding_from_read show ?thesis
    by (fastforce simp: read_by_concat list_all_iff)
qed

lemma items_iterated_read:
  assumes "items_iterated f payload key = Inr ys" "\<And>item y. f item = Inr y \<Longrightarrow> read_by cite (g y)"
  shows "read_by cite (concat (map g ys))"
  using items_iterated_Inr [OF assms(1)] assms(2) by (fastforce simp: read_by_concat list_all_iff)

lemma assumption_from_read: "assumption_from cite cite_ok item = Inr a \<Longrightarrow> read_by cite (ai_basis_citations a)"
  by (auto simp: assumption_from_def rbind_Inr dest: read_by_map_result)

end
