(* ===== verification/Risk_Checker.thy ===== *)
theory Risk_Checker
  imports Risk_Analysis Assessment_Reading
begin

text \<open>
  The checker (\<open>application/risk_review/checker.py\<close>): the blind pass A, which sees confirmed
  facts only, and pass B, which adds challenges of the model to the deterministic ones.
  For each pass: the closed response schema sent with the request, and the builder that
  turns a payload into the typed artifact or raises.  The inference gateway is an argument:
  it answers a schema with a failure or with a payload, a model and an endpoint identifier.
\<close>

section \<open>Pass A: the blind pre-analysis\<close>

text \<open>Citations of pass A are confirmed facts, held by their identifiers.\<close>

record independent_risk =
  ir_description :: string
  ir_citations :: "uuid list"
  ir_severity :: challenge_severity
  ir_confidence :: confidence_level

definition independent_risk_ok :: "independent_risk \<Rightarrow> bool" where
  "independent_risk_ok r \<longleftrightarrow> sized 1 4000 (ir_description r) \<and> ir_citations r \<noteq> []"

record independent_observation =
  io_statement :: string
  io_citations :: "uuid list"
  io_confidence :: confidence_level

definition independent_observation_ok :: "independent_observation \<Rightarrow> bool" where
  "independent_observation_ok r \<longleftrightarrow> sized 1 4000 (io_statement r) \<and> io_citations r \<noteq> []"

record risk_pre_analysis =
  bp_risks :: "independent_risk list"
  bp_observations :: "independent_observation list"

definition cited_confirmed_fact_ids :: "risk_pre_analysis \<Rightarrow> string list" where
  "cited_confirmed_fact_ids b =
     map str_uuid (concat (map ir_citations (bp_risks b)) @ concat (map io_citations (bp_observations b)))"

definition confirmed_fact_citation_schema :: "string list \<Rightarrow> json_schema" where
  "confirmed_fact_citation_schema facts =
     Obj_Schema [''kind'', ''confirmed_fact_id'']
       [(''kind'', Const_Schema ''CONFIRMED_FACT''),
        (''confirmed_fact_id'', Str_Schema 0 None (Some facts))]"

definition severity_schema :: json_schema where
  "severity_schema = Enum_Schema (map fst challenge_severities)"

definition pre_analysis_response_schema :: "string list \<Rightarrow> json_schema" where
  "pre_analysis_response_schema facts =
     (let citations = Arr_Schema 1 10 (Some (confirmed_fact_citation_schema facts));
          risk = Obj_Schema [''description_vi'', ''citations'', ''severity'', ''confidence'']
            [(''description_vi'', text_schema 1 4000), (''citations'', citations),
             (''severity'', severity_schema), (''confidence'', confidence_schema)];
          observation = Obj_Schema [''statement_vi'', ''citations'', ''confidence'']
            [(''statement_vi'', text_schema 1 4000), (''citations'', citations),
             (''confidence'', confidence_schema)];
          risks = (if facts \<noteq> [] then Arr_Schema 0 30 (Some risk) else Arr_Schema 0 0 None);
          observations = (if facts \<noteq> [] then Arr_Schema 0 30 (Some observation) else Arr_Schema 0 0 None)
      in Obj_Schema [''independent_risks'', ''observations'']
           [(''independent_risks'', risks), (''observations'', observations)])"

text \<open>The content of the blind request.\<close>

definition facts_json :: "'z evidence_view_scheme \<Rightarrow> json" where
  "facts_json view = JList (map (\<lambda>f. JObj [(''confirmedFactId'', JStr (str_uuid (ef_id f))),
     (''fieldKey'', JStr (ef_field_key f)), (''value'', ef_value f)]) (ev_facts view))"

definition blind_untrusted_context :: "evidence_view \<Rightarrow> json" where
  "blind_untrusted_context view =
     JObj [(''caseId'', JStr (str_uuid (ev_case_id view))), (''caseVersion'', JInt (ev_case_version view)),
           (''confirmedFacts'', facts_json view)]"

definition maker_artifact_kinds :: "string list" where
  "maker_artifact_kinds = [''MAKER_FINDING'', ''CALCULATOR_RESULT'', ''POLICY_CITATION'', ''CONTROLLED_CHECK'']"

definition pre_analysis_citation :: "string list \<Rightarrow> json \<Rightarrow> build_error + uuid" where
  "pre_analysis_citation known j =
     rbind (get_method j) (\<lambda>item.
     let kind = get_or item ''kind'' JNull; fact_id = text_of item ''confirmed_fact_id''
     in if kind \<in> JStr ` set maker_artifact_kinds then Inl Output_Invalid
        else if kind \<noteq> JStr ''CONFIRMED_FACT'' then Inl Output_Invalid
        else if fact_id \<notin> set known then Inl Output_Invalid
        else parse_uuid fact_id)"

definition pre_analysis_citations_from ::
  "string list \<Rightarrow> (string \<times> json) list \<Rightarrow> build_error + uuid list" where
  "pre_analysis_citations_from known item =
     rbind (listed item ''citations'') (map_result (pre_analysis_citation known))"

definition independent_risk_from :: "string list \<Rightarrow> (string \<times> json) list \<Rightarrow> build_error + independent_risk" where
  "independent_risk_from known item =
     rbind (pre_analysis_citations_from known item) (\<lambda>citations.
     rbind (enum_of challenge_severities (text_of item ''severity'')) (\<lambda>severity.
     rbind (enum_of confidence_levels (text_of item ''confidence'')) (\<lambda>confidence.
     validated independent_risk_ok
       \<lparr>ir_description = text_of item ''description_vi'', ir_citations = citations,
        ir_severity = severity, ir_confidence = confidence\<rparr>)))"

definition independent_observation_from ::
  "string list \<Rightarrow> (string \<times> json) list \<Rightarrow> build_error + independent_observation" where
  "independent_observation_from known item =
     rbind (pre_analysis_citations_from known item) (\<lambda>citations.
     rbind (enum_of confidence_levels (text_of item ''confidence'')) (\<lambda>confidence.
     validated independent_observation_ok
       \<lparr>io_statement = text_of item ''statement_vi'', io_citations = citations,
        io_confidence = confidence\<rparr>))"

definition build_pre_analysis ::
  "(string \<times> json) list \<Rightarrow> evidence_view \<Rightarrow> build_error + risk_pre_analysis" where
  "build_pre_analysis payload view =
     rejecting
      (let known = fact_ids view
       in rbind (list_field payload ''independent_risks'') (\<lambda>raw_risks.
          rbind (map_result (independent_risk_from known) (mappings raw_risks)) (\<lambda>risks.
          rbind (list_field payload ''observations'') (\<lambda>raw_observations.
          rbind (map_result (independent_observation_from known) (mappings raw_observations)) (\<lambda>observations.
          Inr \<lparr>bp_risks = risks, bp_observations = observations\<rparr>)))))"

definition infer_pre_analysis ::
  "(json_schema \<Rightarrow> json \<Rightarrow> 'g + json \<times> string \<times> string) \<Rightarrow> evidence_view \<Rightarrow>
   'g inference_error + risk_pre_analysis" where
  "infer_pre_analysis reason view =
     (case reason (pre_analysis_response_schema (fact_ids view)) (blind_untrusted_context view) of
        Inl g \<Rightarrow> Inl (Endpoint_Failed g)
      | Inr (payload, _, _) \<Rightarrow>
          (case as_mapping payload of
             None \<Rightarrow> Inl (Rejected Output_Invalid)
           | Some kvs \<Rightarrow> rejected_output (build_pre_analysis kvs view)))"

section \<open>Pass B: the response schema\<close>

definition target_branch :: "string \<Rightarrow> uuid \<Rightarrow> string list \<Rightarrow> json_schema list" where
  "target_branch source maker_id paths =
     (if paths = [] then [] else
       [Obj_Schema [''maker_source'', ''maker_assessment_id'', ''section_path'']
         [(''maker_source'', Const_Schema source), (''maker_assessment_id'', Const_Schema (str_uuid maker_id)),
          (''section_path'', Enum_Schema paths)]])"

definition starts_with :: "string \<Rightarrow> string \<Rightarrow> bool" where
  "starts_with prefix s \<longleftrightarrow> take (length prefix) s = prefix"

text \<open>Without a source both branches are offered; a prefix selects among the paths.\<close>

definition filtered_target_schema :: "target_universe \<Rightarrow> maker_source option \<Rightarrow> string option \<Rightarrow> json_schema" where
  "filtered_target_schema u source prefix =
     (let chosen = filter (\<lambda>p. case prefix of None \<Rightarrow> True | Some x \<Rightarrow> starts_with x p)
      in One_Of
        ((if source \<in> {None, Some MAKER_UNDERWRITING}
          then target_branch ''CREDIT_UNDERWRITING'' (tu_underwriting_id u) (chosen (tu_underwriting_paths u))
          else []) @
         (if source \<in> {None, Some MAKER_LEGAL}
          then target_branch ''LEGAL_COMPLIANCE_COLLATERAL'' (tu_legal_id u) (chosen (tu_legal_paths u))
          else [])))"

definition target_schema :: "target_universe \<Rightarrow> json_schema" where
  "target_schema u = filtered_target_schema u None None"

definition policy_citation_branches :: "policy_hit list \<Rightarrow> json_schema list" where
  "policy_citation_branches hits =
     map (\<lambda>h. Obj_Schema
         [''kind'', ''corpus_id'', ''corpus_version'', ''document_id'', ''clause_id'', ''quoted_text_vi'']
         [(''kind'', Const_Schema ''POLICY_CITATION''), (''corpus_id'', Const_Schema (ph_corpus_id h)),
          (''corpus_version'', Const_Schema (ph_corpus_version h)),
          (''document_id'', Const_Schema (ph_document_id h)), (''clause_id'', Const_Schema (ph_clause_id h)),
          (''quoted_text_vi'', Const_Schema (ph_quoted_text h))]) hits"

text \<open>What a citation of pass B may name.\<close>

record citation_scope =
  cs_facts :: "string list"
  cs_results :: "string list"
  cs_hits :: "policy_hit list"
  cs_invocations :: "string list"
  cs_universe :: target_universe

definition citation_schema :: "citation_scope \<Rightarrow> json_schema" where
  "citation_schema sc = One_Of
     ((if cs_facts sc = [] then [] else [confirmed_fact_citation_schema (cs_facts sc)]) @
      (if cs_results sc = [] then [] else
        [Obj_Schema [''kind'', ''result_id'']
          [(''kind'', Const_Schema ''CALCULATOR_RESULT''),
           (''result_id'', Str_Schema 0 None (Some (cs_results sc)))]]) @
      policy_citation_branches (cs_hits sc) @
      (if cs_invocations sc = [] then [] else
        [Obj_Schema [''kind'', ''invocation_id'']
          [(''kind'', Const_Schema ''CONTROLLED_CHECK''),
           (''invocation_id'', Str_Schema 0 None (Some (cs_invocations sc)))]]) @
      [Obj_Schema [''kind'', ''ref'']
        [(''kind'', Const_Schema ''MAKER_FINDING''), (''ref'', target_schema (cs_universe sc))]])"

definition citations_schema :: "citation_scope \<Rightarrow> json_schema" where
  "citations_schema sc = Arr_Schema 1 10 (Some (citation_schema sc))"

definition challenge_item_schema :: "citation_scope \<Rightarrow> json_schema" where
  "challenge_item_schema sc = Obj_Schema
     [''target'', ''challenge_type'', ''statement_vi'', ''citations'', ''severity'', ''confidence'']
     [(''target'', target_schema (cs_universe sc)),
      (''challenge_type'', Enum_Schema (map fst challenge_types)), (''statement_vi'', text_schema 1 4000),
      (''citations'', citations_schema sc), (''severity'', severity_schema),
      (''confidence'', confidence_schema)]"

definition omitted_risk_schema :: "citation_scope \<Rightarrow> json_schema" where
  "omitted_risk_schema sc = Obj_Schema [''description_vi'', ''citations'', ''confidence'']
     [(''description_vi'', text_schema 1 4000), (''citations'', citations_schema sc),
      (''confidence'', confidence_schema), (''uncertainty_vi'', text_schema 0 2000)]"

definition mitigant_review_schema :: "citation_scope \<Rightarrow> json_schema" where
  "mitigant_review_schema sc = Obj_Schema
     [''risk_target'', ''mitigant_target'', ''concern_vi'', ''citations'', ''confidence'']
     [(''risk_target'', filtered_target_schema (cs_universe sc) (Some MAKER_UNDERWRITING) (Some ''risks['')),
      (''mitigant_target'',
         filtered_target_schema (cs_universe sc) (Some MAKER_UNDERWRITING) (Some ''mitigants['')),
      (''concern_vi'', text_schema 1 4000), (''citations'', citations_schema sc),
      (''confidence'', confidence_schema), (''uncertainty_vi'', text_schema 0 2000)]"

definition recommendation_schema :: "citation_scope \<Rightarrow> json_schema" where
  "recommendation_schema sc = Obj_Schema [''recommendation_type'', ''rationale_vi'']
     [(''recommendation_type'', Enum_Schema (map fst recommendation_types)),
      (''rationale_vi'', text_schema 1 2000), (''citations'', Arr_Schema 0 10 (Some (citation_schema sc)))]"

definition checker_response_schema :: "citation_scope \<Rightarrow> json_schema" where
  "checker_response_schema sc =
     (let paths = tu_underwriting_paths (cs_universe sc);
          has_risks = list_ex (starts_with ''risks['') paths;
          has_mitigants = list_ex (starts_with ''mitigants['') paths
      in Obj_Schema
        [''challenges'', ''omitted_risks'', ''mitigant_adequacy_reviews'', ''recommendations'', ''evidence_gaps'']
        [(''challenges'', Arr_Schema 0 30 (Some (challenge_item_schema sc))),
         (''omitted_risks'', Arr_Schema 0 20 (Some (omitted_risk_schema sc))),
         (''mitigant_adequacy_reviews'',
            if has_risks \<and> has_mitigants then Arr_Schema 0 20 (Some (mitigant_review_schema sc))
            else Arr_Schema 0 0 None),
         (''recommendations'', Arr_Schema 0 10 (Some (recommendation_schema sc))),
         (''evidence_gaps'', Arr_Schema 0 30 (Some evidence_gap_schema))])"

section \<open>Pass B: reading targets and citations\<close>

definition target_from :: "(string \<times> json) list \<Rightarrow> target_universe \<Rightarrow> build_error + finding_ref" where
  "target_from raw universe =
     (case rbind (enum_of maker_sources (text_of raw ''maker_source'')) (\<lambda>source.
           rbind (parse_uuid (text_of raw ''maker_assessment_id'')) (\<lambda>maker_id.
           validated finding_ref_ok
             \<lparr>mf_source = source, mf_assessment_id = maker_id, mf_section_path = text_of raw ''section_path''\<rparr>)) of
        Inl e \<Rightarrow> Inl Output_Invalid
      | Inr ref \<Rightarrow> if universe_contains universe ref then Inr ref else Inl Output_Invalid)"

definition hit_from :: "(string \<times> json) list \<Rightarrow> policy_hit" where
  "hit_from item =
     \<lparr>ph_corpus_id = text_of item ''corpus_id'', ph_corpus_version = text_of item ''corpus_version'',
      ph_document_id = text_of item ''document_id'', ph_clause_id = text_of item ''clause_id'',
      ph_quoted_text = text_of item ''quoted_text_vi''\<rparr>"

definition citation_from :: "citation_scope \<Rightarrow> json \<Rightarrow> build_error + citation" where
  "citation_from sc j =
     rbind (get_method j) (\<lambda>item.
     let kind = get_or item ''kind'' JNull
     in if kind = JStr ''CONFIRMED_FACT'' then
          (let fact_id = text_of item ''confirmed_fact_id''
           in if fact_id \<notin> set (cs_facts sc) then Inl Output_Invalid
              else rbind (parse_uuid fact_id) (\<lambda>f. Inr (Cite_Fact f)))
        else if kind = JStr ''CALCULATOR_RESULT'' then
          (let result_id = text_of item ''result_id''
           in if result_id \<notin> set (cs_results sc) then Inl Output_Invalid
              else validated citation_ok (Cite_Result result_id))
        else if kind = JStr ''POLICY_CITATION'' then
          (if hit_from item \<notin> set (cs_hits sc) then Inl Output_Invalid
           else validated citation_ok (Cite_Policy (hit_from item)))
        else if kind = JStr ''CONTROLLED_CHECK'' then
          (let invocation_id = text_of item ''invocation_id''
           in if invocation_id \<notin> set (cs_invocations sc) then Inl Output_Invalid
              else rbind (parse_uuid invocation_id) (\<lambda>i. Inr (Cite_Check i)))
        else if kind = JStr ''MAKER_FINDING'' then
          (case as_mapping (get_or item ''ref'' JNull) of
             None \<Rightarrow> Inl Output_Invalid
           | Some raw \<Rightarrow> rbind (target_from raw (cs_universe sc)) (\<lambda>ref. Inr (Cite_Maker ref)))
        else Inl Output_Invalid)"

definition citations_from :: "citation_scope \<Rightarrow> (string \<times> json) list \<Rightarrow> build_error + citation list" where
  "citations_from sc item = rbind (listed item ''citations'') (map_result (citation_from sc))"

text \<open>\<open>_target_from(dict(item.get(key, {})), universe)\<close>\<close>

definition target_field ::
  "(string \<times> json) list \<Rightarrow> string \<Rightarrow> target_universe \<Rightarrow> build_error + finding_ref" where
  "target_field item key universe =
     rbind (py_dict_of (get_or item key (JObj []))) (\<lambda>raw. target_from raw universe)"

section \<open>Pass B: the builder\<close>

record checker_run =
  kx_task_id :: uuid
  kx_execution_id :: uuid

record checker_input =
  xi_view :: evidence_view
  xi_underwriting :: underwriting_assessment
  xi_underwriting_execution :: uuid
  xi_legal :: legal_assessment
  xi_legal_execution :: uuid
  xi_pre_analysis :: pre_analysis
  xi_universe :: target_universe
  xi_hits :: "policy_hit list"
  xi_checks :: "check_result list"
  xi_run :: checker_run
  xi_blind :: "risk_pre_analysis option"

definition review_scope :: "checker_input \<Rightarrow> citation_scope" where
  "review_scope inp =
     \<lparr>cs_facts = fact_ids (xi_view inp), cs_results = known_result_ids (xi_underwriting inp),
      cs_hits = xi_hits inp, cs_invocations = map (str_uuid \<circ> kr_invocation_id) (xi_checks inp),
      cs_universe = xi_universe inp\<rparr>"

definition blind_fact_ids :: "checker_input \<Rightarrow> string list" where
  "blind_fact_ids inp = (case xi_blind inp of None \<Rightarrow> [] | Some b \<Rightarrow> cited_confirmed_fact_ids b)"

definition is_raised_blind :: "string list \<Rightarrow> citation list \<Rightarrow> bool" where
  "is_raised_blind blind cs \<longleftrightarrow>
     list_ex (\<lambda>c. case c of Cite_Fact f \<Rightarrow> str_uuid f \<in> set blind | _ \<Rightarrow> False) cs"

definition llm_challenge_from ::
  "(nat \<Rightarrow> uuid) \<Rightarrow> citation_scope \<Rightarrow> string list \<Rightarrow> nat \<Rightarrow> (string \<times> json) list \<Rightarrow> build_error + challenge" where
  "llm_challenge_from ids sc blind i item =
     rbind (citations_from sc item) (\<lambda>citations.
     rbind (target_field item ''target'' (cs_universe sc)) (\<lambda>target.
     rbind (enum_of challenge_types (text_of item ''challenge_type'')) (\<lambda>type.
     rbind (enum_of challenge_severities (text_of item ''severity'')) (\<lambda>severity.
     rbind (enum_of confidence_levels (text_of item ''confidence'')) (\<lambda>confidence.
     validated challenge_ok
       \<lparr>ch_id = ids i, ch_target = target, ch_type = type, ch_statement = text_of item ''statement_vi'',
        ch_citations = citations, ch_severity = severity, ch_confidence = confidence,
        ch_raised_by = LLM, ch_raised_blind = is_raised_blind blind citations\<rparr>)))))"

definition omitted_risk_from :: "citation_scope \<Rightarrow> (string \<times> json) list \<Rightarrow> build_error + omitted_risk" where
  "omitted_risk_from sc item =
     rbind (citations_from sc item) (\<lambda>citations.
     rbind (enum_of confidence_levels (text_of item ''confidence'')) (\<lambda>confidence.
     validated omitted_risk_ok
       \<lparr>om_description = text_of item ''description_vi'', om_citations = citations,
        om_confidence = confidence, om_uncertainty = text_of item ''uncertainty_vi''\<rparr>))"

definition adequacy_review_from :: "citation_scope \<Rightarrow> (string \<times> json) list \<Rightarrow> build_error + adequacy_review" where
  "adequacy_review_from sc item =
     rbind (target_field item ''risk_target'' (cs_universe sc)) (\<lambda>risk.
     rbind (target_field item ''mitigant_target'' (cs_universe sc)) (\<lambda>mitigant.
     rbind (citations_from sc item) (\<lambda>citations.
     rbind (enum_of confidence_levels (text_of item ''confidence'')) (\<lambda>confidence.
     validated adequacy_review_ok
       \<lparr>ar_risk_target = risk, ar_mitigant_target = mitigant, ar_concern = text_of item ''concern_vi'',
        ar_citations = citations, ar_confidence = confidence,
        ar_uncertainty = text_of item ''uncertainty_vi''\<rparr>))))"

definition recommendation_from :: "citation_scope \<Rightarrow> (string \<times> json) list \<Rightarrow> build_error + recommendation" where
  "recommendation_from sc item =
     rbind (enum_of recommendation_types (text_of item ''recommendation_type'')) (\<lambda>type.
     rbind (citations_from sc item) (\<lambda>citations.
     validated recommendation_ok
       \<lparr>rc_type = type, rc_rationale = text_of item ''rationale_vi'', rc_citations = citations\<rparr>))"

definition build_review ::
  "(nat \<Rightarrow> uuid) \<Rightarrow> datetime \<Rightarrow> checker_input \<Rightarrow> string \<Rightarrow> string \<Rightarrow> (string \<times> json) list \<Rightarrow>
   build_error + risk_review" where
  "build_review ids now inp model_id endpoint_id payload =
     rejecting
      (let sc = review_scope inp; blind = blind_fact_ids inp; pre = xi_pre_analysis inp; run = xi_run inp
       in if kx_execution_id run \<in> {xi_underwriting_execution inp, xi_legal_execution inp}
          then Inl Same_Execution
          else
          rbind (list_field payload ''challenges'') (\<lambda>raw_challenges.
          rbind (map_result (\<lambda>(i, item). llm_challenge_from ids sc blind i item)
                   (enumerate 0 (mappings raw_challenges))) (\<lambda>llm_challenges.
          rbind (items_field (omitted_risk_from sc) payload ''omitted_risks'') (\<lambda>omitted.
          rbind (items_field (adequacy_review_from sc) payload ''mitigant_adequacy_reviews'') (\<lambda>reviews.
          rbind (items_field (recommendation_from sc) payload ''recommendations'') (\<lambda>recommendations.
          rbind (items_field gap_item_from payload ''evidence_gaps'') (\<lambda>gaps.
          validated risk_review_ok
            \<lparr>rr_id = ids (length llm_challenges),
             rr_provenance =
               \<lparr>pv_case_id = ev_case_id (xi_view inp), pv_case_version = ev_case_version (xi_view inp),
                pv_execution_id = kx_execution_id run, pv_task_id = kx_task_id run,
                pv_prompt_version = ''risk-review-prompt-v1'', pv_model_id = model_id,
                pv_endpoint_id = endpoint_id, pv_view_built_at = ev_built_at (xi_view inp),
                pv_created_at = now,
                rp_reviewed =
                  [\<lparr>mr_source = MAKER_UNDERWRITING, mr_assessment_id = ua_id (xi_underwriting inp),
                    mr_execution_id = xi_underwriting_execution inp\<rparr>,
                   \<lparr>mr_source = MAKER_LEGAL, mr_assessment_id = la_id (xi_legal inp),
                    mr_execution_id = xi_legal_execution inp\<rparr>]\<rparr>,
             rr_challenges = all_challenges pre @ llm_challenges,
             rr_omitted_risks = omitted, rr_adequacy_reviews = reviews,
             rr_visibility = pa_visibility_checks pre, rr_recommendations = recommendations,
             rr_gaps = gaps\<rparr>)))))))"

definition infer_review ::
  "(json_schema \<Rightarrow> 'g + json \<times> string \<times> string) \<Rightarrow> (nat \<Rightarrow> uuid) \<Rightarrow> datetime \<Rightarrow> checker_input \<Rightarrow>
   'g inference_error + risk_review" where
  "infer_review reason ids now inp =
     (if kx_execution_id (xi_run inp) \<in> {xi_underwriting_execution inp, xi_legal_execution inp}
      then Inl (Rejected Same_Execution)
      else (case reason (checker_response_schema (review_scope inp)) of
        Inl g \<Rightarrow> Inl (Endpoint_Failed g)
      | Inr (payload, model_id, endpoint_id) \<Rightarrow>
          (case as_mapping payload of
             None \<Rightarrow> Inl (Rejected Output_Invalid)
           | Some kvs \<Rightarrow> rejected_output (build_review ids now inp model_id endpoint_id kvs))))"

definition gap_records_from :: "risk_review \<Rightarrow> gap_record list" where
  "gap_records_from a = map gap_record_of (rr_gaps a)"

end
