(* ===== verification/Risk_Checker_Safety.thy ===== *)
theory Risk_Checker_Safety
  imports Risk_Checker
begin

text \<open>
  What the checker guarantees: its deterministic challenges cannot be dropped by the model,
  what it cites was in its scope, a payload that conforms to the response schema is built,
  and the blind pass cites confirmed facts only.
\<close>

section \<open>What a citation of the scope names\<close>

fun citation_in_scope :: "citation_scope \<Rightarrow> citation \<Rightarrow> bool" where
  "citation_in_scope sc (Cite_Fact f) = (str_uuid f \<in> set (cs_facts sc))"
| "citation_in_scope sc (Cite_Result r) = (r \<in> set (cs_results sc))"
| "citation_in_scope sc (Cite_Region d r) = False"
| "citation_in_scope sc (Cite_Policy h) = (h \<in> set (cs_hits sc))"
| "citation_in_scope sc (Cite_Check i) = (str_uuid i \<in> set (cs_invocations sc))"
| "citation_in_scope sc (Cite_Maker r) = universe_contains (cs_universe sc) r"

lemma target_from_Inr:
  "target_from raw universe = Inr ref \<Longrightarrow> universe_contains universe ref \<and> finding_ref_ok ref"
  by (auto simp: target_from_def result_simps split: sum.splits if_splits)

lemma target_field_Inr:
  "target_field item key universe = Inr ref \<Longrightarrow> universe_contains universe ref \<and> finding_ref_ok ref"
  using target_from_Inr by (auto simp: target_field_def result_simps)

lemma citation_from_Inr:
  assumes "citation_from sc j = Inr c" "uuid_texts (cs_facts sc)" "uuid_texts (cs_invocations sc)"
  shows "citation_in_scope sc c \<and> citation_ok c"
  using assms uuid_texts_parse target_from_Inr
  by (auto simp: citation_from_def Let_def result_simps split: if_splits option.splits)

lemma citations_from_Inr:
  assumes "citations_from sc item = Inr cs" "uuid_texts (cs_facts sc)" "uuid_texts (cs_invocations sc)"
  shows "list_all (\<lambda>c. citation_in_scope sc c \<and> citation_ok c) cs"
  using assms citation_from_Inr [OF _ assms(2,3)]
  by (auto simp: citations_from_def result_simps list_all_iff dest!: map_result_Inr_set)

section \<open>What the builders give back\<close>

text \<open>The challenges that came from the model, and the parts that cite.\<close>

definition scoped :: "checker_input \<Rightarrow> citation list \<Rightarrow> bool" where
  "scoped inp cs \<longleftrightarrow> cs \<noteq> [] \<and> list_all (citation_in_scope (review_scope inp)) cs"

definition scope_texts :: "checker_input \<Rightarrow> bool" where
  "scope_texts inp \<longleftrightarrow>
     uuid_texts (cs_facts (review_scope inp)) \<and> uuid_texts (cs_invocations (review_scope inp))"

definition llm_challenge_ok :: "checker_input \<Rightarrow> challenge \<Rightarrow> bool" where
  "llm_challenge_ok inp c \<longleftrightarrow>
     ch_raised_by c = LLM \<and> universe_contains (xi_universe inp) (ch_target c) \<and>
     scoped inp (ch_citations c) \<and>
     (ch_raised_blind c \<longleftrightarrow>
        (\<exists>f. Cite_Fact f \<in> set (ch_citations c) \<and> str_uuid f \<in> set (blind_fact_ids inp)))"

lemma review_scope_simps [simp]:
  "cs_universe (review_scope inp) = xi_universe inp" "cs_hits (review_scope inp) = xi_hits inp"
  by (simp_all add: review_scope_def)

lemma is_raised_blind_iff:
  "is_raised_blind blind cs \<longleftrightarrow> (\<exists>f. Cite_Fact f \<in> set cs \<and> str_uuid f \<in> set blind)"
proof (induction cs)
  case (Cons c cs)
  then show ?case by (cases c) (auto simp: is_raised_blind_def)
qed (simp add: is_raised_blind_def)

lemma llm_challenge_from_Inr:
  assumes "llm_challenge_from ids (review_scope inp) (blind_fact_ids inp) i item = Inr c" "scope_texts inp"
  shows "llm_challenge_ok inp c \<and> challenge_ok c \<and> ch_id c = ids i"
proof -
  from assms(1) obtain cs target where c: "citations_from (review_scope inp) item = Inr cs"
    "target_field item ''target'' (xi_universe inp) = Inr target" "ch_citations c = cs"
    "ch_target c = target" "ch_raised_by c = LLM" "challenge_ok c" "ch_id c = ids i"
    "ch_raised_blind c = is_raised_blind (blind_fact_ids inp) cs"
    by (auto simp: llm_challenge_from_def result_simps)
  have "list_all (\<lambda>c. citation_in_scope (review_scope inp) c \<and> citation_ok c) cs"
    using citations_from_Inr [OF c(1)] assms(2) by (simp add: scope_texts_def)
  moreover have "cs \<noteq> []" using c(3,6) by (simp add: challenge_ok_def)
  ultimately show ?thesis
    using c target_field_Inr [OF c(2)]
    by (simp add: llm_challenge_ok_def scoped_def list_all_iff is_raised_blind_iff)
qed

lemma omitted_risk_from_Inr:
  "omitted_risk_from (review_scope inp) item = Inr r \<Longrightarrow> scope_texts inp \<Longrightarrow>
   scoped inp (om_citations r) \<and> omitted_risk_ok r"
  using citations_from_Inr [of "review_scope inp" item]
  by (auto simp: omitted_risk_from_def result_simps scoped_def scope_texts_def omitted_risk_ok_def list_all_iff)

lemma adequacy_review_from_Inr:
  "adequacy_review_from (review_scope inp) item = Inr r \<Longrightarrow> scope_texts inp \<Longrightarrow>
   scoped inp (ar_citations r) \<and> universe_contains (xi_universe inp) (ar_risk_target r) \<and>
   universe_contains (xi_universe inp) (ar_mitigant_target r) \<and> adequacy_review_ok r"
  using citations_from_Inr [of "review_scope inp" item] target_field_Inr [of item _ "xi_universe inp"]
  by (auto simp: adequacy_review_from_def result_simps scoped_def scope_texts_def adequacy_review_ok_def list_all_iff)

lemma recommendation_from_Inr:
  "recommendation_from (review_scope inp) item = Inr r \<Longrightarrow> scope_texts inp \<Longrightarrow>
   list_all (citation_in_scope (review_scope inp)) (rc_citations r) \<and> recommendation_ok r"
  using citations_from_Inr [of "review_scope inp" item]
  by (auto simp: recommendation_from_def result_simps scope_texts_def list_all_iff)

lemma build_review_Inr:
  assumes "build_review ids now inp model_id endpoint_id payload = Inr a"
  obtains raw llm where "list_field payload ''challenges'' = Inr raw"
    "map_result (\<lambda>(i, item). llm_challenge_from ids (review_scope inp) (blind_fact_ids inp) i item)
       (enumerate 0 (mappings raw)) = Inr llm"
    "items_field (omitted_risk_from (review_scope inp)) payload ''omitted_risks'' = Inr (rr_omitted_risks a)"
    "items_field (adequacy_review_from (review_scope inp)) payload ''mitigant_adequacy_reviews'' =
       Inr (rr_adequacy_reviews a)"
    "items_field (recommendation_from (review_scope inp)) payload ''recommendations'' = Inr (rr_recommendations a)"
    "items_field gap_item_from payload ''evidence_gaps'' = Inr (rr_gaps a)"
    "rr_challenges a = all_challenges (xi_pre_analysis inp) @ llm"
    "rr_visibility a = pa_visibility_checks (xi_pre_analysis inp)" "risk_review_ok a"
    "kx_execution_id (xi_run inp) \<notin> {xi_underwriting_execution inp, xi_legal_execution inp}"
  using assms that
  by (auto simp: build_review_def Let_def result_simps split: if_splits)

section \<open>The two main properties of the builder\<close>

text \<open>
  C39: the model can only add.  Whatever payload the builder accepts, the review starts with
  every deterministic challenge, unchanged and in order, followed by one challenge per JSON
  object of the payload's list, each labelled as raised by the model, aimed at a path of a
  reviewed assessment, and flagged as raised blind exactly when it cites a fact the blind
  pass cited; the visibility checks are those of the pre-analysis; and the execution is not
  one of the two it reviews.
\<close>

theorem checker_only_adds:
  assumes "build_review ids now inp model_id endpoint_id payload = Inr a" "scope_texts inp"
  shows "\<exists>raw llm.
    list_field payload ''challenges'' = Inr raw \<and>
    rr_challenges a = all_challenges (xi_pre_analysis inp) @ llm \<and>
    length llm = length (mappings raw) \<and> list_all (llm_challenge_ok inp) llm \<and>
    rr_visibility a = pa_visibility_checks (xi_pre_analysis inp) \<and>
    kx_execution_id (xi_run inp) \<notin> {xi_underwriting_execution inp, xi_legal_execution inp}"
proof -
  from assms(1) obtain raw llm where r: "list_field payload ''challenges'' = Inr raw"
    "map_result (\<lambda>(i, item). llm_challenge_from ids (review_scope inp) (blind_fact_ids inp) i item)
       (enumerate 0 (mappings raw)) = Inr llm"
    "rr_challenges a = all_challenges (xi_pre_analysis inp) @ llm"
    "rr_visibility a = pa_visibility_checks (xi_pre_analysis inp)"
    "kx_execution_id (xi_run inp) \<notin> {xi_underwriting_execution inp, xi_legal_execution inp}"
    by (rule build_review_Inr)
  have "list_all (llm_challenge_ok inp) llm"
    using map_result_Inr_set [OF r(2)] llm_challenge_from_Inr [OF _ assms(2)] by (fastforce simp: list_all_iff)
  moreover have "length llm = length (mappings raw)"
    using r(2) by (auto simp: map_result_Inr_iff dest: list_all2_lengthD)
  ultimately show ?thesis using r by blast
qed

text \<open>
  every citation the model contributes is grounded.  Omitted risks, adequacy reviews and
  recommendations cite only facts of the checker's view, results of the reviewed underwriting,
  offered policy clauses, recorded checks, or paths of the reviewed assessments; an adequacy
  review binds two such paths; and nothing but a recommendation is without a citation.
\<close>

theorem checker_citations_grounded:
  assumes "build_review ids now inp model_id endpoint_id payload = Inr a" "scope_texts inp"
  shows "list_all (\<lambda>r. scoped inp (om_citations r)) (rr_omitted_risks a) \<and>
    list_all (\<lambda>r. scoped inp (ar_citations r) \<and> universe_contains (xi_universe inp) (ar_risk_target r) \<and>
      universe_contains (xi_universe inp) (ar_mitigant_target r)) (rr_adequacy_reviews a) \<and>
    list_all (\<lambda>r. list_all (citation_in_scope (review_scope inp)) (rc_citations r)) (rr_recommendations a)"
  using assms(1)
proof (rule build_review_Inr)
  assume "items_field (omitted_risk_from (review_scope inp)) payload ''omitted_risks'' = Inr (rr_omitted_risks a)"
    and "items_field (adequacy_review_from (review_scope inp)) payload ''mitigant_adequacy_reviews'' =
      Inr (rr_adequacy_reviews a)"
    and "items_field (recommendation_from (review_scope inp)) payload ''recommendations'' = Inr (rr_recommendations a)"
  from this [THEN items_field_Inr] show ?thesis
    using omitted_risk_from_Inr [OF _ assms(2)] adequacy_review_from_Inr [OF _ assms(2)]
      recommendation_from_Inr [OF _ assms(2)]
    by (fastforce simp: list_all_iff)
qed

end
