(* ===== verification/Checker_Schema.thy ===== *)
theory Checker_Schema
  imports Risk_Checker_Safety
begin

text \<open>
  The response schema is strong enough for the builder: a payload that conforms to it is
  turned into a review.  First what the pre-analysis leaves for the construction, then one
  lemma per schema.
\<close>

section \<open>The deterministic part constructs\<close>

definition deterministic_ok :: "underwriting_assessment \<Rightarrow> legal_assessment \<Rightarrow> challenge \<Rightarrow> bool" where
  "deterministic_ok uw lg c \<longleftrightarrow>
     challenge_ok c \<and> ch_citations c = [Cite_Maker (ch_target c)] \<and> ch_raised_by c = LLM \<and>
     \<not> ch_raised_blind c \<and>
     mf_assessment_id (ch_target c) = (if mf_source (ch_target c) = MAKER_UNDERWRITING then ua_id uw else la_id lg)"

lemma raise_challenge_Inr:
  "raise_challenge ids i source maker_id path type statement severity confidence = Inr c \<longleftrightarrow>
     c = \<lparr>ch_id = ids i,
          ch_target = \<lparr>mf_source = source, mf_assessment_id = maker_id, mf_section_path = path\<rparr>,
          ch_type = type, ch_statement = statement,
          ch_citations = [Cite_Maker \<lparr>mf_source = source, mf_assessment_id = maker_id, mf_section_path = path\<rparr>],
          ch_severity = severity, ch_confidence = confidence, ch_raised_by = LLM, ch_raised_blind = False\<rparr> \<and>
     sized 1 200 path \<and> sized 1 4000 statement"
  by (auto simp: raise_challenge_def result_simps finding_ref_ok_def challenge_ok_def)

lemmas raised_simps = raise_challenge_Inr deterministic_ok_def challenge_ok_def finding_ref_ok_def

lemma raise_all_Inr:
  "raise_all f n xs = Inr cs \<Longrightarrow> c \<in> set cs \<Longrightarrow> \<exists>i x. x \<in> set xs \<and> f i x = Inr c"
proof -
  assume "raise_all f n xs = Inr cs" "c \<in> set cs"
  then obtain e where "e \<in> set (enumerate n xs)" "(case e of (i, x) \<Rightarrow> f i x) = Inr c"
    unfolding raise_all_def using map_result_Inr_set by meson
  moreover then have "snd e \<in> set xs"
    using nth_mem [of "fst e - n" xs] by (auto simp: in_set_enumerate_eq)
  ultimately show ?thesis by (auto simp: case_prod_unfold)
qed

lemma grounding_ok:
  assumes "cross_check_citation_grounding ids n uw lg view = Inr cs"
  shows "list_all (deterministic_ok uw lg) cs"
  using assms
  by (auto simp: raised_simps cross_check_citation_grounding_def Let_def list_all_iff dest!: raise_all_Inr)

lemma visibility_challenges_ok:
  assumes "visibility_challenges_from ids n checks (ua_id uw) (la_id lg) = Inr cs"
  shows "list_all (deterministic_ok uw lg) cs"
  using assms
  by (auto simp: raised_simps visibility_challenges_from_def Let_def list_all_iff result_simps dest!: raise_all_Inr)

lemma recompute_visibility_ok:
  assumes "recompute_visibility ids n uw lg gaps = Inr (checks, cs)"
  shows "list_all (deterministic_ok uw lg) cs \<and> list_all visibility_gap_ok (vc_blocking_gaps checks) \<and>
    list_all visibility_exception_ok (vc_exceptions checks)"
  using assms
  by (auto simp: recompute_visibility_def Let_def result_simps intro: visibility_challenges_ok)

lemma assumptions_ok:
  assumes "detect_unaddressed_assumptions ids n uw = Inr cs"
  shows "list_all (deterministic_ok uw lg) cs"
  using assms
  by (auto simp: raised_simps detect_unaddressed_assumptions_def list_all_iff dest!: raise_all_Inr)

lemma low_confidence_ok:
  assumes "flag_low_confidence_findings ids n uw lg t = Inr cs"
  shows "list_all (deterministic_ok uw lg) cs"
  using assms
  by (auto simp: raised_simps flag_low_confidence_findings_def list_all_iff dest!: raise_all_Inr)

lemma pre_analysis_ok:
  assumes "compute_pre_analysis ids uw lg view gaps = Inr pre"
  shows "list_all (deterministic_ok uw lg) (all_challenges pre) \<and>
    list_all visibility_gap_ok (vc_blocking_gaps (pa_visibility_checks pre)) \<and>
    list_all visibility_exception_ok (vc_exceptions (pa_visibility_checks pre))"
proof -
  from assms obtain cs n n' n'' where v: "recompute_visibility ids 0 uw lg gaps = Inr (pa_visibility_checks pre, cs)"
    "pa_visibility pre = cs"
    "detect_unaddressed_assumptions ids n' uw = Inr (pa_assumptions pre)"
    "flag_low_confidence_findings ids n'' uw lg confidence_flag_threshold = Inr (pa_low_confidence pre)"
    and g: "cross_check_citation_grounding ids n uw lg view = Inr (pa_grounding pre)"
    by (auto simp: compute_pre_analysis_def Let_def result_simps)
  show ?thesis
    using recompute_visibility_ok [OF v(1)] v(2) grounding_ok [OF g] assumptions_ok [OF v(3)] low_confidence_ok [OF v(4)]
    by (simp add: all_challenges_def)
qed

section \<open>Targets and citations of the schema\<close>

definition universe_texts :: "target_universe \<Rightarrow> bool" where
  "universe_texts u \<longleftrightarrow>
     tu_underwriting_id u < uuid_bound \<and> tu_legal_id u < uuid_bound \<and>
     list_all (sized 1 200) (tu_underwriting_paths u) \<and> list_all (sized 1 200) (tu_legal_paths u)"

lemma conforms_target_branch:
  assumes "s \<in> set (target_branch source maker_id paths)" "conforms s j"
  shows "\<exists>kvs. j = JObj kvs \<and> text_of kvs ''maker_source'' = source \<and>
    text_of kvs ''maker_assessment_id'' = str_uuid maker_id \<and> text_of kvs ''section_path'' \<in> set paths"
proof -
  from assms(1) have s: "s = Obj_Schema [''maker_source'', ''maker_assessment_id'', ''section_path'']
      [(''maker_source'', Const_Schema source), (''maker_assessment_id'', Const_Schema (str_uuid maker_id)),
       (''section_path'', Enum_Schema paths)]"
    by (auto simp: target_branch_def split: if_splits)
  obtain kvs where j: "j = JObj kvs" using assms(2) unfolding s using conforms_is_object by blast
  note c = assms(2) [unfolded s j]
  show ?thesis
    using text_of_const [OF c, of "''maker_source''" source]
      text_of_const [OF c, of "''maker_assessment_id''" "str_uuid maker_id"]
      text_of_enum [OF c, of "''section_path''" paths] j by simp
qed

lemma conforms_target:
  assumes "conforms (filtered_target_schema u source prefix) j" "universe_texts u"
  shows "\<exists>kvs ref. j = JObj kvs \<and> target_from kvs u = Inr ref"
proof -
  obtain s where s: "s \<in> set (target_branch ''CREDIT_UNDERWRITING'' (tu_underwriting_id u)
        (filter (\<lambda>p. case prefix of None \<Rightarrow> True | Some x \<Rightarrow> starts_with x p) (tu_underwriting_paths u))) \<or>
      s \<in> set (target_branch ''LEGAL_COMPLIANCE_COLLATERAL'' (tu_legal_id u)
        (filter (\<lambda>p. case prefix of None \<Rightarrow> True | Some x \<Rightarrow> starts_with x p) (tu_legal_paths u)))" "conforms s j"
    using conforms_one_of [OF assms(1) [unfolded filtered_target_schema_def Let_def]]
    by (auto split: if_splits)
  from s(1) show ?thesis
  proof
    assume "s \<in> set (target_branch ''CREDIT_UNDERWRITING'' (tu_underwriting_id u)
        (filter (\<lambda>p. case prefix of None \<Rightarrow> True | Some x \<Rightarrow> starts_with x p) (tu_underwriting_paths u)))"
    from conforms_target_branch [OF this s(2)] show ?thesis
      using assms(2)
      by (auto simp: target_from_def maker_sources_def enum_of_def parse_str_uuid universe_texts_def
          finding_ref_ok_def universe_contains_def list_all_iff validated_def)
  next
    assume "s \<in> set (target_branch ''LEGAL_COMPLIANCE_COLLATERAL'' (tu_legal_id u)
        (filter (\<lambda>p. case prefix of None \<Rightarrow> True | Some x \<Rightarrow> starts_with x p) (tu_legal_paths u)))"
    from conforms_target_branch [OF this s(2)] show ?thesis
      using assms(2)
      by (auto simp: target_from_def maker_sources_def enum_of_def parse_str_uuid universe_texts_def
          finding_ref_ok_def universe_contains_def list_all_iff validated_def)
  qed
qed

definition scope_ok :: "citation_scope \<Rightarrow> bool" where
  "scope_ok sc \<longleftrightarrow>
     uuid_texts (cs_facts sc) \<and> uuid_texts (cs_invocations sc) \<and> [] \<notin> set (cs_results sc) \<and>
     list_all policy_hit_ok (cs_hits sc) \<and> universe_texts (cs_universe sc)"

lemma conforms_fact_citation:
  assumes "conforms (confirmed_fact_citation_schema facts) j"
  shows "\<exists>kvs. j = JObj kvs \<and> map_of kvs ''kind'' = Some (JStr ''CONFIRMED_FACT'') \<and>
    text_of kvs ''confirmed_fact_id'' \<in> set facts"
proof -
  obtain kvs where j: "j = JObj kvs"
    using assms conforms_is_object unfolding confirmed_fact_citation_schema_def by blast
  note c = assms [unfolded confirmed_fact_citation_schema_def j]
  show ?thesis
    using text_of_const [OF c, of "''kind''" "''CONFIRMED_FACT''"]
      text_of_member [OF c, of "''confirmed_fact_id''" 0 None facts] j by simp
qed

lemma conforms_policy_citation:
  assumes "s \<in> set (policy_citation_branches hits)" "conforms s j"
  shows "\<exists>kvs. j = JObj kvs \<and> map_of kvs ''kind'' = Some (JStr ''POLICY_CITATION'') \<and> hit_from kvs \<in> set hits"
proof -
  from assms(1) obtain h where h: "h \<in> set hits" "s = Obj_Schema
      [''kind'', ''corpus_id'', ''corpus_version'', ''document_id'', ''clause_id'', ''quoted_text_vi'']
      [(''kind'', Const_Schema ''POLICY_CITATION''), (''corpus_id'', Const_Schema (ph_corpus_id h)),
       (''corpus_version'', Const_Schema (ph_corpus_version h)),
       (''document_id'', Const_Schema (ph_document_id h)), (''clause_id'', Const_Schema (ph_clause_id h)),
       (''quoted_text_vi'', Const_Schema (ph_quoted_text h))]"
    by (auto simp: policy_citation_branches_def)
  obtain kvs where j: "j = JObj kvs" using assms(2) conforms_is_object unfolding h(2) by blast
  note c = assms(2) [unfolded h(2) j]
  have "hit_from kvs = h"
    using text_of_const [OF c, of "''corpus_id''"] text_of_const [OF c, of "''corpus_version''"]
      text_of_const [OF c, of "''document_id''"] text_of_const [OF c, of "''clause_id''"]
      text_of_const [OF c, of "''quoted_text_vi''"] by (simp add: hit_from_def)
  then show ?thesis using h(1) j text_of_const [OF c, of "''kind''"] by simp
qed

lemma conforms_citation:
  assumes "conforms (citation_schema sc) j" "scope_ok sc"
  shows "\<exists>c. citation_from sc j = Inr c"
proof -
  obtain s where s: "conforms s j"
    "s = confirmed_fact_citation_schema (cs_facts sc) \<or>
     s = Obj_Schema [''kind'', ''result_id''] [(''kind'', Const_Schema ''CALCULATOR_RESULT''),
           (''result_id'', Str_Schema 0 None (Some (cs_results sc)))] \<or>
     s \<in> set (policy_citation_branches (cs_hits sc)) \<or>
     s = Obj_Schema [''kind'', ''invocation_id''] [(''kind'', Const_Schema ''CONTROLLED_CHECK''),
           (''invocation_id'', Str_Schema 0 None (Some (cs_invocations sc)))] \<or>
     s = Obj_Schema [''kind'', ''ref'']
           [(''kind'', Const_Schema ''MAKER_FINDING''), (''ref'', target_schema (cs_universe sc))]"
    using conforms_one_of [OF assms(1) [unfolded citation_schema_def]] by (auto split: if_splits)
  from s(2) show ?thesis
  proof (elim disjE)
    assume "s = confirmed_fact_citation_schema (cs_facts sc)"
    with s(1) conforms_fact_citation obtain kvs where "j = JObj kvs"
      "map_of kvs ''kind'' = Some (JStr ''CONFIRMED_FACT'')"
      "text_of kvs ''confirmed_fact_id'' \<in> set (cs_facts sc)" by blast
    with assms(2) uuid_texts_read [of "cs_facts sc" "text_of kvs ''confirmed_fact_id''"] show ?thesis
      by (auto simp: citation_from_def get_or_def scope_ok_def)
  next
    assume "s = Obj_Schema [''kind'', ''result_id''] [(''kind'', Const_Schema ''CALCULATOR_RESULT''),
           (''result_id'', Str_Schema 0 None (Some (cs_results sc)))]"
    with s(1) conforms_kind_member obtain kvs where "j = JObj kvs"
      "map_of kvs ''kind'' = Some (JStr ''CALCULATOR_RESULT'')"
      "text_of kvs ''result_id'' \<in> set (cs_results sc)" by blast
    with assms(2) show ?thesis
      by (auto simp: citation_from_def get_or_def scope_ok_def validated_def Let_def)
  next
    assume "s \<in> set (policy_citation_branches (cs_hits sc))"
    from conforms_policy_citation [OF this s(1)] assms(2) show ?thesis
      by (auto simp: citation_from_def get_or_def scope_ok_def validated_def list_all_iff)
  next
    assume "s = Obj_Schema [''kind'', ''invocation_id''] [(''kind'', Const_Schema ''CONTROLLED_CHECK''),
           (''invocation_id'', Str_Schema 0 None (Some (cs_invocations sc)))]"
    with s(1) conforms_kind_member obtain kvs where "j = JObj kvs"
      "map_of kvs ''kind'' = Some (JStr ''CONTROLLED_CHECK'')"
      "text_of kvs ''invocation_id'' \<in> set (cs_invocations sc)" by blast
    with assms(2) uuid_texts_read [of "cs_invocations sc" "text_of kvs ''invocation_id''"] show ?thesis
      by (auto simp: citation_from_def get_or_def scope_ok_def)
  next
    assume m: "s = Obj_Schema [''kind'', ''ref'']
           [(''kind'', Const_Schema ''MAKER_FINDING''), (''ref'', target_schema (cs_universe sc))]"
    obtain kvs where j: "j = JObj kvs" using s(1) conforms_is_object unfolding m by blast
    note c = s(1) [unfolded m j]
    obtain v where v: "map_of kvs ''ref'' = Some v" "conforms (target_schema (cs_universe sc)) v"
      using conforms_field(1) [OF c, of "''ref''"] by auto
    with conforms_target assms(2) obtain raw ref where "v = JObj raw" "target_from raw (cs_universe sc) = Inr ref"
      unfolding target_schema_def scope_ok_def by blast
    then show ?thesis
      using v(1) text_of_const [OF c, of "''kind''"] j by (simp add: citation_from_def get_or_def)
  qed
qed

section \<open>The items of a conforming payload\<close>

lemma conforms_citations_from:
  assumes "listed item ''citations'' = Inr xs" "\<forall>x\<in>set xs. conforms (citation_schema sc) x" "scope_ok sc"
  shows "\<exists>cs. citations_from sc item = Inr cs \<and> length cs = length xs \<and> list_all citation_ok cs"
proof -
  obtain cs where cs: "map_result (citation_from sc) xs = Inr cs"
    using map_result_succeeds [of xs "citation_from sc"] assms(2,3) conforms_citation by blast
  then have "citations_from sc item = Inr cs" by (simp add: citations_from_def assms(1))
  with citations_from_Inr [OF this] assms(3) cs show ?thesis
    by (auto simp: scope_ok_def list_all_iff map_result_Inr_iff dest: list_all2_lengthD)
qed

lemma conforms_citations_field:
  assumes "conforms (Obj_Schema required props) (JObj kvs)" "''citations'' \<in> set required"
    "map_of props ''citations'' = Some (citations_schema sc)" "scope_ok sc"
  shows "\<exists>cs. citations_from sc kvs = Inr cs \<and> cs \<noteq> [] \<and> list_all citation_ok cs"
proof -
  obtain xs where "listed kvs ''citations'' = Inr xs" "1 \<le> length xs"
    "\<forall>x\<in>set xs. conforms (citation_schema sc) x"
    using list_field_conforms [OF assms(1,2), of 1 10] assms(3) by (auto simp: citations_schema_def)
  with conforms_citations_from [OF this(1,3) assms(4)] show ?thesis by fastforce
qed

lemma conforms_target_field:
  assumes "conforms (Obj_Schema required props) (JObj kvs)" "k \<in> set required"
    "map_of props k = Some (filtered_target_schema u source prefix)" "universe_texts u"
  shows "\<exists>ref. target_field kvs k u = Inr ref \<and> finding_ref_ok ref"
proof -
  obtain v where v: "map_of kvs k = Some v" "conforms (filtered_target_schema u source prefix) v"
    using conforms_field(1) [OF assms(1,3,2)] by blast
  with conforms_target assms(4) obtain raw ref where "v = JObj raw" "target_from raw u = Inr ref" by blast
  then show ?thesis using v(1) target_from_Inr [of raw u ref] by (simp add: target_field_def get_or_def)
qed

lemma conforms_challenge_item:
  assumes "conforms (challenge_item_schema sc) (JObj kvs)" "scope_ok sc"
  shows "\<exists>c. llm_challenge_from ids sc blind i kvs = Inr c"
proof -
  note c = assms(1) [unfolded challenge_item_schema_def]
  obtain cs where "citations_from sc kvs = Inr cs" "cs \<noteq> []" "list_all citation_ok cs"
    using conforms_citations_field [OF c _ _ assms(2)] by auto
  moreover obtain ref where "target_field kvs ''target'' (cs_universe sc) = Inr ref" "finding_ref_ok ref"
    using conforms_target_field [OF c, of "''target''" "cs_universe sc"] assms(2)
    by (auto simp: target_schema_def scope_ok_def)
  moreover obtain t sv cf where "enum_of challenge_types (text_of kvs ''challenge_type'') = Inr t"
    "enum_of challenge_severities (text_of kvs ''severity'') = Inr sv"
    "enum_of confidence_levels (text_of kvs ''confidence'') = Inr cf"
    using conforms_enum_field [OF c, of "''challenge_type''" challenge_types]
      conforms_enum_field [OF c, of "''severity''" challenge_severities]
      conforms_enum_field [OF c, of "''confidence''" confidence_levels]
    by (auto simp: severity_schema_def confidence_schema_def)
  moreover have "sized 1 4000 (text_of kvs ''statement_vi'')"
    using text_of_string [OF c, of "''statement_vi''"] by simp
  ultimately show ?thesis
    by (simp add: llm_challenge_from_def validated_def challenge_ok_def)
qed

lemma conforms_omitted_risk:
  assumes "conforms (omitted_risk_schema sc) (JObj kvs)" "scope_ok sc"
  shows "\<exists>r. omitted_risk_from sc kvs = Inr r"
proof -
  note c = assms(1) [unfolded omitted_risk_schema_def]
  obtain cs where "citations_from sc kvs = Inr cs" "cs \<noteq> []" "list_all citation_ok cs"
    using conforms_citations_field [OF c _ _ assms(2)] by auto
  moreover obtain cf where "enum_of confidence_levels (text_of kvs ''confidence'') = Inr cf"
    using conforms_enum_field [OF c, of "''confidence''" confidence_levels]
    by (auto simp: confidence_schema_def)
  ultimately show ?thesis
    using text_of_string [OF c, of "''description_vi''"] text_of_optional [OF c, of "''uncertainty_vi''"]
    by (simp add: omitted_risk_from_def validated_def omitted_risk_ok_def)
qed

lemma conforms_mitigant_review:
  assumes "conforms (mitigant_review_schema sc) (JObj kvs)" "scope_ok sc"
  shows "\<exists>r. adequacy_review_from sc kvs = Inr r"
proof -
  note c = assms(1) [unfolded mitigant_review_schema_def]
  obtain cs where "citations_from sc kvs = Inr cs" "cs \<noteq> []" "list_all citation_ok cs"
    using conforms_citations_field [OF c _ _ assms(2)] by auto
  moreover obtain risk mit where "target_field kvs ''risk_target'' (cs_universe sc) = Inr risk"
    "finding_ref_ok risk" "target_field kvs ''mitigant_target'' (cs_universe sc) = Inr mit" "finding_ref_ok mit"
    using conforms_target_field [OF c, of "''risk_target''" "cs_universe sc" "Some MAKER_UNDERWRITING" "Some ''risks[''"]
      conforms_target_field [OF c, of "''mitigant_target''" "cs_universe sc" "Some MAKER_UNDERWRITING" "Some ''mitigants[''"]
      assms(2)
    by (auto simp: scope_ok_def)
  moreover obtain cf where "enum_of confidence_levels (text_of kvs ''confidence'') = Inr cf"
    using conforms_enum_field [OF c, of "''confidence''" confidence_levels]
    by (auto simp: confidence_schema_def)
  ultimately show ?thesis
    using text_of_string [OF c, of "''concern_vi''"] text_of_optional [OF c, of "''uncertainty_vi''"]
    by (simp add: adequacy_review_from_def validated_def adequacy_review_ok_def)
qed

lemma conforms_recommendation:
  assumes "conforms (recommendation_schema sc) (JObj kvs)" "scope_ok sc"
  shows "\<exists>r. recommendation_from sc kvs = Inr r"
proof -
  note c = assms(1) [unfolded recommendation_schema_def]
  obtain xs where "listed kvs ''citations'' = Inr xs" "\<forall>x\<in>set xs. conforms (citation_schema sc) x"
    using listed_optional [OF c, of "''citations''"] by auto
  from conforms_citations_from [OF this assms(2)] obtain cs
    where "citations_from sc kvs = Inr cs" "list_all citation_ok cs" by blast
  moreover obtain t where "enum_of recommendation_types (text_of kvs ''recommendation_type'') = Inr t"
    using conforms_enum_field [OF c, of "''recommendation_type''" recommendation_types] by auto
  ultimately show ?thesis
    using text_of_string [OF c, of "''rationale_vi''"]
    by (simp add: recommendation_from_def validated_def recommendation_ok_def)
qed

section \<open>A conforming payload is built\<close>

text \<open>What the caller provides: the pre-analysis and the universe of the two assessments, an
  execution of its own, and fields within the bounds their own models declare.\<close>

definition reviewable :: "(nat \<Rightarrow> uuid) \<Rightarrow> open_gap list \<Rightarrow> checker_input \<Rightarrow> bool" where
  "reviewable ids gaps inp \<longleftrightarrow>
     compute_pre_analysis ids (xi_underwriting inp) (xi_legal inp) (xi_view inp) gaps = Inr (xi_pre_analysis inp) \<and>
     xi_universe inp = build_target_universe (xi_underwriting inp) (xi_legal inp) \<and>
     kx_execution_id (xi_run inp) \<notin> {xi_underwriting_execution inp, xi_legal_execution inp} \<and>
     1 \<le> ev_case_version (xi_view inp) \<and> scope_ok (review_scope inp)"

lemma llm_challenges_total:
  assumes "\<forall>item\<in>set items. conforms (challenge_item_schema sc) (JObj item)" "scope_ok sc"
  shows "\<exists>cs. map_result (\<lambda>(i, item). llm_challenge_from ids sc blind i item) (enumerate 0 items) = Inr cs"
proof (rule map_result_succeeds)
  fix e assume "e \<in> set (enumerate 0 items)"
  then have "snd e \<in> set items" using nth_mem [of "fst e" items] by (auto simp: in_set_enumerate_eq)
  with assms conforms_challenge_item show "\<exists>y. (case e of (i, item) \<Rightarrow> llm_challenge_from ids sc blind i item) = Inr y"
    by (simp add: case_prod_unfold)
qed

lemma universe_contains_known:
  "universe_contains (build_target_universe uw lg) r \<Longrightarrow> mf_assessment_id r \<in> {ua_id uw, la_id lg}"
  by (auto simp: universe_contains_def build_target_universe_def split: if_splits)

lemma deterministic_ok_simps:
  "deterministic_ok uw lg c \<Longrightarrow> challenge_ok c"
  "deterministic_ok uw lg c \<Longrightarrow> mf_assessment_id (ch_target c) \<in> {ua_id uw, la_id lg}"
  "deterministic_ok uw lg c \<Longrightarrow> Cite_Maker r \<in> set (ch_citations c) \<Longrightarrow> mf_assessment_id r \<in> {ua_id uw, la_id lg}"
  by (auto simp: deterministic_ok_def)

definition review_of ::
  "uuid \<Rightarrow> datetime \<Rightarrow> checker_input \<Rightarrow> string \<Rightarrow> string \<Rightarrow> challenge list \<Rightarrow> omitted_risk list \<Rightarrow>
   adequacy_review list \<Rightarrow> recommendation list \<Rightarrow> evidence_gap_item list \<Rightarrow> risk_review" where
  "review_of rid now inp model_id endpoint_id llm om ar rc gs =
     \<lparr>rr_id = rid,
      rr_provenance =
        \<lparr>pv_case_id = ev_case_id (xi_view inp), pv_case_version = ev_case_version (xi_view inp),
         pv_execution_id = kx_execution_id (xi_run inp), pv_task_id = kx_task_id (xi_run inp),
         pv_prompt_version = ''risk-review-prompt-v1'', pv_model_id = model_id,
         pv_endpoint_id = endpoint_id, pv_view_built_at = ev_built_at (xi_view inp),
         pv_created_at = now,
         rp_reviewed =
           [\<lparr>mr_source = MAKER_UNDERWRITING, mr_assessment_id = ua_id (xi_underwriting inp),
             mr_execution_id = xi_underwriting_execution inp\<rparr>,
            \<lparr>mr_source = MAKER_LEGAL, mr_assessment_id = la_id (xi_legal inp),
             mr_execution_id = xi_legal_execution inp\<rparr>]\<rparr>,
      rr_challenges = all_challenges (xi_pre_analysis inp) @ llm,
      rr_omitted_risks = om, rr_adequacy_reviews = ar,
      rr_visibility = pa_visibility_checks (xi_pre_analysis inp), rr_recommendations = rc, rr_gaps = gs\<rparr>"

lemma scoped_known:
  "citation_in_scope (review_scope inp) (Cite_Maker r) \<Longrightarrow>
   xi_universe inp = build_target_universe (xi_underwriting inp) (xi_legal inp) \<Longrightarrow>
   mf_assessment_id r \<in> {ua_id (xi_underwriting inp), la_id (xi_legal inp)}"
  using universe_contains_known [of "xi_underwriting inp" "xi_legal inp" r] by simp

lemma maker_citation_iff:
  "(case c of Cite_Maker r \<Rightarrow> P r | _ \<Rightarrow> True) \<longleftrightarrow> (\<forall>r. c = Cite_Maker r \<longrightarrow> P r)"
  by (cases c) auto

lemma review_of_ok:
  assumes r: "reviewable ids0 gaps inp" and "model_id \<noteq> []" "endpoint_id \<noteq> []" and "scope_texts inp"
    and llm: "list_all (\<lambda>c. llm_challenge_ok inp c \<and> challenge_ok c) llm"
    and om: "list_all (\<lambda>r. omitted_risk_ok r \<and> scoped inp (om_citations r)) om"
    and ar: "list_all (\<lambda>r. adequacy_review_ok r \<and> scoped inp (ar_citations r) \<and>
        universe_contains (xi_universe inp) (ar_risk_target r) \<and>
        universe_contains (xi_universe inp) (ar_mitigant_target r)) ar"
    and rc: "list_all (\<lambda>r. recommendation_ok r \<and> list_all (citation_in_scope (review_scope inp)) (rc_citations r)) rc"
    and gs: "list_all gap_item_ok gs"
  shows "risk_review_ok (review_of rid now inp model_id endpoint_id llm om ar rc gs)"
proof -
  let ?a = "review_of rid now inp model_id endpoint_id llm om ar rc gs"
  let ?known = "{ua_id (xi_underwriting inp), la_id (xi_legal inp)}"
  have u: "xi_universe inp = build_target_universe (xi_underwriting inp) (xi_legal inp)"
    using r by (simp add: reviewable_def)
  have det: "list_all (deterministic_ok (xi_underwriting inp) (xi_legal inp)) (all_challenges (xi_pre_analysis inp))"
    "list_all visibility_gap_ok (vc_blocking_gaps (pa_visibility_checks (xi_pre_analysis inp)))"
    "list_all visibility_exception_ok (vc_exceptions (pa_visibility_checks (xi_pre_analysis inp)))"
    using pre_analysis_ok [of ids0] r by (auto simp: reviewable_def)
  note known = universe_contains_known [of "xi_underwriting inp" "xi_legal inp", folded u]
  have scope: "mf_assessment_id x \<in> ?known" if "citation_in_scope (review_scope inp) (Cite_Maker x)" for x
    using scoped_known [OF that u] .
  have ch: "challenge_ok c \<and> mf_assessment_id (ch_target c) \<in> ?known \<and>
      (\<forall>x. Cite_Maker x \<in> set (ch_citations c) \<longrightarrow> mf_assessment_id x \<in> ?known)"
    if "c \<in> set (rr_challenges ?a)" for c
  proof -
    from that consider "c \<in> set (all_challenges (xi_pre_analysis inp))" | "c \<in> set llm"
      by (auto simp: review_of_def)
    then show ?thesis
    proof cases
      case 1
      with det(1) have "deterministic_ok (xi_underwriting inp) (xi_legal inp) c" by (simp add: list_all_iff)
      then show ?thesis using deterministic_ok_simps by blast
    next
      case 2
      with llm have "challenge_ok c" "universe_contains (xi_universe inp) (ch_target c)"
        "scoped inp (ch_citations c)" by (simp_all add: list_all_iff llm_challenge_ok_def)
      then show ?thesis using known scope unfolding scoped_def list_all_iff by blast
    qed
  qed
  have others: "mf_assessment_id x \<in> ?known" if "Cite_Maker x \<in> set (concat (map om_citations om) @
      concat (map ar_citations ar) @ concat (map rc_citations rc))" for x
  proof -
    from that have "citation_in_scope (review_scope inp) (Cite_Maker x)"
      using om ar rc unfolding scoped_def list_all_iff set_append set_concat set_map by blast
    then show ?thesis by (rule scope)
  qed
  have "targets_reference_reviewed ?a"
  proof -
    have cites: "mf_assessment_id x \<in> ?known" if "Cite_Maker x \<in> set (review_citations ?a)" for x
    proof -
      from that have "Cite_Maker x \<in> set (concat (map ch_citations (rr_challenges ?a))) \<or>
          Cite_Maker x \<in> set (concat (map om_citations om) @ concat (map ar_citations ar) @ concat (map rc_citations rc))"
        by (simp add: review_citations_def review_of_def)
      then show ?thesis using ch others by fastforce
    qed
    have reviews: "mf_assessment_id (ar_risk_target x) \<in> ?known \<and> mf_assessment_id (ar_mitigant_target x) \<in> ?known"
      if "x \<in> set ar" for x using ar known that unfolding list_all_iff by blast
    have k: "set (map mr_assessment_id (rp_reviewed (rr_provenance ?a))) = ?known"
      "rr_adequacy_reviews ?a = ar" by (auto simp: review_of_def)
    show ?thesis
      unfolding targets_reference_reviewed_def Let_def list_all_iff maker_citation_iff k
      using ch reviews cites by blast
  qed
  moreover have "list_all challenge_ok (rr_challenges ?a)" using ch by (simp add: list_all_iff)
  ultimately show ?thesis
    using r assms(2,3) om ar rc gs det(2,3)
    by (auto simp: risk_review_ok_def review_of_def review_provenance_ok_def provenance_ok_def reviewable_def
        reviewed_are_both_makers_def execution_is_independent_def list_all_iff)
qed

lemma conforming_review_built:
  assumes "reviewable ids0 gaps inp" "conforms (checker_response_schema (review_scope inp)) (JObj payload)"
    and "model_id \<noteq> []" "endpoint_id \<noteq> []"
  shows "\<exists>a. build_review ids now inp model_id endpoint_id payload = Inr a"
proof -
  define sc where "sc = review_scope inp"
  note c = assms(2) [folded sc_def, unfolded checker_response_schema_def Let_def]
  have ok: "scope_ok sc" "scope_texts inp" and u: "xi_universe inp = build_target_universe (xi_underwriting inp) (xi_legal inp)"
    using assms(1) by (auto simp: reviewable_def sc_def scope_texts_def scope_ok_def)
  obtain raw where raw: "list_field payload ''challenges'' = Inr raw"
    "\<forall>x\<in>set raw. conforms (challenge_item_schema sc) x"
    using list_field_conforms [OF c, of "''challenges''"] by auto
  obtain llm where llm: "map_result (\<lambda>(i, item). llm_challenge_from ids sc (blind_fact_ids inp) i item)
      (enumerate 0 (mappings raw)) = Inr llm"
    using llm_challenges_total [of "mappings raw" sc ids "blind_fact_ids inp"] raw(2) ok(1)
    by (auto simp: in_mappings)
  obtain om where om: "items_field (omitted_risk_from sc) payload ''omitted_risks'' = Inr om"
    using conforms_items_field [OF c, of "''omitted_risks''" 20 "omitted_risk_schema sc" "omitted_risk_from sc"] conforms_omitted_risk [OF _ ok(1)] by auto
  obtain ar where ar: "items_field (adequacy_review_from sc) payload ''mitigant_adequacy_reviews'' = Inr ar"
    using conforms_items_field [OF c, of "''mitigant_adequacy_reviews''" 20 "mitigant_review_schema sc"
        "adequacy_review_from sc"]
      list_field_empty [OF c, of "''mitigant_adequacy_reviews''"] conforms_mitigant_review [OF _ ok(1)]
    by (fastforce simp: items_field_def split: if_splits)
  obtain rc where rc: "items_field (recommendation_from sc) payload ''recommendations'' = Inr rc"
    using conforms_items_field [OF c, of "''recommendations''" 10 "recommendation_schema sc" "recommendation_from sc"] conforms_recommendation [OF _ ok(1)] by auto
  obtain gs where gs: "items_field gap_item_from payload ''evidence_gaps'' = Inr gs"
    using conforms_items_field [OF c, of "''evidence_gaps''" 30 "evidence_gap_schema" "gap_item_from"] conforms_evidence_gap by auto
  define a where "a = review_of (ids (length llm)) now inp model_id endpoint_id llm om ar rc gs"
  have "risk_review_ok a"
    unfolding a_def using assms(1,3,4) ok(2)
  proof (rule review_of_ok)
    show "list_all (\<lambda>c. llm_challenge_ok inp c \<and> challenge_ok c) llm"
      using map_result_Inr_set [OF llm] llm_challenge_from_Inr [OF _ ok(2)]
      by (fastforce simp: list_all_iff sc_def)
    show "list_all (\<lambda>r. omitted_risk_ok r \<and> scoped inp (om_citations r)) om"
      using items_field_Inr [OF om] omitted_risk_from_Inr [OF _ ok(2)] by (auto simp: list_all_iff sc_def)
    show "list_all (\<lambda>r. adequacy_review_ok r \<and> scoped inp (ar_citations r) \<and>
        universe_contains (xi_universe inp) (ar_risk_target r) \<and>
        universe_contains (xi_universe inp) (ar_mitigant_target r)) ar"
      using items_field_Inr [OF ar] adequacy_review_from_Inr [OF _ ok(2)] by (fastforce simp: list_all_iff sc_def)
    show "list_all (\<lambda>r. recommendation_ok r \<and> list_all (citation_in_scope (review_scope inp)) (rc_citations r)) rc"
      using items_field_Inr [OF rc] recommendation_from_Inr [OF _ ok(2)] by (fastforce simp: list_all_iff sc_def)
    show "list_all gap_item_ok gs"
      using items_field_Inr [OF gs] by (auto simp: list_all_iff gap_item_from_def result_simps)
  qed
  then have "build_review ids now inp model_id endpoint_id payload = Inr a"
    using assms(1) raw(1) llm om ar rc gs
    by (simp add: build_review_def Let_def reviewable_def sc_def a_def review_of_def validated_def rejecting_def)
  then show ?thesis by blast
qed

section \<open>The blind pass\<close>

lemma blind_citation_Inr:
  assumes "pre_analysis_citation (fact_ids view) j = Inr u" "uuid_texts (fact_ids view)"
  shows "str_uuid u \<in> set (fact_ids view)"
  using assms uuid_texts_parse
  by (auto simp: pre_analysis_citation_def Let_def result_simps split: if_splits)

lemma blind_citations_Inr:
  assumes "pre_analysis_citations_from (fact_ids view) item = Inr us" "uuid_texts (fact_ids view)"
  shows "list_all (\<lambda>u. str_uuid u \<in> set (fact_ids view)) us"
  using assms blind_citation_Inr
  by (auto simp: pre_analysis_citations_from_def result_simps list_all_iff dest!: map_result_Inr_set)

definition blind_grounded :: "evidence_view \<Rightarrow> risk_pre_analysis \<Rightarrow> bool" where
  "blind_grounded view b \<longleftrightarrow>
     list_all (\<lambda>r. ir_citations r \<noteq> [] \<and> list_all (\<lambda>u. str_uuid u \<in> set (fact_ids view)) (ir_citations r))
       (bp_risks b) \<and>
     list_all (\<lambda>r. io_citations r \<noteq> [] \<and> list_all (\<lambda>u. str_uuid u \<in> set (fact_ids view)) (io_citations r))
       (bp_observations b)"

lemma build_pre_analysis_grounded:
  assumes "build_pre_analysis payload view = Inr b" "uuid_texts (fact_ids view)"
  shows "blind_grounded view b"
proof -
  have risk: "ir_citations r \<noteq> [] \<and> list_all (\<lambda>u. str_uuid u \<in> set (fact_ids view)) (ir_citations r)"
    if "independent_risk_from (fact_ids view) item = Inr r" for item r
    using that blind_citations_Inr [OF _ assms(2)]
    by (auto simp: independent_risk_from_def result_simps independent_risk_ok_def)
  have obs: "io_citations r \<noteq> [] \<and> list_all (\<lambda>u. str_uuid u \<in> set (fact_ids view)) (io_citations r)"
    if "independent_observation_from (fact_ids view) item = Inr r" for item r
    using that blind_citations_Inr [OF _ assms(2)]
    by (auto simp: independent_observation_from_def result_simps independent_observation_ok_def)
  from assms(1) obtain rs os where
    "map_result (independent_risk_from (fact_ids view)) rs = Inr (bp_risks b)"
    "map_result (independent_observation_from (fact_ids view)) os = Inr (bp_observations b)"
    by (auto simp: build_pre_analysis_def Let_def result_simps)
  then show ?thesis
    using map_result_Inr_set risk obs unfolding blind_grounded_def list_all_iff by meson
qed

lemma conforms_blind_citations:
  assumes "conforms (Obj_Schema required props) (JObj kvs)" "''citations'' \<in> set required"
    "map_of props ''citations'' = Some (Arr_Schema 1 10 (Some (confirmed_fact_citation_schema facts)))"
    "uuid_texts facts"
  shows "\<exists>us. pre_analysis_citations_from facts kvs = Inr us \<and> us \<noteq> []"
proof -
  obtain xs where xs: "listed kvs ''citations'' = Inr xs" "1 \<le> length xs"
    "\<forall>x\<in>set xs. conforms (confirmed_fact_citation_schema facts) x"
    using list_field_conforms [OF assms(1-3)] by blast
  have "\<exists>u. pre_analysis_citation facts x = Inr u" if x: "x \<in> set xs" for x
  proof -
    obtain item where "x = JObj item" "map_of item ''kind'' = Some (JStr ''CONFIRMED_FACT'')"
      "text_of item ''confirmed_fact_id'' \<in> set facts"
      using conforms_fact_citation xs(3) x by blast
    with uuid_texts_read [OF assms(4)] show ?thesis
      by (auto simp: pre_analysis_citation_def get_or_def maker_artifact_kinds_def)
  qed
  then obtain us where us: "map_result (pre_analysis_citation facts) xs = Inr us"
    using map_result_succeeds by blast
  then have "length us = length xs" by (auto simp: map_result_Inr_iff dest: list_all2_lengthD)
  with us xs(1,2) show ?thesis by (auto simp: pre_analysis_citations_from_def)
qed

lemma conforms_blind_list:
  assumes "conforms (Obj_Schema required props) (JObj kvs)" "k \<in> set required"
    "map_of props k = Some (if cond then Arr_Schema 0 hi (Some s) else Arr_Schema 0 0 None)"
    "\<And>item. conforms s (JObj item) \<Longrightarrow> \<exists>y. f item = Inr y"
  shows "\<exists>ys. items_field f kvs k = Inr ys"
  using conforms_items_field [OF assms(1,2) _ assms(4), of hi] list_field_empty [OF assms(1,2), of None] assms(3)
  by (cases cond) (auto simp: items_field_def)

lemma conforming_pre_analysis_built:
  assumes "conforms (pre_analysis_response_schema (fact_ids view)) (JObj payload)" "uuid_texts (fact_ids view)"
  shows "\<exists>b. build_pre_analysis payload view = Inr b"
proof -
  note c = assms(1) [unfolded pre_analysis_response_schema_def Let_def]
  obtain rs where "items_field (independent_risk_from (fact_ids view)) payload ''independent_risks'' = Inr rs"
  proof (rule exE [OF conforms_blind_list [OF c, of "''independent_risks''"]])
    fix item assume ci: "conforms (Obj_Schema [''description_vi'', ''citations'', ''severity'', ''confidence'']
        [(''description_vi'', text_schema 1 4000),
         (''citations'', Arr_Schema 1 10 (Some (confirmed_fact_citation_schema (fact_ids view)))),
         (''severity'', severity_schema), (''confidence'', confidence_schema)]) (JObj item)"
    show "\<exists>y. independent_risk_from (fact_ids view) item = Inr y"
      using conforms_blind_citations [OF ci _ _ assms(2)]
        conforms_enum_field [OF ci, of "''severity''" challenge_severities]
        conforms_enum_field [OF ci, of "''confidence''" confidence_levels]
        text_of_string [OF ci, of "''description_vi''"]
      by (auto simp: independent_risk_from_def severity_schema_def confidence_schema_def validated_def
          independent_risk_ok_def)
  qed auto
  moreover obtain os where
    "items_field (independent_observation_from (fact_ids view)) payload ''observations'' = Inr os"
  proof (rule exE [OF conforms_blind_list [OF c, of "''observations''"]])
    fix item assume ci: "conforms (Obj_Schema [''statement_vi'', ''citations'', ''confidence'']
        [(''statement_vi'', text_schema 1 4000),
         (''citations'', Arr_Schema 1 10 (Some (confirmed_fact_citation_schema (fact_ids view)))),
         (''confidence'', confidence_schema)]) (JObj item)"
    show "\<exists>y. independent_observation_from (fact_ids view) item = Inr y"
      using conforms_blind_citations [OF ci _ _ assms(2)]
        conforms_enum_field [OF ci, of "''confidence''" confidence_levels]
        text_of_string [OF ci, of "''statement_vi''"]
      by (auto simp: independent_observation_from_def confidence_schema_def validated_def
          independent_observation_ok_def)
  qed auto
  ultimately show ?thesis
    by (auto simp: build_pre_analysis_def Let_def items_field_def result_simps)
qed

section \<open>Inference\<close>

text \<open>
  C40: no conforming answer of the model is refused by the builder of pass B.  Over a gateway
  that honours the schema, the checker either gets no answer or a review: for an input whose
  pre-analysis was computed, no answer is rejected, so none is retried.
\<close>

theorem conforming_answer_reviewed:
  assumes "honours_schema reason" "reviewable ids0 gaps inp"
  shows "case reason (checker_response_schema (review_scope inp)) of
      Inl g \<Rightarrow> infer_review reason ids now inp = Inl (Endpoint_Failed g)
    | Inr (payload, model_id, endpoint_id) \<Rightarrow> \<exists>a kvs. payload = JObj kvs \<and>
        infer_review reason ids now inp = Inr a \<and>
        build_review ids now inp model_id endpoint_id kvs = Inr a"
proof (cases "reason (checker_response_schema (review_scope inp))")
  case (Inl g)
  then show ?thesis using assms(2) by (simp add: infer_review_def reviewable_def)
next
  case (Inr r)
  then obtain payload m e where r: "reason (checker_response_schema (review_scope inp)) = Inr (payload, m, e)"
    by (cases r) auto
  with assms(1) have c: "conforms (checker_response_schema (review_scope inp)) payload" "m \<noteq> []" "e \<noteq> []"
    by (auto simp: honours_schema_def)
  then obtain kvs where kvs: "payload = JObj kvs"
    using conforms_is_object unfolding checker_response_schema_def Let_def by blast
  from conforming_review_built [OF assms(2) c(1) [unfolded kvs] c(2,3)]
  obtain a where "build_review ids now inp m e kvs = Inr a" by blast
  then show ?thesis
    using r kvs assms(2) by (simp add: infer_review_def reviewable_def rejected_output_def)
qed

text \<open>
  the blind pass is independent of the makers.  Its request carries the case and the
  confirmed facts of the view and nothing else; whatever it answers, an accepted analysis
  cites, for every risk and observation, at least one and only facts of that view; and over a
  gateway that honours the schema no answer is rejected.
\<close>

theorem blind_pass_cites_facts:
  assumes "uuid_texts (fact_ids view)"
  shows "(infer_pre_analysis reason view = Inr b \<longrightarrow> blind_grounded view b) \<and>
    (honours_schema (\<lambda>s. reason s (blind_untrusted_context view)) \<longrightarrow>
      infer_pre_analysis reason view \<noteq> Inl (Rejected e))"
proof (cases "reason (pre_analysis_response_schema (fact_ids view)) (blind_untrusted_context view)")
  case (Inl g)
  then show ?thesis by (simp add: infer_pre_analysis_def)
next
  case (Inr r)
  obtain payload m ep where r: "r = (payload, m, ep)" by (cases r) auto
  show ?thesis
  proof (intro conjI impI)
    assume "infer_pre_analysis reason view = Inr b"
    then obtain kvs where "build_pre_analysis kvs view = Inr b"
      by (auto simp: infer_pre_analysis_def Inr r rejected_output_def split: option.splits sum.splits)
    then show "blind_grounded view b" using assms by (rule build_pre_analysis_grounded)
  next
    assume "honours_schema (\<lambda>s. reason s (blind_untrusted_context view))"
    with Inr r have c: "conforms (pre_analysis_response_schema (fact_ids view)) payload"
      by (auto simp: honours_schema_def)
    then obtain kvs where kvs: "payload = JObj kvs"
      using conforms_is_object unfolding pre_analysis_response_schema_def Let_def by blast
    from conforming_pre_analysis_built [OF c [unfolded kvs] assms]
    show "infer_pre_analysis reason view \<noteq> Inl (Rejected e)"
      by (auto simp: infer_pre_analysis_def Inr r kvs rejected_output_def)
  qed
qed

end
