(* ===== verification/Pre_Analysis.thy ===== *)
theory Pre_Analysis
  imports Checker_Schema
begin

text \<open>
  What the checker's deterministic pass finds and what it misses: the visibility recheck of
  blocking gaps, the grounding of cited facts, and the inputs on which it cannot be computed.
\<close>

section \<open>Raising one challenge per item\<close>

lemma list_all2_enumerate:
  "list_all2 (\<lambda>(i, x) y. P i x y) (enumerate n xs) ys \<Longrightarrow> (\<And>i x y. P i x y \<Longrightarrow> Q x y) \<Longrightarrow> list_all2 Q xs ys"
  by (induction xs arbitrary: n ys) (auto simp: list_all2_Cons1)

lemma raise_all_all2:
  assumes "raise_all f n xs = Inr cs" "\<And>i x c. f i x = Inr c \<Longrightarrow> Q x c"
  shows "list_all2 Q xs cs"
proof (rule list_all2_enumerate)
  show "list_all2 (\<lambda>(i, x) c. f i x = Inr c) (enumerate n xs) cs"
    using assms(1) by (simp add: raise_all_def map_result_Inr_iff case_prod_unfold)
qed (rule assms(2))

lemma raise_all_stuck:
  assumes "x \<in> set xs" "\<And>i. \<exists>e. f i x = Inl e" shows "\<exists>e. raise_all f n xs = Inl e"
proof (cases "raise_all f n xs")
  case (Inr cs)
  then have "list_all2 (\<lambda>x c. \<exists>i. f i x = Inr c) xs cs" by (rule raise_all_all2) auto
  with assms obtain c i where "f i x = Inr c" by (auto simp: list_all2_conv_all_nth in_set_conv_nth)
  with assms(2) [of i] show ?thesis by auto
qed simp

section \<open>Visibility\<close>

definition aimed_at :: "challenge \<Rightarrow> maker_source \<Rightarrow> uuid \<Rightarrow> string \<Rightarrow> bool" where
  "aimed_at c source maker_id path \<longleftrightarrow>
     ch_target c = \<lparr>mf_source = source, mf_assessment_id = maker_id, mf_section_path = path\<rparr>"

definition reports_gap :: "underwriting_assessment \<Rightarrow> legal_assessment \<Rightarrow> visibility_gap \<Rightarrow> challenge \<Rightarrow> bool" where
  "reports_gap uw lg v c \<longleftrightarrow>
     ch_type c = GAP_VISIBILITY \<and> ch_severity c = HIGH \<and>
     aimed_at c (vg_source v) (if vg_source v = MAKER_UNDERWRITING then ua_id uw else la_id lg)
       ''evidence_gaps[*]'' \<and>
     ch_statement c = gap_visibility_statement (vg_missing_information v)"

definition declared_gaps :: "underwriting_assessment \<Rightarrow> legal_assessment \<Rightarrow> (maker_source \<times> string) list" where
  "declared_gaps uw lg =
     map (\<lambda>g. (MAKER_UNDERWRITING, eg_missing_information g))
       (filter (\<lambda>g. eg_blocking_level g = BLOCKING) (ua_gaps uw)) @
     map (\<lambda>g. (MAKER_LEGAL, eg_missing_information g))
       (filter (\<lambda>g. eg_blocking_level g = BLOCKING) (la_gaps lg))"

lemma visible_exceptions:
  "filter (\<lambda>x. \<not> vx_still_visible x) (map (\<lambda>e. \<lparr>vx_assessment_id = i, vx_category = c e,
     vx_possible_issue = p e, vx_still_visible = True\<rparr>) xs) = []"
  by (induction xs) auto

lemma recompute_visibility_parts:
  assumes "recompute_visibility ids n uw lg gaps = Inr (checks, cs)"
  shows "map (\<lambda>v. (vg_source v, vg_missing_information v)) (vc_blocking_gaps checks) = declared_gaps uw lg \<and>
    list_all (\<lambda>v. vg_still_visible v \<longleftrightarrow> vg_missing_information v \<in> og_missing_information ` set gaps)
      (vc_blocking_gaps checks) \<and>
    map vx_possible_issue (vc_exceptions checks) = map ex_possible_issue (la_exceptions lg) \<and>
    list_all2 (reports_gap uw lg) (filter (\<lambda>v. \<not> vg_still_visible v) (vc_blocking_gaps checks)) cs"
proof -
  from assms have v: "visibility_challenges_from ids n checks (ua_id uw) (la_id lg) = Inr cs"
    and b: "vc_blocking_gaps checks = gap_items (map og_missing_information gaps) MAKER_UNDERWRITING (ua_id uw) (ua_gaps uw) @
      gap_items (map og_missing_information gaps) MAKER_LEGAL (la_id lg) (la_gaps lg)"
    and x: "vc_exceptions checks = map (\<lambda>e. \<lparr>vx_assessment_id = la_id lg,
        vx_category = exception_category_value (ex_category e), vx_possible_issue = ex_possible_issue e,
        vx_still_visible = True\<rparr>) (la_exceptions lg)"
    by (auto simp: recompute_visibility_def Let_def result_simps)
  from v have "raise_all (\<lambda>i g. raise_challenge ids i (vg_source g)
      (if vg_source g = MAKER_UNDERWRITING then ua_id uw else la_id lg) ''evidence_gaps[*]''
      GAP_VISIBILITY (gap_visibility_statement (vg_missing_information g)) HIGH HIGH_CONFIDENCE)
      n (filter (\<lambda>v. \<not> vg_still_visible v) (vc_blocking_gaps checks)) = Inr cs"
    unfolding visibility_challenges_from_def Let_def x visible_exceptions
    by (auto simp: result_simps raise_all_def)
  then have "list_all2 (reports_gap uw lg) (filter (\<lambda>v. \<not> vg_still_visible v) (vc_blocking_gaps checks)) cs"
    by (rule raise_all_all2) (simp add: raise_challenge_Inr reports_gap_def aimed_at_def)
  moreover have "map vx_possible_issue (vc_exceptions checks) = map ex_possible_issue (la_exceptions lg)"
    by (simp add: x o_def)
  ultimately show ?thesis
    by (auto simp: b gap_items_def declared_gaps_def list_all_iff o_def)
qed

lemma compute_pre_analysis_parts:
  assumes "compute_pre_analysis ids uw lg view gaps = Inr pre"
  obtains n n' n'' where "recompute_visibility ids 0 uw lg gaps = Inr (pa_visibility_checks pre, pa_visibility pre)"
    "cross_check_citation_grounding ids n uw lg view = Inr (pa_grounding pre)"
    "detect_unaddressed_assumptions ids n' uw = Inr (pa_assumptions pre)"
    "flag_low_confidence_findings ids n'' uw lg confidence_flag_threshold = Inr (pa_low_confidence pre)"
  using assms that by (auto simp: compute_pre_analysis_def Let_def result_simps)

text \<open>The wildcard path of a visibility challenge is no path of the reviewed assessments.\<close>

lemma numbered_path: "p \<in> set (map fst (numbered prefix xs)) \<Longrightarrow> \<exists>i. p = prefix @ ''['' @ dec_digits i @ '']''"
  by (auto simp: numbered_def)

lemma digits_not_star: "dec_digits i @ rest \<noteq> CHR ''*'' # xs"
proof
  assume eq: "dec_digits i @ rest = CHR ''*'' # xs"
  obtain d ds where d: "dec_digits i = d # ds" by (cases "dec_digits i") auto
  with eq set_dec_digits [of d i] obtain k where "k < 10" "digit_char k = CHR ''*''" by auto
  then have "(of_char (digit_char k) :: nat) = 42" by simp
  with \<open>k < 10\<close> show False by (simp add: of_char_digit_char)
qed

lemma wildcard_not_addressable:
  "\<not> universe_contains (build_target_universe uw lg)
       \<lparr>mf_source = source, mf_assessment_id = maker_id, mf_section_path = ''evidence_gaps[*]''\<rparr>"
proof -
  have "''evidence_gaps[*]'' \<notin> set (underwriting_target_paths uw)"
    using digits_not_star digits_not_star [of _ "[]" "[]", THEN not_sym]
    by (auto simp: underwriting_target_paths_def simp del: set_map dest!: numbered_path)
  moreover have "''evidence_gaps[*]'' \<notin> set (legal_target_paths lg)"
    using digits_not_star digits_not_star [of _ "[]" "[]", THEN not_sym]
    by (auto simp: legal_target_paths_def simp del: set_map dest!: numbered_path)
  ultimately show ?thesis by (simp add: universe_contains_def build_target_universe_def)
qed

text \<open>
  no blocking gap disappears silently.  The visibility section lists the blocking gaps both
  makers declared, in order, each marked visible exactly when an open gap of the case still has
  its text; every gap that is not is reported by one HIGH challenge against the assessment
  that declared it, and nothing else is; every exception of the legal assessment is carried.
  The target of these challenges is the path \<open>evidence_gaps[*]\<close>, which addresses nothing in
  the assessments reviewed.
\<close>

theorem blocking_gaps_stay_visible:
  assumes "compute_pre_analysis ids uw lg view gaps = Inr pre"
  shows "map (\<lambda>v. (vg_source v, vg_missing_information v)) (vc_blocking_gaps (pa_visibility_checks pre)) =
      declared_gaps uw lg \<and>
    list_all (\<lambda>v. vg_still_visible v \<longleftrightarrow> vg_missing_information v \<in> og_missing_information ` set gaps)
      (vc_blocking_gaps (pa_visibility_checks pre)) \<and>
    list_all2 (reports_gap uw lg)
      (filter (\<lambda>v. \<not> vg_still_visible v) (vc_blocking_gaps (pa_visibility_checks pre))) (pa_visibility pre) \<and>
    map vx_possible_issue (vc_exceptions (pa_visibility_checks pre)) = map ex_possible_issue (la_exceptions lg) \<and>
    list_all (\<lambda>c. \<not> universe_contains (build_target_universe uw lg) (ch_target c)) (pa_visibility pre)"
proof -
  from assms have r: "recompute_visibility ids 0 uw lg gaps = Inr (pa_visibility_checks pre, pa_visibility pre)"
    by (rule compute_pre_analysis_parts)
  note p = recompute_visibility_parts [OF this]
  then have "list_all2 (reports_gap uw lg)
      (filter (\<lambda>v. \<not> vg_still_visible v) (vc_blocking_gaps (pa_visibility_checks pre))) (pa_visibility pre)" by blast
  then have "list_all (\<lambda>c. \<not> universe_contains (build_target_universe uw lg) (ch_target c)) (pa_visibility pre)"
    using wildcard_not_addressable
    by (auto simp: list_all2_conv_all_nth list_all_length reports_gap_def aimed_at_def)
  with p show ?thesis by blast
qed

section \<open>Grounding\<close>

definition lost_fact :: "evidence_view \<Rightarrow> uuid \<Rightarrow> bool" where
  "lost_fact view f \<longleftrightarrow> str_uuid f \<notin> set (fact_ids view)"

lemma set_lost_citations:
  "p \<in> set (lost_citations cited live located) \<longleftrightarrow>
     (\<exists>cs f c. (p, cs) \<in> set located \<and> c \<in> set cs \<and> cited c = Some f \<and> str_uuid f \<notin> set live)"
proof
  assume "p \<in> set (lost_citations cited live located)"
  then obtain cs c where "(p, cs) \<in> set located" "c \<in> set cs"
    "case cited c of None \<Rightarrow> False | Some f \<Rightarrow> str_uuid f \<notin> set live"
    by (auto simp: lost_citations_def)
  then show "\<exists>cs f c. (p, cs) \<in> set located \<and> c \<in> set cs \<and> cited c = Some f \<and> str_uuid f \<notin> set live"
    by (cases "cited c") auto
qed (force simp: lost_citations_def)

lemma cited_fact_iff: "uw_fact c = Some f \<longleftrightarrow> c = Uw_Fact f" "legal_fact d = Some f \<longleftrightarrow> d = Legal_Fact f"
  by (cases c; simp) (cases d; simp)

text \<open>
  a fact that was confirmed when a maker cited it and no longer is gets challenged.  For
  every section of an assessment the pass visits and every citation of a confirmed fact that
  is not in the current view, a HIGH challenge is aimed at that section; and every grounding
  challenge is due to such a citation.  The citations of ownership inconsistencies and the basis
  of assumptions are not visited: they do not influence the result.
\<close>

theorem lost_facts_challenged:
  assumes "compute_pre_analysis ids uw lg view gaps = Inr pre"
  shows "((\<exists>c\<in>set (pa_grounding pre). aimed_at c MAKER_UNDERWRITING (ua_id uw) path) \<longleftrightarrow>
      (\<exists>cs f. (path, cs) \<in> set (iter_underwriting_citations uw) \<and> Uw_Fact f \<in> set cs \<and> lost_fact view f)) \<and>
    ((\<exists>c\<in>set (pa_grounding pre). aimed_at c MAKER_LEGAL (la_id lg) path) \<longleftrightarrow>
      (\<exists>cs f. (path, cs) \<in> set (iter_legal_citations lg) \<and> Legal_Fact f \<in> set cs \<and> lost_fact view f)) \<and>
    list_all (\<lambda>c. ch_severity c = HIGH \<and> ch_type c = OTHER_CONCERN) (pa_grounding pre) \<and>
    cross_check_citation_grounding ids n uw (lg\<lparr>la_inconsistencies := is, la_assumptions := as\<rparr>) view =
      cross_check_citation_grounding ids n uw lg view"
proof -
  let ?lost = "map (\<lambda>p. (MAKER_UNDERWRITING, ua_id uw, p))
      (lost_citations uw_fact (fact_ids view) (iter_underwriting_citations uw)) @
    map (\<lambda>p. (MAKER_LEGAL, la_id lg, p)) (lost_citations legal_fact (fact_ids view) (iter_legal_citations lg))"
  let ?Q = "\<lambda>x c. aimed_at c (fst x) (fst (snd x)) (snd (snd x)) \<and> ch_severity c = HIGH \<and> ch_type c = OTHER_CONCERN"
  from assms obtain m where g: "cross_check_citation_grounding ids m uw lg view = Inr (pa_grounding pre)"
    by (rule compute_pre_analysis_parts)
  then have all: "list_all2 ?Q ?lost (pa_grounding pre)"
    unfolding cross_check_citation_grounding_def Let_def
    by (rule raise_all_all2) (auto simp: raise_challenge_Inr aimed_at_def)
  then have some: "(\<exists>c\<in>set (pa_grounding pre). aimed_at c s i p) \<longleftrightarrow> (s, i, p) \<in> set ?lost" for s i p
  proof (induction rule: list_all2_induct)
    case (Cons x xs c cs)
    then show ?case by (cases x) (auto simp: aimed_at_def)
  qed simp
  have "list_all (\<lambda>c. ch_severity c = HIGH \<and> ch_type c = OTHER_CONCERN) (pa_grounding pre)"
    using all by (auto simp: list_all2_conv_all_nth list_all_length)
  moreover have "iter_legal_citations (lg\<lparr>la_inconsistencies := is, la_assumptions := as\<rparr>) = iter_legal_citations lg"
    by (simp add: iter_legal_citations_def)
  ultimately show ?thesis
    unfolding some cross_check_citation_grounding_def Let_def lost_fact_def
    by (auto simp: set_lost_citations cited_fact_iff image_iff)
qed

section \<open>When the pre-analysis cannot be computed\<close>

lemma raise_all_error: "raise_all f n xs = Inl e \<Longrightarrow> (\<And>i x e. f i x = Inl e \<Longrightarrow> e = Value_Error) \<Longrightarrow> e = Value_Error"
  by (auto simp: raise_all_def dest!: map_result_Inl)

lemma raise_challenge_error:
  "raise_challenge ids i source maker_id path type statement severity confidence = Inl e \<Longrightarrow> e = Value_Error"
  by (auto simp: raise_challenge_def result_simps validated_Inl)

lemma compute_pre_analysis_error: "compute_pre_analysis ids uw lg view gaps = Inl e \<Longrightarrow> e = Value_Error"
  using raise_challenge_error
  by (auto simp: compute_pre_analysis_def Let_def rbind_Inl recompute_visibility_def visibility_challenges_from_def
      cross_check_citation_grounding_def detect_unaddressed_assumptions_def flag_low_confidence_findings_def
      validated_Inl dest!: map_result_Inl raise_all_error)

lemma numbered_item: "x \<in> set xs \<Longrightarrow> \<exists>path. (path, x) \<in> set (numbered prefix xs)"
proof -
  assume "x \<in> set xs"
  then obtain i where "i < length xs" "x = xs ! i" by (auto simp: in_set_conv_nth)
  then have "(i, x) \<in> set (enumerate 0 xs)" by (simp add: in_set_enumerate_eq)
  then show ?thesis unfolding numbered_def by (auto intro: rev_image_eqI)
qed

text \<open>
  an assumption the maker's contract admits can stop the checker for good.  When an
  assumption that no risk or mitigant takes up is so long that the fixed sentence in front of
  it exceeds the 4000 characters of a challenge, constructing the challenge raises, and with
  it the pre-analysis of every later delivery of the task: the result depends on the two
  persisted assessments alone.
\<close>

theorem long_assumption_blocks_review:
  assumes "item \<in> set (ua_assumptions uw)" "unaddressed uw item"
    and "4000 < length (assumption_statement (ai_statement item))"
  shows "compute_pre_analysis ids uw lg view gaps = Inl Value_Error"
proof -
  obtain path where path: "(path, item) \<in> set (numbered ''assumptions'' (ua_assumptions uw))"
    using numbered_item [OF assms(1)] by blast
  have "\<exists>e. detect_unaddressed_assumptions ids n uw = Inl e" for n
    unfolding detect_unaddressed_assumptions_def
  proof (rule raise_all_stuck)
    show "(path, item) \<in> set (filter (\<lambda>(path, item). unaddressed uw item)
        (numbered ''assumptions'' (ua_assumptions uw)))"
      using path assms(2) by simp
    show "\<exists>e. (case (path, item) of (path, item) \<Rightarrow> raise_challenge ids i MAKER_UNDERWRITING (ua_id uw) path
        UNSUPPORTED_ASSUMPTION (assumption_statement (ai_statement item)) MEDIUM MEDIUM_CONFIDENCE) = Inl e" for i
      using assms(3) by (auto simp: raise_challenge_def validated_def challenge_ok_def sized_def)
  qed
  then have "compute_pre_analysis ids uw lg view gaps \<noteq> Inr pre" for pre
    by (metis compute_pre_analysis_parts Inl_Inr_False)
  then obtain e where "compute_pre_analysis ids uw lg view gaps = Inl e"
    by (cases "compute_pre_analysis ids uw lg view gaps") auto
  with compute_pre_analysis_error show ?thesis by simp
qed

text \<open>
  who raised a challenge is lost.  \<open>raised_by\<close> of every challenge of a review is \<open>LLM\<close>, also
  of those the deterministic pass raised, which never sets the field: \<open>DETERMINISTIC\<close> is
  written nowhere, and the stored rows do not tell the two apart.
\<close>

theorem deterministic_origin_lost:
  assumes "compute_pre_analysis ids0 (xi_underwriting inp) (xi_legal inp) (xi_view inp) gaps = Inr (xi_pre_analysis inp)"
    and "build_review ids now inp model_id endpoint_id payload = Inr a" "scope_texts inp"
  shows "list_all (\<lambda>c. ch_raised_by c = LLM) (rr_challenges a)"
proof -
  from assms(2) obtain raw llm where r:
    "map_result (\<lambda>(i, item). llm_challenge_from ids (review_scope inp) (blind_fact_ids inp) i item)
       (enumerate 0 (mappings raw)) = Inr llm"
    "rr_challenges a = all_challenges (xi_pre_analysis inp) @ llm"
    by (rule build_review_Inr)
  have "list_all (\<lambda>c. ch_raised_by c = LLM) llm"
    using map_result_Inr_set [OF r(1)] llm_challenge_from_Inr [OF _ assms(3)]
    by (fastforce simp: list_all_iff llm_challenge_ok_def)
  moreover have "list_all (\<lambda>c. ch_raised_by c = LLM) (all_challenges (xi_pre_analysis inp))"
    using pre_analysis_ok [OF assms(1)] by (auto simp: list_all_iff deterministic_ok_def)
  ultimately show ?thesis by (simp add: r(2))
qed

section \<open>A sample case\<close>

definition sample_finding :: "'c \<Rightarrow> 'c finding" where
  "sample_finding c = \<lparr>fd_statement = ''s'', fd_citations = [c], fd_confidence = HIGH_CONFIDENCE, fd_uncertainty = []\<rparr>"

definition sample_provenance :: "uuid \<Rightarrow> provenance" where
  "sample_provenance execution =
     \<lparr>pv_case_id = 7, pv_case_version = 2, pv_execution_id = execution, pv_task_id = 3, pv_prompt_version = ''p'',
      pv_model_id = ''m'', pv_endpoint_id = ''e'', pv_view_built_at = 50, pv_created_at = 60\<rparr>"

definition sample_gap :: evidence_gap_item where
  "sample_gap = \<lparr>eg_missing_information = ''tax'', eg_why_needed = ''w'', eg_blocking_level = BLOCKING,
     eg_suggested_evidence = []\<rparr>"

definition sample_underwriting :: "string \<Rightarrow> underwriting_assessment" where
  "sample_underwriting assumption =
     (let f = sample_finding (Uw_Fact 5)
      in \<lparr>ua_id = 21, ua_provenance = sample_provenance 31, ua_business = [f], ua_financial = [f], ua_cash_flow = [f],
          ua_repayment = [f], ua_downside = [],
          ua_structure = \<lparr>ps_instrument = ''loan'', ps_amount = None, ps_tenor_months = Some 12, ps_findings = [f]\<rparr>,
          ua_risks = [\<lparr>ri_risk_id = ''r1'', ri_description = ''d'', ri_citations = [Uw_Fact 9],
            ri_confidence = LOW_CONFIDENCE, ri_uncertainty = []\<rparr>],
          ua_mitigants = [\<lparr>ri_risk_id = ''r1'', ri_description = ''d'', ri_citations = [Uw_Fact 5],
            ri_confidence = HIGH_CONFIDENCE, ri_uncertainty = []\<rparr>],
          ua_assumptions = [\<lparr>ai_statement = assumption, ai_rationale = ''r'', ai_basis_citations = [Uw_Fact 6]\<rparr>],
          ua_gaps = [sample_gap], ua_results = [], ua_trends = [], ua_scenarios = []\<rparr>)"

definition sample_legal :: legal_assessment where
  "sample_legal =
     (let f = sample_finding (Legal_Fact 5)
      in \<lparr>la_id = 22, la_provenance = sample_provenance 32, la_entity = [f], la_authority = [f], la_ownership = [f],
          la_inconsistencies = [], la_policy = [], la_interpretations = [], la_documents = [],
          la_ownership_evidence = [f], la_exceptions = [], la_assumptions = [], la_gaps = [],
          la_hits = [], la_corpus_ref = None, la_checks = []\<rparr>)"

definition sample_view :: evidence_view where
  "sample_view =
     \<lparr>ev_case_id = 7, ev_case_version = 2, ev_built_at = 70,
      ev_facts = [\<lparr>ef_id = 5, ef_field_key = ''k'', ef_value = JInt 1, ef_document_version_id = 8\<rparr>,
                  \<lparr>ef_id = 6, ef_field_key = ''l'', ef_value = JInt 2, ef_document_version_id = 8\<rparr>]\<rparr>"

definition sample_pre_analysis :: pre_analysis where
  "sample_pre_analysis =
     (case compute_pre_analysis id (sample_underwriting ''a'') sample_legal sample_view [] of Inr p \<Rightarrow> p)"

definition sample_input :: checker_input where
  "sample_input =
     \<lparr>xi_view = sample_view, xi_underwriting = sample_underwriting ''a'', xi_underwriting_execution = 31,
      xi_legal = sample_legal, xi_legal_execution = 32, xi_pre_analysis = sample_pre_analysis,
      xi_universe = build_target_universe (sample_underwriting ''a'') sample_legal, xi_hits = [], xi_checks = [],
      xi_run = \<lparr>kx_task_id = 4, kx_execution_id = 33\<rparr>,
      xi_blind = Some \<lparr>bp_risks = [\<lparr>ir_description = ''x'', ir_citations = [5], ir_severity = HIGH,
        ir_confidence = LOW_CONFIDENCE\<rparr>], bp_observations = []\<rparr>\<rparr>"

definition sample_target :: "(string \<times> json) list" where
  "sample_target = [(''maker_source'', JStr ''CREDIT_UNDERWRITING''),
     (''maker_assessment_id'', JStr (str_uuid 21)), (''section_path'', JStr ''risks[0]'')]"

definition sample_payload :: "(string \<times> json) list" where
  "sample_payload =
     [(''challenges'', JList [JObj
         [(''target'', JObj sample_target), (''challenge_type'', JStr ''OMITTED_RISK''), (''statement_vi'', JStr ''why''),
          (''citations'', JList [JObj [(''kind'', JStr ''CONFIRMED_FACT''), (''confirmed_fact_id'', JStr (str_uuid 5))],
             JObj [(''kind'', JStr ''MAKER_FINDING''), (''ref'', JObj sample_target)]]),
          (''severity'', JStr ''HIGH''), (''confidence'', JStr ''LOW'')]]),
      (''omitted_risks'', JList []), (''mitigant_adequacy_reviews'', JList []),
      (''recommendations'', JList [JObj [(''recommendation_type'', JStr ''ESCALATION''), (''rationale_vi'', JStr ''r'')]]),
      (''evidence_gaps'', JList [])]"

lemmas sample_simps =
  sample_underwriting_def sample_legal_def sample_view_def sample_finding_def sample_gap_def sample_provenance_def

lemmas raise_simps = raise_all_def raise_challenge_def validated_def finding_ref_ok_def challenge_ok_def sized_def

lemma sample_visibility: "\<exists>r. recompute_visibility id n (sample_underwriting x) sample_legal [] = Inr r"
  by (simp add: recompute_visibility_def visibility_challenges_from_def gap_items_def visibility_gap_ok_def
      gap_visibility_statement_def raise_simps sample_simps Let_def)

lemma sample_grounding:
  "\<exists>cs. cross_check_citation_grounding id n (sample_underwriting x) sample_legal sample_view = Inr cs"
  by (simp add: cross_check_citation_grounding_def lost_citations_def iter_underwriting_citations_def
      iter_legal_citations_def fact_ids_def numbered_def dec_digits_small str_uuid_eq grounding_statement_def
      raise_simps sample_simps Let_def)

lemma sample_assumptions: "\<exists>cs. detect_unaddressed_assumptions id n (sample_underwriting ''a'') = Inr cs"
  by (simp add: detect_unaddressed_assumptions_def unaddressed_def downstream_keys_def numbered_def
      dec_digits_small str_uuid_eq assumption_statement_def raise_simps sample_simps Let_def)

lemma sample_low_confidence:
  "\<exists>cs. flag_low_confidence_findings id n (sample_underwriting x) sample_legal confidence_flag_threshold = Inr cs"
  by (simp add: flag_low_confidence_findings_def underwriting_confidence_items_def legal_confidence_items_def
      confidence_flag_threshold_def numbered_def dec_digits_small confidence_statement_def raise_simps
      sample_simps Let_def)

lemma sample_pre_analysis_runs:
  "compute_pre_analysis id (sample_underwriting ''a'') sample_legal sample_view [] = Inr sample_pre_analysis"
proof -
  obtain checks v g n as l where
    "recompute_visibility id 0 (sample_underwriting ''a'') sample_legal [] = Inr (checks, v)"
    "cross_check_citation_grounding id (length v) (sample_underwriting ''a'') sample_legal sample_view = Inr g"
    "detect_unaddressed_assumptions id (length v + length g) (sample_underwriting ''a'') = Inr as"
    "flag_low_confidence_findings id (length v + length g + length as) (sample_underwriting ''a'') sample_legal
       confidence_flag_threshold = Inr l"
    using sample_visibility sample_grounding sample_assumptions sample_low_confidence by (metis surj_pair)
  then show ?thesis by (simp add: sample_pre_analysis_def compute_pre_analysis_def Let_def)
qed

lemma sample_paths:
  "underwriting_target_paths (sample_underwriting ''a'') =
     [''business.findings[0]'', ''financial.findings[0]'', ''cash_flow.findings[0]'', ''repayment_source.findings[0]'',
      ''proposed_structure.findings[0]'', ''risks[0]'', ''mitigants[0]'', ''assumptions[0]'', ''evidence_gaps[0]'']"
  "legal_target_paths sample_legal =
     [''legal_entity_review.findings[0]'', ''authority_signatory_review.findings[0]'',
      ''ownership_consistency.findings[0]'', ''collateral_review.ownership_evidence_findings[0]'']"
  by (simp_all add: underwriting_target_paths_def legal_target_paths_def numbered_def dec_digits_small
      digit_char_0 sample_simps Let_def)

lemma sample_universe:
  "build_target_universe (sample_underwriting ''a'') sample_legal =
     \<lparr>tu_underwriting_id = 21,
      tu_underwriting_paths = [''business.findings[0]'', ''financial.findings[0]'', ''cash_flow.findings[0]'',
        ''repayment_source.findings[0]'', ''proposed_structure.findings[0]'', ''risks[0]'', ''mitigants[0]'',
        ''assumptions[0]'', ''evidence_gaps[0]''],
      tu_legal_id = 22,
      tu_legal_paths = [''legal_entity_review.findings[0]'', ''authority_signatory_review.findings[0]'',
        ''ownership_consistency.findings[0]'', ''collateral_review.ownership_evidence_findings[0]'']\<rparr>"
  by (simp add: build_target_universe_def sample_paths) (simp add: sample_underwriting_def sample_legal_def Let_def)

lemma sample_scope:
  "review_scope sample_input = \<lparr>cs_facts = [str_uuid 5, str_uuid 6], cs_results = [], cs_hits = [], cs_invocations = [],
     cs_universe = build_target_universe (sample_underwriting ''a'') sample_legal\<rparr>"
  by (simp add: review_scope_def sample_input_def fact_ids_def known_result_ids_def sample_simps Let_def)

lemma sample_scope_ok: "scope_ok (review_scope sample_input)" "scope_texts sample_input"
  using uuid_texts_map [of "[5, 6]"]
  by (simp_all add: scope_ok_def scope_texts_def sample_scope universe_texts_def sample_universe sized_def
      uuid_texts_def [of "[]"])

lemma sample_reviewable: "reviewable id [] sample_input"
  using sample_pre_analysis_runs sample_scope_ok(1)
  by (simp add: reviewable_def sample_input_def sample_view_def)

lemma sample_target_conforms:
  "conforms (target_schema (cs_universe (review_scope sample_input))) (JObj sample_target)"
  by (simp add: target_schema_def filtered_target_schema_def target_branch_def sample_scope sample_universe
      sample_target_def str_uuid_eq Let_def conforms.simps object_ok_def)

lemma sample_conforms: "conforms (checker_response_schema (review_scope sample_input)) (JObj sample_payload)"
proof -
  let ?sc = "review_scope sample_input"
  have t: "conforms (target_schema (cs_universe ?sc)) (JObj sample_target)" by (rule sample_target_conforms)
  have fact: "conforms (citation_schema ?sc)
      (JObj [(''kind'', JStr ''CONFIRMED_FACT''), (''confirmed_fact_id'', JStr (str_uuid 5))])"
    by (simp add: citation_schema_def confirmed_fact_citation_schema_def policy_citation_branches_def sample_scope
        conforms.simps object_ok_def string_ok_def)
  have maker: "conforms (citation_schema ?sc) (JObj [(''kind'', JStr ''MAKER_FINDING''), (''ref'', JObj sample_target)])"
    using t by (simp add: citation_schema_def confirmed_fact_citation_schema_def policy_citation_branches_def
        sample_scope conforms.simps object_ok_def string_ok_def)
  show ?thesis
    using t fact maker
    by (simp add: checker_response_schema_def challenge_item_schema_def citations_schema_def recommendation_schema_def
        sample_payload_def severity_schema_def confidence_schema_def challenge_severities_def confidence_levels_def
        challenge_types_def recommendation_types_def conforms.simps object_ok_def array_ok_def string_ok_def Let_def)
qed

lemma sample_review:
  obtains a where "build_review id 80 sample_input ''m'' ''e'' sample_payload = Inr a"
  using conforming_review_built [OF sample_reviewable sample_conforms, of "''m''" "''e''" id 80] by auto

lemma sample_low_raised: "pa_low_confidence sample_pre_analysis \<noteq> []"
proof (rule compute_pre_analysis_parts [OF sample_pre_analysis_runs])
  fix n assume "flag_low_confidence_findings id n (sample_underwriting ''a'') sample_legal confidence_flag_threshold =
    Inr (pa_low_confidence sample_pre_analysis)"
  then show ?thesis
    by (auto simp: flag_low_confidence_findings_def underwriting_confidence_items_def confidence_flag_threshold_def
        numbered_def sample_simps Let_def raise_all_def result_simps)
qed

lemma sample_input_parts:
  "xi_pre_analysis sample_input = sample_pre_analysis" "xi_underwriting sample_input = sample_underwriting ''a''"
  "xi_legal sample_input = sample_legal" "xi_view sample_input = sample_view"
  by (simp_all add: sample_input_def)

theorem checker_only_adds_witness:
  "\<exists>a llm. build_review id 80 sample_input ''m'' ''e'' sample_payload = Inr a \<and>
     rr_challenges a = all_challenges sample_pre_analysis @ llm \<and> length llm = 1"
proof (rule sample_review)
  fix a assume a: "build_review id 80 sample_input ''m'' ''e'' sample_payload = Inr a"
  from checker_only_adds [OF a sample_scope_ok(2)] a show ?thesis
    by (auto simp: sample_input_parts sample_payload_def list_field_Inr)
qed

theorem checker_citations_grounded_witness:
  "\<exists>a. build_review id 80 sample_input ''m'' ''e'' sample_payload = Inr a \<and>
     list_all (\<lambda>r. list_all (citation_in_scope (review_scope sample_input)) (rc_citations r)) (rr_recommendations a)"
proof (rule sample_review)
  fix a assume a: "build_review id 80 sample_input ''m'' ''e'' sample_payload = Inr a"
  from checker_citations_grounded [OF a sample_scope_ok(2)] a show ?thesis by blast
qed

definition sample_reason :: "json_schema \<Rightarrow> unit + json \<times> string \<times> string" where
  "sample_reason s =
     (if conforms s (JObj sample_payload) then Inr (JObj sample_payload, ''m'', ''e'') else Inl ())"

theorem conforming_answer_reviewed_witness:
  "\<exists>a. infer_review sample_reason id 80 sample_input = Inr a"
proof -
  have "honours_schema sample_reason" by (simp add: honours_schema_def sample_reason_def)
  from conforming_answer_reviewed [OF this sample_reviewable, of id 80] show ?thesis
    using sample_conforms by (auto simp: sample_reason_def)
qed

definition sample_blind_payload :: json where
  "sample_blind_payload = JObj
     [(''independent_risks'', JList [JObj [(''description_vi'', JStr ''x''),
         (''citations'', JList [JObj [(''kind'', JStr ''CONFIRMED_FACT''), (''confirmed_fact_id'', JStr (str_uuid 5))]]),
         (''severity'', JStr ''HIGH''), (''confidence'', JStr ''LOW'')]]),
      (''observations'', JList [])]"

theorem blind_pass_cites_facts_witness:
  "\<exists>b. infer_pre_analysis (\<lambda>s c. Inr (sample_blind_payload, ''m'', ''e'')) sample_view = (Inr b :: unit inference_error + _) \<and>
     length (bp_risks b) = 1 \<and> blind_grounded sample_view b"
proof -
  let ?b = "\<lparr>bp_risks = [\<lparr>ir_description = ''x'', ir_citations = [5], ir_severity = HIGH,
      ir_confidence = LOW_CONFIDENCE\<rparr>], bp_observations = []\<rparr>"
  have facts: "fact_ids sample_view = map str_uuid [5, 6]" by (simp add: fact_ids_def sample_view_def)
  have "infer_pre_analysis (\<lambda>s c. Inr (sample_blind_payload, ''m'', ''e'')) sample_view = (Inr ?b :: unit inference_error + _)"
    by (simp add: infer_pre_analysis_def sample_blind_payload_def build_pre_analysis_def facts rejected_output_def
        independent_risk_from_def pre_analysis_citations_from_def pre_analysis_citation_def parse_str_uuid
        enum_of_def challenge_severities_def confidence_levels_def validated_def independent_risk_ok_def sized_def
        list_field_def listed_def text_of_def get_or_def maker_artifact_kinds_def rejecting_def Let_def)
  moreover have "uuid_texts (fact_ids sample_view)" unfolding facts by (rule uuid_texts_map) simp
  ultimately show ?thesis using blind_pass_cites_facts [of sample_view _ ?b] by fastforce
qed

theorem blocking_gaps_stay_visible_witness:
  "declared_gaps (sample_underwriting ''a'') sample_legal = [(MAKER_UNDERWRITING, ''tax'')] \<and>
   list_all (\<lambda>v. \<not> vg_still_visible v) (vc_blocking_gaps (pa_visibility_checks sample_pre_analysis)) \<and>
   length (pa_visibility sample_pre_analysis) = 1"
proof -
  have d: "declared_gaps (sample_underwriting ''a'') sample_legal = [(MAKER_UNDERWRITING, ''tax'')]"
    by (simp add: declared_gaps_def sample_simps Let_def)
  note p = blocking_gaps_stay_visible [OF sample_pre_analysis_runs, unfolded d]
  then have n: "list_all (\<lambda>v. \<not> vg_still_visible v) (vc_blocking_gaps (pa_visibility_checks sample_pre_analysis))"
    by (auto simp: list_all_iff)
  then have "filter (\<lambda>v. \<not> vg_still_visible v) (vc_blocking_gaps (pa_visibility_checks sample_pre_analysis)) =
      vc_blocking_gaps (pa_visibility_checks sample_pre_analysis)"
    by (simp add: filter_id_conv list_all_iff)
  with p [THEN conjunct2, THEN conjunct2, THEN conjunct1]
  have "length (vc_blocking_gaps (pa_visibility_checks sample_pre_analysis)) = length (pa_visibility sample_pre_analysis)"
    by (simp add: list_all2_lengthD)
  moreover have "length (vc_blocking_gaps (pa_visibility_checks sample_pre_analysis)) = 1"
    using arg_cong [OF p [THEN conjunct1], of length] by simp
  ultimately show ?thesis using d n by simp
qed

theorem lost_facts_challenged_witness:
  "list_ex (\<lambda>c. aimed_at c MAKER_UNDERWRITING 21 ''risks[0]'') (pa_grounding sample_pre_analysis) \<and>
   \<not> list_ex (\<lambda>c. aimed_at c MAKER_UNDERWRITING 21 ''mitigants[0]'') (pa_grounding sample_pre_analysis)"
proof -
  have i: "ua_id (sample_underwriting ''a'') = 21" by (simp add: sample_underwriting_def Let_def)
  have lost: "lost_fact sample_view 9" "\<not> lost_fact sample_view 5"
    by (simp_all add: lost_fact_def fact_ids_def sample_view_def str_uuid_eq)
  have it: "iter_underwriting_citations (sample_underwriting ''a'') =
      [(''business.findings[0]'', [Uw_Fact 5]), (''financial.findings[0]'', [Uw_Fact 5]),
       (''cash_flow.findings[0]'', [Uw_Fact 5]), (''repayment_source.findings[0]'', [Uw_Fact 5]),
       (''proposed_structure.findings[0]'', [Uw_Fact 5]), (''risks[0]'', [Uw_Fact 9]), (''mitigants[0]'', [Uw_Fact 5])]"
    by (simp add: iter_underwriting_citations_def numbered_def dec_digits_small digit_char_0 sample_simps Let_def)
  show ?thesis
    using lost_facts_challenged [OF sample_pre_analysis_runs, of "''risks[0]''"]
      lost_facts_challenged [OF sample_pre_analysis_runs, of "''mitigants[0]''"] lost
    unfolding i it by (auto simp: list_ex_iff)
qed

lemma sample_long_assumption:
  assumes "length t = 4000"
  shows "underwriting_ok (sample_underwriting t)" "legal_ok sample_legal"
    "unaddressed (sample_underwriting t) \<lparr>ai_statement = t, ai_rationale = ''r'', ai_basis_citations = [Uw_Fact 6]\<rparr>"
    "4000 < length (assumption_statement t)"
proof -
  show "underwriting_ok (sample_underwriting t)"
    using assms
    by (simp add: underwriting_ok_def sample_simps Let_def provenance_ok_def section_ok_def finding_ok_def sized_def
        structure_ok_def risk_item_ok_def assumption_ok_def gap_item_ok_def citations_resolve_and_mitigants_bind_def
        uw_material_citations_def uw_findings_def result_resolves_def)
  show "legal_ok sample_legal"
    by (simp add: legal_ok_def sample_simps Let_def provenance_ok_def section_ok_def finding_ok_def sized_def
        policy_citations_grounded_def check_references_grounded_def inconsistency_citations_distinct_def
        legal_citations_def legal_findings_def)
  show "unaddressed (sample_underwriting t) \<lparr>ai_statement = t, ai_rationale = ''r'', ai_basis_citations = [Uw_Fact 6]\<rparr>"
    by (simp add: sample_underwriting_def unaddressed_def downstream_keys_def str_uuid_eq Let_def)
  show "4000 < length (assumption_statement t)"
    using assms by (simp add: assumption_statement_def)
qed

theorem long_assumption_blocks_review_witness:
  "\<exists>t. underwriting_ok (sample_underwriting t) \<and> legal_ok sample_legal \<and>
     compute_pre_analysis id (sample_underwriting t) sample_legal sample_view [] = Inl Value_Error"
proof -
  obtain t :: string where t: "length t = 4000" using Ex_list_of_length by blast
  have "\<lparr>ai_statement = t, ai_rationale = ''r'', ai_basis_citations = [Uw_Fact 6]\<rparr>
      \<in> set (ua_assumptions (sample_underwriting t))"
    by (simp add: sample_underwriting_def Let_def)
  from long_assumption_blocks_review [OF this sample_long_assumption(3) [OF t]] sample_long_assumption [OF t]
  show ?thesis by auto
qed

theorem deterministic_origin_lost_witness:
  "\<exists>a. build_review id 80 sample_input ''m'' ''e'' sample_payload = Inr a \<and>
     all_challenges sample_pre_analysis \<noteq> [] \<and> list_all (\<lambda>c. ch_raised_by c = LLM) (rr_challenges a)"
proof (rule sample_review)
  fix a assume a: "build_review id 80 sample_input ''m'' ''e'' sample_payload = Inr a"
  have "compute_pre_analysis id (xi_underwriting sample_input) (xi_legal sample_input) (xi_view sample_input) [] =
      Inr (xi_pre_analysis sample_input)"
    using sample_reviewable by (simp add: reviewable_def)
  from deterministic_origin_lost [OF this a sample_scope_ok(2)] a show ?thesis
    using sample_low_raised by (auto simp: all_challenges_def)
qed

end
