(* ===== verification/Agent_Stage.thy ===== *)
theory Agent_Stage
  imports Worker Risk_Review
begin

text \<open>
  What the processors of the three agents share.  A processor runs one delivery of a claimed
  task: it calls its repository, the reasoning gateway and the checkpoint callback of the
  worker, one after another.  Before each call the rest of the system may act on the
  store (\<open>ae_others\<close>), and the process may die at any call, before the call took effect or
  after it, before the answer arrived (\<open>ae_fault\<close>).  What a call has committed stays: the
  next delivery starts from the store and the last checkpoint it finds.
\<close>

section \<open>A delivery and its faults\<close>

datatype fault = No_Fault | Fault_Before | Fault_After

record ('s, 'k) agent_world =
  aw_store :: 's
  aw_checkpoint :: "'k option"
  aw_manifests :: "(uuid \<times> string) list"
  aw_calls :: nat
  aw_drawn :: nat
  aw_ticks :: nat

record 's agent_env =
  ae_uuid :: "nat \<Rightarrow> uuid"
  ae_fault :: "nat \<Rightarrow> fault"
  ae_others :: "nat \<Rightarrow> 's \<Rightarrow> 's"

datatype 'e agent_exn = Crashed | Agent_Exn 'e

type_synonym ('s, 'k, 'e, 'a) agent_act = "(('s, 'k) agent_world, 'e agent_exn, 'a) act"

definition interfered :: "'s agent_env \<Rightarrow> ('s, 'k) agent_world \<Rightarrow> ('s, 'k) agent_world" where
  "interfered env w =
     w\<lparr>aw_store := ae_others env (aw_ticks w) (aw_store w), aw_ticks := Suc (aw_ticks w)\<rparr>"

definition external :: "'s agent_env \<Rightarrow> ('s, 'k, 'e, 'a) agent_act \<Rightarrow> ('s, 'k, 'e, 'a) agent_act" where
  "external env m w =
     (case ae_fault env (aw_ticks w) of
        No_Fault \<Rightarrow> m (interfered env w)
      | Fault_Before \<Rightarrow> (Inl Crashed, interfered env w)
      | Fault_After \<Rightarrow> (Inl Crashed, snd (m (interfered env w))))"

text \<open>A transaction of the repository; a read; \<open>uuid4()\<close>; the checkpoint callback.\<close>

definition on_repo :: "'s agent_env \<Rightarrow> ('s \<Rightarrow> 'e + 'a \<times> 's) \<Rightarrow> ('s, 'k, 'e, 'a) agent_act" where
  "on_repo env op =
     external env (\<lambda>w. case op (aw_store w) of
         Inl e \<Rightarrow> (Inl (Agent_Exn e), w)
       | Inr (x, st) \<Rightarrow> (Inr x, w\<lparr>aw_store := st\<rparr>))"

definition from_repo :: "'s agent_env \<Rightarrow> ('s \<Rightarrow> 'a) \<Rightarrow> ('s, 'k, 'e, 'a) agent_act" where
  "from_repo env f = external env (reading (\<lambda>w. f (aw_store w)))"

definition next_uuid :: "'s agent_env \<Rightarrow> ('s, 'k, 'e, uuid) agent_act" where
  "next_uuid env w = (Inr (ae_uuid env (aw_drawn w)), w\<lparr>aw_drawn := Suc (aw_drawn w)\<rparr>)"

definition save_point :: "'s agent_env \<Rightarrow> 'k \<Rightarrow> ('s, 'k, 'e, unit) agent_act" where
  "save_point env k = external env (\<lambda>w. (Inr (), w\<lparr>aw_checkpoint := Some k\<rparr>))"

definition call_gateway :: "'s agent_env \<Rightarrow> 'a \<Rightarrow> ('s, 'k, 'e, 'a) agent_act" where
  "call_gateway env answer = external env (\<lambda>w. (Inr answer, w\<lparr>aw_calls := Suc (aw_calls w)\<rparr>))"

text \<open>The governance repository keeps one manifest per task and context hash; unwired, it does nothing.\<close>

definition persist_manifest :: "'s agent_env \<Rightarrow> uuid \<Rightarrow> string \<Rightarrow> ('s, 'k, 'e, unit) agent_act" where
  "persist_manifest env t hash =
     external env (\<lambda>w. (Inr (), if (t, hash) \<in> set (aw_manifests w) then w
                               else w\<lparr>aw_manifests := aw_manifests w @ [(t, hash)]\<rparr>))"

section \<open>Assertions over the calls\<close>

text \<open>An assertion that neither the others nor the counters can break.\<close>

definition undisturbed :: "'s agent_env \<Rightarrow> (('s, 'k) agent_world \<Rightarrow> bool) \<Rightarrow> bool" where
  "undisturbed env P \<longleftrightarrow> (\<forall>w. P w \<longrightarrow> P (interfered env w))"

lemma hoare_external:
  assumes "undisturbed env P" "hoare P m Q E" "\<And>w. P w \<Longrightarrow> E Crashed w" "\<And>x w. Q x w \<Longrightarrow> E Crashed w"
    "\<And>e w. E e w \<Longrightarrow> E Crashed w"
  shows "hoare P (external env m) Q E"
proof (rule hoareI)
  fix w e w' assume P: "P w" "external env m w = (Inl e, w')"
  then have P': "P (interfered env w)" using assms(1) by (simp add: undisturbed_def)
  obtain r v where m: "m (interfered env w) = (r, v)" by fastforce
  from P' assms(2) m have "case r of Inl e \<Rightarrow> E e v | Inr x \<Rightarrow> Q x v"
    unfolding hoare_def by (force split: sum.splits)
  with P P' m assms(3-5) show "E e w'"
    by (cases "ae_fault env (aw_ticks w)"; cases r) (auto simp: external_def)
next
  fix w x w' assume P: "P w" "external env m w = (Inr x, w')"
  then have "P (interfered env w)" "m (interfered env w) = (Inr x, w')"
    using assms(1) by (auto simp: undisturbed_def external_def split: fault.splits)
  then show "Q x w'" using hoareD_Inr [OF assms(2)] by blast
qed

text \<open>An invariant \<open>I\<close> of every state, crashed or not.\<close>

lemma keeps_external: "undisturbed env I \<Longrightarrow> keeps I m \<Longrightarrow> keeps I (external env m)"
  unfolding keeps_hoare by (rule hoare_external) auto

lemma hoare_from_repo:
  assumes "undisturbed env I"
  shows "hoare I (from_repo env f) (\<lambda>x w. I w \<and> x = f (aw_store w)) (\<lambda>_. I)"
  unfolding from_repo_def using assms by (rule hoare_external) (auto intro: hoare_reading)

lemma hoare_on_repo:
  assumes "undisturbed env I"
    and "\<And>w x st. I w \<Longrightarrow> op (aw_store w) = Inr (x, st) \<Longrightarrow> I (w\<lparr>aw_store := st\<rparr>) \<and> Q x (w\<lparr>aw_store := st\<rparr>)"
  shows "hoare I (on_repo env op) (\<lambda>x w. I w \<and> Q x w) (\<lambda>_. I)"
  unfolding on_repo_def using assms(1)
  by (rule hoare_external) (auto intro!: hoareI dest: assms(2) split: sum.splits)

lemma hoare_save_point:
  assumes "undisturbed env I" "\<And>w. I w \<Longrightarrow> I (w\<lparr>aw_checkpoint := Some k\<rparr>)"
  shows "hoare I (save_point env k) (\<lambda>_. I) (\<lambda>_. I)"
  unfolding save_point_def using assms(1) by (rule hoare_external) (auto intro!: hoareI dest: assms(2))

lemma hoare_call_gateway:
  assumes "undisturbed env I" "\<And>w. I w \<Longrightarrow> I (w\<lparr>aw_calls := Suc (aw_calls w)\<rparr>)"
  shows "hoare I (call_gateway env x) (\<lambda>y w. I w \<and> y = x) (\<lambda>_. I)"
  unfolding call_gateway_def using assms(1) by (rule hoare_external) (auto intro!: hoareI dest: assms(2))

lemma hoare_persist_manifest:
  assumes "undisturbed env I" "\<And>w ms. I w \<Longrightarrow> I (w\<lparr>aw_manifests := ms\<rparr>)"
  shows "hoare I (persist_manifest env t hash) (\<lambda>_. I) (\<lambda>_. I)"
  unfolding persist_manifest_def using assms(1)
  by (rule hoare_external) (auto intro!: hoareI dest: assms(2) split: if_splits)

lemma hoare_next_uuid:
  assumes "\<And>w. I w \<Longrightarrow> I (w\<lparr>aw_drawn := Suc (aw_drawn w)\<rparr>)"
  shows "hoare I (next_uuid env) (\<lambda>x w. I w \<and> x \<in> range (ae_uuid env)) E"
  by (auto intro!: hoareI simp: next_uuid_def assms)

section \<open>Deliveries\<close>

text \<open>One delivery after another, each from the world the one before has left.\<close>

fun deliveries ::
  "('d \<Rightarrow> ('s, 'k, 'e, 'r) agent_act) \<Rightarrow> 'd list \<Rightarrow> ('s, 'k) agent_world \<Rightarrow>
   ('e agent_exn + 'r) list \<times> ('s, 'k) agent_world" where
  "deliveries process [] w = ([], w)"
| "deliveries process (d # ds) w =
     (let (r, w') = process d w; (rs, w'') = deliveries process ds w' in (r # rs, w''))"

lemma deliveries_invariant:
  assumes "\<And>d. d \<in> set ds \<Longrightarrow> hoare I (process d) (\<lambda>r w. I w \<and> (P r \<longrightarrow> G w)) (\<lambda>_. I)"
    and "\<And>d w. d \<in> set ds \<Longrightarrow> I w \<Longrightarrow> G w \<Longrightarrow> G (snd (process d w))"
    and "I w" "deliveries process ds w = (rs, w')"
  shows "I w' \<and> (G w \<or> (\<exists>r. Inr r \<in> set rs \<and> P r) \<longrightarrow> G w')"
  using assms
proof (induction ds arbitrary: w rs)
  case (Cons d ds)
  obtain r w1 where r: "process d w = (r, w1)" by fastforce
  obtain rs1 where rs: "deliveries process ds w1 = (rs1, w')" "rs = r # rs1"
    using Cons.prems(4) r by (auto simp: Let_def split: prod.splits)
  have h: "hoare I (process d) (\<lambda>r w. I w \<and> (P r \<longrightarrow> G w)) (\<lambda>_. I)" using Cons.prems(1) by simp
  have I1: "I w1" using hoareD_Inr [OF h Cons.prems(3)] hoareD_Inl [OF h Cons.prems(3)] r by (cases r) auto
  have G1: "G w1" if "G w \<or> (\<exists>x. r = Inr x \<and> P x)"
    using that Cons.prems(2) [of d w] Cons.prems(3) r hoareD_Inr [OF h Cons.prems(3)] by auto
  from Cons.IH [OF Cons.prems(1,2) I1 rs(1)] G1 rs(2) show ?case by auto
qed auto

end
