(* ===== verification/Underwriting_Suite.thy ===== *)
theory Underwriting_Suite
  imports Risk_Review
begin

text \<open>
  The calculator suite of the maker (\<open>application/underwriting/evidence.py\<close>): confirmed facts
  are mapped to calculator inputs by their field key, the calculators run, and every
  input the view could not supply is recorded as missing evidence.

  A fact's value is a JSON scalar; \<open>Decimal(str(value))\<close> is the constructor of the
  standard library on its text.  Python's special values (infinities and NaNs), which
  that constructor accepts, have no place in the rationals: a view that holds one in a
  field of the suite is outside the model, and \<open>build_calculator_suite\<close> says so with an error of
  its own.
\<close>

section \<open>The text of a decimal\<close>

datatype numeral = Finite decimal | Special

definition is_digit :: "char \<Rightarrow> bool" where
  "is_digit c = (let n = of_char c :: nat in 48 \<le> n \<and> n \<le> 57)"

definition digits_value :: "string \<Rightarrow> nat" where
  "digits_value s = foldl (\<lambda>a c. 10 * a + (of_char c - 48)) 0 s"

definition lower_char :: "char \<Rightarrow> char" where
  "lower_char c = (let n = of_char c :: nat in if 65 \<le> n \<and> n \<le> 90 then char_of (n + 32) else c)"

text \<open>A sign in front, and the rest.\<close>

definition signed :: "string \<Rightarrow> bool \<times> string" where
  "signed s = (if take 1 s = ''-'' then (True, drop 1 s) else (False, if take 1 s = ''+'' then drop 1 s else s))"

definition exponent_of :: "string \<Rightarrow> int option" where
  "exponent_of s =
     (case s of
        [] \<Rightarrow> Some 0
      | c # cs \<Rightarrow>
          (let (neg, ds) = signed cs
           in if lower_char c = CHR ''e'' \<and> ds \<noteq> [] \<and> list_all is_digit ds
              then Some (if neg then - int (digits_value ds) else int (digits_value ds)) else None))"

definition special_text :: "string \<Rightarrow> bool" where
  "special_text s =
     (let t = map lower_char s; u = (if take 1 t = ''s'' then drop 1 t else t)
      in t = ''inf'' \<or> t = ''infinity'' \<or> (take 3 u = ''nan'' \<and> list_all is_digit (drop 3 u)))"

definition unsigned_decimal :: "string \<Rightarrow> numeral option" where
  "unsigned_decimal s =
     (let whole = takeWhile is_digit s; rest = dropWhile is_digit s;
          point = (take 1 rest = ''.'');
          fraction = (if point then takeWhile is_digit (drop 1 rest) else []);
          tail = (if point then dropWhile is_digit (drop 1 rest) else rest)
      in if special_text s then Some Special
         else if whole @ fraction = [] then None
         else (case exponent_of tail of
             None \<Rightarrow> None
           | Some e \<Rightarrow> Some (Finite (of_nat (digits_value (whole @ fraction)) * pow10 (e - int (length fraction))))))"

text \<open>Surrounding white space is stripped and underscores are ignored.\<close>

definition decimal_of_text :: "string \<Rightarrow> numeral option" where
  "decimal_of_text s =
     (let (neg, t) = signed (filter (\<lambda>c. c \<noteq> CHR ''_'') (strip_of py_space s))
      in case unsigned_decimal t of
           Some (Finite x) \<Rightarrow> Some (Finite (if neg then - x else x))
         | r \<Rightarrow> r)"

section \<open>Inputs from the evidence view\<close>

text \<open>\<open>_decimal_of\<close>: a boolean is not a number, whatever its text.\<close>

definition decimal_of :: "evidence_fact \<Rightarrow> numeral option" where
  "decimal_of f = (case ef_value f of JBool b \<Rightarrow> None | v \<Rightarrow> decimal_of_text (py_str v))"

definition canonical_field_keys :: "(string \<times> string) list" where
  "canonical_field_keys =
     [(''current_assets'', ''financials.current_assets''),
      (''current_liabilities'', ''financials.current_liabilities''),
      (''inventory'', ''financials.inventory''),
      (''total_debt'', ''financials.total_debt''),
      (''total_equity'', ''financials.total_equity''),
      (''total_assets'', ''financials.total_assets''),
      (''revenue'', ''financials.revenue''),
      (''gross_profit'', ''financials.gross_profit''),
      (''operating_profit'', ''financials.operating_profit''),
      (''net_profit'', ''financials.net_profit''),
      (''accounts_receivable'', ''financials.accounts_receivable''),
      (''accounts_payable'', ''financials.accounts_payable''),
      (''cost_of_goods_sold'', ''financials.cost_of_goods_sold''),
      (''own_working_capital'', ''financials.own_working_capital''),
      (''other_funding_sources'', ''financials.other_funding_sources'')]"

definition prior_period_field_keys :: "(string \<times> string) list" where
  "prior_period_field_keys =
     [(''revenue'', ''financials.prior.revenue''), (''net_profit'', ''financials.prior.net_profit'')]"

definition downside_scenario_name :: string where
  "downside_scenario_name = ''doanh_thu_giam_20pct''"

record missing_evidence =
  me_input_name :: string
  me_field_key :: string
  me_reason :: string
  me_blocking_level :: gap_blocking_level

record calculator_suite =
  su_results :: "calculator_result list"
  su_trends :: "trend_result list"
  su_scenarios :: "scenario_result list"
  su_missing :: "missing_evidence list"

definition result_ids :: "calculator_suite \<Rightarrow> string list" where
  "result_ids s =
     map cr_result_id (su_results s) @ map tn_result_id (su_trends s) @ map sr_result_id (su_scenarios s)"

text \<open>\<open>InvalidOperation\<close> of a calculator; or a special value, which the model does not hold.\<close>

datatype suite_error = Arithmetic decimal_error | Special_Value

fun as_suite :: "decimal_error + 'a \<Rightarrow> suite_error + 'a" where
  "as_suite (Inl e) = Inl (Arithmetic e)"
| "as_suite (Inr x) = Inr x"

lemma as_suite_Inr [simp]: "as_suite x = Inr y \<longleftrightarrow> x = Inr y"
  by (cases x) auto

definition input_for ::
  "evidence_view \<Rightarrow> string \<Rightarrow> string \<Rightarrow> suite_error + calculator_input \<times> missing_evidence option" where
  "input_for view name key =
     (case find (\<lambda>f. ef_field_key f = key) (ev_facts view) of
        None \<Rightarrow>
          Inr (\<lparr>ci_name = name, ci_value = None, ci_fact_refs = []\<rparr>,
               Some \<lparr>me_input_name = name, me_field_key = key, me_reason = ''no confirmed fact'',
                     me_blocking_level = BLOCKING\<rparr>)
      | Some f \<Rightarrow>
          (let refs = [\<lparr>fr_kind = CONFIRMED_FACT, fr_ref_id = str_uuid (ef_id f)\<rparr>]
           in case decimal_of f of
                None \<Rightarrow>
                  Inr (\<lparr>ci_name = name, ci_value = None, ci_fact_refs = refs\<rparr>,
                       Some \<lparr>me_input_name = name, me_field_key = key,
                             me_reason = ''confirmed fact value is not numeric'', me_blocking_level = BLOCKING\<rparr>)
              | Some (Finite x) \<Rightarrow> Inr (\<lparr>ci_name = name, ci_value = Some x, ci_fact_refs = refs\<rparr>, None)
              | Some Special \<Rightarrow> Inl Special_Value))"

section \<open>The suite\<close>

text \<open>The dictionary of the current inputs; every name that is read has a key.\<close>

definition input_named :: "calculator_input list \<Rightarrow> string \<Rightarrow> calculator_input" where
  "input_named inputs name =
     (case map_of (map (\<lambda>i. (ci_name i, i)) inputs) name of
        Some i \<Rightarrow> i | None \<Rightarrow> \<lparr>ci_name = name, ci_value = None, ci_fact_refs = []\<rparr>)"

definition standard_results ::
  "(string \<Rightarrow> string) \<Rightarrow> (string \<Rightarrow> calculator_input) \<Rightarrow> decimal_error + calculator_result list" where
  "standard_results sha inp =
     rbind (receivable_days sha (inp ''accounts_receivable'') (inp ''revenue'')) (\<lambda>rec_days.
     rbind (inventory_days sha (inp ''inventory'') (inp ''cost_of_goods_sold'')) (\<lambda>inv_days.
     rbind (payable_days sha (inp ''accounts_payable'') (inp ''cost_of_goods_sold'')) (\<lambda>pay_days.
     rbind (cash_conversion_cycle sha rec_days inv_days pay_days) (\<lambda>ccc.
     rbind (working_capital_need sha
              \<lparr>ci_name = ''annual_operating_outlay'', ci_value = ci_value (inp ''cost_of_goods_sold''),
               ci_fact_refs = ci_fact_refs (inp ''cost_of_goods_sold'')\<rparr> ccc) (\<lambda>wc_need.
     rbind (current_ratio sha (inp ''current_assets'') (inp ''current_liabilities'')) (\<lambda>current.
     rbind (quick_ratio sha (inp ''current_assets'') (inp ''inventory'') (inp ''current_liabilities'')) (\<lambda>quick.
     rbind (debt_to_equity sha (inp ''total_debt'') (inp ''total_equity'')) (\<lambda>d2e.
     rbind (debt_to_assets sha (inp ''total_debt'') (inp ''total_assets'')) (\<lambda>d2a.
     rbind (gross_margin sha (inp ''gross_profit'') (inp ''revenue'')) (\<lambda>gross.
     rbind (operating_margin sha (inp ''operating_profit'') (inp ''revenue'')) (\<lambda>operating.
     rbind (net_margin sha (inp ''net_profit'') (inp ''revenue'')) (\<lambda>net.
     rbind (return_on_assets sha (inp ''net_profit'') (inp ''total_assets'')) (\<lambda>roa.
     rbind (return_on_equity sha (inp ''net_profit'') (inp ''total_equity'')) (\<lambda>roe.
     rbind (asset_turnover sha (inp ''revenue'') (inp ''total_assets'')) (\<lambda>turnover.
     rbind (working_capital_gap sha wc_need (inp ''own_working_capital'') (inp ''other_funding_sources'')) (\<lambda>wc_gap.
     Inr [current, quick, d2e, d2a, gross, operating, net, roa, roe, rec_days, inv_days, pay_days,
          turnover, ccc, wc_need, wc_gap]))))))))))))))))"

definition trend_for ::
  "(string \<Rightarrow> string) \<Rightarrow> evidence_view \<Rightarrow> (string \<Rightarrow> calculator_input) \<Rightarrow> string \<times> string \<Rightarrow>
   suite_error + trend_result \<times> missing_evidence list" where
  "trend_for sha view inp = (\<lambda>(metric, prior_key).
     rbind (input_for view (''prior_'' @ metric) prior_key) (\<lambda>(prior, missing).
     rbind (as_suite (trend_analysis sha metric
              [\<lparr>tp_period = ''ky_truoc'', tp_value = ci_value prior, tp_fact_refs = ci_fact_refs prior\<rparr>,
               \<lparr>tp_period = ''ky_hien_tai'', tp_value = ci_value (inp metric),
                tp_fact_refs = ci_fact_refs (inp metric)\<rparr>])) (\<lambda>trend.
     Inr (trend, case missing of None \<Rightarrow> [] | Some m \<Rightarrow> [m\<lparr>me_blocking_level := CLARIFICATION\<rparr>]))))"

definition build_calculator_suite :: "(string \<Rightarrow> string) \<Rightarrow> evidence_view \<Rightarrow> suite_error + calculator_suite" where
  "build_calculator_suite sha view =
     rbind (map_result (\<lambda>(name, key). input_for view name key) canonical_field_keys) (\<lambda>built.
     let inp = input_named (map fst built) in
     rbind (as_suite (standard_results sha inp)) (\<lambda>results.
     rbind (map_result (trend_for sha view inp) prior_period_field_keys) (\<lambda>trends.
     rbind (as_suite (scenario_projection sha downside_scenario_name
              [inp ''revenue'', inp ''net_profit'', inp ''operating_profit'']
              [\<lparr>sa_metric = ''revenue'', sa_relative_change = -20 / 100, sa_absolute_change = 0\<rparr>])) (\<lambda>scenario.
     Inr \<lparr>su_results = results, su_trends = map fst trends, su_scenarios = [scenario],
          su_missing = List.map_filter snd built @ concat (map snd trends)\<rparr>))))"

section \<open>Where the figures come from\<close>

definition numeric_fact :: "evidence_view \<Rightarrow> string \<Rightarrow> decimal option" where
  "numeric_fact view key =
     (case find (\<lambda>f. ef_field_key f = key) (ev_facts view) of
        None \<Rightarrow> None
      | Some f \<Rightarrow> (case decimal_of f of Some (Finite x) \<Rightarrow> Some x | _ \<Rightarrow> None))"

text \<open>A value rests on references, and every reference names a confirmed fact of the view.\<close>

definition supported :: "evidence_view \<Rightarrow> calculator_input \<Rightarrow> bool" where
  "supported view i \<longleftrightarrow>
     (ci_value i \<noteq> None \<longrightarrow> ci_fact_refs i \<noteq> []) \<and>
     list_all (\<lambda>r. fr_kind r = CONFIRMED_FACT \<and> fr_ref_id r \<in> set (fact_ids view)) (ci_fact_refs i)"

definition result_supported :: "evidence_view \<Rightarrow> calculator_result \<Rightarrow> bool" where
  "result_supported view r \<longleftrightarrow>
     list_all (supported view) (cr_inputs r) \<and>
     (not_computable r \<or> list_all (\<lambda>i. ci_value i \<noteq> None) (cr_inputs r))"

lemma input_for_Inr:
  assumes "input_for view name key = Inr (i, m)"
  shows "ci_name i = name" "ci_value i = numeric_fact view key" "supported view i"
    "m = None \<longleftrightarrow> numeric_fact view key \<noteq> None"
    "m = Some x \<Longrightarrow> me_input_name x = name \<and> me_field_key x = key \<and> me_blocking_level x = BLOCKING"
proof -
  have "ci_name i = name \<and> ci_value i = numeric_fact view key \<and> supported view i \<and>
      (m = None \<longleftrightarrow> numeric_fact view key \<noteq> None) \<and>
      (\<forall>x. m = Some x \<longrightarrow> me_input_name x = name \<and> me_field_key x = key \<and> me_blocking_level x = BLOCKING)"
  proof (cases "find (\<lambda>f. ef_field_key f = key) (ev_facts view)")
    case None
    with assms show ?thesis by (auto simp: input_for_def numeric_fact_def supported_def)
  next
    case (Some f)
    then have "f \<in> set (ev_facts view)" by (auto simp: find_Some_iff)
    then have "str_uuid (ef_id f) \<in> set (fact_ids view)" by (simp add: fact_ids_def)
    with assms Some show ?thesis
      by (auto simp: input_for_def numeric_fact_def supported_def Let_def split: option.splits numeral.splits)
  qed
  then show "ci_name i = name" "ci_value i = numeric_fact view key" "supported view i"
    "m = None \<longleftrightarrow> numeric_fact view key \<noteq> None"
    "m = Some x \<Longrightarrow> me_input_name x = name \<and> me_field_key x = key \<and> me_blocking_level x = BLOCKING"
    by auto
qed

lemma result_supported_build:
  "result_supported view (build_result sha c inputs out) \<longleftrightarrow>
     list_all (supported view) inputs \<and>
     ((\<exists>s. out = NotComputable s) \<or> list_all (\<lambda>i. ci_value i \<noteq> None) inputs)"
  by (cases out) (simp_all add: result_supported_def build_result_def not_computable_def)

lemma ratio_supported:
  assumes "supported view n" "supported view d" "ratio sha c n d scale [] = Inr r"
  shows "result_supported view r"
  using assms missing_reason_None [of "[n, d]"]
  by (auto simp: ratio_def Let_def result_simps result_supported_build split: option.splits if_splits)

lemma quick_ratio_supported:
  assumes "supported view a" "supported view b" "supported view l" "quick_ratio sha a b l = Inr r"
  shows "result_supported view r"
proof (cases "ci_value a = None \<or> ci_value b = None")
  case True
  with assms show ?thesis by (auto simp: quick_ratio_def Let_def result_supported_build)
next
  case False
  with assms(1,2) have "supported view (difference_input ''current_assets_less_inventory'' a b)"
    by (auto simp: supported_def difference_input_def)
  from ratio_supported [OF this assms(3)] False assms(4) show ?thesis by (auto simp: quick_ratio_def Let_def)
qed

lemma cycle_supported:
  assumes "result_supported view a" "result_supported view b" "result_supported view c"
    "cash_conversion_cycle sha a b c = Inr r"
  shows "result_supported view r"
  using assms
  by (auto simp: cash_conversion_cycle_def Let_def result_simps result_supported_build split: if_splits)
    (auto simp: result_supported_def)

lemma need_supported:
  assumes "supported view i" "result_supported view ccc" "working_capital_need sha i ccc = Inr r"
  shows "result_supported view r"
  using assms
  by (auto simp: working_capital_need_def Let_def result_simps result_supported_build split: outcome.splits option.splits)
    (auto simp: result_supported_def not_computable_def)

lemma gap_supported:
  assumes "result_supported view need" "supported view a" "supported view b" "working_capital_gap sha need a b = Inr r"
  shows "result_supported view r"
  using assms missing_reason_None [of "[a, b]"]
  by (auto simp: working_capital_gap_def Let_def result_simps result_supported_build split: outcome.splits option.splits)
    (auto simp: result_supported_def not_computable_def)

lemmas ratio_defs = current_ratio_def debt_to_equity_def debt_to_assets_def gross_margin_def operating_margin_def
  net_margin_def return_on_assets_def return_on_equity_def receivable_days_def inventory_days_def
  payable_days_def asset_turnover_def

lemma standard_results_cases:
  assumes "standard_results sha inp = Inr rs"
  obtains rec_days inv_days pay_days ccc wc_need current quick d2e d2a gross operating net roa roe turnover wc_gap where
    "ratio sha ''receivable_days'' (inp ''accounts_receivable'') (inp ''revenue'') days_per_year [] = Inr rec_days"
    "ratio sha ''inventory_days'' (inp ''inventory'') (inp ''cost_of_goods_sold'') days_per_year [] = Inr inv_days"
    "ratio sha ''payable_days'' (inp ''accounts_payable'') (inp ''cost_of_goods_sold'') days_per_year [] = Inr pay_days"
    "cash_conversion_cycle sha rec_days inv_days pay_days = Inr ccc"
    "working_capital_need sha \<lparr>ci_name = ''annual_operating_outlay'',
        ci_value = ci_value (inp ''cost_of_goods_sold''), ci_fact_refs = ci_fact_refs (inp ''cost_of_goods_sold'')\<rparr> ccc
        = Inr wc_need"
    "ratio sha ''current_ratio'' (inp ''current_assets'') (inp ''current_liabilities'') 1 [] = Inr current"
    "quick_ratio sha (inp ''current_assets'') (inp ''inventory'') (inp ''current_liabilities'') = Inr quick"
    "ratio sha ''debt_to_equity'' (inp ''total_debt'') (inp ''total_equity'') 1 [] = Inr d2e"
    "ratio sha ''debt_to_assets'' (inp ''total_debt'') (inp ''total_assets'') 1 [] = Inr d2a"
    "ratio sha ''gross_margin'' (inp ''gross_profit'') (inp ''revenue'') 1 [] = Inr gross"
    "ratio sha ''operating_margin'' (inp ''operating_profit'') (inp ''revenue'') 1 [] = Inr operating"
    "ratio sha ''net_margin'' (inp ''net_profit'') (inp ''revenue'') 1 [] = Inr net"
    "ratio sha ''return_on_assets'' (inp ''net_profit'') (inp ''total_assets'') 1 [] = Inr roa"
    "ratio sha ''return_on_equity'' (inp ''net_profit'') (inp ''total_equity'') 1 [] = Inr roe"
    "ratio sha ''asset_turnover'' (inp ''revenue'') (inp ''total_assets'') 1 [] = Inr turnover"
    "working_capital_gap sha wc_need (inp ''own_working_capital'') (inp ''other_funding_sources'') = Inr wc_gap"
    "rs = [current, quick, d2e, d2a, gross, operating, net, roa, roe, rec_days, inv_days, pay_days,
        turnover, ccc, wc_need, wc_gap]"
  using assms that unfolding standard_results_def ratio_defs rbind_Inr sum.inject by metis

lemma standard_results_supported:
  assumes "\<And>name. supported view (inp name)" "standard_results sha inp = Inr rs"
  shows "list_all (result_supported view) rs"
  using assms(2)
proof (cases rule: standard_results_cases)
  case (1 rec_days inv_days pay_days ccc wc_need current quick d2e d2a gross operating net roa roe turnover wc_gap)
  note r = ratio_supported [OF assms(1) assms(1)]
  have days: "result_supported view rec_days" "result_supported view inv_days" "result_supported view pay_days"
    using 1(1-3) r by blast+
  have c: "result_supported view ccc" using cycle_supported [OF days 1(4)] .
  have "supported view \<lparr>ci_name = ''annual_operating_outlay'',
        ci_value = ci_value (inp ''cost_of_goods_sold''), ci_fact_refs = ci_fact_refs (inp ''cost_of_goods_sold'')\<rparr>"
    using assms(1) [of "''cost_of_goods_sold''"] by (simp add: supported_def)
  then have n: "result_supported view wc_need" using need_supported [OF _ c 1(5)] by blast
  have "result_supported view quick" "result_supported view wc_gap"
    using quick_ratio_supported [OF assms(1) assms(1) assms(1) 1(7)] gap_supported [OF n assms(1) assms(1) 1(16)] .
  with days c n r [OF 1(6)] r [OF 1(8)] r [OF 1(9)] r [OF 1(10)] r [OF 1(11)] r [OF 1(12)]
    r [OF 1(13)] r [OF 1(14)] r [OF 1(15)]
  show ?thesis by (simp add: 1(17))
qed

lemma input_named_supported:
  assumes "\<And>i. i \<in> set inputs \<Longrightarrow> supported view i"
  shows "supported view (input_named inputs name)"
  using assms
  by (auto simp: input_named_def supported_def split: option.split dest!: map_of_SomeD)

lemma suite_inputs:
  assumes "build_calculator_suite sha view = Inr s"
  obtains built results trends scenario where
    "map_result (\<lambda>(name, key). input_for view name key) canonical_field_keys = Inr built"
    "standard_results sha (input_named (map fst built)) = Inr results"
    "map_result (trend_for sha view (input_named (map fst built))) prior_period_field_keys = Inr trends"
    "scenario_projection sha downside_scenario_name
       [input_named (map fst built) ''revenue'', input_named (map fst built) ''net_profit'',
        input_named (map fst built) ''operating_profit'']
       [\<lparr>sa_metric = ''revenue'', sa_relative_change = -20 / 100, sa_absolute_change = 0\<rparr>] = Inr scenario"
    "s = \<lparr>su_results = results, su_trends = map fst trends, su_scenarios = [scenario],
          su_missing = List.map_filter snd built @ concat (map snd trends)\<rparr>"
  using assms that unfolding build_calculator_suite_def Let_def rbind_Inr as_suite_Inr sum.inject by metis

lemma built_inputs:
  assumes "map_result (\<lambda>(name, key). input_for view name key) keys = Inr built"
  shows "i \<in> set (map fst built) \<Longrightarrow> supported view i"
    and "(name, key) \<in> set keys \<Longrightarrow> \<exists>i m. (i, m) \<in> set built \<and> input_for view name key = Inr (i, m)"
proof -
  show "supported view i" if "i \<in> set (map fst built)"
    using that map_result_Inr_set [OF assms] input_for_Inr(3) by fastforce
  show "\<exists>i m. (i, m) \<in> set built \<and> input_for view name key = Inr (i, m)" if "(name, key) \<in> set keys"
    using that assms [unfolded map_result_Inr_iff]
    by (auto simp: list_all2_conv_all_nth in_set_conv_nth) (metis nth_mem prod.collapse split_conv)
qed

lemma built_value:
  assumes "map_result (\<lambda>(name, key). input_for view name key) keys = Inr built" "map_of keys name = Some key"
  shows "ci_value (input_named (map fst built) name) = numeric_fact view key"
  using assms [unfolded map_result_Inr_iff]
proof (induction keys built rule: list_all2_induct)
  case (Cons k ks b bs)
  obtain n key' where k: "k = (n, key')" by fastforce
  obtain i m where b: "b = (i, m)" by fastforce
  with Cons.hyps(1) k have "ci_name i = n" "ci_value i = numeric_fact view key'" using input_for_Inr by auto
  with Cons.IH Cons.prems k b show ?case by (auto simp: input_named_def split: if_splits)
qed simp

definition reported_missing :: "calculator_suite \<Rightarrow> string \<Rightarrow> bool" where
  "reported_missing s key \<longleftrightarrow>
     list_ex (\<lambda>m. me_field_key m = key \<and> me_blocking_level m = BLOCKING) (su_missing s)"

lemma map_filter_set: "set (List.map_filter f xs) = {y. \<exists>x\<in>set xs. f x = Some y}"
  by (auto simp: List.map_filter_def) force

lemma trend_missing:
  assumes "trend_for sha view inp p = Inr (t, ms)" "m \<in> set ms"
  shows "me_blocking_level m = CLARIFICATION"
  using assms by (auto simp: trend_for_def result_simps split: prod.splits option.splits)

lemma reported_missing_iff:
  assumes "build_calculator_suite sha view = Inr s" "(name, key) \<in> set canonical_field_keys"
  shows "reported_missing s key \<longleftrightarrow> numeric_fact view key = None"
proof -
  obtain built results trends scenario where b:
    "map_result (\<lambda>(name, key). input_for view name key) canonical_field_keys = Inr built"
    "map_result (trend_for sha view (input_named (map fst built))) prior_period_field_keys = Inr trends"
    "su_missing s = List.map_filter snd built @ concat (map snd trends)"
    by (rule suite_inputs [OF assms(1)]) simp
  have trend: "me_blocking_level m \<noteq> BLOCKING" if m: "m \<in> set (concat (map snd trends))" for m
  proof -
    from m obtain t where t: "t \<in> set trends" "m \<in> set (snd t)" by auto
    obtain p where "trend_for sha view (input_named (map fst built)) p = Inr t"
      using map_result_Inr_set [OF b(2) t(1)] by blast
    then show ?thesis using trend_missing [of sha view "input_named (map fst built)" p "fst t" "snd t"] t(2) by simp
  qed
  show ?thesis
  proof
    assume "reported_missing s key"
    then obtain m where m: "m \<in> set (List.map_filter snd built)" "me_field_key m = key"
      using trend b(3) by (auto simp: reported_missing_def list_ex_iff)
    then obtain x where x: "x \<in> set built" "snd x = Some m" by (auto simp: map_filter_set)
    obtain p where p: "(\<lambda>(name, key). input_for view name key) p = Inr x"
      using map_result_Inr_set [OF b(1) x(1)] by blast
    obtain n k where "p = (n, k)" by fastforce
    with p x(2) have "input_for view n k = Inr (fst x, Some m)" by (cases x) simp
    with input_for_Inr(4,5) [OF this] m(2) show "numeric_fact view key = None" by auto
  next
    assume none: "numeric_fact view key = None"
    obtain i m where im: "(i, m) \<in> set built" "input_for view name key = Inr (i, m)"
      using built_inputs(2) [OF b(1) assms(2)] by blast
    then obtain x where x: "m = Some x" using input_for_Inr(4) [OF im(2)] none by auto
    with im input_for_Inr(5) [OF im(2) x] show "reported_missing s key"
      unfolding reported_missing_def list_ex_iff b(3) set_append map_filter_set by fastforce
  qed
qed

lemma suite_results_supported:
  assumes "build_calculator_suite sha view = Inr s"
  shows "list_all (result_supported view) (su_results s)"
proof -
  obtain built where "map_result (\<lambda>(name, key). input_for view name key) canonical_field_keys = Inr built"
    "standard_results sha (input_named (map fst built)) = Inr (su_results s)"
    by (rule suite_inputs [OF assms]) simp
  from standard_results_supported [OF input_named_supported [OF built_inputs(1) [OF this(1)]] this(2)] show ?thesis .
qed

section \<open>Trends and scenarios rest on the same numbers\<close>

text \<open>
  The number that the view holds under the name of an input: a field of the standard set, or
  one of the two inputs that the suite derives from such fields.
\<close>

definition value_named :: "evidence_view \<Rightarrow> string \<Rightarrow> decimal option" where
  "value_named view name =
     (if name = ''annual_operating_outlay'' then numeric_fact view ''financials.cost_of_goods_sold''
      else if name = ''current_assets_less_inventory''
      then (case (numeric_fact view ''financials.current_assets'', numeric_fact view ''financials.inventory'') of
              (Some x, Some y) \<Rightarrow> Some (dec_sub x y) | _ \<Rightarrow> None)
      else Option.bind (map_of canonical_field_keys name) (numeric_fact view))"

definition traced :: "evidence_view \<Rightarrow> calculator_input \<Rightarrow> bool" where
  "traced view i \<longleftrightarrow> supported view i \<and> ci_value i = value_named view (ci_name i)"

text \<open>
  A step of a trend from the numbers of the two periods: without both of them neither of its
  figures is a number, and the growth on a base of zero is none.
\<close>

definition step_honest :: "decimal option \<Rightarrow> decimal option \<Rightarrow> trend_step \<Rightarrow> bool" where
  "step_honest before now step \<longleftrightarrow>
     (case (before, now) of
        (Some p, Some c) \<Rightarrow>
          (\<exists>d. quantize6 (dec_sub c p) = Inr d \<and> ts_delta step = Computed d) \<and>
          (if p = 0 then (\<exists>reason. ts_growth_rate step = NotComputable reason)
           else (\<exists>g. quantize6 (dec_div (dec_sub c p) (dec_abs p)) = Inr g \<and> ts_growth_rate step = Computed g))
      | _ \<Rightarrow> (\<exists>reason. ts_delta step = NotComputable reason \<and> ts_growth_rate step = NotComputable reason))"

definition trend_honest :: "evidence_view \<Rightarrow> string \<times> string \<Rightarrow> trend_result \<Rightarrow> bool" where
  "trend_honest view p t \<longleftrightarrow>
     (case p of (metric, prior_key) \<Rightarrow>
        tn_metric t = metric \<and> map tp_value (tn_points t) = [numeric_fact view prior_key, value_named view metric] \<and>
        list_all (\<lambda>x. supported view \<lparr>ci_name = tp_period x, ci_value = tp_value x, ci_fact_refs = tp_fact_refs x\<rparr>) (tn_points t) \<and>
        (\<exists>step. tn_steps t = [step] \<and> step_honest (numeric_fact view prior_key) (value_named view metric) step))"

text \<open>The downside takes a fifth of the revenue and leaves the two profits as they are.\<close>

definition metric_honest :: "evidence_view \<Rightarrow> string \<Rightarrow> scenario_metric_outcome \<Rightarrow> bool" where
  "metric_honest view name out \<longleftrightarrow> sm_metric out = name \<and>
     (case value_named view name of
        None \<Rightarrow> (\<exists>reason. sm_base out = NotComputable reason \<and> sm_adjusted out = NotComputable reason)
      | Some x \<Rightarrow> (\<exists>b. quantize6 x = Inr b \<and> sm_base out = Computed b \<and>
          (if name = ''revenue''
           then (\<exists>v. quantize6 (dec_add (dec_mul x (dec_add 1 (- 1 / 5))) 0) = Inr v \<and> sm_adjusted out = Computed v)
           else sm_adjusted out = Computed b)))"

definition scenario_honest :: "evidence_view \<Rightarrow> scenario_result \<Rightarrow> bool" where
  "scenario_honest view r \<longleftrightarrow> sr_scenario_name r = downside_scenario_name \<and> list_all (traced view) (sr_inputs r) \<and>
     list_all2 (metric_honest view) [''revenue'', ''net_profit'', ''operating_profit''] (sr_metrics r)"

lemma input_named_name: "ci_name (input_named inputs name) = name"
  by (auto simp: input_named_def split: option.split dest!: map_of_SomeD)

lemma value_named_field:
  "map_of canonical_field_keys name = Some key \<Longrightarrow> value_named view name = numeric_fact view key"
  by (auto simp: value_named_def canonical_field_keys_def split: if_splits)

text \<open>The current inputs of the suite, as the lemmas below use them.\<close>

definition inputs_traced :: "evidence_view \<Rightarrow> (string \<Rightarrow> calculator_input) \<Rightarrow> bool" where
  "inputs_traced view inp \<longleftrightarrow>
     (\<forall>name. ci_name (inp name) = name \<and> supported view (inp name)) \<and>
     list_all (\<lambda>(name, key). ci_value (inp name) = numeric_fact view key) canonical_field_keys"

lemma built_traced:
  assumes "map_result (\<lambda>(name, key). input_for view name key) canonical_field_keys = Inr built"
  shows "inputs_traced view (input_named (map fst built))"
proof -
  have "map_of canonical_field_keys name = Some key" if "(name, key) \<in> set canonical_field_keys" for name key
  proof -
    have "distinct (map fst canonical_field_keys)" by (simp add: canonical_field_keys_def)
    with that show ?thesis by (simp add: map_of_eq_Some_iff)
  qed
  moreover have "supported view (input_named (map fst built) name)" for name
    by (rule input_named_supported) (rule built_inputs(1) [OF assms])
  ultimately show ?thesis
    using built_value [OF assms] by (auto simp: inputs_traced_def list_all_iff input_named_name)
qed

lemma inputs_tracedD:
  assumes "inputs_traced view inp"
  shows "ci_name (inp name) = name" "supported view (inp name)"
    "map_of canonical_field_keys name = Some key \<Longrightarrow> ci_value (inp name) = value_named view name"
  using assms value_named_field [of name key view] by (auto simp: inputs_traced_def list_all_iff dest!: map_of_SomeD)

lemma field_traced:
  "inputs_traced view inp \<Longrightarrow> map_of canonical_field_keys name \<noteq> None \<Longrightarrow> traced view (inp name)"
  using inputs_tracedD [of view inp name] by (auto simp: traced_def)

lemma ratio_inputs: "ratio sha c n d scale [] = Inr r \<Longrightarrow> cr_inputs r = [n, d]"
  by (auto simp: ratio_def Let_def result_simps build_result_def split: option.splits if_splits)

lemma cycle_inputs:
  "cash_conversion_cycle sha a b c = Inr r \<Longrightarrow> cr_inputs r = cr_inputs a @ cr_inputs b @ cr_inputs c"
  by (auto simp: cash_conversion_cycle_def Let_def result_simps build_result_def split: if_splits)

lemma need_inputs: "working_capital_need sha i ccc = Inr r \<Longrightarrow> cr_inputs r = i # cr_inputs ccc"
  by (auto simp: working_capital_need_def Let_def result_simps build_result_def split: outcome.splits option.splits)

lemma gap_inputs: "working_capital_gap sha need a b = Inr r \<Longrightarrow> cr_inputs r = cr_inputs need @ [a, b]"
  by (auto simp: working_capital_gap_def Let_def result_simps build_result_def split: outcome.splits option.splits)

lemma quick_inputs:
  "quick_ratio sha a i l = Inr r \<Longrightarrow>
     cr_inputs r = [a, i, l] \<or> cr_inputs r = [difference_input ''current_assets_less_inventory'' a i, l]"
  by (auto simp: quick_ratio_def Let_def build_result_def dest!: ratio_inputs split: if_splits)

lemma difference_traced:
  assumes "inputs_traced view inp"
  shows "traced view (difference_input ''current_assets_less_inventory'' (inp ''current_assets'') (inp ''inventory''))"
proof -
  have "ci_value (inp ''current_assets'') = numeric_fact view ''financials.current_assets''"
    "ci_value (inp ''inventory'') = numeric_fact view ''financials.inventory''"
    using assms by (simp_all add: inputs_traced_def canonical_field_keys_def)
  with inputs_tracedD(2) [OF assms, of "''current_assets''"] inputs_tracedD(2) [OF assms, of "''inventory''"] show ?thesis
    by (auto simp: traced_def difference_input_def value_named_def supported_def split: option.splits)
qed

lemma outlay_traced:
  assumes "inputs_traced view inp"
  shows "traced view \<lparr>ci_name = ''annual_operating_outlay'', ci_value = ci_value (inp ''cost_of_goods_sold''),
    ci_fact_refs = ci_fact_refs (inp ''cost_of_goods_sold'')\<rparr>"
proof -
  have "ci_value (inp ''cost_of_goods_sold'') = numeric_fact view ''financials.cost_of_goods_sold''"
    using assms by (simp add: inputs_traced_def canonical_field_keys_def)
  with inputs_tracedD(2) [OF assms, of "''cost_of_goods_sold''"] show ?thesis
    by (auto simp: traced_def value_named_def supported_def)
qed

lemma standard_results_traced:
  assumes "inputs_traced view inp" "standard_results sha inp = Inr rs"
  shows "list_all (\<lambda>r. list_all (traced view) (cr_inputs r)) rs"
  using assms(2)
proof (cases rule: standard_results_cases)
  case (1 rec_days inv_days pay_days ccc wc_need current quick d2e d2a gross operating net roa roe turnover wc_gap)
  note in_ratio = 1(1-3,6,8-15) [THEN ratio_inputs]
  note in_other = cycle_inputs [OF 1(4)] need_inputs [OF 1(5)] gap_inputs [OF 1(16)]
  have field: "traced view (inp name)" if "name \<in> fst ` set canonical_field_keys" for name
    using field_traced [OF assms(1)] that by (auto simp: map_of_eq_None_iff)
  have fields: "list_all (\<lambda>name. traced view (inp name)) (map fst canonical_field_keys)"
    using field by (simp add: list_all_iff)
  have "list_all (traced view) (cr_inputs quick)"
    using quick_inputs [OF 1(7)] fields difference_traced [OF assms(1)] by (auto simp: canonical_field_keys_def)
  with fields outlay_traced [OF assms(1)] show ?thesis
    unfolding 1(17) by (simp add: in_ratio in_other canonical_field_keys_def)
qed

lemma trend_step_honest: "trend_step_of x y = Inr step \<Longrightarrow> step_honest (tp_value x) (tp_value y) step"
  by (auto simp: step_honest_def trend_step_of_def Let_def result_simps split: option.splits if_splits)

lemma trend_for_honest:
  assumes "inputs_traced view inp" "p \<in> set prior_period_field_keys" "trend_for sha view inp p = Inr (t, ms)"
  shows "trend_honest view p t \<and> (ms = [] \<longleftrightarrow> numeric_fact view (snd p) \<noteq> None) \<and>
    list_all (\<lambda>m. me_field_key m = snd p \<and> me_blocking_level m = CLARIFICATION) ms"
proof -
  obtain metric key where p: "p = (metric, key)" by fastforce
  from assms(3) [unfolded p trend_for_def split_conv] obtain prior missing where
    prior: "input_for view (''prior_'' @ metric) key = Inr (prior, missing)" and
    trend: "trend_analysis sha metric
              [\<lparr>tp_period = ''ky_truoc'', tp_value = ci_value prior, tp_fact_refs = ci_fact_refs prior\<rparr>,
               \<lparr>tp_period = ''ky_hien_tai'', tp_value = ci_value (inp metric), tp_fact_refs = ci_fact_refs (inp metric)\<rparr>] = Inr t" and
    ms: "ms = (case missing of None \<Rightarrow> [] | Some m \<Rightarrow> [m\<lparr>me_blocking_level := CLARIFICATION\<rparr>])"
    by (auto simp: rbind_Inr split: prod.splits)
  note from_view = input_for_Inr [OF prior]
  have "map_of canonical_field_keys metric \<noteq> None"
    using assms(2) p by (auto simp: prior_period_field_keys_def canonical_field_keys_def)
  then have current: "ci_value (inp metric) = value_named view metric" "supported view (inp metric)"
    using field_traced [OF assms(1)] inputs_tracedD(1) [OF assms(1)] by (auto simp: traced_def)
  let ?before = "\<lparr>tp_period = ''ky_truoc'', tp_value = ci_value prior, tp_fact_refs = ci_fact_refs prior\<rparr>"
  let ?now = "\<lparr>tp_period = ''ky_hien_tai'', tp_value = ci_value (inp metric), tp_fact_refs = ci_fact_refs (inp metric)\<rparr>"
  from trend obtain step where step: "trend_step_of ?before ?now = Inr step"
    and t: "tn_metric t = metric" "tn_points t = [?before, ?now]" "tn_steps t = [step]"
    by (auto simp: trend_analysis_def Let_def rbind_Inr)
  have refs: "supported view \<lparr>ci_name = n, ci_value = ci_value i, ci_fact_refs = ci_fact_refs i\<rparr>" if "supported view i" for n i
    using that by (simp add: supported_def)
  have "trend_honest view p t"
    using trend_step_honest [OF step] from_view(2) current refs [OF from_view(3), of "''ky_truoc''"]
      refs [OF current(2), of "''ky_hien_tai''"] by (simp add: p trend_honest_def t)
  moreover have "(ms = [] \<longleftrightarrow> numeric_fact view (snd p) \<noteq> None)"
    using from_view(4) by (cases missing) (simp_all add: ms p)
  moreover have "list_all (\<lambda>m. me_field_key m = snd p \<and> me_blocking_level m = CLARIFICATION) ms"
  proof (cases missing)
    case (Some x)
    from from_view(5) [OF Some] show ?thesis by (simp add: ms Some p)
  qed (simp add: ms)
  ultimately show ?thesis by blast
qed

lemma adjusted_metric_honest:
  assumes "inputs_traced view inp" "map_of canonical_field_keys name \<noteq> None"
    and "adjusted_metric (py_dict [(''revenue'', \<lparr>sa_metric = ''revenue'', sa_relative_change = -20 / 100, sa_absolute_change = 0\<rparr>)])
      (inp name) = Inr out"
  shows "metric_honest view name out"
proof -
  have "ci_value (inp name) = value_named view name" "ci_name (inp name) = name"
    using field_traced [OF assms(1,2)] inputs_tracedD(1) [OF assms(1)] by (auto simp: traced_def)
  with assms(3) show ?thesis
    by (auto simp: adjusted_metric_def metric_honest_def Let_def result_simps py_dict_def split: option.splits if_splits)
qed

lemma scenario_projection_honest:
  assumes "inputs_traced view inp"
    and "scenario_projection sha downside_scenario_name [inp ''revenue'', inp ''net_profit'', inp ''operating_profit'']
      [\<lparr>sa_metric = ''revenue'', sa_relative_change = -20 / 100, sa_absolute_change = 0\<rparr>] = Inr r"
  shows "scenario_honest view r"
proof -
  let ?adjust = "py_dict [(''revenue'', \<lparr>sa_metric = ''revenue'', sa_relative_change = -20 / 100, sa_absolute_change = 0\<rparr>)]"
  have keys: "map_of canonical_field_keys ''revenue'' \<noteq> None" "map_of canonical_field_keys ''net_profit'' \<noteq> None"
    "map_of canonical_field_keys ''operating_profit'' \<noteq> None" by (simp_all add: canonical_field_keys_def)
  note name = inputs_tracedD(1) [OF assms(1)]
  from assms(2) name obtain x y z where outs: "adjusted_metric ?adjust (inp ''revenue'') = Inr x"
      "adjusted_metric ?adjust (inp ''net_profit'') = Inr y" "adjusted_metric ?adjust (inp ''operating_profit'') = Inr z"
    and r: "sr_scenario_name r = downside_scenario_name" "sr_metrics r = [x, y, z]"
      "sr_inputs r = [inp ''revenue'', inp ''net_profit'', inp ''operating_profit'']"
    by (auto simp: scenario_projection_def Let_def result_simps from_keys_def)
  with adjusted_metric_honest [OF assms(1)] keys field_traced [OF assms(1)] show ?thesis
    by (simp add: scenario_honest_def)
qed

text \<open>What the suite reports beyond the standard set: the prior periods, without blocking.\<close>

definition reported_prior :: "calculator_suite \<Rightarrow> string \<Rightarrow> bool" where
  "reported_prior s key \<longleftrightarrow>
     list_ex (\<lambda>m. me_field_key m = key \<and> me_blocking_level m = CLARIFICATION) (su_missing s)"

definition report_known :: "missing_evidence \<Rightarrow> bool" where
  "report_known m \<longleftrightarrow>
     (case me_blocking_level m of
        BLOCKING \<Rightarrow> me_field_key m \<in> snd ` set canonical_field_keys
      | CLARIFICATION \<Rightarrow> me_field_key m \<in> snd ` set prior_period_field_keys
      | _ \<Rightarrow> False)"

lemma trends_report:
  assumes "inputs_traced view inp" "map_result (trend_for sha view inp) prior_period_field_keys = Inr trends"
  shows "list_all2 (trend_honest view) prior_period_field_keys (map fst trends)"
    and "p \<in> set prior_period_field_keys \<Longrightarrow>
      list_ex (\<lambda>m. me_field_key m = snd p \<and> me_blocking_level m = CLARIFICATION) (concat (map snd trends)) \<longleftrightarrow>
      numeric_fact view (snd p) = None"
    and "m \<in> set (concat (map snd trends)) \<Longrightarrow> me_field_key m \<in> snd ` set prior_period_field_keys \<and> me_blocking_level m = CLARIFICATION"
proof -
  let ?told = "\<lambda>p x. trend_honest view p (fst x) \<and> (snd x = [] \<longleftrightarrow> numeric_fact view (snd p) \<noteq> None) \<and>
    list_all (\<lambda>m. me_field_key m = snd p \<and> me_blocking_level m = CLARIFICATION) (snd x)"
  have told: "?told p x" if "p \<in> set prior_period_field_keys" "trend_for sha view inp p = Inr x" for p x
    using trend_for_honest [OF assms(1) that(1), of sha "fst x" "snd x"] that(2) by simp
  obtain p1 p2 where keys: "prior_period_field_keys = [p1, p2]" "snd p1 \<noteq> snd p2"
    by (simp add: prior_period_field_keys_def)
  obtain x1 x2 where x: "trends = [x1, x2]" "trend_for sha view inp p1 = Inr x1" "trend_for sha view inp p2 = Inr x2"
    using assms(2) [unfolded map_result_Inr_iff keys(1)] by (auto simp: list_all2_Cons1)
  note both = told [OF _ x(2)] told [OF _ x(3)]
  from both show "list_all2 (trend_honest view) prior_period_field_keys (map fst trends)" by (simp add: keys(1) x(1))
  show "list_ex (\<lambda>m. me_field_key m = snd p \<and> me_blocking_level m = CLARIFICATION) (concat (map snd trends)) \<longleftrightarrow>
      numeric_fact view (snd p) = None" if "p \<in> set prior_period_field_keys"
    using that both keys(2) by (cases "snd x1"; cases "snd x2") (auto simp: keys(1) x(1) list_all_iff list_ex_iff)
  show "me_field_key m \<in> snd ` set prior_period_field_keys \<and> me_blocking_level m = CLARIFICATION"
    if "m \<in> set (concat (map snd trends))"
    using that both by (auto simp: keys(1) x(1) list_all_iff)
qed

lemma reports_known:
  assumes "build_calculator_suite sha view = Inr s"
  shows "list_all report_known (su_missing s) \<and>
    list_all (\<lambda>(name, key). reported_prior s key \<longleftrightarrow> numeric_fact view key = None) prior_period_field_keys \<and>
    list_all2 (trend_honest view) prior_period_field_keys (su_trends s) \<and>
    list_all (\<lambda>r. list_all (traced view) (cr_inputs r)) (su_results s) \<and>
    (\<exists>r. su_scenarios s = [r] \<and> scenario_honest view r)"
proof -
  obtain built results trends scenario where b:
    "map_result (\<lambda>(name, key). input_for view name key) canonical_field_keys = Inr built"
    "standard_results sha (input_named (map fst built)) = Inr results"
    "map_result (trend_for sha view (input_named (map fst built))) prior_period_field_keys = Inr trends"
    "scenario_projection sha downside_scenario_name
       [input_named (map fst built) ''revenue'', input_named (map fst built) ''net_profit'',
        input_named (map fst built) ''operating_profit'']
       [\<lparr>sa_metric = ''revenue'', sa_relative_change = -20 / 100, sa_absolute_change = 0\<rparr>] = Inr scenario"
    "s = \<lparr>su_results = results, su_trends = map fst trends, su_scenarios = [scenario],
          su_missing = List.map_filter snd built @ concat (map snd trends)\<rparr>"
    by (rule suite_inputs [OF assms])
  note traced = built_traced [OF b(1)]
  note trends = trends_report [OF traced b(3)]
  have standard: "me_field_key m \<in> snd ` set canonical_field_keys \<and> me_blocking_level m = BLOCKING"
    if m: "m \<in> set (List.map_filter snd built)" for m
  proof -
    from m obtain x where x: "x \<in> set built" "snd x = Some m" by (auto simp: map_filter_set)
    obtain p where p: "p \<in> set canonical_field_keys" "(\<lambda>(name, key). input_for view name key) p = Inr x"
      using map_result_Inr_set [OF b(1) x(1)] by blast
    obtain n k where nk: "p = (n, k)" by fastforce
    with p(2) x(2) have "input_for view n k = Inr (fst x, Some m)" by (cases x) simp
    from input_for_Inr(5) [OF this refl] p(1) nk show ?thesis by force
  qed
  have "reported_prior s (snd p) \<longleftrightarrow> numeric_fact view (snd p) = None" if "p \<in> set prior_period_field_keys" for p
    using trends(2) [OF that] standard unfolding reported_prior_def list_ex_iff b(5) by fastforce
  moreover have "list_all report_known (su_missing s)"
  proof -
    have "report_known m" if "m \<in> set (List.map_filter snd built)" for m
      using standard [OF that] by (simp add: report_known_def)
    moreover have "report_known m" if "m \<in> set (concat (map snd trends))" for m
      using trends(3) [OF that] by (simp add: report_known_def)
    ultimately show ?thesis by (auto simp: list_all_iff b(5))
  qed
  ultimately show ?thesis
    using trends(1) standard_results_traced [OF traced b(2)] scenario_projection_honest [OF traced b(4)]
    by (auto simp: list_all_iff b(5))
qed

section \<open>The property\<close>

text \<open>
  C34: The suite never guesses: every figure that is a number has all its inputs, each of
  them is the number that the view holds under its name (or the derived input of such numbers)
  and rests on confirmed facts of the view only; the two trends and the downside scenario are
  computed from the same numbers, and where one of these is missing neither figure of the step or of the
  metric is a number.  An input of the standard set is reported as blocking missing evidence
  exactly when the view holds no number for it (no fact under its key, or a first fact that
  is not numeric), an input of the prior period exactly then as a clarification, and
  nothing else is reported.
\<close>

theorem suite_never_guesses:
  assumes "build_calculator_suite sha view = Inr s"
  shows "list_all (result_supported view) (su_results s) \<and>
    list_all (\<lambda>r. list_all (traced view) (cr_inputs r)) (su_results s) \<and>
    list_all2 (trend_honest view) prior_period_field_keys (su_trends s) \<and>
    (\<exists>r. su_scenarios s = [r] \<and> scenario_honest view r) \<and>
    list_all (\<lambda>(name, key). reported_missing s key \<longleftrightarrow> numeric_fact view key = None) canonical_field_keys \<and>
    list_all (\<lambda>(name, key). reported_prior s key \<longleftrightarrow> numeric_fact view key = None) prior_period_field_keys \<and>
    list_all report_known (su_missing s)"
proof -
  have "list_all (\<lambda>(name, key). reported_missing s key \<longleftrightarrow> numeric_fact view key = None) canonical_field_keys"
    using reported_missing_iff [OF assms] by (auto simp: list_all_iff)
  with suite_results_supported [OF assms] reports_known [OF assms] show ?thesis by blast
qed

lemma oversized_quantize: "10 ^ 22 \<le> \<bar>x\<bar> \<Longrightarrow> quantize6 x = Inl InvalidOperation"
proof -
  assume x: "10 ^ 22 \<le> \<bar>x\<bar>"
  have "10 ^ 28 \<le> \<bar>half_up (x * 10 ^ 6)\<bar>"
  proof (cases "0 \<le> x")
    case True
    with x have "rat_of_int (10 ^ 28) \<le> x * 10 ^ 6" by simp
    from half_up_mono [OF this] show ?thesis unfolding half_up_of_int by linarith
  next
    case False
    with x have "x * 10 ^ 6 \<le> rat_of_int (- (10 ^ 28))" by simp
    from half_up_mono [OF this] show ?thesis unfolding half_up_of_int by linarith
  qed
  then show ?thesis by (simp add: quantize6_def quantize_half_up_def context_digits_def Let_def)
qed

text \<open>
  A confirmed fact of ten to the twenty-second or more in one of the three fields of
  the downside scenario makes the suite raise, so the task of the maker ends in the
  worker's handling of an unexpected exception on every delivery: the projection quantizes
  the raw figure to six decimals within 28 digits.
\<close>

theorem oversized_fact_stops_suite:
  assumes "key \<in> {''financials.revenue'', ''financials.net_profit'', ''financials.operating_profit''}"
    and "numeric_fact view key = Some x" and "10 ^ 22 \<le> \<bar>x\<bar>"
  shows "\<exists>e. build_calculator_suite sha view = Inl e"
proof (rule ccontr)
  assume "\<not> ?thesis"
  then obtain s where "build_calculator_suite sha view = Inr s"
    by (cases "build_calculator_suite sha view") auto
  then obtain built scenario where b:
    "map_result (\<lambda>(name, key). input_for view name key) canonical_field_keys = Inr built"
    "scenario_projection sha downside_scenario_name
       [input_named (map fst built) ''revenue'', input_named (map fst built) ''net_profit'',
        input_named (map fst built) ''operating_profit'']
       [\<lparr>sa_metric = ''revenue'', sa_relative_change = -20 / 100, sa_absolute_change = 0\<rparr>] = Inr scenario"
    by (rule suite_inputs)
  have raises: "\<exists>e. adjusted_metric a i = Inl e" if "ci_value i = Some x" for a i
    using that oversized_quantize [OF assms(3)] by (simp add: adjusted_metric_def)
  have "\<exists>name\<in>{''revenue'', ''net_profit'', ''operating_profit''}. map_of canonical_field_keys name = Some key"
    using assms(1) by (auto simp: canonical_field_keys_def)
  then obtain name where member: "name \<in> {''revenue'', ''net_profit'', ''operating_profit''}"
    and key: "map_of canonical_field_keys name = Some key" by (elim bexE)
  have name: "name \<in> {''revenue'', ''net_profit'', ''operating_profit''}"
    "ci_value (input_named (map fst built) name) = Some x"
    using member built_value [OF b(1) key] assms(2) by simp_all
  let ?base = "[input_named (map fst built) ''revenue'', input_named (map fst built) ''net_profit'',
        input_named (map fst built) ''operating_profit'']"
  have "\<not> (\<exists>ys. map_result (adjusted_metric a) ?base = Inr ys)" for a
    using raises [OF name(2), of a] name(1) by (auto simp: result_simps)
  with b(2) show False unfolding scenario_projection_def Let_def rbind_Inr by blast
qed

section \<open>Samples\<close>

definition sample_fact :: "uuid \<Rightarrow> string \<Rightarrow> string \<Rightarrow> evidence_fact" where
  "sample_fact i key v = \<lparr>ef_id = i, ef_field_key = key, ef_value = JStr v, ef_document_version_id = 1\<rparr>"

definition balance_view :: evidence_view where
  "balance_view =
     \<lparr>ev_case_id = 7, ev_case_version = 1, ev_built_at = 100,
      ev_facts = [sample_fact 3 ''financials.current_assets'' ''30'',
                  sample_fact 4 ''financials.current_liabilities'' ''20'']\<rparr>"

lemma sample_numerals:
  "decimal_of_text ''30'' = Some (Finite 30)" "decimal_of_text ''20'' = Some (Finite 20)"
  "decimal_of_text ''1e22'' = Some (Finite (10 ^ 22))"
  by code_simp+

lemma sample_quotient: "quantize6 (dec_div (dec_mul 30 1) 20) = Inr (3 / 2)"
proof -
  have "in_context (rat_of_int 30) = of_int 30" "in_context (of_int 15 * pow10 (-1)) = of_int 15 * pow10 (-1)"
    using in_context_exact [of 30 0] in_context_exact [of 15 "-1"] by (simp_all add: pow10_def context_digits_def)
  then have "dec_div (dec_mul 30 1) 20 = 3 / 2" by (simp add: dec_mul_def dec_div_def pow10_def)
  moreover have "quantize6 (3 / 2) = Inr (3 / 2)"
    using half_up_of_int [of 1500000] by (simp add: quantize6_def quantize_Inr context_digits_def)
  ultimately show ?thesis by (simp only:)
qed

lemma ratio_absent:
  "ci_value n = None \<or> ci_value d = None \<Longrightarrow>
     ratio sha c n d scale [] =
       Inr (build_result sha c [n, d] (NotComputable (the (missing_reason [n, d]))))"
  using missing_reason_None [of "[n, d]"] by (auto simp: ratio_def Let_def)

lemma not_computable_build [simp]: "not_computable (build_result sha c inputs (NotComputable reason))"
  by (simp add: not_computable_def)

lemma balance_inputs:
  "\<exists>built. map_result (\<lambda>(name, key). input_for balance_view name key) canonical_field_keys = Inr built"
  by (rule map_result_succeeds)
    (auto simp: input_for_def balance_view_def sample_fact_def decimal_of_def sample_numerals canonical_field_keys_def)

lemma balance_facts:
  "numeric_fact balance_view ''financials.current_assets'' = Some 30"
  "numeric_fact balance_view ''financials.current_liabilities'' = Some 20"
  "key \<notin> {''financials.current_assets'', ''financials.current_liabilities''} \<Longrightarrow> numeric_fact balance_view key = None"
  by (auto simp: numeric_fact_def balance_view_def sample_fact_def decimal_of_def sample_numerals)

lemma balance_suite:
  "\<exists>s. build_calculator_suite (\<lambda>_. []) balance_view = Inr s \<and>
     cr_outcome (hd (su_results s)) = Computed (3 / 2) \<and> su_results s \<noteq> []"
proof -
  obtain built where built: "map_result (\<lambda>(name, key). input_for balance_view name key) canonical_field_keys = Inr built"
    using balance_inputs by blast
  define inp where "inp = input_named (map fst built)"
  note val = built_value [OF built, folded inp_def]
  have none: "ci_value (inp ''inventory'') = None" "ci_value (inp ''total_debt'') = None" "ci_value (inp ''total_equity'') = None"
    "ci_value (inp ''total_assets'') = None" "ci_value (inp ''revenue'') = None" "ci_value (inp ''gross_profit'') = None"
    "ci_value (inp ''operating_profit'') = None" "ci_value (inp ''net_profit'') = None"
    "ci_value (inp ''accounts_receivable'') = None" "ci_value (inp ''accounts_payable'') = None"
    "ci_value (inp ''cost_of_goods_sold'') = None"
    by (subst val, simp add: canonical_field_keys_def, simp add: balance_facts(3))+
  have some: "ci_value (inp ''current_assets'') = Some 30" "ci_value (inp ''current_liabilities'') = Some 20"
    by (subst val, simp add: canonical_field_keys_def, simp add: balance_facts)+
  have "ratio sha c (inp ''current_assets'') (inp ''current_liabilities'') 1 [] =
      Inr (build_result sha c [inp ''current_assets'', inp ''current_liabilities''] (Computed (3 / 2)))" for sha c
    using some sample_quotient missing_reason_None [of "[inp ''current_assets'', inp ''current_liabilities'']"]
    by (simp add: ratio_def Let_def)
  then have "\<exists>rs. standard_results (\<lambda>_. []) inp = Inr rs \<and> cr_outcome (hd rs) = Computed (3 / 2) \<and> rs \<noteq> []"
    using none
    by (simp add: standard_results_def ratio_defs ratio_absent quick_ratio_def cash_conversion_cycle_def
        working_capital_need_def working_capital_gap_def Let_def)
  moreover have "\<exists>t. trend_for (\<lambda>_. []) balance_view inp p = Inr t" if "p \<in> set prior_period_field_keys" for p
    using that
    by (auto simp: trend_for_def trend_analysis_def trend_step_of_def input_for_def prior_period_field_keys_def
        balance_view_def sample_fact_def Let_def none)
  then obtain ts where "map_result (trend_for (\<lambda>_. []) balance_view inp) prior_period_field_keys = Inr ts"
    using map_result_succeeds by metis
  moreover have "\<exists>r. scenario_projection (\<lambda>_. []) downside_scenario_name [inp ''revenue'', inp ''net_profit'', inp ''operating_profit'']
       [\<lparr>sa_metric = ''revenue'', sa_relative_change = -20 / 100, sa_absolute_change = 0\<rparr>] = Inr r"
    by (simp add: scenario_projection_def adjusted_metric_def Let_def none)
  ultimately show ?thesis
    by (auto simp: build_calculator_suite_def built Let_def simp flip: inp_def)
qed

theorem suite_never_guesses_witness:
  "\<exists>s r sc t. build_calculator_suite (\<lambda>_. []) balance_view = Inr s \<and> r \<in> set (su_results s) \<and>
     cr_outcome r = Computed (3 / 2) \<and> result_supported balance_view r \<and>
     reported_missing s ''financials.revenue'' \<and> reported_prior s ''financials.prior.revenue'' \<and>
     hd (su_trends s) = t \<and> map tp_value (tn_points t) = [None, None] \<and>
     su_scenarios s = [sc] \<and> metric_honest balance_view ''revenue'' (hd (sr_metrics sc))"
proof -
  obtain s where s: "build_calculator_suite (\<lambda>_. []) balance_view = Inr s"
    "cr_outcome (hd (su_results s)) = Computed (3 / 2)" "su_results s \<noteq> []" using balance_suite by blast
  note claim = suite_never_guesses [OF s(1)]
  have none: "numeric_fact balance_view ''financials.revenue'' = None" "numeric_fact balance_view ''financials.prior.revenue'' = None"
    by (simp_all add: numeric_fact_def balance_view_def sample_fact_def)
  then have "value_named balance_view ''revenue'' = None" by (simp add: value_named_field canonical_field_keys_def)
  moreover from claim have "trend_honest balance_view (''revenue'', ''financials.prior.revenue'') (hd (su_trends s))"
    by (auto simp: prior_period_field_keys_def list_all2_Cons1)
  ultimately have points: "map tp_value (tn_points (hd (su_trends s))) = [None, None]" using none by (simp add: trend_honest_def)
  from claim obtain sc where sc: "su_scenarios s = [sc]" "metric_honest balance_view ''revenue'' (hd (sr_metrics sc))"
    by (auto simp: scenario_honest_def list_all2_Cons1)
  have "(''revenue'', ''financials.revenue'') \<in> set canonical_field_keys"
    "(''revenue'', ''financials.prior.revenue'') \<in> set prior_period_field_keys"
    by (simp_all add: canonical_field_keys_def prior_period_field_keys_def)
  with claim none have "reported_missing s ''financials.revenue''" "reported_prior s ''financials.prior.revenue''"
    by (auto simp: list_all_iff)
  with claim s hd_in_set [OF s(3)] points sc show ?thesis
    by (intro exI [of _ s] exI [of _ "hd (su_results s)"] exI [of _ sc] exI [of _ "hd (su_trends s)"]) (auto simp: list_all_iff)
qed

theorem oversized_fact_stops_suite_witness:
  "\<exists>e. build_calculator_suite (\<lambda>_. []) (balance_view\<lparr>ev_facts := [sample_fact 3 ''financials.revenue'' ''1e22'']\<rparr>) = Inl e"
  by (rule oversized_fact_stops_suite [of "''financials.revenue''" _ "10 ^ 22"])
    (simp_all add: numeric_fact_def sample_fact_def decimal_of_def sample_numerals)

end
