(* ===== verification/Underwriting_Maker.thy ===== *)
theory Underwriting_Maker
  imports Risk_Analysis Assessment_Reading Underwriting_Suite
begin

text \<open>
  The maker (\<open>application/underwriting/maker.py\<close>): the closed response schema, the gaps the
  missing calculator inputs raise, the builder that validates a payload into an
  underwriting assessment, and the inference runner.  The inference gateway is an
  argument: it answers a schema with a failure or with a payload, a model and an endpoint
  identifier.
\<close>

section \<open>The response schema\<close>

definition uw_citation_schema :: "string list \<Rightarrow> string list \<Rightarrow> json_schema" where
  "uw_citation_schema facts results =
     One_Of
      ((if facts \<noteq> [] then
          [Obj_Schema [''kind'', ''confirmed_fact_id'']
             [(''kind'', Const_Schema ''CONFIRMED_FACT''),
              (''confirmed_fact_id'', Str_Schema 0 None (Some facts))]] else []) @
       (if results \<noteq> [] then
          [Obj_Schema [''kind'', ''result_id'']
             [(''kind'', Const_Schema ''CALCULATOR_RESULT''),
              (''result_id'', Str_Schema 0 None (Some results))]] else []))"

definition risk_item_schema :: "json_schema \<Rightarrow> json_schema" where
  "risk_item_schema citation = Obj_Schema [''risk_id'', ''description_vi'', ''citations'', ''confidence'']
     [(''risk_id'', text_schema 1 100), (''description_vi'', text_schema 1 4000),
      (''citations'', Arr_Schema 1 20 (Some citation)), (''confidence'', confidence_schema),
      (''uncertainty_vi'', text_schema 0 2000)]"

definition repayment_schema :: "json_schema \<Rightarrow> json_schema" where
  "repayment_schema citation = Obj_Schema [''findings'', ''downside_scenarios'']
     [(''findings'', Arr_Schema 1 20 (Some (finding_schema citation))),
      (''downside_scenarios'', Arr_Schema 0 10 (Some (finding_schema citation)))]"

definition structure_schema :: "json_schema \<Rightarrow> string list \<Rightarrow> json_schema" where
  "structure_schema citation results = Obj_Schema [''instrument_vi'', ''findings'']
     [(''instrument_vi'', text_schema 1 500),
      (''proposed_amount_result_id'', Str_Or_Null (if results \<noteq> [] then Some results else None)),
      (''tenor_months'', Int_Or_Null 1 600),
      (''findings'', Arr_Schema 1 20 (Some (finding_schema citation)))]"

definition maker_response_schema :: "string list \<Rightarrow> string list \<Rightarrow> json_schema" where
  "maker_response_schema facts results =
     (let citation = uw_citation_schema facts results;
          part = section_schema citation
      in Obj_Schema
        [''business'', ''financial'', ''cash_flow'', ''repayment_source'', ''proposed_structure'',
         ''risks'', ''mitigants'', ''assumptions'', ''evidence_gaps'']
        [(''business'', part), (''financial'', part), (''cash_flow'', part),
         (''repayment_source'', repayment_schema citation),
         (''proposed_structure'', structure_schema citation results),
         (''risks'', Arr_Schema 0 20 (Some (risk_item_schema citation))),
         (''mitigants'', Arr_Schema 0 20 (Some (risk_item_schema citation))),
         (''assumptions'', Arr_Schema 0 20 (Some (assumption_schema citation))),
         (''evidence_gaps'', Arr_Schema 0 30 (Some evidence_gap_schema))])"

section \<open>Deterministic gaps\<close>

definition missing_text :: "missing_evidence \<Rightarrow> string" where
  "missing_text m =
     ''Thieu du kien da xac nhan cho truong '' @ [CHR 0x27] @ me_field_key m @ [CHR 0x27] @ '' ('' @ me_reason m @ '').''"

definition missing_gap :: "missing_evidence \<Rightarrow> evidence_gap_item" where
  "missing_gap m =
     \<lparr>eg_missing_information = missing_text m,
      eg_why_needed = ''Can cho tinh toan xac dinh '' @ [CHR 0x27] @ me_input_name m @ [CHR 0x27] @
        '' trong phan tich tin dung.'',
      eg_blocking_level = me_blocking_level m,
      eg_suggested_evidence = [''Bao cao tai chinh da xac nhan boi can bo phu trach.'']\<rparr>"

text \<open>One item per text, in the order of their first occurrence.\<close>

fun missing_gaps_from :: "string list \<Rightarrow> missing_evidence list \<Rightarrow> build_error + evidence_gap_item list" where
  "missing_gaps_from seen [] = Inr []"
| "missing_gaps_from seen (m # ms) =
     (if missing_text m \<in> set seen then missing_gaps_from seen ms
      else rbind (validated gap_item_ok (missing_gap m)) (\<lambda>g.
           rbind (missing_gaps_from (missing_text m # seen) ms) (\<lambda>gs. Inr (g # gs))))"

definition deterministic_gap_items :: "calculator_suite \<Rightarrow> build_error + evidence_gap_item list" where
  "deterministic_gap_items s = missing_gaps_from [] (su_missing s)"

section \<open>The builder\<close>

text \<open>A calculator citation is not compared with the suite here; the assessment's validator does it.\<close>

definition uw_citation_from :: "string list \<Rightarrow> json \<Rightarrow> build_error + uw_citation" where
  "uw_citation_from known j =
     rbind (get_method j) (\<lambda>item.
     let kind = get_or item ''kind'' JNull
     in if kind = JStr ''CONFIRMED_FACT''
        then (let fact_id = text_of item ''confirmed_fact_id''
              in if fact_id \<notin> set known then Inl Output_Invalid
                 else rbind (parse_uuid fact_id) (\<lambda>u. Inr (Uw_Fact u)))
        else if kind = JStr ''CALCULATOR_RESULT''
        then validated uw_citation_ok (Uw_Result (text_of item ''result_id''))
        else Inl Output_Invalid)"

abbreviation uw_finding_from :: "string list \<Rightarrow> (string \<times> json) list \<Rightarrow> build_error + uw_finding" where
  "uw_finding_from known \<equiv> finding_from (uw_citation_from known) uw_citation_ok"

abbreviation uw_findings_from :: "string list \<Rightarrow> (string \<times> json) list \<Rightarrow> string \<Rightarrow> build_error + uw_finding list" where
  "uw_findings_from known \<equiv> findings_from (uw_citation_from known) uw_citation_ok"

text \<open>\<open>AssessmentSection(findings=...)\<close>.\<close>

definition uw_section :: "string list \<Rightarrow> (string \<times> json) list \<Rightarrow> string \<Rightarrow> build_error + uw_finding list" where
  "uw_section known payload key =
     rbind (uw_findings_from known payload key) (validated (section_ok uw_citation_ok))"

text \<open>\<open>RiskItem\<close> and \<open>MitigantItem\<close>.\<close>

definition risk_item_from :: "string list \<Rightarrow> (string \<times> json) list \<Rightarrow> build_error + risk_item" where
  "risk_item_from known item =
     rbind (rbind (listed item ''citations'') (map_result (uw_citation_from known))) (\<lambda>citations.
     rbind (enum_of confidence_levels (text_of item ''confidence'')) (\<lambda>confidence.
     validated risk_item_ok
       \<lparr>ri_risk_id = text_of item ''risk_id'', ri_description = text_of item ''description_vi'',
        ri_citations = citations, ri_confidence = confidence,
        ri_uncertainty = text_of item ''uncertainty_vi''\<rparr>))"

definition mapping_field :: "(string \<times> json) list \<Rightarrow> string \<Rightarrow> build_error + (string \<times> json) list" where
  "mapping_field payload key =
     (case as_mapping (get_or payload key JNull) of None \<Rightarrow> Inl Output_Invalid | Some part \<Rightarrow> Inr part)"

definition computed_figures :: "calculator_suite \<Rightarrow> (string \<times> decimal) list" where
  "computed_figures s =
     List.map_filter
       (\<lambda>r. case cr_outcome r of Computed v \<Rightarrow> Some (cr_result_id r, v) | NotComputable _ \<Rightarrow> None) (su_results s)"

definition resolve_proposed_amount :: "(string \<times> json) list \<Rightarrow> calculator_suite \<Rightarrow> build_error + decimal option" where
  "resolve_proposed_amount raw s =
     (case get_or raw ''proposed_amount_result_id'' JNull of
        JNull \<Rightarrow> Inr None
      | result_id \<Rightarrow>
          (case py_dict (computed_figures s) (py_str result_id) of
             None \<Rightarrow> Inl Output_Invalid
           | Some v \<Rightarrow> Inr (Some v)))"

text \<open>\<open>int(tenor) if isinstance(tenor, int) else None\<close>: a boolean is an integer, a float is not.\<close>

fun tenor_of :: "json \<Rightarrow> int option" where
  "tenor_of (JInt i) = Some i"
| "tenor_of (JBool b) = Some (if b then 1 else 0)"
| "tenor_of _ = None"

definition structure_from ::
  "string list \<Rightarrow> calculator_suite \<Rightarrow> (string \<times> json) list \<Rightarrow> build_error + proposed_structure" where
  "structure_from known s payload =
     rbind (mapping_field payload ''proposed_structure'') (\<lambda>raw.
     rbind (resolve_proposed_amount raw s) (\<lambda>amount.
     rbind (uw_findings_from known payload ''proposed_structure'') (\<lambda>findings.
     validated structure_ok
       \<lparr>ps_instrument = text_of raw ''instrument_vi'', ps_amount = amount,
        ps_tenor_months = tenor_of (get_or raw ''tenor_months'' JNull), ps_findings = findings\<rparr>)))"

record maker_run =
  mk_task_id :: uuid
  mk_execution_id :: uuid
  mk_correlation_id :: string

definition maker_provenance ::
  "evidence_view \<Rightarrow> maker_run \<Rightarrow> string \<Rightarrow> string \<Rightarrow> datetime \<Rightarrow> provenance" where
  "maker_provenance view run model_id endpoint_id now =
     \<lparr>pv_case_id = ev_case_id view, pv_case_version = ev_case_version view,
      pv_execution_id = mk_execution_id run, pv_task_id = mk_task_id run,
      pv_prompt_version = ''underwriting-prompt-v1'', pv_model_id = model_id, pv_endpoint_id = endpoint_id,
      pv_view_built_at = ev_built_at view, pv_created_at = now\<rparr>"

definition merge_gaps :: "evidence_gap_item list \<Rightarrow> evidence_gap_item list \<Rightarrow> evidence_gap_item list" where
  "merge_gaps deterministic declared =
     deterministic @
     filter (\<lambda>g. eg_missing_information g \<notin> eg_missing_information ` set deterministic) declared"

definition build_assessment ::
  "uuid \<Rightarrow> datetime \<Rightarrow> evidence_view \<Rightarrow> calculator_suite \<Rightarrow> maker_run \<Rightarrow> string \<Rightarrow> string \<Rightarrow>
   (string \<times> json) list \<Rightarrow> build_error + underwriting_assessment" where
  "build_assessment new_id now view s run model_id endpoint_id payload =
     rejecting
      (let known = fact_ids view
       in rbind (mapping_field payload ''repayment_source'') (\<lambda>repayment_raw.
          rbind (items_iterated (uw_finding_from known) repayment_raw ''downside_scenarios'') (\<lambda>downside.
          rbind (structure_from known s payload) (\<lambda>structure.
          rbind (items_iterated (risk_item_from known) payload ''risks'') (\<lambda>risks.
          rbind (items_iterated (risk_item_from known) payload ''mitigants'') (\<lambda>mitigants.
          rbind (items_iterated (assumption_from (uw_citation_from known) uw_citation_ok) payload ''assumptions'')
            (\<lambda>assumptions.
          rbind (items_iterated gap_item_from payload ''evidence_gaps'') (\<lambda>declared.
          rbind (deterministic_gap_items s) (\<lambda>deterministic.
          rbind (validated provenance_ok (maker_provenance view run model_id endpoint_id now)) (\<lambda>prov.
          rbind (uw_section known payload ''business'') (\<lambda>business.
          rbind (uw_section known payload ''financial'') (\<lambda>financial.
          rbind (uw_section known payload ''cash_flow'') (\<lambda>cash_flow.
          rbind (uw_section known payload ''repayment_source'') (\<lambda>repayment.
          validated underwriting_ok
            \<lparr>ua_id = new_id, ua_provenance = prov, ua_business = business, ua_financial = financial,
             ua_cash_flow = cash_flow, ua_repayment = repayment, ua_downside = downside,
             ua_structure = structure, ua_risks = risks, ua_mitigants = mitigants,
             ua_assumptions = assumptions, ua_gaps = merge_gaps deterministic declared,
             ua_results = su_results s, ua_trends = su_trends s, ua_scenarios = su_scenarios s\<rparr>))))))))))))))"

definition infer_assessment ::
  "(json_schema \<Rightarrow> 'g + json \<times> string \<times> string) \<Rightarrow> uuid \<Rightarrow> datetime \<Rightarrow> evidence_view \<Rightarrow> calculator_suite \<Rightarrow>
   maker_run \<Rightarrow> 'g inference_error + underwriting_assessment" where
  "infer_assessment reason new_id now view s run =
     (case reason (maker_response_schema (fact_ids view) (result_ids s)) of
        Inl g \<Rightarrow> Inl (Endpoint_Failed g)
      | Inr (payload, model_id, endpoint_id) \<Rightarrow>
          (case as_mapping payload of
             None \<Rightarrow> Inl (Rejected Output_Invalid)
           | Some kvs \<Rightarrow> rejected_output (build_assessment new_id now view s run model_id endpoint_id kvs)))"

definition maker_gap_records :: "underwriting_assessment \<Rightarrow> gap_record list" where
  "maker_gap_records a = map gap_record_of (ua_gaps a)"

section \<open>What an accepted assessment rests on\<close>

text \<open>A fact of the view or a result of the suite; the maker cannot cite a document region.\<close>

definition uw_grounded :: "evidence_view \<Rightarrow> calculator_suite \<Rightarrow> uw_citation \<Rightarrow> bool" where
  "uw_grounded view s c \<longleftrightarrow>
     (case c of Uw_Fact f \<Rightarrow> str_uuid f \<in> set (fact_ids view)
      | Uw_Result r \<Rightarrow> r \<in> set (result_ids s)
      | Uw_Region d r \<Rightarrow> False)"

definition bounded_ids :: "evidence_view \<Rightarrow> bool" where
  "bounded_ids view \<longleftrightarrow> list_all (\<lambda>f. ef_id f < uuid_bound) (ev_facts view)"

lemma bounded_fact_ids: "bounded_ids view \<Longrightarrow> uuid_texts (fact_ids view)"
  using uuid_texts_map [of "map ef_id (ev_facts view)"]
  by (simp add: bounded_ids_def fact_ids_def list_all_iff comp_def)

lemma uw_citation_from_Inr:
  assumes "uw_citation_from (fact_ids view) j = Inr c" "bounded_ids view"
  shows "uw_citation_ok c \<and> (\<forall>d r. c \<noteq> Uw_Region d r) \<and>
    (\<forall>f. c = Uw_Fact f \<longrightarrow> str_uuid f \<in> set (fact_ids view))"
  using assms uuid_texts_parse [OF bounded_fact_ids [OF assms(2)]]
  by (auto simp: uw_citation_from_def Let_def rbind_Inr split: if_splits)

lemma risk_item_from_read: "risk_item_from known item = Inr r \<Longrightarrow> read_by (uw_citation_from known) (ri_citations r)"
  by (auto simp: risk_item_from_def rbind_Inr dest: read_by_map_result)

lemma computed_figures_iff:
  "(i, v) \<in> set (computed_figures s) \<longleftrightarrow>
     (\<exists>r\<in>set (su_results s). cr_result_id r = i \<and> cr_outcome r = Computed v)"
proof -
  have "(case cr_outcome r of Computed v \<Rightarrow> Some (cr_result_id r, v) | NotComputable _ \<Rightarrow> None) = Some (i, v) \<longleftrightarrow>
      cr_result_id r = i \<and> cr_outcome r = Computed v" for r :: calculator_result
    by (cases "cr_outcome r") auto
  then show ?thesis by (simp add: computed_figures_def map_filter_set)
qed

lemma resolve_proposed_amount_Inr:
  "resolve_proposed_amount raw s = Inr (Some v) \<Longrightarrow> \<exists>r\<in>set (su_results s). cr_outcome r = Computed v"
  using computed_figures_iff [of _ v s]
  by (fastforce simp: resolve_proposed_amount_def dest!: py_dict_SomeD split: json.splits option.splits)

lemma structure_from_Inr:
  assumes "structure_from known s payload = Inr p"
  shows "read_by (uw_citation_from known) (concat (map fd_citations (ps_findings p)))"
    and "ps_amount p = Some v \<Longrightarrow> \<exists>r\<in>set (su_results s). cr_outcome r = Computed v"
proof -
  from assms obtain raw where raw: "resolve_proposed_amount raw s = Inr (ps_amount p)"
    "uw_findings_from known payload ''proposed_structure'' = Inr (ps_findings p)"
    by (auto simp: structure_from_def rbind_Inr)
  show "read_by (uw_citation_from known) (concat (map fd_citations (ps_findings p)))"
    using findings_from_read [OF raw(2)] .
  show "\<exists>r\<in>set (su_results s). cr_outcome r = Computed v" if "ps_amount p = Some v"
    using resolve_proposed_amount_Inr [of raw s v] raw(1) that by simp
qed

lemma missing_gaps_cover:
  "missing_gaps_from seen ms = Inr gs \<Longrightarrow> m \<in> set ms \<Longrightarrow>
     missing_text m \<in> set seen \<or> (\<exists>g\<in>set gs. eg_missing_information g = missing_text m)"
proof (induction seen ms arbitrary: gs rule: missing_gaps_from.induct)
  case (2 seen k ms)
  show ?case
  proof (cases "missing_text k \<in> set seen")
    case True
    with 2 show ?thesis by auto
  next
    case False
    with 2(3) obtain gs' where gs: "missing_gaps_from (missing_text k # seen) ms = Inr gs'" "gs = missing_gap k # gs'"
      by (auto simp: rbind_Inr)
    have "eg_missing_information (missing_gap k) = missing_text k" by (simp add: missing_gap_def)
    with 2(2) [OF False gs(1)] 2(4) gs(2) show ?thesis by auto
  qed
qed simp

lemma build_assessment_Inr:
  assumes "build_assessment new_id now view s run model_id endpoint_id payload = Inr a" "bounded_ids view"
  shows "underwriting_ok a" "list_all (uw_grounded view s) (uw_material_citations a)"
    "list_all (\<lambda>c. \<exists>j. uw_citation_from (fact_ids view) j = Inr c) (concat (map ai_basis_citations (ua_assumptions a)))"
    "m \<in> set (su_missing s) \<Longrightarrow> \<exists>g\<in>set (ua_gaps a). eg_missing_information g = missing_text m"
    "ps_amount (ua_structure a) = Some v \<Longrightarrow> \<exists>r\<in>set (su_results s). cr_outcome r = Computed v"
    "ua_results a = su_results s" "known_result_ids a = result_ids s"
proof -
  let ?read = "read_by (uw_citation_from (fact_ids view))"
  from assms(1) obtain raw downside struct risks mitigants assumptions declared deterministic prov b f c r where parts:
    "items_iterated (uw_finding_from (fact_ids view)) raw ''downside_scenarios'' = Inr downside"
    "structure_from (fact_ids view) s payload = Inr struct"
    "items_iterated (risk_item_from (fact_ids view)) payload ''risks'' = Inr risks"
    "items_iterated (risk_item_from (fact_ids view)) payload ''mitigants'' = Inr mitigants"
    "items_iterated (assumption_from (uw_citation_from (fact_ids view)) uw_citation_ok) payload ''assumptions'' = Inr assumptions"
    "deterministic_gap_items s = Inr deterministic"
    "uw_findings_from (fact_ids view) payload ''business'' = Inr b"
    "uw_findings_from (fact_ids view) payload ''financial'' = Inr f"
    "uw_findings_from (fact_ids view) payload ''cash_flow'' = Inr c"
    "uw_findings_from (fact_ids view) payload ''repayment_source'' = Inr r"
    and ok: "underwriting_ok a"
    and a: "a = \<lparr>ua_id = new_id, ua_provenance = prov, ua_business = b, ua_financial = f,
             ua_cash_flow = c, ua_repayment = r, ua_downside = downside,
             ua_structure = struct, ua_risks = risks, ua_mitigants = mitigants,
             ua_assumptions = assumptions, ua_gaps = merge_gaps deterministic declared,
             ua_results = su_results s, ua_trends = su_trends s, ua_scenarios = su_scenarios s\<rparr>"
    unfolding build_assessment_def uw_section_def Let_def rejecting_Inr rbind_Inr validated_Inr by blast
  show "underwriting_ok a" by (rule ok)
  show "ua_results a = su_results s" "known_result_ids a = result_ids s"
    by (simp_all add: a known_result_ids_def result_ids_def)
  have "?read (concat (map fd_citations (uw_findings a)))"
    using findings_from_read [OF parts(7)] findings_from_read [OF parts(8)] findings_from_read [OF parts(9)]
      findings_from_read [OF parts(10)] items_iterated_read [OF parts(1), of _ fd_citations] finding_from_read
      structure_from_Inr(1) [OF parts(2)]
    by (simp add: uw_findings_def a) blast
  moreover have "?read (concat (map ri_citations (ua_risks a)))" "?read (concat (map ri_citations (ua_mitigants a)))"
    using items_iterated_read [OF parts(3), of _ ri_citations] items_iterated_read [OF parts(4), of _ ri_citations]
      risk_item_from_read by (simp_all add: a) blast+
  ultimately have "?read (uw_material_citations a)" by (simp add: uw_material_citations_def)
  from read_by_all [OF this, of "\<lambda>c. (\<forall>d r. c \<noteq> Uw_Region d r) \<and> (\<forall>f. c = Uw_Fact f \<longrightarrow> str_uuid f \<in> set (fact_ids view))"]
  have "list_all (\<lambda>c. (\<forall>d r. c \<noteq> Uw_Region d r) \<and> (\<forall>f. c = Uw_Fact f \<longrightarrow> str_uuid f \<in> set (fact_ids view)))
      (uw_material_citations a)"
    using uw_citation_from_Inr [OF _ assms(2)] by blast
  moreover have "list_all (result_resolves (result_ids s)) (uw_material_citations a)"
    using ok \<open>known_result_ids a = result_ids s\<close>
    by (simp add: underwriting_ok_def citations_resolve_and_mitigants_bind_def)
  ultimately show "list_all (uw_grounded view s) (uw_material_citations a)"
    by (auto simp: list_all_iff uw_grounded_def result_resolves_def split: uw_citation.splits)
  show "list_all (\<lambda>c. \<exists>j. uw_citation_from (fact_ids view) j = Inr c) (concat (map ai_basis_citations (ua_assumptions a)))"
    using items_iterated_read [OF parts(5), of _ ai_basis_citations] assumption_from_read
    unfolding read_by_def a by simp blast
  show "\<exists>g\<in>set (ua_gaps a). eg_missing_information g = missing_text m" if "m \<in> set (su_missing s)"
    using missing_gaps_cover [OF parts(6) [unfolded deterministic_gap_items_def] that] by (auto simp: a merge_gaps_def)
  show "\<exists>r\<in>set (su_results s). cr_outcome r = Computed v" if "ps_amount (ua_structure a) = Some v"
    using structure_from_Inr(2) [OF parts(2)] that by (simp add: a)
qed

end
