(* ===== verification/Maker_Store.thy ===== *)
theory Maker_Store
  imports Case_Store Underwriting_Maker
begin

text \<open>
  The tables behind \<open>PostgresUnderwritingRepository\<close>
  (\<open>infrastructure/postgres/underwriting.py\<close>) and its operations.  A table lists its rows in
  the order of \<open>created_at\<close>.  The columns of an assessment row that the statement copies
  from the provenance are read from the assessment; the JSON column holds the
  assessment itself.  The check constraints of the tables that a value of the agent can
  violate are checks that abort the transaction; the foreign keys to the claimed task and
  its case hold while the task exists.
\<close>

section \<open>Tables\<close>

record fact_row =
  cf_id :: uuid
  cf_case_id :: uuid
  cf_case_version :: int
  cf_field_key :: string
  cf_value :: json
  cf_document_version_id :: uuid
  cf_stale_at :: "datetime option"

text \<open>The key \<open>(case_id, case_version, task_id)\<close> of an agent's output.\<close>

type_synonym task_key3 = "uuid \<times> int \<times> uuid"

record agent_gap =
  gg_id :: uuid
  gg_key :: task_key3
  gg_status :: string
  gg_record :: gap_record
  gg_created_by :: string

record agent_handoff =
  gh_id :: uuid
  gh_key :: task_key3
  gh_state :: string
  gh_data :: "(string \<times> json) list"
  gh_created_by :: string
  gh_stale_at :: "datetime option"

record agent_audit =
  ga_case_id :: uuid
  ga_case_version :: int
  ga_event_type :: string
  ga_actor_type :: string
  ga_artifact_type :: string
  ga_artifact_id :: uuid
  ga_execution_id :: uuid

record maker_store =
  um_cases :: "(uuid \<times> int) list"
  um_facts :: "fact_row list"
  um_assessments :: "(underwriting_assessment \<times> datetime) list"
  um_gaps :: "agent_gap list"
  um_handoffs :: "agent_handoff list"
  um_audit :: "agent_audit list"
  um_clock :: datetime
  um_uuids :: "nat \<Rightarrow> uuid"
  um_drawn :: nat

datatype agent_store_error = CheckViolation | UniqueKeyViolation | RowDisappeared | NoHandoffRow

definition maker_actor :: string where
  "maker_actor = ''AGENT:CREDIT_UNDERWRITING''"

definition risk_review_state :: string where
  "risk_review_state = ''READY_FOR_RISK_REVIEW''"

definition assessment_key :: "underwriting_assessment \<Rightarrow> task_key3" where
  "assessment_key a =
     (pv_case_id (ua_provenance a), pv_case_version (ua_provenance a), pv_task_id (ua_provenance a))"

section \<open>Reads\<close>

definition fact_of_row :: "fact_row \<Rightarrow> evidence_fact" where
  "fact_of_row r =
     \<lparr>ef_id = cf_id r, ef_field_key = cf_field_key r, ef_value = cf_value r,
      ef_document_version_id = cf_document_version_id r\<rparr>"

definition load_maker_view :: "uuid \<Rightarrow> maker_store \<Rightarrow> evidence_view option" where
  "load_maker_view c st =
     (case map_of (um_cases st) c of
        None \<Rightarrow> None
      | Some v \<Rightarrow> Some
          \<lparr>ev_case_id = c, ev_case_version = v, ev_built_at = um_clock st,
           ev_facts = map fact_of_row
             (filter (\<lambda>r. cf_case_id r = c \<and> cf_case_version r = v \<and> cf_stale_at r = None) (um_facts st))\<rparr>)"

text \<open>\<open>order by created_at desc limit 1\<close>\<close>

definition latest :: "'a list \<Rightarrow> 'a option" where
  "latest xs = (if xs = [] then None else Some (last xs))"

definition find_maker_handoff :: "task_key3 \<Rightarrow> maker_store \<Rightarrow> agent_handoff option" where
  "find_maker_handoff k st =
     latest (filter (\<lambda>h. gh_key h = k \<and> gh_state h = risk_review_state \<and> gh_stale_at h = None) (um_handoffs st))"

definition find_maker_gap_ids :: "task_key3 \<Rightarrow> maker_store \<Rightarrow> uuid list" where
  "find_maker_gap_ids k st =
     map gg_id (filter (\<lambda>g. gg_key g = k \<and> gg_created_by g = maker_actor) (um_gaps st))"

record persisted_output =
  po_assessment_id :: uuid
  po_handoff_id :: uuid
  po_gap_ids :: "uuid list"
  po_handoff_state :: string
  po_created :: bool

definition find_assessment :: "task_key3 \<Rightarrow> maker_store \<Rightarrow> underwriting_assessment option" where
  "find_assessment k st = find (\<lambda>a. assessment_key a = k) (map fst (um_assessments st))"

definition find_persisted_maker :: "task_key3 \<Rightarrow> maker_store \<Rightarrow> persisted_output option" where
  "find_persisted_maker k st =
     (case find_assessment k st of
        None \<Rightarrow> None
      | Some a \<Rightarrow>
          (case find_maker_handoff k st of
             None \<Rightarrow> None
           | Some h \<Rightarrow> Some
               \<lparr>po_assessment_id = ua_id a, po_handoff_id = gh_id h, po_gap_ids = find_maker_gap_ids k st,
                po_handoff_state = gh_state h, po_created = False\<rparr>))"

record latest_assessment =
  lm_assessment :: underwriting_assessment
  lm_created_at :: datetime
  lm_handoff :: "agent_handoff option"

definition load_latest_assessment :: "uuid \<Rightarrow> maker_store \<Rightarrow> latest_assessment option" where
  "load_latest_assessment c st =
     map_option (\<lambda>(a, created).
         \<lparr>lm_assessment = a, lm_created_at = created, lm_handoff = find_maker_handoff (assessment_key a) st\<rparr>)
       (latest (filter (\<lambda>(a, _). pv_case_id (ua_provenance a) = c) (um_assessments st)))"

section \<open>Writes\<close>

definition gap_row_ok :: "gap_record \<Rightarrow> bool" where
  "gap_row_ok g \<longleftrightarrow> not_blank (gr_issue g) \<and> not_blank (gr_missing_information g)"

definition assessment_row_ok :: "underwriting_assessment \<Rightarrow> bool" where
  "assessment_row_ok a \<longleftrightarrow>
     0 < pv_case_version (ua_provenance a) \<and> not_blank (pv_prompt_version (ua_provenance a)) \<and>
     not_blank (pv_model_id (ua_provenance a)) \<and> not_blank (pv_endpoint_id (ua_provenance a))"

text \<open>The loop over the gaps: each is inserted with a new identifier.\<close>

fun insert_gaps :: "task_key3 \<Rightarrow> string \<Rightarrow> gap_record list \<Rightarrow> maker_store \<Rightarrow> agent_store_error + uuid list \<times> maker_store" where
  "insert_gaps k actor [] st = Inr ([], st)"
| "insert_gaps k actor (g # gs) st =
     rbind (check_that (gap_row_ok g) CheckViolation) (\<lambda>_.
     let i = um_uuids st (um_drawn st)
     in rbind (check_that (i \<notin> set (map gg_id (um_gaps st))) UniqueKeyViolation) (\<lambda>_.
        rbind (insert_gaps k actor gs
          (st\<lparr>um_drawn := Suc (um_drawn st),
              um_gaps := um_gaps st @ [\<lparr>gg_id = i, gg_key = k, gg_status = ''PROVISIONAL'', gg_record = g,
                                        gg_created_by = actor\<rparr>]\<rparr>)) (\<lambda>(ids, st').
        Inr (i # ids, st'))))"

definition handoff_data :: "underwriting_assessment \<Rightarrow> (string \<times> json) list" where
  "handoff_data a =
     [(''assessmentId'', JStr (str_uuid (ua_id a))),
      (''executionId'', JStr (str_uuid (pv_execution_id (ua_provenance a)))),
      (''schemaVersion'', JStr ''underwriting-assessment-v1'')]"

definition insert_maker_handoff :: "uuid \<Rightarrow> string \<Rightarrow> underwriting_assessment \<Rightarrow> maker_store \<Rightarrow> maker_store" where
  "insert_maker_handoff i state a st =
     (if i \<in> set (map gh_id (um_handoffs st)) then st
      else st\<lparr>um_handoffs := um_handoffs st @
        [\<lparr>gh_id = i, gh_key = assessment_key a, gh_state = state, gh_data = handoff_data a,
          gh_created_by = maker_actor, gh_stale_at = None\<rparr>]\<rparr>)"

definition persist_assessment ::
  "underwriting_assessment \<Rightarrow> uuid \<Rightarrow> string \<Rightarrow> gap_record list \<Rightarrow> maker_store \<Rightarrow>
   agent_store_error + persisted_output \<times> maker_store" where
  "persist_assessment a handoff_id state gaps st =
     (let k = assessment_key a in
      rbind (check_that (assessment_row_ok a) CheckViolation) (\<lambda>_.
      case find_assessment k st of
        Some existing \<Rightarrow>
          (case find_maker_handoff k st of
             None \<Rightarrow> Inl NoHandoffRow
           | Some h \<Rightarrow> Inr
               (\<lparr>po_assessment_id = ua_id existing, po_handoff_id = gh_id h,
                 po_gap_ids = find_maker_gap_ids k st, po_handoff_state = gh_state h, po_created = False\<rparr>, st))
      | None \<Rightarrow>
          rbind (check_that (ua_id a \<notin> set (map (ua_id \<circ> fst) (um_assessments st))) UniqueKeyViolation) (\<lambda>_.
          rbind (insert_gaps k maker_actor gaps
            (st\<lparr>um_assessments := um_assessments st @ [(a, um_clock st)]\<rparr>)) (\<lambda>(gap_ids, st').
          Inr (\<lparr>po_assessment_id = ua_id a, po_handoff_id = handoff_id, po_gap_ids = gap_ids,
                po_handoff_state = state, po_created = True\<rparr>,
               insert_maker_handoff handoff_id state a st')))))"

definition append_maker_audit :: "uuid \<Rightarrow> int \<Rightarrow> string \<Rightarrow> uuid \<Rightarrow> uuid \<Rightarrow> maker_store \<Rightarrow> maker_store" where
  "append_maker_audit c v event_type execution_id artifact_id st =
     st\<lparr>um_audit := um_audit st @
       [\<lparr>ga_case_id = c, ga_case_version = v, ga_event_type = event_type, ga_actor_type = maker_actor,
         ga_artifact_type = ''PROCESSING_TASK'', ga_artifact_id = artifact_id, ga_execution_id = execution_id\<rparr>]\<rparr>"

section \<open>What the writes do to the outputs of a task\<close>

record maker_outputs =
  mo_assessments :: "underwriting_assessment list"
  mo_handoffs :: "agent_handoff list"
  mo_gaps :: "agent_gap list"

definition outputs_of :: "task_key3 \<Rightarrow> maker_store \<Rightarrow> maker_outputs" where
  "outputs_of k st =
     \<lparr>mo_assessments = filter (\<lambda>a. assessment_key a = k) (map fst (um_assessments st)),
      mo_handoffs = filter (\<lambda>h. gh_key h = k \<and> gh_state h = risk_review_state \<and> gh_stale_at h = None) (um_handoffs st),
      mo_gaps = filter (\<lambda>g. gg_key g = k \<and> gg_created_by g = maker_actor) (um_gaps st)\<rparr>"

lemma insert_gaps_effect:
  assumes "insert_gaps k actor gs st = Inr (ids, st')"
  shows "\<exists>rows. um_gaps st' = um_gaps st @ rows \<and> map gg_record rows = gs \<and> map gg_id rows = ids \<and>
      list_all (\<lambda>r. gg_key r = k \<and> gg_created_by r = actor \<and> gg_status r = ''PROVISIONAL'') rows \<and>
      um_assessments st' = um_assessments st \<and> um_handoffs st' = um_handoffs st \<and> um_audit st' = um_audit st \<and>
      um_cases st' = um_cases st \<and> um_facts st' = um_facts st"
  using assms
proof (induction gs arbitrary: st ids)
  case (Cons g gs)
  let ?row = "\<lparr>gg_id = um_uuids st (um_drawn st), gg_key = k, gg_status = ''PROVISIONAL'', gg_record = g, gg_created_by = actor\<rparr>"
  let ?st = "st\<lparr>um_drawn := Suc (um_drawn st), um_gaps := um_gaps st @ [?row]\<rparr>"
  from Cons.prems obtain ids' where "insert_gaps k actor gs ?st = Inr (ids', st')" "ids = um_uuids st (um_drawn st) # ids'"
    by (auto simp: Let_def result_simps)
  from Cons.IH [OF this(1)] this(2) obtain rows where
    "um_gaps st' = um_gaps ?st @ rows" "map gg_record rows = gs" "map gg_id rows = ids'"
    "list_all (\<lambda>r. gg_key r = k \<and> gg_created_by r = actor \<and> gg_status r = ''PROVISIONAL'') rows"
    "um_assessments st' = um_assessments st \<and> um_handoffs st' = um_handoffs st \<and> um_audit st' = um_audit st \<and>
      um_cases st' = um_cases st \<and> um_facts st' = um_facts st" by auto
  then show ?case
    by (intro exI [of _ "?row # rows"]) (simp add: \<open>ids = um_uuids st (um_drawn st) # ids'\<close>)
qed simp

lemma find_assessment_outputs:
  "find_assessment k st = None \<longleftrightarrow> mo_assessments (outputs_of k st) = []"
  "find_assessment k st = Some a \<Longrightarrow> a \<in> set (mo_assessments (outputs_of k st))"
  using find_SomeD [of "\<lambda>a. assessment_key a = k" "map fst (um_assessments st)" a]
  by (auto simp: find_assessment_def outputs_of_def find_None_iff filter_empty_conv)

lemma find_handoff_outputs: "find_maker_handoff k st = latest (mo_handoffs (outputs_of k st))"
  by (simp add: find_maker_handoff_def outputs_of_def)

text \<open>A new output is the assessment, its handoff and its gaps, all at once.\<close>

lemma persist_assessment_Inr:
  assumes "persist_assessment a hid risk_review_state gaps st = Inr (p, st')"
  shows "(mo_assessments (outputs_of (assessment_key a) st) \<noteq> [] \<and> st' = st) \<or>
    (mo_assessments (outputs_of (assessment_key a) st) = [] \<and>
     mo_assessments (outputs_of (assessment_key a) st') = [a] \<and>
     (hid \<notin> gh_id ` set (um_handoffs st) \<longrightarrow>
        (\<exists>h. mo_handoffs (outputs_of (assessment_key a) st') = mo_handoffs (outputs_of (assessment_key a) st) @ [h] \<and>
           gh_id h = hid)) \<and>
     (\<exists>rows. mo_gaps (outputs_of (assessment_key a) st') = mo_gaps (outputs_of (assessment_key a) st) @ rows \<and>
        map gg_record rows = gaps))"
proof (cases "find_assessment (assessment_key a) st")
  case (Some existing)
  then have "mo_assessments (outputs_of (assessment_key a) st) \<noteq> []"
    using find_assessment_outputs(1) [of "assessment_key a" st] by auto
  with Some assms show ?thesis
    by (auto simp: persist_assessment_def Let_def result_simps split: option.splits)
next
  case None
  from assms None obtain ids st1 where ins: "insert_gaps (assessment_key a) maker_actor gaps
      (st\<lparr>um_assessments := um_assessments st @ [(a, um_clock st)]\<rparr>) = Inr (ids, st1)"
    "st' = insert_maker_handoff hid risk_review_state a st1"
    by (auto simp: persist_assessment_def Let_def result_simps)
  from insert_gaps_effect [OF ins(1)] obtain rows where rows:
    "um_gaps st1 = um_gaps st @ rows" "map gg_record rows = gaps"
    "list_all (\<lambda>r. gg_key r = assessment_key a \<and> gg_created_by r = maker_actor \<and> gg_status r = ''PROVISIONAL'') rows"
    "um_assessments st1 = um_assessments st @ [(a, um_clock st)]" "um_handoffs st1 = um_handoffs st" by auto
  have "filter (\<lambda>r. gg_key r = assessment_key a \<and> gg_created_by r = maker_actor) rows = rows"
    using rows(3) by (auto simp: list_all_iff intro: filter_True)
  then show ?thesis
    using None rows find_assessment_outputs(1) [of "assessment_key a" st] unfolding ins(2)
    by (auto simp: insert_maker_handoff_def outputs_of_def)
qed

end
