(* ===== verification/Maker_Processor.thy ===== *)
theory Maker_Processor
  imports Agent_Stage Maker_Store
begin

text \<open>
  The processor of CREDIT_UNDERWRITING tasks (\<open>application/underwriting/processor.py\<close>): its
  stages with their checkpoints, the fail-closed branches, and the theorem that any number
  of deliveries, dying anywhere, leaves at most one assessment with its handoff and its
  gaps.
\<close>

section \<open>The processor\<close>

text \<open>\<open>INFERENCE_VALIDATED\<close> carries the validated assessment.\<close>

datatype maker_checkpoint = Ck_Evidence_View | Ck_Calculators | Ck_Inference underwriting_assessment | Ck_Persisted

datatype gateway_failure = Endpoint_Unavailable | Endpoint_Error

datatype maker_failure =
    Maker_Store_Failed agent_store_error
  | Maker_Suite_Failed suite_error
  | Maker_Output_Failed build_error

record maker_env =
  me_agent :: "maker_store agent_env"
  me_gateway :: "(json_schema \<Rightarrow> gateway_failure + json \<times> string \<times> string) option"
  me_governance :: "(evidence_view \<Rightarrow> string) option"
  me_sha :: "string \<Rightarrow> string"
  me_uuid5 :: "string \<Rightarrow> uuid"
  me_now :: datetime
  me_rejection :: "gateway_failure inference_error \<Rightarrow> string"

type_synonym 'a maker_act = "(maker_store, maker_checkpoint, maker_failure, 'a) agent_act"

definition maker_store_op :: "maker_env \<Rightarrow> (maker_store \<Rightarrow> agent_store_error + 'a \<times> maker_store) \<Rightarrow> 'a maker_act" where
  "maker_store_op env op =
     on_repo (me_agent env) (\<lambda>st. case op st of Inl e \<Rightarrow> Inl (Maker_Store_Failed e) | Inr r \<Rightarrow> Inr r)"

definition task_key_of :: "processing_task \<Rightarrow> task_key3" where
  "task_key_of t = (pt_case_id t, pt_case_version t, pt_id t)"

definition stage_done :: "worker_outcome \<Rightarrow> string \<Rightarrow> 'a \<Rightarrow> ('e + stage_result) \<times> 'a" where
  "stage_done outcome reason s = (Inr \<lparr>sr_status = outcome, sr_reason = reason\<rparr>, s)"

definition audit_maker :: "maker_env \<Rightarrow> processing_task \<Rightarrow> string \<Rightarrow> unit maker_act" where
  "audit_maker env t event_type =
     and_then (next_uuid (me_agent env)) (\<lambda>execution_id.
     maker_store_op env (\<lambda>st. Inr ((),
       append_maker_audit (pt_case_id t) (pt_case_version t) event_type execution_id (pt_id t) st)))"

definition maker_handoff_id :: "maker_env \<Rightarrow> underwriting_assessment \<Rightarrow> uuid" where
  "maker_handoff_id env a = me_uuid5 env (''underwriting-handoff:'' @ str_uuid (ua_id a))"

definition persist_maker_output ::
  "maker_env \<Rightarrow> underwriting_assessment \<Rightarrow> persisted_output maker_act" where
  "persist_maker_output env a =
     maker_store_op env
       (persist_assessment a (maker_handoff_id env a) risk_review_state (maker_gap_records a))"

definition maker_persist_stage :: "maker_env \<Rightarrow> processing_task \<Rightarrow> underwriting_assessment \<Rightarrow> stage_result maker_act" where
  "maker_persist_stage env t a =
     and_then (persist_maker_output env a) (\<lambda>persisted.
     and_then (save_point (me_agent env) Ck_Persisted) (\<lambda>_.
     and_then (audit_maker env t ''UNDERWRITING_ASSESSMENT_PERSISTED'') (\<lambda>_.
     stage_done Succeeded [])))"

definition maker_context_manifest :: "maker_env \<Rightarrow> processing_task \<Rightarrow> evidence_view \<Rightarrow> unit maker_act" where
  "maker_context_manifest env t view =
     (case me_governance env of
        None \<Rightarrow> ret ()
      | Some hash \<Rightarrow>
          and_then (persist_manifest (me_agent env) (pt_id t) (hash view)) (\<lambda>_.
          audit_maker env t ''UNDERWRITING_CONTEXT_MANIFEST_PERSISTED''))"

definition suite_act :: "suite_error + calculator_suite \<Rightarrow> calculator_suite maker_act" where
  "suite_act r = (case r of Inl e \<Rightarrow> raise (Agent_Exn (Maker_Suite_Failed e)) | Inr s \<Rightarrow> ret s)"

text \<open>
  The inference stage: an unavailable endpoint ends in manual review, a rejected output or
  another failure of the endpoint is retried; an exception of another class passes.
\<close>

definition maker_inference_stage ::
  "maker_env \<Rightarrow> processing_task \<Rightarrow> (json_schema \<Rightarrow> gateway_failure + json \<times> string \<times> string) \<Rightarrow>
   evidence_view \<Rightarrow> calculator_suite \<Rightarrow> stage_result maker_act" where
  "maker_inference_stage env t reason view s =
     and_then (next_uuid (me_agent env)) (\<lambda>execution_id.
     and_then (next_uuid (me_agent env)) (\<lambda>assessment_id.
     and_then (call_gateway (me_agent env)
       (infer_assessment reason assessment_id (me_now env) view s
          \<lparr>mk_task_id = pt_id t, mk_execution_id = execution_id,
           mk_correlation_id = ''underwriting:'' @ str_uuid (pt_id t)\<rparr>)) (\<lambda>answer.
     case answer of
       Inl (Endpoint_Failed Endpoint_Unavailable) \<Rightarrow>
         and_then (audit_maker env t ''UNDERWRITING_GATEWAY_UNAVAILABLE'') (\<lambda>_.
         stage_done FailedManualReview ''FPT reasoning endpoint unavailable'')
     | Inl (Rejected e) \<Rightarrow>
         if e = Output_Invalid
         then and_then (audit_maker env t ''UNDERWRITING_OUTPUT_REJECTED'') (\<lambda>_.
              stage_done RetryWait (me_rejection env (Rejected e)))
         else raise (Agent_Exn (Maker_Output_Failed e))
     | Inl (Endpoint_Failed Endpoint_Error) \<Rightarrow>
         and_then (audit_maker env t ''UNDERWRITING_OUTPUT_REJECTED'') (\<lambda>_.
         stage_done RetryWait (me_rejection env (Endpoint_Failed Endpoint_Error)))
     | Inr a \<Rightarrow>
         and_then (save_point (me_agent env) (Ck_Inference a)) (\<lambda>_. maker_persist_stage env t a))))"

definition maker_fresh_run :: "maker_env \<Rightarrow> processing_task \<Rightarrow> stage_result maker_act" where
  "maker_fresh_run env t =
     (case me_gateway env of
        None \<Rightarrow>
          and_then (audit_maker env t ''UNDERWRITING_GATEWAY_UNAVAILABLE'') (\<lambda>_.
          stage_done FailedManualReview ''credit underwriting requires a configured FPT reasoning endpoint'')
      | Some reason \<Rightarrow>
          and_then (from_repo (me_agent env) (load_maker_view (pt_case_id t))) (\<lambda>loaded. case loaded of
            None \<Rightarrow> stage_done FailedManualReview (''case '' @ str_uuid (pt_case_id t) @ '' has no evidence view'')
          | Some view \<Rightarrow>
              if ev_case_version view \<noteq> pt_case_version t
              then stage_done Superseded ''case version advanced past this task's bound version''
              else if ev_facts view = []
              then and_then (audit_maker env t ''UNDERWRITING_NO_CONFIRMED_FACTS'') (\<lambda>_.
                   stage_done FailedManualReview ''evidence view contains no confirmed facts'')
              else
                and_then (save_point (me_agent env) Ck_Evidence_View) (\<lambda>_.
                and_then (suite_act (build_calculator_suite (me_sha env) view)) (\<lambda>s.
                and_then (save_point (me_agent env) Ck_Calculators) (\<lambda>_.
                and_then (maker_context_manifest env t view) (\<lambda>_.
                maker_inference_stage env t reason view s))))))"

text \<open>\<open>CreditUnderwritingProcessor.process\<close>, given the last durable checkpoint.\<close>

definition process_maker :: "processing_task \<Rightarrow> maker_env \<Rightarrow> stage_result maker_act" where
  "process_maker t env w =
     (case aw_checkpoint w of
        Some Ck_Persisted \<Rightarrow> stage_done Succeeded []
      | Some (Ck_Inference a) \<Rightarrow> maker_persist_stage env t a
      | _ \<Rightarrow>
          and_then (from_repo (me_agent env) (find_persisted_maker (task_key_of t))) (\<lambda>existing. case existing of
            Some persisted \<Rightarrow> and_then (save_point (me_agent env) Ck_Persisted) (\<lambda>_. stage_done Succeeded [])
          | None \<Rightarrow> maker_fresh_run env t)) w"

end
