(* ===== verification/Maker_Schema.thy ===== *)
theory Maker_Schema
  imports Underwriting_Maker
begin

text \<open>
  The maker's builder against its schema: an answer that conforms is accepted exactly when
  the three things the schema cannot say hold (the amount names a computed figure and a
  finding of the section cites a result, the risks have distinct identifiers, the
  mitigants name risks), and an accepted assessment rests on the view and on the suite.
\<close>

section \<open>The suite always has usable identifiers and texts\<close>

lemma ratio_identified: "ratio sha c n d scale extra = Inr r \<Longrightarrow> cr_result_id r \<noteq> []"
  by (auto simp: ratio_def Let_def rbind_Inr build_result_def make_result_id_def split: option.splits if_splits)

lemma composed_identified:
  "quick_ratio sha a b l = Inr r \<Longrightarrow> cr_result_id r \<noteq> []"
  "cash_conversion_cycle sha x y z = Inr r \<Longrightarrow> cr_result_id r \<noteq> []"
  "working_capital_need sha a x = Inr r \<Longrightarrow> cr_result_id r \<noteq> []"
  "working_capital_gap sha x a b = Inr r \<Longrightarrow> cr_result_id r \<noteq> []"
proof -
  have [simp]: "cr_result_id (build_result sha c inputs out) \<noteq> []" for c inputs out
    by (simp add: build_result_def make_result_id_def)
  show "quick_ratio sha a b l = Inr r \<Longrightarrow> cr_result_id r \<noteq> []"
    by (auto simp: quick_ratio_def Let_def dest: ratio_identified split: if_splits)
  show "cash_conversion_cycle sha x y z = Inr r \<Longrightarrow> cr_result_id r \<noteq> []"
    by (auto simp: cash_conversion_cycle_def Let_def rbind_Inr split: if_splits)
  show "working_capital_need sha a x = Inr r \<Longrightarrow> cr_result_id r \<noteq> []"
    by (auto simp: working_capital_need_def Let_def rbind_Inr split: outcome.splits option.splits)
  show "working_capital_gap sha x a b = Inr r \<Longrightarrow> cr_result_id r \<noteq> []"
    by (auto simp: working_capital_gap_def Let_def rbind_Inr split: outcome.splits option.splits)
qed

lemma results_identified:
  assumes "standard_results sha inp = Inr rs"
  shows "[] \<notin> set (map cr_result_id rs)"
  using assms
proof (cases rule: standard_results_cases)
  case 1
  with ratio_identified [OF 1(1)] ratio_identified [OF 1(2)] ratio_identified [OF 1(3)] ratio_identified [OF 1(6)]
    ratio_identified [OF 1(8)] ratio_identified [OF 1(9)] ratio_identified [OF 1(10)] ratio_identified [OF 1(11)]
    ratio_identified [OF 1(12)] ratio_identified [OF 1(13)] ratio_identified [OF 1(14)] ratio_identified [OF 1(15)]
    composed_identified(1) [OF 1(7)] composed_identified(2) [OF 1(4)] composed_identified(3) [OF 1(5)]
    composed_identified(4) [OF 1(16)]
  show ?thesis by (simp add: 1(17))
qed

lemma trend_analysis_identified: "trend_analysis sha metric ps = Inr x \<Longrightarrow> tn_result_id x \<noteq> []"
  by (auto simp: trend_analysis_def Let_def rbind_Inr make_result_id_def)

lemma trend_identified: "trend_for sha view inp p = Inr t \<Longrightarrow> tn_result_id (fst t) \<noteq> []"
  by (cases p) (auto simp: trend_for_def rbind_Inr dest: trend_analysis_identified)

lemma scenario_identified: "scenario_projection sha n b a = Inr r \<Longrightarrow> sr_result_id r \<noteq> []"
  by (auto simp: scenario_projection_def Let_def rbind_Inr make_result_id_def)

lemma suite_identified:
  assumes "build_calculator_suite sha view = Inr s"
  shows "[] \<notin> set (result_ids s)"
proof -
  obtain built results trends scenario where b:
    "standard_results sha (input_named (map fst built)) = Inr results"
    "map_result (trend_for sha view (input_named (map fst built))) prior_period_field_keys = Inr trends"
    "scenario_projection sha downside_scenario_name
       [input_named (map fst built) ''revenue'', input_named (map fst built) ''net_profit'',
        input_named (map fst built) ''operating_profit'']
       [\<lparr>sa_metric = ''revenue'', sa_relative_change = -20 / 100, sa_absolute_change = 0\<rparr>] = Inr scenario"
    "s = \<lparr>su_results = results, su_trends = map fst trends, su_scenarios = [scenario],
          su_missing = List.map_filter snd built @ concat (map snd trends)\<rparr>"
    by (rule suite_inputs [OF assms])
  have "tn_result_id (fst t) \<noteq> []" if "t \<in> set trends" for t
    using map_result_Inr_set [OF b(2) that] trend_identified by blast
  then have "[] \<notin> set (map tn_result_id (map fst trends))" by force
  moreover have "sr_result_id scenario \<noteq> []" using scenario_identified [OF b(3)] .
  ultimately show ?thesis using results_identified [OF b(1)] by (simp add: result_ids_def b(4))
qed

definition short_missing :: "missing_evidence \<Rightarrow> bool" where
  "short_missing m \<longleftrightarrow>
     length (me_input_name m) \<le> 100 \<and> length (me_field_key m) \<le> 100 \<and> length (me_reason m) \<le> 100"

lemma missing_gap_fits: "short_missing m \<Longrightarrow> gap_item_ok (missing_gap m)"
  by (simp add: short_missing_def gap_item_ok_def missing_gap_def missing_text_def sized_def)

lemma input_for_short:
  assumes "input_for view name key = Inr (i, Some m)" "length name \<le> 100" "length key \<le> 100"
  shows "short_missing m"
  using assms by (auto simp: input_for_def short_missing_def Let_def split: option.splits numeral.splits)

lemma keys_short:
  "list_all (\<lambda>(name, key). length name \<le> 100 \<and> length key \<le> 100) canonical_field_keys"
  "list_all (\<lambda>(name, key). length name \<le> 90 \<and> length key \<le> 100) prior_period_field_keys"
  by (simp_all add: canonical_field_keys_def prior_period_field_keys_def)

lemma suite_missing_short:
  assumes "build_calculator_suite sha view = Inr s" "m \<in> set (su_missing s)"
  shows "short_missing m"
proof -
  obtain built results trends scenario where b:
    "map_result (\<lambda>(name, key). input_for view name key) canonical_field_keys = Inr built"
    "map_result (trend_for sha view (input_named (map fst built))) prior_period_field_keys = Inr trends"
    "s = \<lparr>su_results = results, su_trends = map fst trends, su_scenarios = [scenario],
          su_missing = List.map_filter snd built @ concat (map snd trends)\<rparr>"
    by (rule suite_inputs [OF assms(1)])
  from assms(2) consider x where "x \<in> set built" "snd x = Some m" | t where "t \<in> set trends" "m \<in> set (snd t)"
    by (auto simp: b(3) map_filter_set)
  then show ?thesis
  proof cases
    case 1
    obtain name key where k: "(name, key) \<in> set canonical_field_keys" "input_for view name key = Inr x"
      using map_result_Inr_set [OF b(1) 1(1)] by auto
    then have "length name \<le> 100" "length key \<le> 100" using keys_short(1) by (auto simp: list_all_iff)
    moreover have "x = (fst x, Some m)" using 1(2) by (cases x) simp
    ultimately show ?thesis using input_for_short k(2) by metis
  next
    case 2
    obtain name key where k: "(name, key) \<in> set prior_period_field_keys"
      "trend_for sha view (input_named (map fst built)) (name, key) = Inr t"
      using map_result_Inr_set [OF b(2) 2(1)] by auto
    then have n: "length (''prior_'' @ name) \<le> 100" "length key \<le> 100"
      using keys_short(2) by (auto simp: list_all_iff)
    obtain i x where x: "input_for view (''prior_'' @ name) key = Inr (i, Some x)" "m = x\<lparr>me_blocking_level := CLARIFICATION\<rparr>"
      using k(2) 2(2) by (auto simp: trend_for_def rbind_Inr split: option.splits)
    from input_for_short [OF x(1) n] show ?thesis by (simp add: short_missing_def x(2))
  qed
qed

lemma missing_gaps_total:
  "list_all (\<lambda>m. gap_item_ok (missing_gap m)) ms \<Longrightarrow> \<exists>gs. missing_gaps_from seen ms = Inr gs \<and> list_all gap_item_ok gs"
  by (induction seen ms rule: missing_gaps_from.induct) (auto simp: validated_def)

lemma deterministic_gaps_total:
  assumes "build_calculator_suite sha view = Inr s"
  shows "\<exists>gs. deterministic_gap_items s = Inr gs \<and> list_all gap_item_ok gs"
  using suite_missing_short [OF assms] missing_gap_fits missing_gaps_total
  by (simp add: deterministic_gap_items_def list_all_iff)

section \<open>A conforming answer\<close>

text \<open>What the schema gives for a citation: it is read, it is well-formed and it resolves.\<close>

lemma conforms_uw_citation:
  assumes "conforms (uw_citation_schema facts results) j" "uuid_texts facts" "[] \<notin> set results"
  shows "\<exists>c. uw_citation_from facts j = Inr c \<and> uw_citation_ok c \<and> result_resolves results c"
proof -
  obtain b where b: "conforms b j"
    "b = Obj_Schema [''kind'', ''confirmed_fact_id''] [(''kind'', Const_Schema ''CONFIRMED_FACT''),
           (''confirmed_fact_id'', Str_Schema 0 None (Some facts))] \<or>
     b = Obj_Schema [''kind'', ''result_id''] [(''kind'', Const_Schema ''CALCULATOR_RESULT''),
           (''result_id'', Str_Schema 0 None (Some results))]"
    using conforms_one_of [OF assms(1) [unfolded uw_citation_schema_def]] by (auto split: if_splits)
  from b(2) show ?thesis
  proof (elim disjE)
    assume "b = Obj_Schema [''kind'', ''confirmed_fact_id''] [(''kind'', Const_Schema ''CONFIRMED_FACT''),
           (''confirmed_fact_id'', Str_Schema 0 None (Some facts))]"
    with b(1) conforms_kind_member obtain kvs where "j = JObj kvs"
      "map_of kvs ''kind'' = Some (JStr ''CONFIRMED_FACT'')" "text_of kvs ''confirmed_fact_id'' \<in> set facts" by blast
    with uuid_texts_read [OF assms(2), of "text_of kvs ''confirmed_fact_id''"] show ?thesis
      by (auto simp: uw_citation_from_def get_or_def result_resolves_def)
  next
    assume "b = Obj_Schema [''kind'', ''result_id''] [(''kind'', Const_Schema ''CALCULATOR_RESULT''),
           (''result_id'', Str_Schema 0 None (Some results))]"
    with b(1) conforms_kind_member obtain kvs where "j = JObj kvs"
      "map_of kvs ''kind'' = Some (JStr ''CALCULATOR_RESULT'')" "text_of kvs ''result_id'' \<in> set results" by blast
    with assms(3) show ?thesis
      by (auto simp: uw_citation_from_def get_or_def result_resolves_def validated_def)
  qed
qed

lemma conforms_risk_item:
  assumes "conforms (risk_item_schema s) (JObj item)"
    "\<And>j. conforms s j \<Longrightarrow> \<exists>c. uw_citation_from known j = Inr c \<and> uw_citation_ok c \<and> P c"
  shows "\<exists>r. risk_item_from known item = Inr r \<and> risk_item_ok r \<and> list_all P (ri_citations r)"
proof -
  note c = assms(1) [unfolded risk_item_schema_def]
  obtain xs where xs: "listed item ''citations'' = Inr xs" "1 \<le> length xs" "\<forall>x\<in>set xs. conforms s x"
    using list_field_conforms [OF c, of "''citations''"] by auto
  obtain cs where "map_result (uw_citation_from known) xs = Inr cs" "length cs = length xs"
      "list_all uw_citation_ok cs" "list_all P cs"
    using conforms_all_read [of s "uw_citation_from known" "\<lambda>c. uw_citation_ok c \<and> P c" xs, OF assms(2) xs(3)]
    by (auto simp: list_all_iff)
  moreover obtain cf where "enum_of confidence_levels (text_of item ''confidence'') = Inr cf"
    using conforms_enum_field [OF c, of "''confidence''" confidence_levels] by (auto simp: confidence_schema_def)
  ultimately show ?thesis
    using xs(1,2) text_of_string [OF c, of "''risk_id''"] text_of_string [OF c, of "''description_vi''"]
      text_of_optional [OF c, of "''uncertainty_vi''"]
    by (auto simp: risk_item_from_def validated_def risk_item_ok_def)
qed

text \<open>The items of a list field that are objects.\<close>

definition items_of :: "(string \<times> json) list \<Rightarrow> string \<Rightarrow> (string \<times> json) list list" where
  "items_of payload key = (case get_or payload key (JList []) of JList xs \<Rightarrow> mappings xs | _ \<Rightarrow> [])"

lemma mappings_not_objects: "(\<And>x. x \<in> set xs \<Longrightarrow> as_mapping x = None) \<Longrightarrow> mappings xs = []"
  by (induction xs) auto

lemma listed_items: "listed payload key = Inr xs \<Longrightarrow> mappings xs = items_of payload key"
  by (cases "get_or payload key (JList [])") (auto simp: listed_def items_of_def intro!: mappings_not_objects)

lemma map_result_field:
  "map_result f xs = Inr ys \<Longrightarrow> (\<And>x y. f x = Inr y \<Longrightarrow> g y = h x) \<Longrightarrow> map g ys = map h xs"
  by (induction xs arbitrary: ys) (auto simp: rbind_Inr)

lemma items_iterated_field:
  assumes "items_iterated f payload key = Inr ys" "\<And>x y. f x = Inr y \<Longrightarrow> g y = h x"
  shows "map g ys = map h (items_of payload key)"
proof -
  obtain xs where "listed payload key = Inr xs" "map_result f (mappings xs) = Inr ys"
    using assms(1) by (auto simp: items_iterated_def rbind_Inr)
  with map_result_field [of f "mappings xs" ys g h] assms(2) listed_items show ?thesis by metis
qed

definition object_at :: "(string \<times> json) list \<Rightarrow> string \<Rightarrow> (string \<times> json) list" where
  "object_at payload key = (case as_mapping (get_or payload key JNull) of None \<Rightarrow> [] | Some part \<Rightarrow> part)"

definition cites_result :: "(string \<times> json) list \<Rightarrow> bool" where
  "cites_result item \<longleftrightarrow>
     list_ex (\<lambda>c. get_or c ''kind'' JNull = JStr ''CALCULATOR_RESULT'') (items_of item ''citations'')"

text \<open>The three things the schema cannot say.\<close>

definition amount_resolves :: "calculator_suite \<Rightarrow> (string \<times> json) list \<Rightarrow> bool" where
  "amount_resolves s raw \<longleftrightarrow>
     get_or raw ''proposed_amount_result_id'' JNull \<in> insert JNull (JStr ` fst ` set (computed_figures s))"

definition amount_cited :: "(string \<times> json) list \<Rightarrow> bool" where
  "amount_cited raw \<longleftrightarrow>
     get_or raw ''proposed_amount_result_id'' JNull = JNull \<or> list_ex cites_result (items_of raw ''findings'')"

definition risks_bind :: "(string \<times> json) list \<Rightarrow> bool" where
  "risks_bind payload \<longleftrightarrow>
     (let ids = map (\<lambda>r. text_of r ''risk_id'') (items_of payload ''risks'')
      in distinct ids \<and> list_all (\<lambda>m. text_of m ''risk_id'' \<in> set ids) (items_of payload ''mitigants''))"

lemma cites_calculator_from:
  assumes "uw_finding_from known item = Inr f"
  shows "cites_calculator f \<longleftrightarrow> cites_result item"
proof -
  from assms obtain xs where xs: "get_or item ''citations'' JNull = JList xs" "xs \<noteq> []"
    "map_result (uw_citation_from known) xs = Inr (fd_citations f)"
    by (cases "get_or item ''citations'' JNull")
      (auto simp: finding_from_def rbind_Inr simp del: map_result.simps split: list.splits)
  have cite: "(case c of Uw_Result r \<Rightarrow> True | _ \<Rightarrow> False) \<longleftrightarrow>
      (\<exists>kvs. j = JObj kvs \<and> get_or kvs ''kind'' JNull = JStr ''CALCULATOR_RESULT'')"
    if "uw_citation_from known j = Inr c" for j c
    using that by (cases j) (auto simp: uw_citation_from_def rbind_Inr Let_def get_method_def split: if_splits)
  have "list_ex (\<lambda>c. case c of Uw_Result r \<Rightarrow> True | _ \<Rightarrow> False) cs \<longleftrightarrow>
      list_ex (\<lambda>c. get_or c ''kind'' JNull = JStr ''CALCULATOR_RESULT'') (mappings js)"
    if "map_result (uw_citation_from known) js = Inr cs" for js cs
    using that
  proof (induction js arbitrary: cs)
    case (Cons j js)
    then obtain c cs' where c: "uw_citation_from known j = Inr c" "map_result (uw_citation_from known) js = Inr cs'"
      "cs = c # cs'" by (auto simp: rbind_Inr)
    have "as_mapping j \<noteq> None" using c(1) by (cases j) (auto simp: uw_citation_from_def get_method_def)
    then obtain kvs where "j = JObj kvs" by (cases j) auto
    with cite [OF c(1)] Cons.IH [OF c(2)] c(3) show ?case by simp
  qed simp
  from this [OF xs(3)] show ?thesis
    using xs(1) by (simp add: cites_calculator_def cites_result_def items_of_def get_or_def split: option.splits)
qed

lemma resolve_amount_conforming:
  assumes "conforms (structure_schema citation results) (JObj raw)"
  shows "if amount_resolves s raw
    then \<exists>amount. resolve_proposed_amount raw s = Inr amount \<and>
      (amount = None \<longleftrightarrow> get_or raw ''proposed_amount_result_id'' JNull = JNull)
    else resolve_proposed_amount raw s = Inl Output_Invalid"
proof -
  let ?id = "get_or raw ''proposed_amount_result_id'' JNull"
  note c = assms [unfolded structure_schema_def]
  have "?id = JNull \<or> (\<exists>t. ?id = JStr t)"
  proof (cases "map_of raw ''proposed_amount_result_id''")
    case None
    then show ?thesis by (simp add: get_or_def)
  next
    case (Some v)
    with conforms_field(2) [OF c _ Some] show ?thesis
      by (cases v) (auto simp: get_or_def string_ok_def)
  qed
  then show ?thesis
  proof (elim disjE exE)
    fix t assume t: "?id = JStr t"
    then have "resolve_proposed_amount raw s =
        (case py_dict (computed_figures s) t of None \<Rightarrow> Inl Output_Invalid | Some v \<Rightarrow> Inr (Some v))"
      by (simp add: resolve_proposed_amount_def)
    moreover have "amount_resolves s raw \<longleftrightarrow> t \<in> fst ` set (computed_figures s)"
      by (auto simp: amount_resolves_def t)
    ultimately show ?thesis using py_dict_None_iff [of "computed_figures s" t] t
      by (cases "py_dict (computed_figures s) t") simp_all
  qed (simp add: amount_resolves_def resolve_proposed_amount_def)
qed

lemma findings_cite_result:
  assumes "uw_findings_from known payload key = Inr fs"
  shows "list_ex cites_calculator fs \<longleftrightarrow> list_ex cites_result (items_of (object_at payload key) ''findings'')"
proof -
  obtain raw xs where raw: "as_mapping (get_or payload key JNull) = Some raw"
    "get_or raw ''findings'' JNull = JList xs" "map_result (uw_finding_from known) (mappings xs) = Inr fs"
    using assms by (auto simp: findings_from_def split: option.splits json.splits)
  have "map cites_calculator fs = map cites_result (mappings xs)"
    using map_result_field [OF raw(3)] cites_calculator_from by blast
  then have "list_ex id (map cites_calculator fs) = list_ex id (map cites_result (mappings xs))" by simp
  moreover have "items_of (object_at payload key) ''findings'' = mappings xs"
    using raw(1,2) by (auto simp: object_at_def items_of_def get_or_def split: option.splits)
  ultimately show ?thesis by (simp add: list_ex_iff)
qed

text \<open>A view and a suite as the processor passes them, and a payload that conforms to their schema.\<close>

definition conforming :: "(string \<Rightarrow> string) \<Rightarrow> evidence_view \<Rightarrow> calculator_suite \<Rightarrow> (string \<times> json) list \<Rightarrow> bool" where
  "conforming sha view s payload \<longleftrightarrow>
     build_calculator_suite sha view = Inr s \<and> bounded_ids view \<and>
     conforms (maker_response_schema (fact_ids view) (result_ids s)) (JObj payload)"

lemma conforming_cited:
  "conforming sha view s payload \<Longrightarrow>
   conforms (uw_citation_schema (fact_ids view) (result_ids s)) j \<Longrightarrow>
   \<exists>c. uw_citation_from (fact_ids view) j = Inr c \<and> uw_citation_ok c \<and> result_resolves (result_ids s) c"
  using conforms_uw_citation bounded_fact_ids suite_identified unfolding conforming_def by blast

lemma conforming_section:
  assumes "conforming sha view s payload" "key \<in> {''business'', ''financial'', ''cash_flow''}"
  shows "\<exists>fs. uw_findings_from (fact_ids view) payload key = Inr fs \<and> section_ok uw_citation_ok fs \<and>
    list_all (result_resolves (result_ids s)) (concat (map fd_citations fs))"
  using assms(2) conforms_section [OF assms(1) [unfolded conforming_def maker_response_schema_def Let_def, THEN conjunct2, THEN conjunct2],
      of key _ _ _ "uw_citation_from (fact_ids view)" uw_citation_ok "result_resolves (result_ids s)"]
    conforming_cited [OF assms(1)]
  by (auto simp: section_schema_def)

lemma conforming_repayment:
  assumes "conforming sha view s payload"
  shows "\<exists>fs. uw_findings_from (fact_ids view) payload ''repayment_source'' = Inr fs \<and> section_ok uw_citation_ok fs \<and>
      list_all (result_resolves (result_ids s)) (concat (map fd_citations fs))"
    and "\<exists>raw ds. mapping_field payload ''repayment_source'' = Inr raw \<and>
      items_iterated (uw_finding_from (fact_ids view)) raw ''downside_scenarios'' = Inr ds \<and>
      list_all (\<lambda>f. finding_ok uw_citation_ok f \<and> list_all (result_resolves (result_ids s)) (fd_citations f)) ds"
proof -
  note c = assms [unfolded conforming_def maker_response_schema_def Let_def, THEN conjunct2, THEN conjunct2]
  show "\<exists>fs. uw_findings_from (fact_ids view) payload ''repayment_source'' = Inr fs \<and> section_ok uw_citation_ok fs \<and>
      list_all (result_resolves (result_ids s)) (concat (map fd_citations fs))"
    using conforms_section [OF c, of "''repayment_source''" _ _ _ "uw_citation_from (fact_ids view)" uw_citation_ok
        "result_resolves (result_ids s)"] conforming_cited [OF assms]
    by (auto simp: repayment_schema_def)
  obtain v where v: "map_of payload ''repayment_source'' = Some v"
    "conforms (repayment_schema (uw_citation_schema (fact_ids view) (result_ids s))) v"
    using conforms_field(1) [OF c, of "''repayment_source''"] by auto
  then obtain raw where raw: "v = JObj raw" using conforms_is_object unfolding repayment_schema_def by blast
  have "\<exists>f. uw_finding_from (fact_ids view) item = Inr f \<and> finding_ok uw_citation_ok f \<and>
      list_all (result_resolves (result_ids s)) (fd_citations f)"
    if "conforms (finding_schema (uw_citation_schema (fact_ids view) (result_ids s))) (JObj item)" for item
    using that conforming_cited [OF assms] by (rule conforms_finding)
  with conforms_items_iterated [OF v(2) [unfolded raw repayment_schema_def], of "''downside_scenarios''" 10 _
      "uw_finding_from (fact_ids view)"
      "\<lambda>f. finding_ok uw_citation_ok f \<and> list_all (result_resolves (result_ids s)) (fd_citations f)"]
  show "\<exists>raw ds. mapping_field payload ''repayment_source'' = Inr raw \<and>
      items_iterated (uw_finding_from (fact_ids view)) raw ''downside_scenarios'' = Inr ds \<and>
      list_all (\<lambda>f. finding_ok uw_citation_ok f \<and> list_all (result_resolves (result_ids s)) (fd_citations f)) ds"
    using v(1) raw by (auto simp: mapping_field_def get_or_def)
qed

lemma conforming_structure:
  assumes "conforming sha view s payload"
  shows "if amount_resolves s (object_at payload ''proposed_structure'') \<and>
        amount_cited (object_at payload ''proposed_structure'')
    then \<exists>st. structure_from (fact_ids view) s payload = Inr st \<and> structure_ok st \<and>
      list_all (result_resolves (result_ids s)) (concat (map fd_citations (ps_findings st)))
    else structure_from (fact_ids view) s payload \<in> {Inl Output_Invalid, Inl Value_Error}"
proof -
  note c = assms [unfolded conforming_def maker_response_schema_def Let_def, THEN conjunct2, THEN conjunct2]
  let ?cite = "uw_citation_schema (fact_ids view) (result_ids s)"
  obtain v where v: "map_of payload ''proposed_structure'' = Some v" "conforms (structure_schema ?cite (result_ids s)) v"
    using conforms_field(1) [OF c, of "''proposed_structure''"] by auto
  then obtain raw where raw: "v = JObj raw" using conforms_is_object unfolding structure_schema_def by blast
  note sc = v(2) [unfolded raw structure_schema_def]
  obtain fs where fs: "uw_findings_from (fact_ids view) payload ''proposed_structure'' = Inr fs"
    "section_ok uw_citation_ok fs" "list_all (result_resolves (result_ids s)) (concat (map fd_citations fs))"
    using conforms_section [OF c, of "''proposed_structure''" _ _ ?cite "uw_citation_from (fact_ids view)" uw_citation_ok
        "result_resolves (result_ids s)"] conforming_cited [OF assms]
    by (auto simp: structure_schema_def)
  have obj: "object_at payload ''proposed_structure'' = raw" "mapping_field payload ''proposed_structure'' = Inr raw"
    using v(1) raw by (simp_all add: object_at_def mapping_field_def get_or_def)
  have tenor: "case tenor_of (get_or raw ''tenor_months'' JNull) of None \<Rightarrow> True | Some n \<Rightarrow> 1 \<le> n \<and> n \<le> 600"
  proof (cases "map_of raw ''tenor_months''")
    case None
    then show ?thesis by (simp add: get_or_def)
  next
    case (Some w)
    with conforms_field(2) [OF sc _ Some] show ?thesis by (cases w) (auto simp: get_or_def integer_ok_def)
  qed
  have cites: "list_ex cites_calculator fs \<longleftrightarrow> list_ex cites_result (items_of raw ''findings'')"
    using findings_cite_result [OF fs(1)] obj(1) by simp
  show ?thesis
  proof (cases "amount_resolves s raw")
    case False
    then have "resolve_proposed_amount raw s = Inl Output_Invalid"
      using resolve_amount_conforming [OF v(2) [unfolded raw]] by metis
    with False obj show ?thesis by (simp add: structure_from_def)
  next
    case True
    then obtain amount where amount: "resolve_proposed_amount raw s = Inr amount"
      "amount = None \<longleftrightarrow> get_or raw ''proposed_amount_result_id'' JNull = JNull"
      using resolve_amount_conforming [OF v(2) [unfolded raw], of s] by metis
    define st where "st = \<lparr>ps_instrument = text_of raw ''instrument_vi'', ps_amount = amount,
        ps_tenor_months = tenor_of (get_or raw ''tenor_months'' JNull), ps_findings = fs\<rparr>"
    have "structure_ok st \<longleftrightarrow> amount_cited raw"
      using text_of_string [OF sc, of "''instrument_vi''"] tenor fs(2) amount(2) cites
      by (auto simp: st_def structure_ok_def section_ok_def amount_cited_def)
    moreover have "structure_from (fact_ids view) s payload = validated structure_ok st"
      by (simp add: structure_from_def obj(2) amount(1) fs(1) st_def)
    ultimately show ?thesis using True fs(3) obj(1) by (simp add: validated_def st_def)
  qed
qed

lemma conforming_lists:
  assumes "conforming sha view s payload"
  shows "key \<in> {''risks'', ''mitigants''} \<Longrightarrow>
      \<exists>rs. items_iterated (risk_item_from (fact_ids view)) payload key = Inr rs \<and>
        list_all (\<lambda>r. risk_item_ok r \<and> list_all (result_resolves (result_ids s)) (ri_citations r)) rs"
    and "\<exists>as. items_iterated (assumption_from (uw_citation_from (fact_ids view)) uw_citation_ok) payload ''assumptions'' = Inr as \<and>
      list_all (assumption_ok uw_citation_ok) as"
    and "\<exists>gs. items_iterated gap_item_from payload ''evidence_gaps'' = Inr gs \<and> list_all gap_item_ok gs"
proof -
  note c = assms [unfolded conforming_def maker_response_schema_def Let_def, THEN conjunct2, THEN conjunct2]
  let ?cite = "uw_citation_schema (fact_ids view) (result_ids s)"
  have risk: "\<exists>r. risk_item_from (fact_ids view) item = Inr r \<and> risk_item_ok r \<and>
      list_all (result_resolves (result_ids s)) (ri_citations r)"
    if "conforms (risk_item_schema ?cite) (JObj item)" for item
    using that conforming_cited [OF assms] by (rule conforms_risk_item)
  have assumption: "\<exists>a. assumption_from (uw_citation_from (fact_ids view)) uw_citation_ok item = Inr a \<and> assumption_ok uw_citation_ok a"
    if "conforms (assumption_schema ?cite) (JObj item)" for item
    using conforms_assumption [OF that, of "uw_citation_from (fact_ids view)" uw_citation_ok] conforming_cited [OF assms] by blast
  show "\<exists>rs. items_iterated (risk_item_from (fact_ids view)) payload key = Inr rs \<and>
        list_all (\<lambda>r. risk_item_ok r \<and> list_all (result_resolves (result_ids s)) (ri_citations r)) rs"
    if "key \<in> {''risks'', ''mitigants''}"
    by (rule conforms_items_iterated [OF c, of key 20 "risk_item_schema ?cite"]) (use that risk in auto)
  show "\<exists>as. items_iterated (assumption_from (uw_citation_from (fact_ids view)) uw_citation_ok) payload ''assumptions'' = Inr as \<and>
      list_all (assumption_ok uw_citation_ok) as"
    by (rule conforms_items_iterated [OF c, of "''assumptions''" 20 "assumption_schema ?cite"]) (use assumption in auto)
  show "\<exists>gs. items_iterated gap_item_from payload ''evidence_gaps'' = Inr gs \<and> list_all gap_item_ok gs"
    by (rule conforms_items_iterated [OF c, of "''evidence_gaps''" 30 evidence_gap_schema]) (use conforms_evidence_gap in auto)
qed

lemma risk_item_from_id: "risk_item_from known item = Inr r \<Longrightarrow> ri_risk_id r = text_of item ''risk_id''"
  by (auto simp: risk_item_from_def rbind_Inr)

lemma conforming_build:
  assumes "conforming sha view s payload" "1 \<le> ev_case_version view" "model_id \<noteq> []" "endpoint_id \<noteq> []"
  defines "raw \<equiv> object_at payload ''proposed_structure''"
  shows "if amount_resolves s raw \<and> amount_cited raw \<and> risks_bind payload
    then \<exists>a. build_assessment new_id now view s run model_id endpoint_id payload = Inr a
    else build_assessment new_id now view s run model_id endpoint_id payload = Inl Output_Invalid"
proof -
  let ?known = "fact_ids view" and ?res = "result_resolves (result_ids s)"
  obtain dr ds where down: "mapping_field payload ''repayment_source'' = Inr dr"
    "items_iterated (uw_finding_from ?known) dr ''downside_scenarios'' = Inr ds"
    "list_all (\<lambda>f. finding_ok uw_citation_ok f \<and> list_all ?res (fd_citations f)) ds"
    using conforming_repayment(2) [OF assms(1)] by blast
  obtain rp where rp: "uw_findings_from ?known payload ''repayment_source'' = Inr rp" "section_ok uw_citation_ok rp"
    "list_all ?res (concat (map fd_citations rp))" using conforming_repayment(1) [OF assms(1)] by blast
  obtain b where b: "uw_findings_from ?known payload ''business'' = Inr b" "section_ok uw_citation_ok b"
    "list_all ?res (concat (map fd_citations b))" using conforming_section [OF assms(1), of "''business''"] by auto
  obtain f where f: "uw_findings_from ?known payload ''financial'' = Inr f" "section_ok uw_citation_ok f"
    "list_all ?res (concat (map fd_citations f))" using conforming_section [OF assms(1), of "''financial''"] by auto
  obtain c where c: "uw_findings_from ?known payload ''cash_flow'' = Inr c" "section_ok uw_citation_ok c"
    "list_all ?res (concat (map fd_citations c))" using conforming_section [OF assms(1), of "''cash_flow''"] by auto
  obtain rs where rs: "items_iterated (risk_item_from ?known) payload ''risks'' = Inr rs"
    "list_all (\<lambda>r. risk_item_ok r \<and> list_all ?res (ri_citations r)) rs"
    using conforming_lists(1) [OF assms(1), of "''risks''"] by auto
  obtain ms where ms: "items_iterated (risk_item_from ?known) payload ''mitigants'' = Inr ms"
    "list_all (\<lambda>r. risk_item_ok r \<and> list_all ?res (ri_citations r)) ms"
    using conforming_lists(1) [OF assms(1), of "''mitigants''"] by auto
  obtain as where as: "items_iterated (assumption_from (uw_citation_from ?known) uw_citation_ok) payload ''assumptions'' = Inr as"
    "list_all (assumption_ok uw_citation_ok) as" using conforming_lists(2) [OF assms(1)] by blast
  obtain gs where gs: "items_iterated gap_item_from payload ''evidence_gaps'' = Inr gs" "list_all gap_item_ok gs"
    using conforming_lists(3) [OF assms(1)] by blast
  obtain dg where dg: "deterministic_gap_items s = Inr dg" "list_all gap_item_ok dg"
    using deterministic_gaps_total assms(1) unfolding conforming_def by blast
  have prov: "provenance_ok (maker_provenance view run model_id endpoint_id now)"
    using assms(2-4) by (simp add: provenance_ok_def maker_provenance_def)
  show ?thesis
  proof (cases "amount_resolves s raw \<and> amount_cited raw")
    case False
    then have "structure_from ?known s payload \<in> {Inl Output_Invalid, Inl Value_Error}"
      using conforming_structure [OF assms(1)] unfolding raw_def by metis
    with False down show ?thesis by (auto simp: build_assessment_def Let_def rejecting_def)
  next
    case True
    then obtain st where st: "structure_from ?known s payload = Inr st" "structure_ok st"
      "list_all ?res (concat (map fd_citations (ps_findings st)))"
      using conforming_structure [OF assms(1)] unfolding raw_def by metis
    define a where "a = \<lparr>ua_id = new_id, ua_provenance = maker_provenance view run model_id endpoint_id now,
       ua_business = b, ua_financial = f, ua_cash_flow = c, ua_repayment = rp, ua_downside = ds,
       ua_structure = st, ua_risks = rs, ua_mitigants = ms, ua_assumptions = as, ua_gaps = merge_gaps dg gs,
       ua_results = su_results s, ua_trends = su_trends s, ua_scenarios = su_scenarios s\<rparr>"
    have known: "known_result_ids a = result_ids s" by (simp add: a_def known_result_ids_def result_ids_def)
    have "list_all ?res (uw_material_citations a)"
      using down(3) rp(3) b(3) f(3) c(3) rs(2) ms(2) st(3)
      unfolding list_all_iff uw_material_citations_def uw_findings_def a_def by auto
    moreover have "map ri_risk_id rs = map (\<lambda>r. text_of r ''risk_id'') (items_of payload ''risks'')"
      "map ri_risk_id ms = map (\<lambda>r. text_of r ''risk_id'') (items_of payload ''mitigants'')"
      by (rule items_iterated_field [OF rs(1)], erule risk_item_from_id)
        (rule items_iterated_field [OF ms(1)], erule risk_item_from_id)
    moreover from this have "list_all (\<lambda>m. ri_risk_id m \<in> ri_risk_id ` set rs) ms \<longleftrightarrow>
        list_all (\<lambda>m. text_of m ''risk_id'' \<in> set (map (\<lambda>r. text_of r ''risk_id'') (items_of payload ''risks'')))
          (items_of payload ''mitigants'')"
    proof -
      assume ids: "map ri_risk_id rs = map (\<lambda>r. text_of r ''risk_id'') (items_of payload ''risks'')"
        "map ri_risk_id ms = map (\<lambda>r. text_of r ''risk_id'') (items_of payload ''mitigants'')"
      have sub: "list_all (\<lambda>m. g m \<in> A) xs \<longleftrightarrow> set (map g xs) \<subseteq> A" for g :: "'x \<Rightarrow> string" and A xs
        by (auto simp: list_all_iff)
      show ?thesis unfolding sub set_map [symmetric] ids ..
    qed
    ultimately have "citations_resolve_and_mitigants_bind a \<longleftrightarrow> risks_bind payload"
      unfolding citations_resolve_and_mitigants_bind_def risks_bind_def Let_def known by (simp add: a_def)
    moreover have "list_all gap_item_ok (merge_gaps dg gs)"
      using dg(2) gs(2) by (auto simp: merge_gaps_def list_all_iff)
    ultimately have "underwriting_ok a \<longleftrightarrow> risks_bind payload"
      using prov rp(2) b(2) f(2) c(2) st(2) down(3) rs(2) ms(2) as(2)
      by (auto simp: underwriting_ok_def a_def list_all_iff)
    moreover have "build_assessment new_id now view s run model_id endpoint_id payload =
        rejecting (validated underwriting_ok a)"
      unfolding build_assessment_def Let_def down(1) down(2) rbind.simps st(1) rs(1) ms(1) as(1) gs(1) dg(1)
        uw_section_def b(1) f(1) c(1) rp(1) validated_def [of provenance_ok] validated_def [of "section_ok uw_citation_ok"]
      by (simp only: prov b(2) f(2) c(2) rp(2) if_True rbind.simps a_def)
    ultimately show ?thesis using True by (simp add: validated_def rejecting_def)
  qed
qed

section \<open>Properties\<close>

text \<open>
  C32: Over a gateway that honours the closed schema, the maker's answer is always an object,
  and it becomes an assessment exactly when the proposed amount names a computed figure of
  the suite (or is null), a finding of that section cites a calculator result, the risks
  have distinct identifiers and every mitigant names a risk; any other answer is rejected
  as invalid output, the case the processor retries.
\<close>

theorem conforming_answer_assessed:
  assumes "honours_schema reason" "build_calculator_suite sha view = Inr s" "bounded_ids view"
    and "1 \<le> ev_case_version view"
    and "reason (maker_response_schema (fact_ids view) (result_ids s)) = Inr (answer, model_id, endpoint_id)"
  shows "\<exists>payload. answer = JObj payload \<and>
    (if amount_resolves s (object_at payload ''proposed_structure'') \<and>
        amount_cited (object_at payload ''proposed_structure'') \<and> risks_bind payload
     then \<exists>a. infer_assessment reason new_id now view s run = Inr a
     else infer_assessment reason new_id now view s run = Inl (Rejected Output_Invalid))"
proof -
  have answer: "conforms (maker_response_schema (fact_ids view) (result_ids s)) answer" "model_id \<noteq> []" "endpoint_id \<noteq> []"
    using assms(1,5) unfolding honours_schema_def by blast+
  then obtain payload where payload: "answer = JObj payload"
    using conforms_is_object unfolding maker_response_schema_def Let_def by blast
  with assms answer(1) have "conforming sha view s payload" by (simp add: conforming_def)
  from conforming_build [OF this assms(4) answer(2,3), of new_id now run] show ?thesis
    using assms(5) payload by (auto simp: infer_assessment_def rejected_output_def split: if_splits)
qed

text \<open>
  C33: An accepted assessment rests on evidence: its material citations are confirmed facts of
  the view or results of the suite, the proposed amount is a computed figure whose inputs
  all rest on confirmed facts, the figures are the suite's own, and every calculator input
  the view could not supply is among its evidence gaps, whatever the model declared.
\<close>

theorem assessment_rests_on_evidence:
  assumes "build_calculator_suite sha view = Inr s" "bounded_ids view"
    and "infer_assessment reason new_id now view s run = Inr a"
  shows "list_all (uw_grounded view s) (uw_material_citations a) \<and>
    (\<forall>v. ps_amount (ua_structure a) = Some v \<longrightarrow>
       (\<exists>r. r \<in> set (ua_results a) \<and> cr_outcome r = Computed v \<and> result_supported view r)) \<and>
    ua_results a = su_results s \<and>
    list_all (\<lambda>m. missing_text m \<in> eg_missing_information ` set (ua_gaps a)) (su_missing s)"
proof -
  from assms(3) obtain m e payload where
    built: "build_assessment new_id now view s run m e payload = Inr a"
    by (auto simp: infer_assessment_def rejected_output_def split: sum.splits option.splits)
  note a = build_assessment_Inr [OF built assms(2)]
  have "list_all (result_supported view) (su_results s)" by (rule suite_results_supported [OF assms(1)])
  then have "\<exists>r. r \<in> set (ua_results a) \<and> cr_outcome r = Computed v \<and> result_supported view r"
    if "ps_amount (ua_structure a) = Some v" for v
    using a(5) [OF that] a(6) by (auto simp: list_all_iff)
  moreover have "list_all (\<lambda>m. missing_text m \<in> eg_missing_information ` set (ua_gaps a)) (su_missing s)"
    using a(4) unfolding list_all_iff image_iff by metis
  ultimately show ?thesis using a(2,6) by blast
qed

section \<open>Samples\<close>

definition maker_cite :: "string \<Rightarrow> json" where
  "maker_cite rid = JObj [(''kind'', JStr ''CALCULATOR_RESULT''), (''result_id'', JStr rid)]"

definition maker_finding :: "string \<Rightarrow> json" where
  "maker_finding rid = JObj [(''statement_vi'', JStr ''s''), (''citations'', JList [maker_cite rid]),
     (''confidence'', JStr ''LOW'')]"

definition maker_payload :: "string \<Rightarrow> json list \<Rightarrow> (string \<times> json) list" where
  "maker_payload rid gaps =
     (let part = JObj [(''findings'', JList [maker_finding rid])]
      in [(''business'', part), (''financial'', part), (''cash_flow'', part),
          (''repayment_source'', JObj [(''findings'', JList [maker_finding rid]), (''downside_scenarios'', JList [])]),
          (''proposed_structure'', JObj [(''instrument_vi'', JStr ''i''), (''proposed_amount_result_id'', JStr rid),
             (''findings'', JList [maker_finding rid])]),
          (''risks'', JList []), (''mitigants'', JList []), (''assumptions'', JList []), (''evidence_gaps'', JList gaps)])"

definition maker_reason :: "string \<Rightarrow> json list \<Rightarrow> json_schema \<Rightarrow> unit + json \<times> string \<times> string" where
  "maker_reason rid gaps schema =
     (if conforms schema (JObj (maker_payload rid gaps)) then Inr (JObj (maker_payload rid gaps), ''m'', ''e'') else Inl ())"

definition sample_maker_run :: maker_run where
  "sample_maker_run = \<lparr>mk_task_id = 5, mk_execution_id = 6, mk_correlation_id = ''underwriting''\<rparr>"

lemma maker_reason_honours: "honours_schema (maker_reason rid gaps)"
  by (simp add: honours_schema_def maker_reason_def)

lemma maker_finding_conforms:
  assumes "rid \<in> set results" "facts \<noteq> []"
  shows "conforms (finding_schema (uw_citation_schema facts results)) (maker_finding rid)"
proof -
  have "results \<noteq> []" using assms(1) by auto
  then have "conforms (uw_citation_schema facts results) (maker_cite rid)"
    using assms by (simp add: uw_citation_schema_def maker_cite_def conforms.simps object_ok_def string_ok_def)
  then show ?thesis
    by (simp add: finding_schema_def maker_finding_def conforms.simps object_ok_def string_ok_def array_ok_def
        confidence_schema_def confidence_levels_def)
qed

lemma maker_payload_conforms:
  assumes "rid \<in> set results" "facts \<noteq> []" "list_all (conforms evidence_gap_schema) gaps" "length gaps \<le> 30"
  shows "conforms (maker_response_schema facts results) (JObj (maker_payload rid gaps))"
  using maker_finding_conforms [OF assms(1,2)] assms(1,3,4)
  by (auto simp: maker_response_schema_def maker_payload_def Let_def conforms.simps object_ok_def array_ok_def
      string_ok_def section_schema_def repayment_schema_def structure_schema_def)

lemma sample_assessment:
  assumes gaps: "list_all (conforms evidence_gap_schema) gaps" "length gaps \<le> 30"
  shows "\<exists>s rid. build_calculator_suite (\<lambda>_. []) balance_view = Inr s \<and>
     maker_reason rid gaps (maker_response_schema (fact_ids balance_view) (result_ids s)) =
       Inr (JObj (maker_payload rid gaps), ''m'', ''e'') \<and>
     amount_resolves s (object_at (maker_payload rid gaps) ''proposed_structure'') \<and>
     amount_cited (object_at (maker_payload rid gaps) ''proposed_structure'') \<and> risks_bind (maker_payload rid gaps)"
proof -
  obtain s where s: "build_calculator_suite (\<lambda>_. []) balance_view = Inr s"
    "cr_outcome (hd (su_results s)) = Computed (3 / 2)" "su_results s \<noteq> []" using balance_suite by blast
  define rid where "rid = cr_result_id (hd (su_results s))"
  have rid: "rid \<in> set (result_ids s)" using s(3) by (simp add: rid_def result_ids_def)
  have "fact_ids balance_view \<noteq> []" by (simp add: fact_ids_def balance_view_def)
  from maker_payload_conforms [OF rid this gaps]
  have "maker_reason rid gaps (maker_response_schema (fact_ids balance_view) (result_ids s)) =
      Inr (JObj (maker_payload rid gaps), ''m'', ''e'')" by (simp add: maker_reason_def)
  moreover have "(rid, 3 / 2) \<in> set (computed_figures s)"
    unfolding computed_figures_iff using s(2,3) hd_in_set rid_def by blast
  then have "amount_resolves s (object_at (maker_payload rid gaps) ''proposed_structure'')"
    by (force simp: amount_resolves_def object_at_def maker_payload_def get_or_def Let_def)
  moreover have "amount_cited (object_at (maker_payload rid gaps) ''proposed_structure'')" "risks_bind (maker_payload rid gaps)"
    by (simp_all add: amount_cited_def risks_bind_def cites_result_def object_at_def items_of_def maker_payload_def
        maker_finding_def maker_cite_def get_or_def Let_def)
  ultimately show ?thesis using s(1) by blast
qed

lemma balance_bounded: "bounded_ids balance_view" "1 \<le> ev_case_version balance_view"
  by (simp_all add: bounded_ids_def balance_view_def sample_fact_def)

lemma no_gaps: "list_all (conforms evidence_gap_schema) []" "length ([] :: json list) \<le> 30"
  by simp_all

theorem conforming_answer_assessed_witness:
  "\<exists>rid s a. build_calculator_suite (\<lambda>_. []) balance_view = Inr s \<and>
     infer_assessment (maker_reason rid []) 9 200 balance_view s sample_maker_run = Inr a"
proof -
  obtain s rid where s: "build_calculator_suite (\<lambda>_. []) balance_view = Inr s"
    "maker_reason rid [] (maker_response_schema (fact_ids balance_view) (result_ids s)) =
       Inr (JObj (maker_payload rid []), ''m'', ''e'')"
    "amount_resolves s (object_at (maker_payload rid []) ''proposed_structure'')"
    "amount_cited (object_at (maker_payload rid []) ''proposed_structure'')" "risks_bind (maker_payload rid [])"
    using sample_assessment [OF no_gaps] by blast
  from conforming_answer_assessed [OF maker_reason_honours s(1) balance_bounded s(2), of 9 200 sample_maker_run] s
  show ?thesis by auto
qed

theorem assessment_rests_on_evidence_witness:
  "\<exists>rid s a. infer_assessment (maker_reason rid []) 9 200 balance_view s sample_maker_run = Inr a \<and>
     list_all (uw_grounded balance_view s) (uw_material_citations a) \<and> ua_results a = su_results s"
proof -
  obtain s rid where s: "build_calculator_suite (\<lambda>_. []) balance_view = Inr s"
    "maker_reason rid [] (maker_response_schema (fact_ids balance_view) (result_ids s)) =
       Inr (JObj (maker_payload rid []), ''m'', ''e'')"
    "amount_resolves s (object_at (maker_payload rid []) ''proposed_structure'')"
    "amount_cited (object_at (maker_payload rid []) ''proposed_structure'')" "risks_bind (maker_payload rid [])"
    using sample_assessment [OF no_gaps] by blast
  have "conforming (\<lambda>_. []) balance_view s (maker_payload rid [])"
    using maker_reason_honours [of rid "[]", unfolded honours_schema_def] s(1,2) balance_bounded(1)
    unfolding conforming_def by blast
  from conforming_build [OF this balance_bounded(2), of "''m''" "''e''" 9 200 sample_maker_run] s
  obtain a where "infer_assessment (maker_reason rid []) 9 200 balance_view s sample_maker_run = Inr a"
    by (auto simp: infer_assessment_def rejected_output_def)
  from assessment_rests_on_evidence [OF s(1) balance_bounded(1) this] this show ?thesis by blast
qed

end
