(* ===== verification/Maker_Delivery.thy ===== *)
theory Maker_Delivery
  imports Maker_Processor Maker_Schema
begin

text \<open>
  The deliveries of one maker task.  The others may do anything between two calls that
  leaves the outputs of this task alone and that names no handoff of the maker without
  its assessment; identifiers of handoffs are derived from those of the assessments without
  collision (\<open>uuid5\<close>).
\<close>

section \<open>The invariant\<close>

definition hid :: "(string \<Rightarrow> uuid) \<Rightarrow> uuid \<Rightarrow> uuid" where
  "hid u5 i = u5 (''underwriting-handoff:'' @ str_uuid i)"

definition handoffs_named :: "(string \<Rightarrow> uuid) \<Rightarrow> uuid set \<Rightarrow> maker_store \<Rightarrow> bool" where
  "handoffs_named u5 ids st \<longleftrightarrow>
     (\<forall>h\<in>set (um_handoffs st). \<forall>i\<in>ids. gh_id h = hid u5 i \<longrightarrow> i \<in> (ua_id \<circ> fst) ` set (um_assessments st))"

definition outputs_complete :: "(string \<Rightarrow> uuid) \<Rightarrow> task_key3 \<Rightarrow> maker_store \<Rightarrow> bool" where
  "outputs_complete u5 k st \<longleftrightarrow>
     (let out = outputs_of k st in
      (mo_assessments out = [] \<and> mo_handoffs out = [] \<and> mo_gaps out = []) \<or>
      (\<exists>a h. mo_assessments out = [a] \<and> mo_handoffs out = [h] \<and> gh_id h = hid u5 (ua_id a) \<and>
         map gg_record (mo_gaps out) = maker_gap_records a))"

definition has_output :: "task_key3 \<Rightarrow> (maker_store, 'k) agent_world \<Rightarrow> bool" where
  "has_output k w \<longleftrightarrow> mo_assessments (outputs_of k (aw_store w)) \<noteq> []"

definition checkpoint_true :: "uuid set \<Rightarrow> task_key3 \<Rightarrow> (maker_store, maker_checkpoint) agent_world \<Rightarrow> bool" where
  "checkpoint_true ids k w \<longleftrightarrow>
     (case aw_checkpoint w of
        Some Ck_Persisted \<Rightarrow> has_output k w
      | Some (Ck_Inference a) \<Rightarrow> assessment_key a = k \<and> ua_id a \<in> ids
      | _ \<Rightarrow> True)"

definition maker_inv :: "(string \<Rightarrow> uuid) \<Rightarrow> uuid set \<Rightarrow> task_key3 \<Rightarrow> (maker_store, maker_checkpoint) agent_world \<Rightarrow> bool" where
  "maker_inv u5 ids k w \<longleftrightarrow>
     handoffs_named u5 ids (aw_store w) \<and> outputs_complete u5 k (aw_store w) \<and> checkpoint_true ids k w"

definition others_keep :: "(string \<Rightarrow> uuid) \<Rightarrow> uuid set \<Rightarrow> task_key3 \<Rightarrow> maker_store agent_env \<Rightarrow> bool" where
  "others_keep u5 ids k env \<longleftrightarrow>
     (\<forall>n st. outputs_of k (ae_others env n st) = outputs_of k st \<and>
        (handoffs_named u5 ids st \<longrightarrow> handoffs_named u5 ids (ae_others env n st)))"

definition delivery_ok :: "(string \<Rightarrow> uuid) \<Rightarrow> uuid set \<Rightarrow> task_key3 \<Rightarrow> maker_env \<Rightarrow> bool" where
  "delivery_ok u5 ids k env \<longleftrightarrow> me_uuid5 env = u5 \<and> range (ae_uuid (me_agent env)) \<subseteq> ids \<and> others_keep u5 ids k (me_agent env)"

lemma maker_inv_undisturbed: "others_keep u5 ids k env \<Longrightarrow> undisturbed env (maker_inv u5 ids k)"
  by (auto simp: undisturbed_def others_keep_def maker_inv_def interfered_def outputs_complete_def
      checkpoint_true_def has_output_def split: option.splits maker_checkpoint.splits)

lemma has_output_undisturbed: "others_keep u5 ids k env \<Longrightarrow> undisturbed env (\<lambda>w. maker_inv u5 ids k w \<and> has_output k w)"
  using maker_inv_undisturbed [of u5 ids k env]
  by (auto simp: undisturbed_def others_keep_def interfered_def has_output_def)

lemma maker_inv_fields [simp]:
  "maker_inv u5 ids k (w\<lparr>aw_drawn := n\<rparr>) = maker_inv u5 ids k w"
  "maker_inv u5 ids k (w\<lparr>aw_calls := n\<rparr>) = maker_inv u5 ids k w"
  "maker_inv u5 ids k (w\<lparr>aw_manifests := ms\<rparr>) = maker_inv u5 ids k w"
  "has_output k (w\<lparr>aw_drawn := n\<rparr>) = has_output k w"
  "has_output k (w\<lparr>aw_calls := n\<rparr>) = has_output k w"
  "has_output k (w\<lparr>aw_manifests := ms\<rparr>) = has_output k w"
  "has_output k (w\<lparr>aw_checkpoint := c\<rparr>) = has_output k w"
  by (simp_all add: maker_inv_def checkpoint_true_def has_output_def cong: option.case_cong maker_checkpoint.case_cong)

lemma outputs_of_audit [simp]:
  "outputs_of k (append_maker_audit c v e x i st) = outputs_of k st"
  "handoffs_named u5 ids (append_maker_audit c v e x i st) = handoffs_named u5 ids st"
  by (simp_all add: append_maker_audit_def outputs_of_def handoffs_named_def)

section \<open>Persisting\<close>

lemma insert_gaps_named:
  "insert_gaps k actor gs st = Inr (ids, st') \<Longrightarrow> um_assessments st' = um_assessments st \<and> um_handoffs st' = um_handoffs st"
  using insert_gaps_effect by fast

lemma persist_named:
  assumes "persist_assessment a (hid u5 (ua_id a)) risk_review_state gaps st = Inr (p, st')"
    and "handoffs_named u5 ids st" "inj_on (hid u5) ids" "ua_id a \<in> ids"
  shows "handoffs_named u5 ids st'"
    and "find_assessment (assessment_key a) st = None \<Longrightarrow> hid u5 (ua_id a) \<notin> gh_id ` set (um_handoffs st)"
proof -
  show new: "hid u5 (ua_id a) \<notin> gh_id ` set (um_handoffs st)" if "find_assessment (assessment_key a) st = None"
    using assms(1,2,4) that by (fastforce simp: persist_assessment_def Let_def result_simps handoffs_named_def)
  show "handoffs_named u5 ids st'"
  proof (cases "find_assessment (assessment_key a) st")
    case (Some b)
    with assms(1,2) show ?thesis by (auto simp: persist_assessment_def Let_def result_simps split: option.splits)
  next
    case None
    with assms(1) obtain ids st1 where ins: "insert_gaps (assessment_key a) maker_actor gaps
        (st\<lparr>um_assessments := um_assessments st @ [(a, um_clock st)]\<rparr>) = Inr (ids, st1)"
      "st' = insert_maker_handoff (hid u5 (ua_id a)) risk_review_state a st1"
      by (auto simp: persist_assessment_def Let_def result_simps)
    from insert_gaps_named [OF ins(1)] assms(2,3,4) show ?thesis
      unfolding ins(2) by (auto simp: handoffs_named_def insert_maker_handoff_def dest: inj_onD)
  qed
qed

lemma persist_complete:
  assumes p: "persist_assessment a (hid u5 (ua_id a)) risk_review_state (maker_gap_records a) st = Inr (p, st')"
    and "handoffs_named u5 ids st" "outputs_complete u5 (assessment_key a) st" "inj_on (hid u5) ids" "ua_id a \<in> ids"
  shows "outputs_complete u5 (assessment_key a) st'" "mo_assessments (outputs_of (assessment_key a) st') \<noteq> []"
proof -
  let ?k = "assessment_key a"
  note effect = persist_assessment_Inr [OF p]
  have "outputs_complete u5 ?k st' \<and> mo_assessments (outputs_of ?k st') \<noteq> []"
  proof (cases "mo_assessments (outputs_of ?k st) = []")
    case False
    with effect assms(3) show ?thesis by auto
  next
    case True
    then have "find_assessment ?k st = None" by (simp add: find_assessment_outputs)
    from persist_named(2) [OF p assms(2,4,5) this] have fresh: "hid u5 (ua_id a) \<notin> gh_id ` set (um_handoffs st)" .
    have empty: "mo_handoffs (outputs_of ?k st) = []" "mo_gaps (outputs_of ?k st) = []"
      using assms(3) True by (auto simp: outputs_complete_def Let_def)
    from effect True fresh empty show ?thesis by (auto simp: outputs_complete_def Let_def)
  qed
  then show "outputs_complete u5 ?k st'" "mo_assessments (outputs_of ?k st') \<noteq> []" by auto
qed

section \<open>The stages\<close>

text \<open>The assertion of a delivery: the invariant, and the output once it has been persisted.\<close>

definition holding :: "(string \<Rightarrow> uuid) \<Rightarrow> uuid set \<Rightarrow> task_key3 \<Rightarrow> bool \<Rightarrow> (maker_store, maker_checkpoint) agent_world \<Rightarrow> bool" where
  "holding u5 ids k b w \<longleftrightarrow> maker_inv u5 ids k w \<and> (b \<longrightarrow> has_output k w)"

abbreviation maker_stage where
  "maker_stage u5 ids k b m Q \<equiv> hoare (holding u5 ids k b) m Q (\<lambda>_. holding u5 ids k b)"

lemma holding_undisturbed: "others_keep u5 ids k env \<Longrightarrow> undisturbed env (holding u5 ids k b)"
  using maker_inv_undisturbed [of u5 ids k env] has_output_undisturbed [of u5 ids k env]
  by (cases b) (auto simp: holding_def undisturbed_def)

lemma holding_fields [simp]:
  "holding u5 ids k b (w\<lparr>aw_drawn := n\<rparr>) = holding u5 ids k b w"
  "holding u5 ids k b (w\<lparr>aw_calls := n\<rparr>) = holding u5 ids k b w"
  "holding u5 ids k b (w\<lparr>aw_manifests := ms\<rparr>) = holding u5 ids k b w"
  by (simp_all add: holding_def)

lemma holding_audit: "holding u5 ids k b w \<Longrightarrow> holding u5 ids k b (w\<lparr>aw_store := append_maker_audit c v e x i (aw_store w)\<rparr>)"
  by (auto simp: holding_def maker_inv_def outputs_complete_def checkpoint_true_def has_output_def
      split: option.splits maker_checkpoint.splits)

lemma stage_next_uuid: "maker_stage u5 ids k b (next_uuid env) (\<lambda>_. holding u5 ids k b)"
  by (rule hoare_weaken [OF hoare_next_uuid [of "holding u5 ids k b"]]) auto

lemma stage_save_point:
  assumes "others_keep u5 ids k env"
    and "\<And>w. holding u5 ids k b w \<Longrightarrow> checkpoint_true ids k (w\<lparr>aw_checkpoint := Some c\<rparr>)"
  shows "maker_stage u5 ids k b (save_point env c) (\<lambda>_. holding u5 ids k b)"
  by (rule hoare_save_point [OF holding_undisturbed [OF assms(1)]])
    (use assms(2) in \<open>auto simp: holding_def maker_inv_def has_output_def\<close>)

lemma stage_audit:
  assumes "others_keep u5 ids k (me_agent env)"
  shows "maker_stage u5 ids k b (audit_maker env t e) (\<lambda>_. holding u5 ids k b)"
  unfolding audit_maker_def maker_store_op_def
  by (rule hoare_and_then [OF stage_next_uuid],
      rule hoare_weaken [OF hoare_on_repo [OF holding_undisturbed [OF assms], where Q = "\<lambda>_ _. True"]])
    (auto simp: holding_audit)

lemma stage_persist:
  assumes "others_keep u5 ids k (me_agent env)" "me_uuid5 env = u5" "inj_on (hid u5) ids" "assessment_key a = k" "ua_id a \<in> ids"
  shows "hoare (holding u5 ids k b) (persist_maker_output env a) (\<lambda>_. holding u5 ids k True) (\<lambda>_. holding u5 ids k b)"
  unfolding persist_maker_output_def maker_store_op_def
proof (rule hoare_weaken [OF hoare_on_repo [OF holding_undisturbed [OF assms(1)], where Q = "\<lambda>_. has_output k"]])
  fix w x st
  assume w: "holding u5 ids k b w" and "(case persist_assessment a (maker_handoff_id env a) risk_review_state (maker_gap_records a) (aw_store w) of
      Inl e \<Rightarrow> Inl (Maker_Store_Failed e) | Inr r \<Rightarrow> Inr r) = Inr (x, st)"
  then have p: "persist_assessment a (hid u5 (ua_id a)) risk_review_state (maker_gap_records a) (aw_store w) = Inr (x, st)"
    using assms(2) by (auto simp: hid_def maker_handoff_id_def split: sum.splits)
  from w have inv: "handoffs_named u5 ids (aw_store w)" "outputs_complete u5 (assessment_key a) (aw_store w)"
    "checkpoint_true ids k w" by (simp_all add: holding_def maker_inv_def assms(4))
  have "handoffs_named u5 ids st" using persist_named(1) [OF p inv(1) assms(3,5)] .
  moreover have "outputs_complete u5 k st" "has_output k (w\<lparr>aw_store := st\<rparr>)"
    using persist_complete [OF p inv(1,2) assms(3,5)] assms(4) by (simp_all add: has_output_def)
  moreover have "checkpoint_true ids k (w\<lparr>aw_store := st\<rparr>)"
    using inv(3) \<open>has_output k (w\<lparr>aw_store := st\<rparr>)\<close>
    by (auto simp: checkpoint_true_def split: option.splits maker_checkpoint.splits)
  ultimately show "holding u5 ids k b (w\<lparr>aw_store := st\<rparr>) \<and> has_output k (w\<lparr>aw_store := st\<rparr>)"
    by (simp add: holding_def maker_inv_def)
qed (auto simp: holding_def)

abbreviation maker_result where
  "maker_result u5 ids k c r w \<equiv> holding u5 ids k c w \<and> (sr_status r = Succeeded \<longrightarrow> has_output k w)"

abbreviation maker_run_ok where
  "maker_run_ok u5 ids k c P m \<equiv> hoare P m (maker_result u5 ids k c) (\<lambda>_. holding u5 ids k c)"

lemma holding_weaken: "holding u5 ids k b w \<Longrightarrow> (c \<longrightarrow> b) \<Longrightarrow> holding u5 ids k c w"
  by (simp add: holding_def)

lemma run_then:
  "(c \<longrightarrow> b) \<Longrightarrow> maker_stage u5 ids k b m (\<lambda>_. holding u5 ids k b) \<Longrightarrow> (\<And>x. maker_run_ok u5 ids k c (holding u5 ids k b) (f x)) \<Longrightarrow>
   maker_run_ok u5 ids k c (holding u5 ids k b) (and_then m f)"
  by (rule hoare_and_then [where R = "\<lambda>_. holding u5 ids k b"], erule hoare_weaken) (auto intro: holding_weaken)

lemma run_with:
  assumes "maker_stage u5 ids k c m (\<lambda>x w. holding u5 ids k c w \<and> R x w)" "\<And>x w. holding u5 ids k c w \<Longrightarrow> R x w \<Longrightarrow> S x"
    and "\<And>x. S x \<Longrightarrow> maker_run_ok u5 ids k c (holding u5 ids k c) (f x)"
  shows "maker_run_ok u5 ids k c (holding u5 ids k c) (and_then m f)"
proof (rule hoare_and_then [where R = "\<lambda>x w. holding u5 ids k c w \<and> S x"])
  show "maker_stage u5 ids k c m (\<lambda>x w. holding u5 ids k c w \<and> S x)"
    by (rule hoare_weaken [OF assms(1)]) (auto simp: assms(2))
  show "maker_run_ok u5 ids k c (\<lambda>w. holding u5 ids k c w \<and> S x) (f x)" for x
    using assms(3) [of x] by (cases "S x") (auto simp: hoare_def)
qed

lemma run_end: "(c \<longrightarrow> b) \<Longrightarrow> (out = Succeeded \<Longrightarrow> b) \<Longrightarrow> maker_run_ok u5 ids k c (holding u5 ids k b) (stage_done out reason)"
  by (auto simp: hoare_def stage_done_def holding_def)

lemma run_persist_stage:
  assumes "delivery_ok u5 ids k env" "inj_on (hid u5) ids" "assessment_key a = k" "ua_id a \<in> ids"
  shows "maker_run_ok u5 ids k c (holding u5 ids k c) (maker_persist_stage env t a)"
proof -
  have o: "others_keep u5 ids k (me_agent env)" "me_uuid5 env = u5" using assms(1) by (auto simp: delivery_ok_def)
  have "maker_run_ok u5 ids k c (holding u5 ids k True) (and_then (save_point (me_agent env) Ck_Persisted) (\<lambda>_.
     and_then (audit_maker env t ''UNDERWRITING_ASSESSMENT_PERSISTED'') (\<lambda>_. stage_done Succeeded [])))"
    by (intro run_then stage_audit stage_save_point o run_end)
      (simp_all add: checkpoint_true_def holding_def)
  from hoare_and_then [OF hoare_weaken [OF stage_persist [OF o assms(2,3,4)]] this] show ?thesis
    unfolding maker_persist_stage_def by auto
qed

lemma build_assessment_provenance:
  "build_assessment new_id now view s run model_id endpoint_id payload = Inr a \<Longrightarrow>
   ua_id a = new_id \<and> ua_provenance a = maker_provenance view run model_id endpoint_id now"
  unfolding build_assessment_def Let_def rejecting_Inr rbind_Inr validated_Inr by auto

lemma infer_assessment_key:
  assumes "infer_assessment reason new_id now view s run = Inr a"
  shows "assessment_key a = (ev_case_id view, ev_case_version view, mk_task_id run)" "ua_id a = new_id"
proof -
  from assms obtain model_id endpoint_id kvs where
    "build_assessment new_id now view s run model_id endpoint_id kvs = Inr a"
    unfolding infer_assessment_def by (auto split: sum.splits option.splits simp: rejected_output_def)
  from build_assessment_provenance [OF this] show "assessment_key a = (ev_case_id view, ev_case_version view, mk_task_id run)" "ua_id a = new_id"
    by (simp_all add: assessment_key_def maker_provenance_def)
qed

lemma load_maker_view_case: "load_maker_view c st = Some view \<Longrightarrow> ev_case_id view = c"
  by (auto simp: load_maker_view_def split: option.splits)

lemma stage_call_gateway:
  assumes "others_keep u5 ids k env"
  shows "maker_stage u5 ids k b (call_gateway env answer) (\<lambda>x w. holding u5 ids k b w \<and> x = answer)"
  by (rule hoare_call_gateway [OF holding_undisturbed [OF assms]]) simp

lemma run_inference_stage:
  assumes ok: "delivery_ok u5 ids (task_key_of t) env" "inj_on (hid u5) ids"
    and view: "ev_case_id view = pt_case_id t" "ev_case_version view = pt_case_version t"
  shows "maker_run_ok u5 ids (task_key_of t) c (holding u5 ids (task_key_of t) c) (maker_inference_stage env t reason view s)"
proof -
  let ?k = "task_key_of t"
  have o: "others_keep u5 ids ?k (me_agent env)" using ok(1) by (simp add: delivery_ok_def)
  have rejected: "maker_run_ok u5 ids ?k c (holding u5 ids ?k c)
      (and_then (audit_maker env t e) (\<lambda>_. stage_done out reason))" if "out \<noteq> Succeeded" for e out reason
    using that by (intro run_then stage_audit o run_end) simp_all
  have raised: "maker_run_ok u5 ids ?k c (holding u5 ids ?k c) (raise e)" for e
    by (rule hoare_raise)
  have accepted: "maker_run_ok u5 ids ?k c (holding u5 ids ?k c)
      (and_then (save_point (me_agent env) (Ck_Inference a)) (\<lambda>_. maker_persist_stage env t a))"
    if "assessment_key a = ?k \<and> ua_id a \<in> ids" for a
    using that by (intro run_then stage_save_point o run_persist_stage ok) (simp_all add: checkpoint_true_def)
  show ?thesis
    unfolding maker_inference_stage_def
  proof (rule run_then [OF imp_refl stage_next_uuid], rule run_with [where S = "\<lambda>i. i \<in> ids", OF hoare_next_uuid])
    fix execution_id assessment_id assume id: "assessment_id \<in> ids"
    let ?run = "\<lparr>mk_task_id = pt_id t, mk_execution_id = execution_id,
           mk_correlation_id = ''underwriting:'' @ str_uuid (pt_id t)\<rparr>"
    let ?answer = "infer_assessment reason assessment_id (me_now env) view s ?run"
    let ?next = "\<lambda>answer. case answer of
       Inl (Endpoint_Failed Endpoint_Unavailable) \<Rightarrow>
         and_then (audit_maker env t ''UNDERWRITING_GATEWAY_UNAVAILABLE'') (\<lambda>_.
         stage_done FailedManualReview ''FPT reasoning endpoint unavailable'')
     | Inl (Rejected e) \<Rightarrow>
         if e = Output_Invalid
         then and_then (audit_maker env t ''UNDERWRITING_OUTPUT_REJECTED'') (\<lambda>_.
              stage_done RetryWait (me_rejection env (Rejected e)))
         else raise (Agent_Exn (Maker_Output_Failed e))
     | Inl (Endpoint_Failed Endpoint_Error) \<Rightarrow>
         and_then (audit_maker env t ''UNDERWRITING_OUTPUT_REJECTED'') (\<lambda>_.
         stage_done RetryWait (me_rejection env (Endpoint_Failed Endpoint_Error)))
     | Inr a \<Rightarrow>
         and_then (save_point (me_agent env) (Ck_Inference a)) (\<lambda>_. maker_persist_stage env t a)"
    have continued: "maker_run_ok u5 ids ?k c (holding u5 ids ?k c) (?next ?answer)"
    proof (cases ?answer)
      case (Inl e)
      then show ?thesis
        by (cases e) (auto simp: rejected raised split: gateway_failure.split)
    next
      case (Inr a)
      from infer_assessment_key [OF Inr] view id have "assessment_key a = ?k \<and> ua_id a \<in> ids" by (simp add: task_key_of_def)
      with accepted Inr show ?thesis by simp
    qed
    show "maker_run_ok u5 ids ?k c (holding u5 ids ?k c) (and_then (call_gateway (me_agent env) ?answer) ?next)"
      by (rule run_with [where S = "\<lambda>x. x = ?answer", OF stage_call_gateway [OF o]]) (use continued in simp_all)
  qed (use ok(1) in \<open>auto simp: delivery_ok_def\<close>)
qed

lemma stage_manifest:
  assumes "others_keep u5 ids k (me_agent env)"
  shows "maker_stage u5 ids k b (maker_context_manifest env t view) (\<lambda>_. holding u5 ids k b)"
proof (cases "me_governance env")
  case (Some hash)
  have "maker_stage u5 ids k b (persist_manifest (me_agent env) (pt_id t) (hash view)) (\<lambda>_. holding u5 ids k b)"
    by (rule hoare_persist_manifest [OF holding_undisturbed [OF assms]]) simp
  from hoare_and_then [OF this stage_audit [OF assms]] Some show ?thesis by (simp add: maker_context_manifest_def)
qed (simp add: maker_context_manifest_def hoare_ret)

lemma stage_suite: "maker_stage u5 ids k b (suite_act r) (\<lambda>_. holding u5 ids k b)"
  by (cases r) (auto simp: suite_act_def intro: hoare_ret hoare_raise)

lemma run_fresh:
  assumes ok: "delivery_ok u5 ids (task_key_of t) env" "inj_on (hid u5) ids"
  shows "maker_run_ok u5 ids (task_key_of t) c (holding u5 ids (task_key_of t) c) (maker_fresh_run env t)"
proof (cases "me_gateway env")
  case None
  have "others_keep u5 ids (task_key_of t) (me_agent env)" using ok(1) by (simp add: delivery_ok_def)
  with None show ?thesis by (auto simp: maker_fresh_run_def intro!: run_then stage_audit run_end)
next
  case (Some reason)
  let ?k = "task_key_of t"
  have o: "others_keep u5 ids ?k (me_agent env)" using ok(1) by (simp add: delivery_ok_def)
  have inner: "maker_run_ok u5 ids ?k c (holding u5 ids ?k c)
     (if ev_case_version view \<noteq> pt_case_version t
      then stage_done Superseded ''case version advanced past this task's bound version''
      else if ev_facts view = []
      then and_then (audit_maker env t ''UNDERWRITING_NO_CONFIRMED_FACTS'') (\<lambda>_.
           stage_done FailedManualReview ''evidence view contains no confirmed facts'')
      else
        and_then (save_point (me_agent env) Ck_Evidence_View) (\<lambda>_.
        and_then (suite_act (build_calculator_suite (me_sha env) view)) (\<lambda>s.
        and_then (save_point (me_agent env) Ck_Calculators) (\<lambda>_.
        and_then (maker_context_manifest env t view) (\<lambda>_.
        maker_inference_stage env t reason view s)))))"
    if "ev_case_id view = pt_case_id t" for view
    using that
    by (intro hoare_if run_then stage_audit stage_save_point stage_suite stage_manifest run_inference_stage run_end o ok)
      (simp_all add: checkpoint_true_def)
  have read: "maker_stage u5 ids ?k c (from_repo (me_agent env) (load_maker_view (pt_case_id t)))
      (\<lambda>x w. holding u5 ids ?k c w \<and> x = load_maker_view (pt_case_id t) (aw_store w))"
    by (rule hoare_from_repo [OF holding_undisturbed [OF o]])
  show ?thesis
    unfolding maker_fresh_run_def Some option.case
  proof (rule run_with [where S = "\<lambda>x. \<forall>view. x = Some view \<longrightarrow> ev_case_id view = pt_case_id t", OF read])
    fix x :: "evidence_view option" assume "\<forall>view. x = Some view \<longrightarrow> ev_case_id view = pt_case_id t"
    then show "maker_run_ok u5 ids ?k c (holding u5 ids ?k c)
      (case x of None \<Rightarrow> stage_done FailedManualReview (''case '' @ str_uuid (pt_case_id t) @ '' has no evidence view'')
       | Some view \<Rightarrow>
          if ev_case_version view \<noteq> pt_case_version t
          then stage_done Superseded ''case version advanced past this task's bound version''
          else if ev_facts view = []
          then and_then (audit_maker env t ''UNDERWRITING_NO_CONFIRMED_FACTS'') (\<lambda>_.
               stage_done FailedManualReview ''evidence view contains no confirmed facts'')
          else
            and_then (save_point (me_agent env) Ck_Evidence_View) (\<lambda>_.
            and_then (suite_act (build_calculator_suite (me_sha env) view)) (\<lambda>s.
            and_then (save_point (me_agent env) Ck_Calculators) (\<lambda>_.
            and_then (maker_context_manifest env t view) (\<lambda>_.
            maker_inference_stage env t reason view s)))))"
      using inner by (cases x) (auto intro: run_end)
  qed (auto dest: load_maker_view_case)
qed

section \<open>Any number of deliveries\<close>

lemma run_process:
  assumes ok: "delivery_ok u5 ids (task_key_of t) env" "inj_on (hid u5) ids"
  shows "maker_run_ok u5 ids (task_key_of t) c (holding u5 ids (task_key_of t) c) (process_maker t env)"
proof -
  let ?k = "task_key_of t"
  have o: "others_keep u5 ids ?k (me_agent env)" using ok(1) by (simp add: delivery_ok_def)
  let ?rest = "and_then (from_repo (me_agent env) (find_persisted_maker ?k)) (\<lambda>existing. case existing of
            Some persisted \<Rightarrow> and_then (save_point (me_agent env) Ck_Persisted) (\<lambda>_. stage_done Succeeded [])
          | None \<Rightarrow> maker_fresh_run env t)"
  have found: "hoare (holding u5 ids ?k c) (from_repo (me_agent env) (find_persisted_maker ?k))
      (\<lambda>x. holding u5 ids ?k (c \<or> x \<noteq> None)) (\<lambda>_. holding u5 ids ?k c)"
    by (rule hoare_weaken [OF hoare_from_repo [OF holding_undisturbed [OF o, of c]]])
      (auto simp: holding_def has_output_def find_persisted_maker_def find_assessment_outputs(1)
        dest: find_assessment_outputs(2) split: option.splits)
  have rest: "maker_run_ok u5 ids ?k c (holding u5 ids ?k c) ?rest"
  proof (rule hoare_and_then [OF found])
    fix x
    show "maker_run_ok u5 ids ?k c (holding u5 ids ?k (c \<or> x \<noteq> None))
      (case x of Some persisted \<Rightarrow> and_then (save_point (me_agent env) Ck_Persisted) (\<lambda>_. stage_done Succeeded [])
       | None \<Rightarrow> maker_fresh_run env t)"
    proof (cases x)
      case None
      then show ?thesis using run_fresh [OF ok, of c] by simp
    next
      case (Some p)
      have "maker_run_ok u5 ids ?k c (holding u5 ids ?k True)
          (and_then (save_point (me_agent env) Ck_Persisted) (\<lambda>_. stage_done Succeeded []))"
        by (intro run_then stage_save_point o run_end) (simp_all add: checkpoint_true_def holding_def)
      with Some show ?thesis by simp
    qed
  qed
  show ?thesis
  proof (rule hoareI)
    fix w e w' assume h: "holding u5 ids ?k c w" and run: "process_maker t env w = (Inl e, w')"
    show "holding u5 ids ?k c w'"
    proof (cases "\<exists>a. aw_checkpoint w = Some (Ck_Inference a)")
      case True
      then obtain a where a: "aw_checkpoint w = Some (Ck_Inference a)" by blast
      with h have "assessment_key a = ?k" "ua_id a \<in> ids" by (simp_all add: holding_def maker_inv_def checkpoint_true_def)
      from hoareD_Inl [OF run_persist_stage [OF ok this] h] run a show ?thesis by (simp add: process_maker_def)
    next
      case False
      with run have "?rest w = (Inl e, w')"
        by (auto simp: process_maker_def stage_done_def split: option.splits maker_checkpoint.splits)
      from hoareD_Inl [OF rest h this] show ?thesis .
    qed
  next
    fix w r w' assume h: "holding u5 ids ?k c w" and run: "process_maker t env w = (Inr r, w')"
    consider a where "aw_checkpoint w = Some (Ck_Inference a)" | "aw_checkpoint w = Some Ck_Persisted"
      | "?rest w = (Inr r, w')"
      using run by (auto simp: process_maker_def split: option.splits maker_checkpoint.splits)
    then show "maker_result u5 ids ?k c r w'"
    proof cases
      case 1
      with h have "assessment_key a = ?k" "ua_id a \<in> ids" by (simp_all add: holding_def maker_inv_def checkpoint_true_def)
      from hoareD_Inr [OF run_persist_stage [OF ok this] h] run 1 show ?thesis by (simp add: process_maker_def)
    next
      case 2
      with run h show ?thesis by (auto simp: process_maker_def stage_done_def holding_def maker_inv_def checkpoint_true_def)
    next
      case 3
      from hoareD_Inr [OF rest h 3] show ?thesis .
    qed
  qed
qed

text \<open>The key of an assessment is that of its task: what a checkpoint holds is persisted under it.\<close>

definition untouched :: "task_key3 \<Rightarrow> maker_store \<Rightarrow> bool" where
  "untouched k st \<longleftrightarrow> outputs_of k st = \<lparr>mo_assessments = [], mo_handoffs = [], mo_gaps = []\<rparr>"

text \<open>
  C35: However often a maker task is delivered, wherever each delivery dies (before a
  call took effect, or after it and before the answer arrived) and whatever the others do
  meanwhile, the task has either no output at all or exactly one: one assessment,
  its one handoff, and the gaps of that assessment, in order and once each.  And when
  any of the deliveries has reported success, the output is there.
\<close>

theorem maker_exactly_once:
  assumes "inj_on (hid u5) ids" and "list_all (delivery_ok u5 ids (task_key_of t)) envs"
    and "handoffs_named u5 ids (aw_store w)" "untouched (task_key_of t) (aw_store w)" "aw_checkpoint w = None"
    and "deliveries (process_maker t) envs w = (rs, w')"
  shows "outputs_complete u5 (task_key_of t) (aw_store w') \<and>
    (list_ex (\<lambda>r. \<exists>s. r = Inr s \<and> sr_status s = Succeeded) rs \<longrightarrow> has_output (task_key_of t) w')"
proof -
  let ?k = "task_key_of t"
  have ok: "delivery_ok u5 ids ?k env" if "env \<in> set envs" for env using that assms(2) by (simp add: list_all_set)
  have "maker_inv u5 ids ?k w"
    using assms(3-5) by (simp add: maker_inv_def outputs_complete_def untouched_def checkpoint_true_def)
  moreover have "hoare (maker_inv u5 ids ?k) (process_maker t env)
      (\<lambda>r w. maker_inv u5 ids ?k w \<and> (sr_status r = Succeeded \<longrightarrow> has_output ?k w)) (\<lambda>_. maker_inv u5 ids ?k)"
    if "env \<in> set envs" for env
    by (rule hoare_weaken [OF run_process [OF ok [OF that] assms(1), of False]]) (auto simp: holding_def)
  moreover have "has_output ?k (snd (process_maker t env v))"
    if "env \<in> set envs" "maker_inv u5 ids ?k v" "has_output ?k v" for env v
    using run_process [OF ok [OF that(1)] assms(1), of True] that(2,3)
    by (cases "process_maker t env v"; cases "fst (process_maker t env v)") (fastforce simp: hoare_def holding_def)+
  ultimately have "maker_inv u5 ids ?k w' \<and>
      (has_output ?k w \<or> (\<exists>r. Inr r \<in> set rs \<and> sr_status r = Succeeded) \<longrightarrow> has_output ?k w')"
    using deliveries_invariant [of envs "maker_inv u5 ids ?k" "process_maker t" "\<lambda>r. sr_status r = Succeeded"
      "has_output ?k" w rs w'] assms(6) by blast
  then show ?thesis by (auto simp: maker_inv_def list_ex_iff)
qed

end
