(* ===== verification/Maker_Resume.thy ===== *)
theory Maker_Resume
  imports Maker_Delivery
begin

text \<open>
  The persist stage of the maker: resuming from the checkpoint of the inference never calls
  the model again, and an assessment the tables refuse stops its task for good.  The
  theory ends with the samples for the deliveries of the maker.
\<close>

section \<open>Resuming from a checkpoint\<close>

text \<open>Once the inference is checkpointed only the persist stage is left, and it never calls the gateway.\<close>

definition after_inference :: "underwriting_assessment \<Rightarrow> nat \<Rightarrow> (maker_store, maker_checkpoint) agent_world \<Rightarrow> bool" where
  "after_inference a n w \<longleftrightarrow> aw_calls w = n \<and> aw_checkpoint w \<in> {Some (Ck_Inference a), Some Ck_Persisted}"

lemma after_inference_undisturbed: "undisturbed env (after_inference a n)"
  by (simp add: undisturbed_def after_inference_def interfered_def)

lemma after_inference_stages:
  "keeps (after_inference a n) (maker_store_op env op)"
  "keeps (after_inference a n) (save_point (me_agent env) Ck_Persisted)"
  "keeps (after_inference a n) (audit_maker env t e)"
proof -
  show store: "keeps (after_inference a n) (maker_store_op env op)" for op :: "maker_store \<Rightarrow> agent_store_error + 'a \<times> maker_store"
    unfolding maker_store_op_def on_repo_def
    by (rule keeps_external [OF after_inference_undisturbed])
      (auto simp: keeps_def after_inference_def split: sum.split)
  show "keeps (after_inference a n) (save_point (me_agent env) Ck_Persisted)"
    unfolding save_point_def
    by (rule keeps_external [OF after_inference_undisturbed]) (simp add: keeps_def after_inference_def)
  have "keeps (after_inference a n) (next_uuid (me_agent env))"
    by (simp add: keeps_def after_inference_def next_uuid_def)
  moreover have "keeps (after_inference a n) (maker_store_op env op)" for op :: "maker_store \<Rightarrow> agent_store_error + unit \<times> maker_store"
    unfolding maker_store_op_def on_repo_def
    by (rule keeps_external [OF after_inference_undisturbed])
      (auto simp: keeps_def after_inference_def split: sum.split)
  ultimately show "keeps (after_inference a n) (audit_maker env t e)"
    unfolding audit_maker_def by (intro keeps_and_then)
qed

lemma after_inference_process: "keeps (after_inference a n) (process_maker t env)"
proof -
  have stage: "keeps (after_inference a n) (maker_persist_stage env t a)"
    unfolding maker_persist_stage_def persist_maker_output_def
    by (intro keeps_and_then after_inference_stages) (simp add: keeps_def stage_done_def)
  show ?thesis
    unfolding keeps_def
  proof (intro allI impI)
    fix w assume w: "after_inference a n w"
    then consider "aw_checkpoint w = Some (Ck_Inference a)" | "aw_checkpoint w = Some Ck_Persisted"
      by (auto simp: after_inference_def)
    then show "after_inference a n (snd (process_maker t env w))"
      by cases (use w stage in \<open>auto simp: process_maker_def stage_done_def keeps_def\<close>)
  qed
qed

text \<open>
  Once an answer of the model has been checkpointed the model is never called again for
  this task: whatever happens to the following deliveries, the assessment that the
  checkpoint holds is the one that gets persisted.
\<close>

theorem resume_skips_model:
  assumes "aw_checkpoint w = Some (Ck_Inference a) \<or> aw_checkpoint w = Some Ck_Persisted"
    and "deliveries (process_maker t) envs w = (rs, w')"
  shows "aw_calls w' = aw_calls w \<and>
    (aw_checkpoint w' = Some (Ck_Inference a) \<or> aw_checkpoint w' = Some Ck_Persisted)"
proof -
  have "hoare (after_inference a (aw_calls w)) (process_maker t env)
      (\<lambda>r v. after_inference a (aw_calls w) v \<and> (False \<longrightarrow> False)) (\<lambda>_. after_inference a (aw_calls w))" for env
    using after_inference_process [of a "aw_calls w" t env] by (simp add: keeps_hoare)
  moreover have "after_inference a (aw_calls w) w" using assms(1) by (auto simp: after_inference_def)
  ultimately have "after_inference a (aw_calls w) w'"
    using deliveries_invariant [of envs _ "process_maker t" "\<lambda>_. False" "\<lambda>_. False" w rs w'] assms(2) by blast
  then show ?thesis by (auto simp: after_inference_def)
qed

section \<open>An assessment that cannot be persisted\<close>

lemma insert_gaps_ok: "insert_gaps k actor gs st = Inr r \<Longrightarrow> list_all gap_row_ok gs"
  by (induction k actor gs st arbitrary: r rule: insert_gaps.induct) (auto simp: Let_def result_simps)

definition stuck :: "underwriting_assessment \<Rightarrow> (maker_store, maker_checkpoint) agent_world \<Rightarrow> bool" where
  "stuck a w \<longleftrightarrow> aw_checkpoint w = Some (Ck_Inference a) \<and> untouched (assessment_key a) (aw_store w)"

lemma persist_refused:
  assumes "\<not> list_all gap_row_ok gaps" "untouched (assessment_key a) st"
  shows "\<exists>e. persist_assessment a i state gaps st = Inl e"
proof (cases "persist_assessment a i state gaps st")
  case (Inr r)
  have "find_assessment (assessment_key a) st = None"
    using assms(2) by (simp add: find_assessment_outputs untouched_def)
  with Inr have "\<exists>st r. insert_gaps (assessment_key a) maker_actor gaps st = Inr r"
    by (auto simp: persist_assessment_def Let_def result_simps)
  with assms(1) insert_gaps_ok show ?thesis by blast
qed simp

lemma stuck_process:
  assumes "\<not> list_all gap_row_ok (maker_gap_records a)"
    and others: "\<And>n st. outputs_of (assessment_key a) (ae_others (me_agent env) n st) = outputs_of (assessment_key a) st"
  shows "hoare (stuck a) (process_maker t env) (\<lambda>_ _. False) (\<lambda>_. stuck a)"
proof -
  have u: "undisturbed (me_agent env) (stuck a)"
    by (simp add: undisturbed_def stuck_def interfered_def untouched_def others)
  have "hoare (stuck a) (persist_maker_output env a) (\<lambda>x w. stuck a w \<and> False) (\<lambda>_. stuck a)"
    unfolding persist_maker_output_def maker_store_op_def
  proof (rule hoare_on_repo [OF u])
    fix w x st assume w: "stuck a w"
      and run: "(case persist_assessment a (maker_handoff_id env a) risk_review_state (maker_gap_records a) (aw_store w) of
        Inl e \<Rightarrow> Inl (Maker_Store_Failed e) | Inr r \<Rightarrow> Inr r) = Inr (x, st)"
    from persist_refused [OF assms(1)] w obtain e where
      "persist_assessment a (maker_handoff_id env a) risk_review_state (maker_gap_records a) (aw_store w) = Inl e"
      unfolding stuck_def by blast
    with run show "stuck a (w\<lparr>aw_store := st\<rparr>) \<and> False" by simp
  qed
  then have "hoare (stuck a) (maker_persist_stage env t a) (\<lambda>_ _. False) (\<lambda>_. stuck a)"
    unfolding maker_persist_stage_def by (rule hoare_and_then) (simp add: hoare_def)
  then show ?thesis by (simp add: hoare_def process_maker_def stuck_def)
qed

text \<open>
  C36: An accepted assessment one of whose gaps has a blank text (a space is a text for the
  contract and for the closed schema, not for the table of the gaps) poisons its task: every
  delivery from its checkpoint raises, nothing is ever stored, and the checkpoint that
  causes it stays.
\<close>

theorem blank_gap_poisons_task:
  assumes "infer_assessment reason i now view s run = Inr a"
    and "list_ex (\<lambda>g. \<not> not_blank (eg_why_needed g) \<or> \<not> not_blank (eg_missing_information g)) (ua_gaps a)"
    and "aw_checkpoint w = Some (Ck_Inference a)" "untouched (assessment_key a) (aw_store w)"
    and "list_all (\<lambda>env. \<forall>n st. outputs_of (assessment_key a) (ae_others (me_agent env) n st) =
      outputs_of (assessment_key a) st) envs"
    and "deliveries (process_maker t) envs w = (rs, w')"
  shows "list_all (\<lambda>r. \<exists>e. r = Inl e) rs \<and> untouched (assessment_key a) (aw_store w') \<and>
    aw_checkpoint w' = Some (Ck_Inference a)"
proof -
  have gaps: "\<not> list_all gap_row_ok (maker_gap_records a)"
    using assms(2) by (auto simp: list_ex_iff list_all_iff maker_gap_records_def gap_row_ok_def gap_record_of_def)
  have "hoare (stuck a) (process_maker t env) (\<lambda>_ v. stuck a v \<and> (True \<longrightarrow> False)) (\<lambda>_. stuck a)"
    if "env \<in> set envs" for env
    by (rule hoare_weaken [OF stuck_process [OF gaps]]) (use assms(5) that in \<open>auto simp: list_all_iff\<close>)
  moreover have "stuck a w" using assms(3,4) by (simp add: stuck_def)
  ultimately have "stuck a w'" "\<nexists>r. Inr r \<in> set rs"
    using deliveries_invariant [of envs "stuck a" "process_maker t" "\<lambda>_. True" "\<lambda>_. False" w rs w'] assms(6) by blast+
  then show ?thesis by (auto simp: stuck_def list_all_iff) (metis sum.exhaust)
qed

section \<open>Samples\<close>

definition sample_gateway :: "string \<Rightarrow> json list \<Rightarrow> json_schema \<Rightarrow> gateway_failure + json \<times> string \<times> string" where
  "sample_gateway rid gaps schema =
     (case maker_reason rid gaps schema of Inl _ \<Rightarrow> Inl Endpoint_Unavailable | Inr answer \<Rightarrow> Inr answer)"

definition sample_maker_store :: maker_store where
  "sample_maker_store =
     \<lparr>um_cases = [(7, 1)],
      um_facts = map (\<lambda>f. \<lparr>cf_id = ef_id f, cf_case_id = 7, cf_case_version = 1, cf_field_key = ef_field_key f,
        cf_value = ef_value f, cf_document_version_id = ef_document_version_id f, cf_stale_at = None\<rparr>) (ev_facts balance_view),
      um_assessments = [], um_gaps = [], um_handoffs = [], um_audit = [], um_clock = 100,
      um_uuids = (\<lambda>n. 50 + n), um_drawn = 0\<rparr>"

definition sample_maker_task :: processing_task where
  "sample_maker_task =
     \<lparr>pt_id = 5, pt_case_id = 7, pt_case_version = 1, pt_document_version_id = None,
      pt_task_type = CREDIT_UNDERWRITING, pt_status = RUNNING, pt_attempt_count = 1, pt_max_attempts = 3,
      pt_available_at = 0, pt_lease_token = Some 1, pt_lease_until = Some 500, pt_input_payload = JObj [],
      pt_idempotency_key = ''k'', pt_failure_reason = None, pt_completed_at = None\<rparr>"

definition sample_uuid5 :: "string \<Rightarrow> uuid" where
  "sample_uuid5 s = (if s = ''underwriting-handoff:'' @ str_uuid 9 then 90 else 80)"

text \<open>The faults of a delivery by the number of its call.\<close>

definition sample_maker_env :: "string \<Rightarrow> json list \<Rightarrow> (nat \<Rightarrow> fault) \<Rightarrow> maker_env" where
  "sample_maker_env rid gaps faults =
     \<lparr>me_agent = \<lparr>ae_uuid = (\<lambda>n. if n = 0 then 6 else 9), ae_fault = faults, ae_others = (\<lambda>_ st. st)\<rparr>,
      me_gateway = Some (sample_gateway rid gaps), me_governance = None, me_sha = (\<lambda>_. []),
      me_uuid5 = sample_uuid5, me_now = 200, me_rejection = (\<lambda>_. ''rejected'')\<rparr>"

definition sample_maker_world :: "maker_checkpoint option \<Rightarrow> (maker_store, maker_checkpoint) agent_world" where
  "sample_maker_world ck =
     \<lparr>aw_store = sample_maker_store, aw_checkpoint = ck, aw_manifests = [], aw_calls = 0, aw_drawn = 0, aw_ticks = 0\<rparr>"

lemma sample_maker_view: "load_maker_view 7 sample_maker_store = Some balance_view"
  by (simp add: load_maker_view_def sample_maker_store_def balance_view_def sample_fact_def fact_of_row_def)

lemma str_uuid_6_9: "str_uuid 6 \<noteq> str_uuid 9"
  by (simp add: str_uuid_eq)

lemma sample_uuid5_inj: "inj_on (hid sample_uuid5) {6, 9}"
  using str_uuid_6_9 by (simp add: inj_on_def hid_def sample_uuid5_def)

lemma sample_delivery_ok: "delivery_ok sample_uuid5 {6, 9} k (sample_maker_env rid gaps faults)"
  by (auto simp: delivery_ok_def others_keep_def sample_maker_env_def)

lemma sample_world_start:
  "handoffs_named u5 ids (aw_store (sample_maker_world ck))" "untouched k (aw_store (sample_maker_world ck))"
  "aw_checkpoint (sample_maker_world ck) = ck"
  by (simp_all add: sample_maker_world_def sample_maker_store_def handoffs_named_def untouched_def outputs_of_def)

text \<open>What the sample gateway answers, for any run.\<close>

lemma sample_inference:
  assumes gaps: "list_all (conforms evidence_gap_schema) gaps" "length gaps \<le> 30"
  shows "\<exists>s rid. build_calculator_suite (\<lambda>_. []) balance_view = Inr s \<and>
    sample_gateway rid gaps (maker_response_schema (fact_ids balance_view) (result_ids s)) =
      Inr (JObj (maker_payload rid gaps), ''m'', ''e'') \<and>
    (\<forall>run. \<exists>a. infer_assessment (sample_gateway rid gaps) i now balance_view s run = Inr a)"
proof -
  obtain s rid where s: "build_calculator_suite (\<lambda>_. []) balance_view = Inr s"
    "maker_reason rid gaps (maker_response_schema (fact_ids balance_view) (result_ids s)) =
       Inr (JObj (maker_payload rid gaps), ''m'', ''e'')"
    "amount_resolves s (object_at (maker_payload rid gaps) ''proposed_structure'')"
    "amount_cited (object_at (maker_payload rid gaps) ''proposed_structure'')" "risks_bind (maker_payload rid gaps)"
    using sample_assessment [OF gaps] by blast
  have c: "conforming (\<lambda>_. []) balance_view s (maker_payload rid gaps)"
    using maker_reason_honours [of rid gaps, unfolded honours_schema_def] s(1,2) balance_bounded(1)
    unfolding conforming_def by blast
  have "\<exists>a. infer_assessment (sample_gateway rid gaps) i now balance_view s run = Inr a" for run
    using conforming_build [OF c balance_bounded(2), of "''m''" "''e''" i now run] s
    by (auto simp: infer_assessment_def rejected_output_def sample_gateway_def)
  moreover have "sample_gateway rid gaps (maker_response_schema (fact_ids balance_view) (result_ids s)) =
      Inr (JObj (maker_payload rid gaps), ''m'', ''e'')" by (simp add: sample_gateway_def s(2))
  ultimately show ?thesis using s(1) by blast
qed

lemma not_blank_iff: "not_blank s \<longleftrightarrow> (\<exists>c\<in>set s. c \<noteq> CHR '' '')"
proof (cases "dropWhile (\<lambda>c. c = CHR '' '') s")
  case Nil
  then have "\<forall>c\<in>set s. c = CHR '' ''" unfolding dropWhile_eq_Nil_conv .
  then show ?thesis unfolding not_blank_def btrim_def Nil by simp
next
  case (Cons c cs)
  then have "c \<noteq> CHR '' ''" "c \<in> set s"
    using hd_dropWhile [of "\<lambda>c. c = CHR '' ''" s] set_dropWhileD [of c "\<lambda>c. c = CHR '' ''" s] by auto
  with Cons show ?thesis by (auto simp: not_blank_def btrim_def dropWhile_eq_Nil_conv)
qed

lemma missing_gaps_from_shape: "missing_gaps_from seen ms = Inr gs \<Longrightarrow> list_all (\<lambda>g. \<exists>m. g = missing_gap m) gs"
  by (induction seen ms arbitrary: gs rule: missing_gaps_from.induct)
    (auto simp: rbind_Inr validated_Inr split: if_splits)

lemma missing_gap_row_ok: "gap_row_ok (gap_record_of (missing_gap m))"
  by (simp add: gap_row_ok_def gap_record_of_def missing_gap_def missing_text_def not_blank_iff)

lemma infer_assessment_gaps:
  assumes "infer_assessment reason i now view s run = Inr a"
    and "reason (maker_response_schema (fact_ids view) (result_ids s)) = Inr (JObj kvs, model_id, endpoint_id)"
  shows "\<exists>dg declared. list_all (\<lambda>g. \<exists>m. g = missing_gap m) dg \<and>
    items_iterated gap_item_from kvs ''evidence_gaps'' = Inr declared \<and> ua_gaps a = merge_gaps dg declared \<and>
    ua_provenance a = maker_provenance view run model_id endpoint_id now \<and> ua_id a = i"
proof -
  from assms have b: "build_assessment i now view s run model_id endpoint_id kvs = Inr a"
    by (auto simp: infer_assessment_def rejected_output_def split: sum.splits)
  then obtain dg declared where "deterministic_gap_items s = Inr dg"
    "items_iterated gap_item_from kvs ''evidence_gaps'' = Inr declared" "ua_gaps a = merge_gaps dg declared"
    unfolding build_assessment_def Let_def rejecting_Inr rbind_Inr validated_Inr by auto
  then show ?thesis
    using missing_gaps_from_shape build_assessment_provenance [OF b] unfolding deterministic_gap_items_def by blast
qed

lemma insert_gaps_total:
  assumes "list_all gap_row_ok gs" "inj (um_uuids st)"
    and "\<And>n. um_drawn st \<le> n \<Longrightarrow> um_uuids st n \<notin> gg_id ` set (um_gaps st)"
  shows "\<exists>r. insert_gaps k actor gs st = Inr r"
  using assms
proof (induction gs arbitrary: st)
  case (Cons g gs)
  let ?st = "st\<lparr>um_drawn := Suc (um_drawn st), um_gaps := um_gaps st @ [\<lparr>gg_id = um_uuids st (um_drawn st),
     gg_key = k, gg_status = ''PROVISIONAL'', gg_record = g, gg_created_by = actor\<rparr>]\<rparr>"
  have "\<exists>r. insert_gaps k actor gs ?st = Inr r"
    by (rule Cons.IH) (use Cons.prems in \<open>auto dest: injD Suc_leD\<close>)
  then obtain r where "insert_gaps k actor gs ?st = Inr r" by blast
  with Cons.prems show ?case by (cases r) (auto simp: Let_def)
qed simp

lemma persist_accepted:
  assumes "mo_assessments (outputs_of (assessment_key a) st) = []" "assessment_row_ok a" "list_all gap_row_ok gaps"
    and "ua_id a \<notin> (ua_id \<circ> fst) ` set (um_assessments st)" "inj (um_uuids st)"
    and "\<And>n. um_drawn st \<le> n \<Longrightarrow> um_uuids st n \<notin> gg_id ` set (um_gaps st)"
  shows "\<exists>r. persist_assessment a i state gaps st = Inr r"
proof -
  have "\<exists>r. insert_gaps (assessment_key a) maker_actor gaps
      (st\<lparr>um_assessments := um_assessments st @ [(a, um_clock st)]\<rparr>) = Inr r"
    by (rule insert_gaps_total) (use assms in auto)
  then obtain ids st' where "insert_gaps (assessment_key a) maker_actor gaps
      (st\<lparr>um_assessments := um_assessments st @ [(a, um_clock st)]\<rparr>) = Inr (ids, st')" by (metis surj_pair)
  with assms(1,2,4) show ?thesis
    by (auto simp: persist_assessment_def Let_def find_assessment_outputs(1) [THEN iffD2])
qed

text \<open>
  Two deliveries of the sample task: the first dies after the gateway has answered, the second
  starts from the checkpoint of the calculators and succeeds.
\<close>

definition dies_at :: "nat \<Rightarrow> nat \<Rightarrow> fault" where
  "dies_at n k = (if k = n then Fault_After else No_Fault)"

lemmas sample_run_simps = process_maker_def maker_fresh_run_def maker_inference_stage_def maker_persist_stage_def
  persist_maker_output_def maker_context_manifest_def audit_maker_def maker_store_op_def
  on_repo_def from_repo_def save_point_def call_gateway_def next_uuid_def external_def interfered_def
  stage_done_def suite_act_def and_then_def

lemma sample_persisted:
  assumes "infer_assessment (sample_gateway rid []) 9 200 balance_view s run = Inr a" "mk_task_id run = 5"
    and "sample_gateway rid [] (maker_response_schema (fact_ids balance_view) (result_ids s)) = Inr (JObj kvs, ''m'', ''e'')"
    and "items_iterated gap_item_from kvs ''evidence_gaps'' = Inr []"
  shows "\<exists>p st. persist_assessment a i state (maker_gap_records a) sample_maker_store = Inr (p, st)"
proof -
  from infer_assessment_gaps [OF assms(1,3)] obtain dg declared where a: "list_all (\<lambda>g. \<exists>m. g = missing_gap m) dg"
    "items_iterated gap_item_from kvs ''evidence_gaps'' = Inr declared" "ua_gaps a = merge_gaps dg declared"
    "ua_provenance a = maker_provenance balance_view run ''m'' ''e'' 200" "ua_id a = 9" by blast
  have "list_all gap_row_ok (maker_gap_records a)"
    using a assms(4) missing_gap_row_ok by (auto simp: maker_gap_records_def merge_gaps_def list_all_iff)
  moreover have "assessment_row_ok a"
    using a(4) by (simp add: assessment_row_ok_def maker_provenance_def not_blank_iff balance_view_def)
  ultimately have "\<exists>r. persist_assessment a i state (maker_gap_records a) sample_maker_store = Inr r"
    by (intro persist_accepted) (auto simp: sample_maker_store_def outputs_of_def inj_def)
  then show ?thesis by (metis surj_pair)
qed

definition sample_crashed_world :: "(maker_store, maker_checkpoint) agent_world" where
  "sample_crashed_world =
     \<lparr>aw_store = sample_maker_store, aw_checkpoint = Some Ck_Calculators, aw_manifests = [], aw_calls = 1,
      aw_drawn = 2, aw_ticks = 5\<rparr>"

lemma sample_not_persisted: "find_persisted_maker (7, 1, 5) sample_maker_store = None"
  by (simp add: find_persisted_maker_def find_assessment_def sample_maker_store_def)

lemmas sample_view_fields = balance_view_def [THEN arg_cong, of ev_facts] balance_view_def [THEN arg_cong, of ev_case_version]

lemma sample_first_delivery:
  assumes "build_calculator_suite (\<lambda>_. []) balance_view = Inr s"
  shows "process_maker sample_maker_task (sample_maker_env rid gaps (dies_at 4)) (sample_maker_world None) =
    (Inl Crashed, sample_crashed_world)"
  using assms sample_not_persisted sample_maker_view
  by (simp add: sample_run_simps sample_maker_env_def sample_maker_task_def sample_maker_world_def dies_at_def
      sample_crashed_world_def task_key_of_def sample_view_fields)

lemma sample_second_delivery:
  assumes "build_calculator_suite (\<lambda>_. []) balance_view = Inr s"
    and "infer_assessment (sample_gateway rid []) 9 200 balance_view s
      \<lparr>mk_task_id = 5, mk_execution_id = 9, mk_correlation_id = ''underwriting:'' @ str_uuid 5\<rparr> = Inr a"
    and "persist_assessment a (sample_uuid5 (''underwriting-handoff:'' @ str_uuid (ua_id a))) risk_review_state
      (maker_gap_records a) sample_maker_store = Inr (p, st)"
  shows "\<exists>w. process_maker sample_maker_task (sample_maker_env rid [] (dies_at 4)) sample_crashed_world =
    (Inr \<lparr>sr_status = Succeeded, sr_reason = []\<rparr>, w)"
  using assms sample_not_persisted sample_maker_view
  by (simp add: sample_run_simps sample_maker_env_def sample_maker_task_def sample_crashed_world_def dies_at_def
      task_key_of_def maker_handoff_id_def sample_view_fields)

theorem maker_exactly_once_witness:
  "\<exists>rid rs w'. deliveries (process_maker sample_maker_task)
      (replicate 2 (sample_maker_env rid [] (dies_at 4))) (sample_maker_world None) = (rs, w') \<and>
    map (map_sum (\<lambda>_. ()) sr_status) rs = [Inl (), Inr Succeeded] \<and>
    outputs_complete sample_uuid5 (task_key_of sample_maker_task) (aw_store w') \<and>
    has_output (task_key_of sample_maker_task) w'"
proof -
  let ?env = "\<lambda>rid. sample_maker_env rid [] (dies_at 4)"
  let ?run = "\<lparr>mk_task_id = 5, mk_execution_id = 9, mk_correlation_id = ''underwriting:'' @ str_uuid 5\<rparr>"
  obtain s rid a where s: "build_calculator_suite (\<lambda>_. []) balance_view = Inr s"
    "sample_gateway rid [] (maker_response_schema (fact_ids balance_view) (result_ids s)) =
       Inr (JObj (maker_payload rid []), ''m'', ''e'')"
    "infer_assessment (sample_gateway rid []) 9 200 balance_view s ?run = Inr a"
    using sample_inference [OF no_gaps] by blast
  have "items_iterated gap_item_from (maker_payload rid []) ''evidence_gaps'' = Inr []"
    by (simp add: items_iterated_def listed_def maker_payload_def Let_def mappings_def get_or_def List.map_filter_def)
  then obtain p st where p: "persist_assessment a (sample_uuid5 (''underwriting-handoff:'' @ str_uuid (ua_id a)))
      risk_review_state (maker_gap_records a) sample_maker_store = Inr (p, st)"
    using sample_persisted [OF s(3) _ s(2)] by fastforce
  obtain w' where run: "deliveries (process_maker sample_maker_task) (replicate 2 (?env rid)) (sample_maker_world None) =
      ([Inl Crashed, Inr \<lparr>sr_status = Succeeded, sr_reason = []\<rparr>], w')"
    using sample_first_delivery [OF s(1), of rid "[]"] sample_second_delivery [OF s(1,3) p]
    by (auto simp: numeral_2_eq_2)
  have "list_all (delivery_ok sample_uuid5 {6, 9} (task_key_of sample_maker_task)) (replicate 2 (?env rid))"
    using sample_delivery_ok by (simp add: numeral_2_eq_2)
  from maker_exactly_once [OF sample_uuid5_inj this sample_world_start run] run show ?thesis by force
qed

theorem resume_skips_model_witness:
  "\<exists>rid s run a rs w'. infer_assessment (sample_gateway rid []) 9 200 balance_view s run = Inr a \<and>
    deliveries (process_maker sample_maker_task) [sample_maker_env rid [] (dies_at 0)]
      (sample_maker_world (Some (Ck_Inference a))) = (rs, w') \<and> aw_calls w' = 0"
proof -
  obtain s rid run a where a: "infer_assessment (sample_gateway rid []) 9 200 balance_view s run = Inr a"
    using sample_inference [OF no_gaps] by blast
  obtain rs w' where run: "deliveries (process_maker sample_maker_task) [sample_maker_env rid [] (dies_at 0)]
      (sample_maker_world (Some (Ck_Inference a))) = (rs, w')" by fastforce
  from resume_skips_model [OF disjI1 [OF sample_world_start(3)] run] have "aw_calls w' = 0"
    by (simp add: sample_maker_world_def)
  with a run show ?thesis by blast
qed

text \<open>A gap whose reason is a space conforms to the closed schema and is accepted.\<close>

definition blank_gap :: json where
  "blank_gap = JObj [(''missing_information_vi'', JStr ''m''), (''why_needed_vi'', JStr '' ''), (''blocking_level'', JStr ''BLOCKING'')]"

theorem blank_gap_poisons_task_witness:
  "\<exists>rid a rs w'. deliveries (process_maker sample_maker_task) (replicate 3 (sample_maker_env rid [blank_gap] (dies_at 9)))
      (sample_maker_world (Some (Ck_Inference a))) = (rs, w') \<and> list_all (\<lambda>r. \<exists>e. r = Inl e) rs \<and>
    untouched (assessment_key a) (aw_store w')"
proof -
  have conf: "list_all (conforms evidence_gap_schema) [blank_gap]" "length [blank_gap] \<le> 30"
    by (simp_all add: blank_gap_def evidence_gap_schema_def conforms.simps object_ok_def string_ok_def gap_blocking_levels_def)
  let ?run = "\<lparr>mk_task_id = 5, mk_execution_id = 9, mk_correlation_id = ''underwriting:'' @ str_uuid 5\<rparr>"
  obtain s rid a where s: "build_calculator_suite (\<lambda>_. []) balance_view = Inr s"
    "sample_gateway rid [blank_gap] (maker_response_schema (fact_ids balance_view) (result_ids s)) =
       Inr (JObj (maker_payload rid [blank_gap]), ''m'', ''e'')"
    "infer_assessment (sample_gateway rid [blank_gap]) 9 200 balance_view s ?run = Inr a"
    using sample_inference [OF conf] by blast
  let ?g = "\<lparr>eg_missing_information = ''m'', eg_why_needed = '' '', eg_blocking_level = BLOCKING, eg_suggested_evidence = []\<rparr>"
  have read: "items_iterated gap_item_from (maker_payload rid [blank_gap]) ''evidence_gaps'' = Inr [?g]"
    by (simp add: items_iterated_def listed_def maker_payload_def Let_def mappings_def get_or_def List.map_filter_def blank_gap_def gap_item_from_def
        text_of_def enum_of_def gap_blocking_levels_def validated_def gap_item_ok_def sized_def)
  from infer_assessment_gaps [OF s(3,2)] read obtain dg where "list_all (\<lambda>g. \<exists>m. g = missing_gap m) dg"
    "ua_gaps a = merge_gaps dg [?g]" by auto
  then have "?g \<in> set (ua_gaps a)"
    by (auto simp: merge_gaps_def list_all_iff missing_gap_def missing_text_def)
  then have bad: "list_ex (\<lambda>g. \<not> not_blank (eg_why_needed g) \<or> \<not> not_blank (eg_missing_information g)) (ua_gaps a)"
    by (force simp: list_ex_iff not_blank_iff)
  obtain rs w' where run: "deliveries (process_maker sample_maker_task) (replicate 3 (sample_maker_env rid [blank_gap] (dies_at 9)))
      (sample_maker_world (Some (Ck_Inference a))) = (rs, w')" by fastforce
  have others: "list_all (\<lambda>env. \<forall>n st. outputs_of (assessment_key a) (ae_others (me_agent env) n st) =
      outputs_of (assessment_key a) st) (replicate 3 (sample_maker_env rid [blank_gap] (dies_at 9)))"
    by (simp add: list_all_iff sample_maker_env_def)
  from blank_gap_poisons_task [OF s(3) bad sample_world_start(3,2) others run] run show ?thesis by blast
qed

end
