(* ===== verification/Api_World.thy ===== *)
theory Api_World
  imports Api_Access Kickoff
begin

text \<open>
  The world of the handlers that write a human gate next to a store of their own (the
  condition ledger, the security interests and the like): the orchestration, reached through
  its port, and the tables of the component.  Every call is a transaction of its own; before
  each one the rest of the system may act (\<open>en_others\<close>).
\<close>

record ('o, 's) api_world =
  wo_orch :: 'o
  wo_store :: 's
  wo_ticks :: nat

record ('o, 's) api_env =
  en_repo :: "'o orch_repo"
  en_assigned :: "'o \<Rightarrow> assignments"
  en_kickoff :: "nat \<Rightarrow> kickoff_env"
  en_dispatch :: "'o \<Rightarrow> 'o"
  en_uuid :: "nat \<Rightarrow> uuid"
  en_others :: "nat \<Rightarrow> 'o \<times> 's \<Rightarrow> 'o \<times> 's"

datatype 'e table_error = Gate_Refused store_error | Table_Refused 'e

type_synonym ('o, 's, 'e, 'a) case_handler = "(('o, 's) api_world, 'e table_error api_error, 'a) act"

definition disturbed :: "('o, 's) api_env \<Rightarrow> ('o, 's) api_world \<Rightarrow> ('o, 's) api_world" where
  "disturbed env w =
     (case en_others env (wo_ticks w) (wo_orch w, wo_store w) of (orch, st) \<Rightarrow>
        w\<lparr>wo_orch := orch, wo_store := st, wo_ticks := Suc (wo_ticks w)\<rparr>)"

definition on_case :: "('o, 's) api_env \<Rightarrow> ('o, 'e, 'a) act \<Rightarrow> (('o, 's) api_world, 'e, 'a) act" where
  "on_case env m w =
     (let w' = disturbed env w in case m (wo_orch w') of (r, orch) \<Rightarrow> (r, w'\<lparr>wo_orch := orch\<rparr>))"

definition on_tables :: "('o, 's) api_env \<Rightarrow> ('s, 'e, 'a) act \<Rightarrow> (('o, 's) api_world, 'e, 'a) act" where
  "on_tables env m w =
     (let w' = disturbed env w in case m (wo_store w') of (r, st) \<Rightarrow> (r, w'\<lparr>wo_store := st\<rparr>))"

definition drawn_uuid :: "('o, 's) api_env \<Rightarrow> (('o, 's) api_world, 'e, uuid) act" where
  "drawn_uuid env w = (Inr (en_uuid env (wo_ticks w)), w\<lparr>wo_ticks := Suc (wo_ticks w)\<rparr>)"

definition assigned_version :: "('o, 's) api_env \<Rightarrow> actor \<Rightarrow> uuid \<Rightarrow> ('o, 's, 'e, int) case_handler" where
  "assigned_version env a c =
     and_then (on_case env (reading (en_assigned env))) (\<lambda>assigned. assert_case_access assigned a c)"

text \<open>
  \<open>_retick_orchestration\<close>: the planning task of a trigger and a run of the dispatcher; every
  failure is logged and swallowed, what has been committed stays.
\<close>

definition retick_case :: "('o, 's) api_env \<Rightarrow> uuid \<Rightarrow> string \<Rightarrow> (('o, 's) api_world, 'e, unit) act" where
  "retick_case env c trigger w =
     attempt
       (and_then (on_case env (kickoff (en_repo env) (en_kickoff env (wo_ticks w)) c (Some trigger))) (\<lambda>_.
        on_case env (\<lambda>orch. (Inr (), en_dispatch env orch))))
       (\<lambda>_. ret ()) w"

definition satisfy_human_gate ::
  "('o, 's) api_env \<Rightarrow> uuid \<Rightarrow> int \<Rightarrow> gate_type \<Rightarrow> actor \<Rightarrow> string \<Rightarrow> ('o, 's, 'e, gate_record) case_handler" where
  "satisfy_human_gate env c v g a ref =
     on_error (\<lambda>e. Uncaught (Gate_Refused e))
       (on_case env (rp_ensure_gate (en_repo env) c v g SATISFIED (Some (ac_actor_id a)) (Some ref)))"

section \<open>Assertions about the tables\<close>

text \<open>
  A relation \<open>R\<close> that the steps of the tables follow, and others that follow it too: every
  call moves the tables along \<open>R\<close>.
\<close>

definition others_follow :: "('s \<Rightarrow> 's \<Rightarrow> bool) \<Rightarrow> ('o, 's) api_env \<Rightarrow> bool" where
  "others_follow R env \<longleftrightarrow> (\<forall>k orch st. R\<^sup>*\<^sup>* st (snd (en_others env k (orch, st))))"

definition follows :: "('s \<Rightarrow> 's \<Rightarrow> bool) \<Rightarrow> (('o, 's) api_world, 'e, 'a) act \<Rightarrow> bool" where
  "follows R m \<longleftrightarrow> (\<forall>w. R\<^sup>*\<^sup>* (wo_store w) (wo_store (snd (m w))))"

named_theorems following \<open>actions whose steps follow a relation\<close>

lemma followsD: "follows R m \<Longrightarrow> m w = (r, w') \<Longrightarrow> R\<^sup>*\<^sup>* (wo_store w) (wo_store w')"
  unfolding follows_def by (metis snd_conv)

lemma disturbed_follows: "others_follow R env \<Longrightarrow> R\<^sup>*\<^sup>* (wo_store w) (wo_store (disturbed env w))"
  by (auto simp: others_follow_def disturbed_def split: prod.split) (metis snd_conv)

lemma follows_same: "(\<And>w. wo_store (snd (m w)) = wo_store w) \<Longrightarrow> follows R m"
  by (simp add: follows_def)

lemma follows_pure [following]:
  "follows R (ret x)" "follows R (raise e)" "follows R (check_act b e)" "follows R (require_role a role)"
  "follows R (require_reader roles a)" "follows R (assert_case_access assigned a c)" "follows R (found e v)"
  "follows R (drawn_uuid env)"
  by (intro follows_same; simp add: check_act_def require_role_def require_reader_def assert_case_access_def
      found_def drawn_uuid_def split: option.split)+

lemma follows_and_then [following]:
  assumes "follows R m" "\<And>x. follows R (f x)"
  shows "follows R (and_then m f)"
  unfolding follows_def
proof
  fix w
  obtain r w1 where m: "m w = (r, w1)" by fastforce
  have step: "R\<^sup>*\<^sup>* (wo_store w) (wo_store w1)" using followsD [OF assms(1) m] .
  show "R\<^sup>*\<^sup>* (wo_store w) (wo_store (snd (and_then m f w)))"
  proof (cases r)
    case (Inl e)
    with m step show ?thesis by simp
  next
    case (Inr x)
    have "R\<^sup>*\<^sup>* (wo_store w1) (wo_store (snd (f x w1)))" using assms(2) by (simp add: follows_def)
    with m step Inr show ?thesis by simp
  qed
qed

lemma follows_attempt [following]:
  assumes "follows R m" "\<And>e. follows R (h e)"
  shows "follows R (attempt m h)"
  unfolding follows_def
proof
  fix w
  obtain r w1 where m: "m w = (r, w1)" by fastforce
  have step: "R\<^sup>*\<^sup>* (wo_store w) (wo_store w1)" using followsD [OF assms(1) m] .
  show "R\<^sup>*\<^sup>* (wo_store w) (wo_store (snd (attempt m h w)))"
  proof (cases r)
    case (Inl e)
    have "R\<^sup>*\<^sup>* (wo_store w1) (wo_store (snd (h e w1)))" using assms(2) by (simp add: follows_def)
    with m step Inl show ?thesis by (simp add: attempt_def)
  next
    case (Inr x)
    with m step show ?thesis by (simp add: attempt_def)
  qed
qed

lemma follows_on_error [following]: "follows R m \<Longrightarrow> follows R (on_error h m)"
  by (simp add: follows_def)

lemma follows_on_case [following]:
  assumes "others_follow R env"
  shows "follows R (on_case env m)"
  unfolding follows_def
proof
  fix w show "R\<^sup>*\<^sup>* (wo_store w) (wo_store (snd (on_case env m w)))"
    using disturbed_follows [OF assms, of w] by (auto simp: on_case_def Let_def split: prod.split)
qed

lemma follows_on_tables:
  assumes "others_follow R env" "\<And>st r st'. m st = (r, st') \<Longrightarrow> R\<^sup>*\<^sup>* st st'"
  shows "follows R (on_tables env m)"
  unfolding follows_def
proof
  fix w
  obtain r st' where m: "m (wo_store (disturbed env w)) = (r, st')" by fastforce
  from disturbed_follows [OF assms(1), of w] assms(2) [OF m]
  show "R\<^sup>*\<^sup>* (wo_store w) (wo_store (snd (on_tables env m w)))" by (simp add: on_tables_def Let_def m)
qed

lemma follows_reading [following]: "others_follow R env \<Longrightarrow> follows R (on_tables env (reading f))"
  by (rule follows_on_tables) auto

lemma follows_atomically:
  "others_follow R env \<Longrightarrow> (\<And>st x st'. op st = Inr (x, st') \<Longrightarrow> R\<^sup>*\<^sup>* st st') \<Longrightarrow> follows R (on_tables env (atomically op))"
  by (rule follows_on_tables) (auto simp: atomically_def split: sum.splits)

lemma follows_assigned_version [following]: "others_follow R env \<Longrightarrow> follows R (assigned_version env a c)"
  unfolding assigned_version_def by (intro following)

lemma follows_retick [following]:
  assumes "others_follow R env"
  shows "follows R (retick_case env c trigger)"
proof -
  have "follows R (attempt (and_then (on_case env (kickoff (en_repo env) k c (Some trigger)))
      (\<lambda>_. on_case env (\<lambda>orch. (Inr (), en_dispatch env orch)))) (\<lambda>_. ret ()))" for k
    by (intro following assms)
  then show ?thesis unfolding follows_def retick_case_def by blast
qed

lemma follows_gate [following]: "others_follow R env \<Longrightarrow> follows R (satisfy_human_gate env c v g a ref)"
  unfolding satisfy_human_gate_def by (intro following)

text \<open>An invariant of the tables that \<open>R\<close> keeps.\<close>

lemma follows_keeps:
  assumes "follows R m" "\<And>st st'. J st \<Longrightarrow> R st st' \<Longrightarrow> J st'"
  shows "keeps (\<lambda>w. J (wo_store w)) m"
proof -
  have "J st \<Longrightarrow> R\<^sup>*\<^sup>* st st' \<Longrightarrow> J st'" for st st'
    by (rotate_tac, induction rule: rtranclp_induct) (auto intro: assms(2))
  with assms(1) show ?thesis unfolding follows_def keeps_def by blast
qed

text \<open>What a handler has read, it has read at a moment between its start and its end.\<close>

lemma on_tables_moment:
  assumes "others_follow R env" "on_tables env (reading f) w = (Inr x, w')"
  shows "x = f (wo_store w') \<and> R\<^sup>*\<^sup>* (wo_store w) (wo_store w')"
  using disturbed_follows [OF assms(1), of w] assms(2) by (auto simp: on_tables_def Let_def)

section \<open>Nobody else acts\<close>

definition left_alone :: "('o, 's) api_env \<Rightarrow> bool" where
  "left_alone env \<longleftrightarrow> (\<forall>k x. en_others env k x = x)"

lemma quiet_on_tables:
  "left_alone env \<Longrightarrow> on_tables env m w =
     (case m (wo_store w) of (r, st) \<Rightarrow> (r, w\<lparr>wo_store := st, wo_ticks := Suc (wo_ticks w)\<rparr>))"
  by (cases w) (auto simp: on_tables_def disturbed_def left_alone_def Let_def split: prod.split)

lemma quiet_on_case:
  "left_alone env \<Longrightarrow> on_case env m w =
     (case m (wo_orch w) of (r, orch) \<Rightarrow> (r, w\<lparr>wo_orch := orch, wo_ticks := Suc (wo_ticks w)\<rparr>))"
  by (cases w) (auto simp: on_case_def disturbed_def left_alone_def Let_def split: prod.split)

lemma quiet_assigned_version:
  "left_alone env \<Longrightarrow> assigned_version env a c w =
     (case en_assigned env (wo_orch w) c (ac_actor_id a) of
        None \<Rightarrow> (Inl (ApiException 404 ''CASE_NOT_ACCESSIBLE''), w\<lparr>wo_ticks := Suc (wo_ticks w)\<rparr>)
      | Some v \<Rightarrow> (Inr v, w\<lparr>wo_ticks := Suc (wo_ticks w)\<rparr>))"
  by (simp add: assigned_version_def quiet_on_case and_then_def assert_case_access_def split: option.split)

end
