(* ===== verification/Api_Sample.thy ===== *)
theory Api_Sample
  imports Api_World Postgres_Orchestration Case_Store
begin

text \<open>
  A world for the witnesses of the handlers: one case at its first version, the relational
  adapter of the orchestration, and nobody else who acts.
\<close>

definition sample_case_store :: "(uuid \<times> gate_record) list \<Rightarrow> store" where
  "sample_case_store gates =
     \<lparr>st_cases = [(7, 1)], st_handoffs = [], st_tasks = [], st_gates = gates, st_gaps = [], st_dependencies = [],
      st_outbox = [], st_proposals = [], st_audit = [], st_documents = [], st_checkpoints = [], st_slot = None,
      st_clock = 100, st_uuids = (\<lambda>n. 1000 + n), st_drawn = 0\<rparr>"

definition sample_api_env :: "(store, 's) api_env" where
  "sample_api_env =
     \<lparr>en_repo = postgres_orchestration, en_assigned = (\<lambda>_ c a. if c = 7 then Some 1 else None),
      en_kickoff = (\<lambda>_. \<lparr>ke_task_id = 60, ke_execution_id = 61, ke_now = 100\<rparr>), en_dispatch = (\<lambda>st. st),
      en_uuid = (\<lambda>n. 70 + n), en_others = (\<lambda>_ x. x)\<rparr>"

definition sample_api_world :: "'s \<Rightarrow> (uuid \<times> gate_record) list \<Rightarrow> (store, 's) api_world" where
  "sample_api_world st gates = \<lparr>wo_orch = sample_case_store gates, wo_store = st, wo_ticks = 0\<rparr>"

lemma sample_env_quiet: "left_alone sample_api_env" "others_follow R sample_api_env"
  by (simp_all add: left_alone_def others_follow_def sample_api_env_def)

lemma sample_env_fields:
  "en_assigned sample_api_env o' c x = (if c = 7 then Some 1 else None)" "en_uuid sample_api_env n = 70 + n"
  "en_repo sample_api_env = postgres_orchestration"
  by (simp_all add: sample_api_env_def)

lemmas sample_request_simps = and_then_def found_def require_role_def check_act_def on_error_def atomically_def Let_def
  quiet_assigned_version [OF sample_env_quiet(1)] quiet_on_tables [OF sample_env_quiet(1)]
  quiet_on_case [OF sample_env_quiet(1)] drawn_uuid_def sample_api_world_def sample_env_fields

lemma sample_gate_runs:
  "\<exists>r st. ensure_gate 7 1 g SATISFIED (Some x) (Some ref) (sample_case_store gates) = Inr (r, st)"
  by (rule ensure_gate_total) (simp add: sample_case_store_def case_version_of_def)

lemma retick_returns: "\<exists>w'. retick_case env c t w = (Inr (), w')"
proof -
  have "\<exists>w'. attempt m (\<lambda>_. ret ()) w = (Inr (), w')" for m :: "(('a, 'b) api_world, 'x, unit) act"
    by (cases "m w"; cases "fst (m w)") (auto simp: attempt_def)
  then show ?thesis by (simp add: retick_case_def)
qed

end
