(* ===== verification/Condition_Ledger.thy ===== *)
theory Condition_Ledger
  imports Case_Store Api_Access
begin

text \<open>
  The ledger of the disbursement conditions: the closed status set with its transition map
  (\<open>domain/conditions.py\<close>), the tables with their constraints and the transition trigger
  (\<open>202607180018_condition_ledger.sql\<close>) and the adapter's two transactions
  (\<open>infrastructure/postgres/conditions.py\<close>).
\<close>

section \<open>The status map\<close>

datatype condition_status =
    CPending | Evidence_Submitted | Condition_Verified | Condition_Failed | Waiver_Requested
  | Waived_By_Human | Condition_Superseded | Not_Applicable_By_Human

fun condition_transitions :: "condition_status \<Rightarrow> condition_status list" where
  "condition_transitions CPending = [Evidence_Submitted, Waiver_Requested, Not_Applicable_By_Human, Condition_Superseded]"
| "condition_transitions Evidence_Submitted = [Condition_Verified, Condition_Failed, Condition_Superseded]"
| "condition_transitions Condition_Failed = [Evidence_Submitted, Waiver_Requested, Condition_Superseded]"
| "condition_transitions Waiver_Requested = [Waived_By_Human, Condition_Failed, Condition_Superseded]"
| "condition_transitions Condition_Verified = [Condition_Superseded]"
| "condition_transitions Waived_By_Human = [Condition_Superseded]"
| "condition_transitions Not_Applicable_By_Human = [Condition_Superseded]"
| "condition_transitions Condition_Superseded = []"

definition confirmable_statuses :: "condition_status list" where
  "confirmable_statuses = [Condition_Verified, Waived_By_Human, Not_Applicable_By_Human]"

definition rationale_required_targets :: "condition_status list" where
  "rationale_required_targets = [Waived_By_Human, Not_Applicable_By_Human]"

definition checker_authority_targets :: "condition_status list" where
  "checker_authority_targets = [Condition_Verified, Waived_By_Human, Not_Applicable_By_Human]"

definition condition_move_allowed :: "condition_status \<Rightarrow> condition_status \<Rightarrow> bool" where
  "condition_move_allowed from to \<longleftrightarrow> to \<in> set (condition_transitions from)"

fun condition_status_of :: "string \<Rightarrow> condition_status option" where
  "condition_status_of s = map_of
     [(''PENDING'', CPending), (''EVIDENCE_SUBMITTED'', Evidence_Submitted), (''VERIFIED'', Condition_Verified),
      (''FAILED'', Condition_Failed), (''WAIVER_REQUESTED'', Waiver_Requested), (''WAIVED_BY_HUMAN'', Waived_By_Human),
      (''SUPERSEDED'', Condition_Superseded), (''NOT_APPLICABLE_BY_HUMAN'', Not_Applicable_By_Human)] s"

record disbursement_condition =
  dc_id :: uuid
  dc_case_id :: uuid
  dc_case_version :: int
  dc_decision_id :: uuid
  dc_condition_text :: string
  dc_owner :: "string option"
  dc_due_date :: "datetime option"
  dc_status :: condition_status
  dc_evidence_refs :: "string list"
  dc_created_at :: datetime

definition valid_condition :: "disbursement_condition \<Rightarrow> bool" where
  "valid_condition d \<longleftrightarrow> 1 \<le> dc_case_version d \<and>
     1 \<le> length (dc_condition_text d) \<and> length (dc_condition_text d) \<le> 4000 \<and>
     (case dc_owner d of None \<Rightarrow> True | Some s \<Rightarrow> 1 \<le> length s \<and> length s \<le> 400)"

definition conditions_confirmable :: "condition_status list \<Rightarrow> bool" where
  "conditions_confirmable statuses \<longleftrightarrow>
     statuses \<noteq> [] \<and> list_all (\<lambda>s. s \<in> set confirmable_statuses) statuses"

section \<open>Tables\<close>

record status_event =
  se_condition_id :: uuid
  se_from :: "condition_status option"
  se_to :: condition_status
  se_rationale :: "string option"
  se_actor_id :: uuid
  se_actor_role :: string

record ledger_audit =
  la_event_type :: string
  la_actor_type :: string
  la_actor_id :: "uuid option"
  la_artifact_id :: uuid

record condition_store =
  ct_conditions :: "disbursement_condition list"
  ct_events :: "status_event list"
  ct_audit :: "ledger_audit list"
  ct_decisions :: "(uuid \<times> uuid \<times> int) list"
  ct_clock :: datetime

datatype condition_error =
    ConditionNotFound uuid
  | ForbiddenConditionTransition condition_status condition_status
  | Rationale_Missing condition_status
  | Condition_Row_Refused

definition status_event_ok :: "status_event \<Rightarrow> bool" where
  "status_event_ok e \<longleftrightarrow>
     (case se_rationale e of None \<Rightarrow> se_to e \<notin> set rationale_required_targets | Some r \<Rightarrow> not_blank r) \<and>
     not_blank (se_actor_role e)"

definition condition_row_ok :: "condition_store \<Rightarrow> disbursement_condition \<Rightarrow> bool" where
  "condition_row_ok st d \<longleftrightarrow> 0 < dc_case_version d \<and> not_blank (dc_condition_text d) \<and>
     (case dc_owner d of None \<Rightarrow> True | Some s \<Rightarrow> not_blank s) \<and>
     (dc_decision_id d, dc_case_id d, dc_case_version d) \<in> set (ct_decisions st) \<and>
     dc_id d \<notin> dc_id ` set (ct_conditions st)"

definition insert_status_event :: "status_event \<Rightarrow> condition_store \<Rightarrow> condition_error + condition_store" where
  "insert_status_event e st =
     rbind (check_that (status_event_ok e \<and> se_condition_id e \<in> dc_id ` set (ct_conditions st)) Condition_Row_Refused) (\<lambda>_.
     Inr (st\<lparr>ct_events := ct_events st @ [e]\<rparr>))"

definition insert_condition_audit :: "string \<Rightarrow> uuid \<Rightarrow> string \<Rightarrow> uuid \<Rightarrow> condition_store \<Rightarrow> condition_store" where
  "insert_condition_audit event actor role i st =
     st\<lparr>ct_audit := ct_audit st @ [\<lparr>la_event_type = event, la_actor_type = ''HUMAN:'' @ role,
       la_actor_id = Some actor, la_artifact_id = i\<rparr>]\<rparr>"

section \<open>The adapter\<close>

definition record_condition ::
  "disbursement_condition \<Rightarrow> uuid \<Rightarrow> string \<Rightarrow> condition_store \<Rightarrow> condition_error + disbursement_condition \<times> condition_store" where
  "record_condition d actor role st =
     (let row = d\<lparr>dc_created_at := ct_clock st\<rparr> in
      rbind (check_that (condition_row_ok st row) Condition_Row_Refused) (\<lambda>_.
      rbind (insert_status_event
        \<lparr>se_condition_id = dc_id d, se_from = None, se_to = dc_status d, se_rationale = None,
         se_actor_id = actor, se_actor_role = role\<rparr> (st\<lparr>ct_conditions := ct_conditions st @ [row]\<rparr>)) (\<lambda>st1.
      Inr (row, insert_condition_audit ''DISBURSEMENT_CONDITION_CREATED'' actor role (dc_id d) st1))))"

definition is_condition :: "uuid \<Rightarrow> uuid \<Rightarrow> int \<Rightarrow> disbursement_condition \<Rightarrow> bool" where
  "is_condition i c v d \<longleftrightarrow> dc_id d = i \<and> dc_case_id d = c \<and> dc_case_version d = v"

definition load_condition :: "uuid \<Rightarrow> uuid \<Rightarrow> int \<Rightarrow> condition_store \<Rightarrow> disbursement_condition option" where
  "load_condition i c v st = find (is_condition i c v) (ct_conditions st)"

text \<open>The update with its trigger: the map is checked again, only the status and the references change.\<close>

definition update_condition ::
  "uuid \<Rightarrow> uuid \<Rightarrow> int \<Rightarrow> condition_status \<Rightarrow> string list \<Rightarrow> condition_store \<Rightarrow> condition_error + condition_store" where
  "update_condition i c v to refs st =
     rbind (check_that (list_all (\<lambda>d. is_condition i c v d \<longrightarrow> condition_move_allowed (dc_status d) to) (ct_conditions st))
       Condition_Row_Refused) (\<lambda>_.
     Inr (st\<lparr>ct_conditions := map (\<lambda>d. if is_condition i c v d then d\<lparr>dc_status := to, dc_evidence_refs := refs\<rparr> else d)
       (ct_conditions st)\<rparr>))"

definition move_condition ::
  "uuid \<Rightarrow> uuid \<Rightarrow> int \<Rightarrow> condition_status \<Rightarrow> uuid \<Rightarrow> string \<Rightarrow> string option \<Rightarrow> string list option \<Rightarrow>
   condition_store \<Rightarrow> condition_error + disbursement_condition \<times> condition_store" where
  "move_condition i c v to actor role rationale refs st =
     (case load_condition i c v st of
        None \<Rightarrow> Inl (ConditionNotFound i)
      | Some current \<Rightarrow>
          rbind (check_that (condition_move_allowed (dc_status current) to)
            (ForbiddenConditionTransition (dc_status current) to)) (\<lambda>_.
          rbind (check_that (\<not> (to \<in> set rationale_required_targets \<and> (rationale = None \<or> rationale = Some [])))
            (Rationale_Missing to)) (\<lambda>_.
          let new_refs = (case refs of None \<Rightarrow> dc_evidence_refs current | Some r \<Rightarrow> r) in
          rbind (update_condition i c v to new_refs st) (\<lambda>st1.
          rbind (insert_status_event
            \<lparr>se_condition_id = i, se_from = Some (dc_status current), se_to = to, se_rationale = rationale,
             se_actor_id = actor, se_actor_role = role\<rparr> st1) (\<lambda>st2.
          Inr (current\<lparr>dc_status := to, dc_evidence_refs := new_refs\<rparr>,
               insert_condition_audit ''DISBURSEMENT_CONDITION_TRANSITIONED'' actor role i st2))))))"

text \<open>\<open>order by created_at asc, id asc\<close>: the table lists its rows in that order.\<close>

definition ledger_conditions :: "uuid \<Rightarrow> int \<Rightarrow> condition_store \<Rightarrow> disbursement_condition list" where
  "ledger_conditions c v st = filter (\<lambda>d. dc_case_id d = c \<and> dc_case_version d = v) (ct_conditions st)"

definition verifying_actor_ids :: "uuid \<Rightarrow> int \<Rightarrow> condition_store \<Rightarrow> uuid list" where
  "verifying_actor_ids c v st =
     map se_actor_id (filter (\<lambda>e. se_to e = Condition_Verified \<and>
       list_ex (\<lambda>d. dc_id d = se_condition_id e) (ledger_conditions c v st)) (ct_events st))"

text \<open>The audit event of the confirmation names no actor in its column.\<close>

definition audit_confirmation :: "uuid \<Rightarrow> condition_store \<Rightarrow> condition_store" where
  "audit_confirmation artifact st =
     st\<lparr>ct_audit := ct_audit st @ [\<lparr>la_event_type = ''DISBURSEMENT_CONDITIONS_CONFIRMED'',
       la_actor_type = ''HUMAN:OPS_CHECKER'', la_actor_id = None, la_artifact_id = artifact\<rparr>]\<rparr>"

section \<open>The history of a condition\<close>

text \<open>The moves of one condition, in order.\<close>

definition history :: "uuid \<Rightarrow> condition_store \<Rightarrow> status_event list" where
  "history i st = filter (\<lambda>e. se_condition_id e = i) (ct_events st)"

text \<open>From one status to another along the map, every move starting where the last one ended.\<close>

fun moves_along :: "condition_status \<Rightarrow> status_event list \<Rightarrow> condition_status \<Rightarrow> bool" where
  "moves_along s [] t \<longleftrightarrow> s = t"
| "moves_along s (e # es) t \<longleftrightarrow>
     se_from e = Some s \<and> condition_move_allowed s (se_to e) \<and> moves_along (se_to e) es t"

definition history_ok :: "status_event list \<Rightarrow> condition_status \<Rightarrow> bool" where
  "history_ok es t \<longleftrightarrow>
     (case es of [] \<Rightarrow> False | e # rest \<Rightarrow> se_from e = None \<and> se_to e = CPending \<and> moves_along CPending rest t)"

text \<open>A move reserved to the checker was made in that role, with the reasons that are required.\<close>

definition authorised_move :: "status_event \<Rightarrow> bool" where
  "authorised_move e \<longleftrightarrow> status_event_ok e \<and>
     (se_to e \<in> set checker_authority_targets \<longrightarrow> se_actor_role e = OPS_CHECKER_ROLE)"

definition ledger_ok :: "condition_store \<Rightarrow> bool" where
  "ledger_ok st \<longleftrightarrow>
     distinct (map dc_id (ct_conditions st)) \<and>
     list_all (\<lambda>d. history_ok (history (dc_id d) st) (dc_status d)) (ct_conditions st) \<and>
     list_all (\<lambda>e. authorised_move e \<and> se_condition_id e \<in> dc_id ` set (ct_conditions st)) (ct_events st)"

text \<open>The steps the handlers take: which role a move needs is their decision.\<close>

inductive ledger_step :: "condition_store \<Rightarrow> condition_store \<Rightarrow> bool" where
  opened: "record_condition d actor role st = Inr (row, st') \<Longrightarrow> dc_status d = CPending \<Longrightarrow> ledger_step st st'"
| moved: "move_condition i c v to actor role rationale refs st = Inr (row, st') \<Longrightarrow>
    (to \<in> set checker_authority_targets \<longrightarrow> role = OPS_CHECKER_ROLE) \<Longrightarrow> ledger_step st st'"
| audited: "ledger_step st (audit_confirmation artifact st)"

lemma moves_along_append: "moves_along s (es @ [e]) t \<longleftrightarrow>
   (\<exists>u. moves_along s es u \<and> se_from e = Some u \<and> condition_move_allowed u (se_to e) \<and> se_to e = t)"
  by (induction es arbitrary: s) auto

lemma history_ok_append: "history_ok es u \<Longrightarrow> se_from e = Some u \<Longrightarrow> condition_move_allowed u (se_to e) \<Longrightarrow>
   history_ok (es @ [e]) (se_to e)"
  by (cases es) (auto simp: history_ok_def moves_along_append)

lemma record_condition_Inr:
  assumes "record_condition d actor role st = Inr (row, st')"
  shows "row = d\<lparr>dc_created_at := ct_clock st\<rparr> \<and> condition_row_ok st row \<and> ct_conditions st' = ct_conditions st @ [row] \<and>
    ct_decisions st' = ct_decisions st \<and>
    (\<exists>e. status_event_ok e \<and> se_condition_id e = dc_id d \<and> se_from e = None \<and> se_to e = dc_status d \<and>
       se_actor_role e = role \<and> se_actor_id e = actor \<and> ct_events st' = ct_events st @ [e])"
  using assms by (auto simp: record_condition_def insert_status_event_def insert_condition_audit_def Let_def result_simps)

lemma move_condition_Inr:
  assumes "move_condition i c v to actor role rationale refs st = Inr (row, st')"
  shows "\<exists>current new_refs e. load_condition i c v st = Some current \<and> condition_move_allowed (dc_status current) to \<and>
    row = current\<lparr>dc_status := to, dc_evidence_refs := new_refs\<rparr> \<and> ct_decisions st' = ct_decisions st \<and>
    ct_conditions st' = map (\<lambda>d. if is_condition i c v d then d\<lparr>dc_status := to, dc_evidence_refs := new_refs\<rparr> else d)
      (ct_conditions st) \<and>
    status_event_ok e \<and> se_condition_id e = i \<and> se_from e = Some (dc_status current) \<and> se_to e = to \<and>
    se_actor_role e = role \<and> se_actor_id e = actor \<and> se_rationale e = rationale \<and> ct_events st' = ct_events st @ [e]"
proof (cases "load_condition i c v st")
  case None
  with assms show ?thesis by (simp add: move_condition_def)
next
  case (Some current)
  let ?refs = "case refs of None \<Rightarrow> dc_evidence_refs current | Some r \<Rightarrow> r"
  let ?e = "\<lparr>se_condition_id = i, se_from = Some (dc_status current), se_to = to, se_rationale = rationale,
    se_actor_id = actor, se_actor_role = role\<rparr>"
  from assms Some have "condition_move_allowed (dc_status current) to" "status_event_ok ?e"
    "row = current\<lparr>dc_status := to, dc_evidence_refs := ?refs\<rparr>" "ct_decisions st' = ct_decisions st"
    "ct_conditions st' = map (\<lambda>d. if is_condition i c v d then d\<lparr>dc_status := to, dc_evidence_refs := ?refs\<rparr> else d)
      (ct_conditions st)" "ct_events st' = ct_events st @ [?e]"
    by (auto simp: move_condition_def update_condition_def insert_status_event_def insert_condition_audit_def Let_def
        result_simps)
  with Some show ?thesis by (intro exI [of _ current] exI [of _ ?refs] exI [of _ ?e]) simp
qed

lemma history_new:
  "ct_events st' = ct_events st @ [e] \<Longrightarrow> history i st' = history i st @ (if se_condition_id e = i then [e] else [])"
  by (simp add: history_def)

lemma ledger_step_ok:
  assumes "ledger_step st st'" "ledger_ok st"
  shows "ledger_ok st'"
  using assms
proof (induction rule: ledger_step.induct)
  case (opened d actor role st row st')
  from record_condition_Inr [OF opened(1)] obtain e where new: "condition_row_ok st row" "row = d\<lparr>dc_created_at := ct_clock st\<rparr>"
    "ct_conditions st' = ct_conditions st @ [row]" "status_event_ok e" "se_condition_id e = dc_id d" "se_from e = None"
    "se_to e = CPending" "ct_events st' = ct_events st @ [e]" using opened(2) by auto
  have fresh: "dc_id d \<notin> dc_id ` set (ct_conditions st)" using new(1,2) by (simp add: condition_row_ok_def)
  have empty: "history (dc_id d) st = []"
    using opened(3) fresh unfolding ledger_ok_def history_def list_all_iff filter_empty_conv by metis
  have "authorised_move e" using new(4,7) by (simp add: authorised_move_def checker_authority_targets_def)
  moreover have "history_ok (history (dc_id x) st') (dc_status x)" if "x \<in> set (ct_conditions st)" for x
    using that opened(3) fresh new(5) unfolding history_new [OF new(8)] by (auto simp: ledger_ok_def list_all_iff)
  moreover have "history_ok (history (dc_id row) st') (dc_status row)"
    unfolding history_new [OF new(8)] using empty new(2,5,6,7) opened(2) by (simp add: history_ok_def)
  ultimately show ?case
    using opened(3) fresh new(2,3,5,8) by (auto simp: ledger_ok_def list_all_iff)
next
  case (moved i c v to actor role rationale refs st row st')
  from move_condition_Inr [OF moved(1)] obtain current new_refs e where
    cur: "load_condition i c v st = Some current" "condition_move_allowed (dc_status current) to" and
    st': "ct_conditions st' = map (\<lambda>d. if is_condition i c v d then d\<lparr>dc_status := to, dc_evidence_refs := new_refs\<rparr> else d)
      (ct_conditions st)" and
    e: "status_event_ok e" "se_condition_id e = i" "se_from e = Some (dc_status current)" "se_to e = to"
      "se_actor_role e = role" "ct_events st' = ct_events st @ [e]" by blast
  have here: "current \<in> set (ct_conditions st)" "is_condition i c v current"
    using find_SomeD [OF cur(1) [unfolded load_condition_def]] by auto
  have ids: "map dc_id (ct_conditions st') = map dc_id (ct_conditions st)"
    unfolding st' by (simp add: o_def if_distrib [of dc_id] cong: if_cong)
  have uniq: "x = current" if "x \<in> set (ct_conditions st)" "dc_id x = i" for x
    using that here moved(3) unfolding ledger_ok_def is_condition_def distinct_map by (metis inj_onD)
  have "authorised_move e" using e moved(2) by (auto simp: authorised_move_def)
  moreover have "history_ok (history (dc_id x) st') (dc_status x)" if x: "x \<in> set (ct_conditions st')" for x
  proof -
    from x obtain y where y: "y \<in> set (ct_conditions st)"
      "x = (if is_condition i c v y then y\<lparr>dc_status := to, dc_evidence_refs := new_refs\<rparr> else y)" unfolding st' by auto
    have old: "history_ok (history (dc_id y) st) (dc_status y)" using moved(3) y(1) by (simp add: ledger_ok_def list_all_iff)
    show ?thesis
    proof (cases "dc_id y = i")
      case True
      with uniq y(1) have "y = current" by blast
      with y(2) here(2) True old history_ok_append [OF old, of e] e cur(2) show ?thesis
        unfolding history_new [OF e(6)] by simp
    next
      case False
      with y(2) old e(2) show ?thesis unfolding history_new [OF e(6)] by (simp add: is_condition_def)
    qed
  qed
  moreover have "dc_id ` set (ct_conditions st') = dc_id ` set (ct_conditions st)" using ids by (metis set_map)
  moreover have "i \<in> dc_id ` set (ct_conditions st)" using here by (auto simp: is_condition_def)
  ultimately show ?case
    using moved(3) e(2,6) ids by (auto simp: ledger_ok_def list_all_iff is_condition_def)
next
  case (audited st artifact)
  then show ?case by (simp add: ledger_ok_def audit_confirmation_def history_def)
qed

end
