(* ===== verification/Condition_Api.thy ===== *)
theory Condition_Api
  imports Api_Sample Condition_Ledger
begin

text \<open>
  The handlers of \<open>api/conditions.py\<close> over the condition ledger and the orchestration: who may
  open, move, and confirm, and what the confirmation rests on.  The decision of a case version
  is a parameter: it is recorded once and never changes.
\<close>

section \<open>The handlers\<close>

type_synonym decisions = "uuid \<Rightarrow> int \<Rightarrow> credit_decision option"

type_synonym ('o, 'a) ledger_handler = "('o, condition_store, condition_error, 'a) case_handler"

record create_condition_request =
  qc_condition_text :: string
  qc_owner :: "string option"
  qc_due_date :: "datetime option"

definition stored :: "'e \<Rightarrow> 'e table_error api_error" where
  "stored e = Uncaught (Table_Refused e)"

definition create_condition ::
  "('o, condition_store) api_env \<Rightarrow> decisions \<Rightarrow> uuid \<Rightarrow> create_condition_request \<Rightarrow> actor \<Rightarrow>
   ('o, disbursement_condition) ledger_handler" where
  "create_condition env decisions c body a =
     and_then (require_role a OPS_OFFICER_ROLE) (\<lambda>_.
     and_then (assigned_version env a c) (\<lambda>version.
     and_then (check_act (permits (decisions c version)) (ApiException 409 ''CONDITIONS_REQUIRE_APPROVAL_DECISION'')) (\<lambda>_.
     and_then (drawn_uuid env) (\<lambda>i.
     let d = \<lparr>dc_id = i, dc_case_id = c, dc_case_version = version, dc_decision_id = cd_id (the (decisions c version)),
              dc_condition_text = qc_condition_text body, dc_owner = qc_owner body, dc_due_date = qc_due_date body,
              dc_status = CPending, dc_evidence_refs = [], dc_created_at = 0\<rparr> in
     and_then (check_act (valid_condition d) (ApiException 422 ''INVALID_CONDITION'')) (\<lambda>_.
     on_error stored (on_tables env (atomically (record_condition d (ac_actor_id a) OPS_OFFICER_ROLE))))))))"

definition list_conditions ::
  "('o, condition_store) api_env \<Rightarrow> uuid \<Rightarrow> actor \<Rightarrow>
   ('o, disbursement_condition list \<times> int \<times> bool) ledger_handler" where
  "list_conditions env c a =
     and_then (require_reader (CASE_PARTICIPANT_ROLES @ [OPS_CHECKER_ROLE]) a) (\<lambda>_.
     and_then (assigned_version env a c) (\<lambda>version.
     and_then (on_tables env (reading (ledger_conditions c version))) (\<lambda>conditions.
     ret (conditions, version, conditions_confirmable (map dc_status conditions)))))"

record transition_request =
  qt_to_status :: string
  qt_rationale :: "string option"
  qt_evidence_refs :: "string list option"

definition required_role :: "condition_status \<Rightarrow> string" where
  "required_role to = (if to \<in> set checker_authority_targets then OPS_CHECKER_ROLE else OPS_OFFICER_ROLE)"

fun transition_refused :: "condition_error \<Rightarrow> condition_error table_error api_error" where
  "transition_refused (ConditionNotFound i) = ApiException 404 ''CONDITION_NOT_FOUND''"
| "transition_refused (ForbiddenConditionTransition s t) = ApiException 422 ''FORBIDDEN_CONDITION_TRANSITION''"
| "transition_refused e = stored e"

definition transition_condition ::
  "('o, condition_store) api_env \<Rightarrow> uuid \<Rightarrow> uuid \<Rightarrow> transition_request \<Rightarrow> actor \<Rightarrow>
   ('o, disbursement_condition) ledger_handler" where
  "transition_condition env c i body a =
     and_then (found (ApiException 422 ''INVALID_CONDITION_STATUS'') (condition_status_of (qt_to_status body))) (\<lambda>to.
     and_then (require_role a (required_role to)) (\<lambda>_.
     and_then (assigned_version env a c) (\<lambda>version.
     and_then (check_act (\<not> (to \<in> set rationale_required_targets \<and> (qt_rationale body = None \<or> qt_rationale body = Some [])))
       (ApiException 422 ''RATIONALE_REQUIRED'')) (\<lambda>_.
     and_then (on_tables env (reading (load_condition i c version))) (\<lambda>loaded.
     and_then (found (ApiException 404 ''CONDITION_NOT_FOUND'') loaded) (\<lambda>current.
     and_then (check_act (condition_move_allowed (dc_status current) to)
       (ApiException 422 ''FORBIDDEN_CONDITION_TRANSITION'')) (\<lambda>_.
     on_error transition_refused (on_tables env (atomically
       (move_condition i c version to (ac_actor_id a) (required_role to) (qt_rationale body) (qt_evidence_refs body)))))))))))"

definition confirm_conditions ::
  "('o, condition_store) api_env \<Rightarrow> uuid \<Rightarrow> actor \<Rightarrow> ('o, int \<times> string) ledger_handler" where
  "confirm_conditions env c a =
     and_then (require_role a OPS_CHECKER_ROLE) (\<lambda>_.
     and_then (assigned_version env a c) (\<lambda>version.
     and_then (on_tables env (reading (ledger_conditions c version))) (\<lambda>conditions.
     and_then (check_act (conditions_confirmable (map dc_status conditions)) (ApiException 409 ''CONDITIONS_NOT_SATISFIED'')) (\<lambda>_.
     and_then (on_tables env (reading (verifying_actor_ids c version))) (\<lambda>verifying.
     and_then (check_act (ac_actor_id a \<notin> set verifying) (ApiException 409 ''SAME_ACTOR_FORBIDDEN'')) (\<lambda>_.
     let ref = ''disbursement-conditions:'' @ str_int version in
     and_then (satisfy_human_gate env c version HG_DISBURSEMENT_CONDITIONS_CONFIRMED a ref) (\<lambda>_.
     and_then (on_tables env (\<lambda>st. (Inr (), audit_confirmation c st))) (\<lambda>_.
     and_then (retick_case env c (''HG_COND:'' @ str_int version)) (\<lambda>_.
     ret (version, ref))))))))))"

section \<open>Every handler follows the steps of the ledger\<close>

lemma step_record: "dc_status d = CPending \<Longrightarrow> record_condition d actor role st = Inr (row, st') \<Longrightarrow> ledger_step\<^sup>*\<^sup>* st st'"
  by (blast intro: opened)

lemma step_move:
  "move_condition i c v to actor (required_role to) rationale refs st = Inr (row, st') \<Longrightarrow> ledger_step\<^sup>*\<^sup>* st st'"
  by (rule r_into_rtranclp, erule moved) (simp add: required_role_def)

lemma create_follows:
  assumes "others_follow ledger_step env"
  shows "follows ledger_step (create_condition env decisions c body a)"
  unfolding create_condition_def Let_def
  by (intro following assms follows_atomically) (rule step_record, auto)

lemma transition_follows:
  assumes "others_follow ledger_step env"
  shows "follows ledger_step (transition_condition env c i body a)"
  unfolding transition_condition_def
  by (intro following assms follows_atomically) (erule step_move)

lemma audit_follows: "others_follow ledger_step env \<Longrightarrow> follows ledger_step (on_tables env (\<lambda>st. (Inr (), audit_confirmation c st)))"
  by (rule follows_on_tables) (auto intro: audited)

lemma confirm_follows:
  assumes "others_follow ledger_step env"
  shows "follows ledger_step (confirm_conditions env c a)"
  unfolding confirm_conditions_def Let_def
  by (intro following assms audit_follows)

lemma list_follows:
  assumes "others_follow ledger_step env"
  shows "follows ledger_step (list_conditions env c a)"
  unfolding list_conditions_def by (intro following assms)

lemma handler_keeps: "follows ledger_step m \<Longrightarrow> keeps (\<lambda>w. ledger_ok (wo_store w)) m"
  by (erule follows_keeps) (rule ledger_step_ok)

section \<open>Properties\<close>

text \<open>
  C23: Every handler, on every outcome and under any interference that takes the steps of the
  ledger, keeps the history of the conditions: the moves of a condition start with its creation,
  follow the transition map without a gap and end at its status, and every verification,
  waiver and ruling of not-applicable was made in the role of the independent checker, the
  last two with a reason on record.
\<close>

theorem condition_history_kept:
  assumes "others_follow ledger_step env"
  shows "keeps (\<lambda>w. ledger_ok (wo_store w)) (create_condition env decisions c body a) \<and>
    keeps (\<lambda>w. ledger_ok (wo_store w)) (transition_condition env c i move a) \<and>
    keeps (\<lambda>w. ledger_ok (wo_store w)) (list_conditions env c a) \<and>
    keeps (\<lambda>w. ledger_ok (wo_store w)) (confirm_conditions env c a)"
  by (intro conjI handler_keeps create_follows transition_follows list_follows confirm_follows assms)

text \<open>
  C24: A confirmation rests on the ledger: when it succeeds, the actor holds the checker's role
  on the assigned case, at one moment of the request the ledger of that version had
  conditions and all of them were settled, and at a later moment no condition of it had
  been verified by this actor.
\<close>

theorem confirmation_rests_on_ledger:
  fixes env :: "('o, condition_store) api_env"
  assumes "others_follow ledger_step env"
    and "confirm_conditions env c a w = (Inr (version, ref), w')"
  shows "OPS_CHECKER_ROLE \<in> set (ac_roles a) \<and>
    (\<exists>st1 st2. ledger_step\<^sup>*\<^sup>* (wo_store w) st1 \<and> ledger_step\<^sup>*\<^sup>* st1 st2 \<and> ledger_step\<^sup>*\<^sup>* st2 (wo_store w') \<and>
       conditions_confirmable (map dc_status (ledger_conditions c version st1)) \<and>
       ac_actor_id a \<notin> set (verifying_actor_ids c version st2))"
proof -
  let ?rest = "\<lambda>v :: int. (and_then (satisfy_human_gate env c v HG_DISBURSEMENT_CONDITIONS_CONFIRMED a
      (''disbursement-conditions:'' @ str_int v)) (\<lambda>_.
     and_then (on_tables env (\<lambda>st. (Inr (), audit_confirmation c st))) (\<lambda>_.
     and_then (retick_case env c (''HG_COND:'' @ str_int v)) (\<lambda>_.
     ret (v, ''disbursement-conditions:'' @ str_int v)))) :: ('o, int \<times> string) ledger_handler)"
  note parts = and_then_Inr [where m = "require_role a OPS_CHECKER_ROLE"] and_then_Inr [where m = "assigned_version env a c"]
    and_then_Inr [where m = "on_tables env (reading f)" for f] and_then_Inr [where m = "check_act b e" for b e]
  from assms(2) obtain v w1 w2 w3 conditions verifying where run:
    "OPS_CHECKER_ROLE \<in> set (ac_roles a)" "assigned_version env a c w = (Inr v :: condition_error table_error api_error + int, w1)"
    "on_tables env (reading (ledger_conditions c v)) w1 = (Inr conditions :: condition_error table_error api_error + _, w2)"
    "conditions_confirmable (map dc_status conditions)"
    "on_tables env (reading (verifying_actor_ids c v)) w2 = (Inr verifying :: condition_error table_error api_error + _, w3)"
    "ac_actor_id a \<notin> set verifying" and rest: "?rest v w3 = (Inr (version, ref), w')"
    unfolding confirm_conditions_def Let_def parts access_simps by blast
  from rest have v: "v = version" by (auto simp: and_then_Inr)
  note run = run [unfolded v] and rest = rest [unfolded v]
  have "ledger_step\<^sup>*\<^sup>* (wo_store w) (wo_store w1)"
    using followsD [OF follows_assigned_version [OF assms(1)] run(2)] .
  moreover note on_tables_moment [OF assms(1) run(3)] on_tables_moment [OF assms(1) run(5)]
  moreover have "follows ledger_step (?rest version)" by (intro following assms(1) audit_follows)
  from followsD [OF this rest] have "ledger_step\<^sup>*\<^sup>* (wo_store w3) (wo_store w')" .
  ultimately show ?thesis using run(1,4,6)
    by (intro conjI exI [of _ "wo_store w2"] exI [of _ "wo_store w3"]) (auto intro: rtranclp_trans)
qed

section \<open>A condition opened after the confirmation\<close>

definition conditions_gate_satisfied :: "('o, condition_store) api_env \<Rightarrow> uuid \<Rightarrow> ('o, condition_store) api_world \<Rightarrow> bool" where
  "conditions_gate_satisfied env c w \<longleftrightarrow>
     (\<exists>sn r. rp_load_snapshot (en_repo env) c (wo_orch w) = Some sn \<and>
        stored_gate sn HG_DISBURSEMENT_CONDITIONS_CONFIRMED = Some r \<and> gr_status r = SATISFIED)"

lemma create_condition_effect:
  assumes "left_alone env" "create_condition env decisions c body a w = (Inr d, w')"
  shows "\<exists>v. en_assigned env (wo_orch w) c (ac_actor_id a) = Some v \<and> wo_orch w' = wo_orch w \<and>
    dc_status d = CPending \<and> d \<in> set (ledger_conditions c v (wo_store w'))"
  using assms(2)
  by (auto simp: create_condition_def Let_def and_then_Inr access_simps quiet_assigned_version [OF assms(1)]
      quiet_on_tables [OF assms(1)] drawn_uuid_def stored_def atomically_def on_error_def ledger_conditions_def
      split: option.splits sum.splits prod.splits dest!: record_condition_Inr)

text \<open>
  C25: Opening a condition never looks at the gate: after the conditions of a version have
  been confirmed an officer may still open another one, which leaves the gate satisfied
  over a ledger that could no longer be confirmed; \<open>create_disbursement\<close> then
  reads the gate, not the ledger.
\<close>

theorem gate_outlives_ledger:
  assumes "left_alone env" "conditions_gate_satisfied env c w"
    and "create_condition env decisions c body a w = (Inr d, w')"
  shows "conditions_gate_satisfied env c w' \<and>
    (\<exists>v. en_assigned env (wo_orch w) c (ac_actor_id a) = Some v \<and>
       \<not> conditions_confirmable (map dc_status (ledger_conditions c v (wo_store w'))))"
proof -
  from create_condition_effect [OF assms(1,3)] obtain v where v:
    "en_assigned env (wo_orch w) c (ac_actor_id a) = Some v" "wo_orch w' = wo_orch w"
    "dc_status d = CPending" "d \<in> set (ledger_conditions c v (wo_store w'))" by blast
  then have "CPending \<in> set (map dc_status (ledger_conditions c v (wo_store w')))" by force
  then have "\<not> list_all (\<lambda>s. s \<in> set confirmable_statuses) (map dc_status (ledger_conditions c v (wo_store w')))"
    unfolding list_all_iff confirmable_statuses_def by fastforce
  then have "\<not> conditions_confirmable (map dc_status (ledger_conditions c v (wo_store w')))"
    by (simp add: conditions_confirmable_def)
  with assms(2) v show ?thesis by (simp add: conditions_gate_satisfied_def)
qed

section \<open>Samples\<close>

definition verified_ledger :: condition_store where
  "verified_ledger =
     \<lparr>ct_conditions = [\<lparr>dc_id = 1, dc_case_id = 7, dc_case_version = 1, dc_decision_id = 3, dc_condition_text = ''t'',
        dc_owner = None, dc_due_date = None, dc_status = Condition_Verified, dc_evidence_refs = [], dc_created_at = 5\<rparr>],
      ct_events = [\<lparr>se_condition_id = 1, se_from = None, se_to = CPending, se_rationale = None, se_actor_id = 40,
          se_actor_role = OPS_OFFICER_ROLE\<rparr>,
        \<lparr>se_condition_id = 1, se_from = Some CPending, se_to = Evidence_Submitted, se_rationale = None, se_actor_id = 40,
          se_actor_role = OPS_OFFICER_ROLE\<rparr>,
        \<lparr>se_condition_id = 1, se_from = Some Evidence_Submitted, se_to = Condition_Verified, se_rationale = None,
          se_actor_id = 41, se_actor_role = OPS_CHECKER_ROLE\<rparr>],
      ct_audit = [], ct_decisions = [(3, 7, 1)], ct_clock = 9\<rparr>"

definition confirmed_gate :: gate_record where
  "confirmed_gate = satisfied_record (open_gate HG_DISBURSEMENT_CONDITIONS_CONFIRMED 1) (Some 42) (Some ''r'') 90"

lemma verified_ledger_ok: "ledger_ok verified_ledger"
  by (simp add: verified_ledger_def ledger_ok_def history_ok_def history_def condition_move_allowed_def authorised_move_def
      status_event_ok_def rationale_required_targets_def checker_authority_targets_def OPS_OFFICER_ROLE_def
      OPS_CHECKER_ROLE_def row_text_simps)

theorem condition_history_kept_witness:
  "\<exists>w' d. transition_condition sample_api_env 7 1
      \<lparr>qt_to_status = ''SUPERSEDED'', qt_rationale = None, qt_evidence_refs = None\<rparr>
      \<lparr>ac_actor_id = 40, ac_roles = [OPS_OFFICER_ROLE]\<rparr> (sample_api_world verified_ledger []) = (Inr d, w') \<and>
    dc_status d = Condition_Superseded \<and> ledger_ok (wo_store w')"
proof -
  let ?a = "\<lparr>ac_actor_id = 40, ac_roles = [OPS_OFFICER_ROLE]\<rparr>"
  let ?move = "\<lparr>qt_to_status = ''SUPERSEDED'', qt_rationale = None, qt_evidence_refs = None\<rparr>"
  let ?w = "sample_api_world verified_ledger []"
  have "\<exists>w' d. transition_condition sample_api_env 7 1 ?move ?a ?w = (Inr d, w') \<and> dc_status d = Condition_Superseded"
    by (simp add: transition_condition_def sample_request_simps required_role_def verified_ledger_def load_condition_def
        is_condition_def condition_move_allowed_def rationale_required_targets_def checker_authority_targets_def
        move_condition_def update_condition_def insert_status_event_def insert_condition_audit_def status_event_ok_def
        row_text_simps OPS_OFFICER_ROLE_def)
  then obtain w' d where run: "transition_condition sample_api_env 7 1 ?move ?a ?w = (Inr d, w')"
    "dc_status d = Condition_Superseded" by blast
  have "keeps (\<lambda>w. ledger_ok (wo_store w)) (transition_condition sample_api_env 7 1 ?move ?a)"
    using condition_history_kept [OF sample_env_quiet(2)] by blast
  from keepsD [OF this, of ?w] run(1) verified_ledger_ok have "ledger_ok (wo_store w')"
    by (simp add: sample_api_world_def)
  with run show ?thesis by blast
qed

theorem confirmation_rests_on_ledger_witness:
  "\<exists>w'. confirm_conditions sample_api_env 7 \<lparr>ac_actor_id = 42, ac_roles = [OPS_CHECKER_ROLE]\<rparr>
      (sample_api_world verified_ledger []) = (Inr (1, ''disbursement-conditions:1''), w') \<and>
    (\<exists>st. ledger_step\<^sup>*\<^sup>* verified_ledger st \<and> 42 \<notin> set (verifying_actor_ids 7 1 st))"
proof -
  let ?a = "\<lparr>ac_actor_id = 42, ac_roles = [OPS_CHECKER_ROLE]\<rparr>"
  let ?w = "sample_api_world verified_ledger []"
  obtain r st where gate: "ensure_gate 7 1 HG_DISBURSEMENT_CONDITIONS_CONFIRMED SATISFIED
      (Some 42) (Some ''disbursement-conditions:1'') (sample_case_store []) = Inr (r, st)"
    using sample_gate_runs by blast
  let ?w2 = "\<lparr>wo_orch = st, wo_store = audit_confirmation 7 verified_ledger,
     wo_ticks = Suc (Suc (Suc (Suc (Suc 0))))\<rparr> :: (store, condition_store) api_world"
  obtain w' where tick: "retick_case sample_api_env 7 ''HG_COND:1'' ?w2 = (Inr () :: condition_error table_error api_error + unit, w')"
    using retick_returns by blast
  have one: "str_int 1 = ''1''" by code_simp
  have ledger: "ledger_conditions 7 1 verified_ledger \<noteq> []" "map dc_status (ledger_conditions 7 1 verified_ledger) = [Condition_Verified]"
    "verifying_actor_ids 7 1 verified_ledger = [41]"
    by (simp_all add: verified_ledger_def ledger_conditions_def verifying_actor_ids_def)
  have run: "confirm_conditions sample_api_env 7 ?a ?w = (Inr (1, ''disbursement-conditions:1''), w')"
    using gate tick
    by (simp add: confirm_conditions_def sample_request_simps ledger one satisfy_human_gate_def
        conditions_confirmable_def confirmable_statuses_def)
  from confirmation_rests_on_ledger [OF sample_env_quiet(2) run] run show ?thesis
    by (auto simp: sample_api_world_def intro: rtranclp_trans)
qed

theorem gate_outlives_ledger_witness:
  "\<exists>d w'. create_condition sample_api_env (\<lambda>c v. Some \<lparr>cd_id = 3, cd_decision = ''APPROVED_AS_PROPOSED''\<rparr>) 7
      \<lparr>qc_condition_text = ''u'', qc_owner = None, qc_due_date = None\<rparr> \<lparr>ac_actor_id = 40, ac_roles = [OPS_OFFICER_ROLE]\<rparr>
      (sample_api_world verified_ledger [(7, confirmed_gate)]) = (Inr d, w') \<and>
    conditions_gate_satisfied sample_api_env 7 w' \<and>
    \<not> conditions_confirmable (map dc_status (ledger_conditions 7 1 (wo_store w')))"
proof -
  let ?a = "\<lparr>ac_actor_id = 40, ac_roles = [OPS_OFFICER_ROLE]\<rparr>"
  let ?body = "\<lparr>qc_condition_text = ''u'', qc_owner = None, qc_due_date = None\<rparr>"
  let ?dec = "\<lambda>(c :: uuid) (v :: int). Some \<lparr>cd_id = 3, cd_decision = ''APPROVED_AS_PROPOSED''\<rparr>"
  let ?w = "sample_api_world verified_ledger [(7, confirmed_gate)]"
  have gate: "conditions_gate_satisfied sample_api_env 7 ?w"
    by (simp add: conditions_gate_satisfied_def sample_api_env_def sample_api_world_def postgres_orchestration_def
        load_snapshot_def case_version_of_def sample_case_store_def case_gates_def stored_gate_def confirmed_gate_def
        satisfied_record_def open_gate_def py_dict_def)
  have "\<exists>d w'. create_condition sample_api_env ?dec 7 ?body ?a ?w = (Inr d, w')"
    by (simp add: create_condition_def sample_request_simps permits_def PERMITTING_DECISIONS_def verified_ledger_def
        valid_condition_def record_condition_def condition_row_ok_def insert_status_event_def status_event_ok_def
        row_text_simps rationale_required_targets_def OPS_OFFICER_ROLE_def)
  then obtain d w' where run: "create_condition sample_api_env ?dec 7 ?body ?a ?w = (Inr d, w')" by blast
  from gate_outlives_ledger [OF sample_env_quiet(1) gate run] run show ?thesis
    by (auto simp: sample_api_env_def split: if_splits)
qed

end
