(* ===== verification/Security_Ledger.thy ===== *)
theory Security_Ledger
  imports Api_World Case_Store Json_Payload
begin

text \<open>
  The ledger of the security interests: the closed vocabularies, the domain objects with their
  validators and the derivation of the blockers (\<open>domain/security_interests.py\<close>), the tables with
  constraints and trigger (\<open>202607180019_security_perfection.sql\<close>), and the adapter's statements
  (\<open>infrastructure/postgres/security_interests.py\<close>).  The adapter reads an item without locking it and
  updates it by a later statement, so the two are separate steps here.
\<close>

section \<open>The domain\<close>

datatype asset_kind = Real_Estate | Vehicle | Deposit | Receivable | Other_Asset

datatype perfection_status = Item_Pending | Evidence_Attached | Item_Completed | Not_Required_By_Human | Item_Expired

definition asset_kind_of :: "string \<Rightarrow> asset_kind option" where
  "asset_kind_of = map_of [(''REAL_ESTATE'', Real_Estate), (''VEHICLE'', Vehicle), (''DEPOSIT'', Deposit),
     (''RECEIVABLE'', Receivable), (''OTHER'', Other_Asset)]"

definition perfection_status_of :: "string \<Rightarrow> perfection_status option" where
  "perfection_status_of = map_of [(''PENDING'', Item_Pending), (''EVIDENCE_ATTACHED'', Evidence_Attached),
     (''COMPLETED'', Item_Completed), (''NOT_REQUIRED_BY_HUMAN'', Not_Required_By_Human), (''EXPIRED'', Item_Expired)]"

fun item_transitions :: "perfection_status \<Rightarrow> perfection_status list" where
  "item_transitions Item_Pending = [Evidence_Attached, Not_Required_By_Human]"
| "item_transitions Evidence_Attached = [Item_Completed]"
| "item_transitions Item_Completed = [Item_Expired]"
| "item_transitions Not_Required_By_Human = []"
| "item_transitions Item_Expired = []"

definition item_move_allowed :: "perfection_status \<Rightarrow> perfection_status \<Rightarrow> bool" where
  "item_move_allowed current target \<longleftrightarrow> target \<in> set (item_transitions current)"

definition terminal_satisfied :: "perfection_status list" where
  "terminal_satisfied = [Item_Completed, Not_Required_By_Human]"

record security_interest =
  si_id :: uuid
  si_case_id :: uuid
  si_case_version :: int
  si_asset_description :: string
  si_asset_kind :: asset_kind
  si_owner_name :: "string option"
  si_valuation_reference :: "string option"
  si_notes :: "string option"
  si_created_by :: uuid
  si_created_at :: datetime

record perfection_item =
  pi_id :: uuid
  pi_interest_id :: uuid
  pi_requirement :: string
  pi_status :: perfection_status
  pi_evidence_refs :: "string list"
  pi_filing_reference :: "string option"
  pi_effective_date :: "datetime option"
  pi_expiry_date :: "datetime option"
  pi_completed_by :: "uuid option"
  pi_completed_at :: "datetime option"
  pi_created_at :: datetime

definition opt_sized :: "nat \<Rightarrow> string option \<Rightarrow> bool" where
  "opt_sized hi s = (case s of None \<Rightarrow> True | Some t \<Rightarrow> sized 1 hi t)"

definition valid_interest :: "security_interest \<Rightarrow> bool" where
  "valid_interest s \<longleftrightarrow> 1 \<le> si_case_version s \<and> sized 1 2000 (si_asset_description s) \<and>
     opt_sized 500 (si_owner_name s) \<and> opt_sized 500 (si_valuation_reference s) \<and> opt_sized 4000 (si_notes s)"

text \<open>\<open>ref.strip()\<close> is empty.\<close>

definition blank_ref :: "string \<Rightarrow> bool" where
  "blank_ref s \<longleftrightarrow> list_all py_space s"

definition valid_item :: "perfection_item \<Rightarrow> bool" where
  "valid_item p \<longleftrightarrow> sized 1 2000 (pi_requirement p) \<and> opt_sized 500 (pi_filing_reference p) \<and>
     (pi_status p = Item_Completed \<longrightarrow>
        pi_evidence_refs p \<noteq> [] \<and> list_all (\<lambda>r. \<not> blank_ref r) (pi_evidence_refs p) \<and>
        pi_completed_by p \<noteq> None \<and> pi_completed_at p \<noteq> None)"

type_synonym interest_with_items = "security_interest \<times> perfection_item list"

record perfection_blockers =
  bl_has_interests :: bool
  bl_interests_without_items :: "uuid list"
  bl_blocking_item_ids :: "uuid list"

definition perfection_confirmable :: "perfection_blockers \<Rightarrow> bool" where
  "perfection_confirmable b \<longleftrightarrow>
     bl_has_interests b \<and> bl_interests_without_items b = [] \<and> bl_blocking_item_ids b = []"

text \<open>The loop over the entries.\<close>

fun collect_blockers :: "interest_with_items list \<Rightarrow> uuid list \<times> uuid list" where
  "collect_blockers [] = ([], [])"
| "collect_blockers ((interest, items) # entries) =
     (case collect_blockers entries of (without, blocking) \<Rightarrow>
        if items = [] then (si_id interest # without, blocking)
        else (without, map pi_id (filter (\<lambda>p. pi_status p \<notin> set terminal_satisfied) items) @ blocking))"

definition derive_perfection_blockers :: "interest_with_items list \<Rightarrow> perfection_blockers" where
  "derive_perfection_blockers entries =
     \<lparr>bl_has_interests = (entries \<noteq> []), bl_interests_without_items = fst (collect_blockers entries),
      bl_blocking_item_ids = snd (collect_blockers entries)\<rparr>"

lemma collect_blockers_empty:
  "collect_blockers entries = ([], []) \<longleftrightarrow>
     list_all (\<lambda>(s, ps). ps \<noteq> [] \<and> list_all (\<lambda>p. pi_status p \<in> set terminal_satisfied) ps) entries"
proof (induction entries)
  case (Cons entry entries)
  obtain s ps where entry: "entry = (s, ps)" by fastforce
  obtain a b where rest: "collect_blockers entries = (a, b)" by fastforce
  show ?case
    using Cons.IH unfolding entry rest by (auto simp: rest filter_empty_conv list_all_iff)
qed simp

lemma confirmable_iff:
  "perfection_confirmable (derive_perfection_blockers entries) \<longleftrightarrow>
     entries \<noteq> [] \<and> list_all (\<lambda>(s, ps). ps \<noteq> [] \<and> list_all (\<lambda>p. pi_status p \<in> set terminal_satisfied) ps) entries"
  unfolding collect_blockers_empty [symmetric] perfection_confirmable_def derive_perfection_blockers_def
  by (cases "collect_blockers entries") auto

section \<open>Tables\<close>

record security_audit =
  sa_event_type :: string
  sa_actor_type :: string
  sa_actor_id :: uuid
  sa_artifact_id :: uuid

record security_store =
  sl_interests :: "security_interest list"
  sl_items :: "perfection_item list"
  sl_audit :: "security_audit list"
  sl_clock :: datetime

datatype security_error =
    InterestNotAccessible uuid
  | ItemNotAccessible uuid
  | ForbiddenItemTransition perfection_status perfection_status
  | InvalidTransitionInput
  | Security_Row_Refused
  | Domain_Rejected

definition opt_not_blank :: "string option \<Rightarrow> bool" where
  "opt_not_blank s = (case s of None \<Rightarrow> True | Some t \<Rightarrow> not_blank t)"

definition interest_row_ok :: "security_store \<Rightarrow> security_interest \<Rightarrow> bool" where
  "interest_row_ok st s \<longleftrightarrow> 0 < si_case_version s \<and> not_blank (si_asset_description s) \<and> opt_not_blank (si_owner_name s) \<and>
     opt_not_blank (si_valuation_reference s) \<and> opt_not_blank (si_notes s) \<and> si_id s \<notin> si_id ` set (sl_interests st)"

definition item_columns_ok :: "perfection_item \<Rightarrow> bool" where
  "item_columns_ok p \<longleftrightarrow> not_blank (pi_requirement p) \<and> opt_not_blank (pi_filing_reference p) \<and>
     (pi_status p = Item_Completed \<longrightarrow>
        1 \<le> length (pi_evidence_refs p) \<and> pi_completed_by p \<noteq> None \<and> pi_completed_at p \<noteq> None)"

definition insert_security_audit :: "string \<Rightarrow> string \<Rightarrow> uuid \<Rightarrow> uuid \<Rightarrow> security_store \<Rightarrow> security_store" where
  "insert_security_audit event role actor artifact st =
     st\<lparr>sl_audit := sl_audit st @ [\<lparr>sa_event_type = event, sa_actor_type = ''HUMAN:'' @ role, sa_actor_id = actor,
       sa_artifact_id = artifact\<rparr>]\<rparr>"

section \<open>The adapter\<close>

definition create_interest :: "security_interest \<Rightarrow> string \<Rightarrow> security_store \<Rightarrow> security_error + security_interest \<times> security_store" where
  "create_interest s role st =
     (let row = s\<lparr>si_created_at := sl_clock st\<rparr> in
      rbind (check_that (interest_row_ok st row) Security_Row_Refused) (\<lambda>_.
      Inr (row, insert_security_audit ''SECURITY_INTEREST_CREATED'' role (si_created_by s) (si_id s)
        (st\<lparr>sl_interests := sl_interests st @ [row]\<rparr>))))"

definition locate_interest :: "uuid \<Rightarrow> uuid \<Rightarrow> security_store \<Rightarrow> security_interest option" where
  "locate_interest i c st = find (\<lambda>s. si_id s = i \<and> si_case_id s = c) (sl_interests st)"

definition add_item :: "uuid \<Rightarrow> perfection_item \<Rightarrow> uuid \<Rightarrow> string \<Rightarrow> security_store \<Rightarrow> security_error + perfection_item \<times> security_store" where
  "add_item c p actor role st =
     (case locate_interest (pi_interest_id p) c st of
        None \<Rightarrow> Inl (InterestNotAccessible (pi_interest_id p))
      | Some interest \<Rightarrow>
          let row = p\<lparr>pi_created_at := sl_clock st\<rparr> in
          rbind (check_that (item_columns_ok row \<and> pi_id p \<notin> pi_id ` set (sl_items st)) Security_Row_Refused) (\<lambda>_.
          Inr (row, insert_security_audit ''SECURITY_PERFECTION_ITEM_ADDED'' role actor (pi_id p)
            (st\<lparr>sl_items := sl_items st @ [row]\<rparr>))))"

text \<open>\<open>transition_item\<close>, its first statement: the item of the case, read without a lock.\<close>

definition read_item :: "uuid \<Rightarrow> uuid \<Rightarrow> security_store \<Rightarrow> perfection_item option" where
  "read_item c i st =
     find (\<lambda>p. pi_id p = i \<and> list_ex (\<lambda>s. si_id s = pi_interest_id p \<and> si_case_id s = c) (sl_interests st)) (sl_items st)"

record item_change =
  ic_to :: perfection_status
  ic_rationale :: "string option"
  ic_evidence_refs :: "string list"
  ic_filing_reference :: "string option"
  ic_effective_date :: "datetime option"
  ic_expiry_date :: "datetime option"

text \<open>The checks between the statements, on what has been read.\<close>

definition check_item_change :: "perfection_item \<Rightarrow> item_change \<Rightarrow> security_error + string list" where
  "check_item_change current ch =
     (let merged = pi_evidence_refs current @ ic_evidence_refs ch in
      rbind (check_that (item_move_allowed (pi_status current) (ic_to ch))
        (ForbiddenItemTransition (pi_status current) (ic_to ch))) (\<lambda>_.
      rbind (check_that (\<not> (ic_to ch = Item_Completed \<and> merged = [])) InvalidTransitionInput) (\<lambda>_.
      rbind (check_that (\<not> (ic_to ch = Not_Required_By_Human \<and>
          (case ic_rationale ch of None \<Rightarrow> True | Some r \<Rightarrow> blank_ref r))) InvalidTransitionInput) (\<lambda>_.
      Inr merged))))"

definition coalesce :: "'a option \<Rightarrow> 'a option \<Rightarrow> 'a option" where
  "coalesce x y = (case x of None \<Rightarrow> y | Some v \<Rightarrow> Some v)"

definition changed_item :: "item_change \<Rightarrow> string list \<Rightarrow> uuid \<Rightarrow> datetime \<Rightarrow> perfection_item \<Rightarrow> perfection_item" where
  "changed_item ch merged actor now p =
     p\<lparr>pi_status := ic_to ch, pi_evidence_refs := merged,
       pi_filing_reference := coalesce (ic_filing_reference ch) (pi_filing_reference p),
       pi_effective_date := coalesce (ic_effective_date ch) (pi_effective_date p),
       pi_expiry_date := coalesce (ic_expiry_date ch) (pi_expiry_date p),
       pi_completed_by := (if ic_to ch = Item_Completed then Some actor else pi_completed_by p),
       pi_completed_at := (if ic_to ch = Item_Completed then Some now else pi_completed_at p)\<rparr>"

text \<open>
  The second statement with its trigger, which lets an update pass that keeps the status, and the
  audit event.
\<close>

definition write_item :: "uuid \<Rightarrow> item_change \<Rightarrow> string list \<Rightarrow> uuid \<Rightarrow> string \<Rightarrow> security_store \<Rightarrow>
   security_error + perfection_item \<times> security_store" where
  "write_item i ch merged actor role st =
     (case find (\<lambda>p. pi_id p = i) (sl_items st) of
        None \<Rightarrow> Inl (ItemNotAccessible i)
      | Some old \<Rightarrow>
          let new = changed_item ch merged actor (sl_clock st) old in
          rbind (check_that (pi_status new = pi_status old \<or> item_move_allowed (pi_status old) (pi_status new))
            Security_Row_Refused) (\<lambda>_.
          rbind (check_that (item_columns_ok new) Security_Row_Refused) (\<lambda>_.
          Inr (new, insert_security_audit ''SECURITY_PERFECTION_ITEM_TRANSITIONED'' role actor i
            (st\<lparr>sl_items := map (\<lambda>p. if pi_id p = i then changed_item ch merged actor (sl_clock st) p else p)
              (sl_items st)\<rparr>)))))"

definition interests_of :: "uuid \<Rightarrow> int \<Rightarrow> security_store \<Rightarrow> security_interest list" where
  "interests_of c v st = filter (\<lambda>s. si_case_id s = c \<and> si_case_version s = v) (sl_interests st)"

definition items_of_interests :: "security_interest list \<Rightarrow> security_store \<Rightarrow> perfection_item list" where
  "items_of_interests interests st = filter (\<lambda>p. pi_interest_id p \<in> si_id ` set interests) (sl_items st)"

definition grouped_items :: "security_interest list \<Rightarrow> perfection_item list \<Rightarrow> interest_with_items list" where
  "grouped_items interests items = map (\<lambda>s. (s, filter (\<lambda>p. pi_interest_id p = si_id s) items)) interests"

section \<open>The life of an item\<close>

definition items_lawful :: "security_store \<Rightarrow> bool" where
  "items_lawful st \<longleftrightarrow> distinct (map pi_id (sl_items st)) \<and> list_all item_columns_ok (sl_items st)"

text \<open>
  From one state of the tables to a later one: an interest stays as it is, an item stays with its
  requirement and moves along the graph.
\<close>

definition items_move :: "security_store \<Rightarrow> security_store \<Rightarrow> bool" where
  "items_move st st' \<longleftrightarrow>
     (\<exists>new. sl_interests st' = sl_interests st @ new) \<and>
     (\<forall>p\<in>set (sl_items st). \<exists>p'\<in>set (sl_items st'). pi_id p' = pi_id p \<and> pi_interest_id p' = pi_interest_id p \<and>
        pi_requirement p' = pi_requirement p \<and> item_move_allowed\<^sup>*\<^sup>* (pi_status p) (pi_status p'))"

inductive security_step :: "security_store \<Rightarrow> security_store \<Rightarrow> bool" where
  interest_created: "create_interest s role st = Inr (row, st') \<Longrightarrow> security_step st st'"
| item_added: "add_item c p actor role st = Inr (row, st') \<Longrightarrow> pi_status p = Item_Pending \<Longrightarrow> security_step st st'"
| item_written: "write_item i ch merged actor role st = Inr (row, st') \<Longrightarrow> security_step st st'"
| confirmation_audited: "security_step st (insert_security_audit event role actor artifact st)"

lemma write_item_Inr:
  assumes "write_item i ch merged actor role st = Inr (row, st')"
  shows "\<exists>old. find (\<lambda>p. pi_id p = i) (sl_items st) = Some old \<and> row = changed_item ch merged actor (sl_clock st) old \<and>
    (ic_to ch = pi_status old \<or> item_move_allowed (pi_status old) (ic_to ch)) \<and> item_columns_ok row \<and>
    sl_interests st' = sl_interests st \<and>
    sl_items st' = map (\<lambda>p. if pi_id p = i then changed_item ch merged actor (sl_clock st) p else p) (sl_items st)"
proof (cases "find (\<lambda>p. pi_id p = i) (sl_items st)")
  case None
  with assms show ?thesis by (simp add: write_item_def)
next
  case (Some old)
  with assms show ?thesis
    by (auto simp: write_item_def Let_def result_simps insert_security_audit_def changed_item_def)
qed

lemma changed_item_fields [simp]:
  "pi_id (changed_item ch merged actor now p) = pi_id p" "pi_interest_id (changed_item ch merged actor now p) = pi_interest_id p"
  "pi_requirement (changed_item ch merged actor now p) = pi_requirement p" "pi_status (changed_item ch merged actor now p) = ic_to ch"
  "pi_evidence_refs (changed_item ch merged actor now p) = merged"
  by (simp_all add: changed_item_def)

lemma security_step_lawful:
  assumes "security_step st st'" "items_lawful st"
  shows "items_lawful st' \<and> items_move st st'"
  using assms
proof (induction rule: security_step.induct)
  case (interest_created s role st row st')
  then show ?case
    by (auto simp: create_interest_def Let_def result_simps insert_security_audit_def items_lawful_def items_move_def)
next
  case (item_added c p actor role st row st')
  then show ?case
    by (auto simp: add_item_def Let_def result_simps insert_security_audit_def items_lawful_def items_move_def
        split: option.splits)
next
  case (item_written i ch merged actor role st row st')
  from write_item_Inr [OF item_written(1)] obtain old where
    old: "find (\<lambda>p. pi_id p = i) (sl_items st) = Some old" "row = changed_item ch merged actor (sl_clock st) old"
      "ic_to ch = pi_status old \<or> item_move_allowed (pi_status old) (ic_to ch)" "item_columns_ok row" and
    st': "sl_interests st' = sl_interests st"
      "sl_items st' = map (\<lambda>p. if pi_id p = i then changed_item ch merged actor (sl_clock st) p else p) (sl_items st)"
    by blast
  have here: "old \<in> set (sl_items st)" "pi_id old = i" using find_SomeD [OF old(1)] by auto
  have uniq: "p = old" if "p \<in> set (sl_items st)" "pi_id p = i" for p
    using that here item_written(2) unfolding items_lawful_def distinct_map by (metis inj_onD)
  have ids: "map pi_id (sl_items st') = map pi_id (sl_items st)"
    unfolding st' by (simp add: o_def if_distrib [of pi_id] cong: if_cong)
  have "list_all item_columns_ok (sl_items st')"
    using item_written(2) old(2,4) uniq by (auto simp: st' items_lawful_def list_all_iff)
  moreover have "item_move_allowed\<^sup>*\<^sup>* (pi_status old) (ic_to ch)" using old(3) by auto
  then have "\<exists>p'\<in>set (sl_items st'). pi_id p' = pi_id p \<and> pi_interest_id p' = pi_interest_id p \<and>
      pi_requirement p' = pi_requirement p \<and> item_move_allowed\<^sup>*\<^sup>* (pi_status p) (pi_status p')"
    if "p \<in> set (sl_items st)" for p
    using that uniq [OF that] unfolding st'
    by (intro bexI [of _ "if pi_id p = i then changed_item ch merged actor (sl_clock st) p else p"]) auto
  ultimately show ?case
    using item_written(2) ids st'(1) by (auto simp: items_lawful_def items_move_def)
next
  case (confirmation_audited st event role actor artifact)
  then show ?case by (auto simp: items_lawful_def items_move_def insert_security_audit_def)
qed

lemma items_move_refl: "items_move st st"
  by (auto simp: items_move_def)

lemma items_move_trans: "items_move st st' \<Longrightarrow> items_move st' st'' \<Longrightarrow> items_move st st''"
  unfolding items_move_def by (metis append.assoc rtranclp_trans)

lemma security_steps_lawful:
  "security_step\<^sup>*\<^sup>* st st' \<Longrightarrow> items_lawful st \<Longrightarrow> items_lawful st' \<and> items_move st st'"
  by (induction rule: rtranclp_induct) (use security_step_lawful items_move_trans items_move_refl in blast)+

end
