(* ===== verification/Security_Api.thy ===== *)
theory Security_Api
  imports Api_Sample Security_Ledger
begin

text \<open>
  The handlers of \<open>api/security_interests.py\<close> over the ledger of the security interests and the
  orchestration.  A transition reads an item in one step and writes it in a later one;
  in between the rest of the system may act.
\<close>

section \<open>The handlers\<close>

type_synonym ('o, 'a) security_handler = "('o, security_store, security_error, 'a) case_handler"

definition LEGAL_REVIEWER_ROLE :: string where "LEGAL_REVIEWER_ROLE = ''LEGAL_REVIEWER''"

definition writer_roles :: "string list" where
  "writer_roles = [LEGAL_REVIEWER_ROLE, OPS_OFFICER_ROLE]"

definition ledger_read_roles :: "string list" where
  "ledger_read_roles = CASE_PARTICIPANT_ROLES @ [LEGAL_REVIEWER_ROLE, OPS_CHECKER_ROLE]"

definition writer_role :: "actor \<Rightarrow> string" where
  "writer_role a = (if LEGAL_REVIEWER_ROLE \<in> set (ac_roles a) then LEGAL_REVIEWER_ROLE else OPS_OFFICER_ROLE)"

definition refused_by_tables :: "'e \<Rightarrow> 'e table_error api_error" where
  "refused_by_tables e = Uncaught (Table_Refused e)"

record create_interest_request =
  ci_asset_description :: string
  ci_asset_kind :: string
  ci_owner_name :: "string option"
  ci_valuation_reference :: "string option"
  ci_notes :: "string option"

definition create_security_interest ::
  "('o, security_store) api_env \<Rightarrow> uuid \<Rightarrow> create_interest_request \<Rightarrow> actor \<Rightarrow> ('o, security_interest) security_handler" where
  "create_security_interest env c body a =
     and_then (require_reader writer_roles a) (\<lambda>_.
     and_then (assigned_version env a c) (\<lambda>version.
     and_then (found (ApiException 422 ''INVALID_ASSET_KIND'') (asset_kind_of (ci_asset_kind body))) (\<lambda>kind.
     and_then (drawn_uuid env) (\<lambda>i.
     let s = \<lparr>si_id = i, si_case_id = c, si_case_version = version, si_asset_description = ci_asset_description body,
              si_asset_kind = kind, si_owner_name = ci_owner_name body, si_valuation_reference = ci_valuation_reference body,
              si_notes = ci_notes body, si_created_by = ac_actor_id a, si_created_at = 0\<rparr> in
     and_then (check_act (valid_interest s) (ApiException 422 ''INVALID_SECURITY_INTEREST'')) (\<lambda>_.
     on_error refused_by_tables (on_tables env (atomically (create_interest s (writer_role a)))))))))"

record add_item_request =
  ai_requirement :: string
  ai_evidence_refs :: "string list"
  ai_filing_reference :: "string option"
  ai_effective_date :: "datetime option"
  ai_expiry_date :: "datetime option"

fun item_refused :: "security_error \<Rightarrow> security_error table_error api_error" where
  "item_refused (InterestNotAccessible i) = ApiException 404 ''INTEREST_NOT_ACCESSIBLE''"
| "item_refused e = refused_by_tables e"

definition add_perfection_item ::
  "('o, security_store) api_env \<Rightarrow> uuid \<Rightarrow> uuid \<Rightarrow> add_item_request \<Rightarrow> actor \<Rightarrow> ('o, perfection_item) security_handler" where
  "add_perfection_item env c interest_id body a =
     and_then (require_reader writer_roles a) (\<lambda>_.
     and_then (assigned_version env a c) (\<lambda>_.
     and_then (drawn_uuid env) (\<lambda>i.
     let p = \<lparr>pi_id = i, pi_interest_id = interest_id, pi_requirement = ai_requirement body, pi_status = Item_Pending,
              pi_evidence_refs = ai_evidence_refs body, pi_filing_reference = ai_filing_reference body,
              pi_effective_date = ai_effective_date body, pi_expiry_date = ai_expiry_date body,
              pi_completed_by = None, pi_completed_at = None, pi_created_at = 0\<rparr> in
     and_then (check_act (valid_item p) (ApiException 422 ''INVALID_PERFECTION_ITEM'')) (\<lambda>_.
     on_error item_refused (on_tables env (atomically (add_item c p (ac_actor_id a) (writer_role a))))))))"

fun change_refused :: "security_error \<Rightarrow> security_error table_error api_error" where
  "change_refused (ItemNotAccessible i) = ApiException 404 ''ITEM_NOT_ACCESSIBLE''"
| "change_refused (ForbiddenItemTransition s t) = ApiException 409 ''FORBIDDEN_PERFECTION_TRANSITION''"
| "change_refused InvalidTransitionInput = ApiException 422 ''INVALID_TRANSITION_INPUT''"
| "change_refused e = refused_by_tables e"

definition checked_change :: "security_error + 'a \<Rightarrow> (('o, security_store) api_world, security_error, 'a) act" where
  "checked_change r = (case r of Inl e \<Rightarrow> raise e | Inr x \<Rightarrow> ret x)"

definition transition_item ::
  "('o, security_store) api_env \<Rightarrow> uuid \<Rightarrow> uuid \<Rightarrow> item_change \<Rightarrow> uuid \<Rightarrow> string \<Rightarrow>
   (('o, security_store) api_world, security_error, perfection_item) act" where
  "transition_item env c i ch actor role =
     and_then (on_tables env (reading (read_item c i))) (\<lambda>loaded.
     and_then (found (ItemNotAccessible i) loaded) (\<lambda>current.
     and_then (checked_change (check_item_change current ch)) (\<lambda>merged.
     on_tables env (atomically (write_item i ch merged actor role)))))"

record transition_item_request =
  ti_to_status :: string
  ti_rationale :: "string option"
  ti_evidence_refs :: "string list"
  ti_filing_reference :: "string option"
  ti_effective_date :: "datetime option"
  ti_expiry_date :: "datetime option"

definition transition_perfection_item ::
  "('o, security_store) api_env \<Rightarrow> uuid \<Rightarrow> uuid \<Rightarrow> transition_item_request \<Rightarrow> actor \<Rightarrow> ('o, perfection_item) security_handler" where
  "transition_perfection_item env c i body a =
     and_then (require_reader writer_roles a) (\<lambda>_.
     and_then (assigned_version env a c) (\<lambda>_.
     and_then (found (ApiException 422 ''INVALID_PERFECTION_STATUS'') (perfection_status_of (ti_to_status body))) (\<lambda>to.
     on_error change_refused
       (transition_item env c i
         \<lparr>ic_to = to, ic_rationale = ti_rationale body, ic_evidence_refs = ti_evidence_refs body,
          ic_filing_reference = ti_filing_reference body, ic_effective_date = ti_effective_date body,
          ic_expiry_date = ti_expiry_date body\<rparr> (ac_actor_id a) (writer_role a)))))"

text \<open>\<open>list_interests\<close>: the interests, then the items of those interests by a second statement.\<close>

definition read_ledger ::
  "('o, security_store) api_env \<Rightarrow> uuid \<Rightarrow> int \<Rightarrow> ('o, interest_with_items list) security_handler" where
  "read_ledger env c version =
     and_then (on_tables env (reading (interests_of c version))) (\<lambda>interests.
     if interests = [] then ret []
     else and_then (on_tables env (reading (items_of_interests interests))) (\<lambda>items.
          ret (grouped_items interests items)))"

definition list_security_interests ::
  "('o, security_store) api_env \<Rightarrow> uuid \<Rightarrow> actor \<Rightarrow> ('o, interest_with_items list) security_handler" where
  "list_security_interests env c a =
     and_then (require_reader ledger_read_roles a) (\<lambda>_.
     and_then (assigned_version env a c) (\<lambda>version. read_ledger env c version))"

text \<open>\<open>_to_domain\<close>: the rows pass the validators of the domain again.\<close>

definition domain_entry_ok :: "interest_with_items \<Rightarrow> bool" where
  "domain_entry_ok entry \<longleftrightarrow> valid_interest (fst entry) \<and> list_all valid_item (snd entry)"

definition confirm_security_perfection ::
  "('o, security_store) api_env \<Rightarrow> uuid \<Rightarrow> actor \<Rightarrow> ('o, int \<times> string) security_handler" where
  "confirm_security_perfection env c a =
     and_then (require_role a OPS_CHECKER_ROLE) (\<lambda>_.
     and_then (assigned_version env a c) (\<lambda>version.
     and_then (read_ledger env c version) (\<lambda>ledger.
     and_then (check_act (list_all domain_entry_ok ledger) (Uncaught (Table_Refused Domain_Rejected))) (\<lambda>_.
     and_then (check_act (perfection_confirmable (derive_perfection_blockers ledger))
       (ApiException 409 ''PERFECTION_NOT_SATISFIED'')) (\<lambda>_.
     let ref = ''security-perfection:'' @ str_int version in
     and_then (satisfy_human_gate env c version HG_SECURITY_PERFECTION_CONFIRMED a ref) (\<lambda>_.
     and_then (on_tables env (\<lambda>st. (Inr (),
       insert_security_audit ''SECURITY_PERFECTION_CONFIRMED'' OPS_CHECKER_ROLE (ac_actor_id a) c st))) (\<lambda>_.
     and_then (retick_case env c (''HG_SEC:'' @ str_int version)) (\<lambda>_.
     ret (version, ref)))))))))"

section \<open>Every handler follows the steps of the ledger\<close>

lemma create_interest_follows:
  "others_follow security_step env \<Longrightarrow> follows security_step (create_security_interest env c body a)"
  unfolding create_security_interest_def Let_def
  by (intro following follows_atomically) (auto intro: interest_created)

lemma add_item_follows:
  assumes "others_follow security_step env"
  shows "follows security_step (add_perfection_item env c i body a)"
  unfolding add_perfection_item_def Let_def
  by (intro following assms follows_atomically) (rule r_into_rtranclp, erule item_added, simp)

lemma checked_follows [following]: "follows R (checked_change r)"
  by (cases r) (simp_all add: checked_change_def follows_pure)

lemma item_transition_follows:
  "others_follow security_step env \<Longrightarrow> follows security_step (transition_item env c i ch actor role)"
  unfolding transition_item_def
  by (intro following follows_atomically) (auto intro: item_written)

lemma transition_item_follows:
  "others_follow security_step env \<Longrightarrow> follows security_step (transition_perfection_item env c i body a)"
  unfolding transition_perfection_item_def by (intro following item_transition_follows)

lemma follows_cond [following]: "follows R m \<Longrightarrow> follows R n \<Longrightarrow> follows R (if b then m else n)"
  by simp

lemma read_ledger_follows [following]: "others_follow R env \<Longrightarrow> follows R (read_ledger env c v)"
  unfolding read_ledger_def by (intro following)

lemma list_interests_follows:
  "others_follow security_step env \<Longrightarrow> follows security_step (list_security_interests env c a)"
  unfolding list_security_interests_def by (intro following)

lemma perfection_audit_follows:
  "others_follow security_step env \<Longrightarrow>
   follows security_step (on_tables env (\<lambda>st. (Inr (), insert_security_audit event role actor artifact st)))"
  by (rule follows_on_tables) (auto intro: confirmation_audited)

lemma confirm_perfection_follows:
  "others_follow security_step env \<Longrightarrow> follows security_step (confirm_security_perfection env c a)"
  unfolding confirm_security_perfection_def Let_def by (intro following perfection_audit_follows)

section \<open>Properties\<close>

definition keeps_items_lawful :: "(('o, security_store) api_world, 'e, 'a) act \<Rightarrow> bool" where
  "keeps_items_lawful m \<longleftrightarrow>
     (\<forall>w. items_lawful (wo_store w) \<longrightarrow>
        items_lawful (wo_store (snd (m w))) \<and> items_move (wo_store w) (wo_store (snd (m w))))"

lemma follows_lawful: "follows security_step m \<Longrightarrow> keeps_items_lawful m"
  unfolding follows_def keeps_items_lawful_def using security_steps_lawful by blast

text \<open>
  Whatever a handler does or fails to do, and however the requests interleave, no interest
  and no requirement disappears or is rewritten, a requirement moves only along the status
  graph, and one that is completed carries evidence, the person and the time.
\<close>

theorem perfection_items_lawful:
  assumes "others_follow security_step env"
  shows "keeps_items_lawful (create_security_interest env c interest a) \<and>
    keeps_items_lawful (add_perfection_item env c i item a) \<and>
    keeps_items_lawful (transition_perfection_item env c i change a) \<and>
    keeps_items_lawful (list_security_interests env c a) \<and>
    keeps_items_lawful (confirm_security_perfection env c a)"
  by (intro conjI follows_lawful create_interest_follows add_item_follows transition_item_follows
      list_interests_follows confirm_perfection_follows assms)

text \<open>What a successful confirmation has read.\<close>

lemma read_ledger_Inr:
  assumes "others_follow security_step env" "read_ledger env c v w = (Inr ledger, w')"
  shows "\<exists>st1 st2. security_step\<^sup>*\<^sup>* (wo_store w) st1 \<and> security_step\<^sup>*\<^sup>* st1 st2 \<and> st2 = wo_store w' \<and>
    ledger = grouped_items (interests_of c v st1) (items_of_interests (interests_of c v st1) st2)"
proof -
  from assms(2) obtain interests w1 where r: "on_tables env (reading (interests_of c v)) w =
      (Inr interests :: security_error table_error api_error + security_interest list, w1)"
    "(if interests = [] then ret [] else and_then (on_tables env (reading (items_of_interests interests)))
      (\<lambda>items. ret (grouped_items interests items))) w1 = (Inr ledger :: security_error table_error api_error + _, w')"
    unfolding read_ledger_def and_then_Inr by blast
  note first = on_tables_moment [OF assms(1) r(1)]
  show ?thesis
  proof (cases "interests = []")
    case True
    with r(2) first show ?thesis
      by (intro exI [of _ "wo_store w1"]) (auto simp: grouped_items_def)
  next
    case False
    with r(2) obtain items where items: "on_tables env (reading (items_of_interests interests)) w1 =
        (Inr items :: security_error table_error api_error + perfection_item list, w')" "ledger = grouped_items interests items"
      by (auto simp: and_then_Inr)
    from on_tables_moment [OF assms(1) items(1)] first items(2) show ?thesis by blast
  qed
qed

text \<open>
  C26: The perfection is confirmed only by a checker of the assigned case, and only when the
  ledger of the version had interests, every interest had requirements, and every requirement of
  them was completed or ruled not required when it was read, after the interests.
\<close>

theorem perfection_rests_on_ledger:
  fixes env :: "('o, security_store) api_env"
  assumes "others_follow security_step env"
    and "confirm_security_perfection env c a w = (Inr (version, ref), w')"
  shows "OPS_CHECKER_ROLE \<in> set (ac_roles a) \<and>
    (\<exists>st1 st2. security_step\<^sup>*\<^sup>* (wo_store w) st1 \<and> security_step\<^sup>*\<^sup>* st1 st2 \<and> security_step\<^sup>*\<^sup>* st2 (wo_store w') \<and>
       interests_of c version st1 \<noteq> [] \<and>
       list_all (\<lambda>s. list_ex (\<lambda>p. pi_interest_id p = si_id s) (sl_items st2)) (interests_of c version st1) \<and>
       list_all (\<lambda>p. pi_status p \<in> set terminal_satisfied) (items_of_interests (interests_of c version st1) st2))"
proof -
  let ?rest = "\<lambda>v :: int. (and_then (satisfy_human_gate env c v HG_SECURITY_PERFECTION_CONFIRMED a
       (''security-perfection:'' @ str_int v)) (\<lambda>_.
     and_then (on_tables env (\<lambda>st. (Inr (),
       insert_security_audit ''SECURITY_PERFECTION_CONFIRMED'' OPS_CHECKER_ROLE (ac_actor_id a) c st))) (\<lambda>_.
     and_then (retick_case env c (''HG_SEC:'' @ str_int v)) (\<lambda>_.
     ret (v, ''security-perfection:'' @ str_int v)))) :: ('o, int \<times> string) security_handler)"
  note parts = and_then_Inr [where m = "require_role a OPS_CHECKER_ROLE"] and_then_Inr [where m = "assigned_version env a c"]
    and_then_Inr [where m = "read_ledger env c v" for v] and_then_Inr [where m = "check_act b e" for b e]
  from assms(2) obtain v w1 w2 ledger where run:
    "OPS_CHECKER_ROLE \<in> set (ac_roles a)"
    "assigned_version env a c w = (Inr v :: security_error table_error api_error + int, w1)"
    "read_ledger env c v w1 = (Inr ledger, w2)" "perfection_confirmable (derive_perfection_blockers ledger)"
    and rest: "?rest v w2 = (Inr (version, ref), w')"
    unfolding confirm_security_perfection_def Let_def parts access_simps by blast
  from rest have v: "v = version" by (auto simp: and_then_Inr)
  note run = run [unfolded v] and rest = rest [unfolded v]
  have first: "security_step\<^sup>*\<^sup>* (wo_store w) (wo_store w1)"
    using followsD [OF follows_assigned_version [OF assms(1)] run(2)] .
  from read_ledger_Inr [OF assms(1) run(3)] obtain st1 st2 where st:
    "security_step\<^sup>*\<^sup>* (wo_store w1) st1" "security_step\<^sup>*\<^sup>* st1 st2" "st2 = wo_store w2"
    "ledger = grouped_items (interests_of c version st1) (items_of_interests (interests_of c version st1) st2)" by blast
  have "follows security_step (?rest version)" by (intro following assms(1) perfection_audit_follows)
  from followsD [OF this rest] st(3) have last: "security_step\<^sup>*\<^sup>* st2 (wo_store w')" by simp
  from run(4) have "interests_of c version st1 \<noteq> []"
    "list_all (\<lambda>s. list_ex (\<lambda>p. pi_interest_id p = si_id s) (sl_items st2)) (interests_of c version st1)"
    "list_all (\<lambda>p. pi_status p \<in> set terminal_satisfied) (items_of_interests (interests_of c version st1) st2)"
    unfolding confirmable_iff st(4) grouped_items_def
    by (auto simp: list_all_iff list_ex_iff filter_empty_conv items_of_interests_def)
  with run(1) rtranclp_trans [OF first st(1)] st(2) last show ?thesis by blast
qed

text \<open>
  C27: An empty evidence reference passes the request (which strips the references but asks for no
  length), the adapter and the table, but not the validator of the domain object: with one such reference in a completed requirement every
  confirmation of the version raises an exception that the handler does not answer, although
  every requirement is completed.
\<close>

theorem blank_evidence_blocks_confirmation:
  assumes "\<And>k x. en_others env k x = x" "en_assigned env (wo_orch w) c (ac_actor_id a) = Some version"
    and "OPS_CHECKER_ROLE \<in> set (ac_roles a)"
    and "s \<in> set (interests_of c version (wo_store w))" "p \<in> set (sl_items (wo_store w))" "pi_interest_id p = si_id s"
    and "pi_status p = Item_Completed" "list_ex blank_ref (pi_evidence_refs p)"
  shows "fst (confirm_security_perfection env c a w) = Inl (Uncaught (Table_Refused Domain_Rejected))"
proof -
  have quiet: "disturbed env u = u\<lparr>wo_ticks := Suc (wo_ticks u)\<rparr>" for u
    by (cases u) (simp add: disturbed_def assms(1))
  let ?interests = "interests_of c version (wo_store w)"
  let ?ledger = "grouped_items ?interests (items_of_interests ?interests (wo_store w))"
  have "(s, filter (\<lambda>p. pi_interest_id p = si_id s) (items_of_interests ?interests (wo_store w))) \<in> set ?ledger"
    using assms(4) by (simp add: grouped_items_def)
  moreover have "p \<in> set (items_of_interests ?interests (wo_store w))"
    using assms(4-6) by (auto simp: items_of_interests_def)
  moreover have "\<not> valid_item p" using assms(7,8) by (auto simp: valid_item_def list_ex_iff list_all_iff)
  ultimately have "\<not> list_all domain_entry_ok ?ledger"
    using assms(6) by (force simp: list_all_iff domain_entry_ok_def)
  moreover have "?interests \<noteq> []" using assms(4) by auto
  ultimately show ?thesis
    by (simp add: confirm_security_perfection_def and_then_def require_role_def check_act_def assms(2,3)
        assigned_version_def on_case_def on_tables_def quiet assert_case_access_def read_ledger_def Let_def)
qed

lemma read_written:
  assumes "read_item c i st = Some current" "items_lawful st" "write_item i ch merged actor role st = Inr (row, st')"
  shows "row = changed_item ch merged actor (sl_clock st) current \<and> read_item c i st' = Some row \<and> items_lawful st'"
proof -
  from write_item_Inr [OF assms(3)] obtain old where old: "find (\<lambda>p. pi_id p = i) (sl_items st) = Some old"
    "row = changed_item ch merged actor (sl_clock st) old" "sl_interests st' = sl_interests st"
    "sl_items st' = map (\<lambda>p. if pi_id p = i then changed_item ch merged actor (sl_clock st) p else p) (sl_items st)" by blast
  let ?in = "\<lambda>p. pi_id p = i \<and> list_ex (\<lambda>s. si_id s = pi_interest_id p \<and> si_case_id s = c) (sl_interests st)"
  have cur: "current \<in> set (sl_items st)" "?in current" using find_SomeD [OF assms(1) [unfolded read_item_def]] by auto
  have here: "old \<in> set (sl_items st)" "pi_id old = i" using find_SomeD [OF old(1)] by auto
  have same: "old = current" using cur here assms(2) unfolding items_lawful_def distinct_map by (metis inj_onD)
  have lawful: "items_lawful st'" using security_step_lawful [OF item_written [OF assms(3)] assms(2)] by blast
  have row: "row \<in> set (sl_items st')" "?in row" using here cur(2) unfolding old(2,4) same by (simp_all add: rev_image_eqI)
  obtain r where r: "find ?in (sl_items st') = Some r"
    using row find_None_iff [of ?in "sl_items st'"] by (cases "find ?in (sl_items st')") blast+
  have "r = row" using find_SomeD [OF r] row lawful unfolding items_lawful_def distinct_map by (metis inj_onD)
  with r lawful old(2,3) same show ?thesis by (simp add: read_item_def)
qed

text \<open>A request that completes the requirement it has read: there is evidence, and no blank filing reference.\<close>

definition completes :: "perfection_item \<Rightarrow> item_change \<Rightarrow> bool" where
  "completes current ch \<longleftrightarrow> ic_to ch = Item_Completed \<and> pi_evidence_refs current @ ic_evidence_refs ch \<noteq> [] \<and>
     opt_not_blank (ic_filing_reference ch)"

lemma completion_checked:
  "pi_status current = Evidence_Attached \<Longrightarrow> completes current ch \<Longrightarrow>
   check_item_change current ch = Inr (pi_evidence_refs current @ ic_evidence_refs ch)"
  by (simp add: completes_def check_item_change_def Let_def item_move_allowed_def result_simps)

text \<open>The write accepts the completion, also of a requirement that is completed already.\<close>

lemma completion_written:
  assumes read: "read_item c i st = Some p" "items_lawful st" "pi_status p \<in> {Evidence_Attached, Item_Completed}"
    and ch: "ic_to ch = Item_Completed" "merged \<noteq> []" "opt_not_blank (ic_filing_reference ch)"
  shows "\<exists>row st'. write_item i ch merged actor role st = Inr (row, st')"
proof -
  have p: "p \<in> set (sl_items st)" "pi_id p = i" using find_SomeD [OF read(1) [unfolded read_item_def]] by auto
  obtain old where old: "find (\<lambda>q. pi_id q = i) (sl_items st) = Some old"
    using p find_None_iff [of "\<lambda>q. pi_id q = i" "sl_items st"] by (cases "find (\<lambda>q. pi_id q = i) (sl_items st)") blast+
  then have "old \<in> set (sl_items st)" "pi_id old = i" by (auto dest: find_SomeD)
  then have same: "old = p" using p read(2) unfolding items_lawful_def distinct_map by (metis inj_onD)
  have "item_columns_ok p" using p read(2) by (simp add: items_lawful_def list_all_iff)
  moreover have "1 \<le> length merged" using ch(2) by (simp add: Suc_le_eq)
  ultimately have "item_columns_ok (changed_item ch merged actor (sl_clock st) p)"
    using ch by (auto simp: item_columns_ok_def changed_item_def coalesce_def split: option.split)
  moreover have "Item_Completed = pi_status p \<or> item_move_allowed (pi_status p) Item_Completed"
    using read(3) by (auto simp: item_move_allowed_def)
  ultimately show ?thesis
    using old ch(1) unfolding same by (simp add: write_item_def Let_def result_simps)
qed

text \<open>
  C28: Two requests that complete the same requirement at the same time both succeed: each has read it
  with its evidence attached, both pass the checks on what they have read and both writes are
  accepted one after the other, because the adapter does not lock the item it reads and the trigger
  passes an update that keeps the status.  The second replaces the evidence and the person of the
  first, which are lost from the item.
\<close>

theorem concurrent_completion_overwrites:
  assumes "read_item c i st = Some current" "pi_status current = Evidence_Attached" "items_lawful st"
    and "completes current ch1" "completes current ch2"
  shows "\<exists>merged1 merged2 row1 st1 row2 st2.
    check_item_change current ch1 = Inr merged1 \<and> check_item_change current ch2 = Inr merged2 \<and>
    write_item i ch1 merged1 actor1 role1 st = Inr (row1, st1) \<and> write_item i ch2 merged2 actor2 role2 st1 = Inr (row2, st2) \<and>
    pi_completed_by row1 = Some actor1 \<and> pi_evidence_refs row1 = pi_evidence_refs current @ ic_evidence_refs ch1 \<and>
    read_item c i st2 = Some row2 \<and> pi_completed_by row2 = Some actor2 \<and>
    pi_evidence_refs row2 = pi_evidence_refs current @ ic_evidence_refs ch2"
proof -
  let ?m1 = "pi_evidence_refs current @ ic_evidence_refs ch1" and ?m2 = "pi_evidence_refs current @ ic_evidence_refs ch2"
  have ch: "ic_to ch1 = Item_Completed" "?m1 \<noteq> []" "opt_not_blank (ic_filing_reference ch1)"
    "ic_to ch2 = Item_Completed" "?m2 \<noteq> []" "opt_not_blank (ic_filing_reference ch2)"
    using assms(4,5) by (auto simp: completes_def)
  obtain row1 st1 where one: "write_item i ch1 ?m1 actor1 role1 st = Inr (row1, st1)"
    using completion_written [OF assms(1,3) _ ch(1-3)] assms(2) by blast
  note w1 = read_written [OF assms(1,3) one]
  then have "pi_status row1 \<in> {Evidence_Attached, Item_Completed}" using ch(1) by simp
  then obtain row2 st2 where two: "write_item i ch2 ?m2 actor2 role2 st1 = Inr (row2, st2)"
    using completion_written [OF _ _ _ ch(4-6)] w1 by blast
  from read_written [OF _ _ two] w1
  have "row2 = changed_item ch2 ?m2 actor2 (sl_clock st1) row1" "read_item c i st2 = Some row2" by blast+
  with one two w1 ch completion_checked [OF assms(2,4)] completion_checked [OF assms(2,5)] show ?thesis
    by (intro exI conjI) (assumption | simp add: changed_item_def)+
qed

section \<open>Samples\<close>

definition sample_item :: "perfection_status \<Rightarrow> string list \<Rightarrow> perfection_item" where
  "sample_item s refs =
     \<lparr>pi_id = 2, pi_interest_id = 1, pi_requirement = ''r'', pi_status = s, pi_evidence_refs = refs,
      pi_filing_reference = None, pi_effective_date = None, pi_expiry_date = None,
      pi_completed_by = (if s = Item_Completed then Some 40 else None),
      pi_completed_at = (if s = Item_Completed then Some 6 else None), pi_created_at = 5\<rparr>"

definition sample_security :: "perfection_status \<Rightarrow> string list \<Rightarrow> security_store" where
  "sample_security s refs =
     \<lparr>sl_interests = [\<lparr>si_id = 1, si_case_id = 7, si_case_version = 1, si_asset_description = ''d'',
        si_asset_kind = Vehicle, si_owner_name = None, si_valuation_reference = None, si_notes = None,
        si_created_by = 40, si_created_at = 4\<rparr>],
      sl_items = [sample_item s refs], sl_audit = [], sl_clock = 9\<rparr>"

definition sample_completion :: "string list \<Rightarrow> item_change" where
  "sample_completion refs =
     \<lparr>ic_to = Item_Completed, ic_rationale = None, ic_evidence_refs = refs, ic_filing_reference = None,
      ic_effective_date = None, ic_expiry_date = None\<rparr>"

lemmas sample_security_simps = sample_security_def sample_item_def read_item_def write_item_def check_item_change_def
  item_move_allowed_def changed_item_def item_columns_ok_def coalesce_def insert_security_audit_def opt_not_blank_def
  row_text_simps

theorem perfection_items_lawful_witness:
  "\<exists>w' p. transition_perfection_item sample_api_env 7 2
      \<lparr>ti_to_status = ''COMPLETED'', ti_rationale = None, ti_evidence_refs = [], ti_filing_reference = None,
       ti_effective_date = None, ti_expiry_date = None\<rparr>
      \<lparr>ac_actor_id = 40, ac_roles = [OPS_OFFICER_ROLE]\<rparr> (sample_api_world (sample_security Evidence_Attached [''e'']) []) =
      (Inr p, w') \<and>
    pi_status p = Item_Completed \<and> items_lawful (wo_store w')"
proof -
  let ?a = "\<lparr>ac_actor_id = 40, ac_roles = [OPS_OFFICER_ROLE]\<rparr>"
  let ?move = "\<lparr>ti_to_status = ''COMPLETED'', ti_rationale = None, ti_evidence_refs = [], ti_filing_reference = None,
       ti_effective_date = None, ti_expiry_date = None\<rparr>"
  let ?w = "sample_api_world (sample_security Evidence_Attached [''e'']) []"
  have "\<exists>w' p. transition_perfection_item sample_api_env 7 2 ?move ?a ?w = (Inr p, w') \<and> pi_status p = Item_Completed"
    by (simp add: transition_perfection_item_def transition_item_def sample_request_simps require_reader_def writer_roles_def
        perfection_status_of_def checked_change_def sample_security_simps OPS_OFFICER_ROLE_def LEGAL_REVIEWER_ROLE_def)
  then obtain w' p where run: "transition_perfection_item sample_api_env 7 2 ?move ?a ?w = (Inr p, w')"
    "pi_status p = Item_Completed" by blast
  have "keeps_items_lawful (transition_perfection_item sample_api_env 7 2 ?move ?a)"
    using perfection_items_lawful [OF sample_env_quiet(2)] by blast
  moreover have "items_lawful (wo_store ?w)"
    by (simp add: items_lawful_def sample_api_world_def sample_security_simps)
  ultimately have "items_lawful (wo_store w')" using run(1) unfolding keeps_items_lawful_def by (metis snd_conv)
  with run show ?thesis by blast
qed

theorem perfection_rests_on_ledger_witness:
  "\<exists>w'. confirm_security_perfection sample_api_env 7 \<lparr>ac_actor_id = 42, ac_roles = [OPS_CHECKER_ROLE]\<rparr>
      (sample_api_world (sample_security Item_Completed [''e'']) []) = (Inr (1, ''security-perfection:1''), w') \<and>
    (\<exists>st. security_step\<^sup>*\<^sup>* (sample_security Item_Completed [''e'']) st \<and> interests_of 7 1 st \<noteq> [])"
proof -
  let ?a = "\<lparr>ac_actor_id = 42, ac_roles = [OPS_CHECKER_ROLE]\<rparr>"
  let ?st = "sample_security Item_Completed [''e'']"
  let ?w = "sample_api_world ?st []"
  obtain r st where gate: "ensure_gate 7 1 HG_SECURITY_PERFECTION_CONFIRMED SATISFIED
      (Some 42) (Some ''security-perfection:1'') (sample_case_store []) = Inr (r, st)"
    using sample_gate_runs by blast
  let ?w2 = "\<lparr>wo_orch = st, wo_store = insert_security_audit ''SECURITY_PERFECTION_CONFIRMED'' OPS_CHECKER_ROLE 42 7 ?st,
     wo_ticks = Suc (Suc (Suc (Suc (Suc 0))))\<rparr> :: (store, security_store) api_world"
  obtain w' where tick: "retick_case sample_api_env 7 ''HG_SEC:1'' ?w2 = (Inr () :: security_error table_error api_error + unit, w')"
    using retick_returns by blast
  have one: "str_int 1 = ''1''" by code_simp
  have interests: "interests_of 7 1 ?st = sl_interests ?st" "items_of_interests (sl_interests ?st) ?st = sl_items ?st"
    "sl_interests ?st \<noteq> []"
    by (simp_all add: interests_of_def items_of_interests_def sample_security_def sample_item_def)
  have ledger: "list_all domain_entry_ok (grouped_items (sl_interests ?st) (sl_items ?st))"
    "perfection_confirmable (derive_perfection_blockers (grouped_items (sl_interests ?st) (sl_items ?st)))"
    by (simp_all add: confirmable_iff grouped_items_def sample_security_def sample_item_def domain_entry_ok_def valid_interest_def
        valid_item_def opt_sized_def sized_def blank_ref_def py_space_def terminal_satisfied_def)
  have run: "confirm_security_perfection sample_api_env 7 ?a ?w = (Inr (1, ''security-perfection:1''), w')"
    using gate tick
    by (simp add: confirm_security_perfection_def read_ledger_def sample_request_simps ledger interests one
        satisfy_human_gate_def)
  from perfection_rests_on_ledger [OF sample_env_quiet(2) run] run show ?thesis
    by (auto simp: sample_api_world_def)
qed

theorem blank_evidence_blocks_confirmation_witness:
  "fst (confirm_security_perfection sample_api_env 7 \<lparr>ac_actor_id = 42, ac_roles = [OPS_CHECKER_ROLE]\<rparr>
      (sample_api_world (sample_security Item_Completed ['''']) [])) = Inl (Uncaught (Table_Refused Domain_Rejected))"
  by (rule blank_evidence_blocks_confirmation [where version = 1 and s = "hd (sl_interests (sample_security Item_Completed ['''']))"
        and p = "sample_item Item_Completed ['''']"])
    (simp_all add: sample_api_env_def sample_api_world_def sample_security_def sample_item_def interests_of_def
      blank_ref_def py_space_def)

theorem concurrent_completion_overwrites_witness:
  "\<exists>st1 st2 row1 row2.
     write_item 2 (sample_completion [''x'']) [''e'', ''x''] 40 OPS_OFFICER_ROLE (sample_security Evidence_Attached [''e'']) =
       Inr (row1, st1) \<and>
     write_item 2 (sample_completion [''y'']) [''e'', ''y''] 41 OPS_OFFICER_ROLE st1 = Inr (row2, st2) \<and>
     pi_completed_by row1 = Some 40 \<and> pi_evidence_refs row1 = [''e'', ''x''] \<and>
     read_item 7 2 st2 = Some row2 \<and> pi_completed_by row2 = Some 41 \<and> pi_evidence_refs row2 = [''e'', ''y'']"
proof -
  let ?st = "sample_security Evidence_Attached [''e'']" and ?item = "sample_item Evidence_Attached [''e'']"
  have "read_item 7 2 ?st = Some ?item" "pi_status ?item = Evidence_Attached" "items_lawful ?st"
    by (simp_all add: sample_security_simps items_lawful_def)
  moreover have "completes ?item (sample_completion refs)" for refs
    by (simp add: completes_def sample_completion_def sample_item_def opt_not_blank_def)
  moreover have "check_item_change ?item (sample_completion refs) = Inr (''e'' # refs)" for refs
    by (simp add: sample_security_simps sample_completion_def Let_def result_simps)
  ultimately show ?thesis
    using concurrent_completion_overwrites [of 7 2 ?st ?item "sample_completion [''x'']" "sample_completion [''y'']" 40
      OPS_OFFICER_ROLE 41 OPS_OFFICER_ROLE]
    by (auto simp: sample_completion_def sample_item_def)
qed

end
