(* ===== verification/Credit_Decisions.thy ===== *)
theory Credit_Decisions
  imports Case_Store Json_Payload Api_Access
begin

text \<open>
  The human credit decision: the closed outcomes, the decision with its conditions, the frozen terms
  and their canonical text (\<open>domain/credit_decisions.py\<close>), the two append-only tables
  (\<open>202607180014_human_credit_decisions.sql\<close>) and the adapter's one write
  (\<open>infrastructure/postgres/credit_decisions.py\<close>).  SHA-256 is a parameter.  A \<open>Decimal\<close> is held as the
  text Python prints for it.
\<close>

section \<open>The domain\<close>

datatype credit_outcome =
    Approved_As_Proposed | Approved_With_Conditions | Returned_For_Revision | More_Information_Required | Declined_By_Human

definition credit_outcome_of :: "string \<Rightarrow> credit_outcome option" where
  "credit_outcome_of = map_of
     [(''APPROVED_AS_PROPOSED'', Approved_As_Proposed), (''APPROVED_WITH_CONDITIONS'', Approved_With_Conditions),
      (''RETURNED_FOR_REVISION'', Returned_For_Revision), (''MORE_INFORMATION_REQUIRED'', More_Information_Required),
      (''DECLINED_BY_HUMAN'', Declined_By_Human)]"

definition approval_decisions :: "credit_outcome list" where
  "approval_decisions = [Approved_As_Proposed, Approved_With_Conditions]"

record frozen_terms =
  tm_amount :: "string option"
  tm_currency :: "string option"
  tm_term :: "string option"
  tm_rate :: "string option"

definition terms_valid :: "frozen_terms \<Rightarrow> bool" where
  "terms_valid t \<longleftrightarrow> (case tm_currency t of None \<Rightarrow> True | Some s \<Rightarrow> sized 1 8 s) \<and>
     (case tm_term t of None \<Rightarrow> True | Some s \<Rightarrow> sized 1 100 s)"

text \<open>\<open>json.dumps\<close> of the four fields with sorted keys, tight separators and no ASCII escapes.\<close>

definition json_escapes :: "(char \<times> char) list" where
  "json_escapes =
     [(CHR 0x22, CHR 0x22), (CHR 0x5C, CHR 0x5C), (CHR 0x0A, CHR ''n''), (CHR 0x0D, CHR ''r''), (CHR 0x09, CHR ''t''),
      (CHR 0x0C, CHR ''f''), (CHR 0x08, CHR ''b'')]"

definition json_char :: "char \<Rightarrow> string" where
  "json_char c =
     (case map_of json_escapes c of
        Some e \<Rightarrow> [CHR 0x5C, e]
      | None \<Rightarrow> if of_char c < (32 :: nat) then [CHR 0x5C, CHR ''u''] @ hex_digits 4 (of_char c) else [c])"

definition json_string :: "string \<Rightarrow> string" where
  "json_string s = [CHR 0x22] @ concat (map json_char s) @ [CHR 0x22]"

definition json_or_null :: "string option \<Rightarrow> string" where
  "json_or_null s = (case s of None \<Rightarrow> ''null'' | Some t \<Rightarrow> json_string t)"

definition canonical_terms :: "frozen_terms \<Rightarrow> string" where
  "canonical_terms t =
     [CHR 0x7B] @ json_string ''amount'' @ '':'' @ json_or_null (tm_amount t) @ '','' @
     json_string ''currency'' @ '':'' @ json_or_null (tm_currency t) @ '','' @
     json_string ''rate'' @ '':'' @ json_or_null (tm_rate t) @ '','' @
     json_string ''term'' @ '':'' @ json_or_null (tm_term t) @ [CHR 0x7D]"

definition compute_terms_hash :: "(string \<Rightarrow> string) \<Rightarrow> frozen_terms \<Rightarrow> string" where
  "compute_terms_hash sha256 t = sha256 (canonical_terms t)"

record human_decision =
  hd_id :: uuid
  hd_case_id :: uuid
  hd_case_version :: int
  hd_outcome :: credit_outcome
  hd_rationale :: string
  hd_decided_by :: uuid
  hd_decided_by_role :: string
  hd_memo_artifact_id :: "uuid option"
  hd_risk_assessment_id :: "uuid option"
  hd_underwriting_assessment_id :: "uuid option"
  hd_conditions :: "string list"
  hd_created_at :: datetime

definition decision_valid :: "human_decision \<Rightarrow> bool" where
  "decision_valid d \<longleftrightarrow> 1 \<le> hd_case_version d \<and> sized 1 4000 (hd_rationale d) \<and> sized 1 100 (hd_decided_by_role d) \<and>
     (if hd_outcome d = Approved_With_Conditions
      then hd_conditions d \<noteq> [] \<and> list_all (\<lambda>s. \<not> list_all py_space s) (hd_conditions d)
      else hd_conditions d = [])"

record term_snapshot =
  ts_id :: uuid
  ts_decision_id :: uuid
  ts_case_id :: uuid
  ts_case_version :: int
  ts_terms :: frozen_terms
  ts_hash :: string
  ts_created_at :: datetime

definition sha256_hex :: "string \<Rightarrow> bool" where
  "sha256_hex s \<longleftrightarrow> length s = 64 \<and> list_all lower_hex s"

definition snapshot_valid :: "(string \<Rightarrow> string) \<Rightarrow> term_snapshot \<Rightarrow> bool" where
  "snapshot_valid sha256 s \<longleftrightarrow> 1 \<le> ts_case_version s \<and> sha256_hex (ts_hash s) \<and>
     ts_hash s = compute_terms_hash sha256 (ts_terms s)"

definition build_term_snapshot :: "(string \<Rightarrow> string) \<Rightarrow> uuid \<Rightarrow> human_decision \<Rightarrow> frozen_terms \<Rightarrow> term_snapshot" where
  "build_term_snapshot sha256 i d t =
     \<lparr>ts_id = i, ts_decision_id = hd_id d, ts_case_id = hd_case_id d, ts_case_version = hd_case_version d, ts_terms = t,
      ts_hash = compute_terms_hash sha256 t, ts_created_at = 0\<rparr>"

definition snapshot_matches :: "human_decision \<Rightarrow> term_snapshot option \<Rightarrow> bool" where
  "snapshot_matches d snap =
     (case snap of
        None \<Rightarrow> True
      | Some s \<Rightarrow> hd_outcome d \<in> set approval_decisions \<and> ts_decision_id s = hd_id d \<and>
          ts_case_id s = hd_case_id d \<and> ts_case_version s = hd_case_version d)"

section \<open>The text fixes the terms\<close>

lemma json_escapes_simps:
  "map_of json_escapes c = Some e \<Longrightarrow> map_of json_escapes c' = Some e \<Longrightarrow> c = c'"
  "map_of json_escapes c \<noteq> Some CHR ''u''" "map_of json_escapes CHR 0x5C = Some CHR 0x5C" "map_of json_escapes CHR 0x22 = Some CHR 0x22"
  by (auto simp: json_escapes_def split: if_splits)

lemma hex_char_split:
  assumes "hex_digits 4 (of_char c) @ r = hex_digits 4 (of_char c') @ r'"
  shows "c = c' \<and> r = r'"
proof -
  have small: "of_char x < (16 :: nat) ^ 4" for x :: char
    using nat_of_char_less_256 [of x] unfolding power4_eq_xxxx by linarith
  have "(of_char c :: nat) = of_char c'" "r = r'"
    using hex_digits_inj [OF _ small small] assms by (auto simp del: hex_digits.simps)
  then show ?thesis by simp
qed

lemma json_char_split:
  assumes "json_char c @ r = json_char c' @ r'"
  shows "c = c' \<and> r = r'"
proof (cases "map_of json_escapes c")
  case None
  with assms show ?thesis
    using json_escapes_simps(2) [of c'] json_escapes_simps(3) hex_char_split [of c r c' r'] None json_escapes_simps(3)
    by (auto simp: json_char_def simp del: hex_digits.simps split: option.splits if_splits)
next
  case (Some e)
  with assms show ?thesis
    using json_escapes_simps(1) [OF Some, of c'] json_escapes_simps(2) [of c] json_escapes_simps(3)
    by (auto simp: json_char_def simp del: hex_digits.simps split: option.splits if_splits)
qed

lemma json_char_unquoted: "json_char c @ r \<noteq> CHR 0x22 # r'"
  using json_escapes_simps(4) by (auto simp: json_char_def split: if_splits option.split)

lemma json_chars_split:
  "concat (map json_char s) @ CHR 0x22 # r = concat (map json_char s') @ CHR 0x22 # r' \<Longrightarrow> s = s' \<and> r = r'"
proof (induction s arbitrary: s')
  case Nil
  then show ?case by (cases s') (auto dest: sym [THEN json_char_unquoted [THEN notE]])
next
  case (Cons c s)
  then show ?case
    by (cases s') (auto simp: json_char_unquoted dest: json_char_split)
qed

lemma json_or_null_split:
  assumes "json_or_null s @ r = json_or_null s' @ r'"
  shows "s = s' \<and> r = r'"
proof (cases s; cases s')
  fix t t' assume "s = Some t" "s' = Some t'"
  with assms json_chars_split [of t r t' r'] show ?thesis by (simp add: json_or_null_def json_string_def)
qed (use assms in \<open>simp_all add: json_or_null_def json_string_def\<close>)

lemma canonical_terms_eq: "canonical_terms t = canonical_terms t' \<longleftrightarrow> (t :: frozen_terms) = t'"
proof
  assume "canonical_terms t = canonical_terms t'"
  then have "json_or_null (tm_amount t) @ '','' @ json_string ''currency'' @ '':'' @ json_or_null (tm_currency t) @ '','' @
      json_string ''rate'' @ '':'' @ json_or_null (tm_rate t) @ '','' @ json_string ''term'' @ '':'' @ json_or_null (tm_term t) @ [CHR 0x7D] =
    json_or_null (tm_amount t') @ '','' @ json_string ''currency'' @ '':'' @ json_or_null (tm_currency t') @ '','' @
      json_string ''rate'' @ '':'' @ json_or_null (tm_rate t') @ '','' @ json_string ''term'' @ '':'' @ json_or_null (tm_term t') @ [CHR 0x7D]"
    unfolding canonical_terms_def by simp
  from json_or_null_split [OF this] have a: "tm_amount t = tm_amount t'" and
    "json_or_null (tm_currency t) @ '','' @ json_string ''rate'' @ '':'' @ json_or_null (tm_rate t) @ '','' @ json_string ''term'' @ '':'' @
      json_or_null (tm_term t) @ [CHR 0x7D] =
     json_or_null (tm_currency t') @ '','' @ json_string ''rate'' @ '':'' @ json_or_null (tm_rate t') @ '','' @ json_string ''term'' @ '':'' @
      json_or_null (tm_term t') @ [CHR 0x7D]" by simp_all
  from json_or_null_split [OF this(2)] have c: "tm_currency t = tm_currency t'" and
    "json_or_null (tm_rate t) @ '','' @ json_string ''term'' @ '':'' @ json_or_null (tm_term t) @ [CHR 0x7D] =
     json_or_null (tm_rate t') @ '','' @ json_string ''term'' @ '':'' @ json_or_null (tm_term t') @ [CHR 0x7D]" by simp_all
  from json_or_null_split [OF this(2)] have "tm_rate t = tm_rate t'" and
    "json_or_null (tm_term t) @ [CHR 0x7D] = json_or_null (tm_term t') @ [CHR 0x7D]" by simp_all
  with json_or_null_split [OF this(2)] a c show "t = t'" by simp
qed simp

section \<open>Tables\<close>

text \<open>The three upstream tables are seen by their identifiers, the newest last.\<close>

record artifact_row =
  ar_id :: uuid
  ar_case_id :: uuid
  ar_case_version :: int

record decision_audit =
  da_event_type :: string
  da_actor_type :: string
  da_actor_id :: uuid
  da_artifact_id :: uuid

record decision_store =
  ds_decisions :: "human_decision list"
  ds_snapshots :: "term_snapshot list"
  ds_memos :: "artifact_row list"
  ds_risks :: "artifact_row list"
  ds_underwritings :: "artifact_row list"
  ds_audit :: "decision_audit list"
  ds_clock :: datetime

datatype decision_error = Decision_Row_Refused

definition decision_row_ok :: "human_decision \<Rightarrow> bool" where
  "decision_row_ok d \<longleftrightarrow> 0 < hd_case_version d \<and> not_blank (hd_rationale d) \<and> not_blank (hd_decided_by_role d)"

definition snapshot_row_ok :: "decision_store \<Rightarrow> term_snapshot \<Rightarrow> bool" where
  "snapshot_row_ok st s \<longleftrightarrow> 0 < ts_case_version s \<and> sha256_hex (ts_hash s) \<and> ts_id s \<notin> ts_id ` set (ds_snapshots st) \<and>
     ts_decision_id s \<notin> ts_decision_id ` set (ds_snapshots st) \<and>
     list_ex (\<lambda>d. hd_id d = ts_decision_id s \<and> hd_case_id d = ts_case_id s \<and> hd_case_version d = ts_case_version s)
       (ds_decisions st)"

section \<open>The adapter\<close>

definition latest_id :: "(decision_store \<Rightarrow> artifact_row list) \<Rightarrow> uuid \<Rightarrow> int \<Rightarrow> decision_store \<Rightarrow> uuid option" where
  "latest_id table c v st =
     (case rev (filter (\<lambda>r. ar_case_id r = c \<and> ar_case_version r = v) (table st)) of
        [] \<Rightarrow> None
      | r # rs \<Rightarrow> Some (ar_id r))"

record recorded_decision =
  rd_decision :: human_decision
  rd_snapshot :: "term_snapshot option"
  rd_created :: bool

definition decided :: "uuid \<Rightarrow> int \<Rightarrow> decision_store \<Rightarrow> human_decision option" where
  "decided c v st = find (\<lambda>d. hd_case_id d = c \<and> hd_case_version d = v) (ds_decisions st)"

definition frozen_of :: "uuid \<Rightarrow> decision_store \<Rightarrow> term_snapshot option" where
  "frozen_of i st = find (\<lambda>s. ts_decision_id s = i) (ds_snapshots st)"

definition load_decision :: "uuid \<Rightarrow> int \<Rightarrow> decision_store \<Rightarrow> recorded_decision option" where
  "load_decision c v st =
     map_option (\<lambda>d. \<lparr>rd_decision = d, rd_snapshot = frozen_of (hd_id d) st, rd_created = False\<rparr>) (decided c v st)"

definition insert_snapshot :: "term_snapshot option \<Rightarrow> decision_store \<Rightarrow> decision_error + term_snapshot option \<times> decision_store" where
  "insert_snapshot snap st =
     (case snap of
        None \<Rightarrow> Inr (None, st)
      | Some s \<Rightarrow>
          let row = s\<lparr>ts_created_at := ds_clock st\<rparr> in
          rbind (check_that (snapshot_row_ok st row) Decision_Row_Refused) (\<lambda>_.
          Inr (Some row, st\<lparr>ds_snapshots := ds_snapshots st @ [row]\<rparr>)))"

definition record_decision :: "human_decision \<Rightarrow> term_snapshot option \<Rightarrow> decision_store \<Rightarrow>
   decision_error + recorded_decision \<times> decision_store" where
  "record_decision d snap st =
     (let row = d\<lparr>hd_created_at := ds_clock st\<rparr> in
      rbind (check_that (decision_row_ok row) Decision_Row_Refused) (\<lambda>_.
      case load_decision (hd_case_id d) (hd_case_version d) st of
        Some existing \<Rightarrow> Inr (existing, st)
      | None \<Rightarrow>
          rbind (check_that (hd_id d \<notin> hd_id ` set (ds_decisions st)) Decision_Row_Refused) (\<lambda>_.
          rbind (insert_snapshot snap (st\<lparr>ds_decisions := ds_decisions st @ [row]\<rparr>)) (\<lambda>(frozen, st').
          Inr (\<lparr>rd_decision = row, rd_snapshot = frozen, rd_created = True\<rparr>,
            st'\<lparr>ds_audit := ds_audit st' @ [\<lparr>da_event_type = ''HUMAN_CREDIT_DECISION_RECORDED'',
              da_actor_type = ''HUMAN:CREDIT_APPROVER'', da_actor_id = hd_decided_by d, da_artifact_id = hd_id d\<rparr>]\<rparr>)))))"

section \<open>The tables only grow\<close>

definition decision_tables_ok :: "(string \<Rightarrow> string) \<Rightarrow> decision_store \<Rightarrow> bool" where
  "decision_tables_ok sha256 st \<longleftrightarrow>
     distinct (map hd_id (ds_decisions st)) \<and>
     distinct (map (\<lambda>d. (hd_case_id d, hd_case_version d)) (ds_decisions st)) \<and>
     list_all decision_valid (ds_decisions st) \<and> distinct (map ts_decision_id (ds_snapshots st)) \<and>
     list_all (\<lambda>s. snapshot_valid sha256 s \<and> list_ex (\<lambda>d. snapshot_matches d (Some s)) (ds_decisions st)) (ds_snapshots st)"

definition decisions_kept :: "decision_store \<Rightarrow> decision_store \<Rightarrow> bool" where
  "decisions_kept st st' \<longleftrightarrow>
     (\<exists>new. ds_decisions st' = ds_decisions st @ new) \<and> (\<exists>new. ds_snapshots st' = ds_snapshots st @ new)"

inductive decision_step :: "(string \<Rightarrow> string) \<Rightarrow> decision_store \<Rightarrow> decision_store \<Rightarrow> bool" for sha256 where
  decision_recorded:
    "record_decision d snap st = Inr (r, st') \<Longrightarrow> decision_valid d \<Longrightarrow> snapshot_matches d snap \<Longrightarrow>
     (case snap of None \<Rightarrow> True | Some s \<Rightarrow> snapshot_valid sha256 s) \<Longrightarrow> decision_step sha256 st st'"
| artifacts_added:
    "decision_step sha256 st
       (st\<lparr>ds_memos := ds_memos st @ ms, ds_risks := ds_risks st @ rs, ds_underwritings := ds_underwritings st @ us\<rparr>)"

lemma decided_None: "decided c v st = None \<longleftrightarrow> (c, v) \<notin> (\<lambda>d. (hd_case_id d, hd_case_version d)) ` set (ds_decisions st)"
  by (auto simp: decided_def find_None_iff)

lemma decision_step_ok:
  assumes "decision_step sha256 st st'" "decision_tables_ok sha256 st"
  shows "decision_tables_ok sha256 st' \<and> decisions_kept st st'"
  using assms
proof (induction rule: decision_step.induct)
  case (decision_recorded d snap st r st')
  show ?case
  proof (cases "decided (hd_case_id d) (hd_case_version d) st")
    case (Some x)
    with decision_recorded show ?thesis
      by (auto simp: record_decision_def load_decision_def Let_def result_simps decisions_kept_def)
  next
    case None
    let ?row = "d\<lparr>hd_created_at := ds_clock st\<rparr>"
    have row: "decision_valid ?row" "\<And>s. snapshot_matches ?row s = snapshot_matches d s"
      using decision_recorded(2) by (simp_all add: decision_valid_def snapshot_matches_def split: option.split)
    show ?thesis
      using decision_recorded None [unfolded decided_None] row
      by (auto simp: record_decision_def load_decision_def Let_def result_simps decisions_kept_def insert_snapshot_def
          decision_tables_ok_def decision_row_ok_def snapshot_row_ok_def snapshot_valid_def snapshot_matches_def
          list_all_iff list_ex_iff None split: option.splits)
  qed
next
  case (artifacts_added st ms rs us)
  then show ?case by (simp add: decision_tables_ok_def decisions_kept_def)
qed

lemma decisions_kept_refl: "decisions_kept st st"
  by (simp add: decisions_kept_def)

lemma decisions_kept_trans: "decisions_kept st st' \<Longrightarrow> decisions_kept st' st'' \<Longrightarrow> decisions_kept st st''"
  unfolding decisions_kept_def by (metis append.assoc)

lemma decision_steps_ok:
  "(decision_step sha256)\<^sup>*\<^sup>* st st' \<Longrightarrow> decision_tables_ok sha256 st \<Longrightarrow> decision_tables_ok sha256 st' \<and> decisions_kept st st'"
  by (induction rule: rtranclp_induct) (use decision_step_ok decisions_kept_trans decisions_kept_refl in blast)+

end
