(* ===== verification/Credit_Decision_Api.thy ===== *)
theory Credit_Decision_Api
  imports Api_Sample Credit_Decisions
begin

text \<open>
  The two handlers of \<open>api/credit_decisions.py\<close>.  The version of a case and the identifiers of the
  artifacts that a decision refers to are read by separate statements before the decision is
  written; in between the rest of the system may act.  SHA-256 and the column \<open>case_version\<close> of
  \<open>credit_cases\<close> (a reading of the orchestration's state) are parameters.
\<close>

section \<open>The handlers\<close>

type_synonym ('o, 'a) decision_handler = "('o, decision_store, decision_error, 'a) case_handler"

definition CREDIT_APPROVER_ROLE :: string where "CREDIT_APPROVER_ROLE = ''CREDIT_APPROVER''"

definition decision_read_roles :: "string list" where
  "decision_read_roles = CASE_PARTICIPANT_ROLES @ [CREDIT_APPROVER_ROLE]"

record decision_binding =
  db_current_case_version :: int
  db_latest_memo :: "uuid option"
  db_latest_risk :: "uuid option"
  db_latest_underwriting :: "uuid option"

definition load_decision_binding ::
  "('o \<Rightarrow> uuid \<Rightarrow> int option) \<Rightarrow> ('o, decision_store) api_env \<Rightarrow> uuid \<Rightarrow> ('o, decision_binding option) decision_handler" where
  "load_decision_binding case_version env c =
     and_then (on_case env (reading (\<lambda>orch. case_version orch c))) (\<lambda>v.
     case v of
       None \<Rightarrow> ret None
     | Some version \<Rightarrow>
         and_then (on_tables env (reading (latest_id ds_memos c version))) (\<lambda>memo.
         and_then (on_tables env (reading (latest_id ds_risks c version))) (\<lambda>risk.
         and_then (on_tables env (reading (latest_id ds_underwritings c version))) (\<lambda>underwriting.
         ret (Some \<lparr>db_current_case_version = version, db_latest_memo = memo, db_latest_risk = risk,
           db_latest_underwriting = underwriting\<rparr>)))))"

record record_decision_request =
  rq_decision :: string
  rq_rationale :: string
  rq_case_version :: int
  rq_memo_artifact_id :: "uuid option"
  rq_risk_assessment_id :: "uuid option"
  rq_underwriting_assessment_id :: "uuid option"
  rq_conditions :: "string list"
  rq_terms :: "frozen_terms option"

definition artifact_bound :: "uuid option \<Rightarrow> uuid option \<Rightarrow> bool" where
  "artifact_bound referenced current \<longleftrightarrow> referenced = None \<or> referenced = current"

definition decision_of :: "uuid \<Rightarrow> uuid \<Rightarrow> record_decision_request \<Rightarrow> credit_outcome \<Rightarrow> actor \<Rightarrow> human_decision" where
  "decision_of i c body outcome a =
     \<lparr>hd_id = i, hd_case_id = c, hd_case_version = rq_case_version body, hd_outcome = outcome,
      hd_rationale = rq_rationale body, hd_decided_by = ac_actor_id a, hd_decided_by_role = CREDIT_APPROVER_ROLE,
      hd_memo_artifact_id = rq_memo_artifact_id body, hd_risk_assessment_id = rq_risk_assessment_id body,
      hd_underwriting_assessment_id = rq_underwriting_assessment_id body, hd_conditions = rq_conditions body,
      hd_created_at = 0\<rparr>"

definition requested_snapshot ::
  "(string \<Rightarrow> string) \<Rightarrow> ('o, decision_store) api_env \<Rightarrow> human_decision \<Rightarrow> frozen_terms option \<Rightarrow>
   ('o, term_snapshot option) decision_handler" where
  "requested_snapshot sha256 env d requested =
     (case requested of
        None \<Rightarrow> ret None
      | Some t \<Rightarrow>
          and_then (check_act (terms_valid t) (ApiException 422 ''INVALID_CREDIT_DECISION'')) (\<lambda>_.
          and_then (drawn_uuid env) (\<lambda>i.
          and_then (check_act (snapshot_valid sha256 (build_term_snapshot sha256 i d t))
            (ApiException 422 ''INVALID_CREDIT_DECISION'')) (\<lambda>_.
          ret (Some (build_term_snapshot sha256 i d t))))))"

definition file_decision ::
  "(string \<Rightarrow> string) \<Rightarrow> ('o, decision_store) api_env \<Rightarrow> human_decision \<Rightarrow> frozen_terms option \<Rightarrow>
   ('o, recorded_decision) decision_handler" where
  "file_decision sha256 env d requested =
     and_then (check_act (decision_valid d) (ApiException 422 ''INVALID_CREDIT_DECISION'')) (\<lambda>_.
     and_then (requested_snapshot sha256 env d requested) (\<lambda>snap.
     and_then (check_act (snapshot_matches d snap) (ApiException 422 ''INVALID_CREDIT_DECISION'')) (\<lambda>_.
     on_error (\<lambda>e. Uncaught (Table_Refused e)) (on_tables env (atomically (record_decision d snap))))))"

definition record_credit_decision ::
  "(string \<Rightarrow> string) \<Rightarrow> ('o \<Rightarrow> uuid \<Rightarrow> int option) \<Rightarrow> ('o, decision_store) api_env \<Rightarrow> uuid \<Rightarrow> record_decision_request \<Rightarrow> actor \<Rightarrow>
   ('o, recorded_decision) decision_handler" where
  "record_credit_decision sha256 case_version env c body a =
     and_then (require_role a CREDIT_APPROVER_ROLE) (\<lambda>_.
     and_then (assigned_version env a c) (\<lambda>_.
     and_then (found (ApiException 422 ''INVALID_DECISION_TYPE'') (credit_outcome_of (rq_decision body))) (\<lambda>outcome.
     and_then (load_decision_binding case_version env c) (\<lambda>loaded.
     and_then (found (ApiException 404 ''CASE_NOT_ACCESSIBLE'') loaded) (\<lambda>binding.
     and_then (check_act (rq_case_version body = db_current_case_version binding) (ApiException 409 ''STALE_CASE_VERSION'')) (\<lambda>_.
     and_then (check_act (artifact_bound (rq_memo_artifact_id body) (db_latest_memo binding))
       (ApiException 422 ''UNKNOWN_ARTIFACT_BINDING'')) (\<lambda>_.
     and_then (check_act (artifact_bound (rq_risk_assessment_id body) (db_latest_risk binding))
       (ApiException 422 ''UNKNOWN_ARTIFACT_BINDING'')) (\<lambda>_.
     and_then (check_act (artifact_bound (rq_underwriting_assessment_id body) (db_latest_underwriting binding))
       (ApiException 422 ''UNKNOWN_ARTIFACT_BINDING'')) (\<lambda>_.
     and_then (drawn_uuid env) (\<lambda>i.
     file_decision sha256 env (decision_of i c body outcome a) (rq_terms body)))))))))))"

definition get_credit_decision ::
  "('o \<Rightarrow> uuid \<Rightarrow> int option) \<Rightarrow> ('o, decision_store) api_env \<Rightarrow> uuid \<Rightarrow> actor \<Rightarrow> ('o, recorded_decision) decision_handler" where
  "get_credit_decision case_version env c a =
     and_then (require_reader decision_read_roles a) (\<lambda>_.
     and_then (assigned_version env a c) (\<lambda>_.
     and_then (load_decision_binding case_version env c) (\<lambda>loaded.
     and_then (found (ApiException 404 ''CASE_NOT_ACCESSIBLE'') loaded) (\<lambda>binding.
     and_then (on_tables env (reading (load_decision c (db_current_case_version binding)))) (\<lambda>recorded.
     found (ApiException 404 ''CREDIT_DECISION_NOT_AVAILABLE'') recorded)))))"

section \<open>The handlers follow the steps of the tables\<close>

lemma binding_follows [following]: "others_follow R env \<Longrightarrow> follows R (load_decision_binding case_version env c)"
  unfolding load_decision_binding_def by (intro following) (auto split: option.split intro!: following)

lemma checked_follows_then:
  "(b \<Longrightarrow> follows R m) \<Longrightarrow> follows R (and_then (check_act b e) (\<lambda>_. m))"
  by (cases b) (auto simp: check_act_def follows_def and_then_def)

lemma get_decision_follows: "others_follow R env \<Longrightarrow> follows R (get_credit_decision case_version env c a)"
  unfolding get_credit_decision_def by (intro following)

lemma requested_snapshot_Inr:
  "requested_snapshot sha256 env d requested w = (Inr snap, w') \<Longrightarrow>
   wo_store w' = wo_store w \<and> (case snap of None \<Rightarrow> requested = None | Some s \<Rightarrow> snapshot_valid sha256 s \<and> requested = Some (ts_terms s))"
  by (auto simp: requested_snapshot_def and_then_Inr access_simps drawn_uuid_def build_term_snapshot_def split: option.splits)

lemma requested_snapshot_same: "wo_store (snd (requested_snapshot sha256 env d requested w)) = wo_store w"
  by (auto simp: requested_snapshot_def and_then_def check_act_def drawn_uuid_def split: option.splits)

lemma file_decision_follows:
  assumes "others_follow (decision_step sha256) env"
  shows "follows (decision_step sha256) (file_decision sha256 env d requested)"
  unfolding file_decision_def
proof (rule checked_follows_then)
  assume "decision_valid d"
  let ?R = "decision_step sha256"
  let ?filing = "\<lambda>snap. and_then (check_act (snapshot_matches d snap) (ApiException 422 ''INVALID_CREDIT_DECISION''))
     (\<lambda>_. on_error (\<lambda>e. Uncaught (Table_Refused e)) (on_tables env (atomically (record_decision d snap))))"
  show "follows ?R (and_then (requested_snapshot sha256 env d requested) ?filing)"
    unfolding follows_def
  proof
    fix w
    obtain r w1 where run: "requested_snapshot sha256 env d requested w = (r, w1)" by fastforce
    have same: "wo_store w1 = wo_store w"
      using requested_snapshot_same [of sha256 env d requested w] run by simp
    show "?R\<^sup>*\<^sup>* (wo_store w) (wo_store (snd (and_then (requested_snapshot sha256 env d requested) ?filing w)))"
    proof (cases r)
      case (Inl x)
      with run same show ?thesis by simp
    next
      case (Inr snap)
      have valid: "case snap of None \<Rightarrow> True | Some s \<Rightarrow> snapshot_valid sha256 s"
        using requested_snapshot_Inr [OF run [unfolded Inr]] by (auto split: option.splits)
      have "follows ?R (?filing snap)"
        by (rule checked_follows_then, rule follows_on_error, rule follows_atomically [OF assms(1)], rule r_into_rtranclp,
            erule decision_recorded [OF _ \<open>decision_valid d\<close> _ valid])
      from this [unfolded follows_def, rule_format, of w1] run Inr same show ?thesis by simp
    qed
  qed
qed

lemma record_decision_follows:
  assumes "others_follow (decision_step sha256) env"
  shows "follows (decision_step sha256) (record_credit_decision sha256 case_version env c body a)"
  unfolding record_credit_decision_def by (intro following assms file_decision_follows)

section \<open>Properties\<close>

text \<open>
  C21: Whatever the two handlers do or fail to do, and however requests interleave, no decision and no
  snapshot of terms disappears or changes; a version of a case has at most one decision, which is
  valid for its outcome, and a decision at most one snapshot, which only an approval has and which
  carries the hash of its own terms.
\<close>

theorem decisions_append_only:
  assumes "others_follow (decision_step sha256) env" "decision_tables_ok sha256 (wo_store w)"
  shows "decision_tables_ok sha256 (wo_store (snd (record_credit_decision sha256 case_version env c body a w))) \<and>
    decisions_kept (wo_store w) (wo_store (snd (record_credit_decision sha256 case_version env c body a w))) \<and>
    decision_tables_ok sha256 (wo_store (snd (get_credit_decision case_version env c a w))) \<and>
    decisions_kept (wo_store w) (wo_store (snd (get_credit_decision case_version env c a w)))"
  using record_decision_follows [OF assms(1)] get_decision_follows [OF assms(1)] decision_steps_ok [OF _ assms(2)]
  unfolding follows_def by blast

text \<open>What the write answers.\<close>

lemma find_after: "find P xs = None \<Longrightarrow> find P (xs @ ys) = find P ys"
  by (induction xs) (auto split: if_splits)

lemma record_decision_Inr:
  assumes "record_decision d snap st = Inr (r, st')"
  shows "decided (hd_case_id d) (hd_case_version d) st' = Some (rd_decision r) \<and>
    (if rd_created r then rd_decision r = d\<lparr>hd_created_at := ds_clock st\<rparr> \<and> decided (hd_case_id d) (hd_case_version d) st = None
     else st' = st \<and> decided (hd_case_id d) (hd_case_version d) st = Some (rd_decision r))"
proof (cases "decided (hd_case_id d) (hd_case_version d) st")
  case (Some x)
  with assms show ?thesis by (auto simp: record_decision_def load_decision_def Let_def result_simps)
next
  case None
  with assms show ?thesis
    by (auto simp: record_decision_def load_decision_def Let_def result_simps insert_snapshot_def decided_def find_after
        split: option.splits)
qed

lemma decided_kept: "decisions_kept st st' \<Longrightarrow> decided c v st = Some x \<Longrightarrow> decided c v st' = Some x"
proof -
  have "find P (xs @ ys) = Some x" if "find P xs = Some x" for P and xs ys :: "human_decision list"
    using that by (induction xs) (auto split: if_splits)
  then show "decisions_kept st st' \<Longrightarrow> decided c v st = Some x \<Longrightarrow> decided c v st' = Some x"
    unfolding decisions_kept_def decided_def by metis
qed

lemma decision_step_kept: "decision_step sha256 st st' \<Longrightarrow> decisions_kept st st'"
proof (induction rule: decision_step.induct)
  case (decision_recorded d snap st r st')
  then show ?case
    by (cases "decided (hd_case_id d) (hd_case_version d) st")
      (auto simp: record_decision_def load_decision_def Let_def result_simps decisions_kept_def insert_snapshot_def
        split: option.splits)
qed (simp add: decisions_kept_def)

lemma decision_steps_kept: "(decision_step sha256)\<^sup>*\<^sup>* st st' \<Longrightarrow> decisions_kept st st'"
  by (induction rule: rtranclp_induct) (use decision_step_kept decisions_kept_trans decisions_kept_refl in blast)+

text \<open>The terms that the request froze, if any.\<close>

definition froze :: "(string \<Rightarrow> string) \<Rightarrow> frozen_terms option \<Rightarrow> term_snapshot option \<Rightarrow> bool" where
  "froze sha256 requested snap \<longleftrightarrow>
     (case snap of None \<Rightarrow> requested = None | Some s \<Rightarrow> snapshot_valid sha256 s \<and> requested = Some (ts_terms s))"

lemma file_decision_Inr:
  assumes "others_follow (decision_step sha256) env" "file_decision sha256 env d requested w = (Inr r, w')"
  shows "\<exists>st snap. (decision_step sha256)\<^sup>*\<^sup>* (wo_store w) st \<and> froze sha256 requested snap \<and>
    record_decision d snap st = Inr (r, wo_store w')"
proof -
  from assms(2) obtain snap w1 where run: "requested_snapshot sha256 env d requested w = (Inr snap, w1)"
    "on_tables env (atomically (record_decision d snap)) w1 = (Inr r, w')"
    unfolding file_decision_def by (auto simp: and_then_Inr access_simps)
  from run(2) have "record_decision d snap (wo_store (disturbed env w1)) = Inr (r, wo_store w')"
    by (auto simp: on_tables_def Let_def split: prod.splits)
  with disturbed_follows [OF assms(1), of w1] requested_snapshot_Inr [OF run(1)] show ?thesis
    unfolding froze_def by metis
qed

lemma load_binding_Inr:
  assumes "others_follow R env" "load_decision_binding case_version env c w = (Inr (Some b), w')"
  shows "\<exists>st1 st2. R\<^sup>*\<^sup>* (wo_store w) st1 \<and> R\<^sup>*\<^sup>* st1 st2 \<and> R\<^sup>*\<^sup>* st2 (wo_store w') \<and>
    db_latest_memo b = latest_id ds_memos c (db_current_case_version b) st1 \<and>
    db_latest_risk b = latest_id ds_risks c (db_current_case_version b) st2 \<and>
    db_latest_underwriting b = latest_id ds_underwritings c (db_current_case_version b) (wo_store w') \<and>
    (left_alone env \<longrightarrow> case_version (wo_orch w) c = Some (db_current_case_version b))"
proof -
  note parts = and_then_Inr [where m = "on_case env (reading f)" for f] and_then_Inr [where m = "on_tables env (reading f)" for f]
  from assms(2) obtain v w1 where first: "on_case env (reading (\<lambda>orch. case_version orch c)) w =
      (Inr v :: decision_error table_error api_error + int option, w1)"
    and rest: "(case v of None \<Rightarrow> ret None
     | Some version \<Rightarrow>
         and_then (on_tables env (reading (latest_id ds_memos c version))) (\<lambda>memo.
         and_then (on_tables env (reading (latest_id ds_risks c version))) (\<lambda>risk.
         and_then (on_tables env (reading (latest_id ds_underwritings c version))) (\<lambda>underwriting.
         ret (Some \<lparr>db_current_case_version = version, db_latest_memo = memo, db_latest_risk = risk,
           db_latest_underwriting = underwriting\<rparr>))))) w1 =
      (Inr (Some b) :: decision_error table_error api_error + decision_binding option, w')"
    unfolding load_decision_binding_def parts by blast
  from rest obtain version where v: "v = Some version" by (auto split: option.splits)
  from rest [unfolded v option.case parts] obtain memo w2 risk w3 uw where
    m: "on_tables env (reading (latest_id ds_memos c version)) w1 = (Inr memo :: decision_error table_error api_error + _, w2)" and
    r: "on_tables env (reading (latest_id ds_risks c version)) w2 = (Inr risk :: decision_error table_error api_error + _, w3)" and
    u: "on_tables env (reading (latest_id ds_underwritings c version)) w3 = (Inr uw :: decision_error table_error api_error + _, w')" and
    b: "b = \<lparr>db_current_case_version = version, db_latest_memo = memo, db_latest_risk = risk, db_latest_underwriting = uw\<rparr>"
    by auto
  have "R\<^sup>*\<^sup>* (wo_store w) (wo_store w1)" using followsD [OF follows_on_case [OF assms(1)] first] .
  moreover have "left_alone env \<longrightarrow> case_version (wo_orch w) c = Some version"
    using first v by (auto simp: quiet_on_case)
  moreover note on_tables_moment [OF assms(1) m] on_tables_moment [OF assms(1) r] on_tables_moment [OF assms(1) u]
  ultimately show ?thesis unfolding b by (intro exI [of _ "wo_store w2"] exI [of _ "wo_store w3"]) (auto intro: rtranclp_trans)
qed

text \<open>
  C22: A decision is answered only to an approver, and the answer is the decision that stands in the
  tables for the version.  A decision that the request has created binds the version and
  the artifacts of the request, each of which was the newest of the version at a moment of the request;
  with no one else acting the version was the current one.  The write takes the tables from a store
  \<open>st4\<close>, which the requests of others have led to, to the final one: either the version was
  undecided in \<open>st4\<close> and the decision of the request is added, or it was decided there and the
  tables do not change, whatever the request asked for.  In particular a version that is decided
  when the request starts keeps its decision and the answer is that decision, not a new one.
\<close>

theorem decision_binds_version:
  fixes env :: "('o, decision_store) api_env"
  assumes "others_follow (decision_step sha256) env"
    and "record_credit_decision sha256 case_version env c body a w = (Inr r, w')"
  shows "CREDIT_APPROVER_ROLE \<in> set (ac_roles a) \<and> decided c (rq_case_version body) (wo_store w') = Some (rd_decision r) \<and>
    (left_alone env \<longrightarrow> case_version (wo_orch w) c = Some (rq_case_version body)) \<and>
    (\<forall>x. decided c (rq_case_version body) (wo_store w) = Some x \<longrightarrow> rd_decision r = x \<and> \<not> rd_created r) \<and>
    (\<exists>st1 st2 st3 st4 i outcome snap.
       (decision_step sha256)\<^sup>*\<^sup>* (wo_store w) st1 \<and> (decision_step sha256)\<^sup>*\<^sup>* st1 st2 \<and> (decision_step sha256)\<^sup>*\<^sup>* st2 st3 \<and>
       (decision_step sha256)\<^sup>*\<^sup>* st3 st4 \<and>
       artifact_bound (rq_memo_artifact_id body) (latest_id ds_memos c (rq_case_version body) st1) \<and>
       artifact_bound (rq_risk_assessment_id body) (latest_id ds_risks c (rq_case_version body) st2) \<and>
       artifact_bound (rq_underwriting_assessment_id body) (latest_id ds_underwritings c (rq_case_version body) st3) \<and>
       credit_outcome_of (rq_decision body) = Some outcome \<and> froze sha256 (rq_terms body) snap \<and>
       record_decision (decision_of i c body outcome a) snap st4 = Inr (r, wo_store w') \<and>
       (if rd_created r
        then rd_decision r = (decision_of i c body outcome a)\<lparr>hd_created_at := ds_clock st4\<rparr> \<and>
          decided c (rq_case_version body) st4 = None
        else wo_store w' = st4 \<and> decided c (rq_case_version body) st4 = Some (rd_decision r)))"
proof -
  let ?R = "decision_step sha256"
  note parts = and_then_Inr [where m = "require_role a CREDIT_APPROVER_ROLE"] and_then_Inr [where m = "assigned_version env a c"]
    and_then_Inr [where m = "load_decision_binding case_version env c"] and_then_Inr [where m = "check_act b e" for b e]
    and_then_Inr [where m = "found e v" for e v] and_then_Inr [where m = "drawn_uuid env"]
  from assms(2) obtain v w1 outcome b w2 i w3 where run: "CREDIT_APPROVER_ROLE \<in> set (ac_roles a)"
    "assigned_version env a c w = (Inr v :: decision_error table_error api_error + int, w1)"
    "credit_outcome_of (rq_decision body) = Some outcome"
    "load_decision_binding case_version env c w1 = (Inr (Some b), w2)" "rq_case_version body = db_current_case_version b"
    "artifact_bound (rq_memo_artifact_id body) (db_latest_memo b)" "artifact_bound (rq_risk_assessment_id body) (db_latest_risk b)"
    "artifact_bound (rq_underwriting_assessment_id body) (db_latest_underwriting b)"
    "drawn_uuid env w2 = (Inr i :: decision_error table_error api_error + uuid, w3)"
    "file_decision sha256 env (decision_of i c body outcome a) (rq_terms body) w3 = (Inr r, w')"
    unfolding record_credit_decision_def parts access_simps by blast
  have first: "?R\<^sup>*\<^sup>* (wo_store w) (wo_store w1)" "left_alone env \<longrightarrow> wo_orch w1 = wo_orch w"
    using followsD [OF follows_assigned_version [OF assms(1)] run(2)] run(2)
    by (auto simp: quiet_assigned_version split: option.splits)
  from load_binding_Inr [OF assms(1) run(4)] obtain st1 st2 where
    bind: "?R\<^sup>*\<^sup>* (wo_store w1) st1" "?R\<^sup>*\<^sup>* st1 st2" "?R\<^sup>*\<^sup>* st2 (wo_store w2)"
      "db_latest_memo b = latest_id ds_memos c (db_current_case_version b) st1"
      "db_latest_risk b = latest_id ds_risks c (db_current_case_version b) st2"
      "db_latest_underwriting b = latest_id ds_underwritings c (db_current_case_version b) (wo_store w2)"
      "left_alone env \<longrightarrow> case_version (wo_orch w1) c = Some (db_current_case_version b)" by blast
  have w3: "wo_store w3 = wo_store w2" using run(9) by (auto simp: drawn_uuid_def)
  from file_decision_Inr [OF assms(1) run(10)] w3 obtain st4 snap where
    filed: "?R\<^sup>*\<^sup>* (wo_store w2) st4" "froze sha256 (rq_terms body) snap"
      "record_decision (decision_of i c body outcome a) snap st4 = Inr (r, wo_store w')" by auto
  from record_decision_Inr [OF filed(3)] have wrote: "decided c (rq_case_version body) (wo_store w') = Some (rd_decision r)"
      "if rd_created r then rd_decision r = (decision_of i c body outcome a)\<lparr>hd_created_at := ds_clock st4\<rparr> \<and>
          decided c (rq_case_version body) st4 = None
       else wo_store w' = st4 \<and> decided c (rq_case_version body) st4 = Some (rd_decision r)"
    by (simp_all add: decision_of_def cong: if_cong)
  have "?R\<^sup>*\<^sup>* (wo_store w) st4"
    using rtranclp_trans [OF first(1) rtranclp_trans [OF bind(1) rtranclp_trans [OF bind(2) rtranclp_trans [OF bind(3) filed(1)]]]] .
  then have before: "rd_decision r = x \<and> \<not> rd_created r" if "decided c (rq_case_version body) (wo_store w) = Some x" for x
    using decided_kept [OF decision_steps_kept that] wrote(2) by (auto split: if_splits)
  show ?thesis
  proof (intro conjI exI)
    show "?R\<^sup>*\<^sup>* (wo_store w) st1" using rtranclp_trans [OF first(1) bind(1)] .
    show "left_alone env \<longrightarrow> case_version (wo_orch w) c = Some (rq_case_version body)" using first(2) bind(7) run(5) by simp
  qed (use run(1,3,5-8) bind filed wrote before in simp_all)
qed

text \<open>
  Two snapshots with the same hash froze the same terms, unless SHA-256 collides on their texts: the
  canonical text distinguishes every field, absent ones included.
\<close>

theorem snapshot_hash_fixes_terms:
  assumes "inj_on sha256 {canonical_terms (ts_terms s), canonical_terms (ts_terms s')}"
    and "snapshot_valid sha256 s" "snapshot_valid sha256 s'" "ts_hash s = ts_hash s'"
  shows "ts_terms s = ts_terms s'"
  using assms canonical_terms_eq [of "ts_terms s" "ts_terms s'"]
  by (auto simp: snapshot_valid_def compute_terms_hash_def inj_on_def)

section \<open>Samples\<close>

definition sample_sha256 :: "string \<Rightarrow> string" where
  "sample_sha256 s = replicate 64 (CHR ''a'')"

definition sample_terms :: frozen_terms where
  "sample_terms = \<lparr>tm_amount = Some ''1000'', tm_currency = Some ''VND'', tm_term = None, tm_rate = None\<rparr>"

definition sample_decision_request :: record_decision_request where
  "sample_decision_request =
     \<lparr>rq_decision = ''APPROVED_WITH_CONDITIONS'', rq_rationale = ''r'', rq_case_version = 1, rq_memo_artifact_id = Some 5,
      rq_risk_assessment_id = None, rq_underwriting_assessment_id = None, rq_conditions = [''k''],
      rq_terms = Some sample_terms\<rparr>"

definition sample_approver :: actor where
  "sample_approver = \<lparr>ac_actor_id = 44, ac_roles = [CREDIT_APPROVER_ROLE]\<rparr>"

definition undecided :: decision_store where
  "undecided = \<lparr>ds_decisions = [], ds_snapshots = [], ds_memos = [\<lparr>ar_id = 5, ar_case_id = 7, ar_case_version = 1\<rparr>],
     ds_risks = [], ds_underwritings = [], ds_audit = [], ds_clock = 8\<rparr>"

definition sample_case_version :: "store \<Rightarrow> uuid \<Rightarrow> int option" where
  "sample_case_version st c = map_of (st_cases st) c"

lemma sample_hash: "sha256_hex (compute_terms_hash sample_sha256 t)"
proof -
  have "CHR ''a'' = digit_char 10" by code_simp
  then have "lower_hex (CHR ''a'')" by (auto simp: lower_hex_def)
  then show ?thesis by (simp add: sha256_hex_def compute_terms_hash_def sample_sha256_def list_all_iff)
qed

lemma sample_approval_runs:
  "\<exists>r w'. record_credit_decision sample_sha256 sample_case_version sample_api_env 7 sample_decision_request sample_approver
      (sample_api_world undecided []) = (Inr r, w') \<and> rd_created r"
  by (simp add: record_credit_decision_def sample_request_simps load_decision_binding_def sample_case_version_def
      sample_case_store_def undecided_def latest_id_def sample_decision_request_def sample_approver_def credit_outcome_of_def
      artifact_bound_def file_decision_def requested_snapshot_def decision_valid_def decision_of_def sized_def
      terms_valid_def sample_terms_def snapshot_valid_def build_term_snapshot_def sample_hash snapshot_matches_def
      approval_decisions_def record_decision_def load_decision_def decided_def decision_row_ok_def row_text_simps
      insert_snapshot_def snapshot_row_ok_def CREDIT_APPROVER_ROLE_def py_space_def)

theorem decisions_append_only_witness:
  "\<exists>r w'. record_credit_decision sample_sha256 sample_case_version sample_api_env 7 sample_decision_request sample_approver
      (sample_api_world undecided []) = (Inr r, w') \<and>
    rd_created r \<and> decision_tables_ok sample_sha256 (wo_store w')"
proof -
  from sample_approval_runs obtain r w' where run:
    "record_credit_decision sample_sha256 sample_case_version sample_api_env 7 sample_decision_request sample_approver
      (sample_api_world undecided []) = (Inr r, w')" "rd_created r" by blast
  have "decision_tables_ok sample_sha256 (wo_store (sample_api_world undecided []))"
    by (simp add: decision_tables_ok_def sample_api_world_def undecided_def)
  from decisions_append_only [OF sample_env_quiet(2) this, of sample_case_version 7 sample_decision_request sample_approver] run
  show ?thesis by auto
qed

text \<open>The version once it is decided, and a second request that asks for the rejection.\<close>

definition decided_store :: decision_store where
  "decided_store = undecided\<lparr>ds_decisions := [decision_of 77 7 sample_decision_request Approved_With_Conditions sample_approver]\<rparr>"

definition rejection_request :: record_decision_request where
  "rejection_request = sample_decision_request\<lparr>rq_decision := ''DECLINED_BY_HUMAN'', rq_conditions := [], rq_terms := None\<rparr>"

lemma sample_rejection_runs:
  "\<exists>r w'. record_credit_decision sample_sha256 sample_case_version sample_api_env 7 rejection_request sample_approver
      (sample_api_world decided_store []) = (Inr r, w')"
  by (simp add: record_credit_decision_def sample_request_simps load_decision_binding_def sample_case_version_def
      sample_case_store_def decided_store_def undecided_def latest_id_def rejection_request_def sample_decision_request_def
      sample_approver_def credit_outcome_of_def artifact_bound_def file_decision_def requested_snapshot_def decision_valid_def
      decision_of_def sized_def snapshot_matches_def approval_decisions_def record_decision_def load_decision_def decided_def
      decision_row_ok_def row_text_simps CREDIT_APPROVER_ROLE_def py_space_def)

theorem decision_binds_version_witness:
  "\<exists>r w' r2 w2. record_credit_decision sample_sha256 sample_case_version sample_api_env 7 sample_decision_request sample_approver
      (sample_api_world undecided []) = (Inr r, w') \<and> rd_created r \<and>
    decided 7 1 (wo_store w') = Some (rd_decision r) \<and> sample_case_version (sample_case_store []) 7 = Some 1 \<and>
    record_credit_decision sample_sha256 sample_case_version sample_api_env 7 rejection_request sample_approver
      (sample_api_world decided_store []) = (Inr r2, w2) \<and> \<not> rd_created r2 \<and>
    rd_decision r2 = decision_of 77 7 sample_decision_request Approved_With_Conditions sample_approver"
proof -
  from sample_approval_runs obtain r w' where run:
    "record_credit_decision sample_sha256 sample_case_version sample_api_env 7 sample_decision_request sample_approver
      (sample_api_world undecided []) = (Inr r, w')" "rd_created r" by blast
  from sample_rejection_runs obtain r2 w2 where again:
    "record_credit_decision sample_sha256 sample_case_version sample_api_env 7 rejection_request sample_approver
      (sample_api_world decided_store []) = (Inr r2, w2)" by blast
  have "decided 7 (rq_case_version rejection_request) (wo_store (sample_api_world decided_store [])) =
      Some (decision_of 77 7 sample_decision_request Approved_With_Conditions sample_approver)"
    by (simp add: decided_def decided_store_def sample_api_world_def rejection_request_def sample_decision_request_def decision_of_def)
  with decision_binds_version [OF sample_env_quiet(2) again]
  have kept: "\<not> rd_created r2" "rd_decision r2 = decision_of 77 7 sample_decision_request Approved_With_Conditions sample_approver"
    by blast+
  from decision_binds_version [OF sample_env_quiet(2) run(1)] sample_env_quiet(1)
  have "decided 7 1 (wo_store w') = Some (rd_decision r)" "sample_case_version (sample_case_store []) 7 = Some 1"
    by (auto simp: sample_decision_request_def sample_api_world_def)
  with run again kept show ?thesis by blast
qed

theorem snapshot_hash_fixes_terms_witness:
  "\<exists>(s :: term_snapshot) (s' :: term_snapshot). ts_id s \<noteq> ts_id s' \<and> ts_hash s = ts_hash s' \<and> ts_terms s = sample_terms \<and> ts_terms s = ts_terms s'"
proof -
  let ?snap = "\<lambda>i :: uuid. \<lparr>ts_id = i, ts_decision_id = i, ts_case_id = 7, ts_case_version = 1, ts_terms = sample_terms,
    ts_hash = compute_terms_hash sample_sha256 sample_terms, ts_created_at = 3\<rparr>"
  have "ts_terms (?snap 1) = ts_terms (?snap 2)"
    by (rule snapshot_hash_fixes_terms [of sample_sha256]) (simp_all add: snapshot_valid_def sample_hash)
  then show ?thesis by (intro exI [of _ "?snap 1"] exI [of _ "?snap 2"]) simp
qed

end
