(* ===== verification/Task_Envelope.thy ===== *)
theory Task_Envelope
  imports Dispatch Postgres_Orchestration Json_Payload
begin

text \<open>
  The decoding of the queue envelope (\<open>TaskEnvelopeV1.model_validate\<close>, \<open>domain/tasks.py\<close>), which the
  dispatcher applies to the payload of an outbox event: what \<open>create_task\<close> writes is read
  back unchanged.  Identifiers are read from texts and the version from a number, as
  the payloads have them; the other spellings pydantic converts are left out.
\<close>

definition all_task_types :: "task_type list" where
  "all_task_types = [DOCUMENT_INGESTION, ORCHESTRATOR_PLAN, CREDIT_UNDERWRITING,
     LEGAL_COMPLIANCE_COLLATERAL, INDEPENDENT_RISK_REVIEW, CREDIT_OPERATIONS]"

definition envelope_fields :: "string list" where
  "envelope_fields = [''schema_version'', ''task_id'', ''case_id'', ''case_version'', ''task_type'', ''document_version_id'']"

fun json_uuid :: "json \<Rightarrow> uuid option" where
  "json_uuid (JStr s) = (case parse_uuid s of Inl e \<Rightarrow> None | Inr u \<Rightarrow> Some u)"
| "json_uuid j = None"

fun json_int :: "json \<Rightarrow> int option" where
  "json_int (JInt i) = Some i"
| "json_int j = None"

fun json_task_type :: "json \<Rightarrow> task_type option" where
  "json_task_type (JStr s) = find (\<lambda>t. task_type_value t = s) all_task_types"
| "json_task_type j = None"

fun json_optional :: "(json \<Rightarrow> 'a option) \<Rightarrow> json \<Rightarrow> 'a option option" where
  "json_optional f JNull = Some None"
| "json_optional f j = map_option Some (f j)"

text \<open>A field: its reading when it is there, its default when it is not.\<close>

definition read_field :: "(string \<times> json) list \<Rightarrow> string \<Rightarrow> (json \<Rightarrow> 'a option) \<Rightarrow> 'a option \<Rightarrow> 'a option" where
  "read_field kvs key read absent = (case map_of kvs key of None \<Rightarrow> absent | Some j \<Rightarrow> read j)"

definition decode_fields :: "(string \<times> json) list \<Rightarrow> task_envelope option" where
  "decode_fields kvs =
     (if \<not> set (map fst kvs) \<subseteq> set envelope_fields then None
      else if read_field kvs ''schema_version'' (\<lambda>j. if j = JStr ''1'' then Some () else None) (Some ()) = None then None
      else
        Option.bind (read_field kvs ''task_id'' json_uuid None) (\<lambda>i.
        Option.bind (read_field kvs ''case_id'' json_uuid None) (\<lambda>c.
        Option.bind (read_field kvs ''case_version'' json_int None) (\<lambda>v.
        Option.bind (read_field kvs ''task_type'' json_task_type (Some DOCUMENT_INGESTION)) (\<lambda>t.
        Option.bind (read_field kvs ''document_version_id'' (json_optional json_uuid) (Some None)) (\<lambda>d.
        let e = \<lparr>te_task_id = i, te_case_id = c, te_case_version = v, te_task_type = t, te_document_version_id = d\<rparr> in
        if envelope_valid e then Some e else None))))))"

definition decode_envelope :: "json \<Rightarrow> task_envelope option" where
  "decode_envelope j = Option.bind (as_mapping j) decode_fields"

lemma task_type_read: "json_task_type (JStr (task_type_value t)) = Some t"
  by (cases t) (simp_all add: all_task_types_def)

lemma uuid_read: "u < uuid_bound \<Longrightarrow> json_uuid (JStr (str_uuid u)) = Some u"
  by (simp add: parse_str_uuid)

lemma decode_dump:
  assumes "envelope_valid e" "te_task_id e < uuid_bound" "te_case_id e < uuid_bound"
    and "case te_document_version_id e of None \<Rightarrow> True | Some d \<Rightarrow> d < uuid_bound"
  shows "decode_envelope (envelope_dump e) = Some e"
proof -
  have document: "json_optional json_uuid
      (case te_document_version_id e of None \<Rightarrow> JNull | Some d \<Rightarrow> JStr (str_uuid d)) = Some (te_document_version_id e)"
    using assms(4) by (cases "te_document_version_id e") (simp_all add: uuid_read del: json_uuid.simps)
  show ?thesis
    using assms(1-3) document
    by (cases e) (simp add: decode_envelope_def decode_fields_def envelope_dump_def read_field_def envelope_fields_def
        task_type_read uuid_read Let_def del: json_uuid.simps json_task_type.simps)
qed

lemma decoded_valid: "decode_envelope j = Some e \<Longrightarrow> envelope_valid e"
  by (auto simp: decode_envelope_def decode_fields_def Let_def bind_eq_Some_conv split: if_splits)

text \<open>
  C10: A task is announced by exactly one event, and the dispatcher reads back from its payload
  the identifiers, the version and the type the task was created with: whatever create_task
  writes decodes, so the event is sendable and its envelope passes the document-scope rule.
\<close>

theorem task_event_roundtrip:
  assumes "create_task i c v ty key payload deps st = Inr (ct, st')" "ct_created ct" "1 \<le> v"
    and "i < uuid_bound" "c < uuid_bound"
  shows "\<exists>ev e. st_outbox st' = st_outbox st @ [ev] \<and> sendable decode_envelope ev \<and> ob_dispatched_at ev = None \<and>
    decode_envelope (ob_payload ev) = Some e \<and> envelope_valid e \<and>
    e = \<lparr>te_task_id = i, te_case_id = c, te_case_version = v, te_task_type = ty, te_document_version_id = None\<rparr>"
proof -
  let ?e = "\<lparr>te_task_id = i, te_case_id = c, te_case_version = v, te_task_type = ty, te_document_version_id = None\<rparr>"
  let ?task = "new_task i c v ty key payload (st_clock st)"
  have new: "find (has_key c key) (st_tasks st) = None"
    using assms(1,2) by (auto simp: create_task_def split: option.splits)
  then obtain st1 where st1: "insert_dependencies c v i deps (st\<lparr>st_tasks := st_tasks st @ [?task]\<rparr>) = Inr st1"
    "st' = insert_task_ready_event ?e st1"
    using assms(1) by (auto simp: create_task_def result_simps Let_def)
  from insert_dependencies_Inr [OF st1(1)] have outbox: "st_outbox st1 = st_outbox st" by auto
  from create_task_new [OF new assms(1)] assms(3) have valid: "envelope_valid ?e" by (simp add: envelope_valid_def)
  then have "decode_envelope (envelope_dump ?e) = Some ?e" using assms(4,5) by (intro decode_dump) simp_all
  with outbox valid show ?thesis
    unfolding st1(2) by (auto simp: insert_task_ready_event_def draw_uuid_def sendable_def task_ready_event_def Let_def)
qed

definition envelope_store :: store where
  "envelope_store =
     \<lparr>st_cases = [(7, 1)], st_handoffs = [], st_tasks = [], st_gates = [], st_gaps = [], st_dependencies = [],
      st_outbox = [], st_proposals = [], st_audit = [], st_documents = [], st_checkpoints = [], st_slot = None,
      st_clock = 100, st_uuids = (\<lambda>n. 1000 + n), st_drawn = 0\<rparr>"

theorem task_event_roundtrip_witness:
  "\<exists>ct st' ev. create_task 5 7 1 CREDIT_UNDERWRITING ''k'' (JObj []) [] envelope_store = Inr (ct, st') \<and>
    st_outbox st' = [ev] \<and> map_option te_task_id (decode_envelope (ob_payload ev)) = Some 5"
proof -
  have "\<exists>ct st'. create_task 5 7 1 CREDIT_UNDERWRITING ''k'' (JObj []) [] envelope_store = Inr (ct, st') \<and> ct_created ct"
    by (simp add: create_task_def envelope_store_def has_key_def case_version_of_def envelope_valid_def Let_def new_task_def)
  then obtain ct st' where run: "create_task 5 7 1 CREDIT_UNDERWRITING ''k'' (JObj []) [] envelope_store = Inr (ct, st')"
    "ct_created ct" by blast
  from task_event_roundtrip [OF run] run(1) show ?thesis by (auto simp: envelope_store_def)
qed

end
