(* ===== verification/Checker_Store.thy ===== *)
theory Checker_Store
  imports Risk_Checker Maker_Store
begin

text \<open>
  The tables behind \<open>PostgresRiskReviewRepository\<close> (\<open>infrastructure/postgres/risk_review.py\<close>) and its
  operations: the read-only views of the evidence and of the makers' outputs, the blind
  pre-analysis with its one row per task, the review with its challenges, gaps and handoff in one
  transaction, and the dispositions people record.  Conventions are those of the makers' store.
\<close>

section \<open>Tables\<close>

record challenge_row =
  cr_assessment_id :: uuid
  cr_challenge :: challenge

record pre_analysis_row =
  bw_id :: uuid
  bw_key :: task_key3
  bw_execution_id :: uuid
  bw_analysis :: risk_pre_analysis

record disposition_row =
  dp_id :: uuid
  dp_assessment_id :: uuid
  dp_case_id :: uuid
  dp_case_version :: int
  dp_challenge_id :: "uuid option"
  dp_type :: string
  dp_rationale :: string
  dp_actor_id :: uuid
  dp_actor_role :: string

record checker_store =
  rk_cases :: "(uuid \<times> int) list"
  rk_facts :: "fact_row list"
  rk_underwriting :: "underwriting_assessment list"
  rk_legal :: "legal_assessment list"
  rk_reviews :: "(risk_review \<times> datetime) list"
  rk_challenges :: "challenge_row list"
  rk_blind :: "pre_analysis_row list"
  rk_gaps :: "agent_gap list"
  rk_handoffs :: "agent_handoff list"
  rk_dispositions :: "disposition_row list"
  rk_audit :: "agent_audit list"
  rk_clock :: datetime
  rk_uuids :: "nat \<Rightarrow> uuid"
  rk_drawn :: nat

definition checker_actor :: string where
  "checker_actor = ''AGENT:INDEPENDENT_RISK_REVIEW''"

definition operations_state :: string where
  "operations_state = ''READY_FOR_OPERATIONS''"

definition key_of :: "'z provenance_scheme \<Rightarrow> task_key3" where
  "key_of p = (pv_case_id p, pv_case_version p, pv_task_id p)"

section \<open>Reads\<close>

text \<open>The view of the checker and the blind view are the same statements.\<close>

definition load_checker_view :: "uuid \<Rightarrow> checker_store \<Rightarrow> evidence_view option" where
  "load_checker_view c st =
     (case map_of (rk_cases st) c of
        None \<Rightarrow> None
      | Some v \<Rightarrow> Some
          \<lparr>ev_case_id = c, ev_case_version = v, ev_built_at = rk_clock st,
           ev_facts = map fact_of_row
             (filter (\<lambda>r. cf_case_id r = c \<and> cf_case_version r = v \<and> cf_stale_at r = None) (rk_facts st))\<rparr>)"

definition load_blind_view :: "uuid \<Rightarrow> checker_store \<Rightarrow> evidence_view option" where
  "load_blind_view c st = load_checker_view c st"

definition find_ready_handoff :: "task_key3 \<Rightarrow> string \<Rightarrow> checker_store \<Rightarrow> uuid option" where
  "find_ready_handoff k state st =
     map_option gh_id (latest (filter (\<lambda>h. gh_key h = k \<and> gh_state h = state \<and> gh_stale_at h = None) (rk_handoffs st)))"

record maker_outputs_view =
  mv_underwriting :: "underwriting_assessment option"
  mv_underwriting_execution :: "uuid option"
  mv_underwriting_handoff :: "uuid option"
  mv_legal :: "legal_assessment option"
  mv_legal_execution :: "uuid option"
  mv_legal_handoff :: "uuid option"

text \<open>\<open>_load_underwriting\<close> and \<open>_load_legal\<close>: the newest assessment of the version, when its task has a ready handoff.\<close>

definition reviewable_output :: "('a \<Rightarrow> 'z provenance_scheme) \<Rightarrow> 'a list \<Rightarrow> uuid \<Rightarrow> int \<Rightarrow> checker_store \<Rightarrow> ('a \<times> uuid \<times> uuid) option" where
  "reviewable_output prov rows c v st =
     (case latest (filter (\<lambda>a. pv_case_id (prov a) = c \<and> pv_case_version (prov a) = v) rows) of
        None \<Rightarrow> None
      | Some a \<Rightarrow>
          (case find_ready_handoff (c, v, pv_task_id (prov a)) risk_review_state st of
             None \<Rightarrow> None
           | Some h \<Rightarrow> Some (a, pv_execution_id (prov a), h)))"

definition load_maker_outputs :: "uuid \<Rightarrow> int \<Rightarrow> checker_store \<Rightarrow> maker_outputs_view" where
  "load_maker_outputs c v st =
     (let uw = reviewable_output ua_provenance (rk_underwriting st) c v st;
          lg = reviewable_output la_provenance (rk_legal st) c v st
      in \<lparr>mv_underwriting = map_option fst uw, mv_underwriting_execution = map_option (fst \<circ> snd) uw,
          mv_underwriting_handoff = map_option (snd \<circ> snd) uw, mv_legal = map_option fst lg,
          mv_legal_execution = map_option (fst \<circ> snd) lg, mv_legal_handoff = map_option (snd \<circ> snd) lg\<rparr>)"

definition load_open_gaps :: "uuid \<Rightarrow> int \<Rightarrow> checker_store \<Rightarrow> open_gap list" where
  "load_open_gaps c v st =
     map (\<lambda>g. \<lparr>og_id = gg_id g, og_missing_information = gr_missing_information (gg_record g),
               og_blocking_level = gr_blocking_level (gg_record g), og_status = gg_status g\<rparr>)
       (filter (\<lambda>g. fst (gg_key g) = c \<and> fst (snd (gg_key g)) = v \<and> gg_status g \<in> {''PROVISIONAL'', ''FORMAL''}) (rk_gaps st))"

record latest_review =
  lv_review :: risk_review
  lv_created_at :: datetime
  lv_handoff :: "uuid option"

definition load_latest_review :: "uuid \<Rightarrow> checker_store \<Rightarrow> latest_review option" where
  "load_latest_review c st =
     map_option (\<lambda>(a, created).
         \<lparr>lv_review = a, lv_created_at = created,
          lv_handoff = find_ready_handoff (key_of (rr_provenance a)) operations_state st\<rparr>)
       (latest (filter (\<lambda>(a, _). pv_case_id (rr_provenance a) = c) (rk_reviews st)))"

definition load_dispositions :: "uuid \<Rightarrow> int \<Rightarrow> checker_store \<Rightarrow> disposition_row list" where
  "load_dispositions c v st = filter (\<lambda>d. dp_case_id d = c \<and> dp_case_version d = v) (rk_dispositions st)"

definition find_review :: "task_key3 \<Rightarrow> checker_store \<Rightarrow> risk_review option" where
  "find_review k st = find (\<lambda>a. key_of (rr_provenance a) = k) (map fst (rk_reviews st))"

definition find_challenge_ids :: "uuid \<Rightarrow> checker_store \<Rightarrow> uuid list" where
  "find_challenge_ids a st = map (ch_id \<circ> cr_challenge) (filter (\<lambda>r. cr_assessment_id r = a) (rk_challenges st))"

record persisted_review =
  pw_assessment_id :: uuid
  pw_handoff_id :: uuid
  pw_challenge_ids :: "uuid list"
  pw_created :: bool

definition find_persisted_review :: "task_key3 \<Rightarrow> checker_store \<Rightarrow> persisted_review option" where
  "find_persisted_review k st =
     (case find_review k st of
        None \<Rightarrow> None
      | Some a \<Rightarrow>
          (case find_ready_handoff k operations_state st of
             None \<Rightarrow> None
           | Some h \<Rightarrow> Some \<lparr>pw_assessment_id = rr_id a, pw_handoff_id = h,
               pw_challenge_ids = find_challenge_ids (rr_id a) st, pw_created = False\<rparr>))"

section \<open>Writes\<close>

definition find_blind :: "task_key3 \<Rightarrow> checker_store \<Rightarrow> pre_analysis_row option" where
  "find_blind k st = find (\<lambda>r. bw_key r = k) (rk_blind st)"

text \<open>The prompt and schema versions are constants of the code.\<close>

definition persist_blind :: "pre_analysis_row \<Rightarrow> checker_store \<Rightarrow> agent_store_error + (pre_analysis_row \<times> bool) \<times> checker_store" where
  "persist_blind row st =
     (case find_blind (bw_key row) st of
        Some existing \<Rightarrow> Inr ((existing, False), st)
      | None \<Rightarrow>
          rbind (check_that (0 < fst (snd (bw_key row))) CheckViolation) (\<lambda>_.
          rbind (check_that (bw_id row \<notin> bw_id ` set (rk_blind st)) UniqueKeyViolation) (\<lambda>_.
          Inr ((row, True), st\<lparr>rk_blind := rk_blind st @ [row]\<rparr>))))"

definition review_row_ok :: "checker_store \<Rightarrow> risk_review \<Rightarrow> bool" where
  "review_row_ok st a \<longleftrightarrow>
     (let p = rr_provenance a in
      0 < pv_case_version p \<and> not_blank (pv_prompt_version p) \<and> not_blank (pv_model_id p) \<and>
      not_blank (pv_endpoint_id p) \<and> pv_view_built_at p \<le> rk_clock st)"

definition challenge_row_ok :: "checker_store \<Rightarrow> challenge \<Rightarrow> bool" where
  "challenge_row_ok st ch \<longleftrightarrow>
     not_blank (mf_section_path (ch_target ch)) \<and> not_blank (ch_statement ch) \<and> ch_citations ch \<noteq> []"

fun insert_challenges :: "uuid \<Rightarrow> challenge list \<Rightarrow> checker_store \<Rightarrow> agent_store_error + checker_store" where
  "insert_challenges a [] st = Inr st"
| "insert_challenges a (ch # chs) st =
     rbind (check_that (challenge_row_ok st ch) CheckViolation) (\<lambda>_.
     rbind (check_that (ch_id ch \<notin> (ch_id \<circ> cr_challenge) ` set (rk_challenges st)) UniqueKeyViolation) (\<lambda>_.
     insert_challenges a chs
       (st\<lparr>rk_challenges := rk_challenges st @ [\<lparr>cr_assessment_id = a, cr_challenge = ch\<rparr>]\<rparr>)))"

fun insert_review_gaps :: "task_key3 \<Rightarrow> gap_record list \<Rightarrow> checker_store \<Rightarrow> agent_store_error + checker_store" where
  "insert_review_gaps k [] st = Inr st"
| "insert_review_gaps k (g # gs) st =
     rbind (check_that (gap_row_ok g) CheckViolation) (\<lambda>_.
     let i = rk_uuids st (rk_drawn st)
     in rbind (check_that (i \<notin> gg_id ` set (rk_gaps st)) UniqueKeyViolation) (\<lambda>_.
        insert_review_gaps k gs
          (st\<lparr>rk_drawn := Suc (rk_drawn st),
              rk_gaps := rk_gaps st @ [\<lparr>gg_id = i, gg_key = k, gg_status = ''PROVISIONAL'', gg_record = g,
                                        gg_created_by = checker_actor\<rparr>]\<rparr>)))"

definition review_handoff_data :: "risk_review \<Rightarrow> (string \<times> json) list" where
  "review_handoff_data a =
     [(''assessmentId'', JStr (str_uuid (rr_id a))),
      (''executionId'', JStr (str_uuid (pv_execution_id (rr_provenance a)))),
      (''schemaVersion'', JStr ''risk-review-assessment-v1'')]"

definition insert_review_handoff :: "uuid \<Rightarrow> string \<Rightarrow> risk_review \<Rightarrow> checker_store \<Rightarrow> checker_store" where
  "insert_review_handoff i state a st =
     (if i \<in> gh_id ` set (rk_handoffs st) then st
      else st\<lparr>rk_handoffs := rk_handoffs st @
        [\<lparr>gh_id = i, gh_key = key_of (rr_provenance a), gh_state = state, gh_data = review_handoff_data a,
          gh_created_by = checker_actor, gh_stale_at = None\<rparr>]\<rparr>)"

definition persist_review ::
  "risk_review \<Rightarrow> uuid \<Rightarrow> string \<Rightarrow> gap_record list \<Rightarrow> checker_store \<Rightarrow> agent_store_error + persisted_review \<times> checker_store" where
  "persist_review a handoff_id state gaps st =
     (let k = key_of (rr_provenance a) in
      rbind (check_that (review_row_ok st a) CheckViolation) (\<lambda>_.
      case find_review k st of
        Some existing \<Rightarrow>
          (case find_ready_handoff k state st of
             None \<Rightarrow> Inl NoHandoffRow
           | Some h \<Rightarrow> Inr
               (\<lparr>pw_assessment_id = rr_id existing, pw_handoff_id = h,
                 pw_challenge_ids = find_challenge_ids (rr_id existing) st, pw_created = False\<rparr>, st))
      | None \<Rightarrow>
          rbind (check_that (rr_id a \<notin> (rr_id \<circ> fst) ` set (rk_reviews st)) UniqueKeyViolation) (\<lambda>_.
          rbind (insert_challenges (rr_id a) (rr_challenges a) (st\<lparr>rk_reviews := rk_reviews st @ [(a, rk_clock st)]\<rparr>)) (\<lambda>st1.
          rbind (insert_review_gaps k gaps st1) (\<lambda>st2.
          Inr (\<lparr>pw_assessment_id = rr_id a, pw_handoff_id = handoff_id, pw_challenge_ids = map ch_id (rr_challenges a),
                pw_created = True\<rparr>, insert_review_handoff handoff_id state a st2))))))"

definition disposition_types :: "string list" where
  "disposition_types = [''ACCEPTED_RISK'', ''MAKER_MUST_REVISE'', ''ESCALATED'', ''NOTED'']"

definition disposition_row_ok :: "checker_store \<Rightarrow> disposition_row \<Rightarrow> bool" where
  "disposition_row_ok st d \<longleftrightarrow>
     0 < dp_case_version d \<and> dp_type d \<in> set disposition_types \<and> not_blank (dp_rationale d) \<and> not_blank (dp_actor_role d) \<and>
     (case dp_challenge_id d of
        None \<Rightarrow> dp_type d = ''NOTED''
      | Some i \<Rightarrow> list_ex (\<lambda>r. ch_id (cr_challenge r) = i \<and> cr_assessment_id r = dp_assessment_id d) (rk_challenges st)) \<and>
     dp_id d \<notin> dp_id ` set (rk_dispositions st)"

definition record_disposition :: "uuid \<Rightarrow> uuid \<Rightarrow> uuid option \<Rightarrow> string \<Rightarrow> string \<Rightarrow> uuid \<Rightarrow> string \<Rightarrow> checker_store \<Rightarrow>
   agent_store_error + disposition_row \<times> checker_store" where
  "record_disposition i assessment challenge type rationale actor role st =
     (case find (\<lambda>a. rr_id a = assessment) (map fst (rk_reviews st)) of
        None \<Rightarrow> Inl RowDisappeared
      | Some a \<Rightarrow>
          let d = \<lparr>dp_id = i, dp_assessment_id = assessment, dp_case_id = pv_case_id (rr_provenance a),
                   dp_case_version = pv_case_version (rr_provenance a), dp_challenge_id = challenge, dp_type = type,
                   dp_rationale = rationale, dp_actor_id = actor, dp_actor_role = role\<rparr>
          in rbind (check_that (disposition_row_ok st d) CheckViolation) (\<lambda>_.
             Inr (d, st\<lparr>rk_dispositions := rk_dispositions st @ [d]\<rparr>)))"

definition append_checker_audit :: "uuid \<Rightarrow> int \<Rightarrow> string \<Rightarrow> uuid \<Rightarrow> uuid \<Rightarrow> checker_store \<Rightarrow> checker_store" where
  "append_checker_audit c v event_type execution_id artifact_id st =
     st\<lparr>rk_audit := rk_audit st @
       [\<lparr>ga_case_id = c, ga_case_version = v, ga_event_type = event_type, ga_actor_type = checker_actor,
         ga_artifact_type = ''PROCESSING_TASK'', ga_artifact_id = artifact_id, ga_execution_id = execution_id\<rparr>]\<rparr>"

end
