(* ===== verification/Staged_Delivery.thy ===== *)
theory Staged_Delivery
  imports Agent_Stage
begin

text \<open>
  Assertions for the stages of a delivery: a family \<open>H\<close> of assertions, growing with a level, that
  the others and the counters of a delivery cannot break.  What a stage has reached holds from
  there on, whether the delivery goes on or dies.
\<close>

definition staged :: "'s agent_env \<Rightarrow> (nat \<Rightarrow> ('s, 'k) agent_world \<Rightarrow> bool) \<Rightarrow> bool" where
  "staged env H \<longleftrightarrow>
     (\<forall>n. undisturbed env (H n)) \<and> (\<forall>m n w. m \<le> n \<longrightarrow> H n w \<longrightarrow> H m w) \<and>
     (\<forall>n w i. H n (w\<lparr>aw_drawn := i\<rparr>) = H n w) \<and> (\<forall>n w i. H n (w\<lparr>aw_calls := i\<rparr>) = H n w) \<and>
     (\<forall>n w ms. H n (w\<lparr>aw_manifests := ms\<rparr>) = H n w)"

abbreviation stage_at where
  "stage_at H n m \<equiv> hoare (H n) m (\<lambda>_. H n) (\<lambda>_. H n)"

lemma stable_down: "staged env H \<Longrightarrow> H n w \<Longrightarrow> m \<le> n \<Longrightarrow> H m w"
  unfolding staged_def by blast

lemma at_uuid: "staged env H \<Longrightarrow> stage_at H n (next_uuid env')"
  by (rule hoareI) (auto simp: next_uuid_def staged_def)

lemma at_read: "staged env H \<Longrightarrow> hoare (H n) (from_repo env f) (\<lambda>x w. H n w \<and> x = f (aw_store w)) (\<lambda>_. H n)"
  by (rule hoare_from_repo) (simp add: staged_def)

lemma at_manifest: "staged env H \<Longrightarrow> stage_at H n (persist_manifest env t hash)"
  by (rule hoare_persist_manifest) (auto simp: staged_def)

lemma at_call: "staged env H \<Longrightarrow> hoare (H n) (call_gateway env x) (\<lambda>y w. H n w \<and> y = x) (\<lambda>_. H n)"
  by (rule hoare_call_gateway) (auto simp: staged_def)

lemma at_save:
  "staged env H \<Longrightarrow> (\<And>w. H n w \<Longrightarrow> H n (w\<lparr>aw_checkpoint := Some k\<rparr>)) \<Longrightarrow> stage_at H n (save_point env k)"
  by (rule hoare_save_point) (auto simp: staged_def)

lemma at_repo:
  assumes "staged env H" "\<And>w x st. H n w \<Longrightarrow> op (aw_store w) = Inr (x, st) \<Longrightarrow> H n (w\<lparr>aw_store := st\<rparr>) \<and> Q x (w\<lparr>aw_store := st\<rparr>)"
  shows "hoare (H n) (on_repo env op) (\<lambda>x w. H n w \<and> Q x w) (\<lambda>_. H n)"
  by (rule hoare_on_repo) (use assms in \<open>auto simp: staged_def\<close>)

text \<open>Composing stages; \<open>m\<close> is the level the delivery started from.\<close>

lemma then_at:
  assumes "staged env H" "m \<le> n" "stage_at H n p" "\<And>x. hoare (H n) (f x) Q (\<lambda>_. H m)"
  shows "hoare (H n) (and_then p f) Q (\<lambda>_. H m)"
  by (rule hoare_and_then [where R = "\<lambda>_. H n"], rule hoare_weaken [OF assms(3)])
    (auto intro: stable_down [OF assms(1)] assms(2,4))

lemma then_with:
  assumes "staged env H" "m \<le> n" "hoare (H n) p (\<lambda>x w. H n w \<and> R x w) (\<lambda>_. H n)" "\<And>x w. H n w \<Longrightarrow> R x w \<Longrightarrow> S x"
    and "\<And>x. S x \<Longrightarrow> hoare (H n) (f x) Q (\<lambda>_. H m)"
  shows "hoare (H n) (and_then p f) Q (\<lambda>_. H m)"
proof (rule hoare_and_then [where R = "\<lambda>x w. H n w \<and> S x"])
  show "hoare (H n) p (\<lambda>x w. H n w \<and> S x) (\<lambda>_. H m)"
    by (rule hoare_weaken [OF assms(3)]) (auto intro: assms(4) stable_down [OF assms(1) _ assms(2)])
  show "hoare (\<lambda>w. H n w \<and> S x) (f x) Q (\<lambda>_. H m)" for x
    using assms(5) [of x] by (cases "S x") (auto simp: hoare_def)
qed

text \<open>Reaching a level.\<close>

lemma then_reach:
  assumes "staged env H" "m \<le> n" "hoare (H n) p (\<lambda>_. H l) (\<lambda>_. H n)" "\<And>x. hoare (H l) (f x) Q (\<lambda>_. H m)"
  shows "hoare (H n) (and_then p f) Q (\<lambda>_. H m)"
  by (rule hoare_and_then [where R = "\<lambda>_. H l"], rule hoare_weaken [OF assms(3)])
    (auto intro: stable_down [OF assms(1)] assms(2,4))

lemma from_level:
  "staged env H \<Longrightarrow> l \<le> n \<Longrightarrow> hoare (H l) p Q E \<Longrightarrow> hoare (H n) p Q E"
  by (rule hoare_weaken [where P = "H l"]) (auto intro: stable_down)

end
