(* ===== verification/Checker_Processor.thy ===== *)
theory Checker_Processor
  imports Maker_Processor Checker_Store Staged_Delivery
begin

text \<open>
  The processor of INDEPENDENT_RISK_REVIEW tasks (\<open>application/risk_review/processor.py\<close>): the guards
  before any call of the model, the blind pass A with its own durable row, pass B over the makers'
  outputs, and the checkpoints a later delivery resumes from.
\<close>

section \<open>The processor\<close>

text \<open>\<open>PRE_ANALYSIS_PERSISTED\<close> carries the blind analysis, \<open>INFERENCE_VALIDATED\<close> the review.\<close>

datatype checker_checkpoint =
    Ck_View_Built | Ck_Maker_Outputs | Ck_Blind risk_pre_analysis | Ck_Deterministic | Ck_Review risk_review | Ck_Review_Persisted

datatype checker_failure = Checker_Store_Failed agent_store_error | Checker_Output_Failed build_error

record checker_env =
  ce_agent :: "checker_store agent_env"
  ce_streams :: "nat \<Rightarrow> nat \<Rightarrow> uuid"
  ce_blind :: "(json_schema \<Rightarrow> json \<Rightarrow> gateway_failure + json \<times> string \<times> string) option"
  ce_reason :: "(json_schema \<Rightarrow> gateway_failure + json \<times> string \<times> string) option"
  ce_governed :: bool
  ce_blind_hash :: "evidence_view \<Rightarrow> string"
  ce_review_hash :: "evidence_view \<Rightarrow> maker_outputs_view \<Rightarrow> open_gap list \<Rightarrow> string"
  ce_uuid5 :: "string \<Rightarrow> uuid"
  ce_now :: datetime
  ce_rejection :: "gateway_failure inference_error \<Rightarrow> string"

type_synonym 'a checker_act = "(checker_store, checker_checkpoint, checker_failure, 'a) agent_act"

definition review_store_op :: "checker_env \<Rightarrow> (checker_store \<Rightarrow> agent_store_error + 'a \<times> checker_store) \<Rightarrow> 'a checker_act" where
  "review_store_op env op =
     on_repo (ce_agent env) (\<lambda>st. case op st of Inl e \<Rightarrow> Inl (Checker_Store_Failed e) | Inr r \<Rightarrow> Inr r)"

definition review_task_key :: "processing_task \<Rightarrow> task_key3" where
  "review_task_key t = (pt_case_id t, pt_case_version t, pt_id t)"

text \<open>A stream of \<open>uuid4()\<close> values for a computation that draws as many as it needs.\<close>

definition next_stream :: "checker_env \<Rightarrow> (nat \<Rightarrow> uuid) checker_act" where
  "next_stream env w = (Inr (ce_streams env (aw_drawn w)), w\<lparr>aw_drawn := Suc (aw_drawn w)\<rparr>)"

definition audit_review :: "checker_env \<Rightarrow> processing_task \<Rightarrow> string \<Rightarrow> unit checker_act" where
  "audit_review env t event_type =
     and_then (next_uuid (ce_agent env)) (\<lambda>execution_id.
     review_store_op env (\<lambda>st. Inr ((),
       append_checker_audit (pt_case_id t) (pt_case_version t) event_type execution_id (pt_id t) st)))"

definition audited_end :: "checker_env \<Rightarrow> processing_task \<Rightarrow> string \<Rightarrow> worker_outcome \<Rightarrow> string \<Rightarrow> stage_result checker_act" where
  "audited_end env t event_type outcome reason =
     and_then (audit_review env t event_type) (\<lambda>_. stage_done outcome reason)"

definition review_handoff_id :: "checker_env \<Rightarrow> risk_review \<Rightarrow> uuid" where
  "review_handoff_id env a = ce_uuid5 env (''risk-review-handoff:'' @ str_uuid (rr_id a))"

definition persist_checker_output :: "checker_env \<Rightarrow> risk_review \<Rightarrow> persisted_review checker_act" where
  "persist_checker_output env a =
     review_store_op env (persist_review a (review_handoff_id env a) operations_state (gap_records_from a))"

definition review_persist_stage :: "checker_env \<Rightarrow> processing_task \<Rightarrow> risk_review \<Rightarrow> stage_result checker_act" where
  "review_persist_stage env t a =
     and_then (persist_checker_output env a) (\<lambda>_.
     and_then (save_point (ce_agent env) Ck_Review_Persisted) (\<lambda>_.
     audited_end env t ''RISK_REVIEW_ASSESSMENT_PERSISTED'' Succeeded []))"

definition review_manifest :: "checker_env \<Rightarrow> processing_task \<Rightarrow> string \<Rightarrow> string \<Rightarrow> unit checker_act" where
  "review_manifest env t hash event_type =
     (if ce_governed env
      then and_then (persist_manifest (ce_agent env) (pt_id t) hash) (\<lambda>_. audit_review env t event_type)
      else ret ())"

section \<open>Pass A\<close>

text \<open>The blind pass ends the delivery or gives the analysis for pass B; what the row holds wins.\<close>

definition blind_inference ::
  "checker_env \<Rightarrow> processing_task \<Rightarrow> (json_schema \<Rightarrow> json \<Rightarrow> gateway_failure + json \<times> string \<times> string) \<Rightarrow> evidence_view \<Rightarrow>
   (stage_result + risk_pre_analysis) checker_act" where
  "blind_inference env t reason view =
     and_then (next_uuid (ce_agent env)) (\<lambda>execution_id.
     and_then (call_gateway (ce_agent env) (infer_pre_analysis reason view)) (\<lambda>answer.
     case answer of
       Inl (Endpoint_Failed Endpoint_Unavailable) \<Rightarrow>
         and_then (audited_end env t ''RISK_REVIEW_GATEWAY_UNAVAILABLE'' FailedManualReview
           ''FPT reasoning endpoint unavailable'') (\<lambda>r. ret (Inl r))
     | Inl (Rejected e) \<Rightarrow>
         if e = Output_Invalid
         then and_then (audited_end env t ''RISK_REVIEW_PRE_ANALYSIS_REJECTED'' RetryWait (ce_rejection env (Rejected e)))
           (\<lambda>r. ret (Inl r))
         else raise (Agent_Exn (Checker_Output_Failed e))
     | Inl (Endpoint_Failed Endpoint_Error) \<Rightarrow>
         and_then (audited_end env t ''RISK_REVIEW_PRE_ANALYSIS_REJECTED'' RetryWait
           (ce_rejection env (Endpoint_Failed Endpoint_Error))) (\<lambda>r. ret (Inl r))
     | Inr blind \<Rightarrow>
         and_then (next_uuid (ce_agent env)) (\<lambda>row_id.
         and_then (review_store_op env (persist_blind
           \<lparr>bw_id = row_id, bw_key = review_task_key t, bw_execution_id = execution_id, bw_analysis = blind\<rparr>)) (\<lambda>(row, created).
         and_then (save_point (ce_agent env) (Ck_Blind blind)) (\<lambda>_.
         and_then (audit_review env t ''RISK_REVIEW_PRE_ANALYSIS_PERSISTED'') (\<lambda>_.
         ret (Inr (bw_analysis row))))))))"

definition blind_pass ::
  "checker_env \<Rightarrow> processing_task \<Rightarrow> (json_schema \<Rightarrow> json \<Rightarrow> gateway_failure + json \<times> string \<times> string) \<Rightarrow>
   (stage_result + risk_pre_analysis) checker_act" where
  "blind_pass env t reason =
     and_then (from_repo (ce_agent env) (load_blind_view (pt_case_id t))) (\<lambda>loaded. case loaded of
       None \<Rightarrow> ret (Inl \<lparr>sr_status = FailedManualReview,
         sr_reason = ''case '' @ str_uuid (pt_case_id t) @ '' has no evidence view for the blind pass''\<rparr>)
     | Some view \<Rightarrow>
         if ev_case_version view \<noteq> pt_case_version t
         then ret (Inl \<lparr>sr_status = Superseded,
           sr_reason = ''case version advanced past this task's bound version''\<rparr>)
         else
           and_then (review_manifest env t (ce_blind_hash env view)
             ''RISK_REVIEW_PRE_ANALYSIS_CONTEXT_MANIFEST_PERSISTED'') (\<lambda>_.
           blind_inference env t reason view))"

definition resolve_pre_analysis ::
  "checker_env \<Rightarrow> processing_task \<Rightarrow> checker_checkpoint option \<Rightarrow>
   (json_schema \<Rightarrow> json \<Rightarrow> gateway_failure + json \<times> string \<times> string) \<Rightarrow> (stage_result + risk_pre_analysis) checker_act" where
  "resolve_pre_analysis env t checkpoint reason =
     (case checkpoint of
        Some (Ck_Blind blind) \<Rightarrow> ret (Inr blind)
      | _ \<Rightarrow>
          and_then (from_repo (ce_agent env) (find_blind (review_task_key t))) (\<lambda>stored. case stored of
            Some row \<Rightarrow> ret (Inr (bw_analysis row))
          | None \<Rightarrow>
              blind_pass env t reason))"

section \<open>Pass B\<close>

definition build_act :: "build_error + 'a \<Rightarrow> 'a checker_act" where
  "build_act r = (case r of Inl e \<Rightarrow> raise (Agent_Exn (Checker_Output_Failed e)) | Inr x \<Rightarrow> ret x)"

definition review_inference ::
  "checker_env \<Rightarrow> processing_task \<Rightarrow> (json_schema \<Rightarrow> gateway_failure + json \<times> string \<times> string) \<Rightarrow> checker_input \<Rightarrow>
   stage_result checker_act" where
  "review_inference env t reason inp =
     and_then (next_stream env) (\<lambda>ids.
     and_then (call_gateway (ce_agent env) (infer_review reason ids (ce_now env) inp)) (\<lambda>answer.
     case answer of
       Inl (Endpoint_Failed Endpoint_Unavailable) \<Rightarrow>
         audited_end env t ''RISK_REVIEW_GATEWAY_UNAVAILABLE'' FailedManualReview ''FPT reasoning endpoint unavailable''
     | Inl (Rejected e) \<Rightarrow>
         if e = Same_Execution
         then audited_end env t ''RISK_REVIEW_SAME_EXECUTION_GUARD_TRIGGERED'' FailedManualReview (ce_rejection env (Rejected e))
         else if e = Output_Invalid
         then audited_end env t ''RISK_REVIEW_OUTPUT_REJECTED'' RetryWait (ce_rejection env (Rejected e))
         else raise (Agent_Exn (Checker_Output_Failed e))
     | Inl (Endpoint_Failed Endpoint_Error) \<Rightarrow>
         audited_end env t ''RISK_REVIEW_OUTPUT_REJECTED'' RetryWait (ce_rejection env (Endpoint_Failed Endpoint_Error))
     | Inr a \<Rightarrow>
         and_then (save_point (ce_agent env) (Ck_Review a)) (\<lambda>_. review_persist_stage env t a)))"

definition review_pass ::
  "checker_env \<Rightarrow> processing_task \<Rightarrow> (json_schema \<Rightarrow> gateway_failure + json \<times> string \<times> string) \<Rightarrow> evidence_view \<Rightarrow>
   maker_outputs_view \<Rightarrow> underwriting_assessment \<times> uuid \<Rightarrow> legal_assessment \<times> uuid \<Rightarrow> uuid \<Rightarrow> risk_pre_analysis \<Rightarrow>
   stage_result checker_act" where
  "review_pass env t reason view outputs uw lg execution_id blind =
     and_then (from_repo (ce_agent env) (load_open_gaps (pt_case_id t) (pt_case_version t))) (\<lambda>open_gaps.
     and_then (next_stream env) (\<lambda>ids.
     and_then (build_act (compute_pre_analysis ids (fst uw) (fst lg) view open_gaps)) (\<lambda>pre.
     and_then (save_point (ce_agent env) Ck_Deterministic) (\<lambda>_.
     and_then (review_manifest env t (ce_review_hash env view outputs open_gaps) ''RISK_REVIEW_CONTEXT_MANIFEST_PERSISTED'') (\<lambda>_.
     review_inference env t reason
       \<lparr>xi_view = view, xi_underwriting = fst uw, xi_underwriting_execution = snd uw, xi_legal = fst lg,
        xi_legal_execution = snd lg, xi_pre_analysis = pre, xi_universe = build_target_universe (fst uw) (fst lg),
        xi_hits = la_hits (fst lg), xi_checks = la_checks (fst lg),
        xi_run = \<lparr>kx_task_id = pt_id t, kx_execution_id = execution_id\<rparr>, xi_blind = Some blind\<rparr>)))))"

text \<open>Both makers' outputs with their executions, or nothing.\<close>

definition complete_outputs :: "maker_outputs_view \<Rightarrow> ((underwriting_assessment \<times> uuid) \<times> legal_assessment \<times> uuid) option" where
  "complete_outputs o' =
     (case (mv_underwriting o', mv_underwriting_execution o', mv_legal o', mv_legal_execution o') of
        (Some uw, Some ux, Some lg, Some lx) \<Rightarrow> Some ((uw, ux), lg, lx)
      | _ \<Rightarrow> None)"

definition review_fresh_run :: "checker_env \<Rightarrow> processing_task \<Rightarrow> checker_checkpoint option \<Rightarrow> stage_result checker_act" where
  "review_fresh_run env t checkpoint =
     (case (ce_reason env, ce_blind env) of
        (Some reason, Some blind_reason) \<Rightarrow>
          and_then (from_repo (ce_agent env) (load_checker_view (pt_case_id t))) (\<lambda>loaded. case loaded of
            None \<Rightarrow> stage_done FailedManualReview (''case '' @ str_uuid (pt_case_id t) @ '' has no evidence view'')
          | Some view \<Rightarrow>
              if ev_case_version view \<noteq> pt_case_version t
              then stage_done Superseded ''case version advanced past this task's bound version''
              else
                and_then (save_point (ce_agent env) Ck_View_Built) (\<lambda>_.
                and_then (from_repo (ce_agent env) (load_maker_outputs (pt_case_id t) (pt_case_version t))) (\<lambda>outputs.
                case complete_outputs outputs of
                  None \<Rightarrow> audited_end env t ''RISK_REVIEW_MAKER_OUTPUTS_INCOMPLETE'' FailedManualReview
                    ''independent risk review requires both maker handoffs (READY_FOR_RISK_REVIEW from underwriting AND legal/compliance)''
                | Some (uw, lg) \<Rightarrow>
                    and_then (next_uuid (ce_agent env)) (\<lambda>execution_id.
                    if execution_id \<in> {snd uw, snd lg}
                    then audited_end env t ''RISK_REVIEW_SAME_EXECUTION_GUARD_TRIGGERED'' FailedManualReview
                      ''checker execution id must differ from every reviewed maker execution id (maker-checker separation)''
                    else
                      and_then (save_point (ce_agent env) Ck_Maker_Outputs) (\<lambda>_.
                      and_then (resolve_pre_analysis env t checkpoint blind_reason) (\<lambda>resolved.
                      case resolved of
                        Inl ended \<Rightarrow> ret ended
                      | Inr blind \<Rightarrow> review_pass env t reason view outputs uw lg execution_id blind))))))
      | _ \<Rightarrow>
          audited_end env t ''RISK_REVIEW_GATEWAY_UNAVAILABLE'' FailedManualReview
            ''independent risk review requires a configured FPT reasoning endpoint'')"

text \<open>\<open>IndependentRiskReviewProcessor.process\<close>, given the last durable checkpoint.\<close>

definition process_review :: "processing_task \<Rightarrow> checker_env \<Rightarrow> stage_result checker_act" where
  "process_review t env w =
     (case aw_checkpoint w of
        Some Ck_Review_Persisted \<Rightarrow> stage_done Succeeded []
      | Some (Ck_Review a) \<Rightarrow> review_persist_stage env t a
      | checkpoint \<Rightarrow>
          and_then (from_repo (ce_agent env) (find_persisted_review (review_task_key t))) (\<lambda>existing. case existing of
            Some persisted \<Rightarrow> and_then (save_point (ce_agent env) Ck_Review_Persisted) (\<lambda>_. stage_done Succeeded [])
          | None \<Rightarrow> review_fresh_run env t checkpoint)) w"

end
