(* ===== verification/Checker_Delivery.thy ===== *)
theory Checker_Delivery
  imports Checker_Processor
begin

text \<open>
  The deliveries of one review task.  The others may do anything between two calls that leaves the
  outputs of this task alone, that names no handoff of the checker without its review and no
  challenge without its review.
\<close>

section \<open>The invariant\<close>

record review_outputs =
  ro_reviews :: "risk_review list"
  ro_handoffs :: "agent_handoff list"
  ro_gaps :: "gap_record list"
  ro_challenges :: "challenge list"
  ro_blind :: "pre_analysis_row list"

definition reviews_of :: "task_key3 \<Rightarrow> checker_store \<Rightarrow> risk_review list" where
  "reviews_of k st = filter (\<lambda>a. key_of (rr_provenance a) = k) (map fst (rk_reviews st))"

definition review_outputs_of :: "task_key3 \<Rightarrow> checker_store \<Rightarrow> review_outputs" where
  "review_outputs_of k st =
     \<lparr>ro_reviews = reviews_of k st,
      ro_handoffs = filter (\<lambda>h. gh_key h = k \<and> gh_state h = operations_state \<and> gh_stale_at h = None) (rk_handoffs st),
      ro_gaps = map gg_record (filter (\<lambda>g. gg_key g = k \<and> gg_created_by g = checker_actor) (rk_gaps st)),
      ro_challenges = map cr_challenge (filter (\<lambda>r. cr_assessment_id r \<in> rr_id ` set (reviews_of k st)) (rk_challenges st)),
      ro_blind = filter (\<lambda>r. bw_key r = k) (rk_blind st)\<rparr>"

definition rhid :: "(string \<Rightarrow> uuid) \<Rightarrow> uuid \<Rightarrow> uuid" where
  "rhid u5 i = u5 (''risk-review-handoff:'' @ str_uuid i)"

definition review_rows_named :: "(string \<Rightarrow> uuid) \<Rightarrow> uuid set \<Rightarrow> checker_store \<Rightarrow> bool" where
  "review_rows_named u5 ids st \<longleftrightarrow>
     (\<forall>h\<in>set (rk_handoffs st). \<forall>i\<in>ids. gh_id h = rhid u5 i \<longrightarrow> i \<in> (rr_id \<circ> fst) ` set (rk_reviews st)) \<and>
     (\<forall>r\<in>set (rk_challenges st). cr_assessment_id r \<in> (rr_id \<circ> fst) ` set (rk_reviews st))"

definition review_complete :: "(string \<Rightarrow> uuid) \<Rightarrow> task_key3 \<Rightarrow> checker_store \<Rightarrow> bool" where
  "review_complete u5 k st \<longleftrightarrow>
     (let out = review_outputs_of k st in
      length (ro_blind out) \<le> 1 \<and>
      ((ro_reviews out = [] \<and> ro_handoffs out = [] \<and> ro_gaps out = []) \<or>
       (\<exists>a h. ro_reviews out = [a] \<and> ro_handoffs out = [h] \<and> gh_id h = rhid u5 (rr_id a) \<and>
          ro_gaps out = gap_records_from a \<and> ro_challenges out = rr_challenges a \<and> ro_blind out \<noteq> [])))"

definition has_review :: "task_key3 \<Rightarrow> (checker_store, 'k) agent_world \<Rightarrow> bool" where
  "has_review k w \<longleftrightarrow> ro_reviews (review_outputs_of k (aw_store w)) \<noteq> []"

definition has_blind :: "task_key3 \<Rightarrow> (checker_store, 'k) agent_world \<Rightarrow> bool" where
  "has_blind k w \<longleftrightarrow> ro_blind (review_outputs_of k (aw_store w)) \<noteq> []"

definition checkpoint_fits :: "uuid set \<Rightarrow> task_key3 \<Rightarrow> (checker_store, checker_checkpoint) agent_world \<Rightarrow> bool" where
  "checkpoint_fits ids k w \<longleftrightarrow>
     (case aw_checkpoint w of
        Some Ck_Review_Persisted \<Rightarrow> has_review k w
      | Some (Ck_Review a) \<Rightarrow> key_of (rr_provenance a) = k \<and> rr_id a \<in> ids \<and> has_blind k w
      | Some (Ck_Blind b) \<Rightarrow> has_blind k w
      | _ \<Rightarrow> True)"

definition review_inv :: "(string \<Rightarrow> uuid) \<Rightarrow> uuid set \<Rightarrow> task_key3 \<Rightarrow> (checker_store, checker_checkpoint) agent_world \<Rightarrow> bool" where
  "review_inv u5 ids k w \<longleftrightarrow>
     review_rows_named u5 ids (aw_store w) \<and> review_complete u5 k (aw_store w) \<and> checkpoint_fits ids k w"

text \<open>Level 1: the blind row is there; level 2: the review is.\<close>

definition review_reached :: "(string \<Rightarrow> uuid) \<Rightarrow> uuid set \<Rightarrow> task_key3 \<Rightarrow> nat \<Rightarrow> (checker_store, checker_checkpoint) agent_world \<Rightarrow> bool" where
  "review_reached u5 ids k n w \<longleftrightarrow> review_inv u5 ids k w \<and> (1 \<le> n \<longrightarrow> has_blind k w) \<and> (2 \<le> n \<longrightarrow> has_review k w)"

definition others_keep_review :: "(string \<Rightarrow> uuid) \<Rightarrow> uuid set \<Rightarrow> task_key3 \<Rightarrow> checker_store agent_env \<Rightarrow> bool" where
  "others_keep_review u5 ids k env \<longleftrightarrow>
     (\<forall>n st. review_outputs_of k (ae_others env n st) = review_outputs_of k st \<and>
        (review_rows_named u5 ids st \<longrightarrow> review_rows_named u5 ids (ae_others env n st)))"

definition review_delivery_ok :: "(string \<Rightarrow> uuid) \<Rightarrow> uuid set \<Rightarrow> task_key3 \<Rightarrow> checker_env \<Rightarrow> bool" where
  "review_delivery_ok u5 ids k env \<longleftrightarrow>
     ce_uuid5 env = u5 \<and> (\<forall>n m. ce_streams env n m \<in> ids) \<and> others_keep_review u5 ids k (ce_agent env)"

lemma reached_stable:
  assumes "others_keep_review u5 ids k env"
  shows "staged env (review_reached u5 ids k)"
proof -
  have "undisturbed env (review_reached u5 ids k n)" for n
    using assms
    by (auto simp: undisturbed_def others_keep_review_def review_reached_def review_inv_def interfered_def review_complete_def
        checkpoint_fits_def has_review_def has_blind_def split: option.splits checker_checkpoint.splits)
  then show ?thesis
    by (auto simp: staged_def review_reached_def review_inv_def checkpoint_fits_def has_review_def has_blind_def
        cong: option.case_cong checker_checkpoint.case_cong)
qed

lemma outputs_of_checker_audit [simp]:
  "review_outputs_of k (append_checker_audit c v e x i st) = review_outputs_of k st"
  "review_rows_named u5 ids (append_checker_audit c v e x i st) = review_rows_named u5 ids st"
  by (simp_all add: append_checker_audit_def review_outputs_of_def review_rows_named_def reviews_of_def)

lemma reached_same_outputs:
  "review_reached u5 ids k n w \<Longrightarrow> review_outputs_of k st = review_outputs_of k (aw_store w) \<Longrightarrow> review_rows_named u5 ids st \<Longrightarrow>
   review_reached u5 ids k n (w\<lparr>aw_store := st\<rparr>)"
  by (auto simp: review_reached_def review_inv_def review_complete_def checkpoint_fits_def has_review_def has_blind_def
      split: option.splits checker_checkpoint.splits)

section \<open>Persisting\<close>

lemma insert_challenges_effect:
  "insert_challenges a chs st = Inr st' \<Longrightarrow>
   st' = st\<lparr>rk_challenges := rk_challenges st @ map (\<lambda>ch. \<lparr>cr_assessment_id = a, cr_challenge = ch\<rparr>) chs\<rparr>"
proof (induction chs arbitrary: st)
  case (Cons ch chs)
  then have "insert_challenges a chs (st\<lparr>rk_challenges := rk_challenges st @ [\<lparr>cr_assessment_id = a, cr_challenge = ch\<rparr>]\<rparr>) = Inr st'"
    by (auto simp: result_simps)
  from Cons.IH [OF this] show ?case by simp
qed simp

lemma insert_review_gaps_effect:
  "insert_review_gaps k gs st = Inr st' \<Longrightarrow>
   \<exists>rows n. st' = st\<lparr>rk_drawn := n, rk_gaps := rk_gaps st @ rows\<rparr> \<and> map gg_record rows = gs \<and>
     list_all (\<lambda>r. gg_key r = k \<and> gg_created_by r = checker_actor) rows"
proof (induction gs arbitrary: st)
  case Nil
  then show ?case by (intro exI [of _ "[]"] exI [of _ "rk_drawn st"]) simp
next
  case (Cons g gs)
  let ?row = "\<lparr>gg_id = rk_uuids st (rk_drawn st), gg_key = k, gg_status = ''PROVISIONAL'', gg_record = g, gg_created_by = checker_actor\<rparr>"
  from Cons.prems have "insert_review_gaps k gs (st\<lparr>rk_drawn := Suc (rk_drawn st), rk_gaps := rk_gaps st @ [?row]\<rparr>) = Inr st'"
    by (auto simp: Let_def result_simps)
  from Cons.IH [OF this] obtain rows n where
    "st' = st\<lparr>rk_drawn := n, rk_gaps := (rk_gaps st @ [?row]) @ rows\<rparr>" "map gg_record rows = gs"
    "list_all (\<lambda>r. gg_key r = k \<and> gg_created_by r = checker_actor) rows" by auto
  then show ?case by (intro exI [of _ "?row # rows"] exI [of _ n]) simp
qed

lemma find_review_None: "find_review k st = None \<longleftrightarrow> reviews_of k st = []"
  by (auto simp: find_review_def find_None_iff reviews_of_def filter_empty_conv)

lemma persist_review_new:
  assumes "persist_review a i state gaps st = Inr (p, st')" "find_review (key_of (rr_provenance a)) st = None"
  shows "\<exists>rows n. rr_id a \<notin> (rr_id \<circ> fst) ` set (rk_reviews st) \<and> map gg_record rows = gaps \<and>
    list_all (\<lambda>r. gg_key r = key_of (rr_provenance a) \<and> gg_created_by r = checker_actor) rows \<and>
    st' = insert_review_handoff i state a (st\<lparr>rk_reviews := rk_reviews st @ [(a, rk_clock st)],
      rk_challenges := rk_challenges st @ map (\<lambda>ch. \<lparr>cr_assessment_id = rr_id a, cr_challenge = ch\<rparr>) (rr_challenges a),
      rk_drawn := n, rk_gaps := rk_gaps st @ rows\<rparr>)"
proof -
  from assms obtain st1 st2 where run: "rr_id a \<notin> (rr_id \<circ> fst) ` set (rk_reviews st)"
    "insert_challenges (rr_id a) (rr_challenges a) (st\<lparr>rk_reviews := rk_reviews st @ [(a, rk_clock st)]\<rparr>) = Inr st1"
    "insert_review_gaps (key_of (rr_provenance a)) gaps st1 = Inr st2" "st' = insert_review_handoff i state a st2"
    by (auto simp: persist_review_def Let_def result_simps)
  from insert_review_gaps_effect [OF run(3)] obtain rows n where rows:
    "st2 = st1\<lparr>rk_drawn := n, rk_gaps := rk_gaps st1 @ rows\<rparr>" "map gg_record rows = gaps"
    "list_all (\<lambda>r. gg_key r = key_of (rr_provenance a) \<and> gg_created_by r = checker_actor) rows" by blast
  show ?thesis
    using run(1,4) rows insert_challenges_effect [OF run(2)] by (intro exI [of _ rows] exI [of _ n]) simp
qed

lemma persist_review_complete:
  assumes p: "persist_review a (rhid u5 (rr_id a)) operations_state (gap_records_from a) st = Inr (p, st')"
    and named: "review_rows_named u5 ids st" and complete: "review_complete u5 (key_of (rr_provenance a)) st"
    and inj: "inj_on (rhid u5) ids" "rr_id a \<in> ids" and blind: "ro_blind (review_outputs_of (key_of (rr_provenance a)) st) \<noteq> []"
  shows "review_rows_named u5 ids st' \<and> review_complete u5 (key_of (rr_provenance a)) st' \<and>
    ro_reviews (review_outputs_of (key_of (rr_provenance a)) st') \<noteq> [] \<and>
    ro_blind (review_outputs_of (key_of (rr_provenance a)) st') = ro_blind (review_outputs_of (key_of (rr_provenance a)) st)"
proof (cases "find_review (key_of (rr_provenance a)) st")
  case (Some b)
  then have "reviews_of (key_of (rr_provenance a)) st \<noteq> []" using find_review_None [of "key_of (rr_provenance a)" st] by auto
  moreover have "st' = st" using p Some by (auto simp: persist_review_def Let_def result_simps split: option.splits)
  ultimately show ?thesis using named complete by (simp add: review_outputs_of_def)
next
  case None
  let ?k = "key_of (rr_provenance a)"
  let ?i = "rhid u5 (rr_id a)"
  from persist_review_new [OF p None] obtain rows n where
    new: "rr_id a \<notin> (rr_id \<circ> fst) ` set (rk_reviews st)" "map gg_record rows = gap_records_from a"
      "list_all (\<lambda>r. gg_key r = ?k \<and> gg_created_by r = checker_actor) rows" and
    st': "st' = insert_review_handoff ?i operations_state a (st\<lparr>rk_reviews := rk_reviews st @ [(a, rk_clock st)],
      rk_challenges := rk_challenges st @ map (\<lambda>ch. \<lparr>cr_assessment_id = rr_id a, cr_challenge = ch\<rparr>) (rr_challenges a),
      rk_drawn := n, rk_gaps := rk_gaps st @ rows\<rparr>)" by blast
  have fresh: "?i \<notin> gh_id ` set (rk_handoffs st)" using named new(1) inj(2) by (auto simp: review_rows_named_def)
  have none: "reviews_of ?k st = []" using None by (simp add: find_review_None)
  have reviews: "reviews_of ?k st' = [a]" using none by (simp add: st' insert_review_handoff_def reviews_of_def)
  have gaps: "filter (\<lambda>g. gg_key g = ?k \<and> gg_created_by g = checker_actor) rows = rows"
    using new(3) by (auto simp: list_all_iff intro: filter_True)
  have chs: "filter (\<lambda>r. cr_assessment_id r = rr_id a) (rk_challenges st) = []"
    using named new(1) unfolding review_rows_named_def filter_empty_conv by metis
  have empty: "ro_handoffs (review_outputs_of ?k st) = []" "ro_gaps (review_outputs_of ?k st) = []"
    using complete none by (auto simp: review_complete_def Let_def review_outputs_of_def)
  have "review_outputs_of ?k st' = \<lparr>ro_reviews = [a],
      ro_handoffs = [\<lparr>gh_id = ?i, gh_key = ?k, gh_state = operations_state, gh_data = review_handoff_data a,
        gh_created_by = checker_actor, gh_stale_at = None\<rparr>],
      ro_gaps = gap_records_from a, ro_challenges = rr_challenges a, ro_blind = ro_blind (review_outputs_of ?k st)\<rparr>"
    using fresh empty gaps chs new(2)
    by (simp add: review_outputs_of_def reviews, simp add: st' insert_review_handoff_def o_def filter_map)
  moreover have "review_rows_named u5 ids st'"
    using named fresh inj by (auto simp: st' insert_review_handoff_def review_rows_named_def dest: inj_onD)
  ultimately show ?thesis using complete blind by (auto simp: review_complete_def Let_def)
qed

section \<open>The stages\<close>

abbreviation review_result where
  "review_result u5 ids k m r w \<equiv> review_reached u5 ids k m w \<and> (sr_status r = Succeeded \<longrightarrow> has_review k w)"

abbreviation review_run where
  "review_run u5 ids k m n p \<equiv> hoare (review_reached u5 ids k n) p (review_result u5 ids k m) (\<lambda>_. review_reached u5 ids k m)"

lemma at_review_save:
  assumes "others_keep_review u5 ids k env"
    and "\<And>w. review_reached u5 ids k n w \<Longrightarrow> checkpoint_fits ids k (w\<lparr>aw_checkpoint := Some c\<rparr>)"
  shows "stage_at (review_reached u5 ids k) n (save_point env c)"
  by (rule at_save [OF reached_stable [OF assms(1)]])
    (use assms(2) in \<open>auto simp: review_reached_def review_inv_def has_review_def has_blind_def\<close>)

lemma reached_audit:
  assumes "review_reached u5 ids k n w"
  shows "review_reached u5 ids k n (w\<lparr>aw_store := append_checker_audit c v e x i (aw_store w)\<rparr>)"
  by (rule reached_same_outputs [OF assms]) (use assms in \<open>simp_all add: review_reached_def review_inv_def\<close>)

lemma at_review_audit:
  assumes "others_keep_review u5 ids k (ce_agent env)"
  shows "stage_at (review_reached u5 ids k) n (audit_review env t e)"
  unfolding audit_review_def review_store_op_def
  by (rule hoare_and_then [OF at_uuid [OF reached_stable [OF assms]]],
      rule hoare_weaken [OF at_repo [OF reached_stable [OF assms], where Q = "\<lambda>_ _. True"]])
    (auto intro: reached_audit)

lemma at_stream: "stage_at (review_reached u5 ids k) n (next_stream env)"
  by (rule hoareI) (auto simp: next_stream_def review_reached_def review_inv_def checkpoint_fits_def has_review_def has_blind_def
      cong: option.case_cong checker_checkpoint.case_cong)

lemma at_review_manifest:
  assumes "others_keep_review u5 ids k (ce_agent env)"
  shows "stage_at (review_reached u5 ids k) n (review_manifest env t hash e)"
proof -
  have "stage_at (review_reached u5 ids k) n (and_then (persist_manifest (ce_agent env) (pt_id t) hash) (\<lambda>_. audit_review env t e))"
    by (rule hoare_and_then [OF at_manifest [OF reached_stable [OF assms]] at_review_audit [OF assms]])
  then show ?thesis by (simp add: review_manifest_def hoare_ret)
qed

lemma review_end:
  "m \<le> n \<Longrightarrow> (out = Succeeded \<Longrightarrow> 2 \<le> n) \<Longrightarrow> review_run u5 ids k m n (stage_done out reason)"
  by (auto simp: hoare_def stage_done_def review_reached_def)

lemma review_audited_end:
  assumes "others_keep_review u5 ids k (ce_agent env)" "m \<le> n" "out = Succeeded \<Longrightarrow> 2 \<le> n"
  shows "review_run u5 ids k m n (audited_end env t e out reason)"
  unfolding audited_end_def
  by (rule then_at [OF reached_stable [OF assms(1)] assms(2) at_review_audit [OF assms(1)]])
    (use review_end assms(2,3) in blast)

lemma at_persist_output:
  assumes "review_delivery_ok u5 ids k env" "inj_on (rhid u5) ids" "key_of (rr_provenance a) = k" "rr_id a \<in> ids" "1 \<le> n"
  shows "hoare (review_reached u5 ids k n) (persist_checker_output env a) (\<lambda>_. review_reached u5 ids k 2) (\<lambda>_. review_reached u5 ids k n)"
  unfolding persist_checker_output_def review_store_op_def
proof (rule hoare_weaken [OF at_repo [where Q = "\<lambda>_. has_review k"]])
  show "staged (ce_agent env) (review_reached u5 ids k)" using assms(1) reached_stable by (auto simp: review_delivery_ok_def)
next
  fix w x st
  assume w: "review_reached u5 ids k n w" and "(case persist_review a (review_handoff_id env a) operations_state (gap_records_from a) (aw_store w) of
      Inl e \<Rightarrow> Inl (Checker_Store_Failed e) | Inr r \<Rightarrow> Inr r) = Inr (x, st)"
  then have p: "persist_review a (rhid u5 (rr_id a)) operations_state (gap_records_from a) (aw_store w) = Inr (x, st)"
    using assms(1) by (auto simp: rhid_def review_handoff_id_def review_delivery_ok_def split: sum.splits)
  from w assms(3,5) have inv: "review_rows_named u5 ids (aw_store w)" "review_complete u5 (key_of (rr_provenance a)) (aw_store w)"
    "ro_blind (review_outputs_of (key_of (rr_provenance a)) (aw_store w)) \<noteq> []" "checkpoint_fits ids k w"
    by (auto simp: review_reached_def review_inv_def has_blind_def)
  from persist_review_complete [OF p inv(1,2) assms(2,4) inv(3)] assms(3) inv(3)
  have new: "review_rows_named u5 ids st" "review_complete u5 k st" "has_review k (w\<lparr>aw_store := st\<rparr>)" "has_blind k (w\<lparr>aw_store := st\<rparr>)"
    by (auto simp: has_review_def has_blind_def)
  then have "checkpoint_fits ids k (w\<lparr>aw_store := st\<rparr>)"
    using inv(4) by (auto simp: checkpoint_fits_def split: option.splits checker_checkpoint.splits)
  with new show "review_reached u5 ids k n (w\<lparr>aw_store := st\<rparr>) \<and> has_review k (w\<lparr>aw_store := st\<rparr>)"
    by (simp add: review_reached_def review_inv_def)
qed (use assms(5) in \<open>auto simp: review_reached_def\<close>)

lemma review_persist_run:
  assumes ok: "review_delivery_ok u5 ids k env" "inj_on (rhid u5) ids" "key_of (rr_provenance a) = k" "rr_id a \<in> ids"
    and "1 \<le> n" "m \<le> n"
  shows "review_run u5 ids k m n (review_persist_stage env t a)"
proof -
  have o: "others_keep_review u5 ids k (ce_agent env)" using ok(1) by (simp add: review_delivery_ok_def)
  note st = reached_stable [OF o]
  have saved: "stage_at (review_reached u5 ids k) 2 (save_point (ce_agent env) Ck_Review_Persisted)"
    by (rule at_review_save [OF o]) (simp add: checkpoint_fits_def review_reached_def has_review_def)
  have "hoare (review_reached u5 ids k 2) (and_then (save_point (ce_agent env) Ck_Review_Persisted)
      (\<lambda>_. audited_end env t ''RISK_REVIEW_ASSESSMENT_PERSISTED'' Succeeded [])) (review_result u5 ids k m) (\<lambda>_. review_reached u5 ids k (min m 2))"
    by (rule then_at [OF st _ saved], simp, rule hoare_weaken [OF review_audited_end [OF o, of "min m 2" 2]])
      (auto simp: review_reached_def min_def split: if_splits)
  then have "hoare (review_reached u5 ids k 2) (and_then (save_point (ce_agent env) Ck_Review_Persisted)
      (\<lambda>_. audited_end env t ''RISK_REVIEW_ASSESSMENT_PERSISTED'' Succeeded [])) (review_result u5 ids k m) (\<lambda>_. review_reached u5 ids k m)"
    by (rule hoare_weaken) (auto simp: review_reached_def min_def split: if_splits)
  from then_reach [OF st \<open>m \<le> n\<close> at_persist_output [OF ok \<open>1 \<le> n\<close>] this] show ?thesis
    unfolding review_persist_stage_def .
qed

section \<open>The passes\<close>

lemma build_review_key:
  "build_review ids now inp model_id endpoint_id payload = Inr a \<Longrightarrow>
   rr_id a \<in> range ids \<and>
   key_of (rr_provenance a) = (ev_case_id (xi_view inp), ev_case_version (xi_view inp), kx_task_id (xi_run inp))"
  unfolding build_review_def Let_def rejecting_Inr key_of_def
  by (auto simp: rbind_Inr validated_Inr split: if_splits)

lemma infer_review_key:
  assumes "infer_review reason ids now inp = Inr a"
  shows "rr_id a \<in> range ids \<and>
    key_of (rr_provenance a) = (ev_case_id (xi_view inp), ev_case_version (xi_view inp), kx_task_id (xi_run inp))"
proof -
  from assms obtain model_id endpoint_id kvs where "build_review ids now inp model_id endpoint_id kvs = Inr a"
    by (auto simp: infer_review_def rejected_output_def split: if_splits sum.splits option.splits prod.splits)
  from build_review_key [OF this] show ?thesis .
qed

lemma review_inference_run:
  assumes ok: "review_delivery_ok u5 ids k env" "inj_on (rhid u5) ids"
    and key: "k = (ev_case_id (xi_view inp), ev_case_version (xi_view inp), kx_task_id (xi_run inp))" and "1 \<le> n" "m \<le> n"
  shows "review_run u5 ids k m n (review_inference env t reason inp)"
proof -
  have o: "others_keep_review u5 ids k (ce_agent env)" using ok(1) by (simp add: review_delivery_ok_def)
  note st = reached_stable [OF o]
  have streams: "hoare (review_reached u5 ids k n) (next_stream env) (\<lambda>x w. review_reached u5 ids k n w \<and> range x \<subseteq> ids) (\<lambda>_. review_reached u5 ids k n)"
    using at_stream [of u5 ids k n env] ok(1) unfolding hoare_def review_delivery_ok_def
    by (auto simp: next_stream_def)
  have fails: "review_run u5 ids k m n (audited_end env t e out reason)" if "out \<noteq> Succeeded" for e out reason
    by (rule review_audited_end [OF o \<open>m \<le> n\<close>]) (use that in simp)
  have good: "review_run u5 ids k m n (and_then (save_point (ce_agent env) (Ck_Review a)) (\<lambda>_. review_persist_stage env t a))"
    if "key_of (rr_provenance a) = k" "rr_id a \<in> ids" for a
    by (rule then_at [OF st \<open>m \<le> n\<close> at_review_save [OF o]], use that \<open>1 \<le> n\<close> in \<open>simp add: checkpoint_fits_def review_reached_def has_blind_def\<close>)
      (rule review_persist_run [OF ok that \<open>1 \<le> n\<close> \<open>m \<le> n\<close>])
  show ?thesis
    unfolding review_inference_def
  proof (rule then_with [OF st \<open>m \<le> n\<close> streams, where S = "\<lambda>x. range x \<subseteq> ids"], simp)
    fix stream :: "nat \<Rightarrow> uuid" assume "range stream \<subseteq> ids"
    then have a: "key_of (rr_provenance a) = k \<and> rr_id a \<in> ids" if "infer_review reason stream (ce_now env) inp = Inr a" for a
      using infer_review_key [OF that] key by auto
    show "review_run u5 ids k m n (and_then (call_gateway (ce_agent env) (infer_review reason stream (ce_now env) inp)) (\<lambda>answer.
      case answer of
       Inl (Endpoint_Failed Endpoint_Unavailable) \<Rightarrow>
         audited_end env t ''RISK_REVIEW_GATEWAY_UNAVAILABLE'' FailedManualReview ''FPT reasoning endpoint unavailable''
     | Inl (Rejected e) \<Rightarrow>
         if e = Same_Execution
         then audited_end env t ''RISK_REVIEW_SAME_EXECUTION_GUARD_TRIGGERED'' FailedManualReview (ce_rejection env (Rejected e))
         else if e = Output_Invalid
         then audited_end env t ''RISK_REVIEW_OUTPUT_REJECTED'' RetryWait (ce_rejection env (Rejected e))
         else raise (Agent_Exn (Checker_Output_Failed e))
     | Inl (Endpoint_Failed Endpoint_Error) \<Rightarrow>
         audited_end env t ''RISK_REVIEW_OUTPUT_REJECTED'' RetryWait (ce_rejection env (Endpoint_Failed Endpoint_Error))
     | Inr a \<Rightarrow>
         and_then (save_point (ce_agent env) (Ck_Review a)) (\<lambda>_. review_persist_stage env t a)))"
    proof (rule then_with [OF st \<open>m \<le> n\<close> at_call [OF st],
          where S = "\<lambda>x. \<forall>a. x = Inr a \<longrightarrow> key_of (rr_provenance a) = k \<and> rr_id a \<in> ids"])
      fix answer :: "gateway_failure inference_error + risk_review"
      assume "\<forall>a. answer = Inr a \<longrightarrow> key_of (rr_provenance a) = k \<and> rr_id a \<in> ids"
      then show "review_run u5 ids k m n (case answer of
       Inl (Endpoint_Failed Endpoint_Unavailable) \<Rightarrow>
         audited_end env t ''RISK_REVIEW_GATEWAY_UNAVAILABLE'' FailedManualReview ''FPT reasoning endpoint unavailable''
     | Inl (Rejected e) \<Rightarrow>
         if e = Same_Execution
         then audited_end env t ''RISK_REVIEW_SAME_EXECUTION_GUARD_TRIGGERED'' FailedManualReview (ce_rejection env (Rejected e))
         else if e = Output_Invalid
         then audited_end env t ''RISK_REVIEW_OUTPUT_REJECTED'' RetryWait (ce_rejection env (Rejected e))
         else raise (Agent_Exn (Checker_Output_Failed e))
     | Inl (Endpoint_Failed Endpoint_Error) \<Rightarrow>
         audited_end env t ''RISK_REVIEW_OUTPUT_REJECTED'' RetryWait (ce_rejection env (Endpoint_Failed Endpoint_Error))
     | Inr a \<Rightarrow>
         and_then (save_point (ce_agent env) (Ck_Review a)) (\<lambda>_. review_persist_stage env t a))"
        by (auto split: sum.split inference_error.split gateway_failure.split
            intro!: fails good hoare_raise stable_down [OF st _ \<open>m \<le> n\<close>])
    qed (use a in auto)
  qed
qed

lemma at_persist_blind:
  assumes "others_keep_review u5 ids k (ce_agent env)" "bw_key row = k"
  shows "hoare (review_reached u5 ids k n) (review_store_op env (persist_blind row)) (\<lambda>_. review_reached u5 ids k (max 1 n)) (\<lambda>_. review_reached u5 ids k n)"
  unfolding review_store_op_def
proof (rule hoare_weaken [OF at_repo [OF reached_stable [OF assms(1)], where Q = "\<lambda>_. has_blind k"]])
  fix w x st
  assume w: "review_reached u5 ids k n w" and "(case persist_blind row (aw_store w) of Inl e \<Rightarrow> Inl (Checker_Store_Failed e) | Inr r \<Rightarrow> Inr r) = Inr (x, st)"
  then have p: "persist_blind row (aw_store w) = Inr (x, st)" by (auto split: sum.splits)
  show "review_reached u5 ids k n (w\<lparr>aw_store := st\<rparr>) \<and> has_blind k (w\<lparr>aw_store := st\<rparr>)"
  proof (cases "find_blind k (aw_store w)")
    case (Some r)
    then have "has_blind k w"
      using find_SomeD [OF Some [unfolded find_blind_def]] by (auto simp: has_blind_def review_outputs_of_def filter_empty_conv)
    with p Some assms(2) w show ?thesis by (auto simp: persist_blind_def)
  next
    case None
    then have empty: "filter (\<lambda>r. bw_key r = k) (rk_blind (aw_store w)) = []"
      by (simp add: find_blind_def find_None_iff filter_empty_conv)
    from p None assms(2) have st: "st = (aw_store w)\<lparr>rk_blind := rk_blind (aw_store w) @ [row]\<rparr>"
      by (auto simp: persist_blind_def result_simps)
    have out: "review_outputs_of k st = (review_outputs_of k (aw_store w))\<lparr>ro_blind := [row]\<rparr>"
      using empty assms(2) by (simp add: st review_outputs_of_def reviews_of_def)
    with w empty show ?thesis
      by (auto simp: review_reached_def review_inv_def review_complete_def Let_def checkpoint_fits_def has_review_def has_blind_def out
          review_rows_named_def st review_outputs_of_def split: option.splits checker_checkpoint.splits)
  qed
qed (auto simp: review_reached_def max_def)

text \<open>Pass A ends the delivery without success, or the blind row is there.\<close>

definition blind_result ::
  "(string \<Rightarrow> uuid) \<Rightarrow> uuid set \<Rightarrow> task_key3 \<Rightarrow> nat \<Rightarrow> stage_result + risk_pre_analysis \<Rightarrow>
   (checker_store, checker_checkpoint) agent_world \<Rightarrow> bool" where
  "blind_result u5 ids k n r w \<longleftrightarrow>
     review_reached u5 ids k n w \<and> (case r of Inl s \<Rightarrow> sr_status s \<noteq> Succeeded | Inr b \<Rightarrow> has_blind k w)"

abbreviation blind_run where
  "blind_run u5 ids k n p \<equiv> hoare (review_reached u5 ids k n) p (blind_result u5 ids k n) (\<lambda>_. review_reached u5 ids k n)"

lemma blind_failed:
  assumes "others_keep_review u5 ids k (ce_agent env)" "out \<noteq> Succeeded"
  shows "blind_run u5 ids k n (and_then (audited_end env t e out reason) (\<lambda>r. ret (Inl r)))"
  unfolding audited_end_def
proof (rule hoare_and_then [where R = "\<lambda>r w. review_reached u5 ids k n w \<and> sr_status r = out"])
  show "hoare (review_reached u5 ids k n) (and_then (audit_review env t e) (\<lambda>_. stage_done out reason))
      (\<lambda>r w. review_reached u5 ids k n w \<and> sr_status r = out) (\<lambda>_. review_reached u5 ids k n)"
    by (rule hoare_and_then [OF at_review_audit [OF assms(1)]]) (simp add: hoare_def stage_done_def)
qed (use assms(2) in \<open>auto simp: hoare_def blind_result_def\<close>)

lemma blind_persisted:
  assumes o: "others_keep_review u5 ids k (ce_agent env)" and "review_task_key t = k"
  shows "blind_run u5 ids k n (and_then (next_uuid (ce_agent env)) (\<lambda>row_id.
     and_then (review_store_op env (persist_blind
       \<lparr>bw_id = row_id, bw_key = review_task_key t, bw_execution_id = execution_id, bw_analysis = blind\<rparr>)) (\<lambda>(row, created).
     and_then (save_point (ce_agent env) (Ck_Blind blind)) (\<lambda>_.
     and_then (audit_review env t ''RISK_REVIEW_PRE_ANALYSIS_PERSISTED'') (\<lambda>_.
     ret (Inr (bw_analysis row)))))))"
proof -
  note st = reached_stable [OF o]
  let ?n = "max 1 n"
  have saved: "stage_at (review_reached u5 ids k) ?n (save_point (ce_agent env) (Ck_Blind blind))"
    by (rule at_review_save [OF o]) (auto simp: checkpoint_fits_def review_reached_def has_blind_def)
  have "hoare (review_reached u5 ids k ?n) (ret (Inr (bw_analysis row))) (blind_result u5 ids k n) (\<lambda>_. review_reached u5 ids k n)" for row
    by (rule hoare_ret) (auto simp: review_reached_def blind_result_def)
  then have rest: "hoare (review_reached u5 ids k ?n) (and_then (save_point (ce_agent env) (Ck_Blind blind)) (\<lambda>_.
     and_then (audit_review env t ''RISK_REVIEW_PRE_ANALYSIS_PERSISTED'') (\<lambda>_.
     ret (Inr (bw_analysis row))))) (blind_result u5 ids k n) (\<lambda>_. review_reached u5 ids k n)" for row
    by (intro then_at [OF st _ saved] then_at [OF st _ at_review_audit [OF o]]) simp_all
  show ?thesis
    by (rule then_at [OF st order_refl at_uuid [OF st]], rule then_reach [OF st order_refl at_persist_blind [OF o]])
      (use assms(2) rest in \<open>auto split: prod.split\<close>)
qed

lemma blind_inference_run:
  assumes o: "others_keep_review u5 ids k (ce_agent env)" and "review_task_key t = k"
  shows "blind_run u5 ids k n (blind_inference env t reason view)"
  unfolding blind_inference_def
proof (rule then_at [OF reached_stable [OF o] order_refl at_uuid [OF reached_stable [OF o]]],
    rule then_with [OF reached_stable [OF o] order_refl at_call [OF reached_stable [OF o]], where S = "\<lambda>_. True"])
  fix execution_id :: uuid and answer :: "gateway_failure inference_error + risk_pre_analysis"
  show "blind_run u5 ids k n (case answer of
       Inl (Endpoint_Failed Endpoint_Unavailable) \<Rightarrow>
         and_then (audited_end env t ''RISK_REVIEW_GATEWAY_UNAVAILABLE'' FailedManualReview
           ''FPT reasoning endpoint unavailable'') (\<lambda>r. ret (Inl r))
     | Inl (Rejected e) \<Rightarrow>
         if e = Output_Invalid
         then and_then (audited_end env t ''RISK_REVIEW_PRE_ANALYSIS_REJECTED'' RetryWait (ce_rejection env (Rejected e)))
           (\<lambda>r. ret (Inl r))
         else raise (Agent_Exn (Checker_Output_Failed e))
     | Inl (Endpoint_Failed Endpoint_Error) \<Rightarrow>
         and_then (audited_end env t ''RISK_REVIEW_PRE_ANALYSIS_REJECTED'' RetryWait
           (ce_rejection env (Endpoint_Failed Endpoint_Error))) (\<lambda>r. ret (Inl r))
     | Inr blind \<Rightarrow>
         and_then (next_uuid (ce_agent env)) (\<lambda>row_id.
         and_then (review_store_op env (persist_blind
           \<lparr>bw_id = row_id, bw_key = review_task_key t, bw_execution_id = execution_id, bw_analysis = blind\<rparr>)) (\<lambda>(row, created).
         and_then (save_point (ce_agent env) (Ck_Blind blind)) (\<lambda>_.
         and_then (audit_review env t ''RISK_REVIEW_PRE_ANALYSIS_PERSISTED'') (\<lambda>_.
         ret (Inr (bw_analysis row)))))))"
    by (auto split: sum.split inference_error.split gateway_failure.split
        intro!: blind_failed [OF o] blind_persisted [OF o assms(2)] hoare_raise)
qed auto

lemma resolve_run:
  assumes o: "others_keep_review u5 ids k (ce_agent env)" and "review_task_key t = k"
    and "case checkpoint of Some (Ck_Blind b) \<Rightarrow> 1 \<le> n | _ \<Rightarrow> True"
  shows "blind_run u5 ids k n (resolve_pre_analysis env t checkpoint reason)"
proof -
  note st = reached_stable [OF o]
  have ended: "blind_run u5 ids k n (ret (Inl r))" if "sr_status r \<noteq> Succeeded" for r
    by (rule hoare_ret) (use that in \<open>simp add: blind_result_def\<close>)
  have inner: "blind_run u5 ids k n (blind_pass env t reason)"
    unfolding blind_pass_def
    by (rule then_with [OF st order_refl at_read [OF st], where S = "\<lambda>_. True"])
      (auto split: option.split intro!: ended then_at [OF st order_refl at_review_manifest [OF o]] blind_inference_run [OF o assms(2)])
  have rest: "blind_run u5 ids k n (and_then (from_repo (ce_agent env) (find_blind (review_task_key t))) (\<lambda>stored. case stored of
            Some row \<Rightarrow> ret (Inr (bw_analysis row)) | None \<Rightarrow> blind_pass env t reason))"
  proof (rule hoare_and_then [where R = "\<lambda>x w. review_reached u5 ids k n w \<and> (x \<noteq> None \<longrightarrow> has_blind k w)"])
    show "hoare (review_reached u5 ids k n) (from_repo (ce_agent env) (find_blind (review_task_key t)))
        (\<lambda>x w. review_reached u5 ids k n w \<and> (x \<noteq> None \<longrightarrow> has_blind k w)) (\<lambda>_. review_reached u5 ids k n)"
      by (rule hoare_weaken [OF at_read [OF st]])
        (use assms(2) in \<open>auto simp: find_blind_def has_blind_def review_outputs_of_def filter_empty_conv dest: find_SomeD\<close>)
  next
    fix x :: "pre_analysis_row option"
    show "hoare (\<lambda>w. review_reached u5 ids k n w \<and> (x \<noteq> None \<longrightarrow> has_blind k w))
      (case x of Some row \<Rightarrow> ret (Inr (bw_analysis row)) | None \<Rightarrow> blind_pass env t reason)
      (blind_result u5 ids k n) (\<lambda>_. review_reached u5 ids k n)"
      using inner by (cases x) (auto intro: hoare_ret simp: blind_result_def)
  qed
  have kept: "blind_run u5 ids k n (ret (Inr b))" if "1 \<le> n" for b
    by (rule hoare_ret) (use that in \<open>simp add: blind_result_def review_reached_def\<close>)
  show ?thesis
    using rest kept assms(3) unfolding resolve_pre_analysis_def
    by (auto split: option.splits checker_checkpoint.splits)
qed

lemma load_checker_view_case: "load_checker_view c st = Some view \<Longrightarrow> ev_case_id view = c"
  by (auto simp: load_checker_view_def split: option.splits)

lemma review_pass_run:
  assumes ok: "review_delivery_ok u5 ids k env" "inj_on (rhid u5) ids" and key: "k = review_task_key t"
    and view: "ev_case_id view = pt_case_id t" "ev_case_version view = pt_case_version t" and "1 \<le> n" "m \<le> n"
  shows "review_run u5 ids k m n (review_pass env t reason view outputs uw lg execution_id blind)"
proof -
  have o: "others_keep_review u5 ids k (ce_agent env)" using ok(1) by (simp add: review_delivery_ok_def)
  note st = reached_stable [OF o]
  have built: "stage_at (review_reached u5 ids k) n (build_act r)" for r :: "build_error + pre_analysis"
    by (cases r) (auto simp: build_act_def intro: hoare_ret hoare_raise)
  have saved: "stage_at (review_reached u5 ids k) n (save_point (ce_agent env) Ck_Deterministic)"
    by (rule at_review_save [OF o]) (simp add: checkpoint_fits_def)
  have inp: "k = (ev_case_id (xi_view inp), ev_case_version (xi_view inp), kx_task_id (xi_run inp))"
    if "xi_view inp = view" "kx_task_id (xi_run inp) = pt_id t" for inp
    using that view key by (simp add: review_task_key_def)
  show ?thesis
    unfolding review_pass_def
    by (rule then_with [OF st \<open>m \<le> n\<close> at_read [OF st], where S = "\<lambda>_. True"], simp)
      (intro then_at [OF st \<open>m \<le> n\<close> at_stream] then_at [OF st \<open>m \<le> n\<close> built] then_at [OF st \<open>m \<le> n\<close> saved]
        then_at [OF st \<open>m \<le> n\<close> at_review_manifest [OF o]] review_inference_run [OF ok _ \<open>1 \<le> n\<close> \<open>m \<le> n\<close>] inp; simp)
qed

lemma resolved_run:
  assumes ok: "review_delivery_ok u5 ids (review_task_key t) env" "inj_on (rhid u5) ids"
    and view: "ev_case_id view = pt_case_id t" "ev_case_version view = pt_case_version t"
    and "case checkpoint of Some (Ck_Blind b) \<Rightarrow> 1 \<le> n | _ \<Rightarrow> True" "m \<le> n"
  shows "review_run u5 ids (review_task_key t) m n (and_then (resolve_pre_analysis env t checkpoint blind_reason) (\<lambda>resolved.
      case resolved of Inl ended \<Rightarrow> ret ended | Inr blind \<Rightarrow> review_pass env t reason view outputs uw lg execution_id blind))"
proof -
  let ?k = "review_task_key t"
  have o: "others_keep_review u5 ids ?k (ce_agent env)" using ok(1) by (simp add: review_delivery_ok_def)
  note st = reached_stable [OF o]
  have resolved: "hoare (review_reached u5 ids ?k n) (resolve_pre_analysis env t checkpoint blind_reason)
      (blind_result u5 ids ?k n) (\<lambda>_. review_reached u5 ids ?k m)"
    by (rule hoare_weaken [OF resolve_run [OF o refl assms(5)]]) (auto intro: stable_down [OF st _ \<open>m \<le> n\<close>])
  show ?thesis
  proof (rule hoare_and_then [OF resolved])
    fix x :: "stage_result + risk_pre_analysis"
    show "hoare (blind_result u5 ids ?k n x) (case x of Inl ended \<Rightarrow> ret ended
        | Inr blind \<Rightarrow> review_pass env t reason view outputs uw lg execution_id blind) (review_result u5 ids ?k m) (\<lambda>_. review_reached u5 ids ?k m)"
    proof (cases x)
      case (Inl r)
      then show ?thesis
        by (auto intro!: hoare_ret simp: blind_result_def dest: stable_down [OF st _ \<open>m \<le> n\<close>])
    next
      case (Inr b)
      have "review_run u5 ids ?k m (max 1 n) (review_pass env t reason view outputs uw lg execution_id b)"
        by (rule review_pass_run [OF ok refl view]) (use \<open>m \<le> n\<close> in auto)
      with Inr show ?thesis by (auto elim!: hoare_weaken simp: blind_result_def review_reached_def)
    qed
  qed
qed

lemma review_fresh:
  assumes ok: "review_delivery_ok u5 ids (review_task_key t) env" "inj_on (rhid u5) ids"
    and ck: "case checkpoint of Some (Ck_Blind b) \<Rightarrow> 1 \<le> n | _ \<Rightarrow> True" and "m \<le> n"
  shows "review_run u5 ids (review_task_key t) m n (review_fresh_run env t checkpoint)"
proof -
  let ?k = "review_task_key t"
  have o: "others_keep_review u5 ids ?k (ce_agent env)" using ok(1) by (simp add: review_delivery_ok_def)
  note st = reached_stable [OF o]
  have fails: "review_run u5 ids ?k m n (audited_end env t e out reason)" if "out \<noteq> Succeeded" for e out reason
    by (rule review_audited_end [OF o \<open>m \<le> n\<close>]) (use that in simp)
  have ends: "review_run u5 ids ?k m n (stage_done out reason)" if "out \<noteq> Succeeded" for out reason
    by (rule review_end [OF \<open>m \<le> n\<close>]) (use that in simp)
  have saved: "stage_at (review_reached u5 ids ?k) n (save_point (ce_agent env) c)" if "c \<in> {Ck_View_Built, Ck_Maker_Outputs}" for c
    by (rule at_review_save [OF o]) (use that in \<open>auto simp: checkpoint_fits_def\<close>)
  have passes: "review_run u5 ids ?k m n (case complete_outputs outputs of
                  None \<Rightarrow> audited_end env t ''RISK_REVIEW_MAKER_OUTPUTS_INCOMPLETE'' FailedManualReview
                    ''independent risk review requires both maker handoffs (READY_FOR_RISK_REVIEW from underwriting AND legal/compliance)''
                | Some (uw, lg) \<Rightarrow>
                    and_then (next_uuid (ce_agent env)) (\<lambda>execution_id.
                    if execution_id \<in> {snd uw, snd lg}
                    then audited_end env t ''RISK_REVIEW_SAME_EXECUTION_GUARD_TRIGGERED'' FailedManualReview
                      ''checker execution id must differ from every reviewed maker execution id (maker-checker separation)''
                    else
                      and_then (save_point (ce_agent env) Ck_Maker_Outputs) (\<lambda>_.
                      and_then (resolve_pre_analysis env t checkpoint blind_reason) (\<lambda>resolved.
                      case resolved of
                        Inl ended \<Rightarrow> ret ended
                      | Inr blind \<Rightarrow> review_pass env t reason view outputs uw lg execution_id blind))))"
    if "ev_case_id view = pt_case_id t" "ev_case_version view = pt_case_version t" for view outputs reason blind_reason
    by (auto split: option.split intro!: fails then_at [OF st \<open>m \<le> n\<close> at_uuid [OF st]] hoare_if
        then_at [OF st \<open>m \<le> n\<close> saved] resolved_run [OF ok that ck \<open>m \<le> n\<close>])
  show ?thesis
  proof (cases "ce_reason env"; cases "ce_blind env")
    fix reason blind_reason assume "ce_reason env = Some reason" "ce_blind env = Some blind_reason"
    then show ?thesis
      unfolding review_fresh_run_def
      by simp (rule then_with [OF st \<open>m \<le> n\<close> at_read [OF st], where S = "\<lambda>x. \<forall>view. x = Some view \<longrightarrow> ev_case_id view = pt_case_id t"],
        auto split: option.split dest: load_checker_view_case
        intro!: ends hoare_if then_at [OF st \<open>m \<le> n\<close> saved] passes
          then_with [OF st \<open>m \<le> n\<close> at_read [OF st], where S = "\<lambda>_. True"])
  qed (auto simp: review_fresh_run_def intro: fails)
qed

section \<open>Any number of deliveries\<close>

lemma process_review_run:
  assumes ok: "review_delivery_ok u5 ids (review_task_key t) env" "inj_on (rhid u5) ids"
  shows "review_run u5 ids (review_task_key t) m m (process_review t env)"
proof -
  let ?k = "review_task_key t"
  have o: "others_keep_review u5 ids ?k (ce_agent env)" using ok(1) by (simp add: review_delivery_ok_def)
  note st = reached_stable [OF o]
  let ?rest = "\<lambda>ck. and_then (from_repo (ce_agent env) (find_persisted_review ?k)) (\<lambda>existing. case existing of
            Some persisted \<Rightarrow> and_then (save_point (ce_agent env) Ck_Review_Persisted) (\<lambda>_. stage_done Succeeded [])
          | None \<Rightarrow> review_fresh_run env t ck)"
  have found: "hoare (review_reached u5 ids ?k n) (from_repo (ce_agent env) (find_persisted_review ?k))
      (\<lambda>x w. review_reached u5 ids ?k n w \<and> (x \<noteq> None \<longrightarrow> has_review ?k w)) (\<lambda>_. review_reached u5 ids ?k n)" for n
    by (rule hoare_weaken [OF at_read [OF st]])
      (auto simp: find_persisted_review_def has_review_def review_outputs_of_def find_review_None [symmetric] split: option.splits)
  have rest: "review_run u5 ids ?k m n (?rest ck)" if "case ck of Some (Ck_Blind b) \<Rightarrow> 1 \<le> n | _ \<Rightarrow> True" "m \<le> n" for n ck
  proof (rule hoare_and_then)
    show "hoare (review_reached u5 ids ?k n) (from_repo (ce_agent env) (find_persisted_review ?k))
        (\<lambda>x w. review_reached u5 ids ?k n w \<and> (x \<noteq> None \<longrightarrow> has_review ?k w)) (\<lambda>_. review_reached u5 ids ?k m)"
      by (rule hoare_weaken [OF found [of n]]) (use that(2) in \<open>auto intro: stable_down [OF st]\<close>)
  next
    fix x :: "persisted_review option"
    have saved: "stage_at (review_reached u5 ids ?k) (max 2 n) (save_point (ce_agent env) Ck_Review_Persisted)"
      by (rule at_review_save [OF o]) (auto simp: checkpoint_fits_def review_reached_def has_review_def)
    have finished: "review_run u5 ids ?k m (max 2 n) (and_then (save_point (ce_agent env) Ck_Review_Persisted) (\<lambda>_. stage_done Succeeded []))"
      by (rule then_at [OF st _ saved]) (use that(2) in \<open>auto intro: review_end\<close>)
    show "hoare (\<lambda>w. review_reached u5 ids ?k n w \<and> (x \<noteq> None \<longrightarrow> has_review ?k w)) (case x of
            Some persisted \<Rightarrow> and_then (save_point (ce_agent env) Ck_Review_Persisted) (\<lambda>_. stage_done Succeeded [])
          | None \<Rightarrow> review_fresh_run env t ck) (review_result u5 ids ?k m) (\<lambda>_. review_reached u5 ids ?k m)"
    proof (cases x)
      case None
      with review_fresh [OF ok that] show ?thesis by simp
    next
      case (Some p)
      have "max 2 n = n \<or> max 2 n = 2" by (simp add: max_def)
      moreover have "has_review ?k w \<Longrightarrow> review_reached u5 ids ?k n w \<Longrightarrow> has_blind ?k w" for w
        by (auto simp: review_reached_def review_inv_def review_complete_def has_review_def has_blind_def Let_def)
      ultimately show ?thesis using finished Some by (auto elim!: hoare_weaken simp: review_reached_def)
    qed
  qed
  have other: "process_review t env w = ?rest (aw_checkpoint w) w"
    if "\<not> (\<exists>a. aw_checkpoint w = Some (Ck_Review a))" "aw_checkpoint w \<noteq> Some Ck_Review_Persisted" for w
    using that by (cases "aw_checkpoint w"; cases "the (aw_checkpoint w)") (auto simp: process_review_def)
  show ?thesis
  proof (rule hoareI)
    fix w e w' assume h: "review_reached u5 ids ?k m w" and run: "process_review t env w = (Inl e, w')"
    show "review_reached u5 ids ?k m w'"
    proof (cases "\<exists>a. aw_checkpoint w = Some (Ck_Review a)")
      case True
      then obtain a where a: "aw_checkpoint w = Some (Ck_Review a)" by blast
      with h have "key_of (rr_provenance a) = ?k" "rr_id a \<in> ids" "review_reached u5 ids ?k (max 1 m) w"
        by (auto simp: review_reached_def review_inv_def checkpoint_fits_def max_def)
      from hoareD_Inl [OF review_persist_run [OF ok this(1,2), of "max 1 m" m] this(3)] run a show ?thesis
        by (simp add: process_review_def)
    next
      case False
      moreover from run have "aw_checkpoint w \<noteq> Some Ck_Review_Persisted" by (auto simp: process_review_def stage_done_def)
      ultimately have r: "?rest (aw_checkpoint w) w = (Inl e, w')" using run other [of w] by auto
      show ?thesis
      proof (cases "\<exists>b. aw_checkpoint w = Some (Ck_Blind b)")
        case True
        then have "review_reached u5 ids ?k (max 1 m) w" using h by (auto simp: review_reached_def review_inv_def checkpoint_fits_def max_def)
        from hoareD_Inl [OF rest this r] True show ?thesis by auto
      next
        case False
        then show ?thesis using hoareD_Inl [OF rest h r] by (auto split: option.splits checker_checkpoint.splits)
      qed
    qed
  next
    fix w r w' assume h: "review_reached u5 ids ?k m w" and run: "process_review t env w = (Inr r, w')"
    consider a where "aw_checkpoint w = Some (Ck_Review a)" | "aw_checkpoint w = Some Ck_Review_Persisted"
      | "?rest (aw_checkpoint w) w = (Inr r, w')"
      using run other [of w] by metis
    then show "review_result u5 ids ?k m r w'"
    proof cases
      case 1
      with h have "key_of (rr_provenance a) = ?k" "rr_id a \<in> ids" "review_reached u5 ids ?k (max 1 m) w"
        by (auto simp: review_reached_def review_inv_def checkpoint_fits_def max_def)
      from hoareD_Inr [OF review_persist_run [OF ok this(1,2), of "max 1 m" m] this(3)] run 1 show ?thesis
        by (simp add: process_review_def)
    next
      case 2
      with run h show ?thesis by (auto simp: process_review_def stage_done_def review_reached_def review_inv_def checkpoint_fits_def)
    next
      case 3
      show ?thesis
      proof (cases "\<exists>b. aw_checkpoint w = Some (Ck_Blind b)")
        case True
        then have "review_reached u5 ids ?k (max 1 m) w" using h by (auto simp: review_reached_def review_inv_def checkpoint_fits_def max_def)
        from hoareD_Inr [OF rest this 3] True show ?thesis by auto
      next
        case False
        then show ?thesis using hoareD_Inr [OF rest h 3] by (auto split: option.splits checker_checkpoint.splits)
      qed
    qed
  qed
qed

definition unreviewed :: "task_key3 \<Rightarrow> checker_store \<Rightarrow> bool" where
  "unreviewed k st \<longleftrightarrow>
     review_outputs_of k st = \<lparr>ro_reviews = [], ro_handoffs = [], ro_gaps = [], ro_challenges = [], ro_blind = []\<rparr>"

text \<open>
  C37: However often a review task is delivered, wherever each delivery dies and whatever the others do
  meanwhile, the task never has more than one blind pre-analysis, and it has either no review or
  exactly one, with its handoff, its gaps and its challenges, each in order and once; no
  review is there without the blind pre-analysis.  When any of the deliveries has
  reported success, the review is there.
\<close>

theorem review_exactly_once:
  assumes "inj_on (rhid u5) ids" and "list_all (review_delivery_ok u5 ids (review_task_key t)) envs"
    and "review_rows_named u5 ids (aw_store w)" "unreviewed (review_task_key t) (aw_store w)" "aw_checkpoint w = None"
    and "deliveries (process_review t) envs w = (rs, w')"
  shows "review_complete u5 (review_task_key t) (aw_store w') \<and>
    (list_ex (\<lambda>r. \<exists>s. r = Inr s \<and> sr_status s = Succeeded) rs \<longrightarrow> has_review (review_task_key t) w')"
proof -
  let ?k = "review_task_key t"
  have ok: "review_delivery_ok u5 ids ?k env" if "env \<in> set envs" for env using that assms(2) by (simp add: list_all_set)
  have "review_inv u5 ids ?k w"
    using assms(3-5) by (simp add: review_inv_def review_complete_def unreviewed_def checkpoint_fits_def)
  moreover have "hoare (review_inv u5 ids ?k) (process_review t env)
      (\<lambda>r w. review_inv u5 ids ?k w \<and> (sr_status r = Succeeded \<longrightarrow> has_review ?k w)) (\<lambda>_. review_inv u5 ids ?k)"
    if "env \<in> set envs" for env
    by (rule hoare_weaken [OF process_review_run [OF ok [OF that] assms(1), of 0]]) (auto simp: review_reached_def)
  moreover have "has_review ?k (snd (process_review t env v))"
    if "env \<in> set envs" "review_inv u5 ids ?k v" "has_review ?k v" for env v
  proof -
    have "has_blind ?k v" using that(2,3)
      by (auto simp: review_inv_def review_complete_def has_review_def has_blind_def Let_def)
    with that have "review_reached u5 ids ?k 2 v" by (simp add: review_reached_def)
    with process_review_run [OF ok [OF that(1)] assms(1), of 2] show ?thesis
      by (cases "process_review t env v"; cases "fst (process_review t env v)") (fastforce simp: hoare_def review_reached_def)+
  qed
  ultimately have "review_inv u5 ids ?k w' \<and>
      (has_review ?k w \<or> (\<exists>r. Inr r \<in> set rs \<and> sr_status r = Succeeded) \<longrightarrow> has_review ?k w')"
    using deliveries_invariant [of envs "review_inv u5 ids ?k" "process_review t" "\<lambda>r. sr_status r = Succeeded"
      "has_review ?k" w rs w'] assms(6) by blast
  then show ?thesis by (auto simp: review_inv_def list_ex_iff)
qed

text \<open>
  C38: When the blind pass finds that another delivery has stored an analysis meanwhile, it goes on with
  the stored one, but its checkpoint carries its own: a later delivery that resumes from that
  checkpoint reviews the case with an analysis that is not the durable one.
\<close>

theorem blind_checkpoint_diverges:
  assumes "blind_inference env t reason view w = (Inr (Inr stored), w')" "infer_pre_analysis reason view = Inr own" "stored \<noteq> own"
  shows "aw_checkpoint w' = Some (Ck_Blind own) \<and>
    (\<forall>env' v. fst (resolve_pre_analysis env' t (aw_checkpoint w') reason v) = Inr (Inr own))"
proof -
  let ?I = "\<lambda>w :: (checker_store, checker_checkpoint) agent_world. aw_checkpoint w = Some (Ck_Blind own)"
  have keep: "hoare ?I (audit_review env t e) (\<lambda>_. ?I) (\<lambda>_. ?I)" for e
    unfolding audit_review_def review_store_op_def on_repo_def
    by (rule hoare_and_then [OF _ hoare_external]) (auto simp: hoare_def next_uuid_def undisturbed_def interfered_def)
  have answered: "y = x" if "call_gateway env' x v = (Inr y, v')" for env' and x y :: "gateway_failure inference_error + risk_pre_analysis"
      and v v' :: "(checker_store, checker_checkpoint) agent_world"
    using that by (auto simp: call_gateway_def external_def split: fault.splits)
  from assms(1) obtain execution_id v1 v2 answer where
    "call_gateway (ce_agent env) (infer_pre_analysis reason view) v1 = (Inr answer :: checker_failure agent_exn + _, v2)" and
    rest: "(case answer of
       Inl (Endpoint_Failed Endpoint_Unavailable) \<Rightarrow>
         and_then (audited_end env t ''RISK_REVIEW_GATEWAY_UNAVAILABLE'' FailedManualReview
           ''FPT reasoning endpoint unavailable'') (\<lambda>r. ret (Inl r))
     | Inl (Rejected e) \<Rightarrow>
         if e = Output_Invalid
         then and_then (audited_end env t ''RISK_REVIEW_PRE_ANALYSIS_REJECTED'' RetryWait (ce_rejection env (Rejected e)))
           (\<lambda>r. ret (Inl r))
         else raise (Agent_Exn (Checker_Output_Failed e))
     | Inl (Endpoint_Failed Endpoint_Error) \<Rightarrow>
         and_then (audited_end env t ''RISK_REVIEW_PRE_ANALYSIS_REJECTED'' RetryWait
           (ce_rejection env (Endpoint_Failed Endpoint_Error))) (\<lambda>r. ret (Inl r))
     | Inr blind \<Rightarrow>
         and_then (next_uuid (ce_agent env)) (\<lambda>row_id.
         and_then (review_store_op env (persist_blind
           \<lparr>bw_id = row_id, bw_key = review_task_key t, bw_execution_id = execution_id, bw_analysis = blind\<rparr>)) (\<lambda>(row, created).
         and_then (save_point (ce_agent env) (Ck_Blind blind)) (\<lambda>_.
         and_then (audit_review env t ''RISK_REVIEW_PRE_ANALYSIS_PERSISTED'') (\<lambda>_.
         ret (Inr (bw_analysis row))))))) v2 = (Inr (Inr stored), w')"
    unfolding blind_inference_def and_then_Inr [where m = "next_uuid (ce_agent env)" and s = w]
      and_then_Inr [where m = "call_gateway e x" for e x] by blast
  from answered [OF this(1)] assms(2) have answer: "answer = Inr own" by simp
  from rest [unfolded answer sum.case] obtain row :: pre_analysis_row and w1 w2 where
    "save_point (ce_agent env) (Ck_Blind own) w1 = (Inr () :: checker_failure agent_exn + unit, w2)"
    "audit_review env t ''RISK_REVIEW_PRE_ANALYSIS_PERSISTED'' w2 = (Inr (), w')" "stored = bw_analysis row"
    by (auto simp: and_then_Inr split: prod.splits)
  moreover from this(1) have "?I w2" by (auto simp: save_point_def external_def split: fault.splits)
  ultimately have "?I w'" using hoareD_Inr [OF keep] by blast
  then show ?thesis by (simp add: resolve_pre_analysis_def)
qed

end
