(* ===== verification/Checker_Samples.thy ===== *)
theory Checker_Samples
  imports Checker_Delivery Pre_Analysis Maker_Resume
begin

text \<open>Sample deliveries of a review task: a crash right after the blind pass, a competitor's row, a missing endpoint.\<close>

definition sample_own :: risk_pre_analysis where
  "sample_own = \<lparr>bp_risks = [\<lparr>ir_description = ''x'', ir_citations = [5], ir_severity = HIGH,
      ir_confidence = LOW_CONFIDENCE\<rparr>], bp_observations = []\<rparr>"

definition sample_blind_reason :: "json_schema \<Rightarrow> json \<Rightarrow> gateway_failure + json \<times> string \<times> string" where
  "sample_blind_reason s c = Inr (sample_blind_payload, ''m'', ''e'')"

definition sample_checker_store :: checker_store where
  "sample_checker_store =
     \<lparr>rk_cases = [(7, 2)],
      rk_facts = map (\<lambda>f. \<lparr>cf_id = ef_id f, cf_case_id = 7, cf_case_version = 2, cf_field_key = ef_field_key f,
        cf_value = ef_value f, cf_document_version_id = ef_document_version_id f, cf_stale_at = None\<rparr>) (ev_facts sample_view),
      rk_underwriting = [sample_underwriting ''a''], rk_legal = [sample_legal], rk_reviews = [], rk_challenges = [], rk_blind = [],
      rk_gaps = [],
      rk_handoffs = [\<lparr>gh_id = 101, gh_key = (7, 2, 3), gh_state = risk_review_state, gh_data = [], gh_created_by = ''c'', gh_stale_at = None\<rparr>],
      rk_dispositions = [], rk_audit = [], rk_clock = 70, rk_uuids = (\<lambda>n. 50 + n), rk_drawn = 0\<rparr>"

definition sample_review_task :: processing_task where
  "sample_review_task = sample_maker_task\<lparr>pt_id := 4, pt_case_version := 2, pt_task_type := INDEPENDENT_RISK_REVIEW\<rparr>"

definition sample_checker_env ::
  "(json_schema \<Rightarrow> gateway_failure + json \<times> string \<times> string) option \<Rightarrow> (nat \<Rightarrow> fault) \<Rightarrow> (nat \<Rightarrow> checker_store \<Rightarrow> checker_store) \<Rightarrow>
   checker_env" where
  "sample_checker_env reason faults others =
     \<lparr>ce_agent = \<lparr>ae_uuid = (\<lambda>n. 60 + n), ae_fault = faults, ae_others = others\<rparr>, ce_streams = (\<lambda>n m. 9),
      ce_blind = Some sample_blind_reason, ce_reason = reason, ce_governed = False, ce_blind_hash = (\<lambda>_. []),
      ce_review_hash = (\<lambda>_ _ _. []), ce_uuid5 = (\<lambda>_. 0), ce_now = 200, ce_rejection = (\<lambda>_. ''rejected'')\<rparr>"

definition sample_checker_world :: "(checker_store, checker_checkpoint) agent_world" where
  "sample_checker_world =
     \<lparr>aw_store = sample_checker_store, aw_checkpoint = None, aw_manifests = [], aw_calls = 0, aw_drawn = 0, aw_ticks = 0\<rparr>"

lemma sample_blind_inference: "infer_pre_analysis sample_blind_reason sample_view = Inr sample_own"
proof -
  have facts: "fact_ids sample_view = map str_uuid [5, 6]" by (simp add: fact_ids_def sample_view_def)
  show ?thesis
    by (simp add: infer_pre_analysis_def sample_blind_reason_def sample_own_def sample_blind_payload_def build_pre_analysis_def facts
        rejected_output_def independent_risk_from_def pre_analysis_citations_from_def pre_analysis_citation_def parse_str_uuid
        enum_of_def challenge_severities_def confidence_levels_def validated_def independent_risk_ok_def sized_def
        list_field_def listed_def text_of_def get_or_def maker_artifact_kinds_def rejecting_def Let_def)
qed

lemma sample_checker_view:
  "rk_cases st = rk_cases sample_checker_store \<Longrightarrow> rk_facts st = rk_facts sample_checker_store \<Longrightarrow> rk_clock st = 70 \<Longrightarrow>
   load_checker_view 7 st = Some sample_view"
  by (simp add: load_checker_view_def sample_checker_store_def sample_view_def fact_of_row_def)

lemma sample_outputs_complete:
  "complete_outputs (load_maker_outputs 7 2 sample_checker_store) = Some ((sample_underwriting ''a'', 31), sample_legal, 32)"
  by (simp add: load_maker_outputs_def reviewable_output_def complete_outputs_def sample_checker_store_def latest_def
      sample_underwriting_def sample_legal_def sample_provenance_def find_ready_handoff_def Let_def)

lemmas sample_review_simps = process_review_def review_fresh_run_def resolve_pre_analysis_def blind_pass_def blind_inference_def
  review_manifest_def audited_end_def audit_review_def review_store_op_def on_repo_def from_repo_def save_point_def call_gateway_def
  next_uuid_def external_def interfered_def stage_done_def and_then_def sample_checker_env_def

definition blind_row :: pre_analysis_row where
  "blind_row = \<lparr>bw_id = 62, bw_key = (7, 2, 4), bw_execution_id = 61, bw_analysis = sample_own\<rparr>"

definition crashed_after_blind :: "(checker_store, checker_checkpoint) agent_world" where
  "crashed_after_blind =
     \<lparr>aw_store = sample_checker_store\<lparr>rk_blind := [blind_row]\<rparr>, aw_checkpoint = Some (Ck_Blind sample_own), aw_manifests = [],
      aw_calls = 1, aw_drawn = 3, aw_ticks = 10\<rparr>"

lemma sample_crash:
  "process_review sample_review_task (sample_checker_env (Some (\<lambda>_. Inl Endpoint_Error)) (dies_at 9) (\<lambda>_ st. st)) sample_checker_world =
     (Inl Crashed, crashed_after_blind)"
proof -
  have none: "find_persisted_review (7, 2, 4) sample_checker_store = None" "find_blind (7, 2, 4) sample_checker_store = None"
    by (simp_all add: find_persisted_review_def find_review_def find_blind_def sample_checker_store_def)
  have view: "load_checker_view 7 sample_checker_store = Some sample_view" by (rule sample_checker_view) (simp_all add: sample_checker_store_def)
  have v: "ev_case_version sample_view = 2" by (simp add: sample_view_def)
  have task: "review_task_key sample_review_task = (7, 2, 4)" "pt_case_id sample_review_task = 7" "pt_case_version sample_review_task = 2"
    "pt_id sample_review_task = 4"
    by (simp_all add: review_task_key_def sample_review_task_def sample_maker_task_def)
  have row: "persist_blind \<lparr>bw_id = 62, bw_key = (7, 2, 4), bw_execution_id = 61, bw_analysis = sample_own\<rparr> sample_checker_store =
      Inr ((blind_row, True), sample_checker_store\<lparr>rk_blind := [blind_row]\<rparr>)"
    by (simp add: persist_blind_def none blind_row_def) (simp add: sample_checker_store_def)
  show ?thesis
    by (simp add: sample_review_simps sample_checker_world_def dies_at_def none view v task sample_outputs_complete
        sample_blind_inference load_blind_view_def row crashed_after_blind_def)
qed

theorem review_exactly_once_witness:
  "\<exists>rs w'. deliveries (process_review sample_review_task)
      [sample_checker_env (Some (\<lambda>_. Inl Endpoint_Error)) (dies_at 9) (\<lambda>_ st. st), sample_checker_env None (dies_at 9) (\<lambda>_ st. st)] sample_checker_world = (rs, w') \<and>
    review_complete (\<lambda>_. 0) (7, 2, 4) (aw_store w') \<and> fst (deliveries (process_review sample_review_task)
      [sample_checker_env (Some (\<lambda>_. Inl Endpoint_Error)) (dies_at 9) (\<lambda>_ st. st)] sample_checker_world) = [Inl Crashed]"
proof -
  let ?envs = "[sample_checker_env (Some (\<lambda>_. Inl Endpoint_Error)) (dies_at 9) (\<lambda>_ st. st), sample_checker_env None (dies_at 9) (\<lambda>_ st. st)]"
  obtain rs w' where run: "deliveries (process_review sample_review_task) ?envs sample_checker_world = (rs, w')" by fastforce
  have task: "review_task_key sample_review_task = (7, 2, 4)" by (simp add: review_task_key_def sample_review_task_def sample_maker_task_def)
  have "list_all (review_delivery_ok (\<lambda>_. 0) {9} (7, 2, 4)) ?envs"
    by (simp add: review_delivery_ok_def others_keep_review_def sample_checker_env_def)
  moreover have "review_rows_named (\<lambda>_. 0) {9} (aw_store sample_checker_world)" "unreviewed (7, 2, 4) (aw_store sample_checker_world)"
    by (simp_all add: review_rows_named_def unreviewed_def review_outputs_of_def reviews_of_def sample_checker_world_def
        sample_checker_store_def rhid_def)
  ultimately have "review_complete (\<lambda>_. 0) (7, 2, 4) (aw_store w')"
    using review_exactly_once [of "\<lambda>_. 0" "{9}" sample_review_task ?envs sample_checker_world rs w'] run
    by (simp add: task sample_checker_world_def)
  with run show ?thesis by (simp add: sample_crash)
qed

text \<open>A competitor stores its analysis between the answer of the model and the write.\<close>

definition competitor_row :: pre_analysis_row where
  "competitor_row = \<lparr>bw_id = 90, bw_key = (7, 2, 4), bw_execution_id = 91, bw_analysis = \<lparr>bp_risks = [], bp_observations = []\<rparr>\<rparr>"

theorem blind_checkpoint_diverges_witness:
  "\<exists>w'. blind_inference (sample_checker_env None (\<lambda>_. No_Fault) (\<lambda>n st. if n = 1 then st\<lparr>rk_blind := [competitor_row]\<rparr> else st))
      sample_review_task sample_blind_reason sample_view sample_checker_world = (Inr (Inr (bw_analysis competitor_row)), w') \<and>
    aw_checkpoint w' = Some (Ck_Blind sample_own) \<and> sample_own \<noteq> bw_analysis competitor_row"
proof -
  let ?env = "sample_checker_env None (\<lambda>_. No_Fault) (\<lambda>n st. if n = 1 then st\<lparr>rk_blind := [competitor_row]\<rparr> else st)"
  have task: "review_task_key sample_review_task = (7, 2, 4)" by (simp add: review_task_key_def sample_review_task_def sample_maker_task_def)
  have "\<exists>w'. blind_inference ?env sample_review_task sample_blind_reason sample_view sample_checker_world =
      (Inr (Inr (bw_analysis competitor_row)), w')"
    by (simp add: sample_review_simps sample_checker_world_def task sample_blind_inference persist_blind_def find_blind_def competitor_row_def)
  then obtain w' where run: "blind_inference ?env sample_review_task sample_blind_reason sample_view sample_checker_world =
      (Inr (Inr (bw_analysis competitor_row)), w')" by blast
  have "bw_analysis competitor_row \<noteq> sample_own" by (simp add: competitor_row_def sample_own_def)
  with blind_checkpoint_diverges [OF run sample_blind_inference] run show ?thesis by auto
qed

end
