(* ===== verification/Review_Ledger.thy ===== *)
theory Review_Ledger
  imports Checker_Delivery Api_Access "HOL-Library.Sublist"
begin

text \<open>
  The review tables as people see them: the steps that may change them, the law the dispositions
  obey under every step, and the status of G3 derived from a review and its dispositions.
\<close>

section \<open>The steps of the tables\<close>

text \<open>
  A disposition is filed by a risk reviewer, a review is persisted by the checker; everything else
  leaves reviews, challenges and dispositions alone.
\<close>

inductive review_step :: "checker_store \<Rightarrow> checker_store \<Rightarrow> bool" where
  disposed: "record_disposition i a ch type why actor RISK_REVIEWER_ROLE st = Inr (d, st') \<Longrightarrow> review_step st st'"
| reviewed: "persist_review a h state gaps st = Inr (p, st') \<Longrightarrow> review_step st st'"
| elsewhere: "rk_reviews st' = rk_reviews st \<Longrightarrow> rk_challenges st' = rk_challenges st \<Longrightarrow>
    rk_dispositions st' = rk_dispositions st \<Longrightarrow> review_step st st'"

inductive_cases review_stepE: "review_step st st'"

definition bound_disposition :: "checker_store \<Rightarrow> disposition_row \<Rightarrow> bool" where
  "bound_disposition st d \<longleftrightarrow>
     dp_type d \<in> set disposition_types \<and> not_blank (dp_rationale d) \<and> dp_actor_role d = RISK_REVIEWER_ROLE \<and>
     list_ex (\<lambda>a. rr_id a = dp_assessment_id d \<and> pv_case_id (rr_provenance a) = dp_case_id d \<and>
         pv_case_version (rr_provenance a) = dp_case_version d \<and>
         (case dp_challenge_id d of None \<Rightarrow> dp_type d = ''NOTED'' | Some i \<Rightarrow> i \<in> ch_id ` set (rr_challenges a)))
       (map fst (rk_reviews st))"

definition challenges_of :: "checker_store \<Rightarrow> risk_review \<Rightarrow> challenge list" where
  "challenges_of st a = map cr_challenge (filter (\<lambda>r. cr_assessment_id r = rr_id a) (rk_challenges st))"

definition reviews_lawful :: "checker_store \<Rightarrow> bool" where
  "reviews_lawful st \<longleftrightarrow>
     distinct (map (rr_id \<circ> fst) (rk_reviews st)) \<and>
     distinct (map (ch_id \<circ> cr_challenge) (rk_challenges st)) \<and>
     list_all (\<lambda>a. challenges_of st a = rr_challenges a) (map fst (rk_reviews st)) \<and>
     list_all (\<lambda>r. cr_assessment_id r \<in> (rr_id \<circ> fst) ` set (rk_reviews st)) (rk_challenges st) \<and>
     distinct (map dp_id (rk_dispositions st)) \<and>
     list_all (bound_disposition st) (rk_dispositions st)"

section \<open>Every step keeps the law\<close>

lemma record_disposition_Inr:
  "record_disposition i x ch type why actor role st = Inr (d, st') \<longleftrightarrow>
   (\<exists>a. find (\<lambda>a. rr_id a = x) (map fst (rk_reviews st)) = Some a \<and>
      d = \<lparr>dp_id = i, dp_assessment_id = x, dp_case_id = pv_case_id (rr_provenance a),
           dp_case_version = pv_case_version (rr_provenance a), dp_challenge_id = ch, dp_type = type,
           dp_rationale = why, dp_actor_id = actor, dp_actor_role = role\<rparr> \<and>
      disposition_row_ok st d \<and> st' = st\<lparr>rk_dispositions := rk_dispositions st @ [d]\<rparr>)"
  by (auto simp: record_disposition_def Let_def result_simps split: option.splits)

lemma disposed_bound:
  assumes "reviews_lawful st" "record_disposition i x ch type why actor RISK_REVIEWER_ROLE st = Inr (d, st')"
  shows "bound_disposition st d"
proof -
  from assms(2) obtain a where a: "find (\<lambda>a. rr_id a = x) (map fst (rk_reviews st)) = Some a"
    and d: "d = \<lparr>dp_id = i, dp_assessment_id = x, dp_case_id = pv_case_id (rr_provenance a),
           dp_case_version = pv_case_version (rr_provenance a), dp_challenge_id = ch, dp_type = type,
           dp_rationale = why, dp_actor_id = actor, dp_actor_role = RISK_REVIEWER_ROLE\<rparr>"
    and row: "disposition_row_ok st d" unfolding record_disposition_Inr by blast
  from a have mem: "a \<in> set (map fst (rk_reviews st))" and x: "rr_id a = x"
    by (auto simp: find_Some_iff)
  have "i' \<in> ch_id ` set (rr_challenges a)" if "ch = Some i'" for i'
  proof -
    from row that d obtain r where "r \<in> set (rk_challenges st)" "ch_id (cr_challenge r) = i'" "cr_assessment_id r = rr_id a"
      by (auto simp: disposition_row_ok_def list_ex_iff x)
    then have "cr_challenge r \<in> set (challenges_of st a)" by (auto simp: challenges_of_def)
    moreover have "challenges_of st a = rr_challenges a"
      using assms(1) mem by (auto simp: reviews_lawful_def list_all_iff)
    ultimately show ?thesis using \<open>ch_id (cr_challenge r) = i'\<close> by force
  qed
  with mem x d row show ?thesis
    by (auto simp: bound_disposition_def disposition_row_ok_def list_ex_iff split: option.splits)
qed

lemma disposed_lawful:
  assumes "reviews_lawful st" "record_disposition i x ch type why actor RISK_REVIEWER_ROLE st = Inr (d, st')"
  shows "reviews_lawful st' \<and> rk_dispositions st' = rk_dispositions st @ [d] \<and> rk_reviews st' = rk_reviews st"
proof -
  from assms(2) have st': "st' = st\<lparr>rk_dispositions := rk_dispositions st @ [d]\<rparr>" and row: "disposition_row_ok st d"
    unfolding record_disposition_Inr by blast+
  have "bound_disposition st' = bound_disposition st" by (simp add: st' bound_disposition_def fun_eq_iff)
  moreover have "challenges_of st' = challenges_of st" by (simp add: st' challenges_of_def fun_eq_iff)
  ultimately show ?thesis using assms(1) disposed_bound [OF assms] row
    by (simp add: reviews_lawful_def st' disposition_row_ok_def)
qed

lemma insert_challenges_distinct:
  "insert_challenges a chs st = Inr st' \<Longrightarrow> distinct (map (ch_id \<circ> cr_challenge) (rk_challenges st)) \<Longrightarrow>
   distinct (map (ch_id \<circ> cr_challenge) (rk_challenges st'))"
proof (induction chs arbitrary: st)
  case (Cons ch chs)
  then show ?case by (auto simp: result_simps)
qed simp

lemma persist_review_lawful:
  assumes "reviews_lawful st" "persist_review a h state gaps st = Inr (p, st')"
  shows "reviews_lawful st' \<and> rk_dispositions st' = rk_dispositions st"
proof (cases "find_review (key_of (rr_provenance a)) st")
  case (Some b)
  with assms show ?thesis by (auto simp: persist_review_def Let_def result_simps split: option.splits)
next
  case None
  let ?st = "st\<lparr>rk_reviews := rk_reviews st @ [(a, rk_clock st)]\<rparr>"
  from assms(2) None obtain st1 st2 where new: "rr_id a \<notin> (rr_id \<circ> fst) ` set (rk_reviews st)"
    and ins: "insert_challenges (rr_id a) (rr_challenges a) ?st = Inr st1"
    and gap: "insert_review_gaps (key_of (rr_provenance a)) gaps st1 = Inr st2" and st': "st' = insert_review_handoff h state a st2"
    by (auto simp: persist_review_def Let_def result_simps)
  from insert_challenges_effect [OF ins] insert_review_gaps_effect [OF gap]
  have eff: "rk_reviews st' = rk_reviews st @ [(a, rk_clock st)]" "rk_dispositions st' = rk_dispositions st"
    "rk_challenges st' = rk_challenges st @ map (\<lambda>ch. \<lparr>cr_assessment_id = rr_id a, cr_challenge = ch\<rparr>) (rr_challenges a)"
    by (auto simp: st' insert_review_handoff_def)
  have ch: "rk_challenges st1 = rk_challenges st'" using insert_challenges_effect [OF ins] eff(3) by simp
  have old: "challenges_of st' b = challenges_of st b" if "b \<in> set (map fst (rk_reviews st))" for b
    using that new by (auto simp: challenges_of_def eff filter_empty_conv o_def)
  have "filter (\<lambda>r. cr_assessment_id r = rr_id a) (rk_challenges st) = []"
    using assms(1) new by (force simp: filter_empty_conv reviews_lawful_def list_all_iff)
  then have mine: "challenges_of st' a = rr_challenges a" by (simp add: challenges_of_def eff o_def)
  have "bound_disposition st d \<Longrightarrow> bound_disposition st' d" for d
    by (auto simp: bound_disposition_def eff)
  moreover have "distinct (map (ch_id \<circ> cr_challenge) (rk_challenges st'))"
    using insert_challenges_distinct [OF ins] assms(1) by (simp add: ch reviews_lawful_def)
  ultimately show ?thesis using assms(1) new old mine
    by (auto simp: reviews_lawful_def eff list_all_iff)
qed

lemma review_step_lawful:
  assumes "review_step st st'" "reviews_lawful st"
  shows "reviews_lawful st' \<and> prefix (rk_dispositions st) (rk_dispositions st')"
  using assms(1)
proof cases
  case (disposed i a ch type why actor d)
  with disposed_lawful [OF assms(2)] show ?thesis by fastforce
next
  case reviewed
  with persist_review_lawful [OF assms(2)] show ?thesis by force
next
  case elsewhere
  then have "bound_disposition st' = bound_disposition st" "challenges_of st' = challenges_of st"
    by (simp_all add: bound_disposition_def challenges_of_def fun_eq_iff)
  with elsewhere assms(2) show ?thesis by (simp add: reviews_lawful_def)
qed

end
