(* ===== verification/Review_Api.thy ===== *)
theory Review_Api
  imports Review_Ledger Api_Sample
begin

text \<open>
  The handlers of \<open>api/risk_review.py\<close>: the status of the latest review with the G3 derived from its
  dispositions, and the dispositions a risk reviewer records, each of which derives G3 again and
  may open the revision of the makers' work.
\<close>

section \<open>G3 from a review and its dispositions\<close>

text \<open>The items of a Python dict built from a list: the keys in the order of their first insertion.\<close>

definition py_items :: "('k \<times> 'v) list \<Rightarrow> ('k \<times> 'v) list" where
  "py_items kvs = map (\<lambda>k. (k, the (py_dict kvs k))) (rev (remdups (rev (map fst kvs))))"

definition severities_of :: "risk_review \<Rightarrow> (uuid \<times> challenge_severity) list" where
  "severities_of a = py_items (map (\<lambda>ch. (ch_id ch, ch_severity ch)) (rr_challenges a))"

definition on_challenges :: "disposition_row list \<Rightarrow> (uuid \<times> string) list" where
  "on_challenges ds = map (\<lambda>d. (the (dp_challenge_id d), dp_type d)) (filter (\<lambda>d. dp_challenge_id d \<noteq> None) ds)"

definition on_assessment :: "disposition_row list \<Rightarrow> disposition_row list" where
  "on_assessment ds = filter (\<lambda>d. dp_challenge_id d = None) ds"

definition review_gate_status :: "risk_review \<Rightarrow> disposition_row list \<Rightarrow> gate_status" where
  "review_gate_status a ds =
     derive_g3_status True (severities_of a) (on_challenges ds) (map_option dp_type (latest (on_assessment ds)))
       g3_severity_threshold"

section \<open>The handlers\<close>

type_synonym ('o, 'a) review_handler = "('o, checker_store, agent_store_error, 'a) case_handler"

record review_status =
  vs_review :: latest_review
  vs_challenges :: "(challenge \<times> disposition_row list) list"
  vs_assessment_level :: "disposition_row list"
  vs_unresolved :: nat
  vs_gate_status :: gate_status

definition get_risk_review :: "('o, checker_store) api_env \<Rightarrow> uuid \<Rightarrow> actor \<Rightarrow> ('o, review_status) review_handler" where
  "get_risk_review env c a =
     and_then (require_reader CASE_PARTICIPANT_ROLES a) (\<lambda>_.
     and_then (assigned_version env a c) (\<lambda>_.
     and_then (on_tables env (reading (load_latest_review c))) (\<lambda>loaded.
     and_then (found (ApiException 404 ''RISK_REVIEW_NOT_AVAILABLE'') loaded) (\<lambda>latest_row.
     let review = lv_review latest_row in
     and_then (on_tables env (reading (load_dispositions c (pv_case_version (rr_provenance review))))) (\<lambda>ds.
     let challenges = map (\<lambda>ch. (ch, filter (\<lambda>d. dp_challenge_id d = Some (ch_id ch)) ds)) (rr_challenges review)
     in ret \<lparr>vs_review = latest_row, vs_challenges = challenges, vs_assessment_level = on_assessment ds,
             vs_unresolved = length (filter (\<lambda>(_, bound). bound = []) challenges),
             vs_gate_status = review_gate_status review ds\<rparr>)))))"

text \<open>The text of a request is stripped and not empty.  \<open>wired\<close>: the orchestration repository is configured.\<close>

record disposition_request =
  rd_type :: string
  rd_rationale :: string

definition maybe_satisfy_g3 ::
  "('o, checker_store) api_env \<Rightarrow> bool \<Rightarrow> risk_review \<Rightarrow> actor \<Rightarrow> ('o, unit) review_handler" where
  "maybe_satisfy_g3 env wired review a =
     (let c = pv_case_id (rr_provenance review); v = pv_case_version (rr_provenance review) in
      if \<not> wired then ret ()
      else
        and_then (on_tables env (reading (load_dispositions c v))) (\<lambda>ds.
        if review_gate_status review ds \<noteq> SATISFIED then ret ()
        else
          and_then (satisfy_human_gate env c v G3_RISK_DISPOSITION a
            (''risk-review-assessment:'' @ str_uuid (rr_id review))) (\<lambda>_.
          retick_case env c (''G3:'' @ str_uuid (rr_id review)))))"

definition maybe_request_revision ::
  "('o, checker_store) api_env \<Rightarrow> bool \<Rightarrow> risk_review \<Rightarrow> actor \<Rightarrow> disposition_row \<Rightarrow> ('o, unit) review_handler" where
  "maybe_request_revision env wired review a d w =
     (let c = pv_case_id (rr_provenance review); v = pv_case_version (rr_provenance review) in
      if \<not> wired then ret () w
      else attempt
        (and_then (on_case env (request_maker_revision (en_repo env) (en_kickoff env (wo_ticks w)) c v
           (dp_id d) (ac_actor_id a) (dp_rationale d))) (\<lambda>_.
         on_case env (\<lambda>orch. (Inr (), en_dispatch env orch))))
        (\<lambda>_. ret ()) w)"

definition file_disposition ::
  "('o, checker_store) api_env \<Rightarrow> bool \<Rightarrow> uuid \<Rightarrow> uuid option \<Rightarrow> disposition_request \<Rightarrow> actor \<Rightarrow>
   ('o, disposition_row) review_handler" where
  "file_disposition env wired c challenge body a =
     and_then (check_act (rd_type body \<in> set disposition_types) (ApiException 422 ''INVALID_DISPOSITION_TYPE'')) (\<lambda>_.
     and_then (on_tables env (reading (load_latest_review c))) (\<lambda>loaded.
     and_then (found (ApiException 404 ''RISK_REVIEW_NOT_AVAILABLE'') loaded) (\<lambda>latest_row.
     let review = lv_review latest_row in
     and_then (check_act (case challenge of None \<Rightarrow> True | Some i \<Rightarrow> i \<in> ch_id ` set (rr_challenges review))
       (ApiException 404 ''CHALLENGE_NOT_FOUND'')) (\<lambda>_.
     and_then (drawn_uuid env) (\<lambda>i.
     and_then (on_error (\<lambda>e. Uncaught (Table_Refused e)) (on_tables env (atomically
       (record_disposition i (rr_id review) challenge (rd_type body) (rd_rationale body) (ac_actor_id a) RISK_REVIEWER_ROLE)))) (\<lambda>d.
     and_then (maybe_satisfy_g3 env wired review a) (\<lambda>_.
     and_then (if challenge \<noteq> None \<and> rd_type body = ''MAKER_MUST_REVISE''
       then maybe_request_revision env wired review a d else ret ()) (\<lambda>_.
     ret d))))))))"

definition record_challenge_disposition ::
  "('o, checker_store) api_env \<Rightarrow> bool \<Rightarrow> uuid \<Rightarrow> uuid \<Rightarrow> disposition_request \<Rightarrow> actor \<Rightarrow> ('o, disposition_row) review_handler" where
  "record_challenge_disposition env wired c challenge body a =
     and_then (require_role a RISK_REVIEWER_ROLE) (\<lambda>_.
     and_then (assigned_version env a c) (\<lambda>_.
     file_disposition env wired c (Some challenge) body a))"

definition record_assessment_disposition ::
  "('o, checker_store) api_env \<Rightarrow> bool \<Rightarrow> uuid \<Rightarrow> disposition_request \<Rightarrow> actor \<Rightarrow> ('o, disposition_row) review_handler" where
  "record_assessment_disposition env wired c body a =
     and_then (require_role a RISK_REVIEWER_ROLE) (\<lambda>_.
     and_then (check_act (rd_type body = ''NOTED'') (ApiException 422 ''INVALID_DISPOSITION_TYPE'')) (\<lambda>_.
     and_then (assigned_version env a c) (\<lambda>_.
     file_disposition env wired c None body a)))"

section \<open>The handlers follow the steps of the tables\<close>

lemma step_disposed:
  "record_disposition i x ch type why actor RISK_REVIEWER_ROLE st = Inr (d, st') \<Longrightarrow> review_step\<^sup>*\<^sup>* st st'"
  by (rule r_into_rtranclp, erule disposed)

lemma follows_choice [following]: "follows R m \<Longrightarrow> follows R n \<Longrightarrow> follows R (if b then m else n)"
  by simp

lemma revision_follows [following]:
  assumes "others_follow R env"
  shows "follows R (maybe_request_revision env wired review a d)"
proof (cases wired)
  case True
  let ?c = "pv_case_id (rr_provenance review)" and ?v = "pv_case_version (rr_provenance review)"
  have "follows R (attempt
      (and_then (on_case env (request_maker_revision (en_repo env) k ?c ?v (dp_id d) (ac_actor_id a) (dp_rationale d)))
        (\<lambda>_. on_case env (\<lambda>orch. (Inr (), en_dispatch env orch)))) (\<lambda>_. ret ()))" for k
    by (intro following assms)
  with True show ?thesis unfolding follows_def maybe_request_revision_def Let_def by simp blast
qed (simp add: follows_def maybe_request_revision_def)

lemma satisfy_g3_follows [following]:
  "others_follow R env \<Longrightarrow> follows R (maybe_satisfy_g3 env wired review a)"
  unfolding maybe_satisfy_g3_def Let_def by (intro following)

lemma file_follows [following]:
  assumes "others_follow review_step env"
  shows "follows review_step (file_disposition env wired c challenge body a)"
  unfolding file_disposition_def Let_def
  by (intro following assms follows_atomically) (erule step_disposed)

lemma review_handlers_follow:
  assumes "others_follow review_step env"
  shows "follows review_step (record_challenge_disposition env wired c i body a)"
    "follows review_step (record_assessment_disposition env wired c body a)"
    "follows review_step (get_risk_review env c a)"
  unfolding record_challenge_disposition_def record_assessment_disposition_def get_risk_review_def Let_def
  by (intro following assms)+

definition review_record :: "disposition_row list \<Rightarrow> checker_store \<Rightarrow> bool" where
  "review_record ds st \<longleftrightarrow> reviews_lawful st \<and> prefix ds (rk_dispositions st)"

lemma review_handler_keeps: "follows review_step m \<Longrightarrow> keeps (\<lambda>w. review_record ds (wo_store w)) m"
  by (erule follows_keeps) (auto simp: review_record_def dest: review_step_lawful intro: prefix_order.trans)

text \<open>
  C19: Under any interference that takes the steps of the tables, every handler keeps the law of the
  dispositions: each binds to a stored review of its case version and to a challenge of that very
  review, was made in the role of the risk reviewer with a rationale, and one without a challenge
  is a note; none ever disappears or changes.
\<close>

theorem dispositions_lawful:
  assumes "others_follow review_step env"
  shows "keeps (\<lambda>w. review_record ds (wo_store w)) (record_challenge_disposition env wired c i body a) \<and>
    keeps (\<lambda>w. review_record ds (wo_store w)) (record_assessment_disposition env wired c body a) \<and>
    keeps (\<lambda>w. review_record ds (wo_store w)) (get_risk_review env c a)"
  by (intro conjI review_handler_keeps review_handlers_follow assms)

section \<open>What G3 rests on\<close>

definition latest_on :: "uuid option \<Rightarrow> disposition_row list \<Rightarrow> string option" where
  "latest_on x ds = map_option dp_type (latest (filter (\<lambda>d. dp_challenge_id d = x) ds))"

definition lets_continue :: "string option \<Rightarrow> bool" where
  "lets_continue t \<longleftrightarrow> t = Some ''NOTED'' \<or> t = Some ''ACCEPTED_RISK''"

text \<open>The dispositions clear a review: every severe challenge, or the review itself when there is none.\<close>

definition dispositions_clear :: "risk_review \<Rightarrow> disposition_row list \<Rightarrow> bool" where
  "dispositions_clear a ds \<longleftrightarrow>
     (let severe = filter (\<lambda>ch. HIGH \<le> ch_severity ch) (rr_challenges a) in
      list_all (\<lambda>ch. lets_continue (latest_on (Some (ch_id ch)) ds)) severe \<and>
      (severe = [] \<longrightarrow> lets_continue (latest_on None ds)))"

lemma latest_snoc: "latest (xs @ [x]) = Some x"
  by (simp add: latest_def)

lemma latest_on_snoc: "latest_on x (ds @ [d]) = (if dp_challenge_id d = x then Some (dp_type d) else latest_on x ds)"
  by (simp add: latest_on_def latest_snoc)

lemma py_dict_on_challenges: "py_dict (on_challenges ds) i = latest_on (Some i) ds"
proof (induction ds rule: rev_induct)
  case Nil
  show ?case by (simp add: on_challenges_def latest_on_def latest_def)
next
  case (snoc d ds)
  then show ?case
    by (auto simp: on_challenges_def latest_on_snoc py_dict_def)
qed

lemma continue_types: "(\<exists>d. t = Some d \<and> d \<in> set g3_continue_types) \<longleftrightarrow> lets_continue t"
  by (auto simp: g3_continue_types_def lets_continue_def)

lemma py_items_distinct:
  assumes "distinct (map fst kvs)"
  shows "py_items kvs = kvs"
proof -
  have "rev (remdups (rev (map fst kvs))) = map fst kvs" using assms by (simp add: distinct_remdups_id)
  moreover have "map (\<lambda>k. (k, the (py_dict kvs k))) (map fst kvs) = kvs"
    unfolding map_map by (rule map_idI) (auto simp: py_dict_distinct [OF assms, THEN iffD2])
  ultimately show ?thesis by (simp only: py_items_def)
qed

lemma severities_distinct:
  "distinct (map ch_id (rr_challenges a)) \<Longrightarrow> severities_of a = map (\<lambda>ch. (ch_id ch, ch_severity ch)) (rr_challenges a)"
  unfolding severities_of_def by (rule py_items_distinct) (simp add: o_def)

lemma gate_status_clear:
  assumes "distinct (map ch_id (rr_challenges a))"
  shows "review_gate_status a ds = SATISFIED \<longleftrightarrow> dispositions_clear a ds"
proof -
  have level: "map_option dp_type (latest (on_assessment ds)) = latest_on None ds"
    by (simp add: on_assessment_def latest_on_def)
  show ?thesis
    unfolding review_gate_status_def derive_g3_satisfied_iff level py_dict_on_challenges continue_types
      severities_distinct [OF assms] dispositions_clear_def Let_def g3_severity_threshold_def
    by (auto simp: list_all_iff filter_empty_conv)
qed

text \<open>The review that the handlers find is stored, with the challenges of the table.\<close>

lemma latest_review_stored:
  assumes "reviews_lawful st" "load_latest_review c st = Some r"
  shows "find (\<lambda>a. rr_id a = rr_id (lv_review r)) (map fst (rk_reviews st)) = Some (lv_review r) \<and>
    pv_case_id (rr_provenance (lv_review r)) = c \<and> distinct (map ch_id (rr_challenges (lv_review r)))"
proof -
  let ?mine = "filter (\<lambda>(a, _). pv_case_id (rr_provenance a) = c) (rk_reviews st)"
  from assms(2) have "?mine \<noteq> []" "lv_review r = fst (last ?mine)"
    by (auto simp: load_latest_review_def latest_def split: if_splits prod.splits)
  then have "\<exists>t. (lv_review r, t) \<in> set ?mine" by (metis last_in_set prod.collapse)
  then have mem: "lv_review r \<in> set (map fst (rk_reviews st))" and c: "pv_case_id (rr_provenance (lv_review r)) = c" by force+
  from assms(1) have inj: "distinct (map rr_id (map fst (rk_reviews st)))" by (simp add: reviews_lawful_def)
  have "find (\<lambda>a. rr_id a = rr_id (lv_review r)) (map fst (rk_reviews st)) \<noteq> None"
    unfolding find_None_iff using mem by blast
  then obtain b where b: "find (\<lambda>a. rr_id a = rr_id (lv_review r)) (map fst (rk_reviews st)) = Some b" by blast
  then have "b \<in> set (map fst (rk_reviews st))" "rr_id b = rr_id (lv_review r)" by (auto simp: find_Some_iff)
  with inj mem have "b = lv_review r" by (meson distinct_map inj_onD)
  moreover have "challenges_of st (lv_review r) = rr_challenges (lv_review r)"
    using assms(1) mem by (auto simp: reviews_lawful_def list_all_iff)
  moreover have "distinct (map ch_id (challenges_of st (lv_review r)))"
    using assms(1) by (auto simp: challenges_of_def reviews_lawful_def o_def distinct_map_filter)
  ultimately show ?thesis using b c by simp
qed

section \<open>G3 opens only on the dispositions\<close>

definition orchestration_left_alone :: "('o, 's) api_env \<Rightarrow> bool" where
  "orchestration_left_alone env \<longleftrightarrow> (\<forall>k orch st. fst (en_others env k (orch, st)) = orch)"

definition orch_is :: "'o \<Rightarrow> ('o, 's) api_world \<Rightarrow> bool" where
  "orch_is orch w \<longleftrightarrow> wo_orch w = orch"

lemma disturbed_orch: "orchestration_left_alone env \<Longrightarrow> wo_orch (disturbed env w) = wo_orch w"
  unfolding orchestration_left_alone_def disturbed_def by (auto split: prod.split) (metis fst_conv)

lemma orch_on_tables: "orchestration_left_alone env \<Longrightarrow> keeps (orch_is orch) (on_tables env m)"
  by (auto simp: keeps_def orch_is_def on_tables_def Let_def disturbed_orch split: prod.split)

lemma orch_drawn: "keeps (orch_is orch) (drawn_uuid env)"
  by (simp add: keeps_def orch_is_def drawn_uuid_def)

lemma orch_assigned: "orchestration_left_alone env \<Longrightarrow> keeps (orch_is orch) (assigned_version env a c)"
  unfolding assigned_version_def
  by (intro preserving) (auto simp: keeps_def orch_is_def on_case_def Let_def disturbed_orch)

lemma keeps_run: "keeps (orch_is (wo_orch w)) m \<Longrightarrow> m w = (r, w') \<Longrightarrow> wo_orch w' = wo_orch w"
  using keepsD [of "orch_is (wo_orch w)" m w] by (simp add: orch_is_def)

text \<open>A run of \<open>maybe_satisfy_g3\<close> that touches the orchestration has read dispositions that clear the review.\<close>

lemma maybe_satisfy_g3_reads:
  fixes env :: "('o, checker_store) api_env"
  assumes "others_follow review_step env" "orchestration_left_alone env"
    and "maybe_satisfy_g3 env wired review a w = (r, w')" "wo_orch w' \<noteq> wo_orch w"
  shows "\<exists>st. review_step\<^sup>*\<^sup>* (wo_store w) st \<and> review_step\<^sup>*\<^sup>* st (wo_store w') \<and>
    review_gate_status review (load_dispositions (pv_case_id (rr_provenance review)) (pv_case_version (rr_provenance review)) st) = SATISFIED"
proof -
  let ?c = "pv_case_id (rr_provenance review)" and ?v = "pv_case_version (rr_provenance review)"
  let ?read = "on_tables env (reading (load_dispositions ?c ?v)) :: ('o, disposition_row list) review_handler"
  let ?rest = "\<lambda>ds. (if review_gate_status review ds \<noteq> SATISFIED then ret ()
    else and_then (satisfy_human_gate env ?c ?v G3_RISK_DISPOSITION a (''risk-review-assessment:'' @ str_uuid (rr_id review)))
      (\<lambda>_. retick_case env ?c (''G3:'' @ str_uuid (rr_id review)))) :: ('o, unit) review_handler"
  have run: "and_then ?read ?rest w = (r, w')" "wired"
    using assms(3,4) by (auto simp: maybe_satisfy_g3_def Let_def split: if_splits)
  obtain x w1 where read: "?read w = (x, w1)" by fastforce
  then obtain ds where x: "x = Inr ds" by (auto simp: on_tables_def Let_def split: prod.splits)
  have orch: "wo_orch w1 = wo_orch w" by (rule keeps_run [OF orch_on_tables [OF assms(2)] read])
  from on_tables_moment [OF assms(1) read [unfolded x]] have ds: "ds = load_dispositions ?c ?v (wo_store w1)"
    and step: "review_step\<^sup>*\<^sup>* (wo_store w) (wo_store w1)" by simp_all
  from run(1) read x have rest: "?rest ds w1 = (r, w')" by (simp add: and_then_def)
  have "follows review_step (?rest ds)" by (intro following assms(1))
  from followsD [OF this rest] have "review_step\<^sup>*\<^sup>* (wo_store w1) (wo_store w')" .
  moreover have "review_gate_status review ds = SATISFIED"
    using rest assms(4) orch by (auto split: if_splits)
  ultimately show ?thesis using step ds by blast
qed

text \<open>
  C18: G3 opens on the dispositions only: when a disposition other than MAKER_MUST_REVISE is recorded
  and the orchestration is no longer what it was, then the actor is a risk reviewer, and at some
  moment of the request the dispositions cleared the latest review: every challenge of high
  or critical severity had NOTED or ACCEPTED_RISK as its latest one, or, without such a challenge,
  the review itself had been noted.
\<close>

theorem g3_rests_on_dispositions:
  fixes env :: "('o, checker_store) api_env"
  assumes "others_follow review_step env" "orchestration_left_alone env" "reviews_lawful (wo_store w)"
    and "record_challenge_disposition env wired c i body a w = (Inr d, w') \<or>
      record_assessment_disposition env wired c body a w = (Inr d, w')"
    and "rd_type body \<noteq> ''MAKER_MUST_REVISE''" "wo_orch w' \<noteq> wo_orch w"
  shows "RISK_REVIEWER_ROLE \<in> set (ac_roles a) \<and>
    (\<exists>st1 st2 r. review_step\<^sup>*\<^sup>* (wo_store w) st1 \<and> review_step\<^sup>*\<^sup>* st1 st2 \<and> review_step\<^sup>*\<^sup>* st2 (wo_store w') \<and>
       load_latest_review c st1 = Some r \<and>
       dispositions_clear (lv_review r) (load_dispositions c (pv_case_version (rr_provenance (lv_review r))) st2))"
proof -
  note parts = and_then_Inr [where m = "require_role a RISK_REVIEWER_ROLE"] and_then_Inr [where m = "assigned_version env a c"]
    and_then_Inr [where m = "check_act b e" for b e]
  from assms(4) obtain v w1 ch where role: "RISK_REVIEWER_ROLE \<in> set (ac_roles a)"
    and assigned: "assigned_version env a c w = (Inr v :: agent_store_error table_error api_error + int, w1)"
    and whole: "file_disposition env wired c ch body a w1 = (Inr d, w')"
    unfolding record_challenge_disposition_def record_assessment_disposition_def parts access_simps by blast
  let ?read = "on_tables env (reading (load_latest_review c)) :: ('o, latest_review option) review_handler"
  note parts = and_then_Inr [where m = ?read] and_then_Inr [where m = "check_act b e" for b e]
    and_then_Inr [where m = "found e x" for e x] and_then_Inr [where m = "drawn_uuid env"]
    and_then_Inr [where m = "on_error h m" for h m] and_then_Inr [where m = "maybe_satisfy_g3 env wired x a" for x]
  from whole assms(5) obtain r w2 w3 w4 w5 j where
    read: "?read w1 = (Inr (Some r), w2)"
    and drawn: "drawn_uuid env w2 = (Inr j :: agent_store_error table_error api_error + uuid, w3)"
    and filed: "on_error (\<lambda>e. Uncaught (Table_Refused e)) (on_tables env (atomically
       (record_disposition j (rr_id (lv_review r)) ch (rd_type body) (rd_rationale body) (ac_actor_id a) RISK_REVIEWER_ROLE))) w3 =
       (Inr d :: agent_store_error table_error api_error + disposition_row, w4)"
    and g3: "maybe_satisfy_g3 env wired (lv_review r) a w4 = (Inr (), w')"
    unfolding file_disposition_def Let_def parts access_simps by (auto simp: and_then_Inr)
  let ?filing = "on_error (\<lambda>e. Uncaught (Table_Refused e)) (on_tables env (atomically
       (record_disposition j (rr_id (lv_review r)) ch (rd_type body) (rd_rationale body) (ac_actor_id a) RISK_REVIEWER_ROLE))) :: ('o, disposition_row) review_handler"
  have "keeps (orch_is (wo_orch w3)) ?filing" by (simp add: orch_on_tables [OF assms(2)])
  from keepsD [OF this, of w3] filed have "wo_orch w4 = wo_orch w3" by (simp add: orch_is_def)
  then have orch: "wo_orch w4 = wo_orch w"
    using keeps_run [OF orch_assigned [OF assms(2)] assigned] keeps_run [OF orch_on_tables [OF assms(2)] read]
      keeps_run [OF orch_drawn drawn] by simp
  from maybe_satisfy_g3_reads [OF assms(1,2) g3] assms(6) orch obtain st where
    st: "review_step\<^sup>*\<^sup>* (wo_store w4) st" "review_step\<^sup>*\<^sup>* st (wo_store w')"
    "review_gate_status (lv_review r) (load_dispositions (pv_case_id (rr_provenance (lv_review r)))
       (pv_case_version (rr_provenance (lv_review r))) st) = SATISFIED" by auto
  have s1: "review_step\<^sup>*\<^sup>* (wo_store w) (wo_store w2)" and found: "load_latest_review c (wo_store w2) = Some r"
    using followsD [OF follows_assigned_version [OF assms(1)] assigned] on_tables_moment [OF assms(1) read]
    by (auto intro: rtranclp_trans)
  have "follows review_step ?filing"
    by (intro following follows_atomically assms(1)) (erule step_disposed)
  from followsD [OF this filed] drawn have s2: "review_step\<^sup>*\<^sup>* (wo_store w2) (wo_store w4)" by (auto simp: drawn_uuid_def)
  have "reviews_lawful (wo_store w2)"
    using s1 assms(3) by (induction rule: rtranclp_induct) (auto dest: review_step_lawful)
  from latest_review_stored [OF this found] st(3)
  have "dispositions_clear (lv_review r) (load_dispositions c (pv_case_version (rr_provenance (lv_review r))) st)"
    by (simp add: gate_status_clear)
  with role found s1 rtranclp_trans [OF s2 st(1)] st(2) show ?thesis by blast
qed

section \<open>G3 outlives an escalation\<close>

definition g3_satisfied :: "('o, checker_store) api_env \<Rightarrow> uuid \<Rightarrow> ('o, checker_store) api_world \<Rightarrow> bool" where
  "g3_satisfied env c w \<longleftrightarrow>
     (\<exists>sn r. rp_load_snapshot (en_repo env) c (wo_orch w) = Some sn \<and>
        stored_gate sn G3_RISK_DISPOSITION = Some r \<and> gr_status r = SATISFIED)"

lemma escalated_effect:
  assumes "left_alone env" "reviews_lawful (wo_store w)" "load_latest_review c (wo_store w) = Some r"
    and "ch \<in> set (rr_challenges (lv_review r))" "HIGH \<le> ch_severity ch"
    and "record_challenge_disposition env wired c (ch_id ch) \<lparr>rd_type = ''ESCALATED'', rd_rationale = why\<rparr> a w = (Inr d, w')"
  shows "wo_orch w' = wo_orch w \<and> load_latest_review c (wo_store w') = Some r \<and>
    RISK_REVIEWER_ROLE \<in> set (ac_roles a) \<and> en_assigned env (wo_orch w) c (ac_actor_id a) \<noteq> None \<and>
    review_gate_status (lv_review r) (load_dispositions c (pv_case_version (rr_provenance (lv_review r))) (wo_store w')) = OPEN"
proof -
  let ?a = "lv_review r"
  let ?v = "pv_case_version (rr_provenance ?a)"
  from latest_review_stored [OF assms(2,3)] have found: "find (\<lambda>a. rr_id a = rr_id ?a) (map fst (rk_reviews (wo_store w))) = Some ?a"
    and c: "pv_case_id (rr_provenance ?a) = c" and uniq: "distinct (map ch_id (rr_challenges ?a))" by simp_all
  have open_gate: "review_gate_status ?a (load_dispositions c ?v st) = OPEN"
    if "record_disposition j (rr_id ?a) (Some (ch_id ch)) ''ESCALATED'' why actor RISK_REVIEWER_ROLE (wo_store w) = Inr (d', st)" for j actor d' st
  proof -
    from that found have "load_dispositions c ?v st = load_dispositions c ?v (wo_store w) @ [d']"
      "dp_challenge_id d' = Some (ch_id ch)" "dp_type d' = ''ESCALATED''"
      unfolding record_disposition_Inr by (auto simp: load_dispositions_def c)
    then have "\<not> lets_continue (latest_on (Some (ch_id ch)) (load_dispositions c ?v st))"
      by (simp add: latest_on_snoc lets_continue_def)
    with assms(4,5) have "\<not> dispositions_clear ?a (load_dispositions c ?v st)"
      by (auto simp: dispositions_clear_def list_all_iff)
    with gate_status_clear [OF uniq] show ?thesis using gate_status.exhaust by blast
  qed
  have "load_latest_review c st = Some r"
    if "record_disposition j (rr_id ?a) x t why actor RISK_REVIEWER_ROLE (wo_store w) = Inr (d', st)" for j x t actor d' st
    using that assms(3) unfolding record_disposition_Inr
    by (auto simp: load_latest_review_def find_ready_handoff_def)
  with open_gate assms(6) show ?thesis
    by (auto simp: record_challenge_disposition_def file_disposition_def Let_def and_then_Inr access_simps
        quiet_assigned_version [OF assms(1)] quiet_on_tables [OF assms(1)] drawn_uuid_def atomically_def on_error_def
        assms(3) maybe_satisfy_g3_def c split: option.splits sum.splits prod.splits if_splits)
qed

text \<open>
  C20: A gate once satisfied is never taken back: when a reviewer escalates a challenge of high or
  critical severity after G3 has been satisfied, the gate stays satisfied in the
  orchestration, while the status of the review, derived again from the latest
  dispositions, answers OPEN.
\<close>

theorem g3_outlives_escalation:
  assumes "left_alone env" "reviews_lawful (wo_store w)" "load_latest_review c (wo_store w) = Some r"
    and "ch \<in> set (rr_challenges (lv_review r))" "HIGH \<le> ch_severity ch" "g3_satisfied env c w"
    and "record_challenge_disposition env wired c (ch_id ch) \<lparr>rd_type = ''ESCALATED'', rd_rationale = why\<rparr> a w = (Inr d, w')"
  shows "g3_satisfied env c w' \<and>
    (\<exists>s w''. get_risk_review env c a w' = (Inr s, w'') \<and> vs_gate_status s = OPEN)"
proof -
  note after = escalated_effect [OF assms(1-5,7)]
  then have "list_ex (\<lambda>r. r \<in> set (ac_roles a)) CASE_PARTICIPANT_ROLES" by (simp add: CASE_PARTICIPANT_ROLES_def)
  moreover from after obtain v where "en_assigned env (wo_orch w') c (ac_actor_id a) = Some v" by auto
  ultimately have "\<exists>s w''. get_risk_review env c a w' = (Inr s, w'') \<and> vs_gate_status s = OPEN"
    using after
    by (simp add: get_risk_review_def Let_def and_then_def require_reader_def check_act_def found_def
        quiet_assigned_version [OF assms(1)] quiet_on_tables [OF assms(1)])
  with assms(6) after show ?thesis by (simp add: g3_satisfied_def)
qed

end
