(* ===== verification/Review_Sample.thy ===== *)
theory Review_Sample
  imports Review_Api
begin

text \<open>A case with one review, whose only challenge is severe.\<close>

definition sample_challenge :: challenge where
  "sample_challenge = \<lparr>ch_id = 21, ch_target = \<lparr>mf_source = MAKER_LEGAL, mf_assessment_id = 3, mf_section_path = ''s''\<rparr>,
     ch_type = OMITTED_RISK, ch_statement = ''c'', ch_citations = [Cite_Fact 5], ch_severity = HIGH, ch_confidence = LOW_CONFIDENCE,
     ch_raised_by = LLM, ch_raised_blind = False\<rparr>"

definition sample_risk_review :: risk_review where
  "sample_risk_review = \<lparr>rr_id = 9,
     rr_provenance = \<lparr>pv_case_id = 7, pv_case_version = 1, pv_execution_id = 30, pv_task_id = 4, pv_prompt_version = ''p'',
       pv_model_id = ''m'', pv_endpoint_id = ''e'', pv_view_built_at = 10, pv_created_at = 20,
       rp_reviewed = []\<rparr>,
     rr_challenges = [sample_challenge], rr_omitted_risks = [], rr_adequacy_reviews = [],
     rr_visibility = \<lparr>vc_blocking_gaps = [], vc_exceptions = []\<rparr>, rr_recommendations = [], rr_gaps = []\<rparr>"

definition reviewed_store :: "disposition_row list \<Rightarrow> checker_store" where
  "reviewed_store ds =
     \<lparr>rk_cases = [(7, 1)], rk_facts = [], rk_underwriting = [], rk_legal = [], rk_reviews = [(sample_risk_review, 50)],
      rk_challenges = [\<lparr>cr_assessment_id = 9, cr_challenge = sample_challenge\<rparr>], rk_blind = [], rk_gaps = [], rk_handoffs = [],
      rk_dispositions = ds, rk_audit = [], rk_clock = 70, rk_uuids = (\<lambda>n. 50 + n), rk_drawn = 0\<rparr>"

definition sample_reviewer :: actor where
  "sample_reviewer = \<lparr>ac_actor_id = 40, ac_roles = [RISK_REVIEWER_ROLE]\<rparr>"

definition noting :: disposition_request where
  "noting = \<lparr>rd_type = ''NOTED'', rd_rationale = ''ok''\<rparr>"

definition noted_before :: disposition_row where
  "noted_before = \<lparr>dp_id = 1, dp_assessment_id = 9, dp_case_id = 7, dp_case_version = 1, dp_challenge_id = Some 21,
     dp_type = ''NOTED'', dp_rationale = ''ok'', dp_actor_id = 40, dp_actor_role = RISK_REVIEWER_ROLE\<rparr>"

definition g3_gate :: gate_record where
  "g3_gate = satisfied_record (open_gate G3_RISK_DISPOSITION 1) (Some 40) (Some ''r'') 90"

lemma sample_noting_runs:
  "case record_challenge_disposition sample_api_env True 7 21 noting sample_reviewer (sample_api_world (reviewed_store []) []) of
     (Inl e, w') \<Rightarrow> False
   | (Inr d, w') \<Rightarrow> dp_type d = ''NOTED'' \<and> length (st_gates (wo_orch w')) = 1"
  by code_simp

lemma sample_noting:
  "\<exists>d w'. record_challenge_disposition sample_api_env True 7 21 noting sample_reviewer (sample_api_world (reviewed_store []) []) =
     (Inr d, w') \<and> wo_orch w' \<noteq> sample_case_store []"
  using sample_noting_runs by (fastforce simp: sample_case_store_def split: prod.splits sum.splits)

lemma reviewed_lawful: "reviews_lawful (reviewed_store [])" "reviews_lawful (reviewed_store [noted_before])"
  by code_simp+

theorem dispositions_lawful_witness:
  "\<exists>d w'. record_challenge_disposition sample_api_env True 7 21 noting sample_reviewer (sample_api_world (reviewed_store []) []) =
     (Inr d, w') \<and> reviews_lawful (wo_store w')"
proof -
  let ?w = "sample_api_world (reviewed_store []) []"
  obtain d w' where run: "record_challenge_disposition sample_api_env True 7 21 noting sample_reviewer ?w = (Inr d, w')"
    using sample_noting by blast
  have "keeps (\<lambda>w. review_record [] (wo_store w)) (record_challenge_disposition sample_api_env True 7 21 noting sample_reviewer)"
    using dispositions_lawful [OF sample_env_quiet(2)] by blast
  from keepsD [OF this, of ?w] run reviewed_lawful(1) have "reviews_lawful (wo_store w')"
    by (simp add: review_record_def sample_api_world_def)
  with run show ?thesis by blast
qed

theorem g3_rests_on_dispositions_witness:
  "\<exists>st1 st2 r. review_step\<^sup>*\<^sup>* (reviewed_store []) st1 \<and> review_step\<^sup>*\<^sup>* st1 st2 \<and> load_latest_review 7 st1 = Some r \<and>
     dispositions_clear (lv_review r) (load_dispositions 7 (pv_case_version (rr_provenance (lv_review r))) st2)"
proof -
  let ?w = "sample_api_world (reviewed_store []) []"
  obtain d w' where run: "record_challenge_disposition sample_api_env True 7 21 noting sample_reviewer ?w = (Inr d, w')"
    and orch: "wo_orch w' \<noteq> wo_orch ?w"
    using sample_noting by (auto simp: sample_api_world_def)
  have alone: "orchestration_left_alone (sample_api_env :: (store, checker_store) api_env)"
    by (simp add: orchestration_left_alone_def sample_api_env_def)
  have "reviews_lawful (wo_store ?w)" "rd_type noting \<noteq> ''MAKER_MUST_REVISE''"
    using reviewed_lawful(1) by (simp_all add: sample_api_world_def noting_def)
  from g3_rests_on_dispositions [OF sample_env_quiet(2) alone this(1) disjI1 [OF run] this(2) orch]
  show ?thesis by (auto simp: sample_api_world_def)
qed

lemma sample_escalation_runs:
  "case record_challenge_disposition sample_api_env True 7 21 \<lparr>rd_type = ''ESCALATED'', rd_rationale = ''no''\<rparr> sample_reviewer
     (sample_api_world (reviewed_store [noted_before]) [(7, g3_gate)]) of
     (Inl e, w') \<Rightarrow> False
   | (Inr d, w') \<Rightarrow> True"
  by code_simp

theorem g3_outlives_escalation_witness:
  "\<exists>w s w''. g3_satisfied sample_api_env 7 w \<and> get_risk_review sample_api_env 7 sample_reviewer w = (Inr s, w'') \<and>
     vs_gate_status s = OPEN"
proof -
  let ?w = "sample_api_world (reviewed_store [noted_before]) [(7, g3_gate)]"
  let ?r = "\<lparr>lv_review = sample_risk_review, lv_created_at = 50, lv_handoff = None\<rparr>"
  obtain d w' where run: "record_challenge_disposition sample_api_env True 7 (ch_id sample_challenge)
      \<lparr>rd_type = ''ESCALATED'', rd_rationale = ''no''\<rparr> sample_reviewer ?w = (Inr d, w')"
    using sample_escalation_runs by (auto simp: sample_challenge_def split: prod.splits sum.splits)
  have gate: "g3_satisfied sample_api_env 7 ?w"
    by (simp add: g3_satisfied_def sample_api_env_def sample_api_world_def postgres_orchestration_def
        load_snapshot_def case_version_of_def sample_case_store_def case_gates_def stored_gate_def g3_gate_def
        satisfied_record_def open_gate_def py_dict_def)
  have review: "load_latest_review 7 (wo_store ?w) = Some ?r" "sample_challenge \<in> set (rr_challenges (lv_review ?r))"
    "HIGH \<le> ch_severity sample_challenge"
    by (simp_all add: sample_api_world_def load_latest_review_def reviewed_store_def sample_risk_review_def latest_def
        find_ready_handoff_def sample_challenge_def less_eq_challenge_severity_def)
  have "reviews_lawful (wo_store ?w)" using reviewed_lawful(2) by (simp add: sample_api_world_def)
  from g3_outlives_escalation [OF sample_env_quiet(1) this review gate run] show ?thesis by blast
qed

end
