(* ===== verification/Spec2Isabelle.thy ===== *)
theory Spec2Isabelle
  imports Postgres_Orchestration Worker_Safety Working_Capital Repayment_Store Disbursement_Safety Disbursement_Trail
    Pre_Analysis Maker_Resume Condition_Api Security_Api Credit_Decision_Api Task_Envelope Checker_Samples Review_Sample
begin

text \<open>
  Verification of the credit-case platform: the Python service under
  \<open>src/services/api/src/creditops\<close> (paths below are relative to it).

  The platform takes a credit case from the submitted documents to the disbursed and repaid
  facility.  Software agents prepare (a planner, a maker that underwrites, a legal reviewer, an
  independent checker); people decide.  An orchestrator ticks a case: it derives the
  readiness of the task types from the dependency template, schedules tasks and publishes
  them through an outbox to a queue; a worker leases one task at a time and runs its
  processor, which checkpoints its stages and persists its output together with a handoff;
  the human gates are derived from recorded decisions; after the decision, disbursements are
  executed once, under the two-person rule, and repayments are folded into a ledger.

  \<^bold>\<open>The theories and the code.\<close>

  \<^item> Prelude, Effects: results with an error side, dictionaries read from lists of pairs,
    effectful use cases as functions from a state to a result and a state, and their
    Hoare triples, which the interleaving proofs share.
  \<^item> Vocabulary, Human_Gates, Orchestration_Port: the enumerations of \<open>domain/\<close>, the
    transitions of a document and the task envelope; the gate derivations of
    \<open>application/orchestration/gates.py\<close>; the repository protocol of
    \<open>application/ports/orchestration.py\<close> as a record of operations, and the laws its
    clients rely on as locales.
  \<^item> Task_Graph, Readiness, Planner, Advance, Kickoff: \<open>application/orchestration/\<close>.
    Advance_Safety and Advance_Idempotent prove what a tick can do over any repository that keeps
    the contract; Case_Store and Postgres_Orchestration give the tables of
    \<open>infrastructure/postgres/orchestration.py\<close> and interpret the locales on them.  This theory
    states the theorems of the orchestrator on the relational store.
  \<^item> Dispatch, Task_Leases, Task_Safety, Worker, Worker_Safety: the outbox dispatcher, the
    task table with its leases (\<open>infrastructure/postgres/tasks.py\<close>), the queue adapter and one run
    of the worker, which interleaves with the rest of the system.
  \<^item> Decimal_Context, Calculators, Debt_Service, Working_Capital: the decimal arithmetic and the
    calculators of \<open>application/underwriting/calculators.py\<close>.
  \<^item> Repayment_Ledger, Repayment_Store: the fold of the repayment events, its append-only tables
    and the handlers.  Disbursements, Disbursement_Api, Disbursement_Safety: the execution
    lifecycle, its store and adapter, the handlers with the two gates.  Disbursement_Trail reads
    the audit trail of the disbursements back to the tables.  Api_Access holds the
    role and assignment checks in front of every handler.
  \<^item> Json_Payload, Response_Schema, Assessments, Assessment_Reading: JSON values as Python
    reads them, the closed response schemas with the standard's meaning of conformance, the
    pydantic contracts of the agents, and the reading of the parts the builders share.
  \<^item> Underwriting_Suite, Underwriting_Maker, Maker_Schema: \<open>evidence.py\<close> and \<open>maker.py\<close> of
    \<open>application/underwriting/\<close>, the builder against its schema.
  \<^item> Risk_Review, Risk_Analysis, Risk_Checker, Risk_Checker_Safety, Checker_Schema,
    Pre_Analysis: the contract, the evidence, the deterministic pass and the two inference passes of
    the checker (\<open>application/risk_review/\<close>).
  \<^item> Agent_Stage, Maker_Store, Maker_Processor, Maker_Delivery, Maker_Resume: what the processors of the
    agents share (calls that may die before or after they took effect, deliveries in sequence),
    the tables of \<open>infrastructure/postgres/underwriting.py\<close>, the stages of
    \<open>application/underwriting/processor.py\<close>, and what any number of deliveries leaves behind.
  \<^item> Api_World, Api_Sample: what the HTTP handlers over the ledgers share: the orchestration and the
    tables of one ledger as the two parts of a world, each call of a repository preceded by
    whatever other requests do, the assignment of the case, the satisfied gate and the new tick of
    the orchestrator; assertions that hold under that interference.
  \<^item> Condition_Ledger, Condition_Api: \<open>domain/conditions.py\<close>, \<open>infrastructure/postgres/conditions.py\<close>
    with its migration, and \<open>api/conditions.py\<close>: the history of a condition, the confirmation by an
    independent checker and what it rests on.
  \<^item> Security_Ledger, Security_Api: the same layers of the security interests; a transition reads and
    writes in two statements, so two completions may overlap.
  \<^item> Task_Envelope: the event that announces a task and its decoding by the dispatcher.
  \<^item> Credit_Decisions, Credit_Decision_Api: the human credit decision of
    \<open>domain/credit_decisions.py\<close>, its two append-only tables, the canonical text its frozen terms
    are hashed over, and the handlers of \<open>api/credit_decisions.py\<close>.
  \<^item> Staged_Delivery, Checker_Store, Checker_Processor, Checker_Delivery, Checker_Samples: the tables of
    \<open>infrastructure/postgres/risk_review.py\<close>, the stages of \<open>application/risk_review/processor.py\<close>
    (blind pass, second pass, checkpoints), and what any number of deliveries leaves behind.
  \<^item> Review_Ledger, Review_Api, Review_Sample: the steps of the review tables and the law of the
    dispositions, the handlers of \<open>api/risk_review.py\<close>, and what G3 rests on.

  A record stands for a dataclass or a row, a record of tables for the database, a datatype for
  an enumeration; a handler or use case is a definition of the name of its function, with the
  guards in the order of the code; every raise is the left side of a sum.

  \<^bold>\<open>The groups of lemmas.\<close>  Each operation has a lemma for its outcome on each
  branch; each state has an invariant (\<open>store_inv\<close>, the row invariant of the task table, the
  typing of the ledger tables, the two-person rule) with one preservation lemma per operation.
  Where several transactions interleave, the invariant is proved of every step under any interference
  that keeps it.  The builders are proved against their schemas: first the pieces, each
  with its own schema, then the whole answer.

  \<^bold>\<open>Bounds and fuel.\<close>  The depth-first search over the six task types is given
  seven units of fuel; \<open>cycle_search_terminates\<close> proves that as much as there are unvisited
  nodes is enough on every mapping.
  Every other loop is structural.  The decimal context has 28 digits; the theorems on the schedule
  hold for amounts up to ten to the 24th, the exact sum of the working-capital need while
  receivables plus inventory stay below ten to the 22nd; \<open>oversized_fact_stops_suite\<close> shows
  that from ten to the 22nd on the suite raises.

  \<^bold>\<open>Abstractions.\<close>  Code outside the repository is a parameter: the reasoning gateway (any
  answer; where a theorem needs an answer that conforms to the schema sent, the hypothesis
  is named \<open>honours_schema\<close>), the queue functions of PGMQ, the disbursement adapter's
  network, \<open>sha256\<close>, \<open>uuid4\<close> and \<open>uuid5\<close>, the clock.  The rest of the system between two
  transactions is a parameter too (\<open>we_others\<close>, \<open>de_others\<close>, \<open>ae_others\<close>).  A transaction is
  atomic, as the unit of work makes it; the check, unique and foreign-key constraints of the tables
  which a value can violate are checks that abort it; left out are the lengths of the model
  version of a proposal (fixed by the gateway's catalog) and of a failure reason, and the order of
  \<open>evidence_view_built_at\<close> and the creation of an assessment.  Time is an integer.  A JSON number is
  its exact value and a float of a payload its text; the special decimals and negative zero are left
  out, and so are exponents beyond the limits of the decimal context.  Characters are the
  first 256.  Explanatory texts in Vietnamese that no code reads are omitted or given without
  diacritics, where only their being non-blank matters.

  \<^bold>\<open>Not modelled.\<close>  The HTTP layer (routing, authentication, the shape of JSON answers,
  request-length limits, the 503 answers for a missing repository), the web client
  (TypeScript), the migrations and the deployment; the FPT gateway, retrieval, storage, OCR and the
  ingestion of documents, which are I/O around external services; the prompts and the text of
  the request contexts; the components that repeat a modelled pattern and that this development
  does not reach: the legal reviewer and its controlled checks, contract packages,
  monitoring, settlement and recovery, notifications, gap request batches.  Each is a component of the manifest with its reason.
\<close>

section \<open>The orchestrator on the relational store\<close>

lemma snapshot_versions:
  assumes "store_inv st" "load_snapshot st c = Some sn"
  shows "list_all (\<lambda>r. tr_case_version r \<le> sn_case_version sn) (sn_tasks sn)"
proof -
  have "pt_case_version t \<le> sn_case_version sn" if "t \<in> set (st_tasks st)" "pt_case_id t = c" for t
    using assms(1) load_snapshot_SomeD [OF assms(2)] that
    by (fastforce simp: store_inv_def tasks_ok_def versions_bounded_def case_version_of_def)
  then show ?thesis
    using load_snapshot_SomeD [OF assms(2)] by (auto simp: list_all_set case_tasks_def task_view_def)
qed

definition sample_store :: store where
  "sample_store =
     \<lparr>st_cases = [(7, 1)],
      st_handoffs = [\<lparr>hr_id = 1, hr_case_id = 7, hr_case_version = 1, hr_source_task_id = 2,
        hr_state = ''READY_FOR_SPECIALIST_REVIEW'', hr_data = [], hr_stale_at = None\<rparr>],
      st_tasks = [], st_gates = [], st_gaps = [], st_dependencies = [], st_outbox = [],
      st_proposals = [], st_audit = [], st_documents = [], st_checkpoints = [], st_slot = None,
      st_clock = 100, st_uuids = (\<lambda>n. 1000 + n), st_drawn = 0\<rparr>"

definition sample_env :: "unit advance_env" where
  "sample_env =
     \<lparr>av_template = template_nodes, av_gateway = None, av_now = 100, av_execution_id = 5,
      av_ids = (\<lambda>n. 2000 + n)\<rparr>"

lemma sample_store_inv: "store_inv sample_store"
  by (simp add: sample_store_def store_inv_def tasks_ok_def gates_ok_def)

lemma sample_snapshot:
  "load_snapshot sample_store 7 = Some \<lparr>sn_case_id = 7, sn_case_version = 1,
     sn_has_intake_handoff = True, sn_tasks = [], sn_gates = [], sn_blocking_gaps = []\<rparr>"
  by (simp add: sample_store_def load_snapshot_def case_version_of_def has_ready_handoff_def
      case_tasks_def case_gates_def unresolved_gaps_def)

lemma sample_fresh:
  "inj_on (av_ids sample_env) {..length (av_template sample_env)}"
  "av_ids sample_env ` {..length (av_template sample_env)} \<inter> used_task_ids sample_store = {}"
  "av_ids sample_env 0 \<notin> used_proposal_ids sample_store"
  by (auto simp: sample_env_def sample_store_def used_task_ids_def used_proposal_ids_def inj_on_def)

lemma sample_template:
  "topological_from [] (av_template sample_env)"
  "DOCUMENT_INGESTION \<notin> tn_task_type ` set (av_template sample_env)"
  by (simp_all add: sample_env_def template_nodes_def)

text \<open>
  C1: Whatever the outcome of a tick of the orchestrator (it returns or any of
  its writes raises), whatever the planner's gateway answers, the case's
  snapshot is only extended: the version, the hand-off, the gaps, the existing
  tasks and every satisfied gate stay, the new tasks are pending, of the current
  version and of a type the read-only status view reports as READY, no gate
  other than G1 becomes satisfied (and G1 only with an intake hand-off), and
  no other case changes.
\<close>

theorem advance_extends_case:
  assumes "store_inv st" and "load_snapshot st c = Some sn"
  shows "\<exists>sn'. load_snapshot (snd (advance_case postgres_orchestration env c st)) c = Some sn' \<and>
      orch_extends (set (ready_types (os_readiness (build_status sn (av_template env))))) sn sn' \<and>
      (\<forall>c'. c' \<noteq> c \<longrightarrow>
         load_snapshot (snd (advance_case postgres_orchestration env c st)) c' = load_snapshot st c')"
  using pg.advance_extends [of st c sn env] assms
  by (auto simp: pg.extended_from_def build_status_readiness)

theorem advance_extends_case_witness:
  "\<exists>sn'. load_snapshot (snd (advance_case postgres_orchestration sample_env 7 sample_store)) 7 = Some sn' \<and>
     sn_case_version sn' = 1"
  using advance_extends_case [OF sample_store_inv sample_snapshot, of sample_env]
  by (auto simp: orch_extends_def)

text \<open>
  C3: A tick is idempotent: after a tick that returned, a second one (with any
  other identifiers, time and gateway) creates no task, and leaves the snapshot,
  the idempotency keys and the tasks of the case as they were, even when it
  raises.
\<close>

theorem advance_twice_no_effect:
  assumes "store_inv st" and "load_snapshot st c = Some sn"
    and "topological_from [] (av_template env)" and "av_template env' = av_template env"
    and "advance_case postgres_orchestration env c st = (Inr r, st')"
    and "advance_case postgres_orchestration env' c st' = (res, st'')"
  shows "load_snapshot st'' c = load_snapshot st' c \<and>
    idempotency_keys c st'' = idempotency_keys c st' \<and> used_task_ids st'' = used_task_ids st' \<and>
    (\<forall>r'. res = Inr r' \<longrightarrow> ar_created_task_ids r' = [])"
  using pg.advance_twice [OF assms(5,1) _ assms(3,6,4)] assms(2)
  by (simp add: pg.same_view_def)

theorem advance_twice_no_effect_witness:
  "\<exists>r st'. advance_case postgres_orchestration sample_env 7 sample_store = (Inr r, st') \<and>
     load_snapshot (snd (advance_case postgres_orchestration (sample_env\<lparr>av_ids := \<lambda>n. 9000 + n\<rparr>) 7 st')) 7 =
       load_snapshot st' 7"
proof -
  obtain r st' where first: "advance_case postgres_orchestration sample_env 7 sample_store = (Inr r, st')"
    using pg.advance_total [OF sample_store_inv _ sample_template, of 7] sample_snapshot sample_fresh
    by (fastforce simp: pg.fresh_ids_def)
  let ?env = "sample_env\<lparr>av_ids := \<lambda>n. 9000 + n\<rparr>"
  obtain res st'' where second: "advance_case postgres_orchestration ?env 7 st' = (res, st'')" by fastforce
  have same: "av_template ?env = av_template sample_env" by simp
  from advance_twice_no_effect [OF sample_store_inv sample_snapshot sample_template(1) same first second]
  show ?thesis using first second by auto
qed

text \<open>
  C2: A tick on a visible case returns, provided the identifiers it draws are
  fresh, for every answer of the gateway; it creates exactly one task for each
  READY type whose idempotency key is not yet taken.
\<close>

theorem advance_returns_case:
  assumes "store_inv st" and "load_snapshot st c = Some sn"
    and "topological_from [] (av_template env)"
    and "DOCUMENT_INGESTION \<notin> tn_task_type ` set (av_template env)"
    and "inj_on (av_ids env) {..length (av_template env)}"
    and "av_ids env ` {..length (av_template env)} \<inter> used_task_ids st = {}"
    and "av_ids env 0 \<notin> used_proposal_ids st"
  shows "\<exists>r st' sn' new. advance_case postgres_orchestration env c st = (Inr r, st') \<and>
    load_snapshot st' c = Some sn' \<and> sn_tasks sn' = sn_tasks sn @ new \<and>
    map tr_task_id new = ar_created_task_ids r \<and>
    mset (map tr_task_type new) = mset (filter
      (\<lambda>t. idempotency_key c (sn_case_version sn) t \<notin> idempotency_keys c st)
      (ready_types (os_readiness (build_status sn (av_template env)))))"
proof -
  from assms(2) have load: "rp_load_snapshot postgres_orchestration c st = Some sn" by simp
  have "pg.fresh_ids env st" using assms(5-7) by (simp add: pg.fresh_ids_def)
  from pg.advance_total [OF assms(1) load assms(3,4) this] obtain r st' where
    run: "advance_case postgres_orchestration env c st = (Inr r, st')" by blast
  from pg.advance_returns [OF run assms(1) load assms(3)] run show ?thesis
    by (fastforce simp: build_status_readiness)
qed

theorem advance_returns_case_witness:
  "\<exists>r st' sn'. advance_case postgres_orchestration sample_env 7 sample_store = (Inr r, st') \<and>
     load_snapshot st' 7 = Some sn'"
  using advance_returns_case [OF sample_store_inv sample_snapshot sample_template sample_fresh] by blast

text \<open>
  A task type whose idempotency key is taken in the current version is never
  scheduled again: a tick that returns leaves the tasks of that type as they are,
  even when the report offers the type as READY and reports no deadlock (which is
  the case after the type's task was superseded without a new version, as the
  witness shows).
\<close>

theorem taken_key_not_rescheduled:
  assumes "store_inv st" and "load_snapshot st c = Some sn"
    and "topological_from [] (av_template env)"
    and "idempotency_key c (sn_case_version sn) t \<in> idempotency_keys c st"
    and "advance_case postgres_orchestration env c st = (Inr r, st')"
  shows "\<exists>sn'. load_snapshot st' c = Some sn' \<and>
    filter (\<lambda>k. tr_task_type k = t) (sn_tasks sn') = filter (\<lambda>k. tr_task_type k = t) (sn_tasks sn)"
proof -
  from assms(2) have load: "rp_load_snapshot postgres_orchestration c st = Some sn" by simp
  from pg.advance_returns [OF assms(5,1) load assms(3)] obtain sn' new where
    sn': "load_snapshot st' c = Some sn'" "sn_tasks sn' = sn_tasks sn @ new"
    and "mset (map tr_task_type new) = mset (filter
      (\<lambda>t. idempotency_key c (sn_case_version sn) t \<notin> idempotency_keys c st)
      (ready_types (derived_report sn (av_template env))))"
    by auto
  then have "set (map tr_task_type new) = set (filter
      (\<lambda>t. idempotency_key c (sn_case_version sn) t \<notin> idempotency_keys c st)
      (ready_types (derived_report sn (av_template env))))" by (metis set_mset_mset)
  with assms(4) have "t \<notin> set (map tr_task_type new)" by auto
  then have "filter (\<lambda>k. tr_task_type k = t) new = []" by (auto simp: filter_empty_conv)
  with sn' show ?thesis by simp
qed

definition superseded_store :: store where
  "superseded_store = sample_store\<lparr>st_tasks :=
     [(new_task 11 7 1 CREDIT_UNDERWRITING (idempotency_key 7 1 CREDIT_UNDERWRITING) (JObj []) 50)
        \<lparr>pt_status := SUPERSEDED, pt_attempt_count := 1\<rparr>]\<rparr>"

lemma superseded_store_inv: "store_inv superseded_store"
  by (simp add: superseded_store_def sample_store_def store_inv_def tasks_ok_def gates_ok_def
      new_task_def versions_bounded_def)

definition superseded_snapshot :: snapshot where
  "superseded_snapshot =
     \<lparr>sn_case_id = 7, sn_case_version = 1, sn_has_intake_handoff = True,
      sn_tasks = [\<lparr>tr_task_id = 11, tr_task_type = CREDIT_UNDERWRITING, tr_case_version = 1,
                   tr_status = SUPERSEDED\<rparr>],
      sn_gates = [], sn_blocking_gaps = []\<rparr>"

lemma superseded_store_snapshot: "load_snapshot superseded_store 7 = Some superseded_snapshot"
  by (simp add: superseded_store_def superseded_snapshot_def sample_store_def load_snapshot_def
      case_version_of_def has_ready_handoff_def case_tasks_def case_gates_def unresolved_gaps_def
      new_task_def task_view_def agent_task_types_def enum_task_type_def)

theorem taken_key_not_rescheduled_witness:
  "\<exists>r st' sn'. advance_case postgres_orchestration sample_env 7 superseded_store = (Inr r, st') \<and>
     CREDIT_UNDERWRITING \<in> set (ready_types (os_readiness (build_status superseded_snapshot template_nodes))) \<and>
     load_snapshot st' 7 = Some sn' \<and>
     filter (\<lambda>k. tr_task_type k = CREDIT_UNDERWRITING) (sn_tasks sn') = sn_tasks superseded_snapshot"
proof -
  have "pg.fresh_ids sample_env superseded_store"
    by (auto simp: pg.fresh_ids_def sample_env_def superseded_store_def sample_store_def new_task_def
        used_task_ids_def used_proposal_ids_def inj_on_def)
  then obtain r st' where run: "advance_case postgres_orchestration sample_env 7 superseded_store = (Inr r, st')"
    using pg.advance_total [OF superseded_store_inv _ sample_template, of 7] superseded_store_snapshot
    by fastforce
  have "idempotency_key 7 (sn_case_version superseded_snapshot) CREDIT_UNDERWRITING \<in> idempotency_keys 7 superseded_store"
    by (simp add: superseded_snapshot_def superseded_store_def idempotency_keys_def new_task_def)
  from taken_key_not_rescheduled [OF superseded_store_inv superseded_store_snapshot sample_template(1) this run]
  obtain sn' where sn': "load_snapshot st' 7 = Some sn'"
    "filter (\<lambda>k. tr_task_type k = CREDIT_UNDERWRITING) (sn_tasks sn') =
       filter (\<lambda>k. tr_task_type k = CREDIT_UNDERWRITING) (sn_tasks superseded_snapshot)" by blast
  have "CREDIT_UNDERWRITING \<in> set (ready_types (os_readiness (build_status superseded_snapshot template_nodes)))"
  proof -
    let ?sn = "superseded_snapshot\<lparr>sn_gates := derive_effective_gates superseded_snapshot\<rparr>"
    have gate: "snapshot_gate_status ?sn G1_INTAKE_COMPLETE = Some SATISFIED"
      unfolding derived_gate_status by (simp add: effective_gate_intake superseded_snapshot_def)
    have "node_readiness ?sn (hd template_nodes) = R_READY"
      unfolding node_readiness_ready
      by (simp add: template_nodes_def gate_open_for_def gate live_status_none_iff)
        (simp add: superseded_snapshot_def blocked_by_gap_def)
    moreover have "hd template_nodes \<in> set template_nodes" "tn_task_type (hd template_nodes) = CREDIT_UNDERWRITING"
      by (simp_all add: template_nodes_def)
    ultimately show ?thesis
      unfolding build_status_readiness derived_report_def ready_types_spec [OF topological_template]
      unfolding set_map set_filter by (intro image_eqI [of _ _ "hd template_nodes"]) simp_all
  qed
  moreover have "filter (\<lambda>k. tr_task_type k = CREDIT_UNDERWRITING) (sn_tasks superseded_snapshot) = sn_tasks superseded_snapshot"
    by (simp add: superseded_snapshot_def)
  ultimately show ?thesis using run sn' by auto
qed

section \<open>Kick-off and maker revision on the relational store\<close>

text \<open>
  A kick-off plans a case version once per trigger: when it returns, its key is
  taken, at most one task was added and it is a pending planning task of the
  current version; and every later kick-off with the same trigger leaves the store
  exactly as it is and reports that it created nothing.
\<close>

theorem kickoff_once_per_trigger:
  assumes "store_inv st" and "load_snapshot st c = Some sn"
    and "kickoff postgres_orchestration env c trigger st = (Inr k, st')"
    and "kickoff postgres_orchestration env' c trigger st' = (res, st'')"
  shows "st'' = st' \<and> (\<forall>k'. res = Inr k' \<longrightarrow> \<not> ko_created k') \<and>
    (\<exists>new. load_snapshot st' c = Some (sn\<lparr>sn_tasks := sn_tasks sn @ new\<rparr>) \<and>
       length new = (if ko_created k then 1 else 0) \<and>
       list_all (\<lambda>r. tr_task_type r = ORCHESTRATOR_PLAN \<and> tr_case_version r = sn_case_version sn \<and>
         tr_status r = PENDING) new)"
proof -
  have load: "rp_load_snapshot postgres_orchestration c st = Some sn" using assms(2) by simp
  from pg.kickoff_returns [OF assms(1) load assms(3)] obtain new where
    inv': "store_inv st'" and key: "plan_idempotency_key c (sn_case_version sn) trigger \<in> idempotency_keys c st'"
    and load': "load_snapshot st' c = Some (sn\<lparr>sn_tasks := sn_tasks sn @ new\<rparr>)"
    and new: "list_all (\<lambda>r. tr_task_type r = ORCHESTRATOR_PLAN \<and> tr_case_version r = sn_case_version sn \<and>
         tr_status r = PENDING) new"
    and len: "length new = (if plan_idempotency_key c (sn_case_version sn) trigger \<in> idempotency_keys c st
         then 0 else 1)" "ko_created k \<longleftrightarrow> new \<noteq> []"
    by auto
  have again: "st'' = st' \<and> (\<forall>k'. res = Inr k' \<longrightarrow> \<not> ko_created k')"
    using pg.kickoff_duplicate [OF inv' _ _ assms(4)] load' key by simp
  have "length new = (if ko_created k then 1 else 0)" using len by (auto split: if_splits)
  with again load' new show ?thesis by blast
qed

definition sample_kickoff :: kickoff_env where
  "sample_kickoff = \<lparr>ke_task_id = 41, ke_execution_id = 42, ke_now = 100\<rparr>"

lemma sample_kickoff_runs:
  "\<exists>k st'. kickoff postgres_orchestration sample_kickoff 7 None sample_store = (Inr k, st')"
  using pg.kickoff_succeeds [OF sample_store_inv, of 7 _ sample_kickoff] sample_snapshot
  by (simp add: sample_kickoff_def sample_store_def used_task_ids_def)

theorem kickoff_once_per_trigger_witness:
  "\<exists>k st'. kickoff postgres_orchestration sample_kickoff 7 None sample_store = (Inr k, st') \<and>
     snd (kickoff postgres_orchestration sample_kickoff 7 None st') = st'"
proof -
  obtain k st' where run: "kickoff postgres_orchestration sample_kickoff 7 None sample_store = (Inr k, st')"
    using sample_kickoff_runs by blast
  obtain res st'' where again: "kickoff postgres_orchestration sample_kickoff 7 None st' = (res, st'')" by fastforce
  from kickoff_once_per_trigger [OF sample_store_inv sample_snapshot run again] run again show ?thesis by auto
qed

text \<open>
  The idempotency keys of scheduled tasks and of planning tasks determine the case,
  the version and the type or trigger they stand for, and never collide with each
  other (an identifier is a 128-bit UUID).
\<close>

theorem task_keys_injective:
  assumes "c < uuid_bound" and "c' < uuid_bound"
  shows "(idempotency_key c v t = idempotency_key c' v' t' \<longleftrightarrow> c = c' \<and> v = v' \<and> t = t') \<and>
    (plan_idempotency_key c v u = plan_idempotency_key c' v' u' \<longleftrightarrow> c = c' \<and> v = v' \<and> u = u') \<and>
    idempotency_key c v t \<noteq> plan_idempotency_key c' v' u'"
  using idempotency_key_injective [OF _ assms] plan_key_injective [OF _ assms] keys_disjoint by blast

theorem task_keys_injective_witness:
  "plan_idempotency_key 7 1 (Some ''a'') \<noteq> plan_idempotency_key 7 1 None"
  using task_keys_injective [of 7 7 1 CREDIT_UNDERWRITING 1 CREDIT_UNDERWRITING "Some ''a''" None] by simp

text \<open>
  A revision requested against an outdated version is refused and changes nothing.
  A revision of the current version restarts the case whatever else fails: the
  version is one higher, every existing task is superseded, no gate is satisfied but
  G1 (and it only by the hand-off that was carried over), the only task added is a
  planning task, and the two maker nodes are ready if the hand-off is there.
\<close>

theorem maker_revision_restarts:
  assumes "store_inv st" and "load_snapshot st c = Some sn"
  shows "(expected \<noteq> sn_case_version sn \<longrightarrow>
      request_maker_revision postgres_orchestration env c expected disposition actor reason st =
        (Inl (KickoffRepositoryError StaleCaseVersion), st)) \<and>
    (\<exists>sn'. load_snapshot (snd (request_maker_revision postgres_orchestration env c (sn_case_version sn)
          disposition actor reason st)) c = Some sn' \<and>
      sn_case_version sn' = sn_case_version sn + 1 \<and>
      superseded_ids sn' = map tr_task_id (sn_tasks sn) \<and>
      (\<forall>g. gr_status (effective_gate sn' g) = SATISFIED \<longleftrightarrow> g = G1_INTAKE_COMPLETE \<and> sn_has_intake_handoff sn) \<and>
      (\<exists>new. sn_tasks sn' = sn_tasks sn @ new \<and> list_all (\<lambda>r. tr_task_type r = ORCHESTRATOR_PLAN) new) \<and>
      ready_types (os_readiness (build_status sn' template_nodes)) =
        (if sn_has_intake_handoff sn then [CREDIT_UNDERWRITING, LEGAL_COMPLIANCE_COLLATERAL] else []))"
proof
  have load: "rp_load_snapshot postgres_orchestration c st = Some sn" using assms(2) by simp
  show "expected \<noteq> sn_case_version sn \<longrightarrow>
      request_maker_revision postgres_orchestration env c expected disposition actor reason st =
        (Inl (KickoffRepositoryError StaleCaseVersion), st)"
    using pg.revision_stale [OF assms(1) load] by metis
  from pg.revision_extends [OF assms(1) load, of env disposition actor reason] obtain sn' where
    load': "load_snapshot (snd (request_maker_revision postgres_orchestration env c (sn_case_version sn)
          disposition actor reason st)) c = Some sn'"
    and ext: "orch_extends {ORCHESTRATOR_PLAN} (next_version sn) sn'"
    by (auto simp: pg.extended_from_def)
  have old: "list_all (\<lambda>r. tr_case_version r \<le> sn_case_version sn) (sn_tasks sn)"
    using assms by (rule snapshot_versions)
  have "\<exists>new. sn_tasks sn' = sn_tasks sn @ new \<and> list_all (\<lambda>r. tr_task_type r = ORCHESTRATOR_PLAN) new"
    using ext by (auto simp: orch_extends_def next_version_def new_pending_def list_all_set)
  moreover have "sn_case_version sn' = sn_case_version sn + 1"
    using ext by (simp add: orch_extends_def next_version_def)
  ultimately show "\<exists>sn'. load_snapshot (snd (request_maker_revision postgres_orchestration env c (sn_case_version sn)
          disposition actor reason st)) c = Some sn' \<and>
      sn_case_version sn' = sn_case_version sn + 1 \<and>
      superseded_ids sn' = map tr_task_id (sn_tasks sn) \<and>
      (\<forall>g. gr_status (effective_gate sn' g) = SATISFIED \<longleftrightarrow> g = G1_INTAKE_COMPLETE \<and> sn_has_intake_handoff sn) \<and>
      (\<exists>new. sn_tasks sn' = sn_tasks sn @ new \<and> list_all (\<lambda>r. tr_task_type r = ORCHESTRATOR_PLAN) new) \<and>
      ready_types (os_readiness (build_status sn' template_nodes)) =
        (if sn_has_intake_handoff sn then [CREDIT_UNDERWRITING, LEGAL_COMPLIANCE_COLLATERAL] else [])"
    using load' next_version_gates [OF ext] next_version_superseded [OF ext old] next_version_ready [OF ext old]
    by (intro exI [of _ sn'] conjI) (simp_all add: build_status_readiness)
qed

theorem maker_revision_restarts_witness:
  "\<exists>sn'. load_snapshot (snd (request_maker_revision postgres_orchestration sample_kickoff 7 1 3 4 ''r'' sample_store)) 7 =
       Some sn' \<and> sn_case_version sn' = 2"
  using maker_revision_restarts [OF sample_store_inv sample_snapshot, of 1 sample_kickoff 3 4 "''r''"] by auto

end
